(* ===== verification/Prelude.thy ===== *)
theory Prelude
  imports Main "HOL-Library.Sublist" "HOL-Library.Multiset"
begin

text \<open>
  Prelude of the development: the collections of rules the component theories share, generic
  lemmas on lists and folds, and the interfaces (locales) that several components implement:

  \<^item> \<open>guarded_machine\<close>: a state machine whose every event keeps an invariant;
  \<^item> \<open>window_buffer\<close>: a buffer that keeps only the most recent \<open>cap\<close> items pushed;
  \<^item> \<open>kv_registry\<close>: a registry with lookup, insertion and removal by key;
  \<^item> \<open>best_scan\<close>: a left-to-right scan that keeps the best candidate seen so far.
\<close>

named_theorems inv_intros \<open>rules that establish the invariants of the components\<close>
named_theorems go_string \<open>rewriting rules on Go strings\<close>

section \<open>Lists\<close>

text \<open>The last \<open>n\<close> elements, the slice \<open>xs[len(xs)-n:]\<close> with its start clamped at 0.\<close>

definition last_n :: "nat \<Rightarrow> 'a list \<Rightarrow> 'a list" where
  "last_n n xs = drop (length xs - n) xs"

lemma length_last_n [simp]: "length (last_n n xs) = min n (length xs)"
  by (simp add: last_n_def)

lemma last_n_all [simp]: "length xs \<le> n \<Longrightarrow> last_n n xs = xs"
  by (simp add: last_n_def)

lemma last_n_suffix: "suffix (last_n n xs) xs"
  by (simp add: last_n_def suffix_drop)

lemma set_last_n_subset: "set (last_n n xs) \<subseteq> set xs"
  by (simp add: last_n_def set_drop_subset)

lemma last_n_append_last_n: "last_n n (last_n n xs @ ys) = last_n n (xs @ ys)"
proof (cases "length xs \<le> n")
  case True
  then show ?thesis by simp
next
  case False
  then show ?thesis by (simp add: last_n_def min_def drop_drop add.commute)
qed

lemma takeWhile_neq_split [simp]:
  "d \<notin> set us \<Longrightarrow> takeWhile (\<lambda>x. x \<noteq> d) (us @ d # vs) = us"
  by (induction us) auto

lemma foldl_append_singleton: "foldl (\<lambda>acc x. acc @ [f x]) acc xs = acc @ map f xs"
  by (induction xs arbitrary: acc) auto

lemma foldl_invariant:
  assumes "P s" and "\<And>s x. x \<in> set xs \<Longrightarrow> P s \<Longrightarrow> P (f s x)"
  shows "P (foldl f s xs)"
  using assms by (induction xs arbitrary: s) auto

text \<open>An order in which Go may range over a map: each key once.\<close>

definition ranges_over :: "'k list \<Rightarrow> ('k \<Rightarrow> 'v option) \<Rightarrow> bool" where
  "ranges_over ks m \<longleftrightarrow> distinct ks \<and> set ks = dom m"

lemma ranges_over_front:
  assumes "finite (dom m)" "k \<in> dom m"
  obtains ks where "ranges_over (k # ks) m"
proof -
  obtain ks where "set ks = dom m - {k}" "distinct ks"
    using finite_distinct_list [of "dom m - {k}"] assms(1) by auto
  with assms(2) show ?thesis by (intro that [of ks]) (auto simp: ranges_over_def)
qed

section \<open>Sorting by exchange\<close>

text \<open>
  A sort in place that compares every position with each later one and exchanges the two when the later element goes
  before: the inner loop carries the element at the position through the rest.
\<close>

fun exchange_pass :: "('a \<Rightarrow> 'a \<Rightarrow> bool) \<Rightarrow> 'a \<Rightarrow> 'a list \<Rightarrow> 'a \<times> 'a list" where
  "exchange_pass before x [] = (x, [])"
| "exchange_pass before x (y # ys) =
     (if before y x
      then (case exchange_pass before y ys of (m, rest) \<Rightarrow> (m, x # rest))
      else (case exchange_pass before x ys of (m, rest) \<Rightarrow> (m, y # rest)))"

lemma exchange_pass_length: "length (snd (exchange_pass before x ys)) = length ys"
  by (induction ys arbitrary: x) (auto split: prod.splits, metis snd_conv, metis snd_conv)

function exchange_sort :: "('a \<Rightarrow> 'a \<Rightarrow> bool) \<Rightarrow> 'a list \<Rightarrow> 'a list" where
  "exchange_sort before [] = []"
| "exchange_sort before (x # xs) =
     fst (exchange_pass before x xs) # exchange_sort before (snd (exchange_pass before x xs))"
  by pat_completeness auto
termination
  by (relation "measure (\<lambda>(before, xs). length xs)") (auto simp: exchange_pass_length)

lemma exchange_pass_mset:
  "mset (fst (exchange_pass before x ys) # snd (exchange_pass before x ys)) = mset (x # ys)"
proof (induction ys arbitrary: x)
  case (Cons y ys)
  from Cons.IH [of x] Cons.IH [of y] show ?case
    by (auto split: prod.splits simp: add_mset_commute)
qed simp

lemma exchange_sort_mset: "mset (exchange_sort before es) = mset es"
proof (induction before es rule: exchange_sort.induct)
  case (2 before x xs)
  then show ?case using exchange_pass_mset [of before x xs] by simp
qed simp

section \<open>Interfaces\<close>

text \<open>A machine whose events all keep an invariant: the invariant holds after every run.\<close>

locale guarded_machine =
  fixes step :: "'s \<Rightarrow> 'e \<Rightarrow> 's"
    and inv :: "'s \<Rightarrow> bool"
  assumes inv_step: "inv s \<Longrightarrow> inv (step s e)"
begin

lemma run_keeps: "inv s \<Longrightarrow> inv (foldl step s es)"
  by (induction es arbitrary: s) (auto intro: inv_step)

lemma run_prefix_keeps: "inv s \<Longrightarrow> inv (foldl step s (take k es))"
  by (rule run_keeps)

end

text \<open>A buffer of the most recent \<open>cap\<close> items.\<close>

locale window_buffer =
  fixes push :: "'b \<Rightarrow> 'x \<Rightarrow> 'b"
    and items :: "'b \<Rightarrow> 'x list"
    and cap :: nat
  assumes items_push: "items (push b x) = last_n cap (items b @ [x])"
begin

lemma items_run: "length (items b) \<le> cap \<Longrightarrow> items (foldl push b xs) = last_n cap (items b @ xs)"
proof (induction xs arbitrary: b)
  case Nil
  then show ?case by simp
next
  case (Cons x xs)
  have "length (items (push b x)) \<le> cap" by (simp add: items_push)
  from Cons.IH [OF this] show ?case
    by (simp add: items_push last_n_append_last_n)
qed

lemma items_bounded: "length (items b) \<le> cap \<Longrightarrow> length (items (foldl push b xs)) \<le> cap"
  by (simp add: items_run)

lemma pushed_last: "0 < cap \<Longrightarrow> last (items (push b x)) = x"
  by (simp add: items_push last_n_def)

end

text \<open>A registry by key: what a lookup returns after an insertion or a removal.\<close>

locale kv_registry =
  fixes look :: "'r \<Rightarrow> 'k \<Rightarrow> 'v option"
    and ins :: "'k \<Rightarrow> 'v \<Rightarrow> 'r \<Rightarrow> 'r"
    and del :: "'k \<Rightarrow> 'r \<Rightarrow> 'r"
  assumes look_ins: "look (ins k v r) k' = (if k' = k then Some v else look r k')"
    and look_del: "look (del k r) k' = (if k' = k then None else look r k')"
begin

lemma look_ins_same: "look (ins k v r) k = Some v"
  by (simp add: look_ins)

lemma look_ins_other: "k' \<noteq> k \<Longrightarrow> look (ins k v r) k' = look r k'"
  by (simp add: look_ins)

lemma look_del_same: "look (del k r) k = None"
  by (simp add: look_del)

lemma look_after_inserts:
  "look (foldl (\<lambda>r (k, v). ins k v r) r kvs) k =
     (case map_of (rev kvs) k of Some v \<Rightarrow> Some v | None \<Rightarrow> look r k)"
proof (induction kvs arbitrary: r)
  case Nil
  then show ?case by simp
next
  case (Cons kv kvs)
  then show ?case
    by (cases kv) (auto simp: look_ins map_add_def split: option.splits)
qed

end

text \<open>
  A scan that keeps the best candidate: a later element replaces the current best only when it
  is strictly better. The result is a maximal element, and the first one among equals.
\<close>

locale best_scan =
  fixes better :: "'a \<Rightarrow> 'a \<Rightarrow> bool"
  assumes better_irrefl: "\<not> better x x"
    and better_trans: "better x y \<Longrightarrow> better y z \<Longrightarrow> better x z"
    and better_weak: "better x z \<Longrightarrow> better x y \<or> better y z"
begin

definition pick :: "'a \<Rightarrow> 'a list \<Rightarrow> 'a" where
  "pick x xs = foldl (\<lambda>b y. if better y b then y else b) x xs"

lemma pick_Nil [simp]: "pick x [] = x"
  by (simp add: pick_def)

lemma pick_Cons [simp]: "pick x (y # ys) = pick (if better y x then y else x) ys"
  by (simp add: pick_def)

lemma pick_in: "pick x xs \<in> set (x # xs)"
proof (induction xs arbitrary: x)
  case (Cons y ys)
  from Cons.IH [of y] Cons.IH [of x] show ?case by auto
qed simp

lemma pick_not_worse: "\<not> better x (pick x xs)"
proof (induction xs arbitrary: x)
  case (Cons y ys)
  show ?case
  proof (cases "better y x")
    case True
    show ?thesis
    proof
      assume "better x (pick x (y # ys))"
      with True have "better x (pick y ys)" by simp
      with True have "better y (pick y ys)" by (rule better_trans)
      with Cons.IH [of y] show False by blast
    qed
  qed (use Cons.IH in simp)
qed (simp add: better_irrefl)

lemma pick_maximal: "z \<in> set (x # xs) \<Longrightarrow> \<not> better z (pick x xs)"
proof (induction xs arbitrary: x)
  case Nil
  then show ?case by (simp add: better_irrefl)
next
  case (Cons y ys)
  show ?case
  proof (cases "z \<in> set ys")
    case True
    with Cons.IH show ?thesis by simp
  next
    case False
    with Cons.prems have "z = x \<or> z = y" by simp
    then show ?thesis
    proof
      assume "z = x"
      then show ?thesis using pick_not_worse [of x "y # ys"] by simp
    next
      assume z: "z = y"
      show ?thesis
      proof (cases "better y x")
        case True
        with z pick_not_worse [of y ys] show ?thesis by simp
      next
        case F: False
        with z pick_not_worse [of x ys] better_weak [of y "pick x ys" x] show ?thesis by auto
      qed
    qed
  qed
qed

text \<open>The exchange sort by \<open>better\<close> is a ranking of the same elements.\<close>

lemma exchange_pass_pick: "fst (exchange_pass better x ys) = pick x ys"
  by (induction ys arbitrary: x) (auto split: prod.splits, (metis fst_conv)+)

lemma exchange_pass_best: "list_all (\<lambda>e. \<not> better e (fst (exchange_pass better x ys))) (snd (exchange_pass better x ys))"
proof -
  have "set (snd (exchange_pass better x ys)) \<subseteq> set (x # ys)"
    using arg_cong [OF exchange_pass_mset [of better x ys], of set_mset] by auto
  then show ?thesis
    using pick_maximal [of _ x ys] by (auto simp: list_all_iff exchange_pass_pick)
qed

lemma exchange_sort_sorted: "sorted_wrt (\<lambda>e f. \<not> better f e) (exchange_sort better es)"
proof (induction "length es" arbitrary: es rule: less_induct)
  case less
  show ?case
  proof (cases es)
    case (Cons x xs)
    let ?rest = "snd (exchange_pass better x xs)"
    have "set (exchange_sort better ?rest) = set ?rest"
      by (metis set_mset_mset exchange_sort_mset)
    moreover have "sorted_wrt (\<lambda>e f. \<not> better f e) (exchange_sort better ?rest)"
      by (rule less) (simp add: Cons exchange_pass_length)
    ultimately show ?thesis using exchange_pass_best [of x xs] Cons by (simp add: list_all_iff)
  qed simp
qed

text \<open>The first of the maximal elements: nothing before the winner ties with it.\<close>

lemma pick_first:
  "\<exists>us vs. x # xs = us @ pick x xs # vs \<and> (\<forall>u\<in>set us. better (pick x xs) u)"
proof (induction xs arbitrary: x)
  case Nil
  then show ?case by (auto intro: exI [where x = "[]"])
next
  case (Cons y ys)
  show ?case
  proof (cases "better y x")
    case True
    from Cons.IH [of y] obtain us vs where
      uv: "y # ys = us @ pick y ys # vs" "\<forall>u\<in>set us. better (pick y ys) u" by blast
    have "better (pick y ys) x"
      using True pick_not_worse [of y ys] better_weak by blast
    moreover have "pick x (y # ys) = pick y ys" using True by simp
    ultimately have "x # y # ys = (x # us) @ pick x (y # ys) # vs
        \<and> (\<forall>u\<in>set (x # us). better (pick x (y # ys)) u)"
      using uv by simp
    then show ?thesis by blast
  next
    case False
    from Cons.IH [of x] obtain us vs where
      uv: "x # ys = us @ pick x ys # vs" "\<forall>u\<in>set us. better (pick x ys) u" by blast
    show ?thesis
    proof (cases us)
      case Nil
      with arg_cong [OF uv(1), of hd] have "pick x ys = x" by simp
      with False have "pick x (y # ys) = x" by simp
      then have "x # y # ys = [] @ pick x (y # ys) # y # ys
          \<and> (\<forall>u\<in>set []. better (pick x (y # ys)) u)" by simp
      then show ?thesis by blast
    next
      case (Cons u us')
      with uv have x_lt: "u = x" "better (pick x ys) x" by auto
      have "better (pick x ys) y"
        using x_lt(2) False better_weak by blast
      moreover have "pick x (y # ys) = pick x ys" using False by simp
      moreover have "x # y # ys = (x # y # us') @ pick x ys # vs"
        using arg_cong [OF uv(1), of tl] Cons by simp
      ultimately have "x # y # ys = (x # y # us') @ pick x (y # ys) # vs
          \<and> (\<forall>u\<in>set (x # y # us'). better (pick x (y # ys)) u)"
        using uv(2) Cons x_lt by simp
      then show ?thesis by blast
    qed
  qed
qed

end

end
