(* ===== verification/Go_Strings.thy ===== *)
theory Go_Strings
  imports Prelude
begin

text \<open>
  The functions of Go's \<open>strings\<close> and \<open>strconv\<close> packages that the modelled code calls. A Go
  string is a sequence of bytes, here a \<open>string\<close> (a list of 8-bit characters). Case mapping and
  white space are those of the ASCII range, which is the range the code's own literals use;
  bytes above 127 are carried unchanged.
\<close>

section \<open>Characters\<close>

definition byte :: "char \<Rightarrow> nat" where
  "byte c = of_char c"

definition is_space :: "char \<Rightarrow> bool" where
  "is_space c \<longleftrightarrow> byte c \<in> {9, 10, 11, 12, 13, 32}"

definition is_upper :: "char \<Rightarrow> bool" where
  "is_upper c \<longleftrightarrow> 65 \<le> byte c \<and> byte c \<le> 90"

definition is_lower :: "char \<Rightarrow> bool" where
  "is_lower c \<longleftrightarrow> 97 \<le> byte c \<and> byte c \<le> 122"

definition is_digit :: "char \<Rightarrow> bool" where
  "is_digit c \<longleftrightarrow> 48 \<le> byte c \<and> byte c \<le> 57"

text \<open>\<open>\w\<close> of a Go regular expression.\<close>

definition is_word_byte :: "char \<Rightarrow> bool" where
  "is_word_byte c \<longleftrightarrow> is_upper c \<or> is_lower c \<or> is_digit c \<or> byte c = 95"

definition lower_char :: "char \<Rightarrow> char" where
  "lower_char c = (if is_upper c then char_of (byte c + 32) else c)"

definition upper_char :: "char \<Rightarrow> char" where
  "upper_char c = (if is_lower c then char_of (byte c - 32) else c)"

lemma byte_less [simp]: "byte c < 256"
  by (simp add: byte_def)

lemma byte_char_of: "n < 256 \<Longrightarrow> byte (char_of n) = n"
  by (simp add: byte_def)

lemma byte_eq_iff: "byte c = byte d \<longleftrightarrow> c = d"
  by (simp add: byte_def)

lemma byte_lower: "byte (lower_char c) = (if is_upper c then byte c + 32 else byte c)"
  by (simp add: lower_char_def is_upper_def byte_char_of)

lemma byte_upper: "byte (upper_char c) = (if is_lower c then byte c - 32 else byte c)"
  using byte_less [of c] by (auto simp: upper_char_def is_lower_def intro!: byte_char_of)

lemma not_upper_lower [simp]: "\<not> is_upper (lower_char c)"
  by (auto simp: is_upper_def byte_lower)

lemma lower_char_idem [simp]: "lower_char (lower_char c) = lower_char c"
  by (simp add: lower_char_def [of "lower_char c"])

lemma is_space_lower [simp]: "is_space (lower_char c) = is_space c"
  by (auto simp: is_space_def byte_lower is_upper_def)

lemma lower_char_id: "\<not> is_upper c \<Longrightarrow> lower_char c = c"
  by (simp add: lower_char_def)

section \<open>Case and trimming\<close>

definition to_lower :: "string \<Rightarrow> string" where
  "to_lower s = map lower_char s"

definition to_upper :: "string \<Rightarrow> string" where
  "to_upper s = map upper_char s"

fun trim_left :: "string \<Rightarrow> string" where
  "trim_left [] = []"
| "trim_left (c # cs) = (if is_space c then trim_left cs else c # cs)"

definition trim_right :: "string \<Rightarrow> string" where
  "trim_right s = rev (trim_left (rev s))"

definition trim_space :: "string \<Rightarrow> string" where
  "trim_space s = trim_right (trim_left s)"

lemma to_lower_idem [simp, go_string]: "to_lower (to_lower s) = to_lower s"
  by (simp add: to_lower_def)

lemma length_to_lower [simp, go_string]: "length (to_lower s) = length s"
  by (simp add: to_lower_def)

lemma to_lower_append [go_string]: "to_lower (s @ t) = to_lower s @ to_lower t"
  by (simp add: to_lower_def)

lemma to_lower_no_upper: "c \<in> set (to_lower s) \<Longrightarrow> \<not> is_upper c"
  by (auto simp: to_lower_def)

lemma trim_left_conv: "trim_left s = dropWhile is_space s"
  by (induction s) auto

lemma trim_left_suffix: "suffix (trim_left s) s"
  by (simp add: trim_left_conv suffix_dropWhile)

lemma trim_left_idem [simp]: "trim_left (trim_left s) = trim_left s"
  by (induction s) auto

lemma trim_right_prefix: "prefix (trim_right s) s"
  using trim_left_suffix [of "rev s"] by (simp add: trim_right_def suffix_to_prefix)

lemma length_trim_left: "length (trim_left s) \<le> length s"
  by (induction s) auto

lemma length_trim_space: "length (trim_space s) \<le> length s"
  by (metis length_rev length_trim_left order_trans trim_right_def trim_space_def)

lemma set_trim_space: "set (trim_space s) \<subseteq> set s"
  by (metis set_mono_prefix set_mono_suffix subset_trans trim_left_suffix trim_right_prefix
      trim_space_def)

lemma trim_left_fixed: "trim_left s = s \<longleftrightarrow> s = [] \<or> \<not> is_space (hd s)"
proof (cases s)
  case (Cons c cs)
  have "trim_left cs \<noteq> c # cs" using length_trim_left [of cs] by auto
  with Cons show ?thesis by simp
qed simp

lemma trim_space_idem [simp, go_string]: "trim_space (trim_space s) = trim_space s"
proof -
  let ?t = "trim_left s"
  have "trim_left ?t = ?t" by simp
  then have t: "?t = [] \<or> \<not> is_space (hd ?t)" by (simp only: trim_left_fixed)
  obtain zs where zs: "?t = trim_right ?t @ zs"
    using trim_right_prefix [of ?t] by (auto simp: prefix_def)
  have "trim_right ?t = [] \<or> \<not> is_space (hd (trim_right ?t))"
    using t zs by (metis append_is_Nil_conv hd_append2)
  then have "trim_left (trim_right ?t) = trim_right ?t" by (simp only: trim_left_fixed)
  then show ?thesis by (simp add: trim_space_def trim_right_def)
qed

lemma trim_left_nonspace: "s \<noteq> [] \<Longrightarrow> \<not> is_space (hd s) \<Longrightarrow> trim_left (s @ t) = s @ t"
  by (cases s) auto

lemma trim_right_keeps:
  assumes "s \<noteq> []" "\<not> is_space (last s)"
  shows "trim_right (s @ t) = s @ trim_right t"
proof -
  have "dropWhile is_space (rev s) = rev s"
    using assms by (cases "rev s") (auto simp: last_rev [symmetric] hd_rev)
  then show ?thesis
    by (cases "\<forall>c\<in>set t. is_space c")
      (auto simp: trim_right_def trim_left_conv dropWhile_append)
qed

text \<open>Trimming does not touch a text between two characters that are no spaces.\<close>

lemma trim_space_keeps:
  "s \<noteq> [] \<Longrightarrow> \<not> is_space (hd s) \<Longrightarrow> \<not> is_space (last s) \<Longrightarrow>
     trim_space (s @ t) = s @ trim_right t"
  by (simp add: trim_space_def trim_left_nonspace trim_right_keeps)

section \<open>Searching\<close>

fun has_prefix :: "string \<Rightarrow> string \<Rightarrow> bool" where
  "has_prefix s [] = True"
| "has_prefix [] (p # ps) = False"
| "has_prefix (c # cs) (p # ps) = (c = p \<and> has_prefix cs ps)"

definition has_suffix :: "string \<Rightarrow> string \<Rightarrow> bool" where
  "has_suffix s p = has_prefix (rev s) (rev p)"

fun contains_str :: "string \<Rightarrow> string \<Rightarrow> bool" where
  "contains_str [] p = (p = [])"
| "contains_str (c # cs) p = (has_prefix (c # cs) p \<or> contains_str cs p)"

text \<open>\<open>strings.Index\<close>, with \<open>None\<close> for its -1.\<close>

fun str_index :: "string \<Rightarrow> string \<Rightarrow> nat option" where
  "str_index [] p = (if p = [] then Some 0 else None)"
| "str_index (c # cs) p =
     (if has_prefix (c # cs) p then Some 0 else map_option Suc (str_index cs p))"

definition str_last_index_char :: "string \<Rightarrow> char \<Rightarrow> nat option" where
  "str_last_index_char s c =
     (case str_index (rev s) [c] of None \<Rightarrow> None | Some i \<Rightarrow> Some (length s - 1 - i))"

text \<open>\<open>strings.TrimPrefix\<close> and \<open>strings.TrimSuffix\<close>.\<close>

definition trim_prefix :: "string \<Rightarrow> string \<Rightarrow> string" where
  "trim_prefix s p = (if has_prefix s p then drop (length p) s else s)"

definition trim_suffix :: "string \<Rightarrow> string \<Rightarrow> string" where
  "trim_suffix s p = (if has_suffix s p then take (length s - length p) s else s)"

lemma has_prefix_iff [go_string]: "has_prefix s p \<longleftrightarrow> prefix p s"
  by (induction s p rule: has_prefix.induct) auto

lemma has_suffix_iff [go_string]: "has_suffix s p \<longleftrightarrow> suffix p s"
  by (simp add: has_suffix_def has_prefix_iff suffix_to_prefix)

lemma contains_str_iff [go_string]: "contains_str s p \<longleftrightarrow> sublist p s"
  by (induction s p rule: contains_str.induct)
    (auto simp: has_prefix_iff sublist_Cons_right)

lemma contains_str_Nil [simp]: "contains_str s []"
  by (cases s) auto

lemma contains_str_set: "contains_str s p \<Longrightarrow> set p \<subseteq> set s"
  by (simp add: contains_str_iff set_mono_sublist)

lemma str_index_Some:
  "str_index s p = Some i \<Longrightarrow> i + length p \<le> length s \<and> take (length p) (drop i s) = p"
proof (induction s p arbitrary: i rule: str_index.induct)
  case (2 c cs p)
  show ?case
  proof (cases "has_prefix (c # cs) p")
    case True
    then have "prefix p (c # cs)" by (simp add: has_prefix_iff)
    then have "length p \<le> length (c # cs)" "take (length p) (c # cs) = p"
      using prefix_length_le by (blast, auto simp: prefix_def)
    with True "2.prems" show ?thesis by simp
  next
    case False
    with "2.prems" obtain j where "str_index cs p = Some j" "i = Suc j" by auto
    with "2.IH" [OF False] show ?thesis by auto
  qed
qed (auto split: if_splits)

lemma str_index_None [go_string]: "str_index s p = None \<longleftrightarrow> \<not> contains_str s p"
  by (induction s p rule: str_index.induct) auto

text \<open>\<open>strings.LastIndex\<close>.\<close>

fun str_last_index :: "string \<Rightarrow> string \<Rightarrow> nat option" where
  "str_last_index [] p = (if p = [] then Some 0 else None)"
| "str_last_index (c # cs) p =
     (case str_last_index cs p of
        Some i \<Rightarrow> Some (Suc i)
      | None \<Rightarrow> if has_prefix (c # cs) p then Some 0 else None)"

lemma str_last_index_Some:
  "str_last_index s p = Some i \<Longrightarrow> i + length p \<le> length s \<and> take (length p) (drop i s) = p"
proof (induction s arbitrary: i)
  case (Cons c s)
  show ?case
  proof (cases "str_last_index s p")
    case None
    with Cons.prems have "i = 0" "prefix p (c # s)" by (auto simp: has_prefix_iff split: if_splits)
    then show ?thesis using prefix_length_le [of p "c # s"] by (auto simp: prefix_def)
  next
    case (Some j)
    with Cons show ?thesis by auto
  qed
qed (auto split: if_splits)

section \<open>Splitting and joining\<close>

fun fields_acc :: "string \<Rightarrow> string \<Rightarrow> string list" where
  "fields_acc acc [] = (if acc = [] then [] else [rev acc])"
| "fields_acc acc (c # cs) =
     (if is_space c
      then (if acc = [] then fields_acc [] cs else rev acc # fields_acc [] cs)
      else fields_acc (c # acc) cs)"

definition str_fields :: "string \<Rightarrow> string list" where
  "str_fields s = fields_acc [] s"

fun join :: "string \<Rightarrow> string list \<Rightarrow> string" where
  "join sep [] = []"
| "join sep [w] = w"
| "join sep (w # v # ws) = w @ sep @ join sep (v # ws)"

fun split_on :: "char \<Rightarrow> string \<Rightarrow> string list" where
  "split_on d [] = [[]]"
| "split_on d (c # cs) =
     (if c = d then [] # split_on d cs
      else (case split_on d cs of [] \<Rightarrow> [[c]] | w # ws \<Rightarrow> (c # w) # ws))"

text \<open>\<open>strings.FieldsFunc\<close>: the maximal runs of characters that are no separators.\<close>

fun fields_func_acc :: "(char \<Rightarrow> bool) \<Rightarrow> string \<Rightarrow> string \<Rightarrow> string list" where
  "fields_func_acc sep acc [] = (if acc = [] then [] else [rev acc])"
| "fields_func_acc sep acc (c # cs) =
     (if sep c
      then (if acc = [] then fields_func_acc sep [] cs else rev acc # fields_func_acc sep [] cs)
      else fields_func_acc sep (c # acc) cs)"

definition fields_func :: "(char \<Rightarrow> bool) \<Rightarrow> string \<Rightarrow> string list" where
  "fields_func sep s = fields_func_acc sep [] s"

text \<open>\<open>strings.SplitN(s, sep, 2)\<close> as the two parts, or \<open>None\<close> when there is one part only.\<close>

definition split_two :: "string \<Rightarrow> string \<Rightarrow> (string \<times> string) option" where
  "split_two s sep =
     (case str_index s sep of
        None \<Rightarrow> None
      | Some i \<Rightarrow> Some (take i s, drop (i + length sep) s))"

text \<open>\<open>strings.ReplaceAll\<close> for a text that is not empty.\<close>

function replace_all :: "string \<Rightarrow> string \<Rightarrow> string \<Rightarrow> string" where
  "replace_all s old new =
     (if old = [] \<or> s = [] then s
      else if has_prefix s old then new @ replace_all (drop (length old) s) old new
      else hd s # replace_all (tl s) old new)"
  by auto
termination
  by (relation "measure (\<lambda>(s, old, new). length s)") auto

declare replace_all.simps [simp del]

text \<open>\<open>strconv.Atoi\<close> on a 64-bit machine: an optional sign and decimal digits whose value fits.\<close>

definition go_atoi :: "string \<Rightarrow> int option" where
  "go_atoi s =
     (let neg = has_prefix s ''-'';
          ds = (if neg \<or> has_prefix s ''+'' then tl s else s)
      in if ds = [] \<or> \<not> list_all is_digit ds then None
         else let v = foldl (\<lambda>v c. 10 * v + (byte c - 48)) 0 ds;
                  i = (if neg then - int v else int v)
              in if - (2 ^ 63) \<le> i \<and> i < 2 ^ 63 then Some i else None)"

definition count_char :: "string \<Rightarrow> char \<Rightarrow> int" where
  "count_char s c = int (length (filter (\<lambda>d. d = c) s))"

lemma fields_acc_words:
  "w \<in> set (fields_acc acc s) \<Longrightarrow> \<forall>c\<in>set acc. \<not> is_space c \<Longrightarrow>
     w \<noteq> [] \<and> (\<forall>c\<in>set w. \<not> is_space c)"
proof (induction acc s rule: fields_acc.induct)
  case (1 acc)
  then show ?case by (simp split: if_splits)
next
  case (2 acc c cs)
  show ?case
  proof (cases "is_space c")
    case True
    show ?thesis
    proof (cases "acc = []")
      case A: True
      with True "2.prems"(1) have "w \<in> set (fields_acc [] cs)" by simp
      from "2.IH"(1) [OF True A this] show ?thesis by simp
    next
      case A: False
      with True "2.prems"(1) have "w = rev acc \<or> w \<in> set (fields_acc [] cs)" by simp
      with "2.IH"(2) [OF True A] "2.prems"(2) A show ?thesis by (metis empty_iff empty_set
          rev_is_Nil_conv set_rev)
    qed
  next
    case False
    with "2.prems"(1) have "w \<in> set (fields_acc (c # acc) cs)" by simp
    moreover have "\<forall>d\<in>set (c # acc). \<not> is_space d" using False "2.prems"(2) by simp
    ultimately show ?thesis by (rule "2.IH"(3) [OF False])
  qed
qed

lemma fields_words: "w \<in> set (str_fields s) \<Longrightarrow> w \<noteq> [] \<and> (\<forall>c\<in>set w. \<not> is_space c)"
  by (auto simp: str_fields_def dest: fields_acc_words)

lemma fields_acc_word:
  "\<forall>c\<in>set w. \<not> is_space c \<Longrightarrow> fields_acc acc (w @ s) = fields_acc (rev w @ acc) s"
  by (induction w arbitrary: acc) auto

lemma fields_join:
  "\<forall>w\<in>set ws. w \<noteq> [] \<and> (\<forall>c\<in>set w. \<not> is_space c) \<Longrightarrow> str_fields (join '' '' ws) = ws"
proof (induction "'' ''" ws rule: join.induct)
  case 1
  then show ?case by (simp add: str_fields_def)
next
  case (2 w)
  then show ?case
    using fields_acc_word [of w "[]" "[]"] by (simp add: str_fields_def)
next
  case (3 w v ws)
  then have w: "w \<noteq> []" "\<forall>c\<in>set w. \<not> is_space c" by auto
  have sp: "is_space (CHR '' '')" by (simp add: is_space_def byte_def)
  from 3 have "str_fields (join '' '' (v # ws)) = v # ws" by simp
  with w sp fields_acc_word [of w "[]" "'' '' @ join '' '' (v # ws)"] show ?case
    by (simp add: str_fields_def)
qed

lemma map_to_lower_fields_acc:
  "fields_acc (map lower_char acc) (to_lower s) = map to_lower (fields_acc acc s)"
proof (induction acc s rule: fields_acc.induct)
  case (2 acc c cs)
  have "map lower_char (c # acc) = lower_char c # map lower_char acc" by simp
  with 2 show ?case by (auto simp: to_lower_def rev_map)
qed (auto simp: to_lower_def rev_map)

lemma to_lower_fields: "str_fields (to_lower s) = map to_lower (str_fields s)"
  using map_to_lower_fields_acc [of "[]" s] by (simp add: str_fields_def)

lemma to_lower_join: "to_lower (join '' '' ws) = join '' '' (map to_lower ws)"
  by (induction "'' ''" ws rule: join.induct)
    (auto simp: to_lower_def lower_char_def is_upper_def byte_def)

lemma split_on_nonempty: "split_on d s \<noteq> []"
  by (induction s) (auto split: list.splits)

section \<open>Decimal numerals\<close>

fun dec_digits :: "nat \<Rightarrow> string" where
  "dec_digits n =
     (if n < 10 then [char_of (48 + n)] else dec_digits (n div 10) @ [char_of (48 + n mod 10)])"

declare dec_digits.simps [simp del]

definition itoa :: "int \<Rightarrow> string" where
  "itoa i = (if i < 0 then CHR ''-'' # dec_digits (nat (- i)) else dec_digits (nat i))"

lemma dec_digits_nonempty: "dec_digits n \<noteq> []"
  by (subst dec_digits.simps) simp

lemma dec_digits_chars: "c \<in> set (dec_digits n) \<Longrightarrow> is_digit c"
proof (induction n rule: dec_digits.induct)
  case (1 n)
  have "is_digit (char_of (48 + m))" if "m < 10" for m :: nat
    using that by (simp add: is_digit_def byte_char_of)
  with 1 show ?case by (subst (asm) (2) dec_digits.simps) (auto split: if_splits)
qed

text \<open>Reading a numeral back, which makes printing injective.\<close>

definition dec_value :: "string \<Rightarrow> nat" where
  "dec_value s = foldl (\<lambda>v c. 10 * v + (byte c - 48)) 0 s"

lemma dec_value_digits: "dec_value (dec_digits n) = n"
proof (induction n rule: dec_digits.induct)
  case (1 n)
  show ?case
  proof (cases "n < 10")
    case True
    then have "dec_digits n = [char_of (48 + n)]" by (subst dec_digits.simps) simp
    with True show ?thesis by (simp add: dec_value_def byte_char_of)
  next
    case False
    then have "dec_digits n = dec_digits (n div 10) @ [char_of (48 + n mod 10)]" by (subst dec_digits.simps) simp
    with 1 [OF False] show ?thesis by (simp add: dec_value_def byte_char_of)
  qed
qed

lemma dec_digits_inject [simp]: "dec_digits m = dec_digits n \<longleftrightarrow> m = n"
  using dec_value_digits by metis

lemma dec_digits_no: "\<not> is_digit c \<Longrightarrow> c \<notin> set (dec_digits n)"
  using dec_digits_chars by blast

lemma itoa_nat: "itoa (int n) = dec_digits n"
  by (simp add: itoa_def)

end
