(* ===== verification/Circuit_Breaker.thy ===== *)
theory Circuit_Breaker
  imports Go_Strings
begin

text \<open>
  The provider circuit breaker of \<open>internal/llm/circuit.go\<close>: its three states, the counter of
  consecutive failures and the reset timeout. Times and durations are integers (nanoseconds); the
  clock reading of an operation is its argument. Logging and the mutex, under which every operation
  runs as one atomic step, are left out.
\<close>

section \<open>State and operations\<close>

datatype circuit_state = CircuitClosed | CircuitOpen | CircuitHalfOpen

fun circuit_state_string :: "circuit_state \<Rightarrow> string" where
  "circuit_state_string CircuitClosed = ''closed''"
| "circuit_state_string CircuitOpen = ''open''"
| "circuit_state_string CircuitHalfOpen = ''half_open''"

record circuit_breaker =
  failure_threshold :: int
  reset_timeout :: int
  cb_state :: circuit_state
  failures :: int
  last_failure_time :: int

definition new_circuit_breaker :: "int \<Rightarrow> int \<Rightarrow> circuit_breaker" where
  "new_circuit_breaker threshold timeout =
     \<lparr>failure_threshold = threshold, reset_timeout = timeout, cb_state = CircuitClosed,
      failures = 0, last_failure_time = 0\<rparr>"

definition record_success :: "circuit_breaker \<Rightarrow> circuit_breaker" where
  "record_success cb =
     (let cb1 = (if cb_state cb = CircuitHalfOpen then cb\<lparr>cb_state := CircuitClosed\<rparr> else cb)
      in cb1\<lparr>failures := 0\<rparr>)"

text \<open>\<open>RecordFailure\<close> returns true for its error \<open>ErrCircuitOpen\<close>, false for nil.\<close>

definition record_failure :: "int \<Rightarrow> circuit_breaker \<Rightarrow> circuit_breaker \<times> bool" where
  "record_failure now cb =
     (let cb1 = cb\<lparr>failures := failures cb + 1, last_failure_time := now\<rparr>
      in if failures cb1 \<ge> failure_threshold cb1
         then (cb1\<lparr>cb_state := CircuitOpen\<rparr>, True)
         else (cb1, False))"

definition cb_allow :: "int \<Rightarrow> circuit_breaker \<Rightarrow> circuit_breaker \<times> bool" where
  "cb_allow now cb =
     (case cb_state cb of
        CircuitClosed \<Rightarrow> (cb, True)
      | CircuitOpen \<Rightarrow>
          if now - last_failure_time cb > reset_timeout cb
          then (cb\<lparr>cb_state := CircuitHalfOpen\<rparr>, True)
          else (cb, False)
      | CircuitHalfOpen \<Rightarrow> (cb, True))"

definition cb_reset :: "circuit_breaker \<Rightarrow> circuit_breaker" where
  "cb_reset cb = cb\<lparr>cb_state := CircuitClosed, failures := 0\<rparr>"

section \<open>Runs\<close>

text \<open>The calls a breaker receives, in the order its mutex serialises them.\<close>

datatype cb_event = Succeeded | Failed int | Asked int | ManualReset

fun cb_step :: "circuit_breaker \<Rightarrow> cb_event \<Rightarrow> circuit_breaker" where
  "cb_step cb Succeeded = record_success cb"
| "cb_step cb (Failed now) = fst (record_failure now cb)"
| "cb_step cb (Asked now) = fst (cb_allow now cb)"
| "cb_step cb ManualReset = cb_reset cb"

definition cb_run :: "circuit_breaker \<Rightarrow> cb_event list \<Rightarrow> circuit_breaker" where
  "cb_run cb es = foldl cb_step cb es"

lemmas cb_op_defs = record_success_def record_failure_def cb_allow_def cb_reset_def Let_def

lemma cb_step_threshold [simp]: "failure_threshold (cb_step cb e) = failure_threshold cb"
  by (cases e) (auto simp: cb_op_defs split: circuit_state.splits)

lemma cb_run_threshold [simp]: "failure_threshold (foldl cb_step cb es) = failure_threshold cb"
  by (induction es arbitrary: cb) auto

lemma cb_step_timeout [simp]: "reset_timeout (cb_step cb e) = reset_timeout cb"
  by (cases e) (auto simp: cb_op_defs split: circuit_state.splits)

text \<open>The invariant: a closed breaker has seen fewer failures in a row than its threshold.\<close>

definition cb_inv :: "circuit_breaker \<Rightarrow> bool" where
  "cb_inv cb \<longleftrightarrow> 0 < failure_threshold cb \<and> 0 \<le> failures cb \<and>
     (cb_state cb = CircuitClosed \<longrightarrow> failures cb < failure_threshold cb)"

lemma cb_inv_step: "cb_inv cb \<Longrightarrow> cb_inv (cb_step cb e)"
  by (cases e) (auto simp: cb_inv_def cb_op_defs split: circuit_state.splits)

interpretation breaker: guarded_machine cb_step cb_inv
  by unfold_locales (rule cb_inv_step)

lemma cb_inv_new: "0 < threshold \<Longrightarrow> cb_inv (new_circuit_breaker threshold timeout)"
  by (simp add: cb_inv_def new_circuit_breaker_def)

text \<open>
  The stronger invariant of runs in which no success is reported while the breaker is open:
  outside the closed state the counter is still at the threshold.
\<close>

definition cb_tripped_inv :: "circuit_breaker \<Rightarrow> bool" where
  "cb_tripped_inv cb \<longleftrightarrow> cb_inv cb \<and>
     (cb_state cb \<noteq> CircuitClosed \<longrightarrow> failure_threshold cb \<le> failures cb)"

fun no_late_success :: "circuit_breaker \<Rightarrow> cb_event list \<Rightarrow> bool" where
  "no_late_success cb [] = True"
| "no_late_success cb (e # es) =
     (\<not> (e = Succeeded \<and> cb_state cb = CircuitOpen) \<and> no_late_success (cb_step cb e) es)"

lemma cb_tripped_step:
  "cb_tripped_inv cb \<Longrightarrow> \<not> (e = Succeeded \<and> cb_state cb = CircuitOpen) \<Longrightarrow>
     cb_tripped_inv (cb_step cb e)"
  by (cases e; cases "cb_state cb") (auto simp: cb_tripped_inv_def cb_inv_def cb_op_defs)

lemma cb_tripped_run:
  "cb_tripped_inv cb \<Longrightarrow> no_late_success cb es \<Longrightarrow> cb_tripped_inv (foldl cb_step cb es)"
  by (induction es arbitrary: cb) (auto intro: cb_tripped_step)

lemma cb_tripped_new: "0 < threshold \<Longrightarrow> cb_tripped_inv (new_circuit_breaker threshold timeout)"
  by (simp add: cb_tripped_inv_def cb_inv_new, simp add: new_circuit_breaker_def)

lemma failures_run_Failed:
  "failures (foldl cb_step cb (map Failed ts)) = failures cb + int (length ts)"
  by (induction ts arbitrary: cb) (auto simp: cb_op_defs)

lemma closed_run_Failed:
  "cb_state cb = CircuitClosed \<Longrightarrow> failures cb + int (length ts) < failure_threshold cb \<Longrightarrow>
     cb_state (foldl cb_step cb (map Failed ts)) = CircuitClosed"
  by (induction ts arbitrary: cb) (auto simp: cb_op_defs)

lemma open_after_last_Failed:
  "failures cb + 1 \<ge> failure_threshold cb \<Longrightarrow> cb_state (cb_step cb (Failed t)) = CircuitOpen"
  by (simp add: cb_op_defs)

section \<open>Properties\<close>

text \<open>
  C11: in every run from a new breaker with a positive threshold, whatever the order of the calls,
  a closed breaker has fewer than \<open>failureThreshold\<close> failures on its counter, so a closed breaker
  never hides a tripped counter.
\<close>

theorem breaker_closed_below_threshold:
  assumes "0 < threshold"
    and "cb_state (cb_run (new_circuit_breaker threshold timeout) es) = CircuitClosed"
  shows "failures (cb_run (new_circuit_breaker threshold timeout) es) < threshold"
proof -
  have "cb_inv (cb_run (new_circuit_breaker threshold timeout) es)"
    unfolding cb_run_def using assms(1) by (intro breaker.run_keeps cb_inv_new)
  moreover have "failure_threshold (cb_run (new_circuit_breaker threshold timeout) es) = threshold"
    by (simp add: cb_run_def new_circuit_breaker_def)
  ultimately show ?thesis using assms(2) by (simp add: cb_inv_def)
qed

theorem breaker_closed_below_threshold_witness:
  "failures (cb_run (new_circuit_breaker 2 10) [Failed 5, Asked 6]) < 2"
  by (rule breaker_closed_below_threshold)
    (simp_all add: cb_run_def new_circuit_breaker_def cb_op_defs)

text \<open>
  A closed breaker with a cleared counter opens exactly when the run of consecutive failures
  reaches the threshold: fewer failures leave it closed, the last one of \<open>failureThreshold\<close> opens it.
\<close>

lemma breaker_opens_exactly_at_threshold:
  assumes "0 < threshold"
  shows "cb_state (cb_run (new_circuit_breaker threshold timeout) (map Failed ts)) =
           (if int (length ts) < threshold then CircuitClosed else CircuitOpen)"
proof (cases "int (length ts) < threshold")
  case True
  then show ?thesis
    by (simp add: cb_run_def closed_run_Failed new_circuit_breaker_def)
next
  case False
  with assms have "ts \<noteq> []" by auto
  then obtain us t where ts: "ts = us @ [t]" by (metis rev_exhaust)
  let ?cb = "foldl cb_step (new_circuit_breaker threshold timeout) (map Failed us)"
  have "failures ?cb + 1 \<ge> failure_threshold ?cb"
    using False ts by (simp add: failures_run_Failed new_circuit_breaker_def)
  then have "cb_state (cb_step ?cb (Failed t)) = CircuitOpen" by (rule open_after_last_Failed)
  with False ts show ?thesis by (simp add: cb_run_def)
qed

lemma breaker_opens_exactly_at_threshold_witness:
  "cb_state (cb_run (new_circuit_breaker 3 10) (map Failed [1, 2, 3])) = CircuitOpen"
  by (subst breaker_opens_exactly_at_threshold) simp_all

text \<open>
  If no success is reported while the breaker is open, then a failed probe in the half-open state
  always reopens the breaker and reports \<open>ErrCircuitOpen\<close>.
\<close>

lemma breaker_probe_failure_reopens:
  assumes "0 < threshold"
    and "no_late_success (new_circuit_breaker threshold timeout) es"
    and "cb_state (cb_run (new_circuit_breaker threshold timeout) es) = CircuitHalfOpen"
  shows "let (cb, err) = record_failure now (cb_run (new_circuit_breaker threshold timeout) es)
         in cb_state cb = CircuitOpen \<and> err"
proof -
  let ?cb = "cb_run (new_circuit_breaker threshold timeout) es"
  have "cb_tripped_inv ?cb"
    unfolding cb_run_def using assms(1,2) by (intro cb_tripped_run cb_tripped_new)
  with assms(3) have "failure_threshold ?cb \<le> failures ?cb"
    by (simp add: cb_tripped_inv_def)
  then show ?thesis by (simp add: record_failure_def Let_def)
qed

lemma breaker_probe_failure_reopens_witness:
  "let (cb, err) = record_failure 30 (cb_run (new_circuit_breaker 2 10) [Failed 1, Failed 2, Asked 20])
   in cb_state cb = CircuitOpen \<and> err"
  by (rule breaker_probe_failure_reopens)
    (simp_all add: cb_run_def new_circuit_breaker_def cb_op_defs)

text \<open>
  Without that condition the half-open state does not protect the provider. A success of a request
  that was in flight when the breaker opened clears the counter but leaves the breaker open; after the
  timeout the failed probe then neither reopens the breaker nor blocks the next request.
\<close>

lemma breaker_late_success_disables_probe:
  assumes "1 < threshold" and "0 \<le> timeout" and "length ts = nat threshold"
    and "last (0 # ts) + timeout < t1"
  shows "let cb = cb_run (new_circuit_breaker threshold timeout)
                    (map Failed ts @ [Succeeded, Asked t1, Failed t2])
         in cb_state cb = CircuitHalfOpen \<and> snd (cb_allow t3 cb)"
proof -
  from assms(1,3) have "ts \<noteq> []" by auto
  then obtain us t where ts: "ts = us @ [t]" by (metis rev_exhaust)
  let ?cb = "foldl cb_step (new_circuit_breaker threshold timeout) (map Failed us)"
  let ?cb1 = "cb_step ?cb (Failed t)"
  have timeout_us: "reset_timeout (foldl cb_step cb (map Failed us)) = reset_timeout cb" for cb
    by (induction us arbitrary: cb) (auto simp: cb_op_defs)
  have "failures ?cb = threshold - 1"
    using assms(1,3) ts by (simp add: failures_run_Failed new_circuit_breaker_def)
  then have "cb_state ?cb1 = CircuitOpen" "last_failure_time ?cb1 = t"
      "reset_timeout ?cb1 = timeout" "failure_threshold ?cb1 = threshold"
    by (simp_all add: cb_op_defs timeout_us new_circuit_breaker_def)
  then have "cb_state (foldl cb_step ?cb1 [Succeeded, Asked t1, Failed t2]) = CircuitHalfOpen"
    using assms(1,4) ts by (simp add: cb_op_defs)
  then show ?thesis
    by (simp add: ts cb_run_def cb_allow_def Let_def)
qed

lemma breaker_late_success_disables_probe_witness:
  "let cb = cb_run (new_circuit_breaker 2 10) (map Failed [1, 2] @ [Succeeded, Asked 20, Failed 21])
   in cb_state cb = CircuitHalfOpen \<and> snd (cb_allow 22 cb)"
  by (rule breaker_late_success_disables_probe) simp_all

end
