(* ===== verification/Kyoci_Types.thy ===== *)
theory Kyoci_Types
  imports Go_Strings
begin

text \<open>
  The data types of the public package \<open>pkg/\<close> that several components exchange: chat messages and
  tool calls, the result of a task, and the small text helpers the agent package shares. An entry of the
  tool log is the tool, its arguments and whether it succeeded; durations and token usage statistics are left out.
\<close>

section \<open>Messages\<close>

datatype message_role = RoleSystem | RoleUser | RoleAssistant | RoleTool

record tool_call =
  tc_id :: string
  tc_name :: string
  tc_arguments :: string

record message =
  msg_role :: message_role
  msg_content :: string
  msg_name :: string
  msg_tool_call_id :: string
  msg_tool_calls :: "tool_call list"

definition plain_message :: "message_role \<Rightarrow> string \<Rightarrow> message" where
  "plain_message r c =
     \<lparr>msg_role = r, msg_content = c, msg_name = [], msg_tool_call_id = [], msg_tool_calls = []\<rparr>"

section \<open>Task results\<close>

record task_result =
  tr_content :: string
  tr_role :: string
  tr_tool_calls_made :: int
  tr_iterations :: int
  tr_tool_log :: "(string \<times> string \<times> bool) list"

definition empty_task_result :: task_result where
  "empty_task_result = \<lparr>tr_content = [], tr_role = [], tr_tool_calls_made = 0, tr_iterations = 0,
     tr_tool_log = []\<rparr>"

section \<open>Text helpers\<close>

definition nl :: string where
  "nl = [CHR 0x0A]"

text \<open>\<open>truncateStr\<close> of the agent package.\<close>

definition truncate_str :: "string \<Rightarrow> nat \<Rightarrow> string" where
  "truncate_str s max_len = (if length s \<le> max_len then s else take max_len s @ ''...'')"

lemma length_truncate_str: "length (truncate_str s n) \<le> n + 3"
  by (simp add: truncate_str_def)

lemma truncate_str_short [simp]: "length s \<le> n \<Longrightarrow> truncate_str s n = s"
  by (simp add: truncate_str_def)

section \<open>The protocol of tool calls\<close>

text \<open>Every message that calls tools is followed by one result for each of its calls, in order, and no result stands alone.\<close>

function protocol_ok :: "message list \<Rightarrow> bool" where
  "protocol_ok [] = True"
| "protocol_ok (m # ms) =
     (if msg_tool_calls m = [] then msg_role m \<noteq> RoleTool \<and> protocol_ok ms
      else
        let n = length (msg_tool_calls m)
        in msg_role m = RoleAssistant \<and>
           map msg_tool_call_id (take n ms) = map tc_id (msg_tool_calls m) \<and>
           list_all (\<lambda>r. msg_role r = RoleTool \<and> msg_tool_calls r = []) (take n ms) \<and>
           protocol_ok (drop n ms))"
  by pat_completeness auto
termination
  by (relation "measure length") auto

lemma protocol_append: "protocol_ok ms \<Longrightarrow> protocol_ok ns \<Longrightarrow> protocol_ok (ms @ ns)"
proof (induction ms rule: protocol_ok.induct)
  case (2 m ms)
  show ?case
  proof (cases "msg_tool_calls m = []")
    case False
    let ?n = "length (msg_tool_calls m)"
    have ids: "map msg_tool_call_id (take ?n ms) = map tc_id (msg_tool_calls m)" using 2(3) False by (simp add: Let_def)
    then have n: "?n \<le> length ms" by (metis length_map length_take min.absorb_iff2 min.commute nle_le)
    then have "take ?n (ms @ ns) = take ?n ms" "drop ?n (ms @ ns) = drop ?n ms @ ns" using n by simp_all
    then show ?thesis using 2(2) [OF False refl] 2(3,4) False n by (simp add: Let_def)
  qed (use 2 in simp)
qed simp

lemma plain_protocol: "r \<noteq> RoleTool \<Longrightarrow> protocol_ok (plain_message r c # ms) = protocol_ok ms"
  by (simp add: plain_message_def)

end
