(* ===== verification/Hitl_Retry.thy ===== *)
theory Hitl_Retry
  imports Kyoci_Types
begin

text \<open>
  The human-in-the-loop retry loop of \<open>internal/orchestrator/hitl.go\<close>. The agent, the verification
  command and the operator hook are the environment: functions of the attempt number, since the loop
  calls each of them at most once per attempt. What the loop does to the outside world (running the
  agent on a prompt, running the command, asking for help, recording a lesson) is a log of events.

  A line of a task is a \<open>VERIFY:\<close> directive as the multi-line regular expression of the source matches
  it: blanks, the word in any case, a colon, and at least one more character on the same line.
\<close>

section \<open>The VERIFY directive\<close>

definition is_blank :: "char \<Rightarrow> bool" where
  "is_blank c \<longleftrightarrow> byte c = 32 \<or> byte c = 9"

definition verify_directive :: "string \<Rightarrow> string option" where
  "verify_directive line =
     (let r = dropWhile is_blank line
      in if has_prefix (to_lower r) ''verify:'' \<and> drop 7 r \<noteq> [] then Some (drop 7 r) else None)"

definition task_lines :: "string \<Rightarrow> string list" where
  "task_lines task = split_on (CHR 0x0A) task"

fun first_directive :: "string list \<Rightarrow> string option" where
  "first_directive [] = None"
| "first_directive (l # ls) =
     (case verify_directive l of Some cmd \<Rightarrow> Some cmd | None \<Rightarrow> first_directive ls)"

definition extract_verify_command :: "string \<Rightarrow> string" where
  "extract_verify_command task =
     (case first_directive (task_lines task) of None \<Rightarrow> [] | Some cmd \<Rightarrow> trim_space cmd)"

definition strip_verify_directive :: "string \<Rightarrow> string" where
  "strip_verify_directive task =
     trim_space (join nl (map (\<lambda>l. if verify_directive l = None then l else []) (task_lines task)))"

definition truncate_for_hitl :: "string \<Rightarrow> nat \<Rightarrow> string" where
  "truncate_for_hitl s max_len =
     (let s = trim_space s
      in if length s \<le> max_len then s else take max_len s @ ''...(truncated)'')"

definition lesson_fix_summary :: "task_result option \<Rightarrow> string" where
  "lesson_fix_summary result =
     (case result of
        None \<Rightarrow> ''(no agent output)''
      | Some r \<Rightarrow>
          let c = trim_space (tr_content r)
          in if c = [] then ''(empty agent output)'' else truncate_for_hitl c 500)"

section \<open>The environment, the loop state and its events\<close>

record help_request =
  hr_task_id :: string
  hr_role :: string
  hr_attempt :: int
  hr_question :: string
  hr_last_error :: string
  hr_attempted_fixes :: "string list"

datatype hook_reply = HookHint string | HookNoSubscriber | HookError string

record lesson_input =
  li_task_id :: string
  li_task :: string
  li_failure :: string
  li_hint :: string
  li_fix :: string
  li_verify_cmd :: string

text \<open>
  \<open>env_agent\<close> is the role's \<open>Execute\<close> (result and error text), \<open>env_verify\<close> the output of the command
  and the text of its exec error, \<open>None\<close> for exit status 0.
\<close>

record hitl_env =
  env_agent :: "int \<Rightarrow> string \<Rightarrow> task_result option \<times> string option"
  env_verify :: "int \<Rightarrow> string \<times> string option"
  env_hook :: "(help_request \<Rightarrow> hook_reply) option"
  env_reflection :: bool
  env_task_id :: string

datatype hitl_event =
    AgentRun int string
  | VerifyRun int bool
  | HelpAsked help_request
  | LessonRecorded lesson_input

datatype hitl_error =
    ErrVerifyFailed int string
  | ErrHITLExhausted string
  | ErrHITLUnavailable int string
  | ErrHITLHook string string

datatype hitl_outcome =
    FastPath "task_result option" "string option"
  | Solved task_result
  | GaveUp "task_result option" hitl_error

record hitl_state =
  hs_attempts :: "string list"
  hs_last_result :: "task_result option"
  hs_last_verify :: string
  hs_hint :: string
  hs_hint_injected :: bool
  hs_log :: "hitl_event list"

definition hitl_init :: hitl_state where
  "hitl_init = \<lparr>hs_attempts = [], hs_last_result = None, hs_last_verify = [], hs_hint = [],
     hs_hint_injected = False, hs_log = []\<rparr>"

definition run_verify :: "hitl_env \<Rightarrow> int \<Rightarrow> bool \<times> string \<times> string option" where
  "run_verify env attempt = (let (out, err) = env_verify env attempt in (err = None, out, err))"

definition show_err :: "string option \<Rightarrow> string" where
  "show_err e = (case e of None \<Rightarrow> ''<nil>'' | Some t \<Rightarrow> t)"

definition show_bool :: "bool \<Rightarrow> string" where
  "show_bool b = (if b then ''true'' else ''false'')"

section \<open>The retry loop\<close>

definition attempt_prompt :: "string \<Rightarrow> int \<Rightarrow> int \<Rightarrow> hitl_state \<Rightarrow> string" where
  "attempt_prompt clean attempt tot st =
     (if attempt = 1 then clean
      else if hs_hint_injected st then
        clean @ nl @ nl @ ''---'' @ nl @ ''HINT FROM HUMAN OPERATOR (attempt '' @ itoa attempt @
        '' of '' @ itoa tot @ ''):'' @ nl @ hs_hint st @ nl @ ''---'' @ nl @
        ''Apply this hint to your next fix. Do not repeat previous mistakes.''
      else
        clean @ nl @ nl @ ''---'' @ nl @ ''PREVIOUS ATTEMPT '' @ itoa (attempt - 1) @
        '' FAILED verification (attempt '' @ itoa attempt @ '' of '' @ itoa tot @ '').'' @ nl @
        ''Verify output:'' @ nl @ truncate_for_hitl (hs_last_verify st) 1500 @ nl @ ''---'' @ nl @
        ''Try a different approach. Do not repeat the same fix.'')"

definition attempt_summary :: "int \<Rightarrow> bool \<Rightarrow> string option \<Rightarrow> string \<Rightarrow> string" where
  "attempt_summary attempt pass verr out =
     ''attempt '' @ itoa attempt @ '': pass='' @ show_bool pass @ '' verify_err='' @ show_err verr @
     '' output_len='' @ itoa (int (length out))"

definition make_help_request ::
  "hitl_env \<Rightarrow> string \<Rightarrow> string \<Rightarrow> int \<Rightarrow> hitl_state \<Rightarrow> help_request" where
  "make_help_request env role clean attempt st =
     \<lparr>hr_task_id = env_task_id env, hr_role = role, hr_attempt = attempt,
      hr_question = ''I am stuck on task: '' @ truncate_for_hitl clean 300 @ nl @ nl @
        ''Last verification output:'' @ nl @ truncate_for_hitl (hs_last_verify st) 800 @ nl @ nl @
        ''I've tried '' @ itoa attempt @ '' attempt(s). Can you provide a hint?'',
      hr_last_error = truncate_for_hitl (hs_last_verify st) 1500,
      hr_attempted_fixes = hs_attempts st\<rparr>"

definition lesson_events ::
  "hitl_env \<Rightarrow> string \<Rightarrow> string \<Rightarrow> task_result option \<Rightarrow> hitl_state \<Rightarrow> hitl_event list" where
  "lesson_events env clean cmd result st =
     (if hs_hint_injected st \<and> env_reflection env
      then [LessonRecorded \<lparr>li_task_id = env_task_id env, li_task = clean,
              li_failure = hd (hs_attempts st), li_hint = hs_hint st,
              li_fix = lesson_fix_summary result, li_verify_cmd = cmd\<rparr>]
      else [])"

text \<open>One pass of the agent and of the command, up to the decision what to do next.\<close>

definition hitl_try :: "hitl_env \<Rightarrow> string \<Rightarrow> int \<Rightarrow> int \<Rightarrow> hitl_state \<Rightarrow> hitl_state \<times> bool" where
  "hitl_try env clean tot attempt st =
     (let prompt = attempt_prompt clean attempt tot st;
          (result, run_err) = env_agent env attempt prompt;
          (pass, out, verr) = run_verify env attempt
      in (st\<lparr>hs_last_result := result, hs_last_verify := out,
             hs_attempts := hs_attempts st @ [attempt_summary attempt pass verr out],
             hs_log := hs_log st @ [AgentRun attempt prompt, VerifyRun attempt pass]\<rparr>, pass))"

text \<open>The body of the loop: the next state and, when the loop returns here, its result.\<close>

definition hitl_body ::
  "hitl_env \<Rightarrow> string \<Rightarrow> string \<Rightarrow> string \<Rightarrow> int \<Rightarrow> int \<Rightarrow> int \<Rightarrow> hitl_state
     \<Rightarrow> hitl_state \<times> hitl_outcome option" where
  "hitl_body env role clean cmd pre tot attempt st0 =
     (let (st, pass) = hitl_try env clean tot attempt st0
      in if pass then
           let result = (case hs_last_result st of
                 None \<Rightarrow> empty_task_result\<lparr>tr_content := ''verification passed''\<rparr> | Some r \<Rightarrow> r)
           in (st\<lparr>hs_log := hs_log st @ lesson_events env clean cmd (hs_last_result st) st\<rparr>,
               Some (Solved (result\<lparr>tr_role := role\<rparr>)))
         else if \<not> hs_hint_injected st \<and> attempt = pre \<and> env_hook env \<noteq> None then
           let req = make_help_request env role clean attempt st;
               st = st\<lparr>hs_log := hs_log st @ [HelpAsked req]\<rparr>
           in (case the (env_hook env) req of
                 HookNoSubscriber \<Rightarrow>
                   (st, Some (GaveUp (hs_last_result st) (ErrHITLUnavailable attempt (hs_last_verify st))))
               | HookError e \<Rightarrow>
                   (st, Some (GaveUp (hs_last_result st)
                      (ErrHITLHook e (truncate_for_hitl (hs_last_verify st) 200))))
               | HookHint h \<Rightarrow> (st\<lparr>hs_hint := h, hs_hint_injected := True\<rparr>, None))
         else if attempt = tot then
           (if hs_hint_injected st
            then (st, Some (GaveUp (hs_last_result st) (ErrHITLExhausted (hs_last_verify st))))
            else (st, Some (GaveUp (hs_last_result st) (ErrVerifyFailed attempt (hs_last_verify st)))))
         else (st, None))"

function hitl_loop ::
  "hitl_env \<Rightarrow> string \<Rightarrow> string \<Rightarrow> string \<Rightarrow> int \<Rightarrow> int \<Rightarrow> int \<Rightarrow> hitl_state
     \<Rightarrow> hitl_state \<times> hitl_outcome" where
  "hitl_loop env role clean cmd pre tot attempt st =
     (if attempt \<le> tot then
        (case hitl_body env role clean cmd pre tot attempt st of
           (st', Some res) \<Rightarrow> (st', res)
         | (st', None) \<Rightarrow> hitl_loop env role clean cmd pre tot (attempt + 1) st')
      else (st, GaveUp (hs_last_result st) (ErrVerifyFailed tot (hs_last_verify st))))"
  by pat_completeness auto
termination
  by (relation "measure (\<lambda>(env, role, clean, cmd, pre, tot, attempt, st).
        nat (tot + 1 - attempt))") auto

declare hitl_loop.simps [simp del]

text \<open>\<open>hitlCfg\<close> is \<open>None\<close> for the nil configuration, otherwise its \<open>MaxRetries\<close>; the hook is in the environment.\<close>

definition execute_with_retry ::
  "hitl_env \<Rightarrow> int option \<Rightarrow> string \<Rightarrow> string \<Rightarrow> hitl_event list \<times> hitl_outcome" where
  "execute_with_retry env cfg task role =
     (let cmd = extract_verify_command task;
          clean = strip_verify_directive task
      in if cmd = [] then
           (let (r, e) = env_agent env 1 task in ([AgentRun 1 task], FastPath r e))
         else
           let (max_retries, env') = (case cfg of
                  None \<Rightarrow> (0, env\<lparr>env_hook := None\<rparr>) | Some n \<Rightarrow> (n, env));
               pre = max_retries + 1;
               tot = (if env_hook env' \<noteq> None then pre + 1 else pre);
               (st, res) = hitl_loop env' role clean cmd pre tot 1 hitl_init
           in (hs_log st, res))"

section \<open>Reading the log\<close>

fun agent_runs :: "hitl_event list \<Rightarrow> int list" where
  "agent_runs [] = []"
| "agent_runs (AgentRun i _ # es) = i # agent_runs es"
| "agent_runs (_ # es) = agent_runs es"

fun help_requests :: "hitl_event list \<Rightarrow> help_request list" where
  "help_requests [] = []"
| "help_requests (HelpAsked r # es) = r # help_requests es"
| "help_requests (_ # es) = help_requests es"

fun lessons :: "hitl_event list \<Rightarrow> lesson_input list" where
  "lessons [] = []"
| "lessons (LessonRecorded l # es) = l # lessons es"
| "lessons (_ # es) = lessons es"

lemma agent_runs_append [simp]: "agent_runs (xs @ ys) = agent_runs xs @ agent_runs ys"
  by (induction xs rule: agent_runs.induct) auto

lemma help_requests_append [simp]: "help_requests (xs @ ys) = help_requests xs @ help_requests ys"
  by (induction xs rule: help_requests.induct) auto

lemma lessons_append [simp]: "lessons (xs @ ys) = lessons xs @ lessons ys"
  by (induction xs rule: lessons.induct) auto

definition attempt_passes :: "hitl_env \<Rightarrow> int \<Rightarrow> bool" where
  "attempt_passes env i \<longleftrightarrow> snd (env_verify env i) = None"

definition failed_summary :: "hitl_env \<Rightarrow> int \<Rightarrow> string" where
  "failed_summary env i = attempt_summary i False (snd (env_verify env i)) (fst (env_verify env i))"

section \<open>One pass of the loop\<close>

lemma hitl_try_fields:
  assumes "hitl_try env clean tot i st = (st', pass)"
  shows "pass = attempt_passes env i"
    and "hs_hint st' = hs_hint st" "hs_hint_injected st' = hs_hint_injected st"
    and "hs_last_verify st' = fst (env_verify env i)"
    and "hs_last_result st' = fst (env_agent env i (attempt_prompt clean i tot st))"
    and "hs_log st' = hs_log st @ [AgentRun i (attempt_prompt clean i tot st), VerifyRun i pass]"
    and "hs_attempts st' = hs_attempts st @
           [attempt_summary i pass (snd (env_verify env i)) (fst (env_verify env i))]"
  using assms
  by (auto simp: hitl_try_def run_verify_def attempt_passes_def Let_def split: prod.splits)

lemma hitl_loop_continue:
  "attempt \<le> tot \<Longrightarrow> hitl_body env role clean cmd pre tot attempt st = (st', None) \<Longrightarrow>
     hitl_loop env role clean cmd pre tot attempt st =
       hitl_loop env role clean cmd pre tot (attempt + 1) st'"
  by (subst hitl_loop.simps) simp

lemma hitl_loop_return:
  "attempt \<le> tot \<Longrightarrow> hitl_body env role clean cmd pre tot attempt st = (st', Some r) \<Longrightarrow>
     hitl_loop env role clean cmd pre tot attempt st = (st', r)"
  by (subst hitl_loop.simps) simp

text \<open>A failing attempt before the boundary only records itself.\<close>

lemma hitl_body_skip:
  assumes "\<not> attempt_passes env i" "i < pre" "i \<noteq> tot"
  obtains st' where "hitl_body env role clean cmd pre tot i st = (st', None)"
    and "hs_hint_injected st' = hs_hint_injected st" "hs_hint st' = hs_hint st"
    and "hs_attempts st' = hs_attempts st @ [failed_summary env i]"
    and "agent_runs (hs_log st') = agent_runs (hs_log st) @ [i]"
    and "help_requests (hs_log st') = help_requests (hs_log st)"
    and "lessons (hs_log st') = lessons (hs_log st)"
proof -
  obtain st' pass where t: "hitl_try env clean tot i st = (st', pass)" by fastforce
  note f = hitl_try_fields [OF t]
  have np: "\<not> pass" using f(1) assms(1) by simp
  have "hitl_body env role clean cmd pre tot i st = (st', None)"
    using assms np by (simp add: hitl_body_def t Let_def)
  moreover have "hs_attempts st' = hs_attempts st @ [failed_summary env i]"
    using f(7) np by (simp add: failed_summary_def)
  ultimately show ?thesis using that f by simp
qed

lemma hitl_loop_skip:
  assumes "i \<le> k" "k \<le> pre" "pre \<le> tot" "\<not> hs_hint_injected st"
    and "\<And>j. i \<le> j \<Longrightarrow> j < k \<Longrightarrow> \<not> attempt_passes env j"
  shows "\<exists>st'. hitl_loop env role clean cmd pre tot i st =
             hitl_loop env role clean cmd pre tot k st' \<and> \<not> hs_hint_injected st' \<and>
           hs_attempts st' = hs_attempts st @ map (failed_summary env) [i..k - 1] \<and>
           agent_runs (hs_log st') = agent_runs (hs_log st) @ [i..k - 1] \<and>
           help_requests (hs_log st') = help_requests (hs_log st) \<and>
           lessons (hs_log st') = lessons (hs_log st)"
  using assms
proof (induction "nat (k - i)" arbitrary: i st)
  case 0
  then show ?case by (intro exI [of _ st]) simp
next
  case (Suc n)
  then have i: "i < k" and np: "\<not> attempt_passes env i" by auto
  with Suc.prems have "i < pre" "i \<noteq> tot" by auto
  from hitl_body_skip [OF np this] obtain st1 where
    b: "hitl_body env role clean cmd pre tot i st = (st1, None)" and
    f: "hs_hint_injected st1 = hs_hint_injected st"
       "hs_attempts st1 = hs_attempts st @ [failed_summary env i]"
       "agent_runs (hs_log st1) = agent_runs (hs_log st) @ [i]"
       "help_requests (hs_log st1) = help_requests (hs_log st)"
       "lessons (hs_log st1) = lessons (hs_log st)"
    by metis
  have "\<exists>st'. hitl_loop env role clean cmd pre tot (i + 1) st1 =
             hitl_loop env role clean cmd pre tot k st' \<and> \<not> hs_hint_injected st' \<and>
           hs_attempts st' = hs_attempts st1 @ map (failed_summary env) [i + 1..k - 1] \<and>
           agent_runs (hs_log st') = agent_runs (hs_log st1) @ [i + 1..k - 1] \<and>
           help_requests (hs_log st') = help_requests (hs_log st1) \<and>
           lessons (hs_log st') = lessons (hs_log st1)"
    using Suc i f(1) by (intro Suc.hyps(1)) auto
  moreover have "hitl_loop env role clean cmd pre tot i st =
      hitl_loop env role clean cmd pre tot (i + 1) st1"
    using b Suc.prems i by (intro hitl_loop_continue) auto
  moreover have "[i..k - 1] = i # [i + 1..k - 1]" using i by (simp add: upto_rec1)
  ultimately show ?case using f by auto
qed

lemma hitl_loop_pass:
  assumes "i \<le> tot" "attempt_passes env i"
  obtains st' res where "hitl_loop env role clean cmd pre tot i st = (st', Solved res)"
    and "tr_role res = role"
    and "agent_runs (hs_log st') = agent_runs (hs_log st) @ [i]"
    and "help_requests (hs_log st') = help_requests (hs_log st)"
    and "map li_hint (lessons (hs_log st')) = map li_hint (lessons (hs_log st)) @
           (if hs_hint_injected st \<and> env_reflection env then [hs_hint st] else [])"
    and "hs_attempts st \<noteq> [] \<Longrightarrow> map li_failure (lessons (hs_log st')) =
           map li_failure (lessons (hs_log st)) @
           (if hs_hint_injected st \<and> env_reflection env then [hd (hs_attempts st)] else [])"
proof -
  obtain st1 pass where t: "hitl_try env clean tot i st = (st1, pass)" by fastforce
  note f = hitl_try_fields [OF t]
  have p: pass using f(1) assms(2) by simp
  define res where "res = (case hs_last_result st1 of
        None \<Rightarrow> empty_task_result\<lparr>tr_content := ''verification passed''\<rparr> | Some r \<Rightarrow> r)\<lparr>tr_role := role\<rparr>"
  define st2 where "st2 = st1\<lparr>hs_log := hs_log st1 @
        lesson_events env clean cmd (hs_last_result st1) st1\<rparr>"
  have "hitl_body env role clean cmd pre tot i st = (st2, Some (Solved res))"
    using p by (simp add: hitl_body_def t Let_def res_def st2_def)
  with assms(1) have "hitl_loop env role clean cmd pre tot i st = (st2, Solved res)"
    by (rule hitl_loop_return)
  then show ?thesis
    by (rule that) (simp_all add: res_def st2_def lesson_events_def f)
qed

lemma execute_with_retry_loop:
  assumes "extract_verify_command task \<noteq> []"
  shows "execute_with_retry env (Some n) task role =
    (let tot = (if env_hook env \<noteq> None then n + 2 else n + 1);
         (st, res) = hitl_loop env role (strip_verify_directive task) (extract_verify_command task)
                       (n + 1) tot 1 hitl_init
     in (hs_log st, res))"
  using assms by (simp add: execute_with_retry_def Let_def add.commute)

lemma hitl_init_fields [simp]:
  "hs_attempts hitl_init = []" "\<not> hs_hint_injected hitl_init" "hs_log hitl_init = []"
  "hs_last_result hitl_init = None" "hs_last_verify hitl_init = []"
  by (simp_all add: hitl_init_def)

text \<open>The boundary: after the last attempt before the operator is asked.\<close>

lemma hitl_body_boundary:
  assumes "\<not> attempt_passes env pre" "\<not> hs_hint_injected st" "env_hook env = Some h" "pre \<noteq> tot"
  obtains st' req where
    "hr_attempt req = pre" "hr_attempted_fixes req = hs_attempts st @ [failed_summary env pre]"
    "hr_task_id req = env_task_id env"
    "hs_attempts st' = hs_attempts st @ [failed_summary env pre]"
    "agent_runs (hs_log st') = agent_runs (hs_log st) @ [pre]"
    "help_requests (hs_log st') = help_requests (hs_log st) @ [req]"
    "lessons (hs_log st') = lessons (hs_log st)"
    "hitl_body env role clean cmd pre tot pre st =
       (case h req of
          HookNoSubscriber \<Rightarrow> (st', Some (GaveUp (hs_last_result st')
             (ErrHITLUnavailable pre (fst (env_verify env pre)))))
        | HookError e \<Rightarrow> (st', Some (GaveUp (hs_last_result st')
             (ErrHITLHook e (truncate_for_hitl (fst (env_verify env pre)) 200))))
        | HookHint hint \<Rightarrow> (st'\<lparr>hs_hint := hint, hs_hint_injected := True\<rparr>, None))"
proof -
  obtain st1 pass where t: "hitl_try env clean tot pre st = (st1, pass)" by fastforce
  note f = hitl_try_fields [OF t]
  have np: "\<not> pass" using f(1) assms(1) by simp
  define req where "req = make_help_request env role clean pre st1"
  define st' where "st' = st1\<lparr>hs_log := hs_log st1 @ [HelpAsked req]\<rparr>"
  have at: "hs_attempts st1 = hs_attempts st @ [failed_summary env pre]"
    using f(7) np by (simp add: failed_summary_def)
  show ?thesis
  proof (rule that [of req st'])
    show "hitl_body env role clean cmd pre tot pre st =
       (case h req of
          HookNoSubscriber \<Rightarrow> (st', Some (GaveUp (hs_last_result st')
             (ErrHITLUnavailable pre (fst (env_verify env pre)))))
        | HookError e \<Rightarrow> (st', Some (GaveUp (hs_last_result st')
             (ErrHITLHook e (truncate_for_hitl (fst (env_verify env pre)) 200))))
        | HookHint hint \<Rightarrow> (st'\<lparr>hs_hint := hint, hs_hint_injected := True\<rparr>, None))"
      using np assms f
      by (auto simp: hitl_body_def t Let_def st'_def req_def split: hook_reply.splits)
  qed (simp_all add: req_def make_help_request_def st'_def f(1-6) at)
qed

lemma hitl_loop_last_fails:
  assumes "\<not> attempt_passes env tot" "env_hook env = None \<or> hs_hint_injected st"
  obtains st' where
    "hitl_loop env role clean cmd pre tot tot st = (st', GaveUp (hs_last_result st')
       (if hs_hint_injected st then ErrHITLExhausted (fst (env_verify env tot))
        else ErrVerifyFailed tot (fst (env_verify env tot))))"
    "agent_runs (hs_log st') = agent_runs (hs_log st) @ [tot]"
    "help_requests (hs_log st') = help_requests (hs_log st)"
    "lessons (hs_log st') = lessons (hs_log st)"
proof -
  obtain st1 pass where t: "hitl_try env clean tot tot st = (st1, pass)" by fastforce
  note f = hitl_try_fields [OF t]
  have np: "\<not> pass" using f(1) assms(1) by simp
  have "hitl_body env role clean cmd pre tot tot st = (st1, Some (GaveUp (hs_last_result st1)
       (if hs_hint_injected st then ErrHITLExhausted (fst (env_verify env tot))
        else ErrVerifyFailed tot (fst (env_verify env tot)))))"
    using np assms(2) f by (auto simp: hitl_body_def t Let_def)
  from that [OF hitl_loop_return [OF order_refl this]] f show ?thesis by simp
qed

section \<open>Properties\<close>

text \<open>A task whose every attempt of the range \<open>1..n+1\<close> fails, run up to that boundary.\<close>

lemma retry_reaches_boundary:
  assumes "\<And>j. 1 \<le> j \<Longrightarrow> j \<le> n \<Longrightarrow> \<not> attempt_passes env j" "0 \<le> n" "n + 1 \<le> tot"
  obtains st where
    "hitl_loop env role clean cmd (n + 1) tot 1 hitl_init =
       hitl_loop env role clean cmd (n + 1) tot (n + 1) st"
    "\<not> hs_hint_injected st" "hs_attempts st = map (failed_summary env) [1..n]"
    "agent_runs (hs_log st) = [1..n]" "help_requests (hs_log st) = []" "lessons (hs_log st) = []"
  using hitl_loop_skip [of 1 "n + 1" "n + 1" tot hitl_init env role clean cmd] assms by auto

lemma upto_snoc1: "0 \<le> n \<Longrightarrow> [1..n] @ [n + 1] = [1..n + (1::int)]"
  using upto_rec2 [of 1 "n + 1"] by simp

text \<open>
  When verification first passes at attempt \<open>k\<close> within the \<open>MaxRetries + 1\<close> attempts, the task
  succeeds with the role set, the agent has run exactly at attempts 1 to \<open>k\<close>, nobody was asked for
  help and no lesson was recorded.
\<close>

lemma retry_first_pass_wins:
  assumes "extract_verify_command task \<noteq> []" "0 \<le> n" "1 \<le> k" "k \<le> n + 1"
    and "attempt_passes env k" "\<And>j. 1 \<le> j \<Longrightarrow> j < k \<Longrightarrow> \<not> attempt_passes env j"
  shows "\<exists>log res. execute_with_retry env (Some n) task role = (log, Solved res) \<and>
    tr_role res = role \<and> agent_runs log = [1..k] \<and> help_requests log = [] \<and> lessons log = []"
proof -
  let ?tot = "if env_hook env \<noteq> None then n + 2 else n + 1"
  let ?loop = "hitl_loop env role (strip_verify_directive task) (extract_verify_command task) (n + 1) ?tot"
  have "n + 1 \<le> ?tot" by simp
  from hitl_loop_skip [OF assms(3,4) this hitl_init_fields(2) assms(6)] obtain st where
    st: "?loop 1 hitl_init = ?loop k st" "\<not> hs_hint_injected st"
      "agent_runs (hs_log st) = [1..k - 1]" "help_requests (hs_log st) = []" "lessons (hs_log st) = []"
    by (simp only: hitl_init_fields agent_runs.simps help_requests.simps lessons.simps append_Nil) blast
  have "k \<le> ?tot" using assms(4) by auto
  from hitl_loop_pass [OF this assms(5)] obtain st' res where
    r: "?loop k st = (st', Solved res)" "tr_role res = role"
      "agent_runs (hs_log st') = agent_runs (hs_log st) @ [k]"
      "help_requests (hs_log st') = help_requests (hs_log st)"
      "map li_hint (lessons (hs_log st')) = map li_hint (lessons (hs_log st)) @
           (if hs_hint_injected st \<and> env_reflection env then [hs_hint st] else [])"
    by metis
  have "[1..k - 1] @ [k] = [1..k]" using assms(3) upto_snoc1 [of "k - 1"] by simp
  then show ?thesis
    using r st assms(1) by (simp add: execute_with_retry_loop Let_def)
qed

definition demo_env :: "int \<Rightarrow> (help_request \<Rightarrow> hook_reply) option \<Rightarrow> hitl_env" where
  "demo_env k h =
     \<lparr>env_agent = (\<lambda>i p. (None, None)),
      env_verify = (\<lambda>i. (''out'', if i = k then None else Some ''exit status 1'')),
      env_hook = h, env_reflection = True, env_task_id = ''task-1''\<rparr>"

definition demo_task :: string where
  "demo_task = ''fix it'' @ nl @ ''VERIFY: go test''"

lemma demo_task_cmd: "extract_verify_command demo_task = ''go test''"
  by code_simp

lemma retry_first_pass_wins_witness:
  "\<exists>log res. execute_with_retry (demo_env 2 None) (Some 2) demo_task ''qa'' = (log, Solved res) \<and>
    tr_role res = ''qa'' \<and> agent_runs log = [1..2] \<and> help_requests log = [] \<and> lessons log = []"
  by (rule retry_first_pass_wins) (simp_all add: demo_task_cmd demo_env_def attempt_passes_def)

text \<open>
  Without a hook, a task that never passes is given up after exactly \<open>MaxRetries + 1\<close> agent
  runs, with the verification error of the last attempt.
\<close>

lemma retry_without_hook_exhausts:
  assumes "extract_verify_command task \<noteq> []" "0 \<le> n" "env_hook env = None"
    and "\<And>j. 1 \<le> j \<Longrightarrow> j \<le> n + 1 \<Longrightarrow> \<not> attempt_passes env j"
  shows "\<exists>log r. execute_with_retry env (Some n) task role =
      (log, GaveUp r (ErrVerifyFailed (n + 1) (fst (env_verify env (n + 1))))) \<and>
    agent_runs log = [1..n + 1] \<and> help_requests log = []"
proof -
  obtain st where st: "hitl_loop env role (strip_verify_directive task) (extract_verify_command task)
        (n + 1) (n + 1) 1 hitl_init =
      hitl_loop env role (strip_verify_directive task) (extract_verify_command task)
        (n + 1) (n + 1) (n + 1) st"
      "\<not> hs_hint_injected st" "agent_runs (hs_log st) = [1..n]" "help_requests (hs_log st) = []"
    by (rule retry_reaches_boundary [of n env "n + 1" role "strip_verify_directive task"
        "extract_verify_command task"]) (use assms(2,4) in auto)
  have "\<not> attempt_passes env (n + 1)" using assms(2,4) by simp
  from hitl_loop_last_fails [OF this disjI1 [OF assms(3)]] obtain st' where
    "hitl_loop env role (strip_verify_directive task) (extract_verify_command task)
        (n + 1) (n + 1) (n + 1) st =
      (st', GaveUp (hs_last_result st')
        (if hs_hint_injected st then ErrHITLExhausted (fst (env_verify env (n + 1)))
         else ErrVerifyFailed (n + 1) (fst (env_verify env (n + 1)))))"
    "agent_runs (hs_log st') = agent_runs (hs_log st) @ [n + 1]"
    "help_requests (hs_log st') = help_requests (hs_log st)" .
  moreover have "execute_with_retry env (Some n) task role =
      (case hitl_loop env role (strip_verify_directive task) (extract_verify_command task)
        (n + 1) (n + 1) 1 hitl_init of (st, res) \<Rightarrow> (hs_log st, res))"
    using assms(1,3) by (simp add: execute_with_retry_loop)
  ultimately show ?thesis
    using st upto_snoc1 [OF assms(2)] by simp
qed

lemma retry_without_hook_exhausts_witness:
  "\<exists>log r. execute_with_retry (demo_env 9 None) (Some 1) demo_task ''qa'' =
      (log, GaveUp r (ErrVerifyFailed (1 + 1) (fst (env_verify (demo_env 9 None) (1 + 1))))) \<and>
    agent_runs log = [1..1 + 1] \<and> help_requests log = []"
  by (rule retry_without_hook_exhausts) (simp_all add: demo_task_cmd demo_env_def attempt_passes_def)

text \<open>The attempts up to the boundary, and what the operator's reply makes of the loop.\<close>

lemma retry_asks_operator:
  assumes "0 \<le> n" "env_hook env = Some h" "\<And>j. 1 \<le> j \<Longrightarrow> j \<le> n + 1 \<Longrightarrow> \<not> attempt_passes env j"
  obtains st req where
    "hr_attempt req = n + 1" "hr_attempted_fixes req = map (failed_summary env) [1..n + 1]"
    "hs_attempts st = map (failed_summary env) [1..n + 1]" "agent_runs (hs_log st) = [1..n + 1]"
    "help_requests (hs_log st) = [req]" "lessons (hs_log st) = []"
    "hitl_loop env role clean cmd (n + 1) (n + 2) 1 hitl_init =
       (case h req of
          HookNoSubscriber \<Rightarrow> (st, GaveUp (hs_last_result st) (ErrHITLUnavailable (n + 1) (fst (env_verify env (n + 1)))))
        | HookError e \<Rightarrow> (st, GaveUp (hs_last_result st) (ErrHITLHook e (truncate_for_hitl (fst (env_verify env (n + 1))) 200)))
        | HookHint hint \<Rightarrow>
            hitl_loop env role clean cmd (n + 1) (n + 2) (n + 2) (st\<lparr>hs_hint := hint, hs_hint_injected := True\<rparr>))"
proof -
  let ?loop = "hitl_loop env role clean cmd (n + 1) (n + 2)"
  obtain st where st: "?loop 1 hitl_init = ?loop (n + 1) st" "\<not> hs_hint_injected st"
      "hs_attempts st = map (failed_summary env) [1..n]" "agent_runs (hs_log st) = [1..n]"
      "help_requests (hs_log st) = []" "lessons (hs_log st) = []"
    by (rule retry_reaches_boundary [of n env "n + 2" role clean cmd]) (use assms in auto)
  have np: "\<not> attempt_passes env (n + 1)" "n + 1 \<noteq> n + 2" using assms by auto
  have runs: "[1..n] @ [n + 1] = [1..n + 1]" using assms(1) by (rule upto_snoc1)
  then have tried: "map (failed_summary env) [1..n] @ [failed_summary env (n + 1)] = map (failed_summary env) [1..n + 1]"
    by (metis list.map(1,2) map_append)
  show ?thesis
  proof (rule hitl_body_boundary [OF np(1) st(2) assms(2) np(2), of role clean cmd], goal_cases)
    case (1 st' req)
    have "?loop (n + 1) st = (case h req of
          HookNoSubscriber \<Rightarrow> (st', GaveUp (hs_last_result st') (ErrHITLUnavailable (n + 1) (fst (env_verify env (n + 1)))))
        | HookError e \<Rightarrow> (st', GaveUp (hs_last_result st') (ErrHITLHook e (truncate_for_hitl (fst (env_verify env (n + 1))) 200)))
        | HookHint hint \<Rightarrow> ?loop (n + 2) (st'\<lparr>hs_hint := hint, hs_hint_injected := True\<rparr>))"
      using 1(8) hitl_loop_continue [of "n + 1" "n + 2"] hitl_loop_return [of "n + 1" "n + 2"]
      by (cases "h req") (simp_all add: add.assoc)
    with st 1 runs tried show ?thesis by (intro that [of req st']) simp_all
  qed
qed

text \<open>The attempt after a hint.\<close>

lemma retry_after_hint:
  assumes "hs_hint_injected st" "env_reflection env" "hs_attempts st \<noteq> []" "lessons (hs_log st) = []"
  obtains st' out where "hitl_loop env role clean cmd pre tot tot st = (st', out)"
    "agent_runs (hs_log st') = agent_runs (hs_log st) @ [tot]" "help_requests (hs_log st') = help_requests (hs_log st)"
    "if attempt_passes env tot
     then (\<exists>res. out = Solved res) \<and> map li_hint (lessons (hs_log st')) = [hs_hint st] \<and>
       map li_failure (lessons (hs_log st')) = [hd (hs_attempts st)]
     else (\<exists>r. out = GaveUp r (ErrHITLExhausted (fst (env_verify env tot)))) \<and> lessons (hs_log st') = []"
proof (cases "attempt_passes env tot")
  case True
  show ?thesis
  proof (rule hitl_loop_pass [OF order_refl True, of role clean cmd pre st], goal_cases)
    case (1 st' res)
    with True assms show ?case by (intro that [of st' "Solved res"]) simp_all
  qed
next
  case False
  have "env_hook env = None \<or> hs_hint_injected st" using assms(1) ..
  then show ?thesis
  proof (rule hitl_loop_last_fails [OF False, of st role clean cmd pre], goal_cases)
    case (1 st')
    with False assms show ?case by (intro that [OF 1(1)]) simp_all
  qed
qed

text \<open>
  C8: when the \<open>MaxRetries + 1\<close> attempts all fail and a hook is installed, the operator is asked
  exactly once, with one summary per attempt. Without a hint the loop gives up there. With a hint the
  agent runs exactly one more time; the task is solved if and only if that attempt passes, and then
  one lesson with the hint is recorded when a reflection engine is present; its failure text is the
  summary line of the first attempt.
\<close>

theorem retry_hook_asked_once:
  assumes "extract_verify_command task \<noteq> []" "0 \<le> n" "env_hook env = Some h" "env_reflection env"
    and "\<And>j. 1 \<le> j \<Longrightarrow> j \<le> n + 1 \<Longrightarrow> \<not> attempt_passes env j"
  shows "\<exists>log out req. execute_with_retry env (Some n) task role = (log, out) \<and>
    help_requests log = [req] \<and> hr_attempt req = n + 1 \<and>
    hr_attempted_fixes req = map (failed_summary env) [1..n + 1] \<and>
    (case h req of
       HookHint hint \<Rightarrow> agent_runs log = [1..n + 2] \<and>
         (if attempt_passes env (n + 2)
          then (\<exists>res. out = Solved res) \<and> map li_hint (lessons log) = [hint] \<and>
               map li_failure (lessons log) = [failed_summary env 1]
          else (\<exists>r. out = GaveUp r (ErrHITLExhausted (fst (env_verify env (n + 2))))) \<and> lessons log = [])
     | _ \<Rightarrow> agent_runs log = [1..n + 1] \<and> (\<exists>r e. out = GaveUp r e) \<and> lessons log = [])"
proof -
  let ?loop = "hitl_loop env role (strip_verify_directive task) (extract_verify_command task) (n + 1) (n + 2)"
  obtain st req where b: "hr_attempt req = n + 1" "hr_attempted_fixes req = map (failed_summary env) [1..n + 1]"
      "hs_attempts st = map (failed_summary env) [1..n + 1]" "agent_runs (hs_log st) = [1..n + 1]"
      "help_requests (hs_log st) = [req]" "lessons (hs_log st) = []"
    and loop: "?loop 1 hitl_init =
       (case h req of
          HookNoSubscriber \<Rightarrow> (st, GaveUp (hs_last_result st) (ErrHITLUnavailable (n + 1) (fst (env_verify env (n + 1)))))
        | HookError e \<Rightarrow> (st, GaveUp (hs_last_result st) (ErrHITLHook e (truncate_for_hitl (fst (env_verify env (n + 1))) 200)))
        | HookHint hint \<Rightarrow> ?loop (n + 2) (st\<lparr>hs_hint := hint, hs_hint_injected := True\<rparr>))"
    by (rule retry_asks_operator [OF assms(2,3,5), of role "strip_verify_directive task" "extract_verify_command task"])
  have ex: "execute_with_retry env (Some n) task role = (case ?loop 1 hitl_init of (st, res) \<Rightarrow> (hs_log st, res))"
    using assms(1,3) by (simp add: execute_with_retry_loop)
  show ?thesis
  proof (cases "h req")
    case (HookHint hint)
    let ?st = "st\<lparr>hs_hint := hint, hs_hint_injected := True\<rparr>"
    have runs: "[1..n + 1] @ [n + 2] = [1..n + 2]" using assms(2) upto_snoc1 [of "n + 1"] by (simp add: add.commute)
    have first: "hd (hs_attempts ?st) = failed_summary env 1" "hs_attempts ?st \<noteq> []"
      using assms(2) b(3) by (auto simp: upto_rec1 [of 1])
    obtain st' out where last: "?loop (n + 2) ?st = (st', out)" "agent_runs (hs_log st') = agent_runs (hs_log ?st) @ [n + 2]"
      "help_requests (hs_log st') = help_requests (hs_log ?st)"
      "if attempt_passes env (n + 2)
       then (\<exists>res. out = Solved res) \<and> map li_hint (lessons (hs_log st')) = [hs_hint ?st] \<and>
         map li_failure (lessons (hs_log st')) = [hd (hs_attempts ?st)]
       else (\<exists>r. out = GaveUp r (ErrHITLExhausted (fst (env_verify env (n + 2))))) \<and> lessons (hs_log st') = []"
      by (rule retry_after_hint [OF _ assms(4) first(2), of role "strip_verify_directive task" "extract_verify_command task" "n + 1"])
        (simp_all add: b(6))
    show ?thesis
      using ex loop b(1-5) runs first(1) HookHint last by (simp split: if_splits)
  qed (use ex loop b in simp_all)
qed

theorem retry_hook_asked_once_witness:
  "\<exists>log out req. execute_with_retry (demo_env 3 (Some (\<lambda>_. HookHint ''look at main.go''))) (Some 1)
        demo_task ''qa'' = (log, out) \<and> help_requests log = [req] \<and> hr_attempt req = 2 \<and>
    agent_runs log = [1..3] \<and> (\<exists>res. out = Solved res)"
proof -
  let ?env = "demo_env 3 (Some (\<lambda>_. HookHint ''look at main.go''))"
  have p: "attempt_passes ?env 3" by (simp add: demo_env_def attempt_passes_def)
  show ?thesis
    using retry_hook_asked_once [of demo_task 1 ?env "\<lambda>_. HookHint ''look at main.go''" "''qa''"] p
    by (auto simp: demo_task_cmd demo_env_def attempt_passes_def)
qed

text \<open>
  The defensive return after the loop is reachable. With a negative \<open>MaxRetries\<close> and no hook
  the agent is never run: the task fails at once with a verification error and no result.
\<close>

lemma retry_negative_budget_skips_agent:
  assumes "extract_verify_command task \<noteq> []" "n < 0" "env_hook env = None"
  shows "execute_with_retry env (Some n) task role = ([], GaveUp None (ErrVerifyFailed (n + 1) []))"
  using assms by (simp add: execute_with_retry_loop Let_def hitl_loop.simps)

lemma retry_negative_budget_skips_agent_witness:
  "execute_with_retry (demo_env 1 None) (Some (- 1)) demo_task ''qa'' =
     ([], GaveUp None (ErrVerifyFailed (- 1 + 1) []))"
  by (rule retry_negative_budget_skips_agent) (simp_all add: demo_task_cmd demo_env_def)

end
