(* ===== verification/Orch_Steps.thy ===== *)
theory Orch_Steps
  imports Kyoci_Types
begin

text \<open>
  The vocabulary of the orchestrator pipeline (\<open>internal/agent/orchestrated.go\<close>): the plan step, the
  pipeline configuration and the classification of step descriptions and tasks by keyword. The regular
  expressions of the source are of the form \<open>\b(w1|..|wn)\b\<close>, unanchored or at the start of the text; a
  word boundary is a change between a word character (letter, digit, underscore) and anything else.
\<close>

section \<open>Steps and configuration\<close>

record orch_step =
  os_id :: int
  os_desc :: string
  os_deps :: "int list"
  os_hint :: string

record phase_route =
  route_provider :: string
  route_model :: string

record model_routing =
  mr_planner :: phase_route
  mr_worker :: phase_route
  mr_worker_file :: phase_route
  mr_synth :: phase_route
  mr_qa :: phase_route

record orch_config =
  oc_enabled :: bool
  oc_max_steps :: int
  oc_max_parallel :: int
  oc_worker_iters :: int
  oc_worker_calls :: int
  oc_worker_tokens :: int
  oc_routing :: model_routing

definition no_route :: phase_route where
  "no_route = \<lparr>route_provider = [], route_model = []\<rparr>"

definition no_routing :: model_routing where
  "no_routing = \<lparr>mr_planner = no_route, mr_worker = no_route, mr_worker_file = no_route,
     mr_synth = no_route, mr_qa = no_route\<rparr>"

definition default_orchestrator_config :: orch_config where
  "default_orchestrator_config =
     \<lparr>oc_enabled = False, oc_max_steps = 60, oc_max_parallel = 3, oc_worker_iters = 8,
      oc_worker_calls = 8, oc_worker_tokens = 8192, oc_routing = no_routing\<rparr>"

definition effective_orch_config :: "orch_config \<Rightarrow> orch_config" where
  "effective_orch_config c =
     (let d = default_orchestrator_config
      in if \<not> oc_enabled c then d
         else c\<lparr>oc_max_steps := (if oc_max_steps c \<le> 0 then oc_max_steps d else oc_max_steps c),
                oc_max_parallel := (if oc_max_parallel c \<le> 0 then oc_max_parallel d else oc_max_parallel c),
                oc_worker_iters := (if oc_worker_iters c \<le> 0 then oc_worker_iters d else oc_worker_iters c),
                oc_worker_calls := (if oc_worker_calls c \<le> 0 then oc_worker_calls d else oc_worker_calls c),
                oc_worker_tokens := (if oc_worker_tokens c \<le> 0 then oc_worker_tokens d
                                     else oc_worker_tokens c)\<rparr>)"

lemma effective_orch_config_positive:
  "0 < oc_max_steps (effective_orch_config c)" "0 < oc_max_parallel (effective_orch_config c)"
  "0 < oc_worker_iters (effective_orch_config c)" "0 < oc_worker_calls (effective_orch_config c)"
  by (simp_all add: effective_orch_config_def default_orchestrator_config_def Let_def)

section \<open>Words\<close>

text \<open>\<open>word_at inside s w\<close>: the word \<open>w\<close> stands at the start of \<open>s\<close>, \<open>inside\<close> telling whether a word
  character precedes it.\<close>

definition word_end :: "string \<Rightarrow> bool" where
  "word_end s \<longleftrightarrow> (case s of [] \<Rightarrow> True | c # _ \<Rightarrow> \<not> is_word_byte c)"

definition word_at :: "bool \<Rightarrow> string \<Rightarrow> string \<Rightarrow> bool" where
  "word_at inside s w \<longleftrightarrow> \<not> inside \<and> has_prefix s w \<and> word_end (drop (length w) s)"

fun has_word :: "bool \<Rightarrow> string \<Rightarrow> string list \<Rightarrow> bool" where
  "has_word inside [] ws = list_ex (word_at inside []) ws"
| "has_word inside (c # cs) ws =
     (list_ex (word_at inside (c # cs)) ws \<or> has_word (is_word_byte c) cs ws)"

definition starts_with_word :: "string \<Rightarrow> string list \<Rightarrow> bool" where
  "starts_with_word s ws \<longleftrightarrow> list_ex (word_at False (trim_left s)) ws"

definition contains_any :: "string \<Rightarrow> string list \<Rightarrow> bool" where
  "contains_any s ks \<longleftrightarrow> list_ex (contains_str s) ks"

lemma contains_any_iff: "contains_any s ks \<longleftrightarrow> (\<exists>k\<in>set ks. contains_str s k)"
  by (simp add: contains_any_def list_ex_iff)

section \<open>Keywords\<close>

definition file_creation_verbs :: "string list" where
  "file_creation_verbs =
     [''create'', ''write'', ''generate'', ''initialize'', ''implement'', ''build'', ''add'', ''make'',
      ''fix'', ''repair'', ''update'', ''modify'', ''edit'', ''change'', ''correct'', ''patch'',
      ''refactor'', ''rewrite'', ''replace'']"

definition read_only_verbs :: "string list" where
  "read_only_verbs =
     [''read'', ''review'', ''search'', ''analyze'', ''analyse'', ''investigate'', ''understand'',
      ''locate'', ''find'', ''list'', ''explore'', ''examine'', ''audit'', ''inspect'']"

definition setup_keywords :: "string list" where
  "setup_keywords = [''setup'', ''install'', ''npm install'', ''go mod'', ''pip install'', ''yarn'',
     ''dependencies'']"

definition verify_keywords :: "string list" where
  "verify_keywords = [''verify'', ''build'', ''test'', ''lint'', ''npm run build'', ''go test'',
     ''go build'', ''compile'']"

definition qa_keywords :: "string list" where
  "qa_keywords = [''qa:'', ''independently'', ''independent review'']"

definition serve_keywords :: "string list" where
  "serve_keywords = [''working url'', ''give me the url'', ''give me a url'', ''preview'', ''see it'',
     ''to see it'', ''localhost'', ''open it'', ''live demo'', ''run it'']"

definition build_task_verbs :: "string list" where
  "build_task_verbs = [''make'', ''build'', ''create'', ''generate'', ''implement'', ''scaffold'',
     ''develop'', ''set up'']"

definition artifact_nouns :: "string list" where
  "artifact_nouns = [''website'', ''web page'', ''portfolio'', ''app'', ''application'', ''program'',
     ''project'', ''page'', ''site'', ''component'', ''script'', ''cli'', ''api'', ''service'',
     ''landing page'', ''dashboard'', ''game'', ''tool'', ''bot'', ''server'']"

section \<open>Classification\<close>

text \<open>The cut set of \<open>strings.Trim\<close> in \<open>descriptionMentionsFileTarget\<close>.\<close>

definition file_token_cutset :: string where
  "file_token_cutset = [CHR 0x27, CHR 0x22, CHR 0x60] @ '',.;:()[]{}''"

definition trim_set :: "string \<Rightarrow> string \<Rightarrow> string" where
  "trim_set cutset s =
     rev (dropWhile (\<lambda>c. c \<in> set cutset) (rev (dropWhile (\<lambda>c. c \<in> set cutset) s)))"

definition looks_like_filename :: "string \<Rightarrow> bool" where
  "looks_like_filename tok =
     (case str_index (trim_set file_token_cutset tok) ''.'' of
        None \<Rightarrow> False
      | Some dot \<Rightarrow> 0 < dot \<and> dot + 1 < length (trim_set file_token_cutset tok))"

definition description_mentions_file_target :: "string \<Rightarrow> bool" where
  "description_mentions_file_target desc \<longleftrightarrow>
     contains_str (to_lower desc) ''file'' \<or> list_ex looks_like_filename (str_fields desc)"

definition is_file_creation_step :: "string \<Rightarrow> bool" where
  "is_file_creation_step desc =
     (let low = to_lower (trim_space desc)
      in if starts_with_word low read_only_verbs then False
         else if starts_with_word low [''setup''] then False
         else if \<not> has_word False low file_creation_verbs then False
         else description_mentions_file_target desc)"

definition is_qa_step :: "string \<Rightarrow> bool" where
  "is_qa_step desc =
     (let low = to_lower (trim_space desc)
      in has_prefix low ''qa:'' \<or> contains_str low ''independently'')"

definition is_verify_or_qa_step :: "string \<Rightarrow> bool" where
  "is_verify_or_qa_step desc \<longleftrightarrow> is_qa_step desc \<or> contains_any (to_lower desc) verify_keywords"

definition is_serve_task :: "string \<Rightarrow> bool" where
  "is_serve_task task \<longleftrightarrow> contains_any (to_lower task) serve_keywords"

definition looks_like_build_task :: "string \<Rightarrow> bool" where
  "looks_like_build_task task =
     (let low = to_lower task
      in if \<not> contains_any low build_task_verbs then False
         else if contains_any low artifact_nouns then True
         else 80 < length task)"

definition any_step_matches :: "orch_step list \<Rightarrow> string list \<Rightarrow> bool" where
  "any_step_matches steps ks = list_ex (\<lambda>s. contains_any (to_lower (os_desc s)) ks) steps"

lemma any_step_matches_append [simp]:
  "any_step_matches (xs @ ys) ks \<longleftrightarrow> any_step_matches xs ks \<or> any_step_matches ys ks"
  by (simp add: any_step_matches_def)

lemma any_step_matches_Cons [simp]:
  "any_step_matches (x # ys) ks \<longleftrightarrow> contains_any (to_lower (os_desc x)) ks \<or> any_step_matches ys ks"
  by (simp add: any_step_matches_def)

text \<open>A step that starts by reading or with a setup verb is never a file-creation step.\<close>

lemma read_only_not_file_creation:
  "starts_with_word (to_lower (trim_space desc)) read_only_verbs \<Longrightarrow> \<not> is_file_creation_step desc"
  by (simp add: is_file_creation_step_def Let_def)

lemma to_lower_trim_left: "to_lower (trim_left s) = trim_left (to_lower s)"
  by (induction s) (auto simp: to_lower_def)

lemma to_lower_trim_space: "to_lower (trim_space s) = trim_space (to_lower s)"
proof -
  have "to_lower (rev t) = rev (to_lower t)" for t by (simp add: to_lower_def rev_map)
  then show ?thesis by (simp add: trim_space_def trim_right_def to_lower_trim_left)
qed

text \<open>Where the word is: an occurrence of \<open>w\<close> not glued to a word character on either side.\<close>

lemma has_word_iff:
  "has_word inside s ws \<longleftrightarrow>
     (\<exists>w\<in>set ws. \<exists>us vs. s = us @ w @ vs \<and> word_end vs \<and>
        (if us = [] then \<not> inside else \<not> is_word_byte (last us)))"
proof (induction s arbitrary: inside)
  case Nil
  then show ?case by (auto simp: list_ex_iff word_at_def has_prefix_iff)
next
  case (Cons c cs)
  show ?case (is "?l = ?r")
  proof
    assume ?l
    then consider (here) w where "w \<in> set ws" "word_at inside (c # cs) w"
      | (later) "has_word (is_word_byte c) cs ws" by (auto simp: list_ex_iff)
    then show ?r
    proof cases
      case here
      then obtain vs where "c # cs = w @ vs" "\<not> inside" "word_end vs"
        by (auto simp: word_at_def has_prefix_iff prefix_def)
      with here(1) show ?thesis by (intro bexI [of _ w] exI [of _ "[]"] exI [of _ vs]) auto
    next
      case later
      with Cons.IH obtain w us vs where "w \<in> set ws" "cs = us @ w @ vs" "word_end vs"
          "if us = [] then \<not> is_word_byte c else \<not> is_word_byte (last us)" by blast
      then show ?thesis by (intro bexI [of _ w] exI [of _ "c # us"] exI [of _ vs]) auto
    qed
  next
    assume ?r
    then obtain w us vs where w: "w \<in> set ws" "c # cs = us @ w @ vs" "word_end vs"
        "if us = [] then \<not> inside else \<not> is_word_byte (last us)" by blast
    show ?l
    proof (cases us)
      case Nil
      with w have "word_at inside (c # cs) w" by (simp add: word_at_def has_prefix_iff)
      with w(1) have "list_ex (word_at inside (c # cs)) ws" by (auto simp: list_ex_iff)
      then show ?thesis by simp
    next
      case C: (Cons u us')
      with w have "cs = us' @ w @ vs" "if us' = [] then \<not> is_word_byte c else \<not> is_word_byte (last us')"
        by auto
      with w Cons.IH have "has_word (is_word_byte c) cs ws" by blast
      then show ?thesis by simp
    qed
  qed
qed

end
