(* ===== verification/Orch_Dispatch.thy ===== *)
theory Orch_Dispatch
  imports Orch_Steps
begin

text \<open>
  The dispatcher of the orchestrator (\<open>executeWorkers\<close> in \<open>internal/agent/orchestrated.go\<close>). A plan is
  run in rounds: a round takes every step that is not done and whose dependencies are all done, runs
  the workers of the round concurrently, and then counts stalled results. The results map and the done
  set are shared by the goroutines of a round under a mutex.

  \<open>execute_workers\<close> runs the workers of a round one after the other; the relation \<open>fan_step\<close> is the
  concurrent round with its semaphore, one rule per critical section, and the two are proved to agree.
  A worker is a parameter: a function of the step and of the results it may see. The done set is a
  list without repetitions in the order of completion.
\<close>

section \<open>Workers and results\<close>

type_synonym results = "int \<Rightarrow> string option"

record skill_provider =
  sp_match :: "string \<Rightarrow> string option"
  sp_execute :: "string \<Rightarrow> string \<Rightarrow> string + string"

record dispatch_env =
  de_task :: string
  de_worker :: "string \<Rightarrow> orch_step \<Rightarrow> results \<Rightarrow> string + string"
  de_skills :: "skill_provider option"

text \<open>The skill fast path: \<open>None\<close> when the step falls through to the worker.\<close>

definition skill_output :: "dispatch_env \<Rightarrow> orch_step \<Rightarrow> string option" where
  "skill_output env s =
     (if trim_space (os_hint s) = ''skill'' then
        (case de_skills env of
           None \<Rightarrow> None
         | Some sp \<Rightarrow>
             (case sp_match sp (de_task env) of
                None \<Rightarrow> None
              | Some sk \<Rightarrow>
                  (case sp_execute sp sk (de_task env) of Inl err \<Rightarrow> None | Inr out \<Rightarrow> Some out)))
      else None)"

definition worker_output :: "dispatch_env \<Rightarrow> orch_step \<Rightarrow> results \<Rightarrow> string" where
  "worker_output env s prior =
     (case de_worker env (de_task env) s prior of
        Inl err \<Rightarrow> ''[worker error: '' @ err @ '']''
      | Inr out \<Rightarrow> out)"

definition snapshot_prior :: "orch_step \<Rightarrow> results \<Rightarrow> results" where
  "snapshot_prior s results = (\<lambda>d. if d \<in> set (os_deps s) then results d else None)"

definition step_output :: "dispatch_env \<Rightarrow> orch_step \<Rightarrow> results \<Rightarrow> string" where
  "step_output env s results =
     (case skill_output env s of
        Some out \<Rightarrow> out
      | None \<Rightarrow> worker_output env s (snapshot_prior s results))"

definition all_deps_done :: "orch_step \<Rightarrow> int list \<Rightarrow> bool" where
  "all_deps_done s dn = list_all (\<lambda>d. d \<in> set dn) (os_deps s)"

definition stall_tags :: "string list" where
  "stall_tags = [''[worker error'', ''[VERIFICATION FAILED'', ''[no tool evidence'',
     ''[circuit breaker'', ''[step '']"

definition is_stalled_result :: "string \<Rightarrow> bool" where
  "is_stalled_result out =
     (let out = trim_space out in out = [] \<or> list_ex (has_prefix out) stall_tags)"

section \<open>The rounds\<close>

definition eligible :: "orch_step list \<Rightarrow> int list \<Rightarrow> orch_step list" where
  "eligible steps dn = filter (\<lambda>s. os_id s \<notin> set dn \<and> all_deps_done s dn) steps"

definition set_done :: "int list \<Rightarrow> int \<Rightarrow> int list" where
  "set_done dn i = (if i \<in> set dn then dn else dn @ [i])"

definition run_batch :: "dispatch_env \<Rightarrow> results \<Rightarrow> orch_step list \<Rightarrow> results" where
  "run_batch env r batch = foldl (\<lambda>r s. r(os_id s \<mapsto> step_output env s r)) r batch"

definition mark_batch :: "int list \<Rightarrow> orch_step list \<Rightarrow> int list" where
  "mark_batch dn batch = foldl (\<lambda>dn s. set_done dn (os_id s)) dn batch"

definition result_at :: "results \<Rightarrow> int \<Rightarrow> string" where
  "result_at r i = (case r i of None \<Rightarrow> [] | Some out \<Rightarrow> out)"

text \<open>The stall counter over a finished batch: \<open>None\<close> when it trips at three.\<close>

fun count_stalls :: "results \<Rightarrow> orch_step list \<Rightarrow> nat \<Rightarrow> nat option" where
  "count_stalls r [] n = Some n"
| "count_stalls r (s # ss) n =
     (let n' = (if is_stalled_result (result_at r (os_id s)) then n + 1 else 0)
      in if 3 \<le> n' then None else count_stalls r ss n')"

datatype dispatch_outcome = Completed results | BrokeOff results | StuckPlan results

lemma set_mark_batch: "set (mark_batch dn batch) = set dn \<union> os_id ` set batch"
  by (induction batch arbitrary: dn) (auto simp: mark_batch_def set_done_def)

function dispatch_rounds ::
  "dispatch_env \<Rightarrow> orch_step list \<Rightarrow> int list \<Rightarrow> results \<Rightarrow> nat \<Rightarrow> dispatch_outcome" where
  "dispatch_rounds env steps dn r stalls =
     (if length dn < length steps then
        (let batch = eligible steps dn
         in if batch = [] then StuckPlan r
            else
              (let r' = run_batch env r batch
               in case count_stalls r' batch stalls of
                    None \<Rightarrow> BrokeOff r'
                  | Some n \<Rightarrow> dispatch_rounds env steps (mark_batch dn batch) r' n))
      else Completed r)"
  by pat_completeness auto
termination
proof (relation "measure (\<lambda>(env, steps, dn, r, stalls). length (filter (\<lambda>s. os_id s \<notin> set dn) steps))",
    simp, goal_cases)
  case (1 env steps dn r stalls batch r' n)
  define s where "s = hd batch"
  with 1 have s: "s \<in> set batch" by simp
  with 1(2) have "s \<in> set steps" "os_id s \<notin> set dn" by (auto simp: eligible_def)
  moreover have "os_id s \<in> set (mark_batch dn batch)" using s by (simp add: set_mark_batch)
  ultimately have "filter (\<lambda>s. os_id s \<notin> set (mark_batch dn batch)) steps \<noteq>
      filter (\<lambda>s. os_id s \<notin> set dn) steps" by (metis (mono_tags, lifting) mem_Collect_eq set_filter)
  moreover have f: "filter (\<lambda>s. os_id s \<notin> set (mark_batch dn batch)) steps =
      filter (\<lambda>s. os_id s \<notin> os_id ` set batch) (filter (\<lambda>s. os_id s \<notin> set dn) steps)"
    by (simp add: set_mark_batch conj_commute)
  ultimately show ?case
    using length_filter_less [of s "filter (\<lambda>s. os_id s \<notin> set dn) steps"
        "\<lambda>s. os_id s \<notin> os_id ` set batch"] s \<open>s \<in> set steps\<close> \<open>os_id s \<notin> set dn\<close>
    by (simp add: f)
qed

declare dispatch_rounds.simps [simp del]

definition execute_workers :: "dispatch_env \<Rightarrow> orch_step list \<Rightarrow> dispatch_outcome" where
  "execute_workers env steps = dispatch_rounds env steps [] Map.empty 0"

section \<open>One batch\<close>

lemma step_output_cong:
  "(\<And>d. d \<in> set (os_deps s) \<Longrightarrow> r d = r' d) \<Longrightarrow> step_output env s r = step_output env s r'"
proof -
  assume "\<And>d. d \<in> set (os_deps s) \<Longrightarrow> r d = r' d"
  then have "snapshot_prior s r = snapshot_prior s r'"
    by (simp add: snapshot_prior_def fun_eq_iff)
  then show ?thesis by (simp add: step_output_def split: option.split)
qed

definition independent :: "orch_step list \<Rightarrow> bool" where
  "independent batch \<longleftrightarrow> distinct (map os_id batch) \<and>
     (\<forall>s\<in>set batch. \<forall>d\<in>set (os_deps s). d \<notin> os_id ` set batch)"

lemma run_batch_outside: "i \<notin> os_id ` set batch \<Longrightarrow> run_batch env r batch i = r i"
  by (induction batch arbitrary: r) (auto simp: run_batch_def)

lemma run_batch_inside:
  assumes "independent batch" "s \<in> set batch"
  shows "run_batch env r batch (os_id s) = Some (step_output env s r)"
  using assms
proof (induction batch arbitrary: r)
  case (Cons t ts)
  let ?r = "r(os_id t \<mapsto> step_output env t r)"
  have run: "run_batch env r (t # ts) = run_batch env ?r ts" by (simp add: run_batch_def)
  show ?case
  proof (cases "s = t")
    case True
    with Cons.prems have "os_id s \<notin> os_id ` set ts" by (auto simp: independent_def)
    with True run show ?thesis by (simp add: run_batch_outside)
  next
    case False
    with Cons.prems have "s \<in> set ts" "independent ts" by (auto simp: independent_def)
    with Cons.IH run have "run_batch env r (t # ts) (os_id s) = Some (step_output env s ?r)" by simp
    moreover have "step_output env s ?r = step_output env s r"
      using Cons.prems by (intro step_output_cong) (auto simp: independent_def)
    ultimately show ?thesis by simp
  qed
qed simp

lemma dom_run_batch: "dom (run_batch env r batch) = dom r \<union> os_id ` set batch"
  by (induction batch arbitrary: r) (auto simp: run_batch_def)

lemma eligible_independent:
  "distinct (map os_id steps) \<Longrightarrow> independent (eligible steps dn)"
  by (auto simp: independent_def eligible_def all_deps_done_def list_all_iff distinct_map_filter)

section \<open>The loop invariant\<close>

text \<open>
  What the rounds keep for a plan with distinct ids: the done ids are those with a result, each
  finished step has its dependencies finished before it, and its result is the one computed from
  their final results.
\<close>

definition dispatch_inv :: "dispatch_env \<Rightarrow> orch_step list \<Rightarrow> int list \<Rightarrow> results \<Rightarrow> bool" where
  "dispatch_inv env steps dn r \<longleftrightarrow>
     distinct dn \<and> set dn \<subseteq> os_id ` set steps \<and> dom r = set dn \<and>
     (\<forall>s\<in>set steps. os_id s \<in> set dn \<longrightarrow>
        r (os_id s) = Some (step_output env s r) \<and>
        (\<exists>us vs. dn = us @ os_id s # vs \<and> set (os_deps s) \<subseteq> set us))"

lemma dispatch_inv_init: "dispatch_inv env steps [] Map.empty"
  by (simp add: dispatch_inv_def)

lemma mark_batch_new:
  "distinct (map os_id batch) \<Longrightarrow> (\<forall>s\<in>set batch. os_id s \<notin> set dn) \<Longrightarrow>
     mark_batch dn batch = dn @ map os_id batch"
proof (induction batch arbitrary: dn)
  case (Cons s ss)
  from Cons.prems have "\<forall>t\<in>set ss. os_id t \<notin> set (dn @ [os_id s])"
    by (auto simp: image_iff)
  with Cons have "mark_batch (dn @ [os_id s]) ss = (dn @ [os_id s]) @ map os_id ss" by simp
  with Cons.prems show ?case by (simp add: mark_batch_def set_done_def)
qed (simp add: mark_batch_def)

lemma eligible_new: "s \<in> set (eligible steps dn) \<Longrightarrow> s \<in> set steps \<and> os_id s \<notin> set dn \<and>
    set (os_deps s) \<subseteq> set dn"
  by (auto simp: eligible_def all_deps_done_def list_all_iff)

lemma mark_eligible:
  "distinct (map os_id steps) \<Longrightarrow>
     mark_batch dn (eligible steps dn) = dn @ map os_id (eligible steps dn)"
  using eligible_independent [of steps dn] by (auto simp: independent_def mark_batch_new eligible_new)

lemma dispatch_inv_round:
  assumes inv: "dispatch_inv env steps dn r" and dist: "distinct (map os_id steps)"
  defines "batch \<equiv> eligible steps dn"
  shows "dispatch_inv env steps (mark_batch dn batch) (run_batch env r batch)"
proof -
  let ?r = "run_batch env r batch"
  have mark: "mark_batch dn batch = dn @ map os_id batch"
    unfolding batch_def by (rule mark_eligible [OF dist])
  have ind: "independent batch" unfolding batch_def by (rule eligible_independent [OF dist])
  have new: "\<And>s. s \<in> set batch \<Longrightarrow> s \<in> set steps \<and> os_id s \<notin> set dn \<and> set (os_deps s) \<subseteq> set dn"
    unfolding batch_def by (rule eligible_new)
  have old: "?r i = r i" if "i \<in> set dn" for i
    using that new by (auto intro!: run_batch_outside)
  have step: "?r (os_id s) = Some (step_output env s ?r) \<and>
      (\<exists>us vs. dn @ map os_id batch = us @ os_id s # vs \<and> set (os_deps s) \<subseteq> set us)"
    if s: "s \<in> set steps" "os_id s \<in> set dn \<union> os_id ` set batch" for s
  proof (cases "os_id s \<in> set dn")
    case True
    with inv s obtain us vs where f: "r (os_id s) = Some (step_output env s r)"
        "dn = us @ os_id s # vs" "set (os_deps s) \<subseteq> set us"
      by (auto simp: dispatch_inv_def)
    then have "set (os_deps s) \<subseteq> set dn" by auto
    then have "step_output env s ?r = step_output env s r" by (intro step_output_cong old) auto
    with f old [OF True] show ?thesis by auto
  next
    case False
    with s obtain t where "t \<in> set batch" "os_id t = os_id s" by auto
    with new dist s have b: "s \<in> set batch" by (metis distinct_map inj_onD)
    then have "set (os_deps s) \<subseteq> set dn" using new by blast
    then have "step_output env s ?r = step_output env s r" by (intro step_output_cong old) auto
    moreover have "?r (os_id s) = Some (step_output env s r)" by (rule run_batch_inside [OF ind b])
    moreover obtain bs cs where "batch = bs @ s # cs" using b by (meson split_list)
    then have "dn @ map os_id batch = (dn @ map os_id bs) @ os_id s # map os_id cs" by simp
    moreover have "set (os_deps s) \<subseteq> set (dn @ map os_id bs)"
      using \<open>set (os_deps s) \<subseteq> set dn\<close> by auto
    ultimately show ?thesis by metis
  qed
  have "distinct (dn @ map os_id batch)"
    using inv ind new by (auto simp: dispatch_inv_def independent_def)
  moreover have "dom ?r = set (dn @ map os_id batch)"
    using inv by (simp add: dom_run_batch dispatch_inv_def)
  moreover have "set (dn @ map os_id batch) \<subseteq> os_id ` set steps"
    using inv new by (auto simp: dispatch_inv_def)
  ultimately show ?thesis using step by (simp add: dispatch_inv_def mark)
qed

section \<open>Plans that can be run\<close>

text \<open>A plan is well formed when its ids are distinct and its dependencies can be ranked: each one
  is the id of a step of the plan with a smaller rank.\<close>

definition plan_ranked :: "orch_step list \<Rightarrow> (int \<Rightarrow> nat) \<Rightarrow> bool" where
  "plan_ranked steps rk \<longleftrightarrow> distinct (map os_id steps) \<and>
     (\<forall>s\<in>set steps. \<forall>d\<in>set (os_deps s). d \<in> os_id ` set steps \<and> rk d < rk (os_id s))"

lemma ranked_eligible:
  assumes "plan_ranked steps rk" "set dn \<subseteq> os_id ` set steps" "distinct dn" "length dn < length steps"
  shows "eligible steps dn \<noteq> []"
proof -
  have "card (os_id ` set steps) = length steps"
    using assms(1) by (simp add: plan_ranked_def distinct_card [symmetric])
      (metis distinct_card length_map set_map)
  then have "set dn \<noteq> os_id ` set steps" using assms(3,4) by (metis distinct_card nat_neq_iff)
  with assms(2) obtain s0 where "s0 \<in> set steps" "os_id s0 \<notin> set dn" by blast
  then have "\<exists>s. (s \<in> set steps \<and> os_id s \<notin> set dn) \<and>
      (\<forall>t. t \<in> set steps \<and> os_id t \<notin> set dn \<longrightarrow> rk (os_id s) \<le> rk (os_id t))"
    by (intro ex_has_least_nat) auto
  then obtain s where s: "s \<in> set steps" "os_id s \<notin> set dn"
      "\<And>t. t \<in> set steps \<Longrightarrow> os_id t \<notin> set dn \<Longrightarrow> rk (os_id s) \<le> rk (os_id t)" by blast
  have "d \<in> set dn" if "d \<in> set (os_deps s)" for d
  proof (rule ccontr)
    assume d: "d \<notin> set dn"
    from assms(1) s(1) that have "d \<in> os_id ` set steps" "rk d < rk (os_id s)"
      by (auto simp: plan_ranked_def)
    then obtain t where "t \<in> set steps" "os_id t = d" "rk d < rk (os_id s)" by auto
    with s(3) [of t] d show False by simp
  qed
  with s(1,2) have "s \<in> set (eligible steps dn)"
    by (simp add: eligible_def all_deps_done_def list_all_iff)
  then show ?thesis by auto
qed

lemma rounds_not_stuck:
  assumes "plan_ranked steps rk" "dispatch_inv env steps dn r"
  shows "dispatch_rounds env steps dn r n \<noteq> StuckPlan r'"
  using assms
proof (induction env steps dn r n rule: dispatch_rounds.induct)
  case (1 env steps dn r n)
  have dist: "distinct (map os_id steps)" using 1(2) by (simp add: plan_ranked_def)
  show ?case
  proof (cases "length dn < length steps")
    case True
    let ?b = "eligible steps dn"
    have ne: "?b \<noteq> []" using 1(2,3) True by (intro ranked_eligible) (auto simp: dispatch_inv_def)
    note inv = dispatch_inv_round [OF 1(3) dist]
    show ?thesis
      using 1(1) [OF True refl ne refl _ 1(2) inv] True ne
      by (subst dispatch_rounds.simps) (auto simp: Let_def split: option.split)
  next
    case False
    then show ?thesis by (subst dispatch_rounds.simps) simp
  qed
qed

lemma rounds_completed:
  assumes "distinct (map os_id steps)" "dispatch_inv env steps dn r"
    and "dispatch_rounds env steps dn r n = Completed r'"
  shows "\<exists>dn'. dispatch_inv env steps dn' r' \<and> length steps \<le> length dn'"
  using assms
proof (induction env steps dn r n rule: dispatch_rounds.induct)
  case (1 env steps dn r n)
  show ?case
  proof (cases "length dn < length steps")
    case True
    let ?b = "eligible steps dn"
    note inv = dispatch_inv_round [OF 1(3) 1(2)]
    show ?thesis
      using 1(4) 1(1) [OF True refl _ refl _ 1(2) inv] True
      by (subst (asm) dispatch_rounds.simps) (auto simp: Let_def split: option.splits if_splits)
  next
    case False
    with 1(4) have "r' = r" by (subst (asm) dispatch_rounds.simps) simp
    with False 1(3) show ?thesis by (metis linorder_not_le)
  qed
qed

text \<open>Without distinct ids the count of done ids never reaches the number of steps.\<close>

lemma rounds_completed_distinct:
  assumes "distinct dn" "set dn \<subseteq> os_id ` set steps"
    and "dispatch_rounds env steps dn r n = Completed r'"
  shows "distinct (map os_id steps)"
  using assms
proof (induction env steps dn r n rule: dispatch_rounds.induct)
  case (1 env steps dn r n)
  show ?case
  proof (cases "length dn < length steps")
    case True
    let ?b = "eligible steps dn"
    have "distinct (mark_batch dn bs)" if "distinct dn" for bs dn
      using that by (induction bs arbitrary: dn) (auto simp: mark_batch_def set_done_def)
    then have d: "distinct (mark_batch dn ?b)" using 1(2) by blast
    have sub: "set (mark_batch dn ?b) \<subseteq> os_id ` set steps"
      using 1(3) eligible_new by (fastforce simp: set_mark_batch)
    show ?thesis
      using 1(4) 1(1) [OF True refl _ refl _ d sub] True
      by (subst (asm) dispatch_rounds.simps) (auto simp: Let_def split: option.splits if_splits)
  next
    case False
    then have "length steps \<le> card (os_id ` set steps)"
      using 1(2,3) card_mono [of "os_id ` set steps" "set dn"] by (simp add: distinct_card)
    moreover have "card (os_id ` set steps) \<le> card (set (map os_id steps))" by simp
    ultimately show ?thesis by (metis card_distinct card_length le_antisym length_map set_map)
  qed
qed

section \<open>The circuit breaker over results\<close>

definition stalled_ids :: "results \<Rightarrow> int set \<Rightarrow> int set" where
  "stalled_ids r ids = {i \<in> ids. is_stalled_result (result_at r i)}"

lemma count_stalls_bound:
  assumes "distinct (map os_id batch)" "finite ids" "\<forall>s\<in>set batch. os_id s \<notin> ids"
    and "n \<le> card (stalled_ids r ids)"
  shows "case count_stalls r batch n of
           None \<Rightarrow> 3 \<le> card (stalled_ids r (ids \<union> os_id ` set batch))
         | Some m \<Rightarrow> m \<le> card (stalled_ids r (ids \<union> os_id ` set batch))"
  using assms
proof (induction batch arbitrary: ids n)
  case (Cons s ss)
  define n' where "n' = (if is_stalled_result (result_at r (os_id s)) then n + 1 else 0)"
  have fin: "finite (stalled_ids r ids)" using Cons.prems(2) by (simp add: stalled_ids_def)
  have ins: "stalled_ids r (insert (os_id s) ids) =
      (if is_stalled_result (result_at r (os_id s)) then insert (os_id s) (stalled_ids r ids)
       else stalled_ids r ids)" by (auto simp: stalled_ids_def)
  have "os_id s \<notin> stalled_ids r ids" using Cons.prems(3) by (simp add: stalled_ids_def)
  then have n': "n' \<le> card (stalled_ids r (insert (os_id s) ids))"
    using Cons.prems(4) fin by (simp add: n'_def ins)
  have un: "ids \<union> os_id ` set (s # ss) = insert (os_id s) ids \<union> os_id ` set ss" by auto
  show ?case
  proof (cases "3 \<le> n'")
    case True
    have "card (stalled_ids r (insert (os_id s) ids)) \<le>
        card (stalled_ids r (insert (os_id s) ids \<union> os_id ` set ss))"
      using Cons.prems(2) by (intro card_mono) (auto simp: stalled_ids_def)
    moreover have "count_stalls r (s # ss) n = None" using True by (simp add: n'_def Let_def)
    ultimately show ?thesis using True n' unfolding un by simp
  next
    case False
    then have "count_stalls r (s # ss) n = count_stalls r ss n'" by (auto simp: n'_def Let_def)
    moreover have "\<forall>t\<in>set ss. os_id t \<notin> insert (os_id s) ids"
      using Cons.prems(1,3) by (auto simp: image_iff)
    ultimately show ?thesis
      using Cons.IH [of "insert (os_id s) ids" n'] Cons.prems(1,2) n' unfolding un by simp
  qed
qed simp

lemma stalled_ids_cong:
  "(\<And>i. i \<in> ids \<Longrightarrow> r i = r' i) \<Longrightarrow> stalled_ids r ids = stalled_ids r' ids"
  by (auto simp: stalled_ids_def result_at_def)

lemma round_stalls:
  assumes "distinct (map os_id steps)" "n \<le> card (stalled_ids r (set dn))"
  defines "batch \<equiv> eligible steps dn"
  shows "case count_stalls (run_batch env r batch) batch n of
           None \<Rightarrow> 3 \<le> card (stalled_ids (run_batch env r batch) (set (mark_batch dn batch)))
         | Some m \<Rightarrow> m \<le> card (stalled_ids (run_batch env r batch) (set (mark_batch dn batch)))"
proof -
  have new: "\<forall>s\<in>set batch. os_id s \<notin> set dn" by (simp add: batch_def eligible_new)
  have "stalled_ids (run_batch env r batch) (set dn) = stalled_ids r (set dn)"
    using new by (intro stalled_ids_cong run_batch_outside) auto
  moreover have "distinct (map os_id batch)"
    using assms(1) by (simp add: batch_def eligible_def distinct_map_filter)
  ultimately show ?thesis
    using count_stalls_bound [of batch "set dn" n "run_batch env r batch"] new assms(2)
    by (simp add: set_mark_batch cong: option.case_cong)
qed

lemma rounds_broke_off:
  assumes "distinct (map os_id steps)" "set dn \<subseteq> os_id ` set steps"
    and "n \<le> card (stalled_ids r (set dn))"
    and "dispatch_rounds env steps dn r n = BrokeOff r'"
  shows "3 \<le> card (stalled_ids r' (os_id ` set steps))"
  using assms
proof (induction env steps dn r n rule: dispatch_rounds.induct)
  case (1 env steps dn r n)
  define b where "b = eligible steps dn"
  define r1 where "r1 = run_batch env r b"
  have sub: "set (mark_batch dn b) \<subseteq> os_id ` set steps"
    using 1(3) eligible_new by (fastforce simp: set_mark_batch b_def)
  note st = round_stalls [OF 1(2,4), of env, folded b_def, folded r1_def]
  have lt: "length dn < length steps" and ne: "b \<noteq> []"
    using 1(5) by (subst (asm) dispatch_rounds.simps, simp add: Let_def b_def split: if_splits)+
  have eq: "dispatch_rounds env steps dn r n = (case count_stalls r1 b n of
      None \<Rightarrow> BrokeOff r1 | Some m \<Rightarrow> dispatch_rounds env steps (mark_batch dn b) r1 m)"
    using lt ne by (subst dispatch_rounds.simps) (simp add: Let_def b_def r1_def cong: option.case_cong)
  show ?case
  proof (cases "count_stalls r1 b n")
    case None
    with 1(5) eq have "r' = r1" by simp
    moreover have "card (stalled_ids r1 (set (mark_batch dn b))) \<le>
        card (stalled_ids r1 (os_id ` set steps))"
      using sub by (intro card_mono) (auto simp: stalled_ids_def)
    ultimately show ?thesis using st None by simp
  next
    case (Some m)
    then show ?thesis
      using 1(1) [OF lt b_def ne r1_def Some 1(2) sub] st 1(5) eq by simp
  qed
qed

section \<open>The concurrent round\<close>

text \<open>
  A goroutine of a round is started, has copied the results it may see, or has recorded its result and
  not yet released its semaphore slot.
\<close>

datatype worker_phase = Started orch_step | Snapped orch_step results | Recorded orch_step

record fanout =
  fo_pending :: "orch_step list"
  fo_running :: "worker_phase list"
  fo_results :: results
  fo_done :: "int list"

inductive fan_step :: "dispatch_env \<Rightarrow> nat \<Rightarrow> fanout \<Rightarrow> fanout \<Rightarrow> bool" for env m where
  launch: "fo_pending f = s # ps \<Longrightarrow> length (fo_running f) < m \<Longrightarrow>
     fan_step env m f (f\<lparr>fo_pending := ps, fo_running := fo_running f @ [Started s]\<rparr>)"
| skill: "fo_running f = us @ Started s # vs \<Longrightarrow> skill_output env s = Some out \<Longrightarrow>
     fan_step env m f (f\<lparr>fo_running := us @ Recorded s # vs,
       fo_results := (fo_results f)(os_id s \<mapsto> out), fo_done := set_done (fo_done f) (os_id s)\<rparr>)"
| snapshot: "fo_running f = us @ Started s # vs \<Longrightarrow> skill_output env s = None \<Longrightarrow>
     fan_step env m f (f\<lparr>fo_running := us @ Snapped s (snapshot_prior s (fo_results f)) # vs\<rparr>)"
| finish: "fo_running f = us @ Snapped s prior # vs \<Longrightarrow>
     fan_step env m f (f\<lparr>fo_running := us @ Recorded s # vs,
       fo_results := (fo_results f)(os_id s \<mapsto> worker_output env s prior),
       fo_done := set_done (fo_done f) (os_id s)\<rparr>)"
| release: "fo_running f = us @ Recorded s # vs \<Longrightarrow>
     fan_step env m f (f\<lparr>fo_running := us @ vs\<rparr>)"

inductive_cases fan_stepE: "fan_step env m f g"

definition fan_init :: "orch_step list \<Rightarrow> results \<Rightarrow> int list \<Rightarrow> fanout" where
  "fan_init batch r dn = \<lparr>fo_pending = batch, fo_running = [], fo_results = r, fo_done = dn\<rparr>"

fun unrecorded_of :: "worker_phase \<Rightarrow> orch_step list" where
  "unrecorded_of (Started s) = [s]"
| "unrecorded_of (Snapped s _) = [s]"
| "unrecorded_of (Recorded s) = []"

definition unrecorded :: "fanout \<Rightarrow> orch_step list" where
  "unrecorded f = concat (map unrecorded_of (fo_running f)) @ fo_pending f"

definition fan_inv ::
  "dispatch_env \<Rightarrow> nat \<Rightarrow> orch_step list \<Rightarrow> results \<Rightarrow> int list \<Rightarrow> fanout \<Rightarrow> bool" where
  "fan_inv env m batch r dn f \<longleftrightarrow>
     length (fo_running f) \<le> m \<and>
     distinct (map os_id (unrecorded f)) \<and> set (unrecorded f) \<subseteq> set batch \<and>
     (\<forall>s\<in>set batch. s \<notin> set (unrecorded f) \<longrightarrow>
        fo_results f (os_id s) = Some (step_output env s r)) \<and>
     (\<forall>i. i \<notin> os_id ` set batch \<longrightarrow> fo_results f i = r i) \<and>
     (\<forall>s p. Snapped s p \<in> set (fo_running f) \<longrightarrow>
        p = snapshot_prior s r \<and> skill_output env s = None) \<and>
     set (fo_done f) = set dn \<union> os_id ` (set batch - set (unrecorded f))"

lemma fan_inv_init:
  "independent batch \<Longrightarrow> fan_inv env m batch r dn (fan_init batch r dn)"
  by (auto simp: fan_inv_def fan_init_def unrecorded_def independent_def)

lemma snapshot_independent:
  assumes "independent batch" "fan_inv env m batch r dn f" "s \<in> set batch"
  shows "snapshot_prior s (fo_results f) = snapshot_prior s r"
  using assms by (auto simp: snapshot_prior_def fan_inv_def independent_def fun_eq_iff)

text \<open>What recording a result does to the invariant, whichever of the two rules records it.\<close>

lemma fan_inv_record:
  assumes ind: "independent batch" and inv: "fan_inv env m batch r dn f"
    and run: "fo_running f = us @ w # vs" "unrecorded_of w = [s]"
    and out: "out = step_output env s r"
  shows "fan_inv env m batch r dn (f\<lparr>fo_running := us @ Recorded s # vs,
       fo_results := (fo_results f)(os_id s \<mapsto> out), fo_done := set_done (fo_done f) (os_id s)\<rparr>)"
    (is "fan_inv env m batch r dn ?g")
proof -
  let ?a = "concat (map unrecorded_of us)"
  let ?z = "concat (map unrecorded_of vs) @ fo_pending f"
  have u: "unrecorded f = ?a @ s # ?z" by (simp add: unrecorded_def run)
  have g: "unrecorded ?g = ?a @ ?z" by (simp add: unrecorded_def)
  have s: "s \<in> set batch" using inv u by (auto simp: fan_inv_def)
  have sid: "os_id s \<notin> os_id ` set (?a @ ?z)" using inv u by (auto simp: fan_inv_def)
  have uniq: "t = s" if "t \<in> set batch" "os_id t = os_id s" for t
    using that s ind by (metis distinct_map independent_def inj_onD)
  have rest: "set (unrecorded f) = insert s (set (unrecorded ?g))" "s \<notin> set (unrecorded ?g)"
    using u g sid by auto
  have "fo_results ?g (os_id t) = Some (step_output env t r)"
    if "t \<in> set batch" "t \<notin> set (unrecorded ?g)" for t
  proof (cases "t = s")
    case False
    then have "os_id t \<noteq> os_id s" using that(1) uniq by blast
    with False that rest inv show ?thesis by (simp add: fan_inv_def)
  qed (simp add: out)
  moreover have "set (fo_done ?g) = set dn \<union> os_id ` (set batch - set (unrecorded ?g))"
  proof -
    have "set batch - set (unrecorded ?g) = insert s (set batch - set (unrecorded f))"
      using rest s by auto
    moreover have "set (fo_done ?g) = insert (os_id s) (set (fo_done f))"
      by (auto simp: set_done_def)
    ultimately show ?thesis using inv by (simp add: fan_inv_def)
  qed
  moreover have "distinct (map os_id (unrecorded ?g))" "set (unrecorded ?g) \<subseteq> set batch"
    using inv u g by (auto simp: fan_inv_def)
  ultimately show ?thesis
    using inv s run by (auto simp: fan_inv_def)
qed

lemma fan_inv_step:
  assumes ind: "independent batch" and inv: "fan_inv env m batch r dn f" and st: "fan_step env m f g"
  shows "fan_inv env m batch r dn g"
  using st
proof cases
  case (launch s ps)
  then have "set (unrecorded g) = set (unrecorded f)" "distinct (map os_id (unrecorded g))"
    using inv by (auto simp: unrecorded_def fan_inv_def)
  with inv launch show ?thesis by (auto simp: fan_inv_def)
next
  case (skill us s vs out)
  then have "out = step_output env s r" by (simp add: step_output_def)
  with skill fan_inv_record [OF ind inv skill(2)] show ?thesis by simp
next
  case (snapshot us s vs)
  then have s: "s \<in> set batch" using inv by (auto simp: fan_inv_def unrecorded_def)
  have "unrecorded g = unrecorded f" using snapshot by (simp add: unrecorded_def)
  with inv snapshot snapshot_independent [OF ind inv s] show ?thesis by (auto simp: fan_inv_def)
next
  case (finish us s prior vs)
  then have "Snapped s prior \<in> set (fo_running f)" by simp
  with inv have "prior = snapshot_prior s r" "skill_output env s = None" by (auto simp: fan_inv_def)
  then have "worker_output env s prior = step_output env s r" by (simp add: step_output_def)
  with finish fan_inv_record [OF ind inv finish(2)] show ?thesis by simp
next
  case (release us s vs)
  then have "unrecorded g = unrecorded f" by (simp add: unrecorded_def)
  with inv release show ?thesis by (auto simp: fan_inv_def)
qed

lemma fan_inv_reachable:
  assumes "independent batch" "(fan_step env m)\<^sup>*\<^sup>* (fan_init batch r dn) f"
  shows "fan_inv env m batch r dn f"
  using assms(2)
  by (induction rule: rtranclp_induct) (auto intro: fan_inv_init fan_inv_step assms(1))

text \<open>A round that can take no step is over; and each step uses up work.\<close>

lemma fan_stuck_final:
  assumes "0 < m" "\<nexists>g. fan_step env m f g"
  shows "fo_running f = []" "fo_pending f = []"
proof -
  show run: "fo_running f = []"
  proof (rule ccontr)
    assume "fo_running f \<noteq> []"
    then obtain w ws where w: "fo_running f = [] @ w # ws" by (cases "fo_running f") auto
    show False
    proof (cases w)
      case (Started s)
      with w assms(2) show False
        by (cases "skill_output env s") (metis fan_step.snapshot, metis fan_step.skill)
    qed (use w assms(2) in \<open>metis fan_step.finish, metis fan_step.release\<close>)
  qed
  show "fo_pending f = []"
  proof (rule ccontr)
    assume "fo_pending f \<noteq> []"
    then obtain s ps where "fo_pending f = s # ps" by (cases "fo_pending f") auto
    moreover have "length (fo_running f) < m" using run assms(1) by simp
    ultimately show False using assms(2) fan_step.launch by metis
  qed
qed

fun phase_work :: "worker_phase \<Rightarrow> nat" where
  "phase_work (Started _) = 3"
| "phase_work (Snapped _ _) = 2"
| "phase_work (Recorded _) = 1"

definition fan_work :: "fanout \<Rightarrow> nat" where
  "fan_work f = 4 * length (fo_pending f) + sum_list (map phase_work (fo_running f))"

lemma fan_step_work: "fan_step env m f g \<Longrightarrow> fan_work g < fan_work f"
  by (induction rule: fan_step.induct) (auto simp: fan_work_def)

lemma fan_inv_final:
  assumes "independent batch" "fan_inv env m batch r dn f" "fo_running f = []" "fo_pending f = []"
  shows "fo_results f = run_batch env r batch" "set (fo_done f) = set (mark_batch dn batch)"
proof -
  have u: "unrecorded f = []" using assms(3,4) by (simp add: unrecorded_def)
  show "fo_results f = run_batch env r batch"
  proof
    fix i
    show "fo_results f i = run_batch env r batch i"
    proof (cases "i \<in> os_id ` set batch")
      case True
      then obtain s where "s \<in> set batch" "i = os_id s" by auto
      with assms(1,2) u show ?thesis by (simp add: fan_inv_def run_batch_inside)
    next
      case False
      with assms(2) show ?thesis by (simp add: fan_inv_def run_batch_outside)
    qed
  qed
  show "set (fo_done f) = set (mark_batch dn batch)"
    using assms(2) u by (simp add: fan_inv_def set_mark_batch)
qed

section \<open>Properties\<close>

definition demo_step :: "int \<Rightarrow> int list \<Rightarrow> orch_step" where
  "demo_step i deps = \<lparr>os_id = i, os_desc = ''do it'', os_deps = deps, os_hint = []\<rparr>"

text \<open>A worker that reports how much it can see.\<close>

definition demo_dispatch :: dispatch_env where
  "demo_dispatch = \<lparr>de_task = ''t'',
     de_worker = (\<lambda>t s prior. if prior (os_id s - 1) = None then Inr ''first'' else Inr ''next''),
     de_skills = None\<rparr>"

lemmas demo_dispatch_simps = demo_step_def demo_dispatch_def plan_ranked_def skill_output_def

text \<open>
  C1: a well-formed plan is never stuck. The dispatcher returns either with a result for exactly the ids
  of the plan, each one computed by its step from the final results of all its dependencies, or, when
  the circuit breaker fired, with at least three stalled results.
\<close>

theorem dispatch_ranked_plan_runs:
  assumes "plan_ranked steps rk"
  shows "case execute_workers env steps of
           StuckPlan r \<Rightarrow> False
         | Completed r \<Rightarrow> dom r = os_id ` set steps \<and>
             (\<forall>s\<in>set steps. r (os_id s) = Some (step_output env s r))
         | BrokeOff r \<Rightarrow> 3 \<le> card (stalled_ids r (os_id ` set steps))"
proof -
  have dist: "distinct (map os_id steps)" using assms by (simp add: plan_ranked_def)
  note init = dispatch_inv_init [of env steps]
  show ?thesis
  proof (cases "execute_workers env steps")
    case (Completed r)
    then obtain dn where inv: "dispatch_inv env steps dn r" "length steps \<le> length dn"
      using rounds_completed [OF dist init] by (auto simp: execute_workers_def)
    have "set dn = os_id ` set steps"
    proof (rule card_subset_eq)
      have "card (os_id ` set steps) \<le> length steps" by (metis card_length length_map set_map)
      also have "length steps \<le> card (set dn)"
        using inv by (simp add: dispatch_inv_def distinct_card)
      finally show "card (set dn) = card (os_id ` set steps)"
        using inv(1) by (auto simp: dispatch_inv_def intro!: antisym card_mono)
    qed (use inv in \<open>auto simp: dispatch_inv_def\<close>)
    with inv(1) Completed show ?thesis by (simp add: dispatch_inv_def)
  next
    case (BrokeOff r)
    with rounds_broke_off [OF dist, of "[]" 0 Map.empty env r] show ?thesis
      by (simp add: execute_workers_def stalled_ids_def)
  next
    case (StuckPlan r)
    with rounds_not_stuck [OF assms init] show ?thesis by (simp add: execute_workers_def)
  qed
qed

theorem dispatch_ranked_plan_runs_witness:
  "case execute_workers demo_dispatch [demo_step 2 [1], demo_step 1 []] of
     StuckPlan r \<Rightarrow> False
   | Completed r \<Rightarrow> dom r = {2, 1} \<and>
       r 2 = Some (step_output demo_dispatch (demo_step 2 [1]) r) \<and>
       r 1 = Some (step_output demo_dispatch (demo_step 1 []) r)
   | BrokeOff r \<Rightarrow> 3 \<le> card (stalled_ids r {2, 1})"
proof -
  have "plan_ranked [demo_step 2 [1], demo_step 1 []] nat" by (simp add: demo_dispatch_simps)
  from dispatch_ranked_plan_runs [OF this, of demo_dispatch] show ?thesis
    by (simp add: demo_step_def split: dispatch_outcome.splits)
qed

text \<open>
  Conversely only well-formed plans are ever completed: with a repeated id, a dependency on an id that
  is not in the plan, or a cycle, the dispatcher never returns \<open>Completed\<close>, whatever the workers do.
\<close>

lemma dispatch_completed_ranked:
  assumes "execute_workers env steps = Completed r"
  shows "\<exists>rk. plan_ranked steps rk"
proof -
  have dist: "distinct (map os_id steps)"
    using rounds_completed_distinct [of "[]"] assms by (simp add: execute_workers_def)
  obtain dn where inv: "dispatch_inv env steps dn r" "length steps \<le> length dn"
    using rounds_completed [OF dist dispatch_inv_init assms [unfolded execute_workers_def]] by blast
  have "card (os_id ` set steps) \<le> card (set dn)"
    using inv by (metis card_length dispatch_inv_def distinct_card length_map order_trans set_map)
  then have dn: "set dn = os_id ` set steps"
    using inv(1) by (intro card_seteq) (auto simp: dispatch_inv_def)
  define rk where "rk d = length (takeWhile (\<lambda>x. x \<noteq> d) dn)" for d
  have "d \<in> os_id ` set steps \<and> rk d < rk (os_id s)" if s: "s \<in> set steps" "d \<in> set (os_deps s)" for s d
  proof -
    obtain us vs where split: "dn = us @ os_id s # vs" "set (os_deps s) \<subseteq> set us" "distinct dn"
      using inv(1) dn s(1) by (auto simp: dispatch_inv_def)
    have d: "d \<in> set us" using split(2) s(2) by blast
    then obtain as bs where us: "us = as @ d # bs" "d \<notin> set as"
      using split_list_first by metis
    have "rk d = length as" using us takeWhile_neq_split [of d as "bs @ os_id s # vs"]
      by (simp add: rk_def split(1))
    moreover have "rk (os_id s) = length us" using split(1,3) by (simp add: rk_def)
    ultimately show ?thesis using d dn split(1) us by auto
  qed
  with dist have "plan_ranked steps rk" by (simp add: plan_ranked_def)
  then show ?thesis by blast
qed

text \<open>
  C2: the concurrent round. From the start of a round, in every interleaving of the goroutines, at most
  \<open>MaxParallel\<close> of them hold a slot, and when none can move any more every worker has finished and
  the shared maps are those of the one-after-the-other run.
\<close>

theorem fanout_agrees_with_sequential:
  assumes "distinct (map os_id steps)" "0 < m"
    and "(fan_step env m)\<^sup>*\<^sup>* (fan_init (eligible steps dn) r dn) f"
  shows "length (fo_running f) \<le> m \<and>
    ((\<nexists>g. fan_step env m f g) \<longrightarrow> fo_results f = run_batch env r (eligible steps dn) \<and>
       set (fo_done f) = set (mark_batch dn (eligible steps dn)))"
proof -
  note ind = eligible_independent [OF assms(1), of dn]
  note inv = fan_inv_reachable [OF ind assms(3)]
  then show ?thesis
    using fan_stuck_final [OF assms(2)] fan_inv_final [OF ind inv] by (auto simp: fan_inv_def)
qed

theorem fanout_agrees_with_sequential_witness:
  "length (fo_running (fan_init (eligible [demo_step 1 []] []) Map.empty [])) \<le> 3"
  using fanout_agrees_with_sequential [of "[demo_step 1 []]" 3 demo_dispatch "[]" Map.empty
      "fan_init (eligible [demo_step 1 []] []) Map.empty []"] by simp

text \<open>
  The concurrent round ends: no interleaving is longer than four steps for each step of the batch
  (start, snapshot, result, release), so \<open>g.Wait()\<close> returns once the workers return.
\<close>

lemma fanout_terminates:
  assumes "(fan_step env m ^^ k) (fan_init batch r dn) f"
  shows "k \<le> 4 * length batch"
proof -
  have "k + fan_work f \<le> fan_work (fan_init batch r dn)"
    using assms
  proof (induction k arbitrary: f)
    case (Suc k)
    then obtain h where "(fan_step env m ^^ k) (fan_init batch r dn) h" "fan_step env m h f" by auto
    with Suc.IH fan_step_work [of env m h f] show ?case by fastforce
  qed auto
  then show ?thesis by (simp add: fan_work_def fan_init_def)
qed

lemma demo_fan_launch:
  "fan_step demo_dispatch 3 (fan_init [demo_step 1 []] Map.empty [])
     ((fan_init [demo_step 1 []] Map.empty [])\<lparr>fo_pending := [], fo_running := [Started (demo_step 1 [])]\<rparr>)"
  using fan_step.launch [of "fan_init [demo_step 1 []] Map.empty []" "demo_step 1 []" "[]" 3]
  by (simp add: fan_init_def)

lemma fanout_terminates_witness: "(1::nat) \<le> 4 * length [demo_step 1 []]"
  by (rule fanout_terminates [where env = demo_dispatch and m = 3 and r = Map.empty and dn = "[]"])
    (subst relpowp_1, rule demo_fan_launch)

lemma dispatch_completed_ranked_witness:
  "\<exists>rk. plan_ranked [demo_step 1 []] rk"
proof (rule dispatch_completed_ranked)
  show "execute_workers demo_dispatch [demo_step 1 []] = Completed [1 \<mapsto> ''first'']"
    by (simp add: execute_workers_def dispatch_rounds.simps demo_step_def demo_dispatch_def eligible_def
        all_deps_done_def run_batch_def mark_batch_def set_done_def step_output_def skill_output_def
        worker_output_def snapshot_prior_def result_at_def is_stalled_result_def stall_tags_def
        trim_space_def trim_right_def is_space_def byte_def)
qed

end
