(* ===== verification/Json_Text.thy ===== *)
theory Json_Text
  imports Kyoci_Types
begin

text \<open>
  How the agent recovers JSON from model output: removing Markdown fences and trailing commas, and
  cutting out the outermost array or object (\<open>internal/agent/orchestrated.go\<close> and
  \<open>internal/agent/thinking.go\<close>). The decoding itself is \<open>encoding/json\<close>; the theories that need it take
  it as a parameter. An index of the source that may be -1 is an option.
\<close>

section \<open>Fences\<close>

definition fence :: string where
  "fence = ''```''"

fun fence_body :: "bool \<Rightarrow> string list \<Rightarrow> string list" where
  "fence_body in_block [] = []"
| "fence_body in_block (l # ls) =
     (if has_prefix (trim_space l) fence
      then (if in_block then [] else fence_body True ls)
      else (if in_block then l # fence_body True ls else fence_body False ls))"

definition strip_code_fences :: "string \<Rightarrow> string" where
  "strip_code_fences input =
     (if \<not> has_prefix input fence then input
      else let inner = fence_body False (split_on (CHR 0x0A) input)
           in if inner \<noteq> [] then join nl inner else input)"

lemma strip_code_fences_plain: "\<not> has_prefix input fence \<Longrightarrow> strip_code_fences input = input"
  by (simp add: strip_code_fences_def)

section \<open>Trailing commas\<close>

text \<open>White space of a Go regular expression, \<open>\s\<close>.\<close>

definition re_space :: "char \<Rightarrow> bool" where
  "re_space c \<longleftrightarrow> byte c \<in> {9, 10, 12, 13, 32}"

text \<open>The text after a comma and its white space, when that is a closing bracket.\<close>

definition closing_after :: "string \<Rightarrow> string option" where
  "closing_after s =
     (case dropWhile re_space s of
        [] \<Rightarrow> None
      | c # cs \<Rightarrow> if c = CHR ''}'' \<or> c = CHR '']'' then Some (c # cs) else None)"

lemma closing_after_length: "closing_after s = Some t \<Longrightarrow> length t \<le> length s"
proof -
  assume "closing_after s = Some t"
  then have "t = dropWhile re_space s"
    by (auto simp: closing_after_def split: list.splits if_splits)
  then show ?thesis by (simp add: length_dropWhile_le)
qed

text \<open>\<open>trailingCommaRe.ReplaceAllString(s, "$1")\<close>: matches do not overlap and the replaced text,
  a single bracket, contains no comma, so the scan may go on from it.\<close>

function strip_trailing_commas :: "string \<Rightarrow> string" where
  "strip_trailing_commas s =
     (case s of
        [] \<Rightarrow> []
      | c # cs \<Rightarrow>
          (case (if c = CHR '','' then closing_after cs else None) of
             Some rest \<Rightarrow> strip_trailing_commas rest
           | None \<Rightarrow> c # strip_trailing_commas cs))"
  by pat_completeness auto
termination
  by (relation "measure length") (auto dest!: closing_after_length split: if_splits)

declare strip_trailing_commas.simps [simp del]

lemma strip_trailing_commas_Nil [simp]: "strip_trailing_commas [] = []"
  by (subst strip_trailing_commas.simps) simp

lemma strip_trailing_commas_Cons:
  "strip_trailing_commas (c # cs) =
     (case (if c = CHR '','' then closing_after cs else None) of
        Some rest \<Rightarrow> strip_trailing_commas rest
      | None \<Rightarrow> c # strip_trailing_commas cs)"
  by (subst strip_trailing_commas.simps) simp

lemma strip_trailing_commas_no_comma:
  "CHR '','' \<notin> set s \<Longrightarrow> strip_trailing_commas s = s"
  by (induction s) (auto simp: strip_trailing_commas_Cons)

lemma length_strip_trailing_commas: "length (strip_trailing_commas s) \<le> length s"
proof (induction s rule: length_induct)
  case (1 s)
  show ?case
  proof (cases s)
    case (Cons c cs)
    show ?thesis
    proof (cases "if c = CHR '','' then closing_after cs else None")
      case (Some rest)
      then have "length rest \<le> length cs" by (auto dest: closing_after_length split: if_splits)
      moreover have "length (strip_trailing_commas rest) \<le> length rest"
        using 1 \<open>length rest \<le> length cs\<close> Cons by auto
      moreover have "strip_trailing_commas s = strip_trailing_commas rest"
        using Some Cons by (simp only: strip_trailing_commas_Cons option.case)
      ultimately show ?thesis using Cons by simp
    next
      case None
      then have "strip_trailing_commas s = c # strip_trailing_commas cs"
        using Cons by (simp only: strip_trailing_commas_Cons option.case)
      with 1 Cons show ?thesis by simp
    qed
  qed simp
qed

section \<open>Balanced blocks\<close>

text \<open>
  The distance from the start of the text to the bracket that closes the block, counting brackets
  outside string literals. A backslash escapes the next character: inside a literal only for the
  array scanner, anywhere for the \<open>next_action\<close> scanner.
\<close>

fun scan_close :: "bool \<Rightarrow> char \<Rightarrow> char \<Rightarrow> int \<Rightarrow> bool \<Rightarrow> bool \<Rightarrow> string \<Rightarrow> nat option" where
  "scan_close anywhere op cl depth in_str esc [] = None"
| "scan_close anywhere op cl depth in_str esc (c # cs) =
     (if esc then map_option Suc (scan_close anywhere op cl depth in_str False cs)
      else if c = CHR 0x5C \<and> (anywhere \<or> in_str)
      then map_option Suc (scan_close anywhere op cl depth in_str True cs)
      else if c = CHR 0x22 then map_option Suc (scan_close anywhere op cl depth (\<not> in_str) False cs)
      else if in_str then map_option Suc (scan_close anywhere op cl depth in_str False cs)
      else if c = op then map_option Suc (scan_close anywhere op cl (depth + 1) in_str False cs)
      else if c = cl then
        (if depth - 1 = 0 then Some 0
         else map_option Suc (scan_close anywhere op cl (depth - 1) in_str False cs))
      else map_option Suc (scan_close anywhere op cl depth in_str False cs))"

definition extract_outermost_array :: "string \<Rightarrow> string" where
  "extract_outermost_array input =
     (case str_index input ''['' of
        None \<Rightarrow> []
      | Some start \<Rightarrow>
          (case scan_close False (CHR ''['') (CHR '']'') 0 False False (drop start input) of
             None \<Rightarrow> []
           | Some n \<Rightarrow> take (n + 1) (drop start input)))"

definition extract_outermost_json :: "string \<Rightarrow> string" where
  "extract_outermost_json input =
     (case (str_index input ''{'', str_last_index_char input (CHR ''}'')) of
        (Some start, Some fin) \<Rightarrow>
          if fin \<le> start then [] else take (fin + 1 - start) (drop start input)
      | _ \<Rightarrow> [])"

text \<open>The block that \<open>salvageNextAction\<close> decodes: the object after the first \<open>"next_action"\<close> key.\<close>

definition next_action_key :: string where
  "next_action_key = [CHR 0x22] @ ''next_action'' @ [CHR 0x22]"

definition next_action_block :: "string \<Rightarrow> string option" where
  "next_action_block input =
     (case str_index input next_action_key of
        None \<Rightarrow> None
      | Some idx \<Rightarrow>
          (case str_index (drop idx input) ''{'' of
             None \<Rightarrow> None
           | Some rel \<Rightarrow>
               let rest = drop (idx + rel) input
               in case scan_close True (CHR ''{'') (CHR ''}'') 0 False False rest of
                    None \<Rightarrow> None
                  | Some n \<Rightarrow> Some (take (n + 1) rest)))"

lemma scan_close_closes:
  "scan_close anywhere op cl depth in_str esc s = Some n \<Longrightarrow> n < length s \<and> s ! n = cl"
  by (induction anywhere op cl depth in_str esc s arbitrary: n rule: scan_close.induct)
    (auto split: if_splits)

text \<open>The scan reads nothing after the closing bracket.\<close>

lemma scan_close_append:
  "scan_close anywhere op cl depth in_str esc s = Some n \<Longrightarrow>
     scan_close anywhere op cl depth in_str esc (s @ t) = Some n"
  by (induction anywhere op cl depth in_str esc s arbitrary: n rule: scan_close.induct)
    (auto split: if_splits)

lemma str_index_skip:
  "c \<notin> set pre \<Longrightarrow> str_index (pre @ c # s) [c] = Some (length pre)"
  by (induction pre) auto

lemma str_index_hd: "str_index s [c] = Some i \<Longrightarrow> drop i s \<noteq> [] \<and> hd (drop i s) = c"
proof (induction s arbitrary: i)
  case (Cons d s)
  show ?case
  proof (cases "d = c")
    case True
    with Cons.prems show ?thesis by auto
  next
    case False
    with Cons.prems obtain j where "str_index s [c] = Some j" "i = Suc j"
      by (auto split: if_splits)
    with Cons.IH show ?thesis by auto
  qed
qed simp

text \<open>A block wrapped in prose is found: any text before it without an opening bracket, and any text
  after it.\<close>

lemma extract_outermost_array_wrapped:
  assumes "CHR ''['' \<notin> set pre" "hd arr = CHR ''[''" "arr \<noteq> []"
    and "scan_close False (CHR ''['') (CHR '']'') 0 False False arr = Some (length arr - 1)"
  shows "extract_outermost_array (pre @ arr @ post) = arr"
proof -
  obtain rest where arr: "arr = CHR ''['' # rest" using assms(2,3) by (cases arr) auto
  have "str_index (pre @ arr @ post) ''['' = Some (length pre)"
    using str_index_skip [OF assms(1), of "rest @ post"] by (simp add: arr)
  moreover have "scan_close False (CHR ''['') (CHR '']'') 0 False False (arr @ post) =
      Some (length arr - 1)" by (rule scan_close_append [OF assms(4)])
  ultimately show ?thesis using assms(3) by (simp add: extract_outermost_array_def)
qed

text \<open>Whatever is extracted is a contiguous part of the input between the two brackets.\<close>

lemma extract_outermost_array_part:
  assumes "extract_outermost_array input \<noteq> []"
  shows "sublist (extract_outermost_array input) input"
    and "hd (extract_outermost_array input) = CHR ''[''"
    and "last (extract_outermost_array input) = CHR '']''"
proof -
  obtain start n where i: "str_index input ''['' = Some start"
      "scan_close False (CHR ''['') (CHR '']'') 0 False False (drop start input) = Some n"
    using assms by (auto simp: extract_outermost_array_def split: option.splits)
  let ?d = "drop start input"
  have e: "extract_outermost_array input = take (n + 1) ?d"
    using i by (simp add: extract_outermost_array_def)
  have n: "n < length ?d" "?d ! n = CHR '']''" using scan_close_closes [OF i(2)] by auto
  show "sublist (extract_outermost_array input) input"
    unfolding e by (meson sublist_drop sublist_order.order_trans sublist_take)
  show "hd (extract_outermost_array input) = CHR ''[''"
    unfolding e using str_index_hd [OF i(1)] by (simp add: hd_take)
  show "last (extract_outermost_array input) = CHR '']''"
    unfolding e using n by (simp add: last_conv_nth)
qed

end
