(* ===== verification/Code_Blocks.thy ===== *)
theory Code_Blocks
  imports Orch_Steps
begin

text \<open>
  The code-block interceptor of \<open>internal/agent/loop.go\<close>: fenced blocks are cut out of a model's answer,
  each is given a file name from its fence, from the step description or from its language, and the
  blocks with a name become synthesized \<open>file\<close> writes. The two regular expressions, \<open>codeBlockRe\<close> and
  \<open>descFileRe\<close>, are translated to scanners that follow Go's leftmost-first matching; \<open>FindAll\<close> goes on
  after the end of the previous match.
\<close>

section \<open>Paths\<close>

definition after_last_slash :: "string \<Rightarrow> string" where
  "after_last_slash p = rev (takeWhile (\<lambda>c. c \<noteq> CHR ''/'') (rev p))"

text \<open>\<open>filepath.Ext\<close>: from the last dot of the last path element.\<close>

definition filepath_ext :: "string \<Rightarrow> string" where
  "filepath_ext p =
     (let base = after_last_slash p
      in case str_last_index_char base (CHR ''.'') of None \<Rightarrow> [] | Some i \<Rightarrow> drop i base)"

definition filepath_base :: "string \<Rightarrow> string" where
  "filepath_base p =
     (if p = [] then ''.''
      else let q = rev (dropWhile (\<lambda>c. c = CHR ''/'') (rev p))
           in if q = [] then ''/'' else after_last_slash q)"

section \<open>Fenced blocks\<close>

record code_block =
  cb_lang :: string
  cb_filename :: string
  cb_body :: string

definition fence3 :: string where
  "fence3 = ''```''"

definition is_info_byte :: "char \<Rightarrow> bool" where
  "is_info_byte c \<longleftrightarrow> is_upper c \<or> is_lower c \<or> is_digit c \<or> c \<in> set ''_+./ -''"

text \<open>A match of \<open>codeBlockRe\<close> at the start of the text: info string, body and the text after it.\<close>

definition block_at :: "string \<Rightarrow> (string \<times> string \<times> string) option" where
  "block_at s =
     (if \<not> has_prefix s fence3 then None
      else
        let s1 = drop 3 s;
            info = takeWhile is_info_byte s1
        in case dropWhile is_info_byte s1 of
             [] \<Rightarrow> None
           | c # s2 \<Rightarrow>
               if c \<noteq> CHR 0x0A then None
               else case str_index s2 fence3 of
                      None \<Rightarrow> None
                    | Some n \<Rightarrow> Some (info, take n s2, drop (n + 3) s2))"

lemma block_at_length: "block_at s = Some (info, body, rest) \<Longrightarrow> length rest < length s"
proof -
  assume b: "block_at s = Some (info, body, rest)"
  then obtain c s2 n where d: "dropWhile is_info_byte (drop 3 s) = c # s2" "rest = drop (n + 3) s2"
    by (auto simp: block_at_def Let_def split: if_splits list.splits option.splits)
  have "length (dropWhile is_info_byte (drop 3 s)) \<le> length s"
    using length_dropWhile_le [of is_info_byte "drop 3 s"] by simp
  with d show ?thesis by simp
qed

function code_block_matches :: "string \<Rightarrow> (string \<times> string) list" where
  "code_block_matches s =
     (case s of
        [] \<Rightarrow> []
      | c # cs \<Rightarrow>
          (case block_at s of
             Some (info, body, rest) \<Rightarrow> (info, body) # code_block_matches rest
           | None \<Rightarrow> code_block_matches cs))"
  by pat_completeness auto
termination
  by (relation "measure length") (auto dest: block_at_length)

declare code_block_matches.simps [simp del]

definition looks_like_path :: "string \<Rightarrow> bool" where
  "looks_like_path p \<longleftrightarrow> filepath_ext p \<noteq> [] \<or> contains_str p ''/''"

definition make_block :: "string \<times> string \<Rightarrow> code_block" where
  "make_block m =
     (let info = trim_space (fst m);
          body = (if has_prefix (snd m) nl then drop 1 (snd m) else snd m);
          parts = str_fields info
      in if info = [] then \<lparr>cb_lang = [], cb_filename = [], cb_body = body\<rparr>
         else \<lparr>cb_lang = to_lower (hd parts),
               cb_filename = (case find looks_like_path (tl parts) of None \<Rightarrow> [] | Some p \<Rightarrow> p),
               cb_body = body\<rparr>)"

definition extract_code_blocks :: "string \<Rightarrow> code_block list" where
  "extract_code_blocks content = map make_block (code_block_matches content)"

section \<open>File names in a description\<close>

definition is_path_byte :: "char \<Rightarrow> bool" where
  "is_path_byte c \<longleftrightarrow> is_upper c \<or> is_lower c \<or> is_digit c \<or> c \<in> set ''_./-''"

definition known_exts :: "string list" where
  "known_exts = [''go'', ''js'', ''mjs'', ''cjs'', ''jsx'', ''ts'', ''tsx'', ''py'', ''rb'', ''rs'',
     ''html'', ''htm'', ''css'', ''scss'', ''sass'', ''less'', ''sh'', ''bash'', ''zsh'', ''java'', ''kt'',
     ''swift'', ''cpp'', ''cc'', ''cxx'', ''c'', ''cs'', ''scala'', ''php'', ''vue'', ''svelte'', ''json'',
     ''toml'', ''yaml'', ''yml'', ''lock'', ''ini'', ''env'', ''xml'', ''md'', ''markdown'', ''txt'', ''csv'',
     ''sql'']"

text \<open>The length of a match of \<open>descFileRe\<close> at the start of \<open>s\<close>: the longest stem first, then the first
  extension that ends at a word boundary.\<close>

definition ext_match :: "string \<Rightarrow> string option" where
  "ext_match s = find (word_at False s) known_exts"

fun stem_match :: "nat \<Rightarrow> string \<Rightarrow> nat option" where
  "stem_match 0 s = None"
| "stem_match (Suc k) s =
     (case (case drop (Suc k) s of [] \<Rightarrow> None | c # cs \<Rightarrow> if c = CHR ''.'' then ext_match cs else None) of
        Some e \<Rightarrow> Some (Suc k + 1 + length e)
      | None \<Rightarrow> stem_match k s)"

definition desc_file_at :: "string \<Rightarrow> nat option" where
  "desc_file_at s = stem_match (length (takeWhile is_path_byte s)) s"

lemma stem_match_pos: "stem_match k s = Some n \<Longrightarrow> 0 < n"
  by (induction k) (auto split: option.splits)

lemma desc_file_at_pos: "desc_file_at s = Some n \<Longrightarrow> 0 < n"
  by (auto simp: desc_file_at_def dest: stem_match_pos)

function desc_file_matches :: "bool \<Rightarrow> string \<Rightarrow> string list" where
  "desc_file_matches prev_word s =
     (case s of
        [] \<Rightarrow> []
      | c # cs \<Rightarrow>
          (case (if prev_word \<noteq> is_word_byte c then desc_file_at s else None) of
             Some n \<Rightarrow> take n s # desc_file_matches True (drop n s)
           | None \<Rightarrow> desc_file_matches (is_word_byte c) cs))"
  by pat_completeness auto
termination
  by (relation "measure (length \<circ> snd)") (auto dest!: desc_file_at_pos split: if_splits)

declare desc_file_matches.simps [simp del]

definition extract_all_filenames :: "string \<Rightarrow> string list" where
  "extract_all_filenames desc = map filepath_base (desc_file_matches False desc)"

definition extract_filename :: "string \<Rightarrow> string" where
  "extract_filename desc =
     (case desc_file_matches False desc of [] \<Rightarrow> [] | m # _ \<Rightarrow> filepath_base m)"

section \<open>Names for blocks\<close>

text \<open>The language a file extension stands for, shared by \<open>guessFilenameForBlock\<close> and \<open>fileLangMatches\<close>.\<close>

definition ext_language :: "string \<Rightarrow> string" where
  "ext_language ext =
     (case map_of [(''.go'', ''go''), (''.js'', ''js''), (''.mjs'', ''js''), (''.cjs'', ''js''),
        (''.jsx'', ''jsx''), (''.ts'', ''ts''), (''.tsx'', ''tsx''), (''.py'', ''py''), (''.rb'', ''ruby''),
        (''.rs'', ''rust''), (''.html'', ''html''), (''.htm'', ''html''), (''.css'', ''css''),
        (''.sh'', ''sh''), (''.bash'', ''sh''), (''.java'', ''java''), (''.cpp'', ''cpp''),
        (''.cc'', ''cpp''), (''.cxx'', ''cpp''), (''.c'', ''c'')] ext of
        None \<Rightarrow> [] | Some l \<Rightarrow> l)"

definition language_file :: "string \<Rightarrow> string" where
  "language_file lang =
     (case map_of [(''go'', ''main.go''), (''js'', ''index.js''), (''javascript'', ''index.js''),
        (''jsx'', ''Component.jsx''), (''ts'', ''index.ts''), (''typescript'', ''index.ts''),
        (''tsx'', ''Component.tsx''), (''py'', ''main.py''), (''python'', ''main.py''),
        (''rb'', ''main.rb''), (''ruby'', ''main.rb''), (''rs'', ''main.rs''), (''rust'', ''main.rs''),
        (''html'', ''index.html''), (''css'', ''styles.css''), (''sh'', ''script.sh''),
        (''bash'', ''script.sh''), (''java'', ''Main.java''), (''cpp'', ''main.cpp''),
        (''c++'', ''main.cpp''), (''c'', ''main.c'')] lang of
        None \<Rightarrow> [] | Some f \<Rightarrow> f)"

definition default_filename_for_lang :: "string \<Rightarrow> string" where
  "default_filename_for_lang lang =
     (case map_of [(''go'', ''main.go''), (''js'', ''index.js''), (''javascript'', ''index.js''),
        (''ts'', ''index.ts''), (''typescript'', ''index.ts''), (''py'', ''main.py''),
        (''python'', ''main.py''), (''html'', ''index.html''), (''css'', ''styles.css'')] lang of
        None \<Rightarrow> [] | Some f \<Rightarrow> f)"

definition guess_filename_for_block :: "code_block \<Rightarrow> string \<Rightarrow> string" where
  "guess_filename_for_block b desc =
     (let desc_file = extract_filename desc;
          want = ext_language (to_lower (filepath_ext desc_file))
      in if desc_file \<noteq> [] \<and> want = cb_lang b then desc_file
         else language_file (cb_lang b))"

definition file_lang_matches :: "string \<Rightarrow> string \<Rightarrow> bool" where
  "file_lang_matches filename lang =
     (let want = ext_language (to_lower (filepath_ext filename))
      in want = lang \<or> (want = ''js'' \<and> lang = ''javascript'') \<or>
         (want = ''ts'' \<and> lang = ''typescript'') \<or> (want = ''py'' \<and> lang = ''python''))"

datatype file_write = FileWrite string string

text \<open>One block: the write it becomes, if any, and the description files used up so far.\<close>

definition intercept_block ::
  "string \<Rightarrow> string list \<Rightarrow> nat \<Rightarrow> string list \<Rightarrow> code_block \<Rightarrow> string list \<times> file_write option" where
  "intercept_block desc desc_files n_blocks used b =
     (if cb_lang b = [] then (used, None)
      else
        let paired = (if cb_filename b \<noteq> [] then None
                      else find (\<lambda>df. df \<notin> set used \<and> file_lang_matches df (cb_lang b)) desc_files);
            used = (case paired of None \<Rightarrow> used | Some df \<Rightarrow> df # used);
            confident = (cb_filename b \<noteq> [] \<or> paired \<noteq> None);
            filename = (if cb_filename b \<noteq> [] then cb_filename b
                        else case paired of Some df \<Rightarrow> df | None \<Rightarrow> guess_filename_for_block b desc)
        in if filename = [] then (used, None)
           else if \<not> confident \<and> filename = default_filename_for_lang (cb_lang b) \<and> 1 < n_blocks
           then (used, None)
           else (used, Some (FileWrite filename (cb_body b))))"

fun intercept_blocks ::
  "string \<Rightarrow> string list \<Rightarrow> nat \<Rightarrow> string list \<Rightarrow> code_block list \<Rightarrow> file_write list" where
  "intercept_blocks desc dfs n used [] = []"
| "intercept_blocks desc dfs n used (b # bs) =
     (let (used', w) = intercept_block desc dfs n used b
      in (case w of None \<Rightarrow> [] | Some fw \<Rightarrow> [fw]) @ intercept_blocks desc dfs n used' bs)"

definition intercept_code_blocks :: "string \<Rightarrow> string \<Rightarrow> file_write list" where
  "intercept_code_blocks output desc =
     (let blocks = extract_code_blocks output
      in intercept_blocks desc (extract_all_filenames desc) (length blocks) [] blocks)"

section \<open>Lemmas\<close>

lemma code_block_matches_Nil [simp]: "code_block_matches [] = []"
  by (subst code_block_matches.simps) simp

lemma code_block_matches_Cons:
  "code_block_matches (c # cs) =
     (case block_at (c # cs) of
        Some (info, body, rest) \<Rightarrow> (info, body) # code_block_matches rest
      | None \<Rightarrow> code_block_matches cs)"
  by (subst code_block_matches.simps) simp

lemma code_block_matches_skip:
  "CHR 0x60 \<notin> set pre \<Longrightarrow> code_block_matches (pre @ s) = code_block_matches s"
  by (induction pre) (auto simp: code_block_matches_Cons block_at_def fence3_def)

lemma str_index_append_skip:
  "c \<notin> set body \<Longrightarrow> str_index (body @ (c # p) @ rest) (c # p) = Some (length body)"
  by (induction body) (auto simp: has_prefix_iff)

lemma block_at_rendered:
  assumes "list_all is_info_byte info" "CHR 0x60 \<notin> set body"
  shows "block_at (fence3 @ info @ nl @ body @ fence3 @ post) = Some (info, body, post)"
proof -
  have nl: "\<not> is_info_byte (CHR 0x0A)" by code_simp
  have "takeWhile is_info_byte (info @ nl @ body @ fence3 @ post) = info"
       "dropWhile is_info_byte (info @ nl @ body @ fence3 @ post) = nl @ body @ fence3 @ post"
    using assms(1) nl by (simp_all add: nl_def list_all_iff)
  moreover have "str_index (body @ fence3 @ post) fence3 = Some (length body)"
    using str_index_append_skip [OF assms(2), of "''``''" post] by (simp add: fence3_def)
  ultimately show ?thesis
    by (simp add: block_at_def fence3_def nl_def Let_def numeral_3_eq_3)
qed

lemma intercept_block_write:
  "snd (intercept_block desc dfs n used b) = Some (FileWrite f body) \<Longrightarrow>
     cb_lang b \<noteq> [] \<and> f \<noteq> [] \<and> body = cb_body b"
  by (auto simp: intercept_block_def Let_def split: if_splits)

fun write_body :: "file_write \<Rightarrow> string" where
  "write_body (FileWrite f body) = body"

fun write_path :: "file_write \<Rightarrow> string" where
  "write_path (FileWrite f body) = f"

lemma intercept_blocks_subseq:
  "subseq (map write_body (intercept_blocks desc dfs n used bs))
     (map cb_body (filter (\<lambda>b. cb_lang b \<noteq> []) bs))"
proof (induction bs arbitrary: used)
  case (Cons b bs)
  obtain used' w where w: "intercept_block desc dfs n used b = (used', w)" by fastforce
  show ?case
  proof (cases w)
    case None
    then show ?thesis using Cons.IH [of used'] w by (auto intro: subseq_Cons')
  next
    case (Some fw)
    obtain f body where fw: "fw = FileWrite f body" by (cases fw) auto
    with Some w intercept_block_write [of desc dfs n used b f body]
    have "cb_lang b \<noteq> []" "body = cb_body b" by auto
    with fw Some w Cons.IH [of used'] show ?thesis by simp
  qed
qed simp

lemma intercept_blocks_named:
  "fw \<in> set (intercept_blocks desc dfs n used bs) \<Longrightarrow> write_path fw \<noteq> []"
proof (induction bs arbitrary: used)
  case (Cons b bs)
  obtain used' w where w: "intercept_block desc dfs n used b = (used', w)" by fastforce
  obtain f body where fw: "fw = FileWrite f body" by (cases fw) auto
  show ?case
    using Cons.prems Cons.IH [of used'] w fw intercept_block_write [of desc dfs n used b f body]
    by (auto split: option.splits)
qed simp

section \<open>Properties\<close>



text \<open>
  The interceptor writes only what the model wrote: the contents of its writes are, in order, bodies of
  extracted blocks that name a language, each block is used at most once, and no write has an empty path.
\<close>

lemma interceptor_writes_extracted_blocks:
  "subseq (map write_body (intercept_code_blocks output desc))
     (map cb_body (filter (\<lambda>b. cb_lang b \<noteq> []) (extract_code_blocks output))) \<and>
   list_all (\<lambda>fw. write_path fw \<noteq> []) (intercept_code_blocks output desc)"
  by (simp add: intercept_code_blocks_def Let_def intercept_blocks_subseq list_all_iff
      intercept_blocks_named)

text \<open>
  The set of used file names does not stop a second write to the same file. Two unnamed blocks in the
  language of the one file that the description mentions are both written to it, so the second one
  overwrites the first: the pairing skips the used name, the guess then returns it again.
\<close>

lemma interceptor_overwrites_same_file:
  assumes "extract_code_blocks output = [b1, b2]"
    and "cb_lang b1 = l" "cb_lang b2 = l" "l \<noteq> []" "cb_filename b1 = []" "cb_filename b2 = []"
    and "desc_file_matches False desc = [m]" "filepath_base m = f" "f \<noteq> []"
    and "ext_language (to_lower (filepath_ext f)) = l" "f \<noteq> default_filename_for_lang l"
  shows "intercept_code_blocks output desc = [FileWrite f (cb_body b1), FileWrite f (cb_body b2)]"
  using assms
  by (simp add: intercept_code_blocks_def intercept_block_def extract_all_filenames_def
      extract_filename_def guess_filename_for_block_def file_lang_matches_def Let_def)

definition two_js_blocks :: string where
  "two_js_blocks = fence3 @ ''js'' @ nl @ ''a()'' @ fence3 @ nl @ fence3 @ ''js'' @ nl @ ''b()'' @ fence3"

lemma interceptor_overwrites_same_file_witness:
  "intercept_code_blocks two_js_blocks ''fix script.js'' =
     [FileWrite ''script.js'' ''a()'', FileWrite ''script.js'' ''b()'']"
proof -
  let ?b = "\<lambda>s. \<lparr>cb_lang = ''js'', cb_filename = [], cb_body = s\<rparr>"
  have "extract_code_blocks two_js_blocks = [?b ''a()'', ?b ''b()'']"
       "desc_file_matches False ''fix script.js'' = [''script.js'']"
       "filepath_base ''script.js'' = ''script.js''"
       "ext_language (to_lower (filepath_ext ''script.js'')) = ''js''"
       "''script.js'' \<noteq> default_filename_for_lang ''js''"
    by (code_simp, code_simp, code_simp, code_simp, code_simp)
  then show ?thesis
    using interceptor_overwrites_same_file [of two_js_blocks "?b ''a()''" "?b ''b()''" "''js''"
        "''fix script.js''" "''script.js''" "''script.js''"] by simp
qed

end
