(* ===== verification/Orch_Plan.thy ===== *)
theory Orch_Plan
  imports Orch_Dispatch Json_Text Code_Blocks
begin

text \<open>
  The planner's side of the orchestrator (\<open>internal/agent/orchestrated.go\<close>): parsing the model's plan
  in tiers, the step cap, the injected SETUP, VERIFY, QA and SERVE steps, the salvage of an answer that
  is not a plan, and the tool filters of a step. \<open>json.Unmarshal\<close> into a list of steps is the
  parameter \<open>unmarshal\<close>.
\<close>

section \<open>Parsing the plan\<close>

definition parse_orch_steps ::
  "(string \<Rightarrow> orch_step list option) \<Rightarrow> string \<Rightarrow> orch_step list option" where
  "parse_orch_steps unmarshal input0 =
     (let input = trim_space input0
      in if input = [] then None
         else case unmarshal input of Some steps \<Rightarrow> Some steps | None \<Rightarrow>
         let stripped = strip_code_fences input
         in case (if stripped \<noteq> input then unmarshal stripped else None) of
              Some steps \<Rightarrow> Some steps | None \<Rightarrow>
         let no_commas = strip_trailing_commas stripped
         in case (if no_commas \<noteq> stripped then unmarshal no_commas else None) of
              Some steps \<Rightarrow> Some steps | None \<Rightarrow>
         let arr = extract_outermost_array stripped
         in if arr = [] then None
            else case unmarshal arr of Some steps \<Rightarrow> Some steps | None \<Rightarrow>
              let arr2 = strip_trailing_commas arr
              in if arr2 \<noteq> arr then unmarshal arr2 else None)"

section \<open>The injected steps\<close>

definition append_unique_int :: "int list \<Rightarrow> int \<Rightarrow> int list" where
  "append_unique_int xs v = (if v \<in> set xs then xs else xs @ [v])"

definition next_step_id :: "orch_step list \<Rightarrow> int" where
  "next_step_id steps = foldl (\<lambda>m s. if os_id s > m then os_id s else m) 0 steps + 1"

definition all_step_ids :: "orch_step list \<Rightarrow> int list" where
  "all_step_ids steps = foldl (\<lambda>ids s. append_unique_int ids (os_id s)) [] steps"

definition setup_step :: orch_step where
  "setup_step = \<lparr>os_id = -1, os_desc = ''SETUP: create the project manifest (package.json/go.mod/requirements.txt) and install dependencies (npm install / go mod download / pip install).'',
     os_deps = [], os_hint = ''terminal''\<rparr>"

definition verify_desc :: string where
  "verify_desc = ''VERIFY: run the project build/tests (npm run build / go build ./... / go test ./...) and report pass/fail with the real output.''"

definition qa_desc :: string where
  "qa_desc = ''QA: independently re-run the build/tests and inspect the generated code for bugs. Report PASS or FAIL with specific findings (file:line).''"

definition serve_desc :: string where
  "serve_desc = ''SERVE: start a background static file server in the project dir (process tool: '' @ [CHR 0x27] @ ''cd projects/<slug> && python3 -m http.server 8000'' @ [CHR 0x27] @ '') and report the URL http://localhost:8000.''"

definition last_step :: "string \<Rightarrow> orch_step list \<Rightarrow> orch_step" where
  "last_step desc steps =
     \<lparr>os_id = next_step_id steps, os_desc = desc, os_deps = all_step_ids steps, os_hint = ''terminal''\<rparr>"

definition inject_setup :: "orch_step list \<Rightarrow> orch_step list" where
  "inject_setup steps =
     (if any_step_matches steps setup_keywords then steps
      else setup_step # map (\<lambda>s. s\<lparr>os_deps := append_unique_int (os_deps s) (-1)\<rparr>) steps)"

definition inject_last :: "string list \<Rightarrow> string \<Rightarrow> orch_step list \<Rightarrow> orch_step list" where
  "inject_last ks desc steps =
     (if any_step_matches steps ks then steps else steps @ [last_step desc steps])"

definition ensure_sdlc_steps :: "string \<Rightarrow> orch_step list \<Rightarrow> orch_step list" where
  "ensure_sdlc_steps task steps =
     (if steps = [] then steps
      else if \<not> list_ex (\<lambda>s. is_file_creation_step (os_desc s)) steps then steps
      else
        let steps = inject_setup steps;
            steps = inject_last verify_keywords verify_desc steps;
            steps = inject_last qa_keywords qa_desc steps
        in if is_serve_task task then inject_last serve_keywords serve_desc steps else steps)"

text \<open>\<open>planTask\<close> after the model has answered: an unreadable plan is an error that carries the first 200
  characters of the answer.\<close>

datatype plan_result = PlanSteps "orch_step list" | PlanParseFailed string

definition plan_of_reply ::
  "(string \<Rightarrow> orch_step list option) \<Rightarrow> int \<Rightarrow> string \<Rightarrow> string \<Rightarrow> plan_result" where
  "plan_of_reply unmarshal max_steps task reply =
     (case parse_orch_steps unmarshal reply of
        None \<Rightarrow> PlanParseFailed (truncate_str reply 200)
      | Some steps \<Rightarrow>
          PlanSteps (ensure_sdlc_steps task
            (if int (length steps) > max_steps then take (nat max_steps) steps else steps)))"

text \<open>
  \<open>salvagePlannerOutput\<close> on such an error. It reads the answer back out of the error text, where it
  stands quoted with \<open>%q\<close>; quoting and unquoting give the carried text back.
\<close>

definition salvage_planner_output :: "string \<Rightarrow> string option" where
  "salvage_planner_output carried =
     (let raw = trim_space carried
      in if raw = [] then None
         else if extract_code_blocks raw \<noteq> [] then Some raw
         else if 200 \<le> length raw then Some raw
         else None)"

section \<open>Tool filters\<close>

text \<open>\<open>is_builtin\<close> is the predicate \<open>tool.IsBuiltinName\<close> over the static list of built-in names.\<close>

definition mcp_named :: "string \<Rightarrow> string \<Rightarrow> bool" where
  "mcp_named desc name \<longleftrightarrow> contains_str desc name \<or>
     (case str_index name ''_'' of
        None \<Rightarrow> False
      | Some i \<Rightarrow> 4 \<le> length (drop (i + 1) name) \<and> contains_str desc (drop (i + 1) name))"

definition mcp_tools_referenced_by :: "(string \<Rightarrow> bool) \<Rightarrow> string \<Rightarrow> string list \<Rightarrow> string list" where
  "mcp_tools_referenced_by is_builtin desc tools = filter (\<lambda>n. \<not> is_builtin n \<and> mcp_named desc n) tools"

definition filter_tools :: "string list \<Rightarrow> string list \<Rightarrow> string list" where
  "filter_tools tools keep = filter (\<lambda>n. n \<in> set keep) tools"

definition filter_tools_for_step ::
  "(string \<Rightarrow> bool) \<Rightarrow> string \<Rightarrow> string list \<Rightarrow> string list" where
  "filter_tools_for_step is_builtin desc tools =
     (let referenced = mcp_tools_referenced_by is_builtin desc tools
      in if referenced \<noteq> [] then filter_tools tools (referenced @ [''file'', ''terminal''])
         else if is_file_creation_step desc then filter_tools tools [''file'', ''terminal'']
         else tools)"

section \<open>Well-formedness of the extended plan\<close>

definition max_id :: "int \<Rightarrow> orch_step list \<Rightarrow> int" where
  "max_id m steps = foldl (\<lambda>m s. if os_id s > m then os_id s else m) m steps"

lemma max_id_Cons: "max_id m (t # ts) = max_id (max m (os_id t)) ts"
  by (simp add: max_id_def max_def not_less)

lemma max_id_ge: "m \<le> max_id m steps"
proof (induction steps arbitrary: m)
  case (Cons t ts)
  have "m \<le> max m (os_id t)" by simp
  also have "\<dots> \<le> max_id (max m (os_id t)) ts" by (rule Cons.IH)
  finally show ?case by (simp add: max_id_Cons)
qed (simp add: max_id_def)

lemma max_id_bound: "s \<in> set steps \<Longrightarrow> os_id s \<le> max_id m steps"
proof (induction steps arbitrary: m)
  case (Cons t ts)
  show ?case
  proof (cases "s = t")
    case True
    have "os_id t \<le> max m (os_id t)" by simp
    also have "\<dots> \<le> max_id (max m (os_id t)) ts" by (rule max_id_ge)
    finally show ?thesis using True by (simp add: max_id_Cons)
  qed (use Cons in \<open>simp add: max_id_Cons\<close>)
qed simp

lemma next_step_id_fresh: "s \<in> set steps \<Longrightarrow> os_id s < next_step_id steps"
  using max_id_bound [of s steps 0] by (simp add: next_step_id_def max_id_def)

lemma set_append_unique_int [simp]: "set (append_unique_int xs v) = insert v (set xs)"
  by (auto simp: append_unique_int_def)

lemma set_all_step_ids: "set (all_step_ids steps) = os_id ` set steps"
proof -
  have "set (foldl (\<lambda>ids s. append_unique_int ids (os_id s)) acc steps) = set acc \<union> os_id ` set steps"
    for acc by (induction steps arbitrary: acc) auto
  then show ?thesis by (simp add: all_step_ids_def)
qed

lemma ranked_snoc:
  assumes "plan_ranked steps rk" "os_id s \<notin> os_id ` set steps" "set (os_deps s) \<subseteq> os_id ` set steps"
  shows "\<exists>rk'. plan_ranked (steps @ [s]) rk'"
proof -
  define bound where "bound = Suc (sum_list (map (rk \<circ> os_id) steps))"
  define rk' where "rk' = rk(os_id s := bound)"
  have le: "rk (os_id t) < bound" if "t \<in> set steps" for t
    using member_le_sum_list [of "rk (os_id t)" "map (rk \<circ> os_id) steps"] that
    by (auto simp: bound_def)
  have same: "rk' d = rk d" if "d \<in> os_id ` set steps" for d
    using that assms(2) by (metis fun_upd_other rk'_def)
  have "\<forall>t\<in>set steps. \<forall>d\<in>set (os_deps t). d \<in> os_id ` set steps \<and> rk' d < rk' (os_id t)"
    using assms(1) same by (auto simp: plan_ranked_def)
  moreover have "\<forall>d\<in>set (os_deps s). d \<in> os_id ` set steps \<and> rk' d < rk' (os_id s)"
  proof
    fix d assume "d \<in> set (os_deps s)"
    with assms(3) obtain t where "t \<in> set steps" "d = os_id t" by auto
    with same [of d] le [of t] show "d \<in> os_id ` set steps \<and> rk' d < rk' (os_id s)"
      by (auto simp: rk'_def)
  qed
  ultimately have "plan_ranked (steps @ [s]) rk'"
    using assms(1,2) by (auto simp: plan_ranked_def)
  then show ?thesis by blast
qed

lemma ranked_inject_last:
  assumes "plan_ranked steps rk"
  shows "\<exists>rk'. plan_ranked (inject_last ks desc steps) rk'"
proof (cases "any_step_matches steps ks")
  case True
  with assms show ?thesis by (auto simp: inject_last_def)
next
  case False
  have "os_id (last_step desc steps) \<notin> os_id ` set steps"
    using next_step_id_fresh by (fastforce simp: last_step_def)
  moreover have "set (os_deps (last_step desc steps)) \<subseteq> os_id ` set steps"
    by (simp add: last_step_def set_all_step_ids)
  ultimately show ?thesis using False ranked_snoc [OF assms] by (simp add: inject_last_def)
qed

lemma ranked_inject_setup:
  assumes "plan_ranked steps rk" "-1 \<notin> os_id ` set steps"
  shows "\<exists>rk'. plan_ranked (inject_setup steps) rk'"
proof (cases "any_step_matches steps setup_keywords")
  case True
  with assms show ?thesis by (auto simp: inject_setup_def)
next
  case False
  define rk' where "rk' d = (if d = -1 then 0 else Suc (rk d))" for d
  let ?f = "\<lambda>s. s\<lparr>os_deps := append_unique_int (os_deps s) (-1)\<rparr>"
  have ids: "os_id ` set (setup_step # map ?f steps) = insert (-1) (os_id ` set steps)"
    by (simp add: setup_step_def image_image)
  have "d \<in> insert (-1) (os_id ` set steps) \<and> rk' d < rk' (os_id s)"
    if s: "s \<in> set steps" "d \<in> set (os_deps (?f s))" for s d
  proof -
    have "os_id s \<noteq> -1" using s(1) assms(2) by (metis image_eqI)
    moreover have "d \<noteq> -1 \<Longrightarrow> d \<in> os_id ` set steps \<and> rk d < rk (os_id s)"
      using s assms(1) by (auto simp: plan_ranked_def)
    ultimately show ?thesis by (cases "d = -1") (auto simp: rk'_def)
  qed
  moreover have "distinct (map os_id (setup_step # map ?f steps))"
    using assms by (simp add: plan_ranked_def setup_step_def comp_def)
  ultimately have "plan_ranked (setup_step # map ?f steps) rk'"
    unfolding plan_ranked_def ids by (auto simp: setup_step_def)
  with False show ?thesis by (auto simp: inject_setup_def)
qed

lemma contains_any_concat: "contains_str (to_lower d) k \<Longrightarrow> k \<in> set ks \<Longrightarrow> contains_any (to_lower d) ks"
  by (auto simp: contains_any_iff)

text \<open>The injected descriptions carry the keyword that stops a second injection.\<close>

lemma injected_keywords:
  "contains_any (to_lower (os_desc setup_step)) setup_keywords"
  "contains_any (to_lower verify_desc) verify_keywords"
  "contains_any (to_lower qa_desc) qa_keywords"
  by (code_simp, code_simp, code_simp)

lemma inject_last_matches:
  "contains_any (to_lower desc) ks \<Longrightarrow> any_step_matches (inject_last ks desc steps) ks"
  by (simp add: inject_last_def last_step_def any_step_matches_def)

lemma inject_last_keeps: "any_step_matches steps ks' \<Longrightarrow> any_step_matches (inject_last ks desc steps) ks'"
  by (simp add: inject_last_def)

lemma inject_setup_matches: "any_step_matches (inject_setup steps) setup_keywords"
  using injected_keywords(1) by (simp add: inject_setup_def)

lemma inject_last_ids: "os_id ` set steps \<subseteq> os_id ` set (inject_last ks desc steps)"
  by (auto simp: inject_last_def)

lemma inject_setup_ids: "os_id ` set steps \<subseteq> os_id ` set (inject_setup steps)"
  by (force simp: inject_setup_def image_image)

text \<open>A plan listed in order: ids are distinct, none is the sentinel of SETUP, and a step only depends on
  steps before it. Every prefix of it is listed in order as well.\<close>

definition listed_in_order :: "orch_step list \<Rightarrow> bool" where
  "listed_in_order steps \<longleftrightarrow> distinct (map os_id steps) \<and> -1 \<notin> os_id ` set steps \<and>
     (\<forall>us s vs. steps = us @ s # vs \<longrightarrow> set (os_deps s) \<subseteq> os_id ` set us)"

lemma listed_in_order_append: "listed_in_order (xs @ ys) \<Longrightarrow> listed_in_order xs"
proof -
  assume l: "listed_in_order (xs @ ys)"
  have "set (os_deps s) \<subseteq> os_id ` set us" if "xs = us @ s # vs" for us s vs
  proof -
    from that have "xs @ ys = us @ s # (vs @ ys)" by simp
    with l show ?thesis unfolding listed_in_order_def by blast
  qed
  with l show ?thesis by (auto simp: listed_in_order_def)
qed

lemma listed_in_order_take: "listed_in_order steps \<Longrightarrow> listed_in_order (take n steps)"
  using listed_in_order_append [of "take n steps" "drop n steps"] by simp

lemma listed_in_order_ranked: "listed_in_order steps \<Longrightarrow> \<exists>rk. plan_ranked steps rk"
proof (induction steps rule: rev_induct)
  case Nil
  then show ?case by (simp add: plan_ranked_def)
next
  case (snoc s steps)
  from snoc.IH [OF listed_in_order_append [OF snoc.prems]] obtain rk where "plan_ranked steps rk" by blast
  moreover have "os_id s \<notin> os_id ` set steps" "set (os_deps s) \<subseteq> os_id ` set steps"
    using snoc.prems by (auto simp: listed_in_order_def)
  ultimately show ?case by (rule ranked_snoc)
qed

lemma ensure_sdlc_ranked:
  assumes "plan_ranked steps rk" "-1 \<notin> os_id ` set steps"
  shows "\<exists>rk'. plan_ranked (ensure_sdlc_steps task steps) rk'"
proof -
  obtain r1 where "plan_ranked (inject_setup steps) r1"
    using ranked_inject_setup [OF assms] by blast
  then obtain r2 where "plan_ranked (inject_last verify_keywords verify_desc (inject_setup steps)) r2"
    using ranked_inject_last by blast
  then obtain r3 where "plan_ranked (inject_last qa_keywords qa_desc
      (inject_last verify_keywords verify_desc (inject_setup steps))) r3"
    using ranked_inject_last by blast
  with assms(1) show ?thesis
    using ranked_inject_last by (auto simp: ensure_sdlc_steps_def Let_def)
qed

section \<open>Properties\<close>

definition demo_plan :: "orch_step list" where
  "demo_plan =
     [\<lparr>os_id = 1, os_desc = ''Create main.go'', os_deps = [], os_hint = ''file''\<rparr>,
      \<lparr>os_id = 2, os_desc = ''Report'', os_deps = [1], os_hint = []\<rparr>]"

lemma demo_plan_in_order: "listed_in_order demo_plan"
proof -
  have "set (os_deps s) \<subseteq> os_id ` set us" if "demo_plan = us @ s # vs" for us s vs
    using that by (cases us; cases "tl us") (auto simp: demo_plan_def)
  then show ?thesis by (simp add: listed_in_order_def) (simp add: demo_plan_def)
qed



text \<open>
  For a plan that creates files, the extended plan has a step for each phase: one that matches the
  setup keywords, one the verify keywords, one the QA keywords and, for a task that asks for a preview,
  one the serve keywords. No planned step is lost.
\<close>

lemma sdlc_phases_present:
  assumes "list_ex (\<lambda>s. is_file_creation_step (os_desc s)) steps"
  shows "any_step_matches (ensure_sdlc_steps task steps) setup_keywords \<and>
    any_step_matches (ensure_sdlc_steps task steps) verify_keywords \<and>
    any_step_matches (ensure_sdlc_steps task steps) qa_keywords \<and>
    (is_serve_task task \<longrightarrow> any_step_matches (ensure_sdlc_steps task steps) serve_keywords) \<and>
    os_id ` set steps \<subseteq> os_id ` set (ensure_sdlc_steps task steps)"
proof -
  have ne: "steps \<noteq> []" using assms by auto
  have serve: "contains_any (to_lower serve_desc) serve_keywords" by code_simp
  let ?q = "inject_last qa_keywords qa_desc (inject_last verify_keywords verify_desc (inject_setup steps))"
  have q: "any_step_matches ?q setup_keywords" "any_step_matches ?q verify_keywords"
      "any_step_matches ?q qa_keywords"
    by (simp_all add: inject_last_keeps inject_last_matches injected_keywords inject_setup_matches)
  have ids: "os_id ` set steps \<subseteq> os_id ` set ?q"
    by (meson inject_last_ids inject_setup_ids order_trans)
  have e: "ensure_sdlc_steps task steps =
      (if is_serve_task task then inject_last serve_keywords serve_desc ?q else ?q)"
    using assms ne by (simp only: ensure_sdlc_steps_def Let_def if_False simp_thms)
  show ?thesis
  proof (cases "is_serve_task task")
    case True
    with q ids order_trans [OF ids inject_last_ids] show ?thesis
      by (simp only: e if_True inject_last_keeps inject_last_matches [OF serve] simp_thms)
  next
    case False
    with q ids show ?thesis by (simp only: e if_False simp_thms)
  qed
qed

lemma sdlc_phases_present_witness:
  "any_step_matches (ensure_sdlc_steps ''t'' demo_plan) setup_keywords \<and>
    any_step_matches (ensure_sdlc_steps ''t'' demo_plan) verify_keywords \<and>
    any_step_matches (ensure_sdlc_steps ''t'' demo_plan) qa_keywords \<and>
    os_id ` set demo_plan \<subseteq> os_id ` set (ensure_sdlc_steps ''t'' demo_plan)"
proof -
  have "list_ex (\<lambda>s. is_file_creation_step (os_desc s)) demo_plan" by code_simp
  from sdlc_phases_present [OF this, of "''t''"] show ?thesis by blast
qed

text \<open>
  A plan wrapped in prose is read: when the text before the array has no opening bracket, the brackets
  of the array are balanced outside string literals, and neither the whole reply nor the reply without
  trailing commas decodes, then the array alone is decoded.
\<close>

lemma wrapped_plan_parsed:
  assumes "trim_space (pre @ arr @ post) = pre @ arr @ post" "\<not> has_prefix (pre @ arr @ post) fence"
    and "CHR ''['' \<notin> set pre" "arr \<noteq> []" "hd arr = CHR ''[''"
    and "scan_close False (CHR ''['') (CHR '']'') 0 False False arr = Some (length arr - 1)"
    and "unmarshal (pre @ arr @ post) = None"
    and "unmarshal (strip_trailing_commas (pre @ arr @ post)) = None"
    and "unmarshal arr = Some steps"
  shows "parse_orch_steps unmarshal (pre @ arr @ post) = Some steps"
  using assms extract_outermost_array_wrapped [OF assms(3,5,4,6), of post]
  by (simp add: parse_orch_steps_def strip_code_fences_plain Let_def)

lemma wrapped_plan_parsed_witness:
  "parse_orch_steps (\<lambda>s. if s = ''[1]'' then Some demo_plan else None) (''Plan: '' @ ''[1]'' @ '' ok'') =
     Some demo_plan"
  by (rule wrapped_plan_parsed; code_simp)

text \<open>
  A direct answer is salvaged only in part. When the reply is not a plan, the error carries the first
  200 characters of it, so the text that \<open>salvagePlannerOutput\<close> returns as the answer of the task never has
  more than 203 characters, however long the model's answer was.
\<close>

lemma salvaged_answer_truncated:
  assumes "parse_orch_steps unmarshal reply = None"
  shows "case plan_of_reply unmarshal max_steps task reply of
           PlanSteps plan \<Rightarrow> False
         | PlanParseFailed carried \<Rightarrow>
             (case salvage_planner_output carried of None \<Rightarrow> True | Some answer \<Rightarrow> length answer \<le> 203)"
proof -
  have "length (trim_space (truncate_str reply 200)) \<le> 203"
    using length_trim_space [of "truncate_str reply 200"] length_truncate_str [of reply 200] by simp
  with assms show ?thesis
    by (simp add: plan_of_reply_def salvage_planner_output_def Let_def)
qed

lemma salvaged_answer_truncated_witness:
  "case plan_of_reply (\<lambda>_. None) 60 ''t'' (replicate 500 (CHR ''a'')) of
     PlanSteps plan \<Rightarrow> False
   | PlanParseFailed carried \<Rightarrow>
       (case salvage_planner_output carried of None \<Rightarrow> True | Some answer \<Rightarrow> length answer \<le> 203)"
  by (rule salvaged_answer_truncated) (simp add: parse_orch_steps_def Let_def)

end
