(* ===== verification/Orch_Worker.thy ===== *)
theory Orch_Worker
  imports Orch_Plan
begin

text \<open>
  The worker of a plan step (\<open>internal/agent/worker.go\<close> and the verification gate of
  \<open>internal/agent/orchestrated.go\<close>): the focused tool loop with its evidence nudge, tool budget and
  repetition breaker, the check that claimed files exist, its retry loop, and the build-failure tag.

  The model, the tools and everything they change are the environment: a world \<open>'w\<close> that is passed
  through every call. JSON coding, prompt texts and the isolated QA agent are parameters as well. Activity
  events and token counts are left out: nothing the worker returns depends on them. The order in which
  Go prints the prior results (a map) is in the parameter \<open>we_prior_text\<close>, empty for an empty map.
\<close>

section \<open>The environment\<close>

datatype route_reply = RouteError string | RouteNil | RouteOk string "tool_call list"

record route_request =
  rr_tools :: "string list"
  rr_required :: bool
  rr_provider :: string
  rr_model :: string

record 'w worker_env =
  we_route :: "'w \<Rightarrow> message list \<Rightarrow> route_request \<Rightarrow> 'w \<times> route_reply"
  we_act :: "'w \<Rightarrow> tool_call \<Rightarrow> 'w \<times> (string + string)"
  we_qa :: "'w \<Rightarrow> string \<Rightarrow> 'w \<times> (string + string)"
  we_decode_file_args :: "string \<Rightarrow> (string \<times> string) option"
  we_exists_args :: "string \<Rightarrow> string"
  we_write_args :: "string \<Rightarrow> string \<Rightarrow> string"
  we_intercept_id :: "'w \<Rightarrow> string"
  we_quote :: "string \<Rightarrow> string"
  we_show_list :: "string list \<Rightarrow> string"
  we_prior_text :: "results \<Rightarrow> string"
  we_inject :: "string \<Rightarrow> string"
  we_tools :: "string list option"
  we_is_builtin :: "string \<Rightarrow> bool"
  we_system_prompt :: string
  we_file_directive :: string
  we_evidence_nudge :: "string \<Rightarrow> string"
  we_retry_nudge :: "string list \<Rightarrow> string"
  we_config :: orch_config
  we_provider :: string
  we_model :: string

definition em_dash :: string where
  "em_dash = [CHR 0xE2, CHR 0x80, CHR 0x94]"

definition tool_message :: "string \<Rightarrow> string \<Rightarrow> string \<Rightarrow> message" where
  "tool_message content call_id name = (plain_message RoleTool content)
     \<lparr>msg_tool_call_id := call_id, msg_name := name\<rparr>"

definition assistant_message :: "string \<Rightarrow> tool_call list \<Rightarrow> message" where
  "assistant_message content calls = (plain_message RoleAssistant content)\<lparr>msg_tool_calls := calls\<rparr>"

section \<open>The conversation of a step\<close>

definition build_messages ::
  "('w, 'x) worker_env_scheme \<Rightarrow> string \<Rightarrow> orch_step \<Rightarrow> results \<Rightarrow> message list" where
  "build_messages env task s prior =
     (let hint = trim_space (os_hint s);
          label = (if hint = [] then ''any (pure-reasoning step '' @ em_dash @ '' you may answer without tools)''
                   else hint);
          user = ''Step '' @ itoa (os_id s) @ '': '' @ os_desc s @ nl @ nl @ ''Original task: '' @ task @
            nl @ nl @ ''Expected tool family for this step: '' @ label @
            (if we_prior_text env prior = [] then []
             else nl @ nl @ ''Prior context from earlier steps:'' @ nl @ we_prior_text env prior) @
            nl @ nl @ ''Complete this step now using the available tools. When done, report your findings in one or two sentences.'';
          sys = we_system_prompt env;
          sys = (if is_file_creation_step (os_desc s) then sys @ nl @ nl @ we_file_directive env else sys);
          injected = we_inject env task;
          sys = (if injected \<noteq> [] then sys @ nl @ nl @ injected else sys)
      in [plain_message RoleSystem sys, plain_message RoleUser user])"

definition step_tools :: "('w, 'x) worker_env_scheme \<Rightarrow> orch_step \<Rightarrow> string list" where
  "step_tools env s =
     (case we_tools env of
        None \<Rightarrow> []
      | Some tools \<Rightarrow> filter_tools_for_step (we_is_builtin env) (os_desc s) tools)"

definition pick_route :: "phase_route \<Rightarrow> string \<times> string \<Rightarrow> string \<times> string" where
  "pick_route r pm = (if route_provider r \<noteq> [] then (route_provider r, route_model r) else pm)"

definition step_route :: "('w, 'x) worker_env_scheme \<Rightarrow> orch_step \<Rightarrow> string \<times> string" where
  "step_route env s =
     (let routing = oc_routing (we_config env);
          pm = pick_route (mr_worker routing) (we_provider env, we_model env);
          pm = (if is_qa_step (os_desc s) then pick_route (mr_qa routing) pm else pm)
      in if is_file_creation_step (os_desc s) then pick_route (mr_worker_file routing) pm else pm)"

section \<open>The tool loop\<close>

record worker_state =
  ws_messages :: "message list"
  ws_calls :: int
  ws_nudged :: bool
  ws_last_sig :: string
  ws_repeat :: int

definition tool_sig :: "tool_call \<Rightarrow> string" where
  "tool_sig tc = tc_name tc @ '':'' @ tc_arguments tc"

text \<open>The tool calls of one reply: the text the worker ends with when a limit is hit.\<close>

fun run_tools ::
  "('w, 'x) worker_env_scheme \<Rightarrow> orch_step \<Rightarrow> 'w \<Rightarrow> worker_state \<Rightarrow> tool_call list
     \<Rightarrow> 'w \<times> worker_state \<times> string option" where
  "run_tools env s w st [] = (w, st, None)"
| "run_tools env s w st (tc # tcs) =
     (let made = ws_calls st + 1
      in if made > oc_worker_calls (we_config env) then
           (w, st\<lparr>ws_calls := made\<rparr>,
            Some (''[partial: step '' @ itoa (os_id s) @ '' hit tool budget '' @ em_dash @
                  '' partial findings in conversation]''))
         else
           let sig = tool_sig tc;
               rep = (if sig = ws_last_sig st then ws_repeat st + 1 else 1);
               st = st\<lparr>ws_calls := made, ws_last_sig := sig, ws_repeat := rep\<rparr>
           in if 3 \<le> rep then
                (w, st, Some (''[circuit breaker: step '' @ itoa (os_id s) @
                   '' stopped '' @ em_dash @ '' repeated tool call '' @ we_quote env (tc_name tc) @ '']''))
              else
                let (w', r) = we_act env w tc;
                    result = (case r of Inl e \<Rightarrow> ''[tool '' @ tc_name tc @ '' error: '' @ e @ '']'' | Inr out \<Rightarrow> out)
                in run_tools env s w'
                     (st\<lparr>ws_messages := ws_messages st @ [tool_message result (tc_id tc) (tc_name tc)]\<rparr>) tcs)"

text \<open>The writes synthesized by the interceptor: executed and recorded as tool messages.\<close>

definition write_call :: "('w, 'x) worker_env_scheme \<Rightarrow> 'w \<Rightarrow> file_write \<Rightarrow> tool_call" where
  "write_call env w fw =
     \<lparr>tc_id = we_intercept_id env w, tc_name = ''file'',
      tc_arguments = we_write_args env (write_path fw) (write_body fw)\<rparr>"

fun run_writes ::
  "('w, 'x) worker_env_scheme \<Rightarrow> 'w \<Rightarrow> worker_state \<Rightarrow> file_write list \<Rightarrow> 'w \<times> worker_state" where
  "run_writes env w st [] = (w, st)"
| "run_writes env w st (fw # fws) =
     (let tc = write_call env w fw;
          (w', r) = we_act env w tc;
          result = (case r of Inl e \<Rightarrow> ''[interceptor write failed: '' @ e @ '']'' | Inr out \<Rightarrow> out)
      in run_writes env w'
           (st\<lparr>ws_messages := ws_messages st @ [tool_message result (tc_id tc) (tc_name tc)],
               ws_calls := ws_calls st + 1\<rparr>) fws)"

definition needs_evidence :: "orch_step \<Rightarrow> bool" where
  "needs_evidence s \<longleftrightarrow> trim_space (os_hint s) \<noteq> [] \<or> is_file_creation_step (os_desc s)"

text \<open>A reply without tool calls: \<open>None\<close> to go on, otherwise the finding.\<close>

definition no_evidence_tag :: string where
  "no_evidence_tag = ''[no tool evidence '' @ em_dash @ '' answer is from model memory] ''"

definition plain_reply ::
  "('w, 'x) worker_env_scheme \<Rightarrow> orch_step \<Rightarrow> nat \<Rightarrow> 'w \<Rightarrow> worker_state \<Rightarrow> string
     \<Rightarrow> 'w \<times> worker_state \<times> string option" where
  "plain_reply env s iter w st content =
     (let out = trim_space content;
          out = (if out = [] then ''[step '' @ itoa (os_id s) @ '' produced no output]'' else out);
          writes = intercept_code_blocks out (os_desc s)
      in if is_file_creation_step (os_desc s) \<and> \<not> ws_nudged st \<and> writes \<noteq> [] then
           (let (w', st') = run_writes env w st writes in (w', st', None))
         else if iter = 0 \<and> needs_evidence s \<and> \<not> ws_nudged st then
           let hint = trim_space (os_hint s);
               hint = (if hint = [] then ''file'' else hint)
           in (w, st\<lparr>ws_messages := ws_messages st @
                    [plain_message RoleAssistant out, plain_message RoleUser (we_evidence_nudge env hint)],
                    ws_nudged := True\<rparr>, None)
         else
           (w, st, Some (if ws_nudged st \<and> needs_evidence s \<and> ws_calls st = 0
                         then no_evidence_tag @ out else out)))"

definition loop_request :: "('w, 'x) worker_env_scheme \<Rightarrow> orch_step \<Rightarrow> string list \<Rightarrow> nat \<Rightarrow> route_request" where
  "loop_request env s tools iter =
     \<lparr>rr_tools = tools,
      rr_required = (needs_evidence s \<and> (iter = 0 \<or> is_file_creation_step (os_desc s))),
      rr_provider = fst (step_route env s), rr_model = snd (step_route env s)\<rparr>"

definition capped_finding :: "orch_step \<Rightarrow> int \<Rightarrow> message list \<Rightarrow> string" where
  "capped_finding s max_iter msgs =
     (let c = (if msgs = [] then [] else msg_content (last msgs))
      in if trim_space c = []
         then ''[step '' @ itoa (os_id s) @ '' did not produce a final finding within '' @ itoa max_iter @
              '' iterations]''
         else c)"

text \<open>What the worker does with a reply, with or without tool calls.\<close>

definition reply_turn ::
  "('w, 'x) worker_env_scheme \<Rightarrow> orch_step \<Rightarrow> nat \<Rightarrow> 'w \<Rightarrow> worker_state \<Rightarrow> string \<Rightarrow> tool_call list
     \<Rightarrow> 'w \<times> worker_state \<times> string option" where
  "reply_turn env s iter w st content calls =
     (if calls = [] then plain_reply env s iter w st content
      else run_tools env s w
             (st\<lparr>ws_messages := ws_messages st @ [assistant_message content calls]\<rparr>) calls)"

text \<open>\<open>react_iters env s tools n iter w st\<close>: the loop with \<open>n\<close> iterations left, the next one being number
  \<open>iter\<close>. The result is the grown conversation and the finding, or the error.\<close>

fun react_iters ::
  "('w, 'x) worker_env_scheme \<Rightarrow> orch_step \<Rightarrow> string list \<Rightarrow> nat \<Rightarrow> nat \<Rightarrow> 'w \<Rightarrow> worker_state
     \<Rightarrow> 'w \<times> message list \<times> (string + string)" where
  "react_iters env s tools 0 iter w st =
     (w, ws_messages st, Inr (capped_finding s (oc_worker_iters (we_config env)) (ws_messages st)))"
| "react_iters env s tools (Suc n) iter w st =
     (let (w1, reply) = we_route env w (ws_messages st) (loop_request env s tools iter)
      in case reply of
           RouteError e \<Rightarrow> (w1, ws_messages st,
             Inl (''worker LLM call failed (iter '' @ itoa (int iter) @ ''): '' @ e))
         | RouteNil \<Rightarrow> (w1, ws_messages st,
             Inl (''worker LLM returned nil response (iter '' @ itoa (int iter) @ '')''))
         | RouteOk content calls \<Rightarrow>
             (case reply_turn env s iter w1 st content calls of
                (w2, st2, Some out) \<Rightarrow> (w2, ws_messages st2, Inr out)
              | (w2, st2, None) \<Rightarrow> react_iters env s tools n (iter + 1) w2 st2))"

definition react_loop ::
  "('w, 'x) worker_env_scheme \<Rightarrow> orch_step \<Rightarrow> 'w \<Rightarrow> message list \<Rightarrow> string list
     \<Rightarrow> 'w \<times> message list \<times> (string + string)" where
  "react_loop env s w messages tools =
     react_iters env s tools (nat (oc_worker_iters (we_config env))) 0 w
       \<lparr>ws_messages = messages, ws_calls = 0, ws_nudged = False, ws_last_sig = [], ws_repeat = 0\<rparr>"

section \<open>File verification\<close>

definition written_path :: "('w, 'x) worker_env_scheme \<Rightarrow> tool_call \<Rightarrow> string option" where
  "written_path env tc =
     (if tc_name tc \<noteq> ''file'' then None
      else case we_decode_file_args env (tc_arguments tc) of
             None \<Rightarrow> None
           | Some (op, path) \<Rightarrow>
               if to_lower (trim_space op) \<in> {''write'', ''append'', ''edit''} \<and> trim_space path \<noteq> []
               then Some (trim_space path) else None)"

definition add_unseen :: "'a list \<Rightarrow> 'a \<Rightarrow> 'a list" where
  "add_unseen xs x = (if x \<in> set xs then xs else xs @ [x])"

definition extract_written_paths :: "('w, 'x) worker_env_scheme \<Rightarrow> message list \<Rightarrow> string list" where
  "extract_written_paths env msgs =
     foldl add_unseen []
       (List.map_filter (written_path env)
          (concat (map msg_tool_calls (filter (\<lambda>m. msg_role m = RoleAssistant) msgs))))"

definition subtract_set :: "string list \<Rightarrow> string list \<Rightarrow> string list" where
  "subtract_set xs remove = filter (\<lambda>x. x \<notin> set remove) xs"

text \<open>Each candidate is looked up through the file tool: missing, empty or confirmed.\<close>

fun check_paths ::
  "('w, 'x) worker_env_scheme \<Rightarrow> orch_step \<Rightarrow> 'w \<Rightarrow> string list \<Rightarrow> 'w \<times> string list \<times> string list" where
  "check_paths env s w [] = (w, [], [])"
| "check_paths env s w (p # ps) =
     (let (w', r) = we_act env w \<lparr>tc_id = ''verify-'' @ itoa (os_id s), tc_name = ''file'',
                                  tc_arguments = we_exists_args env p\<rparr>;
          (w'', missing, empty) = check_paths env s w' ps
      in case r of
           Inl e \<Rightarrow> (w'', p # missing, empty)
         | Inr out \<Rightarrow>
             if contains_str out ''does not exist'' then (w'', p # missing, empty)
             else if contains_str out ''size: 0 bytes'' then (w'', missing, p # empty)
             else (w'', missing, empty))"

definition failed_tag :: string where
  "failed_tag = ''[VERIFICATION FAILED''"

definition verify_file_creation ::
  "('w, 'x) worker_env_scheme \<Rightarrow> orch_step \<Rightarrow> 'w \<Rightarrow> message list \<Rightarrow> string \<Rightarrow> 'w \<times> string" where
  "verify_file_creation env s w msgs out =
     (let cands = extract_written_paths env msgs
      in if cands = [] then
           (w, failed_tag @ '': worker claimed file creation but made no file-write tool calls] '' @ out)
         else
           let (w', missing, empty) = check_paths env s w cands
           in if length missing = length cands then
                (w', failed_tag @ '': claimed file creation but none of '' @ we_show_list env cands @
                   '' found on disk] '' @ out)
              else if missing \<noteq> [] \<or> empty \<noteq> [] then
                (w', ''[VERIFICATION PARTIAL: missing='' @ we_show_list env missing @ '' empty='' @
                   we_show_list env empty @ '' confirmed='' @
                   we_show_list env (subtract_set cands (missing @ empty)) @ ''] '' @ out)
              else (w', out))"

definition extract_claimed_files :: "string \<Rightarrow> string list" where
  "extract_claimed_files text =
     foldl (\<lambda>seen b. if b = [] then seen else add_unseen seen b) []
       (map after_last_slash (desc_file_matches False text))"

text \<open>The retries of \<open>verifyArtifacts\<close>; \<open>claims\<close> are the claim sets already tried.\<close>

fun verify_retries ::
  "('w, 'x) worker_env_scheme \<Rightarrow> orch_step \<Rightarrow> nat \<Rightarrow> string list \<Rightarrow> 'w \<Rightarrow> message list \<Rightarrow> string \<Rightarrow> string
     \<Rightarrow> 'w \<times> string" where
  "verify_retries env s 0 claims w msgs out tagged = (w, tagged)"
| "verify_retries env s (Suc n) claims w msgs out tagged =
     (let claimed = extract_claimed_files out;
          key = join '','' claimed
      in if claimed = [] \<or> key \<in> set claims then (w, tagged)
         else
           let retry = msgs @ [tool_message tagged [] ''verification'',
                               plain_message RoleUser (we_retry_nudge env claimed)]
           in case react_loop env s w retry (step_tools env s) of
                (w1, grown, Inl e) \<Rightarrow> (w1, tagged)
              | (w1, grown, Inr out1) \<Rightarrow>
                  (let (w2, tagged1) = verify_file_creation env s w1 grown out1
                   in if \<not> has_prefix tagged1 failed_tag then (w2, tagged1)
                      else verify_retries env s n (key # claims) w2 grown out1 tagged1))"

definition verify_artifacts ::
  "('w, 'x) worker_env_scheme \<Rightarrow> orch_step \<Rightarrow> 'w \<Rightarrow> message list \<Rightarrow> string \<Rightarrow> 'w \<times> string" where
  "verify_artifacts env s w msgs out =
     (if \<not> is_file_creation_step (os_desc s) then (w, out)
      else
        let (w', tagged) = verify_file_creation env s w msgs out
        in if \<not> has_prefix tagged failed_tag then (w', tagged)
           else verify_retries env s 2 [] w' msgs out tagged)"

section \<open>The worker\<close>

definition exit_marker :: string where
  "exit_marker = ''[exit_status: non-zero''"

definition contains_non_zero_exit :: "message list \<Rightarrow> string \<Rightarrow> bool" where
  "contains_non_zero_exit msgs out \<longleftrightarrow>
     contains_str out exit_marker \<or> list_ex (\<lambda>m. contains_str (msg_content m) exit_marker) msgs"

definition tag_build_failure :: "orch_step \<Rightarrow> message list \<Rightarrow> string \<Rightarrow> string" where
  "tag_build_failure s msgs out =
     (if \<not> is_verify_or_qa_step (os_desc s) then out
      else if \<not> contains_non_zero_exit msgs out then out
      else failed_tag @ '': a build/test command exited non-zero] '' @ out)"

definition run_worker ::
  "('w, 'x) worker_env_scheme \<Rightarrow> 'w \<Rightarrow> string \<Rightarrow> orch_step \<Rightarrow> results \<Rightarrow> 'w \<times> (string + string)" where
  "run_worker env w task s prior =
     (if is_qa_step (os_desc s) then
        (case we_qa env w task of
           (w', Inl e) \<Rightarrow> (w', Inl e)
         | (w', Inr out) \<Rightarrow> (w', Inr (tag_build_failure s [] out)))
      else
        (case react_loop env s w (build_messages env task s prior) (step_tools env s) of
           (w1, msgs, Inl e) \<Rightarrow> (w1, Inl e)
         | (w1, msgs, Inr out) \<Rightarrow>
             (let (w2, out2) = verify_artifacts env s w1 msgs out
              in (w2, Inr (tag_build_failure s msgs out2)))))"

section \<open>Conversations without tool calls\<close>

text \<open>A model that never emits a tool call, and a conversation in which nobody has called a tool.\<close>

definition quiet :: "('w, 'x) worker_env_scheme \<Rightarrow> bool" where
  "quiet env \<longleftrightarrow> (\<forall>w msgs req. case snd (we_route env w msgs req) of
     RouteOk content calls \<Rightarrow> calls = [] | _ \<Rightarrow> True)"

definition call_free :: "message list \<Rightarrow> bool" where
  "call_free msgs \<longleftrightarrow> (\<forall>m\<in>set msgs. msg_role m = RoleAssistant \<longrightarrow> msg_tool_calls m = [])"

lemma quietD: "quiet env \<Longrightarrow> snd (we_route env w msgs req) = RouteOk content calls \<Longrightarrow> calls = []"
proof -
  assume q: "quiet env" and r: "snd (we_route env w msgs req) = RouteOk content calls"
  from q have "case snd (we_route env w msgs req) of RouteOk content calls \<Rightarrow> calls = [] | _ \<Rightarrow> True"
    unfolding quiet_def by blast
  then show "calls = []" by (simp add: r)
qed

text \<open>What every iteration keeps holds at the end of the loop.\<close>

lemma react_iters_keeps:
  assumes plain: "\<And>iter w st content w' st' r. I st \<Longrightarrow>
      plain_reply env s iter w st content = (w', st', r) \<Longrightarrow> I st'"
    and calls: "\<And>w0 msgs req content calls w st w' st' r. I st \<Longrightarrow>
      snd (we_route env w0 msgs req) = RouteOk content calls \<Longrightarrow> calls \<noteq> [] \<Longrightarrow>
      run_tools env s w (st\<lparr>ws_messages := ws_messages st @ [assistant_message content calls]\<rparr>) calls =
        (w', st', r) \<Longrightarrow> I st'"
  shows "I st \<Longrightarrow> react_iters env s tools n iter w st = (w', msgs, r) \<Longrightarrow>
    \<exists>st'. I st' \<and> msgs = ws_messages st'"
proof (induction n arbitrary: iter w st)
  case (Suc n)
  obtain w1 reply where route: "we_route env w (ws_messages st) (loop_request env s tools iter) = (w1, reply)"
    by fastforce
  show ?case
  proof (cases reply)
    case (RouteOk content calls)
    obtain w2 st2 o2 where one: "reply_turn env s iter w1 st content calls = (w2, st2, o2)"
      using prod_cases3 by blast
    have "I st2"
    proof (cases "calls = []")
      case True
      with one plain [OF Suc.prems(1)] show ?thesis by (simp add: reply_turn_def)
    next
      case False
      have "snd (we_route env w (ws_messages st) (loop_request env s tools iter)) = RouteOk content calls"
        by (simp add: route RouteOk)
      from calls [OF Suc.prems(1) this False] one False show ?thesis by (simp add: reply_turn_def)
    qed
    moreover have "react_iters env s tools (Suc n) iter w st =
        (case o2 of Some out \<Rightarrow> (w2, ws_messages st2, Inr out)
         | None \<Rightarrow> react_iters env s tools n (iter + 1) w2 st2)"
      by (simp add: route RouteOk one split: option.split)
    ultimately show ?thesis
      using Suc.IH [of st2 "iter + 1" w2] Suc.prems(2) by (cases o2) auto
  qed (use Suc.prems route in auto)
qed auto

lemma message_simps [simp]:
  "msg_role (plain_message r c) = r" "msg_tool_calls (plain_message r c) = []"
  "msg_content (plain_message r c) = c"
  "msg_role (tool_message c i n) = RoleTool" "msg_content (tool_message c i n) = c"
  "msg_role (assistant_message c calls) = RoleAssistant"
  by (simp_all add: plain_message_def tool_message_def assistant_message_def)

lemma call_free_append [simp]: "call_free (xs @ ys) \<longleftrightarrow> call_free xs \<and> call_free ys"
  by (auto simp: call_free_def)

lemma call_free_simps [simp]:
  "call_free []" "call_free (plain_message r c # ms) \<longleftrightarrow> call_free ms"
  "call_free (tool_message c i n # ms) \<longleftrightarrow> call_free ms"
  by (auto simp: call_free_def)

lemma build_messages_call_free [simp]: "call_free (build_messages env task s prior)"
  by (simp add: build_messages_def Let_def)

lemma run_writes_call_free:
  "run_writes env w st fws = (w', st') \<Longrightarrow> call_free (ws_messages st) \<Longrightarrow>
     call_free (ws_messages st')"
  by (induction env w st fws arbitrary: w' st' rule: run_writes.induct)
    (auto simp: Let_def split: prod.splits)

lemma plain_reply_call_free:
  "plain_reply env s iter w st content = (w', st', r) \<Longrightarrow> call_free (ws_messages st) \<Longrightarrow>
     call_free (ws_messages st')"
  by (auto simp: plain_reply_def Let_def split: if_splits prod.splits dest: run_writes_call_free)

lemma react_loop_call_free:
  assumes "quiet env" "call_free msgs" "react_loop env s w msgs tools = (w', msgs', r)"
  shows "call_free msgs'"
proof -
  let ?st = "\<lparr>ws_messages = msgs, ws_calls = 0, ws_nudged = False, ws_last_sig = [], ws_repeat = 0\<rparr>"
  have "call_free (ws_messages ?st)" by (simp add: assms(2))
  note keeps = react_iters_keeps [of "\<lambda>st. call_free (ws_messages st)" env s, OF _ _ this
      assms(3) [unfolded react_loop_def]]
  have "\<exists>st' :: worker_state. call_free (ws_messages st') \<and> msgs' = ws_messages st'"
  proof (rule keeps)
    fix w0 ms req content and calls :: "tool_call list"
    assume "snd (we_route env w0 ms req) = RouteOk content calls" "calls \<noteq> []"
    then show "call_free (ws_messages st')" for st' using quietD [OF assms(1)] by blast
  qed (rule plain_reply_call_free)
  then show ?thesis by auto
qed

lemma call_free_no_paths: "call_free msgs \<Longrightarrow> extract_written_paths env msgs = []"
proof -
  assume "call_free msgs"
  then have "concat (map msg_tool_calls (filter (\<lambda>m. msg_role m = RoleAssistant) msgs)) = []"
    by (auto simp: call_free_def)
  then show ?thesis by (simp only: extract_written_paths_def List.map_filter_simps foldl_Nil)
qed

lemma has_prefix_append [simp]: "has_prefix (p @ s) p"
  by (simp add: has_prefix_iff)

lemma verify_call_free_fails:
  assumes "call_free msgs"
  shows "has_prefix (snd (verify_file_creation env s w msgs out)) failed_tag"
  using call_free_no_paths [OF assms, of env] by (simp add: verify_file_creation_def)

lemma verify_retries_call_free:
  "quiet env \<Longrightarrow> call_free msgs \<Longrightarrow> has_prefix tagged failed_tag \<Longrightarrow>
     has_prefix (snd (verify_retries env s n claims w msgs out tagged)) failed_tag"
proof (induction env s n claims w msgs out tagged rule: verify_retries.induct)
  case (2 env s n claims w msgs out tagged)
  let ?claimed = "extract_claimed_files out"
  let ?retry = "msgs @ [tool_message tagged [] ''verification'',
                        plain_message RoleUser (we_retry_nudge env ?claimed)]"
  show ?case
  proof (cases "?claimed = [] \<or> join '','' ?claimed \<in> set claims")
    case False
    obtain w1 grown r where l: "react_loop env s w ?retry (step_tools env s) = (w1, grown, r)"
      using prod_cases3 by blast
    have "call_free ?retry" using 2(3) by simp
    then have free: "call_free grown" by (rule react_loop_call_free [OF 2(2) _ l])
    show ?thesis
    proof (cases r)
      case (Inr out1)
      obtain w2 tagged1 where v: "verify_file_creation env s w1 grown out1 = (w2, tagged1)" by fastforce
      have bad: "has_prefix tagged1 failed_tag"
        using verify_call_free_fails [OF free, of env s w1 out1] v by simp
      show ?thesis
        using 2(1) [OF refl refl _ refl l [symmetric] refl Inr v [symmetric] refl _ 2(2) free bad]
          False l Inr v bad by (simp add: Let_def)
    qed (use False l 2(4) in \<open>simp add: Let_def\<close>)
  qed (use 2(4) in \<open>auto simp: Let_def\<close>)
qed simp

section \<open>Budgets and evidence\<close>

definition tool_count :: "message list \<Rightarrow> int" where
  "tool_count msgs = int (length (filter (\<lambda>m. msg_role m = RoleTool) msgs))"

lemma tool_count_simps [simp]:
  "tool_count [] = 0" "tool_count (xs @ ys) = tool_count xs + tool_count ys"
  "tool_count (plain_message RoleUser c # ms) = tool_count ms"
  "tool_count (plain_message RoleAssistant c # ms) = tool_count ms"
  "tool_count (tool_message c i n # ms) = 1 + tool_count ms"
  "tool_count (assistant_message c calls # ms) = tool_count ms"
  by (simp_all add: tool_count_def)

definition within_budget :: "int \<Rightarrow> int \<Rightarrow> worker_state \<Rightarrow> bool" where
  "within_budget c0 b st \<longleftrightarrow> tool_count (ws_messages st) \<le> c0 + ws_calls st \<and>
     tool_count (ws_messages st) \<le> c0 + b"

lemma run_tools_within_budget:
  "run_tools env s w st calls = (w', st', r) \<Longrightarrow> b = oc_worker_calls (we_config env) \<Longrightarrow>
     within_budget c0 b st \<Longrightarrow> within_budget c0 b st'"
proof (induction env s w st calls arbitrary: w' st' r rule: run_tools.induct)
  case (2 env s w st tc tcs)
  define made where "made = ws_calls st + 1"
  define rep where "rep = (if tool_sig tc = ws_last_sig st then ws_repeat st + 1 else 1)"
  define st1 where "st1 = st\<lparr>ws_calls := made, ws_last_sig := tool_sig tc, ws_repeat := rep\<rparr>"
  obtain w1 a where act: "we_act env w tc = (w1, a)" by fastforce
  define result where
    "result = (case a of Inl e \<Rightarrow> ''[tool '' @ tc_name tc @ '' error: '' @ e @ '']'' | Inr out \<Rightarrow> out)"
  define st2 where "st2 = st1\<lparr>ws_messages := ws_messages st1 @ [tool_message result (tc_id tc) (tc_name tc)]\<rparr>"
  consider (over) "made > b" | (broke) "\<not> made > b" "3 \<le> rep" | (ok) "\<not> made > b" "\<not> 3 \<le> rep"
    by blast
  then show ?case
  proof cases
    case over
    with 2(2-4) show ?thesis by (auto simp: within_budget_def made_def Let_def)
  next
    case broke
    with 2(2-4) show ?thesis by (auto simp: within_budget_def made_def rep_def Let_def)
  next
    case ok
    then have "run_tools env s w1 st2 tcs = (w', st', r)"
      using 2(2,3) act by (simp add: Let_def st2_def st1_def result_def made_def rep_def)
    moreover have "within_budget c0 b st2"
      using ok 2(4) by (simp add: within_budget_def st2_def st1_def made_def)
    ultimately show ?thesis
      using 2(1) [OF made_def _ refl rep_def st1_def _ act [symmetric] refl result_def] ok 2(3)
      by (simp add: st2_def)
  qed
qed auto

lemma plain_reply_same_calls:
  assumes "\<not> is_file_creation_step (os_desc s)" "plain_reply env s iter w st content = (w', st', r)"
    and "within_budget c0 b st"
  shows "within_budget c0 b st'"
  using assms by (auto simp: plain_reply_def within_budget_def Let_def split: if_splits)

lemma trim_space_tag:
  assumes "t \<noteq> []" "\<not> is_space (hd t)" "\<not> is_space (last t)" "t \<in> set stall_tags"
  shows "is_stalled_result (t @ x)"
proof -
  have "has_prefix (trim_space (t @ x)) t" using trim_space_keeps [OF assms(1-3)] by simp
  with assms(4) show ?thesis by (auto simp: is_stalled_result_def list_ex_iff Let_def)
qed

lemma tagged_stalled:
  "is_stalled_result (failed_tag @ x)" "is_stalled_result (no_evidence_tag @ x)"
proof -
  show "is_stalled_result (failed_tag @ x)"
    by (rule trim_space_tag) (simp_all add: failed_tag_def stall_tags_def is_space_def byte_def)
  have "is_stalled_result (''[no tool evidence'' @ y)" for y
    by (rule trim_space_tag) (simp_all add: stall_tags_def is_space_def byte_def)
  from this [of "'' '' @ em_dash @ '' answer is from model memory] '' @ x"]
  show "is_stalled_result (no_evidence_tag @ x)" by (simp add: no_evidence_tag_def)
qed

text \<open>Two turns of a model that never calls a tool, on a step that needs evidence and creates no file.\<close>

lemma quiet_loop_tagged:
  assumes "quiet env" "trim_space (os_hint s) \<noteq> []" "\<not> is_file_creation_step (os_desc s)"
    and "2 \<le> oc_worker_iters (we_config env)"
    and "react_loop env s w msgs tools = (w', msgs', Inr out)"
  shows "\<exists>out1. out = no_evidence_tag @ out1"
proof -
  obtain n where n: "nat (oc_worker_iters (we_config env)) = Suc (Suc n)"
    using assms(4) by (metis Suc_nat_eq_nat_zadd1 nat_2 nat_le_iff_add le_nat_iff numeral_2_eq_2
        add_2_eq_Suc nat_mono)
  have ne: "needs_evidence s" using assms(2) by (simp add: needs_evidence_def)
  let ?st = "\<lparr>ws_messages = msgs, ws_calls = 0, ws_nudged = False, ws_last_sig = [], ws_repeat = 0\<rparr>"
  obtain w1 reply1 where r1: "we_route env w msgs (loop_request env s tools 0) = (w1, reply1)"
    by fastforce
  obtain c1 where c1: "reply1 = RouteOk c1 []"
    using assms(5) n r1 quietD [OF assms(1), of w msgs "loop_request env s tools 0"]
    by (cases reply1) (auto simp: react_loop_def)
  obtain st1 where st1: "plain_reply env s 0 w1 ?st c1 = (w1, st1, None)" "ws_nudged st1" "ws_calls st1 = 0"
    using ne assms(3) by (simp add: plain_reply_def Let_def)
  obtain w2 reply2 where
    r2: "we_route env w1 (ws_messages st1) (loop_request env s tools 1) = (w2, reply2)" by fastforce
  have l: "react_iters env s tools (Suc n) 1 w1 st1 = (w', msgs', Inr out)"
    using assms(5) n r1 c1 st1(1) by (simp add: react_loop_def reply_turn_def)
  obtain c2 where c2: "reply2 = RouteOk c2 []"
    using l r2 quietD [OF assms(1), of w1 "ws_messages st1" "loop_request env s tools 1"]
    by (cases reply2) auto
  have "\<exists>o2. plain_reply env s 1 w2 st1 c2 = (w2, st1, Some (no_evidence_tag @ o2))"
    using ne assms(3) st1(2,3) by (auto simp: plain_reply_def Let_def)
  with l r2 c2 show ?thesis by (auto simp: reply_turn_def)
qed

section \<open>Properties\<close>


text \<open>A model that answers every prompt with the same text, and tools that count their calls.\<close>

definition text_env :: "string \<Rightarrow> nat worker_env" where
  "text_env content =
     \<lparr>we_route = (\<lambda>w msgs req. (w, RouteOk content [])),
      we_act = (\<lambda>w tc. (w + 1, Inr ''ok'')), we_qa = (\<lambda>w task. (w, Inr ''PASS'')),
      we_decode_file_args = (\<lambda>a. None), we_exists_args = (\<lambda>p. p), we_write_args = (\<lambda>p c. p),
      we_intercept_id = (\<lambda>w. ''id''), we_quote = (\<lambda>s. s), we_show_list = join '' '',
      we_prior_text = (\<lambda>r. []), we_inject = (\<lambda>t. []), we_tools = None, we_is_builtin = (\<lambda>n. True),
      we_system_prompt = ''sys'', we_file_directive = ''write files'', we_evidence_nudge = (\<lambda>h. h),
      we_retry_nudge = (\<lambda>fs. ''retry''), we_config = default_orchestrator_config,
      we_provider = ''p'', we_model = ''m''\<rparr>"

definition block_answer :: string where
  "block_answer = fence3 @ ''go main.go'' @ nl @ ''package main'' @ fence3"

definition create_step :: orch_step where
  "create_step = \<lparr>os_id = 1, os_desc = ''Create main.go'', os_deps = [], os_hint = ''file''\<rparr>"

lemma quiet_text_env: "quiet (text_env c)"
  by (simp add: quiet_def text_env_def)


text \<open>
  An answer from memory never counts as progress. When the planner gave the step a tool hint, the step
  creates no file and the model never calls a tool, the worker nudges it once and then tags its answer, and
  the dispatcher counts the tagged result as stalled.
\<close>

lemma memory_answer_counts_as_stalled:
  assumes "quiet env" "trim_space (os_hint s) \<noteq> []"
    and "\<not> is_file_creation_step (os_desc s)" "\<not> is_qa_step (os_desc s)"
    and "2 \<le> oc_worker_iters (we_config env)"
  shows "case snd (run_worker env w task s prior) of
           Inl err \<Rightarrow> True
         | Inr out \<Rightarrow> is_stalled_result out"
proof -
  obtain w1 msgs r where l: "react_loop env s w (build_messages env task s prior) (step_tools env s) =
      (w1, msgs, r)" using prod_cases3 by blast
  show ?thesis
  proof (cases r)
    case (Inr out)
    with quiet_loop_tagged [OF assms(1-3,5)] l obtain o1 where "out = no_evidence_tag @ o1" by blast
    with l Inr assms(3,4) tagged_stalled show ?thesis
      by (simp add: run_worker_def verify_artifacts_def tag_build_failure_def)
  qed (use l assms(4) in \<open>simp add: run_worker_def\<close>)
qed

lemma memory_answer_counts_as_stalled_witness:
  "case snd (run_worker (text_env ''It is 42.'') 0 ''t'' (create_step\<lparr>os_desc := ''Report''\<rparr>) Map.empty) of
     Inl err \<Rightarrow> True | Inr out \<Rightarrow> is_stalled_result out"
  by (rule memory_answer_counts_as_stalled [OF quiet_text_env]; code_simp)

text \<open>
  The tool budget. On a step without the interceptor, one run of the worker loop executes at most
  \<open>WorkerMaxToolCalls\<close> tool calls, however many the model asks for in one reply or over all iterations:
  at most that many tool results are added to the conversation.
\<close>

lemma worker_tool_budget:
  assumes "\<not> is_file_creation_step (os_desc s)" "0 \<le> oc_worker_calls (we_config env)"
    and "react_loop env s w msgs tools = (w', msgs', r)"
  shows "tool_count msgs' \<le> tool_count msgs + oc_worker_calls (we_config env)"
proof -
  let ?b = "oc_worker_calls (we_config env)"
  let ?I = "within_budget (tool_count msgs) ?b"
  let ?st = "\<lparr>ws_messages = msgs, ws_calls = 0, ws_nudged = False, ws_last_sig = [], ws_repeat = 0\<rparr>"
  have "?I ?st" using assms(2) by (simp add: within_budget_def)
  note keeps = react_iters_keeps [of ?I env s, OF _ _ this assms(3) [unfolded react_loop_def]]
  have "\<exists>st'. ?I st' \<and> msgs' = ws_messages st'"
  proof (rule keeps)
    fix w0 msgs0 req content w st w' st' r and calls :: "tool_call list"
    assume i: "?I st" and run: "run_tools env s w
        (st\<lparr>ws_messages := ws_messages st @ [assistant_message content calls]\<rparr>) calls = (w', st', r)"
    have "?I (st\<lparr>ws_messages := ws_messages st @ [assistant_message content calls]\<rparr>)"
      using i by (simp add: within_budget_def)
    then show "?I st'" by (rule run_tools_within_budget [OF run refl])
  qed (rule plain_reply_same_calls [OF assms(1)])
  then show ?thesis by (auto simp: within_budget_def)
qed

text \<open>A model that repeats one terminal command, which fails.\<close>

definition failing_env :: "nat worker_env" where
  "failing_env = (text_env [])
     \<lparr>we_route := (\<lambda>w msgs req.
        (w, RouteOk [] [\<lparr>tc_id = ''1'', tc_name = ''terminal'', tc_arguments = ''go test''\<rparr>])),
      we_act := (\<lambda>w tc. (w + 1, Inr (exit_marker @ '' 1]'')))\<rparr>"

definition verify_demo_step :: orch_step where
  "verify_demo_step = \<lparr>os_id = 3, os_desc = ''go test'', os_deps = [], os_hint = []\<rparr>"

definition failing_run :: "nat \<times> message list \<times> (string + string)" where
  "failing_run = react_loop failing_env verify_demo_step 0
     (build_messages failing_env ''t'' verify_demo_step Map.empty) (step_tools failing_env verify_demo_step)"

lemma failing_run_eq:
  "react_loop failing_env verify_demo_step 0
     (build_messages failing_env ''t'' verify_demo_step Map.empty) (step_tools failing_env verify_demo_step)
   = (fst failing_run, fst (snd failing_run), snd (snd failing_run))"
  by (simp add: failing_run_def)

lemma worker_tool_budget_witness:
  "tool_count (fst (snd failing_run)) \<le>
     tool_count (build_messages failing_env ''t'' verify_demo_step Map.empty) +
     oc_worker_calls (we_config failing_env)"
  by (rule worker_tool_budget [OF _ _ failing_run_eq]; code_simp)

text \<open>
  Build honesty. When a VERIFY step that is not the QA step has seen the marker of a failed command in
  any tool result, its finding carries the failure tag, whatever the model claims.
\<close>

lemma failed_build_always_tagged:
  assumes "is_verify_or_qa_step (os_desc s)" "\<not> is_qa_step (os_desc s)"
    and "react_loop env s w (build_messages env task s prior) (step_tools env s) = (w1, msgs, Inr claim)"
    and "\<exists>m\<in>set msgs. contains_str (msg_content m) exit_marker"
  shows "\<exists>w2 out. run_worker env w task s prior = (w2, Inr (failed_tag @ out))"
  using assms
  by (auto simp: run_worker_def tag_build_failure_def contains_non_zero_exit_def list_ex_iff
      split: prod.splits)

lemma failing_run_eval:
  "\<not> isl (snd (snd failing_run)) \<and>
   list_ex (\<lambda>m. contains_str (msg_content m) exit_marker) (fst (snd failing_run))"
  by code_simp

lemma failed_build_always_tagged_witness:
  "\<exists>w2 out. run_worker failing_env 0 ''t'' verify_demo_step Map.empty = (w2, Inr (failed_tag @ out))"
proof (rule failed_build_always_tagged)
  have "snd (snd failing_run) = Inr (projr (snd (snd failing_run)))"
    using failing_run_eval by simp
  with failing_run_eq show "react_loop failing_env verify_demo_step 0
     (build_messages failing_env ''t'' verify_demo_step Map.empty) (step_tools failing_env verify_demo_step)
   = (fst failing_run, fst (snd failing_run), Inr (projr (snd (snd failing_run))))" by simp
  show "\<exists>m\<in>set (fst (snd failing_run)). contains_str (msg_content m) exit_marker"
    using failing_run_eval by (simp add: list_ex_iff)
qed (code_simp, code_simp)

end
