(* ===== verification/Task_Complexity.thy ===== *)
theory Task_Complexity
  imports Code_Blocks
begin

text \<open>
  The deterministic complexity check of a task (\<open>internal/agent/complexity.go\<close>). The word patterns are
  scanned with \<open>has_word\<close> on the lower-cased task, the path pattern and the concrete-reference pattern
  with scanners for the length of a match at a position.
\<close>

section \<open>Patterns\<close>

definition run_length :: "(char \<Rightarrow> bool) \<Rightarrow> string \<Rightarrow> nat" where
  "run_length p s = length (takeWhile p s)"

fun first_some :: "('a \<Rightarrow> 'b option) \<Rightarrow> 'a list \<Rightarrow> 'b option" where
  "first_some f [] = None"
| "first_some f (x # xs) = (case f x of Some y \<Rightarrow> Some y | None \<Rightarrow> first_some f xs)"

text \<open>The leftmost, non-overlapping matches of a scanner that gives the length of a match at a position.\<close>

function find_all :: "(string \<Rightarrow> nat option) \<Rightarrow> string \<Rightarrow> string list" where
  "find_all m s =
     (case s of
        [] \<Rightarrow> []
      | c # cs \<Rightarrow>
          (case m s of
             Some n \<Rightarrow> if n = 0 then find_all m cs else take n s # find_all m (drop n s)
           | None \<Rightarrow> find_all m cs))"
  by pat_completeness auto
termination
  by (relation "measure (length \<circ> snd)") auto

declare find_all.simps [simp del]

definition multi_file_verbs :: "string list" where
  "multi_file_verbs = [''create'', ''update'', ''modify'', ''refactor'', ''rename'', ''move'', ''delete'',
     ''migrate'']"

definition multi_file_connectors :: "string list" where
  "multi_file_connectors = [''and'', ''across'', ''multiple'', ''each'', ''every'', ''all'']"

definition plan_words :: "string list" where
  "plan_words = [''plan'', ''planning'', ''steps'', ''break down'', ''how would you'', ''decompose'', ''outline'']"

definition is_name_byte :: "char \<Rightarrow> bool" where
  "is_name_byte c \<longleftrightarrow> is_word_byte c \<or> c = CHR ''-''"

text \<open>\<open>[\w-]+\.\w+\<close> at the start of a text.\<close>

definition base_name_at :: "string \<Rightarrow> nat option" where
  "base_name_at s =
     (let a = run_length is_name_byte s
      in case drop a s of
           [] \<Rightarrow> None
         | c # cs \<Rightarrow>
             let b = run_length is_word_byte cs
             in if a = 0 \<or> c \<noteq> CHR ''.'' \<or> b = 0 then None else Some (a + 1 + b))"

text \<open>\<open>(?:[\w./-]+/)*\<close> takes as many path characters as it can, up to and including a slash that is not
  the first character; then the base name follows.\<close>

definition file_path_at :: "string \<Rightarrow> nat option" where
  "file_path_at s =
     (let n = run_length is_path_byte s;
          ends = rev (filter (\<lambda>k. 2 \<le> k \<and> s ! (k - 1) = CHR ''/'') [0..<n + 1]) @ [0]
      in first_some (\<lambda>k. map_option (\<lambda>m. k + m) (base_name_at (drop k s))) ends)"

definition concrete_at :: "string \<Rightarrow> bool" where
  "concrete_at s \<longleftrightarrow>
     (case s of
        [] \<Rightarrow> False
      | c # cs \<Rightarrow>
          (c = CHR ''.'' \<and> run_length is_word_byte cs \<in> {1..5}) \<or>
          (c = CHR ''/'' \<and> cs \<noteq> [] \<and> (is_name_byte (hd cs) \<or> hd cs = CHR ''.'')) \<or>
          c = CHR 0x60 \<or> has_prefix s ''http://'' \<or> has_prefix s ''https://'')"

fun has_concrete_reference :: "string \<Rightarrow> bool" where
  "has_concrete_reference [] = False"
| "has_concrete_reference (c # cs) = (concrete_at (c # cs) \<or> has_concrete_reference cs)"

section \<open>The report\<close>

record complexity_report =
  cr_multi_file :: bool
  cr_vague :: bool
  cr_explicit_plan :: bool
  cr_any_failure :: bool
  cr_complex :: bool

text \<open>\<open>any_failure\<close>: the failure history is not empty.\<close>

definition assess_complexity :: "string \<Rightarrow> bool \<Rightarrow> complexity_report" where
  "assess_complexity task0 any_failure =
     (let task = trim_space task0;
          low = to_lower task;
          multi = (has_word False low multi_file_verbs \<and> has_word False low multi_file_connectors) \<or>
                  2 \<le> length (remdups (find_all file_path_at task));
          words = length (str_fields task);
          concrete = has_concrete_reference low;
          vague = (0 < words \<and> words < 8 \<and> \<not> concrete) \<or> (contains_str task ''?'' \<and> \<not> concrete);
          plan = has_word False low plan_words
      in \<lparr>cr_multi_file = multi, cr_vague = vague, cr_explicit_plan = plan, cr_any_failure = any_failure,
          cr_complex = (multi \<or> vague \<or> plan \<or> any_failure)\<rparr>)"

lemma complex_after_failure: "cr_complex (assess_complexity task True)"
  by (simp add: assess_complexity_def Let_def)

end
