(* ===== verification/Orch_Pipeline.thy ===== *)
theory Orch_Pipeline
  imports Orch_Worker Task_Complexity "HOL-Library.List_Lexorder" "HOL-Library.Char_ord"
begin

text \<open>
  The pipeline that joins the phases (\<open>executeOrchestrated\<close> in \<open>internal/agent/orchestrated.go\<close>): plan,
  dispatch, at most two build fix passes, synthesis and its fallbacks. The calls of the model that plan
  and synthesize, the dispatcher run (\<open>Orch_Dispatch\<close> for fixed workers), the ReAct loop, the plan-only
  mode and the error strings of these calls are parameters over the world.
\<close>

section \<open>Build failures\<close>

definition qa_failed :: "string \<Rightarrow> bool" where
  "qa_failed out \<longleftrightarrow> contains_str out failed_tag \<or>
     contains_any (to_lower out) [''verdict: fail'', ''**fail**'', ''qa verdict: fail'']"

fun extract_qa_failure :: "orch_step list \<Rightarrow> results \<Rightarrow> string" where
  "extract_qa_failure [] r = []"
| "extract_qa_failure (s # ss) r =
     (if \<not> is_verify_or_qa_step (os_desc s) then extract_qa_failure ss r
      else case r (os_id s) of
             None \<Rightarrow> extract_qa_failure ss r
           | Some out \<Rightarrow> if qa_failed out then out else extract_qa_failure ss r)"

definition is_ascii_letter :: "char \<Rightarrow> bool" where
  "is_ascii_letter c \<longleftrightarrow> is_upper c \<or> is_lower c"

text \<open>A literal followed by at least one character of a class.\<close>

definition word_after :: "string \<Rightarrow> (char \<Rightarrow> bool) \<Rightarrow> string \<Rightarrow> nat option" where
  "word_after lit p s =
     (if has_prefix s lit \<and> 0 < run_length p (drop (length lit) s)
      then Some (length lit + run_length p (drop (length lit) s)) else None)"

definition error_exts :: "string list" where
  "error_exts = [''go'', ''ts'', ''tsx'', ''js'', ''jsx'', ''py'', ''rs'', ''java'', ''c'', ''cpp'', ''h'']"

text \<open>\<open>\s*:\s*\d+\<close> at the start of a text.\<close>

definition line_number_at :: "string \<Rightarrow> nat option" where
  "line_number_at s =
     (let a = run_length re_space s
      in case drop a s of
           [] \<Rightarrow> None
         | c # cs \<Rightarrow>
             if c \<noteq> CHR '':'' then None
             else let b = run_length re_space cs; d = run_length is_digit (drop b cs)
                  in if d = 0 then None else Some (a + 1 + b + d))"

definition location_tail :: "string \<Rightarrow> nat option" where
  "location_tail s =
     first_some (\<lambda>e. if has_prefix s e
                     then map_option (\<lambda>n. length e + n) (line_number_at (drop (length e) s)) else None)
       error_exts"

fun location_stem :: "nat \<Rightarrow> string \<Rightarrow> nat option" where
  "location_stem 0 s = None"
| "location_stem (Suc k) s =
     (case (case drop (Suc k) s of [] \<Rightarrow> None | c # cs \<Rightarrow> if c = CHR ''.'' then location_tail cs else None) of
        Some n \<Rightarrow> Some (Suc k + 1 + n)
      | None \<Rightarrow> location_stem k s)"

definition error_patterns :: "(string \<Rightarrow> nat option) list" where
  "error_patterns =
     [\<lambda>s. location_stem (run_length is_path_byte s) s,
      word_after ''TS'' is_digit,
      word_after ''npm ERR! '' is_word_byte,
      \<lambda>s. (if \<not> has_prefix s ''Error:'' then None
           else let sp = run_length re_space (drop 6 s); t = drop (6 + sp) s
                in if sp = 0 \<or> t = [] \<or> \<not> is_upper (hd t) \<or> run_length is_ascii_letter t < 2 then None
                   else Some (6 + sp + run_length is_ascii_letter t))]"

definition error_signature :: "string \<Rightarrow> string" where
  "error_signature failure =
     join '','' (sort (foldl add_unseen [] (concat (map (\<lambda>m. find_all m failure) error_patterns))))"

section \<open>The fix passes\<close>

record 'w pipeline_env = "'w worker_env" +
  pe_plan_only :: "'w \<Rightarrow> string \<Rightarrow> 'w \<times> string"
  pe_planner :: "'w \<Rightarrow> string \<Rightarrow> 'w \<times> route_reply"
  pe_unmarshal :: "string \<Rightarrow> orch_step list option"
  pe_dispatch :: "'w \<Rightarrow> string \<Rightarrow> orch_step list \<Rightarrow> 'w \<times> dispatch_outcome"
  pe_react :: "'w \<Rightarrow> string \<Rightarrow> 'w \<times> (string + string)"
  pe_synth :: "'w \<Rightarrow> string \<Rightarrow> orch_step list \<Rightarrow> results \<Rightarrow> 'w \<times> route_reply"
  pe_sanitize :: "string \<Rightarrow> string"
  pe_fix_nudge :: "string \<Rightarrow> string"
  pe_all_failed :: string

definition fix_context :: "('w, 'x) pipeline_env_scheme \<Rightarrow> string \<Rightarrow> string" where
  "fix_context env failure =
     ''[QA BUILD FAILURE '' @ em_dash @ '' your previous code had these errors]'' @ nl @
     ''--- BEGIN UNTRUSTED DATA ---'' @ nl @ pe_sanitize env failure @ nl @
     ''--- END UNTRUSTED DATA ---'' @ nl @ nl @ pe_fix_nudge env failure"

text \<open>Every file-creation step runs again with all results and the failure as a pseudo step 9999; the new
  outputs are collected, a worker error keeps the old one.\<close>

fun redo_steps ::
  "('w, 'x) pipeline_env_scheme \<Rightarrow> 'w \<Rightarrow> string \<Rightarrow> results \<Rightarrow> string \<Rightarrow> orch_step list \<Rightarrow> results
     \<Rightarrow> 'w \<times> results" where
  "redo_steps env w task prior failure [] out = (w, out)"
| "redo_steps env w task prior failure (s # ss) out =
     (if \<not> is_file_creation_step (os_desc s) then redo_steps env w task prior failure ss out
      else case run_worker env w task s (prior(9999 \<mapsto> fix_context env failure)) of
             (w', Inl e) \<Rightarrow> redo_steps env w' task prior failure ss out
           | (w', Inr res) \<Rightarrow> redo_steps env w' task prior failure ss (out(os_id s \<mapsto> res)))"

definition redo_file_creation_steps ::
  "('w, 'x) pipeline_env_scheme \<Rightarrow> 'w \<Rightarrow> string \<Rightarrow> orch_step list \<Rightarrow> results \<Rightarrow> string \<Rightarrow> 'w \<times> results" where
  "redo_file_creation_steps env w task steps prior failure =
     redo_steps env w task prior failure steps Map.empty"

fun fix_passes ::
  "('w, 'x) pipeline_env_scheme \<Rightarrow> nat \<Rightarrow> 'w \<Rightarrow> string \<Rightarrow> orch_step list \<Rightarrow> results \<Rightarrow> 'w \<times> results" where
  "fix_passes env 0 w task steps r = (w, r)"
| "fix_passes env (Suc n) w task steps r =
     (let failure = extract_qa_failure steps r
      in if failure = [] then (w, r)
         else
           let (w', redo) = redo_file_creation_steps env w task steps r failure;
               r' = r ++ redo;
               failure' = extract_qa_failure steps r'
           in if failure' = [] then (w', r')
              else if error_signature failure = error_signature failure' \<and> error_signature failure \<noteq> []
              then (w', r')
              else fix_passes env n w' task steps r')"

definition max_fix_passes :: nat where
  "max_fix_passes = 2"

section \<open>Synthesis\<close>

definition synthesize ::
  "('w, 'x) pipeline_env_scheme \<Rightarrow> 'w \<Rightarrow> string \<Rightarrow> orch_step list \<Rightarrow> results \<Rightarrow> 'w \<times> string option" where
  "synthesize env w task steps r =
     (case pe_synth env w task steps r of
        (w', RouteOk content calls) \<Rightarrow> (w', if trim_space content = [] then None else Some (trim_space content))
      | (w', _) \<Rightarrow> (w', None))"

definition fallback_concatenate :: "string \<Rightarrow> orch_step list \<Rightarrow> results \<Rightarrow> string" where
  "fallback_concatenate task steps r =
     ''Task: '' @ task @ nl @ nl @ ''Worker findings:'' @ nl @
     concat (map (\<lambda>s. itoa (os_id s) @ ''. '' @ os_desc s @ '': '' @
       (case r (os_id s) of None \<Rightarrow> ''(no result)'' | Some out \<Rightarrow> out) @ nl) steps)"

definition failure_markers :: "string list" where
  "failure_markers = [failed_tag, ''[worker error'', ''[no tool evidence'', ''[circuit breaker'', ''[step '']"

definition failed_result :: "string \<Rightarrow> bool" where
  "failed_result out \<longleftrightarrow> contains_any out failure_markers \<or> trim_space out = []"

text \<open>\<open>allWorkersFailed\<close> over the ids that can have a result.\<close>

definition all_workers_failed :: "int list \<Rightarrow> results \<Rightarrow> bool" where
  "all_workers_failed ids r \<longleftrightarrow>
     list_all (\<lambda>i. case r i of None \<Rightarrow> True | Some out \<Rightarrow> failed_result out) ids"

section \<open>The pipeline\<close>

datatype pipeline_result = PipelineOk string | PipelineErr string

definition outcome_results :: "dispatch_outcome \<Rightarrow> results" where
  "outcome_results oc = (case oc of Completed r \<Rightarrow> r | BrokeOff r \<Rightarrow> r | StuckPlan r \<Rightarrow> r)"

definition finish_pipeline ::
  "('w, 'x) pipeline_env_scheme \<Rightarrow> 'w \<Rightarrow> string \<Rightarrow> orch_step list \<Rightarrow> results \<Rightarrow> 'w \<times> pipeline_result" where
  "finish_pipeline env w task steps r =
     (let (w', synth) = synthesize env w task steps r;
          answer = (case synth of Some a \<Rightarrow> a | None \<Rightarrow> fallback_concatenate task steps r);
          answer = (if trim_space answer = [] \<and> all_workers_failed (map os_id steps) r
                    then pe_all_failed env else answer)
      in (w', PipelineOk answer))"

fun act_all :: "('w, 'x) worker_env_scheme \<Rightarrow> 'w \<Rightarrow> file_write list \<Rightarrow> 'w" where
  "act_all env w [] = w"
| "act_all env w (fw # fws) = act_all env (fst (we_act env w (write_call env w fw))) fws"

definition plan_error_text :: "('w, 'x) worker_env_scheme \<Rightarrow> string \<Rightarrow> string \<Rightarrow> string" where
  "plan_error_text env reply carried =
     ''orchestrator planner failed: planner output parse failed: '' @
     (if trim_space reply = [] then ''empty planner output''
      else ''no valid JSON array found in '' @ itoa (int (length (trim_space reply))) @ ''-char input'') @
     '' (raw: '' @ we_quote env carried @ '')''"

definition plan_only_prefix :: string where
  "plan_only_prefix = ''[PLAN ONLY]''"

definition execute_orchestrated ::
  "('w, 'x) pipeline_env_scheme \<Rightarrow> 'w \<Rightarrow> string \<Rightarrow> 'w \<times> pipeline_result" where
  "execute_orchestrated env w task =
     (if has_prefix (trim_space task) plan_only_prefix then
        (let (w', text) = pe_plan_only env w task in (w', PipelineOk text))
      else
        case pe_planner env w task of
          (w1, RouteError e) \<Rightarrow> (w1, PipelineErr (''orchestrator planner failed: planner LLM call failed: '' @ e))
        | (w1, RouteNil) \<Rightarrow> (w1, PipelineErr ''orchestrator planner failed: planner LLM returned nil response'')
        | (w1, RouteOk reply calls) \<Rightarrow>
            (case plan_of_reply (pe_unmarshal env) (oc_max_steps (we_config env)) task reply of
               PlanParseFailed carried \<Rightarrow>
                 (case salvage_planner_output carried of
                    None \<Rightarrow> (w1, PipelineErr (plan_error_text env reply carried))
                  | Some raw \<Rightarrow>
                      ((if is_file_creation_step task then act_all env w1 (intercept_code_blocks raw task)
                        else w1), PipelineOk raw))
             | PlanSteps steps \<Rightarrow>
                 if steps = [] then
                   (case pe_react env w1 task of
                      (w2, Inl e) \<Rightarrow> (w2, PipelineErr e) | (w2, Inr out) \<Rightarrow> (w2, PipelineOk out))
                 else
                   let (w2, oc) = pe_dispatch env w1 task steps;
                       (w3, r) = fix_passes env max_fix_passes w2 task steps (outcome_results oc)
                   in finish_pipeline env w3 task steps r))"

section \<open>What a fix pass can change\<close>

lemma redo_steps_keeps:
  assumes "redo_steps env w task prior failure ss out = (w', out')"
    and "\<forall>s\<in>set ss. is_file_creation_step (os_desc s) \<longrightarrow> os_id s \<noteq> i"
  shows "out' i = out i"
  using assms
  by (induction env w task prior failure ss out arbitrary: w' out' rule: redo_steps.induct)
    (auto split: if_splits prod.splits sum.splits)

text \<open>A failed result of a step that creates no file stays in the results, so a failure is found again.\<close>

lemma extract_qa_failure_finds:
  assumes "s \<in> set steps" "is_verify_or_qa_step (os_desc s)" "r (os_id s) = Some out" "qa_failed out"
  shows "extract_qa_failure steps r \<noteq> []"
proof -
  have ne: "out \<noteq> []" if "qa_failed out" for out
    using that by (auto simp: qa_failed_def failed_tag_def contains_any_def to_lower_def)
  show ?thesis
    using assms ne
    by (induction steps) (auto split: option.splits)
qed

lemma fix_passes_keeps:
  assumes "\<forall>t\<in>set steps. is_file_creation_step (os_desc t) \<longrightarrow> os_id t \<noteq> i"
  shows "snd (fix_passes env n w task steps r) i = r i"
proof (induction n arbitrary: w r)
  case (Suc n)
  obtain w' redo where rd: "redo_file_creation_steps env w task steps r (extract_qa_failure steps r) = (w', redo)"
    by fastforce
  have "redo i = None"
    using redo_steps_keeps [OF rd [unfolded redo_file_creation_steps_def] assms] by simp
  then have "(r ++ redo) i = r i" by (simp add: map_add_def)
  with Suc.IH [of w' "r ++ redo"] rd show ?case by (simp add: Let_def)
qed simp

lemma blank_prefix: "trim_space (c # s) = [] \<Longrightarrow> is_space c"
proof (rule ccontr)
  assume b: "trim_space (c # s) = []" and n: "\<not> is_space c"
  have "trim_space ([c] @ s) = [c] @ trim_right s" by (rule trim_space_keeps) (simp_all add: n)
  with b show False by simp
qed

lemma trim_space_blank_idem: "trim_space s \<noteq> [] \<Longrightarrow> trim_space (trim_space s) \<noteq> []"
  by simp

section \<open>Properties\<close>


definition demo_pipeline :: "nat pipeline_env" where
  "demo_pipeline = worker_env.extend (text_env ''ok'')
     \<lparr>pe_plan_only = (\<lambda>w t. (w, ''plan'')), pe_planner = (\<lambda>w t. (w, RouteOk ''[]'' [])),
      pe_unmarshal = (\<lambda>t. Some demo_plan), pe_dispatch = (\<lambda>w t ss. (w, Completed Map.empty)),
      pe_react = (\<lambda>w t. (w, Inr ''done'')), pe_synth = (\<lambda>w t ss r. (w, RouteOk ''  '' [])),
      pe_sanitize = (\<lambda>t. t), pe_fix_nudge = (\<lambda>t. t), pe_all_failed = ''all failed''\<rparr>"


text \<open>
  The answer of the pipeline is never blank, and the diagnostic for "every step failed" is
  unreachable: a blank synthesis is an error, an error is answered with the concatenated worker findings,
  and these are never blank. So the final answer is the synthesized text or the concatenation, in every
  case, also when all workers failed.
\<close>

lemma all_failed_message_unreachable:
  "snd (finish_pipeline env w task steps r) =
     PipelineOk (case snd (synthesize env w task steps r) of
                   Some answer \<Rightarrow> answer
                 | None \<Rightarrow> fallback_concatenate task steps r)"
proof -
  have "trim_space (fallback_concatenate task steps r) \<noteq> []"
    using blank_prefix [of "CHR ''T''"] by (auto simp: fallback_concatenate_def is_space_def byte_def)
  moreover have "trim_space a \<noteq> []" if "snd (synthesize env w task steps r) = Some a" for a
    using that by (auto simp: synthesize_def split: prod.splits route_reply.splits if_splits)
  ultimately show ?thesis
    by (auto simp: finish_pipeline_def Let_def split: prod.splits option.splits)
qed

end
