(* ===== verification/Conversation.thy ===== *)
theory Conversation
  imports Kyoci_Types
begin

text \<open>
  The conversation of an agent (\<open>internal/agent/context.go\<close>) and the clean-up of texts that leave it
  (\<open>truncateToolResult\<close> and \<open>sanitizeContent\<close> in \<open>internal/agent/loop.go\<close>). A conversation is its
  list of messages; the mutex makes every operation atomic. Only the content of a message is counted.
\<close>

section \<open>Operations\<close>

type_synonym conversation = "message list"

definition add_message :: "message_role \<Rightarrow> string \<Rightarrow> conversation \<Rightarrow> conversation" where
  "add_message r content c = c @ [plain_message r content]"

definition add_tool_result :: "string \<Rightarrow> string \<Rightarrow> conversation \<Rightarrow> conversation" where
  "add_tool_result call_id result c = c @ [(plain_message RoleTool result)\<lparr>msg_tool_call_id := call_id\<rparr>]"

definition add_assistant_message :: "string \<Rightarrow> tool_call list \<Rightarrow> conversation \<Rightarrow> conversation" where
  "add_assistant_message content calls c =
     c @ [(plain_message RoleAssistant content)\<lparr>msg_tool_calls := calls\<rparr>]"

definition total_chars :: "conversation \<Rightarrow> int" where
  "total_chars c = sum_list (map (\<lambda>m. int (length (msg_content m))) c)"

definition token_count :: "conversation \<Rightarrow> int" where
  "token_count c = total_chars c div 4"

definition is_system :: "message \<Rightarrow> bool" where
  "is_system m \<longleftrightarrow> msg_role m = RoleSystem"

text \<open>The newest messages that fit, from the end; each kept one is put in front of the list.\<close>

fun keep_newest :: "conversation \<Rightarrow> int \<Rightarrow> conversation \<Rightarrow> conversation" where
  "keep_newest [] remaining acc = acc"
| "keep_newest (m # older) remaining acc =
     (if is_system m then keep_newest older remaining acc
      else if int (length (msg_content m)) \<le> remaining
      then keep_newest older (remaining - int (length (msg_content m))) (m # acc)
      else keep_newest older remaining acc)"

definition compact :: "int \<Rightarrow> conversation \<Rightarrow> conversation" where
  "compact max_tokens c =
     (if total_chars c div 4 \<le> max_tokens then c
      else let sys = filter is_system c
           in keep_newest (rev c) (max_tokens * 4 - total_chars sys) sys)"

text \<open>\<open>smart_split tot i first ms\<close>: the first user message, the messages to summarize and those to keep;
  \<open>i\<close> is the index of the next message.\<close>

fun smart_split ::
  "nat \<Rightarrow> nat \<Rightarrow> message option \<Rightarrow> message list \<Rightarrow> message option \<times> message list \<times> message list" where
  "smart_split tot i first [] = (first, [], [])"
| "smart_split tot i first (m # ms) =
     (if msg_role m = RoleUser \<and> first = None then smart_split tot (i + 1) (Some m) ms
      else
        let (f, old, keep) = smart_split tot (i + 1) first ms
        in if tot \<le> i + 6 then (f, old, m # keep) else (f, m # old, keep))"

definition summary_lines :: "message \<Rightarrow> string" where
  "summary_lines m =
     (case msg_role m of
        RoleAssistant \<Rightarrow> concat (map (\<lambda>tc. ''- Called '' @ tc_name tc @ nl) (msg_tool_calls m))
      | RoleUser \<Rightarrow> ''- User: '' @ truncate_str (msg_content m) 100 @ nl
      | _ \<Rightarrow> [])"

definition summary_calls :: "message \<Rightarrow> int" where
  "summary_calls m =
     (case msg_role m of
        RoleAssistant \<Rightarrow> int (length (msg_tool_calls m)) | RoleTool \<Rightarrow> 1 | _ \<Rightarrow> 0)"

definition summary_text :: "message list \<Rightarrow> string" where
  "summary_text old =
     ''[Context Compacted '' @ [CHR 0xE2, CHR 0x80, CHR 0x94] @ '' summary of earlier actions]'' @ nl @
     concat (map summary_lines old) @
     ''('' @ itoa (sum_list (map summary_calls old)) @ '' tool calls summarized)'' @ nl"

definition smart_compact :: "int \<Rightarrow> conversation \<Rightarrow> conversation" where
  "smart_compact max_tokens c =
     (if total_chars c div 4 \<le> max_tokens then c
      else
        let sys = filter is_system c;
            others = filter (\<lambda>m. \<not> is_system m) c
        in if length others \<le> 6 then c
           else
             let (first, old, keep) = smart_split (length others) 0 None others
             in sys @ (case first of None \<Rightarrow> [] | Some m \<Rightarrow> [m]) @
                [plain_message RoleUser (summary_text old)] @ keep)"

definition last_assistant_content :: "conversation \<Rightarrow> string" where
  "last_assistant_content c =
     (case find (\<lambda>m. msg_role m = RoleAssistant) (rev c) of None \<Rightarrow> [] | Some m \<Rightarrow> msg_content m)"

definition has_tool_calls :: "conversation \<Rightarrow> bool" where
  "has_tool_calls c \<longleftrightarrow> c \<noteq> [] \<and> msg_role (last c) = RoleAssistant \<and> msg_tool_calls (last c) \<noteq> []"

section \<open>Texts\<close>

text \<open>The 60 and 30 percent are exact for the lengths the code passes (multiples of 10).\<close>

definition truncate_tool_result :: "string \<Rightarrow> nat \<Rightarrow> string" where
  "truncate_tool_result result max_len =
     (if length result \<le> max_len then result
      else
        let head_len = max_len * 6 div 10; tail_len = max_len * 3 div 10
        in take head_len result @ nl @ nl @ ''... ['' @
           itoa (int (length result) - int head_len - int tail_len) @ '' characters truncated] ...'' @
           nl @ nl @ drop (length result - tail_len) result)"

definition quoted :: "string \<Rightarrow> string" where
  "quoted s = [CHR 0x22] @ s @ [CHR 0x22]"

definition thought_markers :: "string list" where
  "thought_markers = [quoted ''task_understanding'', quoted ''next_action'',
     quoted ''verification_evidence'', quoted ''tool_rationale'']"

definition is_thought_json_line :: "string \<Rightarrow> bool" where
  "is_thought_json_line line = list_ex (contains_str line) thought_markers"

definition brace_balance :: "string \<Rightarrow> int" where
  "brace_balance s = count_char s (CHR ''{'') - count_char s (CHR ''}'')"

definition tool_call_tag :: string where
  "tool_call_tag = ''[Tool Call:''"

text \<open>The lines that stay; the brace depth is \<open>Some\<close> while a multi-line artifact is skipped.\<close>

fun sanitize_lines :: "int option \<Rightarrow> string list \<Rightarrow> string list" where
  "sanitize_lines skip [] = []"
| "sanitize_lines skip (line # ls) =
     (let t = trim_space line
      in if has_prefix t ''{'' \<and> is_thought_json_line t then sanitize_lines skip ls
         else if has_prefix t tool_call_tag then
           (if has_suffix t '']'' then sanitize_lines skip ls
            else sanitize_lines (Some (brace_balance t)) ls)
         else case skip of
                None \<Rightarrow> line # sanitize_lines None ls
              | Some d \<Rightarrow>
                  let d' = d + brace_balance line
                  in sanitize_lines (if contains_str t '']'' \<and> d' \<le> 0 then None else Some d') ls)"

definition sanitize_content :: "string \<Rightarrow> string" where
  "sanitize_content content =
     (if content = [] then content
      else
        let cleaned = trim_space (concat (map (\<lambda>l. l @ nl) (sanitize_lines None (split_on (CHR 0x0A) content))))
        in if cleaned = [] then ''Done.'' else cleaned)"

section \<open>Lemmas\<close>

lemma total_chars_simps [simp]:
  "total_chars [] = 0" "total_chars (m # c) = int (length (msg_content m)) + total_chars c"
  "total_chars (c @ d) = total_chars c + total_chars d"
  by (simp_all add: total_chars_def)

lemma total_chars_nonneg [simp]: "0 \<le> total_chars c"
  by (induction c) auto

lemma keep_newest_shape:
  "\<exists>kept. keep_newest older remaining acc = kept @ acc \<and>
     subseq kept (filter (\<lambda>m. \<not> is_system m) (rev older)) \<and>
     total_chars kept \<le> max remaining 0"
proof (induction older arbitrary: remaining acc)
  case (Cons m older)
  let ?n = "int (length (msg_content m))"
  consider (sys) "is_system m" | (fits) "\<not> is_system m" "?n \<le> remaining"
    | (big) "\<not> is_system m" "\<not> ?n \<le> remaining" by blast
  then show ?case
  proof cases
    case sys
    with Cons.IH [of remaining acc] show ?thesis by simp
  next
    case fits
    from Cons.IH [of "remaining - ?n" "m # acc"] obtain kept where
      k: "keep_newest older (remaining - ?n) (m # acc) = kept @ m # acc"
        "subseq kept (filter (\<lambda>m. \<not> is_system m) (rev older))"
        "total_chars kept \<le> max (remaining - ?n) 0" by blast
    have "keep_newest (m # older) remaining acc = (kept @ [m]) @ acc" using fits k(1) by simp
    moreover have "subseq (kept @ [m]) (filter (\<lambda>m. \<not> is_system m) (rev (m # older)))"
      using k(2) fits(1) by (simp add: list_emb_append_mono)
    moreover have "total_chars (kept @ [m]) \<le> max remaining 0" using k(3) fits(2) by auto
    ultimately show ?thesis by blast
  next
    case big
    from Cons.IH [of remaining acc] obtain kept where
      k: "keep_newest older remaining acc = kept @ acc"
        "subseq kept (filter (\<lambda>m. \<not> is_system m) (rev older))"
        "total_chars kept \<le> max remaining 0" by blast
    then have "subseq kept (filter (\<lambda>m. \<not> is_system m) (rev (m # older)))"
      using big(1) by (simp add: subseq_rev_drop_many)
    with k big show ?thesis by auto
  qed
qed simp

lemma smart_split_sizes:
  "smart_split tot i first ms = (f, old, keep) \<Longrightarrow> tot = i + length ms \<Longrightarrow>
     length keep \<le> min 6 (length ms)"
  by (induction tot i first ms arbitrary: f old keep rule: smart_split.induct)
    (fastforce simp: Let_def split: if_splits prod.splits)+

lemma smart_split_after_first:
  "smart_split tot i (Some u) ms = (f, old, keep) \<Longrightarrow> tot = i + length ms \<Longrightarrow>
     f = Some u \<and> old = take (length ms - 6) ms \<and> keep = drop (length ms - 6) ms"
proof (induction ms arbitrary: i f old keep)
  case (Cons m ms)
  obtain f' old' keep' where r: "smart_split tot (i + 1) (Some u) ms = (f', old', keep')"
    using prod_cases3 by blast
  from Cons.IH [OF this] Cons.prems(2)
  have "f' = Some u" "old' = take (length ms - 6) ms" "keep' = drop (length ms - 6) ms" by auto
  moreover have "length ms - 5 = Suc (length ms - 6)" if "5 < length ms" using that by simp
  ultimately show ?case
    using Cons.prems r by (cases "tot \<le> i + 6") (auto simp: not_le)
qed simp

lemma sanitize_lines_subseq: "subseq (sanitize_lines skip ls) ls"
  by (induction skip ls rule: sanitize_lines.induct)
    (auto simp: Let_def split: option.split)

definition leaked_line :: "string \<Rightarrow> bool" where
  "leaked_line line \<longleftrightarrow> (has_prefix (trim_space line) ''{'' \<and> is_thought_json_line (trim_space line)) \<or>
     has_prefix (trim_space line) tool_call_tag"

lemma sanitize_lines_clean: "l \<in> set (sanitize_lines skip ls) \<Longrightarrow> \<not> leaked_line l"
  by (induction skip ls rule: sanitize_lines.induct)
    (auto simp: Let_def leaked_line_def split: option.splits if_splits)

section \<open>Properties\<close>

lemma compact_cases:
  assumes "max_tokens < total_chars c div 4"
  shows "\<exists>kept. compact max_tokens c = kept @ filter is_system c \<and>
     subseq kept (filter (\<lambda>m. \<not> is_system m) c) \<and>
     total_chars kept \<le> max (max_tokens * 4 - total_chars (filter is_system c)) 0"
  using keep_newest_shape [of "rev c"] assms by (simp add: compact_def Let_def)

text \<open>A compacted conversation stays within the limit, unless the system messages alone exceed it.\<close>

lemma compact_bounded:
  "total_chars (compact max_tokens c) \<le> max (4 * max_tokens + 3) (total_chars (filter is_system c))"
proof (cases "total_chars c div 4 \<le> max_tokens")
  case True
  then have "total_chars c \<le> 4 * max_tokens + 3" by presburger
  with True show ?thesis by (simp add: compact_def)
next
  case False
  then obtain kept where "compact max_tokens c = kept @ filter is_system c"
      "total_chars kept \<le> max (max_tokens * 4 - total_chars (filter is_system c)) 0"
    using compact_cases [of max_tokens c] by auto
  then show ?thesis by simp
qed

text \<open>
  \<open>Compact\<close> turns the conversation around its system messages. When it has to remove anything, the
  result is a selection of the other messages in their order, within the limit that the system messages
  leave, followed by the system messages: a conversation that kept anything else no longer starts with
  its system prompt.
\<close>

lemma compact_puts_system_last:
  assumes "max_tokens < total_chars c div 4"
  shows "\<exists>kept. compact max_tokens c = kept @ filter is_system c \<and>
    subseq kept (filter (\<lambda>m. \<not> is_system m) c) \<and>
    total_chars kept \<le> max (max_tokens * 4 - total_chars (filter is_system c)) 0 \<and>
    (kept \<noteq> [] \<longrightarrow> \<not> is_system (hd (compact max_tokens c)))"
proof -
  obtain kept where k: "compact max_tokens c = kept @ filter is_system c"
      "subseq kept (filter (\<lambda>m. \<not> is_system m) c)"
      "total_chars kept \<le> max (max_tokens * 4 - total_chars (filter is_system c)) 0"
    using compact_cases [OF assms] by blast
  have "\<not> is_system (hd kept)" if "kept \<noteq> []"
    using list_emb_set [OF k(2) hd_in_set [OF that]] by auto
  with k show ?thesis by (intro exI [of _ kept]) auto
qed

lemma compact_puts_system_last_witness:
  "\<exists>kept. compact 1 [plain_message RoleSystem ''s'', plain_message RoleUser ''long task'',
        plain_message RoleUser ''ok''] =
      kept @ filter is_system [plain_message RoleSystem ''s'', plain_message RoleUser ''long task'',
        plain_message RoleUser ''ok'']"
  using compact_puts_system_last [of 1 "[plain_message RoleSystem ''s'',
      plain_message RoleUser ''long task'', plain_message RoleUser ''ok'']"]
  by (auto simp: plain_message_def)

text \<open>
  \<open>SmartCompact\<close> keeps the frame of a conversation. Over the limit, with the task as the first message
  that is not a system message and at least six messages after it, the result is the system messages, the
  task, one summary of the middle part and exactly the last six messages, unchanged and in order.
\<close>

lemma smart_compact_frame:
  assumes "max_tokens < total_chars c div 4"
    and "filter (\<lambda>m. \<not> is_system m) c = task # rest" "msg_role task = RoleUser" "6 \<le> length rest"
  shows "smart_compact max_tokens c = filter is_system c @
    [task, plain_message RoleUser (summary_text (take (length rest - 6) rest))] @ last_n 6 rest"
proof -
  obtain f old keep where r: "smart_split (Suc (length rest)) 1 (Some task) rest = (f, old, keep)"
    using prod_cases3 by blast
  from smart_split_after_first [OF this]
  have "f = Some task" "old = take (length rest - 6) rest" "keep = drop (length rest - 6) rest" by auto
  with r assms show ?thesis
    by (simp add: smart_compact_def Let_def last_n_def)
qed

definition long_chat :: conversation where
  "long_chat = plain_message RoleSystem ''s'' # plain_message RoleUser ''task'' #
     map (\<lambda>c. plain_message RoleAssistant [c]) ''abcdefgh''"

lemma smart_compact_frame_witness:
  "smart_compact 1 long_chat = [plain_message RoleSystem ''s'', plain_message RoleUser ''task'',
     plain_message RoleUser (summary_text [plain_message RoleAssistant ''a'', plain_message RoleAssistant ''b''])] @
     map (\<lambda>c. plain_message RoleAssistant [c]) ''cdefgh''"
  using smart_compact_frame [of 1 long_chat "plain_message RoleUser ''task''"
      "map (\<lambda>c. plain_message RoleAssistant [c]) ''abcdefgh''"]
  by (simp add: long_chat_def plain_message_def is_system_def last_n_def)

end
