(* ===== verification/Thinking.thy ===== *)
theory Thinking
  imports Complex_Main Conversation Json_Text Task_Complexity
begin

text \<open>
  The thinking state machine (\<open>internal/agent/thinking.go\<close>): Assess, Plan, Execute, Verify, Reflect, Done,
  with its budgets, loop detection, parse nudges and narrative fallback. The model, the tools, JSON
  decoding, SHA-256 and the prompt texts are the environment over a world \<open>'w\<close>; confidences are rational
  numbers. Time stamps, logging and progress events are left out.
\<close>

section \<open>Data\<close>

record plan_item =
  pi_description :: string
  pi_tool :: string
  pi_status :: string

record next_action =
  na_type :: string
  na_tool_call :: "tool_call option"
  na_final_answer :: string
  na_question :: string

record thought =
  th_understanding :: string
  th_ambiguity :: "string list"
  th_plan :: "plan_item list"
  th_next :: next_action
  th_expected :: string
  th_confidence :: rat
  th_rationale :: string
  th_evidence :: "string list"
  th_root_cause :: string

record failure_entry =
  fe_iteration :: nat
  fe_tool :: string
  fe_args :: string
  fe_error :: string

datatype phase = StateAssess | StatePlan | StateExecute | StateVerify | StateReflect | StateDone

record loop_state =
  ls_thoughts :: "thought list"
  ls_plan :: "plan_item list"
  ls_calls :: int
  ls_budget :: int
  ls_recent :: "string list"
  ls_unique :: "string list"
  ls_failures :: "failure_entry list"
  ls_reflections :: int
  ls_replans :: int
  ls_max_reflections :: int
  ls_max_replans :: int
  ls_final :: string
  ls_break_attempted :: int
  ls_searches :: int

record thinking_config =
  tk_budget :: int
  tk_max_reflections :: int
  tk_max_replans :: int
  tk_threshold :: rat
  tk_few_shot :: bool
  tk_system_prompt :: string
  tk_max_iterations :: int
  tk_max_continuations :: int
  tk_max_context :: int

record 'w thinking_env =
  te_think :: "'w \<Rightarrow> conversation \<Rightarrow> 'w \<times> (string + string)"
  te_act :: "'w \<Rightarrow> tool_call \<Rightarrow> 'w \<times> (string + string)"
  te_thought :: "string \<Rightarrow> thought option"
  te_action :: "string \<Rightarrow> next_action option"
  te_operation :: "string \<Rightarrow> string option"
  te_canonical :: "string \<Rightarrow> string"
  te_digest :: "string \<Rightarrow> string"
  te_quote :: "string \<Rightarrow> string"
  te_inject :: "string \<Rightarrow> string"
  te_assess_prompt :: "string \<Rightarrow> string"
  te_plan_prompt :: "string \<Rightarrow> string"
  te_reflect_prompt :: "failure_entry list \<Rightarrow> string"
  te_execute_prompt :: string
  te_loop_nudge :: string
  te_search_nudge :: string
  te_json_reminder :: string
  te_narrative_prompt :: string
  te_base_prompt :: string
  te_few_shot :: string
  te_config :: thinking_config

section \<open>Budgets and loop detection\<close>

definition max_searches_per_task :: int where
  "max_searches_per_task = 3"

definition hash_tool_call :: "('w, 'x) thinking_env_scheme \<Rightarrow> string \<Rightarrow> string \<Rightarrow> string" where
  "hash_tool_call env name args = te_digest env (name @ ''|'' @ te_canonical env args)"

definition is_file_search_call :: "('w, 'x) thinking_env_scheme \<Rightarrow> string \<Rightarrow> string \<Rightarrow> bool" where
  "is_file_search_call env name args =
     (if name \<noteq> ''file'' then False
      else case te_operation env args of None \<Rightarrow> False | Some op \<Rightarrow> to_lower op = ''search'')"

text \<open>The window of the last four hashes.\<close>

definition push_recent :: "string list \<Rightarrow> string \<Rightarrow> string list" where
  "push_recent rs h =
     (let rs = rs @ [h] in if 4 < length rs then drop (length rs - 4) rs else rs)"

definition record_tool_call ::
  "('w, 'x) thinking_env_scheme \<Rightarrow> string \<Rightarrow> string \<Rightarrow> loop_state \<Rightarrow> loop_state" where
  "record_tool_call env name args ls =
     (let h = hash_tool_call env name args
      in ls\<lparr>ls_calls := ls_calls ls + 1,
            ls_unique := (if h \<in> set (ls_unique ls) then ls_unique ls else ls_unique ls @ [h]),
            ls_recent := push_recent (ls_recent ls) h,
            ls_searches := (if is_file_search_call env name args then ls_searches ls + 1
                            else ls_searches ls)\<rparr>)"

definition search_budget_exceeded :: "loop_state \<Rightarrow> bool" where
  "search_budget_exceeded ls \<longleftrightarrow> ls_searches ls \<ge> max_searches_per_task"

definition is_looping :: "loop_state \<Rightarrow> bool" where
  "is_looping ls \<longleftrightarrow> \<not> distinct (ls_recent ls)"

definition budget_exhausted :: "loop_state \<Rightarrow> bool" where
  "budget_exhausted ls \<longleftrightarrow> ls_calls ls \<ge> ls_budget ls"

text \<open>The two comparisons of floating-point quotients, multiplied out.\<close>

definition budget_near_exhausted_no_progress :: "loop_state \<Rightarrow> bool" where
  "budget_near_exhausted_no_progress ls =
     (if ls_calls ls = 0 then False
      else if 4 * ls_calls ls < 3 * ls_budget ls then False
      else 2 * int (length (ls_unique ls)) < ls_calls ls)"

definition can_reflect :: "loop_state \<Rightarrow> bool" where
  "can_reflect ls \<longleftrightarrow> ls_reflections ls < ls_max_reflections ls"

definition can_replan :: "loop_state \<Rightarrow> bool" where
  "can_replan ls \<longleftrightarrow> ls_replans ls < ls_max_replans ls"

definition record_failure_entry :: "failure_entry \<Rightarrow> loop_state \<Rightarrow> loop_state" where
  "record_failure_entry fe ls = ls\<lparr>ls_failures := ls_failures ls @ [fe]\<rparr>"

definition has_tool_execution_failure :: "loop_state \<Rightarrow> bool" where
  "has_tool_execution_failure ls =
     list_ex (\<lambda>f. fe_tool f \<notin> {''verify'', ''replan'', ''unknown'', []}) (ls_failures ls)"

section \<open>Parsing a thought\<close>

definition empty_thought :: thought where
  "empty_thought = \<lparr>th_understanding = [], th_ambiguity = [], th_plan = [],
     th_next = \<lparr>na_type = [], na_tool_call = None, na_final_answer = [], na_question = []\<rparr>,
     th_expected = [], th_confidence = 0, th_rationale = [], th_evidence = [], th_root_cause = []\<rparr>"

definition salvage_next_action :: "('w, 'x) thinking_env_scheme \<Rightarrow> string \<Rightarrow> thought option" where
  "salvage_next_action env input =
     (case next_action_block input of
        None \<Rightarrow> None
      | Some block \<Rightarrow> map_option (\<lambda>na. empty_thought\<lparr>th_next := na\<rparr>) (te_action env block))"

definition parse_thought :: "('w, 'x) thinking_env_scheme \<Rightarrow> string \<Rightarrow> string + thought" where
  "parse_thought env input0 =
     (let input = trim_space input0
      in if input = [] then Inl ''parseThought: empty input''
         else
           let input = strip_code_fences input
           in case te_thought env input of Some th \<Rightarrow> Inr th | None \<Rightarrow>
              (let extracted = extract_outermost_json input
               in case (if extracted \<noteq> [] then te_thought env extracted else None) of
                    Some th \<Rightarrow> Inr th | None \<Rightarrow>
                    (case salvage_next_action env input of
                       Some th \<Rightarrow> Inr th
                     | None \<Rightarrow> Inl (''parseThought: no valid thought JSON found in '' @
                                 itoa (int (length input)) @ ''-char input''))))"

section \<open>The steps\<close>

text \<open>A step gives the new world, conversation and loop state, and the error or the next phase.\<close>

type_synonym 'w step_result = "'w \<times> conversation \<times> loop_state \<times> (string + phase)"

definition run_thought_step ::
  "('w, 'x) thinking_env_scheme \<Rightarrow> 'w \<Rightarrow> conversation \<Rightarrow> loop_state \<Rightarrow> string \<Rightarrow> string
     \<Rightarrow> 'w \<times> conversation \<times> loop_state \<times> (string + thought)" where
  "run_thought_step env w convo ls prompt label =
     (let convo = add_message RoleUser prompt convo;
          (w', reply) = te_think env w convo
      in case reply of
           Inl e \<Rightarrow> (w', convo, ls, Inl (label @ '': LLM call failed: '' @ e))
         | Inr content \<Rightarrow>
             (case parse_thought env content of
                Inl e \<Rightarrow> (w', convo, ls, Inl (label @ '': parse failed: '' @ e))
              | Inr th \<Rightarrow> (w', convo, ls\<lparr>ls_thoughts := ls_thoughts ls @ [th]\<rparr>, Inr th)))"

definition max_plan_items :: nat where
  "max_plan_items = 8"

definition cap_plan :: "plan_item list \<Rightarrow> plan_item list" where
  "cap_plan plan = (if length plan \<le> max_plan_items then plan else take max_plan_items plan)"

definition assess_confidence_threshold :: rat where
  "assess_confidence_threshold = 7 / 10"

definition assess_step ::
  "('w, 'x) thinking_env_scheme \<Rightarrow> 'w \<Rightarrow> conversation \<Rightarrow> loop_state \<Rightarrow> string \<Rightarrow> 'w step_result" where
  "assess_step env w convo ls task =
     (case run_thought_step env w convo ls (te_assess_prompt env task) ''assess'' of
        (w, convo, ls, Inl e) \<Rightarrow> (w, convo, ls, Inl e)
      | (w, convo, ls, Inr th) \<Rightarrow>
          let complex = cr_complex (assess_complexity task (ls_failures ls \<noteq> []));
              t = tk_threshold (te_config env);
              threshold = (if t \<le> 0 then assess_confidence_threshold else t)
          in if \<not> complex \<and> th_confidence th \<ge> threshold \<and>
                (na_type (th_next th) = ''tool_call'' \<or> na_type (th_next th) = ''final_answer'')
             then (w, convo, (if th_plan th \<noteq> [] then ls\<lparr>ls_plan := cap_plan (th_plan th)\<rparr> else ls),
                   Inr StateExecute)
             else (w, convo, ls, Inr StatePlan))"

definition plan_step ::
  "('w, 'x) thinking_env_scheme \<Rightarrow> 'w \<Rightarrow> conversation \<Rightarrow> loop_state \<Rightarrow> string \<Rightarrow> 'w step_result" where
  "plan_step env w convo ls task =
     (case run_thought_step env w convo ls (te_plan_prompt env task) ''plan'' of
        (w, convo, ls, Inl e) \<Rightarrow> (w, convo, ls, Inl e)
      | (w, convo, ls, Inr th) \<Rightarrow> (w, convo, ls\<lparr>ls_plan := cap_plan (th_plan th)\<rparr>, Inr StateExecute))"

definition run_tool_call ::
  "('w, 'x) thinking_env_scheme \<Rightarrow> 'w \<Rightarrow> conversation \<Rightarrow> loop_state \<Rightarrow> tool_call \<Rightarrow> 'w step_result" where
  "run_tool_call env w convo ls tc =
     (let ls = record_tool_call env (tc_name tc) (tc_arguments tc) ls;
          (w', r) = te_act env w tc
      in case r of
           Inl e \<Rightarrow>
             (w', add_tool_result (tc_id tc) (''Error: '' @ e) convo,
              record_failure_entry \<lparr>fe_iteration = length (ls_thoughts ls), fe_tool = tc_name tc,
                fe_args = tc_arguments tc, fe_error = e\<rparr> ls, Inr StateReflect)
         | Inr out \<Rightarrow>
             (w', add_tool_result (tc_id tc) (truncate_tool_result out 4000) convo, ls, Inr StateExecute))"

definition simple_failure :: "string \<Rightarrow> string \<Rightarrow> failure_entry" where
  "simple_failure tool err = \<lparr>fe_iteration = 0, fe_tool = tool, fe_args = [], fe_error = err\<rparr>"

text \<open>The reason recorded when Execute escalates to Reflect before calling the model.\<close>

definition escalation_reason :: "loop_state \<Rightarrow> string" where
  "escalation_reason ls =
     (if budget_near_exhausted_no_progress ls then
        ''budget '' @ itoa (ls_calls ls) @ ''/'' @ itoa (ls_budget ls) @
        '' used with low unique-call ratio ('' @ itoa (int (length (ls_unique ls))) @ '' unique)''
      else if ls_break_attempted ls > 0 then
        ''loop detected after loop-break nudge (model did not transition to final_answer)''
      else if has_tool_execution_failure ls then ''loop detected with prior tool failure''
      else ''loop detected: repeating same tool call'')"

definition execute_action ::
  "('w, 'x) thinking_env_scheme \<Rightarrow> 'w \<Rightarrow> conversation \<Rightarrow> loop_state \<Rightarrow> thought \<Rightarrow> 'w step_result" where
  "execute_action env w convo ls th =
     (let na = th_next th
      in if na_type na = ''final_answer'' then
           (w, convo, ls\<lparr>ls_final := na_final_answer na\<rparr>, Inr StateVerify)
         else if na_type na = ''replan'' then
           (w, convo, (if th_root_cause th \<noteq> []
                       then record_failure_entry (simple_failure ''replan'' (th_root_cause th)) ls else ls),
            Inr StateReflect)
         else if na_type na = ''need_info_from_user'' then
           (w, convo, ls\<lparr>ls_final := ''Need clarification from user: '' @ na_question na\<rparr>, Inr StateDone)
         else if na_type na = ''tool_call'' then
           (case na_tool_call na of
              None \<Rightarrow> (w, convo, record_failure_entry
                        (simple_failure [] ''tool_call action missing tool_call field'') ls, Inr StateReflect)
            | Some tc \<Rightarrow> run_tool_call env w convo ls tc)
         else
           (w, convo, record_failure_entry
              (simple_failure ''unknown'' (''unknown next_action type '' @ te_quote env (na_type na))) ls,
            Inr StateReflect))"

definition execute_step ::
  "('w, 'x) thinking_env_scheme \<Rightarrow> 'w \<Rightarrow> conversation \<Rightarrow> loop_state \<Rightarrow> 'w step_result" where
  "execute_step env w convo ls =
     (if budget_exhausted ls then
        (w, convo, ls\<lparr>ls_final := ''Task terminated: tool-call budget exhausted without completion.''\<rparr>,
         Inr StateDone)
      else
        let looping = is_looping ls; near = budget_near_exhausted_no_progress ls;
            nudge = (looping \<and> ls_break_attempted ls = 0 \<and> \<not> has_tool_execution_failure ls \<and> \<not> near)
        in if \<not> nudge \<and> (looping \<or> near) then
             (w, convo, record_failure_entry \<lparr>fe_iteration = length (ls_thoughts ls),
                fe_tool = ''execute'', fe_args = [], fe_error = escalation_reason ls\<rparr> ls, Inr StateReflect)
           else
             let ls = (if nudge then ls\<lparr>ls_break_attempted := ls_break_attempted ls + 1\<rparr> else ls);
                 prompt = (if nudge then te_loop_nudge env
                           else if search_budget_exceeded ls then te_search_nudge env
                           else te_execute_prompt env)
             in case run_thought_step env w convo ls prompt ''execute'' of
                  (w, convo, ls, Inl e) \<Rightarrow> (w, convo, ls, Inl e)
                | (w, convo, ls, Inr th) \<Rightarrow> execute_action env w convo ls th)"

definition verify_step ::
  "'w \<Rightarrow> conversation \<Rightarrow> loop_state \<Rightarrow> 'w step_result" where
  "verify_step w convo ls =
     (if ls_thoughts ls = [] then (w, convo, ls, Inr StateDone)
      else if th_evidence (last (ls_thoughts ls)) \<noteq> [] then (w, convo, ls, Inr StateDone)
      else if ls_calls ls = 0 then (w, convo, ls, Inr StateDone)
      else if \<not> has_tool_execution_failure ls then (w, convo, ls, Inr StateDone)
      else (w, convo, record_failure_entry \<lparr>fe_iteration = length (ls_thoughts ls), fe_tool = ''verify'',
              fe_args = [],
              fe_error = ''claimed done without verification_evidence after tool failure''\<rparr> ls,
            Inr StateReflect))"

definition arrow :: string where
  "arrow = '' '' @ [CHR 0xE2, CHR 0x86, CHR 0x92] @ '' ''"

definition last_failure_summary :: "failure_entry list \<Rightarrow> string" where
  "last_failure_summary history =
     (if history = [] then ''none''
      else let l = last history
           in if fe_args l \<noteq> [] then fe_tool l @ ''('' @ fe_args l @ '')'' @ arrow @ fe_error l
              else fe_tool l @ arrow @ fe_error l)"

definition reflect_exhaustion_message :: "loop_state \<Rightarrow> string" where
  "reflect_exhaustion_message ls =
     ''Task terminated: thinking budget exhausted ('' @ itoa (ls_reflections ls) @ ''/'' @
     itoa (ls_max_reflections ls) @ '' reflections, '' @ itoa (ls_replans ls) @ ''/'' @
     itoa (ls_max_replans ls) @ '' replans). Last failure: '' @ last_failure_summary (ls_failures ls)"

definition reflect_action ::
  "('w, 'x) thinking_env_scheme \<Rightarrow> 'w \<Rightarrow> conversation \<Rightarrow> loop_state \<Rightarrow> thought \<Rightarrow> 'w step_result" where
  "reflect_action env w convo ls th =
     (let na = th_next th
      in if na_type na = ''replan'' then
           (if \<not> can_replan ls then
              (w, convo, ls\<lparr>ls_final := reflect_exhaustion_message ls\<rparr>, Inr StateDone)
            else
              (w, convo, ls\<lparr>ls_replans := ls_replans ls + 1,
                 ls_plan := (if th_plan th \<noteq> [] then cap_plan (th_plan th) else ls_plan ls)\<rparr>, Inr StatePlan))
         else if na_type na = ''tool_call'' then
           (case na_tool_call na of
              None \<Rightarrow> (w, convo, record_failure_entry
                 (simple_failure [] ''reflect: tool_call action missing tool_call field'') ls, Inr StateDone)
            | Some tc \<Rightarrow> run_tool_call env w convo ls tc)
         else if na_type na = ''final_answer'' then
           (w, convo, ls\<lparr>ls_final := na_final_answer na\<rparr>, Inr StateDone)
         else if can_replan ls then
           (w, convo, ls\<lparr>ls_replans := ls_replans ls + 1\<rparr>, Inr StatePlan)
         else (w, convo, ls\<lparr>ls_final := reflect_exhaustion_message ls\<rparr>, Inr StateDone))"

definition reflect_step ::
  "('w, 'x) thinking_env_scheme \<Rightarrow> 'w \<Rightarrow> conversation \<Rightarrow> loop_state \<Rightarrow> 'w step_result" where
  "reflect_step env w convo ls =
     (if \<not> can_reflect ls then
        (w, convo, ls\<lparr>ls_final := reflect_exhaustion_message ls\<rparr>, Inr StateDone)
      else
        case run_thought_step env w convo ls (te_reflect_prompt env (ls_failures ls)) ''reflect'' of
          (w, convo, ls, Inl e) \<Rightarrow> (w, convo, ls, Inl e)
        | (w, convo, ls, Inr th) \<Rightarrow>
            reflect_action env w convo (ls\<lparr>ls_reflections := ls_reflections ls + 1\<rparr>) th)"

definition thinking_step ::
  "('w, 'x) thinking_env_scheme \<Rightarrow> string \<Rightarrow> phase \<Rightarrow> 'w \<Rightarrow> conversation \<Rightarrow> loop_state
     \<Rightarrow> 'w step_result" where
  "thinking_step env task ph w convo ls =
     (case ph of
        StateAssess \<Rightarrow> assess_step env w convo ls task
      | StatePlan \<Rightarrow> plan_step env w convo ls task
      | StateExecute \<Rightarrow> execute_step env w convo ls
      | StateVerify \<Rightarrow> verify_step w convo ls
      | StateReflect \<Rightarrow> reflect_step env w convo ls
      | StateDone \<Rightarrow> (w, convo, ls, Inr StateDone))"

section \<open>The driver\<close>

definition new_loop_state :: "thinking_config \<Rightarrow> loop_state" where
  "new_loop_state c =
     \<lparr>ls_thoughts = [], ls_plan = [], ls_calls = 0,
      ls_budget = (if tk_budget c \<le> 0 then 25 else tk_budget c),
      ls_recent = [], ls_unique = [], ls_failures = [], ls_reflections = 0, ls_replans = 0,
      ls_max_reflections = (if tk_max_reflections c \<le> 0 then 3 else tk_max_reflections c),
      ls_max_replans = (if tk_max_replans c \<le> 0 then 2 else tk_max_replans c),
      ls_final = [], ls_break_attempted = 0, ls_searches = 0\<rparr>"

definition max_thought_transitions :: "thinking_config \<Rightarrow> int" where
  "max_thought_transitions c =
     (let n = tk_max_iterations c * (1 + tk_max_continuations c) in if n < 50 then 50 else n)"

definition is_parse_error :: "string \<Rightarrow> bool" where
  "is_parse_error e = contains_str e ''parse failed''"

definition max_parse_nudges :: nat where
  "max_parse_nudges = 2"

definition compact_guard :: "('w, 'x) thinking_env_scheme \<Rightarrow> conversation \<Rightarrow> conversation" where
  "compact_guard env convo =
     (if token_count convo > tk_max_context (te_config env)
      then smart_compact (tk_max_context (te_config env) div 2) convo else convo)"

text \<open>How the transition loop ended: at Done, with an error, or out of transitions.\<close>

datatype loop_end = LoopDone | LoopError string | LoopExhausted

fun transitions ::
  "('w, 'x) thinking_env_scheme \<Rightarrow> string \<Rightarrow> nat \<Rightarrow> phase \<Rightarrow> nat \<Rightarrow> bool \<Rightarrow> 'w \<Rightarrow> conversation
     \<Rightarrow> loop_state \<Rightarrow> 'w \<times> loop_state \<times> loop_end" where
  "transitions env task 0 ph nudges narrated w convo ls = (w, ls, LoopExhausted)"
| "transitions env task (Suc n) ph nudges narrated w convo0 ls =
     (let convo = compact_guard env convo0
      in case thinking_step env task ph w convo ls of
           (w, convo, ls, Inr next) \<Rightarrow>
             if next = StateDone then (w, ls, LoopDone)
             else transitions env task n next 0 narrated w convo ls
         | (w, convo, ls, Inl e) \<Rightarrow>
             if is_parse_error e \<and> nudges < max_parse_nudges then
               transitions env task n ph (nudges + 1) narrated w
                 (add_message RoleUser (te_json_reminder env) convo) ls
             else if is_parse_error e \<and> \<not> narrated then
               (case te_think env w (add_message RoleUser (te_narrative_prompt env) convo) of
                  (w', Inr content) \<Rightarrow>
                    if trim_space content \<noteq> [] then (w', ls\<lparr>ls_final := trim_space content\<rparr>, LoopDone)
                    else (w', ls, LoopError e)
                | (w', Inl e') \<Rightarrow> (w', ls, LoopError e))
             else (w, ls, LoopError e))"

definition initial_conversation ::
  "('w, 'x) thinking_env_scheme \<Rightarrow> string \<Rightarrow> conversation" where
  "initial_conversation env task =
     (let injected = te_inject env task;
          c = te_config env;
          sys = (if injected \<noteq> [] then injected @ nl @ nl else []) @ te_base_prompt env;
          sys = (if tk_few_shot c then sys @ nl @ nl @ te_few_shot env else sys);
          sys = (if tk_system_prompt c \<noteq> [] then sys @ nl @ nl @ tk_system_prompt c else sys)
      in add_message RoleUser task (add_message RoleSystem sys []))"

record thinking_result =
  tr_text :: string
  tr_calls :: int
  tr_thoughts :: nat
  tr_error :: "string option"

definition execute_with_thinking ::
  "('w, 'x) thinking_env_scheme \<Rightarrow> 'w \<Rightarrow> string \<Rightarrow> 'w \<times> thinking_result" where
  "execute_with_thinking env w task =
     (let n = max_thought_transitions (te_config env);
          (w', ls, how) = transitions env task (nat n) StateAssess 0 False w
            (initial_conversation env task) (new_loop_state (te_config env));
          err = (case how of LoopError e \<Rightarrow> Some e | _ \<Rightarrow> None);
          final = (if ls_final ls = [] \<and> err = None
                   then ''Task ended: thinking loop exhausted after '' @ itoa n @ '' transitions ('' @
                     itoa (ls_calls ls) @ '' tool calls, '' @ itoa (int (length (ls_thoughts ls))) @ '' thoughts).''
                   else ls_final ls)
      in (w', \<lparr>tr_text = sanitize_content final, tr_calls = ls_calls ls,
               tr_thoughts = length (ls_thoughts ls), tr_error = err\<rparr>))"

section \<open>The window of recent calls\<close>

lemma push_recent_window: "push_recent rs h = last_n 4 (rs @ [h])"
  by (simp add: push_recent_def last_n_def Let_def)

interpretation recent_calls: window_buffer push_recent "\<lambda>rs. rs" 4
  by unfold_locales (rule push_recent_window)

definition record_calls ::
  "('w, 'x) thinking_env_scheme \<Rightarrow> (string \<times> string) list \<Rightarrow> loop_state \<Rightarrow> loop_state" where
  "record_calls env calls ls = foldl (\<lambda>ls (name, args). record_tool_call env name args ls) ls calls"

lemma record_calls_recent:
  "ls_recent (record_calls env calls ls) =
     foldl push_recent (ls_recent ls) (map (\<lambda>(name, args). hash_tool_call env name args) calls)"
  by (induction calls arbitrary: ls) (auto simp: record_calls_def record_tool_call_def Let_def)

section \<open>Invariant and potential\<close>

definition caps_inv :: "loop_state \<Rightarrow> bool" where
  "caps_inv ls \<longleftrightarrow> 0 \<le> ls_reflections ls \<and> ls_reflections ls \<le> ls_max_reflections ls \<and>
     0 \<le> ls_replans ls \<and> ls_replans ls \<le> ls_max_replans ls \<and>
     ls_calls ls \<le> ls_budget ls + ls_reflections ls"

definition same_caps :: "loop_state \<Rightarrow> loop_state \<Rightarrow> bool" where
  "same_caps ls ls' \<longleftrightarrow> ls_budget ls' = ls_budget ls \<and>
     ls_max_reflections ls' = ls_max_reflections ls \<and> ls_max_replans ls' = ls_max_replans ls"

fun phase_rank :: "phase \<Rightarrow> int" where
  "phase_rank StateAssess = 4"
| "phase_rank StatePlan = 3"
| "phase_rank StateExecute = 2"
| "phase_rank StateVerify = 1"
| "phase_rank StateReflect = 0"
| "phase_rank StateDone = 0"

text \<open>What is left to do: each reflection is worth more than a whole pass through the other phases.\<close>

definition potential :: "phase \<Rightarrow> loop_state \<Rightarrow> int" where
  "potential ph ls = 4 * (ls_max_reflections ls - ls_reflections ls) +
     max 0 (ls_budget ls - ls_calls ls) + phase_rank ph"

lemma run_thought_step_ls:
  "run_thought_step env w convo ls p l = (w', convo', ls', r) \<Longrightarrow> \<exists>ths. ls' = ls\<lparr>ls_thoughts := ths\<rparr>"
proof -
  assume r: "run_thought_step env w convo ls p l = (w', convo', ls', r)"
  have "ls' = ls\<lparr>ls_thoughts := ls_thoughts ls\<rparr> \<or> (\<exists>th. ls' = ls\<lparr>ls_thoughts := ls_thoughts ls @ [th]\<rparr>)"
    using r by (auto simp: run_thought_step_def Let_def split: prod.splits sum.splits)
  then show ?thesis by blast
qed

text \<open>A progress claim about one step: the invariant, the limits, and a smaller potential unless the next
  phase is Done.\<close>

definition good_move :: "phase \<Rightarrow> loop_state \<Rightarrow> phase \<Rightarrow> loop_state \<Rightarrow> bool" where
  "good_move ph ls next ls' \<longleftrightarrow> caps_inv ls' \<and> same_caps ls ls' \<and>
     (next = StateDone \<or> potential next ls' < potential ph ls)"

lemmas move_defs = good_move_def caps_inv_def same_caps_def potential_def

lemma run_tool_call_good:
  assumes "run_tool_call env w convo ls tc = (w', convo', ls', Inr next)"
    and "ph = StateExecute \<and> ls_calls ls < ls_budget ls \<and> caps_inv ls \<and> ls0 = ls \<or>
         ph = StateReflect \<and> caps_inv ls0 \<and> ls_reflections ls0 < ls_max_reflections ls0 \<and>
         (\<exists>ths. ls = ls0\<lparr>ls_thoughts := ths, ls_reflections := ls_reflections ls0 + 1\<rparr>)"
  shows "good_move ph ls0 next ls'"
  using assms
  by (auto simp: run_tool_call_def record_tool_call_def record_failure_entry_def move_defs Let_def
      split: prod.splits sum.splits)

lemma run_tool_call_total: "\<exists>w' convo' ls' next. run_tool_call env w convo ls tc = (w', convo', ls', Inr next)"
  by (auto simp: run_tool_call_def Let_def split: prod.splits sum.splits)

lemma execute_action_good:
  assumes "execute_action env w convo ls th = (w', convo', ls', Inr next)"
    and "ls_calls ls < ls_budget ls" "caps_inv ls"
  shows "good_move StateExecute ls next ls'"
proof (cases "na_type (th_next th) = ''tool_call'' \<and> na_tool_call (th_next th) \<noteq> None")
  case True
  then obtain tc where "na_tool_call (th_next th) = Some tc" by auto
  with assms(1) True have "run_tool_call env w convo ls tc = (w', convo', ls', Inr next)"
    by (simp add: execute_action_def Let_def)
  then show ?thesis using assms(2,3) by (auto intro: run_tool_call_good)
next
  case False
  with assms show ?thesis
    by (auto simp: execute_action_def record_failure_entry_def move_defs Let_def
        split: if_splits option.splits)
qed

lemma good_move_thoughts:
  "good_move ph (ls\<lparr>ls_thoughts := ths\<rparr>) next ls' \<longleftrightarrow> good_move ph ls next ls'"
  "good_move ph (ls\<lparr>ls_break_attempted := k\<rparr>) next ls' \<longleftrightarrow> good_move ph ls next ls'"
  "caps_inv (ls\<lparr>ls_thoughts := ths\<rparr>) \<longleftrightarrow> caps_inv ls"
  "caps_inv (ls\<lparr>ls_break_attempted := k\<rparr>) \<longleftrightarrow> caps_inv ls"
  by (simp_all add: move_defs)

lemma execute_step_good:
  assumes "execute_step env w convo ls = (w', convo', ls', Inr next)" "caps_inv ls"
  shows "good_move StateExecute ls next ls'"
proof (cases "budget_exhausted ls")
  case True
  with assms show ?thesis by (auto simp: execute_step_def move_defs)
next
  case False
  then have lt: "ls_calls ls < ls_budget ls" by (simp add: budget_exhausted_def)
  let ?near = "budget_near_exhausted_no_progress ls"
  let ?nudge = "is_looping ls \<and> ls_break_attempted ls = 0 \<and> \<not> has_tool_execution_failure ls \<and> \<not> ?near"
  show ?thesis
  proof (cases "\<not> ?nudge \<and> (is_looping ls \<or> ?near)")
    case True
    with False assms show ?thesis
      by (auto simp: execute_step_def Let_def record_failure_entry_def move_defs)
  next
    case go: False
    define ls1 where "ls1 = (if ?nudge then ls\<lparr>ls_break_attempted := ls_break_attempted ls + 1\<rparr> else ls)"
    define prompt where "prompt = (if ?nudge then te_loop_nudge env
        else if search_budget_exceeded ls1 then te_search_nudge env else te_execute_prompt env)"
    obtain w1 c1 ls2 r where t: "run_thought_step env w convo ls1 prompt ''execute'' = (w1, c1, ls2, r)"
      using prod_cases4 by blast
    have e: "execute_step env w convo ls = (case (w1, c1, ls2, r) of
        (w, convo, ls, Inl e) \<Rightarrow> (w, convo, ls, Inl e)
      | (w, convo, ls, Inr th) \<Rightarrow> execute_action env w convo ls th)"
      using False go unfolding execute_step_def t [symmetric] prompt_def ls1_def
      by (simp only: Let_def if_False)
    obtain ths where ls2: "ls2 = ls1\<lparr>ls_thoughts := ths\<rparr>" using run_thought_step_ls [OF t] by blast
    obtain th where r: "r = Inr th" using e assms(1) by (cases r) auto
    have "execute_action env w1 c1 ls2 th = (w', convo', ls', Inr next)"
      using e assms(1) r by simp
    moreover have "ls_calls ls2 < ls_budget ls2" "caps_inv ls2"
      using lt assms(2) by (auto simp: ls2 ls1_def good_move_thoughts)
    ultimately have "good_move StateExecute ls2 next ls'" by (rule execute_action_good)
    then show ?thesis by (auto simp: ls2 ls1_def good_move_thoughts split: if_splits)
  qed
qed

lemma reflect_step_good:
  assumes "reflect_step env w convo ls = (w', convo', ls', Inr next)" "caps_inv ls"
  shows "good_move StateReflect ls next ls'"
proof (cases "can_reflect ls")
  case False
  with assms show ?thesis by (auto simp: reflect_step_def move_defs)
next
  case True
  obtain w1 c1 ls1 r where t: "run_thought_step env w convo ls
      (te_reflect_prompt env (ls_failures ls)) ''reflect'' = (w1, c1, ls1, r)" using prod_cases4 by blast
  obtain ths where ls1: "ls1 = ls\<lparr>ls_thoughts := ths\<rparr>" using run_thought_step_ls [OF t] by blast
  obtain th where r: "r = Inr th" using assms(1) t True by (cases r) (auto simp: reflect_step_def)
  define ls2 where "ls2 = ls\<lparr>ls_thoughts := ths, ls_reflections := ls_reflections ls + 1\<rparr>"
  have a: "reflect_action env w1 c1 ls2 th = (w', convo', ls', Inr next)"
    using assms(1) t True r ls1 by (simp add: reflect_step_def ls2_def)
  show ?thesis
  proof (cases "na_type (th_next th) = ''tool_call'' \<and> na_tool_call (th_next th) \<noteq> None")
    case tool: True
    then obtain tc where "na_tool_call (th_next th) = Some tc" by auto
    with a tool have "run_tool_call env w1 c1 ls2 tc = (w', convo', ls', Inr next)"
      by (simp add: reflect_action_def Let_def)
    then show ?thesis
      by (rule run_tool_call_good) (use assms(2) True in \<open>auto simp: ls2_def can_reflect_def\<close>)
  next
    case False
    with a assms(2) True show ?thesis
      by (auto simp: reflect_action_def ls2_def record_failure_entry_def can_reflect_def can_replan_def
          move_defs Let_def split: if_splits option.splits)
  qed
qed

lemma thinking_step_good:
  assumes "thinking_step env task ph w convo ls = (w', convo', ls', Inr next)" "caps_inv ls" "ph \<noteq> StateDone"
  shows "good_move ph ls next ls'"
proof (cases ph)
  case StateAssess
  with assms(1,2) show ?thesis
    by (auto simp: thinking_step_def assess_step_def move_defs Let_def
        split: prod.splits sum.splits if_splits dest!: run_thought_step_ls)
next
  case StatePlan
  with assms(1,2) show ?thesis
    by (auto simp: thinking_step_def plan_step_def move_defs
        split: prod.splits sum.splits dest!: run_thought_step_ls)
next
  case StateVerify
  with assms(1,2) show ?thesis
    by (auto simp: thinking_step_def verify_step_def record_failure_entry_def move_defs split: if_splits)
next
  case StateExecute
  with assms(1,2) show ?thesis by (auto simp: thinking_step_def intro: execute_step_good)
next
  case StateReflect
  with assms(1,2) show ?thesis by (auto simp: thinking_step_def intro: reflect_step_good)
qed (use assms(3) in simp)

lemma run_tool_call_not_Inl: "run_tool_call env w convo ls tc \<noteq> (w', convo', ls', Inl e)"
  using run_tool_call_total [of env w convo ls tc] by auto

lemma execute_action_not_Inl: "execute_action env w convo ls th \<noteq> (w', convo', ls', Inl e)"
  by (auto simp: execute_action_def Let_def run_tool_call_not_Inl split: if_splits option.splits)

lemma reflect_action_not_Inl: "reflect_action env w convo ls th \<noteq> (w', convo', ls', Inl e)"
  by (auto simp: reflect_action_def Let_def run_tool_call_not_Inl split: if_splits option.splits)

text \<open>A failed step leaves all counters alone.\<close>

lemma thinking_step_error:
  assumes "thinking_step env task ph w convo ls = (w', convo', ls', Inl e)" "caps_inv ls"
  shows "caps_inv ls' \<and> same_caps ls ls'"
proof (cases ph)
  case StateAssess
  with assms show ?thesis
    by (auto simp: thinking_step_def assess_step_def same_caps_def good_move_thoughts Let_def
        split: prod.splits sum.splits if_splits dest!: run_thought_step_ls)
next
  case StatePlan
  with assms show ?thesis
    by (auto simp: thinking_step_def plan_step_def same_caps_def good_move_thoughts
        split: prod.splits sum.splits dest!: run_thought_step_ls)
next
  case StateExecute
  with assms show ?thesis
    by (auto simp: thinking_step_def execute_step_def same_caps_def good_move_thoughts Let_def
        execute_action_not_Inl split: prod.splits sum.splits if_splits dest!: run_thought_step_ls)
next
  case StateVerify
  with assms show ?thesis by (auto simp: thinking_step_def verify_step_def split: if_splits)
next
  case StateReflect
  with assms show ?thesis
    by (auto simp: thinking_step_def reflect_step_def same_caps_def good_move_thoughts
        reflect_action_not_Inl split: prod.splits sum.splits if_splits dest!: run_thought_step_ls)
qed (use assms in \<open>simp add: thinking_step_def\<close>)

lemma same_caps_trans: "same_caps a b \<Longrightarrow> same_caps b c \<Longrightarrow> same_caps a c"
  by (simp add: same_caps_def)

lemma caps_inv_final [simp]:
  "caps_inv (ls\<lparr>ls_final := f\<rparr>) \<longleftrightarrow> caps_inv ls" "same_caps ls0 (ls\<lparr>ls_final := f\<rparr>) \<longleftrightarrow> same_caps ls0 ls"
  by (simp_all add: caps_inv_def same_caps_def)

lemma transitions_caps:
  assumes "caps_inv ls" "ph \<noteq> StateDone"
    and "transitions env task n ph nudges narrated w convo ls = (w', ls', how)"
  shows "caps_inv ls' \<and> same_caps ls ls'"
  using assms
proof (induction n arbitrary: ph nudges narrated w convo ls)
  case 0
  then show ?case by (simp add: same_caps_def)
next
  case (Suc n)
  obtain w1 c1 ls1 r where
    s: "thinking_step env task ph w (compact_guard env convo) ls = (w1, c1, ls1, r)"
    using prod_cases4 by blast
  show ?case
  proof (cases r)
    case (Inr nxt)
    with s Suc.prems have g: "good_move ph ls nxt ls1" by (auto intro: thinking_step_good)
    then have c: "caps_inv ls1" "same_caps ls ls1" by (simp_all add: good_move_def)
    show ?thesis
    proof (cases "nxt = StateDone")
      case False
      with Suc.prems(3) s Inr have "transitions env task n nxt 0 narrated w1 c1 ls1 = (w', ls', how)"
        by (simp add: Let_def)
      with Suc.IH [OF c(1) False this] c(2) show ?thesis by (auto intro: same_caps_trans)
    qed (use Suc.prems(3) s Inr c in \<open>simp add: Let_def\<close>)
  next
    case (Inl e)
    with s Suc.prems have c: "caps_inv ls1" "same_caps ls ls1" by (auto dest: thinking_step_error)
    show ?thesis
    proof (cases "is_parse_error e \<and> nudges < max_parse_nudges")
      case True
      with Suc.prems(3) s Inl have "transitions env task n ph (nudges + 1) narrated w1
          (add_message RoleUser (te_json_reminder env) c1) ls1 = (w', ls', how)" by (simp add: Let_def)
      with Suc.IH [OF c(1) Suc.prems(2) this] c(2) show ?thesis by (auto intro: same_caps_trans)
    next
      case False
      with Suc.prems(3) s Inl c show ?thesis
        by (auto simp: Let_def split: if_splits prod.splits sum.splits)
    qed
  qed
qed

text \<open>A model that always answers with a thought the parser can read.\<close>

definition cooperative :: "('w, 'x) thinking_env_scheme \<Rightarrow> bool" where
  "cooperative env \<longleftrightarrow> (\<forall>w convo. case snd (te_think env w convo) of
     Inl e \<Rightarrow> False
   | Inr content \<Rightarrow> (case parse_thought env content of Inl e \<Rightarrow> False | Inr th \<Rightarrow> True))"

lemma cooperative_thought:
  assumes "cooperative env"
  shows "run_thought_step env w convo ls p l \<noteq> (w', convo', ls', Inl e)"
proof -
  obtain w1 reply where k: "te_think env w (add_message RoleUser p convo) = (w1, reply)" by fastforce
  from assms have "case snd (te_think env w (add_message RoleUser p convo)) of
     Inl e \<Rightarrow> False
   | Inr content \<Rightarrow> (case parse_thought env content of Inl e \<Rightarrow> False | Inr th \<Rightarrow> True)"
    unfolding cooperative_def by blast
  then obtain content th where "reply = Inr content" "parse_thought env content = Inr th"
    using k by (auto split: sum.splits)
  with k show ?thesis by (simp add: run_thought_step_def Let_def)
qed

lemma cooperative_step:
  assumes "cooperative env"
  shows "thinking_step env task ph w convo ls \<noteq> (w', convo', ls', Inl e)"
  by (cases ph)
    (auto simp: thinking_step_def assess_step_def plan_step_def execute_step_def verify_step_def
      reflect_step_def Let_def execute_action_not_Inl reflect_action_not_Inl
      cooperative_thought [OF assms] split: prod.splits sum.splits)

lemma potential_nonneg: "caps_inv ls \<Longrightarrow> 0 \<le> potential ph ls"
  by (cases ph) (auto simp: caps_inv_def potential_def)

lemma transitions_done:
  assumes "cooperative env" "caps_inv ls" "ph \<noteq> StateDone" "potential ph ls < int n"
  shows "snd (snd (transitions env task n ph nudges narrated w convo ls)) = LoopDone"
  using assms
proof (induction n arbitrary: ph nudges narrated w convo ls)
  case 0
  then show ?case using potential_nonneg [of ls ph] by simp
next
  case (Suc n)
  obtain w1 c1 ls1 r where
    s: "thinking_step env task ph w (compact_guard env convo) ls = (w1, c1, ls1, r)"
    using prod_cases4 by blast
  obtain nxt where r: "r = Inr nxt"
    using s cooperative_step [OF Suc.prems(1), of task ph w "compact_guard env convo" ls w1 c1 ls1]
    by (cases r) auto
  have g: "good_move ph ls nxt ls1"
    using s r Suc.prems(2,3) by (auto intro: thinking_step_good)
  show ?case
  proof (cases "nxt = StateDone")
    case True
    with s r show ?thesis by (simp add: Let_def)
  next
    case False
    with g Suc.prems(4) have "caps_inv ls1" "potential nxt ls1 < int n" by (auto simp: good_move_def)
    with Suc.IH [OF Suc.prems(1) _ False] s r False show ?thesis by (simp add: Let_def)
  qed
qed

lemma new_loop_state_caps: "caps_inv (new_loop_state c)"
  by (simp add: caps_inv_def new_loop_state_def)

section \<open>Properties\<close>


definition default_thinking_config :: thinking_config where
  "default_thinking_config = \<lparr>tk_budget = 15, tk_max_reflections = 3, tk_max_replans = 2,
     tk_threshold = 7 / 10, tk_few_shot = True, tk_system_prompt = ''sys'', tk_max_iterations = 20,
     tk_max_continuations = 1, tk_max_context = 8000\<rparr>"

text \<open>A model that always proposes the same tool call, and a tool that always fails.\<close>

definition stubborn_call :: tool_call where
  "stubborn_call = \<lparr>tc_id = ''1'', tc_name = ''terminal'', tc_arguments = ''ls''\<rparr>"

definition stubborn_thought :: thought where
  "stubborn_thought = empty_thought\<lparr>th_next := \<lparr>na_type = ''tool_call'',
     na_tool_call = Some stubborn_call, na_final_answer = [], na_question = []\<rparr>\<rparr>"

definition stubborn_env :: "unit thinking_env" where
  "stubborn_env = \<lparr>te_think = (\<lambda>w c. (w, Inr ''x'')), te_act = (\<lambda>w tc. (w, Inl ''no'')),
     te_thought = (\<lambda>t. Some stubborn_thought), te_action = (\<lambda>t. None), te_operation = (\<lambda>t. None),
     te_canonical = (\<lambda>t. t), te_digest = (\<lambda>t. t), te_quote = (\<lambda>t. t), te_inject = (\<lambda>t. []),
     te_assess_prompt = (\<lambda>t. t), te_plan_prompt = (\<lambda>t. t), te_reflect_prompt = (\<lambda>fs. ''reflect''),
     te_execute_prompt = ''act'', te_loop_nudge = ''stop'', te_search_nudge = ''read'',
     te_json_reminder = ''json'', te_narrative_prompt = ''tell'', te_base_prompt = ''base'',
     te_few_shot = ''shots'', te_config = default_thinking_config\<rparr>"

lemma trim_space_x: "trim_space ''x'' = ''x''"
  by (simp add: trim_space_def trim_right_def is_space_def byte_def)

lemma parse_stubborn: "parse_thought stubborn_env ''x'' = Inr stubborn_thought"
  by (simp add: parse_thought_def trim_space_x strip_code_fences_plain fence_def stubborn_env_def)

lemma cooperative_stubborn: "cooperative stubborn_env"
  using parse_stubborn by (simp add: cooperative_def, simp add: stubborn_env_def)


text \<open>
  C4: the caps hold in every run, also with parse errors, failing tools and the narrative fallback: at
  most \<open>maxReflections\<close> reflections, at most \<open>maxReplans\<close> replans, and at most \<open>toolBudget\<close> plus
  \<open>maxReflections\<close> tool calls.
\<close>

theorem thinking_caps_hold:
  assumes "transitions env task n StateAssess 0 False w convo (new_loop_state c) = (w', ls, how)"
  shows "ls_reflections ls \<le> ls_max_reflections (new_loop_state c) \<and>
    ls_replans ls \<le> ls_max_replans (new_loop_state c) \<and>
    ls_calls ls \<le> ls_budget (new_loop_state c) + ls_max_reflections (new_loop_state c)"
  using transitions_caps [OF new_loop_state_caps _ assms] by (auto simp: caps_inv_def same_caps_def)

definition stubborn_run :: "unit \<times> loop_state \<times> loop_end" where
  "stubborn_run = transitions stubborn_env ''t'' 50 StateAssess 0 False () []
     (new_loop_state default_thinking_config)"

theorem thinking_caps_hold_witness:
  "ls_reflections (fst (snd stubborn_run)) \<le> 3 \<and> ls_calls (fst (snd stubborn_run)) \<le> 15 + 3"
proof -
  have "transitions stubborn_env ''t'' 50 StateAssess 0 False () [] (new_loop_state default_thinking_config)
      = (fst stubborn_run, fst (snd stubborn_run), snd (snd stubborn_run))"
    by (simp only: stubborn_run_def prod.collapse)
  from thinking_caps_hold [OF this] show ?thesis
    by (simp add: new_loop_state_def default_thinking_config_def)
qed

text \<open>
  The tool budget itself is not a bound. In Reflect a proposed tool call is executed without looking
  at the budget, so a loop whose budget is used up makes one more call for every reflection it has left.
\<close>

lemma reflect_exceeds_tool_budget:
  assumes "can_reflect ls"
    and "te_think env w (add_message RoleUser (te_reflect_prompt env (ls_failures ls)) convo) = (w1, Inr content)"
    and "parse_thought env content = Inr th"
    and "na_type (th_next th) = ''tool_call''" "na_tool_call (th_next th) = Some tc"
  shows "\<exists>w' convo' ls' next. reflect_step env w convo ls = (w', convo', ls', Inr next) \<and>
    ls_calls ls' = ls_calls ls + 1 \<and> w' = fst (te_act env w1 tc)"
  using assms
  by (auto simp: reflect_step_def run_thought_step_def reflect_action_def run_tool_call_def
      record_tool_call_def record_failure_entry_def Let_def split: prod.splits sum.splits)

lemma reflect_exceeds_tool_budget_witness:
  "\<exists>w' convo' ls' next. reflect_step stubborn_env () []
       ((new_loop_state default_thinking_config)\<lparr>ls_calls := 15\<rparr>) = (w', convo', ls', Inr next) \<and>
    ls_calls ls' = 15 + 1 \<and> ls_budget (new_loop_state default_thinking_config) = 15"
  using reflect_exceeds_tool_budget [of "(new_loop_state default_thinking_config)\<lparr>ls_calls := 15\<rparr>"
      stubborn_env "()" "[]" "()" "''x''" stubborn_thought stubborn_call] parse_stubborn
  by (auto simp: can_reflect_def new_loop_state_def default_thinking_config_def stubborn_env_def
      stubborn_thought_def)

text \<open>
  Loop detection counts as a tool failure. When Execute escalates to Reflect because of a repeated
  call, it records a failure of the tool \<open>execute\<close>, which \<open>hasToolExecutionFailure\<close> does not exclude. From
  then on Verify sends every final answer without evidence back to Reflect, although no tool has failed.
\<close>

lemma loop_escalation_blocks_verify:
  assumes "\<not> budget_exhausted ls" "is_looping ls" "0 < ls_break_attempted ls"
  shows "\<exists>ls'. execute_step env w convo ls = (w, convo, ls', Inr StateReflect) \<and>
    (\<forall>ls2. ls_failures ls2 = ls_failures ls' \<and> ls_calls ls2 \<noteq> 0 \<and> ls_thoughts ls2 \<noteq> [] \<and>
       th_evidence (last (ls_thoughts ls2)) = [] \<longrightarrow>
       (\<exists>ls3. verify_step w2 convo2 ls2 = (w2, convo2, ls3, Inr StateReflect)))"
  using assms
  by (auto simp: execute_step_def verify_step_def record_failure_entry_def has_tool_execution_failure_def
      Let_def)

definition looping_state :: loop_state where
  "looping_state = (new_loop_state default_thinking_config)
     \<lparr>ls_calls := 2, ls_recent := [''h'', ''h''], ls_break_attempted := 1\<rparr>"

lemma loop_escalation_blocks_verify_witness:
  "\<exists>ls'. execute_step stubborn_env () [] looping_state = ((), [], ls', Inr StateReflect)"
  using loop_escalation_blocks_verify [of looping_state stubborn_env "()" "[]" "()" "[]"]
  by (auto simp: looping_state_def new_loop_state_def default_thinking_config_def budget_exhausted_def
      is_looping_def)

text \<open>
  What loop detection sees. After any sequence of tool calls the loop detector fires exactly when two
  of the last four calls have the same hash of tool name and normalised arguments.
\<close>

lemma looping_iff_repeat_in_last_four:
  "is_looping (record_calls env calls (new_loop_state c)) \<longleftrightarrow>
     \<not> distinct (last_n 4 (map (\<lambda>(name, args). hash_tool_call env name args) calls))"
  using recent_calls.items_run [of "[]"]
  by (simp add: is_looping_def record_calls_recent new_loop_state_def)

end
