(* ===== verification/Tool_Approval.thy ===== *)
theory Tool_Approval
  imports Kyoci_Types
begin

text \<open>
  The approval of tool calls in the chat gateway: the severity of a call
  (\<open>internal/gateway/approval.go\<close>), the per-chat state (\<open>internal/gateway/store.go\<close>) and the request that
  waits for the operator's button (\<open>requestApproval\<close>, \<open>handleCallbackQuery\<close> and the approval callback of
  \<open>internal/gateway/telegram.go\<close>). Decoding the JSON arguments of a call is a parameter: \<open>args_of json key\<close>
  is the string stored under \<open>key\<close>, \<open>None\<close> when the text is no object or the value no string. The messages
  shown in the chat are left out; whether sending the request succeeds is an input.
\<close>

section \<open>Severity of a tool call\<close>

datatype severity = SevLow | SevMedium | SevCritical

fun severity_rank :: "severity \<Rightarrow> nat" where
  "severity_rank SevLow = 0"
| "severity_rank SevMedium = 1"
| "severity_rank SevCritical = 2"

lemma severity_rank_inject: "severity_rank s = severity_rank t \<longleftrightarrow> s = t"
  by (cases s; cases t) simp_all

instantiation severity :: linorder
begin

definition less_eq_severity :: "severity \<Rightarrow> severity \<Rightarrow> bool" where
  "less_eq_severity s t = (severity_rank s \<le> severity_rank t)"

definition less_severity :: "severity \<Rightarrow> severity \<Rightarrow> bool" where
  "less_severity s t = (severity_rank s < severity_rank t)"

instance
  by standard (auto simp: less_eq_severity_def less_severity_def severity_rank_inject)

end

definition critical_patterns :: "string list" where
  "critical_patterns =
     [''rm -rf'', ''rm -fr'', ''rmdir'', ''kill -9'', ''killall'', ''pkill'', ''shutdown'', ''reboot'', ''halt'',
      ''mkfs'', ''dd if='', ''> /dev/sd'', ''chmod 777'', ''chown -R'', ''git push --force'', ''git push -f '',
      ''git reset --hard'', ''git clean -fd'', ''docker rm'', ''docker rmi'', ''docker system prune'',
      ''docker volume rm'', ''docker network rm'', ''kubectl delete'', ''kubectl drain'', ''sudo '',
      ''drop table'', ''drop database'', ''truncate '', ''shred '', ''iptables -F'', ''ufw disable'',
      ''systemctl stop'', ''systemctl disable'', ''launchctl unload'']"

definition safe_commands :: "string list" where
  "safe_commands =
     [''ls'', ''cat'', ''head'', ''tail'', ''less'', ''pwd'', ''echo'', ''whoami'', ''id'', ''date'', ''uptime'', ''uname'',
      ''hostname'', ''df'', ''du'', ''free'', ''vm_stat'', ''ps'', ''top'', ''htop'', ''grep'', ''rg'', ''find'', ''fd'',
      ''wc'', ''sort'', ''uniq'', ''cut'', ''tr'', ''diff'', ''file'', ''stat'', ''touch'',
      ''git'', ''npm'', ''npx'', ''node'', ''python3'', ''python'', ''pip'', ''uv'', ''go'', ''cargo'',
      ''rustc'', ''java'', ''mvn'', ''gradle'', ''make'', ''cmake'', ''docker'', ''docker-compose'',
      ''curl'', ''wget'', ''ping'', ''dig'', ''nslookup'', ''netstat'', ''ss'', ''lsof'', ''ifconfig'',
      ''which'', ''whereis'', ''type'', ''env'', ''printenv'', ''mdfind'', ''mdls'', ''sw_vers'', ''sysctl'',
      ''sed'', ''awk'', ''jq'', ''yq'', ''tee'', ''xargs'', ''tar'', ''unzip'', ''gzip'']"

definition base_command :: "string \<Rightarrow> string" where
  "base_command w =
     (case str_last_index_char w (CHR ''/'') of None \<Rightarrow> w | Some i \<Rightarrow> drop (i + 1) w)"

definition safe_base_severity :: "string \<Rightarrow> string \<Rightarrow> severity" where
  "safe_base_severity base lower =
     (if base = ''git'' \<and> (contains_str lower ''push --force'' \<or> contains_str lower ''reset --hard'')
      then SevCritical
      else if base = ''docker'' \<and>
          (contains_str lower ''rm '' \<or> contains_str lower ''rmi '' \<or> contains_str lower ''prune'')
      then SevCritical
      else if base = ''curl'' \<and>
          (contains_str lower ''-x post'' \<or> contains_str lower ''-x put'' \<or> contains_str lower ''-x delete'' \<or>
           contains_str lower ''--request post'' \<or> contains_str lower ''--request delete'')
      then SevMedium
      else SevLow)"

definition assess_command_severity :: "string \<Rightarrow> severity" where
  "assess_command_severity cmd0 =
     (let cmd = trim_space cmd0 in
      if cmd = [] then SevLow
      else
        let lower = to_lower cmd in
        if list_ex (contains_str lower) critical_patterns then SevCritical
        else
          (case str_fields cmd of
             [] \<Rightarrow> SevLow
           | w # _ \<Rightarrow>
               let base = base_command w in
               if base \<in> set safe_commands then safe_base_severity base lower else SevMedium))"

definition is_safe_command :: "string \<Rightarrow> bool" where
  "is_safe_command cmd = (assess_command_severity cmd = SevLow)"

type_synonym json_args = "string \<Rightarrow> string \<Rightarrow> string option"

definition string_arg :: "json_args \<Rightarrow> string \<Rightarrow> string \<Rightarrow> string" where
  "string_arg args_of json key = (case args_of json key of None \<Rightarrow> [] | Some v \<Rightarrow> v)"

definition file_action_severity :: "string \<Rightarrow> severity" where
  "file_action_severity action =
     (if action \<in> {''read'', ''list'', ''search''} then SevLow
      else if action \<in> {''write'', ''mkdir''} then SevMedium
      else if action = ''delete'' then SevCritical
      else SevMedium)"

definition assess_severity :: "json_args \<Rightarrow> string \<Rightarrow> string \<Rightarrow> severity" where
  "assess_severity args_of tool json =
     (if tool = ''terminal'' then assess_command_severity (string_arg args_of json ''command'')
      else if tool = ''file'' then file_action_severity (string_arg args_of json ''action'')
      else if tool = ''security_scan'' then SevLow
      else if tool = ''delegation'' then SevMedium
      else SevLow)"

section \<open>Per-chat state\<close>

record conv_turn =
  ct_user :: string
  ct_assistant :: string

record chat_store =
  chat_roles :: "int \<rightharpoonup> string"
  chat_history :: "int \<rightharpoonup> conv_turn list"
  last_msg :: "int \<rightharpoonup> int"
  trusted_chats :: "int set"
  session_whitelist :: "int \<rightharpoonup> string set"

definition new_chat_store :: chat_store where
  "new_chat_store =
     \<lparr>chat_roles = Map.empty, chat_history = Map.empty, last_msg = Map.empty, trusted_chats = {},
      session_whitelist = Map.empty\<rparr>"

definition get_chat_role :: "chat_store \<Rightarrow> int \<Rightarrow> string" where
  "get_chat_role s chat = (case chat_roles s chat of None \<Rightarrow> [] | Some r \<Rightarrow> r)"

definition set_chat_role :: "int \<Rightarrow> string \<Rightarrow> chat_store \<Rightarrow> chat_store" where
  "set_chat_role chat role s = s\<lparr>chat_roles := (chat_roles s)(chat \<mapsto> role)\<rparr>"

definition max_history_turns :: nat where
  "max_history_turns = 4"

definition history_of :: "int \<Rightarrow> chat_store \<Rightarrow> conv_turn list" where
  "history_of chat s = (case chat_history s chat of None \<Rightarrow> [] | Some h \<Rightarrow> h)"

definition conv_turn_of :: "string \<Rightarrow> string \<Rightarrow> conv_turn" where
  "conv_turn_of user assistant = \<lparr>ct_user = user, ct_assistant = truncate_str assistant 500\<rparr>"

definition push_turn :: "int \<Rightarrow> chat_store \<Rightarrow> conv_turn \<Rightarrow> chat_store" where
  "push_turn chat s t =
     (let h = history_of chat s @ [t];
          kept = (if length h > max_history_turns then drop (length h - max_history_turns) h else h)
      in s\<lparr>chat_history := (chat_history s)(chat \<mapsto> kept)\<rparr>)"

definition add_history :: "int \<Rightarrow> string \<Rightarrow> string \<Rightarrow> chat_store \<Rightarrow> chat_store" where
  "add_history chat user assistant s = push_turn chat s (conv_turn_of user assistant)"

definition clear_history :: "int \<Rightarrow> chat_store \<Rightarrow> chat_store" where
  "clear_history chat s = s\<lparr>chat_history := (chat_history s)(chat := None)\<rparr>"

definition context_dash :: string where
  "context_dash = '' '' @ [CHR 0xE2, CHR 0x80, CHR 0x94] @ '' ''"

definition turn_text :: "conv_turn \<Rightarrow> string" where
  "turn_text t =
     ''User: '' @ ct_user t @ nl @
     ''Assistant (DONE): '' @
       (if length (ct_assistant t) > 500 then take 500 (ct_assistant t) @ ''... [truncated]'' else ct_assistant t) @
     nl @ nl"

definition build_task_with_context :: "int \<Rightarrow> string \<Rightarrow> chat_store \<Rightarrow> string" where
  "build_task_with_context chat current s =
     (let h = history_of chat s in
      if h = [] then current
      else
        ''[Previous conversation'' @ context_dash @ ''these tasks are ALREADY COMPLETED. Do NOT redo them.]'' @ nl @ nl @
        concat (map turn_text (drop (if length h > 3 then length h - 3 else 0) h)) @
        ''[End of previous context'' @ context_dash @ ''above tasks are COMPLETE]'' @ nl @ nl @
        ''Current message: '' @ current)"

text \<open>Times are nanoseconds; a message within two seconds of the last accepted one is refused.\<close>

definition check_rate :: "int \<Rightarrow> int \<Rightarrow> chat_store \<Rightarrow> bool \<times> chat_store" where
  "check_rate now user s =
     (case last_msg s user of
        Some t \<Rightarrow> if now - t < 2000000000 then (False, s)
                  else (True, s\<lparr>last_msg := (last_msg s)(user \<mapsto> now)\<rparr>)
      | None \<Rightarrow> (True, s\<lparr>last_msg := (last_msg s)(user \<mapsto> now)\<rparr>))"

definition is_trusted :: "int \<Rightarrow> chat_store \<Rightarrow> bool" where
  "is_trusted chat s = (chat \<in> trusted_chats s)"

definition set_trusted :: "int \<Rightarrow> bool \<Rightarrow> chat_store \<Rightarrow> chat_store" where
  "set_trusted chat on s =
     s\<lparr>trusted_chats := (if on then insert chat (trusted_chats s) else trusted_chats s - {chat})\<rparr>"

definition is_whitelisted :: "int \<Rightarrow> string \<Rightarrow> chat_store \<Rightarrow> bool" where
  "is_whitelisted chat tool s =
     (case session_whitelist s chat of None \<Rightarrow> False | Some ts \<Rightarrow> tool \<in> ts)"

definition whitelist_tool :: "int \<Rightarrow> string \<Rightarrow> chat_store \<Rightarrow> chat_store" where
  "whitelist_tool chat tool s =
     (let ts = (case session_whitelist s chat of None \<Rightarrow> {} | Some ts \<Rightarrow> ts)
      in s\<lparr>session_whitelist := (session_whitelist s)(chat \<mapsto> insert tool ts)\<rparr>)"

definition clear_whitelist :: "int \<Rightarrow> chat_store \<Rightarrow> chat_store" where
  "clear_whitelist chat s = s\<lparr>session_whitelist := (session_whitelist s)(chat \<mapsto> {})\<rparr>"

section \<open>Asking the operator\<close>

record approval_response =
  ar_approved :: bool
  ar_whitelist :: bool

text \<open>
  The pending requests: the ids that are registered, and the one-place channel of each id, on which its
  waiting goroutine receives.
\<close>

record approval_state =
  ap_store :: chat_store
  ap_pending :: "string set"
  ap_channel :: "string \<rightharpoonup> approval_response"

definition approval_id :: "int \<Rightarrow> int \<Rightarrow> string" where
  "approval_id chat nano = ''appr_'' @ itoa chat @ ''_'' @ itoa nano"

definition approval_buttons :: "severity \<Rightarrow> string list" where
  "approval_buttons sev =
     (if sev = SevCritical then [''yes'', ''no''] else [''yes'', ''whitelist'', ''no''])"

definition send_response :: "string \<Rightarrow> approval_response \<Rightarrow> approval_state \<Rightarrow> approval_state" where
  "send_response aid resp g =
     (case ap_channel g aid of
        Some _ \<Rightarrow> g
      | None \<Rightarrow> g\<lparr>ap_channel := (ap_channel g)(aid \<mapsto> resp)\<rparr>)"

datatype gateway_event = Callback string "int option" | StopGateway

definition response_of :: "string \<Rightarrow> approval_response" where
  "response_of action =
     \<lparr>ar_approved = action \<in> {''yes'', ''whitelist'', ''trust''}, ar_whitelist = (action = ''whitelist'')\<rparr>"

definition handle_callback_query :: "string \<Rightarrow> int option \<Rightarrow> approval_state \<Rightarrow> approval_state" where
  "handle_callback_query data msg_chat g =
     (case str_index data '':'' of
        None \<Rightarrow> g
      | Some i \<Rightarrow>
          let aid = take i data; action = drop (i + 1) data in
          if aid \<notin> ap_pending g then g
          else
            let g1 = (case msg_chat of
                        Some chat \<Rightarrow> if action = ''trust''
                          then g\<lparr>ap_store := set_trusted chat True (ap_store g)\<rparr> else g
                      | None \<Rightarrow> g)
            in send_response aid (response_of action) g1)"

definition stop_gateway :: "approval_state \<Rightarrow> approval_state" where
  "stop_gateway g =
     g\<lparr>ap_pending := {},
       ap_channel := (\<lambda>aid. if aid \<in> ap_pending g \<and> ap_channel g aid = None
         then Some \<lparr>ar_approved = False, ar_whitelist = False\<rparr> else ap_channel g aid)\<rparr>"

fun gateway_step :: "approval_state \<Rightarrow> gateway_event \<Rightarrow> approval_state" where
  "gateway_step g (Callback data msg_chat) = handle_callback_query data msg_chat g"
| "gateway_step g StopGateway = stop_gateway g"

text \<open>
  The blocking \<open>select\<close>: the events that arrive before the 120 seconds are over are handled one by one until
  one puts a response into the channel of the request.
\<close>

fun await_response :: "string \<Rightarrow> gateway_event list \<Rightarrow> approval_state
    \<Rightarrow> approval_response option \<times> approval_state" where
  "await_response aid [] g = (None, g)"
| "await_response aid (e # es) g =
     (let g1 = gateway_step g e in
      case ap_channel g1 aid of
        Some resp \<Rightarrow> (Some resp, g1\<lparr>ap_channel := (ap_channel g1)(aid := None)\<rparr>)
      | None \<Rightarrow> await_response aid es g1)"

definition close_approval :: "string \<Rightarrow> approval_state \<Rightarrow> approval_state" where
  "close_approval aid g = g\<lparr>ap_pending := ap_pending g - {aid}\<rparr>"

definition request_approval ::
  "int \<Rightarrow> bool \<Rightarrow> gateway_event list \<Rightarrow> int \<Rightarrow> string \<Rightarrow> approval_state \<Rightarrow> bool \<times> approval_state" where
  "request_approval nano sent es chat tool g =
     (let aid = approval_id chat nano;
          g0 = g\<lparr>ap_pending := insert aid (ap_pending g), ap_channel := (ap_channel g)(aid := None)\<rparr>
      in if \<not> sent then (True, close_approval aid g0)
         else case await_response aid es g0 of
                (Some resp, g1) \<Rightarrow>
                  (ar_approved resp,
                   close_approval aid
                     (if ar_whitelist resp \<and> ar_approved resp
                      then g1\<lparr>ap_store := whitelist_tool chat tool (ap_store g1)\<rparr> else g1))
              | (None, g1) \<Rightarrow> (False, close_approval aid g1))"

text \<open>The approval callback that the gateway attaches to a task.\<close>

definition approval_fn ::
  "json_args \<Rightarrow> int \<Rightarrow> bool \<Rightarrow> gateway_event list \<Rightarrow> int \<Rightarrow> string \<Rightarrow> string \<Rightarrow> approval_state
    \<Rightarrow> bool \<times> approval_state" where
  "approval_fn args_of nano sent es chat tool json g =
     (if is_trusted chat (ap_store g) then (True, g)
      else
        let sev = assess_severity args_of tool json in
        if sev = SevLow then (True, g)
        else if sev = SevMedium \<and> is_whitelisted chat tool (ap_store g) then (True, g)
        else request_approval nano sent es chat tool g)"

section \<open>Facts about the severity\<close>

lemma to_lower_misses_upper: "c \<in> set p \<Longrightarrow> is_upper c \<Longrightarrow> \<not> contains_str (to_lower s) p"
  using contains_str_set [of "to_lower s" p] to_lower_no_upper by blast

lemma chown_iptables_dead:
  "\<not> contains_str (to_lower s) ''chown -R''" "\<not> contains_str (to_lower s) ''iptables -F''"
  by (rule to_lower_misses_upper [of "CHR ''R''"]; simp add: is_upper_def byte_def)
    (rule to_lower_misses_upper [of "CHR ''F''"]; simp add: is_upper_def byte_def)

definition live_patterns :: "string list" where
  "live_patterns = filter (\<lambda>p. p \<noteq> ''chown -R'' \<and> p \<noteq> ''iptables -F'') critical_patterns"

lemma list_ex_filter: "(\<And>p. \<not> Q p \<Longrightarrow> \<not> P p) \<Longrightarrow> list_ex P ps = list_ex P (filter Q ps)"
  by (induction ps) auto

lemma live_patterns_match:
  "list_ex (contains_str (to_lower s)) critical_patterns = list_ex (contains_str (to_lower s)) live_patterns"
  unfolding live_patterns_def by (rule list_ex_filter) (use chown_iptables_dead in blast)

lemma safe_base_critical:
  "safe_base_severity base lower = SevCritical \<longleftrightarrow>
     base = ''git'' \<and> (contains_str lower ''push --force'' \<or> contains_str lower ''reset --hard'') \<or>
     base = ''docker'' \<and> (contains_str lower ''rm '' \<or> contains_str lower ''rmi '' \<or> contains_str lower ''prune'')"
  unfolding safe_base_severity_def
  by (cases "base = ''git''"; cases "base = ''docker''"; cases "base = ''curl''") simp_all

lemma git_docker_safe: "''git'' \<in> set safe_commands" "''docker'' \<in> set safe_commands"
  by (simp_all add: safe_commands_def)

lemma file_tool_severity_without_action:
  "args_of json ''action'' = None \<Longrightarrow> assess_severity args_of ''file'' json = SevMedium"
  by (simp add: assess_severity_def string_arg_def file_action_severity_def)

section \<open>Facts about the store\<close>

lemma history_of_push_turn:
  "history_of chat (push_turn chat s t) = last_n max_history_turns (history_of chat s @ [t])"
  by (simp add: push_turn_def history_of_def last_n_def Let_def)

lemma history_of_push_other:
  "chat' \<noteq> chat \<Longrightarrow> history_of chat' (push_turn chat s t) = history_of chat' s"
  by (simp add: push_turn_def history_of_def Let_def)

interpretation chat_window: window_buffer "push_turn chat" "history_of chat" max_history_turns for chat
  by unfold_locales (rule history_of_push_turn)

lemma add_history_run:
  "foldl (\<lambda>s (u, a). add_history chat u a s) s turns =
   foldl (push_turn chat) s (map (\<lambda>(u, a). conv_turn_of u a) turns)"
  by (induction turns arbitrary: s) (auto simp: add_history_def)

lemma last_n_last_n: "m \<le> n \<Longrightarrow> last_n m (last_n n xs) = last_n m xs"
proof -
  assume "m \<le> n"
  then have "length xs - n + (length xs - (length xs - n) - m) = length xs - m" by simp
  then show ?thesis by (simp add: last_n_def add.commute)
qed

lemma last_n_Nil_iff [simp]: "last_n n xs = [] \<longleftrightarrow> n = 0 \<or> xs = []"
proof -
  have "last_n n xs = [] \<longleftrightarrow> min n (length xs) = 0" by (simp only: length_last_n [symmetric] length_0_conv)
  then show ?thesis by (cases xs; cases n) simp_all
qed

lemma last_n_map: "last_n n (map f xs) = map f (last_n n xs)"
  by (simp add: last_n_def drop_map)

text \<open>Tools without a case of their own are rated low, among them the one that patches files.\<close>

lemma patch_needs_no_approval:
  "tool \<notin> {''terminal'', ''file'', ''delegation''} \<Longrightarrow> assess_severity args_of tool json = SevLow"
  "assess_severity args_of ''patch'' json = SevLow"
  by (simp_all add: assess_severity_def)

text \<open>
  What a follow-up sees: after any exchanges in a chat, whatever was stored before is gone, the task text holds
  the last three of them in order, each answer cut to 500 bytes.
\<close>

lemma context_shows_last_three:
  assumes "turns \<noteq> []"
  shows "build_task_with_context chat msg (foldl (\<lambda>s (u, a). add_history chat u a s) new_chat_store turns) =
    ''[Previous conversation'' @ context_dash @ ''these tasks are ALREADY COMPLETED. Do NOT redo them.]'' @ nl @ nl @
    concat (map (\<lambda>(u, a). turn_text (conv_turn_of u a)) (last_n 3 turns)) @
    ''[End of previous context'' @ context_dash @ ''above tasks are COMPLETE]'' @ nl @ nl @
    ''Current message: '' @ msg"
proof -
  let ?f = "\<lambda>(u, a). conv_turn_of u a"
  let ?s = "foldl (\<lambda>s (u, a). add_history chat u a s) new_chat_store turns"
  have "history_of chat new_chat_store = []" by (simp add: history_of_def new_chat_store_def)
  then have h: "history_of chat ?s = last_n max_history_turns (map ?f turns)"
    by (simp add: add_history_run chat_window.items_run)
  then have "history_of chat ?s \<noteq> []"
    using assms by (simp add: max_history_turns_def)
  moreover have "drop (if length h > 3 then length h - 3 else 0) h = last_n 3 h" for h :: "conv_turn list"
    by (simp add: last_n_def)
  moreover have "last_n 3 (history_of chat ?s) = map ?f (last_n 3 turns)"
    unfolding h by (subst last_n_last_n) (simp_all add: max_history_turns_def last_n_map)
  moreover have "map turn_text (map ?f ts) = map (\<lambda>(u, a). turn_text (conv_turn_of u a)) ts" for ts
    by auto
  ultimately show ?thesis by (simp only: build_task_with_context_def Let_def if_False)
qed

lemma context_shows_last_three_witness:
  "build_task_with_context 7 ''go'' (foldl (\<lambda>s (u, a). add_history 7 u a s) new_chat_store [(''hi'', ''ok'')]) =
    ''[Previous conversation'' @ context_dash @ ''these tasks are ALREADY COMPLETED. Do NOT redo them.]'' @ nl @ nl @
    concat (map (\<lambda>(u, a). turn_text (conv_turn_of u a)) (last_n 3 [(''hi'', ''ok'')])) @
    ''[End of previous context'' @ context_dash @ ''above tasks are COMPLETE]'' @ nl @ nl @
    ''Current message: '' @ ''go''"
  by (rule context_shows_last_three) simp

section \<open>Properties of the approval\<close>

lemma str_index_colon:
  "CHR '':'' \<notin> set u \<Longrightarrow> str_index (u @ CHR '':'' # v) '':'' = Some (length u)"
  by (induction u) auto

lemma approval_id_no_colon: "CHR '':'' \<notin> set (approval_id chat nano)"
proof -
  have "\<not> is_digit (CHR '':'')" by (simp add: is_digit_def byte_def)
  then have "CHR '':'' \<notin> set (itoa i)" for i
    using dec_digits_chars by (auto simp: itoa_def)
  then show ?thesis by (simp add: approval_id_def)
qed

text \<open>Only a callback for this very request, with an approving button, puts an approval into its channel.\<close>

lemma gateway_step_approves:
  assumes "ap_channel g aid = None" "ap_channel (gateway_step g e) aid = Some resp" "ar_approved resp"
  obtains act m where "e = Callback (aid @ '':'' @ act) m" "act \<in> {''yes'', ''whitelist'', ''trust''}"
    "resp = response_of act"
proof (cases e)
  case (Callback data m)
  then obtain i where i: "str_index data '':'' = Some i"
    using assms by (cases "str_index data '':''") (auto simp: handle_callback_query_def)
  from str_index_Some [OF i] have split: "data = take i data @ '':'' @ drop (i + 1) data"
    by (metis append_take_drop_id drop_drop add.commute length_Cons list.size(3) One_nat_def)
  have "take i data = aid \<and> resp = response_of (drop (i + 1) data)"
    using assms Callback i
    by (auto simp: handle_callback_query_def send_response_def Let_def split: if_splits option.splits)
  moreover from this assms(3) have "drop (i + 1) data \<in> {''yes'', ''whitelist'', ''trust''}"
    by (simp add: response_of_def)
  ultimately show thesis using that Callback split by metis
next
  case StopGateway
  with assms show thesis by (auto simp: stop_gateway_def split: if_splits)
qed

lemma await_response_approved:
  assumes "await_response aid es g = (Some resp, g')" "ap_channel g aid = None" "ar_approved resp"
  shows "\<exists>act m. Callback (aid @ '':'' @ act) m \<in> set es \<and> act \<in> {''yes'', ''whitelist'', ''trust''} \<and>
    resp = response_of act"
  using assms
proof (induction es arbitrary: g)
  case (Cons e es)
  show ?case
  proof (cases "ap_channel (gateway_step g e) aid")
    case None
    with Cons.prems have "await_response aid es (gateway_step g e) = (Some resp, g')" by (simp add: Let_def)
    from Cons.IH [OF this None Cons.prems(3)] obtain act m where
      "Callback (aid @ '':'' @ act) m \<in> set es" "act \<in> {''yes'', ''whitelist'', ''trust''}" "resp = response_of act"
      by blast
    then show ?thesis by (intro exI [of _ act] exI [of _ m] conjI) simp_all
  next
    case (Some r)
    with Cons.prems have "r = resp" by (simp add: Let_def)
    with gateway_step_approves [OF Cons.prems(2) Some] Cons.prems(3) show ?thesis
      by (metis list.set_intros(1))
  qed
qed simp

text \<open>
  C13: in a chat that is not trusted, a critical call only runs when the operator pressed an approving button of this
  very request, or when the request could not be sent at all. The whitelist of the session never helps.
\<close>

theorem critical_needs_operator:
  assumes "assess_severity args_of tool json = SevCritical" "\<not> is_trusted chat (ap_store g)"
    and "approval_fn args_of nano sent es chat tool json g = (True, g')"
  shows "sent = False \<or>
    (\<exists>act m. Callback (approval_id chat nano @ '':'' @ act) m \<in> set es \<and> act \<in> {''yes'', ''whitelist'', ''trust''})"
proof (cases sent)
  case True
  have "request_approval nano sent es chat tool g = (True, g')"
    using assms by (simp add: approval_fn_def)
  with True obtain resp g1 where "await_response (approval_id chat nano) es
      (g\<lparr>ap_pending := insert (approval_id chat nano) (ap_pending g),
         ap_channel := (ap_channel g)(approval_id chat nano := None)\<rparr>) = (Some resp, g1)" "ar_approved resp"
    by (auto simp: request_approval_def Let_def split: prod.splits option.splits)
  from await_response_approved [OF this(1)] this(2) show ?thesis by auto
qed simp

text \<open>The empty state with one untrusted chat, and the arguments of one call.\<close>

definition demo_approval :: approval_state where
  "demo_approval = \<lparr>ap_store = new_chat_store, ap_pending = {}, ap_channel = Map.empty\<rparr>"

definition demo_args :: json_args where
  "demo_args json key = (if key = ''command'' then Some json else None)"

lemma demo_severity:
  "assess_severity demo_args ''terminal'' ''rmdir x'' = SevCritical"
  "assess_severity demo_args ''terminal'' ''ufw status'' = SevMedium"
  "assess_severity demo_args ''terminal'' ''iptables -F'' = SevMedium"
  "assess_severity demo_args ''terminal'' ''git push -f'' = SevLow"
  "assess_severity demo_args ''terminal'' ''find / -delete; crontab -r'' = SevLow"
  by code_simp+

lemma demo_untrusted: "\<not> is_trusted chat (ap_store demo_approval)"
  by (simp add: demo_approval_def is_trusted_def new_chat_store_def)

lemma demo_request:
  "request_approval 9 True [Callback (approval_id 7 9 @ '':'' @ act) None] 7 tool demo_approval =
    (ar_approved (response_of act),
     (if ar_whitelist (response_of act) \<and> ar_approved (response_of act)
      then demo_approval\<lparr>ap_store := whitelist_tool 7 tool new_chat_store\<rparr> else demo_approval))"
proof -
  have "str_index (approval_id 7 9 @ CHR '':'' # act) '':'' = Some (length (approval_id 7 9))"
    by (rule str_index_colon [OF approval_id_no_colon])
  then show ?thesis
    by (simp add: request_approval_def handle_callback_query_def send_response_def close_approval_def
        demo_approval_def Let_def fun_upd_idem)
qed

theorem critical_needs_operator_witness:
  "\<exists>act m. Callback (approval_id 7 9 @ '':'' @ act) m
      \<in> set [Callback (approval_id 7 9 @ '':'' @ ''yes'') None] \<and> act \<in> {''yes'', ''whitelist'', ''trust''}"
proof -
  have "approval_fn demo_args 9 True [Callback (approval_id 7 9 @ '':'' @ ''yes'') None] 7 ''terminal'' ''rmdir x''
      demo_approval = (True, demo_approval)"
    unfolding approval_fn_def using demo_request [of "''yes''" "''terminal''"]
    by (simp add: demo_severity demo_untrusted response_of_def)
  from critical_needs_operator [OF demo_severity(1) demo_untrusted this] show ?thesis by simp
qed

text \<open>
  The exact set of critical commands. Of the listed patterns, \<open>chown -R\<close> and \<open>iptables -F\<close> never match, because
  they are looked up in the lower-cased command; the second test for \<open>git\<close> still matters for flags between
  \<open>git\<close> and \<open>push\<close>, and \<open>docker\<close> has its own flags.
\<close>

lemma critical_command_iff:
  "assess_command_severity cmd = SevCritical \<longleftrightarrow>
    list_ex (contains_str (to_lower (trim_space cmd)))
      (filter (\<lambda>p. p \<noteq> ''chown -R'' \<and> p \<noteq> ''iptables -F'') critical_patterns) \<or>
    (case str_fields (trim_space cmd) of
       [] \<Rightarrow> False
     | w # ws \<Rightarrow>
         base_command w = ''git'' \<and> (contains_str (to_lower (trim_space cmd)) ''push --force'' \<or>
           contains_str (to_lower (trim_space cmd)) ''reset --hard'') \<or>
         base_command w = ''docker'' \<and> (contains_str (to_lower (trim_space cmd)) ''rm '' \<or>
           contains_str (to_lower (trim_space cmd)) ''rmi '' \<or> contains_str (to_lower (trim_space cmd)) ''prune''))"
proof -
  let ?c = "trim_space cmd"
  note live = live_patterns_match [of ?c, unfolded live_patterns_def]
  have empty: "\<not> list_ex (contains_str (to_lower [])) critical_patterns"
    by (simp add: critical_patterns_def to_lower_def)
  show ?thesis
  proof (cases "str_fields ?c")
    case Nil
    with empty live show ?thesis by (auto simp: assess_command_severity_def Let_def)
  next
    case (Cons w ws)
    then have ne: "?c \<noteq> []" by (auto simp: str_fields_def)
    show ?thesis
    proof (cases "list_ex (contains_str (to_lower ?c)) critical_patterns")
      case True
      with ne live show ?thesis by (simp add: assess_command_severity_def Let_def)
    next
      case False
      with ne Cons have "assess_command_severity cmd =
          (if base_command w \<in> set safe_commands then safe_base_severity (base_command w) (to_lower ?c) else SevMedium)"
        by (simp add: assess_command_severity_def Let_def)
      with False Cons live git_docker_safe safe_base_critical [of "base_command w" "to_lower ?c"] show ?thesis
        by (cases "base_command w \<in> set safe_commands") auto
    qed
  qed
qed

text \<open>
  One answer \<open>Allow all\<close> for a medium call of a tool opens the tool: from then on every medium call of this tool
  in this chat, of whatever command, runs without a question until the whitelist is cleared.
\<close>

lemma whitelist_opens_medium_calls:
  assumes "assess_severity args_of tool json = SevMedium" "\<not> is_trusted chat (ap_store g)"
    and "\<not> is_whitelisted chat tool (ap_store g)"
    and "approval_fn args_of nano True (Callback (approval_id chat nano @ '':'' @ ''whitelist'') m # es) chat tool json g
           = (ok, g')"
    and "assess_severity args_of tool json' = SevMedium"
  shows "ok \<and> approval_fn args_of nano' sent' es' chat tool json' g' = (True, g') \<and>
    is_whitelisted chat tool (clear_whitelist chat (ap_store g')) = False"
proof -
  have "str_index (approval_id chat nano @ CHR '':'' # ''whitelist'') '':'' = Some (length (approval_id chat nano))"
    by (rule str_index_colon [OF approval_id_no_colon])
  moreover have "request_approval nano True (Callback (approval_id chat nano @ '':'' @ ''whitelist'') m # es)
      chat tool g = (ok, g')"
    using assms by (simp add: approval_fn_def)
  ultimately have "ok \<and> ap_store g' = whitelist_tool chat tool (ap_store g)"
    by (cases m) (auto simp: request_approval_def handle_callback_query_def send_response_def close_approval_def
        response_of_def Let_def)
  moreover have "is_whitelisted chat tool (whitelist_tool chat tool (ap_store g))"
    by (simp add: is_whitelisted_def whitelist_tool_def Let_def)
  ultimately show ?thesis using assms(5)
    by (simp add: approval_fn_def is_whitelisted_def clear_whitelist_def)
qed

lemma whitelist_opens_medium_calls_witness:
  "approval_fn demo_args 10 True [] 7 ''terminal'' ''iptables -F''
     (demo_approval\<lparr>ap_store := whitelist_tool 7 ''terminal'' new_chat_store\<rparr>) =
   (True, demo_approval\<lparr>ap_store := whitelist_tool 7 ''terminal'' new_chat_store\<rparr>)"
proof -
  have nw: "\<not> is_whitelisted 7 ''terminal'' (ap_store demo_approval)"
    by (simp add: demo_approval_def is_whitelisted_def new_chat_store_def)
  have "approval_fn demo_args 9 True [Callback (approval_id 7 9 @ '':'' @ ''whitelist'') None] 7 ''terminal''
      ''ufw status'' demo_approval = (True, demo_approval\<lparr>ap_store := whitelist_tool 7 ''terminal'' new_chat_store\<rparr>)"
    unfolding approval_fn_def using demo_request [of "''whitelist''" "''terminal''"] nw
    by (simp add: demo_severity demo_untrusted response_of_def)
  from whitelist_opens_medium_calls [OF demo_severity(2) demo_untrusted nw this demo_severity(3)]
  show ?thesis by blast
qed

end
