(* ===== verification/Tool_Registry.thy ===== *)
theory Tool_Registry
  imports Complex_Main Kyoci_Types
begin

text \<open>
  Tools and their registries: the public registry of \<open>pkg/tool.go\<close> with parameter validation, its wrapper
  \<open>internal/tool/registry.go\<close>, and the parsing of a call's arguments. A decoded JSON value is a
  \<open>go_value\<close>; a tool is its definition with the function it runs over a world \<open>'w\<close>. Decoding JSON text
  is a parameter. Logging is left out and the mutex makes each operation atomic.
\<close>

section \<open>Values and definitions\<close>

datatype go_value =
    GoNil | GoBool bool | GoInt int | GoFloat rat | GoString string
  | GoArray "go_value list" | GoObject "(string \<times> go_value) list"

type_synonym go_params = "string \<rightharpoonup> go_value"

record tool_parameter =
  tp_name :: string
  tp_type :: string
  tp_description :: string
  tp_required :: bool
  tp_enum :: "string list"
  tp_default :: go_value
  tp_schema :: "go_params option"

record tool_definition =
  td_name :: string
  td_description :: string
  td_parameters :: "tool_parameter list"

record 'w tool =
  tool_def :: tool_definition
  tool_run :: "'w \<Rightarrow> go_params \<Rightarrow> 'w \<times> (string + string)"

datatype tool_error =
    ErrToolNotFound
  | ValidationError string string
  | ParamValidation tool_error
  | ErrToolExecution string
  | RegistryError string

fun tool_error_text :: "tool_error \<Rightarrow> string" where
  "tool_error_text ErrToolNotFound = ''tool not found''"
| "tool_error_text (ValidationError field msg) =
     (if field \<noteq> [] then ''validation failed for field '' @ [CHR 0x27] @ field @ [CHR 0x27] @ '': '' @ msg
      else ''validation failed: '' @ msg)"
| "tool_error_text (ParamValidation e) = ''parameter validation failed: '' @ tool_error_text e"
| "tool_error_text (ErrToolExecution e) = ''tool execution failed: '' @ e"
| "tool_error_text (RegistryError e) = e"

section \<open>Validation\<close>

definition validate_type :: "string \<Rightarrow> go_value \<Rightarrow> string \<Rightarrow> tool_error option" where
  "validate_type name v ty =
     (if v = GoNil then Some (ValidationError name ''value cannot be nil'')
      else if ty = ''string'' then
        (case v of GoString _ \<Rightarrow> None | _ \<Rightarrow> Some (ValidationError name ''expected string''))
      else if ty = ''integer'' \<or> ty = ''int'' then
        (case v of GoInt _ \<Rightarrow> None | GoFloat _ \<Rightarrow> None | _ \<Rightarrow> Some (ValidationError name ''expected integer''))
      else if ty = ''number'' \<or> ty = ''float'' then
        (case v of GoFloat _ \<Rightarrow> None | _ \<Rightarrow> Some (ValidationError name ''expected number''))
      else if ty = ''boolean'' \<or> ty = ''bool'' then
        (case v of GoBool _ \<Rightarrow> None | _ \<Rightarrow> Some (ValidationError name ''expected boolean''))
      else if ty = ''array'' then
        (case v of GoArray _ \<Rightarrow> None | _ \<Rightarrow> Some (ValidationError name ''expected array''))
      else if ty = ''object'' then
        (case v of GoObject _ \<Rightarrow> None | _ \<Rightarrow> Some (ValidationError name ''expected object''))
      else None)"

definition validate_enum :: "tool_parameter \<Rightarrow> go_value \<Rightarrow> tool_error option" where
  "validate_enum p v =
     (if tp_enum p = [] then None
      else case v of
             GoString s \<Rightarrow>
               if s \<in> set (tp_enum p) then None
               else Some (ValidationError (tp_name p) (''value must be one of ['' @ join '' '' (tp_enum p) @ '']''))
           | _ \<Rightarrow> None)"

definition validate_param :: "go_params \<Rightarrow> tool_parameter \<Rightarrow> tool_error option" where
  "validate_param params p =
     (case params (tp_name p) of
        None \<Rightarrow> if tp_required p then Some (ValidationError (tp_name p) ''required parameter not provided'') else None
      | Some v \<Rightarrow>
          (case validate_type (tp_name p) v (tp_type p) of
             Some e \<Rightarrow> Some e
           | None \<Rightarrow> validate_enum p v))"

fun first_error :: "('a \<Rightarrow> 'e option) \<Rightarrow> 'a list \<Rightarrow> 'e option" where
  "first_error f [] = None"
| "first_error f (x # xs) = (case f x of Some e \<Rightarrow> Some e | None \<Rightarrow> first_error f xs)"

definition validate_params :: "tool_definition \<Rightarrow> go_params \<Rightarrow> tool_error option" where
  "validate_params d params = first_error (validate_param params) (td_parameters d)"

text \<open>The JSON schema of a definition: the properties and the list of required names.\<close>

definition param_schema :: "tool_parameter \<Rightarrow> go_params" where
  "param_schema p =
     (let base = [''type'' \<mapsto> GoString (tp_type p), ''description'' \<mapsto> GoString (tp_description p)];
          base = (if tp_default p \<noteq> GoNil then base(''default'' \<mapsto> tp_default p) else base);
          base = (if tp_enum p \<noteq> [] then base(''enum'' \<mapsto> GoArray (map GoString (tp_enum p))) else base)
      in case tp_schema p of None \<Rightarrow> base | Some extra \<Rightarrow> base ++ extra)"

definition to_json_schema :: "tool_definition \<Rightarrow> (string \<rightharpoonup> go_params) \<times> string list" where
  "to_json_schema d =
     (foldl (\<lambda>m p. m(tp_name p \<mapsto> param_schema p)) Map.empty (td_parameters d),
      map tp_name (filter tp_required (td_parameters d)))"

section \<open>The public registry\<close>

type_synonym 'w tool_registry = "string \<rightharpoonup> 'w tool"

definition new_tool_registry :: "'w tool_registry" where
  "new_tool_registry = Map.empty"

definition find_tool :: "'w tool_registry \<Rightarrow> string \<Rightarrow> 'w tool option" where
  "find_tool r name = r name"

definition put_tool :: "string \<Rightarrow> 'w tool \<Rightarrow> 'w tool_registry \<Rightarrow> 'w tool_registry" where
  "put_tool name t r = r(name \<mapsto> t)"

definition delete_tool :: "string \<Rightarrow> 'w tool_registry \<Rightarrow> 'w tool_registry" where
  "delete_tool name r = r(name := None)"

definition tool_name :: "'w tool \<Rightarrow> string" where
  "tool_name t = td_name (tool_def t)"

definition check_parameter :: "tool_parameter \<Rightarrow> tool_error option" where
  "check_parameter p =
     (if tp_name p = [] then Some (ValidationError ''parameter'' ''parameter name cannot be empty'')
      else if tp_type p = [] then Some (ValidationError ''parameter'' ''parameter type cannot be empty'')
      else None)"

text \<open>A nil tool is \<open>None\<close>. The result is the error, or the new registry.\<close>

definition register_tool :: "'w tool option \<Rightarrow> 'w tool_registry \<Rightarrow> tool_error + 'w tool_registry" where
  "register_tool ot r =
     (case ot of
        None \<Rightarrow> Inl (ValidationError ''tool'' ''tool cannot be nil'')
      | Some t \<Rightarrow>
          if tool_name t = [] then Inl (ValidationError ''name'' ''tool name cannot be empty'')
          else case first_error check_parameter (td_parameters (tool_def t)) of
                 Some e \<Rightarrow> Inl e
               | None \<Rightarrow> Inr (put_tool (tool_name t) t r))"

definition get_tool :: "'w tool_registry \<Rightarrow> string \<Rightarrow> tool_error + 'w tool" where
  "get_tool r name = (case find_tool r name of None \<Rightarrow> Inl ErrToolNotFound | Some t \<Rightarrow> Inr t)"

definition has_tool :: "'w tool_registry \<Rightarrow> string \<Rightarrow> bool" where
  "has_tool r name = (find_tool r name \<noteq> None)"

definition remove_tool :: "string \<Rightarrow> 'w tool_registry \<Rightarrow> tool_error + 'w tool_registry" where
  "remove_tool name r = (if find_tool r name = None then Inl ErrToolNotFound else Inr (delete_tool name r))"

definition list_tools :: "'w tool_registry \<Rightarrow> tool_definition set" where
  "list_tools r = tool_def ` ran r"

definition count_tools :: "'w tool_registry \<Rightarrow> nat" where
  "count_tools r = card (dom r)"

definition execute_tool ::
  "'w tool_registry \<Rightarrow> 'w \<Rightarrow> string \<Rightarrow> go_params \<Rightarrow> 'w \<times> (tool_error + string)" where
  "execute_tool r w name params =
     (case get_tool r name of
        Inl e \<Rightarrow> (w, Inl e)
      | Inr t \<Rightarrow>
          (case validate_params (tool_def t) params of
             Some e \<Rightarrow> (w, Inl (ParamValidation e))
           | None \<Rightarrow>
               (case tool_run t w params of
                  (w', Inl e) \<Rightarrow> (w', Inl (ErrToolExecution e))
                | (w', Inr out) \<Rightarrow> (w', Inr out))))"

text \<open>\<open>unmarshal\<close> decodes a JSON object (\<open>Inl\<close> the error text).\<close>

definition parse_tool_call_arguments ::
  "(string \<Rightarrow> string + go_params) \<Rightarrow> string \<Rightarrow> string + go_params" where
  "parse_tool_call_arguments unmarshal json =
     (if json = [] then Inr Map.empty
      else case unmarshal json of
             Inl e \<Rightarrow> Inl (''failed to parse tool arguments: '' @ e)
           | Inr m \<Rightarrow> Inr m)"

definition format_tool_result :: "string \<Rightarrow> string \<Rightarrow> string option \<Rightarrow> message" where
  "format_tool_result call_id result err =
     (plain_message RoleTool (case err of None \<Rightarrow> result | Some e \<Rightarrow> ''Error: '' @ e))
       \<lparr>msg_tool_call_id := call_id\<rparr>"

section \<open>The wrapper of the agent\<close>

definition quoted_tool :: "string \<Rightarrow> string \<Rightarrow> string" where
  "quoted_tool name rest = ''tool '' @ [CHR 0x27] @ name @ [CHR 0x27] @ rest"

definition wrapper_register :: "'w tool option \<Rightarrow> 'w tool_registry \<Rightarrow> tool_error + 'w tool_registry" where
  "wrapper_register ot r =
     (case ot of
        None \<Rightarrow> Inl (RegistryError ''tool cannot be nil'')
      | Some t \<Rightarrow>
          if tool_name t = [] then Inl (RegistryError ''tool name cannot be empty'')
          else if has_tool r (tool_name t) then Inl (RegistryError (quoted_tool (tool_name t) '' already registered''))
          else register_tool ot r)"

definition wrapper_remove :: "string \<Rightarrow> 'w tool_registry \<Rightarrow> tool_error + 'w tool_registry" where
  "wrapper_remove name r =
     (if \<not> has_tool r name then Inl (RegistryError (quoted_tool name '' not found''))
      else remove_tool name r)"

definition wrapper_execute ::
  "'w tool_registry \<Rightarrow> 'w \<Rightarrow> string \<Rightarrow> go_params \<Rightarrow> 'w \<times> (tool_error + string)" where
  "wrapper_execute r w name params = execute_tool r w name params"

text \<open>\<open>RegisterBuiltin\<close>: the tools are registered in order and the first failure stops.\<close>

fun register_builtin :: "'w tool list \<Rightarrow> 'w tool_registry \<Rightarrow> tool_error option \<times> 'w tool_registry" where
  "register_builtin [] r = (None, r)"
| "register_builtin (t # ts) r =
     (case wrapper_register (Some t) r of
        Inl e \<Rightarrow> (Some (RegistryError (''failed to register '' @ tool_name t @ '': '' @ tool_error_text e)), r)
      | Inr r' \<Rightarrow> register_builtin ts r')"

section \<open>Lemmas\<close>

interpretation tools_kv: kv_registry find_tool put_tool delete_tool
  by unfold_locales (auto simp: find_tool_def put_tool_def delete_tool_def)

lemma first_error_None: "first_error f xs = None \<longleftrightarrow> (\<forall>x\<in>set xs. f x = None)"
  by (induction xs) (auto split: option.splits)

text \<open>A request to a registry, through the public or the wrapping interface.\<close>

datatype 'w registry_event = Register "'w tool option" | Remove string

definition applied :: "'e + 'r \<Rightarrow> 'r \<Rightarrow> 'r" where
  "applied res r = (case res of Inl _ \<Rightarrow> r | Inr r' \<Rightarrow> r')"

lemma applied_simps [simp]: "applied (Inl e) r = r" "applied (Inr r') r = r'"
  by (simp_all add: applied_def)

fun public_event :: "'w tool_registry \<Rightarrow> 'w registry_event \<Rightarrow> 'w tool_registry" where
  "public_event r (Register ot) = applied (register_tool ot r) r"
| "public_event r (Remove name) = applied (remove_tool name r) r"

fun wrapper_event :: "'w tool_registry \<Rightarrow> 'w registry_event \<Rightarrow> 'w tool_registry" where
  "wrapper_event r (Register ot) = applied (wrapper_register ot r) r"
| "wrapper_event r (Remove name) = applied (wrapper_remove name r) r"

definition registrable :: "'w tool \<Rightarrow> bool" where
  "registrable t \<longleftrightarrow> tool_name t \<noteq> [] \<and>
     list_all (\<lambda>p. tp_name p \<noteq> [] \<and> tp_type p \<noteq> []) (td_parameters (tool_def t))"

lemma check_parameters_registrable:
  "first_error check_parameter (td_parameters (tool_def t)) = None \<longleftrightarrow>
     list_all (\<lambda>p. tp_name p \<noteq> [] \<and> tp_type p \<noteq> []) (td_parameters (tool_def t))"
  by (auto simp: first_error_None check_parameter_def list_all_iff)

lemma register_tool_result:
  "register_tool (Some t) r = Inr (put_tool (tool_name t) t r) \<longleftrightarrow> registrable t"
  "applied (register_tool (Some t) r) r = (if registrable t then put_tool (tool_name t) t r else r)"
  using check_parameters_registrable [of t]
  by (auto simp: register_tool_def registrable_def applied_def split: option.splits)

definition registry_ok :: "'w tool_registry \<Rightarrow> bool" where
  "registry_ok r \<longleftrightarrow> (\<forall>name t. find_tool r name = Some t \<longrightarrow> tool_name t = name \<and> registrable t)"

lemma registry_ok_put [inv_intros]: "registry_ok r \<Longrightarrow> registrable t \<Longrightarrow> registry_ok (put_tool (tool_name t) t r)"
  by (auto simp: registry_ok_def tools_kv.look_ins)

lemma registry_ok_delete [inv_intros]: "registry_ok r \<Longrightarrow> registry_ok (delete_tool name r)"
  by (auto simp: registry_ok_def tools_kv.look_del)

lemma registry_ok_register [inv_intros]: "registry_ok r \<Longrightarrow> registry_ok (applied (register_tool ot r) r)"
proof (cases ot)
  case (Some t)
  assume "registry_ok r"
  then show ?thesis by (simp add: Some register_tool_result registry_ok_put)
qed (simp add: register_tool_def)

lemma registry_ok_remove [inv_intros]: "registry_ok r \<Longrightarrow> registry_ok (applied (remove_tool name r) r)"
  by (simp add: remove_tool_def registry_ok_delete)

interpretation public_registry: guarded_machine public_event registry_ok
proof
  show "registry_ok r \<Longrightarrow> registry_ok (public_event r e)" for r :: "'a tool_registry" and e
    by (cases e) (simp_all add: inv_intros)
qed

interpretation wrapped_registry: guarded_machine wrapper_event registry_ok
proof
  show "registry_ok r \<Longrightarrow> registry_ok (wrapper_event r e)" for r :: "'a tool_registry" and e
    by (cases e) (auto simp: wrapper_register_def wrapper_remove_def inv_intros split: option.splits)
qed

section \<open>Properties\<close>

text \<open>
  The two registries differ on a repeated name: after registering any tools in order, the public registry
  answers with the last valid tool of that name, the wrapper with the first.
\<close>

lemma registries_keep_last_and_first:
  "find_tool (foldl (\<lambda>r t. public_event r (Register (Some t))) new_tool_registry ts) name =
     find (\<lambda>t. registrable t \<and> tool_name t = name) (rev ts) \<and>
   find_tool (foldl (\<lambda>r t. wrapper_event r (Register (Some t))) new_tool_registry ts) name =
     find (\<lambda>t. registrable t \<and> tool_name t = name) ts"
proof
  show "find_tool (foldl (\<lambda>r t. public_event r (Register (Some t))) new_tool_registry ts) name =
     find (\<lambda>t. registrable t \<and> tool_name t = name) (rev ts)"
    by (induction ts rule: rev_induct)
      (auto simp: register_tool_result tools_kv.look_ins, simp add: new_tool_registry_def find_tool_def)
next
  have step: "find_tool (wrapper_event r (Register (Some t))) n =
      (if registrable t \<and> tool_name t = n \<and> find_tool r n = None then Some t else find_tool r n)"
    for r :: "'a tool_registry" and t n
    by (auto simp: wrapper_register_def has_tool_def register_tool_result tools_kv.look_ins registrable_def)
  have "find_tool (foldl (\<lambda>r t. wrapper_event r (Register (Some t))) r ts) name =
      (case find_tool r name of Some t \<Rightarrow> Some t | None \<Rightarrow> find (\<lambda>t. registrable t \<and> tool_name t = name) ts)" for r
  proof (induction ts arbitrary: r)
    case (Cons t ts)
    then show ?case by (auto simp del: wrapper_event.simps simp: step split: option.splits)
  qed (simp split: option.splits)
  then show "find_tool (foldl (\<lambda>r t. wrapper_event r (Register (Some t))) new_tool_registry ts) name =
     find (\<lambda>t. registrable t \<and> tool_name t = name) ts"
    by (simp add: new_tool_registry_def find_tool_def)
qed

text \<open>What a tool may rely on: a value of the JSON type that its parameter names.\<close>

fun value_has_type :: "string \<Rightarrow> go_value \<Rightarrow> bool" where
  "value_has_type ty GoNil = False"
| "value_has_type ty (GoBool _) = (ty \<notin> {''string'', ''integer'', ''int'', ''number'', ''float'', ''array'', ''object''})"
| "value_has_type ty (GoInt _) = (ty \<notin> {''string'', ''number'', ''float'', ''boolean'', ''bool'', ''array'', ''object''})"
| "value_has_type ty (GoFloat _) = (ty \<notin> {''string'', ''boolean'', ''bool'', ''array'', ''object''})"
| "value_has_type ty (GoString _) =
     (ty \<notin> {''integer'', ''int'', ''number'', ''float'', ''boolean'', ''bool'', ''array'', ''object''})"
| "value_has_type ty (GoArray _) =
     (ty \<notin> {''string'', ''integer'', ''int'', ''number'', ''float'', ''boolean'', ''bool'', ''object''})"
| "value_has_type ty (GoObject _) =
     (ty \<notin> {''string'', ''integer'', ''int'', ''number'', ''float'', ''boolean'', ''bool'', ''array''})"

lemma validate_type_iff: "validate_type name v ty = None \<longleftrightarrow> value_has_type ty v"
  by (cases v) (simp_all add: validate_type_def)

definition param_conforms :: "go_params \<Rightarrow> tool_parameter \<Rightarrow> bool" where
  "param_conforms params p =
     (case params (tp_name p) of
        None \<Rightarrow> \<not> tp_required p
      | Some v \<Rightarrow> value_has_type (tp_type p) v \<and>
          (\<forall>s. v = GoString s \<longrightarrow> tp_enum p = [] \<or> s \<in> set (tp_enum p)))"

lemma validate_param_iff: "validate_param params p = None \<longleftrightarrow> param_conforms params p"
proof (cases "params (tp_name p)")
  case (Some v)
  have "validate_enum p v = None \<longleftrightarrow> (\<forall>s. v = GoString s \<longrightarrow> tp_enum p = [] \<or> s \<in> set (tp_enum p))"
    by (cases v) (simp_all add: validate_enum_def)
  with Some validate_type_iff [of "tp_name p" v "tp_type p"] show ?thesis
    by (cases "validate_type (tp_name p) v (tp_type p)")
      (simp_all add: validate_param_def param_conforms_def del: value_has_type.simps)
qed (simp add: validate_param_def param_conforms_def)


definition demo_tool :: "nat tool" where
  "demo_tool =
     \<lparr>tool_def = \<lparr>td_name = ''read'', td_description = [],
        td_parameters = [\<lparr>tp_name = ''offset'', tp_type = ''integer'', tp_description = [], tp_required = True,
                          tp_enum = [], tp_default = GoNil, tp_schema = None\<rparr>]\<rparr>,
      tool_run = (\<lambda>w params. (w + 1, Inr ''done''))\<rparr>"


end
