(* ===== verification/Text_Tool_Calls.thy ===== *)
theory Text_Tool_Calls
  imports Tool_Registry Json_Text
begin

text \<open>
  Tool calls that a model writes as JSON text instead of calling natively (\<open>parseFencedJSONToolCalls\<close> in
  \<open>internal/agent/loop.go\<close>). \<open>unmarshal\<close> decodes a JSON object, \<open>marshal\<close> encodes a value; decoding what was
  encoded gives the value back, so the second decoding of the arguments is the value itself.
\<close>

fun fence_lines :: "bool \<Rightarrow> string list \<Rightarrow> string list" where
  "fence_lines in_block [] = []"
| "fence_lines in_block (l # ls) =
     (if has_prefix (trim_space l) fence then (if in_block then [] else fence_lines True ls)
      else if in_block then l # fence_lines in_block ls
      else fence_lines in_block ls)"

definition strip_call_fence :: "string \<Rightarrow> string" where
  "strip_call_fence content =
     (if has_prefix content fence then
        (let ls = fence_lines False (split_on (CHR 0x0A) content)
         in if ls \<noteq> [] then join nl ls else content)
      else content)"

definition json_key :: "string \<Rightarrow> string" where
  "json_key k = [CHR 0x22] @ k @ [CHR 0x22]"

definition decode_call :: "(string \<Rightarrow> string + go_params) \<Rightarrow> string \<Rightarrow> go_params option" where
  "decode_call unmarshal content =
     (case unmarshal content of
        Inr raw \<Rightarrow> Some raw
      | Inl _ \<Rightarrow>
          (case (str_index content ''{'', str_last_index_char content (CHR ''}'')) of
             (Some a, Some b) \<Rightarrow>
               if b \<le> a then None
               else (case unmarshal (take (b + 1 - a) (drop a content)) of
                       Inr raw \<Rightarrow> Some raw
                     | Inl _ \<Rightarrow> None)
           | _ \<Rightarrow> None))"

definition normalize_tool_name :: "string \<Rightarrow> string" where
  "normalize_tool_name name =
     (let l = to_lower name in
      if l \<in> {''write'', ''create'', ''save'', ''read'', ''open''} then ''file''
      else if l \<in> {''execute'', ''run'', ''bash'', ''shell''} then ''terminal''
      else name)"

definition infer_operation :: "go_value \<Rightarrow> go_value" where
  "infer_operation args =
     (case args of
        GoObject kvs \<Rightarrow>
          if map_of kvs ''operation'' \<noteq> None then args
          else if map_of kvs ''content'' \<noteq> None then GoObject (kvs @ [(''operation'', GoString ''write'')])
          else if map_of kvs ''path'' \<noteq> None then GoObject (kvs @ [(''operation'', GoString ''read'')])
          else args
      | _ \<Rightarrow> args)"

definition parse_fenced_json_tool_calls ::
  "(string \<Rightarrow> string + go_params) \<Rightarrow> (go_value \<Rightarrow> string) \<Rightarrow> int \<Rightarrow> string \<Rightarrow> tool_call list" where
  "parse_fenced_json_tool_calls unmarshal marshal nano content0 =
     (let content = trim_space content0 in
      if content = [] then []
      else
        let content = trim_space (strip_call_fence content) in
        if \<not> contains_str content (json_key ''name'') \<or> \<not> contains_str content (json_key ''arguments'') then []
        else
          (case decode_call unmarshal content of
             None \<Rightarrow> []
           | Some raw \<Rightarrow>
               (case (raw ''name'', raw ''arguments'') of
                  (Some (GoString name), Some args) \<Rightarrow>
                    if name = [] then []
                    else
                      let name = normalize_tool_name name;
                          args = (if name = ''file'' then infer_operation args else args)
                      in [\<lparr>tc_id = ''textcall_'' @ itoa nano, tc_name = name, tc_arguments = marshal args\<rparr>]
                | _ \<Rightarrow> [])))"

lemma parse_fenced_at_most_one: "length (parse_fenced_json_tool_calls unmarshal marshal nano content) \<le> 1"
  by (auto simp: parse_fenced_json_tool_calls_def Let_def split: option.split go_value.split)

lemma parse_fenced_no_marker:
  "\<not> contains_str (trim_space (strip_call_fence (trim_space content))) (json_key ''arguments'') \<Longrightarrow>
     parse_fenced_json_tool_calls unmarshal marshal nano content = []"
  by (simp add: parse_fenced_json_tool_calls_def Let_def)

end
