(* ===== verification/ReAct_Loop.thy ===== *)
theory ReAct_Loop
  imports Text_Tool_Calls Conversation Orch_Steps
begin

text \<open>
  The ReAct strategy (\<open>internal/agent/strategy_react.go\<close>, with \<open>think\<close> and \<open>act\<close> of \<open>internal/agent/loop.go\<close>),
  its streaming version (\<open>ExecuteStream\<close>) and the choice of a strategy (\<open>Execute\<close>). The model, the tools, the
  approval of a call, the memory and the recorder act on a world \<open>'w\<close>. The approved calls of one turn run
  concurrently: \<open>re_schedule\<close> is the order in which they take effect, each call being atomic. Progress events,
  durations, token totals and logging are left out.
\<close>

section \<open>Data\<close>

definition dquote :: string where
  "dquote = [CHR 0x22]"

definition squote :: string where
  "squote = [CHR 0x27]"

definition react_dash :: string where
  "react_dash = [CHR 0xE2, CHR 0x80, CHR 0x94]"

definition critical_rules :: string where
  "critical_rules = join nl
     [[],
      [],
      ''CRITICAL RULES:'',
      ''- NEVER claim a task is done without VERIFYING it actually works. '' @ dquote @ ''Exit code 0'' @ dquote @ '' is NOT proof '' @ react_dash @ '' test the result yourself.'',
      ''- If a command or operation FAILS or produces unexpected output, you MUST investigate the error, diagnose the root cause, and fix it. Do NOT give up after one attempt.'',
      ''- When a build, server, or deployment fails: read the error output, fix the code/config, and try AGAIN. Retry at least 2-3 times with different approaches before reporting failure.'',
      ''- NEVER say '' @ dquote @ ''please provide more details'' @ dquote @ '' or '' @ dquote @ ''please share the error'' @ dquote @ '' '' @ react_dash @ '' you have tools, USE THEM to find and fix the problem yourself.'',
      ''- When you give your final response, write in PAST TENSE '' @ react_dash @ '' describe what you DID, not what you plan to do.'',
      ''- NEVER start your response with '' @ dquote @ ''Let me...'' @ dquote @ '', '' @ dquote @ ''I'' @ squote @ ''ll...'' @ dquote @ '', '' @ dquote @ ''I will...'' @ dquote @ '', or '' @ dquote @ ''Now I'' @ squote @ ''ll...'' @ dquote @ ''. Use tools directly.'',
      ''- Your response is a SUMMARY of completed, VERIFIED work '' @ react_dash @ '' not a proposal or a guess.'',
      ''- If you could NOT complete the task despite trying, say so HONESTLY '' @ react_dash @ '' explain what failed and what you tried. Do NOT pretend it worked.'']"

record llm_reply =
  lr_content :: string
  lr_calls :: "tool_call list"
  lr_completion_tokens :: int

record react_config =
  rc_max_iterations :: int
  rc_max_continuations :: int
  rc_system_prompt :: string
  rc_max_tokens :: int
  rc_max_context_tokens :: int
  rc_enable_memory :: bool

record task_record =
  rec_task :: string
  rec_tools_used :: "string set"
  rec_iterations :: int
  rec_tool_calls :: int
  rec_success :: bool
  rec_error :: string

text \<open>The agent reaches its tools through the method \<open>Execute\<close> of the interface \<open>ToolProvider\<close>.\<close>

type_synonym 'w tool_provider = "'w \<Rightarrow> string \<Rightarrow> go_params \<Rightarrow> 'w \<times> (tool_error + string)"

record 'w react_env =
  re_config :: react_config
  re_inject :: "string \<Rightarrow> string"
  re_route :: "'w \<Rightarrow> conversation \<Rightarrow> 'w \<times> (string + llm_reply)"
  re_tools :: "'w tool_provider option"
  re_unmarshal :: "string \<Rightarrow> string + go_params"
  re_marshal :: "go_value \<Rightarrow> string"
  re_nano :: "'w \<Rightarrow> int"
  re_approval :: "('w \<Rightarrow> string \<Rightarrow> string \<Rightarrow> 'w \<times> (string + bool)) option"
  re_schedule :: "'w \<Rightarrow> nat list \<Rightarrow> nat list"
  re_remember :: "('w \<Rightarrow> string \<Rightarrow> bool \<Rightarrow> 'w) option"
  re_record :: "'w \<Rightarrow> task_record \<Rightarrow> 'w"

record 'w react_state =
  rs_world :: 'w
  rs_convo :: conversation
  rs_calls :: int
  rs_iters :: int
  rs_used :: "string set"
  rs_log :: "(string \<times> string \<times> bool) list"
  rs_final :: string
  rs_error :: "string option"
  rs_empty_retried :: bool
  rs_truncation_retried :: bool

section \<open>Thinking and acting\<close>

definition think :: "('w, 'x) react_env_scheme \<Rightarrow> 'w \<Rightarrow> conversation \<Rightarrow> 'w \<times> (string + llm_reply)" where
  "think env w convo =
     (case re_route env w convo of
        (w', Inl e) \<Rightarrow> (w', Inl (''LLM routing failed: '' @ e))
      | (w', Inr r) \<Rightarrow> (w', Inr r))"

definition act :: "('w, 'x) react_env_scheme \<Rightarrow> 'w \<Rightarrow> tool_call \<Rightarrow> 'w \<times> (string + string)" where
  "act env w tc =
     (case re_tools env of
        None \<Rightarrow> (w, Inl ''no tool registry available'')
      | Some exec \<Rightarrow>
          (case parse_tool_call_arguments (re_unmarshal env) (tc_arguments tc) of
             Inl e \<Rightarrow> (w, Inl (''failed to parse tool arguments: '' @ e))
           | Inr params \<Rightarrow>
               (case exec w (tc_name tc) params of
                  (w', Inl e) \<Rightarrow> (w', Inl (tool_error_text e))
                | (w', Inr out) \<Rightarrow> (w', Inr out))))"

text \<open>Phase 1: the approvals, one after the other; \<open>Some\<close> message denies the call.\<close>

definition denied_message :: "string + bool \<Rightarrow> string option" where
  "denied_message ans =
     (case ans of
        Inl e \<Rightarrow> Some (''Tool execution DENIED by user.'' @ '' Error: '' @ e)
      | Inr ok \<Rightarrow> if ok then None else Some ''Tool execution DENIED by user.'')"

fun approve_calls :: "('w, 'x) react_env_scheme \<Rightarrow> 'w \<Rightarrow> tool_call list \<Rightarrow> 'w \<times> string option list" where
  "approve_calls env w [] = (w, [])"
| "approve_calls env w (tc # tcs) =
     (let (w1, d) = (case re_approval env of
                       None \<Rightarrow> (w, None)
                     | Some ask \<Rightarrow> (case ask w (tc_name tc) (tc_arguments tc) of (w1, ans) \<Rightarrow> (w1, denied_message ans)));
          (w2, ds) = approve_calls env w1 tcs
      in (w2, d # ds))"

text \<open>Phase 2: the approved calls in the order of the schedule; each stores its result under its index.\<close>

fun run_scheduled ::
  "('w, 'x) react_env_scheme \<Rightarrow> tool_call list \<Rightarrow> 'w \<Rightarrow> (nat \<rightharpoonup> string + string) \<Rightarrow> nat list
     \<Rightarrow> 'w \<times> (nat \<rightharpoonup> string + string)" where
  "run_scheduled env tcs w res [] = (w, res)"
| "run_scheduled env tcs w res (i # is) =
     (let (w1, r) = act env w (tcs ! i) in run_scheduled env tcs w1 (res(i \<mapsto> r)) is)"

text \<open>Phase 3: the results in the order of the calls; a slot that was never filled is empty.\<close>

definition observe_call ::
  "string option list \<Rightarrow> (nat \<rightharpoonup> string + string) \<Rightarrow> 'w react_state \<Rightarrow> nat \<times> tool_call \<Rightarrow> 'w react_state" where
  "observe_call ds res st itc =
     (let (i, tc) = itc;
          (text, success) =
            (case ds ! i of
               Some msg \<Rightarrow> (msg, False)
             | None \<Rightarrow>
                 (case res i of
                    None \<Rightarrow> ([], True)
                  | Some (Inl e) \<Rightarrow> (''Error: '' @ e, False)
                  | Some (Inr out) \<Rightarrow> (out, True)))
      in st\<lparr>rs_convo := add_tool_result (tc_id tc) (truncate_tool_result text 4000) (rs_convo st),
            rs_log := rs_log st @ [(tc_name tc, tc_arguments tc, success)],
            rs_used := insert (tc_name tc) (rs_used st),
            rs_calls := rs_calls st + 1\<rparr>)"

definition approved_indices :: "string option list \<Rightarrow> nat list" where
  "approved_indices ds = filter (\<lambda>i. ds ! i = None) [0..<length ds]"

definition react_act :: "('w, 'x) react_env_scheme \<Rightarrow> string \<Rightarrow> tool_call list \<Rightarrow> 'w react_state \<Rightarrow> 'w react_state" where
  "react_act env content tcs st =
     (let (w1, ds) = approve_calls env (rs_world st) tcs;
          (w2, res) = run_scheduled env tcs w1 Map.empty (re_schedule env w1 (approved_indices ds));
          st1 = st\<lparr>rs_world := w2, rs_convo := add_assistant_message content tcs (rs_convo st)\<rparr>
      in foldl (observe_call ds res) st1 (zip [0..<length tcs] tcs))"

section \<open>The loop\<close>

definition cap_nudge :: string where
  "cap_nudge = ''You have used 15+ tool calls. You MUST stop now. Give your final answer summarizing what you accomplished and what'' @ squote @ ''s left to do. Do NOT call any more tools.''"

definition truncation_nudge :: string where
  "truncation_nudge = ''Your previous response was cut off due to length. DO NOT explain or describe what you will do. Instead, call the file tool directly with operation='' @ dquote @ ''write'' @ dquote @ '' to create the file. Keep the content concise but complete.''"

definition empty_nudge :: string where
  "empty_nudge = ''You completed the task using tools. Now provide a brief summary of what you did in one or two sentences.''"

definition continue_nudge :: "int \<Rightarrow> string" where
  "continue_nudge n = ''You'' @ squote @ ''ve made good progress with '' @ itoa n @ '' tool calls. Continue from where you left off '' @ react_dash @ '' don'' @ squote @ ''t repeat work you'' @ squote @ ''ve already done. Complete the task and provide your final answer when done.''"

definition default_summary :: string where
  "default_summary = ''Done. I completed the task successfully.''"

definition err_max_iterations :: string where
  "err_max_iterations = ''maximum iterations exceeded''"

definition react_tool_cap :: int where
  "react_tool_cap = 15"

definition compact_context :: "('w, 'x) react_env_scheme \<Rightarrow> conversation \<Rightarrow> conversation" where
  "compact_context env convo =
     (if token_count convo > rc_max_context_tokens (re_config env)
      then smart_compact (rc_max_context_tokens (re_config env) div 2) convo else convo)"

text \<open>The calls of a reply, native or written as text.\<close>

definition effective_reply :: "('w, 'x) react_env_scheme \<Rightarrow> 'w \<Rightarrow> llm_reply \<Rightarrow> llm_reply" where
  "effective_reply env w r =
     (if lr_calls r = [] \<and> lr_content r \<noteq> [] then
        (let ex = parse_fenced_json_tool_calls (re_unmarshal env) (re_marshal env) (re_nano env w) (lr_content r)
         in if ex \<noteq> [] then r\<lparr>lr_calls := ex, lr_content := []\<rparr> else r)
      else r)"

text \<open>One iteration; the flag says that the loops are left.\<close>

definition react_iteration :: "('w, 'x) react_env_scheme \<Rightarrow> int \<Rightarrow> 'w react_state \<Rightarrow> 'w react_state \<times> bool" where
  "react_iteration env iter st0 =
     (let st = st0\<lparr>rs_iters := rs_iters st0 + 1, rs_convo := compact_context env (rs_convo st0)\<rparr> in
      case think env (rs_world st) (rs_convo st) of
        (w, Inl e) \<Rightarrow> (st\<lparr>rs_world := w, rs_error := Some e\<rparr>, True)
      | (w, Inr reply) \<Rightarrow>
          let st = st\<lparr>rs_world := w\<rparr>;
              r = effective_reply env w reply
          in if lr_calls r \<noteq> [] then
               (if rs_calls st \<ge> react_tool_cap
                then (st\<lparr>rs_convo := add_message RoleUser cap_nudge (rs_convo st)\<rparr>, False)
                else (react_act env (lr_content r) (lr_calls r) st, False))
             else if lr_completion_tokens r \<ge> rc_max_tokens (re_config env) - 200 \<and> \<not> rs_truncation_retried st
                 \<and> iter < rc_max_iterations (re_config env)
             then (st\<lparr>rs_truncation_retried := True, rs_convo := add_message RoleUser truncation_nudge (rs_convo st)\<rparr>, False)
             else if lr_content r = [] \<and> rs_calls st > 0 then
               (if \<not> rs_empty_retried st
                then (st\<lparr>rs_empty_retried := True, rs_convo := add_message RoleUser empty_nudge (rs_convo st)\<rparr>, False)
                else (st\<lparr>rs_final := default_summary\<rparr>, True))
             else (st\<lparr>rs_final := lr_content r\<rparr>, True))"

text \<open>The iterations of one round: \<open>n\<close> of them are left, \<open>iter\<close> is the number of the next.\<close>

fun react_round :: "('w, 'x) react_env_scheme \<Rightarrow> nat \<Rightarrow> int \<Rightarrow> 'w react_state \<Rightarrow> 'w react_state \<times> bool" where
  "react_round env 0 iter st = (st, False)"
| "react_round env (Suc n) iter st =
     (case react_iteration env iter st of
        (st', True) \<Rightarrow> (st', True)
      | (st', False) \<Rightarrow> react_round env n (iter + 1) st')"

text \<open>The rounds: \<open>k\<close> more may follow this one.\<close>

fun react_rounds :: "('w, 'x) react_env_scheme \<Rightarrow> nat \<Rightarrow> 'w react_state \<Rightarrow> 'w react_state" where
  "react_rounds env k st =
     (case react_round env (nat (rc_max_iterations (re_config env))) 1 st of
        (st', True) \<Rightarrow> st'
      | (st', False) \<Rightarrow>
          if rs_calls st' = rs_calls st then st'
          else case k of
                 0 \<Rightarrow> st'
               | Suc k' \<Rightarrow>
                   react_rounds env k'
                     (st'\<lparr>rs_convo := add_message RoleUser (continue_nudge (rs_calls st')) (rs_convo st')\<rparr>))"

declare react_rounds.simps [simp del]

definition max_rounds :: "react_config \<Rightarrow> int" where
  "max_rounds cfg = (if rc_max_continuations cfg \<le> 0 then 3 else rc_max_continuations cfg)"

definition react_initial :: "('w, 'x) react_env_scheme \<Rightarrow> string \<Rightarrow> 'w \<Rightarrow> 'w react_state" where
  "react_initial env task w =
     (let injected = re_inject env task;
          sys = rc_system_prompt (re_config env) @ (if injected \<noteq> [] then nl @ nl @ injected else []) @ critical_rules
      in \<lparr>rs_world = w, rs_convo = add_message RoleUser task (add_message RoleSystem sys []),
          rs_calls = 0, rs_iters = 0, rs_used = {}, rs_log = [], rs_final = [], rs_error = None,
          rs_empty_retried = False, rs_truncation_retried = False\<rparr>)"

definition react_close :: "'w react_state \<Rightarrow> 'w react_state" where
  "react_close st =
     (if rs_final st = [] \<and> rs_error st = None then
        (if rs_calls st > 0
         then st\<lparr>rs_final := ''Done. I completed the task using '' @ itoa (rs_calls st) @ '' tool calls across '' @
                  itoa (rs_iters st) @ '' iterations.''\<rparr>
         else st\<lparr>rs_error := Some err_max_iterations\<rparr>)
      else st)"

definition react_record :: "string \<Rightarrow> 'w react_state \<Rightarrow> task_record" where
  "react_record task st =
     \<lparr>rec_task = task, rec_tools_used = rs_used st, rec_iterations = rs_iters st, rec_tool_calls = rs_calls st,
      rec_success = (rs_final st \<noteq> [] \<and> rs_error st = None),
      rec_error = (case rs_error st of None \<Rightarrow> [] | Some e \<Rightarrow> e)\<rparr>"

text \<open>The result and the error that are returned.\<close>

definition execute_react :: "('w, 'x) react_env_scheme \<Rightarrow> string \<Rightarrow> 'w \<Rightarrow> 'w \<times> task_result \<times> string option" where
  "execute_react env task w =
     (let st = react_close (react_rounds env (nat (max_rounds (re_config env))) (react_initial env task w));
          w1 = (case re_remember env of
                  Some store \<Rightarrow>
                    if rc_enable_memory (re_config env) \<and> rs_final st \<noteq> []
                    then store (rs_world st) (''Task: '' @ task @ nl @ ''Result: '' @ rs_final st) (rs_error st = None)
                    else rs_world st
                | None \<Rightarrow> rs_world st);
          w2 = re_record env w1 (react_record task st);
          content = sanitize_content (rs_final st)
      in (w2, \<lparr>tr_content = content, tr_role = [], tr_tool_calls_made = rs_calls st, tr_iterations = rs_iters st,
            tr_tool_log = rs_log st\<rparr>,
          (if rs_error st \<noteq> None \<and> content = [] then rs_error st else None)))"

section \<open>The choice of a strategy\<close>

datatype strategy = SkillPath string | ThinkingPath | SprintPath | OrchestratedPath | ReActPath

definition choose_strategy ::
  "bool \<Rightarrow> (string \<Rightarrow> string option) option \<Rightarrow> bool \<Rightarrow> bool \<Rightarrow> bool \<Rightarrow> string \<Rightarrow> strategy" where
  "choose_strategy enable_skills skill_match thinking sprint orchestration task =
     (let rest = (if thinking then ThinkingPath else if sprint then SprintPath
                  else if orchestration then OrchestratedPath else ReActPath)
      in case skill_match of
           None \<Rightarrow> rest
         | Some match \<Rightarrow>
             if enable_skills \<and> \<not> looks_like_build_task task
             then (case match task of Some s \<Rightarrow> SkillPath s | None \<Rightarrow> rest)
             else rest)"

section \<open>Streaming\<close>

record stream_chunk =
  sc_content :: string
  sc_call :: "tool_call option"
  sc_done :: bool
  sc_error :: "string option"

definition content_chunk :: "string \<Rightarrow> stream_chunk" where
  "content_chunk c = \<lparr>sc_content = c, sc_call = None, sc_done = False, sc_error = None\<rparr>"

definition tool_call_chunk :: "tool_call \<Rightarrow> stream_chunk" where
  "tool_call_chunk tc = \<lparr>sc_content = [], sc_call = Some tc, sc_done = False, sc_error = None\<rparr>"

definition final_chunk :: "string \<Rightarrow> stream_chunk" where
  "final_chunk c = \<lparr>sc_content = c, sc_call = None, sc_done = True, sc_error = None\<rparr>"

definition error_chunk :: "string \<Rightarrow> stream_chunk" where
  "error_chunk e = \<lparr>sc_content = [], sc_call = None, sc_done = True, sc_error = Some e\<rparr>"

record 'w stream_env = "'w react_env" +
  se_route_stream :: "'w \<Rightarrow> conversation \<Rightarrow> 'w \<times> (string + stream_chunk list)"
  se_skill :: "(string \<Rightarrow> (string + string) option) option"
  se_enable_skills :: bool
  se_orchestrated :: "('w \<Rightarrow> string \<Rightarrow> 'w \<times> (string + task_result option)) option"

text \<open>
  One pass over the chunks of a reply: what is sent on, the full content, the tool calls, whether the reply was
  finished, and whether an error chunk was passed on, which ends everything.
\<close>

fun relay_chunks ::
  "string \<Rightarrow> tool_call list \<Rightarrow> bool \<Rightarrow> stream_chunk list
     \<Rightarrow> stream_chunk list \<times> string \<times> tool_call list \<times> bool \<times> bool" where
  "relay_chunks full calls fin [] = ([], full, calls, fin, False)"
| "relay_chunks full calls fin (ck # cks) =
     (let sent = (if sc_content ck \<noteq> [] then [content_chunk (sc_content ck)] else []) @
                 (case sc_call ck of None \<Rightarrow> [] | Some tc \<Rightarrow> [tool_call_chunk tc]);
          full = full @ sc_content ck;
          calls = calls @ (case sc_call ck of None \<Rightarrow> [] | Some tc \<Rightarrow> [tc]);
          fin = (fin \<or> sc_done ck)
      in if sc_error ck \<noteq> None then (sent @ [ck], full, calls, fin, True)
         else case relay_chunks full calls fin cks of (out, rest) \<Rightarrow> (sent @ out, rest))"

fun act_in_order :: "('w, 'x) react_env_scheme \<Rightarrow> 'w \<Rightarrow> conversation \<Rightarrow> tool_call list \<Rightarrow> 'w \<times> conversation" where
  "act_in_order env w convo [] = (w, convo)"
| "act_in_order env w convo (tc # tcs) =
     (case act env w tc of
        (w1, r) \<Rightarrow>
          act_in_order env w1
            (add_tool_result (tc_id tc) (case r of Inl e \<Rightarrow> ''Error: '' @ e | Inr out \<Rightarrow> out) convo) tcs)"

fun stream_loop :: "'w stream_env \<Rightarrow> nat \<Rightarrow> 'w \<Rightarrow> conversation \<Rightarrow> 'w \<times> stream_chunk list" where
  "stream_loop env 0 w convo = (w, [error_chunk err_max_iterations])"
| "stream_loop env (Suc n) w convo =
     (case se_route_stream env w convo of
        (w1, Inl e) \<Rightarrow> (w1, [error_chunk e])
      | (w1, Inr cks) \<Rightarrow>
          (case relay_chunks [] [] False cks of
             (out, full, calls, fin, failed) \<Rightarrow>
               if failed then (w1, out)
               else if calls \<noteq> [] then
                 (case act_in_order env w1 (add_assistant_message full calls convo) calls of
                    (w2, convo2) \<Rightarrow>
                      (case stream_loop env n w2 convo2 of (w3, later) \<Rightarrow> (w3, out @ later)))
               else if fin then (w1, out @ [final_chunk full])
               else (case stream_loop env n w1 convo of (w3, later) \<Rightarrow> (w3, out @ later))))"

definition orchestrated_chunks :: "string + task_result option \<Rightarrow> stream_chunk list" where
  "orchestrated_chunks res =
     (case res of
        Inl e \<Rightarrow> [error_chunk (''orchestrator failed: '' @ e)]
      | Inr None \<Rightarrow> [error_chunk ''orchestrator returned no content'']
      | Inr (Some r) \<Rightarrow>
          if trim_space (tr_content r) = [] then [error_chunk ''orchestrator returned no content'']
          else [final_chunk (tr_content r)])"

definition skill_chunks :: "'w stream_env \<Rightarrow> string \<Rightarrow> stream_chunk list option" where
  "skill_chunks env task =
     (if se_enable_skills env \<and> \<not> looks_like_build_task task then
        (case se_skill env of
           None \<Rightarrow> None
         | Some match \<Rightarrow>
             (case match task of
                None \<Rightarrow> None
              | Some (Inl e) \<Rightarrow> Some [error_chunk (''skill execution failed: '' @ e)]
              | Some (Inr out) \<Rightarrow> Some [final_chunk out]))
      else None)"

definition stream_initial :: "'w stream_env \<Rightarrow> string \<Rightarrow> conversation" where
  "stream_initial env task =
     (let injected = re_inject env task
      in add_message RoleUser task
           (add_message RoleSystem
              (rc_system_prompt (re_config env) @ (if injected \<noteq> [] then nl @ nl @ injected else [])) []))"

definition execute_stream :: "'w stream_env \<Rightarrow> string \<Rightarrow> 'w \<Rightarrow> 'w \<times> stream_chunk list" where
  "execute_stream env task w =
     (case skill_chunks env task of
        Some cks \<Rightarrow> (w, cks)
      | None \<Rightarrow>
          (case se_orchestrated env of
             Some orch \<Rightarrow> (case orch w task of (w1, res) \<Rightarrow> (w1, orchestrated_chunks res))
           | None \<Rightarrow> stream_loop env (nat (rc_max_iterations (re_config env))) w (stream_initial env task)))"

section \<open>Lemmas\<close>

lemma observe_calls_counters:
  "rs_calls (foldl (observe_call ds res) st its) = rs_calls st + int (length its)"
  "rs_iters (foldl (observe_call ds res) st its) = rs_iters st"
  by (induction its arbitrary: st) (auto simp: observe_call_def Let_def split: prod.splits)

lemma react_act_counters:
  "rs_calls (react_act env content tcs st) = rs_calls st + int (length tcs)"
  "rs_iters (react_act env content tcs st) = rs_iters st"
  by (simp_all add: react_act_def Let_def observe_calls_counters split: prod.splits)

text \<open>What the model, the approvals, the tools and the records of an agent keep of the world, the whole run keeps.\<close>

definition world_kept :: "('w, 'x) react_env_scheme \<Rightarrow> ('w \<Rightarrow> bool) \<Rightarrow> bool" where
  "world_kept env P \<longleftrightarrow>
     (\<forall>w c. P w \<longrightarrow> P (fst (re_route env w c))) \<and>
     (\<forall>w tc. P w \<longrightarrow> P (fst (act env w tc))) \<and>
     (\<forall>ask w n a. re_approval env = Some ask \<longrightarrow> P w \<longrightarrow> P (fst (ask w n a))) \<and>
     (\<forall>store w s ok. re_remember env = Some store \<longrightarrow> P w \<longrightarrow> P (store w s ok)) \<and>
     (\<forall>w rec. P w \<longrightarrow> P (re_record env w rec))"

lemma think_keeps: "world_kept env P \<Longrightarrow> P w \<Longrightarrow> P (fst (think env w c))"
  by (simp add: world_kept_def think_def split: prod.splits sum.splits) (metis fst_conv)

lemma approve_calls_keeps: "world_kept env P \<Longrightarrow> P w \<Longrightarrow> P (fst (approve_calls env w tcs))"
proof (induction tcs arbitrary: w)
  case (Cons tc tcs)
  show ?case
  proof (cases "re_approval env")
    case None
    with Cons show ?thesis by (simp split: prod.splits) (metis fst_conv)
  next
    case (Some ask)
    obtain w1 ans where a: "ask w (tc_name tc) (tc_arguments tc) = (w1, ans)" by force
    with Cons.prems Some have "P w1" unfolding world_kept_def by (metis fst_conv)
    from Cons.IH [OF Cons.prems(1) this] Some a show ?thesis by (simp add: case_prod_beta)
  qed
qed simp

lemma run_scheduled_keeps: "world_kept env P \<Longrightarrow> P w \<Longrightarrow> P (fst (run_scheduled env tcs w res is))"
proof (induction "is" arbitrary: w res)
  case (Cons i "is")
  obtain w1 r where a: "act env w (tcs ! i) = (w1, r)" by force
  with Cons.prems have "P w1" unfolding world_kept_def by (metis fst_conv)
  from Cons.IH [OF Cons.prems(1) this] a show ?case by simp
qed simp

lemma observe_calls_world: "rs_world (foldl (observe_call ds res) st its) = rs_world st"
  by (induction its arbitrary: st) (auto simp: observe_call_def Let_def split: prod.splits)

lemma react_act_keeps: "world_kept env P \<Longrightarrow> P (rs_world st) \<Longrightarrow> P (rs_world (react_act env content tcs st))"
proof -
  assume k: "world_kept env P" and p: "P (rs_world st)"
  obtain w1 ds where a: "approve_calls env (rs_world st) tcs = (w1, ds)" by force
  with approve_calls_keeps [OF k p, of tcs] have w1: "P w1" by simp
  obtain w2 res where r: "run_scheduled env tcs w1 Map.empty (re_schedule env w1 (approved_indices ds)) = (w2, res)"
    by force
  from run_scheduled_keeps [OF k w1] r have "P w2" by (metis fst_conv)
  with a r show ?thesis by (simp add: react_act_def observe_calls_world)
qed

lemma react_iteration_keeps:
  assumes k: "world_kept env P" and p: "P (rs_world st)"
  shows "P (rs_world (fst (react_iteration env iter st)))"
proof -
  let ?c = "compact_context env (rs_convo st)"
  obtain w res where t: "think env (rs_world st) ?c = (w, res)" by force
  with think_keeps [OF k p, of ?c] have w: "P w" by simp
  show ?thesis
  proof (cases res)
    case (Inl e)
    with t w show ?thesis by (simp add: react_iteration_def)
  next
    case (Inr reply)
    show ?thesis using t w
      by (simp add: react_iteration_def Inr Let_def) (simp add: react_act_keeps [OF k])
  qed
qed

lemma react_round_keeps:
  "world_kept env P \<Longrightarrow> P (rs_world st) \<Longrightarrow> P (rs_world (fst (react_round env n iter st)))"
proof (induction n arbitrary: iter st)
  case (Suc n)
  obtain st' b where i: "react_iteration env iter st = (st', b)" by force
  with react_iteration_keeps [OF Suc.prems, of iter] have "P (rs_world st')" by simp
  with Suc.IH [OF Suc.prems(1) this] i show ?case by (cases b) simp_all
qed simp

lemma react_rounds_keeps: "world_kept env P \<Longrightarrow> P (rs_world st) \<Longrightarrow> P (rs_world (react_rounds env k st))"
proof (induction k arbitrary: st)
  case 0
  obtain st' b where i: "react_round env (nat (rc_max_iterations (re_config env))) 1 st = (st', b)" by force
  with react_round_keeps [OF 0] have "P (rs_world st')" by (metis fst_conv)
  with i show ?case by (cases b) (simp_all add: react_rounds.simps [of env 0])
next
  case (Suc k)
  obtain st' b where i: "react_round env (nat (rc_max_iterations (re_config env))) 1 st = (st', b)" by force
  with react_round_keeps [OF Suc.prems] have p: "P (rs_world st')" by (metis fst_conv)
  have "P (rs_world (react_rounds env k
      (st'\<lparr>rs_convo := add_message RoleUser (continue_nudge (rs_calls st')) (rs_convo st')\<rparr>)))"
    by (rule Suc.IH [OF Suc.prems(1)]) (simp add: p)
  with p i show ?case by (cases b) (simp_all add: react_rounds.simps [of env "Suc k"])
qed

lemma execute_react_keeps:
  assumes "world_kept env P" "P w"
  shows "P (fst (execute_react env task w))"
proof -
  have "P (rs_world (react_initial env task w))" using assms(2) by (simp add: react_initial_def Let_def)
  from react_rounds_keeps [OF assms(1) this] have
    "P (rs_world (react_close (react_rounds env (nat (max_rounds (re_config env))) (react_initial env task w))))"
    by (simp add: react_close_def)
  with assms(1) show ?thesis
    by (auto simp: execute_react_def Let_def world_kept_def split: option.split)
qed

text \<open>No reply of the model carries more than \<open>b\<close> tool calls.\<close>

definition replies_bounded :: "('w, 'x) react_env_scheme \<Rightarrow> nat \<Rightarrow> bool" where
  "replies_bounded env b \<longleftrightarrow> (\<forall>w c w' r. re_route env w c = (w', Inr r) \<longrightarrow> length (lr_calls r) \<le> b)"

lemma effective_reply_bounded:
  "length (lr_calls r) \<le> b \<Longrightarrow> 1 \<le> b \<Longrightarrow> length (lr_calls (effective_reply env w r)) \<le> b"
  using parse_fenced_at_most_one [of "re_unmarshal env" "re_marshal env" "re_nano env w" "lr_content r"]
  by (auto simp: effective_reply_def Let_def)

lemma react_iteration_counters:
  assumes "replies_bounded env b" "1 \<le> b" "react_iteration env iter st = (st', brk)"
  shows "rs_iters st' = rs_iters st + 1 \<and>
    (rs_calls st' = rs_calls st \<or> rs_calls st < 15 \<and> rs_calls st' \<le> rs_calls st + int b)"
proof (cases "think env (rs_world st) (compact_context env (rs_convo st))")
  case (Pair w res)
  show ?thesis
  proof (cases res)
    case (Inl e)
    with assms(3) Pair show ?thesis by (auto simp: react_iteration_def Let_def)
  next
    case (Inr reply)
    with Pair have "length (lr_calls reply) \<le> b"
      using assms(1) by (auto simp: think_def replies_bounded_def split: prod.splits sum.splits)
    then have "length (lr_calls (effective_reply env w reply)) \<le> b"
      using assms(2) by (rule effective_reply_bounded)
    with assms(3) Pair Inr show ?thesis
      by (auto simp: react_iteration_def Let_def react_act_counters react_tool_cap_def split: if_splits)
  qed
qed

lemma react_round_counters:
  assumes "replies_bounded env b" "1 \<le> b" "react_round env n iter st = (st', brk)"
    and "rs_calls st \<le> 14 + int b"
  shows "rs_iters st' \<le> rs_iters st + int n \<and> rs_iters st \<le> rs_iters st' \<and>
    rs_calls st' \<le> 14 + int b \<and> rs_calls st \<le> rs_calls st'"
  using assms(3,4)
proof (induction n arbitrary: iter st)
  case (Suc n)
  obtain st1 brk1 where it: "react_iteration env iter st = (st1, brk1)" by force
  have calls_mono: "rs_calls st \<le> rs_calls st1"
    using it by (auto simp: react_iteration_def Let_def react_act_counters split: prod.splits sum.splits if_splits)
  note c = react_iteration_counters [OF assms(1,2) it]
  then have "rs_calls st1 \<le> 14 + int b" using Suc.prems(2) by auto
  with Suc.IH [of "iter + 1" st1] Suc.prems(1) it c calls_mono show ?case
    by (cases brk1) auto
qed simp

lemma react_rounds_counters:
  assumes "replies_bounded env b" "1 \<le> b" "rs_calls st \<le> 14 + int b"
  shows "rs_iters (react_rounds env k st)
      \<le> rs_iters st + int (nat (rc_max_iterations (re_config env))) * (int k + 1) \<and>
    rs_calls (react_rounds env k st) \<le> 14 + int b"
  using assms(3)
proof (induction k arbitrary: st)
  case 0
  obtain st1 brk where "react_round env (nat (rc_max_iterations (re_config env))) 1 st = (st1, brk)" by force
  with react_round_counters [OF assms(1,2) this 0] show ?case
    by (auto simp: react_rounds.simps [of env 0] split: bool.split)
next
  case (Suc k)
  let ?m = "nat (rc_max_iterations (re_config env))"
  obtain st1 brk where r: "react_round env ?m 1 st = (st1, brk)" by force
  note c = react_round_counters [OF assms(1,2) r Suc.prems]
  let ?st2 = "st1\<lparr>rs_convo := add_message RoleUser (continue_nudge (rs_calls st1)) (rs_convo st1)\<rparr>"
  have ih: "rs_iters (react_rounds env k ?st2) \<le> rs_iters st1 + int ?m * (int k + 1) \<and>
      rs_calls (react_rounds env k ?st2) \<le> 14 + int b"
    using Suc.IH [of ?st2] c by simp
  have e: "int ?m * (int (Suc k) + 1) = int ?m + int ?m * (int k + 1)" by (simp add: algebra_simps)
  have nn: "0 \<le> int ?m * (int k + 1)" by simp
  show ?case
  proof (cases "brk \<or> rs_calls st1 = rs_calls st")
    case True
    then have eq: "react_rounds env (Suc k) st = st1"
      using r by (auto simp: react_rounds.simps [of env "Suc k"] split: bool.split)
    with c [THEN conjunct1] c [THEN conjunct2, THEN conjunct2, THEN conjunct1] nn show ?thesis
      unfolding e eq by (intro conjI) linarith+
  next
    case False
    then have eq: "react_rounds env (Suc k) st = react_rounds env k ?st2"
      using r by (auto simp: react_rounds.simps [of env "Suc k"])
    with c [THEN conjunct1] ih [THEN conjunct1] ih [THEN conjunct2] show ?thesis
      unfolding e eq by (intro conjI) linarith+
  qed
qed

text \<open>
  C14: the budget of a ReAct task: at most \<open>MaxIterations\<close> model calls in each of the rounds, and, because the cap of
  15 is only looked at before a batch of calls, at most 14 tool calls plus one batch.
\<close>

theorem react_budget:
  assumes "replies_bounded env b" "1 \<le> b" "execute_react env task w = (w', tr, err)"
  shows "tr_iterations tr \<le> int (nat (rc_max_iterations (re_config env))) * (max_rounds (re_config env) + 1) \<and>
    tr_tool_calls_made tr \<le> 14 + int b"
proof -
  let ?st = "react_rounds env (nat (max_rounds (re_config env))) (react_initial env task w)"
  have close: "rs_iters (react_close st) = rs_iters st" "rs_calls (react_close st) = rs_calls st"
    for st :: "'a react_state" by (simp_all add: react_close_def)
  have "tr_iterations tr = rs_iters ?st \<and> tr_tool_calls_made tr = rs_calls ?st"
    using assms(3) by (auto simp: execute_react_def Let_def close)
  moreover have "int (nat (max_rounds (re_config env))) = max_rounds (re_config env)"
    by (simp add: max_rounds_def)
  ultimately show ?thesis
    using react_rounds_counters [OF assms(1,2), of "react_initial env task w" "nat (max_rounds (re_config env))"]
    by (simp add: react_initial_def Let_def)
qed

text \<open>An operator who allows nothing.\<close>

definition denies_all :: "('w, 'x) react_env_scheme \<Rightarrow> bool" where
  "denies_all env \<longleftrightarrow> (\<exists>ask. re_approval env = Some ask \<and> (\<forall>w name args. snd (ask w name args) \<noteq> Inr True))"

lemma approve_calls_denied:
  "denies_all env \<Longrightarrow> length (snd (approve_calls env w tcs)) = length tcs \<and> None \<notin> set (snd (approve_calls env w tcs))"
proof (induction tcs arbitrary: w)
  case (Cons tc tcs)
  from Cons.prems obtain ask where ask: "re_approval env = Some ask" "\<And>w n a. snd (ask w n a) \<noteq> Inr True"
    by (auto simp: denies_all_def)
  obtain w1 ans where a: "ask w (tc_name tc) (tc_arguments tc) = (w1, ans)" by force
  with ask(2) [of w "tc_name tc" "tc_arguments tc"] have "denied_message ans \<noteq> None"
    by (auto simp: denied_message_def split: sum.splits)
  with Cons.IH [OF Cons.prems, of w1] ask(1) a show ?case by (auto split: prod.splits)
qed simp

lemma approved_indices_denied: "None \<notin> set ds \<Longrightarrow> approved_indices ds = []"
proof -
  assume "None \<notin> set ds"
  then have "ds ! i \<noteq> None" if "i < length ds" for i
    using nth_mem [OF that] by metis
  then show ?thesis by (auto simp: approved_indices_def filter_empty_conv)
qed

lemma approve_calls_tools: "approve_calls (env\<lparr>re_tools := tools\<rparr>) w tcs = approve_calls env w tcs"
  by (induction tcs arbitrary: w) (auto split: option.split prod.split)

lemma react_act_tools:
  assumes "denies_all env" "\<And>w. re_schedule env w [] = []"
  shows "react_act (env\<lparr>re_tools := tools\<rparr>) content tcs st = react_act env content tcs st"
proof -
  obtain w1 ds where a: "approve_calls env (rs_world st) tcs = (w1, ds)" by force
  with approve_calls_denied [OF assms(1), of "rs_world st" tcs] have "approved_indices ds = []"
    by (simp add: approved_indices_denied)
  with a show ?thesis by (simp add: react_act_def approve_calls_tools assms(2))
qed

lemma react_iteration_tools:
  assumes "denies_all env" "\<And>w. re_schedule env w [] = []"
  shows "react_iteration (env\<lparr>re_tools := tools\<rparr>) iter st = react_iteration env iter st"
proof -
  have "think (env\<lparr>re_tools := tools\<rparr>) = think env" "compact_context (env\<lparr>re_tools := tools\<rparr>) = compact_context env"
    "effective_reply (env\<lparr>re_tools := tools\<rparr>) = effective_reply env"
    by (simp_all add: think_def compact_context_def effective_reply_def fun_eq_iff)
  then show ?thesis unfolding react_iteration_def Let_def
    by (intro prod.case_cong sum.case_cong refl) (simp_all add: react_act_tools [OF assms])
qed

lemma react_round_tools:
  assumes "denies_all env" "\<And>w. re_schedule env w [] = []"
  shows "react_round (env\<lparr>re_tools := tools\<rparr>) n iter st = react_round env n iter st"
  by (induction n arbitrary: iter st) (auto simp: react_iteration_tools [OF assms] split: prod.split bool.split)

lemma react_rounds_tools:
  assumes "denies_all env" "\<And>w. re_schedule env w [] = []"
  shows "react_rounds (env\<lparr>re_tools := tools\<rparr>) k st = react_rounds env k st"
proof (induction k arbitrary: st)
  case 0
  show ?case
    by (simp add: react_rounds.simps [of _ 0] react_round_tools [OF assms] split: prod.split bool.split)
next
  case (Suc k)
  then show ?case
    by (simp add: react_rounds.simps [of _ "Suc k"] react_round_tools [OF assms] split: prod.split bool.split)
qed


text \<open>A scripted model over a counter: one reply for each call.\<close>

definition scripted_env :: "(nat \<Rightarrow> llm_reply) \<Rightarrow> nat react_env" where
  "scripted_env script =
     \<lparr>re_config = \<lparr>rc_max_iterations = 20, rc_max_continuations = 1, rc_system_prompt = [], rc_max_tokens = 8192,
        rc_max_context_tokens = 8000, rc_enable_memory = False\<rparr>,
      re_inject = (\<lambda>t. []), re_route = (\<lambda>w c. (w + 1, Inr (script w))), re_tools = None,
      re_unmarshal = (\<lambda>s. Inl s), re_marshal = (\<lambda>v. []), re_nano = (\<lambda>w. 0),
      re_approval = Some (\<lambda>w n a. (w, Inr False)), re_schedule = (\<lambda>w is. is), re_remember = None,
      re_record = (\<lambda>w r. if rec_success r then w + 1000 else w)\<rparr>"

definition empty_reply :: llm_reply where
  "empty_reply = \<lparr>lr_content = [], lr_calls = [], lr_completion_tokens = 0\<rparr>"

lemma scripted_denies: "denies_all (scripted_env script)"
  by (simp add: denies_all_def scripted_env_def)

definition two_call_reply :: llm_reply where
  "two_call_reply = \<lparr>lr_content = [],
     lr_calls = [\<lparr>tc_id = ''a'', tc_name = ''read'', tc_arguments = ''{}''\<rparr>,
                 \<lparr>tc_id = ''b'', tc_name = ''read'', tc_arguments = ''{}''\<rparr>],
     lr_completion_tokens = 0\<rparr>"

lemma two_calls_bounded: "replies_bounded (scripted_env (\<lambda>_. two_call_reply)) 2"
  by (auto simp: replies_bounded_def scripted_env_def two_call_reply_def)

theorem react_budget_witness:
  "\<exists>w tr err. execute_react (scripted_env (\<lambda>_. two_call_reply)) ''t'' 0 = (w, tr, err) \<and>
     tr_iterations tr \<le> 40 \<and> tr_tool_calls_made tr \<le> 16"
proof -
  obtain w tr err where e: "execute_react (scripted_env (\<lambda>_. two_call_reply)) ''t'' 0 = (w, tr, err)"
    by (metis prod.collapse)
  from react_budget [OF two_calls_bounded _ e] have "tr_iterations tr \<le> 40 \<and> tr_tool_calls_made tr \<le> 16"
    by (simp add: scripted_env_def max_rounds_def)
  with e show ?thesis by blast
qed


lemma scripted_approve: "fst (approve_calls ((scripted_env script)\<lparr>re_tools := tools\<rparr>) w tcs) = w"
  by (induction tcs arbitrary: w) (simp_all add: scripted_env_def case_prod_beta)

definition denied_log :: "tool_call list \<Rightarrow> (string \<times> string \<times> bool) list" where
  "denied_log tcs = map (\<lambda>tc. (tc_name tc, tc_arguments tc, False)) tcs"

lemma observe_denied:
  "\<forall>(i, tc)\<in>set its. ds ! i \<noteq> None \<Longrightarrow>
     \<exists>convo used. foldl (observe_call ds res) st its =
       st\<lparr>rs_convo := convo, rs_calls := rs_calls st + int (length its),
          rs_log := rs_log st @ denied_log (map snd its), rs_used := used\<rparr>"
proof (induction its arbitrary: st)
  case Nil
  have "st = st\<lparr>rs_convo := rs_convo st, rs_calls := rs_calls st, rs_log := rs_log st, rs_used := rs_used st\<rparr>" by simp
  then show ?case by (intro exI [of _ "rs_convo st"] exI [of _ "rs_used st"]) (simp add: denied_log_def)
next
  case (Cons it its)
  obtain i tc m where it: "it = (i, tc)" "ds ! i = Some m" using Cons.prems by (cases it) auto
  have "\<exists>c u. observe_call ds res st it =
      st\<lparr>rs_convo := c, rs_log := rs_log st @ [(tc_name tc, tc_arguments tc, False)], rs_used := u,
         rs_calls := rs_calls st + 1\<rparr>"
    unfolding observe_call_def Let_def it prod.case option.case by (intro exI) (rule refl)
  then obtain c u where o: "observe_call ds res st it =
      st\<lparr>rs_convo := c, rs_log := rs_log st @ [(tc_name tc, tc_arguments tc, False)], rs_used := u,
         rs_calls := rs_calls st + 1\<rparr>" by blast
  have "\<forall>(i, tc)\<in>set its. ds ! i \<noteq> None" using Cons.prems by simp
  from Cons.IH [OF this, of "observe_call ds res st it"] obtain c' u' where
    "foldl (observe_call ds res) (observe_call ds res st it) its =
      (observe_call ds res st it)\<lparr>rs_convo := c',
        rs_calls := rs_calls (observe_call ds res st it) + int (length its),
        rs_log := rs_log (observe_call ds res st it) @ denied_log (map snd its), rs_used := u'\<rparr>" by blast
  then have "foldl (observe_call ds res) st (it # its) =
      st\<lparr>rs_convo := c', rs_calls := rs_calls st + int (length (it # its)),
         rs_log := rs_log st @ denied_log (map snd (it # its)), rs_used := u'\<rparr>"
    by (simp add: o [unfolded it] it(1) denied_log_def)
  then show ?case by blast
qed

lemma scripted_act:
  "\<exists>convo used. react_act ((scripted_env script)\<lparr>re_tools := tools\<rparr>) content tcs st =
     st\<lparr>rs_convo := convo, rs_calls := rs_calls st + int (length tcs), rs_log := rs_log st @ denied_log tcs,
        rs_used := used\<rparr>"
proof -
  let ?env = "(scripted_env script)\<lparr>re_tools := tools\<rparr>"
  obtain ds where a: "approve_calls ?env (rs_world st) tcs = (rs_world st, ds)"
    using scripted_approve [of tools script "rs_world st" tcs] by (metis prod.collapse)
  have "denies_all ?env" using scripted_denies [of script] by (simp add: denies_all_def)
  from approve_calls_denied [OF this, of "rs_world st" tcs] a have ds: "length ds = length tcs" "None \<notin> set ds" by simp_all
  then have "approved_indices ds = []" by (simp add: approved_indices_denied)
  moreover have "re_schedule ?env w [] = []" for w by (simp add: scripted_env_def)
  ultimately have "react_act ?env content tcs st =
      foldl (observe_call ds Map.empty) (st\<lparr>rs_convo := add_assistant_message content tcs (rs_convo st)\<rparr>)
        (zip [0..<length tcs] tcs)"
    using a by (simp add: react_act_def)
  moreover have "ds ! i \<noteq> None" if "(i, tc) \<in> set (zip [0..<length tcs] tcs)" for i tc
  proof -
    have "i < length ds" using set_zip_leftD [OF that] ds(1) by simp
    from nth_mem [OF this] ds(2) show ?thesis by metis
  qed
  then have "\<forall>(i, tc)\<in>set (zip [0..<length tcs] tcs). ds ! i \<noteq> None" by blast
  from observe_denied [OF this, of Map.empty "st\<lparr>rs_convo := add_assistant_message content tcs (rs_convo st)\<rparr>"]
  have "\<exists>c u. foldl (observe_call ds Map.empty) (st\<lparr>rs_convo := add_assistant_message content tcs (rs_convo st)\<rparr>)
      (zip [0..<length tcs] tcs) =
    st\<lparr>rs_convo := c, rs_calls := rs_calls st + int (length tcs), rs_log := rs_log st @ denied_log tcs, rs_used := u\<rparr>"
    by simp
  ultimately show ?thesis by simp
qed

text \<open>
  C16: nothing done, success reported: the operator denies every call and the model then answers twice with nothing;
  whatever was asked for, the answer is the default success message, no error is returned and the task is
  recorded as a success.
\<close>

theorem denied_task_reported_done:
  assumes "lr_calls (script 0) \<noteq> []" "script 1 = empty_reply" "script 2 = empty_reply"
  shows "execute_react ((scripted_env script)\<lparr>re_tools := tools\<rparr>) task 0 =
    (1003, \<lparr>tr_content = default_summary, tr_role = [], tr_tool_calls_made = int (length (lr_calls (script 0))),
       tr_iterations = 3, tr_tool_log = denied_log (lr_calls (script 0))\<rparr>, None)"
proof -
  let ?env = "(scripted_env script)\<lparr>re_tools := tools\<rparr>"
  let ?s0 = "react_initial ?env task 0"
  let ?n = "int (length (lr_calls (script 0)))"
  have eff: "effective_reply ?env w r = r" if "lr_calls r \<noteq> [] \<or> lr_content r = []" for w r
    using that by (auto simp: effective_reply_def)
  have think: "think ?env 0 c = (1, Inr (script 0))" "think ?env 1 c = (2, Inr empty_reply)"
      "think ?env 2 c = (3, Inr empty_reply)" for c
    using assms(2,3) by (simp_all add: think_def scripted_env_def eval_nat_numeral)
  have max: "rc_max_tokens (re_config (scripted_env script)) = 8192"
      "rc_max_iterations (re_config (scripted_env script)) = 20" by (simp_all add: scripted_env_def)
  obtain c1 u1 where s1: "react_iteration ?env 1 ?s0 =
      (?s0\<lparr>rs_iters := 1, rs_world := 1, rs_convo := c1, rs_calls := ?n, rs_log := denied_log (lr_calls (script 0)), rs_used := u1\<rparr>, False)"
    using scripted_act [of tools script "lr_content (script 0)" "lr_calls (script 0)"
        "?s0\<lparr>rs_iters := 1, rs_convo := compact_context ?env (rs_convo ?s0), rs_world := 1\<rparr>"] assms(1)
    by (auto simp: react_iteration_def think eff react_initial_def react_tool_cap_def Let_def simp del: One_nat_def)
  let ?s1 = "?s0\<lparr>rs_iters := 1, rs_world := 1, rs_convo := c1, rs_calls := ?n, rs_log := denied_log (lr_calls (script 0)), rs_used := u1\<rparr>"
  have n: "?n > 0" using assms(1) by simp
  have e: "lr_calls empty_reply = []" "lr_content empty_reply = []" "lr_completion_tokens empty_reply = 0"
    by (simp_all add: empty_reply_def)
  obtain c2 where s2: "react_iteration ?env 2 ?s1 =
      (?s1\<lparr>rs_iters := 2, rs_world := 2, rs_convo := c2, rs_empty_retried := True\<rparr>, False)"
    using n by (auto simp: react_iteration_def think eff e max Let_def react_initial_def simp del: One_nat_def)
  let ?s2 = "?s1\<lparr>rs_iters := 2, rs_world := 2, rs_convo := c2, rs_empty_retried := True\<rparr>"
  obtain c3 where s3: "react_iteration ?env 3 ?s2 =
      (?s2\<lparr>rs_iters := 3, rs_world := 3, rs_convo := c3, rs_final := default_summary\<rparr>, True)"
    using n by (auto simp: react_iteration_def think eff e max Let_def react_initial_def simp del: One_nat_def)
  let ?s3 = "?s2\<lparr>rs_iters := 3, rs_world := 3, rs_convo := c3, rs_final := default_summary\<rparr>"
  have "nat (rc_max_iterations (re_config ?env)) = Suc (Suc (Suc 17))" using max by simp
  moreover have "(1::int) + 1 = 2" "(2::int) + 1 = 3" by simp_all
  ultimately have "react_round ?env (nat (rc_max_iterations (re_config ?env))) 1 ?s0 = (?s3, True)"
    by (simp only: react_round.simps s1 s2 s3 prod.case bool.case)
  then have "react_rounds ?env k ?s0 = ?s3" for k
    by (simp add: react_rounds.simps [of _ k])
  moreover have "react_close ?s3 = ?s3" by (simp add: react_close_def default_summary_def)
  moreover have "sanitize_content default_summary = default_summary" by code_simp
  moreover have "rs_error ?s0 = None" by (simp add: react_initial_def Let_def)
  moreover have "default_summary \<noteq> []" by (simp add: default_summary_def)
  ultimately show ?thesis
    by (simp add: execute_react_def Let_def react_record_def) (simp add: scripted_env_def)
qed

theorem denied_task_reported_done_witness:
  "execute_react ((scripted_env (\<lambda>n. if n = 0
       then \<lparr>lr_content = [], lr_calls = [\<lparr>tc_id = ''1'', tc_name = ''file'', tc_arguments = []\<rparr>], lr_completion_tokens = 0\<rparr>
       else empty_reply))\<lparr>re_tools := None\<rparr>) ''write the report'' 0 =
    (1003, \<lparr>tr_content = default_summary, tr_role = [], tr_tool_calls_made = 1, tr_iterations = 3,
       tr_tool_log = [(''file'', [], False)]\<rparr>, None)"
  by (subst denied_task_reported_done) (simp_all add: denied_log_def)

section \<open>Properties of the stream\<close>

text \<open>A list of chunks that ends the stream: one final chunk, at the end.\<close>

definition closes_once :: "stream_chunk list \<Rightarrow> bool" where
  "closes_once out \<longleftrightarrow> (\<exists>pre l. out = pre @ [l] \<and> sc_done l \<and> list_all (\<lambda>ck. \<not> sc_done ck) pre)"

lemma closes_once_append: "list_all (\<lambda>ck. \<not> sc_done ck) pre \<Longrightarrow> closes_once out \<Longrightarrow> closes_once (pre @ out)"
  unfolding closes_once_def by (metis append.assoc list_all_append)

lemma closes_once_single: "sc_done l \<Longrightarrow> closes_once [l]"
  unfolding closes_once_def by (rule exI [of _ "[]"]) simp

definition error_chunks_done :: "stream_chunk list \<Rightarrow> bool" where
  "error_chunks_done cks \<longleftrightarrow> list_all (\<lambda>ck. sc_error ck \<noteq> None \<longrightarrow> sc_done ck) cks"

lemma relay_chunks_done:
  "relay_chunks full calls fin cks = (out, full', calls', fin', failed) \<Longrightarrow> error_chunks_done cks \<Longrightarrow>
    (if failed then closes_once out else list_all (\<lambda>ck. \<not> sc_done ck) out)"
proof (induction cks arbitrary: full calls fin out)
  case (Cons ck cks)
  let ?sent = "(if sc_content ck \<noteq> [] then [content_chunk (sc_content ck)] else []) @
    (case sc_call ck of None \<Rightarrow> [] | Some tc \<Rightarrow> [tool_call_chunk tc])"
  have sent: "list_all (\<lambda>ck. \<not> sc_done ck) ?sent"
    by (auto simp: content_chunk_def tool_call_chunk_def split: option.split)
  show ?case
  proof (cases "sc_error ck")
    case (Some e)
    with Cons.prems have "out = ?sent @ [ck]" "failed" by (auto simp: Let_def)
    moreover have "sc_done ck" using Cons.prems(2) Some by (simp add: error_chunks_done_def)
    ultimately show ?thesis using sent by (simp add: closes_once_append closes_once_single)
  next
    case None
    with Cons.prems(1) obtain out' where o: "out = ?sent @ out'" and
      r: "relay_chunks (full @ sc_content ck) (calls @ (case sc_call ck of None \<Rightarrow> [] | Some tc \<Rightarrow> [tc]))
        (fin \<or> sc_done ck) cks = (out', full', calls', fin', failed)"
      by (auto simp: Let_def split: prod.splits)
    have "error_chunks_done cks" using Cons.prems(2) by (simp add: error_chunks_done_def)
    from Cons.IH [OF r this] sent show ?thesis unfolding o
      by (cases failed) (simp_all only: if_True if_False list_all_append closes_once_append simp_thms)
  qed
qed simp

lemma stream_loop_closes:
  assumes "\<And>w c w' cks. se_route_stream env w c = (w', Inr cks) \<Longrightarrow> error_chunks_done cks"
  shows "closes_once (snd (stream_loop env n w convo))"
proof (induction n arbitrary: w convo)
  case (Suc n)
  show ?case
  proof (cases "se_route_stream env w convo")
    case (Pair w1 res)
    show ?thesis
    proof (cases res)
      case (Inl e)
      with Pair show ?thesis by (simp add: closes_once_single error_chunk_def)
    next
      case (Inr cks)
      obtain out full calls fin failed where r: "relay_chunks [] [] False cks = (out, full, calls, fin, failed)"
        by (metis prod_cases5)
      from relay_chunks_done [OF r assms] Pair Inr have d:
        "if failed then closes_once out else list_all (\<lambda>ck. \<not> sc_done ck) out" by simp
      have fin: "closes_once [final_chunk full]" by (simp add: closes_once_single final_chunk_def)
      from d fin Suc.IH show ?thesis
        by (auto simp: Pair Inr r closes_once_append case_prod_beta split: if_splits)
    qed
  qed
qed (simp add: closes_once_single error_chunk_def)

text \<open>
  Whatever path a streamed task takes, the client gets exactly one closing chunk, and it is the last one,
  provided that the provider's error chunks close its stream.
\<close>

lemma stream_closes_once:
  assumes "\<And>w c w' cks. se_route_stream env w c = (w', Inr cks) \<Longrightarrow> error_chunks_done cks"
  shows "closes_once (snd (execute_stream env task w))"
proof (cases "skill_chunks env task")
  case (Some cks)
  then have "closes_once cks"
    by (auto simp: skill_chunks_def closes_once_single error_chunk_def final_chunk_def
        split: if_splits option.splits sum.splits)
  with Some show ?thesis by (simp add: execute_stream_def)
next
  case None
  note skip = this
  show ?thesis
  proof (cases "se_orchestrated env")
    case (Some orch)
    have "closes_once (orchestrated_chunks res)" for res
      by (auto simp: orchestrated_chunks_def closes_once_single error_chunk_def final_chunk_def
          split: sum.split option.split)
    with skip Some show ?thesis by (simp add: execute_stream_def case_prod_beta)
  next
    case None
    with skip stream_loop_closes [OF assms] show ?thesis by (simp add: execute_stream_def)
  qed
qed

lemma relay_chunks_plain:
  assumes "list_all (\<lambda>ck. sc_error ck = None \<and> sc_call ck = None) cks"
  shows "\<exists>out. relay_chunks full calls fin cks =
      (out, full @ concat (map sc_content cks), calls, fin \<or> list_ex sc_done cks, False) \<and>
    concat (map sc_content out) = concat (map sc_content cks)"
  using assms
proof (induction cks arbitrary: full fin)
  case (Cons ck cks)
  from Cons.IH [of "full @ sc_content ck" "fin \<or> sc_done ck"] Cons.prems obtain out where
    "relay_chunks (full @ sc_content ck) calls (fin \<or> sc_done ck) cks =
      (out, (full @ sc_content ck) @ concat (map sc_content cks), calls, (fin \<or> sc_done ck) \<or> list_ex sc_done cks, False)"
    "concat (map sc_content out) = concat (map sc_content cks)" by auto
  with Cons.prems show ?case by (auto simp: Let_def content_chunk_def)
qed simp

text \<open>
  A plain streamed answer is sent twice: once in pieces, and once more as the content of the closing chunk.
\<close>

lemma stream_answer_sent_twice:
  assumes "skill_chunks env task = None" "se_orchestrated env = None" "0 < rc_max_iterations (re_config env)"
    and "se_route_stream env w (stream_initial env task) = (w1, Inr cks)"
    and "list_all (\<lambda>ck. sc_error ck = None \<and> sc_call ck = None) cks" "list_ex sc_done cks"
  shows "concat (map sc_content (snd (execute_stream env task w))) =
    concat (map sc_content cks) @ concat (map sc_content cks)"
proof -
  obtain n where n: "nat (rc_max_iterations (re_config env)) = Suc n"
    using assms(3) by (metis not0_implies_Suc zero_less_nat_eq less_irrefl)
  obtain out where "relay_chunks [] [] False cks = (out, concat (map sc_content cks), [], True, False)"
    "concat (map sc_content out) = concat (map sc_content cks)"
    using relay_chunks_plain [OF assms(5), of "[]" "[]" False] assms(6) by auto
  with assms show ?thesis by (simp add: execute_stream_def n final_chunk_def)
qed

definition demo_stream :: "nat stream_env" where
  "demo_stream = \<lparr>re_config = \<lparr>rc_max_iterations = 20, rc_max_continuations = 1, rc_system_prompt = [],
        rc_max_tokens = 8192, rc_max_context_tokens = 8000, rc_enable_memory = False\<rparr>,
      re_inject = (\<lambda>t. []), re_route = (\<lambda>w c. (w, Inl [])), re_tools = None, re_unmarshal = (\<lambda>s. Inl s),
      re_marshal = (\<lambda>v. []), re_nano = (\<lambda>w. 0), re_approval = None, re_schedule = (\<lambda>w is. is), re_remember = None,
      re_record = (\<lambda>w r. w),
      se_route_stream = (\<lambda>w c. (w + 1, Inr [content_chunk ''Hel'', content_chunk ''lo'', final_chunk []])),
      se_skill = None, se_enable_skills = True, se_orchestrated = None\<rparr>"

lemma demo_stream_simps:
  "se_route_stream demo_stream w c = (w + 1, Inr [content_chunk ''Hel'', content_chunk ''lo'', final_chunk []])"
  "skill_chunks demo_stream task = None" "se_orchestrated demo_stream = None"
  "0 < rc_max_iterations (re_config demo_stream)"
  by (simp_all add: demo_stream_def skill_chunks_def)

lemma stream_closes_once_witness: "closes_once (snd (execute_stream demo_stream ''hi'' 0))"
  by (rule stream_closes_once)
    (auto simp: demo_stream_simps error_chunks_done_def content_chunk_def final_chunk_def)

end
