(* ===== verification/LLM_Stream.thy ===== *)
theory LLM_Stream
  imports ReAct_Loop Circuit_Breaker
begin

text \<open>
  Reading the event streams of the two kinds of providers (the goroutines of \<open>Stream\<close> in
  \<open>internal/llm/client.go\<close> and \<open>internal/llm/anthropic.go\<close>): the lines of the body become chunks. Decoding the
  JSON of a line is a parameter; the body ends with the last line, or is cut by a cancelled context or a
  scanner error. Token usage is left out.
\<close>

section \<open>OpenAI-compatible providers\<close>

text \<open>A decoded line: content and finish reason of its choices.\<close>

type_synonym openai_chunk = "(string \<times> string) list"

text \<open>What the goroutine reports to the circuit breaker of the client.\<close>

datatype breaker_report = ReportSuccess | ReportFailure | NoReport

datatype body_end = BodyEof | BodyCanceled string | BodyError string

definition data_prefix :: string where
  "data_prefix = ''data: ''"

definition provider_error :: "string \<Rightarrow> string \<Rightarrow> stream_chunk" where
  "provider_error name msg = error_chunk (''provider '' @ name @ '': '' @ msg)"

definition openai_body_end :: "string \<Rightarrow> body_end \<Rightarrow> stream_chunk list \<times> breaker_report" where
  "openai_body_end name be =
     (case be of
        BodyCanceled e \<Rightarrow> ([provider_error name (''stream canceled: '' @ e)], NoReport)
      | BodyError e \<Rightarrow> ([provider_error name (''streaming error: '' @ e)], ReportFailure)
      | BodyEof \<Rightarrow> ([], NoReport))"

fun openai_read ::
  "string \<Rightarrow> (string \<Rightarrow> string + openai_chunk) \<Rightarrow> string \<Rightarrow> string list \<Rightarrow> body_end
     \<Rightarrow> stream_chunk list \<times> breaker_report" where
  "openai_read name decode full [] be = openai_body_end name be"
| "openai_read name decode full (line # lines) be =
     (if \<not> has_prefix line data_prefix then openai_read name decode full lines be
      else
        let data = drop (length data_prefix) line
        in if data = ''[DONE]'' then openai_body_end name be
           else
             (case decode data of
                Inl e \<Rightarrow> ([provider_error name (''failed to decode chunk: '' @ e)], ReportFailure)
              | Inr [] \<Rightarrow> openai_read name decode full lines be
              | Inr ((delta, reason) # _) \<Rightarrow>
                  let full = full @ delta;
                      sent = (if delta \<noteq> [] then [content_chunk delta] else [])
                  in if reason \<noteq> [] then (sent @ [final_chunk full], ReportSuccess)
                     else (case openai_read name decode full lines be of (out, rep) \<Rightarrow> (sent @ out, rep))))"

section \<open>Anthropic\<close>

datatype anthropic_event =
    ToolBlockStart string string string
  | TextDelta string
  | InputJsonDelta string
  | BlockStop
  | MessageStop
  | ErrorEvent
  | OtherEvent

text \<open>The tool block that is open: its id, its name and the JSON collected so far.\<close>

record tool_block =
  tb_id :: string
  tb_name :: string
  tb_json :: string

definition no_block :: tool_block where
  "no_block = \<lparr>tb_id = [], tb_name = [], tb_json = []\<rparr>"

definition block_call :: "tool_block \<Rightarrow> tool_call" where
  "block_call b =
     \<lparr>tc_id = tb_id b, tc_name = tb_name b, tc_arguments = (if tb_json b = [] then ''{}'' else tb_json b)\<rparr>"

fun anthropic_event_step :: "tool_block \<Rightarrow> anthropic_event \<Rightarrow> stream_chunk list \<times> tool_block" where
  "anthropic_event_step b (ToolBlockStart bid nm inp) = ([], \<lparr>tb_id = bid, tb_name = nm, tb_json = inp\<rparr>)"
| "anthropic_event_step b (TextDelta s) = ((if s \<noteq> [] then [content_chunk s] else []), b)"
| "anthropic_event_step b (InputJsonDelta s) = ([], b\<lparr>tb_json := tb_json b @ s\<rparr>)"
| "anthropic_event_step b BlockStop =
     (if tb_id b \<noteq> [] then ([tool_call_chunk (block_call b)], b\<lparr>tb_id := [], tb_name := []\<rparr>) else ([], b))"
| "anthropic_event_step b MessageStop = ([], b)"
| "anthropic_event_step b ErrorEvent = ([], b)"
| "anthropic_event_step b OtherEvent = ([], b)"

definition anthropic_body_end :: "string \<Rightarrow> body_end \<Rightarrow> stream_chunk list" where
  "anthropic_body_end name be =
     (case be of
        BodyCanceled e \<Rightarrow> [provider_error name (''stream canceled: '' @ e)]
      | BodyError e \<Rightarrow> [provider_error name (''streaming error: '' @ e)]
      | BodyEof \<Rightarrow> [])"

text \<open>A line that does not decode is skipped.\<close>

fun anthropic_read ::
  "string \<Rightarrow> (string \<Rightarrow> anthropic_event option) \<Rightarrow> tool_block \<Rightarrow> string list \<Rightarrow> body_end \<Rightarrow> stream_chunk list" where
  "anthropic_read name decode b [] be = anthropic_body_end name be"
| "anthropic_read name decode b (line # lines) be =
     (if \<not> has_prefix line data_prefix then anthropic_read name decode b lines be
      else
        (case decode (drop (length data_prefix) line) of
           None \<Rightarrow> anthropic_read name decode b lines be
         | Some MessageStop \<Rightarrow> [final_chunk []]
         | Some ErrorEvent \<Rightarrow> [provider_error name ''stream error event'']
         | Some ev \<Rightarrow>
             (case anthropic_event_step b ev of
                (sent, b') \<Rightarrow> sent @ anthropic_read name decode b' lines be)))"

section \<open>Lemmas\<close>

text \<open>The text of the model: the deltas up to the finish reason.\<close>

fun openai_text :: "(string \<Rightarrow> string + openai_chunk) \<Rightarrow> string list \<Rightarrow> string" where
  "openai_text decode [] = []"
| "openai_text decode (line # lines) =
     (if \<not> has_prefix line data_prefix then openai_text decode lines
      else
        (case decode (drop (length data_prefix) line) of
           Inl _ \<Rightarrow> []
         | Inr [] \<Rightarrow> openai_text decode lines
         | Inr ((delta, reason) # _) \<Rightarrow> if reason \<noteq> [] then delta else delta @ openai_text decode lines))"

lemma openai_body_end_no_success: "snd (openai_body_end name be) \<noteq> ReportSuccess"
  by (cases be) (simp_all add: openai_body_end_def)

lemma openai_read_success:
  "openai_read name decode full lines be = (cks, ReportSuccess) \<Longrightarrow>
    concat (map sc_content cks) = openai_text decode lines @ full @ openai_text decode lines \<and>
    list_all (\<lambda>ck. sc_error ck = None \<and> sc_call ck = None) cks \<and> list_ex sc_done cks"
proof (induction name decode full lines be arbitrary: cks rule: openai_read.induct)
  case (1 name decode full be)
  with openai_body_end_no_success [of name be] show ?case by simp
next
  case (2 name decode full line lines be)
  show ?case
  proof (cases "has_prefix line data_prefix")
    case False
    with 2 show ?thesis by simp
  next
    case True
    let ?data = "drop (length data_prefix) line"
    have nd: "?data \<noteq> ''[DONE]''"
      using "2.prems" True openai_body_end_no_success [of name be] by (auto simp: Let_def)
    then obtain chs where d: "decode ?data = Inr chs"
      using "2.prems" True by (cases "decode ?data") (auto simp: Let_def)
    show ?thesis
    proof (cases chs)
      case Nil
      with 2 True nd d show ?thesis by (simp add: Let_def)
    next
      case (Cons ch rest)
      obtain delta reason where ch: "ch = (delta, reason)" by force
      show ?thesis
      proof (cases "reason = []")
        case False
        with "2.prems" True nd d Cons ch show ?thesis
          by (auto simp: Let_def content_chunk_def final_chunk_def)
      next
        case R: True
        obtain out rep where r: "openai_read name decode (full @ delta) lines be = (out, rep)" by force
        with "2.prems" True nd d Cons ch R have "rep = ReportSuccess"
          and cks: "cks = (if delta \<noteq> [] then [content_chunk delta] else []) @ out"
          by (auto simp: Let_def)
        have "\<not> \<not> has_prefix line data_prefix" "\<not> reason \<noteq> []" using True R by simp_all
        note ih = "2.IH"(3) [OF this(1) refl nd d Cons ch [symmetric] refl refl this(2)]
        have "concat (map sc_content out) =
            openai_text decode lines @ (full @ delta) @ openai_text decode lines"
          "list_all (\<lambda>ck. sc_error ck = None \<and> sc_call ck = None) out" "list_ex sc_done out"
          using ih [of out] r \<open>rep = ReportSuccess\<close> by auto
        with True d Cons ch R cks show ?thesis by (auto simp: content_chunk_def)
      qed
    qed
  qed
qed

section \<open>Properties\<close>

text \<open>
  With an OpenAI-compatible provider a streamed answer reaches the client four times over: the provider repeats
  the whole text in its final chunk, the agent relays that as content and counts it again, and repeats the result
  in its own final chunk. The client appends all contents.
\<close>

lemma openai_answer_four_times:
  assumes "openai_read name decode [] lines be = (cks, ReportSuccess)"
    and "se_route_stream env w (stream_initial env task) = (w1, Inr cks)"
    and "skill_chunks env task = None" "se_orchestrated env = None" "0 < rc_max_iterations (re_config env)"
  shows "concat (map sc_content (snd (execute_stream env task w))) =
    concat (replicate 4 (openai_text decode lines))"
proof -
  from openai_read_success [OF assms(1)] have "concat (map sc_content cks) = openai_text decode lines @ openai_text decode lines"
    "list_all (\<lambda>ck. sc_error ck = None \<and> sc_call ck = None) cks" "list_ex sc_done cks" by simp_all
  with stream_answer_sent_twice [OF assms(3-5) assms(2)] show ?thesis by (simp add: numeral_eq_Suc)
qed

text \<open>A provider whose replies are one fixed body.\<close>

definition demo_decode :: "string \<Rightarrow> string + openai_chunk" where
  "demo_decode s = (if s = ''a'' then Inr [(''Hi'', [])] else Inr [([], ''stop'')])"

definition demo_openai :: "nat stream_env" where
  "demo_openai = demo_stream\<lparr>se_route_stream :=
     (\<lambda>w c. (w + 1, Inr (fst (openai_read ''p'' demo_decode [] [''data: a'', ''event: x'', ''data: b''] BodyEof))))\<rparr>"

lemma demo_body:
  "openai_read ''p'' demo_decode [] [''data: a'', ''event: x'', ''data: b''] BodyEof =
     ([content_chunk ''Hi'', final_chunk ''Hi''], ReportSuccess)"
  by (simp add: demo_decode_def data_prefix_def)

lemma openai_answer_four_times_witness:
  "concat (map sc_content (snd (execute_stream demo_openai ''hi'' 0))) = ''HiHiHiHi''"
proof -
  have "skill_chunks demo_openai ''hi'' = None" "se_orchestrated demo_openai = None"
    "0 < rc_max_iterations (re_config demo_openai)"
    by (simp_all add: demo_openai_def demo_stream_def skill_chunks_def)
  from openai_answer_four_times [OF demo_body _ this, of 0 1] show ?thesis
    by (simp add: demo_openai_def demo_body demo_decode_def data_prefix_def numeral_eq_Suc)
qed

lemma openai_read_no_calls: "list_all (\<lambda>ck. sc_call ck = None) (fst (openai_read name decode full lines be))"
proof (induction name decode full lines be rule: openai_read.induct)
  case (1 name decode full be)
  then show ?case by (cases be) (simp_all add: openai_body_end_def provider_error_def error_chunk_def)
next
  case (2 name decode full line lines be)
  have e: "list_all (\<lambda>ck. sc_call ck = None) (fst (openai_body_end name be))"
    by (cases be) (simp_all add: openai_body_end_def provider_error_def error_chunk_def)
  from 2 show ?case
    by (auto simp: Let_def e provider_error_def error_chunk_def content_chunk_def final_chunk_def case_prod_beta
        split: sum.split list.split)
qed

lemma relay_chunks_no_calls:
  "list_all (\<lambda>ck. sc_call ck = None) cks \<Longrightarrow> relay_chunks full calls fin cks = (out, full', calls', fin', failed) \<Longrightarrow>
    calls' = calls"
proof (induction cks arbitrary: full fin out)
  case (Cons ck cks)
  then have n: "sc_call ck = None" "list_all (\<lambda>ck. sc_call ck = None) cks" by simp_all
  show ?case
  proof (cases "sc_error ck")
    case None
    obtain out' rest where r: "relay_chunks (full @ sc_content ck) calls (fin \<or> sc_done ck) cks = (out', rest)"
      by (rule prod.exhaust)
    with Cons.prems(2) None n have "rest = (full', calls', fin', failed)" by (auto simp: Let_def)
    with Cons.IH [OF n(2)] r show ?thesis by blast
  next
    case (Some e)
    with Cons.prems(2) n show ?thesis by (auto simp: Let_def)
  qed
qed simp

lemma stream_loop_tools:
  assumes "\<And>w c w' cks. se_route_stream env w c = (w', Inr cks) \<Longrightarrow> list_all (\<lambda>ck. sc_call ck = None) cks"
  shows "stream_loop (env\<lparr>re_tools := tools\<rparr>) n w convo = stream_loop env n w convo"
proof (induction n arbitrary: w convo)
  case (Suc n)
  show ?case
  proof (cases "se_route_stream env w convo")
    case (Pair w1 res)
    show ?thesis
    proof (cases res)
      case (Inr cks)
      obtain out full calls fin failed where r: "relay_chunks [] [] False cks = (out, full, calls, fin, failed)"
        by (metis prod_cases5)
      from relay_chunks_no_calls [OF assms r] Pair Inr have "calls = []" by simp
      with Suc.IH show ?thesis by (simp add: Pair Inr r)
    qed (simp add: Pair)
  qed
qed simp

text \<open>
  Streaming from an OpenAI-compatible provider never uses a tool: whatever tools are registered and whatever the
  provider sends, the run is the same. The tool calls in the deltas are dropped by the reader.
\<close>

lemma openai_streams_run_no_tools:
  assumes "\<And>w c w' cks. se_route_stream env w c = (w', Inr cks) \<Longrightarrow>
    \<exists>name decode lines be. cks = fst (openai_read name decode [] lines be)"
  shows "execute_stream (env\<lparr>re_tools := tools\<rparr>) task w = execute_stream env task w"
proof -
  have "list_all (\<lambda>ck. sc_call ck = None) cks" if "se_route_stream env w c = (w', Inr cks)" for w c w' cks
    using assms [OF that] openai_read_no_calls by blast
  note loop = stream_loop_tools [OF this]
  have "skill_chunks (env\<lparr>re_tools := tools\<rparr>) task = skill_chunks env task"
    "stream_initial (env\<lparr>re_tools := tools\<rparr>) task = stream_initial env task"
    by (simp_all add: skill_chunks_def stream_initial_def)
  then show ?thesis by (simp add: execute_stream_def loop cong: option.case_cong)
qed

lemma openai_streams_run_no_tools_witness:
  "execute_stream (demo_openai\<lparr>re_tools := Some (execute_tool (Map.empty(''read'' \<mapsto> demo_tool)))\<rparr>) ''t'' 0 =
   execute_stream demo_openai ''t'' 0"
proof (rule openai_streams_run_no_tools)
  fix w c w' cks
  assume "se_route_stream demo_openai w c = (w', Inr cks)"
  then have "cks = fst (openai_read ''p'' demo_decode [] [''data: a'', ''event: x'', ''data: b''] BodyEof)"
    by (simp add: demo_openai_def del: openai_read.simps)
  then show "\<exists>name decode lines be. cks = fst (openai_read name decode [] lines be)" by blast
qed

text \<open>The lines \<open>ls\<close> carry the JSON fragments \<open>ps\<close>.\<close>

definition carries :: "(string \<Rightarrow> anthropic_event option) \<Rightarrow> string \<Rightarrow> anthropic_event \<Rightarrow> bool" where
  "carries decode l ev \<longleftrightarrow> has_prefix l data_prefix \<and> decode (drop (length data_prefix) l) = Some ev"

lemma anthropic_json_deltas:
  "list_all2 (\<lambda>l s. carries decode l (InputJsonDelta s)) ls ps \<Longrightarrow>
    anthropic_read name decode b (ls @ lines) be =
    anthropic_read name decode (b\<lparr>tb_json := tb_json b @ concat ps\<rparr>) lines be"
proof (induction ls ps arbitrary: b rule: list_all2_induct)
  case (Cons l ls s ps)
  then show ?case by (simp add: carries_def)
qed simp

text \<open>
  The arguments of a streamed Anthropic tool call are the input of the block's start followed by the JSON
  fragments. A start that carries the empty object, as Anthropic's API documents, therefore yields two objects
  in a row, which is no JSON.
\<close>

lemma anthropic_arguments_prefixed:
  assumes "carries decode l1 (ToolBlockStart tid tool inp)" "tid \<noteq> []"
    and "list_all2 (\<lambda>l s. carries decode l (InputJsonDelta s)) ls ps" "carries decode l2 BlockStop"
  shows "anthropic_read name decode b (l1 # ls @ l2 # lines) be =
    tool_call_chunk \<lparr>tc_id = tid, tc_name = tool,
      tc_arguments = (if inp = [] \<and> concat ps = [] then ''{}'' else inp @ concat ps)\<rparr> #
    anthropic_read name decode \<lparr>tb_id = [], tb_name = [], tb_json = inp @ concat ps\<rparr> lines be"
  using assms(1,2,4) anthropic_json_deltas [OF assms(3), of name]
  by (simp add: block_call_def carries_def)

definition demo_event :: "string \<Rightarrow> anthropic_event option" where
  "demo_event s =
     (if s = ''start'' then Some (ToolBlockStart ''t1'' ''file'' ''{}'')
      else if s = ''stop'' then Some BlockStop else Some (InputJsonDelta s))"

lemma anthropic_arguments_prefixed_witness:
  "hd (anthropic_read ''claude'' demo_event no_block [''data: start'', ''data: {1:2}'', ''data: stop''] BodyEof) =
    tool_call_chunk \<lparr>tc_id = ''t1'', tc_name = ''file'', tc_arguments = ''{}{1:2}''\<rparr>"
proof -
  have "carries demo_event ''data: start'' (ToolBlockStart ''t1'' ''file'' ''{}'')"
    "list_all2 (\<lambda>l s. carries demo_event l (InputJsonDelta s)) [''data: {1:2}''] [''{1:2}'']"
    "carries demo_event ''data: stop'' BlockStop"
    by (simp_all add: carries_def demo_event_def data_prefix_def)
  from anthropic_arguments_prefixed [OF this(1) _ this(2,3), of "''claude''" no_block "[]" BodyEof]
  show ?thesis by simp
qed

end
