(* ===== verification/Provider_Router.thy ===== *)
theory Provider_Router
  imports Complex_Main Circuit_Breaker
begin

text \<open>
  The LLM providers and the router: the completion requests of the OpenAI-compatible client
  (\<open>internal/llm/client.go\<close>) and of the Anthropic client (\<open>internal/llm/anthropic.go\<close>) with their retries, circuit
  breaker and availability, the registry (\<open>internal/llm/providers.go\<close>) and the router with its strategies
  (\<open>internal/llm/router.go\<close>). What the network answers to each attempt, the clock, and the order in which Go
  walks the map of providers are inputs. A completion is represented by its number of tokens; the moving
  averages are exact rational numbers, rounded to whole nanoseconds for latencies.
\<close>

section \<open>Providers\<close>

datatype provider_kind = OpenAICompatible | AnthropicApi

record provider =
  pv_name :: string
  pv_kind :: provider_kind
  pv_has_key :: bool
  pv_is_ollama :: bool
  pv_max_retries :: int
  pv_breaker :: circuit_breaker
  pv_last_error :: "string option"

definition new_provider :: "string \<Rightarrow> provider_kind \<Rightarrow> bool \<Rightarrow> int \<Rightarrow> provider" where
  "new_provider name kind has_key retries =
     \<lparr>pv_name = name, pv_kind = kind, pv_has_key = has_key, pv_is_ollama = (name = ''ollama''),
      pv_max_retries = retries, pv_breaker = new_circuit_breaker 5 30000000000, pv_last_error = None\<rparr>"

text \<open>\<open>NewProvider\<close>: which client a name and a base URL get, with the checks of the two constructors.\<close>

definition make_provider :: "string \<Rightarrow> string \<Rightarrow> string \<Rightarrow> int \<Rightarrow> string + provider" where
  "make_provider name base_url api_key retries =
     (if base_url = [] then Inl (''provider '' @ name @ '': base_url is required'')
      else if name = ''anthropic'' \<or> contains_str base_url ''/anthropic'' then
        (if trim_suffix base_url ''/v1'' = [] then Inl (''provider '' @ name @ '': base_url is required'')
         else if api_key = [] then Inl (''provider '' @ name @ '': api_key is required'')
         else Inr (new_provider name AnthropicApi True retries))
      else if api_key = [] \<and> name \<noteq> ''ollama'' \<and> name \<noteq> ''lmstudio''
      then Inl (''provider '' @ name @ '': api_key is required'')
      else Inr (new_provider name OpenAICompatible (api_key \<noteq> []) retries))"

text \<open>
  What one HTTP attempt brings: no response, a response with an error status (its body, and the seconds of
  \<open>Retry-After\<close>, 0 when there are none), and otherwise a body that does not decode, one that holds an error
  object, or a completion. An error status is any but 200 for the OpenAI-compatible client, and 400 or more for
  the Anthropic client, which decodes every other answer.
\<close>

datatype http_outcome =
    NetError string
  | HttpStatus int string int
  | HttpUndecodable string
  | HttpApiError string
  | HttpCompletion nat

text \<open>The wait before a retry: over, given up because the deadline is near, or cancelled.\<close>

datatype backoff_outcome = BackoffDone | DeadlineNear | BackoffCanceled

text \<open>\<open>CompletionNil\<close> is the pair of two nils that \<open>Complete\<close> returns when no attempt is allowed.\<close>

datatype completion = CompletionOk nat | CompletionError string | CompletionNil

definition provider_text :: "provider \<Rightarrow> string \<Rightarrow> string" where
  "provider_text p msg = ''provider '' @ pv_name p @ '': '' @ msg"

definition status_text :: "provider \<Rightarrow> int \<Rightarrow> string \<Rightarrow> string" where
  "status_text p status body = provider_text p (''API error (status '' @ itoa status @ ''): '' @ body)"

definition note_failure :: "int \<Rightarrow> provider \<Rightarrow> provider" where
  "note_failure now p = p\<lparr>pv_breaker := fst (record_failure now (pv_breaker p))\<rparr>"

definition note_success :: "provider \<Rightarrow> provider" where
  "note_success p = p\<lparr>pv_breaker := record_success (pv_breaker p)\<rparr>"

text \<open>A failed completion of the OpenAI-compatible client: the error is kept in the client.\<close>

definition openai_fail :: "int \<Rightarrow> string option \<Rightarrow> provider \<Rightarrow> provider \<times> completion" where
  "openai_fail now err p =
     ((note_failure now p)\<lparr>pv_last_error := err\<rparr>,
      (case err of None \<Rightarrow> CompletionNil | Some e \<Rightarrow> CompletionError e))"

text \<open>After the loop: the last response that is still held (if any) decides.\<close>

definition openai_finish :: "int \<Rightarrow> string option \<Rightarrow> http_outcome option \<Rightarrow> provider \<Rightarrow> provider \<times> completion" where
  "openai_finish now last_err resp p =
     (case resp of
        None \<Rightarrow> openai_fail now last_err p
      | Some (HttpStatus status body _) \<Rightarrow> openai_fail now (Some (status_text p status body)) p
      | Some (HttpUndecodable e) \<Rightarrow> openai_fail now (Some (provider_text p (''failed to decode response: '' @ e))) p
      | Some (HttpCompletion tokens) \<Rightarrow> ((note_success p)\<lparr>pv_last_error := None\<rparr>, CompletionOk tokens)
      | Some (HttpApiError _) \<Rightarrow> ((note_success p)\<lparr>pv_last_error := None\<rparr>, CompletionOk 0)
      | Some (NetError e) \<Rightarrow> openai_fail now last_err p)"

definition deadline_text :: "provider \<Rightarrow> string option \<Rightarrow> string" where
  "deadline_text p last_err =
     provider_text p (''context deadline approaching'' @
       (case last_err of None \<Rightarrow> [] | Some e \<Rightarrow> '', last error: '' @ e))"

text \<open>
  The retry loop: \<open>n\<close> attempts are left, \<open>k\<close> is the number of the next one; \<open>http k\<close> and \<open>backoff k\<close> are its
  answer and the wait before it. A response that is kept over a retry has its body closed.
\<close>

fun openai_attempts ::
  "int \<Rightarrow> (nat \<Rightarrow> backoff_outcome) \<Rightarrow> (nat \<Rightarrow> http_outcome) \<Rightarrow> nat \<Rightarrow> nat \<Rightarrow> string option \<Rightarrow> http_outcome option
     \<Rightarrow> provider \<Rightarrow> provider \<times> completion" where
  "openai_attempts now backoff http 0 k last_err resp p = openai_finish now last_err resp p"
| "openai_attempts now backoff http (Suc n) k last_err resp p =
     (if 0 < k \<and> backoff k = DeadlineNear then (p, CompletionError (deadline_text p last_err))
      else if 0 < k \<and> backoff k = BackoffCanceled
      then (p, CompletionError (provider_text p ''context canceled during backoff''))
      else
        case http k of
          NetError e \<Rightarrow>
            openai_attempts now backoff http n (k + 1) (Some (provider_text p (''request failed: '' @ e))) None p
        | HttpStatus status body retry_after \<Rightarrow>
            if status = 429 \<and> retry_after > 0
            then openai_attempts now backoff http n (k + 1) last_err (Some (HttpStatus status [] 0)) p
            else if pv_is_ollama p \<and> status = 500 \<and> n \<noteq> 0 then
              (if contains_str body ''XML syntax error''
               then openai_attempts now backoff http n (k + 1) last_err (Some (HttpStatus status [] 0)) p
               else openai_fail now (Some (status_text p status body)) p)
            else openai_finish now last_err (Some (http k)) p
        | r \<Rightarrow> openai_finish now last_err (Some r) p)"

text \<open>The number of attempts, \<open>MaxRetries + 1\<close>; none when it is negative.\<close>

definition attempt_count :: "provider \<Rightarrow> nat" where
  "attempt_count p = nat (pv_max_retries p + 1)"

definition circuit_open_text :: "provider \<Rightarrow> string" where
  "circuit_open_text p = provider_text p ''circuit breaker is open''"

definition openai_complete ::
  "int \<Rightarrow> (nat \<Rightarrow> backoff_outcome) \<Rightarrow> (nat \<Rightarrow> http_outcome) \<Rightarrow> provider \<Rightarrow> provider \<times> completion" where
  "openai_complete now backoff http p =
     (case cb_allow now (pv_breaker p) of
        (cb, False) \<Rightarrow> (p\<lparr>pv_breaker := cb\<rparr>, CompletionError (circuit_open_text p))
      | (cb, True) \<Rightarrow> openai_attempts now backoff http (attempt_count p) 0 None None (p\<lparr>pv_breaker := cb\<rparr>))"

definition truncate_body :: "string \<Rightarrow> nat \<Rightarrow> string" where
  "truncate_body s n = (if length s \<le> n then s else take n s @ ''...'')"

text \<open>\<open>doOnce\<close>: the tokens, or whether to retry and the error.\<close>

definition anthropic_once :: "provider \<Rightarrow> http_outcome \<Rightarrow> nat + (bool \<times> string)" where
  "anthropic_once p r =
     (case r of
        NetError e \<Rightarrow> Inr (True, provider_text p (''request failed: '' @ e))
      | HttpStatus status body _ \<Rightarrow>
          Inr (status = 429 \<or> status \<ge> 500, status_text p status (truncate_body body 300))
      | HttpUndecodable e \<Rightarrow> Inr (False, provider_text p (''decode response: '' @ e))
      | HttpApiError e \<Rightarrow> Inr (False, provider_text p e)
      | HttpCompletion tokens \<Rightarrow> Inl tokens)"

fun anthropic_attempts ::
  "int \<Rightarrow> (nat \<Rightarrow> backoff_outcome) \<Rightarrow> (nat \<Rightarrow> http_outcome) \<Rightarrow> nat \<Rightarrow> nat \<Rightarrow> string option
     \<Rightarrow> provider \<Rightarrow> provider \<times> completion" where
  "anthropic_attempts now backoff http 0 k last_err p =
     (note_failure now p, (case last_err of None \<Rightarrow> CompletionNil | Some e \<Rightarrow> CompletionError e))"
| "anthropic_attempts now backoff http (Suc n) k last_err p =
     (if 0 < k \<and> backoff k = BackoffCanceled
      then (p, CompletionError (provider_text p ''canceled during retry backoff''))
      else
        case anthropic_once p (http k) of
          Inl tokens \<Rightarrow> (note_success p, CompletionOk tokens)
        | Inr (retryable, e) \<Rightarrow>
            if \<not> retryable then (note_failure now p, CompletionError e)
            else anthropic_attempts now backoff http n (k + 1) (Some e) p)"

definition anthropic_complete ::
  "int \<Rightarrow> (nat \<Rightarrow> backoff_outcome) \<Rightarrow> (nat \<Rightarrow> http_outcome) \<Rightarrow> provider \<Rightarrow> provider \<times> completion" where
  "anthropic_complete now backoff http p =
     (case cb_allow now (pv_breaker p) of
        (cb, False) \<Rightarrow> (p\<lparr>pv_breaker := cb\<rparr>, CompletionError (circuit_open_text p))
      | (cb, True) \<Rightarrow> anthropic_attempts now backoff http (attempt_count p) 0 None (p\<lparr>pv_breaker := cb\<rparr>))"

definition provider_complete ::
  "int \<Rightarrow> (nat \<Rightarrow> backoff_outcome) \<Rightarrow> (nat \<Rightarrow> http_outcome) \<Rightarrow> provider \<Rightarrow> provider \<times> completion" where
  "provider_complete now backoff http p =
     (case pv_kind p of
        OpenAICompatible \<Rightarrow> openai_complete now backoff http p
      | AnthropicApi \<Rightarrow> anthropic_complete now backoff http p)"

text \<open>\<open>IsAvailable\<close>; asking the Anthropic client asks its breaker, which may move to half-open.\<close>

definition is_available :: "int \<Rightarrow> provider \<Rightarrow> provider \<times> bool" where
  "is_available now p =
     (case pv_kind p of
        OpenAICompatible \<Rightarrow> (p, pv_last_error p = None \<and> cb_state (pv_breaker p) \<noteq> CircuitOpen)
      | AnthropicApi \<Rightarrow>
          if \<not> pv_has_key p then (p, False)
          else (case cb_allow now (pv_breaker p) of (cb, ok) \<Rightarrow> (p\<lparr>pv_breaker := cb\<rparr>, ok)))"

section \<open>Registry\<close>

type_synonym provider_registry = "string \<rightharpoonup> provider"

definition find_provider :: "provider_registry \<Rightarrow> string \<Rightarrow> provider option" where
  "find_provider r name = r name"

definition register_provider :: "string \<Rightarrow> provider \<Rightarrow> provider_registry \<Rightarrow> provider_registry" where
  "register_provider name p r = r(name \<mapsto> p)"

definition unregister_provider :: "string \<Rightarrow> provider_registry \<Rightarrow> provider_registry" where
  "unregister_provider name r = r(name := None)"

text \<open>\<open>GetAvailable\<close>: the keys in the order of this walk over the map.\<close>

fun get_available :: "int \<Rightarrow> string list \<Rightarrow> provider_registry \<Rightarrow> provider_registry \<times> string list" where
  "get_available now [] r = (r, [])"
| "get_available now (name # names) r =
     (case find_provider r name of
        None \<Rightarrow> get_available now names r
      | Some p \<Rightarrow>
          let (p', ok) = is_available now p;
              (r', avail) = get_available now names (register_provider name p' r)
          in (r', if ok then name # avail else avail))"

section \<open>Router\<close>

datatype route_strategy = StrategyFastest | StrategyCheapest | StrategyFallback | StrategyRoundRobin

record router =
  rt_strategy :: route_strategy
  rt_latency :: "string \<rightharpoonup> int"
  rt_cost :: "string \<rightharpoonup> rat"
  rt_index :: nat

definition new_router :: "route_strategy \<Rightarrow> router" where
  "new_router s = \<lparr>rt_strategy = s, rt_latency = Map.empty, rt_cost = Map.empty, rt_index = 0\<rparr>"

definition max_duration :: int where
  "max_duration = 2 ^ 63 - 1"

text \<open>The scan of \<open>selectFastest\<close>: the best so far and its latency.\<close>

fun fastest_scan :: "(string \<rightharpoonup> int) \<Rightarrow> string option \<Rightarrow> int \<Rightarrow> string list \<Rightarrow> string option" where
  "fastest_scan lat best min_latency [] = best"
| "fastest_scan lat best min_latency (p # ps) =
     (case lat p of
        None \<Rightarrow> Some p
      | Some l \<Rightarrow> if l < min_latency then fastest_scan lat (Some p) l ps else fastest_scan lat best min_latency ps)"

definition select_fastest :: "router \<Rightarrow> string list \<Rightarrow> string option" where
  "select_fastest rt ps =
     (if ps = [] then None
      else case fastest_scan (rt_latency rt) None max_duration ps of None \<Rightarrow> Some (hd ps) | Some p \<Rightarrow> Some p)"

fun cheapest_scan :: "(string \<rightharpoonup> rat) \<Rightarrow> string option \<Rightarrow> rat \<Rightarrow> string list \<Rightarrow> string option" where
  "cheapest_scan cost best min_cost [] = best"
| "cheapest_scan cost best min_cost (p # ps) =
     (case cost p of
        None \<Rightarrow> Some p
      | Some c \<Rightarrow>
          if min_cost < 0 \<or> c < min_cost then cheapest_scan cost (Some p) c ps
          else cheapest_scan cost best min_cost ps)"

definition select_cheapest :: "router \<Rightarrow> string list \<Rightarrow> string option" where
  "select_cheapest rt ps =
     (if ps = [] then None
      else case cheapest_scan (rt_cost rt) None (- 1) ps of None \<Rightarrow> Some (hd ps) | Some p \<Rightarrow> Some p)"

definition select_fallback ::
  "int \<Rightarrow> provider_registry \<Rightarrow> string list \<Rightarrow> string \<Rightarrow> provider_registry \<times> string option" where
  "select_fallback now r ps preferred =
     (if ps = [] then (r, None)
      else
        (case (if preferred = [] then None else find_provider r preferred) of
           None \<Rightarrow> (r, Some (hd ps))
         | Some p \<Rightarrow>
             (case is_available now p of
                (p', ok) \<Rightarrow> (register_provider preferred p' r, Some (if ok then preferred else hd ps)))))"

definition select_round_robin :: "router \<Rightarrow> string list \<Rightarrow> router \<times> string option" where
  "select_round_robin rt ps =
     (if ps = [] then (rt, None)
      else (rt\<lparr>rt_index := rt_index rt + 1\<rparr>, Some (ps ! (rt_index rt mod length ps))))"

definition select_provider ::
  "int \<Rightarrow> router \<Rightarrow> provider_registry \<Rightarrow> string list \<Rightarrow> string \<Rightarrow> router \<times> provider_registry \<times> string option" where
  "select_provider now rt r ps preferred =
     (case rt_strategy rt of
        StrategyFastest \<Rightarrow> (rt, r, select_fastest rt ps)
      | StrategyCheapest \<Rightarrow> (rt, r, select_cheapest rt ps)
      | StrategyFallback \<Rightarrow> (case select_fallback now r ps preferred of (r', p) \<Rightarrow> (rt, r', p))
      | StrategyRoundRobin \<Rightarrow> (case select_round_robin rt ps of (rt', p) \<Rightarrow> (rt', r, p)))"

definition record_latency :: "string \<Rightarrow> int \<Rightarrow> router \<Rightarrow> router" where
  "record_latency name duration rt =
     (let lat = (case rt_latency rt name of None \<Rightarrow> duration | Some old \<Rightarrow> (old * 7 + duration * 3) div 10)
      in rt\<lparr>rt_latency := (rt_latency rt)(name \<mapsto> lat)\<rparr>)"

definition record_cost :: "string \<Rightarrow> nat \<Rightarrow> router \<Rightarrow> router" where
  "record_cost name tokens rt =
     (let c = rat_of_nat tokens / 10000;
          cost = (case rt_cost rt name of None \<Rightarrow> c | Some old \<Rightarrow> old * 7 / 10 + c * 3 / 10)
      in rt\<lparr>rt_cost := (rt_cost rt)(name \<mapsto> cost)\<rparr>)"

definition record_route_success :: "string \<Rightarrow> int \<Rightarrow> nat \<Rightarrow> router \<Rightarrow> router" where
  "record_route_success name duration tokens rt = record_cost name tokens (record_latency name duration rt)"

text \<open>One routed request: the clock, the walk over the map, the preferred provider, and the network.\<close>

record route_request =
  rq_now :: int
  rq_order :: "string list"
  rq_preferred :: string
  rq_backoff :: "nat \<Rightarrow> backoff_outcome"
  rq_http :: "nat \<Rightarrow> http_outcome"
  rq_duration :: int

datatype route_result = NoAvailableProviders | NoProviderSelected | ProviderFailed string string | Routed string nat
  | RoutePanicked string

definition route ::
  "router \<times> provider_registry \<Rightarrow> route_request \<Rightarrow> (router \<times> provider_registry) \<times> route_result" where
  "route st q =
     (let (rt, r) = st;
          (r1, avail) = get_available (rq_now q) (rq_order q) r
      in if avail = [] then ((rt, r1), NoAvailableProviders)
         else
           (case select_provider (rq_now q) rt r1 avail (rq_preferred q) of
              (rt1, r2, None) \<Rightarrow> ((rt1, r2), NoProviderSelected)
            | (rt1, r2, Some name) \<Rightarrow>
                (case find_provider r2 name of
                   None \<Rightarrow> ((rt1, r2), NoProviderSelected)
                 | Some p \<Rightarrow>
                     (case provider_complete (rq_now q) (rq_backoff q) (rq_http q) p of
                        (p', CompletionError e) \<Rightarrow> ((rt1, register_provider name p' r2), ProviderFailed name e)
                      | (p', CompletionOk tokens) \<Rightarrow>
                          ((record_route_success name (rq_duration q) tokens rt1, register_provider name p' r2),
                           Routed name tokens)
                      | (p', CompletionNil) \<Rightarrow>
                          ((record_latency name (rq_duration q) rt1, register_provider name p' r2),
                           RoutePanicked name)))))"

definition route_state :: "router \<times> provider_registry \<Rightarrow> route_request \<Rightarrow> router \<times> provider_registry" where
  "route_state st q = fst (route st q)"

section \<open>Lemmas\<close>

interpretation providers_kv: kv_registry find_provider register_provider unregister_provider
  by unfold_locales (auto simp: find_provider_def register_provider_def unregister_provider_def)

text \<open>An OpenAI-compatible client that is not available any more.\<close>

definition shut_out :: "provider \<Rightarrow> bool" where
  "shut_out p \<longleftrightarrow> pv_kind p = OpenAICompatible \<and> (pv_last_error p \<noteq> None \<or> cb_state (pv_breaker p) = CircuitOpen)"

lemma shut_out_unavailable: "shut_out p \<Longrightarrow> is_available now p = (p, False)"
  by (auto simp: shut_out_def is_available_def)

lemma register_found: "find_provider r name = Some p \<Longrightarrow> register_provider name p r = r"
  by (auto simp: find_provider_def register_provider_def)

lemma get_available_cons:
  "find_provider r name = Some p \<Longrightarrow> is_available now p = (p', ok) \<Longrightarrow>
    get_available now names (register_provider name p' r) = (r', avail) \<Longrightarrow>
    get_available now (name # names) r = (r', if ok then name # avail else avail)"
  by simp

lemma get_available_shut_out:
  "find_provider r name = Some p \<Longrightarrow> shut_out p \<Longrightarrow> get_available now names r = (r', avail) \<Longrightarrow>
    find_provider r' name = Some p \<and> name \<notin> set avail \<and> set avail \<subseteq> set names"
proof (induction names arbitrary: r r' avail)
  case (Cons n names)
  show ?case
  proof (cases "find_provider r n")
    case None
    with Cons show ?thesis by auto
  next
    case (Some pn)
    obtain pn' ok where av: "is_available now pn = (pn', ok)" by force
    obtain r1 avail1 where g: "get_available now names (register_provider n pn' r) = (r1, avail1)" by force
    note res = get_available_cons [OF Some av g]
    show ?thesis
    proof (cases "n = name")
      case True
      with Some Cons.prems(1) have "pn = p" by simp
      with av shut_out_unavailable [OF Cons.prems(2), of now] have "pn' = p" "\<not> ok" by simp_all
      with g True register_found [OF Cons.prems(1)] have "get_available now names r = (r1, avail1)" by simp
      from Cons.IH [OF Cons.prems(1,2) this] res Cons.prems(3) \<open>\<not> ok\<close> show ?thesis by auto
    next
      case False
      then have "find_provider (register_provider n pn' r) name = Some p"
        using Cons.prems(1) by (simp add: providers_kv.look_ins)
      from Cons.IH [OF this Cons.prems(2) g] res Cons.prems(3) False show ?thesis by (cases ok) auto
    qed
  qed
qed simp

lemma fastest_scan_in: "fastest_scan lat best m ps = Some p \<Longrightarrow> p \<in> set ps \<or> best = Some p"
  by (induction lat best m ps rule: fastest_scan.induct) (auto split: option.splits if_splits)

lemma cheapest_scan_in: "cheapest_scan cost best m ps = Some p \<Longrightarrow> p \<in> set ps \<or> best = Some p"
  by (induction cost best m ps rule: cheapest_scan.induct) (auto split: option.splits if_splits)

text \<open>Whatever the strategy, the provider that is selected is available.\<close>

lemma select_provider_shut_out:
  assumes "select_provider now rt r ps preferred = (rt', r', sel)"
    and "find_provider r name = Some p" "shut_out p" "name \<notin> set ps"
  shows "find_provider r' name = Some p \<and> sel \<noteq> Some name"
proof -
  have hd: "hd ps \<noteq> name" if "ps \<noteq> []" using that assms(4) hd_in_set by metis
  show ?thesis
  proof (cases "rt_strategy rt")
    case StrategyFastest
    with assms fastest_scan_in [of "rt_latency rt" None max_duration ps] hd show ?thesis
      by (auto simp: select_provider_def select_fastest_def split: if_splits option.splits)
  next
    case StrategyCheapest
    with assms cheapest_scan_in [of "rt_cost rt" None "- 1" ps] hd show ?thesis
      by (auto simp: select_provider_def select_cheapest_def split: if_splits option.splits)
  next
    case StrategyFallback
    with assms hd shut_out_unavailable [OF assms(3), of now] show ?thesis
      by (cases "preferred = name")
        (auto simp: select_provider_def select_fallback_def providers_kv.look_ins
          split: if_splits option.splits prod.splits)
  next
    case StrategyRoundRobin
    moreover have "ps ! (rt_index rt mod length ps) \<in> set ps" if "ps \<noteq> []" using that by simp
    ultimately show ?thesis using assms
      by (auto simp: select_provider_def select_round_robin_def split: if_splits)
  qed
qed

lemma route_shut_out:
  assumes "find_provider (snd st) name = Some p" "shut_out p"
  shows "find_provider (snd (route_state st q)) name = Some p"
proof -
  obtain rt r where st: "st = (rt, r)" by force
  obtain r1 avail where g: "get_available (rq_now q) (rq_order q) r = (r1, avail)" by force
  from get_available_shut_out [OF _ assms(2) g, of name] assms(1) st
  have a: "find_provider r1 name = Some p" "name \<notin> set avail" by simp_all
  obtain rt1 r2 sel where s: "select_provider (rq_now q) rt r1 avail (rq_preferred q) = (rt1, r2, sel)"
    by (metis prod_cases3)
  from select_provider_shut_out [OF s a(1) assms(2) a(2)]
  have b: "find_provider r2 name = Some p" "sel \<noteq> Some name" by simp_all
  show ?thesis
  proof (cases sel)
    case None
    with a b g s st show ?thesis by (simp add: route_state_def route_def)
  next
    case (Some n)
    with b(2) have "n \<noteq> name" by simp
    with a b g s st Some show ?thesis
      by (auto simp: route_state_def route_def providers_kv.look_ins split: option.splits prod.splits completion.splits)
  qed
qed

interpretation shut_out_run: guarded_machine route_state
  "\<lambda>st. find_provider (snd st) name = Some p \<and> shut_out p" for name p
  by unfold_locales (auto intro: route_shut_out)

section \<open>Properties\<close>

text \<open>
  An OpenAI-compatible provider with a recorded error, or with an open circuit, is out for good: whatever is
  requested afterwards, at whatever time and with whatever strategy, its client is not touched again, so
  neither the error is cleared nor the circuit ever probed.
\<close>

lemma shut_out_provider_stays_out:
  assumes "find_provider r name = Some p" "pv_kind p = OpenAICompatible"
    and "pv_last_error p \<noteq> None \<or> cb_state (pv_breaker p) = CircuitOpen"
  shows "find_provider (snd (foldl route_state (rt, r) qs)) name = Some p"
  using shut_out_run.run_keeps [of "(rt, r)" name p qs] assms by (simp add: shut_out_def)

text \<open>A registry of one provider.\<close>

lemma find_lone: "find_provider [name \<mapsto> p] n = (if n = name then Some p else None)"
  by (simp add: find_provider_def)

lemma register_lone: "register_provider name p' [name \<mapsto> p] = [name \<mapsto> p']"
  by (simp add: register_provider_def)

lemma get_available_lone:
  "shut_out p \<Longrightarrow> get_available now names [name \<mapsto> p] = ([name \<mapsto> p], [])"
proof (induction names)
  case (Cons n names)
  show ?case
  proof (cases "n = name")
    case True
    have "get_available now (n # names) [name \<mapsto> p] = ([name \<mapsto> p], if False then n # [] else [])"
      by (rule get_available_cons [OF _ shut_out_unavailable [OF Cons.prems]])
        (simp_all only: True find_lone register_lone Cons.IH [OF Cons.prems] if_True simp_thms)
    then show ?thesis unfolding if_False .
  next
    case False
    with Cons.IH [OF Cons.prems] show ?thesis
      by (simp only: get_available.simps find_lone if_False option.case)
  qed
qed simp

lemma route_lone: "shut_out p \<Longrightarrow> route (rt, [name \<mapsto> p]) q = ((rt, [name \<mapsto> p]), NoAvailableProviders)"
  by (simp add: route_def get_available_lone)

lemma run_lone: "shut_out p \<Longrightarrow> foldl route_state (rt, [name \<mapsto> p]) qs = (rt, [name \<mapsto> p])"
  by (induction qs) (simp_all add: route_state_def route_lone)

lemma select_provider_lone:
  assumes "is_available now p = (p, True)"
  shows "\<exists>rt'. select_provider now rt [name \<mapsto> p] [name] preferred = (rt', [name \<mapsto> p], Some name)"
proof -
  have "select_fastest rt [name] = Some name" "select_cheapest rt [name] = Some name"
    by (auto simp: select_fastest_def select_cheapest_def split: option.splits)
  moreover have "select_fallback now [name \<mapsto> p] [name] preferred = ([name \<mapsto> p], Some name)"
    using assms by (auto simp: select_fallback_def find_provider_def register_provider_def)
  ultimately show ?thesis
    by (cases "rt_strategy rt") (simp_all add: select_provider_def select_round_robin_def)
qed

text \<open>
  One failed request ends the service of a lone provider: after an answer with an error status every later
  request is refused with \<open>no available providers\<close>, however long one waits.
\<close>

lemma one_failure_ends_service:
  assumes "pv_kind p = OpenAICompatible" "\<not> pv_is_ollama p" "pv_last_error p = None"
    and "cb_state (pv_breaker p) = CircuitClosed" "0 \<le> pv_max_retries p"
    and "rq_order q = [name]" "rq_http q 0 = HttpStatus status body retry_after" "status \<noteq> 429 \<or> retry_after \<le> 0"
  shows "snd (route (foldl route_state (route_state (rt, [name \<mapsto> p]) q) qs) q') = NoAvailableProviders"
proof -
  have av: "is_available (rq_now q) p = (p, True)" using assms by (simp add: is_available_def)
  obtain rt' where sel: "select_provider (rq_now q) rt [name \<mapsto> p] [name] (rq_preferred q) = (rt', [name \<mapsto> p], Some name)"
    using select_provider_lone [OF av] by blast
  have "nat (pv_max_retries p + 1) = Suc (nat (pv_max_retries p))" using assms(5) by simp
  then have "\<exists>e. provider_complete (rq_now q) (rq_backoff q) (rq_http q) p = openai_fail (rq_now q) (Some e) p"
    using assms by (auto simp: provider_complete_def openai_complete_def cb_allow_def attempt_count_def openai_finish_def)
  then obtain p' e where c: "provider_complete (rq_now q) (rq_backoff q) (rq_http q) p = (p', CompletionError e)" "shut_out p'"
    using assms(1) by (auto simp: openai_fail_def shut_out_def note_failure_def)
  have "get_available (rq_now q) (rq_order q) [name \<mapsto> p] = ([name \<mapsto> p], [name])"
    using av assms(6) by (simp add: find_provider_def register_provider_def)
  with sel c have "route_state (rt, [name \<mapsto> p]) q = (rt', [name \<mapsto> p'])"
    by (simp add: route_state_def route_def find_provider_def register_provider_def)
  then show ?thesis using c(2) by (simp add: run_lone route_lone)
qed

definition demo_request :: "http_outcome \<Rightarrow> int \<Rightarrow> route_request" where
  "demo_request r now = \<lparr>rq_now = now, rq_order = [''openai''], rq_preferred = [], rq_backoff = (\<lambda>k. BackoffDone),
     rq_http = (\<lambda>k. r), rq_duration = 1\<rparr>"

lemma one_failure_ends_service_witness:
  "snd (route (foldl route_state (route_state (new_router StrategyFallback,
       [''openai'' \<mapsto> new_provider ''openai'' OpenAICompatible True 3]) (demo_request (HttpStatus 503 [] 0) 0))
     [demo_request (HttpCompletion 10) 1000000000000]) (demo_request (HttpCompletion 10) 2000000000000))
   = NoAvailableProviders"
  by (rule one_failure_ends_service [where status = 503 and body = "[]" and retry_after = 0])
    (simp_all add: new_provider_def new_circuit_breaker_def demo_request_def)

lemma shut_out_provider_stays_out_witness:
  "find_provider (snd (foldl route_state (new_router StrategyFastest,
       [''openai'' \<mapsto> (new_provider ''openai'' OpenAICompatible True 3)\<lparr>pv_last_error := Some ''timeout''\<rparr>])
     [demo_request (HttpCompletion 10) 5])) ''openai''
   = Some ((new_provider ''openai'' OpenAICompatible True 3)\<lparr>pv_last_error := Some ''timeout''\<rparr>)"
  by (rule shut_out_provider_stays_out) (simp_all add: find_provider_def new_provider_def)

text \<open>The scan over providers that all have a latency is the generic scan for the best.\<close>

interpretation latency_scan: best_scan "\<lambda>p q. (lat p :: int) < lat q" for lat :: "string \<Rightarrow> int"
  by unfold_locales auto

lemma fastest_scan_pick:
  "\<forall>p\<in>set (b # ps). lat p = Some (l p) \<Longrightarrow> fastest_scan lat (Some b) (l b) ps = Some (latency_scan.pick l b ps)"
  by (induction ps arbitrary: b) auto

text \<open>
  \<open>StrategyFastest\<close> takes the first provider without latency data, and otherwise the first of the fastest ones:
  none is faster, and all before it are slower.
\<close>

lemma fastest_selection:
  assumes "ps \<noteq> []" "\<forall>p\<in>set ps. \<forall>l. rt_latency rt p = Some l \<longrightarrow> l < max_duration"
  shows "\<exists>p us vs. select_fastest rt ps = Some p \<and> ps = us @ p # vs \<and>
    (if rt_latency rt p = None then \<forall>u\<in>set us. rt_latency rt u \<noteq> None
     else (\<forall>u\<in>set us. the (rt_latency rt p) < the (rt_latency rt u)) \<and>
          (\<forall>v\<in>set ps. rt_latency rt v \<noteq> None \<and> the (rt_latency rt p) \<le> the (rt_latency rt v)))"
proof (cases "\<exists>p\<in>set ps. rt_latency rt p = None")
  case True
  then obtain us p vs where s: "ps = us @ p # vs" "rt_latency rt p = None" "\<forall>u\<in>set us. rt_latency rt u \<noteq> None"
    using split_list_first_prop [of ps "\<lambda>p. rt_latency rt p = None"] by blast
  have "fastest_scan (rt_latency rt) b m (us @ p # vs) = Some p" for b m
    using s(2,3) by (induction us arbitrary: b m) auto
  with s show ?thesis by (auto simp: select_fastest_def)
next
  case False
  obtain b qs where ps: "ps = b # qs" using assms(1) by (cases ps) auto
  define l where "l p = the (rt_latency rt p)" for p
  have all: "\<forall>p\<in>set (b # qs). rt_latency rt p = Some (l p)" using False ps by (auto simp: l_def)
  let ?p = "latency_scan.pick l b qs"
  have "l b < max_duration" using assms(2) all ps by simp
  with all fastest_scan_pick [OF all] have sel: "select_fastest rt ps = Some ?p"
    by (simp add: select_fastest_def ps)
  obtain us vs where uv: "ps = us @ ?p # vs" "\<forall>u\<in>set us. l ?p < l u"
    using latency_scan.pick_first [of b qs l] ps by blast
  have "rt_latency rt ?p = Some (l ?p)" using all uv(1) ps by (metis in_set_conv_decomp)
  moreover have "l ?p \<le> l v \<and> rt_latency rt v \<noteq> None" if "v \<in> set ps" for v
    using latency_scan.pick_maximal [of v b qs l] that all ps by (auto simp: not_less)
  ultimately show ?thesis using sel uv by (auto simp: l_def)
qed

lemma fastest_selection_witness:
  "\<exists>p us vs. select_fastest ((new_router StrategyFastest)\<lparr>rt_latency := [''a'' \<mapsto> 5, ''b'' \<mapsto> 3]\<rparr>) [''a'', ''b''] = Some p
     \<and> [''a'', ''b''] = us @ p # vs \<and> p = ''b''"
proof -
  let ?rt = "(new_router StrategyFastest)\<lparr>rt_latency := [''a'' \<mapsto> 5, ''b'' \<mapsto> 3]\<rparr>"
  obtain p us vs where f: "select_fastest ?rt [''a'', ''b''] = Some p" "[''a'', ''b''] = us @ p # vs"
    using fastest_selection [of "[''a'', ''b'']" ?rt] by (auto simp: max_duration_def)
  moreover have "select_fastest ?rt [''a'', ''b''] = Some ''b''"
    by (simp add: select_fastest_def max_duration_def)
  ultimately show ?thesis by (metis option.inject)
qed

text \<open>A failed request leaves no trace in the router, so an untracked provider that fails stays the first choice.\<close>

lemma failed_route_keeps_trackers:
  assumes "route (rt, r) q = ((rt', r'), ProviderFailed name e)"
  shows "rt_latency rt' = rt_latency rt \<and> rt_cost rt' = rt_cost rt"
proof -
  have "rt_latency rt1 = rt_latency rt \<and> rt_cost rt1 = rt_cost rt"
    if "select_provider now rt r1 ps pref = (rt1, r2, sel)" for now r1 ps pref rt1 r2 sel
    using that by (cases "rt_strategy rt")
      (auto simp: select_provider_def select_round_robin_def split: prod.splits if_splits)
  with assms show ?thesis
    by (auto simp: route_def Let_def split: prod.splits option.splits completion.splits if_splits)
qed

end
