(* ===== verification/Short_Term_Memory.thy ===== *)
theory Short_Term_Memory
  imports Complex_Main "HOL-Library.Multiset" Prelude Go_Strings
begin

text \<open>
  The short-term memory (\<open>internal/memory/shortterm.go\<close>): a buffer of entries with a token budget and a capacity,
  trimmed from its oldest end, with a keyword search ranked by \<open>sortByRelevance\<close> (\<open>internal/memory/store.go\<close>).
  Entries are shared by pointer in the code; the search stores the score of a hit in the entry itself, so the
  search returns the memory updated. Scores are quotients of small integers and modelled as exact rationals.
  Times are nanoseconds.
\<close>

datatype memory_type = MemoryShortTerm | MemoryLongTerm | MemorySkill

record mem_entry =
  me_id :: string
  me_content :: string
  me_type :: memory_type
  me_metadata :: "string \<rightharpoonup> string"
  me_created :: int
  me_score :: rat
  me_tags :: "string list"
  me_ttl :: int

definition is_expired :: "int \<Rightarrow> mem_entry \<Rightarrow> bool" where
  "is_expired now e \<longleftrightarrow> me_ttl e \<noteq> 0 \<and> now - me_created e > me_ttl e"

record short_term =
  st_entries :: "mem_entry list"
  st_max_tokens :: int
  st_tokens :: int
  st_capacity :: nat

definition new_short_term :: "int \<Rightarrow> short_term" where
  "new_short_term max_tokens = \<lparr>st_entries = [], st_max_tokens = max_tokens, st_tokens = 0, st_capacity = 1000\<rparr>"

section \<open>Adding, trimming, deleting\<close>

definition estimate_tokens :: "string \<Rightarrow> int" where
  "estimate_tokens s = int (length s div 4)"

definition over_budget :: "short_term \<Rightarrow> bool" where
  "over_budget st \<longleftrightarrow> st_tokens st > st_max_tokens st \<or> length (st_entries st) > st_capacity st"

text \<open>Token counts never go below zero.\<close>

definition forget_tokens :: "mem_entry \<Rightarrow> short_term \<Rightarrow> short_term" where
  "forget_tokens e st =
     (let t = st_tokens st - estimate_tokens (me_content e) in st\<lparr>st_tokens := (if t < 0 then 0 else t)\<rparr>)"

function trim_memory :: "short_term \<Rightarrow> short_term" where
  "trim_memory st =
     (if st_entries st \<noteq> [] \<and> over_budget st
      then trim_memory ((forget_tokens (hd (st_entries st)) st)\<lparr>st_entries := tl (st_entries st)\<rparr>)
      else st)"
  by auto
termination
  by (relation "measure (\<lambda>st. length (st_entries st))") (auto simp: forget_tokens_def Let_def)

declare trim_memory.simps [simp del]

definition add_entry :: "mem_entry \<Rightarrow> short_term \<Rightarrow> short_term" where
  "add_entry e st =
     trim_memory (st\<lparr>st_entries := st_entries st @ [e],
                     st_tokens := st_tokens st + estimate_tokens (me_content e)\<rparr>)"

text \<open>\<open>Delete\<close>: the first entry with this id.\<close>

fun remove_by_id :: "string \<Rightarrow> mem_entry list \<Rightarrow> (mem_entry \<times> mem_entry list) option" where
  "remove_by_id i [] = None"
| "remove_by_id i (e # es) =
     (if me_id e = i then Some (e, es)
      else case remove_by_id i es of None \<Rightarrow> None | Some (d, rest) \<Rightarrow> Some (d, e # rest))"

definition delete_entry :: "string \<Rightarrow> short_term \<Rightarrow> short_term \<times> bool" where
  "delete_entry i st =
     (case remove_by_id i (st_entries st) of
        None \<Rightarrow> (st, False)
      | Some (e, rest) \<Rightarrow> ((forget_tokens e st)\<lparr>st_entries := rest\<rparr>, True))"

definition clear_memory :: "short_term \<Rightarrow> short_term" where
  "clear_memory st = st\<lparr>st_entries := [], st_tokens := 0\<rparr>"

definition get_recent :: "int \<Rightarrow> short_term \<Rightarrow> mem_entry list" where
  "get_recent n st = (if n \<le> 0 then [] else last_n (nat n) (st_entries st))"

section \<open>Search\<close>

definition is_word_char :: "char \<Rightarrow> bool" where
  "is_word_char c \<longleftrightarrow> is_lower c \<or> is_upper c \<or> is_digit c \<or> c = CHR ''_''"

text \<open>The words of a text; a rune that is not ASCII consists of bytes that are no word characters.\<close>

fun tokenize_from :: "string \<Rightarrow> string \<Rightarrow> string list" where
  "tokenize_from current [] = (if current \<noteq> [] then [current] else [])"
| "tokenize_from current (c # cs) =
     (if is_word_char c then tokenize_from (current @ [c]) cs
      else if current \<noteq> [] then current # tokenize_from [] cs
      else tokenize_from [] cs)"

definition tokenize :: "string \<Rightarrow> string list" where
  "tokenize s = tokenize_from [] s"

text \<open>\<open>findSubstring\<close>, with \<open>None\<close> for its -1: the positions are tried from the left.\<close>

function find_from :: "string \<Rightarrow> string \<Rightarrow> nat \<Rightarrow> nat option" where
  "find_from s w i =
     (if i + length w \<le> length s
      then (if take (length w) (drop i s) = w then Some i else find_from s w (i + 1))
      else None)"
  by auto
termination
  by (relation "measure (\<lambda>(s, w, i). Suc (length s) - i)") auto

declare find_from.simps [simp del]

definition find_substring :: "string \<Rightarrow> string \<Rightarrow> nat option" where
  "find_substring s w = (if length w > length s then None else find_from s w 0)"

text \<open>The loop of \<open>countOccurrences\<close> does not end for an empty word; then the value is \<open>None\<close>.\<close>

partial_function (option) count_from :: "string \<Rightarrow> int \<Rightarrow> string \<Rightarrow> int option" where
  "count_from w n s =
     (case find_substring s w of
        None \<Rightarrow> Some n
      | Some i \<Rightarrow> count_from w (n + 1) (drop (i + length w) s))"

definition count_occurrences :: "string \<Rightarrow> string \<Rightarrow> int option" where
  "count_occurrences s w = count_from w 0 s"

fun relevance_sum :: "string \<Rightarrow> string list \<Rightarrow> string list \<Rightarrow> int \<Rightarrow> int option" where
  "relevance_sum content seen [] acc = Some acc"
| "relevance_sum content seen (w # ws) acc =
     (if w \<in> set seen then relevance_sum content seen ws acc
      else case count_occurrences content w of
        None \<Rightarrow> None
      | Some n \<Rightarrow> relevance_sum content (w # seen) ws (if n > 0 then acc + n else acc))"

definition calculate_relevance :: "string \<Rightarrow> string list \<Rightarrow> rat option" where
  "calculate_relevance content ws =
     (if ws = [] then Some 0
      else map_option (\<lambda>n. rat_of_int n / rat_of_nat (length ws)) (relevance_sum content [] ws 0))"

definition sort_by_relevance :: "mem_entry list \<Rightarrow> mem_entry list" where
  "sort_by_relevance = exchange_sort (\<lambda>e f. me_score e > me_score f)"

text \<open>The walk over the entries: the entries with their scores updated, and copies of the hits.\<close>

fun score_entries :: "int \<Rightarrow> string list \<Rightarrow> mem_entry list \<Rightarrow> (mem_entry list \<times> mem_entry list) option" where
  "score_entries now ws [] = Some ([], [])"
| "score_entries now ws (e # es) =
     (if is_expired now e
      then map_option (\<lambda>(all, hits). (e # all, hits)) (score_entries now ws es)
      else case calculate_relevance (to_lower (me_content e)) ws of
        None \<Rightarrow> None
      | Some s \<Rightarrow>
          if s > 0
          then map_option (\<lambda>(all, hits). (e\<lparr>me_score := s\<rparr> # all, e\<lparr>me_score := s\<rparr> # hits)) (score_entries now ws es)
          else map_option (\<lambda>(all, hits). (e # all, hits)) (score_entries now ws es))"

definition limit_results :: "int \<Rightarrow> mem_entry list \<Rightarrow> mem_entry list" where
  "limit_results limit es = (if limit > 0 \<and> int (length es) > limit then take (nat limit) es else es)"

definition search_memory :: "int \<Rightarrow> string \<Rightarrow> int \<Rightarrow> short_term \<Rightarrow> (short_term \<times> mem_entry list) option" where
  "search_memory now query limit st =
     map_option (\<lambda>(all, hits). (st\<lparr>st_entries := all\<rparr>, limit_results limit (sort_by_relevance hits)))
       (score_entries now (tokenize (to_lower query)) (st_entries st))"

section \<open>The token account\<close>

definition tokens_of :: "mem_entry list \<Rightarrow> int" where
  "tokens_of es = sum_list (map (\<lambda>e. estimate_tokens (me_content e)) es)"

lemma tokens_of_simps [simp]:
  "tokens_of [] = 0"
  "tokens_of (e # es) = estimate_tokens (me_content e) + tokens_of es"
  "tokens_of (es @ fs) = tokens_of es + tokens_of fs"
  by (simp_all add: tokens_of_def)

lemma estimate_tokens_nonneg [simp]: "0 \<le> estimate_tokens s"
  by (simp add: estimate_tokens_def)

lemma tokens_of_nonneg [simp]: "0 \<le> tokens_of es"
  by (induction es) (auto intro: add_nonneg_nonneg)

text \<open>The budget and the capacity as a predicate on a list of entries.\<close>

definition within_limits :: "short_term \<Rightarrow> mem_entry list \<Rightarrow> bool" where
  "within_limits st es \<longleftrightarrow> tokens_of es \<le> st_max_tokens st \<and> length es \<le> st_capacity st"

definition accounted :: "short_term \<Rightarrow> bool" where
  "accounted st \<longleftrightarrow> st_tokens st = tokens_of (st_entries st)"

lemma over_budget_accounted: "accounted st \<Longrightarrow> over_budget st \<longleftrightarrow> \<not> within_limits st (st_entries st)"
  by (auto simp: over_budget_def within_limits_def accounted_def)

lemma forget_tokens_fields [simp]:
  "st_entries (forget_tokens e st) = st_entries st"
  "st_max_tokens (forget_tokens e st) = st_max_tokens st"
  "st_capacity (forget_tokens e st) = st_capacity st"
  by (simp_all add: forget_tokens_def Let_def)

lemma forget_tokens_accounted:
  assumes "st_tokens st = estimate_tokens (me_content e) + tokens_of es"
  shows "st_tokens (forget_tokens e st) = tokens_of es"
  using assms tokens_of_nonneg [of es] by (simp add: forget_tokens_def Let_def not_less)

text \<open>Trimming keeps the longest end of the buffer that is within the limits.\<close>

lemma trim_memory_spec:
  "accounted st \<Longrightarrow>
     accounted (trim_memory st) \<and> st_max_tokens (trim_memory st) = st_max_tokens st \<and>
     st_capacity (trim_memory st) = st_capacity st \<and>
     (\<exists>k \<le> length (st_entries st). st_entries (trim_memory st) = drop k (st_entries st) \<and>
        (k = length (st_entries st) \<or> within_limits st (drop k (st_entries st))) \<and>
        (\<forall>j<k. \<not> within_limits st (drop j (st_entries st))))"
proof (induction st rule: trim_memory.induct)
  case (1 st)
  show ?case
  proof (cases "st_entries st \<noteq> [] \<and> over_budget st")
    case False
    with over_budget_accounted [OF "1.prems"] have "st_entries st = [] \<or> within_limits st (st_entries st)" by blast
    with False "1.prems" show ?thesis
      by (subst (1 2 3 4) trim_memory.simps, intro conjI) (auto intro!: exI [where x = 0])
  next
    case True
    then obtain e es where es: "st_entries st = e # es" by (cases "st_entries st") auto
    let ?st = "(forget_tokens e st)\<lparr>st_entries := es\<rparr>"
    have eq: "trim_memory st = trim_memory ?st"
      using True es by (subst trim_memory.simps) simp
    have acc: "accounted ?st"
      using "1.prems" es forget_tokens_accounted [of st e es] by (simp add: accounted_def)
    have lim: "within_limits ?st fs = within_limits st fs" for fs
      by (simp add: within_limits_def)
    from "1.IH" [OF True] es acc obtain k where k: "accounted (trim_memory ?st)"
      "st_max_tokens (trim_memory ?st) = st_max_tokens st" "st_capacity (trim_memory ?st) = st_capacity st"
      "k \<le> length es" "st_entries (trim_memory ?st) = drop k es"
      "k = length es \<or> within_limits st (drop k es)" "\<forall>j<k. \<not> within_limits st (drop j es)"
      by (auto simp: lim)
    have "\<not> within_limits st (e # es)"
      using True es over_budget_accounted [OF "1.prems"] by simp
    with k(7) have "\<forall>j<Suc k. \<not> within_limits st (drop j (e # es))"
      by (metis drop0 drop_Suc_Cons less_Suc_eq_0_disj)
    with k show ?thesis unfolding eq es
      by (intro conjI exI [where x = "Suc k"]) auto
  qed
qed

lemma remove_by_id_Some:
  "remove_by_id i es = Some (e, rest) \<Longrightarrow>
     \<exists>us vs. es = us @ e # vs \<and> rest = us @ vs \<and> me_id e = i \<and> i \<notin> me_id ` set us"
proof (induction es arbitrary: rest)
  case (Cons f fs)
  show ?case
  proof (cases "me_id f = i")
    case True
    with Cons.prems show ?thesis by (intro exI [where x = "[]"] exI [where x = rest]) simp
  next
    case False
    with Cons.prems obtain r where "remove_by_id i fs = Some (e, r)" "rest = f # r"
      by (auto split: option.splits)
    with Cons.IH [of r] False obtain us vs where "fs = us @ e # vs" "r = us @ vs" "me_id e = i" "i \<notin> me_id ` set us"
      by blast
    with False \<open>rest = f # r\<close> show ?thesis
      by (intro exI [where x = "f # us"] exI [where x = vs]) auto
  qed
qed simp

lemma remove_by_id_None: "remove_by_id i es = None \<longleftrightarrow> i \<notin> me_id ` set es"
  by (induction es) (auto split: option.splits)

section \<open>Counting occurrences\<close>

text \<open>\<open>findSubstring\<close> is \<open>strings.Index\<close>.\<close>

lemma find_from_index:
  "i \<le> length s \<Longrightarrow> find_from s w i = map_option (\<lambda>j. i + j) (str_index (drop i s) w)"
proof (induction s w i rule: find_from.induct)
  case (1 s w i)
  show ?case
  proof (cases "i + length w \<le> length s")
    case False
    with "1.prems" have "length (drop i s) < length w" by simp
    then have "\<not> contains_str (drop i s) w"
      by (metis contains_str_iff not_less sublist_length_le)
    with False show ?thesis by (simp add: find_from.simps [of s w i] str_index_None)
  next
    case fits: True
    show ?thesis
    proof (cases "take (length w) (drop i s) = w")
      case True
      then have "has_prefix (drop i s) w" by (metis has_prefix_iff take_is_prefix)
      then have "str_index (drop i s) w = Some 0" by (cases "drop i s"; cases w) auto
      with fits True show ?thesis by (simp add: find_from.simps [of s w i])
    next
      case False
      with fits have "i < length s" by (cases w) auto
      then have d: "drop i s = s ! i # drop (Suc i) s" by (simp add: Cons_nth_drop_Suc)
      have "\<not> has_prefix (drop i s) w"
        using False by (metis append_eq_conv_conj has_prefix_iff prefix_def)
      then have "str_index (drop i s) w = map_option Suc (str_index (drop (Suc i) s) w)"
        using d by simp
      with "1.IH" [OF fits False] \<open>i < length s\<close> fits False show ?thesis
        by (simp add: find_from.simps [of s w i] option.map_comp comp_def)
    qed
  qed
qed

lemma find_substring_index: "find_substring s w = str_index s w"
proof (cases "length w > length s")
  case True
  then have "\<not> contains_str s w" by (metis contains_str_iff not_less sublist_length_le)
  then have "str_index s w = None" by (simp add: str_index_None)
  with True show ?thesis by (simp add: find_substring_def)
next
  case False
  then show ?thesis
    using find_from_index [of 0 s w] by (simp add: find_substring_def option.map_ident)
qed

text \<open>The loop ends for every word that is not empty, with the occurrences cut out one by one.\<close>

lemma count_from_cuts:
  "w \<noteq> [] \<Longrightarrow> \<exists>us rest. count_from w n s = Some (n + int (length us)) \<and>
     s = concat (map (\<lambda>u. u @ w) us) @ rest \<and> \<not> contains_str rest w"
proof (induction s arbitrary: n rule: length_induct)
  case (1 s)
  show ?case
  proof (cases "str_index s w")
    case None
    then have "\<not> contains_str s w" by (simp add: str_index_None)
    with None show ?thesis
      by (intro exI [where x = "[]"] exI [where x = s]) (simp add: count_from.simps [of w n s] find_substring_index)
  next
    case (Some i)
    from str_index_Some [OF Some] have i: "i + length w \<le> length s" "take (length w) (drop i s) = w" by auto
    let ?s = "drop (i + length w) s"
    have "length ?s < length s" using i(1) "1.prems" by (cases w) auto
    with "1.IH" "1.prems" obtain us rest where ih: "count_from w (n + 1) ?s = Some (n + 1 + int (length us))"
      "?s = concat (map (\<lambda>u. u @ w) us) @ rest" "\<not> contains_str rest w" by blast
    have "s = take i s @ w @ ?s"
      using i(2) by (metis append_take_drop_id drop_drop add.commute)
    with ih show ?thesis
      by (intro exI [where x = "take i s # us"] exI [where x = rest])
        (simp add: count_from.simps [of w n s] find_substring_index Some)
  qed
qed

lemma str_index_empty_word [simp]: "str_index s [] = Some 0"
  by (cases s) auto

lemma count_from_empty_word: "count_from w n s = Some m \<Longrightarrow> w \<noteq> []"
proof (rule count_from.raw_induct [where P = "\<lambda>w n s m. w \<noteq> []"])
  fix rec w n s m
  assume ih: "\<And>n s b y. rec n s b = Some y \<Longrightarrow> n \<noteq> []"
    and eq: "(case find_substring s w of None \<Rightarrow> Some n | Some i \<Rightarrow> rec w (n + 1) (drop (i + length w) s)) = Some m"
  show "w \<noteq> []"
  proof
    assume "w = []"
    with eq have "rec w (n + 1) (drop (0 + length w) s) = Some m" by (simp add: find_substring_index)
    then have "w \<noteq> []" by (rule ih)
    with \<open>w = []\<close> show False by simp
  qed
qed assumption

lemma count_occurrences_total: "(\<exists>n. count_occurrences s w = Some n) \<longleftrightarrow> w \<noteq> []"
  using count_from_cuts [of w 0 s] count_from_empty_word by (auto simp: count_occurrences_def)

section \<open>Ranking and search\<close>

lemma tokenize_from_words: "w \<in> set (tokenize_from current s) \<Longrightarrow> w \<noteq> []"
  by (induction current s rule: tokenize_from.induct) (auto split: if_splits)

lemma relevance_sum_total: "[] \<notin> set ws \<Longrightarrow> \<exists>n. relevance_sum content seen ws acc = Some n"
proof (induction ws arbitrary: seen acc)
  case (Cons w ws)
  then have "w \<noteq> []" by auto
  then obtain n where "count_occurrences content w = Some n" using count_occurrences_total by blast
  with Cons show ?case by auto
qed simp

lemma calculate_relevance_total: "[] \<notin> set ws \<Longrightarrow> \<exists>s. calculate_relevance content ws = Some s"
  using relevance_sum_total [of ws content "[]" 0] by (auto simp: calculate_relevance_def)

text \<open>What the search does to one entry: the entry with its score, when it is a hit.\<close>

definition scored :: "int \<Rightarrow> string list \<Rightarrow> mem_entry \<Rightarrow> mem_entry option" where
  "scored now ws e =
     (if is_expired now e then None
      else case calculate_relevance (to_lower (me_content e)) ws of
        None \<Rightarrow> None
      | Some s \<Rightarrow> if s > 0 then Some (e\<lparr>me_score := s\<rparr>) else None)"

definition hits :: "int \<Rightarrow> string list \<Rightarrow> mem_entry list \<Rightarrow> mem_entry list" where
  "hits now ws es = List.map_filter (scored now ws) es"

lemma score_entries_hits:
  "[] \<notin> set ws \<Longrightarrow>
     score_entries now ws es = Some (map (\<lambda>e. case scored now ws e of None \<Rightarrow> e | Some e' \<Rightarrow> e') es, hits now ws es)"
proof (induction es)
  case Nil
  then show ?case by (simp add: hits_def map_filter_simps)
next
  case (Cons e es)
  then obtain s where "calculate_relevance (to_lower (me_content e)) ws = Some s"
    using calculate_relevance_total by blast
  with Cons show ?case by (auto simp: hits_def map_filter_simps scored_def)
qed

lemma search_memory_eq:
  fixes st :: short_term and now limit :: int and query :: string
  defines "ws \<equiv> tokenize (to_lower query)"
  shows "search_memory now query limit st =
    Some (st\<lparr>st_entries := map (\<lambda>e. case scored now ws e of None \<Rightarrow> e | Some e' \<Rightarrow> e') (st_entries st)\<rparr>,
          limit_results limit (sort_by_relevance (hits now ws (st_entries st))))"
proof -
  have "[] \<notin> set ws" using tokenize_from_words by (auto simp: ws_def tokenize_def)
  then show ?thesis by (simp add: search_memory_def score_entries_hits ws_def [symmetric])
qed

lemma scored_content [simp]:
  "me_content (case scored now ws e of None \<Rightarrow> e | Some e' \<Rightarrow> e') = me_content e"
  by (auto simp: scored_def split: option.splits)

interpretation score_scan: best_scan "\<lambda>e f. me_score e > me_score f"
  by unfold_locales auto

lemma sort_by_relevance_mset: "mset (sort_by_relevance es) = mset es"
  by (simp add: sort_by_relevance_def exchange_sort_mset)

lemma sort_by_relevance_sorted: "sorted_wrt (\<lambda>e f. me_score f \<le> me_score e) (sort_by_relevance es)"
  using score_scan.exchange_sort_sorted [of es] by (simp add: sort_by_relevance_def not_less)

lemma limit_results_prefix: "\<exists>rest. es = limit_results limit es @ rest"
  by (auto simp: limit_results_def intro: exI [where x = "drop (nat limit) es"])

lemma length_limit_results:
  "length (limit_results limit es) = (if limit > 0 then min (nat limit) (length es) else length es)"
  by (auto simp: limit_results_def)

text \<open>
  C23: a search always returns; its answer is the beginning of a ranking, by descending score, of exactly the
  entries that are not expired and contain a word of the query, each with its score, cut to the limit
  when that is positive; an entry that is left out never has a higher score than one that is returned.
\<close>

theorem search_memory_ranked:
  "\<exists>st' found rest. search_memory now query limit st = Some (st', found) \<and>
     mset (found @ rest) = mset (hits now (tokenize (to_lower query)) (st_entries st)) \<and>
     sorted_wrt (\<lambda>e f. me_score f \<le> me_score e) (found @ rest) \<and>
     length found = (if limit > 0 then min (nat limit) (length (found @ rest)) else length (found @ rest))"
proof -
  let ?rank = "sort_by_relevance (hits now (tokenize (to_lower query)) (st_entries st))"
  obtain rest where r: "?rank = limit_results limit ?rank @ rest"
    using limit_results_prefix by blast
  show ?thesis unfolding search_memory_eq
    by (intro exI [where x = rest] exI conjI, rule refl)
      (simp_all add: r [symmetric] sort_by_relevance_mset sort_by_relevance_sorted length_limit_results)
qed

section \<open>The budget in every run\<close>

datatype memory_op =
    OpAdd mem_entry
  | OpDelete string
  | OpClear
  | OpSearch int string int

definition memory_step :: "short_term \<Rightarrow> memory_op \<Rightarrow> short_term" where
  "memory_step st op =
     (case op of
        OpAdd e \<Rightarrow> add_entry e st
      | OpDelete i \<Rightarrow> fst (delete_entry i st)
      | OpClear \<Rightarrow> clear_memory st
      | OpSearch now query limit \<Rightarrow>
          (case search_memory now query limit st of None \<Rightarrow> st | Some (st', _) \<Rightarrow> st'))"

definition memory_ok :: "short_term \<Rightarrow> bool" where
  "memory_ok st \<longleftrightarrow> accounted st \<and> (st_entries st = [] \<or> within_limits st (st_entries st))"

lemma memory_ok_new [inv_intros]: "memory_ok (new_short_term m)"
  by (simp add: memory_ok_def new_short_term_def accounted_def)

lemma add_entry_spec:
  assumes "accounted st"
  shows "accounted (add_entry e st) \<and> st_max_tokens (add_entry e st) = st_max_tokens st \<and>
     st_capacity (add_entry e st) = st_capacity st \<and>
     (\<exists>k \<le> Suc (length (st_entries st)). st_entries (add_entry e st) = drop k (st_entries st @ [e]) \<and>
        (k = Suc (length (st_entries st)) \<or> within_limits st (drop k (st_entries st @ [e]))) \<and>
        (\<forall>j<k. \<not> within_limits st (drop j (st_entries st @ [e]))))"
proof -
  let ?st = "st\<lparr>st_entries := st_entries st @ [e], st_tokens := st_tokens st + estimate_tokens (me_content e)\<rparr>"
  have "accounted ?st" using assms by (simp add: accounted_def)
  from trim_memory_spec [OF this] show ?thesis by (simp add: add_entry_def within_limits_def)
qed

lemma memory_ok_add [inv_intros]: "memory_ok st \<Longrightarrow> memory_ok (add_entry e st)"
  using add_entry_spec [of st e] by (auto simp: memory_ok_def within_limits_def)

lemma memory_ok_delete [inv_intros]:
  assumes "memory_ok st"
  shows "memory_ok (fst (delete_entry i st))"
proof (cases "remove_by_id i (st_entries st)")
  case None
  with assms show ?thesis by (simp add: delete_entry_def)
next
  case (Some p)
  obtain e rest where p: "p = (e, rest)" by (cases p)
  from remove_by_id_Some [of i "st_entries st" e rest] Some p
  obtain us vs where uv: "st_entries st = us @ e # vs" "rest = us @ vs" by blast
  with assms have "st_tokens st = estimate_tokens (me_content e) + tokens_of rest"
    by (simp add: memory_ok_def accounted_def)
  from forget_tokens_accounted [OF this] Some p uv assms show ?thesis
    using estimate_tokens_nonneg [of "me_content e"]
    by (auto simp: delete_entry_def memory_ok_def accounted_def within_limits_def simp del: estimate_tokens_nonneg)
qed

lemma memory_ok_search [inv_intros]:
  assumes "memory_ok st" "search_memory now query limit st = Some (st', found)"
  shows "memory_ok st'"
proof -
  have "tokens_of (map (\<lambda>e. case scored now ws e of None \<Rightarrow> e | Some e' \<Rightarrow> e') es) = tokens_of es" for ws es
    by (simp add: tokens_of_def comp_def)
  with assms show ?thesis
    by (auto simp: search_memory_eq memory_ok_def accounted_def within_limits_def)
qed

interpretation memory_run: guarded_machine memory_step memory_ok
proof
  fix st op
  assume ok: "memory_ok st"
  have "memory_ok (clear_memory st)" by (simp add: memory_ok_def clear_memory_def accounted_def)
  with ok show "memory_ok (memory_step st op)"
    by (cases op) (auto simp: memory_step_def intro: inv_intros split: option.splits)
qed

text \<open>
  C22: after every run of additions, deletions, searches and resets the token count is the sum over the
  entries, and a memory that is not empty is within its token budget and its capacity. The next addition
  drops the fewest of the oldest entries that brings it within both again.
\<close>

theorem short_term_budget:
  fixes max_tokens :: int and ops :: "memory_op list"
  defines "st \<equiv> foldl memory_step (new_short_term max_tokens) ops"
  shows "st_tokens st = tokens_of (st_entries st) \<and> (st_entries st = [] \<or> within_limits st (st_entries st)) \<and>
    (\<exists>k \<le> Suc (length (st_entries st)). st_entries (add_entry e st) = drop k (st_entries st @ [e]) \<and>
       (k = Suc (length (st_entries st)) \<or> within_limits st (drop k (st_entries st @ [e]))) \<and>
       list_all (\<lambda>j. \<not> within_limits st (drop j (st_entries st @ [e]))) [0..<k])"
proof -
  have ok: "memory_ok st" unfolding st_def by (rule memory_run.run_keeps [OF memory_ok_new])
  with add_entry_spec [of st e] show ?thesis
    by (auto simp: memory_ok_def accounted_def list_all_iff)
qed

end
