(* ===== verification/Long_Term_Memory.thy ===== *)
theory Long_Term_Memory
  imports Short_Term_Memory
begin

text \<open>
  The long-term memory (\<open>internal/memory/longterm.go\<close>): the table \<open>memories\<close> and the SQL statements of the Go code
  over it, in the order of insertion. The database engine itself is not part of the repository: whether it is
  reachable is a field of the state, full-text matching (\<open>None\<close> when FTS5 rejects the query) and \<open>LIKE\<close> are
  parameters, and the text form of \<open>created_at\<close> is taken to sort like the time it stands for. The clock is read
  at every use; its \<open>n\<close>-th reading is \<open>lt_clock n\<close>.
\<close>

record long_term =
  lt_rows :: "mem_entry list"
  lt_up :: bool
  lt_clock :: "nat \<Rightarrow> int"
  lt_tick :: nat

record sqlite =
  sq_fts :: "string \<Rightarrow> (string \<Rightarrow> bool) option"
  sq_like :: "string \<Rightarrow> string \<Rightarrow> bool"

definition read_clock :: "long_term \<Rightarrow> int \<times> long_term" where
  "read_clock lt = (lt_clock lt (lt_tick lt), lt\<lparr>lt_tick := lt_tick lt + 1\<rparr>)"

definition memory_id :: "int \<Rightarrow> string" where
  "memory_id t = ''mem_'' @ itoa t"

text \<open>\<open>Store\<close>: the identifier is the primary key, so a repeated one is an error of the statement.\<close>

definition lt_store :: "string \<Rightarrow> memory_type \<Rightarrow> (string \<rightharpoonup> string) \<Rightarrow> long_term \<Rightarrow> long_term \<times> string option" where
  "lt_store content ty metadata lt =
     (let (t_id, lt1) = read_clock lt;
          (t, lt2) = read_clock lt1;
          i = memory_id t_id
      in if \<not> lt_up lt2 \<or> list_ex (\<lambda>r. me_id r = i) (lt_rows lt2) then (lt2, None)
         else (lt2\<lparr>lt_rows := lt_rows lt2 @
                 [\<lparr>me_id = i, me_content = content, me_type = ty, me_metadata = metadata, me_created = t,
                   me_score = 0, me_tags = [], me_ttl = 0\<rparr>]\<rparr>,
               Some i))"

text \<open>\<open>type = ?\<close>, left out for the type 0, which is \<open>MemoryShortTerm\<close>.\<close>

definition type_matches :: "memory_type \<Rightarrow> mem_entry \<Rightarrow> bool" where
  "type_matches ty r \<longleftrightarrow> ty = MemoryShortTerm \<or> me_type r = ty"

definition newest_first :: "int \<Rightarrow> mem_entry list \<Rightarrow> mem_entry list" where
  "newest_first limit rs =
     (let sorted = rev (sort_key me_created rs) in if limit > 0 then take (nat limit) sorted else sorted)"

text \<open>
  \<open>scanEntries\<close>: the text that \<open>Store\<close> writes (\<open>time.Time.String\<close>) has neither of the two layouts tried, so every
  row is given the time of the scan.
\<close>

fun scan_entries :: "mem_entry list \<Rightarrow> long_term \<Rightarrow> long_term \<times> mem_entry list" where
  "scan_entries [] lt = (lt, [])"
| "scan_entries (r # rs) lt =
     (let (t, lt1) = read_clock lt;
          (lt2, es) = scan_entries rs lt1
      in (lt2, r\<lparr>me_created := t\<rparr> # es))"

text \<open>\<open>escapeFTSQuery\<close>: every term in double quotes, unless it begins with one already.\<close>

definition replace_char :: "char \<Rightarrow> string \<Rightarrow> string \<Rightarrow> string" where
  "replace_char c r s = concat (map (\<lambda>d. if d = c then r else [d]) s)"

definition escape_fts_term :: "string \<Rightarrow> string" where
  "escape_fts_term term =
     (if has_prefix term [CHR 0x22] then term
      else [CHR 0x22] @ replace_char (CHR 0x22) [CHR 0x22, CHR 0x22] term @ [CHR 0x22])"

definition escape_fts_query :: "string \<Rightarrow> string" where
  "escape_fts_query query = join '' '' (map escape_fts_term (str_fields query))"

definition escape_like_query :: "string \<Rightarrow> string" where
  "escape_like_query query =
     replace_char (CHR 0x5C) [CHR 0x5C, CHR 0x5C]
       (replace_char (CHR ''_'') [CHR 0x5C, CHR ''_'']
         (replace_char (CHR ''%'') [CHR 0x5C, CHR ''%''] query))"

definition fallback_search ::
  "sqlite \<Rightarrow> string \<Rightarrow> int \<Rightarrow> memory_type \<Rightarrow> long_term \<Rightarrow> long_term \<times> mem_entry list option" where
  "fallback_search sq query limit ty lt =
     (if \<not> lt_up lt then (lt, None)
      else
        let found = newest_first limit
              (filter (\<lambda>r. sq_like sq (''%'' @ escape_like_query query @ ''%'') (me_content r) \<and> type_matches ty r)
                (lt_rows lt));
            (lt1, es) = scan_entries found lt
        in (lt1, Some es))"

definition lt_recall ::
  "sqlite \<Rightarrow> string \<Rightarrow> int \<Rightarrow> memory_type \<Rightarrow> long_term \<Rightarrow> long_term \<times> mem_entry list option" where
  "lt_recall sq query limit ty lt =
     (let q = trim_space query
      in if q = [] then
           (if \<not> lt_up lt then (lt, None)
            else case scan_entries (newest_first limit (filter (type_matches ty) (lt_rows lt))) lt of
              (lt1, es) \<Rightarrow> (lt1, Some es))
         else
           (if \<not> lt_up lt then fallback_search sq q limit ty lt
            else case sq_fts sq (escape_fts_query q) of
              None \<Rightarrow> fallback_search sq q limit ty lt
            | Some matches \<Rightarrow>
                case scan_entries
                       (newest_first limit (filter (\<lambda>r. matches (me_content r) \<and> type_matches ty r) (lt_rows lt))) lt of
                  (lt1, es) \<Rightarrow> (lt1, Some es)))"

definition lt_delete :: "string \<Rightarrow> long_term \<Rightarrow> long_term \<times> bool" where
  "lt_delete i lt =
     (if \<not> lt_up lt then (lt, False)
      else (lt\<lparr>lt_rows := filter (\<lambda>r. me_id r \<noteq> i) (lt_rows lt)\<rparr>, list_ex (\<lambda>r. me_id r = i) (lt_rows lt)))"

text \<open>\<open>Search\<close> hides an error behind an empty result.\<close>

definition lt_search :: "sqlite \<Rightarrow> string \<Rightarrow> int \<Rightarrow> long_term \<Rightarrow> long_term \<times> mem_entry list" where
  "lt_search sq query limit lt =
     (case lt_recall sq query limit MemoryShortTerm lt of
        (lt1, None) \<Rightarrow> (lt1, [])
      | (lt1, Some es) \<Rightarrow> (lt1, es))"

record memory_stats =
  ms_entries :: nat
  ms_short :: nat
  ms_long :: nat
  ms_skill :: nat
  ms_tokens :: int

definition lt_stats :: "long_term \<Rightarrow> memory_stats" where
  "lt_stats lt =
     (if \<not> lt_up lt then \<lparr>ms_entries = 0, ms_short = 0, ms_long = 0, ms_skill = 0, ms_tokens = 0\<rparr>
      else
        let number = (\<lambda>ty. length (filter (\<lambda>r. me_type r = ty) (lt_rows lt)))
        in \<lparr>ms_entries = length (lt_rows lt), ms_short = number MemoryShortTerm, ms_long = number MemoryLongTerm,
            ms_skill = number MemorySkill, ms_tokens = tokens_of (lt_rows lt)\<rparr>)"

section \<open>Lemmas\<close>

lemma read_clock_simps [simp]:
  "lt_rows (snd (read_clock lt)) = lt_rows lt" "lt_up (snd (read_clock lt)) = lt_up lt"
  "lt_clock (snd (read_clock lt)) = lt_clock lt" "lt_tick (snd (read_clock lt)) = lt_tick lt + 1"
  by (simp_all add: read_clock_def)

lemma scan_entries_spec:
  "scan_entries rs lt =
     (lt\<lparr>lt_tick := lt_tick lt + length rs\<rparr>,
      map (\<lambda>(i, r). r\<lparr>me_created := lt_clock lt (lt_tick lt + i)\<rparr>) (zip [0..<length rs] rs))"
proof (induction rs arbitrary: lt)
  case (Cons r rs)
  have "zip [0..<length (r # rs)] (r # rs) = (0, r) # map (\<lambda>(i, r). (Suc i, r)) (zip [0..<length rs] rs)"
    by (simp add: upt_conv_Cons map_Suc_upt [symmetric] zip_map1 del: upt_Suc)
  with Cons [of "lt\<lparr>lt_tick := lt_tick lt + 1\<rparr>"] show ?case
    by (simp add: read_clock_def comp_def case_prod_beta)
qed simp

text \<open>What a scan keeps of its rows.\<close>

lemma scan_entries_contents:
  "map me_content (snd (scan_entries rs lt)) = map me_content rs \<and>
   map me_metadata (snd (scan_entries rs lt)) = map me_metadata rs \<and>
   map me_id (snd (scan_entries rs lt)) = map me_id rs"
  by (induction rs arbitrary: lt) (auto simp: case_prod_beta Let_def)

lemma newest_first_sorted:
  "sorted (map me_created rs) \<Longrightarrow>
     newest_first limit rs = (if limit > 0 then take (nat limit) (rev rs) else rev rs)"
  by (simp add: newest_first_def sort_key_id_if_sorted)

text \<open>
  The order of the three replacements: the backslash that is put before a wildcard is itself doubled, so a wildcard
  of the query is still one, behind an escaped backslash.
\<close>

lemma escape_like_query_chars:
  "escape_like_query s =
     concat (map (\<lambda>c. if c = CHR ''%'' \<or> c = CHR ''_'' then [CHR 0x5C, CHR 0x5C, c]
                      else if c = CHR 0x5C then [CHR 0x5C, CHR 0x5C] else [c]) s)"
  by (induction s) (auto simp: escape_like_query_def replace_char_def)

lemma escape_fts_quoted: "escape_fts_term (CHR 0x22 # w) = CHR 0x22 # w"
  by (simp add: escape_fts_term_def)

end
