(* ===== verification/Memory_Store.thy ===== *)
theory Memory_Store
  imports Long_Term_Memory
begin

text \<open>
  The memory manager (\<open>internal/memory/store.go\<close>) and its compactor (\<open>internal/memory/compactor.go\<close>), over the two
  memories. The summarizer is an argument that may call a model: it maps the entries to a summary, the empty text
  (nothing worth remembering) or \<open>None\<close> for an error. The order in which Go walks the set of tags is an argument
  too.
\<close>

record compactor =
  cp_threshold :: rat
  cp_summarizer :: "(mem_entry list \<Rightarrow> string option) option"
  cp_tag_walk :: "string list \<Rightarrow> string list"

definition new_compactor :: "(string list \<Rightarrow> string list) \<Rightarrow> compactor" where
  "new_compactor walk = \<lparr>cp_threshold = 3 / 4, cp_summarizer = None, cp_tag_walk = walk\<rparr>"

definition set_threshold :: "rat \<Rightarrow> compactor \<Rightarrow> compactor" where
  "set_threshold t c = c\<lparr>cp_threshold := (if t < 0 then 0 else if t > 1 then 1 else t)\<rparr>"

definition set_summarizer :: "(mem_entry list \<Rightarrow> string option) option \<Rightarrow> compactor \<Rightarrow> compactor" where
  "set_summarizer f c = c\<lparr>cp_summarizer := f\<rparr>"

definition should_trigger :: "compactor \<Rightarrow> short_term \<Rightarrow> bool" where
  "should_trigger c st \<longleftrightarrow>
     st_max_tokens st \<noteq> 0 \<and> rat_of_int (st_tokens st) > cp_threshold c * rat_of_int (st_max_tokens st)"

definition truncate_string :: "string \<Rightarrow> nat \<Rightarrow> string" where
  "truncate_string s n = (if length s \<le> n then s else take n s @ ''...'')"

definition newline :: string where
  "newline = [CHR 0x0A]"

definition collect_tags :: "mem_entry list \<Rightarrow> string list" where
  "collect_tags es = remdups (concat (map me_tags es))"

text \<open>The summary without a summarizer: at most five entries, cut to 200 characters.\<close>

fun summary_lines :: "nat \<Rightarrow> nat \<Rightarrow> mem_entry list \<Rightarrow> string" where
  "summary_lines n i [] = []"
| "summary_lines n i (e # es) =
     (if i \<ge> 5 then ''... and '' @ itoa (int n - 5) @ '' more messages'' @ newline
      else ''['' @ itoa (int i + 1) @ ''] '' @ truncate_string (me_content e) 200 @ newline @ summary_lines n (i + 1) es)"

definition generate_summary :: "compactor \<Rightarrow> mem_entry list \<Rightarrow> string option" where
  "generate_summary c es =
     (if es = [] then Some []
      else case cp_summarizer c of
        Some f \<Rightarrow> f es
      | None \<Rightarrow>
          Some (''Summary of '' @ itoa (int (length es)) @ '' compacted messages:'' @ newline @
                summary_lines (length es) 0 es @ newline @ ''Metadata:'' @
                (if collect_tags es \<noteq> [] then '' Tags: '' @ join '', '' (cp_tag_walk c (collect_tags es)) else [])))"

record compactor_stats =
  cs_entries :: nat
  cs_tokens :: int

definition no_stats :: compactor_stats where
  "no_stats = \<lparr>cs_entries = 0, cs_tokens = 0\<rparr>"

text \<open>The fallback when the summary fails: every entry is stored by itself.\<close>

fun store_each :: "mem_entry list \<Rightarrow> long_term \<Rightarrow> compactor_stats \<Rightarrow> long_term \<times> compactor_stats" where
  "store_each [] lt s = (lt, s)"
| "store_each (e # es) lt s =
     (case lt_store (me_content e) MemoryLongTerm (me_metadata e) lt of
        (lt1, None) \<Rightarrow> store_each es lt1 s
      | (lt1, Some _) \<Rightarrow>
          store_each es lt1 (s\<lparr>cs_entries := cs_entries s + 1,
                               cs_tokens := cs_tokens s + estimate_tokens (me_content e)\<rparr>))"

text \<open>Go's division by 2 rounds towards zero.\<close>

definition half :: "int \<Rightarrow> int" where
  "half n = (if n < 0 then - ((- n) div 2) else n div 2)"

text \<open>The entries that leave: those whose identifier none of the last \<open>maxTokens / 2\<close> entries has.\<close>

definition entries_to_compact :: "int \<Rightarrow> short_term \<Rightarrow> mem_entry list" where
  "entries_to_compact max_tokens st =
     (let keep = map me_id (get_recent (half max_tokens) st)
      in filter (\<lambda>e. me_id e \<notin> set keep) (st_entries st))"

definition store_compacted ::
  "compactor \<Rightarrow> mem_entry list \<Rightarrow> long_term \<Rightarrow> long_term \<times> compactor_stats" where
  "store_compacted c es lt =
     (case generate_summary c es of
        None \<Rightarrow> store_each es lt no_stats
      | Some [] \<Rightarrow> (lt, no_stats)
      | Some summary \<Rightarrow>
          (case lt_store summary MemoryLongTerm
                  [''compacted'' \<mapsto> ''true'', ''entry_count'' \<mapsto> itoa (int (length es))] lt of
             (lt1, None) \<Rightarrow> (lt1, no_stats)
           | (lt1, Some _) \<Rightarrow> (lt1, \<lparr>cs_entries = length es, cs_tokens = tokens_of es\<rparr>)))"

definition compact_memory ::
  "compactor \<Rightarrow> int \<Rightarrow> short_term \<Rightarrow> long_term \<Rightarrow> (short_term \<times> long_term) \<times> compactor_stats" where
  "compact_memory c max_tokens st lt =
     (if st_tokens st \<le> max_tokens then ((st, lt), no_stats)
      else
        let es = entries_to_compact max_tokens st
        in if es = [] then ((st, lt), no_stats)
           else case store_compacted c es lt of
             (lt1, stats) \<Rightarrow> ((foldl (\<lambda>st e. fst (delete_entry (me_id e) st)) st es, lt1), stats))"

section \<open>The manager\<close>

record manager =
  mg_short :: short_term
  mg_long :: long_term
  mg_compactor :: compactor
  mg_max_tokens :: int
  mg_closed :: bool

datatype memory_error = ErrMemoryStorage | ErrMemoryRecall | ErrMemoryDelete | ErrMemoryNotFound

definition new_manager :: "int \<Rightarrow> compactor \<Rightarrow> long_term \<Rightarrow> manager" where
  "new_manager max_tokens c lt =
     \<lparr>mg_short = new_short_term max_tokens, mg_long = lt, mg_compactor = c, mg_max_tokens = max_tokens,
      mg_closed = False\<rparr>"

definition run_compaction :: "int \<Rightarrow> manager \<Rightarrow> manager" where
  "run_compaction target mg =
     (case compact_memory (mg_compactor mg) target (mg_short mg) (mg_long mg) of
        ((st, lt), _) \<Rightarrow> mg\<lparr>mg_short := st, mg_long := lt\<rparr>)"

text \<open>\<open>Store\<close>: two readings of the clock, for the identifier and the time of creation.\<close>

definition manager_store ::
  "string \<Rightarrow> memory_type \<Rightarrow> (string \<rightharpoonup> string) \<Rightarrow> manager \<Rightarrow> manager \<times> (memory_error + string)" where
  "manager_store content ty metadata mg =
     (if mg_closed mg then (mg, Inl ErrMemoryStorage)
      else
        let (t_id, lt1) = read_clock (mg_long mg);
            (t, lt2) = read_clock lt1;
            mg2 = mg\<lparr>mg_long := lt2\<rparr>;
            e = \<lparr>me_id = memory_id t_id, me_content = content, me_type = ty, me_metadata = metadata,
                 me_created = t, me_score = 0, me_tags = [], me_ttl = 0\<rparr>
        in case ty of
          MemoryShortTerm \<Rightarrow>
            let mg3 = mg2\<lparr>mg_short := add_entry e (mg_short mg2)\<rparr>
            in (if should_trigger (mg_compactor mg3) (mg_short mg3)
                then run_compaction (mg_max_tokens mg3) mg3 else mg3, Inr (me_id e))
        | _ \<Rightarrow>
            (case lt_store content ty metadata lt2 of
               (lt3, None) \<Rightarrow> (mg2\<lparr>mg_long := lt3\<rparr>, Inl ErrMemoryStorage)
             | (lt3, Some i) \<Rightarrow> (mg2\<lparr>mg_long := lt3\<rparr>, Inr i)))"

definition manager_recall ::
  "sqlite \<Rightarrow> int \<Rightarrow> string \<Rightarrow> int \<Rightarrow> memory_type \<Rightarrow> manager \<Rightarrow> (manager \<times> (memory_error + mem_entry list)) option" where
  "manager_recall sq now query limit ty mg =
     (if mg_closed mg then Some (mg, Inl ErrMemoryRecall)
      else
        case (if ty = MemoryShortTerm then search_memory now query limit (mg_short mg) else Some (mg_short mg, [])) of
          None \<Rightarrow> None
        | Some (st, found) \<Rightarrow>
            case lt_recall sq query limit ty (mg_long mg) of
              (lt, more_found) \<Rightarrow>
                Some (mg\<lparr>mg_short := st, mg_long := lt\<rparr>,
                      Inr (limit_results limit
                             (sort_by_relevance (found @ (case more_found of None \<Rightarrow> [] | Some es \<Rightarrow> es))))))"

definition manager_delete :: "string \<Rightarrow> manager \<Rightarrow> manager \<times> memory_error option" where
  "manager_delete i mg =
     (if mg_closed mg then (mg, Some ErrMemoryDelete)
      else case delete_entry i (mg_short mg) of
        (st, True) \<Rightarrow> (mg\<lparr>mg_short := st\<rparr>, None)
      | (st, False) \<Rightarrow>
          (case lt_delete i (mg_long mg) of
             (lt, True) \<Rightarrow> (mg\<lparr>mg_long := lt\<rparr>, None)
           | (lt, False) \<Rightarrow> (mg\<lparr>mg_long := lt\<rparr>, Some ErrMemoryNotFound)))"

definition manager_compact :: "int \<Rightarrow> manager \<Rightarrow> manager \<times> memory_error option" where
  "manager_compact max_tokens mg =
     (if mg_closed mg then (mg, Some ErrMemoryDelete) else (run_compaction max_tokens mg, None))"

text \<open>After every task: compaction towards half of the budget, when the threshold is passed.\<close>

definition compact_if_needed :: "manager \<Rightarrow> manager" where
  "compact_if_needed mg =
     (if mg_closed mg then mg
      else if \<not> should_trigger (mg_compactor mg) (mg_short mg) then mg
      else run_compaction (half (mg_max_tokens mg)) mg)"

definition close_manager :: "manager \<Rightarrow> manager" where
  "close_manager mg = (if mg_closed mg then mg else mg\<lparr>mg_closed := True, mg_long := (mg_long mg)\<lparr>lt_up := False\<rparr>\<rparr>)"

definition manager_stats :: "manager \<Rightarrow> memory_stats" where
  "manager_stats mg =
     (let n = length (st_entries (mg_short mg)); l = lt_stats (mg_long mg)
      in \<lparr>ms_entries = n + ms_entries l, ms_short = n, ms_long = ms_entries l, ms_skill = ms_skill l,
          ms_tokens = st_tokens (mg_short mg) + ms_tokens l\<rparr>)"

section \<open>When compaction does nothing\<close>

lemma entries_to_compact_none:
  "int (length (st_entries st)) \<le> half max_tokens \<Longrightarrow> entries_to_compact max_tokens st = []"
  by (cases "st_entries st") (auto simp: entries_to_compact_def get_recent_def Let_def filter_empty_conv)

lemma compact_memory_idle:
  assumes "memory_ok st" "st_max_tokens st \<le> max_tokens \<or> int (length (st_entries st)) \<le> half max_tokens"
  shows "compact_memory c max_tokens st lt = ((st, lt), no_stats)"
proof (cases "st_tokens st \<le> max_tokens")
  case False
  have "entries_to_compact max_tokens st = []"
  proof (cases "int (length (st_entries st)) \<le> half max_tokens")
    case True
    then show ?thesis by (rule entries_to_compact_none)
  next
    case big: False
    with assms False have "st_entries st = []"
      by (auto simp: memory_ok_def within_limits_def accounted_def)
    then show ?thesis by (simp add: entries_to_compact_def Let_def)
  qed
  then show ?thesis by (simp add: compact_memory_def)
qed (simp add: compact_memory_def)

lemma run_compaction_idle:
  assumes "memory_ok (mg_short mg)"
    "st_max_tokens (mg_short mg) \<le> target \<or> int (length (st_entries (mg_short mg))) \<le> half target"
  shows "run_compaction target mg = mg"
  using compact_memory_idle [OF assms] by (simp add: run_compaction_def)

text \<open>A manager as it is built: both memories share the budget.\<close>

definition manager_ok :: "manager \<Rightarrow> bool" where
  "manager_ok mg \<longleftrightarrow> memory_ok (mg_short mg) \<and> st_max_tokens (mg_short mg) = mg_max_tokens mg \<and>
     st_capacity (mg_short mg) = 1000"

lemma manager_ok_new: "manager_ok (new_manager m c lt)"
  by (simp add: manager_ok_def new_manager_def memory_ok_new) (simp add: new_short_term_def)

lemma manager_ok_add:
  assumes "manager_ok mg"
  shows "manager_ok (mg\<lparr>mg_long := lt, mg_short := add_entry e (mg_short mg)\<rparr>)"
  using assms memory_ok_add [of "mg_short mg" e] add_entry_spec [of "mg_short mg" e]
  by (simp add: manager_ok_def memory_ok_def)

text \<open>The compaction inside \<open>Store\<close> has the whole budget as its target and never has anything to do.\<close>

lemma manager_store_short:
  assumes "manager_ok mg" "\<not> mg_closed mg"
  shows "manager_store content MemoryShortTerm metadata mg =
    (let (t_id, lt1) = read_clock (mg_long mg);
         (t, lt2) = read_clock lt1;
         e = \<lparr>me_id = memory_id t_id, me_content = content, me_type = MemoryShortTerm, me_metadata = metadata,
              me_created = t, me_score = 0, me_tags = [], me_ttl = 0\<rparr>
     in (mg\<lparr>mg_long := lt2, mg_short := add_entry e (mg_short mg)\<rparr>, Inr (me_id e)))"
proof -
  have idle: "run_compaction (mg_max_tokens mg) (mg\<lparr>mg_long := lt, mg_short := add_entry e (mg_short mg)\<rparr>) =
      mg\<lparr>mg_long := lt, mg_short := add_entry e (mg_short mg)\<rparr>" for lt e
    using manager_ok_add [OF assms(1), where lt = lt and e = e] by (intro run_compaction_idle) (simp_all add: manager_ok_def)
  show ?thesis
    using assms(2) by (auto simp: manager_store_def Let_def case_prod_beta idle)
qed

datatype task_event = StoreTurn string "string \<rightharpoonup> string" | TaskDone

definition task_step :: "manager \<Rightarrow> task_event \<Rightarrow> manager" where
  "task_step mg ev =
     (case ev of
        StoreTurn content metadata \<Rightarrow> fst (manager_store content MemoryShortTerm metadata mg)
      | TaskDone \<Rightarrow> compact_if_needed mg)"

lemma task_step_keeps:
  assumes "manager_ok mg" "mg_max_tokens mg \<ge> 4000"
  shows "manager_ok (task_step mg ev) \<and> mg_max_tokens (task_step mg ev) = mg_max_tokens mg \<and>
    lt_rows (mg_long (task_step mg ev)) = lt_rows (mg_long mg)"
proof (cases ev)
  case (StoreTurn content metadata)
  show ?thesis
  proof (cases "mg_closed mg")
    case True
    with StoreTurn assms show ?thesis by (simp add: task_step_def manager_store_def)
  next
    case False
    with StoreTurn assms manager_ok_add [OF assms(1)] show ?thesis
      by (simp add: task_step_def manager_store_short Let_def case_prod_beta)
  qed
next
  case TaskDone
  have "length (st_entries (mg_short mg)) \<le> 1000"
    using assms(1) by (auto simp: manager_ok_def memory_ok_def within_limits_def)
  moreover have "half (half (mg_max_tokens mg)) \<ge> 1000"
    using assms(2) by (simp add: half_def)
  ultimately have "run_compaction (half (mg_max_tokens mg)) mg = mg"
    using assms(1) by (intro run_compaction_idle) (auto simp: manager_ok_def)
  with TaskDone assms show ?thesis by (simp add: task_step_def compact_if_needed_def)
qed

text \<open>
  With a token budget of 4000 (the default) or more, no sequence of stored turns and finished tasks ever moves
  anything into the long-term memory: the compaction inside \<open>Store\<close> finds the trimmed memory within its target,
  and the one after a task keeps half of its target as a number of entries, at least the capacity. What the short-term
  memory trims is lost.
\<close>

lemma turns_never_reach_long_term:
  assumes "max_tokens \<ge> 4000"
  shows "lt_rows (mg_long (foldl task_step (new_manager max_tokens c lt) evs)) = lt_rows lt"
proof -
  have "manager_ok (foldl task_step mg evs) \<and> mg_max_tokens (foldl task_step mg evs) = mg_max_tokens mg \<and>
      lt_rows (mg_long (foldl task_step mg evs)) = lt_rows (mg_long mg)"
    if "manager_ok mg" "mg_max_tokens mg \<ge> 4000" for mg
    using that
  proof (induction evs arbitrary: mg)
    case (Cons ev evs)
    from task_step_keeps [OF Cons.prems, of ev] Cons.IH [of "task_step mg ev"] Cons.prems show ?case by simp
  qed simp
  from this [OF manager_ok_new, of max_tokens c lt] assms show ?thesis by (simp add: new_manager_def)
qed

definition empty_long_term :: long_term where
  "empty_long_term = \<lparr>lt_rows = [], lt_up = True, lt_clock = int, lt_tick = 0\<rparr>"

lemma turns_never_reach_long_term_witness:
  "lt_rows (mg_long (foldl task_step (new_manager 4000 (new_compactor (\<lambda>ts. ts)) empty_long_term)
     (replicate 1500 (StoreTurn ''a turn of the conversation'' Map.empty) @ [TaskDone]))) = []"
  using turns_never_reach_long_term [of 4000 "new_compactor (\<lambda>ts. ts)" empty_long_term]
  by (simp only: order_refl) (simp add: empty_long_term_def)

section \<open>What compaction keeps\<close>

lemma delete_entry_ids:
  "me_id e = i \<Longrightarrow> i \<notin> me_id ` set us \<Longrightarrow>
     st_entries (fst (delete_entry i (st\<lparr>st_entries := us @ e # vs\<rparr>))) = us @ vs"
proof (induction us)
  case (Cons u us)
  then show ?case by (auto simp: delete_entry_def split: option.splits)
qed (simp add: delete_entry_def)

lemma delete_entry_frame:
  "st_max_tokens (fst (delete_entry i st)) = st_max_tokens st"
  "st_capacity (fst (delete_entry i st)) = st_capacity st"
  by (auto simp: delete_entry_def split: option.splits)

lemma delete_leading:
  "distinct (map me_id (st_entries st)) \<Longrightarrow> st_entries st = es @ fs \<Longrightarrow>
     st_entries (foldl (\<lambda>st e. fst (delete_entry (me_id e) st)) st es) = fs"
proof (induction es arbitrary: st)
  case (Cons e es)
  have "st = st\<lparr>st_entries := [] @ e # (es @ fs)\<rparr>" using Cons.prems(2) by simp
  with delete_entry_ids [where e = e and i = "me_id e" and us = "[]" and st = st and vs = "es @ fs"]
  have "st_entries (fst (delete_entry (me_id e) st)) = es @ fs" by simp
  with Cons.IH [of "fst (delete_entry (me_id e) st)"] Cons.prems show ?case by simp
qed simp

lemma entries_to_compact_split:
  assumes "distinct (map me_id (st_entries st))" "0 \<le> max_tokens"
  shows "entries_to_compact max_tokens st =
    take (length (st_entries st) - nat (max_tokens div 2)) (st_entries st)"
proof -
  let ?es = "st_entries st" and ?k = "length (st_entries st) - nat (max_tokens div 2)"
  have recent: "get_recent (half max_tokens) st = drop ?k ?es"
    using assms(2) by (auto simp: get_recent_def half_def last_n_def)
  have split: "?es = take ?k ?es @ drop ?k ?es" by simp
  have "set (map me_id (take ?k ?es)) \<inter> set (map me_id (drop ?k ?es)) = {}"
    using assms(1) by (metis append_take_drop_id distinct_append map_append)
  then have "filter (\<lambda>e. me_id e \<notin> set (map me_id (drop ?k ?es))) (take ?k ?es) = take ?k ?es"
    "filter (\<lambda>e. me_id e \<notin> set (map me_id (drop ?k ?es))) (drop ?k ?es) = []"
    by (auto simp: filter_id_conv filter_empty_conv)
  then have "filter (\<lambda>e. me_id e \<notin> set (map me_id (drop ?k ?es))) (take ?k ?es @ drop ?k ?es) = take ?k ?es"
    by (simp only: filter_append append_Nil2)
  then show ?thesis by (simp only: entries_to_compact_def Let_def recent append_take_drop_id)
qed

lemma lt_store_down: "\<not> lt_up lt \<Longrightarrow> lt_store content ty md lt = (lt\<lparr>lt_tick := lt_tick lt + 2\<rparr>, None)"
  by (simp add: lt_store_def Let_def read_clock_def)

lemma store_each_down: "\<not> lt_up lt \<Longrightarrow> lt_rows (fst (store_each es lt s)) = lt_rows lt"
  by (induction es arbitrary: lt) (simp_all add: lt_store_down)

text \<open>
  Compaction cuts a memory over its target to a number of entries: the newest \<open>maxTokens / 2\<close> of them stay, for
  whatever number of tokens, and the older ones are gone, also when no summary and no entry could be stored.
\<close>

lemma compaction_keeps_newest_entries:
  assumes "distinct (map me_id (st_entries st))" "0 \<le> max_tokens" "st_tokens st > max_tokens"
  shows "st_entries (fst (fst (compact_memory c max_tokens st lt))) = last_n (nat (max_tokens div 2)) (st_entries st) \<and>
    lt_rows (snd (fst (compact_memory c max_tokens st (lt\<lparr>lt_up := False\<rparr>)))) = lt_rows lt"
proof -
  let ?k = "length (st_entries st) - nat (max_tokens div 2)"
  note es = entries_to_compact_split [OF assms(1,2)]
  have lost: "lt_rows (fst (store_compacted c es (lt\<lparr>lt_up := False\<rparr>))) = lt_rows lt" for es
    by (auto simp: store_compacted_def store_each_down lt_store_down split: option.splits list.splits)
  have st: "st_entries (foldl (\<lambda>st e. fst (delete_entry (me_id e) st)) st (take ?k (st_entries st))) =
      drop ?k (st_entries st)"
    by (rule delete_leading [OF assms(1)]) simp
  show ?thesis
    using assms(3) es st lost
    by (auto simp: compact_memory_def Let_def last_n_def case_prod_beta)
qed

definition demo_entry :: "string \<Rightarrow> mem_entry" where
  "demo_entry i = \<lparr>me_id = i, me_content = ''12345678'', me_type = MemoryShortTerm, me_metadata = Map.empty,
     me_created = 0, me_score = 0, me_tags = [], me_ttl = 0\<rparr>"

definition demo_memory :: short_term where
  "demo_memory = \<lparr>st_entries = map demo_entry [''a'', ''b'', ''c'', ''d''], st_max_tokens = 100, st_tokens = 8,
     st_capacity = 1000\<rparr>"

lemma compaction_keeps_newest_entries_witness:
  "map me_id (st_entries (fst (fst (compact_memory (new_compactor (\<lambda>ts. ts)) 5 demo_memory empty_long_term)))) =
     [''c'', ''d''] \<and> tokens_of (last_n 2 (st_entries demo_memory)) = 4"
  using compaction_keeps_newest_entries [of demo_memory 5 "new_compactor (\<lambda>ts. ts)" empty_long_term]
  by (simp add: demo_memory_def demo_entry_def last_n_def estimate_tokens_def)

end
