(* ===== verification/Memory_Intelligence.thy ===== *)
theory Memory_Intelligence
  imports Memory_Store
begin

text \<open>
  The intelligence layer over the long-term memory: experiences, user profile, reflection and context injection
  (\<open>internal/memory/intelligence.go\<close>), lessons after operator help (\<open>lesson.go\<close>), detected patterns that become skill
  files (\<open>patterns.go\<close>) and the summarizer that asks a model (\<open>llm_summarizer.go\<close>). The JSON form of records is an
  argument, as are the orders in which Go walks its maps. Texts are bytes; the few runes that are not ASCII are
  written out.
\<close>

definition truncate_for_log :: "string \<Rightarrow> nat \<Rightarrow> string" where
  "truncate_for_log s n =
     (let t = trim_space s in if length t \<le> n then t else take n t @ ''...'')"

text \<open>\<open>hashTask\<close>: the first three words and the length of the task.\<close>

definition hash_words :: "string \<Rightarrow> string" where
  "hash_words task =
     concat (map (\<lambda>w. w @ ''_'') (take 3 (str_fields (to_lower task)))) @ itoa (int (length task))"

section \<open>Experience\<close>

record experience =
  ex_id :: string
  ex_task :: string
  ex_role :: string
  ex_tools :: "string list"
  ex_iterations :: int
  ex_tool_calls :: int
  ex_success :: bool
  ex_duration :: int
  ex_error :: string
  ex_hash :: string
  ex_created :: int

record profile_entry =
  pe_key :: string
  pe_value :: string
  pe_category :: string
  pe_source :: string
  pe_created :: int
  pe_updated :: int

text \<open>\<open>json.Marshal\<close> and \<open>json.Unmarshal\<close> for the two records.\<close>

record codec =
  enc_experience :: "experience \<Rightarrow> string"
  dec_experience :: "string \<Rightarrow> experience option"
  enc_profile :: "profile_entry \<Rightarrow> string"
  dec_profile :: "string \<Rightarrow> profile_entry option"

definition bool_text :: "bool \<Rightarrow> string" where
  "bool_text b = (if b then ''true'' else ''false'')"

text \<open>\<open>Record\<close>: an identifier is only made up when there is none.\<close>

definition record_experience :: "codec \<Rightarrow> experience \<Rightarrow> long_term \<Rightarrow> long_term \<times> bool" where
  "record_experience js rec lt =
     (let (rec1, lt1) = (if ex_id rec = []
                         then (case read_clock lt of (t, lt') \<Rightarrow> (rec\<lparr>ex_id := ''exp_'' @ itoa t\<rparr>, lt'))
                         else (rec, lt));
          (now, lt2) = read_clock lt1;
          rec2 = rec1\<lparr>ex_created := now, ex_hash := hash_words (ex_task rec1)\<rparr>
      in case lt_store (enc_experience js rec2) MemoryLongTerm
                [''category'' \<mapsto> ''experience'', ''task_hash'' \<mapsto> ex_hash rec2,
                 ''success'' \<mapsto> bool_text (ex_success rec2), ''role'' \<mapsto> ex_role rec2] lt2 of
           (lt3, r) \<Rightarrow> (lt3, r \<noteq> None))"

definition experience_rows :: "codec \<Rightarrow> mem_entry list \<Rightarrow> experience list" where
  "experience_rows js es =
     List.map_filter (\<lambda>e. if me_metadata e ''category'' = Some ''experience'' then dec_experience js (me_content e) else None) es"

definition find_similar ::
  "codec \<Rightarrow> sqlite \<Rightarrow> string \<Rightarrow> int \<Rightarrow> long_term \<Rightarrow> long_term \<times> experience list option" where
  "find_similar js sq task limit lt =
     (case lt_recall sq task (if limit \<le> 0 then 5 else limit) MemoryLongTerm lt of
        (lt1, None) \<Rightarrow> (lt1, None)
      | (lt1, Some es) \<Rightarrow> (lt1, Some (experience_rows js es)))"

record experience_stats =
  xs_count :: nat
  xs_successful :: nat
  xs_failed :: nat
  xs_success_rate :: rat
  xs_avg_iterations :: rat
  xs_avg_duration :: int
  xs_by_tool :: "string \<Rightarrow> nat"

definition quotient :: "int \<Rightarrow> int \<Rightarrow> int" where
  "quotient a b = (if a < 0 then - ((- a) div b) else a div b)"

definition experience_statistics :: "codec \<Rightarrow> sqlite \<Rightarrow> long_term \<Rightarrow> long_term \<times> experience_stats" where
  "experience_statistics js sq lt =
     (case lt_recall sq [] 500 MemoryLongTerm lt of
        (lt1, None) \<Rightarrow>
          (lt1, \<lparr>xs_count = 0, xs_successful = 0, xs_failed = 0, xs_success_rate = 0, xs_avg_iterations = 0,
                 xs_avg_duration = 0, xs_by_tool = (\<lambda>_. 0)\<rparr>)
      | (lt1, Some es) \<Rightarrow>
          let recs = experience_rows js es;
              n = length recs;
              good = length (filter ex_success recs)
          in (lt1, \<lparr>xs_count = n, xs_successful = good, xs_failed = n - good,
                    xs_success_rate = (if n > 0 then rat_of_nat good / rat_of_nat n else 0),
                    xs_avg_iterations = (if n > 0 then rat_of_int (sum_list (map ex_iterations recs)) / rat_of_nat n else 0),
                    xs_avg_duration = (if n > 0 then quotient (sum_list (map ex_duration recs)) (int n) else 0),
                    xs_by_tool = (\<lambda>t. count_list (concat (map ex_tools recs)) t)\<rparr>))"

definition approach_line :: "experience \<Rightarrow> string" where
  "approach_line rec =
     ''- Task: '' @ truncate_for_log (ex_task rec) 50 @ [CHR 0x20] @ [CHR 0xE2, CHR 0x86, CHR 0x92] @ '' Used: '' @
     join '', '' (ex_tools rec) @ '' (iterations: '' @ itoa (ex_iterations rec) @ '')'' @ newline"

definition suggest_approach :: "codec \<Rightarrow> sqlite \<Rightarrow> string \<Rightarrow> long_term \<Rightarrow> long_term \<times> string" where
  "suggest_approach js sq task lt =
     (case find_similar js sq task 3 lt of
        (lt1, None) \<Rightarrow> (lt1, [])
      | (lt1, Some recs) \<Rightarrow>
          let good = filter ex_success recs
          in (lt1, if good = [] then []
                   else ''Past experience with similar tasks:'' @ newline @ concat (map approach_line (take 2 good))))"

section \<open>Profile\<close>

type_synonym profile_cache = "string \<rightharpoonup> profile_entry"

definition profile_row :: "codec \<Rightarrow> mem_entry \<Rightarrow> profile_entry option" where
  "profile_row js e =
     (if me_metadata e ''category'' = Some ''fact'' \<or> me_metadata e ''category'' = Some ''preference''
      then dec_profile js (me_content e) else None)"

text \<open>\<open>loadCacheLocked\<close>: the rows come newest first, and every row overwrites the key in the new cache.\<close>

definition load_cache :: "codec \<Rightarrow> sqlite \<Rightarrow> profile_cache \<Rightarrow> long_term \<Rightarrow> long_term \<times> profile_cache" where
  "load_cache js sq cache lt =
     (case lt_recall sq [] 200 MemoryLongTerm lt of
        (lt1, None) \<Rightarrow> (lt1, cache)
      | (lt1, Some es) \<Rightarrow>
          (lt1, foldl (\<lambda>c pe. c(pe_key pe \<mapsto> pe)) Map.empty (List.map_filter (profile_row js) es)))"

definition profile_set ::
  "codec \<Rightarrow> string \<Rightarrow> string \<Rightarrow> string \<Rightarrow> string \<Rightarrow> profile_cache \<Rightarrow> long_term \<Rightarrow> (long_term \<times> profile_cache) \<times> bool" where
  "profile_set js key value category source cache lt =
     (let (now, lt1) = read_clock lt;
          pe = \<lparr>pe_key = key, pe_value = value, pe_category = category, pe_source = source,
                pe_created = (case cache key of Some old \<Rightarrow> pe_created old | None \<Rightarrow> now), pe_updated = now\<rparr>
      in case lt_store (enc_profile js pe) MemoryLongTerm [''category'' \<mapsto> category, ''key'' \<mapsto> key] lt1 of
           (lt2, None) \<Rightarrow> ((lt2, cache), False)
         | (lt2, Some _) \<Rightarrow> ((lt2, cache(key \<mapsto> pe)), True))"

text \<open>\<open>FormatForPrompt\<close>: \<open>keys\<close> lists the keys of the cache in the order of this walk over the map.\<close>

definition format_profile :: "string list \<Rightarrow> profile_cache \<Rightarrow> string" where
  "format_profile keys cache =
     (if keys = [] then []
      else ''What you know about the user:'' @ newline @
        concat (map (\<lambda>k. case cache k of None \<Rightarrow> []
                         | Some pe \<Rightarrow> ''- '' @ pe_key pe @ '': '' @ pe_value pe @ newline) keys))"

section \<open>Reflection and lessons\<close>

definition lesson_metadata :: "string \<Rightarrow> string \<rightharpoonup> string" where
  "lesson_metadata task = [''category'' \<mapsto> ''lesson'', ''task'' \<mapsto> task]"

definition reflection_insights :: "experience \<Rightarrow> string list" where
  "reflection_insights rec =
     (let task = ''Task '' @ [CHR 0x27] @ truncate_for_log (ex_task rec) 80 @ [CHR 0x27]
      in (if \<not> ex_success rec \<and> ex_iterations rec \<ge> 5
          then [task @ '' failed after '' @ itoa (ex_iterations rec) @ '' iterations. Error: '' @ ex_error rec] else []) @
         (if ex_success rec \<and> ex_iterations rec \<ge> 4
          then [task @ '' required '' @ itoa (ex_iterations rec) @ '' iterations. Tools: '' @
                join '', '' (ex_tools rec) @ ''. Consider optimizing approach.''] else []) @
         (if ex_duration rec > 60000
          then [task @ '' took '' @ itoa (ex_duration rec) @ ''ms. Long-running task pattern detected.''] else []))"

definition reflect :: "experience \<Rightarrow> long_term \<Rightarrow> long_term \<times> string list" where
  "reflect rec lt =
     (foldl (\<lambda>lt insight. fst (lt_store insight MemoryLongTerm (lesson_metadata (ex_task rec)) lt)) lt
        (reflection_insights rec),
      reflection_insights rec)"

definition relevant_lessons :: "sqlite \<Rightarrow> string \<Rightarrow> int \<Rightarrow> long_term \<Rightarrow> long_term \<times> string" where
  "relevant_lessons sq task limit lt =
     (case lt_recall sq task (if limit \<le> 0 then 3 else limit) MemoryLongTerm lt of
        (lt1, None) \<Rightarrow> (lt1, [])
      | (lt1, Some es) \<Rightarrow>
          let lessons = map me_content (filter (\<lambda>e. me_metadata e ''category'' = Some ''lesson'') es)
          in (lt1, if lessons = [] then []
                   else ''Relevant lessons from past tasks:'' @ newline @
                        concat (map (\<lambda>l. ''- '' @ l @ newline) lessons)))"

text \<open>\<open>Inject\<close>: the parts that are not empty, separated by a blank line.\<close>

definition inject_context ::
  "codec \<Rightarrow> sqlite \<Rightarrow> (profile_cache \<Rightarrow> string list) \<Rightarrow> bool \<Rightarrow> bool \<Rightarrow> bool \<Rightarrow> string \<Rightarrow> profile_cache \<Rightarrow> long_term
     \<Rightarrow> (long_term \<times> profile_cache) \<times> string" where
  "inject_context js sq walk has_profile has_experience has_reflection task cache lt =
     (let (lt1, cache1) = (if has_profile then load_cache js sq cache lt else (lt, cache));
          prof = (if has_profile then format_profile (walk cache1) cache1 else []);
          (lt2, expe) = (if has_experience then suggest_approach js sq task lt1 else (lt1, []));
          (lt3, less) = (if has_reflection then relevant_lessons sq task 3 lt2 else (lt2, []))
      in ((lt3, cache1), join newline (filter (\<lambda>s. s \<noteq> []) [prof, expe, less])))"

record lesson_input =
  li_task_id :: string
  li_task :: string
  li_failure :: string
  li_hint :: string
  li_fix :: string
  li_verify :: string

definition first_failure_line :: "string \<Rightarrow> string" where
  "first_failure_line failure =
     (let line = (case str_index failure newline of
                    Some i \<Rightarrow> if i > 0 then trim_space (take i failure) else failure
                  | None \<Rightarrow> failure)
      in if line = [] then ''(no failure output)'' else line)"

definition synthesize_lesson_rule :: "lesson_input \<Rightarrow> string" where
  "synthesize_lesson_rule li =
     (let hint = trim_space (li_hint li);
          task = trim_space (li_task li);
          line = first_failure_line (trim_space (li_failure li));
          q = [CHR 0x27]
      in if hint \<noteq> [] then
           ''Rule: For tasks like '' @ q @ truncate_for_log task 80 @ q @ '', when verification fails with '' @ q @
           truncate_for_log line 80 @ q @ '', apply: '' @ truncate_for_log hint 120
         else
           ''Rule: Avoid the failure pattern '' @ q @ truncate_for_log line 100 @ q @ '' for tasks like '' @ q @
           truncate_for_log task 80 @ q)"

definition build_lesson_content :: "lesson_input \<Rightarrow> string \<Rightarrow> string" where
  "build_lesson_content li rule =
     rule @ newline @ newline @ ''--- Lesson Details ---'' @ newline @
     ''Task: '' @ truncate_for_log (li_task li) 300 @ newline @
     ''Failure: '' @ truncate_for_log (li_failure li) 600 @ newline @
     ''Hint received: '' @ truncate_for_log (li_hint li) 300 @ newline @
     ''Fix applied: '' @ truncate_for_log (li_fix li) 400 @ newline @
     (if li_verify li \<noteq> [] then ''Verified by: '' @ truncate_for_log (li_verify li) 120 @ newline else []) @
     (if li_task_id li \<noteq> [] then ''Task ID: '' @ li_task_id li @ newline else [])"

definition record_lesson :: "lesson_input \<Rightarrow> long_term \<Rightarrow> long_term \<times> bool" where
  "record_lesson li lt =
     (case lt_store (build_lesson_content li (synthesize_lesson_rule li)) MemoryLongTerm
             [''category'' \<mapsto> ''lesson'', ''source'' \<mapsto> ''postmortem'', ''task_id'' \<mapsto> li_task_id li,
              ''task'' \<mapsto> truncate_for_log (li_task li) 200] lt of
        (lt1, r) \<Rightarrow> (lt1, r \<noteq> None))"

section \<open>The summarizer that asks a model\<close>

text \<open>The conversation text that is sent; \<open>ask\<close> is the model's answer to it, \<open>None\<close> for an error.\<close>

definition summarizer_prompt :: "mem_entry list \<Rightarrow> string" where
  "summarizer_prompt es =
     ''Conversation messages to summarize:'' @ newline @ newline @
     concat (map (\<lambda>(i, e). ''[msg '' @ itoa (int i + 1) @ ''] '' @ me_content e @ newline) (zip [0..<length es] es))"

definition llm_summarizer :: "int \<Rightarrow> (string \<Rightarrow> string option) \<Rightarrow> mem_entry list \<Rightarrow> string option" where
  "llm_summarizer max_entries ask es =
     (if es = [] then Some []
      else
        let es1 = (if max_entries > 0 \<and> int (length es) > max_entries then take (nat max_entries) es else es)
        in case ask (summarizer_prompt es1) of
             None \<Rightarrow> None
           | Some answer \<Rightarrow>
               let content = trim_space answer
               in if content = [] \<or> content = ''NOTHING_TO_REMEMBER'' then Some [] else Some content)"

section \<open>Patterns\<close>

definition stop_words :: "string list" where
  "stop_words =
     [''the'', ''a'', ''an'', ''is'', ''are'', ''was'', ''to'', ''of'', ''in'', ''on'', ''at'', ''by'',
      ''for'', ''with'', ''from'', ''and'', ''or'', ''not'', ''this'', ''that'', ''it'', ''be'',
      ''have'', ''has'', ''do'', ''does'', ''did'', ''will'', ''would'', ''can'', ''could'', ''should'',
      ''may'', ''might'', ''must'', ''i'', ''you'', ''he'', ''she'', ''we'', ''they'', ''me'', ''him'',
      ''her'', ''us'', ''them'', ''my'', ''your'', ''his'', ''its'', ''our'', ''their'', ''use'',
      ''using'', ''what'', ''how'', ''when'', ''where'', ''please'', ''just'', ''like'', ''about'',
      ''into'', ''all'', ''any'', ''some'', ''no'', ''yes'', ''check'', ''show'', ''get'', ''make'',
      ''tell'', ''give'', ''now'', ''then'', ''also'']"

definition trim_cutset :: "char list \<Rightarrow> string \<Rightarrow> string" where
  "trim_cutset cs s = rev (dropWhile (\<lambda>c. c \<in> set cs) (rev (dropWhile (\<lambda>c. c \<in> set cs) s)))"

definition keyword_punctuation :: "char list" where
  "keyword_punctuation = ''.,!?;:'' @ [CHR 0x22, CHR 0x27] @ ''()[]{}''"

definition extract_keywords :: "string \<Rightarrow> string list" where
  "extract_keywords task =
     filter (\<lambda>w. length w \<ge> 3 \<and> w \<notin> set stop_words)
       (map (trim_cutset keyword_punctuation) (str_fields (to_lower task)))"

definition first_or :: "string list \<Rightarrow> string" where
  "first_or ts = (case ts of [] \<Rightarrow> [] | t # _ \<Rightarrow> t)"

definition task_signature :: "string list \<Rightarrow> string list \<Rightarrow> string" where
  "task_signature keywords tools =
     first_or keywords @ (if length keywords > 1 then ''_'' @ keywords ! 1 else []) @ ''_'' @ first_or tools"

definition skill_name_parts :: "string list \<Rightarrow> string list \<Rightarrow> string list" where
  "skill_name_parts keywords tools =
     (let parts = take 2 keywords @ (if tools = [] then [] else [''via'', hd tools])
      in if parts = [] then [''auto'', ''task''] else parts)"

definition clean_name_char :: "char \<Rightarrow> char" where
  "clean_name_char c = (if is_lower c \<or> is_digit c \<or> c = CHR ''-'' then c else CHR ''-'')"

text \<open>\<open>generateSkillName\<close>, for names of ASCII characters; any other rune becomes a single dash.\<close>

definition generate_skill_name :: "string list \<Rightarrow> string list \<Rightarrow> string" where
  "generate_skill_name keywords tools = ''auto-'' @ map clean_name_char (join ''-'' (skill_name_parts keywords tools))"

definition has_tool_overlap :: "string list \<Rightarrow> string list \<Rightarrow> bool" where
  "has_tool_overlap a b = list_ex (\<lambda>t. t \<in> set b) a"

definition find_similar_experiences ::
  "codec \<Rightarrow> sqlite \<Rightarrow> string list \<Rightarrow> string list \<Rightarrow> int \<Rightarrow> long_term \<Rightarrow> long_term \<times> experience list" where
  "find_similar_experiences js sq keywords tools limit lt =
     (let query = join '' '' (take 3 keywords)
      in if query = [] then (lt, [])
         else case lt_recall sq query limit MemoryLongTerm lt of
           (lt1, None) \<Rightarrow> (lt1, [])
         | (lt1, Some es) \<Rightarrow>
             (lt1, filter (\<lambda>rec. has_tool_overlap (ex_tools rec) tools)
                     (experience_rows js (filter (\<lambda>e. me_metadata e ''success'' = Some ''true'') es))))"

definition tool_emoji :: "string \<Rightarrow> string" where
  "tool_emoji tool =
     (case map_of
     [(''terminal'', [CHR 0xE2, CHR 0x9A, CHR 0x99, CHR 0xEF, CHR 0xB8, CHR 0x8F]),
      (''file'', [CHR 0xF0, CHR 0x9F, CHR 0x93, CHR 0x84]),
      (''browser'', [CHR 0xF0, CHR 0x9F, CHR 0x8C, CHR 0x90]),
      (''docs'', [CHR 0xF0, CHR 0x9F, CHR 0x93, CHR 0x9A]),
      (''http_client'', [CHR 0xF0, CHR 0x9F, CHR 0x94, CHR 0x8C]),
      (''web_search'', [CHR 0xF0, CHR 0x9F, CHR 0x94, CHR 0x8D]),
      (''calculator'', [CHR 0xF0, CHR 0x9F, CHR 0x94, CHR 0xA2]),
      (''todo'', [CHR 0xE2, CHR 0x9C, CHR 0x85]),
      (''skill'', [CHR 0xF0, CHR 0x9F, CHR 0xA7, CHR 0xA0]),
      (''process'', [CHR 0xE2, CHR 0x9A, CHR 0xA1]),
      (''memory_recall'', [CHR 0xF0, CHR 0x9F, CHR 0x92, CHR 0xAD]),
      (''remember'', [CHR 0xF0, CHR 0x9F, CHR 0x92, CHR 0xBE]),
      (''delegation'', [CHR 0xF0, CHR 0x9F, CHR 0xA4, CHR 0x96])] tool of
        Some e \<Rightarrow> e | None \<Rightarrow> [CHR 0xF0, CHR 0x9F, CHR 0x94, CHR 0xA7])"

text \<open>The tools of the similar tasks with their frequencies, most frequent first; \<open>walk\<close> orders the map.\<close>

definition tool_frequencies :: "(string list \<Rightarrow> string list) \<Rightarrow> experience list \<Rightarrow> (string \<times> nat) list" where
  "tool_frequencies walk similar =
     (let ts = concat (map ex_tools similar)
      in sort_key (\<lambda>(t, n). - int n) (map (\<lambda>t. (t, count_list ts t)) (walk (remdups ts))))"

text \<open>
  \<open>generateSkillContent\<close>; the value is \<open>None\<close> when the index \<open>tools[0]\<close> is out of range or a sum is divided by no
  tasks. \<open>ms_text\<close> prints a duration and \<open>date\<close> is the time of the generation.
\<close>

definition generate_skill_content ::
  "(string list \<Rightarrow> string list) \<Rightarrow> (int \<Rightarrow> string) \<Rightarrow> string \<Rightarrow> string \<Rightarrow> experience \<Rightarrow> experience list \<Rightarrow> string option" where
  "generate_skill_content walk ms_text date name latest similar =
     (let n = int (length similar);
          tools = tool_frequencies walk similar
      in if similar = [] then None
         else case tools of
           [] \<Rightarrow> None
         | (t0, _) # others \<Rightarrow>
             Some (''# '' @ name @ newline @ newline @
               ''> Auto-generated from '' @ itoa n @ '' similar successful tasks.'' @ newline @ newline @
               ''## Triggers'' @ newline @ ''Keywords: '' @ join '', '' (extract_keywords (ex_task latest)) @
               newline @ newline @ ''## Recommended Tools'' @ newline @
               concat (map (\<lambda>(i, t, f). itoa (int i + 1) @ ''. '' @ tool_emoji t @ '' '' @ t @ '' (used '' @
                              itoa (int f) @ ''/'' @ itoa n @ '' times)'' @ newline) (zip [0..<length tools] tools)) @
               newline @ ''## Performance'' @ newline @
               ''- Average duration: '' @ ms_text (quotient (sum_list (map ex_duration similar)) n) @ newline @
               ''- Average iterations: '' @ itoa (quotient (sum_list (map ex_iterations similar)) n) @ newline @
               ''- Success rate: 100% (sampled from '' @ itoa n @ '' successful tasks)'' @ newline @
               newline @ ''## Approach'' @ newline @ ''1. Identify the task type from user message'' @ newline @
               ''2. Use '' @ t0 @ '' tool to execute'' @ newline @
               (case others of [] \<Rightarrow> [] | (t1, _) # _ \<Rightarrow> ''3. Use '' @ t1 @ '' if needed for follow-up'' @ newline) @
               ''4. Report results concisely'' @ newline @ newline @ ''---'' @ newline @
               ''Generated: '' @ date @ newline))"

record detector =
  pd_min_count :: int
  pd_dir :: string
  pd_generated :: "string list"
  pd_files :: "string \<rightharpoonup> string"
  pd_dir_ok :: bool
  pd_writable :: bool

text \<open>
  \<open>CheckAndGenerate\<close>: the outer option is a panic, the inner result the name of the skill or the empty text.
  \<open>pd_files\<close> are the files of the skills directory; \<open>pd_dir_ok\<close> and \<open>pd_writable\<close> tell whether the directory can be
  made and a file written.
\<close>

definition check_and_generate ::
  "codec \<Rightarrow> sqlite \<Rightarrow> (string list \<Rightarrow> string list) \<Rightarrow> (int \<Rightarrow> string) \<Rightarrow> string \<Rightarrow> experience \<Rightarrow> detector \<Rightarrow> long_term
     \<Rightarrow> ((detector \<times> long_term) \<times> string) option" where
  "check_and_generate js sq walk ms_text date rec pd lt =
     (if \<not> ex_success rec then Some ((pd, lt), [])
      else
        let keywords = extract_keywords (ex_task rec);
            sig = task_signature keywords (ex_tools rec)
        in if sig \<in> set (pd_generated pd) then Some ((pd, lt), [])
           else case find_similar_experiences js sq keywords (ex_tools rec) 10 lt of
             (lt1, similar) \<Rightarrow>
               if int (length similar) < pd_min_count pd then Some ((pd, lt1), [])
               else
                 let name = generate_skill_name keywords (ex_tools rec);
                     path = name @ ''.md''
                 in case generate_skill_content walk ms_text date name rec similar of
                      None \<Rightarrow> None
                    | Some content \<Rightarrow>
                        if \<not> pd_dir_ok pd then Some ((pd, lt1), [])
                        else if pd_files pd path \<noteq> None
                        then Some ((pd\<lparr>pd_generated := sig # pd_generated pd\<rparr>, lt1), [])
                        else if \<not> pd_writable pd then Some ((pd, lt1), [])
                        else
                          Some ((pd\<lparr>pd_generated := sig # pd_generated pd, pd_files := (pd_files pd)(path \<mapsto> content)\<rparr>,
                                 fst (lt_store (''Skill '' @ [CHR 0x27] @ name @ [CHR 0x27] @ '' auto-generated: '' @
                                        itoa (int (length similar)) @ '' similar tasks detected. Tools: '' @
                                        join '', '' (ex_tools rec))
                                      MemoryLongTerm [''category'' \<mapsto> ''lesson'', ''skill_name'' \<mapsto> name] lt1)),
                                name))"

section \<open>Profile: what a reload brings back\<close>

lemma foldl_update_rev:
  "foldl (\<lambda>c pe. c(pe_key pe \<mapsto> pe)) Map.empty (rev ps) k = find (\<lambda>pe. pe_key pe = k) ps"
  by (induction ps) auto

lemma profile_row_cong:
  "me_content e = me_content f \<Longrightarrow> me_metadata e = me_metadata f \<Longrightarrow> profile_row js e = profile_row js f"
  by (simp add: profile_row_def)

lemma map_filter_cong2:
  "list_all2 (\<lambda>x y. f x = f y) xs ys \<Longrightarrow> List.map_filter f xs = List.map_filter f ys"
  by (induction rule: list_all2_induct) (auto simp: map_filter_simps split: option.splits)

lemma scan_entries_profile:
  "List.map_filter (profile_row js) (snd (scan_entries rs lt)) = List.map_filter (profile_row js) rs"
  by (rule map_filter_cong2)
    (auto simp: list_all2_conv_all_nth scan_entries_spec intro: profile_row_cong)

text \<open>
  A reload of the profile, which happens before every task, gives each key the oldest of its values, not the
  newest, among the last 200 rows of long-term memory; a fact older than that is gone.
\<close>

lemma profile_reload_oldest_value:
  assumes "lt_up lt" "sorted (map me_created (lt_rows lt))"
  shows "snd (load_cache js sq cache lt) key =
    find (\<lambda>pe. pe_key pe = key)
      (List.map_filter (profile_row js) (last_n 200 (filter (type_matches MemoryLongTerm) (lt_rows lt))))"
proof -
  let ?rs = "filter (type_matches MemoryLongTerm) (lt_rows lt)"
  have "newest_first 200 ?rs = rev (last_n 200 ?rs)"
    using sorted_filter [OF assms(2)] by (simp add: newest_first_sorted last_n_def take_rev)
  then have "snd (load_cache js sq cache lt) key =
      foldl (\<lambda>c pe. c(pe_key pe \<mapsto> pe)) Map.empty (List.map_filter (profile_row js) (rev (last_n 200 ?rs))) key"
    using assms(1) scan_entries_profile [of js "rev (last_n 200 ?rs)" lt]
    by (auto simp: load_cache_def lt_recall_def trim_space_def trim_right_def Let_def split: prod.splits)
  also have "List.map_filter (profile_row js) (rev (last_n 200 ?rs)) =
      rev (List.map_filter (profile_row js) (last_n 200 ?rs))"
    by (simp add: List.map_filter_def rev_map rev_filter)
  finally show ?thesis by (simp only: foldl_update_rev)
qed

section \<open>Lessons stay small\<close>

lemma length_truncate_for_log: "length (truncate_for_log s n) \<le> n + 3"
  by (simp add: truncate_for_log_def Let_def)

lemma length_lesson_rule: "length (synthesize_lesson_rule li) \<le> 354"
proof -
  note b = length_truncate_for_log
  show ?thesis
    using b [of "trim_space (li_task li)" 80] b [of "first_failure_line (trim_space (li_failure li))" 80]
      b [of "trim_space (li_hint li)" 120] b [of "first_failure_line (trim_space (li_failure li))" 100]
    by (simp add: synthesize_lesson_rule_def Let_def)
qed

lemma lesson_content_bounded:
  "length (build_lesson_content li (synthesize_lesson_rule li)) \<le> 2185 + length (li_task_id li)"
proof -
  note b = length_truncate_for_log
  show ?thesis
    using length_lesson_rule [of li] b [of "li_task li" 300] b [of "li_failure li" 600] b [of "li_hint li" 300]
      b [of "li_fix li" 400] b [of "li_verify li" 120]
    by (simp add: build_lesson_content_def newline_def)
qed

section \<open>Generated skills\<close>

lemma clean_name_char_clean:
  "is_lower (clean_name_char c) \<or> is_digit (clean_name_char c) \<or> clean_name_char c = CHR ''-''"
  by (simp add: clean_name_char_def)

lemma generate_skill_name_clean:
  "list_all (\<lambda>c. is_lower c \<or> is_digit c \<or> c = CHR ''-'') (generate_skill_name keywords tools)"
  by (simp add: generate_skill_name_def list_all_iff clean_name_char_clean) (simp add: is_lower_def byte_def)

lemma tool_frequencies_nonempty:
  assumes "\<And>ts. mset (walk ts) = mset ts" "e \<in> set similar" "ex_tools e \<noteq> []"
  shows "tool_frequencies walk similar \<noteq> []"
proof
  let ?ts = "concat (map ex_tools similar)"
  assume "tool_frequencies walk similar = []"
  moreover have "length (tool_frequencies walk similar) = size (mset (walk (remdups ?ts)))"
    by (simp add: tool_frequencies_def Let_def)
  ultimately have "mset (remdups ?ts) = {#}" using assms(1) [of "remdups ?ts"] by simp
  then have "?ts = []" by simp
  with assms(2,3) show False by auto
qed

lemma find_similar_experiences_tools:
  "find_similar_experiences js sq keywords tools limit lt = (lt1, similar) \<Longrightarrow> e \<in> set similar \<Longrightarrow> ex_tools e \<noteq> []"
  by (auto simp: find_similar_experiences_def Let_def has_tool_overlap_def split: if_splits prod.splits option.splits)


text \<open>
  The detector of patterns never panics when it waits for at least one similar task: \<open>tools[0]\<close> exists, because
  similar tasks share a tool. It never overwrites a file, and the name of a new file consists of lower-case letters,
  digits and dashes, so it stays in the directory of the skills.
\<close>

lemma skill_generation_safe:
  assumes "pd_min_count pd \<ge> 1" "\<forall>ts. mset (walk ts) = mset ts"
  shows "\<exists>pd' lt' name. check_and_generate js sq walk ms_text date rec pd lt = Some ((pd', lt'), name) \<and>
    list_all (\<lambda>c. is_lower c \<or> is_digit c \<or> c = CHR ''-'') name \<and>
    (pd_files pd' = pd_files pd \<or>
     pd_files pd (name @ ''.md'') = None \<and> (\<exists>content. pd_files pd' = (pd_files pd)(name @ ''.md'' \<mapsto> content)))"
proof -
  let ?kws = "extract_keywords (ex_task rec)"
  obtain lt1 similar where s: "find_similar_experiences js sq ?kws (ex_tools rec) 10 lt = (lt1, similar)" by fastforce
  have content: "\<exists>c. generate_skill_content walk ms_text date name rec similar = Some c"
    if "\<not> int (length similar) < pd_min_count pd" for name
  proof -
    from that assms(1) obtain e where e: "e \<in> set similar" by (cases similar) auto
    from tool_frequencies_nonempty [OF assms(2) [rule_format] e find_similar_experiences_tools [OF s e]]
    obtain t others where "tool_frequencies walk similar = t # others" by (cases "tool_frequencies walk similar") auto
    with e show ?thesis by (cases t) (auto simp: generate_skill_content_def Let_def)
  qed
  note clean = generate_skill_name_clean [of ?kws "ex_tools rec"]
  show ?thesis
  proof (cases "\<not> ex_success rec \<or> task_signature ?kws (ex_tools rec) \<in> set (pd_generated pd) \<or>
      int (length similar) < pd_min_count pd")
    case True
    then show ?thesis by (auto simp: check_and_generate_def Let_def s)
  next
    case False
    with content obtain c where
      "generate_skill_content walk ms_text date (generate_skill_name ?kws (ex_tools rec)) rec similar = Some c" by blast
    with False clean show ?thesis by (auto simp: check_and_generate_def Let_def s)
  qed
qed

definition demo_row :: "nat \<Rightarrow> string \<Rightarrow> (string \<rightharpoonup> string) \<Rightarrow> mem_entry" where
  "demo_row i content md = \<lparr>me_id = memory_id (int i), me_content = content, me_type = MemoryLongTerm,
     me_metadata = md, me_created = int i, me_score = 0, me_tags = [], me_ttl = 0\<rparr>"

definition demo_profile :: "string \<Rightarrow> profile_entry" where
  "demo_profile v = \<lparr>pe_key = ''name'', pe_value = v, pe_category = ''fact'', pe_source = ''conversation'',
     pe_created = 0, pe_updated = 0\<rparr>"

definition demo_experience :: experience where
  "demo_experience = \<lparr>ex_id = ''e'', ex_task = ''deploy website'', ex_role = [], ex_tools = [''terminal''],
     ex_iterations = 3, ex_tool_calls = 2, ex_success = True, ex_duration = 10, ex_error = [], ex_hash = [],
     ex_created = 0\<rparr>"

text \<open>The encoding of a profile entry is its value, that of an experience its task.\<close>

definition demo_codec :: codec where
  "demo_codec = \<lparr>enc_experience = ex_task, dec_experience = (\<lambda>s. Some (demo_experience\<lparr>ex_task := s\<rparr>)),
     enc_profile = pe_value, dec_profile = (\<lambda>s. Some (demo_profile s))\<rparr>"

definition demo_sqlite :: sqlite where
  "demo_sqlite = \<lparr>sq_fts = (\<lambda>q. Some (\<lambda>c. True)), sq_like = (\<lambda>p s. True)\<rparr>"

definition renamed_user :: long_term where
  "renamed_user = empty_long_term\<lparr>lt_rows :=
     [demo_row 1 ''Ann'' [''category'' \<mapsto> ''fact''], demo_row 2 ''Bob'' [''category'' \<mapsto> ''fact'']]\<rparr>"

lemma profile_reload_oldest_value_witness:
  "snd (load_cache demo_codec demo_sqlite Map.empty renamed_user) ''name'' = Some (demo_profile ''Ann'')"
  using profile_reload_oldest_value [of renamed_user demo_codec demo_sqlite Map.empty "''name''"]
  by (simp add: renamed_user_def empty_long_term_def demo_row_def type_matches_def last_n_def profile_row_def
      demo_codec_def demo_profile_def map_filter_simps)

definition deployed_twice :: long_term where
  "deployed_twice = empty_long_term\<lparr>lt_rows :=
     map (\<lambda>i. demo_row i ''deploy website'' [''category'' \<mapsto> ''experience'', ''success'' \<mapsto> ''true'']) [1, 2]\<rparr>"

definition empty_detector :: detector where
  "empty_detector = \<lparr>pd_min_count = 2, pd_dir = ''data/skills'', pd_generated = [], pd_files = Map.empty,
     pd_dir_ok = True, pd_writable = True\<rparr>"

lemma skill_generation_safe_witness:
  "\<exists>pd' lt' name. check_and_generate demo_codec demo_sqlite (\<lambda>ts. ts) itoa ''today'' demo_experience empty_detector
       deployed_twice = Some ((pd', lt'), name) \<and>
     list_all (\<lambda>c. is_lower c \<or> is_digit c \<or> c = CHR ''-'') name \<and>
     (pd_files pd' = Map.empty \<or> (\<exists>content. pd_files pd' = [name @ ''.md'' \<mapsto> content]))"
  using skill_generation_safe [of empty_detector "\<lambda>ts. ts" demo_codec demo_sqlite itoa "''today''" demo_experience
      deployed_twice]
  by (auto simp: empty_detector_def)

lemma deployed_skill_name:
  "generate_skill_name (extract_keywords (ex_task demo_experience)) (ex_tools demo_experience) =
     ''auto-deploy-website-via-terminal''"
  by code_simp

end
