(* ===== verification/Go_Paths.thy ===== *)
theory Go_Paths
  imports Prelude Go_Strings
begin

text \<open>
  The functions of Go's \<open>path/filepath\<close> that the repository uses, for Unix paths: \<open>Clean\<close>, \<open>Join\<close>, \<open>IsAbs\<close>, \<open>Abs\<close>,
  \<open>Rel\<close> between absolute paths, \<open>Dir\<close>, \<open>Base\<close> and \<open>Ext\<close>. A path is cleaned on the list of its components.
\<close>

definition slash :: char where
  "slash = CHR ''/''"

text \<open>The components that remain: empty ones and dots go, and two dots take the component before them along.\<close>

fun clean_components :: "bool \<Rightarrow> string list \<Rightarrow> string list \<Rightarrow> string list" where
  "clean_components rooted acc [] = rev acc"
| "clean_components rooted acc (c # cs) =
     (if c = [] \<or> c = ''.'' then clean_components rooted acc cs
      else if c = ''..'' then
        (case acc of
           [] \<Rightarrow> clean_components rooted (if rooted then [] else [''..'']) cs
         | a # acc' \<Rightarrow>
             if a = ''..'' then clean_components rooted (''..'' # acc) cs
             else clean_components rooted acc' cs)
      else clean_components rooted (c # acc) cs)"

definition is_abs :: "string \<Rightarrow> bool" where
  "is_abs p = has_prefix p ''/''"

definition components :: "string \<Rightarrow> string list" where
  "components p = clean_components (is_abs p) [] (split_on slash p)"

definition clean_path :: "string \<Rightarrow> string" where
  "clean_path p =
     (if is_abs p then ''/'' @ join ''/'' (components p)
      else if components p = [] then ''.'' else join ''/'' (components p))"

definition join_path :: "string list \<Rightarrow> string" where
  "join_path ps = (case filter (\<lambda>p. p \<noteq> []) ps of [] \<Rightarrow> [] | qs \<Rightarrow> clean_path (join ''/'' qs))"

text \<open>\<open>Abs\<close>, with the working directory as an argument.\<close>

definition abs_path :: "string \<Rightarrow> string \<Rightarrow> string" where
  "abs_path cwd p = (if is_abs p then clean_path p else join_path [cwd, p])"

fun strip_common :: "string list \<Rightarrow> string list \<Rightarrow> string list \<times> string list" where
  "strip_common (a # as) (b # bs) = (if a = b then strip_common as bs else (a # as, b # bs))"
| "strip_common as bs = (as, bs)"

text \<open>\<open>Rel\<close> of two absolute paths, which cannot fail.\<close>

definition rel_path :: "string \<Rightarrow> string \<Rightarrow> string" where
  "rel_path base target =
     (case strip_common (components base) (components target) of
        (up, down) \<Rightarrow>
          let parts = replicate (length up) ''..'' @ down in if parts = [] then ''.'' else join ''/'' parts)"

definition dir_path :: "string \<Rightarrow> string" where
  "dir_path p =
     (case str_last_index_char p slash of
        None \<Rightarrow> ''.''
      | Some i \<Rightarrow> clean_path (take (i + 1) p))"

text \<open>\<open>Base\<close> of a path that is neither empty nor all slashes.\<close>

definition base_path :: "string \<Rightarrow> string" where
  "base_path p =
     (if p = [] then ''.''
      else
        let q = rev (dropWhile (\<lambda>c. c = slash) (rev p))
        in if q = [] then ''/'' else rev (takeWhile (\<lambda>c. c \<noteq> slash) (rev q)))"

text \<open>\<open>Ext\<close>: from the last dot of the last component.\<close>

definition ext_path :: "string \<Rightarrow> string" where
  "ext_path p =
     (let q = takeWhile (\<lambda>c. c \<noteq> slash) (rev p)
      in if CHR ''.'' \<in> set q then rev (takeWhile (\<lambda>c. c \<noteq> CHR ''.'') q @ ''.'') else [])"

text \<open>A leading tilde stands for the home directory, when it is known (\<open>expandHome\<close> of \<open>internal/tool/builtin/patch.go\<close>).\<close>

definition expand_home :: "string option \<Rightarrow> string \<Rightarrow> string" where
  "expand_home home p =
     (if \<not> has_prefix p ''~'' then p
      else case home of
             None \<Rightarrow> p
           | Some h \<Rightarrow>
               if p = ''~'' then h
               else if has_prefix p ''~/'' then join_path [h, drop 2 p] else p)"

section \<open>Components\<close>

text \<open>A component that a cleaned path can have.\<close>

definition plain_component :: "string \<Rightarrow> bool" where
  "plain_component c \<longleftrightarrow> c \<noteq> [] \<and> c \<noteq> ''.'' \<and> c \<noteq> ''..'' \<and> slash \<notin> set c"

lemma split_on_no_sep: "w \<in> set (split_on d s) \<Longrightarrow> d \<notin> set w"
proof (induction s arbitrary: w)
  case (Cons c s)
  then show ?case by (cases "split_on d s") (auto split: if_splits)
qed simp

lemma clean_rooted_plain:
  "list_all plain_component acc \<Longrightarrow> \<forall>c\<in>set cs. slash \<notin> set c \<Longrightarrow>
     list_all plain_component (clean_components True acc cs)"
proof (induction True acc cs rule: clean_components.induct)
  case (1 acc)
  then show ?case by (simp add: list_all_iff)
next
  case (2 acc c cs)
  show ?case
  proof (cases "c = [] \<or> c = ''.''")
    case True
    with 2 show ?thesis by auto
  next
    case keep: False
    show ?thesis
    proof (cases "c = ''..''")
      case True
      with 2 show ?thesis by (cases acc) (auto simp: plain_component_def)
    next
      case False
      with keep "2.prems" have "list_all plain_component (c # acc)" by (simp add: plain_component_def)
      with 2 keep False show ?thesis by auto
    qed
  qed
qed

lemma components_abs_plain: "is_abs p \<Longrightarrow> list_all plain_component (components p)"
  unfolding components_def by (simp add: clean_rooted_plain split_on_no_sep)

lemma clean_components_plain:
  "list_all plain_component cs \<Longrightarrow> clean_components rooted acc (cs @ ds) = clean_components rooted (rev cs @ acc) ds"
  by (induction cs arbitrary: acc) (auto simp: plain_component_def)

lemma split_on_append: "d \<notin> set w \<Longrightarrow> split_on d (w @ d # s) = w # split_on d s"
  by (induction w) auto

lemma split_on_single: "d \<notin> set w \<Longrightarrow> split_on d w = [w]"
  by (induction w) auto

lemma split_on_join:
  "list_all plain_component cs \<Longrightarrow> cs \<noteq> [] \<Longrightarrow> split_on slash (join ''/'' cs) = cs"
proof (induction "''/''" cs rule: join.induct)
  case (2 w)
  then show ?case by (simp add: split_on_single plain_component_def)
next
  case (3 w v ws)
  then show ?case
    using split_on_append [of slash w "join ''/'' (v # ws)"] by (simp add: plain_component_def slash_def)
qed simp

lemma clean_components_fixed: "list_all plain_component cs \<Longrightarrow> clean_components rooted [] cs = cs"
  using clean_components_plain [of cs rooted "[]" "[]"] by simp

lemma components_of_clean:
  assumes "list_all plain_component cs"
  shows "components (''/'' @ join ''/'' cs) = cs"
proof (cases "cs = []")
  case True
  then show ?thesis by (simp add: components_def slash_def)
next
  case False
  have "split_on slash (''/'' @ join ''/'' cs) = [] # cs"
    using split_on_join [OF assms False] by (simp add: slash_def)
  with clean_components_fixed [OF assms] show ?thesis by (simp add: components_def)
qed

text \<open>Cleaning an absolute path does not change its components, so it is idempotent.\<close>

lemma components_clean_abs: "is_abs p \<Longrightarrow> components (clean_path p) = components p"
  using components_of_clean [OF components_abs_plain] by (simp add: clean_path_def)

lemma clean_path_abs [simp]: "is_abs p \<Longrightarrow> is_abs (clean_path p)"
  by (simp add: clean_path_def is_abs_def)

lemma clean_path_idem: "is_abs p \<Longrightarrow> clean_path (clean_path p) = clean_path p"
proof -
  assume p: "is_abs p"
  then have "clean_path (clean_path p) = ''/'' @ join ''/'' (components (clean_path p))"
    by (subst clean_path_def) (simp only: clean_path_abs if_True)
  also have "\<dots> = clean_path p"
    unfolding components_clean_abs [OF p] using p by (simp add: clean_path_def)
  finally show ?thesis .
qed

text \<open>A path below an absolute directory.\<close>

lemma split_on_slash_append: "split_on slash (p @ ''/'' @ q) = split_on slash p @ split_on slash q"
proof (induction p)
  case (Cons c p)
  show ?case
  proof (cases "c = slash")
    case False
    obtain w ws where "split_on slash p = w # ws" using split_on_nonempty by (metis neq_Nil_conv)
    with Cons False show ?thesis by simp
  qed (use Cons in simp)
qed (simp add: slash_def)

lemma join_path_abs:
  assumes "is_abs d" "p \<noteq> []"
  shows "is_abs (join_path [d, p]) \<and>
    components (join_path [d, p]) = clean_components True (rev (components d)) (split_on slash p)"
proof -
  have d: "d \<noteq> []" using assms(1) by (auto simp: is_abs_def)
  let ?q = "d @ ''/'' @ p"
  have abs: "is_abs ?q" using assms(1) by (cases d) (auto simp: is_abs_def)
  have j: "join_path [d, p] = clean_path ?q" using d assms(2) by (simp add: join_path_def)
  have run: "clean_components True acc (cs @ ds) = clean_components True (rev (clean_components True acc cs)) ds"
    for acc cs ds
    by (induction True acc cs rule: clean_components.induct) (auto split: list.splits)
  have "components ?q = clean_components True (rev (components d)) (split_on slash p)"
    using abs assms(1) run [of "[]" "split_on slash d" "split_on slash p"]
    unfolding components_def by (simp only: split_on_slash_append)
  with abs j components_clean_abs [OF abs] show ?thesis by simp
qed

lemma abs_path_abs: "is_abs cwd \<Longrightarrow> p \<noteq> [] \<Longrightarrow> is_abs (abs_path cwd p)"
  using join_path_abs [of cwd p] by (simp add: abs_path_def)

section \<open>Relative paths\<close>

lemma strip_common_split:
  "strip_common as bs = (us, vs) \<Longrightarrow> \<exists>cs. as = cs @ us \<and> bs = cs @ vs"
proof (induction as bs arbitrary: us vs rule: strip_common.induct)
  case (1 a as b bs)
  show ?case
  proof (cases "a = b")
    case True
    with 1 obtain cs where "as = cs @ us" "bs = cs @ vs" by auto
    with True show ?thesis by (intro exI [where x = "a # cs"]) simp
  qed (use 1 in auto)
qed auto

lemma strip_common_append: "strip_common as (as @ bs) = ([], bs)"
  by (induction as) (cases bs; simp)+

text \<open>The test of the code, \<open>!strings.HasPrefix(rel, "..")\<close>, on components.\<close>

definition inside :: "string \<Rightarrow> string \<Rightarrow> bool" where
  "inside base target \<longleftrightarrow> \<not> has_prefix (rel_path base target) ''..''"

lemma inside_iff:
  "inside base target \<longleftrightarrow>
     (\<exists>rest. components target = components base @ rest \<and>
        (case rest of [] \<Rightarrow> True | c # cs \<Rightarrow> \<not> has_prefix (join ''/'' rest) ''..''))"
proof -
  obtain up down where s: "strip_common (components base) (components target) = (up, down)" by fastforce
  from strip_common_split [OF s] obtain cs where c: "components base = cs @ up" "components target = cs @ down" by blast
  show ?thesis
  proof (cases up)
    case Nil
    with c have "components target = components base @ down" by simp
    moreover have "rest = down" if "components target = components base @ rest" for rest
      using that calculation by simp
    ultimately show ?thesis
      using s Nil by (cases down) (auto simp: inside_def rel_path_def Let_def split: list.splits)
  next
    case (Cons u us)
    have "has_prefix (join ''/'' (''..'' # ws)) ''..''" for ws by (cases ws) auto
    then have "\<not> inside base target"
      using s Cons by (simp add: inside_def rel_path_def)
    moreover have "components target \<noteq> components base @ rest" for rest
    proof
      assume e: "components target = components base @ rest"
      have "strip_common (components base) (components base @ rest) = ([], rest)" by (rule strip_common_append)
      with s e Cons show False by simp
    qed
    ultimately show ?thesis by blast
  qed
qed

lemma inside_prefix: "inside base target \<Longrightarrow> prefix (components base) (components target)"
  by (auto simp: inside_iff)

end
