(* ===== verification/File_Tool.thy ===== *)
theory File_Tool
  imports Tool_Registry Go_Paths
begin

text \<open>
  The file tool (\<open>internal/tool/builtin/file.go\<close>) with the workspace and the sandbox that a task carries in its
  context (\<open>internal/taskctx\<close>). The file system is a state: the contents of files by absolute path, the directories,
  and the paths whose operations fail for another reason than a missing file. Reading a directory and walking a
  tree are answered by the environment. Error messages are values; the texts of successful reads are exact.
\<close>

section \<open>File system and context\<close>

datatype os_error = NotExist | PermissionDenied | OtherFailure string

record file_system =
  fs_files :: "string \<rightharpoonup> string"
  fs_dirs :: "string \<Rightarrow> bool"
  fs_fail :: "string \<Rightarrow> os_error option"

definition os_read :: "file_system \<Rightarrow> string \<Rightarrow> os_error + string" where
  "os_read fs p =
     (case fs_fail fs p of
        Some e \<Rightarrow> Inl e
      | None \<Rightarrow>
          if fs_dirs fs p then Inl (OtherFailure ''is a directory'')
          else case fs_files fs p of None \<Rightarrow> Inl NotExist | Some c \<Rightarrow> Inr c)"

definition os_mkdir_all :: "file_system \<Rightarrow> string \<Rightarrow> os_error + file_system" where
  "os_mkdir_all fs d =
     (case fs_fail fs d of
        Some e \<Rightarrow> Inl e
      | None \<Rightarrow>
          if list_ex (\<lambda>n. fs_files fs (''/'' @ join ''/'' (take n (components d))) \<noteq> None) [0..<length (components d) + 1]
          then Inl (OtherFailure ''not a directory'')
          else Inr (fs\<lparr>fs_dirs := (\<lambda>q. fs_dirs fs q \<or> is_abs q \<and> prefix (components q) (components d) \<and> clean_path q = q)\<rparr>))"

definition os_write :: "file_system \<Rightarrow> string \<Rightarrow> string \<Rightarrow> os_error + file_system" where
  "os_write fs p c =
     (case fs_fail fs p of
        Some e \<Rightarrow> Inl e
      | None \<Rightarrow>
          if fs_dirs fs p then Inl (OtherFailure ''is a directory'')
          else if \<not> fs_dirs fs (dir_path p) then Inl NotExist
          else Inr (fs\<lparr>fs_files := (fs_files fs)(p \<mapsto> c)\<rparr>))"

text \<open>Name, whether it is a directory, and size.\<close>

type_synonym dir_entry = "string \<times> bool \<times> int"

record file_env =
  fe_cwd :: string
  fe_home :: "string option"
  fe_allowed :: "string list"
  fe_read_dir :: "file_system \<Rightarrow> string \<Rightarrow> os_error + dir_entry list"
  fe_walk :: "file_system \<Rightarrow> string \<Rightarrow> dir_entry list"
  fe_dir_size :: "string \<Rightarrow> int"

record task_ctx =
  tx_workspace :: string
  tx_sandbox :: string

definition with_workspace :: "string \<Rightarrow> task_ctx \<Rightarrow> task_ctx" where
  "with_workspace d ctx = ctx\<lparr>tx_workspace := d\<rparr>"

definition with_sandbox :: "string \<Rightarrow> task_ctx \<Rightarrow> task_ctx" where
  "with_sandbox r ctx = ctx\<lparr>tx_sandbox := r\<rparr>"

text \<open>\<open>NewFileTool\<close>: the working directory and the home directory, empty when there is none.\<close>

definition default_allowed :: "string option \<Rightarrow> string list" where
  "default_allowed home = [''.'', case home of None \<Rightarrow> [] | Some h \<Rightarrow> h]"

datatype file_error =
    OperationRequired | PathRequired | HomeUnknown | OutsideSandbox string string | OutsideAllowed string
  | UnknownOperation string | ParameterRequired string | FileNotFound string | FilePermission string
  | FileFailure string os_error | OffsetBeyond int int | OldStringNotFound string
  | FilePanic string

section \<open>Paths\<close>

definition expand_path :: "file_env \<Rightarrow> string \<Rightarrow> string \<Rightarrow> file_error + string" where
  "expand_path env workspace path =
     (if path = [] then Inl PathRequired
      else if has_prefix path ''~'' \<and> fe_home env = None then Inl HomeUnknown
      else
        let home = (case fe_home env of None \<Rightarrow> [] | Some h \<Rightarrow> h);
            p1 = (if path = ''~'' then home
                  else if has_prefix path ''~/'' then join_path [home, drop 2 path] else path);
            p2 = (if \<not> is_abs p1 \<and> workspace \<noteq> [] then join_path [workspace, p1] else p1)
        in Inr (abs_path (fe_cwd env) p2))"

definition allowed_dirs :: "file_env \<Rightarrow> string \<Rightarrow> string list" where
  "allowed_dirs env workspace = fe_allowed env @ (if workspace \<noteq> [] then [workspace] else [])"

definition is_path_allowed :: "file_env \<Rightarrow> string \<Rightarrow> string \<Rightarrow> bool" where
  "is_path_allowed env workspace p =
     list_ex (\<lambda>d. inside (abs_path (fe_cwd env) d) (abs_path (fe_cwd env) p)) (allowed_dirs env workspace)"

text \<open>The rewritten form of a path that looks absolute but may mean one below the working directory.\<close>

definition recovered_path :: "file_env \<Rightarrow> file_system \<Rightarrow> string \<Rightarrow> string \<Rightarrow> string option" where
  "recovered_path env fs workspace path =
     (if has_prefix path ''/'' then
        (case expand_path env workspace (trim_prefix path ''/'') of
           Inl _ \<Rightarrow> None
         | Inr q \<Rightarrow> if is_path_allowed env workspace q \<and> fs_dirs fs (dir_path q) then Some q else None)
      else None)"

definition resolve_file_path :: "file_env \<Rightarrow> file_system \<Rightarrow> task_ctx \<Rightarrow> string \<Rightarrow> file_error + string" where
  "resolve_file_path env fs ctx path =
     (case expand_path env (tx_workspace ctx) path of
        Inl e \<Rightarrow> Inl e
      | Inr p \<Rightarrow>
          let sandbox = abs_path (fe_cwd env) (tx_sandbox ctx)
          in if tx_sandbox ctx \<noteq> [] \<and> \<not> inside sandbox p then Inl (OutsideSandbox p sandbox)
             else if is_path_allowed env (tx_workspace ctx) p then Inr p
             else
               let q = (case recovered_path env fs (tx_workspace ctx) path of None \<Rightarrow> p | Some q \<Rightarrow> q)
               in if is_path_allowed env (tx_workspace ctx) q then Inr q else Inl (OutsideAllowed path))"

section \<open>Operations\<close>

definition default_chunk :: int where
  "default_chunk = 4096"

definition dash :: string where
  "dash = [CHR 0xE2, CHR 0x80, CHR 0x94]"

definition line_break :: string where
  "line_break = [CHR 0x0A]"

definition chunk_trailer :: "int \<Rightarrow> int \<Rightarrow> int \<Rightarrow> string" where
  "chunk_trailer stop next_size remaining =
     line_break @ ''=== end chunk '' @ dash @ '' call file:read again with offset='' @ itoa stop @ '' to fetch the next '' @
     itoa next_size @ '' bytes ('' @ itoa remaining @ '' bytes remaining) ===''"

text \<open>The slice \<open>content[offset:stop]\<close> of a read with an offset or a limit; \<open>None\<close> when Go panics.\<close>

definition read_stop :: "int \<Rightarrow> int \<Rightarrow> int \<Rightarrow> int" where
  "read_stop len offset limit = (if limit > 0 then (if offset + limit > len then len else offset + limit) else len)"

definition read_slice :: "string \<Rightarrow> int \<Rightarrow> int \<Rightarrow> string option" where
  "read_slice content offset stop =
     (if 0 \<le> offset \<and> offset \<le> stop \<and> stop \<le> int (length content)
      then Some (take (nat (stop - offset)) (drop (nat offset) content)) else None)"

definition read_file :: "file_system \<Rightarrow> string \<Rightarrow> int \<Rightarrow> int \<Rightarrow> file_error + string" where
  "read_file fs p offset limit =
     (case os_read fs p of
        Inl NotExist \<Rightarrow> Inl (FileNotFound p)
      | Inl PermissionDenied \<Rightarrow> Inl (FilePermission p)
      | Inl e \<Rightarrow> Inl (FileFailure p e)
      | Inr content \<Rightarrow>
          let size = int (length content)
          in if offset = 0 \<and> limit = 0 \<and> size > 2 * default_chunk then
               Inr (''=== '' @ p @ '' (chunk 1, '' @ itoa default_chunk @ ''/'' @ itoa size @ '' bytes) ==='' @ line_break @
                    take (nat default_chunk) content @ chunk_trailer default_chunk default_chunk (size - default_chunk))
             else if offset > 0 \<or> limit > 0 then
               (if offset \<ge> size then Inl (OffsetBeyond offset size)
                else
                  let stop = read_stop size offset limit
                  in case read_slice content offset stop of
                       None \<Rightarrow> Inl (FilePanic ''slice bounds out of range'')
                     | Some chunk \<Rightarrow>
                         Inr (''=== '' @ p @ '' (offset='' @ itoa offset @ '', '' @ itoa (stop - offset) @ ''/'' @ itoa size @
                              '' bytes) ==='' @ line_break @ chunk @
                              (if size - stop > 0
                               then chunk_trailer stop (if limit > 0 \<and> limit < default_chunk then limit else default_chunk)
                                      (size - stop)
                               else [])))
             else Inr content)"

definition write_file :: "file_system \<Rightarrow> string \<Rightarrow> go_params \<Rightarrow> file_system \<times> (file_error + string)" where
  "write_file fs p params =
     (case params ''content'' of
        Some (GoString content) \<Rightarrow>
          (case os_mkdir_all fs (dir_path p) of
             Inl e \<Rightarrow> (fs, Inl (FileFailure p e))
           | Inr fs1 \<Rightarrow>
               (case os_write fs1 p content of
                  Inl PermissionDenied \<Rightarrow> (fs1, Inl (FilePermission p))
                | Inl e \<Rightarrow> (fs1, Inl (FileFailure p e))
                | Inr fs2 \<Rightarrow> (fs2, Inr (''Successfully wrote '' @ itoa (int (length content)) @ '' bytes to '' @ p))))
      | _ \<Rightarrow> (fs, Inl (ParameterRequired ''content'')))"

text \<open>\<open>strings.Replace(s, old, new, 1)\<close>.\<close>

definition replace_first :: "string \<Rightarrow> string \<Rightarrow> string \<Rightarrow> string" where
  "replace_first s old new =
     (case str_index s old of None \<Rightarrow> s | Some i \<Rightarrow> take i s @ new @ drop (i + length old) s)"

definition edit_file :: "file_system \<Rightarrow> string \<Rightarrow> go_params \<Rightarrow> file_system \<times> (file_error + string)" where
  "edit_file fs p params =
     (case params ''old_string'' of
        Some (GoString old) \<Rightarrow>
          if old = [] then (fs, Inl (ParameterRequired ''old_string''))
          else
            let new = (case params ''new_string'' of Some (GoString s) \<Rightarrow> s | _ \<Rightarrow> [])
            in (case os_read fs p of
                  Inl NotExist \<Rightarrow> (fs, Inl (FileNotFound p))
                | Inl PermissionDenied \<Rightarrow> (fs, Inl (FilePermission p))
                | Inl e \<Rightarrow> (fs, Inl (FileFailure p e))
                | Inr content \<Rightarrow>
                    if \<not> contains_str content old then (fs, Inl (OldStringNotFound p))
                    else
                      let edited = replace_first content old new
                      in (case os_write fs p edited of
                            Inl PermissionDenied \<Rightarrow> (fs, Inl (FilePermission p))
                          | Inl e \<Rightarrow> (fs, Inl (FileFailure p e))
                          | Inr fs1 \<Rightarrow>
                              (fs1, Inr (''Successfully edited '' @ p @ '' ('' @ itoa (int (length content)) @
                                 '' '' @ [CHR 0xE2, CHR 0x86, CHR 0x92] @ '' '' @ itoa (int (length edited)) @ '' bytes)''))))
      | _ \<Rightarrow> (fs, Inl (ParameterRequired ''old_string'')))"

definition append_file :: "file_system \<Rightarrow> string \<Rightarrow> go_params \<Rightarrow> file_system \<times> (file_error + string)" where
  "append_file fs p params =
     (case params ''content'' of
        Some (GoString content) \<Rightarrow>
          let old = (case fs_files fs p of None \<Rightarrow> [] | Some c \<Rightarrow> c)
          in (case os_write fs p (old @ content) of
                Inl PermissionDenied \<Rightarrow> (fs, Inl (FilePermission p))
              | Inl e \<Rightarrow> (fs, Inl (FileFailure p e))
              | Inr fs1 \<Rightarrow> (fs1, Inr (''Successfully appended '' @ itoa (int (length content)) @ '' bytes to '' @ p)))
      | _ \<Rightarrow> (fs, Inl (ParameterRequired ''content'')))"

definition check_exists :: "file_env \<Rightarrow> file_system \<Rightarrow> string \<Rightarrow> file_error + string" where
  "check_exists env fs p =
     (let answer = (\<lambda>kind size. Inr (''Path exists: '' @ p @ '' (type: '' @ kind @ '', size: '' @ itoa size @ '' bytes)''))
      in case fs_fail fs p of
           Some NotExist \<Rightarrow> Inr (''Path does not exist: '' @ p)
         | Some e \<Rightarrow> Inl (FileFailure p e)
         | None \<Rightarrow>
             if fs_dirs fs p then answer ''directory'' (fe_dir_size env p)
             else case fs_files fs p of
               None \<Rightarrow> Inr (''Path does not exist: '' @ p)
             | Some c \<Rightarrow> answer ''file'' (int (length c)))"

definition list_directory :: "file_env \<Rightarrow> file_system \<Rightarrow> string \<Rightarrow> file_error + string" where
  "list_directory env fs p =
     (case fe_read_dir env fs p of
        Inl NotExist \<Rightarrow> Inl (FileNotFound p)
      | Inl PermissionDenied \<Rightarrow> Inl (FilePermission p)
      | Inl e \<Rightarrow> Inl (FileFailure p e)
      | Inr es \<Rightarrow>
          Inr (''Contents of '' @ p @ '' ('' @ itoa (int (length es)) @ '' entries):'' @ line_break @
               concat (map (\<lambda>(name, dir, size). ''  '' @ (if dir then ''DIR '' else ''FILE'') @ '' '' @ name @ '' ('' @
                              itoa size @ '' bytes)'' @ line_break) es)))"

definition search_result :: "file_system \<Rightarrow> string \<Rightarrow> dir_entry \<Rightarrow> string option" where
  "search_result fs pattern =
     (\<lambda>(q, dir, size).
        if contains_str (to_lower (base_path q)) (to_lower pattern)
        then Some ((if dir then ''DIR '' else ''FILE'') @ '' '' @ q)
        else if \<not> dir \<and> size < 1024 * 1024 then
          (case os_read fs q of
             Inl _ \<Rightarrow> None
           | Inr c \<Rightarrow> if contains_str (to_lower c) (to_lower pattern) then Some (''MATCH '' @ q) else None)
        else None)"

definition search_files :: "file_env \<Rightarrow> file_system \<Rightarrow> string \<Rightarrow> go_params \<Rightarrow> file_error + string" where
  "search_files env fs p params =
     (case params ''pattern'' of
        Some (GoString pattern) \<Rightarrow>
          if pattern = [] then Inl (ParameterRequired ''pattern'')
          else
            let found = List.map_filter (search_result fs pattern) (fe_walk env fs p); q = [CHR 0x27]
            in if found = [] then Inr (''No results found for pattern '' @ q @ pattern @ q @ '' in '' @ p)
               else Inr (''Found '' @ itoa (int (length found)) @ '' matches for pattern '' @ q @ pattern @ q @ '':'' @
                         line_break @ concat (map (\<lambda>r. ''  - '' @ r @ line_break) found))
      | _ \<Rightarrow> Inl (ParameterRequired ''pattern''))"

definition truncate_rat :: "rat \<Rightarrow> int" where
  "truncate_rat r = (if r < 0 then - \<lfloor>- r\<rfloor> else \<lfloor>r\<rfloor>)"

definition param_int :: "go_params \<Rightarrow> string \<Rightarrow> int" where
  "param_int params key =
     (case params key of Some (GoInt n) \<Rightarrow> n | Some (GoFloat r) \<Rightarrow> truncate_rat r | _ \<Rightarrow> 0)"

definition file_execute ::
  "file_env \<Rightarrow> task_ctx \<Rightarrow> file_system \<Rightarrow> go_params \<Rightarrow> file_system \<times> (file_error + string)" where
  "file_execute env ctx fs params =
     (case params ''operation'' of
        Some (GoString operation) \<Rightarrow>
          if operation = [] then (fs, Inl OperationRequired)
          else (case params ''path'' of
            Some (GoString path) \<Rightarrow>
              if path = [] then (fs, Inl PathRequired)
              else (case resolve_file_path env fs ctx path of
                 Inl e \<Rightarrow> (fs, Inl e)
               | Inr p \<Rightarrow>
                   if operation = ''read'' then (fs, read_file fs p (param_int params ''offset'') (param_int params ''limit''))
                   else if operation = ''write'' then write_file fs p params
                   else if operation = ''edit'' then edit_file fs p params
                   else if operation = ''append'' then append_file fs p params
                   else if operation = ''exists'' then (fs, check_exists env fs p)
                   else if operation = ''list'' then (fs, list_directory env fs p)
                   else if operation = ''search'' then (fs, search_files env fs p params)
                   else (fs, Inl (UnknownOperation operation)))
          | _ \<Rightarrow> (fs, Inl PathRequired))
      | _ \<Rightarrow> (fs, Inl OperationRequired))"

section \<open>Which paths are granted\<close>

lemma is_path_allowed_prefix:
  "is_path_allowed env ws p \<Longrightarrow>
     list_ex (\<lambda>d. prefix (components (abs_path (fe_cwd env) d)) (components (abs_path (fe_cwd env) p))) (allowed_dirs env ws)"
  by (auto simp: is_path_allowed_def list_ex_iff intro: inside_prefix)

lemma recovered_path_allowed: "recovered_path env fs ws path = Some q \<Longrightarrow> is_path_allowed env ws q"
  by (auto simp: recovered_path_def split: if_splits sum.splits)

text \<open>
  C24: a path that is granted lies below an allowed directory or the workspace of the task. When the task has a
  sandbox, the path lies inside it, or it is the rewritten form of a path with a leading slash, which is not
  checked against the sandbox again.
\<close>

theorem granted_paths:
  assumes "resolve_file_path env fs ctx path = Inr p"
  shows "list_ex (\<lambda>d. prefix (components (abs_path (fe_cwd env) d)) (components (abs_path (fe_cwd env) p)))
      (allowed_dirs env (tx_workspace ctx)) \<and>
    (tx_sandbox ctx = [] \<or> inside (abs_path (fe_cwd env) (tx_sandbox ctx)) p \<or>
     recovered_path env fs (tx_workspace ctx) path = Some p)"
proof -
  from assms obtain p0 where p0: "expand_path env (tx_workspace ctx) path = Inr p0"
    by (auto simp: resolve_file_path_def split: sum.splits)
  have "is_path_allowed env (tx_workspace ctx) p"
    using assms p0 by (auto simp: resolve_file_path_def Let_def split: if_splits option.splits)
  moreover have "tx_sandbox ctx = [] \<or> inside (abs_path (fe_cwd env) (tx_sandbox ctx)) p \<or>
      recovered_path env fs (tx_workspace ctx) path = Some p"
    using assms p0 by (auto simp: resolve_file_path_def Let_def split: if_splits option.splits)
  ultimately show ?thesis using is_path_allowed_prefix by blast
qed

text \<open>A task in the sandbox \<open>/projects/calc\<close> of an agent that runs in \<open>/home/u/kyoci\<close>.\<close>

definition demo_file_env :: file_env where
  "demo_file_env = \<lparr>fe_cwd = ''/home/u/kyoci'', fe_home = Some ''/home/u'', fe_allowed = default_allowed (Some ''/home/u''),
     fe_read_dir = (\<lambda>_ _. Inr []), fe_walk = (\<lambda>_ _. []), fe_dir_size = (\<lambda>_. 0)\<rparr>"

definition demo_fs :: file_system where
  "demo_fs = \<lparr>fs_files = Map.empty, fs_dirs = (\<lambda>d. d = ''/home/u/kyoci/projects/calc''), fs_fail = (\<lambda>_. None)\<rparr>"

definition sandboxed :: task_ctx where
  "sandboxed = \<lparr>tx_workspace = ''/home/u/kyoci/tasks/t1/deliverable'', tx_sandbox = ''/projects/calc''\<rparr>"

lemma sandbox_escape:
  "resolve_file_path demo_file_env demo_fs (with_workspace [] sandboxed) ''/projects/calc/main.go'' =
     Inr ''/home/u/kyoci/projects/calc/main.go''"
  "\<not> inside ''/projects/calc'' ''/home/u/kyoci/projects/calc/main.go''"
  by code_simp+

theorem granted_paths_witness:
  "list_ex (\<lambda>d. prefix (components (abs_path (fe_cwd demo_file_env) d))
       (components (abs_path (fe_cwd demo_file_env) ''/home/u/kyoci/projects/calc/main.go'')))
      (allowed_dirs demo_file_env []) \<and>
   recovered_path demo_file_env demo_fs [] ''/projects/calc/main.go'' = Some ''/home/u/kyoci/projects/calc/main.go''"
proof -
  have "tx_workspace (with_workspace [] sandboxed) = []" "tx_sandbox (with_workspace [] sandboxed) = ''/projects/calc''"
    "abs_path (fe_cwd demo_file_env) ''/projects/calc'' = ''/projects/calc''"
    by code_simp+
  with granted_paths [OF sandbox_escape(1)] sandbox_escape(2) show ?thesis by simp
qed

section \<open>Relative paths in a sandbox\<close>

lemma clean_without_dots:
  "''..'' \<notin> set cs \<Longrightarrow> clean_components rooted acc cs = rev acc @ filter (\<lambda>c. c \<noteq> [] \<and> c \<noteq> ''.'') cs"
  by (induction rooted acc cs rule: clean_components.induct) auto

lemma expand_relative:
  assumes "is_abs (tx_workspace ctx)" "path \<noteq> []" "\<not> is_abs path" "\<not> has_prefix path ''~''"
    "''..'' \<notin> set (split_on slash path)"
  shows "\<exists>p rest. expand_path env (tx_workspace ctx) path = Inr p \<and> components p = components (tx_workspace ctx) @ rest"
proof -
  let ?ws = "tx_workspace ctx"
  have ws: "?ws \<noteq> []" using assms(1) by (auto simp: is_abs_def)
  have nt: "path \<noteq> ''~''" "\<not> has_prefix path ''~/''" using assms(4) by (cases path; auto)+
  have j: "is_abs (join_path [?ws, path])"
    "components (join_path [?ws, path]) = components ?ws @ filter (\<lambda>c. c \<noteq> [] \<and> c \<noteq> ''.'') (split_on slash path)"
    using join_path_abs [OF assms(1,2)] clean_without_dots [OF assms(5)] by simp_all
  have "expand_path env ?ws path = Inr (clean_path (join_path [?ws, path]))"
    using assms(2,3,4) ws nt j(1) by (simp add: expand_path_def abs_path_def Let_def)
  with j components_clean_abs [OF j(1)] show ?thesis by auto
qed

text \<open>
  In a task with a workspace and a sandbox that lie apart, which is what the orchestrator sets up for a task that
  names a directory, every relative path is denied: it resolves into the workspace, which is outside the sandbox.
\<close>

lemma sandboxed_relative_paths_denied:
  assumes "is_abs (tx_workspace ctx)" "is_abs (tx_sandbox ctx)"
    "\<not> prefix (components (tx_sandbox ctx)) (components (tx_workspace ctx))"
    "\<not> prefix (components (tx_workspace ctx)) (components (tx_sandbox ctx))"
    "path \<noteq> []" "\<not> is_abs path" "\<not> has_prefix path ''~''" "''..'' \<notin> set (split_on slash path)"
  shows "\<exists>p s. resolve_file_path env fs ctx path = Inl (OutsideSandbox p s)"
proof -
  from expand_relative [OF assms(1,5-8)] obtain p rest where p: "expand_path env (tx_workspace ctx) path = Inr p"
    "components p = components (tx_workspace ctx) @ rest" by blast
  let ?s = "abs_path (fe_cwd env) (tx_sandbox ctx)"
  have "components ?s = components (tx_sandbox ctx)"
    using assms(2) by (simp add: abs_path_def components_clean_abs)
  moreover have "\<not> prefix (components (tx_sandbox ctx)) (components (tx_workspace ctx) @ rest)"
    using assms(3,4) by (meson prefix_append prefix_def prefix_same_cases)
  ultimately have "\<not> inside ?s p" using p(2) inside_prefix [of ?s p] by auto
  moreover have "tx_sandbox ctx \<noteq> []" using assms(2) by (auto simp: is_abs_def)
  ultimately show ?thesis using p(1) by (simp add: resolve_file_path_def Let_def)
qed

lemma sandboxed_relative_paths_denied_witness:
  "\<exists>p s. resolve_file_path demo_file_env demo_fs sandboxed ''src/main.go'' = Inl (OutsideSandbox p s)"
  by (rule sandboxed_relative_paths_denied) code_simp+

section \<open>Chunked reads\<close>

text \<open>The bytes that the \<open>k\<close>-th of a series of reads with the same limit returns, none when it fails.\<close>

definition chunk_bytes :: "string \<Rightarrow> int \<Rightarrow> nat \<Rightarrow> string" where
  "chunk_bytes content limit k =
     (let offset = int k * limit
      in case read_slice content offset (read_stop (int (length content)) offset limit) of None \<Rightarrow> [] | Some c \<Rightarrow> c)"

lemma chunk_bytes_take:
  assumes "limit > 0"
  shows "chunk_bytes content limit k = take (nat limit) (drop (k * nat limit) content)"
proof -
  let ?o = "int k * limit"
  have o: "nat ?o = k * nat limit" "0 \<le> ?o" using assms by (simp_all add: nat_mult_distrib)
  show ?thesis
  proof (cases "?o + limit > int (length content)")
    case True
    then have stop: "read_stop (int (length content)) ?o limit = int (length content)" using assms by (simp add: read_stop_def)
    show ?thesis
    proof (cases "?o \<le> int (length content)")
      case le: True
      with True o stop have "length (drop (k * nat limit) content) \<le> nat limit" by (simp flip: o(1))
      moreover have "nat (int (length content) - ?o) = length (drop (k * nat limit) content)"
        using le o by (simp add: nat_diff_distrib)
      ultimately show ?thesis
        using stop le o by (simp add: chunk_bytes_def Let_def read_slice_def)
    next
      case False
      then have "length content \<le> k * nat limit" using o by linarith
      with False stop show ?thesis by (simp add: chunk_bytes_def Let_def read_slice_def)
    qed
  next
    case False
    then show ?thesis using assms o by (simp add: chunk_bytes_def Let_def read_slice_def read_stop_def)
  qed
qed



text \<open>The call that the trailer of an automatic chunk asks for returns all the rest at once.\<close>

lemma auto_chunk_follow_up:
  assumes "os_read fs p = Inr content" "int (length content) > 2 * default_chunk"
  shows "\<exists>header. read_file fs p default_chunk 0 = Inr (header @ drop 4096 content)"
  using assms by (auto simp: read_file_def Let_def read_stop_def read_slice_def default_chunk_def)

text \<open>A negative offset with a limit is out of the range of the slice.\<close>

lemma negative_offset_panics:
  assumes "os_read fs p = Inr content" "offset < 0" "limit > 0"
  shows "read_file fs p offset limit = Inl (FilePanic ''slice bounds out of range'')"
  using assms by (simp add: read_file_def Let_def read_slice_def)

section \<open>Writing and editing\<close>

lemma write_then_read:
  assumes "write_file fs p params = (fs', Inr msg)" "params ''content'' = Some (GoString content)"
    "int (length content) \<le> 2 * default_chunk"
  shows "read_file fs' p 0 0 = Inr content"
proof -
  from assms(1,2) obtain fs1 where w: "os_write fs1 p content = Inr fs'"
    by (auto simp: write_file_def split: sum.splits os_error.splits)
  then have "os_read fs' p = Inr content"
    by (auto simp: os_write_def os_read_def split: option.splits if_splits)
  with assms(3) show ?thesis by (simp add: read_file_def Let_def default_chunk_def)
qed

lemma str_index_split:
  "str_index s p = Some i \<Longrightarrow> s = take i s @ p @ drop (i + length p) s"
  using str_index_Some [of s p i] by (metis append_take_drop_id drop_drop add.commute)

lemma edit_replaces_first:
  assumes "edit_file fs p params = (fs', Inr msg)" "os_read fs p = Inr content"
    "params ''old_string'' = Some (GoString old)" "params ''new_string'' = Some (GoString new)"
  shows "\<exists>a b. content = a @ old @ b \<and> fs_files fs' p = Some (a @ new @ b)"
proof -
  from assms have c: "contains_str content old"
    by (auto simp: edit_file_def Let_def split: if_splits)
  then obtain i where i: "str_index content old = Some i" by (metis not_None_eq str_index_None)
  with assms c have "os_write fs p (replace_first content old new) = Inr fs'"
    by (auto simp: edit_file_def Let_def split: if_splits sum.splits os_error.splits)
  then have "fs_files fs' p = Some (replace_first content old new)"
    by (auto simp: os_write_def split: option.splits if_splits)
  with str_index_split [OF i] i show ?thesis by (auto simp: replace_first_def)
qed

end
