(* ===== verification/Agent_Defs.thy ===== *)
theory Agent_Defs
  imports Main "HOL-Library.List_Lexorder" "HOL-Library.Char_ord" Prelude Go_Strings
begin

text \<open>
  Agent definitions (\<open>internal/agentdef\<close>): the record of a loaded agent (\<open>def.go\<close>), the loader with its frontmatter
  splitter (\<open>loader.go\<close>), the composed system prompt (\<open>compose.go\<close>) and the match of a task against the triggers
  (\<open>match.go\<close>). YAML (a third-party package), Go's regular expressions over the patterns of the agent files, the
  table of platform commands and the contents of the directory are arguments.
\<close>

record agent_def =
  ad_name :: string
  ad_description :: string
  ad_category :: string
  ad_keywords :: "string list"
  ad_anchors :: "string list"
  ad_regex :: "string list"
  ad_tools :: "string list"
  ad_provider :: string
  ad_model :: string
  ad_max_iterations :: int
  ad_memory_enabled :: bool
  ad_recall_depth :: int
  ad_prompt_skills :: "string list"
  ad_priority :: string
  ad_body :: string
  ad_system_prompt :: string
  ad_source_path :: string

section \<open>The composed prompt\<close>

definition verification_rules :: string where
  "verification_rules =
     ''VERIFICATION RULES:'' @ [CHR 0x0A] @
     ''- When a command fails, READ the error output, fix the root cause, retry. Try at least 2 approaches before reporting failure.'' @
     [CHR 0x0A] @ ''- NEVER say '' @ [CHR 0x22] @ ''please provide more details'' @ [CHR 0x22] @ '' or '' @
     [CHR 0x22] @ ''please share the error'' @ [CHR 0x22] @
     ''. Use your tools to investigate and fix it yourself.'' @ [CHR 0x0A] @ ''- Only say '' @ [CHR 0x22] @
     ''Done'' @ [CHR 0x22] @
     '' after you have VERIFIED the result yourself (curl returns 200, build succeeds, file exists, test passes).''"

definition delegation_block :: string where
  "delegation_block =
     ''DELEGATION:'' @ [CHR 0x0A] @
     ''- If a subtask fits another specialist (Developer, Frontend, QA, SRE, PM) or is open-ended research, call the delegation tool with action='' @
     [CHR 0x22] @ ''spawn'' @ [CHR 0x22] @ '', goal='' @ [CHR 0x22] @ ''<one focused sentence>'' @ [CHR 0x22] @
     ''.'' @ [CHR 0x0A] @ ''- Use action='' @ [CHR 0x22] @ ''wait_all'' @ [CHR 0x22] @
     '' before reporting Done so sub-agents finish first.'' @ [CHR 0x0A] @
     ''- Max 3 concurrent sub-agents. Each gets a 180s budget '' @ [CHR 0xE2, CHR 0x80, CHR 0x94] @
     '' give it a single, complete goal.''"

definition closing_directive :: string where
  "closing_directive =
     ''Keep responses SHORT. Execute. Verify. Report.''"

definition trim_left_set :: "char list \<Rightarrow> string \<Rightarrow> string" where
  "trim_left_set cs s = dropWhile (\<lambda>c. c \<in> set cs) s"

definition trim_right_set :: "char list \<Rightarrow> string \<Rightarrow> string" where
  "trim_right_set cs s = rev (dropWhile (\<lambda>c. c \<in> set cs) (rev s))"

abbreviation nl :: char where
  "nl \<equiv> CHR 0x0A"

definition compose_prompt :: "string \<Rightarrow> string" where
  "compose_prompt body =
     trim_right_set [nl] body @ [nl, nl] @ verification_rules @ [nl, nl] @ delegation_block @ [nl, nl] @
     closing_directive"

definition substitute_platform_tokens :: "string \<Rightarrow> string \<Rightarrow> string" where
  "substitute_platform_tokens platform body = replace_all body ''{{platform}}'' platform"

section \<open>The loader\<close>

text \<open>\<open>findDelimiterLine\<close>: the rest of the text from position \<open>start\<close> on.\<close>

function find_delimiter_from :: "string \<Rightarrow> nat \<Rightarrow> string \<Rightarrow> nat option" where
  "find_delimiter_from delim start s =
     (let line = takeWhile (\<lambda>c. c \<noteq> nl) s
      in if trim_right_set [CHR 0x0D, CHR 0x09, CHR 0x20] line = delim then Some start
         else if nl \<in> set s then find_delimiter_from delim (start + length line + 1) (drop (length line + 1) s)
         else None)"
  by auto
termination
proof (relation "measure (\<lambda>(delim, start, s). length s)")
  show "wf (measure (\<lambda>(delim, start, s). length s))" by simp
next
  fix delim :: string and start :: nat and s line :: string
  assume "nl \<in> set s"
  then have "0 < length s" by (cases s) auto
  then show "((delim, start + length line + 1, drop (length line + 1) s), delim, start, s)
      \<in> measure (\<lambda>(delim, start, s). length s)" by simp
qed

declare find_delimiter_from.simps [simp del]

definition find_delimiter_line :: "string \<Rightarrow> string \<Rightarrow> nat option" where
  "find_delimiter_line s delim = find_delimiter_from delim 0 s"

text \<open>The YAML between the delimiters and the text after them; \<open>None\<close> for a missing delimiter.\<close>

definition split_frontmatter :: "string \<Rightarrow> (string \<times> string) option" where
  "split_frontmatter content =
     (let trimmed = trim_left_set [CHR 0x0D, nl] content
      in if \<not> has_prefix trimmed ''---'' then None
         else
           let after_open = trim_left_set [CHR 0x0D, nl] (drop 3 trimmed)
           in case find_delimiter_line after_open ''---'' of
                None \<Rightarrow> None
              | Some i \<Rightarrow>
                  Some (take i after_open,
                        case str_index (drop i after_open) [nl] of
                          None \<Rightarrow> []
                        | Some j \<Rightarrow> drop (j + 1) (drop i after_open)))"

text \<open>One file: its path and, when it can be read, its text.\<close>

definition parse_agent_file ::
  "(string \<Rightarrow> agent_def option) \<Rightarrow> string \<Rightarrow> string \<Rightarrow> string option \<Rightarrow> agent_def option" where
  "parse_agent_file yaml platform path content =
     (case content of
        None \<Rightarrow> None
      | Some text \<Rightarrow>
          (case split_frontmatter text of
             None \<Rightarrow> None
           | Some (front, rest) \<Rightarrow>
               (case yaml front of
                  None \<Rightarrow> None
                | Some def \<Rightarrow>
                    if trim_space (ad_name def) = [] \<or> trim_space rest = [] then None
                    else Some (def\<lparr>ad_body := trim_space rest,
                        ad_system_prompt := compose_prompt (substitute_platform_tokens platform (trim_space rest)),
                        ad_source_path := path\<rparr>))))"

fun load_files ::
  "(string \<Rightarrow> agent_def option) \<Rightarrow> string \<Rightarrow> (string \<Rightarrow> string option) \<Rightarrow> string list \<Rightarrow> string list \<Rightarrow> agent_def list" where
  "load_files yaml platform read seen [] = []"
| "load_files yaml platform read seen (p # ps) =
     (case parse_agent_file yaml platform p (read p) of
        None \<Rightarrow> load_files yaml platform read seen ps
      | Some def \<Rightarrow>
          if ad_name def \<in> set seen then load_files yaml platform read seen ps
          else def # load_files yaml platform read (ad_name def # seen) ps)"

text \<open>\<open>LoadAgents\<close> over the files that the walk meets: Markdown files in the order of their paths.\<close>

definition load_agents ::
  "(string \<Rightarrow> agent_def option) \<Rightarrow> string \<Rightarrow> (string \<Rightarrow> string option) \<Rightarrow> string list \<Rightarrow> agent_def list" where
  "load_agents yaml platform read walked =
     load_files yaml platform read [] (sort (filter (\<lambda>p. has_suffix (to_lower p) ''.md'') walked))"

definition find_by_name :: "agent_def list \<Rightarrow> string \<Rightarrow> agent_def option" where
  "find_by_name defs name = find (\<lambda>d. ad_name d = name) defs"

section \<open>Negated triggers\<close>

definition negation_words :: "string list" where
  "negation_words =
     [''no'', ''not'', ''without'', ''avoid'', ''skip'', ''never'', ''non'', ''n'' @ [CHR 0x27] @ ''t'',
      ''don'' @ [CHR 0x27] @ ''t'', ''dont'', ''cannot'', ''can'' @ [CHR 0x27] @ ''t'',
      ''won'' @ [CHR 0x27] @ ''t'', ''shouldn'' @ [CHR 0x27] @ ''t'']"

definition filler_words :: "string list" where
  "filler_words =
     [''a'', ''an'', ''the'', ''this'', ''that'', ''plain'', ''raw'', ''vanilla'', ''any'', ''just'',
      ''only'', ''more'', ''use'', ''using'', ''used'', ''write'', ''writing'', ''written'', ''build'',
      ''building'', ''built'', ''add'', ''adding'', ''added'', ''include'', ''including'', ''included'',
      ''generate'', ''generating'', ''generated'', ''produce'', ''producing'', ''produced'', ''create'',
      ''creating'', ''created'', ''make'', ''making'']"

text \<open>The class of separators in the regular expression: white space of Go's \<open>regexp\<close>, and the dash.\<close>

definition is_sep :: "char \<Rightarrow> bool" where
  "is_sep c \<longleftrightarrow> c \<in> {CHR 0x09, CHR 0x0A, CHR 0x0C, CHR 0x0D, CHR 0x20, CHR ''-''}"

text \<open>What may follow the negation: filler words, each behind separators, then separators up to the end.\<close>

function negation_tail :: "string \<Rightarrow> bool" where
  "negation_tail s =
     (let t = dropWhile is_sep s
      in if t = [] then True
         else if length t < length s
         then list_ex (\<lambda>f. has_prefix t f \<and> negation_tail (drop (length f) t)) filler_words
         else False)"
  by auto
termination
  by (relation "measure length") auto

declare negation_tail.simps [simp del]

definition negation_at :: "string \<Rightarrow> bool" where
  "negation_at s \<longleftrightarrow> list_ex (\<lambda>w. has_prefix s w \<and> negation_tail (drop (length w) s)) negation_words"

definition is_alnum :: "char \<Rightarrow> bool" where
  "is_alnum c \<longleftrightarrow> is_lower c \<or> is_digit c"

fun negation_after :: "bool \<Rightarrow> string \<Rightarrow> bool" where
  "negation_after boundary [] \<longleftrightarrow> False"
| "negation_after boundary (c # cs) \<longleftrightarrow> boundary \<and> negation_at (c # cs) \<or> negation_after (\<not> is_alnum c) cs"

text \<open>The expression sees at most the 32 bytes before the trigger, and its \<open>^\<close> is the beginning of that window.\<close>

definition is_negated :: "string \<Rightarrow> nat \<Rightarrow> bool" where
  "is_negated task idx = negation_after True (take (idx - (idx - 32)) (drop (idx - 32) task))"

function non_negated_from :: "string \<Rightarrow> string \<Rightarrow> nat \<Rightarrow> bool" where
  "non_negated_from hay needle pos =
     (if needle = [] then False
      else case str_index (drop pos hay) needle of
        None \<Rightarrow> False
      | Some i \<Rightarrow>
          if \<not> is_negated hay (pos + i) then True
          else non_negated_from hay needle (pos + i + length needle))"
  by auto
termination
proof (relation "measure (\<lambda>(hay, needle, pos). Suc (length hay) - pos)")
  show "wf (measure (\<lambda>(hay, needle, pos). Suc (length hay) - pos))" by simp
next
  fix hay needle :: string and pos i :: nat
  assume "needle \<noteq> []" "str_index (drop pos hay) needle = Some i"
  with str_index_Some [OF this(2)] have "pos < length hay" by (cases needle) auto
  with \<open>needle \<noteq> []\<close> show "((hay, needle, pos + i + length needle), hay, needle, pos)
      \<in> measure (\<lambda>(hay, needle, pos). Suc (length hay) - pos)" by (cases needle) auto
qed

declare non_negated_from.simps [simp del]

definition contains_non_negated :: "string \<Rightarrow> string \<Rightarrow> bool" where
  "contains_non_negated hay needle = (if needle = [] then False else non_negated_from hay (to_lower needle) 0)"

section \<open>Scores and the best match\<close>

text \<open>\<open>rx\<close> compiles a pattern, \<open>None\<close> when it is malformed.\<close>

definition match_score :: "(string \<Rightarrow> (string \<Rightarrow> bool) option) \<Rightarrow> agent_def \<Rightarrow> string \<Rightarrow> int" where
  "match_score rx def task =
     (if ad_keywords def = [] \<and> ad_anchors def = [] \<and> ad_regex def = [] then 0
      else
        int (length (filter (\<lambda>k. k \<noteq> [] \<and> contains_non_negated (to_lower task) k) (ad_keywords def))) +
        3 * int (length (filter (\<lambda>a. a \<noteq> [] \<and> contains_non_negated (to_lower task) a) (ad_anchors def))) +
        int (length (filter (\<lambda>p. p \<noteq> [] \<and> (case rx p of None \<Rightarrow> False | Some m \<Rightarrow> m task)) (ad_regex def))))"

definition priority_rank :: "string \<Rightarrow> int" where
  "priority_rank p =
     (if to_lower (trim_space p) = ''high'' then 2 else if to_lower (trim_space p) = ''low'' then 0 else 1)"

definition min_specialist_score :: int where
  "min_specialist_score = 2"

record candidate =
  cd_def :: agent_def
  cd_score :: int
  cd_rank :: int
  cd_order :: nat

definition candidates :: "(string \<Rightarrow> (string \<Rightarrow> bool) option) \<Rightarrow> string \<Rightarrow> agent_def list \<Rightarrow> candidate list" where
  "candidates rx task defs =
     map (\<lambda>(i, d). \<lparr>cd_def = d, cd_score = match_score rx d task, cd_rank = priority_rank (ad_priority d), cd_order = i\<rparr>)
       (zip [0..<length defs] defs)"

text \<open>Whether a candidate replaces the best one so far.\<close>

definition replaces :: "candidate \<Rightarrow> candidate \<Rightarrow> bool" where
  "replaces c cur =
     (if cd_score c \<noteq> cd_score cur then cd_score c > cd_score cur
      else if cd_rank c \<noteq> cd_rank cur then cd_rank c > cd_rank cur
      else cd_order c < cd_order cur)"

fun best_specialist :: "candidate option \<Rightarrow> candidate list \<Rightarrow> candidate option" where
  "best_specialist best [] = best"
| "best_specialist best (c # cs) =
     (if cd_score c < min_specialist_score then best_specialist best cs
      else case best of
        None \<Rightarrow> best_specialist (Some c) cs
      | Some cur \<Rightarrow> best_specialist (Some (if replaces c cur then c else cur)) cs)"

definition best_match :: "(string \<Rightarrow> (string \<Rightarrow> bool) option) \<Rightarrow> string \<Rightarrow> agent_def list \<Rightarrow> string" where
  "best_match rx task defs =
     (if defs = [] then []
      else case best_specialist None (candidates rx task defs) of
        Some c \<Rightarrow> ad_name (cd_def c)
      | None \<Rightarrow> (if list_ex (\<lambda>d. ad_name d = ''generalist'') defs then ''generalist'' else ad_name (hd defs)))"

section \<open>Frontmatter\<close>

definition lines_text :: "string list \<Rightarrow> string" where
  "lines_text ls = concat (map (\<lambda>l. l @ [nl]) ls)"

lemma takeWhile_line: "nl \<notin> set l \<Longrightarrow> takeWhile (\<lambda>c. c \<noteq> nl) (l @ nl # s) = l"
  by simp

lemma find_delimiter_from_lines:
  assumes "list_all (\<lambda>l. nl \<notin> set l \<and> trim_right_set [CHR 0x0D, CHR 0x09, CHR 0x20] l \<noteq> ''---'') ls"
  shows "find_delimiter_from ''---'' start (lines_text ls @ ''---'' @ nl # body) = Some (start + length (lines_text ls))"
  using assms
proof (induction ls arbitrary: start)
  case Nil
  have "trim_right_set [CHR 0x0D, CHR 0x09, CHR 0x20] ''---'' = ''---''" by (simp add: trim_right_set_def)
  then show ?case
    using takeWhile_line [of "''---''" body]
    by (subst find_delimiter_from.simps) (simp add: lines_text_def Let_def)
next
  case (Cons l ls)
  let ?s = "lines_text ls @ ''---'' @ nl # body"
  have s: "lines_text (l # ls) @ ''---'' @ nl # body = l @ nl # ?s" by (simp add: lines_text_def)
  from Cons.prems have "takeWhile (\<lambda>c. c \<noteq> nl) (l @ nl # ?s) = l" by (intro takeWhile_line) simp
  with Cons.prems have "find_delimiter_from ''---'' start (l @ nl # ?s) =
      find_delimiter_from ''---'' (start + length l + 1) ?s"
    by (subst find_delimiter_from.simps) (simp add: Let_def)
  with Cons.IH [of "start + length l + 1"] Cons.prems show ?case
    unfolding s by (simp add: lines_text_def)
qed

text \<open>
  Frontmatter written in the documented form, between two lines of three dashes, is split off again, and the
  body after it is kept to the byte, when no line of it is itself the delimiter and it does not begin with a line
  break.
\<close>

lemma frontmatter_roundtrip:
  assumes "list_all (\<lambda>l. nl \<notin> set l \<and> trim_right_set [CHR 0x0D, CHR 0x09, CHR 0x20] l \<noteq> ''---'') ls"
    "case ls of [] \<Rightarrow> True | l # _ \<Rightarrow> l \<noteq> [] \<and> hd l \<noteq> CHR 0x0D"
  shows "split_frontmatter (''---'' @ nl # lines_text ls @ ''---'' @ nl # body) = Some (lines_text ls, body)"
proof -
  let ?open = "lines_text ls @ ''---'' @ nl # body"
  have "trim_left_set [CHR 0x0D, nl] ?open = ?open"
  proof (cases ls)
    case Nil
    then show ?thesis by (simp add: trim_left_set_def lines_text_def)
  next
    case (Cons l ls')
    with assms obtain c cs where "l = c # cs" "c \<noteq> CHR 0x0D" "c \<noteq> nl" by (cases l) auto
    with Cons show ?thesis by (simp add: trim_left_set_def lines_text_def)
  qed
  moreover have "trim_left_set [CHR 0x0D, nl] (''---'' @ nl # ?open) = ''---'' @ nl # ?open"
    "trim_left_set [CHR 0x0D, nl] (nl # ?open) = trim_left_set [CHR 0x0D, nl] ?open"
    by (simp_all add: trim_left_set_def)
  moreover have "find_delimiter_line ?open ''---'' = Some (length (lines_text ls))"
    using find_delimiter_from_lines [OF assms(1), of 0] by (simp add: find_delimiter_line_def)
  moreover have "str_index (''---'' @ nl # body) [nl] = Some 3" by simp
  ultimately show ?thesis by (simp add: split_frontmatter_def Let_def)
qed

lemma frontmatter_roundtrip_witness:
  "split_frontmatter (''---'' @ nl # lines_text [''name: qa'', ''priority: high''] @ ''---'' @ nl # ''You test.'') =
     Some (''name: qa'' @ nl # ''priority: high'' @ [nl], ''You test.'')"
  using frontmatter_roundtrip [of "[''name: qa'', ''priority: high'']" "''You test.''"]
  by (simp add: trim_right_set_def lines_text_def)

section \<open>Loaded agents\<close>

lemma parse_agent_file_fields:
  "parse_agent_file yaml platform p c = Some d \<Longrightarrow>
     trim_space (ad_name d) \<noteq> [] \<and> ad_body d \<noteq> [] \<and> ad_source_path d = p \<and>
     ad_system_prompt d = compose_prompt (substitute_platform_tokens platform (ad_body d))"
  by (auto simp: parse_agent_file_def split: option.splits prod.splits if_splits)

lemma load_files_names:
  "distinct (map ad_name (load_files yaml platform read seen ps)) \<and>
   set (map ad_name (load_files yaml platform read seen ps)) \<inter> set seen = {}"
proof (induction ps arbitrary: seen)
  case (Cons p ps)
  show ?case
  proof (cases "parse_agent_file yaml platform p (read p)")
    case (Some d)
    with Cons [of seen] Cons [of "ad_name d # seen"] show ?thesis by auto
  qed (use Cons in simp)
qed simp

lemma load_files_from:
  "d \<in> set (load_files yaml platform read seen ps) \<Longrightarrow>
     \<exists>p\<in>set ps. parse_agent_file yaml platform p (read p) = Some d"
  by (induction ps arbitrary: seen) (auto split: option.splits if_splits)

lemma load_files_paths: "subseq (map ad_source_path (load_files yaml platform read seen ps)) ps"
proof (induction ps arbitrary: seen)
  case (Cons p ps)
  show ?case
  proof (cases "parse_agent_file yaml platform p (read p)")
    case (Some d)
    from parse_agent_file_fields [OF Some] Some Cons [of seen] Cons [of "ad_name d # seen"]
    show ?thesis by auto
  qed (use Cons in auto)
qed simp

lemma sorted_subseq: "subseq ys xs \<Longrightarrow> sorted xs \<Longrightarrow> sorted (ys :: string list)"
proof (induction rule: list_emb.induct)
  case (list_emb_Cons2 x y xs ys)
  then show ?case by (auto dest: list_emb_set)
qed simp_all

text \<open>
  Whatever the directory holds, the loaded agents have distinct names that are not blank, a body, and the prompt
  composed from it, and they are in the order of their paths.
\<close>

lemma loaded_agents_wellformed:
  "distinct (map ad_name (load_agents yaml platform read walked)) \<and>
   list_all (\<lambda>d. trim_space (ad_name d) \<noteq> [] \<and> ad_body d \<noteq> [] \<and>
      ad_system_prompt d = compose_prompt (substitute_platform_tokens platform (ad_body d)))
     (load_agents yaml platform read walked) \<and>
   sorted (map ad_source_path (load_agents yaml platform read walked))"
proof -
  have "sorted (map ad_source_path (load_agents yaml platform read walked))"
    unfolding load_agents_def by (rule sorted_subseq [OF load_files_paths sorted_sort])
  moreover have "list_all (\<lambda>d. trim_space (ad_name d) \<noteq> [] \<and> ad_body d \<noteq> [] \<and>
      ad_system_prompt d = compose_prompt (substitute_platform_tokens platform (ad_body d)))
     (load_agents yaml platform read walked)"
    unfolding list_all_iff load_agents_def
    by (meson load_files_from parse_agent_file_fields)
  ultimately show ?thesis
    using load_files_names unfolding load_agents_def by blast
qed

section \<open>The winner\<close>

definition outranks :: "candidate \<Rightarrow> candidate \<Rightarrow> bool" where
  "outranks c d \<longleftrightarrow> cd_score c > cd_score d \<or> cd_score c = cd_score d \<and> cd_rank c > cd_rank d"

interpretation agent_scan: best_scan outranks
  by unfold_locales (auto simp: outranks_def)

definition cleared :: "candidate list \<Rightarrow> candidate list" where
  "cleared cs = filter (\<lambda>c. cd_score c \<ge> min_specialist_score) cs"

lemma best_specialist_pick:
  "sorted_wrt (<) (cd_order cur # map cd_order cs) \<Longrightarrow>
     best_specialist (Some cur) cs = Some (agent_scan.pick cur (cleared cs))"
proof (induction cs arbitrary: cur)
  case (Cons c cs)
  have "replaces c cur = outranks c cur"
    using Cons.prems by (auto simp: replaces_def outranks_def)
  moreover have "sorted_wrt (<) (cd_order (if outranks c cur then c else cur) # map cd_order cs)"
    "sorted_wrt (<) (cd_order cur # map cd_order cs)"
    using Cons.prems by auto
  ultimately show ?case
    using Cons.IH [of "if outranks c cur then c else cur"] Cons.IH [of cur]
    by (auto simp: cleared_def)
qed (simp add: cleared_def)

lemma best_specialist_first:
  "sorted_wrt (<) (map cd_order cs) \<Longrightarrow>
     best_specialist None cs = (case cleared cs of [] \<Rightarrow> None | c # cs' \<Rightarrow> Some (agent_scan.pick c cs'))"
proof (induction cs)
  case (Cons c cs)
  show ?case
  proof (cases "cd_score c < min_specialist_score")
    case True
    with Cons show ?thesis by (simp add: cleared_def)
  next
    case False
    with best_specialist_pick [of c cs] Cons.prems show ?thesis by (simp add: cleared_def)
  qed
qed (simp add: cleared_def)

lemma candidates_order: "map cd_order (candidates rx task defs) = [0..<length defs]"
  by (simp add: candidates_def comp_def case_prod_beta del: upt_Suc)

lemma best_of_candidates:
  "best_specialist None (candidates rx task defs) =
     (case cleared (candidates rx task defs) of [] \<Rightarrow> None | c # cs \<Rightarrow> Some (agent_scan.pick c cs))"
proof (rule best_specialist_first)
  show "sorted_wrt (<) (map cd_order (candidates rx task defs))"
    unfolding candidates_order by (rule sorted_wrt_upt)
qed

text \<open>The agents that clear the threshold, as the match sees them.\<close>

definition specialists :: "(string \<Rightarrow> (string \<Rightarrow> bool) option) \<Rightarrow> string \<Rightarrow> agent_def list \<Rightarrow> agent_def list" where
  "specialists rx task defs = filter (\<lambda>d. match_score rx d task \<ge> min_specialist_score) defs"

definition beats :: "(string \<Rightarrow> (string \<Rightarrow> bool) option) \<Rightarrow> string \<Rightarrow> agent_def \<Rightarrow> agent_def \<Rightarrow> bool" where
  "beats rx task d e \<longleftrightarrow> match_score rx d task > match_score rx e task \<or>
     match_score rx d task = match_score rx e task \<and> priority_rank (ad_priority d) > priority_rank (ad_priority e)"

lemma cleared_specialists: "map cd_def (cleared (candidates rx task defs)) = specialists rx task defs"
proof -
  have "map cd_def (filter (\<lambda>c. cd_score c \<ge> min_specialist_score)
      (map (\<lambda>(i, d). \<lparr>cd_def = d, cd_score = match_score rx d task, cd_rank = priority_rank (ad_priority d),
         cd_order = i\<rparr>) (zip ns defs))) =
      filter (\<lambda>d. match_score rx d task \<ge> min_specialist_score) defs" if "length ns = length defs" for ns
    using that by (induction ns defs rule: list_induct2) auto
  then show ?thesis by (simp add: cleared_def candidates_def specialists_def)
qed

lemma cleared_outranks:
  assumes "c \<in> set (cleared (candidates rx task defs))" "e \<in> set (cleared (candidates rx task defs))"
  shows "outranks c e = beats rx task (cd_def c) (cd_def e)"
  using assms by (auto simp: cleared_def candidates_def outranks_def beats_def)

text \<open>
  The agent that is chosen is the first one of the best among those that clear the threshold, by score and then by
  priority: it beats every specialist before it and is beaten by none after it. Without a specialist it is the agent
  named \<open>generalist\<close>, and without that the first agent that was loaded.
\<close>

lemma best_match_winner:
  "(\<exists>us d vs. specialists rx task defs = us @ d # vs \<and> best_match rx task defs = ad_name d \<and>
      list_all (beats rx task d) us \<and> list_all (\<lambda>e. \<not> beats rx task e d) vs) \<or>
   specialists rx task defs = [] \<and>
   best_match rx task defs =
     (if ''generalist'' \<in> set (map ad_name defs) then ''generalist''
      else case defs of [] \<Rightarrow> [] | d # _ \<Rightarrow> ad_name d)"
proof (cases "cleared (candidates rx task defs)")
  case Nil
  with best_of_candidates [of rx task defs] cleared_specialists [of rx task defs]
  moreover have "list_ex (\<lambda>d. ad_name d = n) defs \<longleftrightarrow> n \<in> set (map ad_name defs)" for n
    by (auto simp: list_ex_iff)
  ultimately show ?thesis by (cases defs) (simp_all add: best_match_def)
next
  case (Cons c cs)
  let ?w = "agent_scan.pick c cs"
  from agent_scan.pick_first [of c cs] obtain us vs where
    uv: "c # cs = us @ ?w # vs" "\<forall>u\<in>set us. outranks ?w u" by blast
  let ?cs = "set (cleared (candidates rx task defs))"
  have "?cs = set (us @ ?w # vs)" using Cons uv(1) by simp
  then have all: "?w \<in> ?cs" "set us \<subseteq> ?cs" "set vs \<subseteq> ?cs" by auto
  have "best_match rx task defs = ad_name (cd_def ?w)"
    using best_of_candidates [of rx task defs] Cons
    by (auto simp: best_match_def candidates_def cleared_def)
  moreover have "specialists rx task defs = map cd_def us @ cd_def ?w # map cd_def vs"
    using cleared_specialists [of rx task defs] Cons uv(1) by simp
  moreover have "list_all (beats rx task (cd_def ?w)) (map cd_def us)"
    using uv(2) all cleared_outranks [OF all(1)] by (auto simp: list_all_iff)
  moreover have "list_all (\<lambda>e. \<not> beats rx task e (cd_def ?w)) (map cd_def vs)"
    using all cleared_outranks [OF _ all(1)] agent_scan.pick_maximal [of _ c cs] Cons by (auto simp: list_all_iff)
  ultimately show ?thesis by blast
qed

text \<open>
  The window of the negation: its left end counts as a beginning of a word, so the end of \<open>piano\<close>, 32 bytes before the
  trigger, negates it.
\<close>

lemma negation_window_cut:
  "is_negated ''a piano use plain raw vanilla any an html page'' 37 \<and>
   contains_non_negated ''a piano use plain raw vanilla any html page'' ''html'' \<and>
   \<not> contains_non_negated ''a piano use plain raw vanilla any an html page'' ''html''"
  by code_simp

text \<open>With agents loaded, the winner is one of them.\<close>

lemma best_specialist_in: "best_specialist best cs = Some c \<Longrightarrow> c \<in> set cs \<or> best = Some c"
  by (induction best cs rule: best_specialist.induct) (auto split: if_splits option.splits)

lemma best_match_loaded: "defs \<noteq> [] \<Longrightarrow> best_match rx task defs \<in> set (map ad_name defs)"
  by (auto simp: best_match_def candidates_def list_ex_iff split: option.splits
      dest!: best_specialist_in set_zip_rightD intro: image_eqI [OF sym])

end
