(* ===== verification/Task_Router.thy ===== *)
theory Task_Router
  imports "HOL-Library.Word" Agent_Defs
begin

unbundle bit_operations_syntax

text \<open>
  Routing a task to an agent (\<open>internal/orchestrator/classifier.go\<close>, \<open>internal/orchestrator/autoresolve.go\<close>): the
  classifier over the loaded agents and the resolver with its bounded cache by task hash. The key that Go's map
  walk meets first, and is evicted, is an argument. Regular expressions are those of \<open>Agent_Defs\<close>.
\<close>

section \<open>Classifier\<close>

definition role_generalist :: string where
  "role_generalist = ''generalist''"

definition role_custom :: string where
  "role_custom = ''custom''"

definition builtin_roles :: "string list" where
  "builtin_roles = [''developer'', ''sre'', ''qa'', ''pm'', ''frontend'', role_generalist, role_custom]"

definition parse_role_type :: "string \<Rightarrow> string" where
  "parse_role_type name =
     (if name \<in> set builtin_roles then name
      else if to_lower (trim_space name) \<in> set builtin_roles then to_lower (trim_space name)
      else role_custom)"

definition classify_with_agents :: "(string \<Rightarrow> (string \<Rightarrow> bool) option) \<Rightarrow> string \<Rightarrow> agent_def list \<Rightarrow> string" where
  "classify_with_agents rx task defs =
     (let name = best_match rx task defs in if name = [] then role_generalist else name)"

definition classify_role :: "(string \<Rightarrow> (string \<Rightarrow> bool) option) \<Rightarrow> agent_def list \<Rightarrow> string \<Rightarrow> string" where
  "classify_role rx defs task = (if defs = [] then role_generalist else classify_with_agents rx task defs)"

section \<open>Cache and hash\<close>

text \<open>The entries of the map, without repeated keys.\<close>

record route_cache =
  rc_entries :: "(64 word \<times> string) list"
  rc_max :: int

definition new_route_cache :: "int \<Rightarrow> route_cache" where
  "new_route_cache n = \<lparr>rc_entries = [], rc_max = (if n \<le> 0 then 1024 else n)\<rparr>"

definition cache_get :: "route_cache \<Rightarrow> 64 word \<Rightarrow> string option" where
  "cache_get c h = map_of (rc_entries c) h"

definition cache_delete :: "64 word \<Rightarrow> route_cache \<Rightarrow> route_cache" where
  "cache_delete h c = c\<lparr>rc_entries := filter (\<lambda>(k, _). k \<noteq> h) (rc_entries c)\<rparr>"

definition cache_set :: "64 word \<Rightarrow> string \<Rightarrow> route_cache \<Rightarrow> route_cache" where
  "cache_set h r c = c\<lparr>rc_entries := (h, r) # filter (\<lambda>(k, _). k \<noteq> h) (rc_entries c)\<rparr>"

text \<open>\<open>put\<close>: \<open>first_key\<close> is the key that the walk over the map meets first.\<close>

definition cache_put :: "(route_cache \<Rightarrow> 64 word) \<Rightarrow> 64 word \<Rightarrow> string \<Rightarrow> route_cache \<Rightarrow> route_cache" where
  "cache_put first_key h r c =
     (if cache_get c h \<noteq> None then cache_set h r c
      else if int (length (rc_entries c)) \<ge> rc_max c then cache_set h r (cache_delete (first_key c) c)
      else cache_set h r c)"

definition normalize_task :: "string \<Rightarrow> string" where
  "normalize_task task = join '' '' (str_fields (to_lower task))"

definition fnv_offset :: "64 word" where
  "fnv_offset = 14695981039346656037"

definition fnv_prime :: "64 word" where
  "fnv_prime = 1099511628211"

definition hash_task :: "string \<Rightarrow> 64 word" where
  "hash_task task = foldl (\<lambda>h c. (h XOR of_nat (byte c)) * fnv_prime) fnv_offset (normalize_task task)"

section \<open>Resolver\<close>

record resolver =
  rs_defs :: "agent_def list"
  rs_cache_enabled :: bool
  rs_cache :: "route_cache option"

definition resolve_agent ::
  "(string \<Rightarrow> (string \<Rightarrow> bool) option) \<Rightarrow> (route_cache \<Rightarrow> 64 word) \<Rightarrow> string \<Rightarrow> resolver \<Rightarrow> resolver \<times> string" where
  "resolve_agent rx first_key task rs =
     (let nt = normalize_task task
      in case (if rs_cache_enabled rs then rs_cache rs else None) of
           None \<Rightarrow> (rs, classify_role rx (rs_defs rs) nt)
         | Some c \<Rightarrow>
             let h = hash_task nt
             in case cache_get c h of
                  Some r \<Rightarrow> (rs, r)
                | None \<Rightarrow>
                    let r = classify_role rx (rs_defs rs) nt
                    in (rs\<lparr>rs_cache := Some (cache_put first_key h r c)\<rparr>, r))"

text \<open>The line of provenance that is logged for a decision that was scored.\<close>

definition top_scoring_def :: "(string \<Rightarrow> (string \<Rightarrow> bool) option) \<Rightarrow> agent_def list \<Rightarrow> string \<Rightarrow> string \<times> int" where
  "top_scoring_def rx defs task =
     (let name = best_match rx task defs
      in (name, case find_by_name defs name of None \<Rightarrow> 0 | Some d \<Rightarrow> match_score rx d task))"

section \<open>Normalization\<close>

lemma normalize_task_idem: "normalize_task (normalize_task t) = normalize_task t"
proof -
  have "str_fields (join '' '' (str_fields (to_lower t))) = str_fields (to_lower t)"
    by (rule fields_join) (use fields_words in blast)
  moreover have "to_lower (normalize_task t) = normalize_task t"
    unfolding normalize_task_def to_lower_join to_lower_fields [symmetric] by (simp add: to_lower_idem)
  ultimately show ?thesis by (simp add: normalize_task_def)
qed

lemma hash_task_normalized: "hash_task (normalize_task t) = hash_task t"
  by (simp add: hash_task_def normalize_task_idem)

section \<open>The cache is transparent\<close>

lemma map_of_filter_key: "map_of (filter (\<lambda>(k, _). k \<noteq> h) es) k = (if k = h then None else map_of es k)"
  by (induction es) auto

interpretation route_kv: kv_registry cache_get cache_set cache_delete
  by unfold_locales (auto simp: cache_get_def cache_set_def cache_delete_def map_of_filter_key)

text \<open>Every entry is the classification of a task that was resolved before.\<close>

definition entries_from :: "(string \<Rightarrow> (string \<Rightarrow> bool) option) \<Rightarrow> agent_def list \<Rightarrow> string set \<Rightarrow> route_cache \<Rightarrow> bool" where
  "entries_from rx defs seen c \<longleftrightarrow>
     (\<forall>h r. cache_get c h = Some r \<longrightarrow> (\<exists>t\<in>seen. h = hash_task t \<and> r = classify_role rx defs (normalize_task t)))"

lemma entries_from_mono: "entries_from rx defs seen c \<Longrightarrow> seen \<subseteq> seen' \<Longrightarrow> entries_from rx defs seen' c"
  by (meson entries_from_def subsetD)

lemma entries_from_put:
  assumes "entries_from rx defs seen c" "t \<in> seen"
  shows "entries_from rx defs seen (cache_put fk (hash_task t) (classify_role rx defs (normalize_task t)) c)"
  using assms by (auto simp: entries_from_def cache_put_def route_kv.look_ins route_kv.look_del split: if_splits)

text \<open>The walk over a map that is not empty meets a key of the map.\<close>

definition picks_key :: "(route_cache \<Rightarrow> 64 word) \<Rightarrow> bool" where
  "picks_key fk \<longleftrightarrow> (\<forall>c. rc_entries c \<noteq> [] \<longrightarrow> fk c \<in> fst ` set (rc_entries c))"

definition cache_bounded :: "route_cache \<Rightarrow> bool" where
  "cache_bounded c \<longleftrightarrow> 1 \<le> rc_max c \<and> int (length (rc_entries c)) \<le> rc_max c"

lemma length_filter_key: "h \<in> fst ` set es \<Longrightarrow> length (filter (\<lambda>(k, _). k \<noteq> h) es) < length es"
  by (auto intro: length_filter_less)

lemma cache_put_bounded:
  assumes "picks_key fk" "cache_bounded c"
  shows "cache_bounded (cache_put fk h r c)"
proof -
  let ?f = "\<lambda>k es. filter (\<lambda>(k', _). k' \<noteq> k) es" and ?es = "rc_entries c"
  show ?thesis
  proof (cases "cache_get c h = None")
    case False
    then have "h \<in> fst ` set ?es" by (metis cache_get_def map_of_eq_None_iff)
    from length_filter_key [OF this] assms(2) False show ?thesis
      by (auto simp: cache_put_def cache_bounded_def cache_set_def)
  next
    case None: True
    show ?thesis
    proof (cases "int (length ?es) \<ge> rc_max c")
      case True
      with assms(2) have "?es \<noteq> []" by (auto simp: cache_bounded_def)
      with assms(1) have "fk c \<in> fst ` set ?es" by (simp add: picks_key_def)
      from length_filter_key [OF this] have "length (?f (fk c) ?es) < length ?es" .
      moreover have "length (?f h (?f (fk c) ?es)) \<le> length (?f (fk c) ?es)" by (rule length_filter_le)
      ultimately show ?thesis
        using None True assms(2)
        by (simp add: cache_put_def cache_bounded_def cache_set_def cache_delete_def)
    next
      case False
      have "1 + int (length (?f h ?es)) \<le> rc_max c"
        using False length_filter_le [of "\<lambda>(k', _). k' \<noteq> h" ?es] by linarith
      with None False assms(2) show ?thesis
        by (simp add: cache_put_def cache_bounded_def cache_set_def)
    qed
  qed
qed

fun resolve_all ::
  "(string \<Rightarrow> (string \<Rightarrow> bool) option) \<Rightarrow> (route_cache \<Rightarrow> 64 word) \<Rightarrow> string list \<Rightarrow> resolver \<Rightarrow> resolver \<times> string list" where
  "resolve_all rx fk [] rs = (rs, [])"
| "resolve_all rx fk (t # ts) rs =
     (let (rs1, r) = resolve_agent rx fk t rs; (rs2, rest) = resolve_all rx fk ts rs1 in (rs2, r # rest))"

definition resolver_ok :: "(string \<Rightarrow> (string \<Rightarrow> bool) option) \<Rightarrow> agent_def list \<Rightarrow> string set \<Rightarrow> resolver \<Rightarrow> bool" where
  "resolver_ok rx defs seen rs \<longleftrightarrow>
     rs_defs rs = defs \<and> (\<forall>c. rs_cache rs = Some c \<longrightarrow> entries_from rx defs seen c)"

lemma resolve_agent_ok:
  assumes "resolver_ok rx defs seen rs" "task \<in> seen" "resolve_agent rx fk task rs = (rs', r)"
  shows "resolver_ok rx defs seen rs' \<and>
    (\<exists>t\<in>seen. hash_task t = hash_task task \<and> r = classify_role rx defs (normalize_task t))"
proof (cases "if rs_cache_enabled rs then rs_cache rs else None")
  case None
  with assms show ?thesis by (auto simp: resolve_agent_def Let_def resolver_ok_def)
next
  case (Some c)
  then have c: "rs_cache rs = Some c" by (simp split: if_splits)
  have e: "entries_from rx defs seen c" "rs_defs rs = defs" using assms(1) c by (simp_all add: resolver_ok_def)
  show ?thesis
  proof (cases "cache_get c (hash_task task)")
    case None
    with Some assms(3) e have "r = classify_role rx defs (normalize_task task)"
      "rs' = rs\<lparr>rs_cache := Some (cache_put fk (hash_task task) r c)\<rparr>"
      by (auto simp: resolve_agent_def Let_def hash_task_normalized)
    with assms(2) e entries_from_put [OF e(1) assms(2), of fk] show ?thesis by (auto simp: resolver_ok_def)
  next
    case hit: (Some q)
    with Some assms(3) have "r = q" "rs' = rs" by (simp_all add: resolve_agent_def Let_def hash_task_normalized)
    with hit e(1) assms(1) show ?thesis unfolding entries_from_def by metis
  qed
qed

lemma resolve_all_ok:
  assumes "resolver_ok rx defs seen rs" "set ts \<subseteq> seen" "resolve_all rx fk ts rs = (rs', rl)"
  shows "resolver_ok rx defs seen rs' \<and> list_all2 (\<lambda>task r. \<exists>t\<in>seen. hash_task t = hash_task task \<and>
    r = classify_role rx defs (normalize_task t)) ts rl"
  using assms
proof (induction ts arbitrary: rs rs' rl)
  case (Cons task ts)
  obtain rs1 r where r: "resolve_agent rx fk task rs = (rs1, r)" by fastforce
  obtain rs2 rest where rest: "resolve_all rx fk ts rs1 = (rs2, rest)" by fastforce
  from resolve_agent_ok [OF Cons.prems(1) _ r] Cons.prems(2)
  have r_ok: "resolver_ok rx defs seen rs1"
    "\<exists>t\<in>seen. hash_task t = hash_task task \<and> r = classify_role rx defs (normalize_task t)" by auto
  from Cons.IH [OF r_ok(1) _ rest] Cons.prems(2,3) r rest r_ok(2) show ?case by auto
qed simp

lemma resolve_agent_bounded:
  assumes "picks_key fk" "rs_cache rs = Some c" "cache_bounded c"
  shows "\<exists>c'. rs_cache (fst (resolve_agent rx fk task rs)) = Some c' \<and> cache_bounded c'"
  using assms cache_put_bounded [OF assms(1,3)]
  by (auto simp: resolve_agent_def Let_def split: option.splits)

lemma resolve_all_bounded:
  assumes "picks_key fk" "rs_cache rs = Some c" "cache_bounded c"
  shows "\<exists>c'. rs_cache (fst (resolve_all rx fk ts rs)) = Some c' \<and> cache_bounded c'"
  using assms(2,3)
proof (induction ts arbitrary: rs c)
  case (Cons t ts)
  from resolve_agent_bounded [OF assms(1) Cons.prems, of rx t] Cons.IH
  show ?case by (simp add: case_prod_beta Let_def) blast
qed simp

definition fresh_resolver :: "agent_def list \<Rightarrow> int \<Rightarrow> resolver" where
  "fresh_resolver defs n = \<lparr>rs_defs = defs, rs_cache_enabled = True, rs_cache = Some (new_route_cache n)\<rparr>"

lemma fresh_resolver_ok: "resolver_ok rx defs seen (fresh_resolver defs n)"
  by (simp add: resolver_ok_def fresh_resolver_def entries_from_def new_route_cache_def cache_get_def)

text \<open>
  C31: the cache does not change where tasks go: as long as the hash does not confuse two of them, every task of a
  sequence is resolved to what the classifier says for its normal form, whatever entries are evicted, and the cache
  never holds more entries than its bound.
\<close>

theorem cached_routing_transparent:
  assumes "inj_on hash_task (normalize_task ` set tasks)" "picks_key fk"
  shows "snd (resolve_all rx fk tasks (fresh_resolver defs n)) =
      map (\<lambda>t. classify_role rx defs (normalize_task t)) tasks \<and>
    (\<exists>c. rs_cache (fst (resolve_all rx fk tasks (fresh_resolver defs n))) = Some c \<and> cache_bounded c)"
proof
  obtain rs' rl where r: "resolve_all rx fk tasks (fresh_resolver defs n) = (rs', rl)" by fastforce
  have "list_all2 (\<lambda>task r. \<exists>t\<in>set tasks. hash_task t = hash_task task \<and>
      r = classify_role rx defs (normalize_task t)) tasks rl"
    using resolve_all_ok [OF fresh_resolver_ok _ r] by blast
  moreover have "normalize_task t = normalize_task task"
    if "t \<in> set tasks" "task \<in> set tasks" "hash_task t = hash_task task" for t task
    using inj_onD [OF assms(1), of "normalize_task t" "normalize_task task"] that by (simp add: hash_task_normalized)
  ultimately have "list_all2 (\<lambda>task r. r = classify_role rx defs (normalize_task task)) tasks rl"
    by (smt (verit) list_all2_conv_all_nth nth_mem)
  then have "rl = map (\<lambda>t. classify_role rx defs (normalize_task t)) tasks"
    by (auto simp: list_all2_conv_all_nth intro: nth_equalityI)
  with r show "snd (resolve_all rx fk tasks (fresh_resolver defs n)) =
      map (\<lambda>t. classify_role rx defs (normalize_task t)) tasks" by simp
next
  show "\<exists>c. rs_cache (fst (resolve_all rx fk tasks (fresh_resolver defs n))) = Some c \<and> cache_bounded c"
    by (rule resolve_all_bounded [OF assms(2), where c = "new_route_cache n"])
      (auto simp: fresh_resolver_def new_route_cache_def cache_bounded_def)
qed

text \<open>The walk that meets the entry written last.\<close>

definition newest_key :: "route_cache \<Rightarrow> 64 word" where
  "newest_key c = (case rc_entries c of [] \<Rightarrow> 0 | (h, _) # _ \<Rightarrow> h)"

lemma newest_key_picks: "picks_key newest_key"
  by (auto simp: picks_key_def newest_key_def split: list.splits)

theorem cached_routing_transparent_witness:
  "snd (resolve_all (\<lambda>_. None) newest_key [''Run  the tests'', ''run the TESTS'', ''make tea''] (fresh_resolver [] 1)) =
     [role_generalist, role_generalist, role_generalist]"
proof -
  have "normalize_task ''Run  the tests'' = ''run the tests''" "normalize_task ''run the TESTS'' = ''run the tests''"
    "normalize_task ''make tea'' = ''make tea''" by code_simp+
  then have "normalize_task ` set [''Run  the tests'', ''run the TESTS'', ''make tea''] = {''run the tests'', ''make tea''}"
    by simp
  moreover have "hash_task ''run the tests'' \<noteq> hash_task ''make tea''" by code_simp
  ultimately have "inj_on hash_task (normalize_task ` set [''Run  the tests'', ''run the TESTS'', ''make tea''])"
    by simp
  from cached_routing_transparent [OF this newest_key_picks, of "\<lambda>_. None" "[]" 1]
  show ?thesis by (simp add: classify_role_def)
qed

section \<open>Where tasks can go\<close>

text \<open>With agents loaded, a task is always resolved to one of them, also when the hash confuses two tasks.\<close>

lemma classify_role_loaded: "defs \<noteq> [] \<Longrightarrow> [] \<notin> set (map ad_name defs) \<Longrightarrow>
    classify_role rx defs task \<in> set (map ad_name defs)"
  using best_match_loaded [of defs rx task] by (auto simp: classify_role_def classify_with_agents_def Let_def)

lemma resolve_agent_loaded:
  assumes "resolver_ok rx defs seen rs" "resolve_agent rx fk task rs = (rs', r)" "defs \<noteq> []" "[] \<notin> set (map ad_name defs)"
  shows "r \<in> set (map ad_name defs)"
proof -
  have "resolver_ok rx defs (insert task seen) rs"
    using assms(1) entries_from_mono [of rx defs seen _ "insert task seen"] by (auto simp: resolver_ok_def)
  from resolve_agent_ok [OF this _ assms(2)] classify_role_loaded [OF assms(3,4)] show ?thesis by auto
qed

end
