(* ===== verification/Role_Registry.thy ===== *)
theory Role_Registry
  imports Tool_Registry Agent_Defs
begin

text \<open>
  Roles and the tools they see (\<open>internal/role/registry.go\<close>, \<open>internal/tool/builtins.go\<close>, the validation of a role
  of \<open>pkg/role.go\<close>): registering an agent for every loaded definition, with a registry of tools of its own that is
  filtered by the list of the definition. The settings for thinking and orchestration, the model router, the
  skills and the memory that an agent shares with all others are left out. The order in which the registry lists
  its tools is an argument.
\<close>

section \<open>Roles\<close>

record role_config =
  rl_type :: string
  rl_prompt :: string
  rl_tools :: "string list"
  rl_provider :: string
  rl_model :: string
  rl_max_iterations :: int
  rl_temperature :: rat

definition validate_role :: "role_config \<Rightarrow> tool_error option" where
  "validate_role c =
     (if rl_prompt c = [] then Some (ValidationError ''system_prompt'' ''system prompt cannot be empty'')
      else if rl_max_iterations c < 1 then Some (ValidationError ''max_iterations'' ''must be at least 1'')
      else if rl_temperature c < 0 \<or> rl_temperature c > 2
      then Some (ValidationError ''temperature'' ''must be between 0 and 2'')
      else None)"

definition builtin_names :: "string list" where
  "builtin_names =
     [''terminal'', ''file'', ''http_client'', ''web_search'', ''calculator'', ''browser'', ''docs'', ''todo'', ''skill'',
      ''process'', ''uploaded_file'', ''excel'', ''patch'', ''grep'', ''glob'', ''git'', ''lsp'', ''web_fetch'', ''secret_scan'',
      ''notes'', ''format'', ''codesearch'', ''memory_recall'', ''remember'', ''security_scan'', ''delegation'']"

definition is_builtin_name :: "string \<Rightarrow> bool" where
  "is_builtin_name name \<longleftrightarrow> name \<in> set builtin_names"

text \<open>The recall settings of a definition: whether memory is enabled, and the depth.\<close>

record 'w role_agent =
  ra_config :: role_config
  ra_tools :: "'w tool_registry"
  ra_memory :: "bool \<times> int"

record 'w role_registry =
  rr_roles :: "string \<rightharpoonup> 'w role_agent"
  rr_tools :: "'w tool_registry"

definition new_role_registry :: "'w tool_registry \<Rightarrow> 'w role_registry" where
  "new_role_registry tools = \<lparr>rr_roles = Map.empty, rr_tools = tools\<rparr>"

text \<open>The tools of a role, one definition after the other.\<close>

definition tool_dropped :: "string list \<Rightarrow> string \<Rightarrow> bool" where
  "tool_dropped allowed name \<longleftrightarrow> allowed \<noteq> [] \<and> name \<notin> set allowed \<and> is_builtin_name name"

definition add_role_tool :: "'w tool_registry \<Rightarrow> string list \<Rightarrow> 'w tool_registry \<Rightarrow> tool_definition \<Rightarrow> 'w tool_registry" where
  "add_role_tool source allowed acc d =
     (if tool_dropped allowed (td_name d) then acc
      else case get_tool source (td_name d) of
             Inl e \<Rightarrow> acc
           | Inr t \<Rightarrow> (case register_tool (Some t) acc of Inl e \<Rightarrow> acc | Inr acc' \<Rightarrow> acc'))"

definition role_tools :: "'w tool_registry \<Rightarrow> tool_definition list \<Rightarrow> string list \<Rightarrow> 'w tool_registry" where
  "role_tools source defs allowed = foldl (add_role_tool source allowed) new_tool_registry defs"

definition create_role_agent :: "tool_definition list \<Rightarrow> role_config \<Rightarrow> 'w role_registry \<Rightarrow> 'w role_agent" where
  "create_role_agent defs c r =
     \<lparr>ra_config = c, ra_tools = role_tools (rr_tools r) defs (rl_tools c), ra_memory = (False, 0)\<rparr>"

definition find_role :: "'w role_registry \<Rightarrow> string \<Rightarrow> 'w role_agent option" where
  "find_role r name = rr_roles r name"

definition put_role :: "string \<Rightarrow> 'w role_agent \<Rightarrow> 'w role_registry \<Rightarrow> 'w role_registry" where
  "put_role name ra r = r\<lparr>rr_roles := (rr_roles r)(name \<mapsto> ra)\<rparr>"

definition drop_role :: "string \<Rightarrow> 'w role_registry \<Rightarrow> 'w role_registry" where
  "drop_role name r = r\<lparr>rr_roles := (rr_roles r)(name := None)\<rparr>"

definition register_role :: "tool_definition list \<Rightarrow> role_config \<Rightarrow> 'w role_registry \<Rightarrow> string + 'w role_registry" where
  "register_role defs c r =
     (case validate_role c of
        Some e \<Rightarrow> Inl (''invalid role config for type '' @ rl_type c @ '': '' @ tool_error_text e)
      | None \<Rightarrow> Inr (put_role (rl_type c) (create_role_agent defs c r) r))"

definition get_role :: "'w role_registry \<Rightarrow> string \<Rightarrow> string + 'w role_agent" where
  "get_role r name = (case find_role r name of None \<Rightarrow> Inl ''role not found'' | Some ra \<Rightarrow> Inr ra)"

definition list_roles :: "'w role_registry \<Rightarrow> role_config set" where
  "list_roles r = ra_config ` ran (rr_roles r)"

definition role_of_def :: "agent_def \<Rightarrow> role_config" where
  "role_of_def d =
     \<lparr>rl_type = ad_name d, rl_prompt = ad_system_prompt d, rl_tools = ad_tools d, rl_provider = ad_provider d,
      rl_model = ad_model d, rl_max_iterations = ad_max_iterations d, rl_temperature = 3 / 10\<rparr>"

definition set_memory_spec :: "agent_def \<Rightarrow> 'w role_registry \<Rightarrow> 'w role_registry" where
  "set_memory_spec d r =
     (if ad_memory_enabled d \<or> ad_recall_depth d > 0 then
        (case find_role r (ad_name d) of
           None \<Rightarrow> r
         | Some ra \<Rightarrow> put_role (ad_name d) (ra\<lparr>ra_memory := (ad_memory_enabled d, ad_recall_depth d)\<rparr>) r)
      else r)"

text \<open>The first failure stops; the registrations before it stay.\<close>

fun register_from_agents ::
  "tool_definition list \<Rightarrow> agent_def list \<Rightarrow> 'w role_registry \<Rightarrow> string option \<times> 'w role_registry" where
  "register_from_agents defs [] r = (None, r)"
| "register_from_agents defs (d # ds) r =
     (case register_role defs (role_of_def d) r of
        Inl e \<Rightarrow> (Some (''failed to register agent '' @ ad_name d @ '': '' @ e), r)
      | Inr r1 \<Rightarrow> register_from_agents defs ds (set_memory_spec d r1))"

section \<open>Lemmas\<close>

interpretation roles_kv: kv_registry find_role put_role drop_role
  by unfold_locales (auto simp: find_role_def put_role_def drop_role_def)

lemma register_registrable: "registrable t \<Longrightarrow> register_tool (Some t) r = Inr (put_tool (tool_name t) t r)"
  by (simp add: register_tool_result)

lemma add_role_tool_find:
  assumes "registry_ok source"
  shows "find_tool (add_role_tool source allowed acc d) name =
    (if name = td_name d \<and> \<not> tool_dropped allowed name \<and> find_tool source name \<noteq> None
     then find_tool source name else find_tool acc name)"
proof (cases "find_tool source (td_name d)")
  case (Some t)
  with assms have "registrable t" "tool_name t = td_name d" by (auto simp: registry_ok_def)
  with Some show ?thesis
    by (auto simp: add_role_tool_def get_tool_def register_registrable tools_kv.look_ins)
qed (auto simp: add_role_tool_def get_tool_def)

lemma role_tools_fold:
  assumes "registry_ok source"
  shows "find_tool (foldl (add_role_tool source allowed) acc defs) name =
    (if name \<in> td_name ` set defs \<and> \<not> tool_dropped allowed name \<and> find_tool source name \<noteq> None
     then find_tool source name else find_tool acc name)"
  by (induction defs arbitrary: acc) (auto simp: add_role_tool_find [OF assms])

lemma role_tools_find:
  assumes "registry_ok source" "set defs = list_tools source"
  shows "find_tool (role_tools source defs allowed) name =
    (if tool_dropped allowed name then None else find_tool source name)"
proof -
  have "name \<in> td_name ` set defs" if "find_tool source name = Some t" for t
  proof -
    from assms(1) that have "td_name (tool_def t) = name" by (simp add: registry_ok_def tool_name_def)
    moreover have "tool_def t \<in> set defs"
      using that assms(2) by (auto simp: list_tools_def find_tool_def ran_def)
    ultimately show ?thesis by force
  qed
  moreover have "find_tool new_tool_registry name = None" by (simp add: new_tool_registry_def find_tool_def)
  ultimately show ?thesis
    unfolding role_tools_def role_tools_fold [OF assms(1), of allowed new_tool_registry defs name]
    by (cases "find_tool source name") auto
qed

lemma set_memory_spec_tools: "rr_tools (set_memory_spec d r) = rr_tools r"
  by (simp add: set_memory_spec_def put_role_def split: option.split)

text \<open>A definition that the registration accepts.\<close>

definition acceptable :: "agent_def \<Rightarrow> bool" where
  "acceptable d \<longleftrightarrow> ad_system_prompt d \<noteq> [] \<and> ad_max_iterations d \<ge> 1"

lemma validate_role_of_def: "validate_role (role_of_def d) = None \<longleftrightarrow> acceptable d"
  by (simp add: validate_role_def role_of_def_def acceptable_def)

lemma register_role_of_def:
  "register_role defs (role_of_def d) r =
     (if acceptable d then Inr (put_role (ad_name d) (create_role_agent defs (role_of_def d) r) r)
      else Inl (''invalid role config for type '' @ ad_name d @ '': '' @
                tool_error_text (the (validate_role (role_of_def d)))))"
  using validate_role_of_def [of d] by (auto simp: register_role_def role_of_def_def)

definition tools_and_config :: "'w role_agent \<Rightarrow> 'w tool_registry \<times> role_config" where
  "tools_and_config ra = (ra_tools ra, ra_config ra)"

lemma memory_spec_keeps:
  "map_option tools_and_config (find_role (set_memory_spec d r) name) = map_option tools_and_config (find_role r name)"
  by (auto simp: set_memory_spec_def roles_kv.look_ins tools_and_config_def split: option.split)

lemma find_snoc: "find P (xs @ [x]) = (case find P xs of None \<Rightarrow> if P x then Some x else None | Some y \<Rightarrow> Some y)"
  by (induction xs) auto

lemma register_from_agents_find:
  assumes "list_all acceptable ds"
  shows "register_from_agents defs ds r = (None, snd (register_from_agents defs ds r)) \<and>
    map_option tools_and_config (find_role (snd (register_from_agents defs ds r)) name) =
      (case find (\<lambda>d. ad_name d = name) (rev ds) of
         None \<Rightarrow> map_option tools_and_config (find_role r name)
       | Some d \<Rightarrow> Some (role_tools (rr_tools r) defs (ad_tools d), role_of_def d))"
  using assms
proof (induction ds arbitrary: r)
  case (Cons d ds)
  let ?r = "set_memory_spec d (put_role (ad_name d) (create_role_agent defs (role_of_def d) r) r)"
  have acc: "acceptable d" "list_all acceptable ds" using Cons.prems by simp_all
  have tools: "rr_tools ?r = rr_tools r" by (simp add: set_memory_spec_tools) (simp add: put_role_def)
  have "map_option tools_and_config (find_role ?r name) =
      (if name = ad_name d then Some (role_tools (rr_tools r) defs (ad_tools d), role_of_def d)
       else map_option tools_and_config (find_role r name))"
    by (simp add: memory_spec_keeps roles_kv.look_ins tools_and_config_def create_role_agent_def)
      (simp add: role_of_def_def)
  with Cons.IH [OF acc(2), of ?r] acc(1) tools show ?case
    by (auto simp: register_role_of_def find_snoc split: option.splits)
qed simp

lemma register_from_agents_stops:
  assumes "\<not> list_all acceptable ds"
  shows "\<exists>d\<in>set ds. \<not> acceptable d \<and>
    fst (register_from_agents defs ds r) =
      Some (''failed to register agent '' @ ad_name d @ '': '' @ ''invalid role config for type '' @ ad_name d @ '': '' @
            tool_error_text (the (validate_role (role_of_def d))))"
  using assms
proof (induction ds arbitrary: r)
  case (Cons d ds)
  show ?case
  proof (cases "acceptable d")
    case True
    with Cons.prems have "\<not> list_all acceptable ds" by simp
    from Cons.IH [OF this, of "set_memory_spec d (put_role (ad_name d) (create_role_agent defs (role_of_def d) r) r)"]
      True show ?thesis by (simp only: register_from_agents.simps register_role_of_def if_True sum.case) simp
  next
    case False
    then show ?thesis by (simp only: register_from_agents.simps register_role_of_def if_False sum.case) simp
  qed
qed simp

end
