(* ===== verification/Read_Only_Filter.thy ===== *)
theory Read_Only_Filter
  imports ReAct_Loop File_Tool
begin

text \<open>
  The sub-agents with restricted tools: the filter over the tools (\<open>ReadOnlyToolFilter\<close>), the explore, research and
  QA workers (\<open>internal/agent/explore_worker.go\<close>, \<open>research_worker.go\<close>, \<open>qa_worker.go\<close>), the comparison of two
  models, and the arguments that the git tool passes on (\<open>internal/tool/builtin/git.go\<close>). A worker is a run of
  the loop of \<open>ReAct_Loop\<close> with another configuration and a filtered provider of tools.
\<close>

section \<open>The filter\<close>

definition explore_allowlist :: "string list" where
  "explore_allowlist = [''glob'', ''grep'', ''file'', ''git'', ''codesearch'', ''lsp'', ''todo'']"

definition research_allowlist :: "string list" where
  "research_allowlist = [''web_search'', ''web_fetch'', ''http_client'', ''file'', ''glob'', ''grep'', ''todo'']"

definition qa_allowlist :: "string list" where
  "qa_allowlist = explore_allowlist @ [''terminal'']"

definition file_write_actions :: "string list" where
  "file_write_actions = [''write'', ''append'', ''delete'', ''mkdir'', ''move'', ''copy'', ''touch'']"

text \<open>The expression \<open>>(?:[^&]|$)\<close>: a redirection that is not followed by an ampersand.\<close>

fun redirect_match :: "string \<Rightarrow> bool" where
  "redirect_match [] = False"
| "redirect_match (c # cs) = (c = CHR ''>'' \<and> (cs = [] \<or> hd cs \<noteq> CHR ''&'') \<or> redirect_match cs)"

definition command_writes_to_file :: "string \<Rightarrow> bool" where
  "command_writes_to_file cmd =
     (redirect_match cmd \<or>
      list_ex (contains_str (to_lower cmd))
        [''tee'', ''sed -i'', ''dd of='', ''truncate'', ''rm '', ''mv '', ''cp '', ''chmod'', ''chown'', ''mkfs'', ''fdisk''])"

definition string_param :: "go_params \<Rightarrow> string \<Rightarrow> string" where
  "string_param params key = (case params key of Some (GoString s) \<Rightarrow> s | _ \<Rightarrow> [])"

text \<open>The operation that the filter looks at: \<open>operation\<close>, else \<open>action\<close>, else \<open>read\<close>.\<close>

definition file_action :: "go_params \<Rightarrow> string" where
  "file_action params =
     (let a = string_param params ''operation'';
          a = (if a = [] then string_param params ''action'' else a)
      in if a = [] then ''read'' else a)"

definition not_allowed :: "string \<Rightarrow> tool_error" where
  "not_allowed msg = RegistryError (''explore: tool not allowed: '' @ msg)"

definition quoted :: "string \<Rightarrow> string" where
  "quoted s = dquote @ s @ dquote"

definition filter_execute :: "string list \<Rightarrow> 'w tool_provider \<Rightarrow> 'w tool_provider" where
  "filter_execute allow inner w name params =
     (if name \<notin> set allow then (w, Inl (not_allowed (quoted name @ '' is not in the explore allowlist'')))
      else if name = ''file'' \<and> file_action params \<in> set file_write_actions
      then (w, Inl (not_allowed (''file action '' @ quoted (file_action params) @
              '' is a write; explore worker is read-only'')))
      else if name = ''terminal'' \<and> command_writes_to_file (string_param params ''command'')
      then (w, Inl (not_allowed ''terminal file-writing command blocked (read-only)''))
      else inner w name params)"

definition filter_list :: "string list \<Rightarrow> tool_definition list \<Rightarrow> tool_definition list" where
  "filter_list allow ds = filter (\<lambda>d. td_name d \<in> set allow) ds"

section \<open>The workers\<close>

definition explore_prompt :: string where
  "explore_prompt =
     ''You are an Explore agent. Investigate the codebase using ONLY read-only tools (glob, grep, file:read, git, codesearch, lsp). You CANNOT edit, write, patch, or execute shell commands '' @ [CHR 0xE2, CHR 0x80, CHR 0x94] @ '' those tools are unavailable.'' @ nl @
     nl @
     ''BEHAVIOR:'' @ nl @
     ''1. Start with the goal. Decide what files / patterns / symbols would answer it.'' @ nl @
     ''2. Use glob to find files, grep to find content, file:read to inspect specific files.'' @ nl @
     ''3. Read enough to answer the question confidently '' @ [CHR 0xE2, CHR 0x80, CHR 0x94] @ '' but no more. Do not dump entire files into your response.'' @ nl @
     ''4. Cite every claim with file:line references so the caller can verify.'' @ nl @
     nl @
     ''OUTPUT FORMAT (Markdown only '' @ [CHR 0xE2, CHR 0x80, CHR 0x94] @ '' no prose preamble, no closing remarks):'' @ nl @
     ''- Start with a one-sentence direct answer to the question.'' @ nl @
     ''- Then a '' @ [CHR 0x22] @ ''## Findings'' @ [CHR 0x22] @ '' section with bullet points, each citing file:line.'' @ nl @
     ''- Then a '' @ [CHR 0x22] @ ''## Files Examined'' @ [CHR 0x22] @ '' section listing the paths you actually opened.'' @ nl @
     ''- If you cannot answer confidently, say so explicitly and explain what'' @ [CHR 0x27] @ ''s missing.'' @ nl @
     nl @
     ''Do NOT propose changes. Do NOT write code. Do NOT run shell commands. You are read-only.''"

definition research_prompt :: string where
  "research_prompt =
     ''/no_think'' @ nl @
     nl @
     ''You are a Deep Research agent. Your job is to investigate a topic using web search and web fetch tools, then produce a STRUCTURED RESEARCH REPORT with citations.'' @ nl @
     nl @
     ''WORKFLOW:'' @ nl @
     ''1. Search for the topic using web_search (at least 3 different queries).'' @ nl @
     ''2. Read the top 3-5 results using web_fetch.'' @ nl @
     ''3. Synthesize what you found into a coherent report.'' @ nl @
     nl @
     ''OUTPUT FORMAT (Markdown only '' @ [CHR 0xE2, CHR 0x80, CHR 0x94] @ '' no preamble, no closing remarks):'' @ nl @
     nl @
     ''## Summary'' @ nl @
     ''[2-3 sentence direct answer to the research question]'' @ nl @
     nl @
     ''## Key Findings'' @ nl @
     ''- Finding 1 [1]'' @ nl @
     ''- Finding 2 [2]'' @ nl @
     ''- Finding 3 [1,3]'' @ nl @
     nl @
     ''## Detailed Analysis'' @ nl @
     ''[2-4 paragraphs synthesizing the sources. Cite inline as [N] where N maps to the source list.]'' @ nl @
     nl @
     ''## Sources'' @ nl @
     ''[1] Title '' @ [CHR 0xE2, CHR 0x80, CHR 0x94] @ '' URL'' @ nl @
     ''[2] Title '' @ [CHR 0xE2, CHR 0x80, CHR 0x94] @ '' URL'' @ nl @
     ''[3] Title '' @ [CHR 0xE2, CHR 0x80, CHR 0x94] @ '' URL'' @ nl @
     nl @
     ''RULES:'' @ nl @
     ''- Every factual claim MUST have a citation [N].'' @ nl @
     ''- Only cite sources you actually read via web_fetch.'' @ nl @
     ''- If sources disagree, note the disagreement honestly.'' @ nl @
     ''- If you cannot find enough sources, say so explicitly.'' @ nl @
     ''- Do NOT make up URLs or sources.'' @ nl @
     ''- Do NOT include sources you didn'' @ [CHR 0x27] @ ''t read.''"

definition qa_prompt :: string where
  "qa_prompt =
     ''You are a SHARP, SKEPTICAL QA engineer performing an INDEPENDENT review of a task deliverable. You are the last line of defense before the user sees the result.'' @ nl @
     nl @
     ''NEVER TRUST THE AUTHOR. The worker(s) that built this code may have CLAIMED success '' @ [CHR 0xE2, CHR 0x80, CHR 0x94] @ '' their claims are UNVERIFIED and may be wrong. Your ONLY sources of truth are:'' @ nl @
     ''1. The REAL build/test output: re-run the build/tests yourself via the terminal tool (npm run build / go build ./... / go test ./... / cargo build) and read the actual exit status and output. A non-zero exit or any error means FAILURE, no matter what anyone claimed.'' @ nl @
     ''2. The actual files: use file:read / grep to inspect the generated source. Look for real bugs '' @ [CHR 0xE2, CHR 0x80, CHR 0x94] @ '' logic errors, type errors, missing files, broken imports, unhandled errors, security issues, deviation from the task requirements.'' @ nl @
     nl @
     ''WORKFLOW:'' @ nl @
     ''- First locate the deliverable (it is under projects/<slug>/ in your workspace).'' @ nl @
     ''- Re-run the build AND the tests. Capture the real output.'' @ nl @
     ''- Read the key source files and audit them for bugs.'' @ nl @
     ''- Do NOT echo a worker'' @ [CHR 0x27] @ ''s '' @ [CHR 0x22] @ ''it works'' @ [CHR 0x22] @ '' claim '' @ [CHR 0xE2, CHR 0x80, CHR 0x94] @ '' verify it yourself.'' @ nl @
     nl @
     ''OUTPUT '' @ [CHR 0xE2, CHR 0x80, CHR 0x94] @ '' exactly one of:'' @ nl @
     ''- '' @ [CHR 0x22] @ ''PASS'' @ [CHR 0x22] @ '' '' @ [CHR 0xE2, CHR 0x80, CHR 0x94] @ '' only if the build succeeded, tests pass, AND your code audit found no blocking bugs. Add a one-line summary of what you independently confirmed.'' @ nl @
     ''- '' @ [CHR 0x22] @ ''FAIL:'' @ [CHR 0x22] @ '' followed by a numbered list of specific bugs, each with file:line, a one-line description, and severity (blocker/major/minor). Always include the failing build/test output if any.'' @ nl @
     nl @
     ''If the build fails, you MUST output FAIL. Honesty over optimism.''"

text \<open>The content of the result, or the error.\<close>

definition worker_answer :: "'w \<times> task_result \<times> string option \<Rightarrow> 'w \<times> (string + string)" where
  "worker_answer run = (case run of (w, tr, Some e) \<Rightarrow> (w, Inl e) | (w, tr, None) \<Rightarrow> (w, Inr (tr_content tr)))"

definition explore_env :: "'w react_env \<Rightarrow> 'w react_env" where
  "explore_env env =
     env\<lparr>re_config := (re_config env)\<lparr>rc_system_prompt := explore_prompt, rc_max_iterations := 15\<rparr>,
         re_tools := map_option (filter_execute explore_allowlist) (re_tools env)\<rparr>"

definition explore_worker :: "'w react_env \<Rightarrow> string \<Rightarrow> 'w \<Rightarrow> 'w \<times> (string + string)" where
  "explore_worker env goal w = worker_answer (execute_react (explore_env env) goal w)"

text \<open>The research and QA workers get neither the injector nor the recorder of the agent.\<close>

definition isolated_env :: "string list \<Rightarrow> string \<Rightarrow> int \<Rightarrow> 'w react_env \<Rightarrow> 'w react_env" where
  "isolated_env allow prompt iterations env =
     env\<lparr>re_config := (re_config env)\<lparr>rc_system_prompt := prompt, rc_max_iterations := iterations\<rparr>,
         re_inject := (\<lambda>t. []), re_record := (\<lambda>w r. w),
         re_tools := map_option (filter_execute allow) (re_tools env)\<rparr>"

definition research_worker :: "'w react_env \<Rightarrow> string \<Rightarrow> 'w \<Rightarrow> 'w \<times> (string + string)" where
  "research_worker env question w =
     worker_answer (execute_react (isolated_env research_allowlist research_prompt 20 env) question w)"

definition qa_worker :: "'w react_env \<Rightarrow> string \<Rightarrow> 'w \<Rightarrow> 'w \<times> (string + string)" where
  "qa_worker env goal w = worker_answer (execute_react (isolated_env qa_allowlist qa_prompt 15 env) goal w)"

section \<open>Prefixes of goals\<close>

definition has_goal_prefix :: "string \<Rightarrow> string \<Rightarrow> bool" where
  "has_goal_prefix word goal =
     (let low = to_lower (trim_space goal) in has_prefix low (word @ '':'') \<or> has_prefix low (word @ '' ''))"

definition strip_goal_prefix :: "string \<Rightarrow> string \<Rightarrow> string" where
  "strip_goal_prefix word goal =
     (let out = trim_space goal; low = to_lower out
      in if has_prefix low (word @ '':'') then trim_space (drop (length word + 1) out)
         else if has_prefix low (word @ '' '') then trim_space (drop (length word + 1) out)
         else out)"

definition has_explore_prefix :: "string \<Rightarrow> bool" where
  "has_explore_prefix = has_goal_prefix ''explore''"

definition strip_explore_prefix :: "string \<Rightarrow> string" where
  "strip_explore_prefix = strip_goal_prefix ''explore''"

definition has_research_prefix :: "string \<Rightarrow> bool" where
  "has_research_prefix = has_goal_prefix ''research''"

definition strip_research_prefix :: "string \<Rightarrow> string" where
  "strip_research_prefix = strip_goal_prefix ''research''"

definition has_compare_prefix :: "string \<Rightarrow> bool" where
  "has_compare_prefix = has_goal_prefix ''compare''"

definition strip_compare_prefix :: "string \<Rightarrow> string" where
  "strip_compare_prefix = strip_goal_prefix ''compare''"

section \<open>Comparing two models\<close>

record compare_result =
  cmp_prompt :: string
  cmp_model_a :: string
  cmp_response_a :: string
  cmp_model_b :: string
  cmp_response_b :: string

text \<open>A route of the configuration is its provider and model. The router takes provider, model and prompt.\<close>

definition compare_answer :: "string + string \<Rightarrow> string" where
  "compare_answer r = (case r of Inl e \<Rightarrow> ''Error: '' @ e | Inr c \<Rightarrow> c)"

definition run_compare ::
  "('w \<Rightarrow> string \<Rightarrow> string \<Rightarrow> string \<Rightarrow> 'w \<times> (string + string)) \<Rightarrow> string \<Rightarrow> string \<times> string \<Rightarrow> string \<times> string
     \<Rightarrow> string \<Rightarrow> 'w \<Rightarrow> 'w \<times> compare_result" where
  "run_compare route model worker planner prompt w =
     (let (pa, ma) = (if fst worker \<noteq> [] then worker else (''lmstudio'', model));
          (pb, mb) = (if fst planner \<noteq> [] then planner else (''anthropic'', ''glm-5.2''));
          (w1, ra) = route w pa ma prompt;
          (w2, rb) = route w1 pb mb prompt
      in (w2, \<lparr>cmp_prompt = prompt, cmp_model_a = pa @ ''/'' @ ma, cmp_response_a = compare_answer ra,
               cmp_model_b = pb @ ''/'' @ mb, cmp_response_b = compare_answer rb\<rparr>))"

definition format_compare_report :: "compare_result \<Rightarrow> string" where
  "format_compare_report r =
     ''## Model Comparison'' @ nl @ nl @ ''**Prompt:** '' @ cmp_prompt r @ nl @ nl @ ''---'' @ nl @ nl @
     ''### Model A: '' @ cmp_model_a r @ nl @ nl @ cmp_response_a r @ nl @ nl @ ''---'' @ nl @ nl @
     ''### Model B: '' @ cmp_model_b r @ nl @ nl @ cmp_response_b r @ nl @ nl @ ''---'' @ nl @ nl @
     ''*Which response is better? You decide.*''"

section \<open>The git tool\<close>

text \<open>The arguments of the process; the limit is a positive integer or a positive fraction, cut.\<close>

definition git_limit :: "go_params \<Rightarrow> int" where
  "git_limit params =
     (case params ''limit'' of
        Some (GoInt n) \<Rightarrow> if n > 0 then n else 20
      | Some (GoFloat r) \<Rightarrow> if r > 0 then truncate_rat r else 20
      | _ \<Rightarrow> 20)"

definition git_args :: "go_params \<Rightarrow> string + string list" where
  "git_args params =
     (let op = string_param params ''operation''; ref = string_param params ''ref''; file = string_param params ''file''
      in if op = ''status'' then Inr [''status'', ''--short'', ''--branch'']
         else if op = ''diff'' then
           Inr ([''diff'', ''--stat''] @ (if ref \<noteq> [] then [ref] else []) @ (if file \<noteq> [] then [''--'', file] else []))
         else if op = ''log'' then
           Inr ([''log'', ''--oneline'', ''-'' @ itoa (git_limit params)] @ (if ref \<noteq> [] then [ref] else []))
         else if op = ''branch'' then Inr [''branch'', ''-a'', ''--list'']
         else if op = ''show'' then
           (if ref = [] then Inl (''show requires a '' @ squote @ ''ref'' @ squote @ '' (commit hash, branch, tag)'')
            else Inr [''show'', ''--stat'', ref])
         else if op = ''blame'' then
           (if file = [] then Inl (''blame requires a '' @ squote @ ''file'' @ squote) else Inr [''blame'', ''-w'', file])
         else if op = ''remote'' then Inr [''remote'', ''-v'']
         else Inl (''unsupported operation: '' @ op))"

text \<open>Upward from a directory to one that holds a \<open>.git\<close>; a path has no more ancestors than characters.\<close>

fun repo_root_from :: "(string \<Rightarrow> bool) \<Rightarrow> nat \<Rightarrow> string \<Rightarrow> string" where
  "repo_root_from ex 0 dir = []"
| "repo_root_from ex (Suc n) dir =
     (if ex (join_path [dir, ''.git'']) then dir
      else if dir_path dir = dir then [] else repo_root_from ex n (dir_path dir))"

definition find_repo_root :: "string \<Rightarrow> (string \<Rightarrow> bool) \<Rightarrow> string \<Rightarrow> string" where
  "find_repo_root cwd ex start = (let p = abs_path cwd start in repo_root_from ex (length p + 1) p)"

text \<open>
  The execution: the working and home directories, what exists, whether git is installed, and the run of the
  process (its output, and the text of its failure) are the environment.
\<close>

record 'w git_env =
  ge_cwd :: string
  ge_home :: "string option"
  ge_exists :: "'w \<Rightarrow> string \<Rightarrow> bool"
  ge_installed :: bool
  ge_run :: "'w \<Rightarrow> string list \<Rightarrow> string \<Rightarrow> 'w \<times> string \<times> string option"

definition git_execute :: "'w git_env \<Rightarrow> 'w \<Rightarrow> go_params \<Rightarrow> 'w \<times> (string + string)" where
  "git_execute env w params =
     (let path = (if string_param params ''path'' = [] then ''.'' else string_param params ''path'');
          path = expand_home (ge_home env) path;
          root = find_repo_root (ge_cwd env) (ge_exists env w) path; op = string_param params ''operation''
      in if root = [] then (w, Inl (''not inside a git repository (looked upward from '' @ path @ '')''))
         else case git_args params of
           Inl e \<Rightarrow> (w, Inl e)
         | Inr argv \<Rightarrow>
             if \<not> ge_installed env then (w, Inl ''git binary not in PATH'')
             else (case ge_run env w argv root of
                 (w1, out, Some e) \<Rightarrow> (w1, Inl (''git '' @ op @ '': '' @ e))
               | (w1, out, None) \<Rightarrow>
                   (w1, Inr (if trim_space out = [] then ''(no output from git '' @ op @ '')''
                             else rev (dropWhile (\<lambda>c. c = CHR 0x0A) (rev out))))))"

section \<open>The file tool in a registry\<close>

definition plain_parameter :: "string \<Rightarrow> string \<Rightarrow> bool \<Rightarrow> tool_parameter" where
  "plain_parameter name ty required =
     \<lparr>tp_name = name, tp_type = ty, tp_description = [], tp_required = required, tp_enum = [], tp_default = GoNil,
      tp_schema = None\<rparr>"

text \<open>\<open>Name\<close> and \<open>Parameters\<close> of the file tool; the descriptions are left out.\<close>

definition file_tool_definition :: tool_definition where
  "file_tool_definition =
     \<lparr>td_name = ''file'', td_description = [],
      td_parameters =
        [(plain_parameter ''operation'' ''string'' True)
           \<lparr>tp_enum := [''read'', ''write'', ''edit'', ''append'', ''exists'', ''list'', ''search'']\<rparr>,
         plain_parameter ''path'' ''string'' True,
         plain_parameter ''content'' ''string'' False, plain_parameter ''old_string'' ''string'' False,
         plain_parameter ''new_string'' ''string'' False, plain_parameter ''offset'' ''integer'' False,
         plain_parameter ''limit'' ''integer'' False, plain_parameter ''pattern'' ''string'' False]\<rparr>"

text \<open>The world of an agent: the files, and everything else. The text of an error is an argument.\<close>

definition file_tool :: "file_env \<Rightarrow> task_ctx \<Rightarrow> (file_error \<Rightarrow> string) \<Rightarrow> (file_system \<times> 'm) tool" where
  "file_tool env ctx err_text =
     \<lparr>tool_def = file_tool_definition,
      tool_run = (\<lambda>(fs, m) params. case file_execute env ctx fs params of
           (fs', Inl e) \<Rightarrow> ((fs', m), Inl (err_text e))
         | (fs', Inr out) \<Rightarrow> ((fs', m), Inr out))\<rparr>"

lemma tool_def_file_tool [simp]: "tool_def (file_tool env ctx txt) = file_tool_definition"
  by (simp add: file_tool_def)

section \<open>Only an edit gets through\<close>

lemma file_execute_keeps:
  assumes "string_param params ''operation'' \<notin> {''write'', ''edit'', ''append''}"
  shows "fst (file_execute env ctx fs params) = fs"
proof (cases "\<exists>op. params ''operation'' = Some (GoString op) \<and> op \<noteq> []")
  case True
  then obtain op where op: "params ''operation'' = Some (GoString op)" "op \<noteq> []" by blast
  with assms have no: "op \<noteq> ''write''" "op \<noteq> ''edit''" "op \<noteq> ''append''" by (simp_all add: string_param_def)
  show ?thesis
  proof (cases "\<exists>path. params ''path'' = Some (GoString path) \<and> path \<noteq> []")
    case True
    then obtain path where "params ''path'' = Some (GoString path)" "path \<noteq> []" by blast
    with op no show ?thesis
      by (cases "resolve_file_path env fs ctx path") (simp_all add: file_execute_def)
  next
    case False
    with op show ?thesis
      by (cases "params ''path''"; cases "the (params ''path'')") (simp_all add: file_execute_def)
  qed
next
  case False
  then show ?thesis
    by (cases "params ''operation''"; cases "the (params ''operation'')") (simp_all add: file_execute_def)
qed

definition keeps_files :: "(file_system \<times> 'm) tool \<Rightarrow> bool" where
  "keeps_files t \<longleftrightarrow> (\<forall>w params. fst (fst (tool_run t w params)) = fst w)"

text \<open>The file tool is registered, and the other tools of the list do not touch files.\<close>

definition read_tools :: "string list \<Rightarrow> (file_system \<times> 'm) tool \<Rightarrow> (file_system \<times> 'm) tool_registry \<Rightarrow> bool" where
  "read_tools allow t r \<longleftrightarrow> find_tool r ''file'' = Some t \<and>
     (\<forall>name t'. name \<in> set allow \<longrightarrow> name \<noteq> ''file'' \<longrightarrow> find_tool r name = Some t' \<longrightarrow> keeps_files t')"

lemma execute_tool_world:
  "fst (execute_tool r w name params) =
     (case find_tool r name of
        None \<Rightarrow> w
      | Some t \<Rightarrow> if validate_params (tool_def t) params = None then fst (tool_run t w params) else w)"
  by (auto simp: execute_tool_def get_tool_def split: option.split sum.split prod.split)

lemma filter_execute_keeps_files:
  assumes "read_tools allow (file_tool fenv ctx txt) r" "string_param params ''operation'' \<noteq> ''edit''"
  shows "fst (fst (filter_execute allow (execute_tool r) w name params)) = fst w"
proof (cases "name = ''file''")
  case True
  show ?thesis
  proof (cases "file_action params \<in> set file_write_actions")
    case False
    with assms(2) have "string_param params ''operation'' \<notin> {''write'', ''edit'', ''append''}"
      by (auto simp: file_action_def file_write_actions_def Let_def split: if_splits)
    from file_execute_keeps [OF this, of fenv ctx "fst w"]
    have "fst (fst (tool_run (file_tool fenv ctx txt) w params)) = fst w"
      by (cases w) (auto simp: file_tool_def split: prod.splits sum.splits)
    with False assms(1) True show ?thesis
      by (simp add: filter_execute_def read_tools_def execute_tool_world)
  qed (simp add: filter_execute_def True)
next
  case False
  show ?thesis
  proof (cases "name \<in> set allow \<and> find_tool r name \<noteq> None")
    case True
    then obtain t where t: "find_tool r name = Some t" by blast
    with True False assms(1) have "keeps_files t" by (simp add: read_tools_def)
    then have "fst (fst (tool_run t w params)) = fst w" by (simp only: keeps_files_def)
    with t False show ?thesis by (simp add: filter_execute_def execute_tool_world)
  next
    case F: False
    then show ?thesis using False by (auto simp: filter_execute_def execute_tool_world)
  qed
qed

text \<open>The model, the operator and the records of an agent do not touch files, and the model asks for no edit.\<close>

definition quiet_outside :: "(file_system \<times> 'm, 'x) react_env_scheme \<Rightarrow> bool" where
  "quiet_outside env \<longleftrightarrow>
     (\<forall>w c. fst (fst (re_route env w c)) = fst w) \<and>
     (\<forall>ask w n a. re_approval env = Some ask \<longrightarrow> fst (fst (ask w n a)) = fst w) \<and>
     (\<forall>store w s ok. re_remember env = Some store \<longrightarrow> fst (store w s ok) = fst w) \<and>
     (\<forall>w rec. fst (re_record env w rec) = fst w)"

definition asks_no_edit :: "('w, 'x) react_env_scheme \<Rightarrow> bool" where
  "asks_no_edit env \<longleftrightarrow>
     (\<forall>json params. re_unmarshal env json = Inr params \<longrightarrow> string_param params ''operation'' \<noteq> ''edit'')"

lemma act_filtered_keeps:
  assumes "re_tools env = Some (filter_execute allow (execute_tool r))" "read_tools allow (file_tool fenv ctx txt) r"
    "asks_no_edit env"
  shows "fst (fst (act env w tc)) = fst w"
proof (cases "parse_tool_call_arguments (re_unmarshal env) (tc_arguments tc)")
  case (Inr params)
  with assms(3) have "string_param params ''operation'' \<noteq> ''edit''"
    by (auto simp: parse_tool_call_arguments_def asks_no_edit_def string_param_def split: if_splits sum.splits)
  from filter_execute_keeps_files [OF assms(2) this, of w "tc_name tc"] assms(1) Inr show ?thesis
    by (cases "filter_execute allow (execute_tool r) w (tc_name tc) params") (auto simp: act_def split: sum.splits)
qed (simp add: act_def assms(1))

lemma filtered_world_kept:
  assumes "re_tools env = Some (filter_execute allow (execute_tool r))" "read_tools allow (file_tool fenv ctx txt) r"
    "asks_no_edit env" "quiet_outside env"
  shows "world_kept env (\<lambda>w. fst w = fs)"
  using assms(4) act_filtered_keeps [OF assms(1-3)]
  unfolding world_kept_def quiet_outside_def by (intro conjI allI impI) auto

lemma fst_worker_answer: "fst (worker_answer run) = fst run"
  by (cases run) (auto simp: worker_answer_def split: option.split)

section \<open>Properties\<close>


text \<open>An agent with the file tool and a terminal that destroys every file.\<close>

definition wiping_terminal :: "(file_system \<times> nat) tool" where
  "wiping_terminal =
     \<lparr>tool_def = \<lparr>td_name = ''terminal'', td_description = [], td_parameters = []\<rparr>,
      tool_run = (\<lambda>(fs, m) params. ((fs\<lparr>fs_files := Map.empty\<rparr>, m), Inr []))\<rparr>"

definition project_fs :: file_system where
  "project_fs = \<lparr>fs_files = [''/w/main.go'' \<mapsto> ''package old''], fs_dirs = (\<lambda>d. d = ''/w''), fs_fail = (\<lambda>_. None)\<rparr>"

definition project_env :: file_env where
  "project_env = demo_file_env\<lparr>fe_cwd := ''/w''\<rparr>"

definition project_tools :: "(file_system \<times> nat) tool_registry" where
  "project_tools = [''file'' \<mapsto> file_tool project_env \<lparr>tx_workspace = [], tx_sandbox = []\<rparr> (\<lambda>e. ''failed''),
     ''terminal'' \<mapsto> wiping_terminal]"

definition project_agent :: "(file_system \<times> nat) react_env" where
  "project_agent =
     \<lparr>re_config = \<lparr>rc_max_iterations = 5, rc_max_continuations = 1, rc_system_prompt = [], rc_max_tokens = 8192,
        rc_max_context_tokens = 8000, rc_enable_memory = False\<rparr>,
      re_inject = (\<lambda>t. []),
      re_route = (\<lambda>(fs, n) c. ((fs, n + 1), Inr (if n < 2 then
         \<lparr>lr_content = [], lr_calls = [\<lparr>tc_id = ''a'', tc_name = ''terminal'', tc_arguments = ''{}''\<rparr>],
          lr_completion_tokens = 0\<rparr> else \<lparr>lr_content = ''found it'', lr_calls = [], lr_completion_tokens = 0\<rparr>))),
      re_tools = Some (execute_tool project_tools), re_unmarshal = (\<lambda>s. Inr Map.empty), re_marshal = (\<lambda>v. []),
      re_nano = (\<lambda>w. 0), re_approval = None, re_schedule = (\<lambda>w is. is), re_remember = None, re_record = (\<lambda>w r. w)\<rparr>"

lemma project_read_tools:
  "read_tools explore_allowlist (file_tool project_env \<lparr>tx_workspace = [], tx_sandbox = []\<rparr> (\<lambda>e. ''failed'')) project_tools"
  by (auto simp: read_tools_def find_tool_def project_tools_def explore_allowlist_def)


text \<open>
  The filter that is meant to block every write lets an \<open>edit\<close> through: when a path resolves to a file that
  can be written and holds the old text, the call of an explore worker replaces it on disk.
\<close>

lemma explore_edit_changes_file:
  assumes "find_tool r ''file'' = Some (file_tool fenv ctx txt)"
    "resolve_file_path fenv fs ctx path = Inr p" "path \<noteq> []"
    "os_read fs p = Inr content" "fs_dirs fs (dir_path p)" "old \<noteq> []" "contains_str content old"
  shows "fs_files (fst (fst (filter_execute explore_allowlist (execute_tool r) (fs, m) ''file''
      [''operation'' \<mapsto> GoString ''edit'', ''path'' \<mapsto> GoString path, ''old_string'' \<mapsto> GoString old,
       ''new_string'' \<mapsto> GoString new]))) p = Some (replace_first content old new)"
proof -
  let ?params = "[''operation'' \<mapsto> GoString ''edit'', ''path'' \<mapsto> GoString path, ''old_string'' \<mapsto> GoString old,
       ''new_string'' \<mapsto> GoString new] :: go_params"
  have valid: "validate_params file_tool_definition ?params = None"
    by (simp add: validate_params_def file_tool_definition_def plain_parameter_def validate_param_def validate_type_def
        validate_enum_def)
  have pass: "file_action ?params \<notin> set file_write_actions"
    by (simp add: file_action_def string_param_def file_write_actions_def)
  have "fs_fail fs p = None" "\<not> fs_dirs fs p"
    using assms(4) by (auto simp: os_read_def split: option.splits if_splits)
  with assms(5) have w: "os_write fs p c = Inr (fs\<lparr>fs_files := (fs_files fs)(p \<mapsto> c)\<rparr>)" for c
    by (simp add: os_write_def)
  have "fst (file_execute fenv ctx fs ?params) = fs\<lparr>fs_files := (fs_files fs)(p \<mapsto> replace_first content old new)\<rparr>"
    using assms(2-7) by (simp add: file_execute_def edit_file_def w Let_def)
  then have run: "fst (tool_run (file_tool fenv ctx txt) (fs, m) ?params) =
      (fs\<lparr>fs_files := (fs_files fs)(p \<mapsto> replace_first content old new)\<rparr>, m)"
    by (auto simp: file_tool_def split: prod.split sum.split)
  with assms(1) valid pass run show ?thesis
    by (simp add: filter_execute_def execute_tool_world explore_allowlist_def)
qed

lemma explore_edit_changes_file_witness:
  "fs_files (fst (fst (filter_execute explore_allowlist (execute_tool project_tools) (project_fs, 0) ''file''
      [''operation'' \<mapsto> GoString ''edit'', ''path'' \<mapsto> GoString ''main.go'', ''old_string'' \<mapsto> GoString ''old'',
       ''new_string'' \<mapsto> GoString ''new'']))) ''/w/main.go'' = Some (replace_first ''package old'' ''old'' ''new'')"
proof (rule explore_edit_changes_file)
  show "find_tool project_tools ''file'' =
      Some (file_tool project_env \<lparr>tx_workspace = [], tx_sandbox = []\<rparr> (\<lambda>e. ''failed''))"
    by (simp add: find_tool_def project_tools_def)
  show "resolve_file_path project_env project_fs \<lparr>tx_workspace = [], tx_sandbox = []\<rparr> ''main.go'' = Inr ''/w/main.go''"
    by code_simp
  show "os_read project_fs ''/w/main.go'' = Inr ''package old''" by (simp add: os_read_def project_fs_def)
  show "fs_dirs project_fs (dir_path ''/w/main.go'')" by code_simp
  show "contains_str ''package old'' ''old''" by simp
qed simp_all

text \<open>What the patterns for the terminal of the QA worker miss, and what they block without need.\<close>

lemma terminal_patterns_miss:
  "\<not> command_writes_to_file ''touch main.go''" "\<not> command_writes_to_file ''git checkout -- .''"
  "\<not> command_writes_to_file ''mkdir out''" "command_writes_to_file ''terraform plan''"
  "command_writes_to_file ''go test 2>/dev/null''"
  by code_simp+

text \<open>A reference of the model is handed to git as it is, options included.\<close>

lemma git_ref_unchecked:
  "ref \<noteq> [] \<Longrightarrow> git_args [''operation'' \<mapsto> GoString ''diff'', ''ref'' \<mapsto> GoString ref] = Inr [''diff'', ''--stat'', ref]"
  by (simp add: git_args_def string_param_def)

end
