(* ===== verification/Delegation.thy ===== *)
theory Delegation
  imports Tool_Registry
begin

text \<open>
  The delegation tool (\<open>internal/tool/builtin/delegation.go\<close>): the registry of sub-tasks, the semaphore of three
  slots, and the actions \<open>spawn\<close>, \<open>list\<close>, \<open>status\<close>, \<open>wait\<close> and \<open>wait_all\<close>. The goroutines are a step relation:
  a spawned task may start when a slot is free and finishes with the answer of the callback, in any order. A wait
  is a function of the states that its ticker shows it and of how its context ends. Times are numbers, and how
  they are printed, and the order in which Go walks the map, are arguments.
\<close>

section \<open>State\<close>

datatype sub_status = SubPending | SubRunning | SubCompleted | SubFailed

fun sub_status_text :: "sub_status \<Rightarrow> string" where
  "sub_status_text SubPending = ''pending''"
| "sub_status_text SubRunning = ''running''"
| "sub_status_text SubCompleted = ''completed''"
| "sub_status_text SubFailed = ''failed''"

record delegate_task =
  dt_id :: string
  dt_goal :: string
  dt_context :: string
  dt_status :: sub_status
  dt_result :: string
  dt_error :: string
  dt_created :: int
  dt_started :: "int option"
  dt_completed :: "int option"

record delegation =
  dl_tasks :: "(string \<times> delegate_task) list"
  dl_slots :: nat
  dl_counter :: nat
  dl_has_callback :: bool

definition max_parallel :: nat where
  "max_parallel = 3"

definition new_delegation :: delegation where
  "new_delegation = \<lparr>dl_tasks = [], dl_slots = 0, dl_counter = 0, dl_has_callback = False\<rparr>"

definition set_callback :: "delegation \<Rightarrow> delegation" where
  "set_callback d = d\<lparr>dl_has_callback := True\<rparr>"

definition load_task :: "delegation \<Rightarrow> string \<Rightarrow> delegate_task option" where
  "load_task d tid = map_of (dl_tasks d) tid"

definition task_id :: "nat \<Rightarrow> nat \<Rightarrow> string" where
  "task_id unix n = ''task-'' @ itoa (int unix) @ ''-'' @ itoa (int n)"

section \<open>Spawning and running\<close>

definition new_task :: "string \<Rightarrow> int \<Rightarrow> string \<Rightarrow> string \<Rightarrow> delegate_task" where
  "new_task tid now goal ctx =
     \<lparr>dt_id = tid, dt_goal = goal, dt_context = ctx, dt_status = SubPending, dt_result = [], dt_error = [],
      dt_created = now, dt_started = None, dt_completed = None\<rparr>"

definition spawned :: "nat \<Rightarrow> int \<Rightarrow> string \<Rightarrow> string \<Rightarrow> delegation \<Rightarrow> delegation" where
  "spawned unix now goal ctx d =
     (let n = dl_counter d + 1; tid = task_id unix n
      in d\<lparr>dl_counter := n, dl_tasks := dl_tasks d @ [(tid, new_task tid now goal ctx)]\<rparr>)"

definition text_param :: "go_params \<Rightarrow> string \<Rightarrow> string" where
  "text_param params key = (case params key of Some (GoString s) \<Rightarrow> s | _ \<Rightarrow> [])"

definition spawn_task :: "nat \<Rightarrow> int \<Rightarrow> go_params \<Rightarrow> delegation \<Rightarrow> delegation \<times> (string + string)" where
  "spawn_task unix now params d =
     (let goal = text_param params ''goal''
      in if goal = [] then (d, Inl ''goal parameter is required for spawn action'')
         else if \<not> dl_has_callback d then 
           (d, Inl (''delegation callback not set '' @ [CHR 0xE2, CHR 0x80, CHR 0x94] @ '' cannot execute sub-tasks''))
         else (spawned unix now goal (text_param params ''context'') d,
               Inr (''Task '' @ task_id unix (dl_counter d + 1) @ '' spawned successfully. Goal: '' @ goal)))"

definition update_task :: "string \<Rightarrow> (delegate_task \<Rightarrow> delegate_task) \<Rightarrow> delegation \<Rightarrow> delegation" where
  "update_task tid f d = d\<lparr>dl_tasks := map (\<lambda>(k, t). (k, if k = tid then f t else t)) (dl_tasks d)\<rparr>"

text \<open>\<open>executeTask\<close> up to the callback, and after it.\<close>

definition begin_task :: "string \<Rightarrow> int \<Rightarrow> delegation \<Rightarrow> delegation" where
  "begin_task tid now d =
     update_task tid (\<lambda>t. t\<lparr>dt_status := SubRunning, dt_started := Some now\<rparr>) (d\<lparr>dl_slots := dl_slots d + 1\<rparr>)"

definition finish_task :: "string \<Rightarrow> int \<Rightarrow> string + string \<Rightarrow> delegation \<Rightarrow> delegation" where
  "finish_task tid now res d =
     update_task tid
       (\<lambda>t. case res of
              Inl e \<Rightarrow> t\<lparr>dt_completed := Some now, dt_status := SubFailed, dt_error := e\<rparr>
            | Inr out \<Rightarrow> t\<lparr>dt_completed := Some now, dt_status := SubCompleted, dt_result := out\<rparr>)
       (d\<lparr>dl_slots := dl_slots d - 1\<rparr>)"

datatype delegation_event =
    Spawn nat int string string
  | Start string int
  | Finish string int "string + string"

inductive delegation_step :: "delegation \<Rightarrow> delegation_event \<Rightarrow> delegation \<Rightarrow> bool" where
  spawn: "goal \<noteq> [] \<Longrightarrow> delegation_step d (Spawn unix now goal ctx) (spawned unix now goal ctx d)"
| start: "load_task d tid = Some t \<Longrightarrow> dt_status t = SubPending \<Longrightarrow> dl_slots d < max_parallel \<Longrightarrow>
    delegation_step d (Start tid now) (begin_task tid now d)"
| finish: "load_task d tid = Some t \<Longrightarrow> dt_status t = SubRunning \<Longrightarrow>
    delegation_step d (Finish tid now res) (finish_task tid now res d)"

inductive_cases stepE: "delegation_step d e d'"

text \<open>A run with the states that follow its events.\<close>

inductive delegation_run :: "delegation \<Rightarrow> delegation_event list \<Rightarrow> delegation list \<Rightarrow> bool" where
  idle: "delegation_run d [] []"
| step: "delegation_step d e d1 \<Longrightarrow> delegation_run d1 es ds \<Longrightarrow> delegation_run d (e # es) (d1 # ds)"

inductive_simps run_simps: "delegation_run d [] ds" "delegation_run d (e # es) ds"

section \<open>Waiting\<close>

datatype wait_stop = DeadlineReached | ContextCancelled

definition unfinished :: "delegate_task \<Rightarrow> bool" where
  "unfinished t \<longleftrightarrow> dt_status t = SubPending \<or> dt_status t = SubRunning"

text \<open>The answer of \<open>wait\<close> for a task that it sees, when there is one.\<close>

definition wait_answer :: "string \<Rightarrow> delegate_task \<Rightarrow> (string + string) option" where
  "wait_answer tid t =
     (if dt_status t = SubCompleted
      then Some (Inr (''Task '' @ tid @ '' completed.'' @ [CHR 0x0A] @ ''Result:'' @ [CHR 0x0A] @ dt_result t))
      else if dt_status t = SubFailed then Some (Inl (''task '' @ tid @ '' failed: '' @ dt_error t))
      else None)"

fun wait_ticks :: "string \<Rightarrow> delegation list \<Rightarrow> wait_stop \<Rightarrow> string + string" where
  "wait_ticks tid [] DeadlineReached = Inl (''timeout waiting for task '' @ tid)"
| "wait_ticks tid [] ContextCancelled = Inl (''context canceled while waiting for task '' @ tid)"
| "wait_ticks tid (d # ds) stop =
     (case load_task d tid of
        None \<Rightarrow> wait_ticks tid ds stop
      | Some t \<Rightarrow> (case wait_answer tid t of Some r \<Rightarrow> r | None \<Rightarrow> wait_ticks tid ds stop))"

definition wait_task :: "go_params \<Rightarrow> delegation \<Rightarrow> delegation list \<Rightarrow> wait_stop \<Rightarrow> string + string" where
  "wait_task params d ticks stop =
     (let tid = text_param params ''task_id''
      in if tid = [] then Inl ''task_id parameter is required for wait action''
         else case load_task d tid of
           None \<Rightarrow> Inl (''task not found: '' @ tid)
         | Some t \<Rightarrow> (case wait_answer tid t of Some r \<Rightarrow> r | None \<Rightarrow> wait_ticks tid ticks stop))"

text \<open>The mark of a task in the summary, the preview of its result, and whether it passes.\<close>

definition result_preview :: "string \<Rightarrow> string" where
  "result_preview r = (if length r > 200 then take 200 r @ ''...'' else r)"

definition verdict :: "delegate_task \<Rightarrow> string \<times> string \<times> bool" where
  "verdict t =
     (case dt_status t of
        SubCompleted \<Rightarrow>
          (let preview = result_preview (dt_result t)
           in if contains_str preview ''[WARNING]'' \<or> length (trim_space (dt_result t)) < 20
              then (''[SUSPECT]'', preview, False) else (''[PASS]'', preview, True))
      | SubFailed \<Rightarrow> (''[FAIL]'', ''Error: '' @ dt_error t, False)
      | _ \<Rightarrow> (''[TIMEOUT]'', ''Task did not complete within timeout'', False))"

definition passes :: "delegate_task \<Rightarrow> bool" where
  "passes t = snd (snd (verdict t))"

definition summary_line :: "nat \<Rightarrow> string \<Rightarrow> delegate_task \<Rightarrow> string" where
  "summary_line i tid t =
     (let (marker, preview, _) = verdict t; nl = [CHR 0x0A]
      in itoa (int i) @ ''. '' @ marker @ '' '' @ tid @ nl @ ''   Goal: '' @ dt_goal t @ nl @
         ''   Status: '' @ sub_status_text (dt_status t) @ nl @
         (if preview \<noteq> [] then ''   Result: '' @ preview @ nl else []) @ nl)"

definition incomplete_warning :: string where
  "incomplete_warning =
     ''WARNING: Some tasks may be incomplete. You MUST verify the output files exist and have real content. If a task failed or produced incomplete output, RE-DELEGATE it with action=spawn.'' @ [CHR 0x0A]"

definition wait_all_summary :: "string list \<Rightarrow> delegation \<Rightarrow> string" where
  "wait_all_summary tids d =
     (let seen = List.map_filter (\<lambda>(i, tid). map_option (\<lambda>t. (i, tid, t)) (load_task d tid)) (zip [1..<length tids + 1] tids);
          ok = filter (\<lambda>(i, tid, t). passes t) seen; bad = filter (\<lambda>(i, tid, t). \<not> passes t) seen; nl = [CHR 0x0A]
      in ''=== DELEGATION RESULTS ('' @ itoa (int (length tids)) @ '' tasks) ==='' @ nl @ nl @
         concat (map (\<lambda>(i, tid, t). summary_line i tid t) seen) @
         ''=== SUMMARY: '' @ itoa (int (length ok)) @ '' PASS, '' @ itoa (int (length bad)) @ '' FAIL/SUSPECT ==='' @ nl @
         (if bad \<noteq> [] then incomplete_warning else []))"

definition all_done :: "string list \<Rightarrow> delegation \<Rightarrow> bool" where
  "all_done tids d = list_all (\<lambda>tid. case load_task d tid of None \<Rightarrow> True | Some t \<Rightarrow> \<not> unfinished t) tids"

text \<open>
  The states at the ticks before the deadline; \<open>final\<close> is the state when it is reached. The result tells, besides
  the text, whether the loop ended because all tasks were done.
\<close>

fun wait_all_ticks :: "string list \<Rightarrow> delegation list \<Rightarrow> delegation \<Rightarrow> wait_stop \<Rightarrow> bool \<times> (string + string)" where
  "wait_all_ticks tids [] final DeadlineReached = (False, Inr (wait_all_summary tids final))"
| "wait_all_ticks tids [] final ContextCancelled = (False, Inl ''context canceled while waiting for all tasks'')"
| "wait_all_ticks tids (d # ds) final stop =
     (if all_done tids d then (True, Inr (wait_all_summary tids d)) else wait_all_ticks tids ds final stop)"

definition wait_all_tasks ::
  "(string list \<Rightarrow> string list) \<Rightarrow> delegation \<Rightarrow> delegation list \<Rightarrow> delegation \<Rightarrow> wait_stop
     \<Rightarrow> bool \<times> (string + string)" where
  "wait_all_tasks walk d ticks final stop =
     (let tids = walk (map fst (dl_tasks d))
      in if tids = [] then (True, Inr ''No delegated tasks found.'')
         else wait_all_ticks tids (d # ticks) final stop)"

section \<open>Listing\<close>

record time_text =
  tt_time :: "int \<Rightarrow> string"
  tt_duration :: "int \<Rightarrow> string"

definition optional_line :: "string \<Rightarrow> string \<Rightarrow> string" where
  "optional_line label s = (if s \<noteq> [] then label @ s @ [CHR 0x0A] else [])"

definition task_times :: "time_text \<Rightarrow> string \<Rightarrow> delegate_task \<Rightarrow> string" where
  "task_times tt indent t =
     (let nl = [CHR 0x0A];
          duration = (case (dt_started t, dt_completed t) of
                        (Some a, Some b) \<Rightarrow> tt_duration tt (b - a) | _ \<Rightarrow> ''N/A'')
      in indent @ ''Created: '' @ tt_time tt (dt_created t) @ nl @
         (case dt_started t of None \<Rightarrow> [] | Some a \<Rightarrow> indent @ ''Started: '' @ tt_time tt a @ nl) @
         (case dt_completed t of
            None \<Rightarrow> []
          | Some b \<Rightarrow> indent @ ''Completed: '' @ tt_time tt b @ nl @ indent @ ''Duration: '' @ duration @ nl))"

definition list_tasks :: "time_text \<Rightarrow> (string list \<Rightarrow> string list) \<Rightarrow> delegation \<Rightarrow> string" where
  "list_tasks tt walk d =
     (let tids = walk (map fst (dl_tasks d)); ts = List.map_filter (load_task d) tids; nl = [CHR 0x0A]
      in if tids = [] then ''No delegated tasks found.''
         else ''Found '' @ itoa (int (length ts)) @ '' delegated task(s):'' @ nl @ nl @
           concat (map (\<lambda>(i, t). itoa (int i) @ ''. ['' @ sub_status_text (dt_status t) @ ''] '' @ dt_id t @ nl @
                      ''   Goal: '' @ dt_goal t @ nl @ optional_line ''   Context: '' (dt_context t) @
                      task_times tt ''   '' t @ nl) (zip [1..<length ts + 1] ts)))"

definition status_task :: "time_text \<Rightarrow> go_params \<Rightarrow> delegation \<Rightarrow> string + string" where
  "status_task tt params d =
     (let tid = text_param params ''task_id''; nl = [CHR 0x0A]
      in if tid = [] then Inl ''task_id parameter is required for status action''
         else case load_task d tid of
           None \<Rightarrow> Inl (''task not found: '' @ tid)
         | Some t \<Rightarrow>
             Inr (''Task: '' @ dt_id t @ nl @ ''Status: '' @ sub_status_text (dt_status t) @ nl @
                  ''Goal: '' @ dt_goal t @ nl @ optional_line ''Context: '' (dt_context t) @ task_times tt [] t @
                  (if dt_result t \<noteq> [] then nl @ ''Result:'' @ nl @ dt_result t @ nl else []) @
                  (if dt_error t \<noteq> [] then nl @ ''Error: '' @ dt_error t @ nl else [])))"

text \<open>The actions; what a wait sees is given for the case that the action is one.\<close>

record wait_env =
  we_unix :: nat
  we_now :: int
  we_times :: time_text
  we_walk :: "string list \<Rightarrow> string list"
  we_ticks :: "delegation list"
  we_final :: delegation
  we_stop :: wait_stop

definition delegation_execute :: "wait_env \<Rightarrow> go_params \<Rightarrow> delegation \<Rightarrow> delegation \<times> (string + string)" where
  "delegation_execute env params d =
     (let action = text_param params ''action''
      in if action = [] then (d, Inl ''action parameter is required'')
         else if action = ''spawn'' then spawn_task (we_unix env) (we_now env) params d
         else if action = ''list'' then (d, Inr (list_tasks (we_times env) (we_walk env) d))
         else if action = ''status'' then (d, status_task (we_times env) params d)
         else if action = ''wait'' then (d, wait_task params d (we_ticks env) (we_stop env))
         else if action = ''wait_all''
         then (d, snd (wait_all_tasks (we_walk env) d (we_ticks env) (we_final env) (we_stop env)))
         else (d, Inl (''unknown action: '' @ action)))"

section \<open>Lemmas\<close>

lemma load_update: "load_task (update_task tid f d) k = (if k = tid then map_option f (load_task d k) else load_task d k)"
proof -
  have "map_of (map (\<lambda>(k, t). (k, if k = tid then f t else t)) ts) k =
      (if k = tid then map_option f (map_of ts k) else map_of ts k)" for ts
    by (induction ts) auto
  then show ?thesis by (simp add: load_task_def update_task_def)
qed

lemma load_slots [simp]: "load_task (d\<lparr>dl_slots := n\<rparr>) = load_task d"
  by (simp add: load_task_def fun_eq_iff)

lemma keys_update [simp]: "map fst (dl_tasks (update_task tid f d)) = map fst (dl_tasks d)"
  by (auto simp: update_task_def)

lemma task_id_inject: "task_id u m = task_id v n \<Longrightarrow> m = n"
proof -
  assume eq: "task_id u m = task_id v n"
  have t: "takeWhile (\<lambda>c. c \<noteq> CHR ''-'') (rev (task_id u m)) = rev (dec_digits m)" for u m
  proof -
    have "CHR ''-'' \<notin> set (rev (dec_digits m))" using dec_digits_no [of "CHR ''-''" m] by (simp add: is_digit_def byte_def)
    then show ?thesis by (simp add: task_id_def itoa_nat)
  qed
  from t [of u m] t [of v n] eq show "m = n" by (metis dec_digits_inject rev_rev_ident)
qed

text \<open>The tasks that hold a slot are those that run, the names are fresh, and a name is that of its task.\<close>

definition running_tasks :: "delegation \<Rightarrow> (string \<times> delegate_task) list" where
  "running_tasks d = filter (\<lambda>(k, t). dt_status t = SubRunning) (dl_tasks d)"

definition delegation_ok :: "delegation \<Rightarrow> bool" where
  "delegation_ok d \<longleftrightarrow> dl_slots d = length (running_tasks d) \<and> dl_slots d \<le> max_parallel \<and>
     distinct (map fst (dl_tasks d)) \<and>
     list_all (\<lambda>k. \<exists>u n. k = task_id u n \<and> n \<le> dl_counter d) (map fst (dl_tasks d)) \<and>
     list_all (\<lambda>(k, t). dt_id t = k) (dl_tasks d)"

lemma running_update:
  assumes "distinct (map fst ts)" "map_of ts tid = Some t"
  shows "length (filter (\<lambda>(k, t). dt_status t = SubRunning) (map (\<lambda>(k, t). (k, if k = tid then f t else t)) ts)) +
      of_bool (dt_status t = SubRunning) =
    length (filter (\<lambda>(k, t). dt_status t = SubRunning) ts) + of_bool (dt_status (f t) = SubRunning)"
  using assms
proof (induction ts)
  case (Cons kt ts)
  obtain k u where kt: "kt = (k, u)" by force
  show ?case
  proof (cases "k = tid")
    case True
    with Cons.prems kt have "map (\<lambda>(k, t). (k, if k = tid then f t else t)) ts = ts"
      by (intro map_idI) (auto simp: rev_image_eqI)
    with True Cons.prems kt show ?thesis by auto
  next
    case False
    with Cons kt show ?thesis by auto
  qed
qed simp

lemma update_keeps_keys:
  assumes "list_all (\<lambda>(k, t). dt_id t = k) ts" "\<And>t. dt_id (f t) = dt_id t"
  shows "list_all (\<lambda>(k, t). dt_id t = k) (map (\<lambda>(k, t). (k, if k = tid then f t else t)) ts)"
  using assms by (induction ts) auto

lemma update_ok:
  assumes ok: "delegation_ok d" and t: "load_task d tid = Some t" and ids: "\<And>t. dt_id (f t) = dt_id t"
    and n: "n + of_bool (dt_status t = SubRunning) = dl_slots d + of_bool (dt_status (f t) = SubRunning)"
      "n \<le> max_parallel"
  shows "delegation_ok (update_task tid f (d\<lparr>dl_slots := n\<rparr>))"
proof -
  let ?d = "update_task tid f (d\<lparr>dl_slots := n\<rparr>)"
  have "length (running_tasks ?d) + of_bool (dt_status t = SubRunning) =
      length (running_tasks d) + of_bool (dt_status (f t) = SubRunning)"
    using running_update [of "dl_tasks d" tid t f] ok t
    by (simp add: delegation_ok_def running_tasks_def update_task_def load_task_def)
  with ok n have "dl_slots ?d = length (running_tasks ?d)"
    by (simp add: delegation_ok_def update_task_def)
  moreover have "map fst (dl_tasks ?d) = map fst (dl_tasks d)" by (simp add: update_task_def comp_def case_prod_beta)
  moreover have "list_all (\<lambda>(k, t). dt_id t = k) (dl_tasks ?d)"
    using update_keeps_keys [of "dl_tasks d" f tid] ok ids by (simp add: delegation_ok_def update_task_def)
  moreover have "dl_slots ?d = n" "dl_counter ?d = dl_counter d" by (simp_all add: update_task_def)
  ultimately show ?thesis using ok n(2) by (simp add: delegation_ok_def)
qed

lemma step_ok:
  assumes "delegation_step d e d'" "delegation_ok d"
  shows "delegation_ok d'"
  using assms
proof (induction rule: delegation_step.induct)
  case (spawn goal d unix now ctx)
  let ?id = "task_id unix (dl_counter d + 1)"
  have fresh: "?id \<notin> set (map fst (dl_tasks d))"
    using spawn.prems task_id_inject unfolding delegation_ok_def list_all_iff by fastforce
  have "\<exists>u n. k = task_id u n \<and> n \<le> dl_counter d + 1" if "k \<in> set (map fst (dl_tasks d))" for k
    using spawn.prems that unfolding delegation_ok_def list_all_iff by (metis le_SucI Suc_eq_plus1)
  with spawn.prems fresh show ?case
    by (auto simp: delegation_ok_def spawned_def new_task_def running_tasks_def Let_def list_all_iff)
next
  case (start d tid t now)
  show ?case unfolding begin_task_def
    by (rule update_ok [OF start.prems start.hyps(1)]) (use start.hyps in auto)
next
  case (finish d tid t now res)
  have "tid \<in> fst ` set (running_tasks d)"
    using finish.hyps by (force simp: running_tasks_def load_task_def dest: map_of_SomeD)
  then have "0 < dl_slots d" using finish.prems by (cases "running_tasks d") (auto simp: delegation_ok_def)
  with finish.prems show ?case unfolding finish_task_def
    by (intro update_ok [OF finish.prems finish.hyps(1)])
      (use finish.hyps in \<open>auto simp: delegation_ok_def split: sum.split\<close>)
qed

lemma run_ok: "delegation_run d es ds \<Longrightarrow> delegation_ok d \<Longrightarrow> list_all delegation_ok (d # ds)"
  by (induction rule: delegation_run.induct) (auto intro: step_ok)

text \<open>A task leaves its status only by an event of its own, and never leaves a final one.\<close>

lemma load_begin:
  "load_task (begin_task tid now d) k =
     (if k = tid then map_option (\<lambda>t. t\<lparr>dt_status := SubRunning, dt_started := Some now\<rparr>) (load_task d k)
      else load_task d k)"
  by (simp add: begin_task_def load_update)

lemma load_finish_other: "k \<noteq> tid \<Longrightarrow> load_task (finish_task tid now res d) k = load_task d k"
  by (simp add: finish_task_def load_update)

lemma load_spawned: "load_task d k = Some t \<Longrightarrow> load_task (spawned unix now goal ctx d) k = Some t"
  by (simp add: spawned_def load_task_def Let_def)

lemma step_keeps_status:
  assumes "delegation_step d e d'" "load_task d tid = Some t"
    "dt_status t \<noteq> SubPending" "dt_status t = SubRunning \<longrightarrow> (\<forall>now res. e \<noteq> Finish tid now res)"
  shows "load_task d' tid = Some t"
  using assms
proof (induction rule: delegation_step.induct)
  case (start d k u now)
  then show ?case by (auto simp: load_begin)
next
  case (finish d k u now res)
  then have "k \<noteq> tid" by auto
  with finish show ?case by (simp add: load_finish_other)
qed (rule load_spawned)

definition not_finish :: "string \<Rightarrow> delegation_event \<Rightarrow> bool" where
  "not_finish tid e = (case e of Finish k now res \<Rightarrow> k \<noteq> tid | _ \<Rightarrow> True)"

lemma run_keeps_status:
  assumes "delegation_run d es ds" "load_task d tid = Some t"
    "dt_status t \<noteq> SubPending" "dt_status t = SubRunning \<longrightarrow> list_all (not_finish tid) es"
  shows "list_all (\<lambda>d'. load_task d' tid = Some t) ds"
  using assms
proof (induction rule: delegation_run.induct)
  case (step d e d1 es ds)
  have "load_task d1 tid = Some t"
    by (rule step_keeps_status [OF step.hyps(1) step.prems(1,2)]) (use step.prems(3) in \<open>auto simp: not_finish_def\<close>)
  with step.IH [OF this step.prems(2)] step.prems(3) show ?case by auto
qed simp

lemma not_all_done: "tid \<in> set tids \<Longrightarrow> load_task d tid = Some t \<Longrightarrow> unfinished t \<Longrightarrow> \<not> all_done tids d"
  unfolding all_done_def list_all_iff by (metis option.simps(5))

lemma wait_all_ticks_blocked:
  "list_all (\<lambda>d. \<not> all_done tids d) ds \<Longrightarrow>
     wait_all_ticks tids ds final stop =
       (False, case stop of DeadlineReached \<Rightarrow> Inr (wait_all_summary tids final)
               | ContextCancelled \<Rightarrow> Inl ''context canceled while waiting for all tasks'')"
  by (induction ds) (cases stop; simp)+

lemma load_in_keys: "load_task d tid = Some t \<Longrightarrow> tid \<in> set (map fst (dl_tasks d))"
  by (force simp: load_task_def dest: map_of_SomeD)

lemma status_loaded: "map_option dt_status (load_task d tid) = Some s \<Longrightarrow> \<exists>t. load_task d tid = Some t \<and> dt_status t = s"
  by auto

section \<open>Properties\<close>


text \<open>Four sub-tasks are spawned and three of them started.\<close>

definition demo_spawn :: "delegation \<Rightarrow> delegation" where
  "demo_spawn d = spawned 7 0 ''write tests'' [] d"

definition demo_queue :: delegation where
  "demo_queue = demo_spawn (demo_spawn (demo_spawn (demo_spawn (set_callback new_delegation))))"

definition demo_started :: "nat \<Rightarrow> delegation" where
  "demo_started n = foldl (\<lambda>d k. begin_task (task_id 7 k) 1 d) demo_queue [1..<Suc n]"

lemma demo_spawn_step: "delegation_step d (Spawn 7 0 ''write tests'' []) (demo_spawn d)"
  unfolding demo_spawn_def by (rule delegation_step.spawn) simp

lemma demo_start_step:
  "n < 3 \<Longrightarrow> delegation_step (demo_started n) (Start (task_id 7 (Suc n)) 1) (demo_started (Suc n))"
proof -
  assume "n < 3"
  then consider "n = 0" | "n = 1" | "n = 2" by linarith
  then have "map_option dt_status (load_task (demo_started n) (task_id 7 (Suc n))) = Some SubPending \<and>
      dl_slots (demo_started n) < max_parallel"
    by cases (hypsubst, code_simp)+
  with status_loaded obtain t where "load_task (demo_started n) (task_id 7 (Suc n)) = Some t" "dt_status t = SubPending"
      "dl_slots (demo_started n) < max_parallel" by blast
  from delegation_step.start [OF this] show ?thesis by (simp add: demo_started_def)
qed

lemma demo_run:
  "delegation_run (set_callback new_delegation)
     [Spawn 7 0 ''write tests'' [], Spawn 7 0 ''write tests'' [], Spawn 7 0 ''write tests'' [],
      Spawn 7 0 ''write tests'' [], Start (task_id 7 1) 1, Start (task_id 7 2) 1, Start (task_id 7 3) 1]
     [demo_spawn (set_callback new_delegation), demo_spawn (demo_spawn (set_callback new_delegation)),
      demo_spawn (demo_spawn (demo_spawn (set_callback new_delegation))), demo_queue,
      demo_started 1, demo_started 2, demo_started 3]"
proof -
  have q: "demo_queue = demo_started 0" by (simp add: demo_started_def)
  have "delegation_run demo_queue [Start (task_id 7 1) 1, Start (task_id 7 2) 1, Start (task_id 7 3) 1]
      [demo_started 1, demo_started 2, demo_started 3]"
    using demo_start_step [of 0] demo_start_step [of 1] demo_start_step [of 2]
    unfolding q by (simp add: run_simps numeral_2_eq_2 numeral_3_eq_3)
  then show ?thesis using demo_spawn_step unfolding demo_queue_def by (simp add: run_simps)
qed


text \<open>
  A sub-agent that waits for all sub-tasks waits for itself: as long as its own task has not been finished,
  which happens only after its answer, \<open>wait_all\<close> sees it running at every tick and ends with the deadline or with
  its context, whatever the other tasks do.
\<close>

lemma subagent_wait_all_times_out:
  assumes "delegation_run d es ticks" "load_task d self = Some t" "dt_status t = SubRunning"
    "list_all (not_finish self) es" "\<forall>ks. set (walk ks) = set ks"
  shows "wait_all_tasks walk d ticks final stop =
    (False, case stop of DeadlineReached \<Rightarrow> Inr (wait_all_summary (walk (map fst (dl_tasks d))) final)
            | ContextCancelled \<Rightarrow> Inl ''context canceled while waiting for all tasks'')"
proof -
  let ?ids = "walk (map fst (dl_tasks d))"
  have self: "self \<in> set ?ids" using load_in_keys [OF assms(2)] assms(5) by auto
  then have "?ids \<noteq> []" by auto
  have "list_all (\<lambda>d'. load_task d' self = Some t) (d # ticks)"
    using run_keeps_status [OF assms(1,2)] assms(2-4) by simp
  then have "list_all (\<lambda>d'. \<not> all_done ?ids d') (d # ticks)"
    using not_all_done [OF self] assms(3) unfolding list_all_iff unfinished_def by blast
  from wait_all_ticks_blocked [OF this] \<open>?ids \<noteq> []\<close> show ?thesis
    by (simp only: wait_all_tasks_def Let_def if_False)
qed

lemma subagent_wait_all_times_out_witness:
  "wait_all_tasks (\<lambda>ks. ks) (demo_started 1) [demo_started 2, demo_started 3] (demo_started 3) DeadlineReached =
     (False, Inr (wait_all_summary (map fst (dl_tasks (demo_started 1))) (demo_started 3)))"
proof -
  have run: "delegation_run (demo_started 1) [Start (task_id 7 2) 1, Start (task_id 7 3) 1] [demo_started 2, demo_started 3]"
    using demo_start_step [of 1] demo_start_step [of 2] by (simp add: run_simps numeral_2_eq_2 numeral_3_eq_3)
  have "map_option dt_status (load_task (demo_started 1) (task_id 7 1)) = Some SubRunning" by code_simp
  from status_loaded [OF this] obtain t where "load_task (demo_started 1) (task_id 7 1) = Some t" "dt_status t = SubRunning" by blast
  from subagent_wait_all_times_out [OF run this, of "\<lambda>ks. ks" "demo_started 3" DeadlineReached]
  show ?thesis by (simp add: not_finish_def)
qed

lemma summary_warns:
  assumes "tid \<in> set tids" "load_task d tid = Some t" "\<not> passes t"
  shows "suffix incomplete_warning (wait_all_summary tids d)"
proof -
  let ?seen = "List.map_filter (\<lambda>(i, k). map_option (\<lambda>t. (i, k, t)) (load_task d k)) (zip [1..<length tids + 1] tids)"
  obtain n where "n < length tids" "tids ! n = tid" using assms(1) by (auto simp: in_set_conv_nth)
  then have n: "(n + 1, tid) \<in> set (zip [1..<length tids + 1] tids)"
    unfolding in_set_zip by (intro exI [where x = n]) (simp del: upt_Suc)
  have "(n + 1, tid, t) \<in> set ?seen"
    unfolding List.map_filter_def set_map set_filter using n assms(2)
    by (intro image_eqI [where x = "(n + 1, tid)"]) simp_all
  with assms(3) have "(n + 1, tid, t) \<in> set (filter (\<lambda>(i, k, t). \<not> passes t) ?seen)" by simp
  then have bad: "(filter (\<lambda>(i, k, t). \<not> passes t) ?seen \<noteq> []) = True"
    by (metis empty_iff empty_set)
  show ?thesis
    unfolding wait_all_summary_def Let_def
    by (simp only: bad if_True) (intro suffix_appendI suffix_order.refl)
qed

text \<open>
  A failed sub-task is held against every later wait: it stays failed in the registry, so that each summary ends
  with the warning to delegate again, also after it was delegated again and everything succeeded.
\<close>

lemma failed_task_taints_every_summary:
  assumes "delegation_run d es ds" "load_task d tid = Some t" "dt_status t = SubFailed" "\<forall>ks. set (walk ks) = set ks"
  shows "list_all (\<lambda>d'. suffix incomplete_warning (wait_all_summary (walk (map fst (dl_tasks d'))) d')) ds"
proof -
  have "\<not> passes t" using assms(3) by (simp add: passes_def verdict_def)
  moreover have "list_all (\<lambda>d'. load_task d' tid = Some t) ds"
    using run_keeps_status [OF assms(1,2)] assms(3) by simp
  ultimately show ?thesis
    unfolding list_all_iff using summary_warns load_in_keys assms(4) by metis
qed

definition demo_failed :: delegation where
  "demo_failed = finish_task (task_id 7 1) 2 (Inl ''no provider'') (begin_task (task_id 7 1) 1 (demo_spawn new_delegation))"

definition demo_redone :: delegation where
  "demo_redone = finish_task (task_id 7 2) 4 (Inr ''wrote and verified all the tests'')
     (begin_task (task_id 7 2) 3 (demo_spawn demo_failed))"

lemma demo_redone_run:
  "delegation_run demo_failed
     [Spawn 7 0 ''write tests'' [], Start (task_id 7 2) 3,
      Finish (task_id 7 2) 4 (Inr ''wrote and verified all the tests'')]
     [demo_spawn demo_failed, begin_task (task_id 7 2) 3 (demo_spawn demo_failed), demo_redone]"
proof -
  let ?a = "demo_spawn demo_failed" and ?b = "begin_task (task_id 7 2) 3 (demo_spawn demo_failed)"
  have "map_option dt_status (load_task ?a (task_id 7 2)) = Some SubPending" "dl_slots ?a < max_parallel"
    by code_simp+
  with status_loaded have a: "delegation_step ?a (Start (task_id 7 2) 3) ?b" by (metis delegation_step.start)
  have "map_option dt_status (load_task ?b (task_id 7 2)) = Some SubRunning" by code_simp
  from status_loaded [OF this] have "delegation_step ?b (Finish (task_id 7 2) 4 (Inr ''wrote and verified all the tests'')) demo_redone"
    unfolding demo_redone_def by (auto intro: delegation_step.finish)
  with a show ?thesis by (simp add: run_simps demo_spawn_step)
qed

lemma failed_task_taints_every_summary_witness:
  "suffix incomplete_warning (wait_all_summary (map fst (dl_tasks demo_redone)) demo_redone) \<and>
   all_done (map fst (dl_tasks demo_redone)) demo_redone"
proof
  have "map_option dt_status (load_task demo_failed (task_id 7 1)) = Some SubFailed" by code_simp
  from status_loaded [OF this] obtain t where "load_task demo_failed (task_id 7 1) = Some t" "dt_status t = SubFailed" by blast
  from failed_task_taints_every_summary [OF demo_redone_run this, of "\<lambda>ks. ks"]
  show "suffix incomplete_warning (wait_all_summary (map fst (dl_tasks demo_redone)) demo_redone)" by simp
  show "all_done (map fst (dl_tasks demo_redone)) demo_redone" by code_simp
qed

end
