(* ===== verification/Orchestrator.thy ===== *)
theory Orchestrator
  imports Role_Registry Task_Router Read_Only_Filter Delegation Hitl_Retry Memory_Store
begin

text \<open>
  The orchestrator (\<open>internal/orchestrator/orchestrator.go\<close>, \<open>workspace.go\<close>, \<open>runlog.go\<close>, \<open>delegation.go\<close>): how a
  task passes through it. It puts together the router (\<open>Task_Router\<close>), the roles (\<open>Role_Registry\<close>), the retry loop
  (\<open>Hitl_Retry\<close>), the memory (\<open>Memory_Store\<close>) and the read-only workers (\<open>Read_Only_Filter\<close>), and prepares and
  finishes the workspace of a task. What a role does to files and memory while it runs, the clock, the fresh
  identifiers, JSON and the printing of times are the environment. Spans, metrics and log lines are left out.
\<close>

section \<open>Configuration and paths\<close>

record site_config =
  oc_cwd :: string
  oc_tasks_dir :: string
  oc_log_enabled :: bool
  oc_log_dir :: string

definition task_dir :: "site_config \<Rightarrow> string \<Rightarrow> string" where
  "task_dir cfg job =
     (if oc_tasks_dir cfg = [] \<or> job = [] then [] else abs_path (oc_cwd cfg) (join_path [oc_tasks_dir cfg, job]))"

definition prepare_workspace :: "site_config \<Rightarrow> string \<Rightarrow> file_system \<Rightarrow> file_system \<times> (os_error + string)" where
  "prepare_workspace cfg job fs =
     (if oc_tasks_dir cfg = [] \<or> job = [] then (fs, Inr [])
      else
        let dir = abs_path (oc_cwd cfg) (join_path [oc_tasks_dir cfg, job, ''deliverable''])
        in case os_mkdir_all fs dir of
             Inl e \<Rightarrow> (fs, Inl e)
           | Inr fs1 \<Rightarrow> (fs1, Inr dir))"

text \<open>The walk gives the entries below a directory.\<close>

definition workspace_is_empty :: "(file_system \<Rightarrow> string \<Rightarrow> dir_entry list) \<Rightarrow> file_system \<Rightarrow> string \<Rightarrow> bool" where
  "workspace_is_empty walk fs base_dir = list_all (\<lambda>(p, dir, size). dir) (walk fs base_dir)"

definition below :: "string \<Rightarrow> string \<Rightarrow> bool" where
  "below base_dir p \<longleftrightarrow> prefix (components base_dir) (components p)"

definition os_remove_all :: "file_system \<Rightarrow> string \<Rightarrow> file_system" where
  "os_remove_all fs base_dir =
     fs\<lparr>fs_files := (\<lambda>p. if below base_dir p then None else fs_files fs p),
        fs_dirs := (\<lambda>p. fs_dirs fs p \<and> \<not> below base_dir p)\<rparr>"

definition cleanup_if_empty ::
  "(file_system \<Rightarrow> string \<Rightarrow> dir_entry list) \<Rightarrow> site_config \<Rightarrow> string \<Rightarrow> file_system \<Rightarrow> file_system" where
  "cleanup_if_empty walk cfg job fs =
     (let base_dir = task_dir cfg job
      in if base_dir = [] then fs
         else if \<not> fs_dirs fs base_dir then fs
         else if \<not> workspace_is_empty walk fs base_dir then fs
         else os_remove_all fs base_dir)"

text \<open>The log of one run; the date is already printed.\<close>

definition run_log_path :: "site_config \<Rightarrow> string \<Rightarrow> string \<Rightarrow> string" where
  "run_log_path cfg job date =
     (if \<not> oc_log_enabled cfg \<or> oc_log_dir cfg = [] \<or> job = [] then []
      else join_path [oc_log_dir cfg, date, ''run_'' @ job @ ''.log''])"

definition open_run_logger :: "site_config \<Rightarrow> string \<Rightarrow> string \<Rightarrow> file_system \<Rightarrow> file_system \<times> string" where
  "open_run_logger cfg job date fs =
     (let path = run_log_path cfg job date; full = abs_path (oc_cwd cfg) path
      in if path = [] then (fs, [])
         else case os_mkdir_all fs (dir_path full) of
           Inl e \<Rightarrow> (fs, [])
         | Inr fs1 \<Rightarrow>
             let old = (case fs_files fs1 full of None \<Rightarrow> [] | Some c \<Rightarrow> c)
             in case os_write fs1 full old of Inl e \<Rightarrow> (fs1, []) | Inr fs2 \<Rightarrow> (fs2, path))"

definition starts_with_dot_dot :: "string \<Rightarrow> bool" where
  "starts_with_dot_dot p \<longleftrightarrow> p = ''..'' \<or> has_prefix p ''../''"

text \<open>\<open>Rel(".", p)\<close> has no answer for an absolute path.\<close>

definition format_log_path :: "string \<Rightarrow> string" where
  "format_log_path p =
     (if p = [] then []
      else if \<not> is_abs p \<and> \<not> starts_with_dot_dot (rel_path ''.'' p) then rel_path ''.'' p else p)"

section \<open>What a task leaves behind\<close>

record task_manifest =
  tm_task_id :: string
  tm_role :: string
  tm_task :: string
  tm_started :: int
  tm_completed :: int
  tm_status :: string
  tm_summary :: string
  tm_files :: "string list"
  tm_log_path :: string

definition write_manifest ::
  "(task_manifest \<Rightarrow> string) \<Rightarrow> site_config \<Rightarrow> string \<Rightarrow> task_manifest \<Rightarrow> file_system \<Rightarrow> file_system" where
  "write_manifest marshal cfg job m fs =
     (let base_dir = task_dir cfg job
      in if base_dir = [] then fs
         else case os_mkdir_all fs base_dir of
           Inl e \<Rightarrow> fs
         | Inr fs1 \<Rightarrow>
             let final = join_path [base_dir, ''manifest.json''] ; tmp = final @ ''.tmp''
             in case os_write fs1 tmp (marshal m) of
                  Inl e \<Rightarrow> fs1
                | Inr fs2 \<Rightarrow>
                    if fs_dirs fs2 final \<or> fs_fail fs2 final \<noteq> None
                    then fs2\<lparr>fs_files := (fs_files fs2)(tmp := None)\<rparr>
                    else fs2\<lparr>fs_files := (fs_files fs2)(final \<mapsto> marshal m, tmp := None)\<rparr>)"

text \<open>The operation and the path in the arguments of a call, when they decode.\<close>

type_synonym file_args = "string \<Rightarrow> (string \<times> string) option"

fun files_written_from :: "file_args \<Rightarrow> string list \<Rightarrow> (string \<times> string \<times> bool) list \<Rightarrow> string list" where
  "files_written_from decode seen [] = []"
| "files_written_from decode seen ((name, args, ok) # es) =
     (if name \<noteq> ''file'' then files_written_from decode seen es
      else case decode args of
        None \<Rightarrow> files_written_from decode seen es
      | Some (op, path) \<Rightarrow>
          if op \<noteq> ''write'' \<and> op \<noteq> ''append'' \<and> op \<noteq> ''edit'' then files_written_from decode seen es
          else if path = [] \<or> path \<in> set seen then files_written_from decode seen es
          else path # files_written_from decode (path # seen) es)"

definition extract_files_written :: "file_args \<Rightarrow> (string \<times> string \<times> bool) list \<Rightarrow> string list" where
  "extract_files_written decode calls = files_written_from decode [] calls"

definition truncate_for_memory :: "string \<Rightarrow> nat \<Rightarrow> string" where
  "truncate_for_memory s n =
     (if length s \<le> n then s else take (n - 1) s @ [CHR 0xE2, CHR 0x80, CHR 0xA6])"

definition summarize_task :: "string \<Rightarrow> string \<Rightarrow> string \<Rightarrow> string \<Rightarrow> int \<Rightarrow> task_result \<Rightarrow> string" where
  "summarize_task task role status duration tokens r =
     ''Task: '' @ truncate_for_memory task 200 @ line_break @ ''Role: '' @ role @ line_break @
     ''Status: '' @ status @ line_break @ ''Duration: '' @ duration @ line_break @
     ''Tool calls: '' @ itoa (tr_tool_calls_made r) @ line_break @ ''Iterations: '' @ itoa (tr_iterations r) @ line_break @
     (if tokens > 0 then ''Tokens: '' @ itoa tokens @ line_break else []) @
     (if tr_content r \<noteq> []
      then line_break @ ''Key output:'' @ line_break @ truncate_for_memory (tr_content r) 500 @ line_break else [])"

section \<open>The sandbox of a task\<close>

definition windows_drive :: "string \<Rightarrow> bool" where
  "windows_drive s \<longleftrightarrow> (case s of d # c # b # _ \<Rightarrow> (is_upper d \<or> is_lower d) \<and> c = CHR '':'' \<and> byte b = 92 | _ \<Rightarrow> False)"

text \<open>The text between two quotation marks, when it starts like a path and goes on.\<close>

definition quoted_path_at :: "string \<Rightarrow> string option" where
  "quoted_path_at s =
     (case s of
        c # rest \<Rightarrow>
          let body = takeWhile (\<lambda>c. byte c \<noteq> 34) rest
          in if byte c = 34 \<and> length body < length rest \<and>
               (has_prefix body ''/'' \<and> length body > 1 \<or> has_prefix body ''./'' \<and> length body > 2 \<or>
                has_prefix body ''../'' \<and> length body > 3 \<or> windows_drive body \<and> length body > 3)
             then Some body else None
      | [] \<Rightarrow> None)"

fun first_match :: "(string \<Rightarrow> string option) \<Rightarrow> string \<Rightarrow> string option" where
  "first_match f [] = f []"
| "first_match f (c # cs) = (case f (c # cs) of Some m \<Rightarrow> Some m | None \<Rightarrow> first_match f cs)"

definition path_char :: "char \<Rightarrow> bool" where
  "path_char c \<longleftrightarrow> is_lower c \<or> is_upper c \<or> is_digit c \<or> c \<in> {CHR ''_'', CHR ''.'', CHR ''/'', CHR ''-''}"

text \<open>The maximal runs of path characters that start the text or follow white space.\<close>

fun path_words :: "bool \<Rightarrow> string \<Rightarrow> string list" where
  "path_words start [] = []"
| "path_words start (c # cs) =
     (if start then takeWhile path_char (c # cs) # path_words (re_space c) cs else path_words (re_space c) cs)"

definition abs_candidate :: "string \<Rightarrow> bool" where
  "abs_candidate w \<longleftrightarrow> has_prefix w ''/'' \<and> CHR ''/'' \<in> set (drop 2 w)"

definition rel_candidate :: "string \<Rightarrow> bool" where
  "rel_candidate w \<longleftrightarrow>
     has_prefix w ''./'' \<and> CHR ''/'' \<in> set (drop 3 w) \<or> has_prefix w ''../'' \<and> CHR ''/'' \<in> set (drop 4 w) \<or>
     has_prefix w ''projects/'' \<and> length w > 9"

definition existing_dir :: "site_config \<Rightarrow> file_system \<Rightarrow> string \<Rightarrow> string option" where
  "existing_dir cfg fs p = (let a = abs_path (oc_cwd cfg) p in if fs_dirs fs a then Some a else None)"

fun first_some :: "('a \<Rightarrow> 'b option) \<Rightarrow> 'a list \<Rightarrow> 'b option" where
  "first_some f [] = None"
| "first_some f (x # xs) = (case f x of Some y \<Rightarrow> Some y | None \<Rightarrow> first_some f xs)"

definition trim_chars_right :: "string \<Rightarrow> string \<Rightarrow> string" where
  "trim_chars_right cs s = rev (dropWhile (\<lambda>c. c \<in> set cs) (rev s))"

definition detect_task_sandbox :: "site_config \<Rightarrow> file_system \<Rightarrow> string \<Rightarrow> string" where
  "detect_task_sandbox cfg fs task0 =
     (let task = map (\<lambda>c. if byte c = 10 then CHR '' '' else c) task0;
          words = path_words True task;
          from_quotes = (case first_match quoted_path_at task of None \<Rightarrow> None | Some p \<Rightarrow> existing_dir cfg fs p);
          absolute = first_some (\<lambda>w. let c = trim_chars_right ''.,;:!?'' w
                                     in if ext_path c \<noteq> [] then None else existing_dir cfg fs c)
                       (filter abs_candidate words);
          relative = (case filter rel_candidate words of
                        [] \<Rightarrow> None | w # _ \<Rightarrow> existing_dir cfg fs (trim_chars_right ''.,;:!?/'' w))
      in case from_quotes of
           Some d \<Rightarrow> d
         | None \<Rightarrow> (case absolute of Some d \<Rightarrow> d | None \<Rightarrow> (case relative of Some d \<Rightarrow> d | None \<Rightarrow> [])))"

section \<open>State and startup\<close>

record 'w orchestrator =
  os_started :: bool
  os_shut :: bool
  os_resolver :: resolver
  os_roles :: "'w role_registry"
  os_memory :: manager
  os_files :: file_system

text \<open>
  \<open>New\<close> from the loaded definitions on: with none, the orchestrator starts without roles; otherwise the first
  definition that cannot be registered is fatal.
\<close>

definition new_orchestrator ::
  "string \<Rightarrow> bool \<Rightarrow> int \<Rightarrow> tool_definition list \<Rightarrow> agent_def list \<Rightarrow> 'w tool_registry \<Rightarrow> manager \<Rightarrow> file_system
     \<Rightarrow> string + 'w orchestrator" where
  "new_orchestrator dir cache_on cache_max tool_defs agents tools mg fs =
     (let orch = \<lparr>os_started = False, os_shut = False,
            os_resolver = \<lparr>rs_defs = agents, rs_cache_enabled = cache_on, rs_cache = Some (new_route_cache cache_max)\<rparr>,
            os_roles = new_role_registry tools, os_memory = mg, os_files = fs\<rparr>
      in if agents = [] then Inr orch
         else case register_from_agents tool_defs agents (new_role_registry tools) of
           (Some e, _) \<Rightarrow> Inl (''failed to register agents from '' @ dir @ '': '' @ e)
         | (None, roles) \<Rightarrow> Inr (orch\<lparr>os_roles := roles\<rparr>))"

definition start_orch :: "'w orchestrator \<Rightarrow> 'w orchestrator" where
  "start_orch o1 = o1\<lparr>os_started := True\<rparr>"

definition shutdown_orch :: "'w orchestrator \<Rightarrow> 'w orchestrator" where
  "shutdown_orch o1 = o1\<lparr>os_started := False, os_shut := True, os_memory := close_manager (os_memory o1)\<rparr>"

section \<open>Execution\<close>

text \<open>The context of a task: its workspace and sandbox, and the approval callback of the caller.\<close>

record call_ctx = task_ctx +
  cx_approval :: "(string \<Rightarrow> string \<Rightarrow> string + bool) option"

definition background_ctx :: call_ctx where
  "background_ctx = \<lparr>tx_workspace = [], tx_sandbox = [], cx_approval = None\<rparr>"

text \<open>
  The environment of one execution: the identifier and times of the task, how a role, the verification command and
  the operator answer under a context, what the run does to files and memory, decoding and printing.
\<close>

record 'w exec_env =
  xe_cfg :: site_config
  xe_rx :: "string \<Rightarrow> (string \<Rightarrow> bool) option"
  xe_first_key :: "route_cache \<Rightarrow> 64 word"
  xe_task_id :: string
  xe_date :: string
  xe_started :: int
  xe_completed :: int
  xe_duration :: "int \<Rightarrow> string"
  xe_time :: "int \<Rightarrow> string"
  xe_tokens :: "task_result \<Rightarrow> int"
  xe_hitl :: "call_ctx \<Rightarrow> 'w role_agent \<Rightarrow> string \<Rightarrow> hitl_env"
  xe_retries :: "int option"
  xe_files_after :: "call_ctx \<Rightarrow> 'w role_agent \<Rightarrow> string \<Rightarrow> file_system \<Rightarrow> file_system"
  xe_memory_after :: "call_ctx \<Rightarrow> 'w role_agent \<Rightarrow> string \<Rightarrow> manager \<Rightarrow> manager"
  xe_decode :: file_args
  xe_marshal :: "task_manifest \<Rightarrow> string"
  xe_walk :: "file_system \<Rightarrow> string \<Rightarrow> dir_entry list"

datatype exec_error = NotStarted | RoleMissing string | TaskFailed string | NilResult

definition hitl_error_text :: "hitl_error \<Rightarrow> string" where
  "hitl_error_text e =
     (case e of
        ErrVerifyFailed n out \<Rightarrow> ''verify failed on attempt '' @ itoa n @ '': '' @ truncate_for_hitl out 200
      | ErrHITLExhausted out \<Rightarrow> ''task failed verification even after HITL hint: '' @ truncate_for_hitl out 200
      | ErrHITLUnavailable n out \<Rightarrow> ''HITL unavailable (no operator subscribed); verify failed: verify failed on attempt '' @
          itoa n @ '': '' @ truncate_for_hitl out 200
      | ErrHITLHook msg out \<Rightarrow> ''HITL hook error: '' @ msg @ '' (verify output: '' @ out @ '')'')"

definition outcome_parts :: "hitl_outcome \<Rightarrow> task_result option \<times> string option" where
  "outcome_parts r =
     (case r of
        FastPath res err \<Rightarrow> (res, err)
      | Solved res \<Rightarrow> (Some res, None)
      | GaveUp res err \<Rightarrow> (res, Some (hitl_error_text err)))"

definition finalize_workspace ::
  "'w exec_env \<Rightarrow> string \<Rightarrow> string \<Rightarrow> string \<Rightarrow> string list \<Rightarrow> string \<Rightarrow> task_result option \<Rightarrow> string option
     \<Rightarrow> file_system \<Rightarrow> file_system" where
  "finalize_workspace env role task status files log_path result err fs =
     (if task_dir (xe_cfg env) (xe_task_id env) = [] then fs
      else if files = [] then cleanup_if_empty (xe_walk env) (xe_cfg env) (xe_task_id env) fs
      else
        let summary = (case result of
              Some r \<Rightarrow> truncate_for_hitl (tr_content r) 500
            | None \<Rightarrow> (case err of Some e \<Rightarrow> truncate_for_hitl e 500 | None \<Rightarrow> []));
            m = \<lparr>tm_task_id = xe_task_id env, tm_role = role, tm_task = truncate_for_hitl task 1000,
                 tm_started = xe_started env, tm_completed = xe_completed env, tm_status = status,
                 tm_summary = summary, tm_files = files, tm_log_path = format_log_path log_path\<rparr>
        in write_manifest (xe_marshal env) (xe_cfg env) (xe_task_id env) m fs)"

definition task_metadata :: "'w exec_env \<Rightarrow> string \<Rightarrow> string \<Rightarrow> string \<Rightarrow> string list \<Rightarrow> (string \<rightharpoonup> string)" where
  "task_metadata env task role status files =
     [''type'' \<mapsto> ''task_summary'', ''task'' \<mapsto> truncate_for_memory task 200, ''role'' \<mapsto> role, ''status'' \<mapsto> status,
      ''task_id'' \<mapsto> xe_task_id env, ''files_written'' \<mapsto> itoa (int (length files)),
      ''completed_at'' \<mapsto> xe_time env (xe_completed env)]"

text \<open>The role that answers a request, with the resolver after it.\<close>

definition choose_role :: "'w exec_env \<Rightarrow> string \<Rightarrow> string \<Rightarrow> resolver \<Rightarrow> resolver \<times> string" where
  "choose_role env task role rs =
     (if role = role_custom then resolve_agent (xe_rx env) (xe_first_key env) task rs else (rs, role))"

definition task_context :: "'w exec_env \<Rightarrow> call_ctx \<Rightarrow> string \<Rightarrow> string \<Rightarrow> file_system \<Rightarrow> call_ctx" where
  "task_context env ctx task dir fs =
     (let sandbox = detect_task_sandbox (xe_cfg env) fs task; ctx = ctx\<lparr>tx_workspace := dir\<rparr>
      in if sandbox \<noteq> [] then ctx\<lparr>tx_sandbox := sandbox\<rparr> else ctx)"

text \<open>From the role on: workspace, run, manifest and memory. The events are those of the retry loop.\<close>

definition run_role ::
  "'w exec_env \<Rightarrow> call_ctx \<Rightarrow> string \<Rightarrow> string \<Rightarrow> 'w role_agent \<Rightarrow> 'w orchestrator
     \<Rightarrow> 'w orchestrator \<times> hitl_event list \<times> (exec_error + task_result)" where
  "run_role env ctx0 task role ra o1 =
     (let (fs1, log_path) = open_run_logger (xe_cfg env) (xe_task_id env) (xe_date env) (os_files o1);
          (fs2, prepared) = prepare_workspace (xe_cfg env) (xe_task_id env) fs1;
          dir = (case prepared of Inl e \<Rightarrow> [] | Inr d \<Rightarrow> d);
          ctx = task_context env ctx0 task dir fs2;
          (events, outcome) = execute_with_retry (xe_hitl env ctx ra task) (xe_retries env) task role;
          (result, err) = outcome_parts outcome;
          fs3 = xe_files_after env ctx ra task fs2;
          mg1 = xe_memory_after env ctx ra task (os_memory o1);
          status = (if err \<noteq> None then ''failed'' else ''completed'');
          files = (case result of None \<Rightarrow> [] | Some r \<Rightarrow> extract_files_written (xe_decode env) (tr_tool_log r));
          fs4 = finalize_workspace env role task status files log_path result err fs3;
          mg2 = (case result of
                   None \<Rightarrow> mg1
                 | Some r \<Rightarrow> fst (manager_store
                     (summarize_task task role status (xe_duration env (xe_completed env - xe_started env))
                        (xe_tokens env r) r)
                     MemoryShortTerm (task_metadata env task role status files) mg1));
          o2 = o1\<lparr>os_files := fs4, os_memory := mg2\<rparr>
      in (o2, events,
          case err of
            Some e \<Rightarrow> Inl (TaskFailed e)
          | None \<Rightarrow> (case result of None \<Rightarrow> Inl NilResult | Some r \<Rightarrow> Inr (r\<lparr>tr_role := role\<rparr>))))"

definition execute_task ::
  "'w exec_env \<Rightarrow> call_ctx \<Rightarrow> string \<Rightarrow> string \<Rightarrow> 'w orchestrator
     \<Rightarrow> 'w orchestrator \<times> hitl_event list \<times> (exec_error + task_result)" where
  "execute_task env ctx task role0 o0 =
     (if \<not> os_started o0 then (o0, [], Inl NotStarted)
      else
        let (rs, role) = choose_role env task role0 (os_resolver o0); o1 = o0\<lparr>os_resolver := rs\<rparr>
        in case get_role (os_roles o1) role of
             Inl e \<Rightarrow> (o1, [], Inl (RoleMissing role))
           | Inr ra \<Rightarrow> run_role env ctx task role ra o1)"

text \<open>Streaming has neither workspace nor retries nor memory: the stream of the role is passed on.\<close>

definition execute_stream_task ::
  "('w role_agent \<Rightarrow> string \<Rightarrow> exec_error + stream_chunk list) \<Rightarrow> 'w exec_env \<Rightarrow> string \<Rightarrow> string \<Rightarrow> 'w orchestrator
     \<Rightarrow> 'w orchestrator \<times> (exec_error + stream_chunk list)" where
  "execute_stream_task stream env task role0 o0 =
     (if \<not> os_started o0 then (o0, Inl NotStarted)
      else
        let (rs, role) = choose_role env task role0 (os_resolver o0); o1 = o0\<lparr>os_resolver := rs\<rparr>
        in case get_role (os_roles o1) role of
             Inl e \<Rightarrow> (o1, Inl (RoleMissing role))
           | Inr ra \<Rightarrow> (o1, stream ra task))"

section \<open>Agents without a role\<close>

text \<open>
  \<open>base\<close> holds the model router, the decoding and the memory that every agent shares; injector and recorder are not
  passed on. The tools are all tools of the orchestrator.
\<close>

definition agent_config :: "string \<Rightarrow> int \<Rightarrow> int \<Rightarrow> react_config" where
  "agent_config prompt iterations tokens =
     \<lparr>rc_max_iterations = iterations, rc_max_continuations = 3, rc_system_prompt = prompt, rc_max_tokens = tokens,
      rc_max_context_tokens = 8000, rc_enable_memory = True\<rparr>"

definition plain_agent :: "react_config \<Rightarrow> 'w tool_provider \<Rightarrow> 'w react_env \<Rightarrow> 'w react_env" where
  "plain_agent cfg tools base =
     base\<lparr>re_config := cfg, re_tools := Some tools, re_inject := (\<lambda>t. []), re_record := (\<lambda>w r. w)\<rparr>"

definition direct_prompt :: string where
  "direct_prompt = ''You are a helpful AI assistant. Complete the task using available tools.''"

definition run_direct ::
  "'w react_env \<Rightarrow> string \<Rightarrow> string \<Rightarrow> 'w orchestrator \<Rightarrow> 'w \<Rightarrow> 'w \<times> (exec_error + string)" where
  "run_direct base prompt task o0 w =
     (if \<not> os_started o0 then (w, Inl NotStarted)
      else
        let p = (if prompt = [] then direct_prompt else prompt);
            env = plain_agent (agent_config p 10 8192) (execute_tool (rr_tools (os_roles o0))) base
        in case worker_answer (execute_react env task w) of
             (w1, Inl e) \<Rightarrow> (w1, Inl (TaskFailed e)) | (w1, Inr c) \<Rightarrow> (w1, Inr c))"

definition run_explore :: "'w react_env \<Rightarrow> string \<Rightarrow> 'w orchestrator \<Rightarrow> 'w \<Rightarrow> 'w \<times> (exec_error + string)" where
  "run_explore base question o0 w =
     (if \<not> os_started o0 then (w, Inl NotStarted)
      else
        let env = plain_agent (agent_config explore_prompt 15 4096)
              (filter_execute explore_allowlist (execute_tool (rr_tools (os_roles o0)))) base
        in case worker_answer (execute_react env question w) of
             (w1, Inl e) \<Rightarrow> (w1, Inl (TaskFailed e)) | (w1, Inr c) \<Rightarrow> (w1, Inr c))"

definition run_research :: "'w react_env \<Rightarrow> string \<Rightarrow> 'w orchestrator \<Rightarrow> 'w \<Rightarrow> 'w \<times> (exec_error + string)" where
  "run_research base question o0 w =
     (if \<not> os_started o0 then (w, Inl NotStarted)
      else
        let env = plain_agent (agent_config research_prompt 20 4096)
              (filter_execute research_allowlist (execute_tool (rr_tools (os_roles o0)))) base
        in case worker_answer (execute_react env question w) of
             (w1, Inl e) \<Rightarrow> (w1, Inl (TaskFailed e)) | (w1, Inr c) \<Rightarrow> (w1, Inr c))"

section \<open>Delegation\<close>

definition sub_agent_prefix :: string where
  "sub_agent_prefix =
     ''SUB-AGENT TASK '' @ [CHR 0xE2, CHR 0x80, CHR 0x94] @ '' COMPLETE EVERY STEP, NO SHORTCUTS.'' @ line_break @
     line_break @
     ''QUALITY RULES (violating these = task failure):'' @ line_break @
     ''1. You MUST produce complete, working output. Empty files or placeholder content = FAILURE.'' @ line_break @
     ''2. You MUST use ALL steps in the task. If the task says '' @ [CHR 0x22] @ ''create file with tests'' @ [CHR 0x22] @ '', the file MUST have real tests.'' @ line_break @
     ''3. Do NOT summarize what you would do. DO IT. Create the actual file with real content.'' @ line_break @
     ''4. Every file you create must be complete and syntactically valid.'' @ line_break @
     ''5. If you create a file, read it back to VERIFY it was written correctly.'' @ line_break @
     ''6. After creating files, verify each one exists and has content (use file operation=read or terminal ls -la).'' @ line_break @
     line_break"

definition delegation_offset :: "64 word" where
  "delegation_offset = 1469598103934665603"

definition hex_digit :: "nat \<Rightarrow> char" where
  "hex_digit n = (if n < 10 then char_of (48 + n) else char_of (87 + n))"

text \<open>The first eight of sixteen hexadecimal digits.\<close>

definition delegation_id :: "string \<Rightarrow> string" where
  "delegation_id goal =
     (let h = foldl (\<lambda>h c. (h XOR of_nat (byte c)) * fnv_prime) delegation_offset goal
      in map (\<lambda>i. hex_digit (unat h div 16 ^ (15 - i) mod 16)) [0..<8])"

definition short_label :: "string \<Rightarrow> string \<Rightarrow> string" where
  "short_label label q =
     (if length q > 80 then take 77 q @ [CHR 0xE2, CHR 0x80, CHR 0xA6] else label @ q)"

definition delegation_label :: "string \<Rightarrow> string" where
  "delegation_label goal =
     (if has_explore_prefix goal then short_label ''Explore: '' (strip_explore_prefix goal)
      else if has_research_prefix goal then short_label ''Research: '' (strip_research_prefix goal)
      else if has_compare_prefix goal then short_label ''Compare: '' (strip_compare_prefix goal)
      else short_label [] goal)"

definition delegation_role :: "string \<Rightarrow> string" where
  "delegation_role goal =
     (if has_explore_prefix goal then ''explore''
      else if has_research_prefix goal then ''research''
      else if has_compare_prefix goal then ''compare''
      else ''generalist'')"

definition sub_agent_answer :: "task_result \<Rightarrow> string" where
  "sub_agent_answer r =
     tr_content r @
     (if tr_content r = [] \<or> length (trim_space (tr_content r)) < 20
      then line_break @ line_break @ ''[WARNING] Sub-agent produced very short output. The task may be incomplete.''
      else line_break @ line_break @ ''[SUB-AGENT METRICS] iterations='' @ itoa (tr_iterations r) @ '' tool_calls='' @
           itoa (tr_tool_calls_made r))"

definition with_extra :: "string \<Rightarrow> string \<Rightarrow> string" where
  "with_extra question info =
     (if info \<noteq> [] then question @ line_break @ line_break @ ''Additional context: '' @ info else question)"

definition sub_agent_task :: "string \<Rightarrow> string \<Rightarrow> string" where
  "sub_agent_task goal info =
     sub_agent_prefix @ goal @ (if info \<noteq> [] then line_break @ line_break @ ''Context: '' @ info else [])"

text \<open>
  The callback: the read-only workers and the comparison are functions of the question; any other goal is executed
  as a task of its own, in the context of the goroutine, which is a fresh one. An activity event is its type and
  the status.
\<close>

definition delegation_callback ::
  "(string \<Rightarrow> string + string) \<Rightarrow> (string \<Rightarrow> string + string) \<Rightarrow> (string \<Rightarrow> string + compare_result)
     \<Rightarrow> (exec_error \<Rightarrow> string) \<Rightarrow> 'w exec_env \<Rightarrow> string \<Rightarrow> string \<Rightarrow> 'w orchestrator
     \<Rightarrow> 'w orchestrator \<times> hitl_event list \<times> (string + string)" where
  "delegation_callback explore research compare err_text env goal info o0 =
     (if has_explore_prefix goal then (o0, [], explore (with_extra (strip_explore_prefix goal) info))
      else if has_research_prefix goal then (o0, [], research (with_extra (strip_research_prefix goal) info))
      else if has_compare_prefix goal then
        (o0, [], case compare (strip_compare_prefix goal) of
                   Inl e \<Rightarrow> Inl e | Inr r \<Rightarrow> Inr (format_compare_report r))
      else case execute_task env background_ctx (sub_agent_task goal info) role_custom o0 of
             (o1, events, Inl e) \<Rightarrow> (o1, events, Inl (err_text e))
           | (o1, events, Inr r) \<Rightarrow> (o1, events, Inr (sub_agent_answer r)))"

definition delegation_activity :: "string \<Rightarrow> string + string \<Rightarrow> (string \<times> string) list" where
  "delegation_activity goal res =
     [(''task_start'', ''running'')] @
     (if \<not> has_explore_prefix goal \<and> (has_research_prefix goal \<or> has_compare_prefix goal)
      then [(''log'', [])] else []) @
     [(''task_complete'', case res of Inl e \<Rightarrow> ''error'' | Inr out \<Rightarrow> ''done'')]"

end
