(* ===== verification/Orch_Lifecycle.thy ===== *)
theory Orch_Lifecycle
  imports Orchestrator
begin

text \<open>
  What the orchestrator guarantees over its life: which tasks find their role after a startup, which tools a role
  sees, what a task leaves behind in files and memory, and what reaches the shell through delegation.
\<close>

section \<open>Startup and routing\<close>

lemma new_orchestrator_roles:
  assumes "new_orchestrator dir on n defs agents tools mg fs = Inr o0" "agents \<noteq> []"
  shows "list_all acceptable agents \<and>
    os_roles o0 = snd (register_from_agents defs agents (new_role_registry tools)) \<and>
    os_resolver o0 = \<lparr>rs_defs = agents, rs_cache_enabled = on, rs_cache = Some (new_route_cache n)\<rparr>"
proof -
  have acc: "list_all acceptable agents"
  proof (rule ccontr)
    assume "\<not> list_all acceptable agents"
    from register_from_agents_stops [OF this, of defs "new_role_registry tools"] obtain e where
      "fst (register_from_agents defs agents (new_role_registry tools)) = Some e" by blast
    with assms show False by (simp add: new_orchestrator_def split: prod.splits)
  qed
  from register_from_agents_find [OF acc, of defs "new_role_registry tools"] obtain r where
    "register_from_agents defs agents (new_role_registry tools) = (None, r)" by blast
  with acc assms show ?thesis by (auto simp: new_orchestrator_def)
qed

lemma new_orchestrator_no_agents:
  "new_orchestrator dir on n defs [] tools mg fs = Inr o0 \<Longrightarrow>
     os_roles o0 = new_role_registry tools \<and>
     os_resolver o0 = \<lparr>rs_defs = [], rs_cache_enabled = on, rs_cache = Some (new_route_cache n)\<rparr>"
  by (auto simp: new_orchestrator_def)

lemma new_resolver_ok:
  "resolver_ok rx agents seen \<lparr>rs_defs = agents, rs_cache_enabled = on, rs_cache = Some (new_route_cache n)\<rparr>"
  by (simp add: resolver_ok_def entries_from_def new_route_cache_def cache_get_def)

lemma find_by_key: "k \<in> f ` set xs \<Longrightarrow> \<exists>x. find (\<lambda>x. f x = k) xs = Some x"
  by (induction xs) auto

lemma find_role_new: "find_role (new_role_registry tools) name = None"
  by (simp add: find_role_def new_role_registry_def)

lemma run_role_frame:
  "os_roles (fst (run_role env ctx task role ra o1)) = os_roles o1"
  "os_resolver (fst (run_role env ctx task role ra o1)) = os_resolver o1"
  "os_started (fst (run_role env ctx task role ra o1)) = os_started o1"
  "snd (snd (run_role env ctx task role ra o1)) \<noteq> Inl (RoleMissing r)"
  by (simp_all add: run_role_def Let_def split: prod.split option.split)

lemma execute_task_frame:
  "os_roles (fst (execute_task env ctx task role o0)) = os_roles o0"
  "os_started (fst (execute_task env ctx task role o0)) = os_started o0"
  by (simp_all add: execute_task_def run_role_frame Let_def split: prod.split sum.split)

lemma execute_task_role:
  assumes "os_started o0" "choose_role env task role0 (os_resolver o0) = (rs, role)"
  shows "os_resolver (fst (execute_task env ctx task role0 o0)) = rs \<and>
    (find_role (os_roles o0) role = None \<longrightarrow> snd (snd (execute_task env ctx task role0 o0)) = Inl (RoleMissing role)) \<and>
    (find_role (os_roles o0) role \<noteq> None \<longrightarrow> (\<forall>r. snd (snd (execute_task env ctx task role0 o0)) \<noteq> Inl (RoleMissing r)))"
  using assms by (auto simp: execute_task_def get_role_def run_role_frame split: option.split)

text \<open>The tasks of a caller, each with its own environment and context.\<close>

fun execute_all ::
  "('w exec_env \<times> call_ctx \<times> string) list \<Rightarrow> 'w orchestrator \<Rightarrow> 'w orchestrator \<times> (exec_error + task_result) list" where
  "execute_all [] o0 = (o0, [])"
| "execute_all ((env, ctx, task) # ts) o0 =
     (case execute_task env ctx task role_custom o0 of
        (o1, events, r) \<Rightarrow> (case execute_all ts o1 of (o2, rs) \<Rightarrow> (o2, r # rs)))"

definition same_rx :: "(string \<Rightarrow> (string \<Rightarrow> bool) option) \<Rightarrow> 'w exec_env \<times> call_ctx \<times> string \<Rightarrow> bool" where
  "same_rx rx = (\<lambda>(env, ctx, task). xe_rx env = rx)"

lemma execute_all_routed:
  assumes "resolver_ok rx agents seen (os_resolver o0)" "os_started o0" "list_all (same_rx rx) ts"
    and step: "\<And>r. r \<in> P \<Longrightarrow> find_role (os_roles o0) r = None \<longleftrightarrow> missing"
    and cls: "\<And>task. classify_role rx agents task \<in> P"
  shows "list_all (\<lambda>res. if missing then \<exists>r\<in>P. res = Inl (RoleMissing r) else \<forall>r. res \<noteq> Inl (RoleMissing r))
    (snd (execute_all ts o0))"
  using assms(1-3) step
proof (induction ts arbitrary: o0 seen)
  case (Cons t ts)
  obtain env ctx task where t: "t = (env, ctx, task)" by (cases t)
  then have rx: "xe_rx env = rx" using Cons.prems(3) by (simp add: same_rx_def)
  obtain rs role where c: "choose_role env task role_custom (os_resolver o0) = (rs, role)" by fastforce
  have "resolver_ok rx agents (insert task seen) (os_resolver o0)"
    using Cons.prems(1) entries_from_mono [of rx agents seen _ "insert task seen"] by (auto simp: resolver_ok_def)
  from resolve_agent_ok [OF this, of task "xe_first_key env" rs role] c rx
  have ok: "resolver_ok rx agents (insert task seen) rs" and "\<exists>t. role = classify_role rx agents (normalize_task t)"
    by (auto simp: choose_role_def)
  with cls have role: "role \<in> P" by auto
  obtain o1 events r where e: "execute_task env ctx task role_custom o0 = (o1, events, r)" by (metis prod_cases3)
  note f = execute_task_role [OF Cons.prems(2) c, of ctx] execute_task_frame [of env ctx task role_custom o0]
  from f e have o1: "os_resolver o1 = rs" "os_roles o1 = os_roles o0" "os_started o1 = os_started o0" by simp_all
  have rest: "list_all (\<lambda>res. if missing then \<exists>r\<in>P. res = Inl (RoleMissing r) else \<forall>r. res \<noteq> Inl (RoleMissing r))
      (snd (execute_all ts o1))"
    by (rule Cons.IH [of "insert task seen"]) (use ok o1 Cons.prems in simp_all)
  have r: "if missing then \<exists>r'\<in>P. r = Inl (RoleMissing r') else \<forall>r'. r \<noteq> Inl (RoleMissing r')"
    using f(1) e role Cons.prems(4) [OF role] by auto
  obtain o2 rs2 where "execute_all ts o1 = (o2, rs2)" by fastforce
  with rest e t r show ?case by simp
qed simp

text \<open>
  C34: with agents loaded, every automatically routed task finds its role: whatever was asked before, whatever the
  cache holds and whatever role the classifier chooses, no task fails because its role is missing.
\<close>

theorem auto_tasks_find_their_role:
  assumes "new_orchestrator dir on n defs agents tools mg fs = Inr o0" "agents \<noteq> []" "[] \<notin> set (map ad_name agents)"
    "list_all (same_rx rx) ts"
  shows "list_all (\<lambda>res. \<forall>r. res \<noteq> Inl (RoleMissing r)) (snd (execute_all ts (start_orch o0)))"
proof -
  from new_orchestrator_roles [OF assms(1,2)] have acc: "list_all acceptable agents"
    and roles: "os_roles o0 = snd (register_from_agents defs agents (new_role_registry tools))"
    and res: "os_resolver o0 = \<lparr>rs_defs = agents, rs_cache_enabled = on, rs_cache = Some (new_route_cache n)\<rparr>" by blast+
  have found: "find_role (os_roles o0) r \<noteq> None" if "r \<in> set (map ad_name agents)" for r
  proof -
    from that have "r \<in> ad_name ` set (rev agents)" by simp
    from find_by_key [OF this] obtain d where "find (\<lambda>d. ad_name d = r) (rev agents) = Some d" by blast
    with register_from_agents_find [OF acc, of defs "new_role_registry tools" r] show ?thesis
      by (auto simp: roles)
  qed
  have "list_all (\<lambda>res. if False then \<exists>r\<in>set (map ad_name agents). res = Inl (RoleMissing r)
      else \<forall>r. res \<noteq> Inl (RoleMissing r)) (snd (execute_all ts (start_orch o0)))"
    by (rule execute_all_routed [where agents = agents and rx = rx])
      (use found res new_resolver_ok classify_role_loaded [OF assms(2,3)] assms(4) in \<open>auto simp: start_orch_def\<close>)
  then show ?thesis by simp
qed

text \<open>
  Without agents nothing works: the orchestrator starts, as documented, but then every automatically routed task
  fails, because the role it falls back to was never registered.
\<close>

lemma no_agents_every_task_fails:
  assumes "new_orchestrator dir on n defs [] tools mg fs = Inr o0" "list_all (same_rx rx) ts"
  shows "snd (execute_all ts (start_orch o0)) = replicate (length ts) (Inl (RoleMissing role_generalist))"
proof -
  note o0 = new_orchestrator_no_agents [OF assms(1)]
  have "list_all (\<lambda>res. if True then \<exists>r\<in>{role_generalist}. res = Inl (RoleMissing r)
      else \<forall>r. res \<noteq> Inl (RoleMissing r)) (snd (execute_all ts (start_orch o0)))"
    by (rule execute_all_routed [where agents = "[]" and rx = rx])
      (use o0 new_resolver_ok assms(2) in \<open>auto simp: start_orch_def find_role_new classify_role_def\<close>)
  moreover have "length (snd (execute_all ts o0)) = length ts" for o0
    by (induction ts o0 rule: execute_all.induct) (auto split: prod.splits)
  ultimately show ?thesis by (auto simp: list_all_iff intro!: replicate_eqI)
qed

text \<open>
  Startup is all or nothing: with agent files loaded, the orchestrator comes up exactly when every one of them has
  a prompt and at least one iteration; one file without \<open>max_iterations\<close> keeps the whole system down.
\<close>

lemma startup_needs_every_agent:
  assumes "agents \<noteq> []"
  shows "isl (new_orchestrator dir on n defs agents tools mg fs) \<longleftrightarrow> \<not> list_all acceptable agents"
proof (cases "list_all acceptable agents")
  case True
  from register_from_agents_find [OF this, of defs "new_role_registry tools"] obtain r where
    "register_from_agents defs agents (new_role_registry tools) = (None, r)" by blast
  with True assms show ?thesis by (simp add: new_orchestrator_def)
next
  case False
  from register_from_agents_stops [OF this, of defs "new_role_registry tools"] obtain e where
    "fst (register_from_agents defs agents (new_role_registry tools)) = Some e" by blast
  with False assms show ?thesis by (cases "register_from_agents defs agents (new_role_registry tools)")
    (simp add: new_orchestrator_def)
qed

text \<open>
  What a role sees: the role of an agent has exactly the registered tools that its list names, and besides them
  every tool that is not in the fixed set of built-in names; an empty list means all tools.
\<close>

lemma role_sees_listed_tools:
  assumes "new_orchestrator dir on n defs agents tools mg fs = Inr o0" "d \<in> set agents" "distinct (map ad_name agents)"
    "registry_ok tools" "set defs = list_tools tools"
  shows "\<exists>ra. get_role (os_roles o0) (ad_name d) = Inr ra \<and> ra_config ra = role_of_def d \<and>
    find_tool (ra_tools ra) name =
      (if ad_tools d = [] \<or> name \<in> set (ad_tools d) \<or> \<not> is_builtin_name name then find_tool tools name else None)"
proof -
  have ne: "agents \<noteq> []" using assms(2) by auto
  from new_orchestrator_roles [OF assms(1) ne] have acc: "list_all acceptable agents"
    and roles: "os_roles o0 = snd (register_from_agents defs agents (new_role_registry tools))" by blast+
  have "find (\<lambda>d'. ad_name d' = ad_name d) (rev agents) = Some d"
  proof -
    have "ad_name d \<in> ad_name ` set (rev agents)" using assms(2) by simp
    from find_by_key [OF this] obtain d' where d': "find (\<lambda>d'. ad_name d' = ad_name d) (rev agents) = Some d'"
      by blast
    then have "d' \<in> set agents" "ad_name d' = ad_name d" by (auto simp: find_Some_iff set_conv_nth rev_nth)
    with assms(2,3) have "d' = d" by (auto simp: distinct_map dest: inj_onD)
    with d' show ?thesis by simp
  qed
  with register_from_agents_find [OF acc, of defs "new_role_registry tools" "ad_name d"] obtain ra where
    ra: "find_role (os_roles o0) (ad_name d) = Some ra"
    "ra_tools ra = role_tools tools defs (ad_tools d)" "ra_config ra = role_of_def d"
    by (auto simp: roles tools_and_config_def new_role_registry_def)
  with role_tools_find [OF assms(4,5), of "ad_tools d" name] show ?thesis
    by (auto simp: get_role_def tool_dropped_def)
qed

text \<open>A tool that the orchestrator registers itself and that every role gets, since its name is not in the set.\<close>

lemma skill_install_bypasses: "\<not> is_builtin_name ''skill_install''"
  by (simp add: is_builtin_name_def builtin_names_def)

section \<open>Files written\<close>

text \<open>The paths that the logged calls target, each when it is named first.\<close>

definition call_target :: "file_args \<Rightarrow> string \<times> string \<times> bool \<Rightarrow> string option" where
  "call_target decode e =
     (case e of (name, args, ok) \<Rightarrow>
        if name \<noteq> ''file'' then None
        else case decode args of
               None \<Rightarrow> None
             | Some (op, path) \<Rightarrow> if op \<in> {''write'', ''append'', ''edit''} \<and> path \<noteq> [] then Some path else None)"

definition first_occurrences :: "'a list \<Rightarrow> 'a list" where
  "first_occurrences xs = rev (remdups (rev xs))"

lemma first_occurrences_Cons: "first_occurrences (x # xs) = x # filter (\<lambda>y. y \<noteq> x) (first_occurrences xs)"
proof -
  have "remdups (ys @ [x]) = filter (\<lambda>y. y \<noteq> x) (remdups ys) @ [x]" for ys
    by (induction ys) auto
  then show ?thesis by (simp add: first_occurrences_def rev_filter)
qed

lemma map_filter_map: "List.map_filter f (map g xs) = List.map_filter (f \<circ> g) xs"
  by (induction xs) (simp_all add: List.map_filter_def)

lemma files_written_from_step:
  "files_written_from decode seen (e # es) =
     (case call_target decode e of
        None \<Rightarrow> files_written_from decode seen es
      | Some p \<Rightarrow> if p \<in> set seen then files_written_from decode seen es
                  else p # files_written_from decode (p # seen) es)"
  by (cases e) (auto simp: call_target_def split: option.split)

lemma map_filter_step:
  "List.map_filter f (x # xs) = (case f x of None \<Rightarrow> List.map_filter f xs | Some y \<Rightarrow> y # List.map_filter f xs)"
  by (simp add: List.map_filter_def split: option.split)

lemma files_written_from_spec:
  "files_written_from decode seen calls =
     filter (\<lambda>p. p \<notin> set seen) (first_occurrences (List.map_filter (call_target decode) calls))"
proof (induction calls arbitrary: seen)
  case Nil
  show ?case by (simp add: first_occurrences_def List.map_filter_def)
next
  case (Cons e es)
  show ?case
  proof (cases "call_target decode e")
    case None
    then show ?thesis by (simp add: files_written_from_step map_filter_step Cons.IH del: files_written_from.simps)
  next
    case (Some p)
    then show ?thesis
      by (simp add: files_written_from_step map_filter_step Cons.IH first_occurrences_Cons del: files_written_from.simps)
        (auto intro: filter_cong)
  qed
qed

text \<open>
  The manifest lists the distinct targets of the logged file calls in the order of their first mention, and
  whether a call succeeded plays no part: a write that failed or was denied is listed like any other.
\<close>

lemma files_written_are_targets:
  "extract_files_written decode calls = first_occurrences (List.map_filter (call_target decode) calls) \<and>
   extract_files_written decode calls = extract_files_written decode (map (\<lambda>(n, a, ok). (n, a, False)) calls)"
proof
  show e: "extract_files_written decode calls = first_occurrences (List.map_filter (call_target decode) calls)" for calls
    by (simp add: extract_files_written_def files_written_from_spec)
  have "call_target decode \<circ> (\<lambda>(n, a, ok). (n, a, False)) = call_target decode"
    by (auto simp: call_target_def fun_eq_iff)
  then have "List.map_filter (call_target decode) (map (\<lambda>(n, a, ok). (n, a, False)) calls) =
      List.map_filter (call_target decode) calls"
    by (simp only: map_filter_map)
  then show "extract_files_written decode calls = extract_files_written decode (map (\<lambda>(n, a, ok). (n, a, False)) calls)"
    by (simp only: e)
qed

section \<open>Restart\<close>

definition closed_stays :: "'w exec_env \<Rightarrow> bool" where
  "closed_stays env \<longleftrightarrow> (\<forall>ctx ra task mg. mg_closed mg \<longrightarrow> xe_memory_after env ctx ra task mg = mg)"

lemma run_role_closed:
  "mg_closed (os_memory o1) \<Longrightarrow> closed_stays env \<Longrightarrow> os_memory (fst (run_role env ctx task role ra o1)) = os_memory o1"
  by (auto simp: run_role_def closed_stays_def manager_store_def Let_def split: prod.split option.split)

lemma execute_task_closed:
  "mg_closed (os_memory o1) \<Longrightarrow> closed_stays env \<Longrightarrow> os_memory (fst (execute_task env ctx task role o1)) = os_memory o1"
  by (auto simp: execute_task_def run_role_closed Let_def split: prod.split sum.split)

text \<open>
  A restarted orchestrator forgets: after a shutdown and another start tasks are executed again, but memory stays
  closed, so that whatever is executed, nothing is remembered, and no error says so.
\<close>

lemma restarted_orchestrator_forgets:
  assumes "list_all (\<lambda>(env, ctx, task). closed_stays env) ts"
  shows "os_memory (fst (execute_all ts (start_orch (shutdown_orch o0)))) = close_manager (os_memory o0) \<and>
    os_started (fst (execute_all ts (start_orch (shutdown_orch o0))))"
proof -
  have "os_memory (fst (execute_all ts o1)) = os_memory o1 \<and> os_started (fst (execute_all ts o1)) = os_started o1"
    if "mg_closed (os_memory o1)" "list_all (\<lambda>(env, ctx, task). closed_stays env) ts" for o1
    using that
  proof (induction ts arbitrary: o1)
    case (Cons t ts)
    obtain env ctx task where t: "t = (env, ctx, task)" by (cases t)
    obtain o2 events r where e: "execute_task env ctx task role_custom o1 = (o2, events, r)" by (metis prod_cases3)
    with execute_task_closed [OF Cons.prems(1), of env ctx task role_custom]
      execute_task_frame(2) [of env ctx task role_custom o1] Cons.prems(2) t
    have o2: "os_memory o2 = os_memory o1" "os_started o2 = os_started o1" by simp_all
    obtain o3 rs where r: "execute_all ts o2 = (o3, rs)" by fastforce
    from Cons.IH [of o2] o2 r Cons.prems t e show ?case by simp
  qed simp
  from this [of "start_orch (shutdown_orch o0)"] assms show ?thesis
    by (simp add: start_orch_def shutdown_orch_def close_manager_def)
qed

section \<open>Delegated goals\<close>

lemma split_on_lines: "split_on d (xs @ d # ys) = split_on d xs @ split_on d ys"
proof (induction xs)
  case (Cons x xs)
  then show ?case by (cases "split_on d xs") (auto simp: split_on_nonempty)
qed simp

lemma first_directive_append:
  "first_directive xs = None \<Longrightarrow> first_directive (xs @ ys) = first_directive ys"
  by (induction xs) (auto split: option.splits)

lemma sub_agent_prefix_split:
  "\<exists>xs. sub_agent_prefix = xs @ [CHR 0x0A] \<and> first_directive (split_on (CHR 0x0A) xs) = None"
proof -
  have "sub_agent_prefix = butlast sub_agent_prefix @ [CHR 0x0A] \<and>
      first_directive (split_on (CHR 0x0A) (butlast sub_agent_prefix)) = None" by code_simp
  then show ?thesis by blast
qed

lemma sub_agent_directive:
  assumes "first_directive (task_lines goal) = Some cmd"
  shows "extract_verify_command (sub_agent_task goal []) = trim_space cmd"
proof -
  obtain xs where xs: "sub_agent_prefix = xs @ [CHR 0x0A]" "first_directive (split_on (CHR 0x0A) xs) = None"
    using sub_agent_prefix_split by blast
  have "task_lines (sub_agent_task goal []) = split_on (CHR 0x0A) xs @ task_lines goal"
    using split_on_lines [of "CHR 0x0A" xs goal] by (simp add: sub_agent_task_def task_lines_def xs(1))
  with assms xs(2) show ?thesis by (simp add: extract_verify_command_def first_directive_append)
qed

lemma hitl_body_log: "\<exists>es. hs_log (fst (hitl_body env role clean cmd pre tot i st)) =
    hs_log st @ [AgentRun i (attempt_prompt clean i tot st), VerifyRun i (attempt_passes env i)] @ es"
proof -
  obtain st' pass where t: "hitl_try env clean tot i st = (st', pass)" by fastforce
  from hitl_try_fields [OF t] show ?thesis
    by (auto simp: hitl_body_def t Let_def split: hook_reply.split)
qed

lemma hitl_loop_log: "\<exists>es. hs_log (fst (hitl_loop env role clean cmd pre tot i st)) = hs_log st @ es"
proof (induction env role clean cmd pre tot i st rule: hitl_loop.induct)
  case (1 env role clean cmd pre tot i st)
  obtain st' r where b: "hitl_body env role clean cmd pre tot i st = (st', r)" by fastforce
  with hitl_body_log [of env role clean cmd pre tot i st] obtain es where es: "hs_log st' = hs_log st @ es" by auto
  show ?case
  proof (cases "i \<le> tot")
    case True
    show ?thesis
    proof (cases r)
      case None
      from 1 [OF True b [symmetric] None] es obtain es' where
        "hs_log (fst (hitl_loop env role clean cmd pre tot (i + 1) st')) = hs_log st @ es @ es'" by auto
      with True b None show ?thesis by (subst hitl_loop.simps) simp
    next
      case (Some a)
      with True b es show ?thesis by (subst hitl_loop.simps) simp
    qed
  qed (subst hitl_loop.simps, simp)
qed

lemma execute_with_retry_verifies:
  assumes "extract_verify_command task \<noteq> []" "case cfg of None \<Rightarrow> True | Some n \<Rightarrow> n \<ge> 0"
  shows "\<exists>es. fst (execute_with_retry env cfg task role) =
    [AgentRun 1 (strip_verify_directive task), VerifyRun 1 (attempt_passes env 1)] @ es"
proof -
  obtain n env' where ne: "(case cfg of None \<Rightarrow> (0, env\<lparr>env_hook := None\<rparr>) | Some n \<Rightarrow> (n, env)) = (n, env')" "n \<ge> 0"
    "env_verify env' = env_verify env"
    using assms(2) by (cases cfg) auto
  define tot where "tot = (if env_hook env' \<noteq> None then n + 1 + 1 else n + 1)"
  then have tot: "1 \<le> tot" using ne(2) by simp
  let ?clean = "strip_verify_directive task" and ?cmd = "extract_verify_command task"
  obtain st r where b: "hitl_body env' role ?clean ?cmd (n + 1) tot 1 hitl_init = (st, r)" by fastforce
  from hitl_body_log [of env' role ?clean ?cmd "n + 1" tot 1 hitl_init] b obtain es where
    "hs_log st = [AgentRun 1 ?clean, VerifyRun 1 (attempt_passes env' 1)] @ es"
    by (auto simp: hitl_init_def attempt_prompt_def)
  moreover have "\<exists>es. hs_log (fst (hitl_loop env' role ?clean ?cmd (n + 1) tot 1 hitl_init)) = hs_log st @ es"
  proof (cases r)
    case None
    with hitl_loop_continue [OF tot b [unfolded None]] hitl_loop_log show ?thesis by metis
  next
    case (Some a)
    with hitl_loop_return [OF tot b [unfolded Some]] show ?thesis by simp
  qed
  moreover have "attempt_passes env' 1 = attempt_passes env 1" using ne(3) by (simp add: attempt_passes_def)
  moreover have "fst (execute_with_retry env cfg task role) =
      hs_log (fst (hitl_loop env' role ?clean ?cmd (n + 1) tot 1 hitl_init))"
    using assms(1) ne(1) by (simp add: execute_with_retry_def tot_def Let_def split: prod.splits)
  ultimately show ?thesis by auto
qed


text \<open>
  A sub-agent that says too little is never counted as passed: for an answer with fewer than twenty visible
  characters, and no more than 189 in all, the summary of a wait marks the task as suspect.
\<close>

lemma short_answer_never_passes:
  assumes "length (trim_space (tr_content r)) < 20" "length (tr_content r) \<le> 189" "dt_status t = SubCompleted"
    "dt_result t = sub_agent_answer r"
  shows "fst (verdict t) = ''[SUSPECT]'' \<and> \<not> passes t"
proof -
  let ?w = "''[WARNING] Sub-agent produced very short output. The task may be incomplete.''"
  have res: "dt_result t = (tr_content r @ line_break @ line_break) @ ?w"
    using assms(1,4) by (simp add: sub_agent_answer_def)
  let ?c = "tr_content r @ line_break @ line_break"
  have "prefix (?c @ ''[WARNING]'') (take 200 (dt_result t))"
    unfolding res using assms(2) by (simp add: line_break_def take_Cons' prefix_def)
  then have "sublist ''[WARNING]'' (result_preview (dt_result t))"
    unfolding result_preview_def by (auto simp: prefix_def sublist_def) (metis append.assoc)+
  then have "contains_str (result_preview (dt_result t)) ''[WARNING]''" by (simp only: contains_str_iff)
  with assms(3) show ?thesis by (simp add: verdict_def passes_def Let_def)
qed

section \<open>A small installation\<close>

definition demo_agent :: agent_def where
  "demo_agent =
     \<lparr>ad_name = ''developer'', ad_description = [], ad_category = [], ad_keywords = [], ad_anchors = [], ad_regex = [],
      ad_tools = [''read''], ad_provider = [], ad_model = [], ad_max_iterations = 15, ad_memory_enabled = True,
      ad_recall_depth = 3, ad_prompt_skills = [], ad_priority = [], ad_body = ''Write code.'',
      ad_system_prompt = ''Write code.'', ad_source_path = ''agents/developer.md''\<rparr>"

definition named_tool :: "string \<Rightarrow> nat tool" where
  "named_tool name =
     \<lparr>tool_def = \<lparr>td_name = name, td_description = [], td_parameters = []\<rparr>, tool_run = (\<lambda>w ps. (w, Inr []))\<rparr>"

definition demo_tools :: "nat tool_registry" where
  "demo_tools = [''terminal'' \<mapsto> named_tool ''terminal'', ''skill_install'' \<mapsto> named_tool ''skill_install'']"

definition demo_tool_list :: "tool_definition list" where
  "demo_tool_list = [tool_def (named_tool ''terminal''), tool_def (named_tool ''skill_install'')]"

definition demo_manager :: manager where
  "demo_manager = new_manager 4000 (new_compactor (\<lambda>ts. ts)) empty_long_term"

definition demo_orch :: "nat orchestrator" where
  "demo_orch =
     (case new_orchestrator ''agents'' True 0 demo_tool_list [demo_agent] demo_tools demo_manager demo_fs of
        Inr o0 \<Rightarrow> o0)"

definition demo_exec :: "nat exec_env" where
  "demo_exec =
     \<lparr>xe_cfg = \<lparr>oc_cwd = ''/w'', oc_tasks_dir = ''tasks'', oc_log_enabled = False, oc_log_dir = []\<rparr>,
      xe_rx = (\<lambda>_. None), xe_first_key = (\<lambda>c. fst (hd (rc_entries c))), xe_task_id = ''task-1'',
      xe_date = ''2026-01-01'', xe_started = 0, xe_completed = 1, xe_duration = (\<lambda>n. itoa n @ ''s''), xe_time = itoa,
      xe_tokens = (\<lambda>r. 0),
      xe_hitl = (\<lambda>ctx ra task. \<lparr>env_agent = (\<lambda>i p. (Some (empty_task_result\<lparr>tr_content := ''done''\<rparr>), None)),
         env_verify = (\<lambda>i. ([], None)), env_hook = None, env_reflection = False, env_task_id = ''task-2''\<rparr>),
      xe_retries = None, xe_files_after = (\<lambda>ctx ra task fs. fs), xe_memory_after = (\<lambda>ctx ra task mg. mg),
      xe_decode = (\<lambda>s. None), xe_marshal = (\<lambda>m. []), xe_walk = (\<lambda>fs d. [])\<rparr>"

lemma demo_acceptable: "list_all acceptable [demo_agent]"
  by (simp add: acceptable_def demo_agent_def)

lemma demo_orch_new:
  "new_orchestrator ''agents'' True 0 demo_tool_list [demo_agent] demo_tools demo_manager demo_fs = Inr demo_orch"
proof -
  from register_from_agents_find [OF demo_acceptable, of demo_tool_list "new_role_registry demo_tools"] obtain r where
    "register_from_agents demo_tool_list [demo_agent] (new_role_registry demo_tools) = (None, r)" by blast
  then show ?thesis by (simp add: demo_orch_def new_orchestrator_def)
qed

lemma demo_same_rx: "same_rx (\<lambda>_. None) (demo_exec, background_ctx, task)"
  by (simp add: same_rx_def demo_exec_def)

theorem auto_tasks_find_their_role_witness:
  "list_all (\<lambda>res. \<forall>r. res \<noteq> Inl (RoleMissing r))
     (snd (execute_all [(demo_exec, background_ctx, ''fix the parser''), (demo_exec, background_ctx, ''make tea'')]
       (start_orch demo_orch)))"
  by (rule auto_tasks_find_their_role [OF demo_orch_new, where rx = "\<lambda>_. None"])
    (simp_all add: demo_same_rx, simp add: demo_agent_def)

lemma no_agents_every_task_fails_witness:
  "snd (execute_all [(demo_exec, background_ctx, ''what is 2 + 2'')]
     (start_orch (projr (new_orchestrator ''agents'' True 0 demo_tool_list [] demo_tools demo_manager demo_fs)))) =
   [Inl (RoleMissing ''generalist'')]"
proof -
  obtain o0 where "new_orchestrator ''agents'' True 0 demo_tool_list [] demo_tools demo_manager demo_fs = Inr o0"
    by (simp add: new_orchestrator_def)
  with no_agents_every_task_fails [OF this, where rx = "\<lambda>_. None" and
      ts = "[(demo_exec, background_ctx, ''what is 2 + 2'')]"]
  show ?thesis by (simp add: demo_same_rx role_generalist_def)
qed

lemma startup_needs_every_agent_witness:
  "isl (new_orchestrator ''agents'' True 0 demo_tool_list [demo_agent, demo_agent\<lparr>ad_max_iterations := 0\<rparr>] demo_tools
     demo_manager demo_fs)"
  by (subst startup_needs_every_agent) (simp_all add: acceptable_def)

lemma demo_tools_ok: "registry_ok demo_tools" "set demo_tool_list = list_tools demo_tools"
proof -
  show "registry_ok demo_tools"
    by (auto simp: registry_ok_def demo_tools_def find_tool_def named_tool_def tool_name_def registrable_def
        split: if_splits)
  have "ran demo_tools = {named_tool ''skill_install'', named_tool ''terminal''}"
    unfolding demo_tools_def by (subst ran_map_upd; simp)+
  then show "set demo_tool_list = list_tools demo_tools" by (auto simp: demo_tool_list_def list_tools_def)
qed

lemma role_sees_listed_tools_witness:
  "\<exists>ra. get_role (os_roles demo_orch) ''developer'' = Inr ra \<and> find_tool (ra_tools ra) ''terminal'' = None \<and>
     find_tool (ra_tools ra) ''skill_install'' \<noteq> None"
proof -
  have d: "demo_agent \<in> set [demo_agent]" "distinct (map ad_name [demo_agent])" by simp_all
  note r = role_sees_listed_tools [OF demo_orch_new d demo_tools_ok]
  have n: "ad_name demo_agent = ''developer''" "ad_tools demo_agent = [''read'']" by (simp_all add: demo_agent_def)
  have b: "is_builtin_name ''terminal''" "\<not> is_builtin_name ''skill_install''"
    by (simp_all add: is_builtin_name_def builtin_names_def)
  have t: "find_tool demo_tools ''skill_install'' \<noteq> None" by (simp add: demo_tools_def find_tool_def)
  from r [of "''terminal''"] r [of "''skill_install''"] n b t show ?thesis by auto
qed

lemma restarted_orchestrator_forgets_witness:
  "os_memory (fst (execute_all [(demo_exec, background_ctx, ''fix the parser'')]
     (start_orch (shutdown_orch demo_orch)))) = close_manager (os_memory demo_orch)"
proof -
  have "closed_stays demo_exec" by (simp add: closed_stays_def demo_exec_def)
  with restarted_orchestrator_forgets [of "[(demo_exec, background_ctx, ''fix the parser'')]" demo_orch]
  show ?thesis by simp
qed

definition verify_goal :: string where
  "verify_goal = ''update the readme'' @ [CHR 0x0A] @ ''VERIFY: make deploy''"

lemma demo_role_found: "find_role (os_roles demo_orch) ''developer'' \<noteq> None"
proof -
  from new_orchestrator_roles [OF demo_orch_new] have "os_roles demo_orch =
      snd (register_from_agents demo_tool_list [demo_agent] (new_role_registry demo_tools))" by simp
  with register_from_agents_find [OF demo_acceptable, of demo_tool_list "new_role_registry demo_tools" "''developer''"]
  show ?thesis by (auto simp: demo_agent_def)
qed


lemma short_answer_never_passes_witness:
  "fst (verdict ((new_task ''task-1'' 0 ''goal'' [])\<lparr>dt_status := SubCompleted,
     dt_result := sub_agent_answer (empty_task_result\<lparr>tr_content := ''ok''\<rparr>)\<rparr>)) = ''[SUSPECT]''"
proof -
  have "length (trim_space ''ok'') < 20" by code_simp
  with short_answer_never_passes [of "empty_task_result\<lparr>tr_content := ''ok''\<rparr>"
      "(new_task ''task-1'' 0 ''goal'' [])\<lparr>dt_status := SubCompleted,
         dt_result := sub_agent_answer (empty_task_result\<lparr>tr_content := ''ok''\<rparr>)\<rparr>"]
  show ?thesis by simp
qed

text \<open>Two hundred blanks in front keep the warning out of the preview: such an answer passes.\<close>

lemma padded_answer_passes:
  "passes ((new_task ''task-1'' 0 ''goal'' [])\<lparr>dt_status := SubCompleted,
     dt_result := sub_agent_answer (empty_task_result\<lparr>tr_content := replicate 200 (CHR '' '')\<rparr>)\<rparr>)"
  by code_simp

end
