(* ===== verification/Go_Runes.thy ===== *)
theory Go_Runes
  imports Go_Strings
begin

text \<open>
  Runes: Go strings are bytes, \<open>range\<close> and \<open>[]rune(s)\<close> read them as UTF-8 (\<open>unicode/utf8\<close>). A byte that does not
  start a well-formed sequence is read as the replacement character U+FFFD of width one. Writing a rune encodes it,
  and encodes a value that is no Unicode scalar value as U+FFFD. The theorems: the code of a string of valid runes is
  read back as those runes, and reading always yields valid runes.
\<close>

definition rune_error :: nat where
  "rune_error = 65533"

definition valid_rune :: "nat \<Rightarrow> bool" where
  "valid_rune r \<longleftrightarrow> r < 55296 \<or> (57344 \<le> r \<and> r < 1114112)"

section \<open>Encoding\<close>

definition encode_valid :: "nat \<Rightarrow> string" where
  "encode_valid r =
     (if r < 128 then [char_of r]
      else if r < 2048 then [char_of (192 + r div 64), char_of (128 + r mod 64)]
      else if r < 65536 then [char_of (224 + r div 4096), char_of (128 + r div 64 mod 64), char_of (128 + r mod 64)]
      else [char_of (240 + r div 262144), char_of (128 + r div 4096 mod 64), char_of (128 + r div 64 mod 64),
            char_of (128 + r mod 64)])"

definition encode_rune :: "nat \<Rightarrow> string" where
  "encode_rune r = encode_valid (if valid_rune r then r else rune_error)"

definition of_runes :: "nat list \<Rightarrow> string" where
  "of_runes rs = concat (map encode_rune rs)"

section \<open>Decoding\<close>

definition in_range :: "char \<Rightarrow> nat \<Rightarrow> nat \<Rightarrow> bool" where
  "in_range c lo hi \<longleftrightarrow> lo \<le> byte c \<and> byte c \<le> hi"

text \<open>The bounds of the second byte after a leading byte; a leading byte from 224 on excludes overlong forms,
  surrogates and values beyond U+10FFFF here.\<close>

definition second_low :: "nat \<Rightarrow> nat" where
  "second_low b = (if b = 224 then 160 else if b = 240 then 144 else 128)"

definition second_high :: "nat \<Rightarrow> nat" where
  "second_high b = (if b = 237 then 159 else if b = 244 then 143 else 191)"

fun decode_tail :: "nat \<Rightarrow> string \<Rightarrow> nat \<times> nat" where
  "decode_tail b [] = (rune_error, 1)"
| "decode_tail b (c1 # s) =
     (if \<not> in_range c1 (second_low b) (second_high b) then (rune_error, 1)
      else if b < 224 then ((b - 192) * 64 + (byte c1 - 128), 2)
      else (case s of
          [] \<Rightarrow> (rune_error, 1)
        | c2 # s' \<Rightarrow>
            if \<not> in_range c2 128 191 then (rune_error, 1)
            else if b < 240 then ((b - 224) * 4096 + (byte c1 - 128) * 64 + (byte c2 - 128), 3)
            else (case s' of
                [] \<Rightarrow> (rune_error, 1)
              | c3 # s'' \<Rightarrow>
                  if \<not> in_range c3 128 191 then (rune_error, 1)
                  else ((b - 240) * 262144 + (byte c1 - 128) * 4096 + (byte c2 - 128) * 64 + (byte c3 - 128), 4))))"

fun decode_rune :: "string \<Rightarrow> nat \<times> nat" where
  "decode_rune [] = (rune_error, 0)"
| "decode_rune (c # s) =
     (if byte c < 128 then (byte c, 1)
      else if byte c < 194 \<or> 244 < byte c then (rune_error, 1)
      else decode_tail (byte c) s)"

lemma decode_tail_width: "1 \<le> snd (decode_tail b s)"
  by (cases "(b, s)" rule: decode_tail.cases) (auto split: list.splits)

lemma decode_rune_width: "s \<noteq> [] \<Longrightarrow> 1 \<le> snd (decode_rune s)"
  using decode_tail_width by (cases s) auto

function runes :: "string \<Rightarrow> nat list" where
  "runes s = (if s = [] then [] else let (r, w) = decode_rune s in r # runes (drop w s))"
  by auto
termination
proof (relation "measure length")
  fix s :: string and p r w
  assume "s \<noteq> []" "p = decode_rune s" "(r, w) = p"
  then have "1 \<le> w" using decode_rune_width [of s] by (metis snd_conv)
  with \<open>s \<noteq> []\<close> show "(drop w s, s) \<in> measure length" by simp
qed simp

declare runes.simps [simp del]

lemma runes_Nil [simp]: "runes [] = []"
  by (subst runes.simps) simp

lemma runes_step: "s \<noteq> [] \<Longrightarrow> decode_rune s = (r, w) \<Longrightarrow> runes s = r # runes (drop w s)"
  by (subst runes.simps) simp

lemma runes_code [code]:
  "runes [] = []"
  "runes (c # cs) = fst (decode_rune (c # cs)) # runes (drop (snd (decode_rune (c # cs))) (c # cs))"
  by (simp, metis list.distinct(1) prod.collapse runes_step)

lemma length_runes: "length (runes s) \<le> length s"
proof (induction s rule: runes.induct)
  case (1 s)
  show ?case
  proof (cases "s = []")
    case False
    obtain r w where d: "decode_rune s = (r, w)" by (metis surj_pair)
    with decode_rune_width [OF False] have "1 \<le> w" by simp
    moreover have "length (runes (drop w s)) \<le> length (drop w s)" using 1 [OF False] d by simp
    moreover have "runes s = r # runes (drop w s)" using False d by (rule runes_step)
    ultimately show ?thesis using False by (cases s) auto
  qed simp
qed

section \<open>Reading back what was written\<close>

lemma valid_rune_error [simp]: "valid_rune rune_error"
  by (simp add: valid_rune_def rune_error_def)

lemma encode_valid_nonempty [simp]: "encode_valid r \<noteq> []"
  by (simp add: encode_valid_def)

lemma encode_rune_nonempty [simp]: "encode_rune r \<noteq> []"
  by (simp add: encode_rune_def)

lemma decode_two:
  assumes "128 \<le> r" "r < 2048"
  shows "decode_rune (encode_valid r @ s) = (r, length (encode_valid r))"
proof -
  have "2 \<le> r div 64" using assms by simp
  moreover have "r div 64 < 32" using assms by auto
  ultimately show ?thesis using assms
    by (simp add: encode_valid_def byte_char_of in_range_def second_low_def second_high_def)
qed

text \<open>The digits of a rune in base 64.\<close>

lemma digits_three: "r div 4096 * 4096 + r div 64 mod 64 * 64 + r mod 64 = (r::nat)"
proof -
  have "r div 4096 = r div 64 div 64" by (simp add: div_mult2_eq [symmetric])
  moreover have "r div 64 div 64 * 64 + r div 64 mod 64 = r div 64" by (rule div_mult_mod_eq)
  moreover have "r div 64 * 64 + r mod 64 = r" by (rule div_mult_mod_eq)
  ultimately show ?thesis by linarith
qed

lemma digits_four: "r div 262144 * 262144 + r div 4096 mod 64 * 4096 + r div 64 mod 64 * 64 + r mod 64 = (r::nat)"
proof -
  have "r div 262144 = r div 4096 div 64" by (simp add: div_mult2_eq [symmetric])
  moreover have "r div 4096 div 64 * 64 + r div 4096 mod 64 = r div 4096" by (rule div_mult_mod_eq)
  ultimately show ?thesis using digits_three [of r] by linarith
qed

lemma decode_three_bytes:
  assumes "a < 16" "b < 64" "c < 64" "a = 0 \<Longrightarrow> 32 \<le> b" "a = 13 \<Longrightarrow> b < 32"
  shows "decode_rune (char_of (224 + a) # char_of (128 + b) # char_of (128 + c) # s) =
    (a * 4096 + b * 64 + c, 3)"
proof -
  have "byte (char_of (224 + a)) = 224 + a" using assms(1) by (intro byte_char_of) simp
  moreover have "byte (char_of (128 + b)) = 128 + b" using assms(2) by (intro byte_char_of) simp
  moreover have "byte (char_of (128 + c)) = 128 + c" using assms(3) by (intro byte_char_of) simp
  ultimately show ?thesis using assms by (auto simp: in_range_def second_low_def second_high_def)
qed

lemma decode_four_bytes:
  assumes "a < 5" "b < 64" "c < 64" "d < 64" "a = 0 \<Longrightarrow> 16 \<le> b" "a = 4 \<Longrightarrow> b < 16"
  shows "decode_rune (char_of (240 + a) # char_of (128 + b) # char_of (128 + c) # char_of (128 + d) # s) =
    (a * 262144 + b * 4096 + c * 64 + d, 4)"
proof -
  have "byte (char_of (240 + a)) = 240 + a" using assms(1) by (intro byte_char_of) simp
  moreover have "byte (char_of (128 + b)) = 128 + b" using assms(2) by (intro byte_char_of) simp
  moreover have "byte (char_of (128 + c)) = 128 + c" using assms(3) by (intro byte_char_of) simp
  moreover have "byte (char_of (128 + d)) = 128 + d" using assms(4) by (intro byte_char_of) simp
  ultimately show ?thesis using assms by (auto simp: in_range_def second_low_def second_high_def)
qed

lemma decode_three:
  assumes "2048 \<le> r" "r < 65536" "valid_rune r"
  shows "decode_rune (encode_valid r @ s) = (r, length (encode_valid r))"
proof -
  let ?a = "r div 4096" and ?b = "r div 64 mod 64" and ?c = "r mod 64"
  have r: "?a * 4096 + ?b * 64 + ?c = r" by (rule digits_three)
  have lt: "?a < 16" "?b < 64" "?c < 64" using assms(2) by auto
  have lo: "?a = 0 \<Longrightarrow> 32 \<le> ?b" using assms(1) r lt by linarith
  have hi: "?a = 13 \<Longrightarrow> ?b < 32" using assms(3) r lt unfolding valid_rune_def by linarith
  have "encode_valid r = [char_of (224 + ?a), char_of (128 + ?b), char_of (128 + ?c)]"
    using assms by (simp add: encode_valid_def)
  with decode_three_bytes [OF lt lo hi, of s] r show ?thesis by simp
qed

lemma decode_four:
  assumes "65536 \<le> r" "valid_rune r"
  shows "decode_rune (encode_valid r @ s) = (r, length (encode_valid r))"
proof -
  let ?a = "r div 262144" and ?b = "r div 4096 mod 64" and ?c = "r div 64 mod 64" and ?d = "r mod 64"
  have r: "?a * 262144 + ?b * 4096 + ?c * 64 + ?d = r" by (rule digits_four)
  have m: "r < 1114112" using assms by (simp add: valid_rune_def)
  have lt: "?a < 5" "?b < 64" "?c < 64" "?d < 64" using m by auto
  have lo: "?a = 0 \<Longrightarrow> 16 \<le> ?b" using assms(1) r lt by linarith
  have hi: "?a = 4 \<Longrightarrow> ?b < 16" using m r lt by linarith
  have "encode_valid r = [char_of (240 + ?a), char_of (128 + ?b), char_of (128 + ?c), char_of (128 + ?d)]"
    using assms by (simp add: encode_valid_def)
  with decode_four_bytes [OF lt lo hi, of s] r show ?thesis by simp
qed

lemma decode_encode_valid:
  assumes "valid_rune r"
  shows "decode_rune (encode_valid r @ s) = (r, length (encode_valid r))"
proof -
  consider "r < 128" | "128 \<le> r" "r < 2048" | "2048 \<le> r" "r < 65536" | "65536 \<le> r" by linarith
  then show ?thesis
  proof cases
    case 1
    then show ?thesis by (simp add: encode_valid_def byte_char_of)
  qed (use assms decode_two decode_three decode_four in blast)+
qed

lemma runes_encode: "runes (encode_rune r @ s) = (if valid_rune r then r else rune_error) # runes s"
proof -
  let ?r = "if valid_rune r then r else rune_error"
  have "decode_rune (encode_rune r @ s) = (?r, length (encode_rune r))"
    unfolding encode_rune_def by (rule decode_encode_valid) simp
  then show ?thesis by (subst runes_step) auto
qed

lemma runes_of_runes: "runes (of_runes rs) = map (\<lambda>r. if valid_rune r then r else rune_error) rs"
  by (induction rs) (auto simp: of_runes_def runes_encode)

lemma runes_of_valid: "\<forall>r\<in>set rs. valid_rune r \<Longrightarrow> runes (of_runes rs) = rs"
  by (simp add: runes_of_runes map_idI)

lemma of_runes_append [simp]: "of_runes (rs @ qs) = of_runes rs @ of_runes qs"
  by (simp add: of_runes_def)

lemma of_runes_Nil [simp]: "of_runes [] = []"
  by (simp add: of_runes_def)

lemma of_runes_Cons [simp]: "of_runes (r # rs) = encode_rune r @ of_runes rs"
  by (simp add: of_runes_def)

lemma of_runes_inject:
  "\<forall>r\<in>set rs. valid_rune r \<Longrightarrow> \<forall>r\<in>set qs. valid_rune r \<Longrightarrow> of_runes rs = of_runes qs \<longleftrightarrow> rs = qs"
  by (metis runes_of_valid)

text \<open>The bytes of a code are the rune itself below 128 and bytes from 128 on otherwise.\<close>

lemma encode_valid_bytes:
  assumes "valid_rune r" "c \<in> set (encode_valid r)"
  shows "(r < 128 \<and> byte c = r) \<or> (128 \<le> r \<and> 128 \<le> byte c)"
proof -
  have m: "r < 1114112" using assms(1) by (auto simp: valid_rune_def)
  have b: "128 \<le> byte (char_of (k + q))" if "128 \<le> k" "k + q < 256" for k q :: nat
    using that by (simp add: byte_char_of)
  consider "r < 128" | "128 \<le> r" "r < 2048" | "2048 \<le> r" "r < 65536" | "65536 \<le> r" by linarith
  then show ?thesis
  proof cases
    case 1
    with assms(2) show ?thesis by (simp add: encode_valid_def byte_char_of)
  next
    case 2
    then have "192 + r div 64 < 256" by auto
    with 2 assms(2) show ?thesis by (auto simp: encode_valid_def intro!: b)
  next
    case 3
    then have "224 + r div 4096 < 256" by auto
    with 3 assms(2) show ?thesis by (auto simp: encode_valid_def intro!: b)
  next
    case 4
    have "240 + r div 262144 < 256" using m by auto
    with 4 assms(2) show ?thesis by (auto simp: encode_valid_def intro!: b)
  qed
qed

lemma encode_rune_bytes: "c \<in> set (encode_rune r) \<Longrightarrow> 128 \<le> byte c \<or> (r < 128 \<and> byte c = r)"
  using encode_valid_bytes [of "if valid_rune r then r else rune_error" c]
  by (cases "valid_rune r") (simp_all add: encode_rune_def, auto simp: rune_error_def)

section \<open>Reading yields valid runes\<close>

lemma decode_tail_valid:
  assumes "194 \<le> b" "b \<le> 244"
  shows "valid_rune (fst (decode_tail b s))"
proof (cases s)
  case (Cons c1 s1)
  have b1: "byte c1 < 256" by simp
  show ?thesis
  proof (cases s1)
    case Nil
    with Cons assms show ?thesis
      by (auto simp: in_range_def valid_rune_def rune_error_def second_low_def second_high_def)
  next
    case s1: (Cons c2 s2)
    show ?thesis
    proof (cases s2)
      case Nil
      with Cons s1 assms show ?thesis
        by (auto simp: in_range_def valid_rune_def rune_error_def second_low_def second_high_def split: if_splits)
    next
      case s2: (Cons c3 s3)
      with Cons s1 assms show ?thesis
        by (auto simp: in_range_def valid_rune_def rune_error_def second_low_def second_high_def split: if_splits)
    qed
  qed
qed simp

lemma decode_rune_valid: "valid_rune (fst (decode_rune s))"
proof (cases s)
  case (Cons c s')
  then show ?thesis using decode_tail_valid [of "byte c" s'] by (auto simp: valid_rune_def [of "byte c"])
qed simp

lemma runes_valid: "r \<in> set (runes s) \<Longrightarrow> valid_rune r"
proof (induction s rule: runes.induct)
  case (1 s)
  show ?case
  proof (cases "s = []")
    case False
    obtain q w where d: "decode_rune s = (q, w)" by (metis surj_pair)
    with False "1.prems" have "r = q \<or> r \<in> set (runes (drop w s))" by (simp add: runes_step)
    then show ?thesis using 1(1) [OF False] d decode_rune_valid [of s] by auto
  qed (use "1.prems" in simp)
qed

lemma runes_stable: "runes (of_runes (runes s)) = runes s"
  using runes_valid by (intro runes_of_valid) blast

text \<open>Bytes below 128 are runes of their own.\<close>

lemma runes_ascii: "\<forall>c\<in>set s. byte c < 128 \<Longrightarrow> runes s = map byte s"
  by (induction s) (auto simp: runes_step)

lemma of_runes_ascii: "\<forall>r\<in>set rs. r < 128 \<Longrightarrow> of_runes rs = map char_of rs"
  by (induction rs) (auto simp: encode_rune_def encode_valid_def valid_rune_def)

lemma of_runes_bytes: "\<forall>c\<in>set s. byte c < 128 \<Longrightarrow> of_runes (map byte s) = s"
  by (simp add: of_runes_ascii comp_def byte_def)

end
