(* ===== verification/Security_Manager.thy ===== *)
theory Security_Manager
  imports Go_Runes
begin

text \<open>
  The security manager (\<open>internal/security/security.go\<close>): API keys, the sliding-window rate limit and the clean-up
  of inputs. SHA-256 in hexadecimal form is a parameter. Times are nanoseconds; \<open>time.Now\<close> is an argument of
  the operation that reads it, and the map of rate-limit entries is a function from keys to time stamps, where an
  entry that was never created reads as the empty list it is created with.
\<close>

record security_config =
  sec_enabled :: bool
  sec_key_hashes :: "string list"
  sec_rate_max :: int
  sec_window_sec :: int
  sec_max_input :: int

record security_manager =
  sm_config :: security_config
  sm_api_keys :: "string set"
  sm_entries :: "string \<Rightarrow> int list"
  sm_window :: int
  sm_rate_max :: int

text \<open>The defaults of \<open>New\<close>; the third one assigns the window where the input size is missing.\<close>

definition security_defaults :: "security_config \<Rightarrow> security_config" where
  "security_defaults cfg =
     (let cfg = (if sec_rate_max cfg \<le> 0 then cfg\<lparr>sec_rate_max := 100\<rparr> else cfg);
          cfg = (if sec_window_sec cfg \<le> 0 then cfg\<lparr>sec_window_sec := 60\<rparr> else cfg)
      in if sec_max_input cfg \<le> 0 then cfg\<lparr>sec_window_sec := 10000\<rparr> else cfg)"

definition second :: int where
  "second = 1000000000"

definition new_security :: "security_config \<Rightarrow> security_manager" where
  "new_security cfg0 =
     (let cfg = security_defaults cfg0
      in \<lparr>sm_config = cfg, sm_api_keys = to_lower ` set (sec_key_hashes cfg), sm_entries = (\<lambda>_. []),
          sm_window = sec_window_sec cfg * second, sm_rate_max = sec_rate_max cfg\<rparr>)"

definition authenticate :: "(string \<Rightarrow> string) \<Rightarrow> security_manager \<Rightarrow> string \<Rightarrow> bool" where
  "authenticate sha256_hex sm api_key \<longleftrightarrow>
     (if \<not> sec_enabled (sm_config sm) then True
      else if api_key = [] then False
      else to_lower (sha256_hex api_key) \<in> sm_api_keys sm)"

definition rate_key :: "string \<Rightarrow> string" where
  "rate_key key = (if key = [] then ''anonymous'' else key)"

definition rate_limit :: "int \<Rightarrow> string \<Rightarrow> security_manager \<Rightarrow> security_manager \<times> bool" where
  "rate_limit now key0 sm =
     (if \<not> sec_enabled (sm_config sm) then (sm, True)
      else let key = rate_key key0;
               window_start = now - sm_window sm;
               recent = filter (\<lambda>t. window_start < t) (sm_entries sm key)
           in if sm_rate_max sm \<le> int (length recent)
              then (sm\<lparr>sm_entries := (sm_entries sm)(key := recent)\<rparr>, False)
              else (sm\<lparr>sm_entries := (sm_entries sm)(key := recent @ [now])\<rparr>, True))"

definition kept_rune :: "nat \<Rightarrow> bool" where
  "kept_rune r \<longleftrightarrow> r = 10 \<or> r = 9 \<or> r = 13 \<or> (32 \<le> r \<and> r \<le> 126) \<or> 128 \<le> r"

definition sanitize_limit :: "security_manager \<Rightarrow> nat" where
  "sanitize_limit sm =
     (let max_len = sec_max_input (sm_config sm) in nat (if max_len \<le> 0 then 10000 else max_len))"

definition sanitize :: "security_manager \<Rightarrow> string \<Rightarrow> string" where
  "sanitize sm input = take (sanitize_limit sm) (of_runes (filter kept_rune (runes input)))"

datatype request_error = TaskEmpty | TaskTooLong int

record task_request =
  rq_task :: string
  rq_role :: string
  rq_session :: string

text \<open>The two request types have the same fields and the same checks; any other value passes.\<close>

datatype request_value = ExecuteRequest task_request | StreamRequest task_request | OtherRequest

definition check_task :: "security_manager \<Rightarrow> string \<Rightarrow> request_error option" where
  "check_task sm task =
     (if task = [] then Some TaskEmpty
      else if sec_max_input (sm_config sm) < int (length task) then Some (TaskTooLong (sec_max_input (sm_config sm)))
      else None)"

fun validate_request :: "security_manager \<Rightarrow> request_value \<Rightarrow> request_error option" where
  "validate_request sm (ExecuteRequest v) = check_task sm (rq_task v)"
| "validate_request sm (StreamRequest v) = check_task sm (rq_task v)"
| "validate_request sm OtherRequest = None"

section \<open>The rate limit\<close>

text \<open>A sequence of calls for several keys at times that do not go back.\<close>

definition rate_calls :: "security_manager \<Rightarrow> (int \<times> string) list \<Rightarrow> security_manager" where
  "rate_calls sm calls = foldl (\<lambda>s (now, key). fst (rate_limit now key s)) sm calls"

fun allowed_at :: "security_manager \<Rightarrow> string \<Rightarrow> (int \<times> string) list \<Rightarrow> int list" where
  "allowed_at sm key [] = []"
| "allowed_at sm key ((now, k) # calls) =
     (let (sm', ok) = rate_limit now k sm
      in (if ok \<and> rate_key k = rate_key key then [now] else []) @ allowed_at sm' key calls)"

lemma rate_limit_frame:
  "sm_config (fst (rate_limit now k sm)) = sm_config sm"
  "sm_window (fst (rate_limit now k sm)) = sm_window sm"
  "sm_rate_max (fst (rate_limit now k sm)) = sm_rate_max sm"
  by (auto simp: rate_limit_def Let_def)

lemma rate_limit_other:
  "rate_key k \<noteq> key \<Longrightarrow> sm_entries (fst (rate_limit now k sm)) key = sm_entries sm key"
  by (auto simp: rate_limit_def Let_def)

definition in_window :: "int \<Rightarrow> int \<Rightarrow> int list \<Rightarrow> int list" where
  "in_window w now ts = filter (\<lambda>t. now - w < t) ts"

text \<open>
  What the entry of a key holds after a run: no more stamps than the limit, and of the requests that were let
  through all those that are still in the window.
\<close>

definition rate_inv :: "security_manager \<Rightarrow> string \<Rightarrow> int \<Rightarrow> int list \<Rightarrow> bool" where
  "rate_inv sm key now past \<longleftrightarrow>
     int (length (sm_entries sm key)) \<le> sm_rate_max sm \<and>
     (\<forall>t\<in>set past. t \<le> now) \<and>
     (\<forall>later\<ge>now. in_window (sm_window sm) later (sm_entries sm key) = in_window (sm_window sm) later past)"

lemma in_window_in_window: "now \<le> later \<Longrightarrow> in_window w later (in_window w now ts) = in_window w later ts"
  by (auto simp: in_window_def intro!: filter_cong)

lemma rate_limit_inv:
  assumes inv: "rate_inv sm key now past" and "now \<le> t" "sec_enabled (sm_config sm)"
    and key: "rate_key k = key" and res: "rate_limit t k sm = (sm', ok)"
  shows "rate_inv sm' key t (past @ (if ok then [t] else []))"
proof -
  let ?w = "sm_window sm"
  let ?r = "in_window ?w t (sm_entries sm key)"
  have len: "int (length ?r) \<le> int (length (sm_entries sm key))" by (simp add: in_window_def)
  have eq: "in_window ?w later ?r = in_window ?w later past" if "t \<le> later" for later
    using inv that assms(2) by (simp add: rate_inv_def in_window_in_window)
  have past: "\<forall>u\<in>set past. u \<le> t" using inv assms(2) by (auto simp: rate_inv_def)
  show ?thesis
  proof (cases "sm_rate_max sm \<le> int (length ?r)")
    case True
    then have "sm' = sm\<lparr>sm_entries := (sm_entries sm)(key := ?r)\<rparr>" "\<not> ok"
      using res assms(3) key by (auto simp: rate_limit_def Let_def in_window_def)
    then show ?thesis using inv len eq past by (auto simp: rate_inv_def)
  next
    case False
    then have "sm' = sm\<lparr>sm_entries := (sm_entries sm)(key := ?r @ [t])\<rparr>" "ok"
      using res assms(3) key by (auto simp: rate_limit_def Let_def in_window_def)
    then show ?thesis using False eq past by (auto simp: rate_inv_def) (simp_all add: in_window_def)
  qed
qed

lemma rate_other_inv:
  "rate_inv sm key now past \<Longrightarrow> now \<le> t \<Longrightarrow> rate_key k \<noteq> key \<Longrightarrow> rate_inv (fst (rate_limit t k sm)) key t past"
  by (auto simp: rate_inv_def rate_limit_other rate_limit_frame dest: order_trans)

lemma rate_run_inv:
  "rate_inv sm (rate_key key) now past \<Longrightarrow> sec_enabled (sm_config sm) \<Longrightarrow>
   sorted (now # map fst calls) \<Longrightarrow>
   rate_inv (rate_calls sm calls) (rate_key key) (last (now # map fst calls)) (past @ allowed_at sm key calls)"
proof (induction calls arbitrary: sm now past)
  case Nil
  then show ?case by (simp add: rate_calls_def)
next
  case (Cons c calls)
  obtain t k where c: "c = (t, k)" by (cases c)
  obtain sm' ok where r: "rate_limit t k sm = (sm', ok)" by (metis surj_pair)
  have t: "now \<le> t" using Cons.prems(3) c by simp
  have inv: "rate_inv sm' (rate_key key) t (past @ (if ok \<and> rate_key k = rate_key key then [t] else []))"
  proof (cases "rate_key k = rate_key key")
    case True
    from rate_limit_inv [OF Cons.prems(1) t Cons.prems(2) this r] True show ?thesis by simp
  next
    case False
    from rate_other_inv [OF Cons.prems(1) t this] r False show ?thesis by simp
  qed
  have "sec_enabled (sm_config sm')" using Cons.prems(2) rate_limit_frame(1) [of t k sm] r by simp
  moreover have "sorted (t # map fst calls)" using Cons.prems(3) c by simp
  ultimately show ?case using Cons.IH [OF inv] c r by (simp add: rate_calls_def)
qed

lemma rate_calls_frame:
  "sm_window (rate_calls sm calls) = sm_window sm" "sm_rate_max (rate_calls sm calls) = sm_rate_max sm"
  unfolding rate_calls_def
  by (induction calls arbitrary: sm) (auto simp: rate_limit_frame)

lemma new_security_config: "sm_config (new_security cfg) = security_defaults cfg"
  by (simp add: new_security_def Let_def)

lemma security_defaults_enabled: "sec_enabled (security_defaults cfg) = sec_enabled cfg"
  by (simp add: security_defaults_def Let_def)

lemma new_security_rate: "0 < sm_rate_max (new_security cfg)"
  by (auto simp: new_security_def security_defaults_def Let_def)

text \<open>C36: In any sequence of requests whose times do not go back, at most the configured number of requests of one key
  passes in a window: of the requests let through, those later than the window before the last call are at
  most \<open>RateLimitMax\<close> (100 when it is not positive), whatever the other keys do.\<close>

theorem rate_window_bound:
  assumes "sec_enabled cfg" "sorted (map fst calls)" "calls \<noteq> []"
  shows "int (length (in_window (sm_window (new_security cfg)) (fst (last calls)) (allowed_at (new_security cfg) key calls)))
    \<le> sm_rate_max (new_security cfg)"
proof -
  let ?sm = "new_security cfg"
  let ?t0 = "fst (hd calls)"
  have "rate_inv ?sm (rate_key key) ?t0 []"
    using new_security_rate [of cfg] by (simp add: rate_inv_def new_security_def Let_def in_window_def)
  moreover have "sec_enabled (sm_config ?sm)" using assms(1) by (simp add: new_security_config security_defaults_enabled)
  moreover have "sorted (?t0 # map fst calls)" using assms(2,3) by (cases calls) auto
  moreover have last: "last (?t0 # map fst calls) = fst (last calls)" using assms(3) by (simp add: last_map)
  ultimately have "rate_inv (rate_calls ?sm calls) (rate_key key) (fst (last calls)) (allowed_at ?sm key calls)"
    using rate_run_inv [of ?sm key ?t0 "[]" calls] by simp
  then have "in_window (sm_window ?sm) (fst (last calls)) (allowed_at ?sm key calls) =
      in_window (sm_window ?sm) (fst (last calls)) (sm_entries (rate_calls ?sm calls) (rate_key key))"
    and "int (length (sm_entries (rate_calls ?sm calls) (rate_key key))) \<le> sm_rate_max ?sm"
    by (auto simp: rate_inv_def rate_calls_frame)
  moreover have "length (in_window w now ts) \<le> length ts" for w now ts
    by (simp add: in_window_def)
  ultimately show ?thesis by (metis of_nat_mono order_trans)
qed

definition three_a_minute :: security_config where
  "three_a_minute =
     \<lparr>sec_enabled = True, sec_key_hashes = [], sec_rate_max = 2, sec_window_sec = 60, sec_max_input = 100\<rparr>"

lemma rate_window_bound_witness:
  "int (length (in_window (sm_window (new_security three_a_minute)) 40
      (allowed_at (new_security three_a_minute) ''a'' [(10, ''a''), (20, ''b''), (20, ''a''), (40, ''a'')]))) \<le> 2
   \<and> allowed_at (new_security three_a_minute) ''a'' [(10, ''a''), (20, ''b''), (20, ''a''), (40, ''a'')] = [10, 20]"
proof -
  let ?calls = "[(10, ''a''), (20, ''b''), (20, ''a''), (40, ''a'')] :: (int \<times> string) list"
  have "sm_rate_max (new_security three_a_minute) = 2"
    by (simp add: new_security_def security_defaults_def three_a_minute_def Let_def)
  then have "int (length (in_window (sm_window (new_security three_a_minute)) 40
      (allowed_at (new_security three_a_minute) ''a'' ?calls))) \<le> 2"
    using rate_window_bound [of three_a_minute ?calls "''a''"] by (simp add: three_a_minute_def)
  moreover have "allowed_at (new_security three_a_minute) ''a'' ?calls = [10, 20]"
    by (simp add: new_security_def security_defaults_def three_a_minute_def Let_def rate_limit_def rate_key_def second_def)
  ultimately show ?thesis by blast
qed

section \<open>Keys and inputs\<close>

text \<open>A manager that was enabled without keys lets nobody in; with keys, letter case of a stored hash does not matter.\<close>

lemma authenticate_enabled:
  "sec_enabled cfg \<Longrightarrow>
   authenticate sha256_hex (new_security cfg) api_key \<longleftrightarrow>
     api_key \<noteq> [] \<and> (\<exists>h\<in>set (sec_key_hashes cfg). to_lower (sha256_hex api_key) = to_lower h)"
  by (auto simp: authenticate_def new_security_def security_defaults_def Let_def image_iff)

text \<open>A configuration without a positive \<open>MaxInputSize\<close> does not get the default of 10000 bytes: the window of the
  rate limit becomes 10000 seconds whatever was configured, and every request with a non-empty task is rejected as
  too long, although the same manager accepts 10000 bytes in \<open>Sanitize\<close>.\<close>

lemma missing_input_size_rejects_tasks:
  assumes "sec_max_input cfg \<le> 0" "rq_task v \<noteq> []"
  shows "sm_window (new_security cfg) = 10000 * second \<and>
    validate_request (new_security cfg) (ExecuteRequest v) = Some (TaskTooLong (sec_max_input cfg)) \<and>
    validate_request (new_security cfg) (StreamRequest v) = Some (TaskTooLong (sec_max_input cfg)) \<and>
    sanitize_limit (new_security cfg) = 10000"
proof -
  have "sec_max_input cfg < int (length (rq_task v))" using assms by (cases "rq_task v") auto
  then show ?thesis using assms
    by (auto simp: new_security_def security_defaults_def Let_def check_task_def sanitize_limit_def)
qed

lemma missing_input_size_rejects_tasks_witness:
  "validate_request (new_security (three_a_minute\<lparr>sec_max_input := 0\<rparr>)) (ExecuteRequest \<lparr>rq_task = ''hi'', rq_role = [], rq_session = []\<rparr>)
     = Some (TaskTooLong 0)"
  using missing_input_size_rejects_tasks
    [of "three_a_minute\<lparr>sec_max_input := 0\<rparr>" "\<lparr>rq_task = ''hi'', rq_role = [], rq_session = []\<rparr>"]
  by (simp add: three_a_minute_def)

text \<open>What leaves \<open>Sanitize\<close>: no control byte but the three, and at most the limit.\<close>

lemma sanitize_bytes:
  assumes "c \<in> set (sanitize sm input)"
  shows "kept_rune (byte c)"
proof -
  from assms obtain r where r: "kept_rune r" "c \<in> set (encode_rune r)"
    by (auto simp: sanitize_def of_runes_def dest!: in_set_takeD)
  with encode_rune_bytes [OF r(2)] show ?thesis by (auto simp: kept_rune_def)
qed

lemma sanitize_length: "length (sanitize sm input) \<le> sanitize_limit sm"
  by (simp add: sanitize_def)

text \<open>A text that was not cut is not changed by a second pass.\<close>

lemma sanitize_stable:
  assumes "length (of_runes (filter kept_rune (runes input))) \<le> sanitize_limit sm"
  shows "sanitize sm (sanitize sm input) = sanitize sm input"
proof -
  have "\<forall>r\<in>set (filter kept_rune (runes input)). valid_rune r" using runes_valid by auto
  then show ?thesis using assms by (simp add: sanitize_def runes_of_valid)
qed

end
