(* ===== verification/Ignore_Matcher.thy ===== *)
theory Ignore_Matcher
  imports Go_Strings
begin

text \<open>
  The .gitignore matcher (\<open>internal/skill/builtin/gitignore.go\<close>): parsing of the lines, the pattern record, the order of
  the patterns and the glob matcher with its single backtracking point. The glob matcher is compared with the plain
  recursive meaning of a pattern: they agree on every name without an asterisk.
\<close>

section \<open>The glob matcher\<close>

definition star :: char where
  "star = CHR ''*''"

definition any_char :: char where
  "any_char = CHR ''?''"

text \<open>
  The loop of \<open>wildcardMatch\<close> over the rest of the pattern, the rest of the name and the backtracking point: the
  pattern behind the last star and the name where that star begins.
\<close>

definition fits :: "string \<Rightarrow> char \<Rightarrow> bool" where
  "fits p c \<longleftrightarrow> p \<noteq> [] \<and> (hd p = any_char \<or> hd p = c)"

function wild_loop :: "string \<Rightarrow> string \<Rightarrow> (string \<times> string) option \<Rightarrow> bool" where
  "wild_loop p [] bk = list_all (\<lambda>c. c = star) p"
| "wild_loop p (c # n) bk =
     (if fits p c then wild_loop (tl p) n bk
      else if p \<noteq> [] \<and> hd p = star then wild_loop (tl p) (c # n) (Some (tl p, c # n))
      else (case bk of
          None \<Rightarrow> False
        | Some (sp, sn) \<Rightarrow> wild_loop sp (tl sn) (Some (sp, tl sn))))"
  by pat_completeness auto
termination
  by (relation "measures [\<lambda>(p, n, bk). (case bk of None \<Rightarrow> length n + 1 | Some (sp, sn) \<Rightarrow> max (length n) (length sn)),
        \<lambda>(p, n, bk). length n, \<lambda>(p, n, bk). length p]")
    (auto simp: fits_def less_max_iff_disj split: option.splits)

lemma wild_fits: "fits p c \<Longrightarrow> wild_loop p (c # n) bk = wild_loop (tl p) n bk"
  by simp

lemma wild_star:
  "\<not> fits p c \<Longrightarrow> p \<noteq> [] \<and> hd p = star \<Longrightarrow> wild_loop p (c # n) bk = wild_loop (tl p) (c # n) (Some (tl p, c # n))"
  by (subst wild_loop.simps(2)) simp

lemma wild_retry:
  "\<not> fits p c \<Longrightarrow> \<not> (p \<noteq> [] \<and> hd p = star) \<Longrightarrow> wild_loop p (c # n) bk =
     (case bk of None \<Rightarrow> False | Some (sp, sn) \<Rightarrow> wild_loop sp (tl sn) (Some (sp, tl sn)))"
  by (subst wild_loop.simps(2)) (simp only: if_False)

declare wild_loop.simps(2) [simp del]

definition wildcard_match :: "string \<Rightarrow> string \<Rightarrow> bool" where
  "wildcard_match pattern name = wild_loop pattern name None"

text \<open>The meaning of a pattern.\<close>

fun glob :: "string \<Rightarrow> string \<Rightarrow> bool" where
  "glob [] n = (n = [])"
| "glob (q # p) n =
     (if q = star then glob p n \<or> (case n of [] \<Rightarrow> False | c # n' \<Rightarrow> glob (q # p) n')
      else (case n of [] \<Rightarrow> False | c # n' \<Rightarrow> (q = any_char \<or> q = c) \<and> glob p n'))"

lemma glob_star_Cons [simp]: "glob (star # p) (c # n) \<longleftrightarrow> glob p (c # n) \<or> glob (star # p) n"
  by simp

lemma glob_Nil: "glob p [] \<longleftrightarrow> list_all (\<lambda>c. c = star) p"
  by (induction p) auto

lemma glob_star_weaken: "glob p n \<Longrightarrow> glob (star # p) n"
  by (cases n) auto

lemma glob_star_absorbs: "glob (star # p) n \<Longrightarrow> glob (star # p) (m @ n)"
  by (induction m) auto

text \<open>A star-free beginning of the pattern consumes as many characters as it has.\<close>

lemma glob_plain_prefix:
  "star \<notin> set u \<Longrightarrow> glob (u @ p) n \<Longrightarrow> length u \<le> length n \<and> glob p (drop (length u) n)"
proof (induction u arbitrary: n)
  case (Cons q u)
  then show ?case by (cases n) auto
qed simp

lemma glob_star_split: "glob (star # p) n \<Longrightarrow> \<exists>k\<le>length n. glob p (drop k n)"
proof (induction n)
  case (Cons c n)
  then consider "glob p (c # n)" | "glob (star # p) n" by auto
  then show ?case
  proof cases
    case 1
    then show ?thesis by (intro exI [of _ 0]) simp
  next
    case 2
    with Cons.IH obtain k where "k \<le> length n" "glob p (drop k n)" by blast
    then show ?thesis by (intro exI [of _ "Suc k"]) simp
  qed
qed simp

section \<open>The loop computes the meaning\<close>

definition back_ok :: "string \<Rightarrow> string \<Rightarrow> (string \<times> string) option \<Rightarrow> bool" where
  "back_ok p n bk \<longleftrightarrow>
     (case bk of
        None \<Rightarrow> True
      | Some (sp, sn) \<Rightarrow>
          star \<notin> set sn \<and>
          (\<exists>u. sp = u @ p \<and> star \<notin> set u \<and> length u \<le> length sn \<and> n = drop (length u) sn))"

definition retry_glob :: "(string \<times> string) option \<Rightarrow> bool" where
  "retry_glob bk \<longleftrightarrow>
     (case bk of None \<Rightarrow> False | Some (sp, sn) \<Rightarrow> sn \<noteq> [] \<and> glob (star # sp) (tl sn))"

lemma retry_needs_more:
  assumes "back_ok p n bk" "retry_glob bk"
  obtains k where "0 < k" "k \<le> length n" "glob p (drop k n)"
proof -
  from assms obtain sp sn u where b: "bk = Some (sp, sn)" "sp = u @ p" "star \<notin> set u" "length u \<le> length sn"
      "n = drop (length u) sn" "sn \<noteq> []" "glob (star # sp) (tl sn)"
    by (auto simp: back_ok_def retry_glob_def split: option.splits)
  from glob_star_split [OF b(7)] obtain k where k: "k \<le> length (tl sn)" "glob (u @ p) (drop (Suc k) sn)"
    by (auto simp: b(2) drop_Suc)
  from glob_plain_prefix [OF b(3) k(2)]
  have "length u \<le> length (drop (Suc k) sn)" "glob p (drop (length u) (drop (Suc k) sn))" by auto
  moreover have "drop (length u) (drop (Suc k) sn) = drop (Suc k) n" by (simp add: b(5) add.commute)
  ultimately show ?thesis using b(4,5,6) k(1) by (intro that [of "Suc k"]) (cases sn, auto)+
qed

lemma back_ok_step:
  assumes ok: "back_ok p (c # n) bk" and fit: "fits p c" and hd: "hd p \<noteq> star"
  shows "back_ok (tl p) n bk"
proof (cases bk)
  case (Some b)
  obtain sp sn where b: "b = (sp, sn)" by (cases b)
  from ok Some b obtain u where u: "sp = u @ p" "star \<notin> set u" "c # n = drop (length u) sn" "star \<notin> set sn"
    by (auto simp: back_ok_def)
  have "length u < length sn" using u(3) by (metis drop_all leI list.distinct(1))
  moreover have "n = drop (Suc (length u)) sn" using u(3) by (metis drop_Suc list.sel(3) tl_drop)
  moreover have "sp = (u @ [hd p]) @ tl p" using u(1) fit by (cases p) (auto simp: fits_def)
  ultimately have "\<exists>v. sp = v @ tl p \<and> star \<notin> set v \<and> length v \<le> length sn \<and> n = drop (length v) sn"
    using u(2) hd by (intro exI [of _ "u @ [hd p]"]) auto
  with Some b u(4) show ?thesis by (simp add: back_ok_def)
qed (simp add: back_ok_def)

lemma wild_loop_glob:
  "star \<notin> set n \<Longrightarrow> back_ok p n bk \<Longrightarrow> wild_loop p n bk \<longleftrightarrow> glob p n \<or> retry_glob bk"
proof (induction p n bk rule: wild_loop.induct)
  case (1 p bk)
  then have "\<not> retry_glob bk" by (metis le_zero_eq length_0_conv list.size(3) not_gr_zero retry_needs_more)
  then show ?case by (simp add: glob_Nil)
next
  case (2 p c n bk)
  have c: "c \<noteq> star" using 2 by auto
  show ?case
  proof (cases "fits p c")
    case True
    then have hd: "hd p \<noteq> star" "p = hd p # tl p" using c by (auto simp: fits_def any_char_def star_def)
    then have "back_ok (tl p) n bk" using back_ok_step 2 True by blast
    with 2(1) [OF True] "2.prems" have "wild_loop p (c # n) bk \<longleftrightarrow> glob (tl p) n \<or> retry_glob bk"
      by (simp add: wild_fits [OF True])
    moreover have "glob p (c # n) = glob (tl p) n" using hd True by (cases p) (auto simp: fits_def)
    ultimately show ?thesis by simp
  next
    case nofit: False
    show ?thesis
    proof (cases "p \<noteq> [] \<and> hd p = star")
      case True
      then have p: "p = star # tl p" by (cases p) auto
      have "back_ok (tl p) (c # n) (Some (tl p, c # n))" using "2.prems" by (auto simp: back_ok_def)
      from 2(2) [OF nofit True "2.prems"(1) this]
      have "wild_loop p (c # n) bk \<longleftrightarrow> glob (tl p) (c # n) \<or> glob (star # tl p) n"
        by (simp add: wild_star [OF nofit True] retry_glob_def)
      also have "\<dots> \<longleftrightarrow> glob p (c # n)" by (subst (3) p) (rule glob_star_Cons [symmetric])
      also have "\<dots> \<longleftrightarrow> glob p (c # n) \<or> retry_glob bk"
      proof -
        have "glob p (c # n)" if r: "retry_glob bk"
        proof -
          obtain k where "glob p (drop k (c # n))" using retry_needs_more [OF "2.prems"(2) r] by blast
          then show ?thesis
            by (metis append_take_drop_id glob_star_absorbs p)
        qed
        then show ?thesis by blast
      qed
      finally show ?thesis .
    next
      case False
      have no: "\<not> glob p (c # n)" using nofit False by (cases p) (auto simp: fits_def)
      show ?thesis
      proof (cases bk)
        case None
        then show ?thesis using no by (simp add: wild_retry [OF nofit False] retry_glob_def)
      next
        case (Some b)
        obtain sp sn where b: "b = (sp, sn)" by (cases b)
        have sn: "sn \<noteq> []" "star \<notin> set sn" using "2.prems"(2) Some b by (auto simp: back_ok_def)
        then have t: "star \<notin> set (tl sn)" by (cases sn) auto
        have ok: "back_ok sp (tl sn) (Some (sp, tl sn))" using t by (auto simp: back_ok_def)
        have "wild_loop p (c # n) bk \<longleftrightarrow> glob sp (tl sn) \<or> retry_glob (Some (sp, tl sn))"
          using 2(3) [OF nofit False Some b [symmetric] t ok] by (simp add: wild_retry [OF nofit False] Some b)
        also have "\<dots> \<longleftrightarrow> glob (star # sp) (tl sn)" by (cases "tl sn") (auto simp: retry_glob_def)
        finally show ?thesis using no Some b sn by (simp add: retry_glob_def)
      qed
    qed
  qed
qed

text \<open>C37: On every name without an asterisk the backtracking matcher, which remembers one star only, decides exactly
  whether the name is described by the pattern.\<close>

theorem wildcard_match_is_glob:
  assumes "star \<notin> set name"
  shows "wildcard_match pattern name \<longleftrightarrow> glob pattern name"
  using wild_loop_glob [OF assms, of pattern None] by (simp add: wildcard_match_def back_ok_def retry_glob_def)

lemma wildcard_match_is_glob_witness:
  "wildcard_match ''foo*.g?'' ''foo_test.go'' \<and> glob ''foo*.g?'' ''foo_test.go''"
proof -
  have "glob ''foo*.g?'' ''foo_test.go''" by (simp add: star_def any_char_def)
  then show ?thesis using wildcard_match_is_glob [of "''foo_test.go''" "''foo*.g?''"] by (simp add: star_def)
qed

text \<open>With an asterisk in the name the first test takes the pattern's star for that character and forgets that it is
  a star.\<close>

lemma starred_name_missed: "\<not> wildcard_match ''*'' ''*.txt'' \<and> glob ''*'' ''*.txt''"
  by (simp add: wildcard_match_def wild_loop.simps(2) fits_def star_def any_char_def)

section \<open>Patterns and their order\<close>

record ignore_pattern =
  ip_negate :: bool
  ip_dir_only :: bool
  ip_anchored :: bool
  ip_literal :: string
  ip_ext :: string
  ip_wildcard :: bool

definition parse_ignore_pattern :: "string \<Rightarrow> ignore_pattern" where
  "parse_ignore_pattern line0 =
     (let negate = has_prefix line0 ''!'';
          line1 = (if negate then drop 1 line0 else line0);
          dir_only = has_suffix line1 ''/'';
          line2 = (if dir_only then trim_suffix line1 ''/'' else line1);
          rooted = has_prefix line2 ''/'';
          line3 = (if rooted then trim_prefix line2 ''/'' else line2);
          p = \<lparr>ip_negate = negate, ip_dir_only = dir_only, ip_anchored = rooted \<or> contains_str line3 ''/'',
               ip_literal = [], ip_ext = [], ip_wildcard = False\<rparr>
      in if has_prefix line3 ''*.'' then p\<lparr>ip_ext := trim_prefix line3 ''*.''\<rparr>
         else p\<lparr>ip_wildcard := list_ex (\<lambda>c. c \<in> set line3) ''*?['', ip_literal := line3\<rparr>)"

definition slash_char :: char where
  "slash_char = CHR ''/''"

definition below_literal :: "ignore_pattern \<Rightarrow> string \<Rightarrow> bool" where
  "below_literal p rel \<longleftrightarrow> has_prefix rel (ip_literal p @ ''/'')"

definition pattern_matches :: "ignore_pattern \<Rightarrow> string \<Rightarrow> bool \<Rightarrow> bool" where
  "pattern_matches p rel is_dir \<longleftrightarrow>
     (if ip_ext p \<noteq> [] then has_suffix rel (''.'' @ ip_ext p)
      else if ip_dir_only p \<and> \<not> is_dir then below_literal p rel
      else if ip_anchored p then
        (if ip_wildcard p then wildcard_match (ip_literal p) rel else rel = ip_literal p \<or> below_literal p rel)
      else if ip_wildcard p then list_ex (wildcard_match (ip_literal p)) (split_on slash_char rel)
      else list_ex (\<lambda>seg. seg = ip_literal p) (split_on slash_char rel))"

text \<open>\<open>None\<close> is the nil matcher of a repository without a .gitignore. Paths have forward slashes.\<close>

type_synonym ignore_matcher = "ignore_pattern list option"

definition ignore_match :: "ignore_matcher \<Rightarrow> string \<Rightarrow> bool \<Rightarrow> bool" where
  "ignore_match m rel is_dir =
     (case m of
        None \<Rightarrow> False
      | Some ps \<Rightarrow>
          if rel = [] then False
          else foldl (\<lambda>ignored p. if pattern_matches p rel is_dir then \<not> ip_negate p else ignored) False ps)"

text \<open>The patterns of a file, \<open>None\<close> when it cannot be opened. Lines of a megabyte and more, at which the scanner
  stops, are left out.\<close>

definition ignore_lines :: "string \<Rightarrow> string list" where
  "ignore_lines content = filter (\<lambda>l. l \<noteq> [] \<and> \<not> has_prefix l ''#'') (map trim_space (split_on (CHR 0x0A) content))"

definition load_ignore_file :: "string option \<Rightarrow> ignore_pattern list" where
  "load_ignore_file content =
     (case content of None \<Rightarrow> [] | Some text \<Rightarrow> map parse_ignore_pattern (ignore_lines text))"

definition load_ignore :: "string option \<Rightarrow> ignore_matcher" where
  "load_ignore content = (case content of None \<Rightarrow> None | Some text \<Rightarrow> Some (load_ignore_file (Some text)))"

text \<open>Git's rule: the last pattern that matches decides.\<close>

lemma last_match_decides:
  "foldl (\<lambda>ignored p. if m p then \<not> ip_negate p else ignored) b ps =
     (case filter m ps of [] \<Rightarrow> b | q # qs \<Rightarrow> \<not> ip_negate (last (q # qs)))"
  by (induction ps arbitrary: b) (auto split: list.splits)

text \<open>Whether a path is ignored is decided by the last line of the file whose pattern matches it: ignored unless
  that line is a negation, and never ignored when no line matches or the file is missing.\<close>

lemma ignored_by_last_match:
  "ignore_match (load_ignore content) rel is_dir \<longleftrightarrow>
     rel \<noteq> [] \<and>
     (case content of
        None \<Rightarrow> False
      | Some body \<Rightarrow>
          (case filter (\<lambda>l. pattern_matches (parse_ignore_pattern l) rel is_dir) (ignore_lines body) of
             [] \<Rightarrow> False
           | l # ls \<Rightarrow> \<not> has_prefix (last (l # ls)) ''!''))"
proof -
  have neg: "ip_negate (parse_ignore_pattern l) = has_prefix l ''!''" for l
    by (simp add: parse_ignore_pattern_def Let_def)
  show ?thesis
  proof (cases content)
    case (Some body)
    let ?ls = "filter (\<lambda>l. pattern_matches (parse_ignore_pattern l) rel is_dir) (ignore_lines body)"
    have "ignore_match (load_ignore content) rel is_dir \<longleftrightarrow>
        rel \<noteq> [] \<and> (case map parse_ignore_pattern ?ls of [] \<Rightarrow> False | q # qs \<Rightarrow> \<not> ip_negate (last (q # qs)))"
      unfolding Some ignore_match_def load_ignore_def load_ignore_file_def option.case last_match_decides
        filter_map comp_def
      by (cases "rel = []") simp_all
    also have "\<dots> \<longleftrightarrow> rel \<noteq> [] \<and> (case ?ls of [] \<Rightarrow> False | l # ls \<Rightarrow> \<not> has_prefix (last (l # ls)) ''!'')"
      by (cases ?ls) (simp_all add: neg last_map)
    finally show ?thesis by (simp add: Some)
  qed (simp add: ignore_match_def load_ignore_def)
qed

text \<open>A directory pattern reaches the files of a directory at the root only, where Git means a directory anywhere, and
  a rooted pattern for an extension is taken for one at any depth.\<close>

lemma nested_dir_pattern_missed:
  "\<not> ignore_match (load_ignore (Some ''build/'')) ''web/build/app.js'' False \<and>
   ignore_match (load_ignore (Some ''build/'')) ''build/app.js'' False"
  by (simp add: ignore_match_def load_ignore_def load_ignore_file_def ignore_lines_def parse_ignore_pattern_def
      pattern_matches_def below_literal_def trim_space_def trim_right_def is_space_def byte_def has_suffix_def
      trim_suffix_def Let_def)

lemma rooted_extension_everywhere: "ignore_match (load_ignore (Some ''/*.log'')) ''web/src/a.log'' False"
  by (simp add: ignore_match_def load_ignore_def load_ignore_file_def ignore_lines_def parse_ignore_pattern_def
      pattern_matches_def trim_space_def trim_right_def is_space_def byte_def has_suffix_def trim_prefix_def Let_def)

end
