(* ===== verification/Common_Subsequences.thy ===== *)
theory Common_Subsequences
  imports Prelude
begin

text \<open>
  The two dynamic-programming tables of the skills, over any type of items: the table on suffixes of the line diff
  (\<open>diffLCS\<close> in \<open>internal/skill/builtin/diff.go\<close>) and the table on prefixes of \<open>longestCommonSubsequence\<close>
  (\<open>string_algorithms.go\<close>). A table is a list of rows, filled row by row as in the code. Both are compared with
  \<open>lcs_len\<close>, the length of a longest common subsequence.
\<close>

section \<open>Longest common subsequences\<close>

fun lcs_len :: "'a list \<Rightarrow> 'a list \<Rightarrow> nat" where
  "lcs_len [] ys = 0"
| "lcs_len (x # xs) [] = 0"
| "lcs_len (x # xs) (y # ys) =
     (if x = y then lcs_len xs ys + 1 else max (lcs_len xs (y # ys)) (lcs_len (x # xs) ys))"

lemma lcs_len_Nil2 [simp]: "lcs_len xs [] = 0"
  by (cases xs) auto

lemma lcs_len_upper: "subseq zs xs \<Longrightarrow> subseq zs ys \<Longrightarrow> length zs \<le> lcs_len xs ys"
proof (induction xs ys arbitrary: zs rule: lcs_len.induct)
  case (3 x xs y ys)
  show ?case
  proof (cases zs)
    case (Cons z zs')
    show ?thesis
    proof (cases "x = y")
      case True
      have "subseq (tl zs) xs" "subseq (tl zs) ys"
        using "3.prems" Cons by (auto split: if_splits dest: subseq_Cons')
      with "3.IH"(1) [OF True] True Cons show ?thesis by fastforce
    next
      case False
      then consider "z \<noteq> x" | "z \<noteq> y" by auto
      then show ?thesis
      proof cases
        case 1
        then have "subseq zs xs" using "3.prems"(1) Cons by auto
        with "3.IH"(2) [OF False] "3.prems"(2) False show ?thesis by fastforce
      next
        case 2
        then have "subseq zs ys" using "3.prems"(2) Cons by auto
        with "3.IH"(3) [OF False] "3.prems"(1) False show ?thesis by fastforce
      qed
    qed
  qed simp
qed auto

lemma lcs_len_attained: "\<exists>zs. subseq zs xs \<and> subseq zs ys \<and> length zs = lcs_len xs ys"
proof (induction xs ys rule: lcs_len.induct)
  case (3 x xs y ys)
  show ?case
  proof (cases "x = y")
    case True
    with "3.IH"(1) obtain zs where "subseq zs xs" "subseq zs ys" "length zs = lcs_len xs ys" by blast
    with True show ?thesis by (intro exI [of _ "x # zs"]) simp
  next
    case False
    obtain us vs where "subseq us xs" "subseq us (y # ys)" "length us = lcs_len xs (y # ys)"
        "subseq vs (x # xs)" "subseq vs ys" "length vs = lcs_len (x # xs) ys"
      using "3.IH"(2,3) [OF False] by blast
    moreover have "subseq us (x # xs)" "subseq vs (y # ys)" using calculation by (auto intro: subseq_Cons2')
    ultimately show ?thesis using False by (cases "length us \<le> length vs") (auto simp: max_def)
  qed
qed auto

lemma subseq_rev: "subseq xs ys \<Longrightarrow> subseq (rev xs) (rev ys)"
  by (induction rule: list_emb.induct) (auto intro: list_emb_append2 subseq_append')

lemma lcs_len_rev: "lcs_len (rev xs) (rev ys) = lcs_len xs ys"
proof -
  have le: "lcs_len us vs \<le> lcs_len (rev us) (rev vs)" for us vs :: "'a list"
    using lcs_len_attained [of us vs] lcs_len_upper subseq_rev by (metis length_rev)
  from le [of xs ys] le [of "rev xs" "rev ys"] show ?thesis by simp
qed

text \<open>The last items decide as the first do.\<close>

lemma lcs_len_snoc:
  "lcs_len (xs @ [x]) (ys @ [y]) =
     (if x = y then lcs_len xs ys + 1 else max (lcs_len xs (ys @ [y])) (lcs_len (xs @ [x]) ys))"
  using lcs_len_rev [of "xs @ [x]" "ys @ [y]"] lcs_len_rev [of xs ys] lcs_len_rev [of xs "ys @ [y]"]
    lcs_len_rev [of "xs @ [x]" ys]
  by (auto split: if_splits)

section \<open>The table on suffixes and the edit script\<close>

text \<open>Row \<open>i\<close> from row \<open>i + 1\<close>: the entries for the suffixes of \<open>b\<close>, from the last to the first.\<close>

fun suffix_row :: "'a \<Rightarrow> 'a list \<Rightarrow> nat list \<Rightarrow> nat list" where
  "suffix_row x [] below = [0]"
| "suffix_row x (y # ys) below =
     (let r = suffix_row x ys (tl below)
      in (if x = y then hd (tl below) + 1 else if hd below \<ge> hd r then hd below else hd r) # r)"

fun suffix_table :: "'a list \<Rightarrow> 'a list \<Rightarrow> nat list list" where
  "suffix_table [] b = [replicate (length b + 1) 0]"
| "suffix_table (x # xs) b = (let t = suffix_table xs b in suffix_row x b (hd t) # t)"

datatype 'a edit = Keep 'a | Add 'a | Remove 'a

function diff_walk :: "nat list list \<Rightarrow> 'a list \<Rightarrow> 'a list \<Rightarrow> nat \<Rightarrow> nat \<Rightarrow> 'a edit list" where
  "diff_walk dp a b i j =
     (if i < length a \<and> j < length b then
        if a ! i = b ! j then Keep (a ! i) # diff_walk dp a b (i + 1) (j + 1)
        else if dp ! (i + 1) ! j \<ge> dp ! i ! (j + 1) then Remove (a ! i) # diff_walk dp a b (i + 1) j
        else Add (b ! j) # diff_walk dp a b i (j + 1)
      else map Remove (drop i a) @ map Add (drop j b))"
  by pat_completeness auto
termination
  by (relation "measure (\<lambda>(dp, a, b, i, j). (length a - i) + (length b - j))") auto

declare diff_walk.simps [simp del]

definition diff_edits :: "'a list \<Rightarrow> 'a list \<Rightarrow> 'a edit list" where
  "diff_edits a b = diff_walk (suffix_table a b) a b 0 0"

fun old_side :: "'a edit list \<Rightarrow> 'a list" where
  "old_side [] = []"
| "old_side (Keep x # es) = x # old_side es"
| "old_side (Remove x # es) = x # old_side es"
| "old_side (Add x # es) = old_side es"

fun new_side :: "'a edit list \<Rightarrow> 'a list" where
  "new_side [] = []"
| "new_side (Keep x # es) = x # new_side es"
| "new_side (Remove x # es) = new_side es"
| "new_side (Add x # es) = x # new_side es"

fun kept :: "'a edit list \<Rightarrow> 'a list" where
  "kept [] = []"
| "kept (Keep x # es) = x # kept es"
| "kept (Remove x # es) = kept es"
| "kept (Add x # es) = kept es"

definition changes :: "'a edit list \<Rightarrow> nat" where
  "changes es = length es - length (kept es)"

lemma suffix_row_entries:
  assumes "below = map (\<lambda>j. lcs_len xs (drop j ys)) [0..<Suc (length ys)]"
  shows "suffix_row x ys below = map (\<lambda>j. lcs_len (x # xs) (drop j ys)) [0..<Suc (length ys)]"
  using assms
proof (induction ys arbitrary: below)
  case (Cons y ys)
  have up: "map f [0..<Suc (length (y # ys))] = f 0 # map (\<lambda>j. f (Suc j)) [0..<Suc (length ys)]" for f :: "nat \<Rightarrow> nat"
    by (subst upt_conv_Cons) (simp_all add: map_Suc_upt [symmetric] comp_def del: upt_Suc)
  have tl: "tl below = map (\<lambda>j. lcs_len xs (drop j ys)) [0..<Suc (length ys)]"
    and hd: "hd below = lcs_len xs (y # ys)"
    unfolding Cons.prems up by simp_all
  have r: "suffix_row x ys (tl below) = map (\<lambda>j. lcs_len (x # xs) (drop j ys)) [0..<Suc (length ys)]"
    using Cons.IH [OF tl] .
  have h: "hd (map f [0..<Suc (length ys)]) = f 0" for f :: "nat \<Rightarrow> nat"
    by (simp add: upt_conv_Cons del: upt_Suc)
  show ?case unfolding up suffix_row.simps Let_def r
    by (simp add: hd tl h max_def del: upt_Suc)
qed simp

lemma suffix_table_rows:
  "suffix_table xs ys = map (\<lambda>i. map (\<lambda>j. lcs_len (drop i xs) (drop j ys)) [0..<Suc (length ys)]) [0..<Suc (length xs)]"
proof (induction xs)
  case Nil
  then show ?case by (simp add: map_replicate_const)
next
  case (Cons x xs)
  have up: "map f [0..<Suc (length (x # xs))] = f 0 # map (\<lambda>j. f (Suc j)) [0..<Suc (length xs)]" for f :: "nat \<Rightarrow> nat list"
    by (subst upt_conv_Cons) (simp_all add: map_Suc_upt [symmetric] comp_def del: upt_Suc)
  have "hd (suffix_table xs ys) = map (\<lambda>j. lcs_len xs (drop j ys)) [0..<Suc (length ys)]"
    unfolding Cons.IH by (simp add: upt_conv_Cons del: upt_Suc)
  from suffix_row_entries [OF this, of x] show ?case unfolding up by (simp add: Let_def Cons.IH del: upt_Suc)
qed

lemma suffix_table_entry:
  "i \<le> length xs \<Longrightarrow> j \<le> length ys \<Longrightarrow> suffix_table xs ys ! i ! j = lcs_len (drop i xs) (drop j ys)"
  unfolding suffix_table_rows by (simp del: upt_Suc)

lemma sides_tail:
  "old_side (map Remove xs @ map Add ys) = xs" "new_side (map Remove xs @ map Add ys) = ys"
  "kept (map Remove xs @ map Add ys) = []"
proof -
  have a: "old_side (map Add ys) = []" "new_side (map Add ys) = ys" "kept (map Add ys) = []"
    by (induction ys) auto
  show "old_side (map Remove xs @ map Add ys) = xs" "new_side (map Remove xs @ map Add ys) = ys"
    "kept (map Remove xs @ map Add ys) = []"
    using a by (induction xs) auto
qed

lemma diff_walk_correct:
  assumes "dp = suffix_table a b"
  shows "i \<le> length a \<Longrightarrow> j \<le> length b \<Longrightarrow>
    old_side (diff_walk dp a b i j) = drop i a \<and> new_side (diff_walk dp a b i j) = drop j b \<and>
    length (kept (diff_walk dp a b i j)) = lcs_len (drop i a) (drop j b)"
  using assms
proof (induction dp a b i j rule: diff_walk.induct)
  case (1 dp a b i j)
  show ?case
  proof (cases "i < length a \<and> j < length b")
    case False
    then have "drop i a = [] \<or> drop j b = []" by auto
    then have "lcs_len (drop i a) (drop j b) = 0" by auto
    then show ?thesis by (subst (1 2 3) diff_walk.simps) (auto simp: False sides_tail)
  next
    case True
    have da: "drop i a = a ! i # drop (Suc i) a" and db: "drop j b = b ! j # drop (Suc j) b"
      using True by (simp_all add: Cons_nth_drop_Suc)
    have e1: "dp ! (i + 1) ! j = lcs_len (drop (Suc i) a) (drop j b)"
      and e2: "dp ! i ! (j + 1) = lcs_len (drop i a) (drop (Suc j) b)"
      using True "1.prems" suffix_table_entry [of "i + 1" a j b] suffix_table_entry [of i a "j + 1" b] by auto
    show ?thesis
    proof (cases "a ! i = b ! j")
      case eq: True
      have "diff_walk dp a b i j = Keep (a ! i) # diff_walk dp a b (i + 1) (j + 1)"
        using True eq by (subst diff_walk.simps) simp
      with "1.IH"(1) [OF True eq] True "1.prems" eq show ?thesis by (simp add: da db)
    next
      case ne: False
      show ?thesis
      proof (cases "dp ! (i + 1) ! j \<ge> dp ! i ! (j + 1)")
        case ge: True
        have "diff_walk dp a b i j = Remove (a ! i) # diff_walk dp a b (i + 1) j"
          using True ne ge by (subst diff_walk.simps) simp
        with "1.IH"(2) [OF True ne ge] True "1.prems" ne ge show ?thesis
          unfolding e1 e2 by (simp add: da db)
      next
        case lt: False
        have "diff_walk dp a b i j = Add (b ! j) # diff_walk dp a b i (j + 1)"
          using True ne lt by (subst diff_walk.simps) simp
        with "1.IH"(3) [OF True ne lt] True "1.prems" ne lt show ?thesis
          unfolding e1 e2 by (simp add: da db)
      qed
    qed
  qed
qed

lemma kept_common: "subseq (kept es) (old_side es) \<and> subseq (kept es) (new_side es)"
  by (induction es rule: kept.induct) (auto intro: subseq_Cons2')

lemma sides_length: "length (old_side es) + length (new_side es) = length es + length (kept es)"
  by (induction es rule: kept.induct) auto

lemma kept_le: "length (kept es) \<le> length es"
  by (induction es rule: kept.induct) auto

lemma diff_edits_sides:
  "old_side (diff_edits a b) = a" "new_side (diff_edits a b) = b" "length (kept (diff_edits a b)) = lcs_len a b"
  using diff_walk_correct [OF refl, of 0 a 0 b] by (simp_all add: diff_edits_def)

lemma diff_edits_minimal:
  "changes (diff_edits (old_side es) (new_side es)) \<le> changes es"
proof -
  let ?d = "diff_edits (old_side es) (new_side es)"
  have "length (kept es) \<le> length (kept ?d)"
    using lcs_len_upper [of "kept es" "old_side es" "new_side es"] kept_common [of es] by (simp add: diff_edits_sides)
  moreover have "length ?d + length (kept ?d) = length es + length (kept es)"
    using sides_length [of ?d] sides_length [of es] by (simp add: diff_edits_sides)
  ultimately show ?thesis by (simp add: changes_def)
qed

lemma changes_zero: "changes es = 0 \<longleftrightarrow> (\<forall>e\<in>set es. \<exists>x. e = Keep x)"
proof -
  have "length es \<le> length (kept es) \<longleftrightarrow> (\<forall>e\<in>set es. \<exists>x. e = Keep x)"
    by (induction es rule: kept.induct) (auto simp: Suc_le_eq not_less [THEN iffD2, OF kept_le])
  then show ?thesis by (simp add: changes_def)
qed

lemma lcs_len_same [simp]: "lcs_len xs xs = length xs"
  by (induction xs) auto

lemma diff_edits_same: "changes (diff_edits a b) = 0 \<longleftrightarrow> a = b"
proof
  assume "changes (diff_edits a b) = 0"
  then have k: "\<forall>e\<in>set (diff_edits a b). \<exists>x. e = Keep x" by (simp add: changes_zero)
  have "old_side es = new_side es" if "\<forall>e\<in>set es. \<exists>x. e = Keep x" for es :: "'a edit list"
    using that by (induction es rule: kept.induct) auto
  from this [OF k] show "a = b" by (simp add: diff_edits_sides)
next
  assume "a = b"
  then show "changes (diff_edits a b) = 0"
    using sides_length [of "diff_edits a b"] by (simp add: changes_def diff_edits_sides)
qed

section \<open>The table on prefixes and the subsequence read back from it\<close>

text \<open>Row \<open>i\<close> of \<open>longestCommonSubsequence\<close> from left to right: the last entry written, the row above it.\<close>

fun prefix_row :: "'a \<Rightarrow> 'a list \<Rightarrow> nat list \<Rightarrow> nat \<Rightarrow> nat list" where
  "prefix_row x [] prev left = [left]"
| "prefix_row x (y # ys) prev left =
     left # prefix_row x ys (tl prev)
       (if x = y then hd prev + 1 else if hd (tl prev) \<ge> left then hd (tl prev) else left)"

definition prefix_table :: "'a list \<Rightarrow> 'a list \<Rightarrow> nat list list" where
  "prefix_table a b = foldl (\<lambda>t x. t @ [prefix_row x b (last t) 0]) [replicate (length b + 1) 0] a"

text \<open>The loop that walks back from the corner; it collects the items in reverse.\<close>

function lcs_back :: "nat list list \<Rightarrow> 'a list \<Rightarrow> 'a list \<Rightarrow> nat \<Rightarrow> nat \<Rightarrow> 'a list \<Rightarrow> 'a list" where
  "lcs_back dp a b i j acc =
     (if 0 < i \<and> 0 < j then
        if a ! (i - 1) = b ! (j - 1) then lcs_back dp a b (i - 1) (j - 1) (acc @ [a ! (i - 1)])
        else if dp ! (i - 1) ! j \<ge> dp ! i ! (j - 1) then lcs_back dp a b (i - 1) j acc
        else lcs_back dp a b i (j - 1) acc
      else acc)"
  by pat_completeness auto
termination
  by (relation "measure (\<lambda>(dp, a, b, i, j, acc). i + j)") auto

declare lcs_back.simps [simp del]

definition longest_common_subsequence :: "'a list \<Rightarrow> 'a list \<Rightarrow> 'a list \<times> nat" where
  "longest_common_subsequence a b =
     (if a = [] \<or> b = [] then ([], 0)
      else let dp = prefix_table a b
           in (rev (lcs_back dp a b (length a) (length b) []), dp ! length a ! length b))"

lemma lcs_len_take_Suc:
  "i < length xs \<Longrightarrow> j < length ys \<Longrightarrow>
   lcs_len (take (Suc i) xs) (take (Suc j) ys) =
     (if xs ! i = ys ! j then lcs_len (take i xs) (take j ys) + 1
      else max (lcs_len (take i xs) (take (Suc j) ys)) (lcs_len (take (Suc i) xs) (take j ys)))"
  by (simp add: take_Suc_conv_app_nth lcs_len_snoc)

lemma prefix_row_entries:
  assumes "xs \<noteq> []" "prev = map (\<lambda>j. lcs_len (butlast xs) (take j ys)) [k..<Suc (length ys)]" "k \<le> length ys"
    and "left = lcs_len xs (take k ys)"
  shows "prefix_row (last xs) (drop k ys) prev left = map (\<lambda>j. lcs_len xs (take j ys)) [k..<Suc (length ys)]"
  using assms(2-)
proof (induction "length ys - k" arbitrary: k prev left)
  case 0
  then have "drop k ys = []" "k = length ys" by auto
  then show ?case using 0 by simp
next
  case (Suc m)
  then have k: "k < length ys" by auto
  have dk: "drop k ys = ys ! k # drop (Suc k) ys" using k by (simp add: Cons_nth_drop_Suc)
  have up: "map f [k..<Suc (length ys)] = f k # map f [Suc k..<Suc (length ys)]" for f :: "nat \<Rightarrow> nat"
    using k by (subst upt_conv_Cons) auto
  have hd: "hd prev = lcs_len (butlast xs) (take k ys)"
    and tl: "tl prev = map (\<lambda>j. lcs_len (butlast xs) (take j ys)) [Suc k..<Suc (length ys)]"
    unfolding Suc.prems(1) up by simp_all
  have hdtl: "hd (tl prev) = lcs_len (butlast xs) (take (Suc k) ys)"
    unfolding tl using k by (subst upt_conv_Cons) auto
  obtain us where xs: "xs = us @ [last xs]" using assms(1) by (metis append_butlast_last_id)
  let ?n = "if last xs = ys ! k then hd prev + 1 else if hd (tl prev) \<ge> left then hd (tl prev) else left"
  have n: "?n = lcs_len xs (take (Suc k) ys)"
  proof -
    have "lcs_len xs (take (Suc k) ys) = (if last xs = ys ! k then lcs_len us (take k ys) + 1
        else max (lcs_len us (take (Suc k) ys)) (lcs_len xs (take k ys)))"
      using lcs_len_snoc [of us "last xs" "take k ys" "ys ! k"] k by (simp add: take_Suc_conv_app_nth xs [symmetric])
    moreover have "butlast xs = us" by (subst xs) simp
    ultimately show ?thesis using hd hdtl Suc.prems(3) by (simp add: max_def)
  qed
  have "prefix_row (last xs) (drop (Suc k) ys) (tl prev) ?n = map (\<lambda>j. lcs_len xs (take j ys)) [Suc k..<Suc (length ys)]"
    by (rule Suc.hyps(1)) (use Suc.hyps(2) k tl n in auto)
  then show ?case unfolding up dk prefix_row.simps by (simp only: Suc.prems(3))
qed

lemma prefix_table_rows:
  "prefix_table xs ys = map (\<lambda>i. map (\<lambda>j. lcs_len (take i xs) (take j ys)) [0..<Suc (length ys)]) [0..<Suc (length xs)]"
proof (induction xs rule: rev_induct)
  case Nil
  then show ?case by (simp add: prefix_table_def map_replicate_const del: upt_Suc)
next
  case (snoc x xs)
  have last: "last (prefix_table xs ys) = map (\<lambda>j. lcs_len xs (take j ys)) [0..<Suc (length ys)]"
    unfolding snoc.IH by simp
  have row: "prefix_row x ys (last (prefix_table xs ys)) 0 =
      map (\<lambda>j. lcs_len (xs @ [x]) (take j ys)) [0..<Suc (length ys)]"
    using prefix_row_entries [of "xs @ [x]" "last (prefix_table xs ys)" ys 0 0] by (simp add: last del: upt_Suc)
  have "prefix_table (xs @ [x]) ys = prefix_table xs ys @ [prefix_row x ys (last (prefix_table xs ys)) 0]"
    by (simp add: prefix_table_def)
  also have "\<dots> = map (\<lambda>i. map (\<lambda>j. lcs_len (take i (xs @ [x])) (take j ys)) [0..<Suc (length ys)])
      [0..<Suc (length (xs @ [x]))]"
    unfolding row unfolding snoc.IH by simp
  finally show ?case .
qed

lemma prefix_table_entry:
  "i \<le> length xs \<Longrightarrow> j \<le> length ys \<Longrightarrow> prefix_table xs ys ! i ! j = lcs_len (take i xs) (take j ys)"
  unfolding prefix_table_rows by (simp del: upt_Suc)

lemma subseq_extend: "subseq zs xs \<Longrightarrow> subseq zs (xs @ ys)"
  using list_emb_append_mono [of "(=)" zs xs "[]" ys] by simp

lemma lcs_back_correct:
  assumes "dp = prefix_table a b"
  shows "i \<le> length a \<Longrightarrow> j \<le> length b \<Longrightarrow>
    \<exists>zs. lcs_back dp a b i j acc = acc @ rev zs \<and> subseq zs (take i a) \<and> subseq zs (take j b) \<and>
      length zs = lcs_len (take i a) (take j b)"
  using assms
proof (induction dp a b i j acc rule: lcs_back.induct)
  case (1 dp a b i j acc)
  show ?case
  proof (cases "0 < i \<and> 0 < j")
    case False
    then have "lcs_len (take i a) (take j b) = 0" by auto
    then show ?thesis by (subst lcs_back.simps) (auto simp: False)
  next
    case True
    then obtain i' j' where ij: "i = Suc i'" "j = Suc j'" by (metis gr0_implies_Suc)
    have lt: "i' < length a" "j' < length b" using "1.prems" ij by auto
    note rec = lcs_len_take_Suc [OF lt]
    have ti: "take i a = take i' a @ [a ! i']" and tj: "take j b = take j' b @ [b ! j']"
      using lt ij by (simp_all add: take_Suc_conv_app_nth)
    have e: "dp ! (i - 1) ! j = lcs_len (take i' a) (take j b)" "dp ! i ! (j - 1) = lcs_len (take i a) (take j' b)"
      using "1.prems" ij by (auto simp: prefix_table_entry)
    show ?thesis
    proof (cases "a ! (i - 1) = b ! (j - 1)")
      case eq: True
      have "lcs_back dp a b i j acc = lcs_back dp a b (i - 1) (j - 1) (acc @ [a ! (i - 1)])"
        using True eq by (subst lcs_back.simps) simp
      moreover obtain zs where "lcs_back dp a b (i - 1) (j - 1) (acc @ [a ! (i - 1)]) = (acc @ [a ! (i - 1)]) @ rev zs"
          "subseq zs (take i' a)" "subseq zs (take j' b)" "length zs = lcs_len (take i' a) (take j' b)"
        using "1.IH"(1) [OF True eq] "1.prems" ij by auto
      moreover have "lcs_len (take i a) (take j b) = lcs_len (take i' a) (take j' b) + 1" using eq ij rec by simp
      moreover have "subseq (zs @ [a ! i']) (take i a)" "subseq (zs @ [a ! i']) (take j b)"
        using calculation(3,4) eq ij unfolding ti tj by (auto intro: list_emb_append_mono)
      ultimately show ?thesis using ij by (intro exI [of _ "zs @ [a ! i']"]) simp
    next
      case ne: False
      show ?thesis
      proof (cases "dp ! (i - 1) ! j \<ge> dp ! i ! (j - 1)")
        case ge: True
        have "lcs_back dp a b i j acc = lcs_back dp a b (i - 1) j acc"
          using True ne ge by (subst lcs_back.simps) simp
        moreover obtain zs where "lcs_back dp a b (i - 1) j acc = acc @ rev zs" "subseq zs (take i' a)"
            "subseq zs (take j b)" "length zs = lcs_len (take i' a) (take j b)"
          using "1.IH"(2) [OF True ne ge] "1.prems" ij by auto
        moreover have "lcs_len (take i a) (take j b) = lcs_len (take i' a) (take j b)"
          using ne ge ij rec unfolding e by simp
        ultimately show ?thesis unfolding ti by (intro exI [of _ zs]) (auto intro: subseq_extend)
      next
        case l: False
        have "lcs_back dp a b i j acc = lcs_back dp a b i (j - 1) acc"
          using True ne l by (subst lcs_back.simps) simp
        moreover obtain zs where "lcs_back dp a b i (j - 1) acc = acc @ rev zs" "subseq zs (take i a)"
            "subseq zs (take j' b)" "length zs = lcs_len (take i a) (take j' b)"
          using "1.IH"(3) [OF True ne l] "1.prems" ij by auto
        moreover have "lcs_len (take i a) (take j b) = lcs_len (take i a) (take j' b)"
          using ne l ij rec unfolding e by simp
        ultimately show ?thesis unfolding tj by (intro exI [of _ zs]) (auto intro: subseq_extend)
      qed
    qed
  qed
qed

lemma longest_common_subsequence_correct:
  assumes "longest_common_subsequence a b = (zs, n)"
  shows "subseq zs a \<and> subseq zs b \<and> length zs = n \<and> n = lcs_len a b"
proof (cases "a = [] \<or> b = []")
  case True
  with assms show ?thesis by (auto simp: longest_common_subsequence_def)
next
  case False
  with assms lcs_back_correct [OF refl, of "length a" a "length b" b "[]"] show ?thesis
    by (auto simp: longest_common_subsequence_def Let_def prefix_table_entry)
qed

end
