(* ===== verification/Skill_Registry.thy ===== *)
theory Skill_Registry
  imports Go_Strings Orch_Dispatch
begin

text \<open>
  Skills, the queries that are answered without a model: the registry of \<open>pkg/skill.go\<close> and its wrapper
  (\<open>internal/skill/registry.go\<close>, which only adds a lock), the keyword match of \<open>BaseSkill\<close>, and the helpers that cut
  the operand out of a query (\<open>internal/skill/builtin/helpers.go\<close>). A skill is a record of its methods, an error its
  text. The registry ranges over Go maps, whose order changes from run to run: the orders of the two maps are
  arguments of \<open>Match\<close>, lists of their keys without repetition. Compiling a regular expression is a parameter.
\<close>

section \<open>Operands of a query\<close>

definition str_strippers :: "string list" where
  "str_strippers =
     [''encode '', ''decode '', ''convert '', ''compute '', ''calculate '', ''hash '', ''format '', ''validate '',
      ''parse '', ''generate '', ''the string '', ''the text '', ''the value '', ''the number '', ''this string '',
      ''this text '', ''this value '', ''string '', ''text '', ''value '']"

text \<open>The first prefix of a list that the lower-cased text has is cut off.\<close>

definition strip_first :: "string list \<Rightarrow> string \<Rightarrow> string" where
  "strip_first ps q =
     (case find (has_prefix (to_lower q)) ps of None \<Rightarrow> q | Some p \<Rightarrow> trim_space (drop (length p) q))"

definition extract_payload :: "string \<Rightarrow> string" where
  "extract_payload query0 =
     (let query = trim_space query0
      in if query = [] then []
         else (case str_index query '':'' of
             Some i \<Rightarrow> trim_space (drop (i + 1) query)
           | None \<Rightarrow> strip_first str_strippers query))"

definition strip_verb :: "string \<Rightarrow> string \<Rightarrow> string" where
  "strip_verb q verb =
     (case str_index (to_lower q) (to_lower verb) of
        None \<Rightarrow> trim_space q
      | Some i \<Rightarrow> trim_space (drop (i + length verb) q))"

text \<open>The end of the last occurrence of any marker, \<open>None\<close> for the code's -1.\<close>

definition last_marker_end :: "string list \<Rightarrow> string \<Rightarrow> nat option" where
  "last_marker_end markers query =
     foldl (\<lambda>best m.
         case str_last_index (to_lower query) (to_lower m) of
           None \<Rightarrow> best
         | Some i \<Rightarrow> (case best of
               None \<Rightarrow> Some (i + length m)
             | Some b \<Rightarrow> if b < i + length m then Some (i + length m) else best))
       None markers"

definition extract_after :: "string \<Rightarrow> string list \<Rightarrow> string" where
  "extract_after query0 markers =
     (let query = trim_space query0
      in case last_marker_end markers query of None \<Rightarrow> [] | Some e \<Rightarrow> trim_space (drop e query))"

definition quote_chars :: "char list" where
  "quote_chars = [CHR 0x22, CHR 0x27, CHR 0x60]"

definition quote_stripped :: "string \<Rightarrow> string" where
  "quote_stripped s0 =
     (let s = trim_space s0
      in if length s < 2 then s
         else if hd s = last s \<and> hd s \<in> set quote_chars then butlast (tl s) else s)"

section \<open>Skills and their registry\<close>

record skill =
  sk_name :: string
  sk_description :: string
  sk_match :: "string \<Rightarrow> bool"
  sk_execute :: "string \<Rightarrow> string + string"

definition base_match :: "string list \<Rightarrow> string \<Rightarrow> bool" where
  "base_match keywords query \<longleftrightarrow> list_ex (\<lambda>k. contains_str (to_lower query) (to_lower k)) keywords"

definition base_skill :: "string \<Rightarrow> string \<Rightarrow> string list \<Rightarrow> skill" where
  "base_skill name description keywords =
     \<lparr>sk_name = name, sk_description = description, sk_match = base_match keywords,
      sk_execute = (\<lambda>_. Inl (''Execute method not implemented for skill '' @ name))\<rparr>"

definition echo_skill :: skill where
  "echo_skill =
     (base_skill ''echo'' ''Echoes back the input query'' [''echo'', ''repeat'', ''say''])\<lparr>sk_execute := Inr\<rparr>"

datatype skill_error = NilSkill | EmptySkillName | EmptySkillDescription | SkillNotFound | SkillExecution string
  | InvalidPattern string

type_synonym regex_compiler = "string \<Rightarrow> string + (string \<Rightarrow> bool)"

record skill_registry =
  sr_skills :: "string \<Rightarrow> skill option"
  sr_patterns :: "string \<Rightarrow> (string \<Rightarrow> bool) option"

definition new_skill_registry :: skill_registry where
  "new_skill_registry = \<lparr>sr_skills = Map.empty, sr_patterns = Map.empty\<rparr>"

definition put_skill :: "string \<Rightarrow> skill \<Rightarrow> skill_registry \<Rightarrow> skill_registry" where
  "put_skill name sk r = r\<lparr>sr_skills := (sr_skills r)(name \<mapsto> sk)\<rparr>"

definition drop_skill :: "string \<Rightarrow> skill_registry \<Rightarrow> skill_registry" where
  "drop_skill name r = r\<lparr>sr_skills := (sr_skills r)(name := None)\<rparr>"

definition register_skill :: "skill option \<Rightarrow> skill_registry \<Rightarrow> skill_error + skill_registry" where
  "register_skill sk_opt r =
     (case sk_opt of
        None \<Rightarrow> Inl NilSkill
      | Some sk \<Rightarrow>
          if sk_name sk = [] then Inl EmptySkillName
          else if sk_description sk = [] then Inl EmptySkillDescription
          else Inr (put_skill (sk_name sk) sk r))"

text \<open>The skill name given to \<open>RegisterPattern\<close> is only logged.\<close>

definition register_pattern :: "regex_compiler \<Rightarrow> string \<Rightarrow> string \<Rightarrow> skill_registry \<Rightarrow> skill_error + skill_registry" where
  "register_pattern compile pattern skill_name r =
     (case compile pattern of
        Inl err \<Rightarrow> Inl (InvalidPattern err)
      | Inr matches \<Rightarrow> Inr (r\<lparr>sr_patterns := (sr_patterns r)(pattern \<mapsto> matches)\<rparr>))"

text \<open>The skill that a pattern of the registry selects: the one whose name is the text of the pattern.\<close>

definition pattern_skill :: "skill_registry \<Rightarrow> string \<Rightarrow> string \<Rightarrow> skill option" where
  "pattern_skill r query p =
     (case sr_patterns r p of
        Some matches \<Rightarrow> if matches query then sr_skills r p else None
      | None \<Rightarrow> None)"

definition named_match :: "skill_registry \<Rightarrow> string \<Rightarrow> string \<Rightarrow> skill option" where
  "named_match r query n =
     (case sr_skills r n of Some sk \<Rightarrow> if sk_match sk query then Some sk else None | None \<Rightarrow> None)"

fun first_some :: "('a \<Rightarrow> 'b option) \<Rightarrow> 'a list \<Rightarrow> 'b option" where
  "first_some f [] = None"
| "first_some f (x # xs) = (case f x of Some y \<Rightarrow> Some y | None \<Rightarrow> first_some f xs)"

definition match_skill :: "string list \<Rightarrow> string list \<Rightarrow> skill_registry \<Rightarrow> string \<Rightarrow> skill option" where
  "match_skill pattern_order skill_order r query =
     (case first_some (pattern_skill r query) pattern_order of
        Some sk \<Rightarrow> Some sk
      | None \<Rightarrow> first_some (named_match r query) skill_order)"

definition match_all :: "string list \<Rightarrow> string list \<Rightarrow> skill_registry \<Rightarrow> string \<Rightarrow> skill list" where
  "match_all pattern_order skill_order r query =
     foldl (\<lambda>ms sk. if list_ex (\<lambda>m. sk_name m = sk_name sk) ms then ms else ms @ [sk])
       (List.map_filter (pattern_skill r query) pattern_order)
       (List.map_filter (named_match r query) skill_order)"

definition list_skills :: "string list \<Rightarrow> skill_registry \<Rightarrow> (string \<times> string) list" where
  "list_skills skill_order r =
     map (\<lambda>sk. (sk_name sk, sk_description sk)) (List.map_filter (sr_skills r) skill_order)"

definition execute_skill :: "skill_registry \<Rightarrow> string \<Rightarrow> string \<Rightarrow> skill_error + string" where
  "execute_skill r name query =
     (case sr_skills r name of
        None \<Rightarrow> Inl SkillNotFound
      | Some sk \<Rightarrow>
          (case sk_execute sk query of Inl err \<Rightarrow> Inl (SkillExecution err) | Inr out \<Rightarrow> Inr out))"

definition remove_skill :: "string \<Rightarrow> skill_registry \<Rightarrow> skill_error + skill_registry" where
  "remove_skill name r = (if sr_skills r name = None then Inl SkillNotFound else Inr (drop_skill name r))"

definition has_skill :: "skill_registry \<Rightarrow> string \<Rightarrow> bool" where
  "has_skill r name \<longleftrightarrow> sr_skills r name \<noteq> None"

definition help_skill :: "string list \<Rightarrow> skill_registry \<Rightarrow> skill" where
  "help_skill skill_order r =
     (base_skill ''help'' ''Lists all available skills'' [''help'', ''list skills'', ''available skills''])
       \<lparr>sk_execute := (\<lambda>_. Inr (join nl (''Available skills:'' #
           map (\<lambda>(n, d). ''  - '' @ n @ '': '' @ d) (list_skills skill_order r))))\<rparr>"

text \<open>The built-in skills are registered in a list; the first error ends the registration.\<close>

fun register_builtin_skills :: "skill list \<Rightarrow> skill_registry \<Rightarrow> skill_error + skill_registry" where
  "register_builtin_skills [] r = Inr r"
| "register_builtin_skills (sk # sks) r =
     (case register_skill (Some sk) r of Inl err \<Rightarrow> Inl err | Inr r' \<Rightarrow> register_builtin_skills sks r')"

section \<open>Laws of the registry\<close>

interpretation skill_map: kv_registry sr_skills put_skill drop_skill
  by unfold_locales (auto simp: put_skill_def drop_skill_def)

text \<open>Every skill is filed under its own name, which like its description is not empty.\<close>

definition filed_under :: "string \<Rightarrow> skill \<Rightarrow> bool" where
  "filed_under n sk \<longleftrightarrow> sk_name sk = n \<and> n \<noteq> [] \<and> sk_description sk \<noteq> []"

definition skills_named :: "skill_registry \<Rightarrow> bool" where
  "skills_named r \<longleftrightarrow> (\<forall>n sk. sr_skills r n = Some sk \<longrightarrow> filed_under n sk)"

lemma skills_named_new [simp]: "skills_named new_skill_registry"
  by (simp add: skills_named_def new_skill_registry_def)

lemma skills_named_register: "skills_named r \<Longrightarrow> register_skill so r = Inr r' \<Longrightarrow> skills_named r'"
  by (auto simp: skills_named_def register_skill_def skill_map.look_ins filed_under_def [of "sk_name sk" sk for sk]
      split: option.splits if_splits)

lemma skills_named_pattern: "skills_named r \<Longrightarrow> register_pattern c p n r = Inr r' \<Longrightarrow> skills_named r'"
  by (auto simp: skills_named_def register_pattern_def split: sum.splits)

lemma skills_named_remove: "skills_named r \<Longrightarrow> remove_skill n r = Inr r' \<Longrightarrow> skills_named r'"
  by (auto simp: skills_named_def remove_skill_def skill_map.look_del split: if_splits)

lemma register_then_has: "register_skill (Some sk) r = Inr r' \<Longrightarrow> sr_skills r' (sk_name sk) = Some sk"
  by (auto simp: register_skill_def skill_map.look_ins_same split: if_splits)

lemma register_builtin_skills_named: "skills_named r \<Longrightarrow> register_builtin_skills sks r = Inr r' \<Longrightarrow> skills_named r'"
  by (induction sks arbitrary: r) (auto split: sum.splits dest: skills_named_register)

lemma first_some_Some: "first_some f xs = Some y \<Longrightarrow> \<exists>x\<in>set xs. f x = Some y"
  by (induction xs) (auto split: option.splits)

lemma first_some_None: "first_some f xs = None \<longleftrightarrow> (\<forall>x\<in>set xs. f x = None)"
  by (induction xs) (auto split: option.splits)

lemma first_some_front: "f x = Some y \<Longrightarrow> first_some f (x # xs) = Some y"
  by simp

text \<open>
  Registered skills and patterns, in any order: what a start-up may do to the registry.
\<close>

datatype registration = RegisterSkill skill | RegisterPattern string string

definition apply_registration :: "regex_compiler \<Rightarrow> skill_registry \<Rightarrow> registration \<Rightarrow> skill_registry" where
  "apply_registration compile r e =
     (case (case e of
          RegisterSkill sk \<Rightarrow> register_skill (Some sk) r
        | RegisterPattern p n \<Rightarrow> register_pattern compile p n r) of
        Inl err \<Rightarrow> r
      | Inr r' \<Rightarrow> r')"

definition registered :: "regex_compiler \<Rightarrow> registration list \<Rightarrow> skill_registry" where
  "registered compile es = foldl (apply_registration compile) new_skill_registry es"

interpretation skill_names: guarded_machine "apply_registration compile" skills_named
  by unfold_locales
    (auto simp: apply_registration_def split: registration.splits sum.splits
      intro: skills_named_register skills_named_pattern)

lemma registered_named: "skills_named (registered compile es)"
  unfolding registered_def by (rule skill_names.run_keeps) simp

lemma register_skill_doms:
  "register_skill (Some sk) r = Inr r' \<Longrightarrow>
   dom (sr_skills r') = insert (sk_name sk) (dom (sr_skills r)) \<and> sr_patterns r' = sr_patterns r"
  by (auto simp: register_skill_def put_skill_def split: if_splits)

lemma register_pattern_doms:
  "register_pattern compile p n r = Inr r' \<Longrightarrow>
   sr_skills r' = sr_skills r \<and> dom (sr_patterns r') = insert p (dom (sr_patterns r))"
  by (auto simp: register_pattern_def split: sum.splits)

definition new_skill_names :: "registration \<Rightarrow> string set" where
  "new_skill_names e = (case e of RegisterSkill sk \<Rightarrow> {sk_name sk} | RegisterPattern p n \<Rightarrow> {})"

definition new_patterns :: "registration \<Rightarrow> string set" where
  "new_patterns e = (case e of RegisterSkill sk \<Rightarrow> {} | RegisterPattern p n \<Rightarrow> {p})"

lemma apply_registration_doms:
  "(finite (dom (sr_skills r)) \<longrightarrow> finite (dom (sr_skills (apply_registration compile r e)))) \<and>
   dom (sr_skills (apply_registration compile r e)) \<subseteq> dom (sr_skills r) \<union> new_skill_names e \<and>
   dom (sr_patterns (apply_registration compile r e)) \<subseteq> dom (sr_patterns r) \<union> new_patterns e"
proof (cases e)
  case (RegisterSkill sk)
  then show ?thesis
    by (cases "register_skill (Some sk) r")
      (auto simp: apply_registration_def new_skill_names_def new_patterns_def dest!: register_skill_doms)
next
  case (RegisterPattern p n)
  then show ?thesis
    by (cases "register_pattern compile p n r")
      (auto simp: apply_registration_def new_skill_names_def new_patterns_def dest!: register_pattern_doms)
qed

definition skill_names_of :: "registration list \<Rightarrow> string set" where
  "skill_names_of es = \<Union> (new_skill_names ` set es)"

definition pattern_texts_of :: "registration list \<Rightarrow> string set" where
  "pattern_texts_of es = \<Union> (new_patterns ` set es)"

lemma registered_doms:
  "finite (dom (sr_skills (registered compile es))) \<and>
   dom (sr_skills (registered compile es)) \<subseteq> skill_names_of es \<and>
   dom (sr_patterns (registered compile es)) \<subseteq> pattern_texts_of es"
proof (induction es rule: rev_induct)
  case Nil
  then show ?case by (simp add: registered_def new_skill_registry_def)
next
  case (snoc e es)
  have step: "registered compile (es @ [e]) = apply_registration compile (registered compile es) e"
    by (simp add: registered_def)
  show ?case unfolding step using snoc apply_registration_doms [of "registered compile es" compile e]
    unfolding skill_names_of_def pattern_texts_of_def by (simp, blast)
qed

section \<open>Which skill answers\<close>

lemma named_match_name: "skills_named r \<Longrightarrow> named_match r q n = Some sk \<Longrightarrow> sk_name sk = n \<and> sr_skills r n = Some sk"
  by (auto simp: named_match_def skills_named_def filed_under_def split: option.splits if_splits)

lemma pattern_skill_other: "p \<notin> dom (sr_skills r) \<Longrightarrow> pattern_skill r q p = None"
  by (auto simp: pattern_skill_def split: option.splits)

lemma match_without_patterns:
  assumes "skill_names_of es \<inter> pattern_texts_of es = {}"
    and "ranges_over ps (sr_patterns (registered compile es))"
  shows "match_skill ps ns (registered compile es) q = first_some (named_match (registered compile es) q) ns"
proof -
  have "pattern_skill (registered compile es) q p = None" if "p \<in> set ps" for p
  proof (rule pattern_skill_other)
    have "p \<in> pattern_texts_of es" using that assms(2) registered_doms [of compile es] unfolding ranges_over_def by blast
    then show "p \<notin> dom (sr_skills (registered compile es))" using assms(1) registered_doms [of compile es] by blast
  qed
  then have "first_some (pattern_skill (registered compile es) q) ps = None" by (simp add: first_some_None)
  then show ?thesis by (simp add: match_skill_def)
qed

text \<open>Patterns are dead: after any registrations in which no pattern is spelled like the name of a registered skill,
  the answer of \<open>Match\<close> does not depend on the patterns at all, although \<open>RegisterPattern\<close> is documented to map a pattern
  to the skill name it is given and patterns are said to have priority.\<close>

lemma patterns_never_select:
  assumes "skill_names_of es \<inter> pattern_texts_of es = {}"
    and "ranges_over ps (sr_patterns (registered compile es))"
  shows "match_skill ps ns (registered compile es) q = match_skill [] ns (registered compile es) q"
  using match_without_patterns [OF assms] by (simp add: match_skill_def)

text \<open>A pattern for the echo skill that fits every query.\<close>

definition everything :: regex_compiler where
  "everything p = Inr (\<lambda>_. True)"

definition echo_registrations :: "registration list" where
  "echo_registrations = [RegisterSkill echo_skill, RegisterPattern ''.*'' ''echo'']"

lemma patterns_never_select_witness:
  "match_skill [''.*''] [''echo''] (registered everything echo_registrations) ''hello'' = None"
proof -
  let ?r = "registered everything echo_registrations"
  have r: "sr_patterns ?r = [''.*'' \<mapsto> (\<lambda>_. True)]" "sr_skills ?r = [''echo'' \<mapsto> echo_skill]"
    by (auto simp: registered_def echo_registrations_def apply_registration_def register_skill_def
        register_pattern_def everything_def put_skill_def new_skill_registry_def echo_skill_def base_skill_def)
  have "ranges_over [''.*''] (sr_patterns ?r)" by (auto simp: ranges_over_def r)
  moreover have "skill_names_of echo_registrations \<inter> pattern_texts_of echo_registrations = {}"
    by (simp add: skill_names_of_def pattern_texts_of_def echo_registrations_def new_skill_names_def
        new_patterns_def echo_skill_def base_skill_def)
  ultimately have "match_skill [''.*''] [''echo''] ?r ''hello'' = match_skill [] [''echo''] ?r ''hello''"
    using patterns_never_select [of echo_registrations "[''.*'']" everything] by blast
  also have "\<dots> = None"
    by (simp add: match_skill_def named_match_def r echo_skill_def base_skill_def base_match_def to_lower_def
        lower_char_def is_upper_def byte_def)
  finally show ?thesis .
qed

text \<open>Which skill answers a query is decided by the order in which the run ranges over the map of skills: every
  skill that matches the query is the answer in some run, and in every run the answer is one of them or, when none
  matches, nothing.\<close>

lemma any_matching_skill_may_answer:
  assumes "skill_names_of es \<inter> pattern_texts_of es = {}"
    and "ranges_over ps (sr_patterns (registered compile es))"
  shows "{match_skill ps ns (registered compile es) q |ns. ranges_over ns (sr_skills (registered compile es))} =
    (let ms = {sk. \<exists>n. named_match (registered compile es) q n = Some sk}
     in if ms = {} then {None} else Some ` ms)"
proof -
  let ?r = "registered compile es"
  let ?ms = "{sk. \<exists>n. named_match ?r q n = Some sk}"
  note eq = match_without_patterns [OF assms, of _ q]
  have fin: "finite (dom (sr_skills ?r))" using registered_doms by blast
  have dom: "n \<in> dom (sr_skills ?r)" if "named_match ?r q n = Some sk" for n sk
    using that by (auto simp: named_match_def split: option.splits)
  have answer: "(\<exists>n. ranges_over n (sr_skills ?r) \<and> Some sk = first_some (named_match ?r q) n) \<longleftrightarrow> sk \<in> ?ms" for sk
  proof
    assume "sk \<in> ?ms"
    then obtain n where n: "named_match ?r q n = Some sk" by blast
    obtain ks where "ranges_over (n # ks) (sr_skills ?r)" using ranges_over_front [OF fin dom [OF n]] by blast
    with n show "\<exists>n. ranges_over n (sr_skills ?r) \<and> Some sk = first_some (named_match ?r q) n"
      by (intro exI [of _ "n # ks"]) simp
  qed (metis (mono_tags, lifting) first_some_Some mem_Collect_eq)
  have none: "first_some (named_match ?r q) ns = None \<longleftrightarrow> ?ms = {}" if "ranges_over ns (sr_skills ?r)" for ns
  proof
    assume "first_some (named_match ?r q) ns = None"
    then have "named_match ?r q n = None" if "n \<in> dom (sr_skills ?r)" for n
      using that \<open>ranges_over ns _\<close> by (auto simp: first_some_None ranges_over_def)
    then show "?ms = {}" using dom by fastforce
  next
    assume "?ms = {}"
    then have "named_match ?r q n = None" for n by (cases "named_match ?r q n") auto
    then show "first_some (named_match ?r q) ns = None" by (simp add: first_some_None)
  qed
  obtain ns0 where ns0: "ranges_over ns0 (sr_skills ?r)"
    using finite_distinct_list [OF fin] by (auto simp: ranges_over_def)
  show ?thesis
  proof (cases "?ms = {}")
    case True
    with none ns0 show ?thesis by (auto simp: eq Let_def) metis
  next
    case False
    then show ?thesis using none answer unfolding eq Let_def by (auto simp: image_iff) (metis option.exhaust)+
  qed
qed

lemma any_matching_skill_may_answer_witness:
  "{match_skill [] ns (registered everything [RegisterSkill echo_skill]) ''echo hi'' |ns.
      ranges_over ns (sr_skills (registered everything [RegisterSkill echo_skill]))} = {Some echo_skill}"
proof -
  let ?r = "registered everything [RegisterSkill echo_skill]"
  have r: "sr_patterns ?r = Map.empty" "sr_skills ?r = [''echo'' \<mapsto> echo_skill]"
    by (auto simp: registered_def apply_registration_def register_skill_def put_skill_def new_skill_registry_def
        echo_skill_def base_skill_def)
  have "sk_match echo_skill ''echo hi''"
    by (simp add: echo_skill_def base_skill_def base_match_def to_lower_def lower_char_def is_upper_def byte_def)
  then have "named_match ?r ''echo hi'' n = (if n = ''echo'' then Some echo_skill else None)" for n
    by (simp add: named_match_def r)
  then have "{sk. \<exists>n. named_match ?r ''echo hi'' n = Some sk} = {echo_skill}" by simp
  then show ?thesis
    using any_matching_skill_may_answer [of "[RegisterSkill echo_skill]" "[]" everything "''echo hi''"]
    by (simp add: ranges_over_def r skill_names_of_def pattern_texts_of_def new_skill_names_def new_patterns_def)
qed

section \<open>The fast path of the dispatcher\<close>

text \<open>The registry as the skill provider of the dispatcher, in one run.\<close>

definition skill_error_text :: "skill_error \<Rightarrow> string" where
  "skill_error_text e =
     (case e of
        SkillNotFound \<Rightarrow> ''validation failed for field 'skill': skill not found in registry''
      | SkillExecution err \<Rightarrow> ''validation failed for field 'skill': skill execution failed: '' @ err
      | NilSkill \<Rightarrow> ''validation failed for field 'skill': skill cannot be nil''
      | EmptySkillName \<Rightarrow> ''validation failed for field 'name': skill name cannot be empty''
      | EmptySkillDescription \<Rightarrow> ''validation failed for field 'description': skill description cannot be empty''
      | InvalidPattern err \<Rightarrow> ''validation failed for field 'pattern': invalid regex pattern: '' @ err)"

definition registry_provider :: "string list \<Rightarrow> string list \<Rightarrow> skill_registry \<Rightarrow> skill_provider" where
  "registry_provider ps ns r =
     \<lparr>sp_match = (\<lambda>q. map_option sk_name (match_skill ps ns r q)),
      sp_execute = (\<lambda>n q. case execute_skill r n q of Inl e \<Rightarrow> Inl (skill_error_text e) | Inr out \<Rightarrow> Inr out)\<rparr>"

text \<open>
  A step with the hint \<open>skill\<close> is answered from the text of the whole task, not from the step: every such step of
  a plan gets the same text, the output of one skill on the task, whatever the step says.
\<close>

lemma match_skill_registered:
  assumes "skills_named r" "match_skill ps ns r q = Some sk"
  shows "sr_skills r (sk_name sk) = Some sk"
proof -
  have "\<exists>p. pattern_skill r q p = Some sk \<or> named_match r q p = Some sk"
    using assms(2) by (auto simp: match_skill_def split: option.splits dest!: first_some_Some)
  then show ?thesis using assms(1)
    by (auto simp: pattern_skill_def named_match_def skills_named_def filed_under_def split: option.splits if_splits)
qed

lemma skill_steps_answer_the_task:
  assumes "skills_named r" "trim_space (os_hint s) = ''skill''"
    and "de_skills env = Some (registry_provider ps ns r)" "match_skill ps ns r (de_task env) = Some sk"
  shows "skill_output env s = (case sk_execute sk (de_task env) of Inl _ \<Rightarrow> None | Inr out \<Rightarrow> Some out)"
  using assms match_skill_registered [OF assms(1,4)]
  by (simp add: skill_output_def registry_provider_def execute_skill_def split: sum.splits)

end
