(* ===== verification/Skill_Diff.thy ===== *)
theory Skill_Diff
  imports Common_Subsequences Skill_Registry
begin

text \<open>
  The diff skill (\<open>internal/skill/builtin/diff.go\<close>): how the two sides are cut out of the query, the edit script of
  \<open>Common_Subsequences\<close> on their lines, and the report with one line of context around each change.
\<close>

definition diff_separators :: "string list" where
  "diff_separators = ['' vs '', '' --- '', '' // '']"

definition diff_match :: "string \<Rightarrow> bool" where
  "diff_match query \<longleftrightarrow>
     (let q = to_lower query
      in if \<not> contains_str q ''diff'' \<and> \<not> contains_str q ''compare'' then False
         else list_ex (contains_str q) diff_separators)"

fun split_at_first :: "string list \<Rightarrow> string \<Rightarrow> (string \<times> string \<times> string) option" where
  "split_at_first [] query = None"
| "split_at_first (sep # seps) query =
     (case split_two query sep of
        None \<Rightarrow> split_at_first seps query
      | Some (l, r) \<Rightarrow>
          if trim_space l \<noteq> [] \<and> trim_space r \<noteq> [] then Some (trim_space l, trim_space r, sep)
          else split_at_first seps query)"

definition split_inputs :: "string \<Rightarrow> (string \<times> string \<times> string) option" where
  "split_inputs query = split_at_first diff_separators query"

definition trim_returns :: "string \<Rightarrow> string" where
  "trim_returns l = rev (dropWhile (\<lambda>c. c = CHR 0x0D) (rev l))"

definition split_lines :: "string \<Rightarrow> string list" where
  "split_lines s = (if s = [] then [] else map trim_returns (split_on (CHR 0x0A) s))"

definition is_change :: "'a edit \<Rightarrow> bool" where
  "is_change e = (case e of Keep _ \<Rightarrow> False | _ \<Rightarrow> True)"

fun render_edit :: "string edit \<Rightarrow> string" where
  "render_edit (Keep l) = ''  '' @ l"
| "render_edit (Add l) = ''+ '' @ l"
| "render_edit (Remove l) = ''- '' @ l"

text \<open>The flags of the lines to show: a change, the line before it and the line after it.\<close>

definition mark_step :: "'a edit list \<Rightarrow> bool list \<Rightarrow> nat \<Rightarrow> bool list" where
  "mark_step ops sh i =
     (if is_change (ops ! i) then
        let sh = sh[i := True];
            sh = (if 0 < i then sh[i - 1 := True] else sh)
        in if i < length ops - 1 then sh[i + 1 := True] else sh
      else sh)"

definition mark_shown :: "'a edit list \<Rightarrow> bool list" where
  "mark_shown ops = foldl (mark_step ops) (replicate (length ops) False) [0..<length ops]"

definition emit_line :: "string list \<Rightarrow> string \<times> bool \<Rightarrow> string list" where
  "emit_line emitted ls =
     (if snd ls then emitted @ [fst ls]
      else if emitted \<noteq> [] \<and> last emitted \<noteq> ''...'' then emitted @ [''...''] else emitted)"

definition emit_lines :: "string edit list \<Rightarrow> string list" where
  "emit_lines ops = foldl emit_line [] (zip (map render_edit ops) (mark_shown ops))"

definition trim_breaks :: "string \<Rightarrow> string" where
  "trim_breaks s = rev (dropWhile (\<lambda>c. c = CHR 0x0A) (rev s))"

definition diff_header :: "string \<Rightarrow> string" where
  "diff_header sep = ''Diff (separator: '' @ [CHR 0x22] @ sep @ [CHR 0x22] @ '')'' @ nl @ nl"

definition identical_note :: string where
  "identical_note = ''(inputs are identical)'' @ nl"

definition diff_execute :: "string \<Rightarrow> string + string" where
  "diff_execute query =
     (case split_inputs (trim_space query) of
        None \<Rightarrow> Inl ''could not find separator (' vs ', ' --- ', or ' // ') in query''
      | Some (left, right, sep) \<Rightarrow>
          let ops = diff_edits (split_lines left) (split_lines right)
          in if \<not> list_ex is_change ops then Inr (diff_header sep @ identical_note)
             else Inr (trim_breaks (diff_header sep @ concat (map (\<lambda>l. l @ nl) (emit_lines ops)))))"

definition diff_skill :: skill where
  "diff_skill =
     (base_skill ''diff'' ''Line-by-line diff between two text inputs (separated by ' vs ' or ' --- ' or ' // ')''
        [''diff'', ''compare'', ''difference''])\<lparr>sk_match := diff_match, sk_execute := diff_execute\<rparr>"

section \<open>The edit script\<close>

text \<open>C39: The script of the diff restores the old lines and the new lines, and no script between the two texts has
  fewer additions and removals.\<close>

theorem line_diff_minimal:
  "old_side (diff_edits (split_lines left) (split_lines right)) = split_lines left \<and>
   new_side (diff_edits (split_lines left) (split_lines right)) = split_lines right \<and>
   (\<forall>es. old_side es = split_lines left \<longrightarrow> new_side es = split_lines right \<longrightarrow>
      changes (diff_edits (split_lines left) (split_lines right)) \<le> changes es)"
  using diff_edits_sides diff_edits_minimal by metis

lemma line_diff_minimal_witness:
  "changes (diff_edits (split_lines ''abc'') (split_lines ''xyz'')) \<le> 2"
proof -
  have "old_side [Add ''xyz'', Remove ''abc''] = split_lines ''abc''" "new_side [Add ''xyz'', Remove ''abc''] = split_lines ''xyz''"
    by (simp_all add: split_lines_def trim_returns_def)
  then have "changes (diff_edits (split_lines ''abc'') (split_lines ''xyz'')) \<le> changes [Add ''xyz'', Remove ''abc'']"
    using line_diff_minimal [of "''abc''" "''xyz''"] by blast
  then show ?thesis by (simp add: changes_def)
qed

section \<open>The report\<close>

lemma no_change_iff: "\<not> list_ex is_change (diff_edits a b) \<longleftrightarrow> a = b"
proof -
  have "\<not> list_ex is_change es \<longleftrightarrow> changes es = 0" for es :: "'a edit list"
    unfolding changes_zero list_ex_iff is_change_def by (metis edit.exhaust edit.simps(10,11,12))
  then show ?thesis by (simp add: diff_edits_same)
qed

lemma length_mark_step [simp]: "length (mark_step ops sh i) = length sh"
  by (auto simp: mark_step_def Let_def)

lemma length_mark_shown: "length (mark_shown ops) = length ops"
proof -
  have "length (foldl (mark_step ops) sh js) = length sh" for sh js
    by (induction js arbitrary: sh) auto
  then show ?thesis by (simp add: mark_shown_def)
qed

lemma set_true: "k < length sh \<Longrightarrow> sh ! k \<or> k = i \<Longrightarrow> sh[i := True] ! k"
  by (cases "i < length sh") (auto simp: nth_list_update list_update_beyond)

lemma mark_step_true:
  "k < length sh \<Longrightarrow> sh ! k \<or> (k = i \<and> is_change (ops ! i)) \<Longrightarrow> mark_step ops sh i ! k"
  unfolding mark_step_def Let_def by (auto intro!: set_true)

lemma mark_fold_true:
  "k < length sh \<Longrightarrow> sh ! k \<or> (k \<in> set js \<and> is_change (ops ! k)) \<Longrightarrow> foldl (mark_step ops) sh js ! k"
proof (induction js arbitrary: sh)
  case (Cons i js)
  then have "mark_step ops sh i ! k \<or> (k \<in> set js \<and> is_change (ops ! k))"
    using mark_step_true [of k sh i ops] by auto
  with Cons.IH [of "mark_step ops sh i"] Cons.prems(1) show ?case by simp
qed simp

lemma mark_shown_change: "i < length ops \<Longrightarrow> is_change (ops ! i) \<Longrightarrow> mark_shown ops ! i"
  unfolding mark_shown_def by (rule mark_fold_true) auto

text \<open>The lines of the report that begin with a plus or a minus are the changes in order.\<close>

definition change_line :: "string \<Rightarrow> bool" where
  "change_line l \<longleftrightarrow> has_prefix l ''+ '' \<or> has_prefix l ''- ''"

lemma change_line_render: "change_line (render_edit e) = is_change e"
  by (cases e) (auto simp: change_line_def is_change_def)

lemma filter_emit_line:
  "filter change_line (emit_line em (l, s)) = filter change_line em @ (if s \<and> change_line l then [l] else [])"
  by (auto simp: emit_line_def change_line_def)

lemma filter_emit_fold:
  "filter change_line (foldl emit_line em ls) =
     filter change_line em @ map fst (filter (\<lambda>(l, s). s \<and> change_line l) ls)"
proof (induction ls arbitrary: em)
  case (Cons x ls)
  then show ?case by (cases x) (simp add: filter_emit_line)
qed simp

lemma emitted_changes:
  "filter change_line (emit_lines ops) = map render_edit (filter is_change ops)"
proof -
  let ?z = "zip (map render_edit ops) (mark_shown ops)"
  have all: "\<forall>x\<in>set ?z. change_line (fst x) \<longrightarrow> snd x"
    by (auto simp: in_set_zip length_mark_shown change_line_render mark_shown_change)
  have "map fst (filter (\<lambda>(l, s). s \<and> change_line l) ?z) = filter change_line (map fst ?z)"
    using all by (induction ?z rule: list.induct) (auto simp: split_beta filter_map comp_def intro!: map_cong filter_cong)
  also have "map fst ?z = map render_edit ops" by (simp add: length_mark_shown)
  also have "filter change_line (map render_edit ops) = map render_edit (filter is_change ops)"
    by (simp add: filter_map comp_def change_line_render)
  finally show ?thesis by (simp add: emit_lines_def filter_emit_fold)
qed

text \<open>
  What is compared includes the words of the command: the skill only answers queries that name \<open>diff\<close> or \<open>compare\<close>,
  and cuts neither off, so two texts are called identical only when the right one repeats the command.
\<close>

lemma split_at_first_parts:
  "split_at_first seps q = Some (l, r, sep) \<Longrightarrow>
   sep \<in> set seps \<and> (\<exists>i. str_index q sep = Some i \<and> l = trim_space (take i q) \<and> r = trim_space (drop (i + length sep) q))"
  by (induction seps) (auto simp: split_two_def split: option.splits if_splits)

lemma identical_inputs_iff:
  assumes "split_inputs (trim_space q) = Some (left, right, sep)"
  shows "diff_execute q = Inr (diff_header sep @ identical_note) \<or> split_lines left \<noteq> split_lines right"
  using assms by (auto simp: diff_execute_def Let_def no_change_iff)

lemma compared_with_the_command:
  "diff_execute ''diff x = 1 vs x = 1'' =
     Inr (diff_header '' vs '' @ ''- diff x = 1'' @ nl @ ''+ x = 1'')"
  by code_simp

text \<open>The separators are looked for without regard to case when matching and with it when executing.\<close>

lemma upper_case_separator_fails:
  "diff_match ''Diff a VS b'' \<and> diff_execute ''Diff a VS b'' = Inl ''could not find separator (' vs ', ' --- ', or ' // ') in query''"
  by code_simp

end
