(* ===== verification/Common_Substrings.thy ===== *)
theory Common_Substrings
  imports Prelude
begin

text \<open>
  Longest common substrings, over any type of items: the single-row table of \<open>longestCommonSubstring\<close> and
  \<open>longestCommonSubstringRune\<close> in \<open>internal/skill/builtin/string_algorithms.go\<close>, which runs through a row from
  right to left so that the row above can be overwritten in place, and the matching of \<open>ratcliffMatches\<close> on top of it.
\<close>

section \<open>The table\<close>

type_synonym substring_state = "nat list \<times> nat \<times> nat"

definition substring_cell :: "'a list \<Rightarrow> 'a list \<Rightarrow> nat \<Rightarrow> substring_state \<Rightarrow> nat \<Rightarrow> substring_state" where
  "substring_cell a b i st j =
     (case st of (dp, best, best_end) \<Rightarrow>
        if a ! (i - 1) = b ! (j - 1) then
          let v = dp ! (j - 1) + 1; dp' = dp[j := v]
          in if v > best then (dp', v, i) else (dp', best, best_end)
        else (dp[j := 0], best, best_end))"

definition substring_row :: "'a list \<Rightarrow> 'a list \<Rightarrow> substring_state \<Rightarrow> nat \<Rightarrow> substring_state" where
  "substring_row a b st i = foldl (substring_cell a b i) st (rev [1..<Suc (length b)])"

definition substring_rows :: "'a list \<Rightarrow> 'a list \<Rightarrow> nat \<Rightarrow> substring_state" where
  "substring_rows a b n = foldl (substring_row a b) (replicate (length b + 1) 0, 0, 0) [1..<Suc n]"

definition longest_common_substring :: "'a list \<Rightarrow> 'a list \<Rightarrow> 'a list \<times> nat" where
  "longest_common_substring a b =
     (if a = [] \<or> b = [] then ([], 0)
      else case substring_rows a b (length a) of (dp, best, best_end) \<Rightarrow>
        if best = 0 then ([], 0) else (take best (drop (best_end - best) a), best))"

section \<open>What an entry means\<close>

fun common_prefix_len :: "'a list \<Rightarrow> 'a list \<Rightarrow> nat" where
  "common_prefix_len (x # xs) (y # ys) = (if x = y then common_prefix_len xs ys + 1 else 0)"
| "common_prefix_len xs ys = 0"

definition common_suffix_len :: "'a list \<Rightarrow> 'a list \<Rightarrow> nat" where
  "common_suffix_len xs ys = common_prefix_len (rev xs) (rev ys)"

lemma common_prefix_len_take: "take (common_prefix_len xs ys) xs = take (common_prefix_len xs ys) ys"
  by (induction xs ys rule: common_prefix_len.induct) auto

lemma common_prefix_len_le: "common_prefix_len xs ys \<le> length xs \<and> common_prefix_len xs ys \<le> length ys"
  by (induction xs ys rule: common_prefix_len.induct) auto

lemma common_prefix_len_ge: "prefix s xs \<Longrightarrow> prefix s ys \<Longrightarrow> length s \<le> common_prefix_len xs ys"
proof (induction xs ys arbitrary: s rule: common_prefix_len.induct)
  case (1 x xs y ys)
  then show ?case by (cases s) auto
qed auto

lemma common_suffix_len_Nil [simp]: "common_suffix_len [] ys = 0" "common_suffix_len xs [] = 0"
  by (cases "rev xs"; simp add: common_suffix_len_def)+

lemma common_suffix_len_snoc [simp]:
  "common_suffix_len (xs @ [x]) (ys @ [y]) = (if x = y then common_suffix_len xs ys + 1 else 0)"
  by (simp add: common_suffix_len_def)

lemma common_suffix_len_ge: "suffix s xs \<Longrightarrow> suffix s ys \<Longrightarrow> length s \<le> common_suffix_len xs ys"
  unfolding common_suffix_len_def
  using common_prefix_len_ge [of "rev s" "rev xs" "rev ys"] by (simp add: suffix_to_prefix)

lemma common_suffix_len_le: "common_suffix_len xs ys \<le> length xs \<and> common_suffix_len xs ys \<le> length ys"
  unfolding common_suffix_len_def using common_prefix_len_le [of "rev xs" "rev ys"] by simp

lemma common_suffix_drop:
  "drop (length xs - common_suffix_len xs ys) xs = drop (length ys - common_suffix_len xs ys) ys"
proof -
  have "rev (take (common_suffix_len xs ys) (rev xs)) = rev (take (common_suffix_len xs ys) (rev ys))"
    unfolding common_suffix_len_def by (rule arg_cong [OF common_prefix_len_take])
  then show ?thesis by (simp add: rev_take)
qed

lemma common_suffix_Suc:
  "i < length a \<Longrightarrow> j < length b \<Longrightarrow>
   common_suffix_len (take (Suc i) a) (take (Suc j) b) =
     (if a ! i = b ! j then common_suffix_len (take i a) (take j b) + 1 else 0)"
  by (simp add: take_Suc_conv_app_nth)

section \<open>The table is right\<close>

text \<open>The cells \<open>m\<close>, \<open>m - 1\<close>, \<open>...\<close>, 1 of a row.\<close>

lemma substring_cells:
  assumes "foldl (substring_cell a b i) (dp, best, be) (rev [1..<Suc m]) = (dp', best', be')" "m < length dp"
  shows "length dp' = length dp \<and> (\<forall>k. k = 0 \<or> m < k \<longrightarrow> dp' ! k = dp ! k) \<and>
    (\<forall>k. 1 \<le> k \<and> k \<le> m \<longrightarrow> dp' ! k = (if a ! (i - 1) = b ! (k - 1) then dp ! (k - 1) + 1 else 0)) \<and>
    (\<forall>k. 1 \<le> k \<and> k \<le> m \<longrightarrow> dp' ! k \<le> best') \<and> best \<le> best' \<and>
    ((best' = best \<and> be' = be) \<or> (be' = i \<and> (\<exists>k. 1 \<le> k \<and> k \<le> m \<and> dp' ! k = best')))"
  using assms
proof (induction m arbitrary: dp best be)
  case 0
  then show ?case by auto
next
  case (Suc m)
  obtain d1 b1 e1 where c: "substring_cell a b i (dp, best, be) (Suc m) = (d1, b1, e1)" by (metis prod_cases3)
  have run: "foldl (substring_cell a b i) (d1, b1, e1) (rev [1..<Suc m]) = (dp', best', be')"
    using Suc.prems(1) c by simp
  let ?v = "if a ! (i - 1) = b ! m then dp ! m + 1 else 0"
  have d1: "d1 = dp[Suc m := ?v]" "?v \<le> b1" "best \<le> b1"
      "(b1 = best \<and> e1 = be) \<or> (e1 = i \<and> b1 = ?v)"
    using c by (auto simp: substring_cell_def Let_def split: if_splits)
  have len: "m < length d1" using Suc.prems(2) d1(1) by simp
  note ih = Suc.IH [OF run len]
  have old: "d1 ! k = dp ! k" if "k \<le> m" for k using that by (simp add: d1(1))
  have new: "dp' ! Suc m = ?v" using ih Suc.prems(2) by (simp add: d1(1))
  have "dp' ! k = (if a ! (i - 1) = b ! (k - 1) then dp ! (k - 1) + 1 else 0)" if "1 \<le> k \<and> k \<le> Suc m" for k
    using that new ih old [of "k - 1"] by (cases "k = Suc m") auto
  moreover have "dp' ! k \<le> best'" if "1 \<le> k \<and> k \<le> Suc m" for k
    using that new ih d1(2) by (cases "k = Suc m") auto
  moreover have "(best' = best \<and> be' = be) \<or> (be' = i \<and> (\<exists>k. 1 \<le> k \<and> k \<le> Suc m \<and> dp' ! k = best'))"
    using ih d1(4) new by (metis le_Suc_eq le_add1 plus_1_eq_Suc le_refl)
  ultimately show ?case using ih d1 by auto
qed

definition substring_inv :: "'a list \<Rightarrow> 'a list \<Rightarrow> nat \<Rightarrow> substring_state \<Rightarrow> bool" where
  "substring_inv a b n st \<longleftrightarrow>
     (case st of (dp, best, best_end) \<Rightarrow>
        length dp = length b + 1 \<and>
        (\<forall>j\<le>length b. dp ! j = common_suffix_len (take n a) (take j b)) \<and>
        (\<forall>i\<le>n. \<forall>j\<le>length b. common_suffix_len (take i a) (take j b) \<le> best) \<and>
        (0 < best \<longrightarrow> best_end \<le> n \<and> (\<exists>j\<le>length b. common_suffix_len (take best_end a) (take j b) = best)))"

lemma substring_rows_inv: "n \<le> length a \<Longrightarrow> substring_inv a b n (substring_rows a b n)"
proof (induction n)
  case 0
  have "(replicate (length b) 0 @ [0]) ! j = (0::nat)" if "j \<le> length b" for j
    using that by (auto simp: nth_append)
  then show ?case by (simp add: substring_inv_def substring_rows_def replicate_append_same)
next
  case (Suc n)
  obtain dp best be where s: "substring_rows a b n = (dp, best, be)" by (metis prod_cases3)
  obtain dp' best' be' where s': "substring_rows a b (Suc n) = (dp', best', be')" by (metis prod_cases3)
  have inv: "length dp = length b + 1" "\<And>j. j \<le> length b \<Longrightarrow> dp ! j = common_suffix_len (take n a) (take j b)"
      "\<And>i j. i \<le> n \<Longrightarrow> j \<le> length b \<Longrightarrow> common_suffix_len (take i a) (take j b) \<le> best"
      "0 < best \<Longrightarrow> be \<le> n \<and> (\<exists>j\<le>length b. common_suffix_len (take be a) (take j b) = best)"
    using Suc s by (auto simp: substring_inv_def)
  have "substring_row a b (dp, best, be) (Suc n) = (dp', best', be')"
    using s' s by (simp add: substring_rows_def)
  then have "foldl (substring_cell a b (Suc n)) (dp, best, be) (rev [1..<Suc (length b)]) = (dp', best', be')"
    by (simp add: substring_row_def)
  from substring_cells [OF this] inv(1)
  have c: "length dp' = length dp" "dp' ! 0 = dp ! 0"
      "\<And>k. 1 \<le> k \<and> k \<le> length b \<Longrightarrow> dp' ! k = (if a ! n = b ! (k - 1) then dp ! (k - 1) + 1 else 0)"
      "\<And>k. 1 \<le> k \<and> k \<le> length b \<Longrightarrow> dp' ! k \<le> best'" "best \<le> best'"
      "(best' = best \<and> be' = be) \<or> (be' = Suc n \<and> (\<exists>k. 1 \<le> k \<and> k \<le> length b \<and> dp' ! k = best'))"
    by auto
  have row: "dp' ! j = common_suffix_len (take (Suc n) a) (take j b)" if "j \<le> length b" for j
  proof (cases j)
    case 0
    then show ?thesis using c(2) inv(2) [of 0] by simp
  next
    case (Suc k)
    then have k: "k < length b" using that by simp
    have "dp' ! j = (if a ! n = b ! k then common_suffix_len (take n a) (take k b) + 1 else 0)"
      using c(3) [of j] inv(2) [of k] Suc k by simp
    also have "\<dots> = common_suffix_len (take (Suc n) a) (take (Suc k) b)"
      using Suc.prems k by (simp add: common_suffix_Suc)
    finally show ?thesis using \<open>j = Suc k\<close> by simp
  qed
  have best: "common_suffix_len (take i a) (take j b) \<le> best'" if "i \<le> Suc n" "j \<le> length b" for i j
  proof (cases "i = Suc n")
    case True
    then show ?thesis using that row [of j] c(4) [of j] by (cases "j = 0") auto
  next
    case False
    then show ?thesis using that inv(3) [of i j] c(5) by simp
  qed
  have "0 < best' \<longrightarrow> be' \<le> Suc n \<and> (\<exists>j\<le>length b. common_suffix_len (take be' a) (take j b) = best')"
    using c(6) inv(4) row by (metis le_SucI le_refl)
  with row best c(1) inv(1) show ?case by (simp add: s' substring_inv_def)
qed

lemma longest_common_substring_correct:
  assumes "longest_common_substring a b = (s, n)"
  shows "sublist s a \<and> sublist s b \<and> length s = n \<and> (\<forall>t. sublist t a \<longrightarrow> sublist t b \<longrightarrow> length t \<le> n)"
proof (cases "a = [] \<or> b = []")
  case True
  with assms show ?thesis by (auto simp: longest_common_substring_def)
next
  case False
  obtain dp best be where st: "substring_rows a b (length a) = (dp, best, be)" by (metis prod_cases3)
  have inv: "\<And>i j. i \<le> length a \<Longrightarrow> j \<le> length b \<Longrightarrow> common_suffix_len (take i a) (take j b) \<le> best"
      "0 < best \<Longrightarrow> be \<le> length a \<and> (\<exists>j\<le>length b. common_suffix_len (take be a) (take j b) = best)"
    using substring_rows_inv [of "length a" a b] st by (auto simp: substring_inv_def)
  have upper: "length t \<le> best" if t: "sublist t a" "sublist t b" for t
  proof -
    obtain p q p' q' where ab: "a = p @ t @ q" "b = p' @ t @ q'" using t by (auto simp: sublist_def)
    let ?i = "length (p @ t)" and ?j = "length (p' @ t)"
    have "suffix t (take ?i a)" "suffix t (take ?j b)" using ab by (auto simp: suffix_def)
    then have "length t \<le> common_suffix_len (take ?i a) (take ?j b)" by (rule common_suffix_len_ge)
    also have "\<dots> \<le> best" by (rule inv(1)) (simp_all add: ab)
    finally show ?thesis .
  qed
  show ?thesis
  proof (cases "best = 0")
    case True
    with assms False st upper show ?thesis by (auto simp: longest_common_substring_def)
  next
    case pos: False
    then obtain j where j: "j \<le> length b" "be \<le> length a" "common_suffix_len (take be a) (take j b) = best"
      using inv(2) by auto
    have s: "s = take best (drop (be - best) a)" "n = best"
      using assms False st pos by (auto simp: longest_common_substring_def)
    have le: "best \<le> be" "best \<le> j" using common_suffix_len_le [of "take be a" "take j b"] j by auto
    have d: "drop (be - best) (take be a) = drop (j - best) (take j b)"
      using common_suffix_drop [of "take be a" "take j b"] j by (auto simp: min_def split: if_splits)
    have s1: "s = drop (be - best) (take be a)" using le by (simp add: s drop_take)
    have cut: "sublist (drop k (take l xs)) xs" for k l and xs :: "'a list"
      by (metis append_take_drop_id append.assoc sublist_appendI)
    from cut [of "be - best" be a] s1 have "sublist s a" by simp
    moreover from cut [of "j - best" j b] s1 d have "sublist s b" by simp
    moreover have "length s = n" using s j le by simp
    ultimately show ?thesis using upper s by blast
  qed
qed

section \<open>Ratcliff-Obershelp\<close>

text \<open>The first position of a slice, \<open>None\<close> for the code's -1.\<close>

fun slice_index :: "'a list \<Rightarrow> 'a list \<Rightarrow> nat option" where
  "slice_index [] needle = (if needle = [] then Some 0 else None)"
| "slice_index (h # hs) needle =
     (if take (length needle) (h # hs) = needle then Some 0 else map_option Suc (slice_index hs needle))"

lemma slice_index_Some: "slice_index hay needle = Some i \<Longrightarrow> i + length needle \<le> length hay"
proof (induction hay arbitrary: i)
  case (Cons h hs)
  show ?case
  proof (cases "take (length needle) (h # hs) = needle")
    case True
    then have "length needle \<le> length (h # hs)" by (metis length_take min.cobounded1)
    with True Cons.prems show ?thesis by simp
  next
    case False
    with Cons show ?thesis by auto
  qed
qed (auto split: if_splits)

lemma slice_index_found: "sublist needle hay \<Longrightarrow> slice_index hay needle \<noteq> None"
proof (induction hay)
  case (Cons h hs)
  then show ?case by (auto simp: sublist_Cons_right prefix_def)
qed simp

text \<open>The sum of the lengths of the matched blocks. Both positions exist (lemma \<open>slice_index_found\<close>), so the last case
  is not reached.\<close>

function ratcliff_matches :: "'a list \<Rightarrow> 'a list \<Rightarrow> nat" where
  "ratcliff_matches a b =
     (let r = longest_common_substring a b; sub = fst r; n = snd r
      in if n = 0 then 0
         else (case slice_index a sub of
             None \<Rightarrow> n
           | Some i \<Rightarrow> (case slice_index b sub of
                 None \<Rightarrow> n
               | Some j \<Rightarrow>
                   n + (if 0 < i \<and> 0 < j then ratcliff_matches (take i a) (take j b) else 0) +
                   (if i + n < length a \<and> j + n < length b then ratcliff_matches (drop (i + n) a) (drop (j + n) b)
                    else 0))))"
  by auto

termination
proof (relation "measure (\<lambda>(a, b). length a)")
  fix a b :: "'a list" and x xa xb i j
  assume x: "x = longest_common_substring a b" "xa = fst x" "xb = snd x" "xb \<noteq> 0" "slice_index a xa = Some i"
  then have "length xa = xb" "i + length xa \<le> length a"
    using longest_common_substring_correct [of a b xa xb] slice_index_Some [of a xa i] by auto
  with x(4) show "((take i a, take j b), a, b) \<in> measure (\<lambda>(a, b). length a)"
    and "((drop (i + xb) a, drop (j + xb) b), a, b) \<in> measure (\<lambda>(a, b). length a)" by auto
qed simp

lemma block_position:
  assumes "longest_common_substring a b = (sub, n)" "n \<noteq> 0"
  obtains i j where "slice_index a sub = Some i" "slice_index b sub = Some j" "i + n \<le> length a" "j + n \<le> length b"
proof -
  note c = longest_common_substring_correct [OF assms(1)]
  obtain i j where ij: "slice_index a sub = Some i" "slice_index b sub = Some j"
    using c slice_index_found [of sub a] slice_index_found [of sub b] by auto
  with c slice_index_Some [OF ij(1)] slice_index_Some [OF ij(2)] show ?thesis by (intro that) auto
qed

declare ratcliff_matches.simps [simp del]

lemma ratcliff_step:
  assumes "longest_common_substring a b = (sub, n)" "n \<noteq> 0"
    and "slice_index a sub = Some i" "slice_index b sub = Some j"
  shows "ratcliff_matches a b =
    n + (if 0 < i \<and> 0 < j then ratcliff_matches (take i a) (take j b) else 0) +
      (if i + n < length a \<and> j + n < length b then ratcliff_matches (drop (i + n) a) (drop (j + n) b) else 0)"
  using assms by (subst ratcliff_matches.simps) (simp add: Let_def)

lemma ratcliff_bound: "ratcliff_matches a b \<le> length a \<and> ratcliff_matches a b \<le> length b"
proof (induction "length a" arbitrary: a b rule: less_induct)
  case less
  obtain sub n where l: "longest_common_substring a b = (sub, n)" by (metis surj_pair)
  show ?case
  proof (cases "n = 0")
    case True
    with l show ?thesis by (subst (1 2) ratcliff_matches.simps) (simp add: Let_def)
  next
    case False
    obtain i j where ij: "slice_index a sub = Some i" "slice_index b sub = Some j" "i + n \<le> length a" "j + n \<le> length b"
      using block_position [OF l False] by blast
    let ?l = "if 0 < i \<and> 0 < j then ratcliff_matches (take i a) (take j b) else 0"
    let ?r = "if i + n < length a \<and> j + n < length b then ratcliff_matches (drop (i + n) a) (drop (j + n) b) else 0"
    have "?l \<le> i \<and> ?l \<le> j" using less [of "take i a" "take j b"] ij False by auto
    moreover have "?r \<le> length a - (i + n) \<and> ?r \<le> length b - (j + n)"
      using less [of "drop (i + n) a" "drop (j + n) b"] ij False by auto
    ultimately show ?thesis unfolding ratcliff_step [OF l False ij(1,2)] using ij by linarith
  qed
qed

lemma ratcliff_same: "ratcliff_matches a a = length a"
proof (cases "a = []")
  case False
  obtain sub n where l: "longest_common_substring a a = (sub, n)" by (metis surj_pair)
  note c = longest_common_substring_correct [OF l]
  have "length a \<le> n" using c by auto
  moreover have "length sub \<le> length a" using c by (auto dest: sublist_length_le)
  ultimately have n: "n = length a" "n \<noteq> 0" using c False by auto
  obtain i j where ij: "slice_index a sub = Some i" "slice_index a sub = Some j" "i + n \<le> length a" "j + n \<le> length a"
    using block_position [OF l n(2)] by blast
  then have "i = 0" "j = 0" using n by auto
  then show ?thesis unfolding ratcliff_step [OF l n(2) ij(1,2)] using n by simp
qed (simp add: ratcliff_matches.simps longest_common_substring_def)

end
