(* ===== verification/Skill_Strings.thy ===== *)
theory Skill_Strings
  imports Complex_Main "HOL-Library.List_Lexorder" "HOL-Library.Char_ord" Common_Subsequences Common_Substrings Go_Runes Skill_Registry
begin

text \<open>
  The string-algorithm skills (\<open>internal/skill/builtin/string_algorithms.go\<close>): Soundex, Metaphone, Jaro and Jaro-Winkler,
  Hamming distance, the two kinds of longest common parts, n-grams and Ratcliff-Obershelp. Texts are compared by runes.
  Similarities are exact rationals where the code has float64; printing one with three decimals is a parameter. Orders
  in which a Go map is ranged over do not matter here, because the entries are sorted by a total order afterwards.
\<close>

section \<open>Operands\<close>

definition extract_payload_strict :: "string \<Rightarrow> string" where
  "extract_payload_strict q0 =
     (let q = trim_space q0
      in case str_index q '':'' of Some i \<Rightarrow> trim_space (drop (i + 1) q) | None \<Rightarrow> extract_payload q)"

definition split_pair :: "string \<Rightarrow> (string \<times> string) option" where
  "split_pair payload =
     (let parts = (case split_two payload ''|'' of Some p \<Rightarrow> Some p | None \<Rightarrow> split_two payload '','')
      in map_option (\<lambda>(a, b). (quote_stripped (trim_space a), quote_stripped (trim_space b))) parts)"

definition first_word :: "string \<Rightarrow> string option" where
  "first_word s = (case str_fields s of [] \<Rightarrow> None | w # ws \<Rightarrow> Some (quote_stripped w))"

definition extract_single_word :: "string \<Rightarrow> string" where
  "extract_single_word q =
     (case str_index q '':'' of
        Some i \<Rightarrow> (case first_word (trim_space (drop (i + 1) q)) of None \<Rightarrow> [] | Some w \<Rightarrow> w)
      | None \<Rightarrow>
          (case first_word (extract_after q ['' of '', '' for '']) of
             Some w \<Rightarrow> w
           | None \<Rightarrow> (case first_word (trim_space (extract_payload q)) of None \<Rightarrow> [] | Some w \<Rightarrow> w)))"

definition any_in :: "string \<Rightarrow> string list \<Rightarrow> bool" where
  "any_in q subs = list_ex (contains_str q) subs"

section \<open>Soundex\<close>

definition soundex_code :: "char \<Rightarrow> char" where
  "soundex_code r =
     (if r \<in> set ''BFPV'' then CHR ''1''
      else if r \<in> set ''CGJKQSXZ'' then CHR ''2''
      else if r \<in> set ''DT'' then CHR ''3''
      else if r = CHR ''L'' then CHR ''4''
      else if r \<in> set ''MN'' then CHR ''5''
      else if r = CHR ''R'' then CHR ''6''
      else CHR ''0'')"

fun soundex_loop :: "char \<Rightarrow> string \<Rightarrow> string \<Rightarrow> string" where
  "soundex_loop prev out [] = out"
| "soundex_loop prev out (r # rs) =
     (if r = CHR ''H'' \<or> r = CHR ''W'' then soundex_loop prev out rs
      else let c = soundex_code r
           in if c = CHR ''0'' then soundex_loop (CHR ''0'') out rs
              else let out' = (if c \<noteq> prev then out @ [c] else out)
                   in if length out' = 4 then out' else soundex_loop c out' rs)"

definition soundex :: "string \<Rightarrow> string" where
  "soundex word0 =
     (let word = to_upper (trim_space word0); letters = filter is_upper word
      in if word = [] \<or> letters = [] then ''0000''
         else let out = soundex_loop (soundex_code (hd letters)) [hd letters] (tl letters)
              in take 4 (out @ replicate (4 - length out) (CHR ''0'')))"

definition encode_word :: "(string \<Rightarrow> string) \<Rightarrow> string \<Rightarrow> string + string" where
  "encode_word f q = (let w = extract_single_word q in if w = [] then Inl ''no word to encode'' else Inr (f w))"

definition soundex_skill :: skill where
  "soundex_skill =
     (base_skill ''soundex'' ''American Soundex phonetic code (4-char, e.g. R163 for Robert). Input: single word''
        [''soundex'', ''phonetic code''])
       \<lparr>sk_match := (\<lambda>q. contains_str (to_lower q) ''soundex''), sk_execute := encode_word soundex\<rparr>"

lemma soundex_code_digit: "soundex_code r \<in> set ''0123456''"
  by (simp add: soundex_code_def)

text \<open>A letter and three digits from 0 to 6, or four zeros.\<close>

definition soundex_shape :: "string \<Rightarrow> bool" where
  "soundex_shape s \<longleftrightarrow> length s = 4 \<and> (is_upper (hd s) \<or> hd s = CHR ''0'') \<and> set (tl s) \<subseteq> set ''0123456''"

lemma soundex_loop_shape:
  "out \<noteq> [] \<Longrightarrow> set (tl out) \<subseteq> set ''0123456'' \<Longrightarrow>
   soundex_loop prev out rs \<noteq> [] \<and> hd (soundex_loop prev out rs) = hd out \<and>
   set (tl (soundex_loop prev out rs)) \<subseteq> set ''0123456''"
proof (induction prev out rs rule: soundex_loop.induct)
  case (2 prev out r rs)
  have c: "soundex_code r \<in> set ''0123456''" by (rule soundex_code_digit)
  show ?case
  proof (cases "r = CHR ''H'' \<or> r = CHR ''W''")
    case True
    with 2 show ?thesis by auto
  next
    case hw: False
    show ?thesis
    proof (cases "soundex_code r = CHR ''0''")
      case True
      with "2.IH"(2) [OF hw refl True] "2.prems" hw show ?thesis by simp
    next
      case z: False
      let ?o = "if soundex_code r \<noteq> prev then out @ [soundex_code r] else out"
      have o: "?o \<noteq> []" "hd ?o = hd out" "set (tl ?o) \<subseteq> set ''0123456''"
        using "2.prems" c by auto
      show ?thesis
      proof (cases "length ?o = 4")
        case True
        then have "soundex_loop prev out (r # rs) = ?o" using hw z by (simp add: Let_def)
        with o show ?thesis by simp
      next
        case False
        from "2.IH"(3) [OF hw refl z refl False o(1,3)] o(2) hw z False show ?thesis by (simp add: Let_def)
      qed
    qed
  qed
qed auto

text \<open>The code of any word is a letter and three digits between 0 and 6, or four zeros.\<close>

lemma soundex_has_shape: "soundex_shape (soundex word)"
proof (cases "to_upper (trim_space word) = [] \<or> filter is_upper (to_upper (trim_space word)) = []")
  case True
  then show ?thesis by (auto simp: soundex_def soundex_shape_def Let_def)
next
  case False
  let ?ls = "filter is_upper (to_upper (trim_space word))"
  let ?o = "soundex_loop (soundex_code (hd ?ls)) [hd ?ls] (tl ?ls)"
  have "hd ?ls \<in> set ?ls" using False by (intro hd_in_set) auto
  then have up: "is_upper (hd ?ls)" by auto
  have o: "?o \<noteq> []" "hd ?o = hd ?ls" "set (tl ?o) \<subseteq> set ''0123456''"
    using soundex_loop_shape [of "[hd ?ls]" "soundex_code (hd ?ls)" "tl ?ls"] by simp_all
  obtain z zs where z: "?o = z # zs" using o(1) by (cases ?o) auto
  have s: "soundex word = z # take 3 (zs @ replicate (3 - length zs) (CHR ''0''))"
    using False z by (simp add: soundex_def Let_def)
  have "set (take 3 (zs @ replicate (3 - length zs) (CHR ''0''))) \<subseteq> set ''0123456''"
    using o(3) z by (auto dest!: in_set_takeD)
  then show ?thesis using o(2) z up by (auto simp: s soundex_shape_def)
qed

lemma soundex_examples:
  "soundex ''Robert'' = ''R163'' \<and> soundex ''Ashcraft'' = ''A261'' \<and> soundex ''Pfister'' = ''P236''"
  by code_simp

section \<open>Metaphone\<close>

definition is_vowel :: "char \<Rightarrow> bool" where
  "is_vowel c \<longleftrightarrow> c \<in> set ''AEIOU''"

definition front_vowel :: "char \<Rightarrow> bool" where
  "front_vowel c \<longleftrightarrow> c \<in> set ''IEY''"

definition no_char :: char where
  "no_char = CHR 0x00"

definition letter_at :: "string \<Rightarrow> nat \<Rightarrow> char" where
  "letter_at w i = (if i < length w then w ! i else no_char)"

text \<open>The initial clusters.\<close>

definition metaphone_start :: "string \<Rightarrow> string" where
  "metaphone_start w =
     (if has_prefix w ''KN'' \<or> has_prefix w ''GN'' \<or> has_prefix w ''PN'' then tl w
      else if has_prefix w ''AE'' then CHR ''E'' # drop 2 w
      else if has_prefix w ''WR'' then tl w
      else if has_prefix w ''PS'' then tl w
      else if has_prefix w ''X'' then CHR ''S'' # tl w
      else if has_prefix w ''WH'' then CHR ''W'' # drop 2 w
      else w)"

text \<open>What one position emits (\<open>no_char\<close> for nothing) and how many further positions it consumes.\<close>

definition metaphone_c :: "char \<Rightarrow> char \<Rightarrow> char \<Rightarrow> char \<times> nat" where
  "metaphone_c prev nxt nxt2 =
     (if nxt = CHR ''I'' \<and> nxt2 = CHR ''A'' then (CHR ''X'', 2)
      else if nxt = CHR ''H'' then (CHR ''X'', 1)
      else if prev = CHR ''S'' \<and> front_vowel nxt then (no_char, 0)
      else if front_vowel nxt then (CHR ''S'', 0)
      else (CHR ''K'', 0))"

definition metaphone_g :: "nat \<Rightarrow> nat \<Rightarrow> char \<Rightarrow> char \<Rightarrow> char \<Rightarrow> char \<times> nat" where
  "metaphone_g i n prev nxt nxt2 =
     (if i = n - 1 \<and> nxt = no_char then (if prev = CHR ''H'' then no_char else CHR ''K'', 0)
      else if nxt = CHR ''H'' then (if is_vowel nxt2 then CHR ''F'' else no_char, 1)
      else if nxt = CHR ''N'' \<and> i = 0 then (no_char, 0)
      else if front_vowel nxt then (CHR ''J'', 0)
      else (CHR ''K'', 0))"

definition metaphone_s :: "char \<Rightarrow> char \<Rightarrow> char \<times> nat" where
  "metaphone_s nxt nxt2 =
     (if nxt = CHR ''H'' then (CHR ''X'', 1)
      else if nxt = CHR ''I'' \<and> (nxt2 = CHR ''A'' \<or> nxt2 = CHR ''O'') then (CHR ''X'', 1)
      else if nxt = CHR ''C'' \<and> front_vowel nxt2 then (CHR ''X'', 2)
      else (CHR ''S'', 0))"

definition metaphone_t :: "char \<Rightarrow> char \<Rightarrow> char \<times> nat" where
  "metaphone_t nxt nxt2 =
     (if nxt = CHR ''I'' \<and> (nxt2 = CHR ''A'' \<or> nxt2 = CHR ''O'') then (CHR ''X'', 1)
      else if nxt = CHR ''H'' then (CHR ''0'', 1)
      else if nxt = CHR ''C'' \<and> nxt2 = CHR ''H'' then (CHR ''X'', 2)
      else (CHR ''T'', 0))"

definition metaphone_step :: "string \<Rightarrow> nat \<Rightarrow> char \<times> nat" where
  "metaphone_step w i =
     (let c = w ! i; n = length w;
          prev = (if 0 < i then w ! (i - 1) else no_char);
          nxt = letter_at w (i + 1); nxt2 = letter_at w (i + 2)
      in if is_vowel c then (if i = 0 then c else no_char, 0)
         else if c = CHR ''B'' then (if prev = CHR ''M'' \<and> i = n - 1 then no_char else CHR ''B'', 0)
         else if c = CHR ''C'' then metaphone_c prev nxt nxt2
         else if c = CHR ''D'' then
           (if nxt = CHR ''G'' \<and> front_vowel nxt2 then (CHR ''J'', 2) else (CHR ''T'', 0))
         else if c = CHR ''G'' then metaphone_g i n prev nxt nxt2
         else if c = CHR ''H'' then (if is_vowel prev \<and> \<not> is_vowel nxt then no_char else CHR ''H'', 0)
         else if c = CHR ''K'' then (if prev = CHR ''C'' then no_char else CHR ''K'', 0)
         else if c = CHR ''P'' then (if nxt = CHR ''H'' then (CHR ''F'', 1) else (CHR ''P'', 0))
         else if c = CHR ''Q'' then (CHR ''K'', 0)
         else if c = CHR ''S'' then metaphone_s nxt nxt2
         else if c = CHR ''T'' then metaphone_t nxt nxt2
         else if c = CHR ''V'' then (CHR ''F'', 0)
         else if c = CHR ''W'' \<or> c = CHR ''Y'' then (if i = 0 \<and> is_vowel nxt then c else no_char, 0)
         else if c = CHR ''X'' then (CHR ''K'', 0)
         else if c = CHR ''Z'' then (CHR ''S'', 0)
         else (c, 0))"

function metaphone_from :: "string \<Rightarrow> nat \<Rightarrow> string" where
  "metaphone_from w i =
     (if i < length w then
        (let (emit, skipped) = metaphone_step w i
         in (if emit \<noteq> no_char then [emit] else []) @ metaphone_from w (i + skipped + 1))
      else [])"
  by auto
termination
  by (relation "measure (\<lambda>(w, i). length w - i)") auto

declare metaphone_from.simps [simp del]

definition metaphone :: "string \<Rightarrow> string" where
  "metaphone word =
     (let w = filter is_upper (to_upper (trim_space word))
      in if w = [] then [] else metaphone_from (metaphone_start w) 0)"

definition metaphone_skill :: skill where
  "metaphone_skill =
     (base_skill ''metaphone'' ''Metaphone phonetic key (simplified consonant skeleton). Input: single word''
        [''metaphone'', ''metaphone key''])
       \<lparr>sk_match := (\<lambda>q. contains_str (to_lower q) ''metaphone''), sk_execute := encode_word metaphone\<rparr>"

text \<open>The comment of the function maps SCH to SK, SCE to S and X to KS; the code does none of these.\<close>

lemma metaphone_clusters:
  "metaphone ''School'' = ''SXL'' \<and> metaphone ''scene'' = ''XN'' \<and> metaphone ''fix'' = ''FK''"
  by code_simp

lemma metaphone_from_length: "length (metaphone_from w i) \<le> length w - i"
proof (induction w i rule: metaphone_from.induct)
  case (1 w i)
  show ?case
  proof (cases "i < length w")
    case True
    obtain e k where s: "metaphone_step w i = (e, k)" by (metis surj_pair)
    have "length (metaphone_from w (i + k + 1)) \<le> length w - (i + k + 1)" using "1.IH" [OF True s [symmetric] refl] by simp
    moreover have "metaphone_from w i = (if e \<noteq> no_char then [e] else []) @ metaphone_from w (i + k + 1)"
      using True s by (subst metaphone_from.simps) simp
    ultimately show ?thesis using True by auto
  qed (simp add: metaphone_from.simps)
qed

section \<open>Jaro and Jaro-Winkler\<close>

definition match_window :: "'a list \<Rightarrow> 'a list \<Rightarrow> nat" where
  "match_window r1 r2 = max (length r1) (length r2) div 2 - 1"

definition jaro_scan :: "'a list \<Rightarrow> 'a list \<Rightarrow> bool list \<times> bool list \<times> nat \<Rightarrow> nat \<Rightarrow> bool list \<times> bool list \<times> nat" where
  "jaro_scan r1 r2 st i =
     (case st of (m1, m2, n) \<Rightarrow>
        let w = match_window r1 r2
        in case find (\<lambda>j. \<not> m2 ! j \<and> r1 ! i = r2 ! j) [i - w..<min (i + w + 1) (length r2)] of
             None \<Rightarrow> (m1, m2, n)
           | Some j \<Rightarrow> (m1[i := True], m2[j := True], n + 1))"

definition jaro_matching :: "'a list \<Rightarrow> 'a list \<Rightarrow> bool list \<times> bool list \<times> nat" where
  "jaro_matching r1 r2 =
     foldl (jaro_scan r1 r2) (replicate (length r1) False, replicate (length r2) False, 0) [0..<length r1]"

text \<open>The second pass with its pointer \<open>k\<close> into the matched runes of the second text.\<close>

definition jaro_order :: "'a list \<Rightarrow> 'a list \<Rightarrow> bool list \<Rightarrow> bool list \<Rightarrow> nat \<times> nat \<Rightarrow> nat \<Rightarrow> nat \<times> nat" where
  "jaro_order r1 r2 m1 m2 kt i =
     (case kt of (k, t) \<Rightarrow>
        if \<not> m1 ! i then (k, t)
        else let k' = k + length (takeWhile Not (drop k m2))
             in (k' + 1, if r1 ! i \<noteq> r2 ! k' then t + 1 else t))"

definition jaro_transpositions :: "'a list \<Rightarrow> 'a list \<Rightarrow> bool list \<Rightarrow> bool list \<Rightarrow> nat" where
  "jaro_transpositions r1 r2 m1 m2 = snd (foldl (jaro_order r1 r2 m1 m2) (0, 0) [0..<length r1]) div 2"

definition jaro_runes :: "'a list \<Rightarrow> 'a list \<Rightarrow> rat" where
  "jaro_runes r1 r2 =
     (case jaro_matching r1 r2 of (m1, m2, n) \<Rightarrow>
        if n = 0 then 0
        else let m = rat_of_nat n; t = rat_of_nat (jaro_transpositions r1 r2 m1 m2)
             in (m / rat_of_nat (length r1) + m / rat_of_nat (length r2) + (m - t) / m) / 3)"

definition jaro :: "string \<Rightarrow> string \<Rightarrow> rat" where
  "jaro s1 s2 =
     (let r1 = runes s1; r2 = runes s2
      in if r1 = [] \<and> r2 = [] then 1
         else if r1 = [] \<or> r2 = [] then 0
         else if s1 = s2 then 1
         else jaro_runes r1 r2)"

fun common_prefix_count :: "'a list \<Rightarrow> 'a list \<Rightarrow> nat \<Rightarrow> nat" where
  "common_prefix_count (x # xs) (y # ys) (Suc k) = (if x = y then common_prefix_count xs ys k + 1 else 0)"
| "common_prefix_count xs ys k = 0"

definition jaro_winkler :: "string \<Rightarrow> string \<Rightarrow> rat" where
  "jaro_winkler s1 s2 =
     (let j = jaro s1 s2; p = common_prefix_count (runes s1) (runes s2) 4
      in j + rat_of_nat p * (1 / 10) * (1 - j))"

text \<open>Every match marks one rune of each text.\<close>

definition marks :: "bool list \<Rightarrow> nat" where
  "marks m = length (filter id m)"

lemma marks_le: "marks m \<le> length m"
  by (simp add: marks_def)

lemma marks_set: "i < length m \<Longrightarrow> \<not> m ! i \<Longrightarrow> marks (m[i := True]) = marks m + 1"
  by (induction m arbitrary: i) (auto simp: marks_def nth_Cons split: nat.splits)

definition jaro_inv :: "'a list \<Rightarrow> 'a list \<Rightarrow> nat \<Rightarrow> bool list \<times> bool list \<times> nat \<Rightarrow> bool" where
  "jaro_inv r1 r2 i st \<longleftrightarrow>
     (case st of (m1, m2, n) \<Rightarrow>
        length m1 = length r1 \<and> length m2 = length r2 \<and> marks m1 = n \<and> marks m2 = n \<and> (\<forall>k\<ge>i. k < length r1 \<longrightarrow> \<not> m1 ! k))"

lemma find_in: "find P xs = Some y \<Longrightarrow> y \<in> set xs \<and> P y"
  by (auto simp: find_Some_iff)

lemma jaro_scan_inv:
  assumes "jaro_inv r1 r2 i st" "i < length r1"
  shows "jaro_inv r1 r2 (Suc i) (jaro_scan r1 r2 st i)"
proof -
  obtain m1 m2 n where st: "st = (m1, m2, n)" by (metis prod_cases3)
  let ?w = "match_window r1 r2"
  let ?f = "find (\<lambda>j. \<not> m2 ! j \<and> r1 ! i = r2 ! j) [i - ?w..<min (i + ?w + 1) (length r2)]"
  show ?thesis
  proof (cases ?f)
    case None
    then have "jaro_scan r1 r2 st i = (m1, m2, n)" by (simp add: jaro_scan_def st Let_def)
    with assms st show ?thesis by (auto simp: jaro_inv_def)
  next
    case (Some j)
    then have j: "j < length r2" "\<not> m2 ! j" using find_in [OF Some] by auto
    have "jaro_scan r1 r2 st i = (m1[i := True], m2[j := True], n + 1)"
      using Some by (simp add: jaro_scan_def st Let_def)
    with assms st j show ?thesis by (auto simp: jaro_inv_def marks_set nth_list_update)
  qed
qed

lemma marks_none: "marks (replicate n False) = 0"
  by (induction n) (auto simp: marks_def)

lemma jaro_matching_inv: "jaro_inv r1 r2 (length r1) (jaro_matching r1 r2)"
proof -
  have "jaro_inv r1 r2 k (foldl (jaro_scan r1 r2) (replicate (length r1) False, replicate (length r2) False, 0) [0..<k])"
    if "k \<le> length r1" for k
    using that
  proof (induction k)
    case 0
    then show ?case by (simp add: jaro_inv_def marks_none)
  next
    case (Suc k)
    then show ?case using jaro_scan_inv [of r1 r2 k] by simp
  qed
  then show ?thesis by (simp add: jaro_matching_def)
qed

text \<open>The second pass: the matches behind the pointer and those already counted make up all matches, so the pointer
  stays inside the second text.\<close>

lemma marks_drop_while:
  "0 < marks m \<Longrightarrow>
   length (takeWhile Not m) < length m \<and> marks (drop (Suc (length (takeWhile Not m))) m) = marks m - 1"
proof (induction m)
  case (Cons x m)
  then show ?case by (cases x) (auto simp: marks_def)
qed (simp add: marks_def)

lemma marks_take_Suc: "i < length m \<Longrightarrow> marks (take (Suc i) m) = marks (take i m) + (if m ! i then 1 else 0)"
  by (simp add: marks_def take_Suc_conv_app_nth)

lemma marks_take_le: "marks (take i m) \<le> marks m"
  by (metis append_take_drop_id filter_append le_add1 length_append marks_def)

lemma jaro_order_run:
  assumes "marks m1 = marks m2" "i \<le> length m1" "foldl (jaro_order r1 r2 m1 m2) (0, 0) [0..<i] = (k, t)"
  shows "marks (drop k m2) + marks (take i m1) = marks m2 \<and> t \<le> marks (take i m1)"
  using assms(2,3)
proof (induction i arbitrary: k t)
  case 0
  then show ?case by (simp add: marks_def)
next
  case (Suc i)
  obtain k0 t0 where r: "foldl (jaro_order r1 r2 m1 m2) (0, 0) [0..<i] = (k0, t0)" by (metis surj_pair)
  then have ih: "marks (drop k0 m2) + marks (take i m1) = marks m2" "t0 \<le> marks (take i m1)"
    using Suc.IH [OF _ r] Suc.prems(1) by auto
  have step: "jaro_order r1 r2 m1 m2 (k0, t0) i = (k, t)" using Suc.prems(2) r by simp
  show ?case
  proof (cases "m1 ! i")
    case False
    with step ih Suc.prems(1) show ?thesis by (simp add: jaro_order_def marks_take_Suc)
  next
    case True
    have "marks (take (Suc i) m1) \<le> marks m1" by (rule marks_take_le)
    then have pos: "0 < marks (drop k0 m2)" using True Suc.prems(1) ih(1) assms(1) by (simp add: marks_take_Suc)
    let ?k = "k0 + length (takeWhile Not (drop k0 m2))"
    have "marks (drop (Suc ?k) m2) = marks (drop k0 m2) - 1"
      using marks_drop_while [OF pos] by (simp add: add.commute)
    moreover have "k = Suc ?k" "t \<le> t0 + 1" using step True by (auto simp: jaro_order_def Let_def split: if_splits)
    ultimately show ?thesis using True Suc.prems(1) ih pos by (simp add: marks_take_Suc)
  qed
qed

lemma jaro_pointer_in_range:
  assumes "jaro_matching r1 r2 = (m1, m2, n)" "i < length r1" "m1 ! i"
    and "foldl (jaro_order r1 r2 m1 m2) (0, 0) [0..<i] = (k, t)"
  shows "k + length (takeWhile Not (drop k m2)) < length r2"
proof -
  have inv: "length m1 = length r1" "length m2 = length r2" "marks m1 = marks m2"
    using jaro_matching_inv [of r1 r2] assms(1) by (auto simp: jaro_inv_def)
  have "marks (drop k m2) + marks (take i m1) = marks m2"
    using jaro_order_run [OF inv(3) _ assms(4)] assms(2) inv(1) by simp
  moreover have "marks (take (Suc i) m1) \<le> marks m1" by (rule marks_take_le)
  ultimately have "0 < marks (drop k m2)" using assms(2,3) inv by (simp add: marks_take_Suc)
  then have "length (takeWhile Not (drop k m2)) < length (drop k m2)" using marks_drop_while by blast
  then show ?thesis using inv(2) by simp
qed

lemma mean_of_three:
  "0 \<le> x \<and> x \<le> 1 \<Longrightarrow> 0 \<le> y \<and> y \<le> 1 \<Longrightarrow> 0 \<le> z \<and> z \<le> 1 \<Longrightarrow>
     0 \<le> (x + y + z) / 3 \<and> (x + y + z) / 3 \<le> (1::rat)"
  by auto

lemma jaro_runes_bounds: "r1 \<noteq> [] \<Longrightarrow> r2 \<noteq> [] \<Longrightarrow> 0 \<le> jaro_runes r1 r2 \<and> jaro_runes r1 r2 \<le> 1"
proof -
  assume ne: "r1 \<noteq> []" "r2 \<noteq> []"
  obtain m1 m2 n where m: "jaro_matching r1 r2 = (m1, m2, n)" by (metis prod_cases3)
  have inv: "length m1 = length r1" "length m2 = length r2" "marks m1 = n" "marks m2 = n"
    using jaro_matching_inv [of r1 r2] m by (auto simp: jaro_inv_def)
  let ?t = "jaro_transpositions r1 r2 m1 m2"
  obtain k t where kt: "foldl (jaro_order r1 r2 m1 m2) (0, 0) [0..<length r1] = (k, t)" by (metis surj_pair)
  have "t \<le> n" using jaro_order_run [of m1 m2 "length r1" r1 r2 k t] inv kt marks_take_le [of "length r1" m1] by simp
  then have t: "?t \<le> n" using kt by (simp add: jaro_transpositions_def)
  have n: "n \<le> length r1" "n \<le> length r2" using inv marks_le [of m1] marks_le [of m2] by auto
  have frac: "0 \<le> rat_of_nat n / rat_of_nat l \<and> rat_of_nat n / rat_of_nat l \<le> 1" if "n \<le> l" "0 < l" for l
    using that by simp
  show ?thesis
  proof (cases "n = 0")
    case False
    let ?x = "rat_of_nat n / rat_of_nat (length r1)" and ?y = "rat_of_nat n / rat_of_nat (length r2)"
      and ?z = "(rat_of_nat n - rat_of_nat ?t) / rat_of_nat n"
    have "0 \<le> ?x \<and> ?x \<le> 1" "0 \<le> ?y \<and> ?y \<le> 1" using frac n ne by auto
    moreover have "0 \<le> ?z \<and> ?z \<le> 1" using t False by (simp add: field_simps)
    ultimately have "0 \<le> (?x + ?y + ?z) / 3 \<and> (?x + ?y + ?z) / 3 \<le> 1" by (rule mean_of_three)
    then show ?thesis using m False by (simp add: jaro_runes_def Let_def)
  qed (simp add: jaro_runes_def m)
qed

lemma jaro_bounds: "0 \<le> jaro s1 s2 \<and> jaro s1 s2 \<le> 1"
  using jaro_runes_bounds by (auto simp: jaro_def Let_def)

lemma common_prefix_count_le: "common_prefix_count xs ys k \<le> k"
  by (induction xs ys k rule: common_prefix_count.induct) auto

lemma jaro_winkler_bounds: "jaro s1 s2 \<le> jaro_winkler s1 s2 \<and> jaro_winkler s1 s2 \<le> 1"
proof -
  let ?j = "jaro s1 s2" and ?p = "rat_of_nat (common_prefix_count (runes s1) (runes s2) 4)"
  have p: "0 \<le> ?p" "?p \<le> 4" using common_prefix_count_le [of "runes s1" "runes s2" 4] by auto
  have j: "0 \<le> 1 - ?j" using jaro_bounds [of s1 s2] by simp
  have "0 \<le> ?p * (1 / 10) * (1 - ?j)" using p j by simp
  moreover have "?p * (1 / 10) * (1 - ?j) \<le> 1 * (1 - ?j)" using p j by (intro mult_right_mono) auto
  ultimately show ?thesis by (simp add: jaro_winkler_def Let_def)
qed

section \<open>The skills on two texts\<close>

text \<open>A pair of operands or one of the two error texts.\<close>

definition two_operands :: "string \<Rightarrow> string \<Rightarrow> string + (string \<times> string)" where
  "two_operands usage q =
     (let payload = extract_payload q
      in if payload = [] then Inl usage
         else case split_pair payload of
           None \<Rightarrow> Inl (''expected two strings separated by ',' or '|'' @ [CHR 0x27])
         | Some ab \<Rightarrow> Inr ab)"

definition on_pair :: "string \<Rightarrow> (string \<Rightarrow> string \<Rightarrow> string + string) \<Rightarrow> string \<Rightarrow> string + string" where
  "on_pair usage f q = (case two_operands usage q of Inl e \<Rightarrow> Inl e | Inr (a, b) \<Rightarrow> f a b)"

text \<open>\<open>formatFloat3\<close>: clamped, then printed with three decimals.\<close>

definition format_float3 :: "(rat \<Rightarrow> string) \<Rightarrow> rat \<Rightarrow> string" where
  "format_float3 print v = (let v = (if v < 0 then 0 else v) in print (if v > 1 then 1 else v))"

definition jaro_match :: "string \<Rightarrow> bool" where
  "jaro_match q \<longleftrightarrow> (let low = to_lower q in \<not> any_in low [''jaro-winkler'', ''jaro_winkler''] \<and> contains_str low ''jaro'')"

definition jaro_skill :: "(rat \<Rightarrow> string) \<Rightarrow> skill" where
  "jaro_skill print =
     (base_skill ''jaro'' (''Jaro similarity (0.0-1.0) between two strings. Input: 'jaro: s1, s2' or 's1 | s2'' @ [CHR 0x27])
        [''jaro similarity'', ''jaro distance''])
       \<lparr>sk_match := jaro_match,
        sk_execute := on_pair (''expected two strings: 'jaro: s1, s2'' @ [CHR 0x27]) (\<lambda>a b. Inr (format_float3 print (jaro a b)))\<rparr>"

definition jaro_winkler_skill :: "(rat \<Rightarrow> string) \<Rightarrow> skill" where
  "jaro_winkler_skill print =
     (base_skill ''jaro_winkler''
        (''Jaro-Winkler similarity (with prefix bonus) between two strings. Input: 'jaro_winkler: s1, s2'' @ [CHR 0x27])
        [''jaro-winkler'', ''jaro_winkler''])
       \<lparr>sk_match := (\<lambda>q. any_in (to_lower q) [''jaro-winkler'', ''jaro_winkler'']),
        sk_execute := on_pair (''expected two strings: 'jaro_winkler: s1, s2'' @ [CHR 0x27])
          (\<lambda>a b. Inr (format_float3 print (jaro_winkler a b)))\<rparr>"

definition hamming_distance :: "string \<Rightarrow> string \<Rightarrow> int" where
  "hamming_distance a b =
     (let ra = runes a; rb = runes b
      in if length ra \<noteq> length rb then -1 else int (length (filter (\<lambda>(x, y). x \<noteq> y) (zip ra rb))))"

definition hamming_text :: "string \<Rightarrow> string \<Rightarrow> string + string" where
  "hamming_text a b =
     (if length (runes a) \<noteq> length (runes b) then
        Inl (''hamming distance requires equal-length strings (got '' @ itoa (int (length (runes a))) @ '' vs '' @
             itoa (int (length (runes b))) @ '')'')
      else Inr (itoa (hamming_distance a b)))"

definition hamming_skill :: skill where
  "hamming_skill =
     (base_skill ''hamming_distance'' (''Hamming distance between two equal-length strings. Input: 'hamming: s1, s2'' @ [CHR 0x27])
        [''hamming distance'', ''hamming''])
       \<lparr>sk_match := (\<lambda>q. contains_str (to_lower q) ''hamming''),
        sk_execute := on_pair (''expected two equal-length strings: 'hamming: s1, s2'' @ [CHR 0x27]) hamming_text\<rparr>"

definition lcs_match :: "string \<Rightarrow> bool" where
  "lcs_match q \<longleftrightarrow>
     (let low = to_lower q
      in \<not> any_in low [''lcs substring'', ''lcs_substr'', ''longest common substring''] \<and>
         any_in low [''longest common subsequence'', ''lcs '', ''lcs:'', ''lcs of'', ''lcs between''])"

definition part_text :: "string \<Rightarrow> nat list \<times> nat \<Rightarrow> string" where
  "part_text kind r =
     (case r of (sub, n) \<Rightarrow>
        if of_runes sub = [] then ''length: 0'' @ nl @ kind @ '': (none)''
        else ''length: '' @ itoa (int n) @ nl @ kind @ '': '' @ of_runes sub)"

definition lcs_skill :: skill where
  "lcs_skill =
     (base_skill ''lcs'' (''Longest common subsequence (length + the actual subsequence). Input: 'lcs: s1, s2'' @ [CHR 0x27])
        [''lcs'', ''longest common subsequence''])
       \<lparr>sk_match := lcs_match,
        sk_execute := on_pair (''expected two strings: 'lcs: s1, s2'' @ [CHR 0x27])
          (\<lambda>a b. Inr (part_text ''subsequence'' (longest_common_subsequence (runes a) (runes b))))\<rparr>"

definition lcs_substr_skill :: skill where
  "lcs_substr_skill =
     (base_skill ''lcs_substr'' (''Longest common substring (length + actual substring). Input: 'lcs_substr: s1, s2'' @ [CHR 0x27])
        [''lcs substring'', ''lcs_substr'', ''longest common substring''])
       \<lparr>sk_match := (\<lambda>q. any_in (to_lower q)
          [''lcs substring'', ''lcs_substr'', ''longest common substring'', ''longest substring'', ''common substring'']),
        sk_execute := on_pair (''expected two strings: 'lcs_substr: s1, s2'' @ [CHR 0x27])
          (\<lambda>a b. Inr (part_text ''substring'' (longest_common_substring (runes a) (runes b))))\<rparr>"

definition ratcliff_obershelp :: "string \<Rightarrow> string \<Rightarrow> rat" where
  "ratcliff_obershelp s1 s2 =
     (let r1 = runes s1; r2 = runes s2
      in if r1 = [] \<and> r2 = [] then 1
         else if r1 = [] \<or> r2 = [] then 0
         else 2 * rat_of_nat (ratcliff_matches r1 r2) / rat_of_nat (length r1 + length r2))"

definition ratcliff_skill :: "(rat \<Rightarrow> string) \<Rightarrow> skill" where
  "ratcliff_skill print =
     (base_skill ''ratcliff_obershelp''
        (''Ratcliff-Obershelp similarity (0.0-1.0) between two strings. Input: 'ratcliff: s1, s2'' @ [CHR 0x27])
        [''ratcliff'', ''obershelp'', ''ratcliff obershelp''])
       \<lparr>sk_match := (\<lambda>q. any_in (to_lower q) [''ratcliff'', ''obershelp'']),
        sk_execute := on_pair (''expected two strings: 'ratcliff: s1, s2'' @ [CHR 0x27])
          (\<lambda>a b. Inr (format_float3 print (ratcliff_obershelp a b)))\<rparr>"

section \<open>n-grams\<close>

definition ngrams :: "nat list \<Rightarrow> int \<Rightarrow> string list" where
  "ngrams r n =
     (if n \<le> 0 \<or> int (length r) < n then []
      else map (\<lambda>i. of_runes (take (nat n) (drop i r))) [0..<length r - nat n + 1])"

text \<open>Blank characters of a regular expression; the white space of \<open>strings.Fields\<close> has the vertical tab as well.\<close>

definition re_space :: "char \<Rightarrow> bool" where
  "re_space c \<longleftrightarrow> byte c \<in> {9, 10, 12, 13, 32}"

definition gram_separator :: "char \<Rightarrow> bool" where
  "gram_separator c \<longleftrightarrow> re_space c \<or> c = CHR ''_'' \<or> c = CHR ''-''"

text \<open>\<open>Atoi\<close> on digits with the error ignored: a value out of range is the largest integer.\<close>

definition digits_value :: "string \<Rightarrow> int" where
  "digits_value ds = min (int (dec_value ds)) 9223372036854775807"

definition after_gram :: "string \<Rightarrow> string option" where
  "after_gram low =
     (let low' = (case low of c # cs \<Rightarrow> if gram_separator c then cs else low | [] \<Rightarrow> low)
      in if has_prefix low' ''gram'' then Some (drop 4 low') else None)"

text \<open>The digits in front of the colon of \<open>ngram N:\<close>, \<open>None\<close> when the expression does not match, the empty list when
  there are none.\<close>

definition ngram_size_group :: "string \<Rightarrow> string option" where
  "ngram_size_group q =
     (case to_lower q of
        [] \<Rightarrow> None
      | c # cs \<Rightarrow>
          if c \<noteq> CHR ''n'' then None
          else (case after_gram cs of
              None \<Rightarrow> None
            | Some rest \<Rightarrow>
                let rest1 = dropWhile re_space rest; ds = takeWhile is_digit rest1;
                    rest2 = dropWhile re_space (dropWhile is_digit rest1)
                in if has_prefix rest2 '':'' then Some ds else None))"

definition parse_ngram_size :: "string \<Rightarrow> int" where
  "parse_ngram_size q =
     (case ngram_size_group q of
        Some (d # ds) \<Rightarrow> digits_value (d # ds)
      | _ \<Rightarrow>
          let ds = takeWhile is_digit q
          in if ds \<noteq> [] \<and> after_gram (to_lower (dropWhile is_digit q)) \<noteq> None then digits_value ds else 0)"

definition ngram_input :: "string \<Rightarrow> string + (int \<times> string list)" where
  "ngram_input q =
     (let n0 = parse_ngram_size q; n = (if n0 \<le> 0 then 2 else n0); payload = extract_payload_strict q
      in if payload = [] then Inl ''no text to generate n-grams from''
         else let grams = ngrams (runes payload) n
              in if grams = [] then Inl (''text is shorter than n='' @ itoa n) else Inr (n, grams))"

definition ngram_execute :: "string \<Rightarrow> string + string" where
  "ngram_execute q =
     (case ngram_input q of
        Inl e \<Rightarrow> Inl e
      | Inr (n, grams) \<Rightarrow>
          Inr (''n='' @ itoa n @ '', count='' @ itoa (int (length grams)) @ nl @ join '', '' grams))"

definition ngram_match :: "string \<Rightarrow> bool" where
  "ngram_match q \<longleftrightarrow>
     (let low = to_lower q
      in \<not> any_in low [''ngram frequency'', ''n-gram frequency'', ''ngram_frequency''] \<and> any_in low [''ngram'', ''n-gram''])"

definition ngram_skill :: skill where
  "ngram_skill =
     (base_skill ''ngram'' ''Generate n-grams of given size. Usage: 'ngram 3: hello world' (default n=2)''
        [''ngram'', ''n-gram''])\<lparr>sk_match := ngram_match, sk_execute := ngram_execute\<rparr>"

text \<open>The frequency table: more frequent grams first, equally frequent ones in the order of their bytes.\<close>

definition gram_before :: "string \<times> nat \<Rightarrow> string \<times> nat \<Rightarrow> bool" where
  "gram_before e f \<longleftrightarrow> (if snd e \<noteq> snd f then snd e > snd f else fst e < fst f)"

fun insert_gram :: "string \<times> nat \<Rightarrow> (string \<times> nat) list \<Rightarrow> (string \<times> nat) list" where
  "insert_gram e [] = [e]"
| "insert_gram e (f # fs) = (if gram_before e f then e # f # fs else f # insert_gram e fs)"

definition gram_table :: "string list \<Rightarrow> (string \<times> nat) list" where
  "gram_table grams = foldr insert_gram (map (\<lambda>g. (g, count_list grams g)) (remdups grams)) []"

definition ngram_frequency_execute :: "string \<Rightarrow> string + string" where
  "ngram_frequency_execute q =
     (case ngram_input q of
        Inl e \<Rightarrow> Inl e
      | Inr (n, grams) \<Rightarrow>
          let entries = gram_table grams
          in Inr (rev (dropWhile (\<lambda>c. c = CHR 0x0A) (rev
               (''n='' @ itoa n @ '', unique='' @ itoa (int (length entries)) @ '', total='' @
                itoa (int (length grams)) @ nl @
                concat (map (\<lambda>(g, c). g @ '': '' @ itoa (int c) @ nl) entries))))))"

definition ngram_frequency_skill :: skill where
  "ngram_frequency_skill =
     (base_skill ''ngram_frequency'' (''Frequency table of n-grams (sorted desc). Usage: 'ngram_frequency 3: hello world'' @ [CHR 0x27])
        [''ngram frequency'', ''n-gram frequency'', ''ngram_frequency''])
       \<lparr>sk_match := (\<lambda>q. any_in (to_lower q) [''ngram frequency'', ''n-gram frequency'', ''ngram_frequency'']),
        sk_execute := ngram_frequency_execute\<rparr>"

lemma insert_gram_set: "set (insert_gram e fs) = insert e (set fs)"
  by (induction fs) auto

lemma insert_gram_length: "length (insert_gram e fs) = length fs + 1"
  by (induction fs) auto

lemma gram_table_set: "set (gram_table grams) = (\<lambda>g. (g, count_list grams g)) ` set grams"
proof -
  have "set (foldr insert_gram es []) = set es" for es
    by (induction es) (auto simp: insert_gram_set)
  then show ?thesis by (simp add: gram_table_def)
qed

text \<open>The table names every gram once with its count, and the counts are never increasing.\<close>

lemma insert_gram_sorted:
  "sorted_wrt (\<lambda>e f. snd e \<ge> snd f) fs \<Longrightarrow> sorted_wrt (\<lambda>e f. snd e \<ge> snd f) (insert_gram e fs)"
  by (induction fs) (fastforce simp: insert_gram_set gram_before_def split: if_splits)+

lemma gram_table_sorted: "sorted_wrt (\<lambda>e f. snd e \<ge> snd f) (gram_table grams)"
proof -
  have "sorted_wrt (\<lambda>e f. snd e \<ge> snd f) (foldr insert_gram es [])" for es
    by (induction es) (simp_all add: insert_gram_sorted)
  then show ?thesis by (simp add: gram_table_def)
qed

text \<open>On ASCII texts the grams are the windows of the text.\<close>

lemma ngrams_ascii:
  assumes "\<forall>c\<in>set s. byte c < 128" "0 < n" "n \<le> length s"
  shows "ngrams (runes s) (int n) = map (\<lambda>i. take n (drop i s)) [0..<length s - n + 1]"
proof -
  have "of_runes (take n (drop i (map byte s))) = take n (drop i s)" for i
    using assms(1) of_runes_bytes [of "take n (drop i s)"]
    by (auto simp: take_map drop_map dest!: in_set_takeD in_set_dropD)
  then show ?thesis using assms by (simp add: ngrams_def runes_ascii)
qed

text \<open>The size in \<open>ngram_frequency 3:\<close>, the form its own description gives, is not read: the expression wants the colon
  right behind the word gram.\<close>

lemma ngram_frequency_ignores_size:
  "parse_ngram_size ''ngram_frequency 3: banana'' = 0 \<and> parse_ngram_size ''ngram 3: banana'' = 3"
  by code_simp

text \<open>What the two skills for common parts print is right: the subsequence is common to both texts and no common
  subsequence is longer, the substring is common to both and no common substring is longer.\<close>

lemma common_parts_are_longest:
  "(case longest_common_subsequence (runes a) (runes b) of (zs, n) \<Rightarrow>
      subseq zs (runes a) \<and> subseq zs (runes b) \<and> length zs = n \<and>
      (\<forall>ts. subseq ts (runes a) \<longrightarrow> subseq ts (runes b) \<longrightarrow> length ts \<le> n) \<and> runes (of_runes zs) = zs) \<and>
   (case longest_common_substring (runes a) (runes b) of (zs, n) \<Rightarrow>
      sublist zs (runes a) \<and> sublist zs (runes b) \<and> length zs = n \<and>
      (\<forall>ts. sublist ts (runes a) \<longrightarrow> sublist ts (runes b) \<longrightarrow> length ts \<le> n) \<and> runes (of_runes zs) = zs)"
proof -
  have printed: "runes (of_runes zs) = zs" if "set zs \<subseteq> set (runes a)" for zs
    using that runes_valid [of _ a] by (intro runes_of_valid) blast
  obtain us m where u: "longest_common_subsequence (runes a) (runes b) = (us, m)" by (metis surj_pair)
  obtain vs n where v: "longest_common_substring (runes a) (runes b) = (vs, n)" by (metis surj_pair)
  note cu = longest_common_subsequence_correct [OF u] and cv = longest_common_substring_correct [OF v]
  have "set us \<subseteq> set (runes a)" using cu list_emb_set [of "(=)" us "runes a"] by auto
  moreover have "set vs \<subseteq> set (runes a)" using cv by (auto dest: set_mono_sublist)
  ultimately show ?thesis using u v cu cv lcs_len_upper printed by auto
qed

lemma common_parts_are_longest_witness:
  "length ''ring'' \<le> snd (longest_common_substring (runes ''string'') (runes ''earring''))"
proof -
  have "runes ''string'' = map byte ''string''" "runes ''earring'' = map byte ''earring''" 
    by (simp_all add: runes_ascii byte_def)
  moreover have "sublist (map byte ''ring'') (map byte ''string'')" "sublist (map byte ''ring'') (map byte ''earring'')"
    by (simp_all add: sublist_code)
  ultimately show ?thesis
    using common_parts_are_longest [of "''string''" "''earring''"] by (fastforce split: prod.splits)
qed

text \<open>All three similarities of two texts lie between 0 and 1, so the clamp before printing never changes them; equal
  texts get 1, and the Winkler bonus never lowers the Jaro value.\<close>

lemma similarities_in_unit_interval:
  "0 \<le> jaro a b \<and> jaro a b \<le> jaro_winkler a b \<and> jaro_winkler a b \<le> 1 \<and>
   0 \<le> ratcliff_obershelp a b \<and> ratcliff_obershelp a b \<le> 1 \<and>
   format_float3 print (jaro_winkler a b) = print (jaro_winkler a b) \<and>
   jaro a a = 1 \<and> jaro_winkler a a = 1 \<and> ratcliff_obershelp a a = 1"
proof -
  have j: "0 \<le> jaro a b" "jaro a b \<le> jaro_winkler a b" "jaro_winkler a b \<le> 1"
    using jaro_bounds [of a b] jaro_winkler_bounds [of a b] by auto
  then have "format_float3 print (jaro_winkler a b) = print (jaro_winkler a b)"
    by (auto simp: format_float3_def Let_def)
  moreover have "0 \<le> ratcliff_obershelp a b \<and> ratcliff_obershelp a b \<le> 1"
  proof -
    let ?m = "ratcliff_matches (runes a) (runes b)"
    have "2 * ?m \<le> length (runes a) + length (runes b)" using ratcliff_bound [of "runes a" "runes b"] by linarith
    then have "2 * rat_of_nat ?m \<le> rat_of_nat (length (runes a) + length (runes b))"
      by (metis of_nat_le_iff of_nat_mult of_nat_numeral)
    then show ?thesis by (auto simp: ratcliff_obershelp_def Let_def divide_le_eq)
  qed
  moreover have "jaro a a = 1" by (simp add: jaro_def Let_def)
  moreover from this have "jaro_winkler a a = 1" by (simp add: jaro_winkler_def Let_def)
  moreover have "ratcliff_obershelp a a = 1"
    by (auto simp: ratcliff_obershelp_def Let_def ratcliff_same simp del: of_nat_add)
  ultimately show ?thesis using j by blast
qed

end
