(* ===== verification/Skill_Sequences.thy ===== *)
theory Skill_Sequences
  imports Skill_Strings
begin

text \<open>
  The number-sequence skills (\<open>internal/skill/builtin/sequences.go\<close>): ranges, Fibonacci numbers, arithmetic and geometric
  progressions, the sieve and the Collatz sequence. Go's \<open>int\<close> has 64 bits, so the counter of a range is wrapped
  explicitly; the numbers of \<open>math/big\<close> are unbounded. Errors are a datatype; \<open>err_text\<close>, which prints them, is a parameter
  of the skills. The caps on the number of terms (\<open>sequence_max_count\<close>, \<open>collatz_max_steps\<close>) are those of the code, and the
  loops they bound recurse on them.
\<close>

datatype sequence_error = EmptyInteger | InvalidInteger string | NoInteger string | RangeNeedsTwo | ZeroStep
  | EmptyRange int int int | NeedsCount | CountError sequence_error | CountNotPositive | NeedsParams string
  | NeedsThree string | Missing string | NeedsBound | NoPrimesBelowTwo | NoPrimes nat
  | NeedsStart | StartError sequence_error | StartNotPositive | TooManySteps

definition sequence_max_count :: nat where
  "sequence_max_count = 1000"

definition line_break_threshold :: nat where
  "line_break_threshold = 20"

definition format_sequence :: "string list \<Rightarrow> string" where
  "format_sequence terms =
     (if terms = [] then [] else join (if length terms > line_break_threshold then nl else '' '') terms)"

definition parse_int_strict :: "string \<Rightarrow> sequence_error + int" where
  "parse_int_strict s0 =
     (let s = trim_space s0
      in if s = [] then Inl EmptyInteger
         else case go_atoi s of None \<Rightarrow> Inl (InvalidInteger s) | Some n \<Rightarrow> Inr n)"

definition wrap64 :: "int \<Rightarrow> int" where
  "wrap64 i = (i + 2 ^ 63) mod 2 ^ 64 - 2 ^ 63"

definition int_token :: "string \<Rightarrow> int option" where
  "int_token f = map_option (\<lambda>n. if has_prefix f ''-'' then wrap64 (- n) else n) (go_atoi (trim_prefix f ''-''))"

definition pick_first_int :: "string \<Rightarrow> sequence_error + int" where
  "pick_first_int s =
     (case first_some int_token (fields_func (\<lambda>c. \<not> is_digit c \<and> c \<noteq> CHR ''-'') s) of
        None \<Rightarrow> Inl (NoInteger s)
      | Some n \<Rightarrow> Inr n)"

section \<open>Ranges\<close>

definition range_match :: "string \<Rightarrow> bool" where
  "range_match q \<longleftrightarrow>
     (let low = to_lower q
      in contains_str low ''generate range'' \<or> contains_str low ''range from'' \<or> contains_str low ''number range'' \<or>
         (case str_index low ''range'' of
            None \<Rightarrow> False
          | Some i \<Rightarrow>
              let rest = drop (i + 5) low
              in rest \<noteq> [] \<and> (hd rest = CHR '':'' \<or> hd rest = CHR '' '') \<and> list_ex is_digit rest))"

definition range_verbs :: "string list" where
  "range_verbs = [''generate range from'', ''range from'', ''generate range'', ''number range'', ''range'']"

definition list_separator :: "char \<Rightarrow> bool" where
  "list_separator c \<longleftrightarrow> c = CHR '' '' \<or> byte c = 9 \<or> c = CHR '','' \<or> c = CHR '';''"

definition range_fields :: "string \<Rightarrow> string list" where
  "range_fields q =
     (let payload = strip_first range_verbs (trim_space (extract_payload q))
      in fields_func list_separator (replace_all (replace_all payload '' to '' '' '') '' from '' '' ''))"

text \<open>The loop of either direction: \<open>cap\<close> is what is left of the maximal number of terms.\<close>

fun range_loop :: "(int \<Rightarrow> bool) \<Rightarrow> int \<Rightarrow> nat \<Rightarrow> int \<Rightarrow> int list" where
  "range_loop go step 0 n = []"
| "range_loop go step (Suc cap) n = (if go n then n # range_loop go step cap (wrap64 (n + step)) else [])"

definition range_terms :: "int \<Rightarrow> int \<Rightarrow> int \<Rightarrow> int list" where
  "range_terms start stop step =
     range_loop (\<lambda>n. if 0 < step then n \<le> stop else n \<ge> stop) step sequence_max_count start"

definition range_execute :: "string \<Rightarrow> sequence_error + string" where
  "range_execute q =
     (case range_fields q of
        f0 # f1 # fs \<Rightarrow>
          (case (parse_int_strict f0, parse_int_strict f1, case fs of [] \<Rightarrow> Inr 1 | f2 # _ \<Rightarrow> parse_int_strict f2) of
             (Inl e, _, _) \<Rightarrow> Inl e
           | (_, Inl e, _) \<Rightarrow> Inl e
           | (_, _, Inl e) \<Rightarrow> Inl e
           | (Inr start, Inr stop, Inr step) \<Rightarrow>
               if step = 0 then Inl ZeroStep
               else let terms = range_terms start stop step
                    in if terms = [] then Inl (EmptyRange start stop step) else Inr (format_sequence (map itoa terms)))
      | _ \<Rightarrow> Inl RangeNeedsTwo)"

text \<open>As long as the counter stays in range the terms are those of the progression up to the bound.\<close>

lemma wrap64_id: "- (2 ^ 63) \<le> i \<Longrightarrow> i < 2 ^ 63 \<Longrightarrow> wrap64 i = i"
  by (simp add: wrap64_def)

lemma range_loop_up:
  assumes "0 < step" "- (2 ^ 63) \<le> n" "stop + step < 2 ^ 63"
  shows "range_loop (\<lambda>n. n \<le> stop) step cap n =
    map (\<lambda>k. n + int k * step) [0..<min cap (if n \<le> stop then nat ((stop - n) div step) + 1 else 0)]"
  using assms(2)
proof (induction cap arbitrary: n)
  case (Suc cap)
  show ?case
  proof (cases "n \<le> stop")
    case True
    have w: "wrap64 (n + step) = n + step" using Suc.prems True assms by (intro wrap64_id) auto
    let ?m = "\<lambda>n. if n \<le> stop then nat ((stop - n) div step) + 1 else 0"
    have m: "?m n = Suc (?m (n + step))"
    proof (cases "n + step \<le> stop")
      case le: True
      have "(stop - n) div step = (stop - (n + step)) div step + 1"
        using assms(1) by (metis add.commute add_diff_cancel_left' diff_add_eq_diff_diff_swap div_add_self2 less_irrefl
            diff_diff_eq2 uminus_add_conv_diff add_diff_eq)
      moreover have "0 \<le> (stop - (n + step)) div step" using le assms(1) by (simp add: pos_imp_zdiv_nonneg_iff)
      ultimately show ?thesis using True le by (simp add: nat_add_distrib)
    next
      case gt: False
      then have "(stop - n) div step = 0" using True assms(1) by (intro div_pos_pos_trivial) auto
      with True gt show ?thesis by simp
    qed
    have "range_loop (\<lambda>n. n \<le> stop) step (Suc cap) n = n # range_loop (\<lambda>n. n \<le> stop) step cap (n + step)"
      using True w by simp
    also have "range_loop (\<lambda>n. n \<le> stop) step cap (n + step) =
        map (\<lambda>k. n + step + int k * step) [0..<min cap (?m (n + step))]"
      by (rule Suc.IH) (use Suc.prems assms(1) in linarith)
    also have "n # map (\<lambda>k. n + step + int k * step) [0..<min cap (?m (n + step))] =
        map (\<lambda>k. n + int k * step) [0..<Suc (min cap (?m (n + step)))]"
      by (simp add: upt_conv_Cons map_Suc_upt [symmetric] comp_def algebra_simps del: upt_Suc)
    finally show ?thesis unfolding m by simp
  qed simp
qed simp

text \<open>At the top of the 64-bit range the counter wraps to the smallest integer and the range goes on there.\<close>

lemma range_overflows:
  "take 3 (range_terms (2 ^ 63 - 2) (2 ^ 63 - 1) 1) = [2 ^ 63 - 2, 2 ^ 63 - 1, - (2 ^ 63)]"
  by (simp add: range_terms_def sequence_max_count_def wrap64_def eval_nat_numeral)


definition sequence_skill :: "(sequence_error \<Rightarrow> string) \<Rightarrow> skill \<Rightarrow> (string \<Rightarrow> bool) \<Rightarrow>
    (string \<Rightarrow> sequence_error + string) \<Rightarrow> skill" where
  "sequence_skill err_text sk m ex =
     sk\<lparr>sk_match := m, sk_execute := (\<lambda>q. case ex q of Inl e \<Rightarrow> Inl (err_text e) | Inr out \<Rightarrow> Inr out)\<rparr>"

definition range_skill :: "(sequence_error \<Rightarrow> string) \<Rightarrow> skill" where
  "range_skill err_text = sequence_skill err_text
     (base_skill ''range'' ''Generate a number range [start stop] or [start stop step]''
        [''range'', ''range from'', ''generate range'', ''number range'']) range_match range_execute"

section \<open>Fibonacci numbers\<close>

definition fibonacci_match :: "string \<Rightarrow> bool" where
  "fibonacci_match q \<longleftrightarrow>
     any_in (to_lower q) [''fibonacci'', ''fib '', ''fib:''] \<or> has_suffix (to_lower q) '' fib''"

definition cap_count :: "int \<Rightarrow> nat" where
  "cap_count n = min (nat n) sequence_max_count"

fun fibonacci_terms :: "nat \<Rightarrow> int \<Rightarrow> int \<Rightarrow> int list" where
  "fibonacci_terms 0 a b = []"
| "fibonacci_terms (Suc n) a b = a # fibonacci_terms n b (a + b)"

definition or_verb :: "string \<Rightarrow> string \<Rightarrow> string \<Rightarrow> string" where
  "or_verb q verb payload = (if payload = [] then strip_verb q verb else payload)"

definition fibonacci_execute :: "string \<Rightarrow> sequence_error + string" where
  "fibonacci_execute q =
     (let payload = or_verb q ''fibonacci'' (trim_space (extract_payload q))
      in if payload = [] then Inl NeedsCount
         else case pick_first_int payload of
             Inl e \<Rightarrow> Inl (CountError e)
           | Inr n \<Rightarrow>
               if n \<le> 0 then Inl CountNotPositive
               else Inr (format_sequence (map itoa (fibonacci_terms (cap_count n) 0 1))))"

definition fibonacci_skill :: "(sequence_error \<Rightarrow> string) \<Rightarrow> skill" where
  "fibonacci_skill err_text = sequence_skill err_text
     (base_skill ''fibonacci'' ''Generate the first N Fibonacci numbers (0,1,1,2,3,5,...)''
        [''fibonacci'', ''fib'', ''fib sequence'']) fibonacci_match fibonacci_execute"

fun fib :: "nat \<Rightarrow> nat" where
  "fib 0 = 0"
| "fib (Suc 0) = 1"
| "fib (Suc (Suc n)) = fib n + fib (Suc n)"

lemma fibonacci_terms_from:
  "fibonacci_terms n (int (fib k)) (int (fib (Suc k))) = map (\<lambda>i. int (fib (k + i))) [0..<n]"
proof (induction n arbitrary: k)
  case (Suc n)
  have "fibonacci_terms (Suc n) (int (fib k)) (int (fib (Suc k))) =
      int (fib k) # fibonacci_terms n (int (fib (Suc k))) (int (fib (Suc (Suc k))))"
    by simp
  also have "\<dots> = int (fib k) # map (\<lambda>i. int (fib (Suc k + i))) [0..<n]"
    unfolding Suc.IH ..
  also have "\<dots> = map (\<lambda>i. int (fib (k + i))) [0..<Suc n]"
    by (simp add: upt_conv_Cons map_Suc_upt [symmetric] comp_def del: upt_Suc)
  finally show ?case .
qed simp

lemma fibonacci_terms_fib: "fibonacci_terms n 0 1 = map (\<lambda>i. int (fib i)) [0..<n]"
  using fibonacci_terms_from [of n 0] by simp

section \<open>Arithmetic and geometric progressions\<close>

definition key_values :: "string \<Rightarrow> string \<Rightarrow> string option" where
  "key_values payload =
     foldl (\<lambda>m field. case split_two field ''='' of
           None \<Rightarrow> m
         | Some (k, v) \<Rightarrow> m(to_lower (trim_space k) \<mapsto> trim_space v))
       Map.empty (fields_func list_separator payload)"

definition get_param_int :: "(string \<Rightarrow> string option) \<Rightarrow> string list \<Rightarrow> sequence_error + int" where
  "get_param_int m keys =
     (case first_some m keys of None \<Rightarrow> Inl (Missing (hd keys)) | Some v \<Rightarrow> parse_int_strict v)"

definition three_ints :: "sequence_error + int \<Rightarrow> sequence_error + int \<Rightarrow> sequence_error + int \<Rightarrow>
    sequence_error + (int \<times> int \<times> int)" where
  "three_ints a b c =
     (case a of Inl e \<Rightarrow> Inl e
      | Inr start \<Rightarrow> (case b of Inl e \<Rightarrow> Inl e
      | Inr delta \<Rightarrow> (case c of Inl e \<Rightarrow> Inl e
      | Inr n \<Rightarrow> Inr (start, delta, n))))"

definition seq_payload :: "string \<Rightarrow> string \<Rightarrow> string" where
  "seq_payload q nm = trim_space (or_verb q nm (or_verb q (nm @ '' sequence'') (extract_payload q)))"

definition parse_seq_params :: "string \<Rightarrow> string \<Rightarrow> sequence_error + (int \<times> int \<times> int)" where
  "parse_seq_params q nm =
     (let payload = seq_payload q nm
      in if payload = [] then Inl (NeedsParams nm)
         else if contains_str payload ''='' then
           let m = key_values payload
           in three_ints (get_param_int m [''start'']) (get_param_int m [''step'', ''ratio'', ''common''])
                (get_param_int m [''count'', ''terms'', ''n''])
         else case fields_func list_separator payload of
             f0 # f1 # f2 # _ \<Rightarrow> three_ints (parse_int_strict f0) (parse_int_strict f1) (parse_int_strict f2)
           | _ \<Rightarrow> Inl (NeedsThree nm))"

fun iterate_terms :: "(int \<Rightarrow> int) \<Rightarrow> nat \<Rightarrow> int \<Rightarrow> int list" where
  "iterate_terms f 0 cur = []"
| "iterate_terms f (Suc n) cur = cur # iterate_terms f n (f cur)"

definition progression :: "string \<Rightarrow> (int \<Rightarrow> int \<Rightarrow> int) \<Rightarrow> string \<Rightarrow> sequence_error + string" where
  "progression nm op q =
     (case parse_seq_params q nm of
        Inl e \<Rightarrow> Inl e
      | Inr (start, delta, n) \<Rightarrow>
          if n \<le> 0 then Inl CountNotPositive
          else Inr (format_sequence (map itoa (iterate_terms (\<lambda>cur. op cur delta) (cap_count n) start))))"

definition arithmetic_execute :: "string \<Rightarrow> sequence_error + string" where
  "arithmetic_execute = progression ''arithmetic'' (+)"

definition geometric_execute :: "string \<Rightarrow> sequence_error + string" where
  "geometric_execute = progression ''geometric'' (*)"

definition arithmetic_match :: "string \<Rightarrow> bool" where
  "arithmetic_match q \<longleftrightarrow> any_in (to_lower q) [''arithmetic sequence'', ''arithmetic progression'', ''arithmetic:'']"

definition geometric_match :: "string \<Rightarrow> bool" where
  "geometric_match q \<longleftrightarrow> any_in (to_lower q) [''geometric sequence'', ''geometric progression'', ''geometric:'']"

definition arithmetic_skill :: "(sequence_error \<Rightarrow> string) \<Rightarrow> skill" where
  "arithmetic_skill err_text = sequence_skill err_text
     (base_skill ''arithmetic_sequence'' ''Generate an arithmetic sequence (start, step, count)''
        [''arithmetic sequence'', ''arithmetic progression'', ''arithmetic'']) arithmetic_match arithmetic_execute"

definition geometric_skill :: "(sequence_error \<Rightarrow> string) \<Rightarrow> skill" where
  "geometric_skill err_text = sequence_skill err_text
     (base_skill ''geometric_sequence'' ''Generate a geometric sequence (start, ratio, count)''
        [''geometric sequence'', ''geometric progression'', ''geometric'']) geometric_match geometric_execute"

lemma iterate_terms_nth: "iterate_terms f n a = map (\<lambda>i. (f ^^ i) a) [0..<n]"
proof (induction n arbitrary: a)
  case (Suc n)
  then show ?case
    by (simp add: upt_conv_Cons map_Suc_upt [symmetric] comp_def funpow_swap1 del: upt_Suc)
qed simp

lemma arithmetic_terms: "iterate_terms (\<lambda>cur. cur + delta) n start = map (\<lambda>i. start + int i * delta) [0..<n]"
proof -
  have "((\<lambda>cur. cur + delta) ^^ i) start = start + int i * delta" for i
    by (induction i) (simp_all add: algebra_simps)
  then show ?thesis by (simp add: iterate_terms_nth)
qed

lemma geometric_terms: "iterate_terms (\<lambda>cur. cur * ratio) n start = map (\<lambda>i. start * ratio ^ i) [0..<n]"
proof -
  have "((\<lambda>cur. cur * ratio) ^^ i) start = start * ratio ^ i" for i
    by (induction i) (simp_all add: algebra_simps)
  then show ?thesis by (simp add: iterate_terms_nth)
qed

section \<open>Primes\<close>

text \<open>The two loops of the sieve. The inner one would not end for the stride 0, which the outer one never passes.\<close>

function strike :: "nat \<Rightarrow> nat \<Rightarrow> bool list \<Rightarrow> bool list" where
  "strike i j sieve = (if i = 0 \<or> length sieve \<le> j then sieve else strike i (j + i) (sieve[j := True]))"
  by pat_completeness auto
termination
  by (relation "measure (\<lambda>(i, j, sieve). length sieve - j)") auto

declare strike.simps [simp del]

lemma strike_length [simp]: "length (strike i j sieve) = length sieve"
  by (induction i j sieve rule: strike.induct) (subst strike.simps, simp)

function sieve_from :: "nat \<Rightarrow> bool list \<Rightarrow> nat list" where
  "sieve_from i sieve =
     (if length sieve \<le> i then []
      else if sieve ! i then sieve_from (i + 1) sieve
      else i # sieve_from (i + 1) (strike i (i * i) sieve))"
  by pat_completeness auto
termination
  by (relation "measure (\<lambda>(i, sieve). length sieve - i)") auto

declare sieve_from.simps [simp del]

definition primes_upto :: "nat \<Rightarrow> nat list" where
  "primes_upto n = sieve_from 2 (replicate (n + 1) False)"

definition primes_payload :: "string \<Rightarrow> string" where
  "primes_payload q = trim_space (foldl (\<lambda>payload verb. or_verb q verb payload) (extract_payload q)
     [''primes up to'', ''primes upto'', ''list primes'', ''sieve of eratosthenes''])"

definition primes_execute :: "string \<Rightarrow> sequence_error + string" where
  "primes_execute q =
     (case pick_first_int (primes_payload q) of
        Inl e \<Rightarrow> Inl NeedsBound
      | Inr n \<Rightarrow>
          if n < 2 then Inl NoPrimesBelowTwo
          else let m = min (nat n) (sequence_max_count * 1000); primes = primes_upto m
               in if primes = [] then Inl (NoPrimes m) else Inr (format_sequence (map dec_digits primes)))"

definition primes_skill :: "(sequence_error \<Rightarrow> string) \<Rightarrow> skill" where
  "primes_skill err_text = sequence_skill err_text
     (base_skill ''primes_upto'' ''List all primes up to N (Sieve of Eratosthenes)''
        [''primes upto'', ''primes up to'', ''list primes'', ''sieve of eratosthenes''])
     (\<lambda>q. any_in (to_lower q) [''primes upto'', ''primes up to'', ''list primes'', ''sieve of eratosthenes'']) primes_execute"

definition prime_number :: "nat \<Rightarrow> bool" where
  "prime_number n \<longleftrightarrow> 1 < n \<and> (\<forall>d. d dvd n \<longrightarrow> d = 1 \<or> d = n)"

lemma strike_nth:
  assumes "0 < i" "k < length sieve"
  shows "strike i j sieve ! k \<longleftrightarrow> sieve ! k \<or> (\<exists>m. k = j + m * i)"
  using assms
proof (induction i j sieve rule: strike.induct)
  case (1 i j sieve)
  show ?case
  proof (cases "length sieve \<le> j")
    case True
    then show ?thesis using 1(3) by (subst strike.simps) auto
  next
    case False
    have "strike i j sieve ! k \<longleftrightarrow> sieve[j := True] ! k \<or> (\<exists>m. k = j + i + m * i)"
      using 1 False by (subst strike.simps) simp
    also have "\<dots> \<longleftrightarrow> sieve ! k \<or> k = j \<or> (\<exists>m. k = j + Suc m * i)"
      using 1(3) by (cases "k = j") (auto simp: add.assoc)
    also have "\<dots> \<longleftrightarrow> sieve ! k \<or> (\<exists>m. k = j + m * i)"
      by (metis add_0_right mult_0 not0_implies_Suc)
    finally show ?thesis .
  qed
qed

text \<open>Crossed out so far: the numbers with a divisor below the counter that is at most their root.\<close>

definition struck :: "nat \<Rightarrow> nat \<Rightarrow> bool" where
  "struck i k \<longleftrightarrow> (\<exists>d\<ge>2. d < i \<and> d * d \<le> k \<and> d dvd k)"

lemma struck_step:
  assumes "2 \<le> i"
  shows "struck (i + 1) k \<longleftrightarrow> struck i k \<or> (\<exists>m. k = i * i + m * i)"
proof -
  have "(i * i \<le> k \<and> i dvd k) \<longleftrightarrow> (\<exists>m. k = i * i + m * i)"
  proof
    assume a: "i * i \<le> k \<and> i dvd k"
    then obtain q where q: "k = q * i" by (auto simp: dvd_def mult.commute)
    with a assms have "i \<le> q" by simp
    with q have "k = i * i + (q - i) * i" by (simp add: algebra_simps)
    then show "\<exists>m. k = i * i + m * i" ..
  qed auto
  then show ?thesis using assms by (auto simp: struck_def less_Suc_eq)
qed

lemma struck_redundant:
  assumes "2 \<le> i" "struck i i" "struck (i + 1) k"
  shows "struck i k"
proof -
  obtain d where d: "2 \<le> d" "d < i" "d * d \<le> i" "d dvd i" using assms(2) by (auto simp: struck_def)
  obtain e where e: "2 \<le> e" "e < i + 1" "e * e \<le> k" "e dvd k" using assms(3) by (auto simp: struck_def)
  show ?thesis
  proof (cases "e = i")
    case True
    have "i \<le> i * i" using assms(1) by simp
    with d(3) e(3) True have "d * d \<le> k" by (metis le_trans)
    moreover have "d dvd k" using d(4) e(4) True dvd_trans by blast
    ultimately show ?thesis using d by (auto simp: struck_def)
  next
    case False
    then show ?thesis using e by (auto simp: struck_def)
  qed
qed

lemma struck_composite:
  assumes "2 \<le> n"
  shows "struck n n \<longleftrightarrow> \<not> prime_number n"
proof
  assume "struck n n"
  then show "\<not> prime_number n" by (auto simp: struck_def prime_number_def)
next
  assume "\<not> prime_number n"
  then obtain d where d: "d dvd n" "d \<noteq> 1" "d \<noteq> n" using assms by (auto simp: prime_number_def)
  then obtain e where e: "n = d * e" by (auto simp: dvd_def)
  have "2 \<le> d" "2 \<le> e" using d e assms by (auto simp: Suc_le_eq numeral_2_eq_2 intro!: Nat.gr0I le_neq_implies_less)
  then have lt: "d < n" "e < n" using e by auto
  show "struck n n"
  proof (cases "d \<le> e")
    case True
    then show ?thesis unfolding struck_def using e \<open>2 \<le> d\<close> lt by (intro exI [of _ d]) simp
  next
    case False
    then show ?thesis unfolding struck_def using e \<open>2 \<le> e\<close> lt by (intro exI [of _ e]) simp
  qed
qed

lemma sieve_from_primes:
  assumes "2 \<le> i" "\<forall>k<length sieve. sieve ! k = struck i k"
  shows "sieve_from i sieve = filter prime_number [i..<length sieve]"
  using assms
proof (induction i sieve rule: sieve_from.induct)
  case (1 i sieve)
  show ?case
  proof (cases "length sieve \<le> i")
    case False
    then have st: "sieve ! i = (\<not> prime_number i)" using 1(3,4) struck_composite by simp
    have split: "[i..<length sieve] = i # [i + 1..<length sieve]" using False by (simp add: upt_conv_Cons)
    show ?thesis
    proof (cases "prime_number i")
      case True
      let ?s = "strike i (i * i) sieve"
      have inv: "\<forall>k<length ?s. ?s ! k = struck (i + 1) k"
      proof (intro allI impI)
        fix k assume k: "k < length ?s"
        have "?s ! k \<longleftrightarrow> sieve ! k \<or> (\<exists>m. k = i * i + m * i)" using 1(3) k by (intro strike_nth) auto
        also have "\<dots> \<longleftrightarrow> struck (i + 1) k" using 1(3,4) k by (simp only: struck_step strike_length)
        finally show "?s ! k = struck (i + 1) k" .
      qed
      have "sieve_from (i + 1) ?s = filter prime_number [i + 1..<length ?s]"
        by (rule 1(2)) (use False st True 1(3) inv in auto)
      then show ?thesis using False st True split by (subst sieve_from.simps) simp
    next
      case notp: False
      then have "struck i i" using struck_composite 1(3) by blast
      then have inv: "\<forall>k<length sieve. sieve ! k = struck (i + 1) k"
        using 1(3,4) struck_redundant struck_step by blast
      have "sieve_from (i + 1) sieve = filter prime_number [i + 1..<length sieve]"
        by (rule 1(1)) (use False st notp 1(3) inv in auto)
      then show ?thesis using False st notp split by (subst sieve_from.simps) simp
    qed
  qed (subst sieve_from.simps, simp)
qed

section \<open>Collatz sequences\<close>

definition collatz_max_steps :: nat where
  "collatz_max_steps = 100000"

definition collatz_next :: "int \<Rightarrow> int" where
  "collatz_next n = (if n mod 2 = 0 then n div 2 else n * 3 + 1)"

text \<open>\<open>left\<close> is how many more terms still fit: the sequence that is one too long is an error even if it ends in 1.\<close>

fun collatz_loop :: "nat \<Rightarrow> int \<Rightarrow> int list option" where
  "collatz_loop left n =
     (if n = 1 then Some [n]
      else if left = 0 then None
      else map_option ((#) n) (collatz_loop (left - 1) (collatz_next n)))"

definition collatz_terms :: "int \<Rightarrow> int list option" where
  "collatz_terms start = collatz_loop (collatz_max_steps - 1) start"

declare collatz_loop.simps [simp del]

lemma collatz_loop_reaches:
  assumes "(collatz_next ^^ k) n = 1" "\<forall>i<k. (collatz_next ^^ i) n \<noteq> 1" "k \<le> left"
  shows "collatz_loop left n = Some (map (\<lambda>i. (collatz_next ^^ i) n) [0..<k + 1])"
  using assms
proof (induction k arbitrary: n left)
  case 0
  then show ?case by (simp add: collatz_loop.simps)
next
  case (Suc k)
  have "n \<noteq> 1" using Suc.prems(2) by (metis funpow_0 zero_less_Suc)
  moreover have "collatz_loop (left - 1) (collatz_next n) = Some (map (\<lambda>i. (collatz_next ^^ i) (collatz_next n)) [0..<k + 1])"
  proof (rule Suc.IH)
    show "(collatz_next ^^ k) (collatz_next n) = 1" using Suc.prems(1) by (simp add: funpow_swap1)
    show "\<forall>i<k. (collatz_next ^^ i) (collatz_next n) \<noteq> 1"
      using Suc.prems(2) by (metis Suc_mono comp_apply funpow_Suc_right)
  qed (use Suc.prems(3) in simp)
  moreover have "map (\<lambda>i. (collatz_next ^^ i) n) [0..<Suc k + 1] =
      n # map (\<lambda>i. (collatz_next ^^ i) (collatz_next n)) [0..<k + 1]"
    by (simp add: upt_conv_Cons map_Suc_upt [symmetric] comp_def funpow_swap1 del: upt_Suc)
  ultimately show ?case using Suc.prems(3) by (subst collatz_loop.simps) simp
qed

lemma collatz_loop_gives_up:
  assumes "\<forall>i\<le>left. (collatz_next ^^ i) n \<noteq> 1"
  shows "collatz_loop left n = None"
  using assms
proof (induction left arbitrary: n)
  case 0
  then show ?case by (simp add: collatz_loop.simps)
next
  case (Suc left)
  have "n \<noteq> 1" using Suc.prems by (metis funpow_0 zero_le)
  moreover have "collatz_loop left (collatz_next n) = None"
    by (rule Suc.IH) (use Suc.prems in \<open>metis Suc_le_mono comp_apply funpow_Suc_right\<close>)
  ultimately show ?case by (subst collatz_loop.simps) simp
qed

definition collatz_execute :: "string \<Rightarrow> sequence_error + string" where
  "collatz_execute q =
     (let payload = or_verb q ''collatz'' (or_verb q ''collatz sequence'' (trim_space (extract_payload q)))
      in if payload = [] then Inl NeedsStart
         else case pick_first_int payload of
             Inl e \<Rightarrow> Inl (StartError e)
           | Inr start \<Rightarrow>
               if start < 1 then Inl StartNotPositive
               else (case collatz_terms start of
                   None \<Rightarrow> Inl TooManySteps
                 | Some terms \<Rightarrow> Inr (format_sequence (map itoa terms))))"

definition collatz_skill :: "(sequence_error \<Rightarrow> string) \<Rightarrow> skill" where
  "collatz_skill err_text = sequence_skill err_text
     (base_skill ''collatz'' ''Generate the Collatz (3n+1) sequence from n down to 1'' [''collatz'', ''collatz sequence'', ''3n+1''])
     (\<lambda>q. any_in (to_lower q) [''collatz'', ''3n+1'', ''3n + 1'']) collatz_execute"

text \<open>The skill lists the orbit of the start up to its first 1, when that comes within the limit, and fails otherwise.\<close>

lemma collatz_terms_reaches:
  assumes "(collatz_next ^^ k) n = 1" "\<forall>i<k. (collatz_next ^^ i) n \<noteq> 1"
  shows "collatz_terms n =
    (if k < collatz_max_steps then Some (map (\<lambda>i. (collatz_next ^^ i) n) [0..<k + 1]) else None)"
proof (cases "k < collatz_max_steps")
  case True
  then show ?thesis unfolding collatz_terms_def using assms by (simp add: collatz_loop_reaches)
next
  case False
  then show ?thesis unfolding collatz_terms_def
    using assms(2) by (auto intro!: collatz_loop_gives_up simp: collatz_max_steps_def)
qed

text \<open>The sieve of the primes skill is equivalent to trial division: for every bound, the list it emits is the
list of all numbers from 2 to the bound, in order, whose only divisors are 1 and themselves.\<close>

lemma sieve_finds_the_primes: "primes_upto n = filter prime_number [2..<n + 1]"
proof -
  have "sieve_from 2 (replicate (n + 1) False) = filter prime_number [2..<length (replicate (n + 1) False)]"
    by (rule sieve_from_primes) (auto simp: struck_def simp del: replicate.simps)
  then show ?thesis by (simp only: primes_upto_def length_replicate)
qed

end
