(* ===== verification/Hitl_Hub.thy ===== *)
theory Hitl_Hub
  imports Hitl_Retry
begin

text \<open>
  The broker between agents that ask for help and operators (\<open>internal/hitl/hub.go\<close>, with the two remote calls of
  \<open>internal/hitl/server.go\<close>). Its operations are cut where the code releases the lock or blocks: a call registers its waiter,
  offers the request to each subscriber, waits for a hint or the end of its time, and removes its waiter; a delivery looks the
  waiter up and then sends. A system state holds the hub and what every call and every delivery is at, and a run is any
  sequence of their steps, so every interleaving of the goroutines is one. Waiter channels are numbered; one holds at most
  one hint. Subscriber identifiers do not overflow, and the time stamp of a request is left out.
\<close>

section \<open>The hub\<close>

record hub =
  hub_subs :: "int list"
  hub_queues :: "int \<Rightarrow> help_request list"
  hub_waiters :: "string \<Rightarrow> nat option"
  hub_chans :: "nat \<Rightarrow> string option"
  hub_next_sub :: int
  hub_next_chan :: nat

definition new_hub :: hub where
  "new_hub = \<lparr>hub_subs = [], hub_queues = (\<lambda>_. []), hub_waiters = Map.empty, hub_chans = Map.empty,
     hub_next_sub = 0, hub_next_chan = 0\<rparr>"

definition subscriber_queue_cap :: nat where
  "subscriber_queue_cap = 16"

definition subscribe :: "hub \<Rightarrow> int \<times> hub" where
  "subscribe h =
     (let i = hub_next_sub h + 1
      in (i, h\<lparr>hub_next_sub := i, hub_subs := hub_subs h @ [i], hub_queues := (hub_queues h)(i := [])\<rparr>))"

definition unsubscribe :: "int \<Rightarrow> hub \<Rightarrow> hub" where
  "unsubscribe i h = h\<lparr>hub_subs := filter (\<lambda>j. j \<noteq> i) (hub_subs h)\<rparr>"

definition has_subscriber :: "hub \<Rightarrow> bool" where
  "has_subscriber h \<longleftrightarrow> hub_subs h \<noteq> []"

definition register_waiter :: "string \<Rightarrow> hub \<Rightarrow> nat \<times> int list \<times> hub" where
  "register_waiter task h =
     (let ch = hub_next_chan h
      in (ch, hub_subs h,
          h\<lparr>hub_waiters := (hub_waiters h)(task \<mapsto> ch), hub_chans := (hub_chans h)(ch := None), hub_next_chan := ch + 1\<rparr>))"

definition drop_waiter :: "string \<Rightarrow> hub \<Rightarrow> hub" where
  "drop_waiter task h = h\<lparr>hub_waiters := (hub_waiters h)(task := None)\<rparr>"

definition offer_request :: "int \<Rightarrow> help_request \<Rightarrow> hub \<Rightarrow> hub" where
  "offer_request i req h =
     (if length (hub_queues h i) < subscriber_queue_cap
      then h\<lparr>hub_queues := (hub_queues h)(i := hub_queues h i @ [req])\<rparr> else h)"

definition take_request :: "int \<Rightarrow> hub \<Rightarrow> hub" where
  "take_request i h = h\<lparr>hub_queues := (hub_queues h)(i := tl (hub_queues h i))\<rparr>"

definition offer_hint :: "nat \<Rightarrow> string \<Rightarrow> hub \<Rightarrow> bool \<times> hub" where
  "offer_hint ch hint h =
     (case hub_chans h ch of
        Some _ \<Rightarrow> (False, h)
      | None \<Rightarrow> (True, h\<lparr>hub_chans := (hub_chans h)(ch \<mapsto> hint)\<rparr>))"

definition take_hint :: "nat \<Rightarrow> hub \<Rightarrow> (string \<times> hub) option" where
  "take_hint ch h = map_option (\<lambda>hint. (hint, h\<lparr>hub_chans := (hub_chans h)(ch := None)\<rparr>)) (hub_chans h ch)"

text \<open>A delivery that nothing interrupts.\<close>

definition deliver_hint :: "string \<Rightarrow> string \<Rightarrow> hub \<Rightarrow> bool \<times> hub" where
  "deliver_hint task hint h = (case hub_waiters h task of None \<Rightarrow> (False, h) | Some ch \<Rightarrow> offer_hint ch hint h)"

section \<open>Calls and deliveries\<close>

datatype call_phase = Emitting "int list" | Waiting | Leaving hook_reply | Returned hook_reply

record hub_call =
  hc_req :: help_request
  hc_chan :: nat
  hc_phase :: call_phase

datatype delivery = Sending string nat string | Answered bool

record hub_system =
  sys_hub :: hub
  sys_calls :: "nat \<Rightarrow> hub_call option"
  sys_sends :: "nat \<Rightarrow> delivery option"

datatype hub_event =
    RequestHelp nat string help_request
  | Emit nat int
  | Wake nat
  | Expire nat
  | Leave nat
  | LookUp nat string string
  | Send nat
  | Connect
  | Disconnect int
  | Receive int

definition no_hint_text :: string where
  "no_hint_text = ''hitl: no hint received before timeout''"

definition with_task_id :: "string \<Rightarrow> help_request \<Rightarrow> help_request" where
  "with_task_id minted req = (if hr_task_id req = [] then req\<lparr>hr_task_id := minted\<rparr> else req)"

definition begin_call :: "string \<Rightarrow> help_request \<Rightarrow> hub \<Rightarrow> hub_call \<times> hub" where
  "begin_call minted req h =
     (let req = with_task_id minted req; (ch, subs, h) = register_waiter (hr_task_id req) h
      in (\<lparr>hc_req = req, hc_chan = ch, hc_phase = if subs = [] then Leaving HookNoSubscriber else Emitting subs\<rparr>, h))"

definition emitted :: "int \<Rightarrow> int list \<Rightarrow> call_phase" where
  "emitted i subs = (if remove1 i subs = [] then Waiting else Emitting (remove1 i subs))"

definition call_step :: "hub_event \<Rightarrow> hub_call \<Rightarrow> hub \<Rightarrow> hub_call \<times> hub" where
  "call_step e k h =
     (case (e, hc_phase k) of
        (Emit _ i, Emitting subs) \<Rightarrow>
          if i \<in> set subs then (k\<lparr>hc_phase := emitted i subs\<rparr>, offer_request i (hc_req k) h) else (k, h)
      | (Wake _, Waiting) \<Rightarrow>
          (case take_hint (hc_chan k) h of
             None \<Rightarrow> (k, h)
           | Some (hint, h) \<Rightarrow> (k\<lparr>hc_phase := Leaving (HookHint hint)\<rparr>, h))
      | (Expire _, Waiting) \<Rightarrow> (k\<lparr>hc_phase := Leaving (HookError no_hint_text)\<rparr>, h)
      | (Leave _, Leaving r) \<Rightarrow> (k\<lparr>hc_phase := Returned r\<rparr>, drop_waiter (hr_task_id (hc_req k)) h)
      | _ \<Rightarrow> (k, h))"

definition on_call :: "nat \<Rightarrow> hub_event \<Rightarrow> hub_system \<Rightarrow> hub_system" where
  "on_call c e s =
     (case sys_calls s c of
        None \<Rightarrow> s
      | Some k \<Rightarrow> (case call_step e k (sys_hub s) of
            (k, h) \<Rightarrow> s\<lparr>sys_hub := h, sys_calls := (sys_calls s)(c \<mapsto> k)\<rparr>))"

fun hub_step :: "hub_system \<Rightarrow> hub_event \<Rightarrow> hub_system" where
  "hub_step s (RequestHelp c minted req) =
     (if sys_calls s c \<noteq> None then s
      else case begin_call minted req (sys_hub s) of
          (k, h) \<Rightarrow> s\<lparr>sys_hub := h, sys_calls := (sys_calls s)(c \<mapsto> k)\<rparr>)"
| "hub_step s (Emit c i) = on_call c (Emit c i) s"
| "hub_step s (Wake c) = on_call c (Wake c) s"
| "hub_step s (Expire c) = on_call c (Expire c) s"
| "hub_step s (Leave c) = on_call c (Leave c) s"
| "hub_step s (LookUp d task hint) =
     (if sys_sends s d \<noteq> None then s
      else s\<lparr>sys_sends := (sys_sends s)(d \<mapsto> (case hub_waiters (sys_hub s) task of
          None \<Rightarrow> Answered False | Some ch \<Rightarrow> Sending task ch hint))\<rparr>)"
| "hub_step s (Send d) =
     (case sys_sends s d of
        Some (Sending task ch hint) \<Rightarrow>
          (case offer_hint ch hint (sys_hub s) of
             (ok, h) \<Rightarrow> s\<lparr>sys_hub := h, sys_sends := (sys_sends s)(d \<mapsto> Answered ok)\<rparr>)
      | _ \<Rightarrow> s)"
| "hub_step s Connect = s\<lparr>sys_hub := snd (subscribe (sys_hub s))\<rparr>"
| "hub_step s (Disconnect i) = s\<lparr>sys_hub := unsubscribe i (sys_hub s)\<rparr>"
| "hub_step s (Receive i) = s\<lparr>sys_hub := take_request i (sys_hub s)\<rparr>"

definition hub_start :: hub_system where
  "hub_start = \<lparr>sys_hub = new_hub, sys_calls = Map.empty, sys_sends = Map.empty\<rparr>"

definition hub_run :: "hub_event list \<Rightarrow> hub_system" where
  "hub_run es = foldl hub_step hub_start es"

section \<open>Invariants\<close>

lemmas hub_ops = subscribe_def unsubscribe_def register_waiter_def drop_waiter_def offer_request_def take_request_def
  offer_hint_def take_hint_def call_step_def on_call_def begin_call_def Let_def

definition queues_bounded :: "hub_system \<Rightarrow> bool" where
  "queues_bounded s \<longleftrightarrow> (\<forall>i. length (hub_queues (sys_hub s) i) \<le> subscriber_queue_cap)"

lemma call_step_queues:
  assumes "call_step e k h = (k', h')" "length (hub_queues h i) \<le> subscriber_queue_cap"
  shows "length (hub_queues h' i) \<le> subscriber_queue_cap"
  using assms by (auto simp: hub_ops split: hub_event.splits call_phase.splits if_splits option.splits)

lemma on_call_queues: "queues_bounded s \<Longrightarrow> queues_bounded (on_call c e s)"
  by (auto simp: queues_bounded_def on_call_def split: option.splits prod.splits dest: call_step_queues)

interpretation hub_queues_machine: guarded_machine hub_step queues_bounded
proof
  fix s e assume q: "queues_bounded s"
  show "queues_bounded (hub_step s e)"
  proof (cases e)
    case (Receive i)
    then show ?thesis using q
      by (auto simp: queues_bounded_def take_request_def intro: le_trans [OF diff_le_self])
  qed (use q on_call_queues in \<open>auto simp: queues_bounded_def hub_ops split: option.splits delivery.splits\<close>)
qed

text \<open>Every channel belongs to one call; a waiter, a pending hint and a delivery on the way all lead to a call of their task.\<close>

abbreviation task_of :: "hub_call \<Rightarrow> string" where
  "task_of k \<equiv> hr_task_id (hc_req k)"

definition owns :: "hub_system \<Rightarrow> nat \<Rightarrow> string \<Rightarrow> bool" where
  "owns s ch task \<longleftrightarrow> (\<exists>c k. sys_calls s c = Some k \<and> hc_chan k = ch \<and> task_of k = task)"

definition hinted :: "call_phase \<Rightarrow> string \<Rightarrow> bool" where
  "hinted p hint \<longleftrightarrow> p = Leaving (HookHint hint) \<or> p = Returned (HookHint hint)"

definition routed :: "(string \<Rightarrow> string \<Rightarrow> bool) \<Rightarrow> hub_system \<Rightarrow> bool" where
  "routed sent s \<longleftrightarrow>
     (\<forall>c k. sys_calls s c = Some k \<longrightarrow> hc_chan k < hub_next_chan (sys_hub s)) \<and>
     (\<forall>c c' k k'. sys_calls s c = Some k \<longrightarrow> sys_calls s c' = Some k' \<longrightarrow> hc_chan k = hc_chan k' \<longrightarrow> c = c') \<and>
     (\<forall>task ch. hub_waiters (sys_hub s) task = Some ch \<longrightarrow> owns s ch task) \<and>
     (\<forall>ch hint. hub_chans (sys_hub s) ch = Some hint \<longrightarrow> (\<exists>task. owns s ch task \<and> sent task hint)) \<and>
     (\<forall>d task ch hint. sys_sends s d = Some (Sending task ch hint) \<longrightarrow> owns s ch task \<and> sent task hint) \<and>
     (\<forall>c k hint. sys_calls s c = Some k \<longrightarrow> hinted (hc_phase k) hint \<longrightarrow> sent (task_of k) hint)"


lemma call_step_effect:
  assumes "call_step e k h = (k', h')"
  shows "hc_req k' = hc_req k" "hc_chan k' = hc_chan k" "hub_next_chan h' = hub_next_chan h"
    "hub_waiters h' t = Some ch \<Longrightarrow> hub_waiters h t = Some ch"
    "hub_chans h' ch = Some hint \<Longrightarrow> hub_chans h ch = Some hint"
    "hinted (hc_phase k') hint \<Longrightarrow> hinted (hc_phase k) hint \<or> hub_chans h (hc_chan k) = Some hint"
  using assms
  by (auto simp: hub_ops hinted_def emitted_def split: hub_event.splits call_phase.splits if_splits option.splits)

lemma owns_update:
  assumes "sys_calls s c = Some k" "hc_req k' = hc_req k" "hc_chan k' = hc_chan k"
  shows "owns (s\<lparr>sys_hub := h, sys_calls := (sys_calls s)(c \<mapsto> k')\<rparr>) = owns s"
proof (intro ext iffI)
  fix ch task assume "owns s ch task"
  then obtain c0 k0 where o: "sys_calls s c0 = Some k0" "hc_chan k0 = ch" "task_of k0 = task" unfolding owns_def by blast
  show "owns (s\<lparr>sys_hub := h, sys_calls := (sys_calls s)(c \<mapsto> k')\<rparr>) ch task"
    unfolding owns_def
  proof (intro exI)
    let ?k = "if c0 = c then k' else k0"
    show "sys_calls (s\<lparr>sys_hub := h, sys_calls := (sys_calls s)(c \<mapsto> k')\<rparr>) c0 = Some ?k \<and> hc_chan ?k = ch \<and> task_of ?k = task"
      using o assms by auto
  qed
qed (use assms in \<open>auto simp: owns_def split: if_splits\<close>)

lemma routed_owner: "routed sent s \<Longrightarrow> sys_calls s c = Some k \<Longrightarrow> owns s (hc_chan k) task \<Longrightarrow> task = task_of k"
  unfolding routed_def owns_def by (metis option.inject)

lemma on_call_routed:
  assumes "routed sent s"
  shows "routed sent (on_call c e s)"
proof (cases "sys_calls s c")
  case (Some k)
  obtain k' h where st: "call_step e k (sys_hub s) = (k', h)" by (cases "call_step e k (sys_hub s)") auto
  note eff = call_step_effect [OF st]
  have own: "owns (on_call c e s) = owns s" using Some st eff(1,2) by (simp add: on_call_def owns_update)
  have s': "on_call c e s = s\<lparr>sys_hub := h, sys_calls := (sys_calls s)(c \<mapsto> k')\<rparr>" using Some st by (simp add: on_call_def)
  note r = assms [unfolded routed_def]
  have got: "sent (task_of k') hint" if "hinted (hc_phase k') hint" for hint
    using eff(6) [OF that]
  proof
    assume "hub_chans (sys_hub s) (hc_chan k) = Some hint"
    then obtain task where o: "owns s (hc_chan k) task" and st: "sent task hint" using r by blast
    have "task = task_of k" by (rule routed_owner [OF assms Some o])
    then show ?thesis using st eff(1) by simp
  qed (use r Some eff(1) in auto)
  show ?thesis
    unfolding routed_def own
    using r Some eff(1-5) got by (auto simp: s')
qed (use assms in \<open>simp add: on_call_def\<close>)

lemma routed_mono: "routed sent s \<Longrightarrow> (\<And>t h. sent t h \<Longrightarrow> sent' t h) \<Longrightarrow> routed sent' s"
  unfolding routed_def by blast

definition submits :: "hub_event \<Rightarrow> string \<Rightarrow> string \<Rightarrow> bool" where
  "submits e task hint \<longleftrightarrow> (\<exists>d. e = LookUp d task hint)"

lemma begin_call_effect:
  assumes "begin_call minted req h = (k, h')"
  shows "hc_chan k = hub_next_chan h" "hub_next_chan h' = hub_next_chan h + 1"
    "hub_waiters h' = (hub_waiters h)(task_of k \<mapsto> hc_chan k)"
    "hub_chans h' = (hub_chans h)(hc_chan k := None)" "\<not> hinted (hc_phase k) hint"
    "task_of k = (if hr_task_id req = [] then minted else hr_task_id req)"
  using assms by (auto simp: hub_ops hinted_def with_task_id_def split: if_splits)

lemma request_routed:
  assumes "routed sent s" "sys_calls s c = None" "begin_call minted req (sys_hub s) = (k, h)"
  shows "routed sent (s\<lparr>sys_hub := h, sys_calls := (sys_calls s)(c \<mapsto> k)\<rparr>)" (is "routed sent ?s")
proof -
  note r = assms(1) [unfolded routed_def] and b = begin_call_effect [OF assms(3)]
  have own: "owns ?s ch task" if o: "owns s ch task" for ch task
  proof -
    obtain c' k' where o: "sys_calls s c' = Some k'" "hc_chan k' = ch" "task_of k' = task"
      using o unfolding owns_def by blast
    with assms(2) have "c' \<noteq> c" by auto
    with o have "sys_calls ?s c' = Some k' \<and> hc_chan k' = ch \<and> task_of k' = task" by simp
    then show ?thesis unfolding owns_def by blast
  qed
  have new: "owns ?s (hc_chan k) (task_of k)" unfolding owns_def by auto
  have old: "hc_chan k' < hub_next_chan (sys_hub s)" if "sys_calls s c' = Some k'" for c' k'
    using r that by blast
  have apart: "c1 = c2" if "sys_calls s c1 = Some k1" "sys_calls s c2 = Some k2" "hc_chan k1 = hc_chan k2" for c1 c2 k1 k2
    using r that by blast
  show ?thesis
    unfolding routed_def
  proof (intro conjI allI impI)
    fix c' k' assume "sys_calls ?s c' = Some k'"
    then show "hc_chan k' < hub_next_chan (sys_hub ?s)" using old b(1,2) by (auto split: if_splits intro: less_SucI)
  next
    fix c1 c2 k1 k2
    assume "sys_calls ?s c1 = Some k1" "sys_calls ?s c2 = Some k2" "hc_chan k1 = hc_chan k2"
    then show "c1 = c2" using old b(1) apart by (auto split: if_splits) (metis less_irrefl)+
  next
    fix task ch assume "hub_waiters (sys_hub ?s) task = Some ch"
    then show "owns ?s ch task" using r b(3) own new by (auto split: if_splits)
  next
    fix ch hint assume "hub_chans (sys_hub ?s) ch = Some hint"
    then show "\<exists>task. owns ?s ch task \<and> sent task hint" using r b(4) own by (auto split: if_splits; blast)
  next
    fix d task ch hint assume "sys_sends ?s d = Some (Sending task ch hint)"
    then show "owns ?s ch task" "sent task hint" using r own by auto
  next
    fix c' k' hint assume "sys_calls ?s c' = Some k'" "hinted (hc_phase k') hint"
    then show "sent (task_of k') hint" using r b(5) by (auto split: if_splits)
  qed
qed

lemma offer_hint_effect:
  assumes "offer_hint ch hint h = (ok, h')"
  shows "hub_next_chan h' = hub_next_chan h" "hub_waiters h' = hub_waiters h"
    "hub_chans h' ch' = Some x \<Longrightarrow> hub_chans h ch' = Some x \<or> ch' = ch \<and> x = hint"
  using assms by (auto simp: offer_hint_def split: option.splits if_splits)

lemma owns_same_calls: "owns (s\<lparr>sys_hub := h\<rparr>) = owns s" "owns (s\<lparr>sys_hub := h, sys_sends := m\<rparr>) = owns s"
  "owns (s\<lparr>sys_sends := m\<rparr>) = owns s"
  by (auto simp: owns_def intro!: ext)

lemma same_routes:
  "routed sent s \<Longrightarrow> hub_next_chan h = hub_next_chan (sys_hub s) \<Longrightarrow> hub_waiters h = hub_waiters (sys_hub s) \<Longrightarrow>
     hub_chans h = hub_chans (sys_hub s) \<Longrightarrow> routed sent (s\<lparr>sys_hub := h\<rparr>)"
  unfolding routed_def by (auto simp: owns_same_calls)

lemma hub_step_routed:
  assumes "routed sent s" "\<And>t h. submits e t h \<Longrightarrow> sent t h"
  shows "routed sent (hub_step s e)"
proof (cases e)
  case (RequestHelp c minted req)
  then show ?thesis using assms(1) request_routed by (auto split: prod.splits)
next
  case (LookUp d task hint)
  then have "sent task hint" using assms(2) by (simp add: submits_def)
  then show ?thesis using assms(1) LookUp
    unfolding routed_def by (auto simp: owns_same_calls split: option.splits)
next
  case (Send d)
  show ?thesis
  proof (cases "sys_sends s d")
    case (Some x)
    then show ?thesis
    proof (cases x)
      case (Sending task ch hint)
      obtain ok h where o: "offer_hint ch hint (sys_hub s) = (ok, h)" by (cases "offer_hint ch hint (sys_hub s)") auto
      note eff = offer_hint_effect [OF o]
      have s': "hub_step s e = s\<lparr>sys_hub := h, sys_sends := (sys_sends s)(d \<mapsto> Answered ok)\<rparr>"
        using Send Some Sending o by simp
      have "owns s ch task \<and> sent task hint" using assms(1) Some Sending unfolding routed_def by blast
      then show ?thesis using assms(1) eff unfolding s' routed_def by (auto simp: owns_same_calls) blast
    qed (use assms(1) Send in simp)
  qed (use assms(1) Send in simp)
qed (use assms(1) on_call_routed in \<open>auto simp: subscribe_def unsubscribe_def take_request_def Let_def intro: same_routes\<close>)

definition submitted :: "hub_event list \<Rightarrow> string \<Rightarrow> string \<Rightarrow> bool" where
  "submitted es task hint \<longleftrightarrow> list_ex (\<lambda>e. case e of LookUp _ t h \<Rightarrow> t = task \<and> h = hint | _ \<Rightarrow> False) es"

lemma run_routed: "routed (submitted es) (hub_run es)"
proof (induction es rule: rev_induct)
  case Nil
  then show ?case by (simp add: hub_run_def hub_start_def new_hub_def routed_def)
next
  case (snoc e es)
  have "routed (submitted (es @ [e])) (hub_run es)"
    using snoc by (rule routed_mono) (simp add: submitted_def)
  then have "routed (submitted (es @ [e])) (hub_step (hub_run es) e)"
    by (rule hub_step_routed) (auto simp: submits_def submitted_def)
  then show ?case by (simp add: hub_run_def)
qed

text \<open>The waiter of a call that has not yet left is its own channel, unless another call has the same task identifier.\<close>

definition present :: "call_phase \<Rightarrow> bool" where
  "present p \<longleftrightarrow> (case p of Returned _ \<Rightarrow> False | _ \<Rightarrow> True)"

definition alone :: "hub_system \<Rightarrow> nat \<Rightarrow> string \<Rightarrow> bool" where
  "alone s c task \<longleftrightarrow> (\<forall>c' k. sys_calls s c' = Some k \<longrightarrow> task_of k = task \<longrightarrow> c' = c)"

definition reachable_calls :: "hub_system \<Rightarrow> bool" where
  "reachable_calls s \<longleftrightarrow>
     (\<forall>c k. sys_calls s c = Some k \<longrightarrow> present (hc_phase k) \<longrightarrow> alone s c (task_of k) \<longrightarrow>
        hub_waiters (sys_hub s) (task_of k) = Some (hc_chan k))"

lemma call_step_waiters:
  assumes "call_step e k h = (k', h')"
  shows "present (hc_phase k') \<Longrightarrow> present (hc_phase k) \<and> hub_waiters h' = hub_waiters h"
    "task \<noteq> task_of k \<Longrightarrow> hub_waiters h' task = hub_waiters h task"
  using assms
  by (auto simp: hub_ops present_def emitted_def split: hub_event.splits call_phase.splits if_splits option.splits)

lemma alone_update:
  assumes "sys_calls s c = Some k" "hc_req k' = hc_req k"
  shows "alone (s\<lparr>sys_hub := h, sys_calls := (sys_calls s)(c \<mapsto> k')\<rparr>) = alone s"
  using assms unfolding alone_def by (intro ext) auto

lemma on_call_reachable:
  assumes "reachable_calls s"
  shows "reachable_calls (on_call c e s)"
proof (cases "sys_calls s c")
  case (Some k)
  obtain k' h where st: "call_step e k (sys_hub s) = (k', h)" by (cases "call_step e k (sys_hub s)") auto
  note eff = call_step_effect [OF st] and w = call_step_waiters [OF st]
  have s': "on_call c e s = s\<lparr>sys_hub := h, sys_calls := (sys_calls s)(c \<mapsto> k')\<rparr>" using Some st by (simp add: on_call_def)
  show ?thesis
    unfolding reachable_calls_def s' alone_update [OF Some eff(1)]
  proof (intro allI impI)
    fix c' k1
    assume a: "sys_calls (s\<lparr>sys_hub := h, sys_calls := (sys_calls s)(c \<mapsto> k')\<rparr>) c' = Some k1"
      "present (hc_phase k1)" "alone s c' (task_of k1)"
    show "hub_waiters (sys_hub (s\<lparr>sys_hub := h, sys_calls := (sys_calls s)(c \<mapsto> k')\<rparr>)) (task_of k1) = Some (hc_chan k1)"
    proof (cases "c' = c")
      case True
      then show ?thesis using a assms Some w(1) eff(1,2) unfolding reachable_calls_def by auto
    next
      case False
      then have c': "sys_calls s c' = Some k1" using a(1) by simp
      have "task_of k1 \<noteq> task_of k" using a(3) Some False unfolding alone_def by metis
      then show ?thesis using c' a assms w(2) unfolding reachable_calls_def by simp
    qed
  qed
qed (use assms in \<open>simp add: on_call_def\<close>)

lemma request_reachable:
  assumes "reachable_calls s" "sys_calls s c = None" "begin_call minted req (sys_hub s) = (k, h)"
  shows "reachable_calls (s\<lparr>sys_hub := h, sys_calls := (sys_calls s)(c \<mapsto> k)\<rparr>)" (is "reachable_calls ?s")
  unfolding reachable_calls_def
proof (intro allI impI)
  note b = begin_call_effect [OF assms(3)]
  fix c' k1 assume a: "sys_calls ?s c' = Some k1" "present (hc_phase k1)" "alone ?s c' (task_of k1)"
  show "hub_waiters (sys_hub ?s) (task_of k1) = Some (hc_chan k1)"
  proof (cases "c' = c")
    case True
    then show ?thesis using a(1) b(3) by simp
  next
    case False
    then have c': "sys_calls s c' = Some k1" using a(1) by simp
    have "sys_calls ?s c = Some k" by simp
    then have "task_of k1 \<noteq> task_of k" using a(3) False unfolding alone_def by metis
    moreover have "alone s c' (task_of k1)"
      unfolding alone_def
    proof (intro allI impI)
      fix c2 k2 assume k2: "sys_calls s c2 = Some k2" "task_of k2 = task_of k1"
      with assms(2) have "sys_calls ?s c2 = Some k2" by auto
      with k2(2) a(3) show "c2 = c'" unfolding alone_def by blast
    qed
    ultimately show ?thesis using c' a(2) assms(1) b(3) unfolding reachable_calls_def by simp
  qed
qed

lemma same_reachable:
  "reachable_calls s \<Longrightarrow> hub_waiters h = hub_waiters (sys_hub s) \<Longrightarrow> reachable_calls (s\<lparr>sys_hub := h, sys_sends := m\<rparr>)"
  "reachable_calls s \<Longrightarrow> hub_waiters h = hub_waiters (sys_hub s) \<Longrightarrow> reachable_calls (s\<lparr>sys_hub := h\<rparr>)"
  "reachable_calls s \<Longrightarrow> reachable_calls (s\<lparr>sys_sends := m\<rparr>)"
  unfolding reachable_calls_def alone_def by auto

interpretation hub_reach_machine: guarded_machine hub_step reachable_calls
proof
  fix s e assume r: "reachable_calls s"
  show "reachable_calls (hub_step s e)"
  proof (cases e)
    case (RequestHelp c minted req)
    then show ?thesis using r request_reachable by (auto split: prod.splits)
  next
    case (Send d)
    then show ?thesis using r
      by (auto split: option.splits delivery.splits prod.splits intro!: same_reachable dest: offer_hint_effect(2))
  qed (use r on_call_reachable in \<open>auto simp: subscribe_def unsubscribe_def take_request_def Let_def intro: same_reachable\<close>)
qed

lemma run_reachable: "reachable_calls (hub_run es)"
  unfolding hub_run_def by (rule hub_reach_machine.run_keeps) (simp add: reachable_calls_def hub_start_def)

section \<open>Properties\<close>

text \<open>A hint that comes after the time is over, or after another one, is accepted although nobody will read it.\<close>

lemma late_hint_accepted:
  assumes "sys_calls (hub_run es) c = Some k" "hc_phase k = Leaving r" "alone (hub_run es) c (task_of k)"
    and "hub_chans (sys_hub (hub_run es)) (hc_chan k) = None" "sys_sends (hub_run es) d = None"
  shows "sys_sends (hub_run (es @ [LookUp d (task_of k) hint, Send d, Leave c])) d = Some (Answered True) \<and>
    map_option hc_phase (sys_calls (hub_run (es @ [LookUp d (task_of k) hint, Send d, Leave c])) c) = Some (Returned r)"
proof -
  have "hub_waiters (sys_hub (hub_run es)) (task_of k) = Some (hc_chan k)"
    using run_reachable [of es] assms(1-3) by (auto simp: reachable_calls_def present_def)
  moreover have "hub_run (es @ fs) = foldl hub_step (hub_run es) fs" for fs by (simp add: hub_run_def)
  ultimately show ?thesis using assms by (simp add: hub_ops)
qed

text \<open>C9: whatever the order of the steps, a hint that a call for help returns was submitted for the task of that very call.\<close>

theorem hints_reach_their_task:
  assumes "sys_calls (hub_run es) c = Some k" "hc_phase k = Returned (HookHint hint)"
  shows "submitted es (task_of k) hint"
  using run_routed [of es] assms unfolding routed_def hinted_def by blast


definition demo_request :: "string \<Rightarrow> help_request" where
  "demo_request task = \<lparr>hr_task_id = task, hr_role = ''developer'', hr_attempt = 3, hr_question = ''why?'', hr_last_error = [],
     hr_attempted_fixes = []\<rparr>"

definition demo_waiting :: "hub_event list" where
  "demo_waiting = [Connect, RequestHelp 0 [] (demo_request ''t1''), Emit 0 1, RequestHelp 1 ''t2'' (demo_request []), Emit 1 1]"

lemma demo_waiting_calls:
  "sys_calls (hub_run demo_waiting) 0 = Some \<lparr>hc_req = demo_request ''t1'', hc_chan = 0, hc_phase = Waiting\<rparr>"
  "sys_calls (hub_run demo_waiting) 1 = Some \<lparr>hc_req = demo_request ''t2'', hc_chan = 1, hc_phase = Waiting\<rparr>"
  "c \<noteq> 0 \<Longrightarrow> c \<noteq> 1 \<Longrightarrow> sys_calls (hub_run demo_waiting) c = None"
  "hub_chans (sys_hub (hub_run demo_waiting)) = Map.empty" "sys_sends (hub_run demo_waiting) = Map.empty"
  by (auto simp: hub_run_def demo_waiting_def hub_start_def new_hub_def hub_ops emitted_def subscriber_queue_cap_def
      demo_request_def with_task_id_def)


lemma hints_reach_their_task_witness:
  "submitted (demo_waiting @ [LookUp 0 ''t1'' ''use float'', Send 0, Wake 0, Leave 0]) ''t1'' ''use float''"
proof -
  let ?es = "demo_waiting @ [LookUp 0 ''t1'' ''use float'', Send 0, Wake 0, Leave 0]"
  have "sys_calls (hub_run ?es) 0 =
      Some \<lparr>hc_req = demo_request ''t1'', hc_chan = 0, hc_phase = Returned (HookHint ''use float'')\<rparr>"
    by (simp add: hub_run_def demo_waiting_def hub_start_def new_hub_def hub_ops emitted_def subscriber_queue_cap_def
        demo_request_def with_task_id_def)
  from hints_reach_their_task [OF this] show ?thesis by (simp add: demo_request_def)
qed

text \<open>Two calls with one task identifier: the first to leave takes the waiter of the other along.\<close>

lemma shared_task_loses_waiter:
  "hub_waiters (sys_hub (hub_run [Connect, RequestHelp 0 [] (demo_request ''t''), Emit 0 1,
     RequestHelp 1 [] (demo_request ''t''), Emit 1 1, Expire 0, Leave 0])) ''t'' = None \<and>
   map_option hc_phase (sys_calls (hub_run [Connect, RequestHelp 0 [] (demo_request ''t''), Emit 0 1,
     RequestHelp 1 [] (demo_request ''t''), Emit 1 1, Expire 0, Leave 0]) 1) = Some Waiting"
  by (simp add: hub_run_def hub_start_def new_hub_def hub_ops emitted_def subscriber_queue_cap_def
      demo_request_def with_task_id_def)

end
