(* ===== verification/Calculator.thy ===== *)
theory Calculator
  imports Complex_Main Go_Strings
begin

text \<open>
  The calculator tool (\<open>internal/tool/builtin/calculator.go\<close>): validation, the tokeniser, the shunting-yard translation to
  postfix order and its evaluation. The floating-point numbers are a type parameter with their operations in a record, so that
  the results hold for whatever rounding the arithmetic has; \<open>ar_read neg m k\<close> is the number nearest to \<open>m\<close> shifted by
  \<open>k\<close> decimal places, or none when it is too large, \<open>ar_show\<close> is the printing of the result. Digits are the ASCII digits.
\<close>

record 'n arith =
  ar_read :: "bool \<Rightarrow> nat \<Rightarrow> nat \<Rightarrow> 'n option"
  ar_add :: "'n \<Rightarrow> 'n \<Rightarrow> 'n"
  ar_sub :: "'n \<Rightarrow> 'n \<Rightarrow> 'n"
  ar_mul :: "'n \<Rightarrow> 'n \<Rightarrow> 'n"
  ar_div :: "'n \<Rightarrow> 'n \<Rightarrow> 'n"
  ar_is_zero :: "'n \<Rightarrow> bool"
  ar_one :: 'n
  ar_int :: "'n \<Rightarrow> int"
  ar_show :: "'n \<Rightarrow> string"

datatype calc_error = ExpressionRequired | InvalidCharacters | MismatchedParentheses | InvalidToken string
  | NotEnoughOperands | DivisionByZero | TooManyOperands

section \<open>Tokens\<close>

definition calc_chars :: "char list" where
  "calc_chars = [CHR ''+'', CHR ''-'', CHR ''*'', CHR ''/'', CHR ''^'', CHR ''('', CHR '')'', CHR ''.'']"

definition is_valid_expression :: "string \<Rightarrow> bool" where
  "is_valid_expression expr0 \<longleftrightarrow>
     (let expr = filter (\<lambda>c. c \<noteq> CHR '' '') expr0
      in expr \<noteq> [] \<and> list_all (\<lambda>c. is_digit c \<or> c \<in> set calc_chars) expr)"

definition flush_number :: "string \<Rightarrow> string list" where
  "flush_number num = (if num = [] then [] else [num])"

text \<open>The first argument is the byte before, \<open>None\<close> at the beginning.\<close>

fun calc_tokenize :: "char option \<Rightarrow> string \<Rightarrow> string \<Rightarrow> string list" where
  "calc_tokenize prev num [] = flush_number num"
| "calc_tokenize prev num (c # cs) =
     (if c = CHR '' '' then calc_tokenize (Some c) num cs
      else if is_digit c \<or> c = CHR ''.'' then calc_tokenize (Some c) (num @ [c]) cs
      else flush_number num @
        (if c = CHR ''-'' \<and> (prev = None \<or> prev = Some (CHR ''('')) then calc_tokenize (Some c) [c] cs
         else [c] # calc_tokenize (Some c) [] cs))"

text \<open>
  Reading a token as a number: a sign, digits and at most one dot, with a digit somewhere. The other forms of the standard
  library's reader (exponents, infinities) contain letters, which the validation has refused.
\<close>

definition dec_number :: "string \<Rightarrow> (nat \<times> nat) option" where
  "dec_number s =
     (let whole = takeWhile is_digit s; rest = dropWhile is_digit s; frac = (if rest = [] then [] else tl rest)
      in if (rest = [] \<or> hd rest = CHR ''.'') \<and> list_all is_digit frac \<and> whole @ frac \<noteq> []
         then Some (dec_value (whole @ frac), length frac) else None)"

definition parse_float :: "'n arith \<Rightarrow> string \<Rightarrow> 'n option" where
  "parse_float ar s =
     (if has_prefix s ''-'' then Option.bind (dec_number (tl s)) (\<lambda>(m, k). ar_read ar True m k)
      else Option.bind (dec_number s) (\<lambda>(m, k). ar_read ar False m k))"

definition is_number :: "'n arith \<Rightarrow> string \<Rightarrow> bool" where
  "is_number ar s \<longleftrightarrow> parse_float ar s \<noteq> None"

definition is_operator :: "string \<Rightarrow> bool" where
  "is_operator s \<longleftrightarrow> s \<in> set [''+'', ''-'', ''*'', ''/'', ''^'']"

section \<open>Shunting yard\<close>

definition precedence :: "string \<Rightarrow> nat" where
  "precedence op = (if op = ''^'' then 4 else if op = ''*'' \<or> op = ''/'' then 3 else if op = ''+'' \<or> op = ''-'' then 2 else 0)"

definition left_assoc :: "string \<Rightarrow> bool" where
  "left_assoc op \<longleftrightarrow> op \<noteq> ''^''"

definition yields_to :: "string \<Rightarrow> string \<Rightarrow> bool" where
  "yields_to token tp \<longleftrightarrow> (if left_assoc token then precedence token \<le> precedence tp else precedence token < precedence tp)"

text \<open>The stack has its top in front. Each result is what moves to the output and the stack that is left.\<close>

fun pop_operators :: "string \<Rightarrow> string list \<Rightarrow> string list \<times> string list" where
  "pop_operators token [] = ([], [])"
| "pop_operators token (tp # stack) =
     (if is_operator tp \<and> yields_to token tp
      then (case pop_operators token stack of (out, st) \<Rightarrow> (tp # out, st)) else ([], tp # stack))"

definition pop_group :: "string list \<Rightarrow> string list \<times> string list" where
  "pop_group stack = (takeWhile (\<lambda>t. t \<noteq> ''('') stack, dropWhile (\<lambda>t. t \<noteq> ''('') stack)"

fun to_rpn :: "'n arith \<Rightarrow> string list \<Rightarrow> string list \<Rightarrow> string list \<Rightarrow> calc_error + string list" where
  "to_rpn ar out stack [] =
     (if ''('' \<in> set stack \<or> '')'' \<in> set stack then Inl MismatchedParentheses else Inr (out @ stack))"
| "to_rpn ar out stack (token # tokens) =
     (if is_number ar token then to_rpn ar (out @ [token]) stack tokens
      else if token = ''('' then to_rpn ar out (token # stack) tokens
      else if token = '')'' then
        (case pop_group stack of (popped, st) \<Rightarrow>
          if st = [] then Inl MismatchedParentheses else to_rpn ar (out @ popped) (tl st) tokens)
      else if is_operator token then
        (case pop_operators token stack of (popped, st) \<Rightarrow> to_rpn ar (out @ popped) (token # st) tokens)
      else Inl (InvalidToken token))"

section \<open>Evaluation\<close>

definition calc_power :: "'n arith \<Rightarrow> 'n \<Rightarrow> 'n \<Rightarrow> 'n" where
  "calc_power ar a b = ((\<lambda>result. ar_mul ar result a) ^^ nat (ar_int ar b)) (ar_one ar)"

definition apply_operator :: "'n arith \<Rightarrow> string \<Rightarrow> 'n \<Rightarrow> 'n \<Rightarrow> calc_error + 'n" where
  "apply_operator ar op a b =
     (if op = ''+'' then Inr (ar_add ar a b)
      else if op = ''-'' then Inr (ar_sub ar a b)
      else if op = ''*'' then Inr (ar_mul ar a b)
      else if op = ''/'' then (if ar_is_zero ar b then Inl DivisionByZero else Inr (ar_div ar a b))
      else Inr (calc_power ar a b))"

fun evaluate_rpn :: "'n arith \<Rightarrow> 'n list \<Rightarrow> string list \<Rightarrow> calc_error + 'n" where
  "evaluate_rpn ar stack [] = (case stack of [x] \<Rightarrow> Inr x | _ \<Rightarrow> Inl TooManyOperands)"
| "evaluate_rpn ar stack (token # tokens) =
     (case parse_float ar token of
        Some x \<Rightarrow> evaluate_rpn ar (x # stack) tokens
      | None \<Rightarrow>
          if is_operator token then
            (case stack of
               b # a # st \<Rightarrow>
                 (case apply_operator ar token a b of Inl e \<Rightarrow> Inl e | Inr x \<Rightarrow> evaluate_rpn ar (x # st) tokens)
             | _ \<Rightarrow> Inl NotEnoughOperands)
          else evaluate_rpn ar stack tokens)"

definition evaluate :: "'n arith \<Rightarrow> string \<Rightarrow> calc_error + 'n" where
  "evaluate ar expr =
     (case to_rpn ar [] [] (calc_tokenize None [] expr) of Inl e \<Rightarrow> Inl e | Inr rpn \<Rightarrow> evaluate_rpn ar [] rpn)"

definition calculator_execute :: "'n arith \<Rightarrow> string option \<Rightarrow> calc_error + string" where
  "calculator_execute ar param =
     (case param of
        None \<Rightarrow> Inl ExpressionRequired
      | Some expr \<Rightarrow>
          if expr = [] then Inl ExpressionRequired
          else if \<not> is_valid_expression expr then Inl InvalidCharacters
          else case evaluate ar expr of Inl e \<Rightarrow> Inl e | Inr x \<Rightarrow> Inr (expr @ '' = '' @ ar_show ar x))"


section \<open>Expressions\<close>

text \<open>
  The reference: expression trees with their value, written with the fewest parentheses. Negative literals are written in
  parentheses, which is where the tokeniser recognises them, and operators may have blanks around them.
\<close>

datatype expr = Num bool string | Bin string expr expr

fun expr_ok :: "'n arith \<Rightarrow> expr \<Rightarrow> bool" where
  "expr_ok ar (Num neg ds) \<longleftrightarrow> ds \<noteq> [] \<and> list_all (\<lambda>c. is_digit c \<or> c = CHR ''.'') ds \<and>
     is_number ar (if neg then ''-'' @ ds else ds)"
| "expr_ok ar (Bin op l r) \<longleftrightarrow> is_operator op \<and> expr_ok ar l \<and> expr_ok ar r"

fun expr_value :: "'n arith \<Rightarrow> expr \<Rightarrow> calc_error + 'n" where
  "expr_value ar (Num neg ds) = Inr (the (parse_float ar (if neg then ''-'' @ ds else ds)))"
| "expr_value ar (Bin op l r) =
     (case expr_value ar l of Inl e \<Rightarrow> Inl e
      | Inr a \<Rightarrow> (case expr_value ar r of Inl e \<Rightarrow> Inl e | Inr b \<Rightarrow> apply_operator ar op a b))"

definition in_parens :: "bool \<Rightarrow> string list \<Rightarrow> string list" where
  "in_parens b ts = (if b then [''(''] @ ts @ ['')''] else ts)"

text \<open>The tokens of an expression where the context binds at level \<open>p\<close>.\<close>

fun expr_tokens :: "nat \<Rightarrow> expr \<Rightarrow> string list" where
  "expr_tokens p (Num neg ds) = (if neg then [''('', ''-'' @ ds, '')''] else [ds])"
| "expr_tokens p (Bin op l r) =
     in_parens (precedence op < p)
       (if left_assoc op then expr_tokens (precedence op) l @ [op] @ expr_tokens (precedence op + 1) r
        else expr_tokens (precedence op + 1) l @ [op] @ expr_tokens (precedence op) r)"

fun postfix :: "expr \<Rightarrow> string list" where
  "postfix (Num neg ds) = [if neg then ''-'' @ ds else ds]"
| "postfix (Bin op l r) = postfix l @ postfix r @ [op]"

lemma operator_cases: "is_operator op \<Longrightarrow> op = ''+'' \<or> op = ''-'' \<or> op = ''*'' \<or> op = ''/'' \<or> op = ''^''"
  by (simp add: is_operator_def)

lemma operator_not_number: "is_operator op \<Longrightarrow> \<not> is_number ar op"
  using operator_cases [of op] by (auto simp: is_number_def parse_float_def dec_number_def is_digit_def byte_def)

lemma paren_not_number [simp]: "\<not> is_number ar ''(''" "\<not> is_number ar '')''" "\<not> is_operator ''(''" "\<not> is_operator '')''"
  by (auto simp: is_number_def parse_float_def dec_number_def is_digit_def byte_def is_operator_def)

lemma evaluate_postfix:
  assumes "expr_ok ar e"
  shows "evaluate_rpn ar stack (postfix e @ ts) =
    (case expr_value ar e of Inl err \<Rightarrow> Inl err | Inr x \<Rightarrow> evaluate_rpn ar (x # stack) ts)"
  using assms
proof (induction e arbitrary: stack ts)
  case (Num neg ds)
  then show ?case by (auto simp: is_number_def split: option.splits)
next
  case (Bin op l r)
  then have "parse_float ar op = None" using operator_not_number by (auto simp: is_number_def)
  with Bin show ?case by (auto split: sum.splits)
qed

text \<open>
  A stack is quiet at level \<open>p\<close> when no operator of an expression at that level pops its top. Then such an expression leaves
  its operators that are still waiting on top of the stack, and the output followed by them is the postfix form.
\<close>

definition quiet :: "nat \<Rightarrow> string list \<Rightarrow> bool" where
  "quiet p stack \<longleftrightarrow>
     (case stack of [] \<Rightarrow> True | t # _ \<Rightarrow> is_operator t \<longrightarrow> (\<forall>op. is_operator op \<longrightarrow> p \<le> precedence op \<longrightarrow> \<not> yields_to op t))"

definition waiting :: "nat \<Rightarrow> string list \<Rightarrow> bool" where
  "waiting p ops \<longleftrightarrow> list_all (\<lambda>t. is_operator t \<and> p \<le> precedence t) ops"

lemma pop_operators_all:
  assumes "\<forall>t\<in>set ops. is_operator t \<and> yields_to op t" "stack = [] \<or> \<not> (is_operator (hd stack) \<and> yields_to op (hd stack))"
  shows "pop_operators op (ops @ stack) = (ops, stack)"
  using assms by (induction ops) (cases stack; auto)+

lemma precedence_le: "is_operator op \<Longrightarrow> precedence op \<le> 4"
  using operator_cases [of op] by (auto simp: precedence_def)

lemma waiting_high: "waiting 5 ops \<Longrightarrow> ops = []"
  by (cases ops) (auto simp: waiting_def dest: precedence_le)

lemma right_assoc_prec: "is_operator op \<Longrightarrow> \<not> left_assoc op \<Longrightarrow> precedence op = 4"
  by (simp add: left_assoc_def precedence_def)

lemma left_assoc_prec: "is_operator op \<Longrightarrow> left_assoc op \<Longrightarrow> precedence op < 4"
  using operator_cases [of op] by (auto simp: left_assoc_def precedence_def)

lemma quiet_above_left: "is_operator op \<Longrightarrow> left_assoc op \<Longrightarrow> quiet (precedence op + 1) (op # stack)"
  by (auto simp: quiet_def yields_to_def)

lemma quiet_above_right: "is_operator op \<Longrightarrow> \<not> left_assoc op \<Longrightarrow> quiet (precedence op) (op # stack)"
  using left_assoc_prec right_assoc_prec [of op] precedence_le unfolding quiet_def yields_to_def by fastforce

lemma quiet_mono: "quiet p stack \<Longrightarrow> p \<le> q \<Longrightarrow> quiet q stack"
  unfolding quiet_def by (auto split: list.splits)

lemma quiet_paren: "quiet p (''('' # stack)"
  by (simp add: quiet_def paren_not_number)

lemma quiet_pops:
  "quiet p stack \<Longrightarrow> is_operator op \<Longrightarrow> p \<le> precedence op \<Longrightarrow>
     stack = [] \<or> \<not> (is_operator (hd stack) \<and> yields_to op (hd stack))"
  by (cases stack) (auto simp: quiet_def)

lemma pop_group_waiting:
  assumes "waiting p ops"
  shows "pop_group (ops @ ''('' # stack) = (ops, ''('' # stack)"
proof -
  have "\<forall>t\<in>set ops. t \<noteq> ''(''" using assms paren_not_number(3) by (auto simp: waiting_def list_all_iff)
  then show ?thesis by (simp add: pop_group_def takeWhile_append2 dropWhile_append2)
qed

lemma waiting_append: "waiting p (xs @ ys) \<longleftrightarrow> waiting p xs \<and> waiting p ys"
  by (simp add: waiting_def)

lemma waiting_mono: "waiting q ops \<Longrightarrow> p \<le> q \<Longrightarrow> waiting p ops"
  by (auto simp: waiting_def list_all_iff)

definition shunts :: "'n arith \<Rightarrow> nat \<Rightarrow> string list \<Rightarrow> string list \<Rightarrow> bool" where
  "shunts ar p tokens post \<longleftrightarrow>
     (\<forall>out stack rest. quiet p stack \<longrightarrow>
        (\<exists>o' ops. to_rpn ar out stack (tokens @ rest) = to_rpn ar (out @ o') (ops @ stack) rest \<and>
           o' @ ops = post \<and> waiting p ops))"

lemma shuntsE:
  assumes "shunts ar p tokens post" "quiet p stack"
  obtains o' ops where "to_rpn ar out stack (tokens @ rest) = to_rpn ar (out @ o') (ops @ stack) rest"
    "o' @ ops = post" "waiting p ops"
  using assms unfolding shunts_def by blast

text \<open>A closed group leaves nothing waiting, at any level.\<close>

lemma shunts_group:
  assumes "shunts ar 0 tokens post"
  shows "shunts ar p ([''(''] @ tokens @ ['')'']) post"
  unfolding shunts_def
proof (intro allI impI)
  fix out stack rest
  obtain o' ops where s: "to_rpn ar out (''('' # stack) (tokens @ ('')'' # rest)) = to_rpn ar (out @ o') (ops @ ''('' # stack) ('')'' # rest)"
    "o' @ ops = post" "waiting 0 ops"
    using assms quiet_paren by (rule shuntsE)
  have "to_rpn ar out stack (([''(''] @ tokens @ ['')'']) @ rest) = to_rpn ar (out @ post) ([] @ stack) rest"
    using s by (simp add: pop_group_waiting)
  then show "\<exists>o' ops. to_rpn ar out stack (([''(''] @ tokens @ ['')'']) @ rest) = to_rpn ar (out @ o') (ops @ stack) rest \<and>
      o' @ ops = post \<and> waiting p ops"
    by (intro exI [of _ post] exI [of _ "[]"]) (simp add: waiting_def)
qed

text \<open>A binary expression, whose left operand is at level \<open>pl\<close> and whose right operand is at level \<open>pr\<close>.\<close>

lemma shunts_binary:
  assumes op: "is_operator op" "p \<le> precedence op"
    and l: "shunts ar pl ltoks lpost" and r: "shunts ar pr rtoks rpost"
    and levels: "precedence op \<le> pl" "precedence op \<le> pr"
    and pops: "\<And>ops. waiting pl ops \<Longrightarrow> \<forall>t\<in>set ops. is_operator t \<and> yields_to op t"
    and calm: "\<And>stack. quiet pr (op # stack)"
  shows "shunts ar p (ltoks @ [op] @ rtoks) (lpost @ rpost @ [op])"
  unfolding shunts_def
proof (intro allI impI)
  fix out stack rest
  assume q: "quiet p stack"
  have "quiet pl stack" using q op(2) levels(1) by (meson quiet_mono le_trans)
  with l obtain o1 ops1 where s1: "to_rpn ar out stack (ltoks @ (op # rtoks @ rest)) = to_rpn ar (out @ o1) (ops1 @ stack) (op # rtoks @ rest)"
    "o1 @ ops1 = lpost" "waiting pl ops1"
    by (rule shuntsE)
  have pop: "pop_operators op (ops1 @ stack) = (ops1, stack)"
    by (rule pop_operators_all [OF pops [OF s1(3)] quiet_pops [OF q op]])
  obtain o2 ops2 where s2: "to_rpn ar (out @ lpost) (op # stack) (rtoks @ rest) = to_rpn ar ((out @ lpost) @ o2) (ops2 @ op # stack) rest"
    "o2 @ ops2 = rpost" "waiting pr ops2"
    using r calm by (rule shuntsE)
  have "op \<noteq> ''(''" "op \<noteq> '')''" using op(1) paren_not_number(3,4) by auto
  then have "to_rpn ar out stack ((ltoks @ [op] @ rtoks) @ rest) = to_rpn ar (out @ (lpost @ o2)) ((ops2 @ [op]) @ stack) rest"
    using s1 s2 pop op(1) operator_not_number [OF op(1), of ar] by simp
  moreover have "(lpost @ o2) @ (ops2 @ [op]) = lpost @ rpost @ [op]" using s2(2) by simp
  moreover have "waiting p (ops2 @ [op])"
    using s2(3) op levels(2) by (auto simp: waiting_append waiting_def [of _ "[op]"] intro: waiting_mono)
  ultimately show "\<exists>o' ops. to_rpn ar out stack ((ltoks @ [op] @ rtoks) @ rest) = to_rpn ar (out @ o') (ops @ stack) rest \<and>
      o' @ ops = lpost @ rpost @ [op] \<and> waiting p ops"
    by blast
qed

lemma shunts_number: "is_number ar tok \<Longrightarrow> shunts ar p [tok] [tok]"
  unfolding shunts_def by (intro allI impI, rule exI [of _ "[tok]"], rule exI [of _ "[]"]) (simp add: waiting_def)

lemma expr_shunts: "expr_ok ar e \<Longrightarrow> shunts ar p (expr_tokens p e) (postfix e)"
proof (induction e arbitrary: p)
  case (Num neg ds)
  then show ?case using shunts_number shunts_group [OF shunts_number, of ar "''-'' @ ds"] by auto
next
  case (Bin op l r)
  then have op: "is_operator op" and ok: "expr_ok ar l" "expr_ok ar r" by auto
  let ?inner = "if left_assoc op then expr_tokens (precedence op) l @ [op] @ expr_tokens (precedence op + 1) r
        else expr_tokens (precedence op + 1) l @ [op] @ expr_tokens (precedence op) r"
  have inner: "shunts ar q ?inner (postfix (Bin op l r))" if "q \<le> precedence op" for q
  proof (cases "left_assoc op")
    case True
    have "shunts ar q (expr_tokens (precedence op) l @ [op] @ expr_tokens (precedence op + 1) r) (postfix l @ postfix r @ [op])"
      by (rule shunts_binary [OF op that Bin.IH(1) [OF ok(1)] Bin.IH(2) [OF ok(2)]])
        (use True quiet_above_left [OF op] in \<open>auto simp: waiting_def list_all_iff yields_to_def\<close>)
    then show ?thesis using True by simp
  next
    case False
    have none: "waiting (Suc (precedence op)) ops \<Longrightarrow> ops = []" for ops
      using right_assoc_prec [OF op False] waiting_high by simp
    have "shunts ar q (expr_tokens (precedence op + 1) l @ [op] @ expr_tokens (precedence op) r) (postfix l @ postfix r @ [op])"
      by (rule shunts_binary [OF op that Bin.IH(1) [OF ok(1)] Bin.IH(2) [OF ok(2)]])
        (use False quiet_above_right [OF op] in \<open>auto dest!: none\<close>)
    then show ?thesis using False by simp
  qed
  show ?case
  proof (cases "precedence op < p")
    case True
    then show ?thesis using shunts_group [OF inner [of 0]] by (simp add: in_parens_def)
  next
    case False
    then show ?thesis using inner [of p] by (simp add: in_parens_def)
  qed
qed

lemma expr_to_rpn:
  assumes "expr_ok ar e"
  shows "to_rpn ar [] [] (expr_tokens 0 e) = Inr (postfix e)"
proof -
  have "quiet 0 []" by (simp add: quiet_def)
  with expr_shunts [OF assms] obtain o' ops where s: "to_rpn ar [] [] (expr_tokens 0 e @ []) = to_rpn ar ([] @ o') (ops @ []) []"
    "o' @ ops = postfix e" "waiting 0 ops"
    by (rule shuntsE)
  have "''('' \<notin> set ops" "'')'' \<notin> set ops" using s(3) paren_not_number(3,4) by (auto simp: waiting_def list_all_iff)
  with s show ?thesis by simp
qed


section \<open>From the text to the tokens\<close>

text \<open>The text of an expression, with \<open>n\<close> blanks on both sides of every operator.\<close>

definition blanks :: "nat \<Rightarrow> string" where
  "blanks n = replicate n (CHR '' '')"

definition token_text :: "nat \<Rightarrow> string \<Rightarrow> string" where
  "token_text n t = (if is_operator t then blanks n @ t @ blanks n else t)"

definition calc_text :: "nat \<Rightarrow> string list \<Rightarrow> string" where
  "calc_text n ts = concat (map (token_text n) ts)"

definition number_char :: "char \<Rightarrow> bool" where
  "number_char c \<longleftrightarrow> is_digit c \<or> c = CHR ''.''"

lemma calc_text_simps [simp]:
  "calc_text n [] = []" "calc_text n (t # ts) = token_text n t @ calc_text n ts"
  "calc_text n (ts @ us) = calc_text n ts @ calc_text n us"
  by (simp_all add: calc_text_def)

definition breaks :: "string \<Rightarrow> bool" where
  "breaks s \<longleftrightarrow> (case dropWhile (\<lambda>c. c = CHR '' '') s of [] \<Rightarrow> True | c # _ \<Rightarrow> \<not> number_char c)"

lemma breaks_blanks [simp]: "breaks (blanks n @ s) = breaks s"
  by (induction n) (simp_all add: breaks_def blanks_def)

lemma breaks_Cons: "c \<noteq> CHR '' '' \<Longrightarrow> breaks (c # s) = (\<not> number_char c)"
  by (simp add: breaks_def)

lemma blank_not_number [simp]: "\<not> number_char (CHR '' '')"
  by (simp add: number_char_def is_digit_def byte_def)

lemma tokenize_break: "breaks s \<Longrightarrow> calc_tokenize prev num s = flush_number num @ calc_tokenize prev [] s"
proof (induction s arbitrary: prev)
  case (Cons c cs)
  show ?case
  proof (cases "c = CHR '' ''")
    case True
    then show ?thesis using Cons by (simp add: breaks_def)
  next
    case False
    then show ?thesis using Cons.prems by (simp add: breaks_Cons number_char_def flush_number_def)
  qed
qed (simp add: flush_number_def)

lemma tokenize_digits:
  "list_all number_char ds \<Longrightarrow> \<exists>q. calc_tokenize prev num (ds @ s) = calc_tokenize q (num @ ds) s \<and> (ds \<noteq> [] \<longrightarrow> q = Some (last ds))"
proof (induction ds arbitrary: prev num)
  case (Cons d ds)
  then have "calc_tokenize prev num ((d # ds) @ s) = calc_tokenize (Some d) (num @ [d]) (ds @ s)"
    using blank_not_number by (auto simp: number_char_def)
  moreover obtain q where "calc_tokenize (Some d) (num @ [d]) (ds @ s) = calc_tokenize q ((num @ [d]) @ ds) s" "ds \<noteq> [] \<longrightarrow> q = Some (last ds)"
    using Cons by fastforce
  moreover have "calc_tokenize (Some d) (num @ [d]) ([] @ s) = calc_tokenize (Some d) (num @ [d]) s" by simp
  ultimately show ?case by (cases "ds = []") auto
qed auto

lemma tokenize_blanks: "\<exists>q. calc_tokenize prev [] (blanks n @ s) = calc_tokenize q [] s \<and> (n = 0 \<longrightarrow> q = prev) \<and> (n \<noteq> 0 \<longrightarrow> q = Some (CHR '' ''))"
proof (induction n arbitrary: prev)
  case (Suc n)
  have "calc_tokenize prev [] (blanks (Suc n) @ s) = calc_tokenize (Some (CHR '' '')) [] (blanks n @ s)" by (simp add: blanks_def)
  with Suc [of "Some (CHR '' '')"] show ?case by (cases n) auto
qed (simp add: blanks_def)

lemma operator_char: "is_operator op \<Longrightarrow> \<exists>c. op = [c] \<and> \<not> number_char c \<and> c \<noteq> CHR '' ''"
  by (drule operator_cases, elim disjE) (simp_all add: number_char_def is_digit_def byte_def)

text \<open>Behind an operand a minus sign is an operator.\<close>

definition operand_end :: "char option \<Rightarrow> bool" where
  "operand_end q \<longleftrightarrow> q \<noteq> None \<and> q \<noteq> Some (CHR ''('')"

lemma tokenize_operator:
  assumes "is_operator op" "operand_end prev"
  shows "\<exists>q. calc_tokenize prev [] (token_text n op @ s) = op # calc_tokenize q [] s"
proof -
  obtain q1 where b: "calc_tokenize prev [] (blanks n @ op @ blanks n @ s) = calc_tokenize q1 [] (op @ blanks n @ s)"
    "n = 0 \<longrightarrow> q1 = prev" "n \<noteq> 0 \<longrightarrow> q1 = Some (CHR '' '')"
    using tokenize_blanks by blast
  then have q1: "operand_end q1" using assms(2) by (cases "n = 0") (simp_all add: operand_end_def)
  obtain c where c: "op = [c]" "\<not> number_char c" "c \<noteq> CHR '' ''"
    using operator_char [OF assms(1)] by blast
  have "calc_tokenize q1 [] (op @ blanks n @ s) = op # calc_tokenize (Some c) [] (blanks n @ s)"
    using c q1 by (auto simp: number_char_def operand_end_def flush_number_def)
  moreover obtain q where "calc_tokenize (Some c) [] (blanks n @ s) = calc_tokenize q [] s" using tokenize_blanks by blast
  ultimately show ?thesis using assms(1) b(1) by (auto simp: token_text_def)
qed

definition tokenizes :: "nat \<Rightarrow> string list \<Rightarrow> bool" where
  "tokenizes n ts \<longleftrightarrow>
     (\<forall>prev s. breaks s \<longrightarrow> (\<exists>q. operand_end q \<and> calc_tokenize prev [] (calc_text n ts @ s) = ts @ calc_tokenize q [] s))"

lemma tokenizesE:
  assumes "tokenizes n ts" "breaks s"
  obtains q where "operand_end q" "calc_tokenize prev [] (calc_text n ts @ s) = ts @ calc_tokenize q [] s"
  using assms unfolding tokenizes_def by blast

lemma paren_chars: "breaks (CHR '')'' # s)" "token_text n ''('' = ''(''" "token_text n '')'' = '')''"
  by (simp_all add: breaks_Cons number_char_def is_digit_def byte_def token_text_def)

lemma tokenizes_group:
  assumes "tokenizes n ts"
  shows "tokenizes n ([''(''] @ ts @ ['')''])"
  unfolding tokenizes_def
proof (intro allI impI)
  fix prev s
  obtain q where q: "calc_tokenize (Some (CHR ''('')) [] (calc_text n ts @ CHR '')'' # s) = ts @ calc_tokenize q [] (CHR '')'' # s)"
    using assms paren_chars(1) by (rule tokenizesE)
  have "calc_tokenize prev [] (calc_text n ([''(''] @ ts @ ['')'']) @ s) = ([''(''] @ ts @ ['')'']) @ calc_tokenize (Some (CHR '')'')) [] s"
    using q by (simp add: paren_chars flush_number_def is_digit_def byte_def)
  then show "\<exists>q. operand_end q \<and> calc_tokenize prev [] (calc_text n ([''(''] @ ts @ ['')'']) @ s) = ([''(''] @ ts @ ['')'']) @ calc_tokenize q [] s"
    by (intro exI [of _ "Some (CHR '')'')"]) (simp add: operand_end_def)
qed

lemma tokenizes_binary:
  assumes "is_operator op" "tokenizes n ls" "tokenizes n rs"
  shows "tokenizes n (ls @ [op] @ rs)"
  unfolding tokenizes_def
proof (intro allI impI)
  fix prev s assume s: "breaks s"
  let ?r = "token_text n op @ calc_text n rs @ s"
  obtain c where "op = [c]" "\<not> number_char c" "c \<noteq> CHR '' ''" using operator_char [OF assms(1)] by blast
  then have "breaks ?r" using assms(1) by (simp add: token_text_def breaks_Cons)
  with assms(2) obtain q1 where q1: "operand_end q1" "calc_tokenize prev [] (calc_text n ls @ ?r) = ls @ calc_tokenize q1 [] ?r"
    by (rule tokenizesE)
  obtain q2 where q2: "calc_tokenize q1 [] ?r = op # calc_tokenize q2 [] (calc_text n rs @ s)"
    using tokenize_operator [OF assms(1) q1(1)] by blast
  obtain q3 where "operand_end q3" "calc_tokenize q2 [] (calc_text n rs @ s) = rs @ calc_tokenize q3 [] s"
    using assms(3) s by (rule tokenizesE)
  with q1 q2 show "\<exists>q. operand_end q \<and> calc_tokenize prev [] (calc_text n (ls @ [op] @ rs) @ s) = (ls @ [op] @ rs) @ calc_tokenize q [] s"
    by auto
qed

lemma digits_not_operator: "list_all number_char ds \<Longrightarrow> \<not> is_operator ds \<and> \<not> is_operator (CHR ''-'' # d # ds)"
  by (cases ds) (auto simp: is_operator_def number_char_def is_digit_def byte_def)

lemma tokenizes_literal:
  assumes "list_all number_char ds" "ds \<noteq> []"
  shows "tokenizes n [ds]" "tokenizes n [''('', ''-'' @ ds, '')'']"
proof -
  have last: "operand_end (Some (last ds))"
    using assms by (auto simp: operand_end_def list_all_iff number_char_def is_digit_def byte_def dest!: last_in_set)
  show "tokenizes n [ds]"
    unfolding tokenizes_def
  proof (intro allI impI)
    fix prev s assume "breaks s"
    then show "\<exists>q. operand_end q \<and> calc_tokenize prev [] (calc_text n [ds] @ s) = [ds] @ calc_tokenize q [] s"
      using tokenize_digits [OF assms(1), of prev "[]" s] assms last tokenize_break [of s "Some (last ds)" ds]
      by (auto simp: token_text_def digits_not_operator flush_number_def)
  qed
  show "tokenizes n [''('', ''-'' @ ds, '')'']"
    unfolding tokenizes_def
  proof (intro allI impI)
    fix prev s assume "breaks s"
    obtain d ds' where d: "ds = d # ds'" using assms(2) by (cases ds) auto
    have t: "token_text n (''-'' @ ds) = ''-'' @ ds"
      using digits_not_operator [of ds' d] assms(1) d by (simp add: token_text_def)
    have "calc_tokenize prev [] (calc_text n [''('', ''-'' @ ds, '')''] @ s) = ''('' # calc_tokenize (Some (CHR ''-'')) ''-'' (ds @ CHR '')'' # s)"
      using t by (simp add: paren_chars flush_number_def is_digit_def byte_def)
    also have "calc_tokenize (Some (CHR ''-'')) ''-'' (ds @ CHR '')'' # s) = calc_tokenize (Some (last ds)) (''-'' @ ds) (CHR '')'' # s)"
      using tokenize_digits [OF assms(1), of "Some (CHR ''-'')" "''-''" "CHR '')'' # s"] assms(2) by auto
    also have "\<dots> = [''-'' @ ds, '')''] @ calc_tokenize (Some (CHR '')'')) [] s"
      by (simp add: flush_number_def is_digit_def byte_def)
    finally show "\<exists>q. operand_end q \<and> calc_tokenize prev [] (calc_text n [''('', ''-'' @ ds, '')''] @ s) =
        [''('', ''-'' @ ds, '')''] @ calc_tokenize q [] s"
      by (intro exI [of _ "Some (CHR '')'')"]) (simp add: operand_end_def)
  qed
qed

lemma expr_tokenizes: "expr_ok ar e \<Longrightarrow> tokenizes n (expr_tokens p e)"
proof (induction e arbitrary: p)
  case (Num neg ds)
  then have "list_all number_char ds" "ds \<noteq> []" by (auto simp: number_char_def list_all_iff)
  then show ?case using tokenizes_literal by simp
next
  case (Bin op l r)
  then show ?case using tokenizes_binary tokenizes_group by (auto simp: in_parens_def simp del: append_Cons append.simps)
qed

definition calc_char :: "char \<Rightarrow> bool" where
  "calc_char c \<longleftrightarrow> c = CHR '' '' \<or> is_digit c \<or> c \<in> set calc_chars"

lemma expr_text_chars: "expr_ok ar e \<Longrightarrow> list_all calc_char (calc_text n (expr_tokens p e))"
proof (induction e arbitrary: p)
  case (Num neg ds)
  then show ?case
    by (auto simp: token_text_def list_all_iff calc_char_def calc_chars_def blanks_def)
next
  case (Bin op l r)
  have "list_all calc_char (token_text n op)" using operator_cases [of op] Bin.prems
    by (auto simp: token_text_def calc_char_def calc_chars_def blanks_def list_all_iff)
  moreover have "calc_char (CHR ''('')" "calc_char (CHR '')'')" by (auto simp: calc_char_def calc_chars_def)
  ultimately show ?case using Bin by (simp add: in_parens_def paren_chars)
qed

lemma expr_text_nonblank: "expr_ok ar e \<Longrightarrow> \<exists>c\<in>set (calc_text n (expr_tokens p e)). c \<noteq> CHR '' ''"
proof (induction e arbitrary: p)
  case (Num neg ds)
  then obtain d ds' where d: "ds = d # ds'" "is_digit d \<or> d = CHR ''.''" by (cases ds) auto
  then have "d \<noteq> CHR '' ''" by (auto simp: is_digit_def byte_def)
  then show ?case using d by (auto simp: token_text_def)
next
  case (Bin op l r)
  then show ?case by (fastforce simp: in_parens_def)
qed

lemma valid_expr_text:
  assumes "expr_ok ar e"
  shows "is_valid_expression (calc_text n (expr_tokens p e))"
proof -
  have "list_all (\<lambda>c. is_digit c \<or> c \<in> set calc_chars) (filter (\<lambda>c. c \<noteq> CHR '' '') (calc_text n (expr_tokens p e)))"
    using expr_text_chars [OF assms, of n p] by (auto simp: list_all_iff calc_char_def)
  moreover have "filter (\<lambda>c. c \<noteq> CHR '' '') (calc_text n (expr_tokens p e)) \<noteq> []"
    using expr_text_nonblank [OF assms, of n p] by (auto simp: filter_empty_conv)
  ultimately show ?thesis by (simp add: is_valid_expression_def)
qed

section \<open>Properties\<close>


definition rat_arith :: "rat arith" where
  "rat_arith = \<lparr>ar_read = (\<lambda>neg m k. Some ((if neg then -1 else 1) * of_nat m / 10 ^ k)), ar_add = (+), ar_sub = (-),
     ar_mul = (*), ar_div = (/), ar_is_zero = (\<lambda>x. x = 0), ar_one = 1, ar_int = floor,
     ar_show = (\<lambda>x. itoa \<lfloor>x\<rfloor>)\<rparr>"


definition demo_expr :: expr where
  "demo_expr = Bin ''*'' (Num True ''3'') (Bin ''-'' (Num False ''10'') (Bin ''-'' (Num False ''2'') (Num False ''1'')))"


text \<open>
  What the comment on the operators does not say: an exponent below one gives 1, a negative factor needs parentheses, blanks
  inside a number vanish, and a minus sign at the beginning belongs to the base.
\<close>

lemma small_exponents: "ar_int ar b \<le> 0 \<Longrightarrow> calc_power ar a b = ar_one ar"
  by (simp add: calc_power_def)

lemma calculator_oddities:
  "calculator_execute rat_arith (Some ''2^(-1)'') = Inr ''2^(-1) = 1''"
  "calculator_execute rat_arith (Some ''2*-3'') = Inl NotEnoughOperands"
  "calculator_execute rat_arith (Some ''1 2 + 3'') = Inr ''1 2 + 3 = 15''"
  "calculator_execute rat_arith (Some ''-2^2'') = Inr ''-2^2 = 4''"
  by code_simp+

end
