(* ===== verification/Patch_Tool.thy ===== *)
theory Patch_Tool
  imports Go_Paths
begin

text \<open>
  The patch tool (\<open>internal/tool/builtin/patch.go\<close>): replacing a text up to its white space, checking the syntax of the file
  and taking the edit back. The expression that the tool hands to the regular-expression library is modelled as a list of
  elements with the library's leftmost, greedy matching; texts are valid UTF-8, so that matching bytes is matching characters.
  The file system and the commands of the syntax check are fields of an environment.
\<close>

section \<open>Find and replace\<close>

function str_count :: "string \<Rightarrow> string \<Rightarrow> nat" where
  "str_count s old =
     (if old = [] \<or> s = [] then 0
      else if has_prefix s old then 1 + str_count (drop (length old) s) old
      else str_count (tl s) old)"
  by auto
termination
  by (relation "measure (\<lambda>(s, old). length s)") auto

declare str_count.simps [simp del]

datatype pattern_item = AnySpace | Exactly char

definition pattern_space :: "char \<Rightarrow> bool" where
  "pattern_space c \<longleftrightarrow> c = CHR '' '' \<or> byte c = 9 \<or> byte c = 10 \<or> byte c = 13"

definition regex_space :: "char \<Rightarrow> bool" where
  "regex_space c \<longleftrightarrow> pattern_space c \<or> byte c = 12"

fun fuzzy_pattern :: "bool \<Rightarrow> string \<Rightarrow> pattern_item list" where
  "fuzzy_pattern run [] = []"
| "fuzzy_pattern run (c # cs) =
     (if pattern_space c then (if run then [] else [AnySpace]) @ fuzzy_pattern True cs
      else Exactly c # fuzzy_pattern False cs)"

text \<open>The length of the match at the beginning: a run of white space takes as much as it can and gives back one by one.\<close>

fun match_at :: "pattern_item list \<Rightarrow> string \<Rightarrow> nat option" where
  "match_at [] s = Some 0"
| "match_at (Exactly c # ps) [] = None"
| "match_at (Exactly c # ps) (d # s) = (if c = d then map_option Suc (match_at ps s) else None)"
| "match_at (AnySpace # ps) [] = None"
| "match_at (AnySpace # ps) (d # s) =
     (if \<not> regex_space d then None
      else case match_at (AnySpace # ps) s of
          Some n \<Rightarrow> Some (Suc n)
        | None \<Rightarrow> map_option Suc (match_at ps s))"

function find_matches :: "pattern_item list \<Rightarrow> nat \<Rightarrow> string \<Rightarrow> (nat \<times> nat) list" where
  "find_matches ps pos s =
     (if s = [] then []
      else case match_at ps s of
          Some (Suc n) \<Rightarrow> (pos, pos + Suc n) # find_matches ps (pos + Suc n) (drop (Suc n) s)
        | _ \<Rightarrow> find_matches ps (pos + 1) (tl s))"
  by pat_completeness auto
termination
  by (relation "measure (\<lambda>(ps, pos, s). length s)") auto

declare find_matches.simps [simp del]

definition splice :: "string \<Rightarrow> nat \<times> nat \<Rightarrow> string \<Rightarrow> string" where
  "splice new m out = take (fst m) out @ new @ drop (snd m) out"

definition apply_patch :: "string \<Rightarrow> string \<Rightarrow> string \<Rightarrow> bool \<Rightarrow> string \<times> nat" where
  "apply_patch content old new fuzzy =
     (if \<not> fuzzy then
        (if str_count content old = 0 then (content, 0) else (replace_all content old new, str_count content old))
      else
        let ms = find_matches (fuzzy_pattern False old) 0 content
        in if ms = [] then (content, 0) else (foldr (splice new) ms content, length ms))"

section \<open>The syntax check\<close>

text \<open>
  \<open>pe_write i c\<close> is what the file holds after the \<open>i\<close>-th attempt to write \<open>c\<close>, with the error; \<open>pe_run c cmd dir\<close> is the output
  and the error of a shell command when the file holds \<open>c\<close>.
\<close>

record patch_env =
  pe_home :: "string option"
  pe_read :: "string \<Rightarrow> string option"
  pe_write :: "nat \<Rightarrow> string \<Rightarrow> string \<times> string option"
  pe_have :: "string \<Rightarrow> bool"
  pe_exists :: "string \<Rightarrow> bool"
  pe_run :: "string \<Rightarrow> string \<Rightarrow> string \<Rightarrow> string \<times> string option"

definition shell_quote :: "string \<Rightarrow> string" where
  "shell_quote s =
     [CHR 0x27] @ replace_all s [CHR 0x27] [CHR 0x27, CHR 0x22, CHR 0x27, CHR 0x22, CHR 0x27] @ [CHR 0x27]"

definition run_shell :: "patch_env \<Rightarrow> string \<Rightarrow> string \<Rightarrow> string \<Rightarrow> string option" where
  "run_shell env content cmd dir =
     (case pe_run env content cmd dir of
        (out, None) \<Rightarrow> None
      | (out, Some err) \<Rightarrow>
          let msg = trim_space out
          in Some (err @ [CHR 0x0A] @ (if length msg > 800 then take 800 msg @ ''...'' else msg)))"

definition run_go_check :: "patch_env \<Rightarrow> string \<Rightarrow> string \<Rightarrow> string option" where
  "run_go_check env content path =
     (if \<not> pe_exists env (join_path [dir_path path, ''go.mod''])
      then run_shell env content (''go build -o /dev/null '' @ shell_quote (base_path path)) (dir_path path)
      else run_shell env content ''go vet ./...'' (dir_path path))"

definition run_node_check :: "patch_env \<Rightarrow> string \<Rightarrow> string \<Rightarrow> string option" where
  "run_node_check env content path =
     (if \<not> pe_have env ''node'' then None
      else run_shell env content (''node --check '' @ shell_quote path) (dir_path path))"

definition verify_syntax :: "patch_env \<Rightarrow> string \<Rightarrow> string \<Rightarrow> string option" where
  "verify_syntax env content path =
     (let ext = to_lower (ext_path path); run = (\<lambda>cmd. run_shell env content cmd (dir_path path))
      in if ext = ''.go'' then run_go_check env content path
         else if ext \<in> set [''.js'', ''.mjs'', ''.cjs''] then run_node_check env content path
         else if ext \<in> set [''.jsx'', ''.tsx''] then None
         else if ext = ''.ts'' then
           (if pe_have env ''tsc'' then run (''tsc --noEmit --skipLibCheck '' @ shell_quote path) else None)
         else if ext = ''.py'' then
           (if pe_have env ''python3'' then run (''python3 -m py_compile '' @ shell_quote path) else None)
         else if ext = ''.rs'' then
           (if pe_have env ''rustc''
            then run (''rustc --edition 2021 --crate-type lib '' @ shell_quote path @ '' -o /dev/null'') else None)
         else None)"

section \<open>The tool\<close>

record patch_params =
  pp_path :: string
  pp_old :: string
  pp_new :: string
  pp_fuzzy :: "bool option"
  pp_verify :: "bool option"

datatype patch_error = PathRequired | OldRequired | ReadFailed string | OldNotFound string | WriteFailed string string
  | RevertFailed string string

definition verify_suffix :: "bool \<Rightarrow> string" where
  "verify_suffix verified = (if verified then '' (syntax verified)'' else [])"

definition patched_text :: "string \<Rightarrow> nat \<Rightarrow> bool \<Rightarrow> string" where
  "patched_text path n verify = ''patched '' @ base_path path @ '': '' @ dec_digits n @ '' replacement(s) applied'' @ verify_suffix verify"

definition reverted_text :: "string \<Rightarrow> string" where
  "reverted_text err =
     ''REVERTED: syntax check failed after edit. Error: '' @ err @ [CHR 0x0A] @ ''File restored to original.''"

text \<open>The answer and what the file then holds, \<open>None\<close> when it could not be read.\<close>

definition patch_execute :: "patch_env \<Rightarrow> patch_params \<Rightarrow> (patch_error + string) \<times> string option" where
  "patch_execute env p =
     (if pp_path p = [] then (Inl PathRequired, None)
      else if pp_old p = [] then (Inl OldRequired, None)
      else
        let fuzzy = case_option True id (pp_fuzzy p); verify = case_option True id (pp_verify p);
            path = expand_home (pe_home env) (pp_path p)
        in case pe_read env path of
            None \<Rightarrow> (Inl (ReadFailed path), None)
          | Some original \<Rightarrow>
              (case apply_patch original (pp_old p) (pp_new p) fuzzy of (patched, n) \<Rightarrow>
                if n = 0 then (Inl (OldNotFound path), Some original)
                else (case pe_write env 0 patched of
                    (now, Some err) \<Rightarrow> (Inl (WriteFailed path err), Some now)
                  | (now, None) \<Rightarrow>
                      (case (if verify then verify_syntax env now path else None) of
                         None \<Rightarrow> (Inr (patched_text path n verify), Some now)
                       | Some verr \<Rightarrow>
                           (case pe_write env 1 original of
                              (back, Some rerr) \<Rightarrow> (Inl (RevertFailed verr rerr), Some back)
                            | (back, None) \<Rightarrow> (Inr (reverted_text verr), Some back))))))"

section \<open>What a pattern fits\<close>

inductive fits :: "pattern_item list \<Rightarrow> string \<Rightarrow> bool" where
  fits_Nil: "fits [] []"
| fits_Exactly: "fits ps w \<Longrightarrow> fits (Exactly c # ps) (c # w)"
| fits_AnySpace: "fits ps w \<Longrightarrow> u \<noteq> [] \<Longrightarrow> list_all regex_space u \<Longrightarrow> fits (AnySpace # ps) (u @ w)"

inductive_cases fits_NilE: "fits [] w"
inductive_cases fits_ExactlyE: "fits (Exactly c # ps) w"
inductive_cases fits_AnySpaceE: "fits (AnySpace # ps) w"

lemma match_at_sound: "match_at ps s = Some n \<Longrightarrow> n \<le> length s \<and> fits ps (take n s)"
proof (induction ps s arbitrary: n rule: match_at.induct)
  case (5 ps d s)
  show ?case
  proof (cases "match_at (AnySpace # ps) s")
    case None
    then obtain m where m: "match_at ps s = Some m" "n = Suc m" "regex_space d" using 5(3) by (auto split: if_splits)
    then have "fits (AnySpace # ps) ([d] @ take m s)" using 5(2) None by (intro fits_AnySpace) auto
    then show ?thesis using m 5(2) None by simp
  next
    case (Some m)
    then have n: "n = Suc m" "regex_space d" using 5(3) by (auto split: if_splits)
    from Some n(2) 5(1) have "m \<le> length s" "fits (AnySpace # ps) (take m s)" by auto
    then obtain u w where "take m s = u @ w" "fits ps w" "u \<noteq> []" "list_all regex_space u" by (auto elim: fits_AnySpaceE)
    then have "fits (AnySpace # ps) ((d # u) @ w)" using n(2) by (intro fits_AnySpace) auto
    then show ?thesis using n \<open>take m s = u @ w\<close> \<open>m \<le> length s\<close> by simp
  qed
qed (auto intro: fits.intros split: if_splits)

lemma match_at_complete: "fits ps w \<Longrightarrow> match_at ps (w @ t) \<noteq> None"
proof (induction rule: fits.induct)
  case (fits_AnySpace ps w u)
  from fits_AnySpace.hyps(2,3) show ?case
  proof (induction u)
    case (Cons d u)
    show ?case
    proof (cases "u = []")
      case True
      then show ?thesis using Cons.prems fits_AnySpace.IH by (auto split: option.splits)
    next
      case False
      then have "match_at (AnySpace # ps) ((u @ w) @ t) \<noteq> None" using Cons by simp
      then show ?thesis using Cons.prems by auto
    qed
  qed simp
qed auto

lemma regex_space_pattern: "pattern_space c \<Longrightarrow> regex_space c"
  by (simp add: regex_space_def)

lemma fuzzy_pattern_split: "fuzzy_pattern True s = fuzzy_pattern False (dropWhile pattern_space s)"
  by (induction s) auto

lemma fits_itself: "fits (fuzzy_pattern False s) s"
proof (induction "length s" arbitrary: s rule: less_induct)
  case less
  show ?case
  proof (cases s)
    case Nil
    then show ?thesis by (simp add: fits_Nil)
  next
    case (Cons c cs)
    show ?thesis
    proof (cases "pattern_space c")
      case True
      let ?u = "c # takeWhile pattern_space cs"
      have "fits (fuzzy_pattern False (dropWhile pattern_space cs)) (dropWhile pattern_space cs)"
        by (rule less) (simp add: Cons length_dropWhile_le less_Suc_eq_le)
      then have "fits (AnySpace # fuzzy_pattern False (dropWhile pattern_space cs)) (?u @ dropWhile pattern_space cs)"
        using True by (intro fits_AnySpace) (auto simp: list_all_iff regex_space_pattern dest: set_takeWhileD)
      then show ?thesis using Cons True by (simp add: fuzzy_pattern_split)
    next
      case False
      then show ?thesis using less [of cs] Cons by (auto intro: fits_Exactly)
    qed
  qed
qed


lemma fits_nonempty: "fits ps w \<Longrightarrow> ps \<noteq> [] \<Longrightarrow> w \<noteq> []"
  by (induction rule: fits.induct) auto

lemma fuzzy_pattern_nonempty: "s \<noteq> [] \<Longrightarrow> fuzzy_pattern False s \<noteq> []"
  by (cases s) auto

section \<open>Replacing\<close>

text \<open>
  The reference: \<open>edited P new s s' n\<close> says that \<open>s'\<close> is \<open>s\<close> with \<open>n\<close> disjoint parts, each of which has the property \<open>P\<close>,
  replaced by \<open>new\<close> and everything else kept.
\<close>

inductive edited :: "(string \<Rightarrow> bool) \<Rightarrow> string \<Rightarrow> string \<Rightarrow> string \<Rightarrow> nat \<Rightarrow> bool" for P new where
  edited_Nil: "edited P new [] [] 0"
| edited_keep: "edited P new s s' n \<Longrightarrow> edited P new (c # s) (c # s') n"
| edited_replace: "edited P new s s' n \<Longrightarrow> P w \<Longrightarrow> edited P new (w @ s) (new @ s') (Suc n)"

lemma edited_prefix: "edited P new s s' n \<Longrightarrow> edited P new (g @ s) (g @ s') n"
  by (induction g) (auto intro: edited_keep)

definition shifted :: "nat \<Rightarrow> (nat \<times> nat) list \<Rightarrow> (nat \<times> nat) list" where
  "shifted k = map (\<lambda>(s, e). (k + s, k + e))"

lemma find_matches_shift: "find_matches ps (k + pos) s = shifted k (find_matches ps pos s)"
proof (induction ps pos s rule: find_matches.induct)
  case (1 ps pos s)
  show ?case
    by (subst (1 2) find_matches.simps)
      (use 1 in \<open>auto simp: shifted_def add.assoc split: option.splits nat.splits\<close>)
qed

lemma splice_shifted: "foldr (splice new) (shifted (length g) ms) (g @ s) = g @ foldr (splice new) ms s"
  by (induction ms) (auto simp: shifted_def splice_def)

lemma find_matches_edited:
  "edited (fits ps) new s (foldr (splice new) (find_matches ps 0 s) s) (length (find_matches ps 0 s))"
proof (induction "length s" arbitrary: s rule: less_induct)
  case less
  show ?case
  proof (cases s)
    case Nil
    then show ?thesis by (simp add: find_matches.simps edited_Nil)
  next
    case (Cons c cs)
    consider (hit) n where "match_at ps s = Some (Suc n)" | (miss) "match_at ps s = None \<or> match_at ps s = Some 0"
      by (metis not0_implies_Suc option.exhaust)
    then show ?thesis
    proof cases
      case hit
      let ?m = "take (Suc n) s" and ?r = "drop (Suc n) s"
      have f: "Suc n \<le> length s" "fits ps ?m" using match_at_sound [OF hit] by auto
      have "find_matches ps 0 s = (0, Suc n) # shifted (Suc n) (find_matches ps 0 ?r)"
        using hit Cons find_matches_shift [of ps "Suc n" 0] by (subst find_matches.simps) simp
      moreover have "foldr (splice new) (shifted (Suc n) (find_matches ps 0 ?r)) s = ?m @ foldr (splice new) (find_matches ps 0 ?r) ?r"
        using splice_shifted [of new ?m "find_matches ps 0 ?r" ?r] f(1) by simp
      moreover have "edited (fits ps) new (?m @ ?r) (new @ foldr (splice new) (find_matches ps 0 ?r) ?r) (Suc (length (find_matches ps 0 ?r)))"
        by (rule edited_replace [OF less f(2)]) (use Cons in simp)
      ultimately show ?thesis using f(1) by (simp add: splice_def shifted_def)
    next
      case miss
      have "find_matches ps 0 s = shifted 1 (find_matches ps 0 cs)"
        using miss Cons find_matches_shift [of ps 1 0] by (subst find_matches.simps) (auto split: option.splits)
      moreover have "foldr (splice new) (shifted 1 (find_matches ps 0 cs)) s = [c] @ foldr (splice new) (find_matches ps 0 cs) cs"
        using splice_shifted [of new "[c]" "find_matches ps 0 cs" cs] Cons by simp
      moreover have "edited (fits ps) new (c # cs) (c # foldr (splice new) (find_matches ps 0 cs) cs) (length (find_matches ps 0 cs))"
        by (rule edited_keep [OF less]) (use Cons in simp)
      ultimately show ?thesis using Cons by (simp add: shifted_def)
    qed
  qed
qed

lemma find_matches_finds:
  assumes "fits ps w" "w \<noteq> []" "sublist w s"
  shows "find_matches ps 0 s \<noteq> []"
proof -
  obtain g t where "s = g @ w @ t" using assms(3) by (auto simp: sublist_def)
  moreover have "find_matches ps 0 (g @ w @ t) \<noteq> []"
  proof (induction g)
    case Nil
    obtain n where n: "match_at ps (w @ t) = Some n" using match_at_complete [OF assms(1)] by auto
    show ?case
    proof (cases n)
      case 0
      then have "fits ps []" using match_at_sound [OF n] by simp
      then have "ps = []" using fits_nonempty by auto
      then show ?thesis using assms(1,2) by (auto elim: fits_NilE)
    next
      case (Suc m)
      then show ?thesis using n assms(2) by (subst find_matches.simps) simp
    qed
  next
    case (Cons c g)
    have "find_matches ps 1 (g @ w @ t) \<noteq> []"
      using Cons find_matches_shift [of ps 1 0 "g @ w @ t"] by (auto simp: shifted_def)
    then show ?case by (subst find_matches.simps) (auto split: option.splits nat.splits)
  qed
  ultimately show ?thesis by simp
qed

lemma replace_all_edited:
  "old \<noteq> [] \<Longrightarrow> edited (\<lambda>w. w = old) new s (replace_all s old new) (str_count s old)"
proof (induction "length s" arbitrary: s rule: less_induct)
  case less
  show ?case
  proof (cases "s = []")
    case True
    then show ?thesis by (simp add: replace_all.simps str_count.simps edited_Nil)
  next
    case False
    show ?thesis
    proof (cases "has_prefix s old")
      case True
      then obtain r where r: "s = old @ r" by (auto simp: has_prefix_iff prefix_def)
      have "edited (\<lambda>w. w = old) new (old @ r) (new @ replace_all r old new) (Suc (str_count r old))"
        by (rule edited_replace) (use less r in auto)
      then show ?thesis using True False less.prems r by (subst replace_all.simps, subst str_count.simps) simp
    next
      case miss: False
      obtain c cs where c: "s = c # cs" using False by (cases s) auto
      have "edited (\<lambda>w. w = old) new (c # cs) (c # replace_all cs old new) (str_count cs old)"
        by (rule edited_keep) (use less c in auto)
      then show ?thesis using miss False less.prems c by (subst replace_all.simps, subst str_count.simps) simp
    qed
  qed
qed

definition same_text :: "bool \<Rightarrow> string \<Rightarrow> string \<Rightarrow> bool" where
  "same_text fuzzy old w \<longleftrightarrow> (if fuzzy then fits (fuzzy_pattern False old) w else w = old)"

lemma apply_patch_edited:
  assumes "old \<noteq> []" "apply_patch content old new fuzzy = (patched, n)"
  shows "edited (same_text fuzzy old) new content patched n"
proof (cases fuzzy)
  case True
  then have "same_text fuzzy old = fits (fuzzy_pattern False old)" by (simp add: same_text_def fun_eq_iff)
  then show ?thesis using assms(2) True find_matches_edited [of "fuzzy_pattern False old" new content]
    by (auto simp: apply_patch_def Let_def split: if_splits)
next
  case False
  then have s: "same_text fuzzy old = (\<lambda>w. w = old)" by (simp add: same_text_def fun_eq_iff)
  show ?thesis
  proof (cases "str_count content old = 0")
    case True
    have "edited P new s s 0" for P s by (induction s) (auto intro: edited.intros)
    then show ?thesis using True False assms(2) by (simp add: apply_patch_def)
  next
    case nz: False
    then show ?thesis using assms False replace_all_edited [OF assms(1), of new content] unfolding s by (simp add: apply_patch_def)
  qed
qed

lemma str_count_finds: "old \<noteq> [] \<Longrightarrow> sublist old s \<Longrightarrow> str_count s old \<noteq> 0"
proof (induction s)
  case (Cons c cs)
  then show ?case by (subst str_count.simps) (auto simp: has_prefix_iff sublist_Cons_right)
qed (simp add: sublist_Nil_right)

text \<open>An exact occurrence is always found, whatever the mode.\<close>

lemma apply_patch_finds:
  assumes "old \<noteq> []" "sublist old content"
  shows "snd (apply_patch content old new fuzzy) \<noteq> 0"
  using str_count_finds [OF assms] find_matches_finds [OF fits_itself assms(1,2)]
  by (auto simp: apply_patch_def Let_def)


section \<open>Quoting\<close>

text \<open>How a POSIX shell reads one word: bare characters, single quotes, and double quotes without anything to expand.\<close>

datatype quoting = Bare | Single | Double

definition bare_char :: "char \<Rightarrow> bool" where
  "bare_char c \<longleftrightarrow> is_digit c \<or> is_lower c \<or> is_upper c \<or> c \<in> set ''/._-''"

fun shell_word :: "quoting \<Rightarrow> string \<Rightarrow> string option" where
  "shell_word q [] = (if q = Bare then Some [] else None)"
| "shell_word Bare (c # cs) =
     (if c = CHR 0x27 then shell_word Single cs
      else if c = CHR 0x22 then shell_word Double cs
      else if bare_char c then map_option ((#) c) (shell_word Bare cs) else None)"
| "shell_word Single (c # cs) = (if c = CHR 0x27 then shell_word Bare cs else map_option ((#) c) (shell_word Single cs))"
| "shell_word Double (c # cs) =
     (if c = CHR 0x22 then shell_word Bare cs
      else if c \<in> set [CHR ''$'', CHR 0x60, CHR 0x5C] then None
      else map_option ((#) c) (shell_word Double cs))"

lemma shell_word_quoted:
  "shell_word Single (replace_all s [CHR 0x27] [CHR 0x27, CHR 0x22, CHR 0x27, CHR 0x22, CHR 0x27] @ [CHR 0x27]) = Some s"
proof (induction s)
  case Nil
  then show ?case by (simp add: replace_all.simps)
next
  case (Cons c cs)
  show ?case
  proof (cases "c = CHR 0x27")
    case True
    then show ?thesis using Cons [symmetric] by (subst replace_all.simps) simp
  next
    case False
    then show ?thesis using Cons by (subst replace_all.simps) simp
  qed
qed

section \<open>Properties\<close>

text \<open>A path that the tool quotes is read back by the shell as one word with exactly its characters, whatever they are.\<close>

lemma shell_quote_roundtrip: "shell_word Bare (shell_quote s) = Some s"
  by (simp add: shell_quote_def shell_word_quoted)

text \<open>C29: if the file system reports its failures, the tool either replaces disjoint occurrences of the old text, up to white
space in the fuzzy mode, keeping everything else and having passed the syntax check if that is on, or leaves the file as it
was; and it only says that the text is missing when there is no exact occurrence of it.\<close>

theorem patch_edits_or_restores:
  assumes "pp_path p \<noteq> []" "pp_old p \<noteq> []" "pe_read env (expand_home (pe_home env) (pp_path p)) = Some original"
    and honest: "\<forall>i c now. pe_write env i c = (now, None) \<longrightarrow> now = c"
  shows "case patch_execute env p of
      (Inr out, Some now) \<Rightarrow>
        now = original \<and> (\<exists>err. out = reverted_text err) \<or>
        (\<exists>n>0. edited (same_text (pp_fuzzy p \<noteq> Some False) (pp_old p)) (pp_new p) original now n \<and>
           out = patched_text (expand_home (pe_home env) (pp_path p)) n (pp_verify p \<noteq> Some False) \<and>
           (pp_verify p \<noteq> Some False \<longrightarrow> verify_syntax env now (expand_home (pe_home env) (pp_path p)) = None))
    | (Inl (OldNotFound _), Some now) \<Rightarrow> now = original \<and> \<not> sublist (pp_old p) original
    | (Inl (WriteFailed _ _), Some _) \<Rightarrow> True
    | (Inl (RevertFailed _ _), Some _) \<Rightarrow> True
    | _ \<Rightarrow> False"
proof -
  let ?path = "expand_home (pe_home env) (pp_path p)" and ?f = "pp_fuzzy p \<noteq> Some False" and ?v = "pp_verify p \<noteq> Some False"
  have opt: "case_option True id b \<longleftrightarrow> b \<noteq> Some False" for b :: "bool option" by (cases b) auto
  obtain patched n where a: "apply_patch original (pp_old p) (pp_new p) ?f = (patched, n)"
    by (cases "apply_patch original (pp_old p) (pp_new p) ?f") auto
  have ed: "edited (same_text ?f (pp_old p)) (pp_new p) original patched n" by (rule apply_patch_edited [OF assms(2) a])
  have found: "n \<noteq> 0" if "sublist (pp_old p) original" using apply_patch_finds [OF assms(2) that] a by (metis snd_conv)
  show ?thesis
  proof (cases "n = 0")
    case True
    then show ?thesis using assms(1-3) a found by (simp add: patch_execute_def opt Let_def) blast
  next
    case nz: False
    obtain now err where w: "pe_write env 0 patched = (now, err)" by (cases "pe_write env 0 patched") auto
    show ?thesis
    proof (cases err)
      case (Some e)
      then show ?thesis using assms(1-3) a nz w by (simp add: patch_execute_def opt Let_def)
    next
      case None
      then have now: "now = patched" using honest w by blast
      obtain bk rerr where b: "pe_write env 1 original = (bk, rerr)" by (cases "pe_write env 1 original") auto
      have "rerr = None \<Longrightarrow> bk = original" using honest b by blast
      then show ?thesis
        using assms(1-3) a nz w None now b ed
        by (auto simp: patch_execute_def opt Let_def split: option.splits)
    qed
  qed
qed

definition demo_patch_env :: patch_env where
  "demo_patch_env = \<lparr>pe_home = Some ''/root'', pe_read = (\<lambda>p. if p = ''/root/a.go'' then Some ''return a  * b'' else None),
     pe_write = (\<lambda>i c. (c, None)), pe_have = (\<lambda>_. True), pe_exists = (\<lambda>_. False),
     pe_run = (\<lambda>c cmd dir. ([], if contains_str c ''+'' then None else Some ''exit status 1''))\<rparr>"

definition demo_patch :: patch_params where
  "demo_patch = \<lparr>pp_path = ''~/a.go'', pp_old = ''a * b'', pp_new = ''a + b'', pp_fuzzy = None, pp_verify = None\<rparr>"

lemma demo_patch_run:
  "expand_home (pe_home demo_patch_env) ''~/a.go'' = ''/root/a.go''"
  "apply_patch ''return a  * b'' ''a * b'' ''a + b'' True = (''return a + b'', 1)"
  "verify_syntax demo_patch_env ''return a + b'' ''/root/a.go'' = None"
  by code_simp+

lemma demo_patch_result:
  "patch_execute demo_patch_env demo_patch = (Inr (patched_text ''/root/a.go'' 1 True), Some ''return a + b'')"
proof -
  have "pe_read demo_patch_env ''/root/a.go'' = Some ''return a  * b''" "pe_write demo_patch_env i c = (c, None)" for i c
    by (simp_all add: demo_patch_env_def)
  then show ?thesis using demo_patch_run by (simp add: patch_execute_def demo_patch_def)
qed

lemma patch_edits_or_restores_witness:
  "\<exists>n>0. edited (same_text True ''a * b'') ''a + b'' ''return a  * b'' ''return a + b'' n"
proof -
  have p: "pp_path demo_patch = ''~/a.go''" "pp_old demo_patch = ''a * b''" "pp_new demo_patch = ''a + b''" "pp_fuzzy demo_patch = None"
    by (simp_all add: demo_patch_def)
  have r: "pe_read demo_patch_env (expand_home (pe_home demo_patch_env) (pp_path demo_patch)) = Some ''return a  * b''"
    unfolding p demo_patch_run by (simp add: demo_patch_env_def)
  have h: "\<forall>i c now. pe_write demo_patch_env i c = (now, None) \<longrightarrow> now = c" by (simp add: demo_patch_env_def)
  have n: "pp_path demo_patch \<noteq> []" "pp_old demo_patch \<noteq> []" unfolding p by simp_all
  note outcome = patch_edits_or_restores [OF n r, unfolded demo_patch_result p prod.case sum.case option.case]
  show ?thesis using outcome [OF h] by auto
qed

end
