(* ===== verification/Todo_Tool.thy ===== *)
theory Todo_Tool
  imports Go_Strings
begin

text \<open>
  The todo tool (\<open>internal/tool/builtin/todo.go\<close>): a list of items in a package-level store that all agents share. Every action
  updates the store under its lock and then reports the list it finds; the printing of a report as JSON is left out, a
  report is a value. Removing an item allocates a slice with the length of the list minus one as its capacity, which is a
  run-time panic for the empty list.
\<close>

record todo_item =
  ti_id :: int
  ti_content :: string
  ti_status :: string

record todo_store =
  ts_items :: "todo_item list"
  ts_next :: int

datatype todo_error = ActionRequired | InvalidAction string | TaskRequired string | InvalidTaskId string | TaskNotFound int

datatype todo_reply =
    TodoError todo_error
  | TodoPanic
  | Report string string "todo_item list"
  | Snapshot int int int "todo_item list"

definition reset_todo_store :: "todo_store \<Rightarrow> todo_store" where
  "reset_todo_store s = s\<lparr>ts_items := [], ts_next := 1\<rparr>"

definition empty_todo_store :: todo_store where
  "empty_todo_store = \<lparr>ts_items = [], ts_next = 1\<rparr>"

definition format_result :: "string \<Rightarrow> string \<Rightarrow> todo_store \<Rightarrow> todo_reply" where
  "format_result action msg s = Report action msg (ts_items s)"

definition add_task :: "string option \<Rightarrow> todo_store \<Rightarrow> todo_reply \<times> todo_store" where
  "add_task task s =
     (case task of
        None \<Rightarrow> (TodoError (TaskRequired ''add''), s)
      | Some t \<Rightarrow>
          if t = [] then (TodoError (TaskRequired ''add''), s)
          else
            let s' = s\<lparr>ts_items := ts_items s @ [\<lparr>ti_id = ts_next s, ti_content = t, ti_status = ''pending''\<rparr>],
                       ts_next := ts_next s + 1\<rparr>
            in (format_result ''added'' (''Task added: '' @ t) s', s'))"

definition list_todos :: "todo_store \<Rightarrow> todo_reply" where
  "list_todos s =
     (if ts_items s = [] then format_result ''listed'' ''No tasks in list'' s
      else format_result ''listed'' (''Found '' @ dec_digits (length (ts_items s)) @ '' task(s)'') s)"

definition with_status :: "string \<Rightarrow> todo_item list \<Rightarrow> int" where
  "with_status st items = int (length (filter (\<lambda>i. ti_status i = st) items))"

definition snapshot_tasks :: "todo_store \<Rightarrow> todo_reply" where
  "snapshot_tasks s =
     Snapshot (int (length (ts_items s))) (with_status ''pending'' (ts_items s)) (with_status ''completed'' (ts_items s))
       (ts_items s)"

definition task_id_of :: "string \<Rightarrow> string option \<Rightarrow> todo_error + int" where
  "task_id_of action task =
     (case task of
        None \<Rightarrow> Inl (TaskRequired action)
      | Some t \<Rightarrow>
          if t = [] then Inl (TaskRequired action)
          else case go_atoi t of None \<Rightarrow> Inl (InvalidTaskId t) | Some i \<Rightarrow> Inr i)"

text \<open>The first item with the identifier is marked.\<close>

fun mark_completed :: "int \<Rightarrow> todo_item list \<Rightarrow> todo_item list option" where
  "mark_completed i [] = None"
| "mark_completed i (x # xs) =
     (if ti_id x = i then Some (x\<lparr>ti_status := ''completed''\<rparr> # xs) else map_option ((#) x) (mark_completed i xs))"

definition complete_task :: "string option \<Rightarrow> todo_store \<Rightarrow> todo_reply \<times> todo_store" where
  "complete_task task s =
     (case task_id_of ''complete'' task of
        Inl e \<Rightarrow> (TodoError e, s)
      | Inr i \<Rightarrow>
          (case mark_completed i (ts_items s) of
             None \<Rightarrow> (TodoError (TaskNotFound i), s)
           | Some items \<Rightarrow>
               let s' = s\<lparr>ts_items := items\<rparr>
               in (format_result ''completed'' (''Task '' @ itoa i @ '' marked as completed'') s', s')))"

definition remove_task :: "string option \<Rightarrow> todo_store \<Rightarrow> todo_reply \<times> todo_store" where
  "remove_task task s =
     (case task_id_of ''remove'' task of
        Inl e \<Rightarrow> (TodoError e, s)
      | Inr i \<Rightarrow>
          if ts_items s = [] then (TodoPanic, s)
          else if \<not> list_ex (\<lambda>x. ti_id x = i) (ts_items s) then (TodoError (TaskNotFound i), s)
          else
            let s' = s\<lparr>ts_items := filter (\<lambda>x. ti_id x \<noteq> i) (ts_items s)\<rparr>
            in (format_result ''removed'' (''Task '' @ itoa i @ '' removed'') s', s'))"

definition clear_tasks :: "todo_store \<Rightarrow> todo_reply \<times> todo_store" where
  "clear_tasks s =
     (let s' = reset_todo_store s
      in (format_result ''cleared'' (''Cleared '' @ dec_digits (length (ts_items s)) @ '' task(s)'') s', s'))"

text \<open>A request is the action and the task, each absent when it is missing or no string.\<close>

definition todo_execute :: "todo_store \<Rightarrow> string option \<times> string option \<Rightarrow> todo_reply \<times> todo_store" where
  "todo_execute s req =
     (case req of (action, task) \<Rightarrow>
       let a = (case action of None \<Rightarrow> [] | Some a \<Rightarrow> a)
       in if a = [] then (TodoError ActionRequired, s)
          else if a = ''add'' then add_task task s
          else if a = ''list'' then (list_todos s, s)
          else if a = ''snapshot'' then (snapshot_tasks s, s)
          else if a = ''complete'' then complete_task task s
          else if a = ''remove'' then remove_task task s
          else if a = ''clear'' then clear_tasks s
          else (TodoError (InvalidAction a), s))"

lemmas todo_ops = todo_execute_def add_task_def complete_task_def remove_task_def clear_tasks_def reset_todo_store_def Let_def

section \<open>The invariant of the store\<close>

definition todo_ok :: "todo_store \<Rightarrow> bool" where
  "todo_ok s \<longleftrightarrow> sorted_wrt (<) (map ti_id (ts_items s)) \<and> 1 \<le> ts_next s \<and>
     list_all (\<lambda>x. 1 \<le> ti_id x \<and> ti_id x < ts_next s \<and> ti_content x \<noteq> [] \<and> ti_status x \<in> {''pending'', ''completed''}) (ts_items s)"

lemma mark_completed_map:
  "distinct (map ti_id xs) \<Longrightarrow> mark_completed i xs = Some ys \<Longrightarrow>
     i \<in> ti_id ` set xs \<and> ys = map (\<lambda>x. if ti_id x = i then x\<lparr>ti_status := ''completed''\<rparr> else x) xs"
proof (induction xs arbitrary: ys)
  case (Cons x xs)
  show ?case
  proof (cases "ti_id x = i")
    case True
    have "ti_id y \<noteq> i" if "y \<in> set xs" for y
    proof -
      have "ti_id y \<in> ti_id ` set xs" using that by (rule imageI)
      then show ?thesis using Cons.prems(1) True by auto
    qed
    then have "map (\<lambda>x. if ti_id x = i then x\<lparr>ti_status := ''completed''\<rparr> else x) xs = xs"
      by (intro map_idI) simp
    then show ?thesis using True Cons.prems(2) by simp
  qed (use Cons in auto)
qed simp

lemma mark_completed_present: "x \<in> set xs \<Longrightarrow> \<exists>ys. mark_completed (ti_id x) xs = Some ys"
  by (induction xs) auto

lemma mark_completed_ids: "mark_completed i xs = Some ys \<Longrightarrow> map ti_id ys = map ti_id xs"
  by (induction xs arbitrary: ys) (auto split: if_splits)

lemma mark_completed_all:
  "mark_completed i xs = Some ys \<Longrightarrow> list_all P xs \<Longrightarrow> (\<And>x. P x \<Longrightarrow> P (x\<lparr>ti_status := ''completed''\<rparr>)) \<Longrightarrow> list_all P ys"
  by (induction xs arbitrary: ys) (auto split: if_splits)

lemma todo_ok_items: "todo_ok s \<Longrightarrow> distinct (map ti_id (ts_items s))"
  by (simp add: todo_ok_def strict_sorted_iff)

lemma add_task_ok: "todo_ok s \<Longrightarrow> todo_ok (snd (add_task task s))"
  by (auto simp: todo_ok_def add_task_def Let_def sorted_wrt_append list_all_iff split: option.splits)

lemma complete_task_ok:
  assumes "todo_ok s"
  shows "todo_ok (snd (complete_task task s))"
proof -
  let ?P = "\<lambda>x. 1 \<le> ti_id x \<and> ti_id x < ts_next s \<and> ti_content x \<noteq> [] \<and> ti_status x \<in> {''pending'', ''completed''}"
  have "todo_ok (s\<lparr>ts_items := ys\<rparr>)" if m: "mark_completed i (ts_items s) = Some ys" for i ys
    using assms mark_completed_ids [OF m] mark_completed_all [OF m, of ?P] by (simp add: todo_ok_def)
  then show ?thesis using assms by (auto simp: complete_task_def Let_def split: sum.splits option.splits)
qed

lemma remove_task_ok: "todo_ok s \<Longrightarrow> todo_ok (snd (remove_task task s))"
  by (auto simp: todo_ok_def remove_task_def Let_def list_all_iff sorted_wrt_map split: sum.splits intro: sorted_wrt_filter)

lemma clear_tasks_ok: "todo_ok (snd (clear_tasks s))"
  by (simp add: todo_ok_def clear_tasks_def reset_todo_store_def Let_def)

interpretation todo_machine: guarded_machine "\<lambda>s req. snd (todo_execute s req)" todo_ok
  by unfold_locales
    (auto simp: todo_execute_def Let_def add_task_ok complete_task_ok remove_task_ok clear_tasks_ok)

definition todo_run :: "(string option \<times> string option) list \<Rightarrow> todo_store" where
  "todo_run reqs = foldl (\<lambda>s req. snd (todo_execute s req)) empty_todo_store reqs"

lemma todo_run_ok: "todo_ok (todo_run reqs)"
  unfolding todo_run_def by (rule todo_machine.run_keeps) (simp add: todo_ok_def empty_todo_store_def)

lemma todo_run_snoc: "todo_run (reqs @ [r]) = snd (todo_execute (todo_run reqs) r)"
  by (simp add: todo_run_def)

lemma complete_step:
  "t \<noteq> [] \<Longrightarrow> go_atoi t = Some i \<Longrightarrow> mark_completed i (ts_items s) = Some ys \<Longrightarrow>
     ts_items (snd (todo_execute s (Some ''complete'', Some t))) = ys"
  by (simp add: todo_execute_def complete_task_def task_id_of_def Let_def)

lemma filter_split:
  "list_all (\<lambda>x. P x \<noteq> Q x) xs \<Longrightarrow> length (filter P xs) + length (filter Q xs) = length xs"
  by (induction xs) auto

section \<open>Properties\<close>

text \<open>Removing from the empty list does not return: the allocation panics while the lock is held.\<close>

lemma remove_from_empty_panics:
  assumes "ts_items s = []"
  shows "todo_execute s (Some ''remove'', Some ''1'') = (TodoPanic, s)"
proof -
  have "go_atoi ''1'' = Some 1" by code_simp
  with assms show ?thesis by (simp add: todo_execute_def remove_task_def task_id_of_def)
qed

text \<open>After any sequence of requests, completing an item that is in the list marks exactly that item and moves or drops no
other one, and the counts of a snapshot add up to the length of the list.\<close>

lemma todo_completes_exactly:
  assumes "x \<in> set (ts_items (todo_run reqs))" "go_atoi t = Some (ti_id x)"
  shows "ts_items (todo_run (reqs @ [(Some ''complete'', Some t)])) =
      map (\<lambda>y. if y = x then y\<lparr>ti_status := ''completed''\<rparr> else y) (ts_items (todo_run reqs)) \<and>
    (\<exists>p c. snapshot_tasks (todo_run reqs) = Snapshot (p + c) p c (ts_items (todo_run reqs)))"
proof -
  let ?s = "todo_run reqs"
  note ok = todo_run_ok [of reqs] and d = todo_ok_items [OF todo_run_ok [of reqs]]
  have "t \<noteq> []" using assms(2) by (auto simp: go_atoi_def Let_def)
  moreover obtain ys where ys: "mark_completed (ti_id x) (ts_items ?s) = Some ys"
    using assms(1) mark_completed_present by blast
  moreover have "ys = map (\<lambda>y. if ti_id y = ti_id x then y\<lparr>ti_status := ''completed''\<rparr> else y) (ts_items ?s)"
    using mark_completed_map [OF d ys] by simp
  moreover have "\<dots> = map (\<lambda>y. if y = x then y\<lparr>ti_status := ''completed''\<rparr> else y) (ts_items ?s)"
    using d assms(1) by (auto simp: distinct_map inj_on_def)
  ultimately have "ts_items (todo_run (reqs @ [(Some ''complete'', Some t)])) =
      map (\<lambda>y. if y = x then y\<lparr>ti_status := ''completed''\<rparr> else y) (ts_items ?s)"
    using assms(2) by (simp add: todo_run_snoc complete_step)
  moreover have "with_status ''pending'' (ts_items ?s) + with_status ''completed'' (ts_items ?s) = int (length (ts_items ?s))"
  proof -
    have "list_all (\<lambda>i. (ti_status i = ''pending'') \<noteq> (ti_status i = ''completed'')) (ts_items ?s)"
      using ok by (auto simp: todo_ok_def list_all_iff)
    from filter_split [OF this] show ?thesis by (simp add: with_status_def)
  qed
  ultimately show ?thesis by (auto simp: snapshot_tasks_def)
qed

definition demo_requests :: "(string option \<times> string option) list" where
  "demo_requests = [(Some ''add'', Some ''plan''), (Some ''add'', Some ''build'')]"

lemma demo_requests_run:
  "ts_items (todo_run demo_requests) =
     [\<lparr>ti_id = 1, ti_content = ''plan'', ti_status = ''pending''\<rparr>, \<lparr>ti_id = 2, ti_content = ''build'', ti_status = ''pending''\<rparr>]"
  by (simp add: todo_run_def demo_requests_def todo_execute_def add_task_def empty_todo_store_def Let_def)

lemma todo_completes_exactly_witness:
  "map ti_status (ts_items (todo_run (demo_requests @ [(Some ''complete'', Some ''2'')]))) = [''pending'', ''completed'']"
proof -
  have "go_atoi ''2'' = Some 2" by code_simp
  then show ?thesis
    using todo_completes_exactly [of "\<lparr>ti_id = 2, ti_content = ''build'', ti_status = ''pending''\<rparr>" demo_requests "''2''"]
    by (simp add: demo_requests_run)
qed

end
