(* ===== verification/Public_Memory.thy ===== *)
theory Public_Memory
  imports Short_Term_Memory
begin

text \<open>
  The in-memory store of the public package (\<open>pkg/memory.go\<close>): a map from identifiers to entries. It shares the entries, the
  tokeniser, the scoring and the exchange sort with the short-term memory. Every operation that looks at the clock or ranges over
  the map has the time and an order of the keys as arguments; a clock that moves during one operation is left out.
\<close>

fun memory_type_text :: "memory_type \<Rightarrow> string" where
  "memory_type_text MemoryShortTerm = ''short_term''"
| "memory_type_text MemoryLongTerm = ''long_term''"
| "memory_type_text MemorySkill = ''skill''"

definition has_tag :: "mem_entry \<Rightarrow> string \<Rightarrow> bool" where
  "has_tag e tag \<longleftrightarrow> tag \<in> set (me_tags e)"

definition get_metadata :: "mem_entry \<Rightarrow> string \<Rightarrow> string" where
  "get_metadata e key = (case me_metadata e key of None \<Rightarrow> [] | Some v \<Rightarrow> v)"

definition entry_tokens :: "mem_entry \<Rightarrow> int" where
  "entry_tokens e = int (length (me_content e)) div 4"

section \<open>The store\<close>

record memory_map =
  mm_entries :: "string \<rightharpoonup> mem_entry"
  mm_next :: nat

definition new_in_memory_store :: memory_map where
  "new_in_memory_store = \<lparr>mm_entries = Map.empty, mm_next = 1\<rparr>"

definition mem_key :: "nat \<Rightarrow> string" where
  "mem_key n = ''mem_'' @ dec_digits n"

definition store_memory ::
    "int \<Rightarrow> string \<Rightarrow> memory_type \<Rightarrow> (string \<rightharpoonup> string) \<Rightarrow> memory_map \<Rightarrow> string \<times> memory_map" where
  "store_memory now content ty metadata s =
     (let i = mem_key (mm_next s)
      in (i, s\<lparr>mm_next := mm_next s + 1,
               mm_entries := (mm_entries s)(i \<mapsto> \<lparr>me_id = i, me_content = content, me_type = ty, me_metadata = metadata,
                 me_created = now, me_score = 0, me_tags = [], me_ttl = 0\<rparr>)\<rparr>))"

definition entries_in :: "memory_map \<Rightarrow> string list \<Rightarrow> mem_entry list" where
  "entries_in s order = List.map_filter (mm_entries s) order"

text \<open>The scoring lower-cases the words itself; \<open>None\<close> would be a loop without end, which the words of a query never cause.\<close>

definition public_relevance :: "string \<Rightarrow> string list \<Rightarrow> rat option" where
  "public_relevance content ws = calculate_relevance (to_lower content) (map to_lower ws)"

fun recall_hits :: "int \<Rightarrow> string list \<Rightarrow> memory_type \<Rightarrow> mem_entry list \<Rightarrow> mem_entry list option" where
  "recall_hits now ws ty [] = Some []"
| "recall_hits now ws ty (e # es) =
     (if is_expired now e \<or> (ty \<noteq> MemoryShortTerm \<and> me_type e \<noteq> ty) then recall_hits now ws ty es
      else case public_relevance (me_content e) ws of
          None \<Rightarrow> None
        | Some r \<Rightarrow>
            if 0 < r then map_option ((#) (e\<lparr>me_score := r\<rparr>)) (recall_hits now ws ty es) else recall_hits now ws ty es)"

definition recall :: "int \<Rightarrow> string list \<Rightarrow> string \<Rightarrow> int \<Rightarrow> memory_type \<Rightarrow> memory_map \<Rightarrow> mem_entry list option" where
  "recall now order query limit ty s =
     map_option (\<lambda>es. limit_results limit (sort_by_relevance es)) (recall_hits now (tokenize query) ty (entries_in s order))"

definition delete_memory :: "string \<Rightarrow> memory_map \<Rightarrow> memory_map option" where
  "delete_memory i s =
     (if mm_entries s i = None then None else Some (s\<lparr>mm_entries := (mm_entries s)(i := None)\<rparr>))"

definition sort_by_created_at :: "mem_entry list \<Rightarrow> mem_entry list" where
  "sort_by_created_at = exchange_sort (\<lambda>e f. me_created e < me_created f)"

text \<open>The loop over the entries by age: it goes on while the tokens are above the limit.\<close>

fun drop_oldest :: "int \<Rightarrow> int \<Rightarrow> mem_entry list \<Rightarrow> (string \<rightharpoonup> mem_entry) \<Rightarrow> string \<rightharpoonup> mem_entry" where
  "drop_oldest max_tokens current [] m = m"
| "drop_oldest max_tokens current (e # es) m =
     (if current \<le> max_tokens then m
      else drop_oldest max_tokens (current - entry_tokens e) es (m(me_id e := None)))"

definition live_entries :: "int \<Rightarrow> memory_map \<Rightarrow> string \<rightharpoonup> mem_entry" where
  "live_entries now s i = (case mm_entries s i of None \<Rightarrow> None | Some e \<Rightarrow> if is_expired now e then None else Some e)"

definition compact_store :: "int \<Rightarrow> string list \<Rightarrow> int \<Rightarrow> memory_map \<Rightarrow> memory_map" where
  "compact_store now order max_tokens s0 =
     (let s = s0\<lparr>mm_entries := live_entries now s0\<rparr>; es = entries_in s order; current = sum_list (map entry_tokens es)
      in if current \<le> max_tokens then s
         else s\<lparr>mm_entries := drop_oldest max_tokens current (sort_by_created_at es) (mm_entries s)\<rparr>)"

record public_stats =
  ms_total :: nat
  ms_short :: nat
  ms_long :: nat
  ms_skill :: nat
  ms_tokens :: int

definition public_stats_of :: "string list \<Rightarrow> memory_map \<Rightarrow> public_stats" where
  "public_stats_of order s =
     (let es = entries_in s order; of_type = (\<lambda>ty. length (filter (\<lambda>e. me_type e = ty) es))
      in \<lparr>ms_total = length es, ms_short = of_type MemoryShortTerm, ms_long = of_type MemoryLongTerm,
          ms_skill = of_type MemorySkill, ms_tokens = sum_list (map entry_tokens es)\<rparr>)"

section \<open>Identifiers\<close>

definition store_ok :: "memory_map \<Rightarrow> bool" where
  "store_ok s \<longleftrightarrow> (\<forall>i e. mm_entries s i = Some e \<longrightarrow> me_id e = i \<and> (\<exists>n<mm_next s. i = mem_key n))"

lemma memory_id_inject [simp]: "mem_key m = mem_key n \<longleftrightarrow> m = n"
  by (simp add: mem_key_def)

lemma store_ok_fresh: "store_ok s \<Longrightarrow> mm_entries s (mem_key (mm_next s)) = None"
  unfolding store_ok_def by (metis less_irrefl memory_id_inject not_None_eq)

lemma store_memory_ok: "store_ok s \<Longrightarrow> store_ok (snd (store_memory now content ty metadata s))"
  unfolding store_ok_def by (auto simp: store_memory_def Let_def less_Suc_eq)

lemma store_ok_submap:
  "store_ok s \<Longrightarrow> (\<And>i e. m i = Some e \<Longrightarrow> mm_entries s i = Some e) \<Longrightarrow> store_ok (s\<lparr>mm_entries := m\<rparr>)"
  unfolding store_ok_def by simp

lemma drop_oldest_submap: "drop_oldest mx cur es m i = Some e \<Longrightarrow> m i = Some e"
  by (induction mx cur es m rule: drop_oldest.induct) (auto split: if_splits)

lemma live_entries_submap: "live_entries now s i = Some e \<Longrightarrow> mm_entries s i = Some e"
  by (auto simp: live_entries_def split: option.splits if_splits)

lemma compact_submap: "mm_entries (compact_store now order mx s) i = Some e \<Longrightarrow> mm_entries s i = Some e"
  by (auto simp: compact_store_def Let_def split: if_splits dest: drop_oldest_submap live_entries_submap)

lemma compact_next: "mm_next (compact_store now order mx s) = mm_next s"
  by (simp add: compact_store_def Let_def)

lemma compact_ok: "store_ok s \<Longrightarrow> store_ok (compact_store now order mx s)"
  unfolding store_ok_def compact_next using compact_submap by metis

datatype memory_event = StoreEvent int string memory_type "string \<rightharpoonup> string" | DeleteEvent string | CompactEvent int "string list" int

fun memory_event_step :: "memory_map \<Rightarrow> memory_event \<Rightarrow> memory_map" where
  "memory_event_step s (StoreEvent now content ty metadata) = snd (store_memory now content ty metadata s)"
| "memory_event_step s (DeleteEvent i) = (case delete_memory i s of None \<Rightarrow> s | Some s' \<Rightarrow> s')"
| "memory_event_step s (CompactEvent now order mx) = compact_store now order mx s"

interpretation memory_map_machine: guarded_machine memory_event_step store_ok
proof
  fix s e assume "store_ok s"
  then show "store_ok (memory_event_step s e)"
    by (cases e) (auto simp: store_memory_ok compact_ok delete_memory_def intro: store_ok_submap split: option.splits if_splits)
qed

text \<open>In every run an entry stays what it was stored as until it is deleted: a new identifier is never in use.\<close>

lemma run_never_overwrites:
  "mm_entries (foldl memory_event_step new_in_memory_store es) (mem_key (mm_next (foldl memory_event_step new_in_memory_store es))) = None"
  by (rule store_ok_fresh, rule memory_map_machine.run_keeps) (simp add: store_ok_def new_in_memory_store_def)

section \<open>Recall\<close>

definition recalled :: "int \<Rightarrow> string list \<Rightarrow> memory_type \<Rightarrow> mem_entry \<Rightarrow> mem_entry option" where
  "recalled now ws ty e =
     (if ty \<noteq> MemoryShortTerm \<and> me_type e \<noteq> ty then None else scored now (map to_lower ws) e)"

lemma recall_hits_filter:
  "[] \<notin> set ws \<Longrightarrow> recall_hits now ws ty es = Some (List.map_filter (recalled now ws ty) es)"
proof (induction es)
  case (Cons e es)
  have "[] \<notin> set (map to_lower ws)" using Cons.prems by (auto simp: to_lower_def)
  then obtain r where "public_relevance (me_content e) ws = Some r"
    using calculate_relevance_total unfolding public_relevance_def by blast
  with Cons show ?case by (auto simp: recalled_def scored_def map_filter_simps public_relevance_def)
qed (simp add: map_filter_simps)

text \<open>
  A recall always answers with the beginning of a ranking of the hits. The type of the short-term memory has the number that the
  code reads as no restriction, so asking for it brings the entries of every type.
\<close>

lemma recall_ranked:
  "\<exists>found rest. recall now order query limit ty s = Some found \<and>
     mset (found @ rest) = mset (List.map_filter (recalled now (tokenize query) ty) (entries_in s order)) \<and>
     sorted_wrt (\<lambda>e f. me_score f \<le> me_score e) (found @ rest)"
proof -
  let ?hits = "List.map_filter (recalled now (tokenize query) ty) (entries_in s order)"
  have "[] \<notin> set (tokenize query)" using tokenize_from_words by (auto simp: tokenize_def)
  then have r: "recall now order query limit ty s = Some (limit_results limit (sort_by_relevance ?hits))"
    by (simp add: recall_def recall_hits_filter)
  obtain rest where rest: "sort_by_relevance ?hits = limit_results limit (sort_by_relevance ?hits) @ rest"
    using limit_results_prefix by blast
  show ?thesis unfolding r
    by (rule exI [where x = "limit_results limit (sort_by_relevance ?hits)"], rule exI [where x = rest])
      (simp only: rest [symmetric] sort_by_relevance_mset sort_by_relevance_sorted simp_thms)
qed

lemma short_term_recall_unrestricted: "recalled now ws MemoryShortTerm = scored now (map to_lower ws)"
  by (simp add: recalled_def fun_eq_iff)

section \<open>Compaction\<close>

interpretation age_scan: best_scan "\<lambda>e f. me_created e < me_created f"
  by unfold_locales auto

lemma sort_by_created_at_mset: "mset (sort_by_created_at es) = mset es"
  by (simp add: sort_by_created_at_def exchange_sort_mset)

lemma sort_by_created_at_set: "set (sort_by_created_at es) = set es"
  by (metis set_mset_mset sort_by_created_at_mset)

lemma sort_by_created_at_sorted: "sorted_wrt (\<lambda>e f. me_created e \<le> me_created f) (sort_by_created_at es)"
  using age_scan.exchange_sort_sorted [of es] by (simp add: sort_by_created_at_def not_less)

text \<open>What the loop removes is a beginning of the list, after which the tokens fit, and without its last entry they did not.\<close>

lemma drop_oldest_prefix:
  "\<exists>k\<le>length es. drop_oldest mx cur es m = m |` (- (me_id ` set (take k es))) \<and>
     (k < length es \<longrightarrow> cur - sum_list (map entry_tokens (take k es)) \<le> mx) \<and>
     (0 < k \<longrightarrow> mx < cur - sum_list (map entry_tokens (take (k - 1) es)))"
proof (induction es arbitrary: cur m)
  case Nil
  then show ?case by simp
next
  case (Cons e es)
  show ?case
  proof (cases "cur \<le> mx")
    case True
    then show ?thesis by (intro exI [of _ 0]) simp
  next
    case False
    from Cons [of "cur - entry_tokens e" "m(me_id e := None)"] obtain k where k: "k \<le> length es"
      "drop_oldest mx (cur - entry_tokens e) es (m(me_id e := None)) = m(me_id e := None) |` (- (me_id ` set (take k es)))"
      "k < length es \<longrightarrow> cur - entry_tokens e - sum_list (map entry_tokens (take k es)) \<le> mx"
      "0 < k \<longrightarrow> mx < cur - entry_tokens e - sum_list (map entry_tokens (take (k - 1) es))"
      by blast
    have "m(me_id e := None) |` (- (me_id ` set (take k es))) = m |` (- (me_id ` set (take (Suc k) (e # es))))"
      by (auto simp: restrict_map_def fun_eq_iff)
    moreover have "mx < cur - sum_list (map entry_tokens (take k (e # es)))"
      using k(4) False by (cases k) simp_all
    ultimately show ?thesis using k False by (intro exI [of _ "Suc k"]) (simp add: diff_diff_eq)
  qed
qed


lemma entries_in_ids: "store_ok s \<Longrightarrow> map me_id (entries_in s order) = filter (\<lambda>i. mm_entries s i \<noteq> None) order"
  unfolding entries_in_def store_ok_def by (induction order) (auto simp: map_filter_simps split: option.splits)

lemma entries_in_set: "set (entries_in s order) = {e. \<exists>i\<in>set order. mm_entries s i = Some e}"
  unfolding entries_in_def by (induction order) (auto simp: map_filter_simps split: option.splits)

lemma entries_in_restrict:
  "store_ok s \<Longrightarrow> entries_in (s\<lparr>mm_entries := mm_entries s |` (- A)\<rparr>) order = filter (\<lambda>e. me_id e \<notin> A) (entries_in s order)"
  unfolding entries_in_def store_ok_def
  by (induction order) (auto simp: map_filter_simps restrict_map_def split: option.splits)

lemma filter_drop:
  assumes "distinct (map f xs)"
  shows "filter (\<lambda>x. f x \<notin> f ` set (take k xs)) xs = drop k xs"
proof -
  have d: "f x \<noteq> f y" if "x \<in> set (take k xs)" "y \<in> set (drop k xs)" for x y
    using assms that append_take_drop_id [of k xs] by (metis distinct_append disjoint_iff image_eqI map_append set_map)
  let ?P = "\<lambda>x. f x \<notin> f ` set (take k xs)"
  have "filter ?P (take k xs) = []" by (auto simp: filter_empty_conv)
  moreover have "filter ?P (drop k xs) = drop k xs" unfolding filter_id_conv using d by (metis image_iff)
  ultimately have "filter ?P (take k xs @ drop k xs) = drop k xs" unfolding filter_append by simp
  then show ?thesis by simp
qed

lemma sum_tokens_perm: "mset es = mset fs \<Longrightarrow> sum_list (map entry_tokens es) = sum_list (map entry_tokens fs)"
  by (metis mset_map sum_mset_sum_list)

lemma live_ok: "store_ok s \<Longrightarrow> store_ok (s\<lparr>mm_entries := live_entries now s\<rparr>)"
  by (rule store_ok_submap) (auto dest: live_entries_submap)

text \<open>When the entries do not fit, what is kept is an end of the list by age, and it fits.\<close>

lemma compact_keeps_newest:
  fixes s :: memory_map and now mx :: int and order :: "string list"
  defines "s1 \<equiv> s\<lparr>mm_entries := live_entries now s\<rparr>"
  defines "ss \<equiv> sort_by_created_at (entries_in s1 order)"
  assumes ok: "store_ok s" and order: "distinct order" and "0 \<le> mx"
  obtains k where "compact_store now order mx s = s1\<lparr>mm_entries := mm_entries s1 |` (- (me_id ` set (take k ss)))\<rparr>"
    "sum_list (map entry_tokens (drop k ss)) \<le> mx"
proof (cases "sum_list (map entry_tokens (entries_in s1 order)) \<le> mx")
  case True
  have "compact_store now order mx s = s1\<lparr>mm_entries := mm_entries s1 |` (- (me_id ` set (take 0 ss)))\<rparr>"
    using True by (simp add: compact_store_def s1_def restrict_map_def)
  moreover have "sum_list (map entry_tokens (drop 0 ss)) \<le> mx"
    using True sum_tokens_perm [OF sort_by_created_at_mset [of "entries_in s1 order"]] by (simp add: ss_def)
  ultimately show ?thesis by (rule that)
next
  case False
  let ?cur = "sum_list (map entry_tokens (entries_in s1 order))"
  obtain k where k: "k \<le> length ss" "drop_oldest mx ?cur ss (mm_entries s1) = mm_entries s1 |` (- (me_id ` set (take k ss)))"
    "k < length ss \<longrightarrow> ?cur - sum_list (map entry_tokens (take k ss)) \<le> mx"
    using drop_oldest_prefix [of ss mx ?cur "mm_entries s1"] by blast
  have "?cur = sum_list (map entry_tokens (take k ss @ drop k ss))"
    using sum_tokens_perm [OF sort_by_created_at_mset [of "entries_in s1 order"]] by (simp add: ss_def)
  then have "?cur = sum_list (map entry_tokens (take k ss)) + sum_list (map entry_tokens (drop k ss))"
    unfolding map_append sum_list_append .
  then have "sum_list (map entry_tokens (drop k ss)) \<le> mx"
    using k(1,3) assms(5) by (cases "k < length ss") simp_all
  moreover have "compact_store now order mx s = s1\<lparr>mm_entries := mm_entries s1 |` (- (me_id ` set (take k ss)))\<rparr>"
    using False k(2) by (simp add: compact_store_def Let_def s1_def ss_def)
  ultimately show ?thesis using that by blast
qed

text \<open>After a compaction with a limit that is not negative, the entries that are left fit the limit, none of them is expired,
and no entry that was dropped although it was not expired is newer than one that was kept.\<close>

lemma compaction_drops_oldest:
  assumes ok: "store_ok s" and order: "ranges_over order (mm_entries s)" and mx: "0 \<le> mx"
  shows "sum_list (map entry_tokens (entries_in (compact_store now order mx s) order)) \<le> mx \<and>
    (\<forall>i e. mm_entries (compact_store now order mx s) i = Some e \<longrightarrow> mm_entries s i = Some e \<and> \<not> is_expired now e) \<and>
    (\<forall>i j old new. mm_entries s i = Some old \<longrightarrow> \<not> is_expired now old \<longrightarrow> mm_entries (compact_store now order mx s) i = None \<longrightarrow>
       mm_entries (compact_store now order mx s) j = Some new \<longrightarrow> me_created old \<le> me_created new)"
proof -
  let ?s1 = "s\<lparr>mm_entries := live_entries now s\<rparr>"
  let ?ss = "sort_by_created_at (entries_in ?s1 order)"
  have dist: "distinct order" "set order = dom (mm_entries s)" using order by (auto simp: ranges_over_def)
  obtain k where k: "compact_store now order mx s = ?s1\<lparr>mm_entries := mm_entries ?s1 |` (- (me_id ` set (take k ?ss)))\<rparr>"
    "sum_list (map entry_tokens (drop k ?ss)) \<le> mx"
    using compact_keeps_newest [OF ok dist(1) mx] by blast
  have ids: "distinct (map me_id (entries_in ?s1 order))"
    using dist(1) by (simp add: entries_in_ids [OF live_ok [OF ok]])
  then have ssids: "distinct (map me_id ?ss)"
    using mset_eq_imp_distinct_iff [of "map me_id ?ss" "map me_id (entries_in ?s1 order)"]
    by (simp add: sort_by_created_at_mset)
  have "entries_in (compact_store now order mx s) order = filter (\<lambda>e. me_id e \<notin> me_id ` set (take k ?ss)) (entries_in ?s1 order)"
    unfolding k(1) by (rule entries_in_restrict [OF live_ok [OF ok]])
  then have "mset (entries_in (compact_store now order mx s) order) = mset (filter (\<lambda>e. me_id e \<notin> me_id ` set (take k ?ss)) ?ss)"
    by (metis mset_filter sort_by_created_at_mset)
  then have sum: "sum_list (map entry_tokens (entries_in (compact_store now order mx s) order)) \<le> mx"
    using k(2) sum_tokens_perm unfolding filter_drop [OF ssids] by metis
  have kept: "mm_entries s i = Some e \<and> \<not> is_expired now e \<and> e \<in> set (drop k ?ss)"
    if e: "mm_entries (compact_store now order mx s) i = Some e" for i e
  proof -
    have l: "live_entries now s i = Some e" "i \<notin> me_id ` set (take k ?ss)"
      using e unfolding k(1) by (auto simp: restrict_map_def split: if_splits)
    then have me: "mm_entries s i = Some e" "\<not> is_expired now e" by (auto simp: live_entries_def split: option.splits if_splits)
    then have "me_id e = i" "i \<in> set order" using ok dist(2) by (auto simp: store_ok_def)
    with l(1) have "e \<in> set ?ss" unfolding sort_by_created_at_set entries_in_set by auto
    with l(2) \<open>me_id e = i\<close> have "e \<in> set (drop k ?ss)"
      by (metis Un_iff append_take_drop_id image_eqI set_append)
    with me show ?thesis by simp
  qed
  have dropped: "old \<in> set (take k ?ss)"
    if "mm_entries s i = Some old" "\<not> is_expired now old" "mm_entries (compact_store now order mx s) i = None" for i old
  proof -
    have l: "live_entries now s i = Some old" using that(1,2) by (simp add: live_entries_def)
    then have "i \<in> me_id ` set (take k ?ss)" using that(3) unfolding k(1) by (auto simp: restrict_map_def split: if_splits)
    then obtain e where e: "e \<in> set (take k ?ss)" "me_id e = i" by blast
    have "old \<in> set ?ss"
      using that(1) l dist(2) unfolding sort_by_created_at_set entries_in_set by auto
    moreover have "me_id old = i" using ok that(1) by (simp add: store_ok_def)
    ultimately have "old = e" using e ssids by (metis in_set_takeD distinct_map inj_onD)
    with e show ?thesis by simp
  qed
  have "sorted_wrt (\<lambda>e f. me_created e \<le> me_created f) (take k ?ss @ drop k ?ss)"
    using sort_by_created_at_sorted [of "entries_in ?s1 order"] by simp
  then have older: "me_created old \<le> me_created new" if "old \<in> set (take k ?ss)" "new \<in> set (drop k ?ss)" for old new
    using that unfolding sorted_wrt_append by blast
  show ?thesis
  proof (intro conjI allI impI sum)
    fix i j old new
    assume "mm_entries s i = Some old" "\<not> is_expired now old" "mm_entries (compact_store now order mx s) i = None"
      "mm_entries (compact_store now order mx s) j = Some new"
    then show "me_created old \<le> me_created new" using older [OF dropped] kept by blast
  qed (use kept in blast)+
qed

definition demo_memory :: memory_map where
  "demo_memory = foldl memory_event_step new_in_memory_store
     [StoreEvent 5 ''eight ch'' MemoryLongTerm Map.empty, StoreEvent 7 ''four'' MemorySkill Map.empty]"

lemma demo_memory_entries:
  "mm_entries demo_memory = [''mem_1'' \<mapsto> \<lparr>me_id = ''mem_1'', me_content = ''eight ch'', me_type = MemoryLongTerm,
      me_metadata = Map.empty, me_created = 5, me_score = 0, me_tags = [], me_ttl = 0\<rparr>,
     ''mem_2'' \<mapsto> \<lparr>me_id = ''mem_2'', me_content = ''four'', me_type = MemorySkill,
      me_metadata = Map.empty, me_created = 7, me_score = 0, me_tags = [], me_ttl = 0\<rparr>]"
proof -
  have "mem_key 1 = ''mem_1''" "mem_key 2 = ''mem_2''" by code_simp+
  then show ?thesis by (simp add: demo_memory_def store_memory_def new_in_memory_store_def Let_def numeral_2_eq_2)
qed

lemma compaction_drops_oldest_witness:
  "sum_list (map entry_tokens (entries_in (compact_store 9 [''mem_2'', ''mem_1''] 2 demo_memory) [''mem_2'', ''mem_1''])) \<le> 2"
proof -
  have "store_ok demo_memory" unfolding demo_memory_def
    by (rule memory_map_machine.run_keeps) (simp add: store_ok_def new_in_memory_store_def)
  moreover have "ranges_over [''mem_2'', ''mem_1''] (mm_entries demo_memory)"
    by (auto simp: ranges_over_def demo_memory_entries)
  ultimately show ?thesis using compaction_drops_oldest [of demo_memory "[''mem_2'', ''mem_1'']" 2 9] by simp
qed

text \<open>A recall that asks for the short-term memory returns a skill.\<close>

lemma short_term_recall_finds_skill:
  "map_option (map me_type) (recall 9 [''mem_1'', ''mem_2''] ''Four'' 10 MemoryShortTerm demo_memory) = Some [MemorySkill]"
proof -
  have w: "tokenize ''Four'' = [''Four'']" "to_lower ''Four'' = ''four''" "to_lower ''four'' = ''four''" "to_lower ''eight ch'' = ''eight ch''"
    by code_simp+
  moreover have "calculate_relevance ''eight ch'' [''four''] = Some 0" "calculate_relevance ''four'' [''four''] = Some 1"
    by (simp_all add: calculate_relevance_def count_occurrences_def count_from.simps find_substring_index)
  ultimately show ?thesis
    by (simp add: recall_def entries_in_def demo_memory_entries map_filter_simps public_relevance_def is_expired_def
        sort_by_relevance_def limit_results_def)
qed

end
