(* ===== verification/Public_Role.thy ===== *)
theory Public_Role
  imports Role_Registry Public_Memory Go_Runes
begin

text \<open>
  Roles of the public package: the registries of \<open>pkg/role.go\<close> and \<open>pkg/provider.go\<close> and the agent loop of \<open>BaseRole\<close>. A role
  is its configuration; a provider is a record of its methods, which act on a world that the tools act on, too. What the
  memory store recalls is an argument, and what the role stores in it is a part of the outcome.
\<close>

section \<open>Providers\<close>

type_synonym usage = "int \<times> int \<times> int"

record completion_request =
  cq_messages :: "message list"
  cq_model :: string
  cq_temperature :: rat
  cq_max_tokens :: int
  cq_tools :: "tool_definition list"
  cq_role :: string

record completion_response =
  cr_content :: string
  cr_usage :: usage
  cr_tool_calls :: "tool_call list"
  cr_finish :: string

record 'w public_provider =
  pv_name :: string
  pv_complete :: "'w \<Rightarrow> completion_request \<Rightarrow> 'w \<times> (string + completion_response)"
  pv_models :: "string list"
  pv_available :: bool

type_synonym 'w public_providers = "string \<rightharpoonup> 'w public_provider"

definition get_public_provider :: "'w public_providers \<Rightarrow> string \<Rightarrow> 'w public_provider option" where
  "get_public_provider r name = r name"

definition put_public_provider :: "string \<Rightarrow> 'w public_provider \<Rightarrow> 'w public_providers \<Rightarrow> 'w public_providers" where
  "put_public_provider name p r = r(name \<mapsto> p)"

definition drop_public_provider :: "string \<Rightarrow> 'w public_providers \<Rightarrow> 'w public_providers" where
  "drop_public_provider name r = r(name := None)"

definition register_public_provider ::
    "'w public_provider option \<Rightarrow> 'w public_providers \<Rightarrow> tool_error + 'w public_providers" where
  "register_public_provider op r =
     (case op of
        None \<Rightarrow> Inl (ValidationError ''provider'' ''provider cannot be nil'')
      | Some p \<Rightarrow>
          if pv_name p = [] then Inl (ValidationError ''name'' ''provider name cannot be empty'')
          else Inr (put_public_provider (pv_name p) p r))"

definition remove_public_provider :: "string \<Rightarrow> 'w public_providers \<Rightarrow> tool_error + 'w public_providers" where
  "remove_public_provider name r =
     (if get_public_provider r name = None then Inl (ValidationError ''provider'' ''provider not found in registry'')
      else Inr (drop_public_provider name r))"

definition available_providers :: "string list \<Rightarrow> 'w public_providers \<Rightarrow> string list" where
  "available_providers order r =
     filter (\<lambda>n. case get_public_provider r n of None \<Rightarrow> False | Some p \<Rightarrow> pv_available p) order"

definition all_models :: "string list \<Rightarrow> 'w public_providers \<Rightarrow> string list" where
  "all_models order r = concat (map (\<lambda>n. case get_public_provider r n of None \<Rightarrow> [] | Some p \<Rightarrow> pv_models p) order)"

interpretation public_providers_kv: kv_registry get_public_provider put_public_provider drop_public_provider
  by unfold_locales (auto simp: get_public_provider_def put_public_provider_def drop_public_provider_def)

section \<open>The registry of roles\<close>

record 'w public_roles =
  pr_roles :: "string \<rightharpoonup> role_config"
  pr_assigned :: "string \<rightharpoonup> 'w public_provider"

definition new_public_roles :: "'w public_roles" where
  "new_public_roles = \<lparr>pr_roles = Map.empty, pr_assigned = Map.empty\<rparr>"

definition register_public_role :: "role_config option \<Rightarrow> 'w public_roles \<Rightarrow> tool_error + 'w public_roles" where
  "register_public_role oc r =
     (case oc of
        None \<Rightarrow> Inl (ValidationError ''role'' ''role cannot be nil'')
      | Some c \<Rightarrow>
          if rl_type c = ''custom'' \<and> rl_prompt c = []
          then Inl (ValidationError ''system_prompt'' ''system prompt required for custom roles'')
          else Inr (r\<lparr>pr_roles := (pr_roles r)(rl_type c \<mapsto> c)\<rparr>))"

definition get_public_role :: "string \<Rightarrow> 'w public_roles \<Rightarrow> tool_error + role_config" where
  "get_public_role ty r =
     (case pr_roles r ty of None \<Rightarrow> Inl (ValidationError ''role'' ''role not found in registry'') | Some c \<Rightarrow> Inr c)"

definition assign_provider :: "string \<Rightarrow> 'w public_provider option \<Rightarrow> 'w public_roles \<Rightarrow> tool_error + 'w public_roles" where
  "assign_provider ty op r =
     (case op of
        None \<Rightarrow> Inl (ValidationError ''provider'' ''provider cannot be nil'')
      | Some p \<Rightarrow> Inr (r\<lparr>pr_assigned := (pr_assigned r)(ty \<mapsto> p)\<rparr>))"

definition get_assigned_provider :: "'w public_roles \<Rightarrow> string \<Rightarrow> 'w public_provider option" where
  "get_assigned_provider r ty = pr_assigned r ty"

section \<open>The agent loop\<close>

record 'w base_role =
  br_config :: role_config
  br_roles :: "'w public_roles option"
  br_providers :: "'w public_providers option"
  br_tools :: "'w tool_registry option"
  br_unmarshal :: "string \<Rightarrow> string + go_params"

record role_result =
  ro_content :: string
  ro_iterations :: int
  ro_calls :: int
  ro_usage :: usage
  ro_exhausted :: bool

datatype role_failure = InvalidRoleConfig tool_error | NoProvider string | NoModels | CompletionFailed string | NoToolRegistry

definition select_public_provider :: "'w base_role \<Rightarrow> 'w public_provider option" where
  "select_public_provider br =
     (case br_roles br of
        None \<Rightarrow> None
      | Some rs \<Rightarrow>
          (case get_assigned_provider rs (rl_type (br_config br)) of
             Some p \<Rightarrow> Some p
           | None \<Rightarrow>
               (case br_providers br of
                  None \<Rightarrow> None
                | Some ps \<Rightarrow>
                    if rl_provider (br_config br) \<noteq> [] then get_public_provider ps (rl_provider (br_config br)) else None)))"

definition build_role_messages :: "role_config \<Rightarrow> string \<Rightarrow> mem_entry list \<Rightarrow> message list" where
  "build_role_messages c task memory =
     [plain_message RoleSystem (rl_prompt c)] @
     map (\<lambda>e. plain_message RoleUser (''[Context from memory]: '' @ me_content e)) memory @
     [plain_message RoleUser task]"

definition get_tool_definitions :: "'w base_role \<Rightarrow> tool_definition list" where
  "get_tool_definitions br =
     (case br_tools br of
        None \<Rightarrow> []
      | Some reg \<Rightarrow> List.map_filter (\<lambda>n. map_option tool_def (find_tool reg n)) (rl_tools (br_config br)))"

text \<open>One message per call; only a call whose arguments could be read counts and runs.\<close>

fun run_role_calls ::
    "(string \<Rightarrow> string + go_params) \<Rightarrow> 'w tool_registry \<Rightarrow> 'w \<Rightarrow> tool_call list \<Rightarrow> 'w \<times> message list \<times> int" where
  "run_role_calls unmarshal reg w [] = (w, [], 0)"
| "run_role_calls unmarshal reg w (tc # tcs) =
     (case parse_tool_call_arguments unmarshal (tc_arguments tc) of
        Inl e \<Rightarrow>
          (case run_role_calls unmarshal reg w tcs of (w', ms, n) \<Rightarrow>
            (w', format_tool_result (tc_id tc) [] (Some (''invalid arguments: '' @ e)) # ms, n))
      | Inr params \<Rightarrow>
          (case execute_tool reg w (tc_name tc) params of (w1, res) \<Rightarrow>
            (case run_role_calls unmarshal reg w1 tcs of (w', ms, n) \<Rightarrow>
              (w', (case res of
                     Inl e \<Rightarrow> format_tool_result (tc_id tc) [] (Some (tool_error_text e))
                   | Inr out \<Rightarrow> format_tool_result (tc_id tc) out None) # ms, n + 1))))"

definition add_usage :: "usage \<Rightarrow> usage \<Rightarrow> usage" where
  "add_usage u v = (fst u + fst v, fst (snd u) + fst (snd v), snd (snd u) + snd (snd v))"

definition role_request :: "'w base_role \<Rightarrow> 'w public_provider \<Rightarrow> message list \<Rightarrow> completion_request" where
  "role_request br p messages =
     (let c = br_config br
      in \<lparr>cq_messages = messages, cq_model = (if rl_model c = [] then hd (pv_models p) else rl_model c),
          cq_temperature = rl_temperature c, cq_max_tokens = 0, cq_tools = get_tool_definitions br, cq_role = rl_type c\<rparr>)"

definition assistant_turn :: "completion_response \<Rightarrow> message" where
  "assistant_turn r = (plain_message RoleAssistant (cr_content r))\<lparr>msg_tool_calls := cr_tool_calls r\<rparr>"

text \<open>The first argument is the number of iterations that are left, so the last one is the one with none left after it.\<close>

fun role_loop ::
    "nat \<Rightarrow> 'w base_role \<Rightarrow> 'w public_provider \<Rightarrow> 'w \<Rightarrow> message list \<Rightarrow> role_result \<Rightarrow> 'w \<times> (role_failure + role_result)" where
  "role_loop 0 br p w messages res = (w, Inr res)"
| "role_loop (Suc left) br p w messages res =
     (if rl_model (br_config br) = [] \<and> pv_models p = [] then (w, Inl NoModels)
      else case pv_complete p w (role_request br p messages) of
          (w1, Inl e) \<Rightarrow> (w1, Inl (CompletionFailed e))
        | (w1, Inr r) \<Rightarrow>
            let res1 = res\<lparr>ro_iterations := ro_iterations res + 1, ro_usage := add_usage (ro_usage res) (cr_usage r)\<rparr>
            in if cr_finish r = ''stop'' then (w1, Inr (res1\<lparr>ro_content := cr_content r, ro_calls := 0\<rparr>))
               else if cr_tool_calls r = [] then
                 (if left = 0 then (w1, Inr (res1\<lparr>ro_content := cr_content r, ro_exhausted := True\<rparr>))
                  else role_loop left br p w1 messages res1)
               else case br_tools br of
                   None \<Rightarrow> (w1, Inl NoToolRegistry)
                 | Some reg \<Rightarrow>
                     (case run_role_calls (br_unmarshal br) reg w1 (cr_tool_calls r) of
                        (w2, results, n) \<Rightarrow>
                          let res2 = res1\<lparr>ro_calls := ro_calls res1 + n\<rparr>
                          in if left = 0 then (w2, Inr (res2\<lparr>ro_content := cr_content r, ro_exhausted := True\<rparr>))
                             else role_loop left br p w2 (messages @ [assistant_turn r] @ results) res2))"

definition empty_role_result :: role_result where
  "empty_role_result = \<lparr>ro_content = [], ro_iterations = 0, ro_calls = 0, ro_usage = (0, 0, 0), ro_exhausted = False\<rparr>"

definition role_execute :: "'w base_role \<Rightarrow> 'w \<Rightarrow> string \<Rightarrow> mem_entry list option \<Rightarrow> 'w \<times> (role_failure + role_result)" where
  "role_execute br w task memory =
     (case validate_role (br_config br) of
        Some e \<Rightarrow> (w, Inl (InvalidRoleConfig e))
      | None \<Rightarrow>
          (case select_public_provider br of
             None \<Rightarrow> (w, Inl (NoProvider (rl_type (br_config br))))
           | Some p \<Rightarrow>
               role_loop (nat (rl_max_iterations (br_config br))) br p w
                 (build_role_messages (br_config br) task (case memory of None \<Rightarrow> [] | Some es \<Rightarrow> es)) empty_role_result))"

text \<open>With the in-memory store: the recall before, and the content stored after a run that did not fail.\<close>

definition stored_metadata :: "role_config \<Rightarrow> role_result \<Rightarrow> string \<rightharpoonup> string" where
  "stored_metadata c r = [''role'' \<mapsto> rl_type c, ''iterations'' \<mapsto> encode_rune (nat (ro_iterations r))]"

definition role_execute_in ::
    "'w base_role \<Rightarrow> int \<Rightarrow> string list \<Rightarrow> memory_map \<Rightarrow> 'w \<Rightarrow> string \<Rightarrow> memory_map \<times> 'w \<times> (role_failure + role_result)" where
  "role_execute_in br now order m w task =
     (case role_execute br w task (recall now order task 10 MemoryShortTerm m) of
        (w', Inl e) \<Rightarrow> (m, w', Inl e)
      | (w', Inr r) \<Rightarrow>
          (snd (store_memory now (ro_content r) MemoryShortTerm (stored_metadata (br_config br) r) m), w', Inr r))"


section \<open>The protocol of tool calls\<close>

lemma run_role_calls_results:
  assumes "run_role_calls unmarshal reg w tcs = (w', ms, n)"
  shows "map msg_tool_call_id ms = map tc_id tcs" "list_all (\<lambda>r. msg_role r = RoleTool \<and> msg_tool_calls r = []) ms"
    "0 \<le> n \<and> n \<le> int (length tcs)"
  using assms
proof (induction tcs arbitrary: w w' ms n)
  case (Cons tc tcs)
  { case 1
    then show ?case using Cons.IH(1)
      by (auto simp: format_tool_result_def plain_message_def split: sum.splits prod.splits) }
  { case 2
    then show ?case using Cons.IH(2)
      by (auto simp: format_tool_result_def plain_message_def split: sum.splits prod.splits) }
  { case 3
    then show ?case using Cons.IH(3) by (fastforce split: sum.splits prod.splits) }
qed simp_all

lemma tool_round_protocol:
  assumes "run_role_calls unmarshal reg w (cr_tool_calls r) = (w', ms, n)" "cr_tool_calls r \<noteq> []"
  shows "protocol_ok (assistant_turn r # ms)"
proof -
  have "length ms = length (cr_tool_calls r)"
    using arg_cong [OF run_role_calls_results(1) [OF assms(1)], of length] by simp
  then show ?thesis using run_role_calls_results(1,2) [OF assms(1)] assms(2)
    by (simp add: assistant_turn_def plain_message_def Let_def)
qed

lemma build_messages_protocol: "protocol_ok (build_role_messages c task memory)"
proof -
  have "protocol_ok (map (\<lambda>e. plain_message RoleUser (''[Context from memory]: '' @ me_content e)) memory @
      [plain_message RoleUser task])"
    by (induction memory) (simp_all add: plain_protocol del: protocol_ok.simps(2))
  then show ?thesis by (simp add: build_role_messages_def plain_protocol del: protocol_ok.simps(2))
qed

text \<open>A provider that another one agrees with on all requests that keep the protocol.\<close>

definition agrees_on_protocol :: "'w public_provider \<Rightarrow> 'w public_provider \<Rightarrow> bool" where
  "agrees_on_protocol p q \<longleftrightarrow> pv_models p = pv_models q \<and>
     (\<forall>w req. protocol_ok (cq_messages req) \<longrightarrow> pv_complete p w req = pv_complete q w req)"

lemma role_loop_protocol:
  assumes "agrees_on_protocol p q" "protocol_ok messages"
  shows "role_loop left br p w messages res = role_loop left br q w messages res"
  using assms(2)
proof (induction left arbitrary: w messages res)
  case (Suc left)
  have models: "pv_models p = pv_models q" using assms(1) by (simp add: agrees_on_protocol_def)
  then have req: "role_request br p messages = role_request br q messages" by (simp add: role_request_def Let_def)
  have "pv_complete p w (role_request br q messages) = pv_complete q w (role_request br q messages)"
    using assms(1) Suc.prems by (simp add: agrees_on_protocol_def role_request_def Let_def)
  moreover have "role_loop left br p w' (messages @ assistant_turn r # ms) res' = role_loop left br q w' (messages @ assistant_turn r # ms) res'"
    if "run_role_calls (br_unmarshal br) reg w1 (cr_tool_calls r) = (w2, ms, n)" "cr_tool_calls r \<noteq> []"
    for reg w1 w2 ms n r w' res'
    by (rule Suc.IH [OF protocol_append [OF Suc.prems tool_round_protocol [OF that]]])
  ultimately show ?case using Suc.IH [OF Suc.prems] models req
    by (auto simp: Let_def split: sum.splits option.splits prod.splits)
qed simp

lemma role_loop_result:
  assumes "role_loop left br p w messages res = (w', Inr r)" "0 < left"
  shows "ro_iterations res < ro_iterations r \<and> ro_iterations r \<le> ro_iterations res + int left \<and>
    (ro_exhausted res \<or> ro_exhausted r \<longrightarrow> ro_exhausted res \<or> ro_iterations r = ro_iterations res + int left) \<and>
    (\<not> ro_exhausted r \<longrightarrow> ro_calls r = 0)"
  using assms
proof (induction left arbitrary: w messages res)
  case (Suc left)
  show ?case
  proof (cases "left = 0")
    case True
    then show ?thesis using Suc.prems(1)
      by (auto simp: Let_def split: if_splits sum.splits option.splits prod.splits)
  next
    case False
    then show ?thesis using Suc.prems(1) Suc.IH
      by (fastforce simp: Let_def split: if_splits sum.splits option.splits prod.splits)
  qed
qed simp


section \<open>Properties\<close>

text \<open>
  How a run ends: within the limit, and with the error only at the limit. A run that ends with the answer of the provider
  reports no tool calls, however many it made, because the code sets the count to zero.
\<close>

lemma role_result_bounds:
  assumes "role_execute br w task memory = (w', Inr r)"
  shows "1 \<le> ro_iterations r \<and> ro_iterations r \<le> rl_max_iterations (br_config br) \<and>
    (ro_exhausted r \<longrightarrow> ro_iterations r = rl_max_iterations (br_config br)) \<and> (\<not> ro_exhausted r \<longrightarrow> ro_calls r = 0)"
proof -
  obtain p where p: "validate_role (br_config br) = None"
    "role_loop (nat (rl_max_iterations (br_config br))) br p w
       (build_role_messages (br_config br) task (case memory of None \<Rightarrow> [] | Some es \<Rightarrow> es)) empty_role_result = (w', Inr r)"
    using assms by (auto simp: role_execute_def split: option.splits)
  have "1 \<le> rl_max_iterations (br_config br)" using p(1) by (auto simp: validate_role_def split: if_splits)
  then show ?thesis using role_loop_result [OF p(2)] by (auto simp: empty_role_result_def)
qed

text \<open>Without a registry of roles no provider is found, whatever the registry of providers holds.\<close>

lemma providers_alone_not_used:
  "validate_role (br_config br) = None \<Longrightarrow> br_roles br = None \<Longrightarrow>
     role_execute br w task memory = (w, Inl (NoProvider (rl_type (br_config br))))"
  by (simp add: role_execute_def select_public_provider_def)

text \<open>The number of iterations is stored as the character with that number.\<close>

lemma iterations_stored_as_character:
  "stored_metadata c (empty_role_result\<lparr>ro_iterations := 3\<rparr>) ''iterations'' = Some [CHR 0x03]"
proof -
  have "encode_rune 3 = [CHR 0x03]" by code_simp
  then show ?thesis by (simp add: stored_metadata_def empty_role_result_def)
qed

definition with_assigned :: "'w base_role \<Rightarrow> 'w public_roles \<Rightarrow> 'w public_provider \<Rightarrow> 'w base_role" where
  "with_assigned br rs p =
     br\<lparr>br_roles := Some (rs\<lparr>pr_assigned := (pr_assigned rs)(rl_type (br_config br) \<mapsto> p)\<rparr>)\<rparr>"

lemma role_loop_env: "role_loop left (br\<lparr>br_roles := x\<rparr>) p w messages res = role_loop left br p w messages res"
proof (induction left arbitrary: w messages res)
  case (Suc left)
  have "role_request (br\<lparr>br_roles := x\<rparr>) p messages = role_request br p messages"
    by (simp add: role_request_def get_tool_definitions_def Let_def split: option.split)
  then show ?case by (simp add: Suc.IH Let_def split: sum.splits option.splits prod.splits)
qed simp

text \<open>A role only sends requests that keep the protocol of tool calls: every assistant message with tool calls is followed by
one result per call, with the identifiers of the calls in order, and there is no other result. So exchanging the provider by
one that answers such requests the same, and any other request in another way, changes nothing of a run.\<close>

lemma role_requests_follow_protocol:
  assumes "agrees_on_protocol p q"
  shows "role_execute (with_assigned br rs p) w task memory = role_execute (with_assigned br rs q) w task memory"
proof -
  have sel: "select_public_provider (with_assigned br rs x) = Some x" for x
    by (simp add: select_public_provider_def with_assigned_def get_assigned_provider_def)
  show ?thesis unfolding role_execute_def sel
    using role_loop_protocol [OF assms build_messages_protocol]
    by (simp add: with_assigned_def role_loop_env split: option.split)
qed

text \<open>A provider that asks for one tool and then answers with the number of messages, and one that fails outside the protocol.\<close>

definition counting_provider :: "nat public_provider" where
  "counting_provider = \<lparr>pv_name = ''p'', pv_complete = (\<lambda>w req. (w + 1, Inr
     (if w = 0 then \<lparr>cr_content = [], cr_usage = (1, 1, 2), cr_tool_calls = [\<lparr>tc_id = ''c1'', tc_name = ''todo'', tc_arguments = []\<rparr>],
        cr_finish = ''tool_calls''\<rparr>
      else \<lparr>cr_content = dec_digits (length (cq_messages req)), cr_usage = (1, 1, 2), cr_tool_calls = [], cr_finish = ''stop''\<rparr>))),
     pv_models = [''m''], pv_available = True\<rparr>"

definition strict_provider :: "nat public_provider" where
  "strict_provider = counting_provider\<lparr>pv_complete := (\<lambda>w req.
     if protocol_ok (cq_messages req) then pv_complete counting_provider w req else (w, Inl ''bad request''))\<rparr>"

definition demo_base_role :: "nat base_role" where
  "demo_base_role = \<lparr>br_config = \<lparr>rl_type = ''qa'', rl_prompt = ''test'', rl_tools = [], rl_provider = [], rl_model = [],
     rl_max_iterations = 5, rl_temperature = 0\<rparr>, br_roles = None, br_providers = None, br_tools = Some Map.empty,
     br_unmarshal = (\<lambda>_. Inl [])\<rparr>"

lemma role_requests_follow_protocol_witness:
  "snd (role_execute (with_assigned demo_base_role new_public_roles strict_provider) 0 ''run'' None) =
     Inr \<lparr>ro_content = ''4'', ro_iterations = 2, ro_calls = 0, ro_usage = (2, 2, 4), ro_exhausted = False\<rparr>"
proof -
  have agree: "agrees_on_protocol counting_provider strict_provider"
    by (simp add: agrees_on_protocol_def strict_provider_def counting_provider_def)
  have "dec_digits 4 = ''4''" by code_simp
  then have "snd (role_execute (with_assigned demo_base_role new_public_roles counting_provider) 0 ''run'' None) =
      Inr \<lparr>ro_content = ''4'', ro_iterations = 2, ro_calls = 0, ro_usage = (2, 2, 4), ro_exhausted = False\<rparr>"
    by (simp add: role_execute_def with_assigned_def demo_base_role_def select_public_provider_def get_assigned_provider_def
        validate_role_def build_role_messages_def empty_role_result_def counting_provider_def role_request_def add_usage_def
        parse_tool_call_arguments_def execute_tool_def get_tool_def find_tool_def eval_nat_numeral Let_def)
  then show ?thesis unfolding role_requests_follow_protocol [OF agree] .
qed

end
