(* ===== verification/LLM_Request.thy ===== *)
theory LLM_Request
  imports Public_Role Json_Text "HOL-Library.Word"
begin

text \<open>
  What the two LLM clients send and read: the requests of \<open>internal/llm/client.go\<close> and \<open>internal/llm/anthropic.go\<close>, the
  completions their answers become, the tool calls found in text (\<open>internal/llm/parse.go\<close>) and the cached lists of models.
  JSON is a parameter (\<open>marshal\<close>, \<open>unmarshal\<close>), and so are the clock and what the server answers. Text is trimmed of the
  ASCII white space only.
\<close>

section \<open>Clients\<close>

record llm_client =
  lc_name :: string
  lc_base_url :: string
  lc_api_key :: string
  lc_default_model :: string
  lc_headers :: "(string \<times> string) list"
  lc_x_api_key :: bool
  lc_anthropic_version :: string
  lc_ollama :: bool

text \<open>The part of the configuration that requests are built from.\<close>

record llm_config =
  lf_base_url :: string
  lf_api_key :: string
  lf_default_model :: string
  lf_headers :: "(string \<times> string) list"

definition new_openai_client :: "string \<Rightarrow> llm_config \<Rightarrow> string + llm_client" where
  "new_openai_client name cfg =
     (if lf_base_url cfg = [] then Inl (''provider '' @ name @ '': base_url is required'')
      else if lf_api_key cfg = [] \<and> name \<noteq> ''ollama'' \<and> name \<noteq> ''lmstudio'' then
        Inl (''provider '' @ name @ '': api_key is required'')
      else Inr \<lparr>lc_name = name, lc_base_url = lf_base_url cfg, lc_api_key = lf_api_key cfg,
             lc_default_model = lf_default_model cfg, lc_headers = lf_headers cfg, lc_x_api_key = False,
             lc_anthropic_version = [], lc_ollama = (name = ''ollama'')\<rparr>)"

definition with_custom_headers :: "(string \<times> string) list \<Rightarrow> llm_client \<Rightarrow> llm_client" where
  "with_custom_headers hs c = c\<lparr>lc_headers := hs\<rparr>"

definition with_x_api_key :: "string \<Rightarrow> llm_client \<Rightarrow> llm_client" where
  "with_x_api_key version c = c\<lparr>lc_x_api_key := True, lc_anthropic_version := version\<rparr>"

definition new_anthropic_client :: "string \<Rightarrow> llm_config \<Rightarrow> string + llm_client" where
  "new_anthropic_client name cfg =
     (if lf_base_url cfg = [] then Inl (''provider '' @ name @ '': base_url is required'')
      else if lf_api_key cfg = [] then Inl (''provider '' @ name @ '': api_key is required'')
      else Inr \<lparr>lc_name = name, lc_base_url = lf_base_url cfg, lc_api_key = lf_api_key cfg,
             lc_default_model = lf_default_model cfg, lc_headers = lf_headers cfg, lc_x_api_key = False,
             lc_anthropic_version = [], lc_ollama = False\<rparr>)"

text \<open>The headers a client sets, in the order it sets them; a later one overwrites an earlier one of the same name.\<close>

definition stream_headers :: "llm_client \<Rightarrow> (string \<times> string) list" where
  "stream_headers c =
     (''Content-Type'', ''application/json'') #
     (if lc_x_api_key c then
        (''x-api-key'', lc_api_key c) #
        (if lc_anthropic_version c \<noteq> [] then [(''anthropic-version'', lc_anthropic_version c)] else [])
      else if lc_api_key c \<noteq> [] then [(''Authorization'', ''Bearer '' @ lc_api_key c)] else []) @
     lc_headers c"

definition anthropic_headers :: "llm_client \<Rightarrow> (string \<times> string) list" where
  "anthropic_headers c =
     [(''x-api-key'', lc_api_key c), (''anthropic-version'', ''2023-06-01''), (''Content-Type'', ''application/json'')] @
     lc_headers c"

section \<open>Requests in the format of OpenAI\<close>

text \<open>The fields of a request that the agents leave at their zero values.\<close>

record llm_request = completion_request +
  lq_top_p :: rat
  lq_frequency_penalty :: rat
  lq_presence_penalty :: rat
  lq_stop :: "string list"
  lq_tool_choice :: string

record api_call =
  ac_id :: string
  ac_type :: string
  ac_name :: string
  ac_arguments :: string

record api_message =
  am_role :: string
  am_content :: string
  am_name :: string
  am_tool_call_id :: string
  am_tool_calls :: "api_call list"

record api_tool =
  at_type :: string
  at_name :: string
  at_description :: string
  at_parameters :: "(string \<rightharpoonup> go_params) \<times> string list"

record api_payload =
  ap_model :: string
  ap_messages :: "api_message list"
  ap_stream :: bool
  ap_temperature :: "rat option"
  ap_max_tokens :: "int option"
  ap_top_p :: "rat option"
  ap_frequency_penalty :: "rat option"
  ap_presence_penalty :: "rat option"
  ap_stop :: "string list option"
  ap_tools :: "api_tool list option"
  ap_tool_choice :: "string option"

fun role_text :: "message_role \<Rightarrow> string" where
  "role_text RoleSystem = ''system''"
| "role_text RoleUser = ''user''"
| "role_text RoleAssistant = ''assistant''"
| "role_text RoleTool = ''tool''"

definition convert_tools :: "tool_definition list \<Rightarrow> api_tool list" where
  "convert_tools ts =
     map (\<lambda>t. \<lparr>at_type = ''function'', at_name = td_name t, at_description = td_description t,
       at_parameters = to_json_schema t\<rparr>) ts"

definition convert_tool_calls :: "tool_call list \<Rightarrow> api_call list" where
  "convert_tool_calls tcs =
     map (\<lambda>tc. \<lparr>ac_id = tc_id tc, ac_type = ''function'', ac_name = tc_name tc, ac_arguments = tc_arguments tc\<rparr>) tcs"

definition sanitize_for_ollama :: "nat \<Rightarrow> string \<Rightarrow> string" where
  "sanitize_for_ollama max_len s =
     (if s = [] then s
      else
        let s = replace_all s ''&'' ''&amp;'';
            s = replace_all s ''<'' ''&lt;'';
            s = replace_all s ''>'' ''&gt;''
        in if max_len < length s then take max_len s @ Kyoci_Types.nl @ ''... [truncated for context limit]'' else s)"

definition openai_message :: "message \<Rightarrow> api_message" where
  "openai_message m =
     \<lparr>am_role = role_text (msg_role m), am_content = msg_content m, am_name = msg_name m,
      am_tool_call_id = msg_tool_call_id m, am_tool_calls = convert_tool_calls (msg_tool_calls m)\<rparr>"

definition plain_api :: "string \<Rightarrow> string \<Rightarrow> api_message" where
  "plain_api role content =
     \<lparr>am_role = role, am_content = content, am_name = [], am_tool_call_id = [], am_tool_calls = []\<rparr>"

definition call_text :: "tool_call \<Rightarrow> string" where
  "call_text tc = Kyoci_Types.nl @ Kyoci_Types.nl @ ''[Tool Call: '' @ tc_name tc @ ''('' @ sanitize_for_ollama 500 (tc_arguments tc) @ '')]''"

fun ollama_message :: "message \<Rightarrow> api_message" where
  "ollama_message m =
     (case msg_role m of
        RoleSystem \<Rightarrow> plain_api ''system'' (sanitize_for_ollama 8000 (msg_content m))
      | RoleUser \<Rightarrow> plain_api ''user'' (sanitize_for_ollama 8000 (msg_content m))
      | RoleAssistant \<Rightarrow>
          plain_api ''assistant'' (sanitize_for_ollama 4000 (msg_content m) @ concat (map call_text (msg_tool_calls m)))
      | RoleTool \<Rightarrow>
          plain_api ''user'' (''[Tool Result for '' @ msg_tool_call_id m @ '']: '' @ sanitize_for_ollama 1500 (msg_content m)))"

definition convert_messages :: "llm_client \<Rightarrow> message list \<Rightarrow> api_message list" where
  "convert_messages c ms = map (if lc_ollama c then ollama_message else openai_message) ms"

definition build_payload :: "llm_client \<Rightarrow> llm_request \<Rightarrow> bool \<Rightarrow> api_payload \<times> string" where
  "build_payload c req stream =
     (let model = (if cq_model req = [] then lc_default_model c else cq_model req)
      in (\<lparr>ap_model = model, ap_messages = convert_messages c (cq_messages req), ap_stream = stream,
            ap_temperature = (if 0 < cq_temperature req then Some (cq_temperature req) else None),
            ap_max_tokens = (if 0 < cq_max_tokens req then Some (cq_max_tokens req) else None),
            ap_top_p = (if 0 < lq_top_p req then Some (lq_top_p req) else None),
            ap_frequency_penalty = (if 0 < lq_frequency_penalty req then Some (lq_frequency_penalty req) else None),
            ap_presence_penalty = (if 0 < lq_presence_penalty req then Some (lq_presence_penalty req) else None),
            ap_stop = (if lq_stop req \<noteq> [] then Some (lq_stop req) else None),
            ap_tools = (if cq_tools req \<noteq> [] then Some (convert_tools (cq_tools req)) else None),
            ap_tool_choice =
              (if cq_tools req \<noteq> [] then Some (if lq_tool_choice req = [] then ''auto'' else lq_tool_choice req)
               else None)\<rparr>, model))"

text \<open>The conversation that is sent again after Ollama could not parse the whole one.\<close>

definition strip_to_minimal :: "message list \<Rightarrow> message list" where
  "strip_to_minimal ms =
     (if length ms \<le> 2 then ms
      else
        let result = (if msg_role (hd ms) = RoleSystem then [hd ms] else []) @
              (case find (\<lambda>m. msg_role m = RoleUser) (rev ms) of None \<Rightarrow> [] | Some m \<Rightarrow> [m])
        in if result = [] then [last ms] else result)"

text \<open>The wait a server asks for, in nanoseconds of 64 bits. \<open>date\<close> is the time until a date in the format of HTTP.\<close>

definition parse_retry_after :: "(string \<Rightarrow> int option) \<Rightarrow> string \<Rightarrow> int" where
  "parse_retry_after date header =
     (if header = [] then 0
      else case go_atoi header of
             Some seconds \<Rightarrow> sint (word_of_int (seconds * 1000000000) :: 64 word)
           | None \<Rightarrow> (case date header of Some d \<Rightarrow> d | None \<Rightarrow> 0))"

section \<open>Tool calls written as text\<close>

definition after_prefix :: "string \<Rightarrow> string \<Rightarrow> string option" where
  "after_prefix p s = (if has_prefix s p then Some (drop (length p) s) else None)"

text \<open>
  A match of \<open>textToolCallPattern\<close> at the start of a text: the name, the arguments and the text behind it. The classes of
  \<open>\s\<close>, \<open>\w\<close> and the bracket are disjoint, so no other split has to be tried; the lazy part ends at the first \<open>})]\<close>.
\<close>

definition text_call_at :: "string \<Rightarrow> (string \<times> string \<times> string) option" where
  "text_call_at s =
     (case after_prefix ''[Tool Call:'' s of
        None \<Rightarrow> None
      | Some t \<Rightarrow>
          let u = dropWhile re_space t; name = takeWhile is_word_byte u in
          if name = [] then None
          else case after_prefix ''({'' (dropWhile is_word_byte u) of
                 None \<Rightarrow> None
               | Some body \<Rightarrow>
                   (case str_index body ''})]'' of
                      None \<Rightarrow> None
                    | Some i \<Rightarrow> Some (name, ''{'' @ take i body @ ''}'', drop (i + 3) body)))"

text \<open>The matches of a pattern that is given by its match at the start of a text, and the text without them.\<close>

function split_matches :: "(string \<Rightarrow> ('m \<times> string) option) \<Rightarrow> string \<Rightarrow> 'm list \<times> string" where
  "split_matches f s =
     (case s of
        [] \<Rightarrow> ([], [])
      | c # cs \<Rightarrow>
          (case f s of
             Some (m, rest) \<Rightarrow>
               if length rest < length s then (let (ms, t) = split_matches f rest in (m # ms, t)) else ([], s)
           | None \<Rightarrow> (let (ms, t) = split_matches f cs in (ms, c # t))))"
  by pat_completeness auto
termination
  by (relation "measure (\<lambda>(f, s). length s)") auto

declare split_matches.simps [simp del]

text \<open>\<open>\n{3,}\<close> becomes two line ends.\<close>

fun collapse_newlines :: "nat \<Rightarrow> string \<Rightarrow> string" where
  "collapse_newlines k [] = []"
| "collapse_newlines k (c # cs) =
     (if c = CHR 0x0A then (if 2 \<le> k then collapse_newlines k cs else c # collapse_newlines (Suc k) cs)
      else c # collapse_newlines 0 cs)"

definition tidy_text :: "string \<Rightarrow> string" where
  "tidy_text s = trim_space (collapse_newlines 0 s)"

definition text_match :: "string \<Rightarrow> ((string \<times> string) \<times> string) option" where
  "text_match s = map_option (\<lambda>(name, args, rest). ((name, args), rest)) (text_call_at s)"

definition numbered_calls :: "string \<Rightarrow> int \<Rightarrow> (nat \<times> string \<times> string) list \<Rightarrow> tool_call list" where
  "numbered_calls kind nano xs =
     map (\<lambda>(i, name, args). \<lparr>tc_id = kind @ dec_digits i @ ''_'' @ itoa nano, tc_name = name, tc_arguments = args\<rparr>) xs"

definition extract_text_tool_calls :: "int \<Rightarrow> string \<Rightarrow> string \<times> tool_call list" where
  "extract_text_tool_calls nano content =
     (let (ms, cleaned) = split_matches text_match content
      in if ms = [] then (content, []) else (tidy_text cleaned, numbered_calls ''textcall_'' nano (enumerate 0 ms)))"

definition normalize_content :: "string \<Rightarrow> string \<Rightarrow> string" where
  "normalize_content content reasoning =
     (if trim_space content \<noteq> [] then content
      else if trim_space reasoning \<noteq> [] then trim_space reasoning else [])"

text \<open>The parts of \<open>bareJSONToolCallPattern\<close>: an optional part with white space, a quoted key, and the lazy object.\<close>

definition optional_after :: "string \<Rightarrow> string \<Rightarrow> string" where
  "optional_after p s = (case after_prefix p s of Some t \<Rightarrow> dropWhile re_space t | None \<Rightarrow> s)"

definition optional_before :: "string \<Rightarrow> string \<Rightarrow> string" where
  "optional_before p s = (case after_prefix p (dropWhile re_space s) of Some t \<Rightarrow> t | None \<Rightarrow> s)"

definition bare_prefix :: "string \<Rightarrow> string" where
  "bare_prefix s =
     (let s = optional_after ''<tool_call>'' s
      in case after_prefix fence s of
           Some t \<Rightarrow> dropWhile re_space (case after_prefix ''json'' t of Some u \<Rightarrow> u | None \<Rightarrow> t)
         | None \<Rightarrow> s)"

definition token_after :: "string \<Rightarrow> string option \<Rightarrow> string option" where
  "token_after p os = Option.bind os (\<lambda>s. after_prefix p (dropWhile re_space s))"

text \<open>The shortest object whose closing bracket is followed by another one, and the text behind both.\<close>

fun lazy_object :: "string \<Rightarrow> string \<Rightarrow> (string \<times> string) option" where
  "lazy_object acc [] = None"
| "lazy_object acc (c # cs) =
     (case (if c = CHR ''}'' then after_prefix ''}'' (dropWhile re_space cs) else None) of
        Some rest \<Rightarrow> Some (rev (c # acc), rest)
      | None \<Rightarrow> lazy_object (c # acc) cs)"

definition bare_call_at :: "string \<Rightarrow> ((string \<times> string) \<times> string) option" where
  "bare_call_at s =
     (case token_after [CHR 0x22] (token_after '':'' (token_after [CHR 0x22, CHR ''n'', CHR ''a'', CHR ''m'', CHR ''e'', CHR 0x22]
            (after_prefix ''{'' (bare_prefix s)))) of
        None \<Rightarrow> None
      | Some t \<Rightarrow>
          let name = takeWhile (\<lambda>c. c \<noteq> CHR 0x22) t in
          if name = [] then None
          else case token_after ''{'' (token_after '':'' (token_after ([CHR 0x22] @ ''arguments'' @ [CHR 0x22]) (token_after '',''
                      (after_prefix [CHR 0x22] (drop (length name) t))))) of
                 None \<Rightarrow> None
               | Some body \<Rightarrow>
                   (case lazy_object ''{'' body of
                      None \<Rightarrow> None
                    | Some (args, rest) \<Rightarrow> Some ((name, args), optional_before fence (optional_before ''</tool_call>'' rest))))"

text \<open>\<open>canonical\<close> decodes a JSON text and encodes it again; it gives nothing when the text does not decode.\<close>

definition bare_call :: "(string \<Rightarrow> string option) \<Rightarrow> nat \<times> string \<times> string \<Rightarrow> (nat \<times> string \<times> string) option" where
  "bare_call canonical = (\<lambda>(i, name, args).
     if trim_space name = [] then None
     else map_option (\<lambda>raw. (i, trim_space name, raw)) (canonical (trim_space args)))"

definition extract_bare_json_tool_calls :: "(string \<Rightarrow> string option) \<Rightarrow> int \<Rightarrow> string \<Rightarrow> string \<times> tool_call list" where
  "extract_bare_json_tool_calls canonical nano content =
     (if trim_space content = [] then (content, [])
      else
        let (ms, cleaned) = split_matches bare_call_at content;
            calls = List.map_filter (bare_call canonical) (enumerate 0 ms)
        in if calls = [] then (content, [])
           else (tidy_text cleaned, numbered_calls ''barecall_'' nano calls))"

section \<open>Answers in the format of OpenAI\<close>

record api_response =
  ar_model :: string
  ar_choices :: "(string \<times> string \<times> api_call list \<times> string) list"
  ar_usage :: usage

text \<open>A choice holds the content, the reasoning, the tool calls and the finish reason.\<close>

definition of_api_call :: "api_call \<Rightarrow> tool_call" where
  "of_api_call ac = \<lparr>tc_id = ac_id ac, tc_name = ac_name ac, tc_arguments = ac_arguments ac\<rparr>"

definition ollama_calls :: "(string \<Rightarrow> string option) \<Rightarrow> int \<Rightarrow> string \<times> tool_call list \<Rightarrow> string \<times> tool_call list" where
  "ollama_calls canonical nano = (\<lambda>(content, native).
     let (content, parsed) = extract_text_tool_calls nano content;
         calls = (if parsed \<noteq> [] \<and> native = [] then parsed else native)
     in if calls = [] then extract_bare_json_tool_calls canonical nano content else (content, calls))"

definition convert_response ::
    "(string \<Rightarrow> string option) \<Rightarrow> int \<Rightarrow> llm_client \<Rightarrow> api_response \<Rightarrow> string \<times> completion_response" where
  "convert_response canonical nano c r =
     (ar_model r,
      case ar_choices r of
        [] \<Rightarrow> \<lparr>cr_content = [], cr_usage = (0, 0, 0), cr_tool_calls = [], cr_finish = ''stop''\<rparr>
      | (content, reasoning, calls, finish) # _ \<Rightarrow>
          let answer = (normalize_content content reasoning, map of_api_call calls);
              (content, calls) = (if lc_ollama c then ollama_calls canonical nano answer else answer)
          in \<lparr>cr_content = content, cr_usage = ar_usage r, cr_tool_calls = calls, cr_finish = finish\<rparr>)"

section \<open>Lists of models\<close>

record model_info =
  mi_id :: string
  mi_provider :: string
  mi_description :: string
  mi_tags :: "string list"

text \<open>The fixed fields (lengths of the context and the output, tools and streaming) are left out.\<close>

definition fallback_models :: "llm_client \<Rightarrow> model_info list" where
  "fallback_models c =
     [\<lparr>mi_id = lc_default_model c, mi_provider = lc_name c, mi_description = ''Default for '' @ lc_name c, mi_tags = [''default'']\<rparr>]"

definition anthropic_fallback_models :: "llm_client \<Rightarrow> model_info list" where
  "anthropic_fallback_models c =
     [\<lparr>mi_id = lc_default_model c, mi_provider = lc_name c, mi_description = ''Default: '' @ lc_default_model c,
       mi_tags = [''default'']\<rparr>]"

definition listed_model :: "llm_client \<Rightarrow> string \<times> string \<Rightarrow> model_info" where
  "listed_model c = (\<lambda>(ident, description).
     \<lparr>mi_id = ident, mi_provider = lc_name c, mi_description = description,
      mi_tags = (if ident = lc_default_model c then [''default''] else [])\<rparr>)"

text \<open>What the server answers: nothing that can be used, or identifiers with their owners.\<close>

definition fetch_models :: "llm_client \<Rightarrow> (string \<times> string) list option \<Rightarrow> model_info list" where
  "fetch_models c answer =
     (case answer of
        None \<Rightarrow> fallback_models c
      | Some xs \<Rightarrow> if xs = [] then fallback_models c else map (listed_model c) xs)"

definition anthropic_fetch_models :: "llm_client \<Rightarrow> string list option \<Rightarrow> model_info list" where
  "anthropic_fetch_models c answer =
     (case answer of
        None \<Rightarrow> anthropic_fallback_models c
      | Some xs \<Rightarrow> if xs = [] then anthropic_fallback_models c else map (\<lambda>ident. listed_model c (ident, ident)) xs)"

type_synonym models_cache = "(model_info list \<times> int) option"

text \<open>\<open>Models\<close> of either client: the cached list for sixty seconds, and what is fetched otherwise.\<close>

definition cached_models :: "int \<Rightarrow> model_info list \<Rightarrow> models_cache \<Rightarrow> models_cache \<times> model_info list" where
  "cached_models now fetched cache =
     (case cache of
        Some (ms, t) \<Rightarrow> if now - t < 60 then (cache, ms) else (Some (fetched, now), fetched)
      | None \<Rightarrow> (Some (fetched, now), fetched))"

section \<open>Requests in the format of Anthropic\<close>

text \<open>The blocks of a message; a block of another type is ignored wherever blocks are read.\<close>

datatype content_block =
    TextBlock string
  | ToolUse string string string
  | ToolResult string string
  | OtherBlock string

datatype message_content = PlainText string | Blocks "content_block list"

datatype anthropic_message = AMsg (an_role: string) (an_content: message_content)

definition merge_text :: "anthropic_message \<Rightarrow> string \<Rightarrow> anthropic_message" where
  "merge_text m txt =
     (case an_content m of
        PlainText s \<Rightarrow> AMsg (an_role m) (PlainText (s @ Kyoci_Types.nl @ txt))
      | Blocks _ \<Rightarrow> m)"

definition flush_text :: "string \<Rightarrow> string \<Rightarrow> anthropic_message list \<Rightarrow> anthropic_message list" where
  "flush_text role txt0 msgs =
     (let txt = trim_space txt0 in
      if txt = [] then msgs
      else if msgs \<noteq> [] \<and> an_role (last msgs) = role then butlast msgs @ [merge_text (last msgs) txt]
      else msgs @ [AMsg role (PlainText txt)])"

definition use_block :: "tool_call \<Rightarrow> content_block" where
  "use_block tc = ToolUse (tc_id tc) (tc_name tc) (if tc_arguments tc \<noteq> [] then tc_arguments tc else ''{}'')"

definition call_blocks :: "message \<Rightarrow> content_block list" where
  "call_blocks m =
     (if trim_space (msg_content m) \<noteq> [] then [TextBlock (msg_content m)] else []) @ map use_block (msg_tool_calls m)"

definition add_result :: "content_block \<Rightarrow> anthropic_message list \<Rightarrow> anthropic_message list" where
  "add_result b msgs =
     (case rev msgs of
        AMsg role (Blocks bs) # rest \<Rightarrow>
          if role = ''user'' then butlast msgs @ [AMsg role (Blocks (bs @ [b]))] else msgs @ [AMsg ''user'' (Blocks [b])]
      | _ \<Rightarrow> msgs @ [AMsg ''user'' (Blocks [b])])"

definition add_turn :: "string list \<times> anthropic_message list \<Rightarrow> message \<Rightarrow> string list \<times> anthropic_message list" where
  "add_turn = (\<lambda>(sys, msgs) m.
     case msg_role m of
       RoleSystem \<Rightarrow> (if trim_space (msg_content m) \<noteq> [] then sys @ [msg_content m] else sys, msgs)
     | RoleUser \<Rightarrow> (sys, flush_text ''user'' (msg_content m) msgs)
     | RoleAssistant \<Rightarrow>
         (sys, if msg_tool_calls m \<noteq> [] then msgs @ [AMsg ''assistant'' (Blocks (call_blocks m))]
               else flush_text ''assistant'' (msg_content m) msgs)
     | RoleTool \<Rightarrow> (sys, add_result (ToolResult (msg_tool_call_id m) (msg_content m)) msgs))"

definition anthropic_turns :: "message list \<Rightarrow> string \<times> anthropic_message list" where
  "anthropic_turns ms =
     (let (sys, msgs) = foldl add_turn ([], []) ms in (join (Kyoci_Types.nl @ Kyoci_Types.nl) sys, msgs))"

definition build_tools :: "tool_definition list \<Rightarrow> (string \<times> string \<times> ((string \<rightharpoonup> go_params) \<times> string list)) list" where
  "build_tools ts = map (\<lambda>t. (td_name t, td_description t, to_json_schema t)) ts"

definition build_tool_choice :: "string \<Rightarrow> string" where
  "build_tool_choice choice = (if choice = ''required'' then ''any'' else ''auto'')"

definition request_model :: "llm_client \<Rightarrow> llm_request \<Rightarrow> string" where
  "request_model c req = (if cq_model req \<noteq> [] then cq_model req else lc_default_model c)"

record anthropic_request =
  rq_model :: string
  rq_max_tokens :: int
  rq_system :: string
  rq_messages :: "anthropic_message list"
  rq_temperature :: rat
  rq_tools :: "(string \<times> string \<times> ((string \<rightharpoonup> go_params) \<times> string list)) list"
  rq_tool_choice :: string
  rq_stream :: bool

definition build_request :: "llm_client \<Rightarrow> llm_request \<Rightarrow> bool \<Rightarrow> string + anthropic_request" where
  "build_request c req stream =
     (let (sys, msgs) = anthropic_turns (cq_messages req) in
      if msgs = [] then Inl (''provider '' @ lc_name c @ '': no messages'')
      else Inr \<lparr>rq_model = request_model c req,
             rq_max_tokens = (if cq_max_tokens req \<le> 0 then 4096 else cq_max_tokens req),
             rq_system = sys, rq_messages = msgs,
             rq_temperature = (if 0 < cq_temperature req then cq_temperature req else 0),
             rq_tools = build_tools (cq_tools req), rq_tool_choice = build_tool_choice (lq_tool_choice req),
             rq_stream = stream\<rparr>)"

text \<open>The body that is posted: the error of the encoder is dropped, and then nothing is.\<close>

definition request_body :: "(anthropic_request \<Rightarrow> string + string) \<Rightarrow> anthropic_request \<Rightarrow> string" where
  "request_body marshal r = (case marshal r of Inl _ \<Rightarrow> [] | Inr body \<Rightarrow> body)"

section \<open>Answers in the format of Anthropic\<close>

record anthropic_response =
  rs_model :: string
  rs_content :: "content_block list"
  rs_stop_reason :: string
  rs_input_tokens :: int
  rs_output_tokens :: int

definition map_stop_reason :: "string \<Rightarrow> string" where
  "map_stop_reason r =
     (if r = ''end_turn'' \<or> r = ''stop_sequence'' then ''stop''
      else if r = ''tool_use'' then ''tool_calls''
      else if r = ''max_tokens'' then ''max_tokens''
      else [])"

fun block_text :: "content_block \<Rightarrow> string" where
  "block_text (TextBlock t) = t"
| "block_text _ = []"

fun block_calls :: "content_block \<Rightarrow> tool_call list" where
  "block_calls (ToolUse i name input) =
     [\<lparr>tc_id = i, tc_name = name, tc_arguments = (if input \<noteq> [] then input else ''{}'')\<rparr>]"
| "block_calls _ = []"

definition to_completion_response :: "anthropic_response \<Rightarrow> string \<times> completion_response" where
  "to_completion_response r =
     (let calls = concat (map block_calls (rs_content r)); finish = map_stop_reason (rs_stop_reason r)
      in (rs_model r,
          \<lparr>cr_content = concat (map block_text (rs_content r)),
           cr_usage = (rs_input_tokens r, rs_output_tokens r, rs_input_tokens r + rs_output_tokens r),
           cr_tool_calls = calls,
           cr_finish = (if calls \<noteq> [] \<and> finish = [] then ''tool_calls'' else finish)\<rparr>))"

section \<open>Uses and results of tools\<close>

fun block_use :: "content_block \<Rightarrow> string list" where
  "block_use (ToolUse i n a) = [i]"
| "block_use _ = []"

fun block_result :: "content_block \<Rightarrow> string list" where
  "block_result (ToolResult i c) = [i]"
| "block_result _ = []"

fun content_blocks :: "message_content \<Rightarrow> content_block list" where
  "content_blocks (PlainText s) = []"
| "content_blocks (Blocks bs) = bs"

definition uses_of :: "anthropic_message \<Rightarrow> string list" where
  "uses_of m = concat (map block_use (content_blocks (an_content m)))"

definition results_of :: "anthropic_message \<Rightarrow> string list" where
  "results_of m = concat (map block_result (content_blocks (an_content m)))"

text \<open>Every message that uses tools is answered by the next one, which holds the results of all the uses in order, and no result
  stands elsewhere.\<close>

fun answered :: "anthropic_message list \<Rightarrow> bool" where
  "answered [] = True"
| "answered [m] = (uses_of m = [] \<and> results_of m = [])"
| "answered (m # r # ms) =
     (if uses_of m = [] then results_of m = [] \<and> answered (r # ms)
      else an_role m = ''assistant'' \<and> an_role r = ''user'' \<and> results_of m = [] \<and> uses_of r = [] \<and>
        results_of r = uses_of m \<and> answered ms)"

lemma no_uses [simp]: "uses_of (AMsg r (PlainText t)) = []"
  by (simp add: uses_of_def)

lemma no_results [simp]: "results_of (AMsg r (PlainText t)) = []"
  by (simp add: results_of_def)

lemma answered_append: "answered xs \<Longrightarrow> answered ys \<Longrightarrow> answered (xs @ ys)"
proof (induction xs rule: answered.induct)
  case (2 m)
  then show ?case by (cases ys) auto
qed auto

lemma answered_replace_text:
  "answered (xs @ [AMsg r (PlainText a)]) \<Longrightarrow> answered (xs @ [AMsg r (PlainText b)])"
proof (induction xs rule: answered.induct)
  case (2 m)
  then show ?case by (cases "uses_of m = []") simp_all
next
  case (3 m r' ms)
  then show ?case by (cases "uses_of m = []") simp_all
qed simp

lemma merge_text_role [simp]: "an_role (merge_text m t) = an_role m"
  by (simp add: merge_text_def split: message_content.split)

lemma answered_flush:
  assumes "answered msgs"
  shows "answered (flush_text role txt msgs)"
proof -
  have "answered (butlast msgs @ [merge_text (last msgs) t])" if ne: "msgs \<noteq> []" for t
  proof (cases "last msgs")
    case (AMsg r c)
    then have msgs: "msgs = butlast msgs @ [AMsg r c]" using ne by (metis append_butlast_last_id)
    show ?thesis
    proof (cases c)
      case (PlainText s)
      then show ?thesis using answered_replace_text [of "butlast msgs" r s] msgs assms AMsg by (simp add: merge_text_def)
    next
      case (Blocks bs)
      then show ?thesis using msgs assms AMsg by (simp add: merge_text_def)
    qed
  qed
  moreover have "answered (msgs @ [AMsg role (PlainText t)])" for t
    by (rule answered_append [OF assms]) simp
  ultimately show ?thesis using assms by (simp add: flush_text_def Let_def)
qed

lemma add_result_first: "add_result b (ms @ [AMsg ''assistant'' c]) = ms @ [AMsg ''assistant'' c, AMsg ''user'' (Blocks [b])]"
  by (simp add: add_result_def split: message_content.split)

lemma add_result_next: "add_result b (ms @ [AMsg ''user'' (Blocks bs)]) = ms @ [AMsg ''user'' (Blocks (bs @ [b]))]"
  by (simp add: add_result_def butlast_append)

definition result_block :: "message \<Rightarrow> content_block" where
  "result_block m = ToolResult (msg_tool_call_id m) (msg_content m)"

lemma add_results:
  assumes "list_all (\<lambda>r. msg_role r = RoleTool \<and> msg_tool_calls r = []) rs"
  shows "foldl add_turn (sys, ms @ [AMsg ''user'' (Blocks bs)]) rs =
     (sys, ms @ [AMsg ''user'' (Blocks (bs @ map result_block rs))])"
  using assms
proof (induction rs arbitrary: bs)
  case (Cons r rs)
  then show ?case by (simp add: add_turn_def add_result_next result_block_def)
qed simp

lemma add_round:
  assumes "msg_role m = RoleAssistant" "msg_tool_calls m \<noteq> []" "rs \<noteq> []"
    "list_all (\<lambda>r. msg_role r = RoleTool \<and> msg_tool_calls r = []) rs"
  shows "foldl add_turn (sys, ms) (m # rs) =
     (sys, ms @ [AMsg ''assistant'' (Blocks (call_blocks m)), AMsg ''user'' (Blocks (map result_block rs))])"
proof -
  obtain r rs' where rs: "rs = r # rs'" using assms(3) by (cases rs) auto
  have "add_turn (sys, ms) m = (sys, ms @ [AMsg ''assistant'' (Blocks (call_blocks m))])"
    using assms(1,2) by (simp add: add_turn_def)
  then show ?thesis
    using assms(4) add_results [of rs' sys "ms @ [AMsg ''assistant'' (Blocks (call_blocks m))]" "[result_block r]"]
    by (simp add: rs add_turn_def add_result_first result_block_def)
qed

lemma uses_of_round: "uses_of (AMsg r (Blocks (call_blocks m))) = map tc_id (msg_tool_calls m)"
  "results_of (AMsg r (Blocks (call_blocks m))) = []"
proof -
  have "concat (map (block_use \<circ> use_block) tcs) = map tc_id tcs" "concat (map (block_result \<circ> use_block) tcs) = []" for tcs
    by (induction tcs) (simp_all add: use_block_def)
  then show "uses_of (AMsg r (Blocks (call_blocks m))) = map tc_id (msg_tool_calls m)"
    "results_of (AMsg r (Blocks (call_blocks m))) = []"
    by (simp_all add: uses_of_def results_of_def call_blocks_def)
qed

lemma results_of_round: "results_of (AMsg r (Blocks (map result_block rs))) = map msg_tool_call_id rs"
  "uses_of (AMsg r (Blocks (map result_block rs))) = []"
proof -
  have "concat (map (block_result \<circ> result_block) rs) = map msg_tool_call_id rs" "concat (map (block_use \<circ> result_block) rs) = []"
    by (induction rs) (simp_all add: result_block_def)
  then show "results_of (AMsg r (Blocks (map result_block rs))) = map msg_tool_call_id rs"
    "uses_of (AMsg r (Blocks (map result_block rs))) = []"
    by (simp_all add: uses_of_def results_of_def)
qed

lemma translation_answered:
  "protocol_ok ms \<Longrightarrow> answered msgs \<Longrightarrow> answered (snd (foldl add_turn (sys, msgs) ms))"
proof (induction ms arbitrary: sys msgs rule: protocol_ok.induct)
  case (2 m ms)
  show ?case
  proof (cases "msg_tool_calls m = []")
    case True
    obtain sys' msgs' where st: "add_turn (sys, msgs) m = (sys', msgs')" by force
    have "answered msgs'" using st True 2(3,4)
      by (cases "msg_role m") (auto simp: add_turn_def answered_flush)
    then show ?thesis using 2(1) [OF True] 2(3) True st by simp
  next
    case False
    let ?n = "length (msg_tool_calls m)"
    let ?round = "[AMsg ''assistant'' (Blocks (call_blocks m)), AMsg ''user'' (Blocks (map result_block (take ?n ms)))]"
    have p: "msg_role m = RoleAssistant" "map msg_tool_call_id (take ?n ms) = map tc_id (msg_tool_calls m)"
      "list_all (\<lambda>r. msg_role r = RoleTool \<and> msg_tool_calls r = []) (take ?n ms)" "protocol_ok (drop ?n ms)"
      using 2(3) False by (simp_all add: Let_def)
    have ne: "take ?n ms \<noteq> []" using p(2) False by auto
    have split: "m # ms = (m # take ?n ms) @ drop ?n ms" by simp
    have "answered ?round" using p(2) False by (simp add: uses_of_round results_of_round)
    then have "answered (msgs @ ?round)" by (rule answered_append [OF 2(4)])
    then show ?thesis
      unfolding split foldl_append add_round [OF p(1) False ne p(3)]
      by (rule 2(2) [OF False refl p(4)])
  qed
qed simp

section \<open>Text for Ollama\<close>

lemma replace_all_char:
  "replace_all s [c] new = concat (map (\<lambda>d. if d = c then new else [d]) s)"
  by (induction s) (subst replace_all.simps; simp)+

lemma in_replace_all_char: "x \<in> set (replace_all s [c] new) \<Longrightarrow> (x \<in> set s \<and> x \<noteq> c) \<or> x \<in> set new"
  by (auto simp: replace_all_char split: if_splits)

lemma sanitize_plain:
  assumes "set s \<inter> {CHR ''&'', CHR ''<'', CHR ''>''} = {}" "length s \<le> n"
  shows "sanitize_for_ollama n s = s"
proof -
  have keep: "replace_all s [c] new = s" if "c \<notin> set s" for c new
    using that by (induction s) (auto simp: replace_all_char)
  show ?thesis using assms by (simp add: sanitize_for_ollama_def keep)
qed

text \<open>Sanitizing brings in the characters of the entities, and the note of truncation.\<close>

lemma replace_all_Nil [simp]: "replace_all [] old new = []"
  by (subst replace_all.simps) simp

definition escaped_text :: "string \<Rightarrow> string" where
  "escaped_text s = replace_all (replace_all (replace_all s ''&'' ''&amp;'') ''<'' ''&lt;'') ''>'' ''&gt;''"

definition truncation_note :: string where
  "truncation_note = Kyoci_Types.nl @ ''... [truncated for context limit]''"

lemma sanitize_shape:
  "sanitize_for_ollama n s = escaped_text s \<or> sanitize_for_ollama n s = take n (escaped_text s) @ truncation_note"
  by (cases s; simp add: sanitize_for_ollama_def escaped_text_def truncation_note_def Let_def)

lemma in_escaped_text:
  assumes "x \<in> set (escaped_text s)"
  shows "x \<noteq> CHR ''<'' \<and> x \<noteq> CHR ''>'' \<and> (x \<in> set s \<or> x \<in> set ''&amplgt;'')"
proof -
  have 1: "(x \<in> set (replace_all (replace_all s ''&'' ''&amp;'') ''<'' ''&lt;'') \<and> x \<noteq> CHR ''>'') \<or> x \<in> set ''&gt;''"
    using in_replace_all_char [OF assms [unfolded escaped_text_def]] .
  have 2: "x \<in> set (replace_all (replace_all s ''&'' ''&amp;'') ''<'' ''&lt;'') \<Longrightarrow>
      (x \<in> set (replace_all s ''&'' ''&amp;'') \<and> x \<noteq> CHR ''<'') \<or> x \<in> set ''&lt;''"
    by (rule in_replace_all_char)
  have 3: "x \<in> set (replace_all s ''&'' ''&amp;'') \<Longrightarrow> (x \<in> set s \<and> x \<noteq> CHR ''&'') \<or> x \<in> set ''&amp;''"
    by (rule in_replace_all_char)
  consider "x \<in> set s \<and> x \<noteq> CHR ''<'' \<and> x \<noteq> CHR ''>''" | "x \<in> set ''&amp;''" | "x \<in> set ''&lt;''" | "x \<in> set ''&gt;''"
    using 1 2 3 by blast
  then show ?thesis by cases auto
qed

lemma sanitize_no_markup: "CHR ''<'' \<notin> set (sanitize_for_ollama n s) \<and> CHR ''>'' \<notin> set (sanitize_for_ollama n s)"
proof -
  have tail: "CHR ''<'' \<notin> set truncation_note \<and> CHR ''>'' \<notin> set truncation_note"
    by (simp add: truncation_note_def Kyoci_Types.nl_def)
  have esc: "CHR ''<'' \<notin> set (escaped_text s) \<and> CHR ''>'' \<notin> set (escaped_text s)"
    using in_escaped_text by blast
  then have "CHR ''<'' \<notin> set (take n (escaped_text s)) \<and> CHR ''>'' \<notin> set (take n (escaped_text s))"
    by (meson in_set_takeD)
  then show ?thesis using sanitize_shape [of n s] esc tail by (elim disjE) (simp_all only: set_append Un_iff, simp_all)
qed

lemma length_sanitize: "length (sanitize_for_ollama n s) \<le> n + 34"
proof (cases "s = []")
  case False
  then show ?thesis by (simp add: sanitize_for_ollama_def Let_def Kyoci_Types.nl_def)
qed (simp add: sanitize_for_ollama_def)

text \<open>Nothing that Ollama would read as markup is sent, as long as names and identifiers of tool calls have none.\<close>

lemma ollama_message_no_markup:
  assumes "set (msg_tool_call_id m) \<inter> {CHR ''<'', CHR ''>''} = {}"
    "list_all (\<lambda>tc. set (tc_name tc) \<inter> {CHR ''<'', CHR ''>''} = {}) (msg_tool_calls m)"
  shows "set (am_content (ollama_message m)) \<inter> {CHR ''<'', CHR ''>''} = {}"
proof (cases "msg_role m")
  case RoleAssistant
  have "set (call_text tc) \<inter> {CHR ''<'', CHR ''>''} = {}" if "tc \<in> set (msg_tool_calls m)" for tc
    using assms(2) that sanitize_no_markup [of 500 "tc_arguments tc"]
    by (auto simp: call_text_def Kyoci_Types.nl_def list_all_iff)
  then show ?thesis using RoleAssistant sanitize_no_markup [of 4000 "msg_content m"] by (auto simp: plain_api_def)
next
  case RoleTool
  then show ?thesis using assms(1) sanitize_no_markup [of 1500 "msg_content m"] by (auto simp: plain_api_def)
qed (use sanitize_no_markup in \<open>auto simp: plain_api_def\<close>)

section \<open>Echoed tool calls\<close>

lemma str_index_extend: "str_index s p = Some i \<Longrightarrow> str_index (s @ t) p = Some i"
proof (induction s arbitrary: i)
  case Nil
  then show ?case by (cases p) (auto simp: has_prefix_iff split: if_splits)
next
  case (Cons c cs)
  have "has_prefix (c # cs) p" if "str_index cs p = Some j" "has_prefix (c # cs @ t) p" for j
  proof -
    have "length p \<le> length (c # cs)" using str_index_Some [OF that(1)] by auto
    moreover have "prefix p ((c # cs) @ t)" using that(2) by (simp add: has_prefix_iff)
    moreover have "prefix (c # cs) ((c # cs) @ t)" by (rule prefixI) simp
    ultimately show ?thesis unfolding has_prefix_iff by (metis prefix_length_prefix)
  qed
  moreover have "has_prefix (c # cs @ t) p" if "has_prefix (c # cs) p"
    using that by (metis append_Cons has_prefix_iff prefix_append)
  ultimately show ?case using Cons by (auto split: if_splits option.splits)
qed

text \<open>Calls that come back from their text unchanged.\<close>

definition echoable :: "tool_call \<Rightarrow> bool" where
  "echoable tc \<longleftrightarrow>
     tc_name tc \<noteq> [] \<and> list_all is_word_byte (tc_name tc) \<and>
     (let b = butlast (tl (tc_arguments tc))
      in tc_arguments tc = ''{'' @ b @ ''}'' \<and> str_index (b @ ''})]'') ''})]'' = Some (length b)) \<and>
     set (tc_arguments tc) \<inter> {CHR ''&'', CHR ''<'', CHR ''>''} = {} \<and> length (tc_arguments tc) \<le> 500"

lemma text_match_call:
  assumes "echoable tc"
  shows "text_match (''[Tool Call: '' @ tc_name tc @ ''('' @ tc_arguments tc @ '')]'' @ rest) =
     Some ((tc_name tc, tc_arguments tc), rest)"
proof -
  obtain b where b: "tc_arguments tc = ''{'' @ b @ ''}''" "str_index (b @ ''})]'') ''})]'' = Some (length b)"
    using assms by (auto simp: echoable_def Let_def)
  have name: "tc_name tc \<noteq> []" "\<forall>c\<in>set (tc_name tc). is_word_byte c" using assms by (auto simp: echoable_def list_all_iff)
  have open_paren: "\<not> is_word_byte (CHR ''('')" by (simp add: is_word_byte_def is_digit_def is_upper_def is_lower_def byte_def)
  have space: "\<not> re_space c" if "is_word_byte c" for c
    using that by (auto simp: is_word_byte_def is_digit_def is_upper_def is_lower_def re_space_def byte_def)
  have "re_space (CHR '' '')" by (simp add: re_space_def byte_def)
  then have drop: "dropWhile re_space ('' '' @ tc_name tc @ u) = tc_name tc @ u" for u
    using name space by (cases "tc_name tc") auto
  have words: "takeWhile is_word_byte (tc_name tc @ ''('' @ u) = tc_name tc"
    "dropWhile is_word_byte (tc_name tc @ ''('' @ u) = ''('' @ u" for u
    using name(2) open_paren by (simp_all add: takeWhile_append dropWhile_append)
  have idx: "str_index (b @ ''})]'' @ rest) ''})]'' = Some (length b)"
    using str_index_extend [OF b(2), of rest] by simp
  have "text_call_at (''[Tool Call:'' @ '' '' @ tc_name tc @ ''('' @ ''{'' @ b @ ''})]'' @ rest) =
      Some (tc_name tc, ''{'' @ b @ ''}'', rest)"
    unfolding text_call_at_def after_prefix_def using name(1) idx
    by (simp add: drop [simplified] words [simplified] Let_def)
  then show ?thesis by (simp add: text_match_def b(1))
qed

lemma text_match_other: "c \<noteq> CHR ''['' \<Longrightarrow> text_match (c # cs) = None"
  by (simp add: text_match_def text_call_at_def after_prefix_def)

lemma split_text_skip:
  assumes "CHR ''['' \<notin> set p"
  shows "split_matches text_match (p @ s) = (let (ms, t) = split_matches text_match s in (ms, p @ t))"
  using assms
proof (induction p)
  case (Cons c p)
  then have "split_matches text_match (c # p @ s) = (let (ms, t) = split_matches text_match (p @ s) in (ms, c # t))"
    by (subst split_matches.simps) (auto simp: text_match_other)
  then show ?case using Cons by (simp add: Let_def split: prod.splits)
qed (simp split: prod.split)

lemma split_text_truncated:
  "split_matches text_match (''[truncated for context limit]'' @ s) =
     (let (ms, t) = split_matches text_match s in (ms, ''[truncated for context limit]'' @ t))"
proof -
  have "text_match (''[truncated for context limit]'' @ s) = None"
    by (simp add: text_match_def text_call_at_def after_prefix_def)
  then show ?thesis using split_text_skip [of "''truncated for context limit]''" s]
    by (subst split_matches.simps) (simp add: Let_def split: prod.splits)
qed

lemma split_calls:
  assumes "list_all echoable tcs"
  shows "split_matches text_match (concat (map call_text tcs)) =
     (map (\<lambda>tc. (tc_name tc, tc_arguments tc)) tcs, replicate (2 * length tcs) (CHR 0x0A))"
  using assms
proof (induction tcs)
  case Nil
  show ?case by (subst split_matches.simps) simp
next
  case (Cons tc tcs)
  let ?rest = "concat (map call_text tcs)"
  have "sanitize_for_ollama 500 (tc_arguments tc) = tc_arguments tc"
    using Cons.prems by (intro sanitize_plain) (auto simp: echoable_def)
  then have call: "call_text tc = [CHR 0x0A, CHR 0x0A] @ ''[Tool Call: '' @ tc_name tc @ ''('' @ tc_arguments tc @ '')]''"
    by (simp add: call_text_def Kyoci_Types.nl_def)
  have "text_match (''[Tool Call: '' @ tc_name tc @ ''('' @ tc_arguments tc @ '')]'' @ ?rest) =
      Some ((tc_name tc, tc_arguments tc), ?rest)"
    using Cons.prems by (intro text_match_call) simp
  then have "split_matches text_match (''[Tool Call: '' @ tc_name tc @ ''('' @ tc_arguments tc @ '')]'' @ ?rest) =
      (let (ms, t) = split_matches text_match ?rest in ((tc_name tc, tc_arguments tc) # ms, t))"
    by (subst split_matches.simps) (simp add: Let_def)
  then show ?case
    using Cons split_text_skip [of "[CHR 0x0A, CHR 0x0A]" "''[Tool Call: '' @ tc_name tc @ ''('' @ tc_arguments tc @ '')]'' @ ?rest"]
    by (simp add: call)
qed

lemma collapse_replicate: "\<exists>j. collapse_newlines k (replicate n (CHR 0x0A)) = replicate j (CHR 0x0A)"
proof (induction n arbitrary: k)
  case (Suc n)
  obtain j where "collapse_newlines (if 2 \<le> k then k else Suc k) (replicate n (CHR 0x0A)) = replicate j (CHR 0x0A)"
    using Suc by blast
  then show ?case by (auto intro: exI [of _ j] exI [of _ "Suc j"] split: if_splits)
qed simp

lemma collapse_append_newlines:
  "\<exists>j. collapse_newlines k (s @ replicate n (CHR 0x0A)) = collapse_newlines k s @ replicate j (CHR 0x0A)"
  by (induction s arbitrary: k) (simp_all add: collapse_replicate)

lemma trim_left_newlines: "trim_left (replicate j (CHR 0x0A) @ s) = trim_left s"
  by (induction j) (simp_all add: is_space_def byte_def)

lemma trim_space_newlines: "trim_space (s @ replicate j (CHR 0x0A)) = trim_space s"
proof (cases "trim_left s = []")
  case True
  then have "trim_left (s @ replicate j (CHR 0x0A)) = []"
    by (induction s) (simp_all add: trim_left_newlines [of j "[]", simplified] split: if_splits)
  then show ?thesis using True by (simp add: trim_space_def)
next
  case False
  then have "trim_left (s @ replicate j (CHR 0x0A)) = trim_left s @ replicate j (CHR 0x0A)"
    by (induction s) (auto split: if_splits)
  then show ?thesis by (simp add: trim_space_def trim_right_def trim_left_newlines)
qed

lemma tidy_newlines: "tidy_text (s @ replicate n (CHR 0x0A)) = tidy_text s"
  using collapse_append_newlines [of 0 s n] trim_space_newlines by (auto simp: tidy_text_def)

lemma split_sanitized:
  assumes "CHR ''['' \<notin> set s"
  shows "split_matches text_match (sanitize_for_ollama n s @ t) =
     (let (ms, r) = split_matches text_match t in (ms, sanitize_for_ollama n s @ r))"
proof -
  have esc: "CHR ''['' \<notin> set (escaped_text s)" using in_escaped_text [of "CHR ''[''" s] assms by auto
  then have tk: "CHR ''['' \<notin> set (take n (escaped_text s) @ [CHR 0x0A] @ ''... '')" by (auto dest: in_set_takeD)
  have tail: "truncation_note = [CHR 0x0A] @ ''... '' @ ''[truncated for context limit]''"
    by (simp add: truncation_note_def Kyoci_Types.nl_def)
  show ?thesis using sanitize_shape [of n s]
  proof
    assume "sanitize_for_ollama n s = take n (escaped_text s) @ truncation_note"
    then show ?thesis using split_text_skip [OF tk, of "''[truncated for context limit]'' @ t"] split_text_truncated [of t]
      by (simp only: tail append_assoc split: prod.splits) (simp add: Let_def split: prod.splits)
  qed (use split_text_skip [OF esc] in simp)
qed

section \<open>Properties\<close>

text \<open>
  A user message that comes right behind the result of a tool is not sent: its text is merged into a message of blocks,
  and merging changes such a message in no way.
\<close>

lemma user_text_after_result_lost:
  "anthropic_turns (ms @ [format_tool_result i c None, plain_message RoleUser t]) = anthropic_turns (ms @ [format_tool_result i c None])"
proof -
  have last: "\<exists>rest bs. add_result b msgs = rest @ [AMsg ''user'' (Blocks bs)]" for b msgs
    by (simp add: add_result_def split: list.split anthropic_message.split message_content.split)
  have flush: "flush_text ''user'' t (rest @ [AMsg ''user'' (Blocks bs)]) = rest @ [AMsg ''user'' (Blocks bs)]" for rest bs
    by (simp add: flush_text_def merge_text_def Let_def)
  obtain sys msgs where st: "foldl add_turn ([], []) ms = (sys, msgs)" by force
  obtain rest bs where r: "add_result (ToolResult i c) msgs = rest @ [AMsg ''user'' (Blocks bs)]" using last by blast
  have "add_turn (sys, msgs) (format_tool_result i c None) = (sys, rest @ [AMsg ''user'' (Blocks bs)])"
    by (simp add: add_turn_def format_tool_result_def plain_message_def r)
  moreover have "add_turn (sys, rest @ [AMsg ''user'' (Blocks bs)]) (plain_message RoleUser t) = (sys, rest @ [AMsg ''user'' (Blocks bs)])"
    by (simp add: add_turn_def plain_message_def flush)
  ultimately show ?thesis by (simp add: anthropic_turns_def st)
qed

lemma flush_uses: "concat (map uses_of (flush_text role t msgs)) = concat (map uses_of msgs)"
proof -
  have merge: "uses_of (merge_text m u) = uses_of m" for m u
    by (cases m) (auto simp: merge_text_def uses_of_def split: message_content.split)
  have "concat (map uses_of (butlast msgs @ [merge_text (last msgs) u])) = concat (map uses_of msgs)" if "msgs \<noteq> []" for u
    using arg_cong [OF append_butlast_last_id [OF that], of "\<lambda>ms. concat (map uses_of ms)"] by (simp add: merge)
  then show ?thesis by (simp add: flush_text_def Let_def)
qed

lemma add_result_uses: "concat (map uses_of (add_result (ToolResult i c) msgs)) = concat (map uses_of msgs)"
proof (cases "rev msgs")
  case (Cons m rest)
  then have msgs: "msgs = rev rest @ [m]" by simp
  show ?thesis
    by (cases m; cases "an_content m") (auto simp: add_result_def msgs uses_of_def split: message_content.split)
qed (simp add: add_result_def uses_of_def)

lemma protocol_callers: "protocol_ok ms \<Longrightarrow> m \<in> set ms \<Longrightarrow> msg_tool_calls m \<noteq> [] \<Longrightarrow> msg_role m = RoleAssistant"
proof (induction ms rule: protocol_ok.induct)
  case (2 x ms)
  show ?case
  proof (cases "msg_tool_calls x = []")
    case True
    have "m \<in> set ms" using 2(4,5) True by auto
    moreover have "protocol_ok ms" using 2(3) True by simp
    ultimately show ?thesis using 2(1) [OF True] 2(5) by blast
  next
    case False
    let ?n = "length (msg_tool_calls x)"
    have p: "msg_role x = RoleAssistant" "list_all (\<lambda>r. msg_role r = RoleTool \<and> msg_tool_calls r = []) (take ?n ms)"
      "protocol_ok (drop ?n ms)"
      using 2(3) False by (simp_all add: Let_def)
    consider "m = x" | "m \<in> set (take ?n ms)" | "m \<in> set (drop ?n ms)"
      using 2(4) by (metis Un_iff append_take_drop_id set_ConsD set_append)
    then show ?thesis
    proof cases
      case 2
      then show ?thesis using p(2) \<open>msg_tool_calls m \<noteq> []\<close> unfolding list_all_iff by blast
    next
      case 3
      then show ?thesis by (rule 2(2) [OF False refl p(3) _ 2(5)])
    qed (simp add: p(1))
  qed
qed simp

definition called_ids :: "message list \<Rightarrow> string list" where
  "called_ids ms = concat (map (\<lambda>m. map tc_id (msg_tool_calls m)) ms)"

lemma translation_uses:
  assumes "\<And>m. m \<in> set ms \<Longrightarrow> msg_tool_calls m \<noteq> [] \<Longrightarrow> msg_role m = RoleAssistant"
  shows "concat (map uses_of (snd (foldl add_turn (sys, msgs) ms))) = concat (map uses_of msgs) @ called_ids ms"
  using assms
proof (induction ms arbitrary: sys msgs)
  case (Cons m ms)
  obtain sys' msgs' where st: "add_turn (sys, msgs) m = (sys', msgs')" by force
  have "concat (map uses_of msgs') = concat (map uses_of msgs) @ map tc_id (msg_tool_calls m)"
    using st Cons.prems [of m]
    by (cases "msg_role m"; cases "msg_tool_calls m = []")
      (auto simp: add_turn_def flush_uses add_result_uses uses_of_round split: if_splits)
  then show ?case using Cons st by (simp add: called_ids_def)
qed (simp add: called_ids_def)

text \<open>The endpoint of Anthropic in front of a provider: it refuses a request whose uses and results of tools do not match,
  and here also one that lost a call of the conversation.\<close>

definition anthropic_gate :: "'w public_provider \<Rightarrow> 'w public_provider" where
  "anthropic_gate p = p\<lparr>pv_complete := (\<lambda>w req.
     let msgs = snd (anthropic_turns (cq_messages req))
     in if answered msgs \<and> concat (map uses_of msgs) = called_ids (cq_messages req) then pv_complete p w req
        else (w, Inl ''tool_use ids were found without tool_result blocks''))\<rparr>"

lemma gate_agrees: "agrees_on_protocol (anthropic_gate p) p"
proof -
  have "answered (snd (anthropic_turns ms)) \<and> concat (map uses_of (snd (anthropic_turns ms))) = called_ids ms" if "protocol_ok ms" for ms
    using translation_answered [OF that, where msgs = "[]" and sys = "[]"]
      translation_uses [OF protocol_callers [OF that], where ms = ms and msgs = "[]" and sys = "[]"]
    by (auto simp: anthropic_turns_def split: prod.splits)
  then show ?thesis by (simp add: agrees_on_protocol_def anthropic_gate_def)
qed

text \<open>C18: a role can talk to an Anthropic endpoint: each request it sends is translated to messages in which every message that
uses tools is followed at once by a user message with the results of exactly those uses, in order, no result stands elsewhere, and no call
of the conversation is lost. So an endpoint that refuses every other request answers a run of the role just as one that never refuses.\<close>

theorem anthropic_accepts_role_requests:
  "role_execute (with_assigned br rs (anthropic_gate p)) w task memory = role_execute (with_assigned br rs p) w task memory"
  by (rule role_requests_follow_protocol [OF gate_agrees])


definition demo_echo :: message where
  "demo_echo = (plain_message RoleAssistant ''a < b'')
     \<lparr>msg_tool_calls := [\<lparr>tc_id = ''c1'', tc_name = ''file'', tc_arguments = ''{x:1}''\<rparr>, \<lparr>tc_id = ''c2'', tc_name = ''todo'', tc_arguments = ''{}''\<rparr>]\<rparr>"


text \<open>The lazy pattern for a bare call ends the arguments at the first bracket that another one follows, so arguments that hold
  an object are cut short; what is cut does not decode, and the call is lost.\<close>

definition json_quoted :: "string \<Rightarrow> string" where
  "json_quoted s = [CHR 0x22] @ s @ [CHR 0x22]"

definition nested_call :: string where
  "nested_call = ''{'' @ json_quoted ''name'' @ '':'' @ json_quoted ''http'' @ '','' @ json_quoted ''arguments'' @
     '':{'' @ json_quoted ''headers'' @ '':{}}}''"

lemma nested_call_cut:
  "bare_call_at nested_call = Some ((''http'', ''{'' @ json_quoted ''headers'' @ '':{}''), ''}'')"
  by code_simp

lemma nested_call_lost:
  "canonical (''{'' @ json_quoted ''headers'' @ '':{}'') = None \<Longrightarrow> extract_bare_json_tool_calls canonical nano nested_call = (nested_call, [])"
proof -
  assume "canonical (''{'' @ json_quoted ''headers'' @ '':{}'') = None"
  moreover have "split_matches bare_call_at nested_call = ([(''http'', ''{'' @ json_quoted ''headers'' @ '':{}'')], ''}'')" by code_simp
  moreover have "trim_space nested_call \<noteq> []" "trim_space ''http'' = ''http''" by code_simp+
  moreover have "trim_space (''{'' @ json_quoted ''headers'' @ '':{}'') = ''{'' @ json_quoted ''headers'' @ '':{}''" by code_simp
  ultimately show ?thesis
    by (simp add: extract_bare_json_tool_calls_def bare_call_def List.map_filter_def Let_def)
qed

text \<open>A temperature of zero, which is documented as deterministic, is not sent.\<close>

lemma zero_temperature_not_sent: "cq_temperature req = 0 \<Longrightarrow> ap_temperature (fst (build_payload c req stream)) = None"
  by (simp add: build_payload_def Let_def)

text \<open>A short conversation is not reduced, so the retry after an XML error sends what was sent before.\<close>

lemma short_conversation_not_reduced: "length ms \<le> 2 \<Longrightarrow> strip_to_minimal ms = ms"
  by (simp add: strip_to_minimal_def)

lemma length_strip_to_minimal: "length (strip_to_minimal ms) \<le> 2"
  by (simp add: strip_to_minimal_def Let_def split: option.split)

text \<open>The list of models is never empty, and an answer is kept for a minute.\<close>

lemma models_never_empty: "fetch_models c answer \<noteq> [] \<and> anthropic_fetch_models c ids \<noteq> []"
  by (auto simp: fetch_models_def anthropic_fetch_models_def fallback_models_def anthropic_fallback_models_def split: option.split)

lemma models_kept_for_a_minute:
  "now' - now < 60 \<Longrightarrow> snd (cached_models now' later (fst (cached_models now fetched None))) = fetched"
  by (simp add: cached_models_def)

text \<open>Without tools a choice of a tool is sent all the same, and \<open>none\<close> is sent as \<open>auto\<close>.\<close>

lemma tool_choice_always_sent:
  "build_request c req stream = Inr r \<Longrightarrow> rq_tool_choice r = (if lq_tool_choice req = ''required'' then ''any'' else ''auto'')"
  by (auto simp: build_request_def build_tool_choice_def Let_def split: prod.splits if_splits)

end
