(* ===== verification/Prompt_Skill.thy ===== *)
theory Prompt_Skill
  imports Agent_Defs "HOL-Library.Product_Lexorder"
begin

text \<open>
  The knowledge layer of \<open>internal/promptskill\<close>: loading skills from Markdown files, matching them against a task, and
  putting the matched ones into the system prompt, and the adapters of \<open>internal/orchestrator/intelligence.go\<close> that hand the
  memory's context and the skills to the agents. The regular expressions of triggers (\<open>fires\<close>), the YAML decoder and the
  files are arguments; keywords and tasks are lowered as ASCII text, and keywords are taken to be valid UTF-8.
\<close>

section \<open>Skills and their files\<close>

record prompt_skill =
  ps_name :: string
  ps_description :: string
  ps_category :: string
  ps_keywords :: "string list"
  ps_regex :: "string list"
  ps_requires :: "string list"
  ps_priority :: string
  ps_body :: string

text \<open>The loader splits its files with the same code as the loader of the agents.\<close>

definition split_skill_file :: "string \<Rightarrow> (string \<times> string) option" where
  "split_skill_file content = split_frontmatter content"

definition parse_skill_file :: "(string \<Rightarrow> prompt_skill option) \<Rightarrow> string option \<Rightarrow> prompt_skill option" where
  "parse_skill_file yaml content =
     (case content of
        None \<Rightarrow> None
      | Some txt0 \<Rightarrow>
          (case split_skill_file txt0 of
             None \<Rightarrow> None
           | Some (front, rest) \<Rightarrow>
               (case yaml front of
                  None \<Rightarrow> None
                | Some s \<Rightarrow>
                    if trim_space (ps_name s) = [] then None
                    else Some (s\<lparr>ps_priority := (if ps_priority s = [] then ''normal'' else ps_priority s),
                                 ps_body := trim_space rest\<rparr>))))"

text \<open>The skills in the order of loading, and their positions by name.\<close>

record skill_store =
  sr_skills :: "prompt_skill list"
  sr_by_name :: "string \<rightharpoonup> nat"

definition empty_skill_store :: skill_store where
  "empty_skill_store = \<lparr>sr_skills = [], sr_by_name = Map.empty\<rparr>"

definition load_skill ::
    "(string \<Rightarrow> prompt_skill option) \<Rightarrow> (string \<Rightarrow> string option) \<Rightarrow> skill_store \<Rightarrow> string \<Rightarrow> skill_store" where
  "load_skill yaml read reg path =
     (case parse_skill_file yaml (read path) of
        None \<Rightarrow> reg
      | Some s \<Rightarrow>
          if sr_by_name reg (ps_name s) \<noteq> None then reg
          else \<lparr>sr_skills = sr_skills reg @ [s], sr_by_name = (sr_by_name reg)(ps_name s \<mapsto> length (sr_skills reg))\<rparr>)"

text \<open>What is at the path of the directory: nothing, something that cannot be read, a file, or a directory with the files of its tree
  (an error when the walk fails).\<close>

datatype skill_dir = DirMissing | DirError | DirFile | DirTree "string list" | DirWalkError

definition load_skills ::
    "(string \<Rightarrow> prompt_skill option) \<Rightarrow> (string \<Rightarrow> string option) \<Rightarrow> skill_dir \<Rightarrow> skill_store option" where
  "load_skills yaml read dir =
     (case dir of
        DirMissing \<Rightarrow> Some empty_skill_store
      | DirTree files \<Rightarrow>
          Some (foldl (load_skill yaml read) empty_skill_store (sort (filter (\<lambda>p. has_suffix (to_lower p) ''.md'') files)))
      | _ \<Rightarrow> None)"

definition get_prompt_skill :: "skill_store \<Rightarrow> string \<Rightarrow> prompt_skill option" where
  "get_prompt_skill reg name = map_option (\<lambda>i. sr_skills reg ! i) (sr_by_name reg name)"

section \<open>Matching\<close>

record match_options =
  mo_max_skills :: int
  mo_max_chars :: int

text \<open>A keyword fires where it stands behind a boundary of words; \<open>inside\<close> tells whether a word character precedes.\<close>

fun keyword_fires :: "bool \<Rightarrow> string \<Rightarrow> string \<Rightarrow> bool" where
  "keyword_fires inside kw [] = (inside \<and> kw = [])"
| "keyword_fires inside kw (c # cs) =
     ((inside \<noteq> is_word_byte c \<and> has_prefix (c # cs) kw) \<or> keyword_fires (is_word_byte c) kw cs)"

definition score_skill :: "(string \<Rightarrow> string \<Rightarrow> bool) \<Rightarrow> string \<Rightarrow> prompt_skill \<Rightarrow> nat" where
  "score_skill fires task s =
     length (filter (\<lambda>kw. kw \<noteq> [] \<and> keyword_fires False (to_lower kw) (to_lower task)) (ps_keywords s)) +
     length (filter (\<lambda>pat. pat \<noteq> [] \<and> fires pat task) (ps_regex s))"

definition skill_rank :: "string \<Rightarrow> int" where
  "skill_rank p = (if to_lower p = ''high'' then 2 else 1)"

text \<open>\<open>sort.SliceStable\<close> by rank and then by score, both downwards.\<close>

definition ranked_matches :: "(prompt_skill \<times> nat) list \<Rightarrow> (prompt_skill \<times> nat) list" where
  "ranked_matches rs = sort_key (\<lambda>(s, score). (- skill_rank (ps_priority s), - int score)) rs"

fun take_matches :: "match_options \<Rightarrow> nat \<Rightarrow> nat \<Rightarrow> prompt_skill list \<Rightarrow> prompt_skill list" where
  "take_matches opts n chars [] = []"
| "take_matches opts n chars (s # ss) =
     (if 0 < mo_max_skills opts \<and> mo_max_skills opts \<le> int n then []
      else if 0 < mo_max_chars opts \<and> mo_max_chars opts < int (chars + length (ps_body s)) \<and> 0 < n then []
      else s # take_matches opts (Suc n) (chars + length (ps_body s)) ss)"

definition match_skills :: "(string \<Rightarrow> string \<Rightarrow> bool) \<Rightarrow> match_options \<Rightarrow> prompt_skill list \<Rightarrow> string \<Rightarrow> prompt_skill list" where
  "match_skills fires opts skills task =
     take_matches opts 0 0 (map fst (ranked_matches
       (filter (\<lambda>(s, score). 0 < score) (map (\<lambda>s. (s, score_skill fires task s)) skills))))"

section \<open>Injection\<close>

definition default_match_options :: match_options where
  "default_match_options = \<lparr>mo_max_skills = 4, mo_max_chars = 12000\<rparr>"

definition skill_section :: "prompt_skill \<Rightarrow> string" where
  "skill_section s =
     [CHR 0x0A, CHR 0x0A] @ ''## Skill: '' @ ps_name s @ [CHR 0x0A, CHR 0x0A] @ ps_body s"

definition skill_heading :: string where
  "skill_heading =
     [CHR 0x0A, CHR 0x0A] @ ''# Relevant Skills'' @ [CHR 0x0A] @
     ''The following skill guidance is relevant to this task. Follow it.''"

definition inject_skills :: "(string \<Rightarrow> string \<Rightarrow> bool) \<Rightarrow> match_options \<Rightarrow> skill_store \<Rightarrow> string \<Rightarrow> string" where
  "inject_skills fires opts reg task =
     (if trim_space task = [] then []
      else
        let matched = match_skills fires opts (sr_skills reg) task;
            out = skill_heading @ concat (map skill_section matched)
        in if matched = [] then []
           else if 0 < mo_max_chars opts \<and> mo_max_chars opts < int (length out) then take (nat (mo_max_chars opts)) out
           else out)"

text \<open>Injectors are functions; an absent one is skipped.\<close>

definition composite_inject :: "(string \<Rightarrow> string) option list \<Rightarrow> string \<Rightarrow> string" where
  "composite_inject injectors task =
     join [CHR 0x0A, CHR 0x0A] (filter (\<lambda>t. t \<noteq> []) (map (\<lambda>f. f task) (List.map_filter (\<lambda>x. x) injectors)))"

record prompt_skill_config =
  pk_enabled :: bool
  pk_max_skills :: int
  pk_max_chars :: int

definition build_skill_injector ::
    "(string \<Rightarrow> string \<Rightarrow> bool) \<Rightarrow> prompt_skill_config \<Rightarrow> skill_store option \<Rightarrow> (string \<Rightarrow> string) option" where
  "build_skill_injector fires cfg loaded =
     (if \<not> pk_enabled cfg then None
      else case loaded of
             None \<Rightarrow> None
           | Some reg \<Rightarrow>
               if sr_skills reg = [] then None
               else Some (inject_skills fires \<lparr>mo_max_skills = pk_max_skills cfg, mo_max_chars = pk_max_chars cfg\<rparr> reg))"

definition resolve_injector :: "(string \<Rightarrow> string) option \<Rightarrow> (string \<Rightarrow> string) option \<Rightarrow> (string \<Rightarrow> string) option" where
  "resolve_injector memory skills =
     (case List.map_filter (\<lambda>x. x) [memory, skills] of
        [] \<Rightarrow> None
      | [f] \<Rightarrow> Some f
      | fs \<Rightarrow> Some (composite_inject (map Some fs)))"

section \<open>The loaded skills\<close>

definition store_ok :: "skill_store \<Rightarrow> bool" where
  "store_ok reg \<longleftrightarrow>
     distinct (map ps_name (sr_skills reg)) \<and>
     (\<forall>name i. sr_by_name reg name = Some i \<longleftrightarrow> i < length (sr_skills reg) \<and> ps_name (sr_skills reg ! i) = name)"

lemma store_ok_empty: "store_ok empty_skill_store"
  by (simp add: store_ok_def empty_skill_store_def)

lemma store_ok_load:
  assumes "store_ok reg"
  shows "store_ok (load_skill yaml read reg path)"
proof (cases "parse_skill_file yaml (read path)")
  case (Some s)
  show ?thesis
  proof (cases "sr_by_name reg (ps_name s)")
    case None
    have new: "ps_name s \<notin> ps_name ` set (sr_skills reg)"
    proof
      assume "ps_name s \<in> ps_name ` set (sr_skills reg)"
      then obtain i where "i < length (sr_skills reg)" "ps_name (sr_skills reg ! i) = ps_name s"
        by (metis imageE in_set_conv_nth)
      then show False using assms None unfolding store_ok_def by (metis option.distinct(1))
    qed
    have other: "ps_name (sr_skills reg ! i) \<noteq> ps_name s" if "i < length (sr_skills reg)" for i
      using new that by (metis imageI nth_mem)
    show ?thesis
      using assms new other None Some
      by (auto simp: store_ok_def load_skill_def nth_append less_Suc_eq)
  qed (use assms Some in \<open>simp add: load_skill_def\<close>)
qed (use assms in \<open>simp add: load_skill_def\<close>)

lemma store_ok_loads: "store_ok reg \<Longrightarrow> store_ok (foldl (load_skill yaml read) reg paths)"
  by (induction paths arbitrary: reg) (simp_all add: store_ok_load)

lemma loaded_store_ok: "load_skills yaml read dir = Some reg \<Longrightarrow> store_ok reg"
  by (auto simp: load_skills_def store_ok_empty store_ok_loads split: skill_dir.splits)

lemma get_loaded_skill:
  assumes "load_skills yaml read dir = Some reg"
  shows "get_prompt_skill reg name = Some s \<longleftrightarrow> s \<in> set (sr_skills reg) \<and> ps_name s = name"
proof -
  have ok: "store_ok reg" by (rule loaded_store_ok [OF assms])
  show ?thesis
  proof
    assume "get_prompt_skill reg name = Some s"
    then show "s \<in> set (sr_skills reg) \<and> ps_name s = name"
      using ok by (auto simp: get_prompt_skill_def store_ok_def)
  next
    assume s: "s \<in> set (sr_skills reg) \<and> ps_name s = name"
    then obtain i where i: "i < length (sr_skills reg)" "sr_skills reg ! i = s" by (metis in_set_conv_nth)
    then have "sr_by_name reg name = Some i" using ok s by (auto simp: store_ok_def)
    then show "get_prompt_skill reg name = Some s" using i by (simp add: get_prompt_skill_def)
  qed
qed

section \<open>The matched skills\<close>

definition total_chars :: "prompt_skill list \<Rightarrow> nat" where
  "total_chars ss = sum_list (map (\<lambda>s. length (ps_body s)) ss)"

text \<open>Another skill would break a cap.\<close>

definition caps_reached :: "match_options \<Rightarrow> nat \<Rightarrow> nat \<Rightarrow> prompt_skill \<Rightarrow> bool" where
  "caps_reached opts n chars s \<longleftrightarrow>
     (0 < mo_max_skills opts \<and> mo_max_skills opts \<le> int n) \<or>
     (0 < mo_max_chars opts \<and> mo_max_chars opts < int (chars + length (ps_body s)) \<and> 0 < n)"

lemma take_matches_prefix:
  "\<exists>k \<le> length ss. take_matches opts n chars ss = take k ss \<and>
     (\<forall>j<k. \<not> caps_reached opts (n + j) (chars + total_chars (take j ss)) (ss ! j)) \<and>
     (k < length ss \<longrightarrow> caps_reached opts (n + k) (chars + total_chars (take k ss)) (ss ! k))"
proof (induction ss arbitrary: n chars)
  case (Cons s ss)
  show ?case
  proof (cases "caps_reached opts n chars s")
    case True
    then show ?thesis by (intro exI [of _ 0]) (auto simp: caps_reached_def total_chars_def)
  next
    case False
    obtain k where k: "k \<le> length ss"
      "take_matches opts (Suc n) (chars + length (ps_body s)) ss = take k ss"
      "\<forall>j<k. \<not> caps_reached opts (Suc n + j) (chars + length (ps_body s) + total_chars (take j ss)) (ss ! j)"
      "k < length ss \<longrightarrow> caps_reached opts (Suc n + k) (chars + length (ps_body s) + total_chars (take k ss)) (ss ! k)"
      using Cons by blast
    have "take_matches opts n chars (s # ss) = take (Suc k) (s # ss)"
      using False k(2) by (auto simp: caps_reached_def)
    moreover have "\<not> caps_reached opts (n + j) (chars + total_chars (take j (s # ss))) ((s # ss) ! j)" if "j < Suc k" for j
    proof (cases j)
      case (Suc i)
      then show ?thesis using k(3) that by (simp add: total_chars_def add.assoc)
    qed (use False in \<open>simp add: total_chars_def\<close>)
    moreover have "Suc k < length (s # ss) \<longrightarrow>
        caps_reached opts (n + Suc k) (chars + total_chars (take (Suc k) (s # ss))) ((s # ss) ! Suc k)"
      using k(4) by (simp add: total_chars_def add.assoc)
    ultimately show ?thesis using k(1) by (intro exI [of _ "Suc k"]) simp
  qed
qed (simp add: total_chars_def)

lemma take_matches_caps:
  assumes "take_matches opts 0 0 ss = take k ss" "k \<le> length ss"
    "\<forall>j<k. \<not> caps_reached opts j (total_chars (take j ss)) (ss ! j)"
  shows "0 < mo_max_skills opts \<Longrightarrow> int k \<le> mo_max_skills opts"
    "0 < mo_max_chars opts \<Longrightarrow> 1 < k \<Longrightarrow> int (total_chars (take k ss)) \<le> mo_max_chars opts"
proof -
  show "int k \<le> mo_max_skills opts" if "0 < mo_max_skills opts"
  proof (cases k)
    case (Suc j)
    then show ?thesis using assms(3) that by (auto simp: caps_reached_def)
  qed (use that in simp)
  show "int (total_chars (take k ss)) \<le> mo_max_chars opts" if "0 < mo_max_chars opts" "1 < k"
  proof -
    obtain j where j: "k = Suc j" "0 < j" using \<open>1 < k\<close> by (cases k) auto
    have "total_chars (take k ss) = total_chars (take j ss) + length (ps_body (ss ! j))"
      using j assms(2) by (simp add: take_Suc_conv_app_nth total_chars_def)
    then show ?thesis using assms(3) \<open>0 < mo_max_chars opts\<close> j by (auto simp: caps_reached_def)
  qed
qed

definition matching :: "(string \<Rightarrow> string \<Rightarrow> bool) \<Rightarrow> prompt_skill list \<Rightarrow> string \<Rightarrow> prompt_skill list" where
  "matching fires skills task =
     map fst (ranked_matches (filter (\<lambda>(s, score). 0 < score) (map (\<lambda>s. (s, score_skill fires task s)) skills)))"

definition high_priority :: "prompt_skill \<Rightarrow> bool" where
  "high_priority s \<longleftrightarrow> to_lower (ps_priority s) = ''high''"

definition outranked :: "(string \<Rightarrow> string \<Rightarrow> bool) \<Rightarrow> string \<Rightarrow> prompt_skill \<Rightarrow> prompt_skill \<Rightarrow> bool" where
  "outranked fires task s t \<longleftrightarrow>
     high_priority s \<and> \<not> high_priority t \<or>
     high_priority s = high_priority t \<and> score_skill fires task t \<le> score_skill fires task s"

lemma skill_rank_high: "skill_rank (ps_priority s) = (if high_priority s then 2 else 1)"
  by (simp add: skill_rank_def high_priority_def)

lemma matching_ranked:
  "mset (matching fires skills task) = mset (filter (\<lambda>s. 0 < score_skill fires task s) skills)"
  "sorted_wrt (outranked fires task) (matching fires skills task)"
proof -
  let ?rs = "filter (\<lambda>(s, score). 0 < score) (map (\<lambda>s. (s, score_skill fires task s)) skills)"
  let ?f = "\<lambda>(s, score). (- skill_rank (ps_priority s), - int score)"
  have rs: "map fst ?rs = filter (\<lambda>s. 0 < score_skill fires task s) skills" by (induction skills) auto
  have "mset (matching fires skills task) = image_mset fst (mset (sort_key ?f ?rs))"
    by (simp add: matching_def ranked_matches_def)
  also have "\<dots> = mset (map fst ?rs)" by simp
  finally show "mset (matching fires skills task) = mset (filter (\<lambda>s. 0 < score_skill fires task s) skills)"
    by (simp only: rs)
  have score: "snd r = score_skill fires task (fst r)" if "r \<in> set (sort_key ?f ?rs)" for r using that by auto
  have "sorted_wrt (\<lambda>a b. ?f a \<le> ?f b) (sort_key ?f ?rs)"
    using sorted_sort_key [of ?f ?rs] by (simp add: sorted_wrt_map)
  then have "sorted_wrt (\<lambda>a b. outranked fires task (fst a) (fst b)) (sort_key ?f ?rs)"
    by (rule sorted_wrt_mono_rel [rotated]) (auto simp: outranked_def score skill_rank_high dest!: score split: if_splits)
  then show "sorted_wrt (outranked fires task) (matching fires skills task)"
    by (simp add: matching_def ranked_matches_def sorted_wrt_map)
qed

lemma match_skills_matching: "match_skills fires opts skills task = take_matches opts 0 0 (matching fires skills task)"
  by (simp add: match_skills_def matching_def)

lemma length_inject_skills:
  "0 < mo_max_chars opts \<Longrightarrow> int (length (inject_skills fires opts reg task)) \<le> mo_max_chars opts"
  by (auto simp: inject_skills_def Let_def simp del: length_append take_append)

section \<open>Properties\<close>

text \<open>A keyword that does not start with a word character only fires right behind a word character.\<close>

lemma keyword_fires_split:
  "kw \<noteq> [] \<Longrightarrow> keyword_fires inside kw s \<Longrightarrow>
     \<exists>us vs. s = us @ kw @ vs \<and> (if us = [] then inside else is_word_byte (last us)) \<noteq> is_word_byte (hd kw)"
proof (induction s arbitrary: inside)
  case (Cons c cs)
  consider "inside \<noteq> is_word_byte c" "prefix kw (c # cs)" | "keyword_fires (is_word_byte c) kw cs"
    using Cons.prems(2) by (auto simp: has_prefix_iff)
  then show ?case
  proof cases
    case 1
    then obtain vs where "c # cs = kw @ vs" by (auto simp: prefix_def)
    moreover have "hd kw = c" using calculation Cons.prems(1) by (metis hd_append2 list.sel(1))
    ultimately show ?thesis using 1(1) by (intro exI [of _ "[]"] exI [of _ vs]) simp
  next
    case 2
    obtain us vs where "cs = us @ kw @ vs" "(if us = [] then is_word_byte c else is_word_byte (last us)) \<noteq> is_word_byte (hd kw)"
      using Cons.IH [OF Cons.prems(1) 2] by blast
    then show ?thesis by (intro exI [of _ "c # us"] exI [of _ vs]) auto
  qed
qed simp

lemma symbol_keyword_needs_word_before:
  assumes "kw \<noteq> []" "\<not> is_word_byte (hd kw)" "keyword_fires False kw s"
  shows "\<exists>us vs. s = us @ kw @ vs \<and> us \<noteq> [] \<and> is_word_byte (last us)"
  using keyword_fires_split [OF assms(1,3)] assms(2) by (metis (full_types))

lemma dotted_keyword_never_fires: "\<not> keyword_fires False ''.env'' ''edit .env files'' \<and> keyword_fires False ''.env'' ''edit prod.env''"
  by code_simp

text \<open>A low priority ranks as a normal one.\<close>

lemma low_ranks_as_normal: "skill_rank ''low'' = skill_rank ''normal''"
  by code_simp

text \<open>The caps count bodies only, so the headings can push the end of a matched skill out of the prompt.\<close>

lemma injected_skill_cut:
  assumes "fires pat task" "pat \<noteq> []" "trim_space task \<noteq> []" "mo_max_chars opts = int (length (ps_body s))" "ps_body s \<noteq> []"
    "mo_max_skills opts = 1" "ps_regex s = [pat]" "ps_keywords s = []" "sr_skills reg = [s]"
  shows "inject_skills fires opts reg task = take (length (ps_body s)) (skill_heading @ skill_section s)"
  using assms by (simp add: inject_skills_def match_skills_def score_skill_def ranked_matches_def skill_section_def Let_def)

text \<open>C40: the skills given to a task are the best of the ones that match it: the matching ones ranked by priority and then by
the number of triggers that fire (ties in the order of loading), cut off exactly where the next one would break a cap. There are never more than
the allowed number, their bodies fit the allowed size unless it is one skill alone, and the text for the prompt never exceeds that size.\<close>

theorem injected_skills_ranked_within_caps:
  assumes "0 < mo_max_skills opts" "0 < mo_max_chars opts"
    "ranked = matching fires (sr_skills reg) task"
  shows "mset ranked = mset (filter (\<lambda>s. 0 < score_skill fires task s) (sr_skills reg)) \<and>
    sorted_wrt (outranked fires task) ranked \<and>
    (\<exists>k \<le> length ranked. match_skills fires opts (sr_skills reg) task = take k ranked \<and>
       int k \<le> mo_max_skills opts \<and> (k \<le> 1 \<or> int (total_chars (take k ranked)) \<le> mo_max_chars opts) \<and>
       (k = length ranked \<or> caps_reached opts k (total_chars (take k ranked)) (ranked ! k))) \<and>
    int (length (inject_skills fires opts reg task)) \<le> mo_max_chars opts"
proof -
  obtain k where k: "k \<le> length ranked" "take_matches opts 0 0 ranked = take k ranked"
    "\<forall>j<k. \<not> caps_reached opts j (total_chars (take j ranked)) (ranked ! j)"
    "k < length ranked \<longrightarrow> caps_reached opts k (total_chars (take k ranked)) (ranked ! k)"
    using take_matches_prefix [of ranked opts 0 0] by auto
  have "k \<le> 1 \<or> int (total_chars (take k ranked)) \<le> mo_max_chars opts"
    using take_matches_caps(2) [OF k(2,1,3) assms(2)] by linarith
  moreover have "k = length ranked \<or> caps_reached opts k (total_chars (take k ranked)) (ranked ! k)" using k(1,4) by linarith
  ultimately show ?thesis
    using matching_ranked [where fires = fires and skills = "sr_skills reg" and task = task] length_inject_skills [OF assms(2)] k(1,2)
      take_matches_caps(1) [OF k(2,1,3) assms(1)]
    unfolding assms(3) match_skills_matching by blast
qed

definition demo_skill :: "string \<Rightarrow> string \<Rightarrow> string \<Rightarrow> prompt_skill" where
  "demo_skill name kw body =
     \<lparr>ps_name = name, ps_description = [], ps_category = [], ps_keywords = [kw], ps_regex = [], ps_requires = [],
      ps_priority = ''normal'', ps_body = body\<rparr>"

lemma injected_skills_ranked_within_caps_witness:
  "int (length (inject_skills (\<lambda>_ _. False) \<lparr>mo_max_skills = 1, mo_max_chars = 20\<rparr>
     \<lparr>sr_skills = [demo_skill ''git'' ''commit'' ''use git'', demo_skill ''net'' ''port'' ''use ss''], sr_by_name = Map.empty\<rparr>
     ''commit and open a port'')) \<le> 20"
  using injected_skills_ranked_within_caps [OF _ _ refl, where opts = "\<lparr>mo_max_skills = 1, mo_max_chars = 20\<rparr>"
      and fires = "\<lambda>_ _. False" and reg = "\<lparr>sr_skills = [demo_skill ''git'' ''commit'' ''use git'', demo_skill ''net'' ''port'' ''use ss''], sr_by_name = Map.empty\<rparr>"
      and task = "''commit and open a port''"]
  by simp

end
