(* ===== verification/MCP_Client.thy ===== *)
theory MCP_Client
  imports Tool_Registry
begin

text \<open>
  Connections to MCP servers (\<open>internal/mcp/transport.go\<close>, \<open>internal/mcp/client.go\<close>): a server is a process that reads requests
  and writes lines. Its behaviour (\<open>srv\<close>), the decoders of JSON, and what starting the process gives are arguments. Each operation says
  whether it returns, blocks for ever, or stops the program by a misused lock. Only the fields of messages that the code reads are kept.
\<close>

section \<open>Transport\<close>

record request =
  rq_id :: int
  rq_method :: string
  rq_params :: go_value

record response =
  re_id :: int
  re_result :: string
  re_error :: "string option"

text \<open>
  The process with the lines it has written and nobody has read, the next identifier, and the flags: closed, ended, and the lock being held
  by a request that still waits for its answer. A transport may also be a nil pointer, which stops the program when it is used.
\<close>

record 's transport =
  tp_server :: 's
  tp_pending :: "string list"
  tp_next_id :: int
  tp_closed :: bool
  tp_ended :: bool
  tp_busy :: bool
  tp_nil :: bool

datatype 'a outcome = Returns 'a | Fails string | Blocks | Crashes

text \<open>Going on after an operation that returned; errors get a text in front.\<close>

fun and_then :: "string \<Rightarrow> 'c \<times> 'a outcome \<Rightarrow> ('c \<Rightarrow> 'a \<Rightarrow> 'c \<times> 'b outcome) \<Rightarrow> 'c \<times> 'b outcome" where
  "and_then msg (c, Returns x) f = f c x"
| "and_then msg (c, Fails e) f = (c, Fails (msg @ e))"
| "and_then msg (c, Blocks) f = (c, Blocks)"
| "and_then msg (c, Crashes) f = (c, Crashes)"

definition new_transport :: "'s \<Rightarrow> 's transport" where
  "new_transport s = \<lparr>tp_server = s, tp_pending = [], tp_next_id = 1, tp_closed = False, tp_ended = False, tp_busy = False, tp_nil = False\<rparr>"

text \<open>The request as it is written: an identifier of zero is replaced by the next one.\<close>

definition numbered :: "request \<Rightarrow> 's transport \<Rightarrow> request" where
  "numbered r t = (if rq_id r = 0 then r\<lparr>rq_id := tp_next_id t\<rparr> else r)"

definition send ::
    "('s \<Rightarrow> request \<Rightarrow> 's \<times> string list) \<Rightarrow> (string \<Rightarrow> response option) \<Rightarrow> request \<Rightarrow> 's transport \<Rightarrow> 's transport \<times> response outcome" where
  "send srv decode r t =
     (if tp_nil t then (t, Crashes)
      else if tp_busy t then (t, Blocks)
      else if tp_closed t then (t, Fails ''transport is closed'')
      else if tp_ended t then (t, Fails ''failed to write request'')
      else
        let (s, written) = srv (tp_server t) (numbered r t);
            t' = t\<lparr>tp_server := s, tp_next_id := (if rq_id r = 0 then tp_next_id t + 1 else tp_next_id t)\<rparr>
        in case tp_pending t @ written of
             [] \<Rightarrow> (t'\<lparr>tp_busy := True\<rparr>, Blocks)
           | l # ls \<Rightarrow>
               (t'\<lparr>tp_pending := ls\<rparr>,
                case decode l of
                  None \<Rightarrow> Fails ''failed to unmarshal response''
                | Some re \<Rightarrow> (case re_error re of Some e \<Rightarrow> Fails e | None \<Rightarrow> Returns re)))"

text \<open>With a context that ends, a request that blocks is given up, but the goroutine that sends it goes on holding the lock.\<close>

definition send_with_context ::
    "('s \<Rightarrow> request \<Rightarrow> 's \<times> string list) \<Rightarrow> (string \<Rightarrow> response option) \<Rightarrow> bool \<Rightarrow> request \<Rightarrow> 's transport \<Rightarrow> 's transport \<times> response outcome" where
  "send_with_context srv decode expires r t =
     (case send srv decode r t of
        (t', Blocks) \<Rightarrow> (t', if expires then Fails ''context deadline exceeded'' else Blocks)
      | out \<Rightarrow> out)"

definition transport_alive :: "'s transport \<Rightarrow> bool outcome" where
  "transport_alive t = (if tp_nil t then Crashes else if tp_busy t then Blocks else Returns (\<not> tp_closed t \<and> \<not> tp_ended t))"

definition close_transport :: "'s transport \<Rightarrow> 's transport \<times> unit outcome" where
  "close_transport t =
     (if tp_nil t then (t, Crashes) else if tp_busy t then (t, Blocks) else (t\<lparr>tp_closed := True\<rparr>, Returns ()))"

section \<open>Locks\<close>

text \<open>A read-write lock as one goroutine sees it; releasing what is not held stops the program.\<close>

datatype rw_lock = Free | Reading nat | Writing

fun read_unlock :: "rw_lock \<Rightarrow> rw_lock option" where
  "read_unlock (Reading (Suc n)) = Some (if n = 0 then Free else Reading n)"
| "read_unlock _ = None"

fun write_unlock :: "rw_lock \<Rightarrow> rw_lock option" where
  "write_unlock Writing = Some Free"
| "write_unlock _ = None"

section \<open>Clients\<close>

record mcp_tool =
  mt_name :: string
  mt_description :: string
  mt_schema :: string

record 's mcp_client =
  mc_name :: string
  mc_transport :: "'s transport"
  mc_tools :: "mcp_tool list"
  mc_ready :: bool

text \<open>What the configuration of a server gives when its process is started: an error or a process.\<close>

definition new_mcp_client :: "string \<Rightarrow> string \<Rightarrow> string \<Rightarrow> (string + 's) \<Rightarrow> string + 's mcp_client" where
  "new_mcp_client name command url started =
     (if command \<noteq> [] then
        (case started of
           Inl e \<Rightarrow> Inl (''failed to create stdio transport: '' @ e)
         | Inr s \<Rightarrow> Inr \<lparr>mc_name = name, mc_transport = new_transport s, mc_tools = [], mc_ready = False\<rparr>)
      else if url \<noteq> [] then Inl ''SSE transport not yet implemented''
      else Inl ''either command or url must be specified'')"

record 's environment =
  en_server :: "'s \<Rightarrow> request \<Rightarrow> 's \<times> string list"
  en_decode :: "string \<Rightarrow> response option"
  en_expires :: bool
  en_init :: "string \<Rightarrow> bool"
  en_tools :: "string \<Rightarrow> mcp_tool list option"
  en_result :: "string \<Rightarrow> ((string \<times> string) list \<times> bool) option"
  en_prompts :: "string \<Rightarrow> string list option"
  en_prompt :: "string \<Rightarrow> string option"
  en_resources :: "string \<Rightarrow> string list option"
  en_resource :: "string \<Rightarrow> string option"

definition ask :: "'s environment \<Rightarrow> request \<Rightarrow> 's mcp_client \<Rightarrow> 's mcp_client \<times> response outcome" where
  "ask en r c =
     (let (t, out) = send_with_context (en_server en) (en_decode en) (en_expires en) r (mc_transport c)
      in (c\<lparr>mc_transport := t\<rparr>, out))"

definition init_request :: request where
  "init_request = \<lparr>rq_id = 1, rq_method = ''initialize'', rq_params = GoNil\<rparr>"

definition initialize :: "'s environment \<Rightarrow> 's mcp_client \<Rightarrow> 's mcp_client \<times> unit outcome" where
  "initialize en c =
     and_then [] (c, transport_alive (mc_transport c)) (\<lambda>c alive.
       if \<not> alive then (c, Fails ''transport is not alive'')
       else and_then ''initialize request failed: '' (ask en init_request c) (\<lambda>c re.
         if en_init en (re_result re) then (c\<lparr>mc_ready := True\<rparr>, Returns ())
         else (c, Fails ''failed to unmarshal initialize result'')))"

definition ensure_ready :: "'s environment \<Rightarrow> 's mcp_client \<Rightarrow> 's mcp_client \<times> unit outcome" where
  "ensure_ready en c = (if mc_ready c then (c, Returns ()) else initialize en c)"

text \<open>Asking for a list; \<open>decode\<close> reads the result.\<close>

definition list_items :: "'s environment \<Rightarrow> string \<Rightarrow> (string \<Rightarrow> 'b option) \<Rightarrow> 's mcp_client \<Rightarrow> 's mcp_client \<times> 'b outcome" where
  "list_items en method decode c =
     and_then [] (ensure_ready en c) (\<lambda>c _.
       and_then (method @ '' request failed: '') (ask en \<lparr>rq_id = 0, rq_method = method, rq_params = GoObject []\<rparr> c) (\<lambda>c re.
         case decode (re_result re) of
           None \<Rightarrow> (c, Fails (''failed to unmarshal '' @ method @ '' result''))
         | Some x \<Rightarrow> (c, Returns x)))"

definition list_mcp_tools :: "'s environment \<Rightarrow> 's mcp_client \<Rightarrow> 's mcp_client \<times> mcp_tool list outcome" where
  "list_mcp_tools en c =
     and_then [] (list_items en ''tools/list'' (en_tools en) c) (\<lambda>c ts. (c\<lparr>mc_tools := ts\<rparr>, Returns ts))"

definition list_prompts :: "'s environment \<Rightarrow> 's mcp_client \<Rightarrow> 's mcp_client \<times> string list outcome" where
  "list_prompts en c = list_items en ''prompts/list'' (en_prompts en) c"

definition list_resources :: "'s environment \<Rightarrow> 's mcp_client \<Rightarrow> 's mcp_client \<times> string list outcome" where
  "list_resources en c = list_items en ''resources/list'' (en_resources en) c"

text \<open>
  The locks of \<open>CallTool\<close>, \<open>GetPrompt\<close> and \<open>ReadResource\<close>: a client that is not ready swaps its read lock for a write lock,
  initializes, and then releases a read lock that it does not hold.
\<close>

definition ready_for_call :: "'s environment \<Rightarrow> 's mcp_client \<Rightarrow> 's mcp_client \<times> unit outcome" where
  "ready_for_call en c =
     (if mc_ready c then (c, if read_unlock (Reading 1) = None then Crashes else Returns ())
      else
        case initialize en c of
          (c', Returns _) \<Rightarrow> (c', if read_unlock Writing = None then Crashes else Returns ())
        | (c', out) \<Rightarrow> (c', if write_unlock Writing = None then Crashes else out))"

definition call_item ::
    "'s environment \<Rightarrow> string \<Rightarrow> go_value \<Rightarrow> (string \<Rightarrow> 'b option) \<Rightarrow> 's mcp_client \<Rightarrow> 's mcp_client \<times> 'b outcome" where
  "call_item en method params decode c =
     and_then [] (ready_for_call en c) (\<lambda>c _.
       and_then (method @ '' request failed: '') (ask en \<lparr>rq_id = 0, rq_method = method, rq_params = params\<rparr> c) (\<lambda>c re.
         case decode (re_result re) of
           None \<Rightarrow> (c, Fails (''failed to unmarshal '' @ method @ '' result''))
         | Some x \<Rightarrow> (c, Returns x)))"

definition call_mcp_tool ::
    "'s environment \<Rightarrow> string \<Rightarrow> go_value \<Rightarrow> 's mcp_client \<Rightarrow> 's mcp_client \<times> (string \<times> string) list outcome" where
  "call_mcp_tool en name args c =
     and_then [] (call_item en ''tools/call'' (GoObject [(''name'', GoString name), (''arguments'', args)]) (en_result en) c)
       (\<lambda>c (blocks, err). (c, if err then Fails ''tool call returned error'' else Returns blocks))"

definition get_mcp_prompt :: "'s environment \<Rightarrow> string \<Rightarrow> go_value \<Rightarrow> 's mcp_client \<Rightarrow> 's mcp_client \<times> string outcome" where
  "get_mcp_prompt en name args c =
     call_item en ''prompts/get'' (GoObject [(''name'', GoString name), (''arguments'', args)]) (en_prompt en) c"

definition read_mcp_resource :: "'s environment \<Rightarrow> string \<Rightarrow> 's mcp_client \<Rightarrow> 's mcp_client \<times> string outcome" where
  "read_mcp_resource en uri c = call_item en ''resources/read'' (GoObject [(''uri'', GoString uri)]) (en_resource en) c"

text \<open>The best-effort request on closing: its errors are dropped, but it can block.\<close>

definition shutdown_request :: "'s environment \<Rightarrow> 's mcp_client \<Rightarrow> 's mcp_client \<times> unit outcome" where
  "shutdown_request en c =
     (case send (en_server en) (en_decode en) \<lparr>rq_id = 0, rq_method = ''shutdown'', rq_params = GoObject []\<rparr> (mc_transport c) of
        (t, Blocks) \<Rightarrow> (c\<lparr>mc_transport := t\<rparr>, Blocks)
      | (t, _) \<Rightarrow> (c\<lparr>mc_transport := t\<rparr>, Returns ()))"

definition close_client :: "'s environment \<Rightarrow> 's mcp_client \<Rightarrow> 's mcp_client \<times> unit outcome" where
  "close_client en c =
     (if \<not> mc_ready c then (c, Returns ())
      else and_then [] (c, transport_alive (mc_transport c)) (\<lambda>c alive.
        and_then [] (if alive then shutdown_request en c else (c, Returns ())) (\<lambda>c _.
          let (t, out) = close_transport (mc_transport c)
          in (c\<lparr>mc_transport := t, mc_ready := False, mc_tools := []\<rparr>, out))))"

text \<open>\<open>Restart\<close>, given what starting the process again brings; when that fails, the client is left with a nil pointer.\<close>

definition restart_client :: "'s environment \<Rightarrow> (string + 's) \<Rightarrow> 's mcp_client \<Rightarrow> 's mcp_client \<times> unit outcome" where
  "restart_client en started c =
     and_then [] (if mc_ready c then (let (t, out) = close_transport (mc_transport c) in (c\<lparr>mc_transport := t, mc_ready := False\<rparr>, out))
                  else (c, Returns ())) (\<lambda>c _.
       case started of
         Inl e \<Rightarrow> (c\<lparr>mc_transport := (mc_transport c)\<lparr>tp_nil := True\<rparr>\<rparr>, Fails (''failed to recreate transport: '' @ e))
       | Inr s \<Rightarrow> initialize en (c\<lparr>mc_transport := new_transport s\<rparr>))"

section \<open>Answers and requests\<close>

definition usable :: "'s transport \<Rightarrow> bool" where
  "usable t \<longleftrightarrow> \<not> tp_nil t \<and> \<not> tp_busy t \<and> \<not> tp_closed t \<and> \<not> tp_ended t"

text \<open>What a line means to the request that reads it.\<close>

definition meaning :: "(string \<Rightarrow> response option) \<Rightarrow> string \<Rightarrow> response outcome" where
  "meaning decode l =
     (case decode l of
        None \<Rightarrow> Fails ''failed to unmarshal response''
      | Some re \<Rightarrow> (case re_error re of Some e \<Rightarrow> Fails e | None \<Rightarrow> Returns re))"

fun send_all ::
    "('s \<Rightarrow> request \<Rightarrow> 's \<times> string list) \<Rightarrow> (string \<Rightarrow> response option) \<Rightarrow> request list \<Rightarrow> 's transport \<Rightarrow> response outcome list" where
  "send_all srv decode [] t = []"
| "send_all srv decode (r # rs) t = (let (t', out) = send srv decode r t in out # send_all srv decode rs t')"

text \<open>The requests with the identifiers they are written with.\<close>

fun issued :: "int \<Rightarrow> request list \<Rightarrow> request list" where
  "issued n [] = []"
| "issued n (r # rs) = (if rq_id r = 0 then r\<lparr>rq_id := n\<rparr> # issued (n + 1) rs else r # issued n rs)"

lemma length_issued: "length (issued n rs) = length rs"
  by (induction n rs rule: issued.induct) auto

lemma send_one_line:
  assumes "usable t" "snd (srv (tp_server t) (numbered r t)) = [line]"
  shows "\<exists>t'. send srv decode r t = (t', meaning decode (hd (tp_pending t @ [line]))) \<and> usable t' \<and>
    tp_pending t' = tl (tp_pending t @ [line]) \<and> tp_next_id t' = (if rq_id r = 0 then tp_next_id t + 1 else tp_next_id t)"
proof -
  obtain s where srv: "srv (tp_server t) (numbered r t) = (s, [line])" using assms(2) by (cases "srv (tp_server t) (numbered r t)") auto
  show ?thesis
    using assms(1) by (cases "tp_pending t") (simp_all add: send_def srv usable_def meaning_def)
qed

lemma send_all_in_order:
  assumes "usable t" "\<And>s r. snd (srv s r) = [line r]"
  shows "send_all srv decode rs t = map (meaning decode) (take (length rs) (tp_pending t @ map line (issued (tp_next_id t) rs)))"
  using assms(1)
proof (induction rs arbitrary: t)
  case (Cons r rs)
  let ?r = "numbered r t"
  obtain t' where t': "send srv decode r t = (t', meaning decode (hd (tp_pending t @ [line ?r])))" "usable t'"
    "tp_pending t' = tl (tp_pending t @ [line ?r])" "tp_next_id t' = (if rq_id r = 0 then tp_next_id t + 1 else tp_next_id t)"
    using send_one_line [of t srv r, OF Cons.prems assms(2)] by blast
  have "issued (tp_next_id t) (r # rs) = ?r # issued (tp_next_id t') rs" by (simp add: numbered_def t'(4))
  then show ?case using Cons.IH [OF t'(2)] t'(1,3) by (cases "tp_pending t") simp_all
qed simp

text \<open>C20: answers are matched with requests by their order alone: a server that writes one line per request and has no unread line
gives every request its own answer, but after some unread lines (such as notifications) these are taken for the first answers, and every later
request gets the answer of the request that was sent that many requests before.\<close>

theorem answers_lag_behind_unread_lines:
  assumes "usable t" "\<forall>s r. snd (srv s r) = [line r]"
    "i < length rs" "reqs = issued (tp_next_id t) rs" "lag = length (tp_pending t)"
  shows "send_all srv decode rs t ! i = meaning decode (if i < lag then tp_pending t ! i else line (reqs ! (i - lag)))"
proof -
  have len: "length reqs = length rs" unfolding assms(4) by (rule length_issued)
  show ?thesis
    using assms(3,5) len send_all_in_order [of t srv line decode rs] assms(1,2)
    by (simp add: nth_append assms(4) [symmetric])
qed

text \<open>A server that answers with the method and the identifier, and the answers after a notification.\<close>

definition echo_server :: "unit \<Rightarrow> request \<Rightarrow> unit \<times> string list" where
  "echo_server s r = (s, [rq_method r])"

definition echo_decode :: "string \<Rightarrow> response option" where
  "echo_decode l = Some \<lparr>re_id = 0, re_result = l, re_error = None\<rparr>"

definition plain_request :: "string \<Rightarrow> request" where
  "plain_request m = \<lparr>rq_id = 0, rq_method = m, rq_params = GoNil\<rparr>"

lemma answers_lag_behind_unread_lines_witness:
  "send_all echo_server echo_decode [plain_request ''a'', plain_request ''b''] ((new_transport ())\<lparr>tp_pending := [''note'']\<rparr>) ! 1 =
     Returns \<lparr>re_id = 0, re_result = ''a'', re_error = None\<rparr>"
proof -
  let ?t = "(new_transport ())\<lparr>tp_pending := [''note'']\<rparr>"
  have "usable ?t" by (simp add: usable_def new_transport_def)
  moreover have "\<forall>s r. snd (echo_server s r) = [rq_method r]" by (simp add: echo_server_def)
  ultimately show ?thesis
    using answers_lag_behind_unread_lines [of ?t echo_server rq_method 1 "[plain_request ''a'', plain_request ''b'']" _ 1 echo_decode]
    by (simp add: new_transport_def plain_request_def meaning_def echo_decode_def)
qed

section \<open>Clients that are not ready\<close>

text \<open>A call on a client that has to be initialized first stops the program when the initialization succeeds.\<close>

lemma call_on_unready_client_crashes:
  assumes "\<not> mc_ready c" "initialize en c = (c', Returns ())"
  shows "call_mcp_tool en name args c = (c', Crashes)"
  using assms by (simp add: call_mcp_tool_def call_item_def ready_for_call_def)

text \<open>A server whose process was started again but did not come up in time: the client is not ready, and as soon as the
  process answers the next call stops the program. If the process could not be started, the next call uses a nil pointer.\<close>

lemma call_after_failed_start_crashes:
  assumes "restart_client en (Inl e) c = (c', Fails e')"
  shows "snd (call_mcp_tool en name args c') = Crashes"
proof -
  have "\<not> mc_ready c'" "tp_nil (mc_transport c')"
    using assms by (auto simp: restart_client_def close_transport_def Let_def split: if_splits prod.splits)
  then show ?thesis
    by (simp add: call_mcp_tool_def call_item_def ready_for_call_def initialize_def transport_alive_def)
qed

text \<open>After a request that was given up without an answer the client can be neither closed nor asked whether it is alive.\<close>

lemma given_up_request_blocks_client:
  assumes "ask en r c = (c', Fails ''context deadline exceeded'')" "send (en_server en) (en_decode en) r (mc_transport c) = (t, Blocks)"
    "\<not> tp_busy (mc_transport c)" "mc_ready c"
  shows "transport_alive (mc_transport c') = Blocks \<and> snd (close_client en c') = Blocks"
proof -
  have t: "tp_busy t" "\<not> tp_nil t"
    using assms(2,3) by (auto simp: send_def Let_def split: if_splits prod.splits list.splits option.splits)
  have "c' = c\<lparr>mc_transport := t\<rparr>" using assms(1,2) by (simp add: ask_def send_with_context_def split: if_splits)
  then show ?thesis using t assms(4) by (simp add: transport_alive_def close_client_def)
qed

end
