(* ===== verification/MCP_Registry.thy ===== *)
theory MCP_Registry
  imports MCP_Client
begin

text \<open>
  The registry of MCP servers (\<open>internal/mcp/registry.go\<close>) and the manager that offers their tools to the agents
  (\<open>internal/mcp/adapter.go\<close>). A server is registered under one name, so the client that a tool is mapped to is given by that name; the
  order in which Go walks its maps is an argument.
\<close>

section \<open>The registry\<close>

record 's mcp_registry =
  mr_clients :: "string \<rightharpoonup> 's mcp_client"
  mr_tools :: "string \<rightharpoonup> string"

definition new_mcp_registry :: "'s mcp_registry" where
  "new_mcp_registry = \<lparr>mr_clients = Map.empty, mr_tools = Map.empty\<rparr>"

record mcp_config =
  ms_name :: string
  ms_command :: string
  ms_url :: string

definition tool_names_of :: "'s mcp_client \<Rightarrow> string list" where
  "tool_names_of c = map mt_name (mc_tools c)"

definition map_tools :: "string \<Rightarrow> string list \<Rightarrow> (string \<rightharpoonup> string) \<Rightarrow> string \<rightharpoonup> string" where
  "map_tools owner names m = foldl (\<lambda>m t. m(t \<mapsto> owner)) m names"

text \<open>The client that a failed operation leaves behind after \<open>Close\<close> comes with the outcome.\<close>

definition start_server ::
    "'s environment \<Rightarrow> mcp_config \<Rightarrow> (string + 's) \<Rightarrow> 's mcp_client option \<times> 's mcp_client outcome" where
  "start_server en cfg started =
     (case new_mcp_client (ms_name cfg) (ms_command cfg) (ms_url cfg) started of
        Inl e \<Rightarrow> (None, Fails e)
      | Inr c \<Rightarrow>
          (case and_then [] (initialize en c) (\<lambda>c _. list_mcp_tools en c) of
             (c', Returns _) \<Rightarrow> (None, Returns c')
           | (c', Fails e) \<Rightarrow>
               (case close_client en c' of
                  (c2, Returns _) \<Rightarrow> (Some c2, Fails e)
                | (c2, Fails _) \<Rightarrow> (Some c2, Fails e)
                | (c2, Blocks) \<Rightarrow> (Some c2, Blocks)
                | (c2, Crashes) \<Rightarrow> (Some c2, Crashes))
           | (c', Blocks) \<Rightarrow> (Some c', Blocks)
           | (c', Crashes) \<Rightarrow> (Some c', Crashes)))"

definition add_server :: "'s environment \<Rightarrow> mcp_config \<Rightarrow> (string + 's) \<Rightarrow> 's mcp_registry \<Rightarrow> 's mcp_registry \<times> unit outcome" where
  "add_server en cfg started reg =
     (if mr_clients reg (ms_name cfg) \<noteq> None then (reg, Returns ())
      else case snd (start_server en cfg started) of
             Returns c \<Rightarrow>
               (\<lparr>mr_clients = (mr_clients reg)(ms_name cfg \<mapsto> c),
                 mr_tools = map_tools (ms_name cfg) (tool_names_of c) (mr_tools reg)\<rparr>, Returns ())
           | Fails e \<Rightarrow> (reg, Fails e)
           | Blocks \<Rightarrow> (reg, Blocks)
           | Crashes \<Rightarrow> (reg, Crashes))"

definition quoted_name :: "string \<Rightarrow> string" where
  "quoted_name n = [CHR 0x27] @ n @ [CHR 0x27]"

text \<open>A call with one retry after a restart; \<open>started\<close> is what starting the process again brings.\<close>

definition retry_call ::
    "'s environment \<Rightarrow> (string + 's) \<Rightarrow> string \<Rightarrow> go_value \<Rightarrow> 's mcp_client \<Rightarrow> 's mcp_client \<times> (string \<times> string) list outcome" where
  "retry_call en started name args c =
     and_then (''tool '' @ quoted_name name @ '' unavailable: client '' @ quoted_name (mc_name c) @ '' failed to restart: '')
       (restart_client en started c) (\<lambda>c _.
       and_then (''tool '' @ quoted_name name @ '' unavailable after client restart: '')
         (call_mcp_tool en name args c) (\<lambda>c r. (c, Returns r)))"

definition call_or_restart ::
    "'s environment \<Rightarrow> (string + 's) \<Rightarrow> string \<Rightarrow> go_value \<Rightarrow> 's mcp_client \<Rightarrow> 's mcp_client \<times> (string \<times> string) list outcome" where
  "call_or_restart en started name args c =
     (case call_mcp_tool en name args c of
        (c1, Fails e) \<Rightarrow>
          and_then [] (c1, transport_alive (mc_transport c1)) (\<lambda>c1 alive.
            if alive then (c1, Fails (''tool '' @ quoted_name name @ '' call failed: '' @ e))
            else retry_call en started name args c1)
      | out \<Rightarrow> out)"

definition registry_call ::
    "'s environment \<Rightarrow> (string + 's) \<Rightarrow> string \<Rightarrow> go_value \<Rightarrow> 's mcp_registry \<Rightarrow> 's mcp_registry \<times> (string \<times> string) list outcome" where
  "registry_call en started name args reg =
     (case mr_tools reg name of
        None \<Rightarrow> (reg, Fails (''tool not found: '' @ name))
      | Some owner \<Rightarrow>
          (case mr_clients reg owner of
             None \<Rightarrow> (reg, Crashes)
           | Some c \<Rightarrow>
               (let (c', out) = call_or_restart en started name args c
                in (reg\<lparr>mr_clients := (mr_clients reg)(owner \<mapsto> c')\<rparr>, out))))"

definition all_mcp_tools :: "string list \<Rightarrow> 's mcp_registry \<Rightarrow> mcp_tool list" where
  "all_mcp_tools order reg = concat (map (\<lambda>n. case mr_clients reg n of None \<Rightarrow> [] | Some c \<Rightarrow> mc_tools c) order)"

definition tools_by_server :: "string \<Rightarrow> 's mcp_registry \<Rightarrow> mcp_tool list" where
  "tools_by_server n reg = (case mr_clients reg n of None \<Rightarrow> [] | Some c \<Rightarrow> mc_tools c)"

definition get_client :: "string \<Rightarrow> 's mcp_registry \<Rightarrow> 's mcp_client option" where
  "get_client n reg = mr_clients reg n"

text \<open>\<open>GetPrompt\<close> and \<open>ReadResource\<close>: the first client whose list holds the name answers; clients that fail to list are passed over.\<close>

fun first_holder ::
    "('s mcp_client \<Rightarrow> 's mcp_client \<times> string list outcome) \<Rightarrow> ('s mcp_client \<Rightarrow> 's mcp_client \<times> 'b outcome) \<Rightarrow> string
       \<Rightarrow> string \<Rightarrow> string list \<Rightarrow> 's mcp_registry \<Rightarrow> 's mcp_registry \<times> 'b outcome" where
  "first_holder listing get kind name [] reg = (reg, Fails (kind @ '' not found: '' @ name))"
| "first_holder listing get kind name (n # ns) reg =
     (case mr_clients reg n of
        None \<Rightarrow> first_holder listing get kind name ns reg
      | Some c \<Rightarrow>
          (case listing c of
             (c', Returns names) \<Rightarrow>
               if name \<in> set names then
                 (let (c2, out) = get c' in (reg\<lparr>mr_clients := (mr_clients reg)(n \<mapsto> c2)\<rparr>, out))
               else first_holder listing get kind name ns (reg\<lparr>mr_clients := (mr_clients reg)(n \<mapsto> c')\<rparr>)
           | (c', Fails _) \<Rightarrow> first_holder listing get kind name ns (reg\<lparr>mr_clients := (mr_clients reg)(n \<mapsto> c')\<rparr>)
           | (c', Blocks) \<Rightarrow> (reg\<lparr>mr_clients := (mr_clients reg)(n \<mapsto> c')\<rparr>, Blocks)
           | (c', Crashes) \<Rightarrow> (reg\<lparr>mr_clients := (mr_clients reg)(n \<mapsto> c')\<rparr>, Crashes)))"

definition registry_prompt ::
    "'s environment \<Rightarrow> string list \<Rightarrow> string \<Rightarrow> go_value \<Rightarrow> 's mcp_registry \<Rightarrow> 's mcp_registry \<times> string outcome" where
  "registry_prompt en order name args reg =
     first_holder (list_prompts en) (get_mcp_prompt en name args) ''prompt'' name order reg"

definition registry_resource :: "'s environment \<Rightarrow> string list \<Rightarrow> string \<Rightarrow> 's mcp_registry \<Rightarrow> 's mcp_registry \<times> string outcome" where
  "registry_resource en order uri reg = first_holder (list_resources en) (read_mcp_resource en uri) ''resource'' uri order reg"

text \<open>The mappings of all the tools that the client lists are dropped, whoever they lead to; errors of closing are logged only.\<close>

definition remove_server :: "'s environment \<Rightarrow> string \<Rightarrow> 's mcp_registry \<Rightarrow> 's mcp_registry \<times> unit outcome" where
  "remove_server en name reg =
     (case mr_clients reg name of
        None \<Rightarrow> (reg, Returns ())
      | Some c \<Rightarrow>
          let tools = (\<lambda>t. if t \<in> set (tool_names_of c) then None else mr_tools reg t) in
          (case snd (close_client en c) of
             Blocks \<Rightarrow> (reg\<lparr>mr_tools := tools\<rparr>, Blocks)
           | Crashes \<Rightarrow> (reg\<lparr>mr_tools := tools\<rparr>, Crashes)
           | _ \<Rightarrow> (\<lparr>mr_clients = (mr_clients reg)(name := None), mr_tools = tools\<rparr>, Returns ())))"

fun close_each :: "'s environment \<Rightarrow> string list \<Rightarrow> 's mcp_registry \<Rightarrow> unit outcome" where
  "close_each en [] reg = Returns ()"
| "close_each en (n # ns) reg =
     (case mr_clients reg n of
        None \<Rightarrow> close_each en ns reg
      | Some c \<Rightarrow>
          (case snd (close_client en c) of Blocks \<Rightarrow> Blocks | Crashes \<Rightarrow> Crashes | _ \<Rightarrow> close_each en ns reg))"

definition close_all :: "'s environment \<Rightarrow> string list \<Rightarrow> 's mcp_registry \<Rightarrow> 's mcp_registry \<times> unit outcome" where
  "close_all en order reg =
     (case close_each en order reg of Returns _ \<Rightarrow> (new_mcp_registry, Returns ()) | out \<Rightarrow> (reg, out))"

definition registry_stats :: "string list \<Rightarrow> 's mcp_registry \<Rightarrow> nat \<times> nat \<times> nat" where
  "registry_stats order reg =
     (card (dom (mr_clients reg)), card (dom (mr_tools reg)),
      length (filter (\<lambda>n. case mr_clients reg n of None \<Rightarrow> False | Some c \<Rightarrow> transport_alive (mc_transport c) = Returns True) order))"

section \<open>Tools for the agents\<close>

record mcp_adapter =
  ma_owner :: string
  ma_tool :: mcp_tool
  ma_manager :: string

definition get_mcp_adapters :: "string \<Rightarrow> string list \<Rightarrow> 's mcp_registry \<Rightarrow> mcp_adapter list" where
  "get_mcp_adapters manager order reg =
     List.map_filter (\<lambda>t. map_option (\<lambda>owner. \<lparr>ma_owner = owner, ma_tool = t, ma_manager = manager\<rparr>) (mr_tools reg (mt_name t)))
       (all_mcp_tools order reg)"

definition adapter_name :: "mcp_adapter \<Rightarrow> string" where
  "adapter_name a =
     (if ma_manager a \<noteq> [] then ma_manager a @ ''_'' @ mt_name (ma_tool a) else mt_name (ma_tool a))"

definition text_of :: "go_value option \<Rightarrow> string option" where
  "text_of v = (case v of Some (GoString s) \<Rightarrow> Some s | _ \<Rightarrow> None)"

definition string_items :: "go_value list \<Rightarrow> string list" where
  "string_items vs = List.map_filter (\<lambda>v. text_of (Some v)) vs"

definition required_names :: "go_params \<Rightarrow> string list" where
  "required_names schema = (case schema ''required'' of Some (GoArray vs) \<Rightarrow> string_items vs | _ \<Rightarrow> [])"

definition schema_parameter :: "string list \<Rightarrow> string \<Rightarrow> (string \<times> go_value) list \<Rightarrow> tool_parameter" where
  "schema_parameter required name kvs =
     (let p = map_of kvs; type = (case text_of (p ''type'') of Some t \<Rightarrow> t | None \<Rightarrow> ''object'')
      in \<lparr>tp_name = name, tp_type = type,
          tp_description = (case text_of (p ''description'') of Some d \<Rightarrow> d | None \<Rightarrow> []),
          tp_required = (name \<in> set required),
          tp_enum = (case p ''enum'' of Some (GoArray vs) \<Rightarrow> string_items vs | _ \<Rightarrow> []),
          tp_default = (case p ''default'' of Some v \<Rightarrow> v | None \<Rightarrow> GoNil),
          tp_schema = (if type = ''object'' \<or> type = ''array'' then Some p else None)\<rparr>)"

text \<open>The properties in the order in which Go walks their map.\<close>

definition schema_parameters :: "go_params \<Rightarrow> tool_parameter list" where
  "schema_parameters schema =
     (case schema ''properties'' of
        Some (GoObject props) \<Rightarrow>
          List.map_filter (\<lambda>(name, prop). case prop of GoObject kvs \<Rightarrow> Some (schema_parameter (required_names schema) name kvs) | _ \<Rightarrow> None) props
      | _ \<Rightarrow> [])"

definition adapter_parameters :: "(string \<Rightarrow> go_params option) \<Rightarrow> mcp_adapter \<Rightarrow> tool_parameter list" where
  "adapter_parameters unmarshal a =
     (if mt_schema (ma_tool a) = [] then []
      else case unmarshal (mt_schema (ma_tool a)) of None \<Rightarrow> [] | Some schema \<Rightarrow> schema_parameters schema)"

definition adapter_definition :: "(string \<Rightarrow> go_params option) \<Rightarrow> mcp_adapter \<Rightarrow> tool_definition" where
  "adapter_definition unmarshal a =
     \<lparr>td_name = adapter_name a, td_description = mt_description (ma_tool a), td_parameters = adapter_parameters unmarshal a\<rparr>"

text \<open>A call goes to the client itself, not through the registry.\<close>

definition adapter_execute ::
    "'s environment \<Rightarrow> mcp_adapter \<Rightarrow> go_value \<Rightarrow> 's mcp_client \<Rightarrow> 's mcp_client \<times> string outcome" where
  "adapter_execute en a args c =
     and_then ''MCP tool call failed: '' (call_mcp_tool en (mt_name (ma_tool a)) args c) (\<lambda>c blocks.
       (c, Returns (concat (map snd (filter (\<lambda>(kind, _). kind = ''text'') blocks)))))"

section \<open>Tools and their servers\<close>

text \<open>Calls, restarts and closing leave the list of tools, and the name, as they are (closing may empty it).\<close>

lemma and_then_tools:
  assumes "mc_tools (fst co) = ts" "\<And>c x. mc_tools c = ts \<Longrightarrow> mc_tools (fst (f c x)) = ts"
  shows "mc_tools (fst (and_then msg co f)) = ts"
  using assms by (cases "(msg, co, f)" rule: and_then.cases) auto

lemma ask_tools [simp]: "mc_tools (fst (ask en r c)) = mc_tools c"
  by (simp add: ask_def split: prod.split)

lemma initialize_tools [simp]: "mc_tools (fst (initialize en c)) = mc_tools c"
  unfolding initialize_def
proof (rule and_then_tools)
  fix c' :: "'a mcp_client" and alive :: bool
  assume c': "mc_tools c' = mc_tools c"
  have "mc_tools (fst (and_then msg (ask en init_request c') (\<lambda>c re.
      if en_init en (re_result re) then (c\<lparr>mc_ready := True\<rparr>, Returns ()) else (c, Fails e)))) = mc_tools c" for msg e
    by (rule and_then_tools) (simp_all add: c')
  then show "mc_tools (fst (if \<not> alive then (c', Fails ''transport is not alive'')
       else and_then ''initialize request failed: '' (ask en init_request c') (\<lambda>c re.
         if en_init en (re_result re) then (c\<lparr>mc_ready := True\<rparr>, Returns ())
         else (c, Fails ''failed to unmarshal initialize result'')))) = mc_tools c"
    using c' by simp
qed simp

lemma ready_for_call_tools [simp]: "mc_tools (fst (ready_for_call en c)) = mc_tools c"
  using initialize_tools [of en c] by (auto simp: ready_for_call_def simp del: initialize_tools split: prod.splits outcome.splits)

lemma call_item_tools [simp]: "mc_tools (fst (call_item en method params decode c)) = mc_tools c"
  unfolding call_item_def
  by (rule and_then_tools, simp, rule and_then_tools, simp, simp split: option.split)

lemma call_mcp_tool_tools [simp]: "mc_tools (fst (call_mcp_tool en name args c)) = mc_tools c"
  unfolding call_mcp_tool_def by (rule and_then_tools) (auto split: prod.split)

lemma restart_client_tools [simp]: "mc_tools (fst (restart_client en started c)) = mc_tools c"
  unfolding restart_client_def
  by (rule and_then_tools) (simp_all add: Let_def split: prod.split sum.split)

lemma retry_call_tools [simp]: "mc_tools (fst (retry_call en started name args c)) = mc_tools c"
  unfolding retry_call_def
  by (rule and_then_tools, simp, rule and_then_tools, simp_all)

lemma call_or_restart_tools: "mc_tools (fst (call_or_restart en started name args c)) = mc_tools c"
proof -
  obtain c1 out where call: "call_mcp_tool en name args c = (c1, out)" by force
  then have c1: "mc_tools c1 = mc_tools c" using call_mcp_tool_tools [of en name args c] by simp
  have "mc_tools (fst (and_then [] (c1, transport_alive (mc_transport c1)) (\<lambda>c1 alive.
      if alive then (c1, Fails msg) else retry_call en started name args c1))) = mc_tools c" for msg
    by (rule and_then_tools) (simp_all add: c1)
  then show ?thesis using c1 by (simp add: call_or_restart_def call split: outcome.split)
qed

definition tools_owned :: "'s mcp_registry \<Rightarrow> bool" where
  "tools_owned reg \<longleftrightarrow>
     (\<forall>t n. mr_tools reg t = Some n \<longrightarrow> (\<exists>c. mr_clients reg n = Some c \<and> t \<in> set (tool_names_of c)))"

lemma map_tools_apply: "map_tools owner names m t = (if t \<in> set names then Some owner else m t)"
proof -
  have "foldl (\<lambda>m t. m(t \<mapsto> owner)) m names t = (if t \<in> set names then Some owner else m t)"
    by (induction names arbitrary: m) auto
  then show ?thesis by (simp add: map_tools_def)
qed

lemma tools_owned_new: "tools_owned new_mcp_registry"
  by (simp add: tools_owned_def new_mcp_registry_def)

lemma tools_owned_add:
  assumes "tools_owned reg"
  shows "tools_owned (fst (add_server en cfg started reg))"
proof (cases "mr_clients reg (ms_name cfg) = None \<and> (\<exists>c. snd (start_server en cfg started) = Returns c)")
  case True
  then obtain c where c: "mr_clients reg (ms_name cfg) = None" "snd (start_server en cfg started) = Returns c" by blast
  then have "mr_tools reg t \<noteq> Some (ms_name cfg)" for t using assms unfolding tools_owned_def by force
  then show ?thesis using assms c by (auto simp: tools_owned_def add_server_def map_tools_apply)
next
  case False
  then have "fst (add_server en cfg started reg) = reg" by (auto simp: add_server_def split: outcome.split)
  then show ?thesis using assms by simp
qed

lemma tools_owned_remove:
  assumes "tools_owned reg"
  shows "tools_owned (fst (remove_server en name reg))"
proof (cases "mr_clients reg name")
  case (Some c)
  have own: "t \<in> set (tool_names_of c)" if "mr_tools reg t = Some name" for t
    using assms Some that unfolding tools_owned_def by force
  show ?thesis
    using assms own by (auto simp: remove_server_def Some Let_def tools_owned_def split: outcome.split)
qed (use assms in \<open>simp add: remove_server_def\<close>)

lemma tools_owned_call:
  assumes "tools_owned reg"
  shows "tools_owned (fst (registry_call en started name args reg))"
proof -
  have "tools_owned (reg\<lparr>mr_clients := (mr_clients reg)(owner \<mapsto> fst (call_or_restart en started name args c))\<rparr>)"
    if "mr_clients reg owner = Some c" for owner c
    using assms that call_or_restart_tools [of en started name args c]
    unfolding tools_owned_def tool_names_of_def by fastforce
  then show ?thesis using assms by (auto simp: registry_call_def split_beta Let_def split: option.split)
qed

datatype 's mcp_event =
    AddServer mcp_config "string + 's"
  | RemoveServer string
  | CallServer "string + 's" string go_value
  | CloseServers "string list"

fun mcp_step :: "'s environment \<Rightarrow> 's mcp_event \<Rightarrow> 's mcp_registry \<Rightarrow> 's mcp_registry" where
  "mcp_step en (AddServer cfg started) reg = fst (add_server en cfg started reg)"
| "mcp_step en (RemoveServer n) reg = fst (remove_server en n reg)"
| "mcp_step en (CallServer started name args) reg = fst (registry_call en started name args reg)"
| "mcp_step en (CloseServers order) reg = fst (close_all en order reg)"

lemma tools_owned_step: "tools_owned reg \<Longrightarrow> tools_owned (mcp_step en e reg)"
  by (cases e) (auto simp: tools_owned_add tools_owned_remove tools_owned_call close_all_def tools_owned_new split: outcome.split)

lemma tools_owned_run: "tools_owned reg \<Longrightarrow> tools_owned (fold (mcp_step en) es reg)"
  by (induction es arbitrary: reg) (simp_all add: tools_owned_step)

text \<open>C21: whatever servers are added, removed, called, restarted and closed: each tool that the registry can call leads to a
server that is registered and lists the tool.\<close>

theorem mapped_tools_have_their_server:
  assumes "reg = fold (mcp_step en) es new_mcp_registry" "mr_tools reg t = Some n"
  shows "\<exists>c. get_client n reg = Some c \<and> t \<in> mt_name ` set (tools_by_server n reg)"
  using tools_owned_run [OF tools_owned_new, of en es] assms
  unfolding tools_owned_def tool_names_of_def get_client_def tools_by_server_def by fastforce

definition demo_environment :: "unit environment" where
  "demo_environment = \<lparr>en_server = echo_server, en_decode = echo_decode, en_expires = True, en_init = (\<lambda>_. True),
     en_tools = (\<lambda>_. Some [\<lparr>mt_name = ''t'', mt_description = [], mt_schema = []\<rparr>]), en_result = (\<lambda>l. Some ([(''text'', l)], False)),
     en_prompts = (\<lambda>_. None), en_prompt = (\<lambda>_. None), en_resources = (\<lambda>_. None), en_resource = (\<lambda>_. None)\<rparr>"

lemma mapped_tools_have_their_server_witness:
  "\<exists>c. get_client ''s'' (fold (mcp_step demo_environment) [AddServer \<lparr>ms_name = ''s'', ms_command = ''run'', ms_url = []\<rparr> (Inr ())] new_mcp_registry) = Some c \<and>
     ''t'' \<in> mt_name ` set (tools_by_server ''s'' (fold (mcp_step demo_environment) [AddServer \<lparr>ms_name = ''s'', ms_command = ''run'', ms_url = []\<rparr> (Inr ())] new_mcp_registry))"
proof -
  have "mr_tools (fold (mcp_step demo_environment) [AddServer \<lparr>ms_name = ''s'', ms_command = ''run'', ms_url = []\<rparr> (Inr ())] new_mcp_registry) ''t'' = Some ''s''"
    by code_simp
  then show ?thesis by (rule mapped_tools_have_their_server [OF refl])
qed

text \<open>A tool that two servers offer can no longer be called once the server that was added first is removed, though the other one,
  which it leads to, still runs and lists it.\<close>

lemma removal_drops_shared_tools:
  assumes "mr_clients reg a = Some c" "t \<in> set (tool_names_of c)" "mr_clients reg b = Some d" "t \<in> set (tool_names_of d)" "a \<noteq> b"
    "snd (close_client en c) = Returns ()"
  shows "mr_tools (fst (remove_server en a reg)) t = None \<and> t \<in> mt_name ` set (tools_by_server b (fst (remove_server en a reg)))"
  using assms by (simp add: remove_server_def Let_def tools_by_server_def tool_names_of_def)

text \<open>A server that cannot be initialized is dropped without being closed: its process goes on.\<close>

lemma failed_server_not_closed:
  assumes "new_mcp_client (ms_name cfg) (ms_command cfg) (ms_url cfg) started = Inr c" "initialize en c = (c', Fails e)" "\<not> mc_ready c'"
  shows "start_server en cfg started = (Some c', Fails e)"
  using assms by (simp add: start_server_def close_client_def)

text \<open>The adapters call the client themselves, so a server that ended is never started again for an agent.\<close>

lemma adapter_never_restarts:
  assumes "usable (mc_transport c)" "mc_ready c"
  shows "snd (adapter_execute en a args (c\<lparr>mc_transport := (mc_transport c)\<lparr>tp_ended := True\<rparr>\<rparr>)) =
     Fails ''MCP tool call failed: tools/call request failed: failed to write request''"
  using assms
  by (simp add: adapter_execute_def call_mcp_tool_def call_item_def ready_for_call_def ask_def send_with_context_def send_def usable_def)

end
