(* ===== verification/Skill_Barcodes.thy ===== *)
theory Skill_Barcodes
  imports Skill_Strings
begin

text \<open>
  The skills that check barcodes and identifiers (\<open>internal/skill/builtin/barcodes.go\<close>): EAN-13, EAN-8, UPC-A, ISSN, VIN
  and SWIFT codes. \<open>quote\<close> is the format \<open>%q\<close> of a text.
\<close>

section \<open>Cleaning and check digits\<close>

definition strip_barcode_noise :: "string \<Rightarrow> string" where
  "strip_barcode_noise s =
     filter (\<lambda>c. c \<notin> {CHR '' '', CHR ''-'', CHR ''.'', CHR 0x09, CHR 0x0A, CHR 0x0D}) (trim_space s)"

definition is_all_digits :: "string \<Rightarrow> bool" where
  "is_all_digits s \<longleftrightarrow> s \<noteq> [] \<and> list_all is_digit s"

definition digit_value :: "char \<Rightarrow> int" where
  "digit_value c = int (byte c) - 48"

text \<open>The loop of \<open>mod10CheckDigit\<close>, from the last digit to the first.\<close>

fun weighted_sum :: "int \<Rightarrow> string \<Rightarrow> int" where
  "weighted_sum w [] = 0"
| "weighted_sum w (d # ds) = digit_value d * w + weighted_sum (if w = 3 then 1 else 3) ds"

definition mod10_check_digit :: "string \<Rightarrow> string + int" where
  "mod10_check_digit payload =
     (if \<not> is_all_digits payload then Inl ''non-digit payload''
      else Inr ((10 - weighted_sum 3 (rev payload) mod 10) mod 10))"

definition barcode_input :: "string \<Rightarrow> string" where
  "barcode_input q = strip_barcode_noise (quote_stripped (extract_payload q))"

definition mismatch :: "string \<Rightarrow> string \<Rightarrow> string" where
  "mismatch want got = ''invalid: check digit mismatch (expected '' @ want @ '', got '' @ got @ '')''"

text \<open>EAN-13, EAN-8 and UPC-A share the checks; they differ in name and length.\<close>

definition mod10_report :: "(string \<Rightarrow> string) \<Rightarrow> string \<Rightarrow> nat \<Rightarrow> string \<Rightarrow> string" where
  "mod10_report quote name n raw =
     (if raw = [] then ''invalid: empty input''
      else if \<not> is_all_digits raw then ''invalid: non-digit characters in '' @ quote raw
      else if length raw \<noteq> n then
        ''invalid: '' @ name @ '' must be '' @ dec_digits n @ '' digits, got '' @ dec_digits (length raw)
      else case mod10_check_digit (take (n - 1) raw) of
             Inl e \<Rightarrow> ''invalid: '' @ e
           | Inr want \<Rightarrow>
               let got = digit_value (raw ! (n - 1))
               in if want \<noteq> got then mismatch (itoa want) (itoa got) else ''valid'')"

definition ean13_skill :: "(string \<Rightarrow> string) \<Rightarrow> skill" where
  "ean13_skill quote =
     (base_skill ''ean13_validate'' ''Validate an EAN-13 barcode (13 digits, mod-10 check digit)''
        [''ean13'', ''ean 13'', ''ean13 validate''])
       \<lparr>sk_match := (\<lambda>q. any_in (to_lower q) [''ean13'', ''ean 13'']),
        sk_execute := (\<lambda>q. Inr (mod10_report quote ''EAN-13'' 13 (barcode_input q)))\<rparr>"

definition ean8_skill :: "(string \<Rightarrow> string) \<Rightarrow> skill" where
  "ean8_skill quote =
     (base_skill ''ean8_validate'' ''Validate an EAN-8 barcode (8 digits, mod-10 check digit)''
        [''ean8'', ''ean 8'', ''ean8 validate''])
       \<lparr>sk_match := (\<lambda>q. any_in (to_lower q) [''ean8'', ''ean 8'']),
        sk_execute := (\<lambda>q. Inr (mod10_report quote ''EAN-8'' 8 (barcode_input q)))\<rparr>"

definition upc_a_skill :: "(string \<Rightarrow> string) \<Rightarrow> skill" where
  "upc_a_skill quote =
     (base_skill ''upc_a_validate'' ''Validate a UPC-A barcode (12 digits, mod-10 check digit)''
        [''upc'', ''upc-a'', ''upc validate''])
       \<lparr>sk_match := (\<lambda>q. let q = to_lower q in any_in q [''upc-a'', ''upc a'', ''upca''] \<or>
                            (contains_str q ''upc'' \<and> \<not> contains_str q ''upc-e'')),
        sk_execute := (\<lambda>q. Inr (mod10_report quote ''UPC-A'' 12 (barcode_input q)))\<rparr>"

section \<open>ISSN\<close>

text \<open>The loop over the first seven digits with the weights 8 down to 2.\<close>

fun falling_sum :: "int \<Rightarrow> string \<Rightarrow> int" where
  "falling_sum w [] = 0"
| "falling_sum w (d # ds) = digit_value d * w + falling_sum (w - 1) ds"

definition check_value :: "char \<Rightarrow> int" where
  "check_value c = (if c = CHR ''X'' then 10 else digit_value c)"

definition issn_report :: "(string \<Rightarrow> string) \<Rightarrow> string \<Rightarrow> string" where
  "issn_report quote raw =
     (if raw = [] then ''invalid: empty input''
      else if length raw \<noteq> 8 then ''invalid: ISSN must be 8 characters, got '' @ dec_digits (length raw)
      else
        let payload = take 7 raw; final = raw ! 7 in
        if \<not> is_all_digits payload then ''invalid: first 7 characters must be digits in '' @ quote raw
        else if \<not> is_digit final \<and> final \<noteq> CHR ''X'' then ''invalid: check character must be a digit or X in '' @ quote raw
        else
          let rem = falling_sum 8 payload mod 11; want = (if rem \<noteq> 0 then 11 - rem else 0)
          in if want \<noteq> check_value final then mismatch (if want = 10 then ''X'' else itoa want) [final] else ''valid'')"

definition issn_skill :: "(string \<Rightarrow> string) \<Rightarrow> skill" where
  "issn_skill quote =
     (base_skill ''issn_validate'' ''Validate an ISSN (8 chars, mod-11 check digit, last may be X)'' [''issn'', ''issn validate''])
       \<lparr>sk_match := (\<lambda>q. contains_str (to_lower q) ''issn''),
        sk_execute := (\<lambda>q. Inr (issn_report quote (to_upper (barcode_input q))))\<rparr>"

section \<open>VIN\<close>

definition vin_translit :: "char \<Rightarrow> int option" where
  "vin_translit c =
     (if is_digit c then Some (digit_value c)
      else map_of (zip ''ABCDEFGHJKLMNPRSTUVWXYZ'' [1, 2, 3, 4, 5, 6, 7, 8, 1, 2, 3, 4, 5, 7, 9, 2, 3, 4, 5, 6, 7, 8, 9]) c)"

definition vin_weights :: "int list" where
  "vin_weights = [8, 7, 6, 5, 4, 3, 2, 10, 0, 9, 8, 7, 6, 5, 4, 3, 2]"

text \<open>The sum over the characters, or the first character without a value and its position.\<close>

fun vin_sum :: "nat \<Rightarrow> int list \<Rightarrow> string \<Rightarrow> (char \<times> nat) + int" where
  "vin_sum i (w # ws) (c # cs) =
     (case vin_translit c of
        None \<Rightarrow> Inl (c, i)
      | Some v \<Rightarrow> (case vin_sum (Suc i) ws cs of Inl e \<Rightarrow> Inl e | Inr s \<Rightarrow> Inr (v * w + s)))"
| "vin_sum i ws cs = Inr 0"

definition vin_report :: "(string \<Rightarrow> string) \<Rightarrow> string \<Rightarrow> string" where
  "vin_report quote raw =
     (if raw = [] then ''invalid: empty input''
      else if length raw \<noteq> 17 then ''invalid: VIN must be 17 characters, got '' @ dec_digits (length raw)
      else case vin_sum 0 vin_weights raw of
             Inl (c, i) \<Rightarrow> ''invalid: illegal character '' @ quote [c] @ '' at position '' @ dec_digits (i + 1)
           | Inr weight \<Rightarrow>
               let check = raw ! 8; want = weight mod 11 in
               if \<not> is_digit check \<and> check \<noteq> CHR ''X'' then
                 ''invalid: check digit at position 9 must be 0-9 or X, got '' @ quote [check]
               else if want = check_value check then ''valid''
               else mismatch (if want = 10 then ''X'' else itoa want) [check])"

definition vin_skill :: "(string \<Rightarrow> string) \<Rightarrow> skill" where
  "vin_skill quote =
     (base_skill ''vin_validate'' ''Validate a VIN (17 chars, ISO 3779 mod-11 check digit)''
        [''vin'', ''vin validate'', ''vehicle identification number''])
       \<lparr>sk_match := (\<lambda>q. let q = to_lower q in
            any_in q [''vin '', ''vin:'', ''vin validate'', ''vehicle identification number''] \<or> has_suffix q ''vin''),
        sk_execute := (\<lambda>q. Inr (vin_report quote (to_upper (barcode_input q))))\<rparr>"

section \<open>SWIFT codes\<close>

definition valid_iso_alpha2 :: "string list" where
  "valid_iso_alpha2 = str_fields
     (''AD AE AF AG AI AL AM AO AQ AR AS AT AU AW AX AZ BA BB BD BE BF BG BH BI BJ BL BM BN BO BQ '' @
      ''BR BS BT BV BW BY BZ CA CC CD CF CG CH CI CK CL CM CN CO CR CU CV CW CX CY CZ DE DJ DK DM '' @
      ''DO DZ EC EE EG EH ER ES ET FI FJ FK FM FO FR GA GB GD GE GF GG GH GI GL GM GN GP GQ GR GS '' @
      ''GT GU GW GY HK HM HN HR HT HU ID IE IL IM IN IO IQ IR IS IT JE JM JO JP KE KG KH KI KM KN '' @
      ''KP KR KW KY KZ LA LB LC LI LK LR LS LT LU LV LY MA MC MD ME MF MG MH MK ML MM MN MO MP MQ '' @
      ''MR MS MT MU MV MW MX MY MZ NA NC NE NF NG NI NL NO NP NR NU NZ OM PA PE PF PG PH PK PL PM '' @
      ''PN PR PS PT PW PY QA RE RO RS RU RW SA SB SC SD SE SG SH SI SJ SK SL SM SN SO SR SS ST SV '' @
      ''SX SY SZ TC TD TF TG TH TJ TK TL TM TN TO TR TT TV TW TZ UA UG UM US UY UZ VA VC VE VG VI '' @
      ''VN VU WF WS YE YT ZA ZM ZW '')"

definition is_all_upper_alpha :: "string \<Rightarrow> bool" where
  "is_all_upper_alpha s \<longleftrightarrow> s \<noteq> [] \<and> list_all is_upper s"

definition is_all_upper_alnum :: "string \<Rightarrow> bool" where
  "is_all_upper_alnum s \<longleftrightarrow> s \<noteq> [] \<and> list_all (\<lambda>c. is_upper c \<or> is_digit c) s"

definition swift_report :: "(string \<Rightarrow> string) \<Rightarrow> string \<Rightarrow> string" where
  "swift_report quote raw =
     (if raw = [] then ''invalid: empty input''
      else if length raw \<noteq> 8 \<and> length raw \<noteq> 11 then
        ''invalid: SWIFT/BIC must be 8 or 11 characters, got '' @ dec_digits (length raw)
      else
        let bank = take 4 raw; country = take 2 (drop 4 raw); location = take 2 (drop 6 raw); branch = take 3 (drop 8 raw) in
        if \<not> is_all_upper_alpha bank then ''invalid: SWIFT/BIC must be uppercase letters, got '' @ quote bank
        else if country \<notin> set valid_iso_alpha2 then
          ''invalid: country code '' @ quote country @ '' is not a valid ISO 3166-1 alpha-2 code''
        else if \<not> is_all_upper_alnum location then
          ''invalid: location code (chars 5-6) must be alphanumeric, got '' @ quote location
        else if length raw = 11 \<and> \<not> is_all_upper_alnum branch then
          ''invalid: branch code (chars 9-11) must be alphanumeric, got '' @ quote branch
        else ''valid'')"

definition swift_skill :: "(string \<Rightarrow> string) \<Rightarrow> skill" where
  "swift_skill quote =
     (base_skill ''swift_bic_validate'' ''Validate a SWIFT/BIC code (8 or 11 chars, ISO 9362)''
        [''swift'', ''bic'', ''swift bic'', ''swift validate''])
       \<lparr>sk_match := (\<lambda>q. any_in (to_lower q) [''swift'', ''bic'']),
        sk_execute := (\<lambda>q. Inr (swift_report quote (to_upper (barcode_input q))))\<rparr>"

section \<open>Errors of one character\<close>

lemma is_digit_value: "is_digit c \<Longrightarrow> 0 \<le> digit_value c \<and> digit_value c \<le> 9"
  by (auto simp: is_digit_def digit_value_def)

lemma digit_value_inj: "digit_value c = digit_value d \<Longrightarrow> c = d"
  by (simp add: digit_value_def byte_def)

text \<open>Replacing one digit changes the weighted sum by that digit's difference, once or three times.\<close>

lemma weighted_sum_update:
  assumes "i < length ds" "w = 1 \<or> w = 3"
  shows "\<exists>k. (k = 1 \<or> k = 3) \<and> weighted_sum w (ds[i := c]) = weighted_sum w ds + k * (digit_value c - digit_value (ds ! i))"
  using assms
proof (induction ds arbitrary: i w)
  case (Cons d ds)
  show ?case
  proof (cases i)
    case 0
    then show ?thesis using Cons.prems(2) by (auto simp: algebra_simps)
  next
    case (Suc j)
    have j: "j < length ds" using Cons.prems(1) Suc by simp
    have w: "(if w = 3 then 1 else 3) = 1 \<or> (if w = 3 then 1 else 3) = (3::int)" by simp
    obtain k where "k = 1 \<or> k = 3" "weighted_sum (if w = 3 then 1 else 3) (ds[j := c]) =
        weighted_sum (if w = 3 then 1 else 3) ds + k * (digit_value c - digit_value (ds ! j))"
      using Cons.IH [OF j w] by blast
    then show ?thesis using Suc by auto
  qed
qed simp

lemma mismatch_not_valid: "mismatch a b \<noteq> ''valid''"
  by (simp add: mismatch_def)

lemma check_digit_iff:
  assumes "0 \<le> d \<and> d \<le> (9::int)"
  shows "((10 - x mod 10) mod 10 = d) = ((d + x) mod 10 = 0)"
proof -
  define y where "y = x mod 10"
  have y: "0 \<le> y" "y < 10" by (simp_all add: y_def)
  have sum: "(d + x) mod 10 = (d + y) mod 10" by (simp add: y_def mod_add_right_eq)
  show ?thesis
  proof (cases "d + y < 10")
    case True
    have "(10 - y) mod 10 = (if y = 0 then 0 else 10 - y)" using y by (simp add: mod_pos_pos_trivial del: mod_diff_left_eq minus_mod_self1)
    then show ?thesis unfolding sum y_def [symmetric] using assms y True by (auto simp: mod_pos_pos_trivial)
  next
    case False
    have "(d + y) mod 10 = (d + y - 10) mod 10" by simp
    also have "\<dots> = d + y - 10" using assms y False by (intro mod_pos_pos_trivial) auto
    finally have "(d + y) mod 10 = d + y - 10" .
    moreover have "(10 - y) mod 10 = 10 - y" using assms y False by (intro mod_pos_pos_trivial) auto
    ultimately show ?thesis unfolding sum y_def [symmetric] by auto
  qed
qed

lemma mod10_report_valid:
  assumes "1 < n"
  shows "mod10_report quote name n raw = ''valid'' \<longleftrightarrow>
    is_all_digits raw \<and> length raw = n \<and> weighted_sum 1 (rev raw) mod 10 = 0"
proof (cases "is_all_digits raw \<and> length raw = n")
  case True
  obtain p c where raw: "raw = p @ [c]" using True assms by (cases raw rule: rev_cases) auto
  have n: "n - 1 = length p" using True raw by auto
  have digits: "is_all_digits p" "is_digit c" using True assms raw by (auto simp: is_all_digits_def)
  have "mod10_report quote name n raw = ''valid'' \<longleftrightarrow> (10 - weighted_sum 3 (rev p) mod 10) mod 10 = digit_value c"
  proof -
    have "take (n - 1) raw = p" "raw ! (n - 1) = c" "raw \<noteq> []" using raw n by simp_all
    then have "mod10_report quote name n raw =
        (if (10 - weighted_sum 3 (rev p) mod 10) mod 10 \<noteq> digit_value c
         then mismatch (itoa ((10 - weighted_sum 3 (rev p) mod 10) mod 10)) (itoa (digit_value c)) else ''valid'')"
      using True digits(1) by (simp add: mod10_report_def mod10_check_digit_def Let_def)
    then show ?thesis by (simp add: mismatch_not_valid)
  qed
  also have "\<dots> \<longleftrightarrow> weighted_sum 1 (rev raw) mod 10 = 0"
    unfolding check_digit_iff [OF is_digit_value [OF digits(2)]] by (simp add: raw)
  finally show ?thesis using True by simp
next
  case False
  then show ?thesis by (auto simp: mod10_report_def)
qed

lemma difference_mod10:
  assumes "a \<noteq> b" "0 \<le> a" "a \<le> (9::int)" "0 \<le> b" "b \<le> 9" "k = 1 \<or> k = 3"
  shows "(k * (a - b)) mod 10 \<noteq> 0"
  using assms(6)
proof
  assume "k = 3"
  then show ?thesis using assms(1-5) by presburger
qed (use assms(1-5) in presburger)

text \<open>The check digit of EAN-13, EAN-8 and UPC-A finds every wrong digit: when the skill calls a code valid, it calls every
text invalid that differs from it in exactly one character.\<close>

lemma mod10_finds_wrong_digit:
  assumes "mod10_report quote name n raw = ''valid''" "1 < n" "i < length raw" "c \<noteq> raw ! i"
  shows "mod10_report quote name n (raw[i := c]) \<noteq> ''valid''"
proof
  assume "mod10_report quote name n (raw[i := c]) = ''valid''"
  then have new: "is_all_digits (raw[i := c])" "weighted_sum 1 (rev (raw[i := c])) mod 10 = 0"
    using mod10_report_valid [OF assms(2)] by blast+
  have old: "is_all_digits raw" "weighted_sum 1 (rev raw) mod 10 = 0" using assms(1) mod10_report_valid [OF assms(2)] by blast+
  let ?j = "length raw - Suc i"
  have j: "?j < length (rev raw)" "rev raw ! ?j = raw ! i" using assms(3) by (simp_all add: rev_nth)
  obtain k where k: "k = 1 \<or> k = 3"
    "weighted_sum 1 ((rev raw)[?j := c]) = weighted_sum 1 (rev raw) + k * (digit_value c - digit_value (raw ! i))"
    using weighted_sum_update [OF j(1), of 1 c] j(2) by auto
  have digits: "0 \<le> digit_value c" "digit_value c \<le> 9" "0 \<le> digit_value (raw ! i)" "digit_value (raw ! i) \<le> 9"
    using new(1) old(1) assms(3) is_digit_value
    by (auto simp: is_all_digits_def list_all_length dest!: spec [of _ i])
  have ne: "digit_value c \<noteq> digit_value (raw ! i)" using assms(4) digit_value_inj by blast
  have "(k * (digit_value c - digit_value (raw ! i))) mod 10 = 0"
    using new(2) old(2) k(2) assms(3) by (simp add: rev_update mod_eq_0_iff_dvd dvd_add_right_iff)
  with difference_mod10 [OF ne digits k(1)] show False by (rule notE)
qed

lemma mod10_finds_wrong_digit_witness:
  "mod10_report id ''EAN-13'' 13 (''4006381333931''[3 := CHR ''7'']) \<noteq> ''valid''"
proof -
  have "mod10_report id ''EAN-13'' 13 ''4006381333931'' = ''valid''" by code_simp
  from mod10_finds_wrong_digit [OF this, of 3 "CHR ''7''"] show ?thesis by simp
qed

section \<open>ISSN errors\<close>

definition issn_total :: "string \<Rightarrow> int" where
  "issn_total raw = falling_sum 8 (take 7 raw) + check_value (raw ! 7)"

lemma falling_sum_update:
  "i < length ds \<Longrightarrow> falling_sum w (ds[i := c]) = falling_sum w ds + (w - int i) * (digit_value c - digit_value (ds ! i))"
proof (induction ds arbitrary: i w)
  case (Cons d ds)
  show ?case
  proof (cases i)
    case (Suc j)
    then show ?thesis using Cons.prems Cons.IH [of j "w - 1"] by (simp add: algebra_simps)
  qed (simp add: algebra_simps)
qed simp

lemma issn_check_iff:
  assumes "0 \<le> g" "g \<le> (10::int)"
  shows "((if x mod 11 \<noteq> 0 then 11 - x mod 11 else 0) = g) = ((x + g) mod 11 = 0)"
proof -
  define y where "y = x mod 11"
  have y: "0 \<le> y" "y < 11" by (simp_all add: y_def)
  have sum: "(x + g) mod 11 = (y + g) mod 11" by (simp add: y_def mod_add_left_eq)
  have "(y + g) mod 11 = (if y + g < 11 then y + g else y + g - 11)"
  proof (cases "y + g < 11")
    case False
    have "(y + g) mod 11 = (y + g - 11) mod 11" by simp
    also have "\<dots> = y + g - 11" using assms y False by (intro mod_pos_pos_trivial) auto
    finally show ?thesis using False by simp
  qed (use assms y in \<open>simp add: mod_pos_pos_trivial\<close>)
  then show ?thesis unfolding sum y_def [symmetric] using assms y by auto
qed

definition issn_shape :: "string \<Rightarrow> bool" where
  "issn_shape raw \<longleftrightarrow> length raw = 8 \<and> is_all_digits (take 7 raw) \<and> (is_digit (raw ! 7) \<or> raw ! 7 = CHR ''X'')"

lemma check_value_range: "is_digit c \<or> c = CHR ''X'' \<Longrightarrow> 0 \<le> check_value c \<and> check_value c \<le> 10"
  using is_digit_value [of c] by (auto simp: check_value_def)

lemma issn_report_valid: "issn_report quote raw = ''valid'' \<longleftrightarrow> issn_shape raw \<and> issn_total raw mod 11 = 0"
proof (cases "issn_shape raw")
  case True
  then have s: "raw \<noteq> []" "length raw = 8" "is_all_digits (take 7 raw)" "is_digit (raw ! 7) \<or> raw ! 7 = CHR ''X''"
    by (auto simp: issn_shape_def)
  let ?want = "if falling_sum 8 (take 7 raw) mod 11 \<noteq> 0 then 11 - falling_sum 8 (take 7 raw) mod 11 else 0"
  have "issn_report quote raw =
      (if ?want \<noteq> check_value (raw ! 7) then mismatch (if ?want = 10 then ''X'' else itoa ?want) [raw ! 7] else ''valid'')"
  proof -
    have "(\<not> is_digit (raw ! 7) \<and> raw ! 7 \<noteq> CHR ''X'') = False" using s(4) by blast
    then show ?thesis unfolding issn_report_def Let_def using s(1-3) by (simp only: if_False not_True_eq_False not_False_eq_True simp_thms)
  qed
  then have "issn_report quote raw = ''valid'' \<longleftrightarrow> ?want = check_value (raw ! 7)" by (simp add: mismatch_not_valid)
  then show ?thesis
    using True issn_check_iff [of "check_value (raw ! 7)" "falling_sum 8 (take 7 raw)"] check_value_range [OF s(4)]
    by (simp add: issn_total_def)
next
  case False
  then show ?thesis by (auto simp: issn_report_def issn_shape_def Let_def mismatch_not_valid)
qed

lemma digit_at: "issn_shape raw \<Longrightarrow> i < 7 \<Longrightarrow> is_digit (raw ! i)"
  by (auto simp: issn_shape_def is_all_digits_def list_all_length)

lemma multiple_not_mod11:
  assumes "(a::int) \<noteq> b" "0 \<le> a" "a \<le> 10" "0 \<le> b" "b \<le> 10" "1 \<le> k" "k \<le> 8"
  shows "(k * (a - b)) mod 11 \<noteq> 0"
proof
  assume "(k * (a - b)) mod 11 = 0"
  then have "11 dvd k * (a - b)" by (simp add: mod_eq_0_iff_dvd)
  moreover obtain m q where "k * m = 11 * q + 1"
  proof -
    have "k \<in> {1, 2, 3, 4, 5, 6, 7, 8}" using assms(6,7) by auto
    moreover have "1 * 1 = 11 * 0 + (1::int)" "2 * 6 = 11 * 1 + (1::int)" "3 * 4 = 11 * 1 + (1::int)" "4 * 3 = 11 * 1 + (1::int)"
      "5 * 9 = 11 * 4 + (1::int)" "6 * 2 = 11 * 1 + (1::int)" "7 * 8 = 11 * 5 + (1::int)" "8 * 7 = 11 * 5 + (1::int)" by simp_all
    ultimately show ?thesis using that by blast
  qed
  ultimately have "11 dvd m * (k * (a - b)) - 11 * (q * (a - b))" by simp
  moreover have "m * (k * (a - b)) - 11 * (q * (a - b)) = (k * m - 11 * q) * (a - b)" by (simp add: algebra_simps)
  ultimately have "11 dvd a - b" using \<open>k * m = 11 * q + 1\<close> by simp
  moreover have "\<bar>a - b\<bar> < 11" using assms(2-5) by arith
  ultimately show False using assms(1) dvd_imp_le_int [of "a - b" 11] by auto
qed

lemma issn_total_update:
  assumes "issn_shape raw" "i < 8"
  shows "issn_total (raw[i := c]) = issn_total raw + (8 - int i) * (if i = 7 then check_value c - check_value (raw ! 7) else digit_value c - digit_value (raw ! i))"
  using assms falling_sum_update [of i "take 7 raw" 8 c]
  by (auto simp: issn_total_def issn_shape_def take_update_swap list_update_beyond)

lemma total_not_zero: "x mod 11 = 0 \<Longrightarrow> d mod 11 \<noteq> 0 \<Longrightarrow> (x + d) mod 11 \<noteq> (0::int)"
  by (metis mod_add_eq add.left_neutral mod_mod_trivial)

text \<open>The check character of an ISSN finds every wrong character and every exchange of two different neighbours: when the skill
calls a number valid, it calls invalid what differs from it in one character, and what differs by such an exchange.\<close>

lemma issn_finds_typing_errors:
  assumes "issn_report quote raw = ''valid''" "i < 8" "c \<noteq> raw ! i" "j < 7" "raw ! j \<noteq> raw ! Suc j"
  shows "issn_report quote (raw[i := c]) \<noteq> ''valid'' \<and> issn_report quote (raw[j := raw ! Suc j, Suc j := raw ! j]) \<noteq> ''valid''"
proof
  have old: "issn_shape raw" "issn_total raw mod 11 = 0" using assms(1) issn_report_valid by blast+
  have len: "length raw = 8" using old(1) by (simp add: issn_shape_def)
  have inj: "check_value a \<noteq> check_value b" if "a \<noteq> b" "is_digit a \<or> a = CHR ''X''" "is_digit b \<or> b = CHR ''X''" for a b
    using that is_digit_value [of a] is_digit_value [of b] digit_value_inj [of a b] by (auto simp: check_value_def)
  have same: "check_value a = digit_value a" if "is_digit a" for a
    using that by (auto simp: check_value_def is_digit_def byte_def)
  show "issn_report quote (raw[i := c]) \<noteq> ''valid''"
  proof (cases "issn_shape (raw[i := c])")
    case True
    have ok: "is_digit c \<or> c = CHR ''X''" "i \<noteq> 7 \<Longrightarrow> is_digit c" "is_digit (raw ! i) \<or> raw ! i = CHR ''X''" "i \<noteq> 7 \<Longrightarrow> is_digit (raw ! i)"
      using True old(1) digit_at [OF True, of i] digit_at [OF old(1), of i] assms(2) len
      by (auto simp: issn_shape_def less_Suc_eq numeral_eq_Suc)
    have "issn_total (raw[i := c]) = issn_total raw + (8 - int i) * (check_value c - check_value (raw ! i))"
      using issn_total_update [OF old(1) assms(2)] ok same by (cases "i = 7") auto
    moreover have "((8 - int i) * (check_value c - check_value (raw ! i))) mod 11 \<noteq> 0"
      using check_value_range [OF ok(1)] check_value_range [OF ok(3)] inj [OF assms(3) ok(1,3)] assms(2)
      by (intro multiple_not_mod11) auto
    ultimately show ?thesis using total_not_zero [OF old(2)] by (simp add: issn_report_valid)
  qed (simp add: issn_report_valid)
  let ?new = "raw[j := raw ! Suc j, Suc j := raw ! j]"
  show "issn_report quote ?new \<noteq> ''valid''"
  proof (cases "issn_shape ?new")
    case True
    have ok: "is_digit (raw ! j)" "is_digit (raw ! Suc j)"
      using digit_at [OF old(1) assms(4)] digit_at [OF True assms(4)] assms(4) len by simp_all
    have mid: "issn_shape (raw[j := raw ! Suc j])"
      using old(1) ok(2) assms(4) len by (auto simp: issn_shape_def is_all_digits_def take_update_swap list_all_iff dest: set_update_subset_insert [THEN subsetD])
    have "issn_total ?new = issn_total raw + (digit_value (raw ! Suc j) - digit_value (raw ! j))"
      using issn_total_update [OF mid, of "Suc j" "raw ! j"] issn_total_update [OF old(1), of j "raw ! Suc j"] assms(4) len ok same
      by (cases "Suc j = 7") (auto simp: algebra_simps)
    moreover have "(digit_value (raw ! Suc j) - digit_value (raw ! j)) mod 11 \<noteq> 0"
      using multiple_not_mod11 [of "digit_value (raw ! Suc j)" "digit_value (raw ! j)" 1] is_digit_value ok digit_value_inj assms(5)
      by fastforce
    ultimately show ?thesis using total_not_zero [OF old(2)] by (simp add: issn_report_valid)
  qed (simp add: issn_report_valid)
qed

lemma issn_finds_typing_errors_witness:
  "issn_report id (''2434561X''[2 := CHR ''5'']) \<noteq> ''valid'' \<and>
     issn_report id (''2434561X''[6 := ''2434561X'' ! Suc 6, Suc 6 := ''2434561X'' ! 6]) \<noteq> ''valid''"
proof -
  have "issn_report id ''2434561X'' = ''valid''" by code_simp
  from issn_finds_typing_errors [OF this, of 2 "CHR ''5''" 6] show ?thesis by simp
qed

section \<open>Matching\<close>

text \<open>The words that select a skill are searched anywhere, also inside other words.\<close>

lemma words_select_identifier_skills:
  "sk_match (swift_skill quote) ''what is a cubic spline'' \<and> sk_match (vin_skill quote) ''who is kevin''"
  by (simp add: swift_skill_def vin_skill_def any_in_def base_skill_def Let_def) code_simp

end
