(* ===== verification/File_Walk.thy ===== *)
theory File_Walk
  imports Prelude Go_Paths
begin

text \<open>
  The walk of a directory tree (\<open>filepath.WalkDir\<close>) as the searching tools use it, and the contract of a search that stops
  at a number of results. A visitor that answers \<open>SkipDir\<close> for a file ends the walk of the directory of that file only; the
  walk goes on in the other directories.
\<close>

section \<open>Trees and the walk\<close>

text \<open>
  What lies below a path: a file with its content, \<open>None\<close> for one that cannot be read (a broken link, a link to a directory),
  or a directory with its entries in the order of their names. A directory that cannot be read shows no entries.
\<close>

datatype node = Plain "string option" | Folder entries
and entries = NoEntries | Entry string node entries

type_synonym 's visitor = "string list \<Rightarrow> string option \<Rightarrow> 's \<Rightarrow> 's \<times> bool"

text \<open>
  The walk below \<open>at\<close>, the names from the root: \<open>skip\<close> tells the names of directories that are left out, \<open>visit\<close> handles a
  file and says whether it answers \<open>SkipDir\<close>.
\<close>

primrec walk :: "(string \<Rightarrow> bool) \<Rightarrow> 's visitor \<Rightarrow> string \<Rightarrow> string list \<Rightarrow> node \<Rightarrow> 's \<Rightarrow> 's \<times> bool"
  and walk_entries :: "(string \<Rightarrow> bool) \<Rightarrow> 's visitor \<Rightarrow> string list \<Rightarrow> entries \<Rightarrow> 's \<Rightarrow> 's" where
  "walk skip visit name here (Plain content) s = visit here content s"
| "walk skip visit name here (Folder es) s =
     (if skip name then (s, False) else (walk_entries skip visit here es s, False))"
| "walk_entries skip visit here NoEntries s = s"
| "walk_entries skip visit here (Entry n t es) s =
     (case walk skip visit n (here @ [n]) t s of
        (s', stopped) \<Rightarrow> if stopped then s' else walk_entries skip visit here es s')"

text \<open>The walk of a root, which may be missing; its directory is left out by its own name, too.\<close>

definition walk_root :: "(string \<Rightarrow> bool) \<Rightarrow> 's visitor \<Rightarrow> string \<Rightarrow> node option \<Rightarrow> 's \<Rightarrow> 's" where
  "walk_root skip visit root tree s =
     (case tree of None \<Rightarrow> s | Some t \<Rightarrow> fst (walk skip visit (base_path root) [] t s))"

text \<open>The path of a file in a root, and its path relative to the root.\<close>

definition path_in :: "string \<Rightarrow> string list \<Rightarrow> string" where
  "path_in root here = (if here = [] then root else join_path (root # here))"

definition rel_name :: "string list \<Rightarrow> string" where
  "rel_name here = (if here = [] then ''.'' else join ''/'' here)"

section \<open>What a walk can reach\<close>

primrec node_files :: "(string \<Rightarrow> bool) \<Rightarrow> string \<Rightarrow> string list \<Rightarrow> node \<Rightarrow> (string list \<times> string option) list"
  and entry_files :: "(string \<Rightarrow> bool) \<Rightarrow> string list \<Rightarrow> entries \<Rightarrow> (string list \<times> string option) list" where
  "node_files skip name here (Plain content) = [(here, content)]"
| "node_files skip name here (Folder es) = (if skip name then [] else entry_files skip here es)"
| "entry_files skip here NoEntries = []"
| "entry_files skip here (Entry n t es) = node_files skip n (here @ [n]) t @ entry_files skip here es"

text \<open>The directories whose entries a walk goes through.\<close>

primrec node_folders :: "(string \<Rightarrow> bool) \<Rightarrow> string \<Rightarrow> node \<Rightarrow> nat"
  and entry_folders :: "(string \<Rightarrow> bool) \<Rightarrow> entries \<Rightarrow> nat" where
  "node_folders skip name (Plain content) = 0"
| "node_folders skip name (Folder es) = (if skip name then 0 else 1 + entry_folders skip es)"
| "entry_folders skip NoEntries = 0"
| "entry_folders skip (Entry n t es) = node_folders skip n t + entry_folders skip es"

section \<open>A search with a limit\<close>

text \<open>Results are added one by one; the one that reaches the limit ends the file.\<close>

fun add_until :: "nat \<Rightarrow> 'a list \<Rightarrow> 'a list \<Rightarrow> 'a list \<times> bool" where
  "add_until limit hits [] = (hits, False)"
| "add_until limit hits (x # xs) =
     (if limit \<le> length (hits @ [x]) then (hits @ [x], True) else add_until limit (hits @ [x]) xs)"

lemma add_until_below: "length hits + length xs < limit \<Longrightarrow> add_until limit hits xs = (hits @ xs, False)"
  by (induction xs arbitrary: hits) auto

lemma add_until_new: "set (fst (add_until limit hits xs)) \<subseteq> set hits \<union> set xs"
proof (induction xs arbitrary: hits)
  case (Cons x xs)
  show ?case using Cons [of "hits @ [x]"] by auto
qed simp

lemma add_until_length:
  "0 < limit \<Longrightarrow> length (fst (add_until limit hits xs)) \<le>
     max (limit - 1) (length hits) + (if snd (add_until limit hits xs) then 1 else 0)"
proof (induction xs arbitrary: hits)
  case (Cons x xs)
  show ?case using Cons.IH [of "hits @ [x]"] Cons.prems by (cases "limit \<le> length (hits @ [x])") auto
qed simp

text \<open>
  The contract of a searching visitor: \<open>found\<close> is what a file contributes, and the visitor adds it to the results until
  there are \<open>limit\<close> of them; \<open>results\<close> reads the results in the state of the visitor.
\<close>

locale limited_search =
  fixes found :: "string list \<Rightarrow> string option \<Rightarrow> 'a list"
    and visit :: "nat \<Rightarrow> 's visitor"
    and results :: "'s \<Rightarrow> 'a list"
  assumes visit_adds: "map_prod results id (visit limit here content s) = add_until limit (results s) (found here content)"
begin

definition all_found :: "(string list \<times> string option) list \<Rightarrow> 'a list" where
  "all_found files = concat (map (\<lambda>(here, content). found here content) files)"

lemma all_found_simps [simp]:
  "all_found [] = []" "all_found (f # fs) = found (fst f) (snd f) @ all_found fs"
  "all_found (fs @ gs) = all_found fs @ all_found gs"
  by (simp_all add: all_found_def case_prod_unfold)

lemma visit_results: "results (fst (visit limit here content s)) = fst (add_until limit (results s) (found here content))"
  using visit_adds [of limit here content s] by (metis fst_map_prod)

lemma visit_stops: "snd (visit limit here content s) = snd (add_until limit (results s) (found here content))"
  using visit_adds [of limit here content s] by (metis id_apply snd_map_prod)

definition visit_files :: "nat \<Rightarrow> (string list \<times> string option) list \<Rightarrow> 's \<Rightarrow> 's" where
  "visit_files limit files s = foldl (\<lambda>s (here, content). fst (visit limit here content s)) s files"

lemma visit_files_simps [simp]:
  "visit_files limit [] s = s"
  "visit_files limit (f # fs) s = visit_files limit fs (fst (visit limit (fst f) (snd f) s))"
  "visit_files limit (fs @ gs) s = visit_files limit gs (visit_files limit fs s)"
  by (simp_all add: visit_files_def case_prod_unfold)

lemma visit_files_results:
  "length (results s) + length (all_found fs) < limit \<Longrightarrow> results (visit_files limit fs s) = results s @ all_found fs"
  by (induction fs arbitrary: s) (simp_all add: visit_results add_until_below)

text \<open>Below the limit the walk is a visit of every file in turn.\<close>

lemma below_limit:
  "length (results s) + length (all_found (node_files skip name here t)) < limit \<Longrightarrow>
     walk skip (visit limit) name here t s = (visit_files limit (node_files skip name here t) s, False)"
  "length (results s) + length (all_found (entry_files skip here es)) < limit \<Longrightarrow>
     walk_entries skip (visit limit) here es s = visit_files limit (entry_files skip here es) s"
proof (induction t and es arbitrary: name here s and here s)
  case (Plain content)
  then show ?case by (intro prod_eqI) (simp_all add: visit_stops add_until_below)
next
  case (Folder es)
  then show ?case using Folder.IH [of s here] by (cases "skip name") simp_all
next
  case (Entry n t es)
  let ?s = "visit_files limit (node_files skip n (here @ [n]) t) s"
  from Entry.prems have l: "length (results s) + length (all_found (node_files skip n (here @ [n]) t)) < limit" by simp
  from Entry.IH(2) [of ?s here] Entry.prems visit_files_results [OF l] Entry.IH(1) [OF l] show ?case by simp
qed simp_all

lemma below_limit_results:
  "length (results s) + length (all_found (node_files skip name here t)) < limit \<Longrightarrow>
     results (fst (walk skip (visit limit) name here t s)) = results s @ all_found (node_files skip name here t)"
  by (simp add: below_limit(1) visit_files_results)

lemma nothing_made_up:
  "set (results (fst (walk skip (visit limit) name here t s))) \<subseteq> set (results s) \<union> set (all_found (node_files skip name here t))"
  "set (results (walk_entries skip (visit limit) here es s)) \<subseteq> set (results s) \<union> set (all_found (entry_files skip here es))"
proof (induction t and es arbitrary: name here s and here s)
  case (Plain content)
  show ?case using add_until_new [of limit "results s" "found here content"] by (simp add: visit_results)
next
  case (Entry n t es)
  obtain s' stopped where w: "walk skip (visit limit) n (here @ [n]) t s = (s', stopped)" by fastforce
  from Entry.IH(1) [of n "here @ [n]" s] w
  have "set (results s') \<subseteq> set (results s) \<union> set (all_found (node_files skip n (here @ [n]) t))" by simp
  with Entry.IH(2) [of here s'] w show ?case by auto
qed simp_all

text \<open>The limit can be passed, by one result in every directory.\<close>

lemma above_limit:
  "0 < limit \<Longrightarrow> length (results (fst (walk skip (visit limit) name here t s))) \<le>
     max (limit - 1) (length (results s)) + node_folders skip name t +
       (if snd (walk skip (visit limit) name here t s) then 1 else 0)"
  "0 < limit \<Longrightarrow> length (results (walk_entries skip (visit limit) here es s)) \<le>
     max (limit - 1) (length (results s)) + entry_folders skip es + 1"
proof (induction t and es arbitrary: name here s and here s)
  case (Plain content)
  show ?case using add_until_length [OF Plain, of "results s" "found here content"]
    by (simp add: visit_results visit_stops)
next
  case (Folder es)
  then show ?case using Folder.IH [of here s] by simp
next
  case (Entry n t es)
  obtain s' stopped where w: "walk skip (visit limit) n (here @ [n]) t s = (s', stopped)" by fastforce
  from Entry.IH(1) [OF Entry.prems, of n "here @ [n]" s] w
  have "length (results s') \<le> max (limit - 1) (length (results s)) + node_folders skip n t + (if stopped then 1 else 0)"
    by simp
  with Entry.IH(2) [OF Entry.prems, of here s'] w show ?case by auto
qed simp_all

end

end
