(* ===== verification/Search_Tools.thy ===== *)
theory Search_Tools
  imports File_Walk Delegation "HOL-Library.List_Lexorder" "HOL-Library.Char_ord" "HOL-Library.Product_Lexorder"
begin

text \<open>
  The search tools of an agent: \<open>glob\<close> (\<open>internal/tool/builtin/glob.go\<close>) and \<open>grep\<close> (\<open>internal/tool/builtin/grep.go\<close>) with its
  two ways, ripgrep and the walk. The expressions that the tools build from a glob pattern are lists of elements with their
  meaning as expressions; one character of a path is one byte. The compiler for the expression of a caller, ripgrep, the
  quoting of a string and the file system are fields of an environment.
\<close>

record search_env =
  se_cwd :: string
  se_home :: "string option"
  se_tree :: "string \<Rightarrow> node option"
  se_is_dir :: "string \<Rightarrow> bool"
  se_quote :: "string \<Rightarrow> string"
  se_regex :: "string \<Rightarrow> string + (string \<Rightarrow> bool)"
  se_ripgrep :: "(string list \<Rightarrow> string \<times> bool) option"

datatype search_error = NoPattern | RootOutside string string | BadRegex string

definition newline :: char where
  "newline = CHR 0x0A"

definition trim_newlines :: "string \<Rightarrow> string" where
  "trim_newlines s = rev (dropWhile (\<lambda>c. c = newline) (rev s))"

section \<open>Parameters\<close>

definition arg_limit :: "go_params \<Rightarrow> string \<Rightarrow> nat \<Rightarrow> nat" where
  "arg_limit params key fallback =
     (case params key of
        Some (GoInt v) \<Rightarrow> if 0 < v then nat v else fallback
      | Some (GoFloat r) \<Rightarrow> if 0 < r then nat \<lfloor>r\<rfloor> else fallback
      | _ \<Rightarrow> fallback)"

definition search_root :: "search_env \<Rightarrow> go_params \<Rightarrow> string" where
  "search_root env params =
     (let start = text_param params ''path'' in expand_home (se_home env) (if start = [] then ''.'' else start))"

text \<open>The sandbox of the task, empty when it has none.\<close>

definition check_sandbox :: "search_env \<Rightarrow> string \<Rightarrow> string \<Rightarrow> search_error option" where
  "check_sandbox env sandbox start =
     (let sandbox_abs = abs_path (se_cwd env) sandbox; root_abs = abs_path (se_cwd env) start
      in if sandbox \<noteq> [] \<and> \<not> inside sandbox_abs root_abs then Some (RootOutside root_abs sandbox_abs) else None)"

section \<open>Glob patterns\<close>

datatype glob_item =
    Literal char \<comment> \<open>an escaped or plain character\<close>
  | AnyOne \<comment> \<open>\<open>[^/]\<close>\<close>
  | AnySegment \<comment> \<open>\<open>[^/]*\<close>\<close>
  | AnyText \<comment> \<open>\<open>.*\<close>\<close>
  | AnyFolders \<comment> \<open>\<open>(?:.*/)?\<close>\<close>

fun compile_globstar :: "string \<Rightarrow> glob_item list" where
  "compile_globstar [] = []"
| "compile_globstar (c # cs) =
     (if c = CHR ''*'' then
        (case cs of
           d # ds \<Rightarrow>
             if d = CHR ''*'' then
               (case ds of
                  e # es \<Rightarrow> if e = slash then AnyFolders # compile_globstar es else AnyText # compile_globstar ds
                | [] \<Rightarrow> [AnyText])
             else AnySegment # compile_globstar cs
         | [] \<Rightarrow> [AnySegment])
      else if c = CHR ''?'' then AnyOne # compile_globstar cs
      else Literal c # compile_globstar cs)"

text \<open>\<open>compileGlob\<close> of grep: no \<open>**\<close>, and no expression for the empty pattern.\<close>

definition compile_glob :: "string \<Rightarrow> glob_item list option" where
  "compile_glob pattern =
     (if pattern = [] then None
      else Some (map (\<lambda>c. if c = CHR ''*'' then AnySegment else if c = CHR ''?'' then AnyOne else Literal c) pattern))"

definition item_weight :: "glob_item \<Rightarrow> nat" where
  "item_weight i = (if i = AnyFolders then 3 else 1)"

text \<open>Whether the elements match the whole text; a dot of an expression does not match a line break.\<close>

function glob_match :: "glob_item list \<Rightarrow> string \<Rightarrow> bool" where
  "glob_match [] s = (s = [])"
| "glob_match (Literal c # ps) s = (case s of [] \<Rightarrow> False | d # s' \<Rightarrow> c = d \<and> glob_match ps s')"
| "glob_match (AnyOne # ps) s = (case s of [] \<Rightarrow> False | d # s' \<Rightarrow> d \<noteq> slash \<and> glob_match ps s')"
| "glob_match (AnySegment # ps) s =
     (glob_match ps s \<or> (case s of [] \<Rightarrow> False | d # s' \<Rightarrow> d \<noteq> slash \<and> glob_match (AnySegment # ps) s'))"
| "glob_match (AnyText # ps) s =
     (glob_match ps s \<or> (case s of [] \<Rightarrow> False | d # s' \<Rightarrow> d \<noteq> newline \<and> glob_match (AnyText # ps) s'))"
| "glob_match (AnyFolders # ps) s = (glob_match ps s \<or> glob_match (AnyText # Literal slash # ps) s)"
  by pat_completeness auto
termination
  by (relation "measures [\<lambda>(ps, s). sum_list (map item_weight ps), \<lambda>(ps, s). length s]") (auto simp: item_weight_def)

declare glob_match.simps(4,5) [simp del]

section \<open>glob\<close>

definition skipped_folder :: "string \<Rightarrow> bool" where
  "skipped_folder base \<longleftrightarrow> base \<in> {''.git'', ''node_modules'', ''vendor'', ''dist''}"

definition glob_visit :: "glob_item list \<Rightarrow> string \<Rightarrow> nat \<Rightarrow> string list visitor" where
  "glob_visit matcher start limit here content matches =
     (if glob_match matcher (rel_name here) then
        let matches' = matches @ [path_in start here] in (matches', limit \<le> length matches')
      else (matches, False))"

definition glob_found :: "glob_item list \<Rightarrow> string \<Rightarrow> string list \<Rightarrow> string option \<Rightarrow> string list" where
  "glob_found matcher start here content = (if glob_match matcher (rel_name here) then [path_in start here] else [])"

definition glob_walk :: "search_env \<Rightarrow> string \<Rightarrow> string \<Rightarrow> nat \<Rightarrow> string list" where
  "glob_walk env pattern start limit =
     walk_root skipped_folder (glob_visit (compile_globstar pattern) start limit) start (se_tree env start) []"

definition glob_line :: "search_env \<Rightarrow> string \<Rightarrow> string" where
  "glob_line env m = (if se_is_dir env m then ''[DIR]  '' @ m else ''       '' @ m) @ [newline]"

definition glob_report :: "search_env \<Rightarrow> string \<Rightarrow> string \<Rightarrow> string list \<Rightarrow> string" where
  "glob_report env pattern start matches =
     (if matches = [] then ''(no files matching '' @ se_quote env pattern @ '' under '' @ start @ '')''
      else trim_newlines (itoa (int (length matches)) @ '' file(s) matching '' @ se_quote env pattern @ '':'' @ [newline] @
             concat (map (glob_line env) (sort matches))))"

definition glob_execute :: "search_env \<Rightarrow> string \<Rightarrow> go_params \<Rightarrow> search_error + string" where
  "glob_execute env sandbox params =
     (let pattern = text_param params ''pattern''; start = search_root env params
      in if pattern = [] then Inl NoPattern
         else case check_sandbox env sandbox start of
             Some e \<Rightarrow> Inl e
           | None \<Rightarrow>
               Inr (glob_report env pattern start (glob_walk env pattern start (arg_limit params ''max_results'' 200))))"

interpretation glob_search: limited_search "glob_found matcher start" "glob_visit matcher start" "\<lambda>s. s" for matcher start
  by unfold_locales (simp add: glob_visit_def glob_found_def Let_def)

section \<open>grep\<close>

text \<open>File, line number and trimmed line.\<close>

type_synonym grep_hit = "string \<times> nat \<times> string"

definition likely_binary :: "string \<Rightarrow> bool" where
  "likely_binary p \<longleftrightarrow> to_lower (ext_path p) \<in> set
     [''.png'', ''.jpg'', ''.jpeg'', ''.gif'', ''.bmp'', ''.ico'', ''.webp'',
      ''.pdf'', ''.doc'', ''.docx'', ''.xls'', ''.xlsx'',
      ''.zip'', ''.tar'', ''.gz'', ''.tgz'', ''.bz2'', ''.xz'',
      ''.exe'', ''.dll'', ''.so'', ''.dylib'', ''.a'', ''.o'',
      ''.mp3'', ''.mp4'', ''.mov'', ''.avi'', ''.mkv'', ''.wav'',
      ''.db'', ''.sqlite'', ''.sqlite3'',
      ''.class'', ''.jar'', ''.war'']"

definition grep_skipped :: "string \<Rightarrow> bool" where
  "grep_skipped base \<longleftrightarrow> base \<in> {''.git'', ''node_modules'', ''vendor'', ''dist'', ''build''}"

fun grep_lines :: "(string \<Rightarrow> bool) \<Rightarrow> string \<Rightarrow> nat \<Rightarrow> nat \<Rightarrow> string list \<Rightarrow> grep_hit list \<Rightarrow> grep_hit list \<times> bool" where
  "grep_lines matches p limit i [] hits = (hits, False)"
| "grep_lines matches p limit i (line # rest) hits =
     (if matches line then
        let hits' = hits @ [(p, i + 1, trim_space line)]
        in if limit \<le> length hits' then (hits', True) else grep_lines matches p limit (i + 1) rest hits'
      else grep_lines matches p limit (i + 1) rest hits)"

definition glob_allows :: "glob_item list option \<Rightarrow> string \<Rightarrow> bool" where
  "glob_allows globs name = (case globs of None \<Rightarrow> True | Some items \<Rightarrow> glob_match items name)"

text \<open>Whether a file is looked at: its name fits the filter and its extension is not one of a binary file.\<close>

definition grep_looks_at :: "glob_item list option \<Rightarrow> string \<Rightarrow> string list \<Rightarrow> bool" where
  "grep_looks_at globs start here \<longleftrightarrow>
     glob_allows globs (if here = [] then base_path start else last here) \<and> \<not> likely_binary (path_in start here)"

definition grep_visit ::
  "(string \<Rightarrow> bool) \<Rightarrow> glob_item list option \<Rightarrow> string \<Rightarrow> nat \<Rightarrow> (grep_hit list \<times> nat) visitor" where
  "grep_visit matches globs start limit here content =
     (\<lambda>(hits, visited).
        if \<not> grep_looks_at globs start here then ((hits, visited), False)
        else case content of
            None \<Rightarrow> ((hits, visited + 1), False)
          | Some text \<Rightarrow>
              (case grep_lines matches (path_in start here) limit 0 (split_on newline text) hits of
                 (hits', stopped) \<Rightarrow> ((hits', visited + 1), stopped)))"

definition grep_report :: "grep_hit list \<Rightarrow> nat \<Rightarrow> string" where
  "grep_report hits visited =
     (if hits = [] then ''(no matches in '' @ itoa (int visited) @ '' files)''
      else trim_newlines (itoa (int (length hits)) @ '' match(es) in '' @ itoa (int visited) @ '' file(s) walked:'' @ [newline] @
             concat (map (\<lambda>(file, line, text). file @ '':'' @ itoa (int line) @ '': '' @ text @ [newline])
               (sort_key (\<lambda>(file, line, text). (file, line)) hits))))"

definition grep_walk :: "search_env \<Rightarrow> (string \<Rightarrow> bool) \<Rightarrow> string \<Rightarrow> string \<Rightarrow> nat \<Rightarrow> grep_hit list \<times> nat" where
  "grep_walk env matches start globs limit =
     walk_root grep_skipped (grep_visit matches (compile_glob globs) start limit) start (se_tree env start) ([], 0)"

definition grep_go_fallback :: "search_env \<Rightarrow> string \<Rightarrow> string \<Rightarrow> string \<Rightarrow> bool \<Rightarrow> nat \<Rightarrow> search_error + string" where
  "grep_go_fallback env pattern start globs ignore_case limit =
     (case se_regex env ((if ignore_case then ''(?i)'' else []) @ pattern) of
        Inl e \<Rightarrow> Inl (BadRegex e)
      | Inr matches \<Rightarrow> (case grep_walk env matches start globs limit of (hits, visited) \<Rightarrow> Inr (grep_report hits visited)))"

definition ripgrep_args :: "string \<Rightarrow> string \<Rightarrow> string \<Rightarrow> bool \<Rightarrow> nat \<Rightarrow> string list" where
  "ripgrep_args pattern path globs ignore_case limit =
     [''--line-number'', ''--no-heading'', ''--color=never'', ''--max-count'', itoa (int limit)] @
     (if ignore_case then [''-i''] else []) @ (if globs \<noteq> [] then [''-g'', globs] else []) @ [pattern, path]"

text \<open>\<open>None\<close> for a failure, after which the walk is tried; the flag of a run tells that it ended with an error.\<close>

definition run_ripgrep :: "(string list \<Rightarrow> string \<times> bool) \<Rightarrow> string list \<Rightarrow> string option" where
  "run_ripgrep rg args =
     (case rg args of
        (out, failed) \<Rightarrow>
          if trim_space out = [] then Some ''(no matches)'' else if failed then None else Some (trim_newlines out))"

definition grep_execute :: "search_env \<Rightarrow> string \<Rightarrow> go_params \<Rightarrow> search_error + string" where
  "grep_execute env sandbox params =
     (let pattern = text_param params ''pattern''; path = search_root env params; globs = text_param params ''glob'';
          ignore_case = (params ''ignore_case'' = Some (GoBool True)); limit = arg_limit params ''max_results'' 100
      in if pattern = [] then Inl NoPattern
         else case check_sandbox env sandbox path of
             Some e \<Rightarrow> Inl e
           | None \<Rightarrow>
               (case se_ripgrep env of
                  None \<Rightarrow> grep_go_fallback env pattern path globs ignore_case limit
                | Some rg \<Rightarrow>
                    (case run_ripgrep rg (ripgrep_args pattern path globs ignore_case limit) of
                       Some out \<Rightarrow> Inr out
                     | None \<Rightarrow> grep_go_fallback env pattern path globs ignore_case limit)))"

definition line_hits :: "(string \<Rightarrow> bool) \<Rightarrow> string \<Rightarrow> nat \<Rightarrow> string list \<Rightarrow> grep_hit list" where
  "line_hits matches p i ls = [(p, j + 1, trim_space l). (j, l) \<leftarrow> enumerate i ls, matches l]"

definition grep_found ::
  "(string \<Rightarrow> bool) \<Rightarrow> glob_item list option \<Rightarrow> string \<Rightarrow> string list \<Rightarrow> string option \<Rightarrow> grep_hit list" where
  "grep_found matches globs start here content =
     (case content of
        None \<Rightarrow> []
      | Some text \<Rightarrow>
          if grep_looks_at globs start here then line_hits matches (path_in start here) 0 (split_on newline text) else [])"

lemma grep_lines_add: "grep_lines matches p limit i ls hits = add_until limit hits (line_hits matches p i ls)"
  by (induction matches p limit i ls hits rule: grep_lines.induct) (auto simp: line_hits_def Let_def)

interpretation grep_search: limited_search "grep_found matches globs start" "grep_visit matches globs start" fst
  for matches globs start
  by unfold_locales
    (auto simp: grep_visit_def grep_found_def grep_lines_add case_prod_unfold map_prod_def split: option.splits)

section \<open>What a glob pattern means\<close>

lemma match_segment: "slash \<notin> set u \<Longrightarrow> glob_match ps s \<Longrightarrow> glob_match (AnySegment # ps) (u @ s)"
  by (induction u) (auto simp: glob_match.simps(4,5) split: list.splits)

lemma match_text: "newline \<notin> set u \<Longrightarrow> glob_match ps s \<Longrightarrow> glob_match (AnyText # ps) (u @ s)"
  by (induction u) (auto simp: glob_match.simps(4,5) split: list.splits)

lemma match_segment_iff:
  "glob_match (AnySegment # ps) s \<longleftrightarrow> (\<exists>u v. s = u @ v \<and> slash \<notin> set u \<and> glob_match ps v)"
proof
  show "glob_match (AnySegment # ps) s \<Longrightarrow> \<exists>u v. s = u @ v \<and> slash \<notin> set u \<and> glob_match ps v"
  proof (induction s)
    case Nil
    then show ?case by (simp add: glob_match.simps(4,5))
  next
    case (Cons d s)
    show ?case
    proof (cases "glob_match ps (d # s)")
      case True
      then show ?thesis by (intro exI [of _ "[]"] exI [of _ "d # s"]) simp
    next
      case False
      with Cons obtain u v where "s = u @ v" "slash \<notin> set u" "glob_match ps v" "d \<noteq> slash" by (auto simp: glob_match.simps(4))
      then show ?thesis by (intro exI [of _ "d # u"] exI [of _ v]) auto
    qed
  qed
qed (auto simp: match_segment)

lemma match_text_iff:
  "glob_match (AnyText # ps) s \<longleftrightarrow> (\<exists>u v. s = u @ v \<and> newline \<notin> set u \<and> glob_match ps v)"
proof
  show "glob_match (AnyText # ps) s \<Longrightarrow> \<exists>u v. s = u @ v \<and> newline \<notin> set u \<and> glob_match ps v"
  proof (induction s)
    case Nil
    then show ?case by (simp add: glob_match.simps(4,5))
  next
    case (Cons d s)
    show ?case
    proof (cases "glob_match ps (d # s)")
      case True
      then show ?thesis by (intro exI [of _ "[]"] exI [of _ "d # s"]) simp
    next
      case False
      with Cons obtain u v where "s = u @ v" "newline \<notin> set u" "glob_match ps v" "d \<noteq> newline" by (auto simp: glob_match.simps(5))
      then show ?thesis by (intro exI [of _ "d # u"] exI [of _ v]) auto
    qed
  qed
qed (auto simp: match_text)

lemma match_literal_iff: "glob_match (Literal c # ps) s \<longleftrightarrow> (\<exists>v. s = c # v \<and> glob_match ps v)"
  by (auto split: list.splits)

lemma match_literals: "glob_match (map Literal w @ ps) s \<longleftrightarrow> (\<exists>v. s = w @ v \<and> glob_match ps v)"
  by (induction w arbitrary: s) (auto split: list.splits)

lemma match_literal_text: "glob_match (map Literal w) s \<longleftrightarrow> s = w"
  using match_literals [of w "[]" s] by auto

text \<open>Everything that has no line break is folders and a last name.\<close>

lemma match_any_path:
  assumes "newline \<notin> set s"
  shows "glob_match (AnyFolders # AnySegment # map Literal w) s \<longleftrightarrow> suffix w s"
proof
  have segment: "suffix w v" if "glob_match (AnySegment # map Literal w) v" for v
    using that by (auto simp: match_segment_iff match_literal_text suffix_def)
  assume "glob_match (AnyFolders # AnySegment # map Literal w) s"
  then consider "glob_match (AnySegment # map Literal w) s"
    | "glob_match (AnyText # Literal slash # AnySegment # map Literal w) s" by auto
  then show "suffix w s"
  proof cases
    case 2
    then obtain u v where "s = u @ slash # v" "glob_match (AnySegment # map Literal w) v"
      by (auto simp: match_text_iff match_literal_iff simp del: glob_match.simps(2))
    with segment [of v] show ?thesis by (auto simp: suffix_def)
  qed (rule segment)
next
  assume "suffix w s"
  then obtain u where s: "s = u @ w" by (auto simp: suffix_def)
  show "glob_match (AnyFolders # AnySegment # map Literal w) s"
  proof (cases "slash \<in> set u")
    case False
    then show ?thesis using s by (simp add: match_segment match_literal_text)
  next
    case True
    then obtain a b where u: "u = a @ slash # b" "slash \<notin> set b" by (metis split_list_last)
    have "glob_match (AnySegment # map Literal w) (b @ w)" by (rule match_segment [OF u(2)]) (simp add: match_literal_text)
    moreover have "newline \<notin> set a" using assms s u by simp
    ultimately have "glob_match (AnyText # Literal slash # AnySegment # map Literal w) (a @ slash # b @ w)"
      by (intro match_text) simp_all
    then show ?thesis using s u by simp
  qed
qed

lemma compile_plain:
  assumes "CHR ''*'' \<notin> set w" "CHR ''?'' \<notin> set w"
  shows "compile_globstar w = map Literal w"
  using assms by (induction w) auto

text \<open>A pattern of an extension, like \<open>**/*.go\<close>, means the paths that end with it.\<close>

lemma suffix_pattern:
  assumes "CHR ''*'' \<notin> set w" "CHR ''?'' \<notin> set w" "newline \<notin> set s"
  shows "glob_match (compile_globstar (''**/*'' @ w)) s \<longleftrightarrow> has_suffix s w"
proof -
  have "compile_globstar (''**/*'' @ w) = AnyFolders # AnySegment # map Literal w"
    using assms(1,2) by (cases w) (auto simp: slash_def compile_plain)
  then show ?thesis using match_any_path [OF assms(3)] by (simp add: has_suffix_iff)
qed

section \<open>What the searches find\<close>

definition files_below :: "(string \<Rightarrow> bool) \<Rightarrow> string \<Rightarrow> node \<Rightarrow> (string list \<times> string option) list" where
  "files_below skip start t = node_files skip (base_path start) [] t"

lemma glob_walk_below:
  assumes "se_tree env start = Some t" "length (glob_search.all_found (compile_globstar pattern) start (files_below skipped_folder start t)) < limit"
  shows "glob_walk env pattern start limit = glob_search.all_found (compile_globstar pattern) start (files_below skipped_folder start t)"
  using assms glob_search.below_limit_results [of "[]"] by (simp add: glob_walk_def walk_root_def files_below_def)

lemma glob_found_paths:
  "glob_search.all_found matcher start files =
     map (\<lambda>(here, c). path_in start here) (filter (\<lambda>(here, c). glob_match matcher (rel_name here)) files)"
  unfolding glob_search.all_found_def by (induction files) (auto simp: glob_found_def)

text \<open>
  A call of \<open>glob\<close> with a pattern like \<open>**/*.go\<close> on a directory inside the sandbox lists, sorted, exactly the files below it
  whose path ends with the rest of the pattern, at any depth, when these are fewer than \<open>max_results\<close>; the four excluded
  directories are left out. This covers every tree whose file names have no line break.
\<close>

lemma glob_lists_files_by_suffix:
  assumes "text_param params ''pattern'' = ''**/*'' @ w" "CHR ''*'' \<notin> set w" "CHR ''?'' \<notin> set w"
    and "search_root env params = start" "check_sandbox env sandbox start = None" "se_tree env start = Some t"
    and names: "\<forall>(here, c) \<in> set (files_below skipped_folder start t). newline \<notin> set (rel_name here)"
    and few: "length (filter (\<lambda>(here, c). has_suffix (rel_name here) w) (files_below skipped_folder start t)) <
                arg_limit params ''max_results'' 200"
  shows "glob_execute env sandbox params =
    Inr (glob_report env (''**/*'' @ w) start
      (map (\<lambda>(here, c). path_in start here)
        (filter (\<lambda>(here, c). has_suffix (rel_name here) w) (files_below skipped_folder start t))))"
proof -
  have "filter (\<lambda>(here, c). glob_match (compile_globstar (''**/*'' @ w)) (rel_name here)) (files_below skipped_folder start t) =
      filter (\<lambda>(here, c). has_suffix (rel_name here) w) (files_below skipped_folder start t)"
  proof (rule filter_cong [OF refl])
    fix f
    assume f: "f \<in> set (files_below skipped_folder start t)"
    obtain here c where e: "f = (here, c)" by fastforce
    from names f e have "newline \<notin> set (rel_name here)" by fastforce
    from suffix_pattern [OF assms(2,3) this] show
      "(case f of (here, c) \<Rightarrow> glob_match (compile_globstar (''**/*'' @ w)) (rel_name here)) =
       (case f of (here, c) \<Rightarrow> has_suffix (rel_name here) w)" by (simp only: e case_prod_conv)
  qed
  then have found: "glob_search.all_found (compile_globstar (''**/*'' @ w)) start (files_below skipped_folder start t) =
      map (\<lambda>(here, c). path_in start here)
        (filter (\<lambda>(here, c). has_suffix (rel_name here) w) (files_below skipped_folder start t))"
    by (simp only: glob_found_paths)
  have "glob_walk env (''**/*'' @ w) start (arg_limit params ''max_results'' 200) =
      glob_search.all_found (compile_globstar (''**/*'' @ w)) start (files_below skipped_folder start t)"
    by (rule glob_walk_below [OF assms(6)]) (use few found in simp)
  with assms(1,4,5) found show ?thesis by (simp add: glob_execute_def Let_def)
qed

text \<open>
  The number of results of \<open>glob\<close> is not bounded by \<open>max_results\<close>: every directory may add one more. Nothing but matching files
  is listed.
\<close>

lemma glob_limit_per_folder:
  assumes "0 < limit" "se_tree env start = Some t"
  shows "length (glob_walk env pattern start limit) \<le> limit + node_folders skipped_folder (base_path start) t"
    and "set (glob_walk env pattern start limit) \<subseteq>
      {path_in start here | here c. (here, c) \<in> set (files_below skipped_folder start t) \<and>
         glob_match (compile_globstar pattern) (rel_name here)}"
proof -
  let ?w = "walk skipped_folder (glob_visit (compile_globstar pattern) start limit) (base_path start) [] t []"
  have "length (fst ?w) \<le> limit - 1 + node_folders skipped_folder (base_path start) t + (if snd ?w then 1 else 0)"
    using glob_search.above_limit(1) [OF assms(1), where s = "[]" and name = "base_path start"] by simp
  with assms show "length (glob_walk env pattern start limit) \<le> limit + node_folders skipped_folder (base_path start) t"
    by (simp add: glob_walk_def walk_root_def split: if_splits)
  have "set (fst ?w) \<subseteq> set (glob_search.all_found (compile_globstar pattern) start (files_below skipped_folder start t))"
    using glob_search.nothing_made_up(1) [where s = "[]" and name = "base_path start"] by (simp add: files_below_def)
  then have found: "x \<in> set (glob_search.all_found (compile_globstar pattern) start (files_below skipped_folder start t))"
    if "x \<in> set (glob_walk env pattern start limit)" for x using that assms(2) by (auto simp: glob_walk_def walk_root_def)
  show "set (glob_walk env pattern start limit) \<subseteq> {path_in start here | here c.
      (here, c) \<in> set (files_below skipped_folder start t) \<and> glob_match (compile_globstar pattern) (rel_name here)}"
  proof
    fix x
    assume "x \<in> set (glob_walk env pattern start limit)"
    from found [OF this] obtain here c where "x = path_in start here" "(here, c) \<in> set (files_below skipped_folder start t)"
      "glob_match (compile_globstar pattern) (rel_name here)" by (auto simp: glob_found_paths)
    then show "x \<in> {path_in start here | here c. (here, c) \<in> set (files_below skipped_folder start t) \<and>
        glob_match (compile_globstar pattern) (rel_name here)}" by blast
  qed
qed

text \<open>The number of files that grep has looked at.\<close>

lemma grep_visit_counts:
  "snd (fst (grep_visit matches globs start limit here content s)) = snd s + (if grep_looks_at globs start here then 1 else 0)"
  by (cases s) (auto simp: grep_visit_def split: option.splits prod.splits)

lemma grep_files_counted:
  "snd (grep_search.visit_files matches globs start limit fs s) =
     snd s + length (filter (\<lambda>(here, c). grep_looks_at globs start here) fs)"
  by (induction fs arbitrary: s) (auto simp: grep_visit_counts)

lemma grep_walk_below:
  assumes "se_tree env start = Some t"
    and "length (grep_search.all_found matches (compile_glob globs) start (files_below grep_skipped start t)) < limit"
  shows "grep_walk env matches start globs limit =
    (grep_search.all_found matches (compile_glob globs) start (files_below grep_skipped start t),
     length (filter (\<lambda>(here, c). grep_looks_at (compile_glob globs) start here) (files_below grep_skipped start t)))"
proof -
  have w: "grep_walk env matches start globs limit =
      grep_search.visit_files matches (compile_glob globs) start limit (files_below grep_skipped start t) ([], 0)"
    using assms grep_search.below_limit(1) [of "([], 0)"] by (simp add: grep_walk_def walk_root_def files_below_def)
  show ?thesis unfolding w
    using assms(2) by (intro prod_eqI) (simp_all add: grep_files_counted grep_search.visit_files_results)
qed


section \<open>Examples\<close>

definition demo_project :: node where
  "demo_project = Folder
     (Entry ''lib'' (Folder (Entry ''a.go'' (Plain (Some (''x // TODO''))) NoEntries))
     (Entry ''main.go'' (Plain (Some ''package main''))
     (Entry ''pkg'' (Folder (Entry ''b.go'' (Plain (Some ''y'')) (Entry ''c.go'' (Plain None) NoEntries)))
     (Entry ''vendor'' (Folder (Entry ''v.go'' (Plain (Some ''TODO'')) NoEntries)) NoEntries))))"

definition demo_search_env :: search_env where
  "demo_search_env = \<lparr>se_cwd = ''/w'', se_home = None, se_tree = (\<lambda>p. if p = ''.'' \<or> p = ''vendor'' then Some demo_project else None),
     se_is_dir = (\<lambda>_. False), se_quote = (\<lambda>s. s), se_regex = (\<lambda>e. Inr (\<lambda>l. contains_str l e)), se_ripgrep = None\<rparr>"

definition demo_glob :: go_params where
  "demo_glob = [''pattern'' \<mapsto> GoString ''**/*.go'']"

definition demo_grep :: go_params where
  "demo_grep = [''pattern'' \<mapsto> GoString ''TODO'', ''glob'' \<mapsto> GoString ''*.go'']"

lemma demo_search_parts:
  "text_param demo_glob ''pattern'' = ''**/*'' @ ''.go''" "search_root demo_search_env demo_glob = ''.''"
  "text_param demo_grep ''pattern'' = ''TODO''" "text_param demo_grep ''glob'' = ''*.go''"
  "search_root demo_search_env demo_grep = ''.''" "check_sandbox demo_search_env [] ''.'' = None"
  "arg_limit demo_glob ''max_results'' 200 = 200" "arg_limit demo_grep ''max_results'' 100 = 100"
  by (code_simp+)

lemma demo_glob_files:
  "filter (\<lambda>(here, c). has_suffix (rel_name here) ''.go'') (files_below skipped_folder ''.'' demo_project) =
     [([''lib'', ''a.go''], Some ''x // TODO''), ([''main.go''], Some ''package main''),
      ([''pkg'', ''b.go''], Some ''y''), ([''pkg'', ''c.go''], None)]"
  by code_simp

lemma glob_lists_files_by_suffix_witness:
  "glob_execute demo_search_env [] demo_glob =
     Inr (glob_report demo_search_env ''**/*.go'' ''.'' (map (path_in ''.'')
       [[''lib'', ''a.go''], [''main.go''], [''pkg'', ''b.go''], [''pkg'', ''c.go'']]))"
proof -
  have tree: "se_tree demo_search_env ''.'' = Some demo_project" by (simp add: demo_search_env_def)
  have plain: "CHR ''*'' \<notin> set ''.go''" "CHR ''?'' \<notin> set ''.go''" by simp_all
  have names: "\<forall>(here, c) \<in> set (files_below skipped_folder ''.'' demo_project). newline \<notin> set (rel_name here)" by code_simp
  from glob_lists_files_by_suffix [OF demo_search_parts(1) plain demo_search_parts(2,6) tree names] show ?thesis
    by (simp add: demo_glob_files demo_search_parts(7))
qed


text \<open>A limit of one gives two results, and a root with the name of an excluded directory gives none.\<close>

lemma glob_limit_overrun:
  "glob_walk demo_search_env ''**/*.go'' ''.'' 1 = [''lib/a.go'', ''main.go'']"
  by code_simp

lemma glob_of_excluded_root: "glob_walk demo_search_env ''**/*.go'' ''vendor'' 200 = []"
  by code_simp

text \<open>A directory of the sandbox whose name begins with two dots is taken for one outside.\<close>

lemma dotted_folder_refused:
  "check_sandbox demo_search_env ''/w'' ''/w/..cache'' = Some (RootOutside ''/w/..cache'' ''/w'')"
  by code_simp

end
