(* ===== verification/Scan_Tools.thy ===== *)
theory Scan_Tools
  imports Search_Tools
begin

text \<open>
  Two tools on top of the walk: \<open>codesearch\<close> (\<open>internal/tool/builtin/codesearch.go\<close>), which answers with the declaration around
  a match, and \<open>secret_scan\<close> (\<open>internal/tool/builtin/secret_scan.go\<close>). Their constant expressions are written out as texts; what
  a compiled expression matches is a field of the environment.
\<close>

record scan_env = search_env +
  sc_matches :: "string \<Rightarrow> string \<Rightarrow> bool"
  sc_submatch :: "string \<Rightarrow> string \<Rightarrow> string list option"

definition backslash :: string where
  "backslash = [CHR 0x5C]"

lemma map_prod_same [simp]: "map_prod (\<lambda>s. s) id p = p"
  by (cases p) simp

section \<open>codesearch\<close>

text \<open>File, line of the declaration, its name and its lines.\<close>

type_synonym code_hit = "string \<times> nat \<times> string \<times> string"

definition lang_exts :: "string \<Rightarrow> string list" where
  "lang_exts lang =
     (if lang = ''go'' then [''.go'']
      else if lang = ''ts'' then [''.ts'', ''.tsx'']
      else if lang = ''js'' then [''.js'', ''.jsx'', ''.mjs'', ''.cjs'']
      else if lang = ''py'' then [''.py'']
      else if lang = ''rs'' then [''.rs'']
      else if lang = ''java'' then [''.java'']
      else [''.go''])"

definition re_spaces :: string where
  "re_spaces = backslash @ ''s+''"

definition re_indent :: string where
  "re_indent = ''^'' @ backslash @ ''s*''"

definition re_word :: string where
  "re_word = backslash @ ''w+''"

definition func_decl_pattern :: "string \<Rightarrow> string" where
  "func_decl_pattern lang =
     (if lang = ''go'' then
        re_indent @ ''(func'' @ re_spaces @ ''('' @ backslash @ ''([^)]+'' @ backslash @ '')'' @ re_spaces @ '')?[A-Z]'' @ re_word @
        ''|type'' @ re_spaces @ ''[A-Z]'' @ re_word @ '')''
      else if lang = ''ts'' \<or> lang = ''js'' then
        re_indent @ ''(export'' @ re_spaces @ '')?(async'' @ re_spaces @ '')?(function'' @ re_spaces @ re_word @
        ''|const'' @ re_spaces @ re_word @ backslash @ ''s*='' @ backslash @ ''s*('' @ backslash @ ''([^)]*'' @ backslash @
        '')|'' @ re_word @ '')'' @ backslash @ ''s*=>|class'' @ re_spaces @ re_word @ '')''
      else if lang = ''py'' then re_indent @ ''def'' @ re_spaces @ re_word
      else if lang = ''rs'' then
        re_indent @ ''(pub'' @ re_spaces @ '')?(fn|impl|struct|enum|trait)'' @ re_spaces @ re_word
      else if lang = ''java'' then
        re_indent @ ''(public|private|protected)?'' @ backslash @ ''s*(static'' @ re_spaces @ '')?['' @ backslash @ ''w<>'' @
        backslash @ ''['' @ backslash @ '']]+'' @ re_spaces @ re_word @ backslash @ ''s*'' @ backslash @ ''(''
      else re_indent @ ''(func|function|def|fn|class)'' @ re_spaces @ re_word)"

definition fn_name_pattern :: string where
  "fn_name_pattern = ''(func|function|def|fn|class|type|struct|enum|trait|impl)'' @ re_spaces @ ''('' @ re_word @ '')''"

text \<open>The groups of the match: the whole of it first.\<close>

definition extract_fn_name :: "scan_env \<Rightarrow> string \<Rightarrow> string" where
  "extract_fn_name env line =
     (case sc_submatch env fn_name_pattern line of
        Some groups \<Rightarrow> groups ! 1 @ '' '' @ groups ! 2
      | None \<Rightarrow> trim_space line)"

fun find_enclosing :: "(string \<Rightarrow> bool) \<Rightarrow> string list \<Rightarrow> nat \<Rightarrow> nat option" where
  "find_enclosing declares ls 0 = (if declares (ls ! 0) then Some 0 else None)"
| "find_enclosing declares ls (Suc i) = (if declares (ls ! Suc i) then Some (Suc i) else find_enclosing declares ls i)"

definition find_enclosing_function :: "scan_env \<Rightarrow> string list \<Rightarrow> nat \<Rightarrow> string \<Rightarrow> (nat \<times> string) option" where
  "find_enclosing_function env ls i lang =
     map_option (\<lambda>j. (j, extract_fn_name env (ls ! j))) (find_enclosing (sc_matches env (func_decl_pattern lang)) ls i)"

text \<open>The braces of a line; \<open>None\<close> when one of them closes the block.\<close>

fun line_braces :: "string \<Rightarrow> int \<Rightarrow> bool \<Rightarrow> (int \<times> bool) option" where
  "line_braces [] depth entered = Some (depth, entered)"
| "line_braces (c # cs) depth entered =
     (if c = CHR ''{'' then line_braces cs (depth + 1) True
      else if c = CHR ''}'' then (if entered \<and> depth - 1 = 0 then None else line_braces cs (depth - 1) entered)
      else line_braces cs depth entered)"

text \<open>The lines from \<open>i\<close> on, with the depth before them; the index behind the line that closes the block.\<close>

fun scan_block :: "nat \<Rightarrow> nat \<Rightarrow> string list \<Rightarrow> int \<Rightarrow> bool \<Rightarrow> nat option" where
  "scan_block start i [] depth entered = None"
| "scan_block start i (l # ls) depth entered =
     (case line_braces l depth entered of
        None \<Rightarrow> Some (i + 1)
      | Some (depth', entered') \<Rightarrow>
          if entered' \<and> depth' = 0 \<and> start < i then Some (i + 1) else scan_block start (i + 1) ls depth' entered')"

definition detect_function_end :: "string list \<Rightarrow> nat \<Rightarrow> string \<Rightarrow> nat \<Rightarrow> nat" where
  "detect_function_end ls start lang max_lines =
     (let cut = min (start + max_lines) (length ls)
      in if lang = ''py'' then cut
         else case scan_block start start (take (max_lines * 2) (drop start ls)) 0 False of
             Some e \<Rightarrow> e
           | None \<Rightarrow> cut)"

definition code_hit_at :: "scan_env \<Rightarrow> string \<Rightarrow> string \<Rightarrow> string list \<Rightarrow> nat \<Rightarrow> code_hit" where
  "code_hit_at env lang p ls i =
     (case find_enclosing_function env ls i lang of
        Some (j, fn) \<Rightarrow> (p, j + 1, fn, join [newline] (take (detect_function_end ls j lang 40 - j) (drop j ls)))
      | None \<Rightarrow> (p, i + 1, ''(unknown scope)'', join [newline] (take (detect_function_end ls i lang 40 - i) (drop i ls))))"

fun code_lines ::
  "scan_env \<Rightarrow> string \<Rightarrow> (string \<Rightarrow> bool) \<Rightarrow> string \<Rightarrow> string list \<Rightarrow> nat \<Rightarrow> nat list \<Rightarrow> code_hit list \<Rightarrow> code_hit list \<times> bool" where
  "code_lines env lang matches p ls limit [] hits = (hits, False)"
| "code_lines env lang matches p ls limit (i # is) hits =
     (if \<not> matches (ls ! i) then code_lines env lang matches p ls limit is hits
      else
        let hits' = hits @ [code_hit_at env lang p ls i]
        in if limit \<le> length hits' then (hits', True) else code_lines env lang matches p ls limit is hits')"

definition code_visit :: "scan_env \<Rightarrow> string \<Rightarrow> (string \<Rightarrow> bool) \<Rightarrow> string \<Rightarrow> nat \<Rightarrow> code_hit list visitor" where
  "code_visit env lang matches start limit here content hits =
     (let p = path_in start here
      in if to_lower (ext_path p) \<notin> set (lang_exts lang) \<or> likely_binary p then (hits, False)
         else case content of
             None \<Rightarrow> (hits, False)
           | Some text \<Rightarrow>
               let ls = split_on newline text in code_lines env lang matches p ls limit [0..<length ls] hits)"

definition rule_mark :: string where
  "rule_mark = concat (replicate 3 [CHR 0xE2, CHR 0x94, CHR 0x80])"

definition code_report :: "code_hit list \<Rightarrow> string" where
  "code_report hits =
     (if hits = [] then ''(no matches)''
      else trim_newlines (itoa (int (length hits)) @ '' match(es) with enclosing scope:'' @ [newline, newline] @
             concat (map (\<lambda>(file, line, fn, body).
                 rule_mark @ '' '' @ file @ '':'' @ itoa (int line) @ '' ('' @ fn @ '') '' @ rule_mark @ [newline] @
                 trim_newlines body @ [newline, newline])
               (sort_key (\<lambda>(file, line, _). (file, line)) hits))))"

definition code_walk :: "scan_env \<Rightarrow> string \<Rightarrow> (string \<Rightarrow> bool) \<Rightarrow> string \<Rightarrow> nat \<Rightarrow> code_hit list" where
  "code_walk env lang matches start limit =
     walk_root skipped_folder (code_visit env lang matches start limit) start (se_tree env start) []"

definition code_search_execute :: "scan_env \<Rightarrow> go_params \<Rightarrow> search_error + string" where
  "code_search_execute env params =
     (let pattern = text_param params ''pattern''; start = search_root (search_env.truncate env) params;
          lang = (if text_param params ''lang'' = [] then ''go'' else text_param params ''lang'')
      in if pattern = [] then Inl NoPattern
         else case se_regex env pattern of
             Inl e \<Rightarrow> Inl (BadRegex e)
           | Inr matches \<Rightarrow> Inr (code_report (code_walk env lang matches start (arg_limit params ''max_results'' 10))))"

definition code_found :: "scan_env \<Rightarrow> string \<Rightarrow> (string \<Rightarrow> bool) \<Rightarrow> string \<Rightarrow> string list \<Rightarrow> string option \<Rightarrow> code_hit list" where
  "code_found env lang matches start here content =
     (let p = path_in start here
      in case content of
           None \<Rightarrow> []
         | Some text \<Rightarrow>
             let ls = split_on newline text
             in if to_lower (ext_path p) \<in> set (lang_exts lang) \<and> \<not> likely_binary p
                then map (code_hit_at env lang p ls) (filter (\<lambda>i. matches (ls ! i)) [0..<length ls]) else [])"

lemma code_lines_add:
  "code_lines env lang matches p ls limit is hits =
     add_until limit hits (map (code_hit_at env lang p ls) (filter (\<lambda>i. matches (ls ! i)) is))"
  by (induction "is" arbitrary: hits) (auto simp: Let_def)

interpretation code_search: limited_search "code_found env lang matches start" "code_visit env lang matches start" "\<lambda>s. s"
  for env lang matches start
  by unfold_locales (auto simp: code_visit_def code_found_def code_lines_add Let_def split: option.splits)

text \<open>The lines that are cut out are lines of the file, at least one and at most eighty.\<close>

lemma scan_block_range: "scan_block start i ls depth entered = Some e \<Longrightarrow> i < e \<and> e \<le> i + length ls"
  by (induction start i ls depth entered rule: scan_block.induct) (fastforce split: option.splits if_splits)+

lemma function_end_range:
  assumes "start < length ls" "0 < max_lines"
  shows "start < detect_function_end ls start lang max_lines" "detect_function_end ls start lang max_lines \<le> length ls"
    "detect_function_end ls start lang max_lines \<le> start + 2 * max_lines"
  using assms scan_block_range [of start start "take (max_lines * 2) (drop start ls)" 0 False]
  by (auto simp: detect_function_end_def Let_def split: option.splits)

lemma find_enclosing_before:
  "find_enclosing declares ls i = Some j \<Longrightarrow> j \<le> i \<and> declares (ls ! j) \<and> (\<forall>k. j < k \<and> k \<le> i \<longrightarrow> \<not> declares (ls ! k))"
  by (induction declares ls i rule: find_enclosing.induct) (auto simp: le_Suc_eq split: if_splits)

section \<open>secret_scan\<close>

text \<open>File, line number, kind and trimmed line.\<close>

type_synonym finding = "string \<times> nat \<times> string \<times> string"

definition scan_patterns :: "(string \<times> string) list" where
  "scan_patterns =
     [(''AWS Access Key'', ''AKIA[0-9A-Z]{16}''),
      (''AWS Secret Key'', ''(?m)aws_secret_access_key'' @ backslash @ ''s*='' @ backslash @ ''s*[A-Za-z0-9/+=]{40}''),
      (''GitHub Token (ghp_)'', ''ghp_[A-Za-z0-9]{36}''),
      (''GitHub Token (github_pat_)'', ''github_pat_[A-Za-z0-9_]{82}''),
      (''Google API Key'', ''AIza[0-9A-Za-z'' @ backslash @ ''-_]{35}''),
      (''Slack Token'', ''xox[baprs]-[A-Za-z0-9-]{10,}''),
      (''Stripe (sk_live_)'', ''sk_live_[A-Za-z0-9]{24,}''),
      (''Stripe (rk_live_)'', ''rk_live_[A-Za-z0-9]{24,}''),
      (''JWT'', ''eyJ[A-Za-z0-9_-]{10,}'' @ backslash @ ''.eyJ[A-Za-z0-9_-]{10,}'' @ backslash @ ''.[A-Za-z0-9_-]{10,}''),
      (''Generic Bearer Token'', ''(?i)bearer'' @ backslash @ ''s+[A-Za-z0-9_'' @ backslash @ ''-'' @ backslash @ ''.=]{20,}''),
      (''Private Key Block'', ''-----BEGIN [A-Z ]*PRIVATE KEY-----'')]"

definition scan_hits :: "scan_env \<Rightarrow> string \<Rightarrow> nat \<Rightarrow> string list \<Rightarrow> finding list" where
  "scan_hits env p i ls =
     [(p, j + 1, kind, trim_space l). (j, l) \<leftarrow> enumerate i ls, (kind, pat) \<leftarrow> scan_patterns, sc_matches env pat l]"

text \<open>The inner loop, over the kinds, and the outer loop, over the lines; both end at the limit.\<close>

fun scan_kinds :: "scan_env \<Rightarrow> string \<Rightarrow> nat \<Rightarrow> nat \<Rightarrow> string \<Rightarrow> (string \<times> string) list \<Rightarrow> finding list \<Rightarrow> finding list \<times> bool" where
  "scan_kinds env p limit i line [] findings = (findings, False)"
| "scan_kinds env p limit i line ((kind, pat) # pats) findings =
     (if sc_matches env pat line then
        let findings' = findings @ [(p, i + 1, kind, trim_space line)]
        in if limit \<le> length findings' then (findings', True) else scan_kinds env p limit i line pats findings'
      else scan_kinds env p limit i line pats findings)"

fun scan_lines :: "scan_env \<Rightarrow> string \<Rightarrow> nat \<Rightarrow> nat \<Rightarrow> string list \<Rightarrow> finding list \<Rightarrow> finding list \<times> bool" where
  "scan_lines env p limit i [] findings = (findings, False)"
| "scan_lines env p limit i (line # rest) findings =
     (case scan_kinds env p limit i line scan_patterns findings of
        (findings', stopped) \<Rightarrow> if stopped then (findings', True) else scan_lines env p limit (i + 1) rest findings')"

definition exempt_file :: "string \<Rightarrow> bool" where
  "exempt_file p \<longleftrightarrow> has_suffix p ''internal/skill/builtin/security.go'' \<or> has_suffix p ''internal/tool/builtin/secret_scan.go''"

definition secret_visit :: "scan_env \<Rightarrow> string \<Rightarrow> nat \<Rightarrow> finding list visitor" where
  "secret_visit env start limit here content findings =
     (let p = path_in start here
      in if likely_binary p \<or> exempt_file p then (findings, False)
         else case content of
             None \<Rightarrow> (findings, False)
           | Some text \<Rightarrow> scan_lines env p limit 0 (split_on newline text) findings)"

definition mask_secret :: "string \<Rightarrow> string" where
  "mask_secret s =
     (if length s < 12 then replicate (length s) (CHR ''*'')
      else take 6 s @ replicate (length s - 12) (CHR ''*'') @ drop (length s - 6) s)"

definition secret_report :: "finding list \<Rightarrow> string" where
  "secret_report findings =
     (if findings = [] then ''no secrets found''
      else trim_newlines (''found '' @ itoa (int (length findings)) @ '' potential secret(s):'' @ [newline, newline] @
             concat (map (\<lambda>(file, line, kind, text). file @ '':'' @ itoa (int line) @ ''  ['' @ kind @ '']'' @ [newline] @ ''  '' @
                 mask_secret text @ [newline, newline])
               (sort_key (\<lambda>(file, line, _). (file, line)) findings))))"

definition secret_walk :: "scan_env \<Rightarrow> string \<Rightarrow> nat \<Rightarrow> finding list" where
  "secret_walk env start limit = walk_root skipped_folder (secret_visit env start limit) start (se_tree env start) []"

definition secret_scan_execute :: "scan_env \<Rightarrow> go_params \<Rightarrow> search_error + string" where
  "secret_scan_execute env params =
     (if text_param params ''path'' = [] then Inl NoPattern
      else Inr (secret_report (secret_walk env (expand_home (se_home env) (text_param params ''path''))
                  (arg_limit params ''max_findings'' 50))))"

definition secret_found :: "scan_env \<Rightarrow> string \<Rightarrow> string list \<Rightarrow> string option \<Rightarrow> finding list" where
  "secret_found env start here content =
     (let p = path_in start here
      in case content of
           None \<Rightarrow> []
         | Some text \<Rightarrow> if likely_binary p \<or> exempt_file p then [] else scan_hits env p 0 (split_on newline text))"

lemma add_until_append:
  "add_until limit hits (xs @ ys) =
     (case add_until limit hits xs of (hits', stopped) \<Rightarrow> if stopped then (hits', True) else add_until limit hits' ys)"
  by (induction xs arbitrary: hits) auto

lemma scan_kinds_add:
  "scan_kinds env p limit i line pats findings =
     add_until limit findings [(p, i + 1, kind, trim_space line). (kind, pat) \<leftarrow> pats, sc_matches env pat line]"
  by (induction pats arbitrary: findings) (auto simp: Let_def)

lemma scan_lines_add: "scan_lines env p limit i ls findings = add_until limit findings (scan_hits env p i ls)"
proof (induction ls arbitrary: i findings)
  case (Cons l ls)
  show ?case
    by (simp only: scan_lines.simps Cons.IH scan_kinds_add) (simp add: scan_hits_def add_until_append split: prod.split)
qed (simp add: scan_hits_def)

interpretation secret_search: limited_search "secret_found env start" "secret_visit env start" "\<lambda>s. s" for env start
  by unfold_locales (auto simp: secret_visit_def secret_found_def scan_lines_add Let_def split: option.splits)

lemma secret_walk_below:
  assumes "se_tree env start = Some t" "length (secret_search.all_found env start (files_below skipped_folder start t)) < limit"
  shows "secret_walk env start limit = secret_search.all_found env start (files_below skipped_folder start t)"
  using assms secret_search.below_limit_results [of "[]"] by (simp add: secret_walk_def walk_root_def files_below_def)

lemma length_mask_secret: "length (mask_secret s) = length s"
  by (auto simp: mask_secret_def)

lemma scan_hits_in:
  assumes "(j, l) \<in> set (enumerate i ls)" "(kind, pat) \<in> set scan_patterns" "sc_matches env pat l"
  shows "(p, j + 1, kind, trim_space l) \<in> set (scan_hits env p i ls)"
proof -
  let ?kinds = "\<lambda>j l. [(p, j + 1, kind, trim_space l). (kind, pat) \<leftarrow> scan_patterns, sc_matches env pat l]"
  have "(p, j + 1, kind, trim_space l) \<in> set (?kinds j l)"
    using assms(2,3) by (auto intro!: bexI [of _ "(kind, pat)"])
  then show ?thesis using assms(1) unfolding scan_hits_def by (auto simp del: in_set_enumerate_eq intro!: bexI [of _ "(j, l)"])
qed

text \<open>
  A scan that finds fewer secrets than \<open>max_findings\<close> and reports nothing means that no line of any readable text file
  below the path matches an expression for a secret; otherwise it reports each of them, a line once for every kind.
\<close>

lemma scan_misses_no_secret:
  assumes "text_param params ''path'' = start" "start \<noteq> []" "expand_home (se_home env) start = start"
    and "se_tree env start = Some t"
    and "findings = concat (map (\<lambda>(here, c). secret_found env start here c) (files_below skipped_folder start t))"
    and "length findings < arg_limit params ''max_findings'' 50"
  shows "secret_scan_execute env params = Inr (secret_report findings)"
    and "(here, Some text) \<in> set (files_below skipped_folder start t) \<Longrightarrow>
       \<not> likely_binary (path_in start here) \<Longrightarrow> \<not> exempt_file (path_in start here) \<Longrightarrow>
       i < length (split_on newline text) \<Longrightarrow> (kind, pat) \<in> set scan_patterns \<Longrightarrow>
       sc_matches env pat (split_on newline text ! i) \<Longrightarrow>
       (path_in start here, i + 1, kind, trim_space (split_on newline text ! i)) \<in> set findings"
proof -
  have findings: "findings = secret_search.all_found env start (files_below skipped_folder start t)"
    using assms(5) by (simp add: secret_search.all_found_def)
  then show "secret_scan_execute env params = Inr (secret_report findings)"
    using assms(1-4,6) by (simp add: secret_scan_execute_def secret_walk_below)
  assume found: "(here, Some text) \<in> set (files_below skipped_folder start t)"
    "\<not> likely_binary (path_in start here)" "\<not> exempt_file (path_in start here)"
    and line: "i < length (split_on newline text)" "(kind, pat) \<in> set scan_patterns"
      "sc_matches env pat (split_on newline text ! i)"
  have "(i, split_on newline text ! i) \<in> set (enumerate 0 (split_on newline text))"
    using line(1) by (simp add: in_set_enumerate_eq)
  from scan_hits_in [where env = env and p = "path_in start here", OF this line(2,3)] have "(path_in start here, i + 1, kind, trim_space (split_on newline text ! i)) \<in>
      set (scan_hits env (path_in start here) 0 (split_on newline text))" .
  with found show "(path_in start here, i + 1, kind, trim_space (split_on newline text ! i)) \<in> set findings"
    unfolding assms(5) by (auto simp: secret_found_def Let_def intro!: bexI [of _ "(here, Some text)"])
qed

end
