(* ===== verification/Terminal_Tool.thy ===== *)
theory Terminal_Tool
  imports Delegation
begin

text \<open>
  The terminal tool (\<open>internal/tool/builtin/terminal.go\<close>): the filter of commands, the environment of a command and what
  becomes of its output. Running a shell is a parameter: it answers with the output, and with how the command ended.
\<close>

datatype run_end = Success | ExitCode int | NoExitCode

record shell_run =
  sr_output :: string
  sr_end :: run_end
  sr_deadline :: bool

text \<open>What the tool asks the operating system for.\<close>

record shell_request =
  rq_shell :: string
  rq_command :: string
  rq_dir :: string
  rq_path :: string
  rq_timeout :: int

record terminal_env =
  te_workspace :: string
  te_has_bash :: bool
  te_path :: string
  te_run :: "shell_request \<Rightarrow> shell_run"

datatype terminal_error = CommandRequired | CommandBlocked | TimedOut string int

section \<open>The filter\<close>

definition dangerous_patterns :: "string list" where
  "dangerous_patterns =
     [''rm -rf /'', ''rm -rf /*'', '':(){ :|:& };:'', ''> /dev/sda'', ''mkfs'', ''dd if=/dev/zero'', ''chmod -R 777 /'',
      ''chown -R root'', ''curl http|sh'', ''curl https|sh'', ''wget -q|sh'', ''eval $('', ''exec $('']"

definition blocking_patterns :: "string list" where
  "blocking_patterns =
     [''npm run dev'', ''npm run serve'', ''npm start'', ''vite'', ''webpack serve'', ''webpack-dev-server'', ''ng serve'',
      ''python -m http.server'', ''python3 -m http.server'', ''php -S'', ''ruby -run -e httpd'', ''live-server'',
      ''http-server'']"

definition is_dangerous_command :: "string \<Rightarrow> bool" where
  "is_dangerous_command command =
     (let cmd_lower = to_lower command
      in list_ex (contains_str cmd_lower) dangerous_patterns \<or> list_ex (contains_str cmd_lower) blocking_patterns)"

section \<open>Running\<close>

definition path_dirs :: "string list" where
  "path_dirs = [''/usr/bin'', ''/bin'', ''/usr/sbin'', ''/sbin'', ''/usr/local/bin'', ''/opt/homebrew/bin'']"

definition extended_path :: "string \<Rightarrow> string" where
  "extended_path path = foldl (\<lambda>p dir. if contains_str p dir then p else p @ '':'' @ dir) path path_dirs"

definition int_param :: "go_params \<Rightarrow> string \<Rightarrow> int \<Rightarrow> int" where
  "int_param params key fallback =
     (case params key of Some (GoInt v) \<Rightarrow> v | Some (GoFloat r) \<Rightarrow> (if r < 0 then - \<lfloor>- r\<rfloor> else \<lfloor>r\<rfloor>) | _ \<Rightarrow> fallback)"

definition exit_code_from_err :: "run_end \<Rightarrow> int" where
  "exit_code_from_err e = (case e of ExitCode n \<Rightarrow> n | _ \<Rightarrow> - 1)"

definition exit_marker :: "int \<Rightarrow> string" where
  "exit_marker n = [CHR 0x0A] @ ''[exit_status: non-zero (code '' @ itoa n @ '')]''"

definition terminal_request :: "terminal_env \<Rightarrow> go_params \<Rightarrow> string \<Rightarrow> shell_request" where
  "terminal_request env params command =
     \<lparr>rq_shell = (if te_has_bash env then ''/bin/bash'' else ''/bin/sh''), rq_command = command,
      rq_dir = (let d = text_param params ''workdir'' in if d = [] then te_workspace env else d),
      rq_path = extended_path (te_path env), rq_timeout = int_param params ''timeout'' 30\<rparr>"

definition terminal_result :: "int \<Rightarrow> shell_run \<Rightarrow> terminal_error + string" where
  "terminal_result timeout r =
     (if sr_deadline r then Inl (TimedOut (sr_output r) timeout)
      else if sr_end r \<noteq> Success \<and> contains_str (sr_output r) ''command not found'' then Inr (sr_output r)
      else if sr_end r \<noteq> Success then Inr (sr_output r @ exit_marker (exit_code_from_err (sr_end r)))
      else Inr (sr_output r))"

definition terminal_execute :: "terminal_env \<Rightarrow> go_params \<Rightarrow> terminal_error + string" where
  "terminal_execute env params =
     (let command = text_param params ''command''
      in if command = [] then Inl CommandRequired
         else if is_dangerous_command command then Inl CommandBlocked
         else
           let rq = terminal_request env params command in terminal_result (rq_timeout rq) (te_run env rq))"

section \<open>What the filter stops\<close>

lemma lowered_has_no_upper: "contains_str (to_lower s) p \<Longrightarrow> c \<in> set p \<Longrightarrow> \<not> is_upper c"
  using contains_str_set [of "to_lower s" p] to_lower_no_upper [of c s] by blast

text \<open>The patterns that can match at all; the others have capital letters.\<close>

definition live_patterns :: "string list" where
  "live_patterns = filter (list_all (\<lambda>c. \<not> is_upper c)) (dangerous_patterns @ blocking_patterns)"

lemma live_patterns_decide: "is_dangerous_command command \<longleftrightarrow> list_ex (contains_str (to_lower command)) live_patterns"
  by (auto simp: is_dangerous_command_def Let_def live_patterns_def list_ex_iff list_all_iff dest: lowered_has_no_upper)

lemma live_patterns_eq:
  "live_patterns =
     [''rm -rf /'', ''rm -rf /*'', '':(){ :|:& };:'', ''> /dev/sda'', ''mkfs'', ''dd if=/dev/zero'',
      ''curl http|sh'', ''curl https|sh'', ''wget -q|sh'', ''eval $('', ''exec $('',
      ''npm run dev'', ''npm run serve'', ''npm start'', ''vite'', ''webpack serve'', ''webpack-dev-server'', ''ng serve'',
      ''python -m http.server'', ''python3 -m http.server'', ''ruby -run -e httpd'', ''live-server'', ''http-server'']"
  by code_simp


text \<open>Examples: what is stopped and what is not.\<close>

lemma chmod_not_stopped: "\<not> is_dangerous_command ''chmod -R 777 /''" "\<not> is_dangerous_command ''rm -r -f /''"
  by code_simp+

lemma harmless_commands_stopped: "is_dangerous_command ''rm -rf /tmp/build''" "is_dangerous_command ''cat invite.txt''"
  by code_simp+

section \<open>The result\<close>

text \<open>A failed command is marked, unless its output says that a command was not found.\<close>

lemma failed_command_marked:
  assumes "\<not> sr_deadline r" "sr_end r \<noteq> Success" "\<not> contains_str (sr_output r) ''command not found''"
  shows "\<exists>n. terminal_result t r = Inr (sr_output r @ exit_marker n)"
  using assms by (auto simp: terminal_result_def)

lemma failure_looks_like_success:
  assumes "\<not> sr_deadline r" "contains_str (sr_output r) ''command not found''"
  shows "terminal_result t r = terminal_result t (r\<lparr>sr_end := Success\<rparr>)"
  using assms by (simp add: terminal_result_def)

section \<open>The path\<close>

text \<open>
  A directory counts as present when its name occurs anywhere in the path, so \<open>/bin\<close> and \<open>/sbin\<close> are never appended:
  \<open>/usr/bin\<close> and \<open>/usr/sbin\<close>, appended before them when they are missing, contain them.
\<close>

lemma contains_append: "contains_str (s @ t) p" if "contains_str t p" for s t p
  using that by (simp add: contains_str_iff) (metis sublist_append_leftI sublist_order.order_trans)

lemma contains_part: "contains_str s q \<Longrightarrow> contains_str q p \<Longrightarrow> contains_str s p"
  by (auto simp: contains_str_iff intro: sublist_order.order_trans)

lemma bin_never_appended:
  "extended_path path = foldl (\<lambda>p dir. if contains_str p dir then p else p @ '':'' @ dir) path
     [''/usr/bin'', ''/usr/sbin'', ''/usr/local/bin'', ''/opt/homebrew/bin'']"
proof -
  let ?add = "\<lambda>p dir. if contains_str p dir then p else p @ '':'' @ dir"
  have sub: "contains_str ''/usr/bin'' ''/bin''" "contains_str ''/usr/sbin'' ''/sbin''" by code_simp+
  have added: "contains_str (?add p dir) dir" for p dir
    using contains_append [of "'':'' @ dir" dir p] contains_append [of dir dir "'':''"]
    by (simp add: contains_str_iff)
  have keep: "?add (?add p q) d = ?add p q" if "contains_str q d" for p q d
    using contains_part [OF added that, of p] by simp
  show ?thesis
    unfolding extended_path_def path_dirs_def foldl.simps keep [OF sub(1)] keep [OF sub(2)] by (rule refl)
qed


end
