(* ===== verification/Process_Tool.thy ===== *)
theory Process_Tool
  imports Terminal_Tool
begin

text \<open>
  The background processes of the process tool (\<open>internal/tool/builtin/process.go\<close>): a package-level table by process
  identifier, and for every started process a goroutine that waits for its end and removes the entry thirty seconds later.
  The operating system chooses the identifiers; every start has its own number here, so that two processes with the same
  identifier can be told apart. Processes end on their own or after a signal; both are steps of the system.
\<close>

record proc_entry =
  pe_command :: string
  pe_started :: int
  pe_number :: nat

text \<open>The table, the processes that run, those that ended and whose entry is still to be removed, and what they wrote.\<close>

record proc_world =
  pw_procs :: "int \<rightharpoonup> proc_entry"
  pw_running :: "(nat \<times> int) list"
  pw_ended :: "(nat \<times> int) list"
  pw_next :: nat
  pw_output :: "nat \<Rightarrow> string"

definition new_proc_world :: proc_world where
  "new_proc_world = \<lparr>pw_procs = Map.empty, pw_running = [], pw_ended = [], pw_next = 0, pw_output = (\<lambda>_. [])\<rparr>"

datatype proc_error = ProcActionRequired | ProcCommandRequired | PidRequired | PidNotNumber | ProcNotFound int
  | StartFailed string | SignalFailed int | UnknownProcAction string

section \<open>Operations\<close>

definition shell_command :: "string \<Rightarrow> string \<times> string list" where
  "shell_command command =
     (if contains_str (to_lower command) ''windows'' then (''cmd'', [''/c'', command]) else (''sh'', [''-c'', command]))"

text \<open>\<open>spawn\<close> is the answer of the operating system: an error, or the identifier of the new process.\<close>

definition start_process ::
  "(string \<times> string list \<Rightarrow> string + int) \<Rightarrow> int \<Rightarrow> go_params \<Rightarrow> proc_world \<Rightarrow> proc_world \<times> (proc_error + string)" where
  "start_process spawn now params w =
     (let command = text_param params ''command''
      in if command = [] then (w, Inl ProcCommandRequired)
         else case spawn (shell_command command) of
             Inl e \<Rightarrow> (w, Inl (StartFailed e))
           | Inr pid \<Rightarrow>
               (w\<lparr>pw_procs := (pw_procs w)(pid \<mapsto> \<lparr>pe_command = command, pe_started = now, pe_number = pw_next w\<rparr>),
                  pw_running := (pw_next w, pid) # pw_running w, pw_next := pw_next w + 1\<rparr>,
                Inr (''Background process started successfully. PID: '' @ itoa pid)))"

text \<open>The entries that are listed, in the order \<open>pids\<close> in which the table is walked; every one is reported as running.\<close>

definition list_processes :: "int list \<Rightarrow> int \<Rightarrow> proc_world \<Rightarrow> string" where
  "list_processes pids now w =
     (let shown = filter (\<lambda>pid. pw_procs w pid \<noteq> None) pids; nl = [CHR 0x0A]
      in if shown = [] then ''No background processes running.''
         else ''Found '' @ itoa (int (length shown)) @ '' background process(es):'' @ nl @
              concat (map (\<lambda>pid. ''  PID: '' @ itoa pid @ nl @
                  ''    Command: '' @ pe_command (the (pw_procs w pid)) @ nl @
                  ''    Started: '' @ itoa (now - pe_started (the (pw_procs w pid))) @ ''s ago'' @ nl @
                  ''    Status: running'' @ nl) shown))"

definition pid_param :: "go_params \<Rightarrow> proc_error + int" where
  "pid_param params =
     (let t = text_param params ''pid''
      in if t = [] then Inl PidRequired else case go_atoi t of None \<Rightarrow> Inl PidNotNumber | Some pid \<Rightarrow> Inr pid)"

text \<open>The signal fails for a process that has ended.\<close>

definition kill_process :: "go_params \<Rightarrow> proc_world \<Rightarrow> proc_world \<times> (proc_error + string)" where
  "kill_process params w =
     (case pid_param params of
        Inl e \<Rightarrow> (w, Inl e)
      | Inr pid \<Rightarrow>
          (case pw_procs w pid of
             None \<Rightarrow> (w, Inl (ProcNotFound pid))
           | Some e \<Rightarrow>
               let w' = w\<lparr>pw_procs := (pw_procs w)(pid := None)\<rparr>
               in if pe_number e \<in> fst ` set (pw_running w)
                  then (w', Inr (''Process '' @ itoa pid @ '' terminated successfully''))
                  else (w', Inl (SignalFailed pid))))"

definition get_process_output :: "go_params \<Rightarrow> proc_world \<Rightarrow> proc_error + string" where
  "get_process_output params w =
     (case pid_param params of
        Inl e \<Rightarrow> Inl e
      | Inr pid \<Rightarrow>
          (case pw_procs w pid of
             None \<Rightarrow> Inl (ProcNotFound pid)
           | Some e \<Rightarrow>
               let out = pw_output w (pe_number e); nl = [CHR 0x0A]; rule = replicate 40 (CHR ''-'')
               in if out = [] then Inr (''No output available for process '' @ itoa pid)
                  else Inr (''Output for process '' @ itoa pid @ '':'' @ nl @ rule @ nl @ out @ rule @ nl)))"

definition process_execute ::
  "(string \<times> string list \<Rightarrow> string + int) \<Rightarrow> int list \<Rightarrow> int \<Rightarrow> go_params \<Rightarrow> proc_world \<Rightarrow> proc_world \<times> (proc_error + string)" where
  "process_execute spawn pids now params w =
     (let action = text_param params ''action''
      in if action = [] then (w, Inl ProcActionRequired)
         else if action = ''start'' then start_process spawn now params w
         else if action = ''list'' then (w, Inr (list_processes pids now w))
         else if action = ''kill'' then kill_process params w
         else if action = ''output'' then (w, get_process_output params w)
         else (w, Inl (UnknownProcAction action)))"

text \<open>The end of a process, and the removal of its entry by its goroutine, which looks at the identifier alone.\<close>

definition process_ends :: "nat \<Rightarrow> int \<Rightarrow> proc_world \<Rightarrow> proc_world" where
  "process_ends n pid w =
     w\<lparr>pw_running := filter (\<lambda>r. fst r \<noteq> n) (pw_running w), pw_ended := (n, pid) # pw_ended w\<rparr>"

definition clean_up :: "nat \<Rightarrow> int \<Rightarrow> proc_world \<Rightarrow> proc_world" where
  "clean_up n pid w =
     w\<lparr>pw_procs := (pw_procs w)(pid := None), pw_ended := filter (\<lambda>r. fst r \<noteq> n) (pw_ended w)\<rparr>"

section \<open>Steps\<close>

text \<open>
  A start may get any identifier that no running process has. The flag says that the operating system also avoids the
  identifiers whose entries are still to be removed.
\<close>

inductive proc_step :: "bool \<Rightarrow> proc_world \<Rightarrow> proc_world \<Rightarrow> bool" for spaced where
  Starts: "pid \<notin> snd ` set (pw_running w) \<Longrightarrow> (spaced \<Longrightarrow> pid \<notin> snd ` set (pw_ended w)) \<Longrightarrow>
     proc_step spaced w (fst (start_process (\<lambda>_. Inr pid) now params w))"
| Writes: "(n, pid) \<in> set (pw_running w) \<Longrightarrow>
     proc_step spaced w (w\<lparr>pw_output := (pw_output w)(n := pw_output w n @ out)\<rparr>)"
| Ends: "(n, pid) \<in> set (pw_running w) \<Longrightarrow> proc_step spaced w (process_ends n pid w)"
| CleansUp: "(n, pid) \<in> set (pw_ended w) \<Longrightarrow> proc_step spaced w (clean_up n pid w)"

text \<open>A run of the system from the start, with the numbers of the processes that were asked to be killed.\<close>

inductive proc_run :: "bool \<Rightarrow> nat set \<Rightarrow> proc_world \<Rightarrow> bool" for spaced where
  Begin: "proc_run spaced {} new_proc_world"
| Moves: "proc_run spaced killed w \<Longrightarrow> proc_step spaced w w' \<Longrightarrow> proc_run spaced killed w'"
| Kills: "proc_run spaced killed w \<Longrightarrow> pid_param params = Inr pid \<Longrightarrow> pw_procs w pid = Some e \<Longrightarrow>
     proc_run spaced (insert (pe_number e) killed) (fst (kill_process params w))"

text \<open>
  Numbers are below the next one, identifiers of running processes differ from one another and from those of the ended
  processes, and a running process that nobody asked to kill is found in the table under its identifier.
\<close>

definition proc_ok :: "nat set \<Rightarrow> proc_world \<Rightarrow> bool" where
  "proc_ok killed w \<longleftrightarrow>
     (\<forall>n p. (n, p) \<in> set (pw_running w) \<longrightarrow> n < pw_next w \<and> (n \<notin> killed \<longrightarrow> (\<exists>e. pw_procs w p = Some e \<and> pe_number e = n))) \<and>
     (\<forall>m n p. (m, p) \<in> set (pw_running w) \<longrightarrow> (n, p) \<in> set (pw_running w) \<longrightarrow> m = n) \<and>
     (\<forall>n p. (n, p) \<in> set (pw_ended w) \<longrightarrow> n < pw_next w \<and> p \<notin> snd ` set (pw_running w))"

lemma proc_okI:
  assumes "\<And>n p. (n, p) \<in> set (pw_running w) \<Longrightarrow> n < pw_next w"
    and "\<And>n p. (n, p) \<in> set (pw_running w) \<Longrightarrow> n \<notin> killed \<Longrightarrow> \<exists>e. pw_procs w p = Some e \<and> pe_number e = n"
    and "\<And>m n p. (m, p) \<in> set (pw_running w) \<Longrightarrow> (n, p) \<in> set (pw_running w) \<Longrightarrow> m = n"
    and "\<And>n p. (n, p) \<in> set (pw_ended w) \<Longrightarrow> n < pw_next w"
    and "\<And>n p. (n, p) \<in> set (pw_ended w) \<Longrightarrow> p \<notin> snd ` set (pw_running w)"
  shows "proc_ok killed w"
  unfolding proc_ok_def using assms by blast

lemma proc_okD:
  assumes "proc_ok killed w"
  shows "(n, p) \<in> set (pw_running w) \<Longrightarrow> n < pw_next w"
    "(n, p) \<in> set (pw_running w) \<Longrightarrow> n \<notin> killed \<Longrightarrow> \<exists>e. pw_procs w p = Some e \<and> pe_number e = n"
    "(m, p) \<in> set (pw_running w) \<Longrightarrow> (n, p) \<in> set (pw_running w) \<Longrightarrow> m = n"
    "(n, p) \<in> set (pw_ended w) \<Longrightarrow> n < pw_next w"
    "(n, p) \<in> set (pw_ended w) \<Longrightarrow> p \<notin> snd ` set (pw_running w)"
  using assms unfolding proc_ok_def by blast+

lemma proc_ok_start:
  assumes ok: "proc_ok killed w" and fresh: "pid \<notin> snd ` set (pw_running w)" "pid \<notin> snd ` set (pw_ended w)"
  shows "proc_ok killed (fst (start_process (\<lambda>_. Inr pid) now params w))"
proof (cases "text_param params ''command'' = []")
  case False
  let ?w = "fst (start_process (\<lambda>_. Inr pid) now params w)"
  have parts: "pw_running ?w = (pw_next w, pid) # pw_running w" "pw_ended ?w = pw_ended w" "pw_next ?w = pw_next w + 1"
    "pw_procs ?w = (pw_procs w)(pid \<mapsto> \<lparr>pe_command = text_param params ''command'', pe_started = now, pe_number = pw_next w\<rparr>)"
    using False by (simp_all add: start_process_def Let_def)
  from fresh(1) have other: "p \<noteq> pid" if "(n, p) \<in> set (pw_running w)" for n p using that by force
  show ?thesis
  proof (rule proc_okI)
    fix n p
    assume "(n, p) \<in> set (pw_running ?w)"
    then consider "n = pw_next w" "p = pid" | "(n, p) \<in> set (pw_running w)" by (auto simp: parts)
    then have "n < pw_next ?w \<and> (n \<notin> killed \<longrightarrow> (\<exists>e. pw_procs ?w p = Some e \<and> pe_number e = n))"
    proof cases
      case 2
      with proc_okD(1,2) [OF ok 2] other [OF 2] show ?thesis by (simp add: parts)
    qed (simp add: parts)
    then show "n < pw_next ?w" "n \<notin> killed \<Longrightarrow> \<exists>e. pw_procs ?w p = Some e \<and> pe_number e = n" by blast+
  next
    fix m n p
    assume "(m, p) \<in> set (pw_running ?w)" "(n, p) \<in> set (pw_running ?w)"
    then show "m = n" using proc_okD(3) [OF ok, of m p n] other [of m p] other [of n p] by (auto simp: parts)
  next
    fix n p
    assume e: "(n, p) \<in> set (pw_ended ?w)"
    with fresh(2) have "p \<noteq> pid" by (force simp: parts)
    with proc_okD(4,5) [OF ok e [unfolded parts]] show "n < pw_next ?w" "p \<notin> snd ` set (pw_running ?w)"
      by (simp_all add: parts)
  qed
qed (use ok in \<open>simp add: start_process_def\<close>)

lemma proc_ok_ends:
  assumes ok: "proc_ok killed w" and r: "(n, pid) \<in> set (pw_running w)"
  shows "proc_ok killed (process_ends n pid w)"
proof (rule proc_okI)
  fix m p
  assume "(m, p) \<in> set (pw_running (process_ends n pid w))"
  then have m: "(m, p) \<in> set (pw_running w)" by (simp add: process_ends_def)
  from proc_okD(1,2) [OF ok m] show "m < pw_next (process_ends n pid w)"
    "m \<notin> killed \<Longrightarrow> \<exists>e. pw_procs (process_ends n pid w) p = Some e \<and> pe_number e = m" by (simp_all add: process_ends_def)
next
  fix l m p
  assume "(l, p) \<in> set (pw_running (process_ends n pid w))" "(m, p) \<in> set (pw_running (process_ends n pid w))"
  then show "l = m" using proc_okD(3) [OF ok, of l p m] by (simp add: process_ends_def)
next
  fix m p
  assume "(m, p) \<in> set (pw_ended (process_ends n pid w))"
  then consider "m = n" "p = pid" | "(m, p) \<in> set (pw_ended w)" by (auto simp: process_ends_def)
  then have "m < pw_next (process_ends n pid w) \<and> p \<notin> snd ` set (pw_running (process_ends n pid w))"
  proof cases
    case 1
    with proc_okD(1) [OF ok r] proc_okD(3) [OF ok _ r] show ?thesis by (auto simp: process_ends_def)
  next
    case 2
    from proc_okD(4,5) [OF ok 2] show ?thesis by (auto simp: process_ends_def)
  qed
  then show "m < pw_next (process_ends n pid w)" "p \<notin> snd ` set (pw_running (process_ends n pid w))" by blast+
qed

lemma proc_ok_clean_up:
  assumes ok: "proc_ok killed w" and r: "(n, pid) \<in> set (pw_ended w)"
  shows "proc_ok killed (clean_up n pid w)"
proof (rule proc_okI)
  fix m p
  assume "(m, p) \<in> set (pw_running (clean_up n pid w))"
  then have run: "(m, p) \<in> set (pw_running w)" by (simp add: clean_up_def)
  with proc_okD(5) [OF ok r] have "p \<noteq> pid" by force
  with proc_okD(1,2) [OF ok run] show "m < pw_next (clean_up n pid w)"
    "m \<notin> killed \<Longrightarrow> \<exists>e. pw_procs (clean_up n pid w) p = Some e \<and> pe_number e = m" by (simp_all add: clean_up_def)
next
  fix l m p
  assume "(l, p) \<in> set (pw_running (clean_up n pid w))" "(m, p) \<in> set (pw_running (clean_up n pid w))"
  then show "l = m" using proc_okD(3) [OF ok, of l p m] by (simp add: clean_up_def)
next
  fix m p
  assume "(m, p) \<in> set (pw_ended (clean_up n pid w))"
  then have "(m, p) \<in> set (pw_ended w)" by (simp add: clean_up_def)
  from proc_okD(4,5) [OF ok this] show "m < pw_next (clean_up n pid w)" "p \<notin> snd ` set (pw_running (clean_up n pid w))"
    by (simp_all add: clean_up_def)
qed

lemma proc_ok_kill:
  assumes ok: "proc_ok killed w" and k: "pid_param params = Inr pid" "pw_procs w pid = Some e"
  shows "proc_ok (insert (pe_number e) killed) (fst (kill_process params w))"
proof -
  have w: "fst (kill_process params w) = w\<lparr>pw_procs := (pw_procs w)(pid := None)\<rparr>"
    using k by (simp add: kill_process_def Let_def)
  show ?thesis
  proof (rule proc_okI, goal_cases)
    case (2 n p)
    then have run: "(n, p) \<in> set (pw_running w)" "n \<notin> killed" by (simp_all add: w)
    from proc_okD(2) [OF ok run] obtain d where d: "pw_procs w p = Some d" "pe_number d = n" by blast
    with 2 k(2) have "p \<noteq> pid" by auto
    with d show ?case by (simp add: w)
  qed (use proc_okD [OF ok] in \<open>simp_all add: w\<close>)
qed

lemma proc_ok_step: "proc_step True w w' \<Longrightarrow> proc_ok killed w \<Longrightarrow> proc_ok killed w'"
proof (induction rule: proc_step.induct)
  case (Starts pid w now params)
  then show ?case by (intro proc_ok_start) simp_all
next
  case (Writes n pid w out)
  then show ?case by (simp add: proc_ok_def)
qed (auto intro: proc_ok_ends proc_ok_clean_up)

lemma proc_run_ok: "proc_run True killed w \<Longrightarrow> proc_ok killed w"
proof (induction rule: proc_run.induct)
  case Begin
  show ?case by (simp add: proc_ok_def new_proc_world_def)
qed (auto intro: proc_ok_step proc_ok_kill)


definition demo_start :: go_params where
  "demo_start = [''command'' \<mapsto> GoString ''make'']"

definition demo_started :: "proc_world \<Rightarrow> proc_world" where
  "demo_started w = fst (start_process (\<lambda>_. Inr 7) 0 demo_start w)"

lemma demo_process_starts:
  "pid \<notin> snd ` set (pw_running w) \<Longrightarrow> (spaced \<Longrightarrow> pid \<notin> snd ` set (pw_ended w)) \<Longrightarrow> pid = 7 \<Longrightarrow>
     proc_step spaced w (demo_started w)"
  unfolding demo_started_def by (auto intro: Starts)


text \<open>
  The removal goes by the identifier alone: when the identifier of an ended process is given out again within thirty
  seconds, the entry of the new process is removed while it runs, and it can be neither listed nor killed.
\<close>

lemma reused_identifier_loses_process:
  "\<exists>w. proc_run False {} w \<and> (1, 7) \<in> set (pw_running w) \<and> pw_procs w 7 = None"
proof -
  let ?a = "demo_started new_proc_world"
  let ?b = "process_ends 0 7 ?a"
  let ?c = "demo_started ?b"
  let ?d = "clean_up 0 7 ?c"
  have "proc_step False new_proc_world ?a" by (rule demo_process_starts [of 7]) (simp_all add: new_proc_world_def)
  with Begin have "proc_run False {} ?a" by (rule Moves)
  moreover have "proc_step False ?a ?b" by (rule Ends) code_simp
  ultimately have "proc_run False {} ?b" by (rule Moves)
  moreover have "7 \<notin> snd ` set (pw_running ?b)" by code_simp
  then have "proc_step False ?b ?c" by (intro demo_process_starts [of 7]) simp_all
  ultimately have "proc_run False {} ?c" by (rule Moves)
  moreover have "proc_step False ?c ?d" by (rule CleansUp) code_simp
  ultimately have "proc_run False {} ?d" by (rule Moves)
  moreover have "(1, 7) \<in> set (pw_running ?d)" by code_simp
  moreover have "pw_procs ?d 7 = None" by (simp add: clean_up_def)
  ultimately show ?thesis by blast
qed

text \<open>The process tool has no filter: it starts what the terminal refuses.\<close>

lemma process_tool_bypasses_filter:
  assumes "text_param params ''action'' = ''start''" "text_param params ''command'' = command"
    and "is_dangerous_command command"
  shows "snd (process_execute (\<lambda>_. Inr pid) pids now params w) = Inr (''Background process started successfully. PID: '' @ itoa pid)"
proof -
  have "command \<noteq> []" using assms(3) by (auto simp: is_dangerous_command_def dangerous_patterns_def blocking_patterns_def to_lower_def)
  with assms(1,2) show ?thesis by (simp add: process_execute_def start_process_def Let_def)
qed

text \<open>A command that mentions windows goes to a shell that a Unix system does not have.\<close>

lemma windows_in_a_command: "shell_command ''open windows.txt'' = (''cmd'', [''/c'', ''open windows.txt''])"
  by code_simp

text \<open>After a kill the entry is gone, also when the signal could not be sent, and with it the output.\<close>

lemma kill_forgets_output:
  assumes "pid_param params = Inr pid" "fst (kill_process params w) = w'"
  shows "get_process_output params w' = Inl (ProcNotFound pid)"
  using assms by (auto simp: kill_process_def get_process_output_def Let_def split: option.splits)

end
