(* ===== verification/Cron_Skill.thy ===== *)
theory Cron_Skill
  imports Go_Strings
begin

text \<open>
  The cron skill (\<open>internal/skill/builtin/cron.go\<close>): finding an expression in a query, checking its fields, and the search for
  the next time it fires. Times are minutes since 1970 in a zone without daylight saving; a day has 1440 of them. The text
  form of a time is left out: an answer holds the description and the minute.
\<close>

section \<open>The calendar\<close>

text \<open>Month and day of a number of days since 1970, by eras of four hundred years that begin in March.\<close>

definition civil_month_day :: "int \<Rightarrow> int \<times> int" where
  "civil_month_day days =
     (let z = days + 719468; doe = z mod 146097;
          yoe = (doe - doe div 1460 + doe div 36524 - doe div 146096) div 365;
          doy = doe - (365 * yoe + yoe div 4 - yoe div 100);
          mp = (5 * doy + 2) div 153
      in (if mp < 10 then mp + 3 else mp - 9, doy - (153 * mp + 2) div 5 + 1))"

definition day_of :: "int \<Rightarrow> int" where
  "day_of t = t div 1440"

definition month_at :: "int \<Rightarrow> int" where
  "month_at t = fst (civil_month_day (day_of t))"

definition monthday_at :: "int \<Rightarrow> int" where
  "monthday_at t = snd (civil_month_day (day_of t))"

text \<open>Sunday is 0; 1970 began on a Thursday.\<close>

definition weekday_at :: "int \<Rightarrow> int" where
  "weekday_at t = (day_of t + 4) mod 7"

definition hour_at :: "int \<Rightarrow> int" where
  "hour_at t = t mod 1440 div 60"

definition minute_at :: "int \<Rightarrow> int" where
  "minute_at t = t mod 60"

section \<open>Fields\<close>

definition cron_char :: "char \<Rightarrow> bool" where
  "cron_char c \<longleftrightarrow> is_digit c \<or> c \<in> set ''*/,-''"

definition cron_field :: "string \<Rightarrow> bool" where
  "cron_field f \<longleftrightarrow> f \<noteq> [] \<and> list_all cron_char f"

datatype field_error = InvalidStep string | InvalidFieldRange string | InvalidFieldValue string | OutOfRange string int int

text \<open>The bounds of a part without its step.\<close>

definition part_bounds :: "string \<Rightarrow> string \<Rightarrow> field_error + int \<times> int" where
  "part_bounds part base =
     (case split_two base ''-'' of
        Some (a, b) \<Rightarrow>
          (case (go_atoi a, go_atoi b) of
             (Some lo, Some hi) \<Rightarrow> Inr (lo, hi)
           | _ \<Rightarrow> Inl (InvalidFieldRange part))
      | None \<Rightarrow> (case go_atoi base of Some v \<Rightarrow> Inr (v, v) | None \<Rightarrow> Inl (InvalidFieldValue part)))"

definition validate_part :: "int \<Rightarrow> int \<Rightarrow> string \<Rightarrow> field_error option" where
  "validate_part low high part =
     (if part = ''*'' then None
      else if has_prefix part ''*/'' then
        (case go_atoi (trim_prefix part ''*/'') of
           Some n \<Rightarrow> if n < 1 then Some (InvalidStep part) else None
         | None \<Rightarrow> Some (InvalidStep part))
      else
        (case part_bounds part (takeWhile (\<lambda>c. c \<noteq> CHR ''/'') part) of
           Inl e \<Rightarrow> Some e
         | Inr (lo, hi) \<Rightarrow>
             if lo < low \<or> lo > high \<or> hi < low \<or> hi > high then Some (OutOfRange part low high) else None))"

fun validate_parts :: "int \<Rightarrow> int \<Rightarrow> string list \<Rightarrow> field_error option" where
  "validate_parts low high [] = None"
| "validate_parts low high (p # ps) =
     (case validate_part low high (trim_space p) of Some e \<Rightarrow> Some e | None \<Rightarrow> validate_parts low high ps)"

definition validate_field :: "string \<Rightarrow> int \<Rightarrow> int \<Rightarrow> field_error option" where
  "validate_field field low high = validate_parts low high (split_on (CHR '','') field)"

definition describe_field :: "string \<Rightarrow> string" where
  "describe_field field =
     (let f = trim_space field
      in if f = ''*'' then ''every''
         else if has_prefix f ''*/'' then ''every '' @ trim_prefix f ''*/'' @ ''th''
         else f)"

definition match_part :: "int \<Rightarrow> int \<Rightarrow> int \<Rightarrow> string \<Rightarrow> bool" where
  "match_part value low high part =
     (if part = ''*'' then True
      else
        let stepped = (CHR ''/'' \<in> set part); base = takeWhile (\<lambda>c. c \<noteq> CHR ''/'') part;
            step = (if stepped then go_atoi (tl (dropWhile (\<lambda>c. c \<noteq> CHR ''/'') part)) else Some 1)
        in case step of
             None \<Rightarrow> False
           | Some st \<Rightarrow>
               if st < 1 then False
               else
                 (case (if base = ''*'' then Inr (low, high) else part_bounds part base) of
                    Inl _ \<Rightarrow> False
                  | Inr (lo, hi) \<Rightarrow> lo \<le> value \<and> value \<le> hi \<and> (st > 1 \<longrightarrow> (value - lo) mod st = 0)))"

definition match_field :: "string \<Rightarrow> int \<Rightarrow> int \<Rightarrow> int \<Rightarrow> bool" where
  "match_field field value low high =
     list_ex (\<lambda>p. match_part value low high (trim_space p)) (split_on (CHR '','') field)"

section \<open>The next time\<close>

record cron_fields =
  cf_minute :: string
  cf_hour :: string
  cf_dom :: string
  cf_month :: string
  cf_dow :: string

definition month_ok :: "cron_fields \<Rightarrow> int \<Rightarrow> bool" where
  "month_ok f t = match_field (cf_month f) (month_at t) 1 12"

definition dom_ok :: "cron_fields \<Rightarrow> int \<Rightarrow> bool" where
  "dom_ok f t = match_field (cf_dom f) (monthday_at t) 1 31"

definition dow_ok :: "cron_fields \<Rightarrow> int \<Rightarrow> bool" where
  "dow_ok f t = match_field (cf_dow f) (weekday_at t) 0 6"

definition hour_ok :: "cron_fields \<Rightarrow> int \<Rightarrow> bool" where
  "hour_ok f t = match_field (cf_hour f) (hour_at t) 0 23"

definition minute_ok :: "cron_fields \<Rightarrow> int \<Rightarrow> bool" where
  "minute_ok f t = match_field (cf_minute f) (minute_at t) 0 59"

text \<open>The loop from minute \<open>t\<close> up to the second \<open>limit\<close>: a day, an hour or a minute forward, whatever the clock shows.\<close>

function fire_loop :: "cron_fields \<Rightarrow> int \<Rightarrow> int \<Rightarrow> int option" where
  "fire_loop f limit t =
     (if \<not> 60 * t < limit then None
      else if \<not> month_ok f t then fire_loop f limit (t + 1440)
      else if \<not> dom_ok f t then fire_loop f limit (t + 1440)
      else if \<not> dow_ok f t then fire_loop f limit (t + 1440)
      else if \<not> hour_ok f t then fire_loop f limit (t + 60)
      else if \<not> minute_ok f t then fire_loop f limit (t + 1)
      else Some t)"
  by auto
termination
  by (relation "measure (\<lambda>(f, limit, t). nat (limit - 60 * t))") auto

declare fire_loop.simps [simp del]

text \<open>\<open>now\<close> is in seconds; the search begins with the next whole minute and ends 366 days ahead.\<close>

definition search_end :: "int \<Rightarrow> int" where
  "search_end now = now + 366 * 86400"

definition next_fire_time :: "cron_fields \<Rightarrow> int \<Rightarrow> int option" where
  "next_fire_time f now = fire_loop f (search_end now) ((now + 60) div 60)"

section \<open>The skill\<close>

definition cron_match :: "string \<Rightarrow> bool" where
  "cron_match query =
     (let q = to_lower (trim_space query); fields = str_fields q
      in contains_str q ''cron'' \<or> contains_str q ''crontab'' \<or> contains_str q ''schedule'' \<or>
         5 \<le> length fields \<and> list_all cron_field (take 5 fields))"

fun first_window :: "string list \<Rightarrow> string" where
  "first_window [] = []"
| "first_window (f # fs) =
     (if 5 \<le> length (f # fs) then
        (if list_all cron_field (take 5 (f # fs)) then join '' '' (take 5 (f # fs)) else first_window fs)
      else [])"

definition cron_prefixes :: "string list" where
  "cron_prefixes = [''parse cron '', ''cron schedule '', ''cron expression '', ''cron '', ''schedule '']"

definition extract_expression :: "string \<Rightarrow> string" where
  "extract_expression query =
     (let q = trim_space query; lower = to_lower q;
          q' = (case find (has_prefix lower) cron_prefixes of Some p \<Rightarrow> trim_space (drop (length p) q) | None \<Rightarrow> q);
          fields = str_fields q'
      in if 5 \<le> length fields \<and> cron_field (hd fields) then join '' '' (take 5 fields) else first_window fields)"

datatype cron_error = NoExpression string | TooFewFields nat string | FieldError string field_error

text \<open>The ranges of the five fields, in the order of the checks.\<close>

definition check_fields :: "cron_fields \<Rightarrow> cron_error option" where
  "check_fields f =
     (case validate_field (cf_minute f) 0 59 of Some e \<Rightarrow> Some (FieldError ''minute'' e) | None \<Rightarrow>
      (case validate_field (cf_hour f) 0 23 of Some e \<Rightarrow> Some (FieldError ''hour'' e) | None \<Rightarrow>
       (case validate_field (cf_dom f) 1 31 of Some e \<Rightarrow> Some (FieldError ''day-of-month'' e) | None \<Rightarrow>
        (case validate_field (cf_month f) 1 12 of Some e \<Rightarrow> Some (FieldError ''month'' e) | None \<Rightarrow>
         (case validate_field (cf_dow f) 0 6 of Some e \<Rightarrow> Some (FieldError ''day-of-week'' e) | None \<Rightarrow> None)))))"

definition fields_of :: "string list \<Rightarrow> cron_fields" where
  "fields_of fs = \<lparr>cf_minute = fs ! 0, cf_hour = fs ! 1, cf_dom = fs ! 2, cf_month = fs ! 3, cf_dow = fs ! 4\<rparr>"

definition field_line :: "string \<Rightarrow> string \<Rightarrow> string" where
  "field_line name field = name @ '': '' @ describe_field field @ [CHR 0x0A]"

definition cron_description :: "cron_fields \<Rightarrow> string" where
  "cron_description f =
     ''Expression: '' @ join '' '' [cf_minute f, cf_hour f, cf_dom f, cf_month f, cf_dow f] @ [CHR 0x0A] @
     field_line ''Minute'' (cf_minute f) @ field_line ''Hour'' (cf_hour f) @ field_line ''Day-of-month'' (cf_dom f) @
     field_line ''Month'' (cf_month f) @ field_line ''Day-of-week'' (cf_dow f)"

definition cron_execute :: "int \<Rightarrow> string \<Rightarrow> cron_error + string \<times> int option" where
  "cron_execute now query =
     (let e = extract_expression query; fields = str_fields e; f = fields_of fields
      in if e = [] then Inl (NoExpression query)
         else if length fields < 5 then Inl (TooFewFields (length fields) e)
         else case check_fields f of
             Some err \<Rightarrow> Inl err
           | None \<Rightarrow> Inr (cron_description f, next_fire_time f now))"

section \<open>What the search finds\<close>

definition fires_at :: "cron_fields \<Rightarrow> int \<Rightarrow> bool" where
  "fires_at f t \<longleftrightarrow> month_ok f t \<and> dom_ok f t \<and> dow_ok f t \<and> hour_ok f t \<and> minute_ok f t"

lemma fire_loop_sound: "fire_loop f limit t = Some u \<Longrightarrow> t \<le> u \<and> 60 * u < limit \<and> fires_at f u"
proof (induction f limit t rule: fire_loop.induct)
  case (1 f limit t)
  show ?case
  proof (cases "60 * t < limit \<and> fires_at f t")
    case True
    with "1.prems" show ?thesis by (simp add: fires_at_def fire_loop.simps [of f limit t])
  next
    case False
    with "1.prems" have "60 * t < limit" by (auto simp: fire_loop.simps [of f limit t] split: if_splits)
    with False have no: "\<not> fires_at f t" by simp
    from "1.prems" no consider "fire_loop f limit (t + 1440) = Some u" "\<not> (month_ok f t \<and> dom_ok f t \<and> dow_ok f t)"
      | "fire_loop f limit (t + 60) = Some u" "month_ok f t" "dom_ok f t" "dow_ok f t" "\<not> hour_ok f t"
      | "fire_loop f limit (t + 1) = Some u" "month_ok f t" "dom_ok f t" "dow_ok f t" "hour_ok f t" "\<not> minute_ok f t"
      by (auto simp: fire_loop.simps [of f limit t] fires_at_def split: if_splits)
    then show ?thesis
    proof cases
      case 1
      with "1.IH"(1,2,3) \<open>60 * t < limit\<close> show ?thesis by (cases "month_ok f t"; cases "dom_ok f t") force+
    next
      case 2
      with "1.IH"(4) \<open>60 * t < limit\<close> show ?thesis by force
    next
      case 3
      with "1.IH"(5) \<open>60 * t < limit\<close> show ?thesis by force
    qed
  qed
qed

text \<open>When only the minute is restricted the search moves by minutes and cannot pass a match.\<close>

lemma fire_loop_first:
  assumes "\<forall>u. month_ok f u \<and> dom_ok f u \<and> dow_ok f u \<and> hour_ok f u"
  shows "t \<le> u \<Longrightarrow> 60 * u < limit \<Longrightarrow> fires_at f u \<Longrightarrow> \<exists>v. fire_loop f limit t = Some v \<and> v \<le> u"
proof (induction "nat (u - t)" arbitrary: t)
  case 0
  then show ?case by (auto simp: fire_loop.simps [of f limit t] fires_at_def)
next
  case (Suc n)
  show ?case
  proof (cases "minute_ok f t")
    case True
    with assms Suc.prems Suc.hyps(2) show ?thesis by (auto simp: fire_loop.simps [of f limit t])
  next
    case False
    from Suc.hyps(1) [of "t + 1"] Suc.hyps(2) Suc.prems have "\<exists>v. fire_loop f limit (t + 1) = Some v \<and> v \<le> u" by simp
    with False assms Suc.prems Suc.hyps(2) show ?thesis by (auto simp: fire_loop.simps [of f limit t])
  qed
qed

text \<open>
  A time that the cron skill announces lies after the present and less than 366 days ahead, and it satisfies all five
  fields. It is the first such time when the other four fields allow everything, so that only the minute is restricted.
\<close>

lemma announced_time_fires:
  assumes "next_fire_time f now = Some t"
  shows "now < 60 * t" "60 * t < search_end now" "fires_at f t"
    and "\<forall>u. month_ok f u \<and> dom_ok f u \<and> dow_ok f u \<and> hour_ok f u \<Longrightarrow> now < 60 * u \<Longrightarrow> fires_at f u \<Longrightarrow> t \<le> u"
proof -
  from fire_loop_sound [OF assms [unfolded next_fire_time_def]]
  show fires: "now < 60 * t" "60 * t < search_end now" "fires_at f t" by auto
  assume all: "\<forall>u. month_ok f u \<and> dom_ok f u \<and> dow_ok f u \<and> hour_ok f u" and u: "now < 60 * u" "fires_at f u"
  show "t \<le> u"
  proof (rule ccontr)
    assume "\<not> t \<le> u"
    with fires have "60 * u < search_end now" by simp
    moreover have "(now + 60) div 60 \<le> u" using u(1) by simp
    ultimately obtain v where "fire_loop f (search_end now) ((now + 60) div 60) = Some v" "v \<le> u"
      using fire_loop_first [OF all _ _ u(2)] by blast
    with assms \<open>\<not> t \<le> u\<close> show False by (simp add: next_fire_time_def)
  qed
qed

section \<open>Examples\<close>

text \<open>The calendar: 1 January 1970, 29 February 2024, 1 March 2100, 31 December 1999.\<close>

lemma calendar_examples:
  "civil_month_day 0 = (1, 1)" "civil_month_day 19782 = (2, 29)" "civil_month_day 47541 = (3, 1)" "civil_month_day 10956 = (12, 31)"
  by code_simp+

definition twelve_thirty :: cron_fields where
  "twelve_thirty = \<lparr>cf_minute = ''30'', cf_hour = ''12'', cf_dom = ''*'', cf_month = ''*'', cf_dow = ''*''\<rparr>"

definition every_quarter :: cron_fields where
  "every_quarter = \<lparr>cf_minute = ''*/15'', cf_hour = ''*'', cf_dom = ''*'', cf_month = ''*'', cf_dow = ''*''\<rparr>"

text \<open>
  The steps keep the minute, and the day's steps the hour: asked at 10:45 for \<open>30 12 * * *\<close>, the search passes 12:30 of the
  same day and announces the next day.
\<close>

lemma same_day_passed_over:
  "fires_at twelve_thirty (12 * 60 + 30)" "next_fire_time twelve_thirty (10 * 3600 + 45 * 60) = Some (1440 + 12 * 60 + 30)"
  by code_simp+

text \<open>Validation does not look at the step of a range, and such a field never fires.\<close>

lemma bad_step_accepted: "validate_field ''1-5/x'' 0 59 = None" "\<not> match_field ''1-5/x'' v 0 59"
  by (code_simp, simp add: match_field_def match_part_def go_atoi_def trim_space_def trim_right_def is_space_def is_digit_def byte_def)

lemma announced_time_fires_witness:
  "next_fire_time every_quarter 0 = Some 15 \<and> fires_at every_quarter 15"
proof -
  have next15: "next_fire_time every_quarter 0 = Some 15" by code_simp
  from announced_time_fires(3) [OF next15] next15 show ?thesis by simp
qed

end
