(* ===== verification/Activity_Log.thy ===== *)
theory Activity_Log
  imports Delegation Kyoci_Types
begin

text \<open>
  What a user sees of the tool calls of a task: the summaries of a call in the agent (\<open>internal/agent/loop.go\<close>) and the
  footer and the log of recent tasks in the gateway (\<open>internal/gateway/activity.go\<close>, with the icons of \<open>telegram.go\<close>).
  Decoding a JSON object and printing a number with one decimal are parameters.
\<close>

section \<open>Summaries in the agent\<close>

text \<open>A text value of the arguments, when the key is present and a text.\<close>

definition text_value :: "go_params \<Rightarrow> string \<Rightarrow> string option" where
  "text_value args key = (case args key of Some (GoString s) \<Rightarrow> Some s | _ \<Rightarrow> None)"

definition action_or_read :: "go_params \<Rightarrow> string" where
  "action_or_read params = (let a = text_param params ''action'' in if a = [] then ''read'' else a)"

definition summarize_tool_args :: "string \<Rightarrow> go_params \<Rightarrow> string" where
  "summarize_tool_args name params =
     (if name = ''file'' then action_or_read params @ '' '' @ text_param params ''path''
      else if name = ''grep'' then ''pattern='' @ text_param params ''pattern''
      else if name = ''glob'' then text_param params ''pattern''
      else if name = ''git'' then text_param params ''subcommand''
      else if name = ''codesearch'' then text_param params ''pattern''
      else if name = ''lsp'' then text_param params ''operation''
      else [])"

definition summarize_tool_detail :: "string \<Rightarrow> go_params \<Rightarrow> string" where
  "summarize_tool_detail name params =
     (if name = ''file'' then
        (let action = action_or_read params; path = text_param params ''path''
         in if action = ''read'' then ''Reading '' @ path
            else if action = ''write'' then ''Writing '' @ path
            else if action = ''list'' then ''Listing '' @ path
            else if action = ''search'' then ''Searching in '' @ path
            else action @ '' '' @ path)
      else if name = ''grep'' then ''Searching for '' @ text_param params ''pattern''
      else if name = ''glob'' then ''Finding '' @ text_param params ''pattern''
      else if name = ''git'' then ''git '' @ text_param params ''subcommand''
      else if name = ''codesearch'' then ''Searching '' @ text_param params ''pattern''
      else if name = ''lsp'' then ''LSP '' @ text_param params ''operation''
      else [])"

text \<open>The summary of a call from its arguments; nothing when they do not decode or the leading key is missing.\<close>

definition summarize_decoded :: "string \<Rightarrow> go_params \<Rightarrow> string" where
  "summarize_decoded tool args =
     (if tool = ''terminal'' then
        (case text_value args ''command'' of
           Some cmd \<Rightarrow> if 100 < length cmd then take 100 cmd @ ''...'' else cmd
         | None \<Rightarrow> [])
      else if tool = ''file'' then
        (case text_value args ''action'' of Some a \<Rightarrow> a @ '' '' @ text_param args ''path'' | None \<Rightarrow> [])
      else if tool = ''browser'' then
        (case text_value args ''action'' of
           Some a \<Rightarrow> (let url = text_param args ''url'' in if url \<noteq> [] then a @ '' '' @ url else a)
         | None \<Rightarrow> [])
      else if tool = ''http_client'' then
        (case text_value args ''method'' of Some m \<Rightarrow> m @ '' '' @ text_param args ''url'' | None \<Rightarrow> [])
      else if tool = ''web_search'' then
        (case text_value args ''query'' of Some q \<Rightarrow> ''search: '' @ q | None \<Rightarrow> [])
      else if tool = ''todo'' then
        (case text_value args ''action'' of Some a \<Rightarrow> ''todo: '' @ a | None \<Rightarrow> [])
      else if tool = ''delegation'' then
        (case text_value args ''action'' of
           Some a \<Rightarrow> (let goal = text_param args ''goal'' in if goal \<noteq> [] then a @ '': '' @ truncate_str goal 60 else a)
         | None \<Rightarrow> [])
      else if tool = ''remember'' then
        (case text_value args ''key'' of Some k \<Rightarrow> k @ '' = '' @ truncate_str (text_param args ''value'') 50 | None \<Rightarrow> [])
      else if tool = ''memory_recall'' then
        (case text_value args ''query'' of Some q \<Rightarrow> ''recall: '' @ q | None \<Rightarrow> [])
      else if tool = ''skill'' then
        (case text_value args ''action'' of Some a \<Rightarrow> a @ '' '' @ text_param args ''name'' | None \<Rightarrow> [])
      else if tool = ''security_scan'' then
        (case text_value args ''path'' of Some p \<Rightarrow> ''scan: '' @ p | None \<Rightarrow> [])
      else [])"

definition summarize_tool_call :: "(string \<Rightarrow> string + go_params) \<Rightarrow> string \<Rightarrow> string \<Rightarrow> string" where
  "summarize_tool_call unmarshal tool args_json =
     (case parse_tool_call_arguments unmarshal args_json of Inl _ \<Rightarrow> [] | Inr args \<Rightarrow> summarize_decoded tool args)"

definition summarize_result :: "string \<Rightarrow> nat \<Rightarrow> string" where
  "summarize_result result max_len =
     (let r = trim_space result
      in if length r \<le> max_len then r
         else case find (\<lambda>l. 10 < length l) (map trim_space (split_on (CHR 0x0A) r)) of
             Some l \<Rightarrow> truncate_str l max_len
           | None \<Rightarrow> truncate_str r max_len)"

section \<open>Icons\<close>

definition check_mark :: string where
  "check_mark = [CHR 0xE2, CHR 0x9C, CHR 0x85]"

definition cross_mark :: string where
  "cross_mark = [CHR 0xE2, CHR 0x9D, CHR 0x8C]"

definition ellipsis :: string where
  "ellipsis = [CHR 0xE2, CHR 0x80, CHR 0xA6]"

definition middle_dot :: string where
  "middle_dot = [CHR 0xC2, CHR 0xB7]"

definition status_mark :: "bool \<Rightarrow> string" where
  "status_mark ok = (if ok then check_mark else cross_mark)"

definition robot :: string where
  "robot = [CHR 0xF0, CHR 0x9F, CHR 0xA4, CHR 0x96]"

definition role_icons :: "(string \<times> string) list" where
  "role_icons =
     [(''developer'', [CHR 0xF0, CHR 0x9F, CHR 0x91, CHR 0xA8] @ [CHR 0xE2, CHR 0x80, CHR 0x8D] @ [CHR 0xF0, CHR 0x9F, CHR 0x92, CHR 0xBB]),
      (''sre'', [CHR 0xF0, CHR 0x9F, CHR 0x9B, CHR 0xA1] @ [CHR 0xEF, CHR 0xB8, CHR 0x8F]),
      (''qa'', [CHR 0xF0, CHR 0x9F, CHR 0xA7, CHR 0xAA]),
      (''pm'', [CHR 0xF0, CHR 0x9F, CHR 0x93, CHR 0x8B]),
      (''frontend'', [CHR 0xF0, CHR 0x9F, CHR 0x8E, CHR 0xA8]),
      (''custom'', [CHR 0xF0, CHR 0x9F, CHR 0xA4, CHR 0x96])]"

definition role_icon_for_role :: "string \<Rightarrow> string" where
  "role_icon_for_role role = (case map_of role_icons role of Some i \<Rightarrow> i | None \<Rightarrow> robot)"

definition tool_icons :: "(string \<times> string) list" where
  "tool_icons =
     [(''terminal'', [CHR 0xE2, CHR 0x9A, CHR 0xA1]),
      (''file'', [CHR 0xF0, CHR 0x9F, CHR 0x93, CHR 0x84]),
      (''browser'', [CHR 0xF0, CHR 0x9F, CHR 0x8C, CHR 0x90]),
      (''docs'', [CHR 0xF0, CHR 0x9F, CHR 0x93, CHR 0x9A]),
      (''http_client'', [CHR 0xF0, CHR 0x9F, CHR 0x94, CHR 0x97]),
      (''web_search'', [CHR 0xF0, CHR 0x9F, CHR 0x94, CHR 0x8D]),
      (''calculator'', [CHR 0xF0, CHR 0x9F, CHR 0xA7, CHR 0xAE]),
      (''todo'', [CHR 0xF0, CHR 0x9F, CHR 0x93, CHR 0x9D]),
      (''skill'', [CHR 0xF0, CHR 0x9F, CHR 0x92, CHR 0xA1]),
      (''process'', [CHR 0xE2, CHR 0x9A, CHR 0x99] @ [CHR 0xEF, CHR 0xB8, CHR 0x8F]),
      (''memory_recall'', [CHR 0xF0, CHR 0x9F, CHR 0xA7, CHR 0xA0]),
      (''remember'', [CHR 0xF0, CHR 0x9F, CHR 0x92, CHR 0xBE]),
      (''delegation'', [CHR 0xF0, CHR 0x9F, CHR 0xA4, CHR 0x96]),
      (''security_scan'', [CHR 0xF0, CHR 0x9F, CHR 0x9B, CHR 0xA1] @ [CHR 0xEF, CHR 0xB8, CHR 0x8F])]"

definition tool_icon :: "string \<Rightarrow> string" where
  "tool_icon tool = (case map_of tool_icons tool of Some i \<Rightarrow> i | None \<Rightarrow> [CHR 0xF0, CHR 0x9F, CHR 0x94, CHR 0xA7])"

section \<open>Details and footers\<close>

definition short_path :: "string \<Rightarrow> string" where
  "short_path path =
     (let p = trim_space path; segs = split_on (CHR ''/'') p
      in if length segs \<le> 3 then p else ellipsis @ join ''/'' (drop (length segs - 3) segs))"

definition cut_at :: "string \<Rightarrow> nat \<Rightarrow> string" where
  "cut_at s n = (if n < length s then take n s @ ellipsis else s)"

definition first_line :: "string \<Rightarrow> string" where
  "first_line cmd = (let l = takeWhile (\<lambda>c. c \<noteq> CHR 0x0A) cmd in if l = [] then cmd else l)"

definition tool_detail :: "string \<Rightarrow> go_params \<Rightarrow> string" where
  "tool_detail tool args =
     (if tool = ''file'' then
        (let op0 = text_param args ''operation'';
             op = (if op0 = [] then (if args ''content'' \<noteq> None then ''write'' else ''read'') else op0);
             path = text_param args ''path''
         in if path \<noteq> [] then op @ '' '' @ short_path path else op)
      else if tool = ''terminal'' then
        (let cmd = text_param args ''command'' in if cmd = [] then [] else cut_at (first_line cmd) 60)
      else if tool = ''browser'' then
        (let url = text_param args ''url'' in if url \<noteq> [] then ''open '' @ cut_at url 50 else text_param args ''action'')
      else if tool = ''web_search'' then
        (let q = text_param args ''query'' in if q \<noteq> [] then ''search: '' @ q else [])
      else if tool = ''http_client'' then
        (let url = text_param args ''url'' in if url \<noteq> [] then text_param args ''method'' @ '' '' @ cut_at url 50 else [])
      else if tool = ''calculator'' then text_param args ''expression''
      else if tool = ''delegation'' then
        (let goal = text_param args ''goal'' in if goal \<noteq> [] then ''delegate: '' @ cut_at goal 60 else [])
      else [])"

definition tool_detail_from_args :: "(string \<Rightarrow> string + go_params) \<Rightarrow> string \<Rightarrow> string \<Rightarrow> string" where
  "tool_detail_from_args unmarshal tool args_json =
     (if args_json = [] then []
      else case unmarshal args_json of Inl _ \<Rightarrow> [] | Inr args \<Rightarrow> tool_detail tool args)"

record tool_call_entry =
  te_tool :: string
  te_args :: string
  te_success :: bool
  te_duration_ms :: int

record activity_result =
  ar_content :: string
  ar_role :: string
  ar_tool_calls :: int
  ar_tool_log :: "tool_call_entry list"
  ar_iterations :: int
  ar_tokens_used :: int

text \<open>Durations are in nanoseconds; a quotient is cut towards zero.\<close>

definition go_div :: "int \<Rightarrow> int \<Rightarrow> int" where
  "go_div a b = (if (a < 0) = (b < 0) then \<bar>a\<bar> div \<bar>b\<bar> else - (\<bar>a\<bar> div \<bar>b\<bar>))"

definition format_duration :: "(rat \<Rightarrow> string) \<Rightarrow> int \<Rightarrow> string" where
  "format_duration one_decimal d =
     (if d < 1000000000 then itoa (go_div d 1000000) @ ''ms'' else one_decimal (of_int d / 1000000000) @ ''s'')"

definition tokens_text :: "(rat \<Rightarrow> string) \<Rightarrow> int \<Rightarrow> string" where
  "tokens_text one_decimal n =
     (if 0 < n then (if 1000 \<le> n then one_decimal (of_int n / 1000) @ ''k'' else itoa n) else [])"

definition line_feed :: string where
  "line_feed = [CHR 0x0A]"

definition footer_tool_line :: "tool_call_entry \<Rightarrow> string" where
  "footer_tool_line tc =
     status_mark (te_success tc) @ '' '' @ tool_icon (te_tool tc) @ te_tool tc @ '' '' @ middle_dot @ '' <code>'' @
     itoa (te_duration_ms tc) @ ''ms</code>''"

definition format_footer :: "(rat \<Rightarrow> string) \<Rightarrow> activity_result \<Rightarrow> int \<Rightarrow> string" where
  "format_footer one_decimal a duration =
     (let summary0 = join line_feed (map footer_tool_line (ar_tool_log a));
          summary = (if summary0 = [] then [CHR 0xF0, CHR 0x9F, CHR 0x93, CHR 0x8B] @ '' no tools used'' else summary0);
          tokens = tokens_text one_decimal (ar_tokens_used a)
      in role_icon_for_role (ar_role a) @ '' <b>'' @ ar_role a @ ''</b>  '' @ middle_dot @ ''  '' @ [CHR 0xE2, CHR 0x8F, CHR 0xB1] @ '' <code>'' @
         format_duration one_decimal duration @ ''</code>  '' @ middle_dot @ ''  '' @ [CHR 0xF0, CHR 0x9F, CHR 0x94, CHR 0x81] @ '' '' @ itoa (ar_iterations a) @ '' iters'' @
         (if tokens \<noteq> [] then ''  '' @ middle_dot @ ''  '' @ [CHR 0xF0, CHR 0x9F, CHR 0xAA, CHR 0x99] @ '' '' @ tokens @ '' tok'' else []) @ line_feed @ summary)"

definition compact_tool_line :: "(string \<Rightarrow> string + go_params) \<Rightarrow> tool_call_entry \<Rightarrow> string" where
  "compact_tool_line unmarshal tc =
     (let detail = tool_detail_from_args unmarshal (te_tool tc) (te_args tc)
      in line_feed @ status_mark (te_success tc) @ '' '' @ tool_icon (te_tool tc) @ '' '' @
         (if detail \<noteq> [] then detail else te_tool tc))"

definition format_compact_footer ::
  "(rat \<Rightarrow> string) \<Rightarrow> (string \<Rightarrow> string + go_params) \<Rightarrow> activity_result \<Rightarrow> int \<Rightarrow> string" where
  "format_compact_footer one_decimal unmarshal r duration =
     (let tokens = tokens_text one_decimal (ar_tokens_used r); tools = ar_tool_log r;
          passed = length (filter te_success tools); failed = length (filter (\<lambda>tc. \<not> te_success tc) tools)
      in role_icon_for_role (ar_role r) @ '' **'' @ ar_role r @ ''** '' @ middle_dot @ '' `'' @ format_duration one_decimal duration @
         ''` '' @ middle_dot @ '' '' @ [CHR 0xF0, CHR 0x9F, CHR 0x94, CHR 0x81] @ '' '' @ itoa (ar_iterations r) @ '' iters'' @
         (if tokens \<noteq> [] then '' '' @ middle_dot @ '' '' @ [CHR 0xF0, CHR 0x9F, CHR 0xAA, CHR 0x99] @ '' '' @ tokens @ '' tok'' else []) @
         (if tools \<noteq> [] then
            '' '' @ middle_dot @ '' '' @ itoa (int (length tools)) @ '' tools '' @
            (if 0 < failed then
               ''('' @ itoa (int passed) @ check_mark @ '' '' @ itoa (int failed) @ cross_mark @ '')''
             else check_mark)
          else []) @
         concat (map (compact_tool_line unmarshal) tools))"

section \<open>The log of recent tasks\<close>

record activity_entry =
  ae_timestamp :: int
  ae_task :: string
  ae_role :: string
  ae_success :: bool
  ae_tool_calls :: int
  ae_duration :: int
  ae_tokens :: int

record activity_tracker =
  at_entries :: "activity_entry list"
  at_max :: nat

definition new_activity_tracker :: "int \<Rightarrow> activity_tracker" where
  "new_activity_tracker max_len = \<lparr>at_entries = [], at_max = (if max_len \<le> 0 then 50 else nat max_len)\<rparr>"

definition record_activity :: "activity_tracker \<Rightarrow> activity_entry \<Rightarrow> activity_tracker" where
  "record_activity tr e =
     (let es = at_entries tr @ [e]
      in tr\<lparr>at_entries := (if at_max tr < length es then drop (length es - at_max tr) es else es)\<rparr>)"

text \<open>The last \<open>n\<close> entries, the newest first: entry \<open>i\<close> of the result is entry \<open>len - 1 - i\<close> of the log.\<close>

definition recent_activity :: "activity_tracker \<Rightarrow> int \<Rightarrow> activity_entry list" where
  "recent_activity tr n =
     (let len = length (at_entries tr); m = (if n \<le> 0 \<or> int len < n then len else nat n)
      in map (\<lambda>i. at_entries tr ! (len - 1 - i)) [0..<m])"

definition recent_line :: "(rat \<Rightarrow> string) \<Rightarrow> nat \<times> activity_entry \<Rightarrow> string" where
  "recent_line one_decimal =
     (\<lambda>(i, e).
        let task = (if 60 < length (ae_task e) then take 57 (ae_task e) @ ''...'' else ae_task e)
        in itoa (int i + 1) @ ''. '' @ status_mark (ae_success e) @ '' '' @ role_icon_for_role (ae_role e) @ '' '' @ ae_role e @
           line_feed @ ''   '' @ task @ '' | '' @ itoa (ae_tool_calls e) @ '' tools | '' @
           format_duration one_decimal (ae_duration e) @ line_feed @ line_feed)"

definition format_recent :: "(rat \<Rightarrow> string) \<Rightarrow> activity_tracker \<Rightarrow> int \<Rightarrow> string" where
  "format_recent one_decimal tr n =
     (let es = recent_activity tr n
      in if es = [] then ''No activity yet.''
         else [CHR 0xF0, CHR 0x9F, CHR 0x93, CHR 0x8A] @ '' Last '' @ itoa (int (length es)) @ '' activities:'' @ line_feed @ line_feed @
              concat (map (recent_line one_decimal) (enumerate 0 es)))"

text \<open>Number of entries, of successes, the mean duration and the tools used.\<close>

definition activity_stats :: "activity_tracker \<Rightarrow> int \<times> int \<times> int \<times> int" where
  "activity_stats tr =
     (let es = at_entries tr
      in if es = [] then (0, 0, 0, 0)
         else (int (length es), int (length (filter ae_success es)),
               go_div (sum_list (map ae_duration es)) (int (length es)), sum_list (map ae_tool_calls es)))"

section \<open>What is kept and shown\<close>

lemma record_activity_window: "at_entries (record_activity tr e) = last_n (at_max tr) (at_entries tr @ [e])"
  by (simp add: record_activity_def last_n_def Let_def)

lemma at_max_record [simp]: "at_max (record_activity tr e) = at_max tr"
  by (simp add: record_activity_def Let_def)

text \<open>The tracker with its size fixed is a window of the entries.\<close>

definition record_in :: "nat \<Rightarrow> activity_entry list \<Rightarrow> activity_entry \<Rightarrow> activity_entry list" where
  "record_in m es e = at_entries (record_activity \<lparr>at_entries = es, at_max = m\<rparr> e)"

interpretation activity_window: window_buffer "record_in m" "\<lambda>es. es" m for m
  by unfold_locales (simp add: record_in_def record_activity_window)

lemma recorded_entries: "at_entries (foldl record_activity tr es) = foldl (record_in (at_max tr)) (at_entries tr) es"
  by (induction es arbitrary: tr) (simp_all add: record_in_def record_activity_window)

lemma recent_all: "n \<le> 0 \<or> int (length (at_entries tr)) \<le> n \<Longrightarrow> recent_activity tr n = rev (at_entries tr)"
  by (cases "n \<le> 0 \<or> int (length (at_entries tr)) < n")
    (auto simp: recent_activity_def Let_def rev_nth intro!: nth_equalityI)

lemma recent_take: "0 < n \<Longrightarrow> recent_activity tr n = take (nat n) (rev (at_entries tr))"
  by (auto simp: recent_activity_def Let_def rev_nth intro!: nth_equalityI)

text \<open>
  Whatever number of tasks has been recorded, the activity log of a new tracker shows the last of them, at most as many as
  the size of the tracker and as asked for, the newest first.
\<close>

lemma recent_tasks_newest_first:
  assumes "0 < n" "0 < window"
  shows "recent_activity (foldl record_activity (new_activity_tracker window) es) n = take (min (nat n) (nat window)) (rev es)"
proof -
  let ?tr = "foldl record_activity (new_activity_tracker window) es"
  have "at_entries ?tr = last_n (nat window) es"
    using assms(2) activity_window.items_run [of "[]" "nat window" es]
    by (simp add: recorded_entries) (simp add: new_activity_tracker_def)
  then have "rev (at_entries ?tr) = take (nat window) (rev es)" by (simp add: last_n_def take_rev)
  with assms(1) show ?thesis by (simp add: recent_take)
qed

definition demo_entry :: "int \<Rightarrow> activity_entry" where
  "demo_entry i =
     \<lparr>ae_timestamp = i, ae_task = [], ae_role = [], ae_success = True, ae_tool_calls = 0, ae_duration = 0, ae_tokens = 0\<rparr>"

lemma recent_tasks_newest_first_witness:
  "recent_activity (foldl record_activity (new_activity_tracker 2) (map demo_entry [1, 2, 3])) 5 = map demo_entry [3, 2]"
  using recent_tasks_newest_first [of 5 2 "map demo_entry [1, 2, 3]"] by (simp add: eval_nat_numeral)

text \<open>
  The agent's summaries ask for the \<open>action\<close> of a call of the file tool, which that tool does not have: a write that its
  parameters describe is shown as a read.
\<close>

lemma file_writes_shown_as_reads:
  assumes "params ''action'' = None" "text_param params ''path'' = p"
  shows "summarize_tool_detail ''file'' params = ''Reading '' @ p" "summarize_tool_args ''file'' params = ''read '' @ p"
    "summarize_decoded ''file'' params = []"
  using assms by (simp_all add: summarize_tool_detail_def summarize_tool_args_def summarize_decoded_def action_or_read_def
      text_value_def text_param_def Let_def)

lemma short_path_segments: "length (split_on (CHR ''/'') (trim_space p)) \<le> 3 \<Longrightarrow> short_path p = trim_space p"
  by (simp add: short_path_def)

lemma summarize_result_length: "length (summarize_result result n) \<le> n + 3"
  using length_truncate_str [of _ n] by (auto simp: summarize_result_def Let_def split: option.splits)

end
