(* ===== verification/App_Errors.thy ===== *)
theory App_Errors
  imports Main
begin

text \<open>
  The error type of the backend (\<open>internal/apperr\<close>): kinds, chains of wrapped errors, matching by code, and the status codes of
  a kind. An error is one of the package's own, an error of the library that wraps another, or a plain one; an error is
  equal to another by its code, as \<open>Is\<close> compares them, or by being the same value (which Go decides by its address).
\<close>

datatype kind = KindUnknown | KindNotFound | KindUnavailable | KindInvalid | KindUnauthorized | KindConflict | KindInternal
  | KindCircuitOpen | KindProviderExhausted | KindDeadline | KindCanceled | KindNotImplemented

datatype err =
    AppErr (ae_code: string) (ae_kind: kind) (ae_message: string) (ae_cause: "err option") (ae_fields: "(string \<times> string) list")
  | Wrapping string err
  | PlainErr string

section \<open>Construction and text\<close>

definition new_err :: "string \<Rightarrow> kind \<Rightarrow> string \<Rightarrow> err" where
  "new_err code k message = AppErr code k message None []"

definition wrap_err :: "string \<Rightarrow> kind \<Rightarrow> err \<Rightarrow> string \<Rightarrow> err" where
  "wrap_err code k cause message = AppErr code k message (Some cause) []"

text \<open>\<open>With\<close> is a method of the package's own errors.\<close>

definition with_field :: "string \<Rightarrow> string \<Rightarrow> err \<Rightarrow> err" where
  "with_field key v e =
     (case e of
        AppErr code k message cause fields \<Rightarrow>
          AppErr code k message cause ((key, v) # filter (\<lambda>f. fst f \<noteq> key) fields)
      | _ \<Rightarrow> e)"

fun err_string :: "err \<Rightarrow> string" where
  "err_string (AppErr code k message None fields) = message"
| "err_string (AppErr code k message (Some cause) fields) = message @ '': '' @ err_string cause"
| "err_string (Wrapping text e) = text"
| "err_string (PlainErr text) = text"

fun unwrap :: "err \<Rightarrow> err option" where
  "unwrap (AppErr code k message cause fields) = cause"
| "unwrap (Wrapping text e) = Some e"
| "unwrap (PlainErr text) = None"

section \<open>Chains\<close>

text \<open>\<open>errors.As\<close> with the package's type: the first of its errors in the chain.\<close>

fun as_error :: "err \<Rightarrow> err option" where
  "as_error (AppErr code k message cause fields) = Some (AppErr code k message cause fields)"
| "as_error (Wrapping text e) = as_error e"
| "as_error (PlainErr text) = None"

definition is_method :: "err \<Rightarrow> err \<Rightarrow> bool" where
  "is_method e target = (case as_error target of None \<Rightarrow> False | Some t \<Rightarrow> ae_code e \<noteq> [] \<and> ae_code e = ae_code t)"

text \<open>\<open>errors.Is\<close>: equality or the method, along the chain.\<close>

fun errors_is :: "err \<Rightarrow> err \<Rightarrow> bool" where
  "errors_is (AppErr code k message cause fields) target \<longleftrightarrow>
     AppErr code k message cause fields = target \<or> is_method (AppErr code k message cause fields) target \<or>
     (case cause of None \<Rightarrow> False | Some c \<Rightarrow> errors_is c target)"
| "errors_is (Wrapping text e) target \<longleftrightarrow> Wrapping text e = target \<or> errors_is e target"
| "errors_is (PlainErr text) target \<longleftrightarrow> PlainErr text = target"

definition kind_of :: "err option \<Rightarrow> kind" where
  "kind_of e = (case Option.bind e as_error of Some a \<Rightarrow> ae_kind a | None \<Rightarrow> KindUnknown)"

definition is_kind :: "err option \<Rightarrow> kind list \<Rightarrow> bool" where
  "is_kind e kinds = list_ex (\<lambda>k. kind_of e = k) kinds"

definition has_code :: "err option \<Rightarrow> string \<Rightarrow> bool" where
  "has_code e code = (case Option.bind e as_error of Some a \<Rightarrow> ae_code a = code | None \<Rightarrow> False)"

section \<open>Status codes\<close>

fun kind_string :: "kind \<Rightarrow> string" where
  "kind_string KindNotFound = ''not_found''"
| "kind_string KindUnavailable = ''unavailable''"
| "kind_string KindInvalid = ''invalid''"
| "kind_string KindUnauthorized = ''unauthorized''"
| "kind_string KindConflict = ''conflict''"
| "kind_string KindInternal = ''internal''"
| "kind_string KindCircuitOpen = ''circuit_open''"
| "kind_string KindProviderExhausted = ''provider_exhausted''"
| "kind_string KindDeadline = ''deadline''"
| "kind_string KindCanceled = ''canceled''"
| "kind_string KindNotImplemented = ''not_implemented''"
| "kind_string KindUnknown = ''unknown''"

fun code_to_http :: "kind \<Rightarrow> int" where
  "code_to_http KindNotFound = 404"
| "code_to_http KindUnavailable = 503"
| "code_to_http KindCircuitOpen = 503"
| "code_to_http KindProviderExhausted = 503"
| "code_to_http KindInvalid = 400"
| "code_to_http KindUnauthorized = 401"
| "code_to_http KindConflict = 409"
| "code_to_http KindDeadline = 504"
| "code_to_http KindCanceled = 499"
| "code_to_http KindNotImplemented = 501"
| "code_to_http KindInternal = 500"
| "code_to_http KindUnknown = 500"

datatype grpc_code = GrpcNotFound | GrpcUnavailable | GrpcInvalidArgument | GrpcUnauthenticated | GrpcAlreadyExists
  | GrpcDeadlineExceeded | GrpcCanceled | GrpcUnimplemented | GrpcInternal

fun code_to_grpc :: "kind \<Rightarrow> grpc_code \<times> string" where
  "code_to_grpc k =
     ((case k of
         KindNotFound \<Rightarrow> GrpcNotFound
       | KindUnavailable \<Rightarrow> GrpcUnavailable
       | KindCircuitOpen \<Rightarrow> GrpcUnavailable
       | KindProviderExhausted \<Rightarrow> GrpcUnavailable
       | KindInvalid \<Rightarrow> GrpcInvalidArgument
       | KindUnauthorized \<Rightarrow> GrpcUnauthenticated
       | KindConflict \<Rightarrow> GrpcAlreadyExists
       | KindDeadline \<Rightarrow> GrpcDeadlineExceeded
       | KindCanceled \<Rightarrow> GrpcCanceled
       | KindNotImplemented \<Rightarrow> GrpcUnimplemented
       | _ \<Rightarrow> GrpcInternal),
      kind_string k)"

definition err_sentinels :: "err list" where
  "err_sentinels =
     [new_err ''not_found'' KindNotFound ''not found'', new_err ''unavailable'' KindUnavailable ''unavailable'',
      new_err ''invalid'' KindInvalid ''invalid'', new_err ''unauthorized'' KindUnauthorized ''unauthorized'',
      new_err ''conflict'' KindConflict ''conflict'', new_err ''internal'' KindInternal ''internal error'',
      new_err ''deadline'' KindDeadline ''deadline exceeded'', new_err ''canceled'' KindCanceled ''canceled'',
      new_err ''not_implemented'' KindNotImplemented ''not implemented'',
      new_err ''llm.circuit_open'' KindCircuitOpen ''circuit breaker is open'',
      new_err ''llm.no_available_providers'' KindProviderExhausted ''no available providers'',
      new_err ''llm.no_providers'' KindProviderExhausted ''no providers available'',
      new_err ''orchestrator.not_started'' KindInternal
        (''orchestrator not started '' @ [CHR 0xE2, CHR 0x80, CHR 0x94] @ '' call Start() first'')]"

section \<open>What matches\<close>

lemma sentinel_codes: "distinct (map ae_code err_sentinels)" "list_all (\<lambda>s. ae_code s \<noteq> [] \<and> as_error s = Some s) err_sentinels"
  by code_simp+

lemma ae_code_with_field [simp]: "ae_code (with_field key v e) = ae_code e"
  by (cases e) (simp_all add: with_field_def)

text \<open>A chain: every error on the way from an error to one that it wraps.\<close>

inductive wraps :: "err \<Rightarrow> err \<Rightarrow> bool" where
  Here: "wraps e e"
| Deeper: "unwrap e = Some c \<Longrightarrow> wraps c d \<Longrightarrow> wraps e d"

lemma errors_is_unwrap: "unwrap e = Some c \<Longrightarrow> errors_is c target \<Longrightarrow> errors_is e target"
  by (cases e) auto

lemma errors_is_chain: "wraps e d \<Longrightarrow> errors_is d target \<Longrightarrow> errors_is e target"
  by (induction rule: wraps.induct) (auto intro: errors_is_unwrap)

lemma sentinel_found:
  assumes "s \<in> set err_sentinels"
  shows "ae_code s \<noteq> []" "as_error s = Some s"
  using sentinel_codes(2) assms by (auto simp: list_all_iff)

text \<open>
  A sentinel is found however deep it was wrapped and whatever fields were added to the copy, and no other sentinel is found
  in a chain that ends with it and has otherwise only errors of the library.
\<close>

lemma sentinel_matches:
  assumes "s \<in> set err_sentinels" "wraps e (with_field key v s)"
  shows "errors_is e s"
proof -
  from assms(1) obtain code k m where "s = new_err code k m" by (auto simp: err_sentinels_def)
  with sentinel_found(1) [OF assms(1)] obtain c f where s: "s = AppErr code k m c f" "code \<noteq> []"
    by (auto simp: new_err_def)
  then have "errors_is (with_field key v s) s" by (simp add: with_field_def is_method_def)
  with assms(2) show ?thesis by (rule errors_is_chain)
qed

lemma sentinel_of_leaf:
  "s \<in> set err_sentinels \<Longrightarrow> t \<in> set err_sentinels \<Longrightarrow> errors_is s t \<longleftrightarrow> s = t"
proof -
  assume st: "s \<in> set err_sentinels" "t \<in> set err_sentinels"
  from st(1) obtain code k m where s: "s = AppErr code k m None []" by (auto simp: err_sentinels_def new_err_def)
  with sentinel_found [OF st(2)] have "errors_is s t \<longleftrightarrow> ae_code s = ae_code t" by (auto simp: is_method_def)
  moreover have "ae_code s = ae_code t \<longleftrightarrow> s = t"
    using sentinel_codes(1) st by (auto simp: distinct_map inj_on_def)
  ultimately show "errors_is s t \<longleftrightarrow> s = t" by simp
qed

text \<open>The two status codes of a kind tell the same story: equal HTTP codes mean equal gRPC codes and the other way round.\<close>

lemma status_codes_agree: "code_to_http k = code_to_http l \<longleftrightarrow> fst (code_to_grpc k) = fst (code_to_grpc l)"
  by (cases k; cases l) simp_all

text \<open>\<open>HasCode\<close> and \<open>IsKind\<close> look at the first error of the package only, not at the chain.\<close>

lemma only_first_error_asked:
  "errors_is (wrap_err ''a'' KindInternal (new_err ''b'' KindNotFound ''x'') ''y'') (new_err ''b'' KindNotFound ''x'')"
  "\<not> has_code (Some (wrap_err ''a'' KindInternal (new_err ''b'' KindNotFound ''x'') ''y'')) ''b''"
  "\<not> is_kind (Some (wrap_err ''a'' KindInternal (new_err ''b'' KindNotFound ''x'') ''y'')) [KindNotFound]"
  by code_simp+

text \<open>A target that merely wraps an error with the same code matches, too.\<close>

lemma wrapped_target_matches: "errors_is (new_err ''b'' KindNotFound ''x'') (Wrapping ''z'' (new_err ''b'' KindInternal ''w''))"
  by code_simp

end
