(* ===== verification/Configuration.thy ===== *)
theory Configuration
  imports Go_Strings Complex_Main
begin

text \<open>
  The configuration (\<open>internal/config\<close>): its sections, the defaults, the overrides by environment variables, the validation
  and their composition in \<open>Load\<close>. The YAML decoder, which fills a file into the defaults, is an argument, and so are the
  decoder of a float and the orders in which Go walks its maps. A pointer to a role may be nil (\<open>None\<close> in the map), which YAML
  produces for a key without a value. Variables that are unset and variables that are empty are the same.
\<close>

section \<open>Sections\<close>

text \<open>A float of a setting: a comparison with NaN is false.\<close>

datatype go_float = NotANumber | PosInfinity | NegInfinity | Finite rat

record server_settings =
  sv_grpc_port :: int
  sv_rest_port :: int
  sv_tls_enabled :: bool
  sv_tls_cert_file :: string
  sv_tls_key_file :: string
  sv_agent_grpc_port :: int

record log_settings =
  lo_level :: string
  lo_format :: string
  lo_per_run_enabled :: bool
  lo_per_run_dir :: string

record tasks_settings =
  ts_dir :: string
  ts_retention_days :: int

record memory_settings =
  me_db_path :: string
  me_compaction_threshold :: go_float
  me_max_shortterm_tokens :: int

record pool_settings =
  po_workers :: int
  po_queue_size :: int

record security_settings =
  se_auth_enabled :: bool
  se_rate_limit :: int
  se_tls_enabled :: bool

record telegram_settings =
  tg_enabled :: bool
  tg_token :: string
  tg_allowed_users :: string
  tg_poll_timeout :: int

record provider_settings =
  pv_base_url :: string
  pv_api_key :: string
  pv_default_model :: string
  pv_max_retries :: int
  pv_timeout :: int
  pv_enabled :: bool

record role_settings =
  ro_system_prompt :: string
  ro_tools :: "string list"
  ro_preferred_provider :: string
  ro_model :: string
  ro_max_iterations :: int

record hitl_settings =
  hi_enabled :: bool
  hi_port :: int
  hi_request_timeout :: int

record skill_settings =
  ps_enabled :: bool
  ps_dir :: string
  ps_max_skills_per_task :: int
  ps_max_total_chars :: int

record routing_settings =
  rt_cache_enabled :: bool
  rt_cache_max_entries :: int
  rt_log_provenance :: bool

record mcp_server_settings =
  ms_command :: string
  ms_args :: "string list"
  ms_env :: "string \<rightharpoonup> string"
  ms_enabled :: bool

record webhook_settings =
  wh_enabled :: bool
  wh_secret :: string

record thinking_settings =
  th_enabled :: bool
  th_tool_budget :: int
  th_max_reflections :: int
  th_max_replans :: int
  th_confidence_threshold :: go_float
  th_few_shot :: bool

record route_settings =
  pr_provider :: string
  pr_model :: string

record model_routes =
  mr_planner :: route_settings
  mr_worker :: route_settings
  mr_worker_file_creation :: route_settings
  mr_synthesizer :: route_settings
  mr_qa :: route_settings

record orchestration_settings =
  oc_enabled :: bool
  oc_max_steps :: int
  oc_max_parallel :: int
  oc_worker_max_iterations :: int
  oc_worker_max_tool_calls :: int
  oc_max_retries :: int
  oc_model_routing :: model_routes

record agent_settings =
  ag_thinking :: thinking_settings
  ag_orchestration :: orchestration_settings

record settings =
  st_server :: server_settings
  st_logging :: log_settings
  st_memory :: memory_settings
  st_pool :: pool_settings
  st_security :: security_settings
  st_providers :: "string \<rightharpoonup> provider_settings"
  st_roles :: "string \<rightharpoonup> role_settings option"
  st_telegram :: telegram_settings
  st_mcp_servers :: "string \<rightharpoonup> mcp_server_settings"
  st_webhook :: webhook_settings
  st_agent :: agent_settings
  st_prompt_skill :: skill_settings
  st_routing :: routing_settings
  st_hitl :: hitl_settings
  st_tasks :: tasks_settings
  st_agents_dir :: string

section \<open>Defaults\<close>

definition provider_defaults :: "(string \<times> provider_settings) list" where
  "provider_defaults =
     [(''openai'', \<lparr>pv_base_url = ''https://api.openai.com/v1'', pv_api_key = [], pv_default_model = ''gpt-4o'', pv_max_retries = 3, pv_timeout = 120, pv_enabled = False\<rparr>),
      (''anthropic'', \<lparr>pv_base_url = ''https://api.anthropic.com/v1'', pv_api_key = [], pv_default_model = ''claude-sonnet-4-20250514'', pv_max_retries = 3, pv_timeout = 120, pv_enabled = False\<rparr>),
      (''ollama'', \<lparr>pv_base_url = ''http://localhost:11434/v1'', pv_api_key = [], pv_default_model = ''qwen3'', pv_max_retries = 3, pv_timeout = 180, pv_enabled = False\<rparr>),
      (''gemini'', \<lparr>pv_base_url = ''https://generativelanguage.googleapis.com/v1beta/openai'', pv_api_key = [], pv_default_model = ''gemini-2.5-pro-preview-05-21'', pv_max_retries = 3, pv_timeout = 120, pv_enabled = False\<rparr>),
      (''zai'', \<lparr>pv_base_url = ''https://open.bigmodel.cn/api/paas/v4'', pv_api_key = [], pv_default_model = ''glm-4.7'', pv_max_retries = 3, pv_timeout = 120, pv_enabled = False\<rparr>),
      (''groq'', \<lparr>pv_base_url = ''https://api.groq.com/openai/v1'', pv_api_key = [], pv_default_model = ''llama-3.3-70b-versatile'', pv_max_retries = 3, pv_timeout = 60, pv_enabled = False\<rparr>),
      (''mistral'', \<lparr>pv_base_url = ''https://api.mistral.ai/v1'', pv_api_key = [], pv_default_model = ''codestral-latest'', pv_max_retries = 3, pv_timeout = 120, pv_enabled = False\<rparr>),
      (''deepseek'', \<lparr>pv_base_url = ''https://api.deepseek.com/v1'', pv_api_key = [], pv_default_model = ''deepseek-coder'', pv_max_retries = 3, pv_timeout = 120, pv_enabled = False\<rparr>),
      (''together'', \<lparr>pv_base_url = ''https://api.together.ai/v1'', pv_api_key = [], pv_default_model = ''meta-llama/Llama-3.3-70B-Instruct-Turbo-Free'', pv_max_retries = 3, pv_timeout = 120, pv_enabled = False\<rparr>),
      (''fireworks'', \<lparr>pv_base_url = ''https://api.fireworks.ai/inference/v1'', pv_api_key = [], pv_default_model = ''accounts/fireworks/models/llama-v3p3-70b-instruct'', pv_max_retries = 3, pv_timeout = 120, pv_enabled = False\<rparr>),
      (''xai'', \<lparr>pv_base_url = ''https://api.x.ai/v1'', pv_api_key = [], pv_default_model = ''grok-beta'', pv_max_retries = 3, pv_timeout = 120, pv_enabled = False\<rparr>)]"

definition empty_route :: route_settings where
  "empty_route = \<lparr>pr_provider = [], pr_model = []\<rparr>"

definition default_settings :: settings where
  "default_settings =
     \<lparr>st_server = \<lparr>sv_grpc_port = 50051, sv_rest_port = 8080, sv_tls_enabled = False, sv_tls_cert_file = [],
         sv_tls_key_file = [], sv_agent_grpc_port = 0\<rparr>,
      st_logging = \<lparr>lo_level = ''info'', lo_format = ''json'', lo_per_run_enabled = True, lo_per_run_dir = ''logs''\<rparr>,
      st_memory = \<lparr>me_db_path = ''./data/memory.db'', me_compaction_threshold = Finite (3 / 4), me_max_shortterm_tokens = 4000\<rparr>,
      st_pool = \<lparr>po_workers = 4, po_queue_size = 100\<rparr>,
      st_security = \<lparr>se_auth_enabled = False, se_rate_limit = 100, se_tls_enabled = False\<rparr>,
      st_providers = map_of provider_defaults, st_roles = Map.empty,
      st_telegram = \<lparr>tg_enabled = False, tg_token = [], tg_allowed_users = [], tg_poll_timeout = 0\<rparr>,
      st_mcp_servers = Map.empty, st_webhook = \<lparr>wh_enabled = False, wh_secret = []\<rparr>,
      st_agent = \<lparr>ag_thinking = \<lparr>th_enabled = False, th_tool_budget = 15, th_max_reflections = 3, th_max_replans = 2,
           th_confidence_threshold = Finite (7 / 10), th_few_shot = True\<rparr>,
         ag_orchestration = \<lparr>oc_enabled = False, oc_max_steps = 60, oc_max_parallel = 3, oc_worker_max_iterations = 8,
           oc_worker_max_tool_calls = 8, oc_max_retries = 0,
           oc_model_routing = \<lparr>mr_planner = empty_route, mr_worker = empty_route, mr_worker_file_creation = empty_route,
             mr_synthesizer = empty_route, mr_qa = empty_route\<rparr>\<rparr>\<rparr>,
      st_prompt_skill = \<lparr>ps_enabled = True, ps_dir = ''data/skills'', ps_max_skills_per_task = 4, ps_max_total_chars = 12000\<rparr>,
      st_routing = \<lparr>rt_cache_enabled = True, rt_cache_max_entries = 1024, rt_log_provenance = True\<rparr>,
      st_hitl = \<lparr>hi_enabled = False, hi_port = 50052, hi_request_timeout = 300\<rparr>,
      st_tasks = \<lparr>ts_dir = ''tasks'', ts_retention_days = 30\<rparr>, st_agents_dir = ''agents''\<rparr>"

section \<open>Reading variables\<close>

text \<open>\<open>Sscanf\<close> with \<open>%d\<close>: blanks that do not end the line, a sign, digits; what follows is not looked at. A number that needs more than 64 bits fails.\<close>

definition scan_int :: "string \<Rightarrow> int option" where
  "scan_int s =
     (let t = dropWhile (\<lambda>c. is_space c \<and> c \<noteq> CHR 0x0A) s;
          neg = (t \<noteq> [] \<and> hd t = CHR ''-''); u = (if t \<noteq> [] \<and> hd t \<in> set ''+-'' then tl t else t);
          ds = takeWhile is_digit u; n = int (dec_value ds); v = (if neg then - n else n)
      in if ds = [] \<or> v < - (2 ^ 63) \<or> v \<ge> 2 ^ 63 then None else Some v)"

definition parse_int_env :: "string \<Rightarrow> int \<Rightarrow> int" where
  "parse_int_env s fallback = (case scan_int s of Some v \<Rightarrow> v | None \<Rightarrow> fallback)"

definition parse_bool_env :: "string \<Rightarrow> bool" where
  "parse_bool_env s = (to_lower (trim_space s) \<in> {''true'', ''1'', ''yes'', ''on''})"

definition parse_float_env :: "(string \<Rightarrow> go_float option) \<Rightarrow> string \<Rightarrow> go_float \<Rightarrow> go_float" where
  "parse_float_env pf s fallback = (case pf s of Some v \<Rightarrow> v | None \<Rightarrow> fallback)"

definition override_text :: "(string \<Rightarrow> string) \<Rightarrow> string \<Rightarrow> string \<Rightarrow> string" where
  "override_text env key v = (if env key = [] then v else env key)"

definition override_int :: "(string \<Rightarrow> string) \<Rightarrow> string \<Rightarrow> int \<Rightarrow> int" where
  "override_int env key v = (if env key = [] then v else parse_int_env (env key) v)"

definition override_bool :: "(string \<Rightarrow> string) \<Rightarrow> string \<Rightarrow> bool \<Rightarrow> bool" where
  "override_bool env key v = (if env key = [] then v else parse_bool_env (env key))"

definition override_float ::
  "(string \<Rightarrow> go_float option) \<Rightarrow> (string \<Rightarrow> string) \<Rightarrow> string \<Rightarrow> go_float \<Rightarrow> go_float" where
  "override_float pf env key v = (if env key = [] then v else parse_float_env pf (env key) v)"

section \<open>Overrides\<close>

definition server_overrides :: "(string \<Rightarrow> string) \<Rightarrow> server_settings \<Rightarrow> server_settings" where
  "server_overrides env c =
     c\<lparr>sv_grpc_port := override_int env ''KYOCI_GRPC_PORT'' (sv_grpc_port c),
       sv_rest_port := override_int env ''KYOCI_REST_PORT'' (sv_rest_port c),
       sv_tls_enabled := override_bool env ''KYOCI_TLS_ENABLED'' (sv_tls_enabled c),
       sv_tls_cert_file := override_text env ''KYOCI_TLS_CERT_FILE'' (sv_tls_cert_file c),
       sv_tls_key_file := override_text env ''KYOCI_TLS_KEY_FILE'' (sv_tls_key_file c),
       sv_agent_grpc_port := override_int env ''KYOCI_AGENT_GRPC_PORT'' (sv_agent_grpc_port c)\<rparr>"

definition log_overrides :: "(string \<Rightarrow> string) \<Rightarrow> log_settings \<Rightarrow> log_settings" where
  "log_overrides env c =
     c\<lparr>lo_level := override_text env ''KYOCI_LOG_LEVEL'' (lo_level c),
       lo_format := override_text env ''KYOCI_LOG_FORMAT'' (lo_format c),
       lo_per_run_enabled := override_bool env ''KYOCI_LOGGING_PER_RUN_ENABLED'' (lo_per_run_enabled c),
       lo_per_run_dir := override_text env ''KYOCI_LOGGING_PER_RUN_DIR'' (lo_per_run_dir c)\<rparr>"

definition tasks_overrides :: "(string \<Rightarrow> string) \<Rightarrow> tasks_settings \<Rightarrow> tasks_settings" where
  "tasks_overrides env c =
     c\<lparr>ts_dir := override_text env ''KYOCI_TASKS_DIR'' (ts_dir c),
       ts_retention_days := override_int env ''KYOCI_TASKS_RETENTION_DAYS'' (ts_retention_days c)\<rparr>"

definition memory_overrides :: "(string \<Rightarrow> go_float option) \<Rightarrow> (string \<Rightarrow> string) \<Rightarrow> memory_settings \<Rightarrow> memory_settings" where
  "memory_overrides pf env c =
     c\<lparr>me_db_path := override_text env ''KYOCI_DB_PATH'' (me_db_path c),
       me_compaction_threshold := override_float pf env ''KYOCI_COMPACTION_THRESHOLD'' (me_compaction_threshold c),
       me_max_shortterm_tokens := override_int env ''KYOCI_MAX_SHORTTERM_TOKENS'' (me_max_shortterm_tokens c)\<rparr>"

definition pool_overrides :: "(string \<Rightarrow> string) \<Rightarrow> pool_settings \<Rightarrow> pool_settings" where
  "pool_overrides env c =
     c\<lparr>po_workers := override_int env ''KYOCI_WORKERS'' (po_workers c),
       po_queue_size := override_int env ''KYOCI_QUEUE_SIZE'' (po_queue_size c)\<rparr>"

definition security_overrides :: "(string \<Rightarrow> string) \<Rightarrow> security_settings \<Rightarrow> security_settings" where
  "security_overrides env c =
     c\<lparr>se_auth_enabled := override_bool env ''KYOCI_AUTH_ENABLED'' (se_auth_enabled c),
       se_rate_limit := override_int env ''KYOCI_RATE_LIMIT'' (se_rate_limit c),
       se_tls_enabled := override_bool env ''KYOCI_SECURITY_TLS_ENABLED'' (se_tls_enabled c)\<rparr>"

definition provider_overrides :: "string \<Rightarrow> (string \<Rightarrow> string) \<Rightarrow> provider_settings \<Rightarrow> provider_settings" where
  "provider_overrides prefix_env env c =
     c\<lparr>pv_api_key := override_text env (prefix_env @ ''API_KEY'') (pv_api_key c),
       pv_base_url := override_text env (prefix_env @ ''BASE_URL'') (pv_base_url c),
       pv_default_model := override_text env (prefix_env @ ''DEFAULT_MODEL'') (pv_default_model c),
       pv_max_retries := override_int env (prefix_env @ ''MAX_RETRIES'') (pv_max_retries c),
       pv_timeout := override_int env (prefix_env @ ''TIMEOUT'') (pv_timeout c),
       pv_enabled := override_bool env (prefix_env @ ''ENABLED'') (pv_enabled c)\<rparr>"

definition thinking_overrides :: "(string \<Rightarrow> go_float option) \<Rightarrow> (string \<Rightarrow> string) \<Rightarrow> thinking_settings \<Rightarrow> thinking_settings" where
  "thinking_overrides pf env c =
     c\<lparr>th_enabled := override_bool env ''KYOCI_THINKING_ENABLED'' (th_enabled c),
       th_tool_budget := override_int env ''KYOCI_THINKING_TOOL_BUDGET'' (th_tool_budget c),
       th_max_reflections := override_int env ''KYOCI_THINKING_MAX_REFLECTIONS'' (th_max_reflections c),
       th_max_replans := override_int env ''KYOCI_THINKING_MAX_REPLANS'' (th_max_replans c),
       th_confidence_threshold := override_float pf env ''KYOCI_THINKING_CONFIDENCE_THRESHOLD'' (th_confidence_threshold c),
       th_few_shot := override_bool env ''KYOCI_THINKING_FEW_SHOT'' (th_few_shot c)\<rparr>"

definition orchestration_overrides :: "(string \<Rightarrow> string) \<Rightarrow> orchestration_settings \<Rightarrow> orchestration_settings" where
  "orchestration_overrides env c =
     c\<lparr>oc_enabled := override_bool env ''KYOCI_ORCHESTRATION_ENABLED'' (oc_enabled c),
       oc_max_steps := override_int env ''KYOCI_ORCHESTRATION_MAX_STEPS'' (oc_max_steps c),
       oc_max_parallel := override_int env ''KYOCI_ORCHESTRATION_MAX_PARALLEL'' (oc_max_parallel c),
       oc_worker_max_iterations := override_int env ''KYOCI_ORCHESTRATION_WORKER_MAX_ITERATIONS'' (oc_worker_max_iterations c),
       oc_worker_max_tool_calls := override_int env ''KYOCI_ORCHESTRATION_WORKER_MAX_TOOL_CALLS'' (oc_worker_max_tool_calls c),
       oc_max_retries := override_int env ''KYOCI_ORCHESTRATION_MAX_RETRIES'' (oc_max_retries c)\<rparr>"

definition hitl_overrides :: "(string \<Rightarrow> string) \<Rightarrow> hitl_settings \<Rightarrow> hitl_settings" where
  "hitl_overrides env c =
     c\<lparr>hi_enabled := override_bool env ''KYOCI_HITL_ENABLED'' (hi_enabled c),
       hi_port := override_int env ''KYOCI_HITL_PORT'' (hi_port c),
       hi_request_timeout := override_int env ''KYOCI_HITL_REQUEST_TIMEOUT'' (hi_request_timeout c)\<rparr>"

definition skill_overrides :: "(string \<Rightarrow> string) \<Rightarrow> skill_settings \<Rightarrow> skill_settings" where
  "skill_overrides env c =
     c\<lparr>ps_enabled := override_bool env ''KYOCI_PROMPT_SKILLS_ENABLED'' (ps_enabled c),
       ps_dir := override_text env ''KYOCI_PROMPT_SKILLS_DIR'' (ps_dir c),
       ps_max_skills_per_task := override_int env ''KYOCI_PROMPT_SKILLS_MAX_PER_TASK'' (ps_max_skills_per_task c),
       ps_max_total_chars := override_int env ''KYOCI_PROMPT_SKILLS_MAX_CHARS'' (ps_max_total_chars c)\<rparr>"

definition routing_overrides :: "(string \<Rightarrow> string) \<Rightarrow> routing_settings \<Rightarrow> routing_settings" where
  "routing_overrides env c =
     c\<lparr>rt_cache_enabled := override_bool env ''KYOCI_ROUTING_CACHE_ENABLED'' (rt_cache_enabled c),
       rt_cache_max_entries := override_int env ''KYOCI_ROUTING_CACHE_MAX_ENTRIES'' (rt_cache_max_entries c),
       rt_log_provenance := override_bool env ''KYOCI_ROUTING_LOG_PROVENANCE'' (rt_log_provenance c)\<rparr>"

definition provider_prefix :: "string \<Rightarrow> string" where
  "provider_prefix name = ''KYOCI_PROVIDER_'' @ to_upper name @ ''_''"

definition agent_overrides :: "(string \<Rightarrow> go_float option) \<Rightarrow> (string \<Rightarrow> string) \<Rightarrow> agent_settings \<Rightarrow> agent_settings" where
  "agent_overrides pf env a =
     \<lparr>ag_thinking = thinking_overrides pf env (ag_thinking a), ag_orchestration = orchestration_overrides env (ag_orchestration a)\<rparr>"

definition apply_env_overrides :: "(string \<Rightarrow> go_float option) \<Rightarrow> (string \<Rightarrow> string) \<Rightarrow> settings \<Rightarrow> settings" where
  "apply_env_overrides pf env c =
     c\<lparr>st_server := server_overrides env (st_server c), st_logging := log_overrides env (st_logging c),
       st_tasks := tasks_overrides env (st_tasks c), st_agents_dir := override_text env ''KYOCI_AGENTS_DIR'' (st_agents_dir c),
       st_memory := memory_overrides pf env (st_memory c), st_pool := pool_overrides env (st_pool c),
       st_security := security_overrides env (st_security c),
       st_providers := (\<lambda>name. map_option (provider_overrides (provider_prefix name) env) (st_providers c name)),
       st_agent := agent_overrides pf env (st_agent c), st_hitl := hitl_overrides env (st_hitl c),
       st_prompt_skill := skill_overrides env (st_prompt_skill c), st_routing := routing_overrides env (st_routing c)\<rparr>"

section \<open>Validation\<close>

datatype verdict = Valid | Invalid string | NilRole

definition outside_unit :: "go_float \<Rightarrow> bool" where
  "outside_unit f = (case f of NotANumber \<Rightarrow> False | Finite r \<Rightarrow> r < 0 \<or> r > 1 | _ \<Rightarrow> True)"

definition first_failure :: "(bool \<times> string) list \<Rightarrow> string option" where
  "first_failure checks = map_option snd (find fst checks)"

definition first_checks :: "settings \<Rightarrow> (bool \<times> string) list" where
  "first_checks c =
     (let sv = st_server c; lo = st_logging c; ts = st_tasks c; me = st_memory c; po = st_pool c in
      [(sv_grpc_port sv \<le> 0 \<or> sv_grpc_port sv > 65535, ''config.grpc_port''),
       (sv_rest_port sv \<le> 0 \<or> sv_rest_port sv > 65535, ''config.rest_port''),
       (sv_tls_enabled sv \<and> sv_tls_cert_file sv = [], ''config.tls_cert_file''),
       (sv_tls_enabled sv \<and> sv_tls_key_file sv = [], ''config.tls_key_file''),
       (lo_level lo \<notin> {''debug'', ''info'', ''warn'', ''error''}, ''config.log_level''),
       (lo_format lo \<noteq> ''json'' \<and> lo_format lo \<noteq> ''text'', ''config.log_format''),
       (lo_per_run_enabled lo \<and> lo_per_run_dir lo = [], ''config.logging.per_run_dir''),
       (ts_dir ts = [], ''config.tasks.dir''),
       (ts_retention_days ts < 0, ''config.tasks.retention_days''),
       (me_db_path me = [], ''config.db_path''),
       (outside_unit (me_compaction_threshold me), ''config.compaction_threshold''),
       (me_max_shortterm_tokens me < 0, ''config.max_shortterm_tokens''),
       (po_workers po \<le> 0, ''config.workers''),
       (po_queue_size po \<le> 0, ''config.queue_size''),
       (se_rate_limit (st_security c) \<le> 0, ''config.rate_limit'')])"

definition is_local_provider_name :: "string \<Rightarrow> bool" where
  "is_local_provider_name name \<longleftrightarrow> name \<in> {''ollama'', ''lmstudio''}"

definition provider_checks :: "string \<Rightarrow> provider_settings \<Rightarrow> (bool \<times> string) list" where
  "provider_checks name p =
     (if \<not> pv_enabled p then []
      else
        [(pv_base_url p = [], ''config.provider_base_url''),
         (pv_api_key p = [] \<and> \<not> is_local_provider_name name, ''config.provider_api_key''),
         (pv_default_model p = [], ''config.provider_default_model''),
         (pv_max_retries p < 0, ''config.provider_max_retries''),
         (pv_timeout p \<le> 0, ''config.provider_timeout'')])"

definition role_checks :: "settings \<Rightarrow> role_settings \<Rightarrow> (bool \<times> string) list" where
  "role_checks c r =
     [(ro_system_prompt r = [], ''config.role_system_prompt''),
      (ro_max_iterations r \<le> 0, ''config.role_max_iterations''),
      (ro_preferred_provider r \<noteq> [] \<and> st_providers c (ro_preferred_provider r) = None, ''config.role_unknown_provider'')]"

definition last_checks :: "settings \<Rightarrow> (bool \<times> string) list" where
  "last_checks c =
     (let th = ag_thinking (st_agent c); ps = st_prompt_skill c; rt = st_routing c in
      [(th_tool_budget th \<le> 0, ''config.thinking_tool_budget''),
       (th_max_reflections th < 0, ''config.thinking_max_reflections''),
       (th_max_replans th < 0, ''config.thinking_max_replans''),
       (outside_unit (th_confidence_threshold th), ''config.thinking_confidence_threshold''),
       (ps_enabled ps \<and> ps_max_skills_per_task ps \<le> 0, ''config.prompt_skills_max''),
       (ps_enabled ps \<and> ps_max_total_chars ps \<le> 0, ''config.prompt_skills_chars''),
       (rt_cache_enabled rt \<and> rt_cache_max_entries rt \<le> 0, ''config.routing_cache_max_entries'')])"

fun validate_providers :: "settings \<Rightarrow> string list \<Rightarrow> verdict" where
  "validate_providers c [] = Valid"
| "validate_providers c (n # ns) =
     (case st_providers c n of
        None \<Rightarrow> validate_providers c ns
      | Some p \<Rightarrow>
          (case first_failure (provider_checks n p) of Some e \<Rightarrow> Invalid e | None \<Rightarrow> validate_providers c ns))"

text \<open>The prompt of a nil role is read: a run-time panic.\<close>

fun validate_roles :: "settings \<Rightarrow> string list \<Rightarrow> verdict" where
  "validate_roles c [] = Valid"
| "validate_roles c (n # ns) =
     (case st_roles c n of
        None \<Rightarrow> validate_roles c ns
      | Some None \<Rightarrow> NilRole
      | Some (Some r) \<Rightarrow> (case first_failure (role_checks c r) of Some e \<Rightarrow> Invalid e | None \<Rightarrow> validate_roles c ns))"

text \<open>\<open>providers\<close> and \<open>roles\<close> are the orders of the two loops over the maps.\<close>

definition validate_settings :: "string list \<Rightarrow> string list \<Rightarrow> settings \<Rightarrow> verdict" where
  "validate_settings providers roles c =
     (case first_failure (first_checks c) of
        Some e \<Rightarrow> Invalid e
      | None \<Rightarrow>
          (case validate_providers c providers of
             Valid \<Rightarrow>
               (case validate_roles c roles of
                  Valid \<Rightarrow> (case first_failure (last_checks c) of Some e \<Rightarrow> Invalid e | None \<Rightarrow> Valid)
                | v \<Rightarrow> v)
           | v \<Rightarrow> v))"

section \<open>Loading\<close>

datatype file_read = Contents string | Missing | Unreadable string

datatype load_error = ReadError string | YamlError string | ValidationError string | LoadPanics

definition load_settings ::
  "(string \<Rightarrow> settings \<Rightarrow> string + settings) \<Rightarrow> (string \<Rightarrow> go_float option) \<Rightarrow> (settings \<Rightarrow> string list) \<Rightarrow>
     (settings \<Rightarrow> string list) \<Rightarrow> (string \<Rightarrow> string) \<Rightarrow> file_read \<Rightarrow> load_error + settings" where
  "load_settings yaml pf provider_order role_order env file =
     (case file of
        Missing \<Rightarrow> Inr default_settings
      | Unreadable e \<Rightarrow> Inl (ReadError e)
      | Contents data \<Rightarrow>
          (case yaml data default_settings of
             Inl e \<Rightarrow> Inl (YamlError e)
           | Inr c \<Rightarrow>
               let c' = apply_env_overrides pf env c
               in (case validate_settings (provider_order c') (role_order c') c' of
                     Valid \<Rightarrow> Inr c'
                   | Invalid e \<Rightarrow> Inl (ValidationError e)
                   | NilRole \<Rightarrow> Inl LoadPanics)))"

section \<open>Reading the settings\<close>

text \<open>In seconds.\<close>

definition get_timeout :: "provider_settings \<Rightarrow> int" where
  "get_timeout p = (if pv_timeout p \<le> 0 then 120 else pv_timeout p)"

definition get_provider_settings :: "settings \<Rightarrow> string \<Rightarrow> provider_settings option" where
  "get_provider_settings c name = st_providers c name"

definition get_role_settings :: "settings option \<Rightarrow> string \<Rightarrow> role_settings option" where
  "get_role_settings c name =
     (case c of None \<Rightarrow> None | Some s \<Rightarrow> (case st_roles s name of Some (Some r) \<Rightarrow> Some r | _ \<Rightarrow> None))"

text \<open>The copy of all roles; \<open>None\<close> when it panics on a nil role.\<close>

definition get_all_roles :: "settings \<Rightarrow> string list \<Rightarrow> (string \<rightharpoonup> role_settings) option" where
  "get_all_roles c names =
     (if list_ex (\<lambda>n. st_roles c n = Some None) names then None
      else Some (\<lambda>n. Option.bind (st_roles c n) id))"

section \<open>What a loaded configuration satisfies\<close>

definition in_unit :: "go_float \<Rightarrow> bool" where
  "in_unit f \<longleftrightarrow> f = NotANumber \<or> (\<exists>r. f = Finite r \<and> 0 \<le> r \<and> r \<le> 1)"

definition provider_ok :: "string \<Rightarrow> provider_settings \<Rightarrow> bool" where
  "provider_ok name p \<longleftrightarrow>
     (pv_enabled p \<longrightarrow> pv_base_url p \<noteq> [] \<and> pv_default_model p \<noteq> [] \<and> 0 \<le> pv_max_retries p \<and> 0 < pv_timeout p \<and>
        (pv_api_key p \<noteq> [] \<or> is_local_provider_name name))"

definition role_ok :: "settings \<Rightarrow> role_settings \<Rightarrow> bool" where
  "role_ok c r \<longleftrightarrow> ro_system_prompt r \<noteq> [] \<and> 0 < ro_max_iterations r \<and>
     (ro_preferred_provider r = [] \<or> ro_preferred_provider r \<in> dom (st_providers c))"

definition server_ok :: "settings \<Rightarrow> bool" where
  "server_ok c \<longleftrightarrow> 0 < sv_grpc_port (st_server c) \<and> sv_grpc_port (st_server c) \<le> 65535 \<and>
     0 < sv_rest_port (st_server c) \<and> sv_rest_port (st_server c) \<le> 65535 \<and>
     (sv_tls_enabled (st_server c) \<longrightarrow> sv_tls_cert_file (st_server c) \<noteq> [] \<and> sv_tls_key_file (st_server c) \<noteq> []) \<and>
     0 < po_workers (st_pool c) \<and> 0 < po_queue_size (st_pool c) \<and> 0 < se_rate_limit (st_security c)"

definition limits_ok :: "settings \<Rightarrow> bool" where
  "limits_ok c \<longleftrightarrow> in_unit (me_compaction_threshold (st_memory c)) \<and> 0 \<le> me_max_shortterm_tokens (st_memory c) \<and>
     0 < th_tool_budget (ag_thinking (st_agent c)) \<and> 0 \<le> th_max_reflections (ag_thinking (st_agent c)) \<and>
     0 \<le> th_max_replans (ag_thinking (st_agent c)) \<and> in_unit (th_confidence_threshold (ag_thinking (st_agent c))) \<and>
     (ps_enabled (st_prompt_skill c) \<longrightarrow> 0 < ps_max_skills_per_task (st_prompt_skill c) \<and> 0 < ps_max_total_chars (st_prompt_skill c)) \<and>
     (rt_cache_enabled (st_routing c) \<longrightarrow> 0 < rt_cache_max_entries (st_routing c))"

definition files_ok :: "settings \<Rightarrow> bool" where
  "files_ok c \<longleftrightarrow> lo_level (st_logging c) \<in> {''debug'', ''info'', ''warn'', ''error''} \<and>
     lo_format (st_logging c) \<in> {''json'', ''text''} \<and> (lo_per_run_enabled (st_logging c) \<longrightarrow> lo_per_run_dir (st_logging c) \<noteq> []) \<and>
     ts_dir (st_tasks c) \<noteq> [] \<and> 0 \<le> ts_retention_days (st_tasks c) \<and> me_db_path (st_memory c) \<noteq> []"

definition settings_ok :: "settings \<Rightarrow> bool" where
  "settings_ok c \<longleftrightarrow> server_ok c \<and> limits_ok c \<and> files_ok c \<and>
     (\<forall>name p. st_providers c name = Some p \<longrightarrow> provider_ok name p) \<and>
     (\<forall>name r. st_roles c name = Some r \<longrightarrow> (\<exists>d. r = Some d \<and> role_ok c d))"

lemma first_failure_None: "first_failure checks = None \<longleftrightarrow> list_all (\<lambda>ch. \<not> fst ch) checks"
  by (auto simp: first_failure_def find_None_iff list_all_iff)

lemma not_outside_unit: "\<not> outside_unit f \<longleftrightarrow> in_unit f"
  by (cases f) (auto simp: outside_unit_def in_unit_def)

lemma base_checks_ok:
  "first_failure (first_checks c) = None \<and> first_failure (last_checks c) = None \<longleftrightarrow> server_ok c \<and> limits_ok c \<and> files_ok c"
  unfolding first_failure_None server_ok_def limits_ok_def files_ok_def
  by (simp add: first_checks_def last_checks_def Let_def not_outside_unit not_le not_less conj_ac) argo

lemma passed_checks:
  "(case first_failure checks of Some e \<Rightarrow> Invalid e | None \<Rightarrow> v) = Valid \<longleftrightarrow> first_failure checks = None \<and> v = Valid"
  by (simp split: option.split)

lemma provider_checks_pass: "first_failure (provider_checks name p) = None \<longleftrightarrow> provider_ok name p"
  by (auto simp: first_failure_None provider_checks_def provider_ok_def)

lemma role_checks_pass: "first_failure (role_checks c r) = None \<longleftrightarrow> role_ok c r"
  by (auto simp: first_failure_None role_checks_def role_ok_def)

lemma validate_providers_ok:
  "validate_providers c ns = Valid \<longleftrightarrow> (\<forall>n\<in>set ns. \<forall>p. st_providers c n = Some p \<longrightarrow> provider_ok n p)"
proof (induction ns)
  case (Cons n ns)
  then show ?case by (cases "st_providers c n") (simp_all add: passed_checks provider_checks_pass)
qed simp

lemma validate_roles_ok:
  "validate_roles c ns = Valid \<longleftrightarrow> (\<forall>n\<in>set ns. \<forall>r. st_roles c n = Some r \<longrightarrow> (\<exists>d. r = Some d \<and> role_ok c d))"
proof (induction ns)
  case (Cons n ns)
  consider "st_roles c n = None" | "st_roles c n = Some None" | d where "st_roles c n = Some (Some d)"
    by (metis option.exhaust)
  then show ?case by cases (simp_all add: passed_checks role_checks_pass Cons.IH)
qed simp

lemma validate_settings_iff:
  assumes "set providers = dom (st_providers c)" "set roles = dom (st_roles c)"
  shows "validate_settings providers roles c = Valid \<longleftrightarrow> settings_ok c"
proof -
  have "validate_settings providers roles c = Valid \<longleftrightarrow>
      first_failure (first_checks c) = None \<and> validate_providers c providers = Valid \<and> validate_roles c roles = Valid \<and>
      first_failure (last_checks c) = None" by (auto simp: validate_settings_def split: option.splits verdict.splits)
  also have "\<dots> \<longleftrightarrow> settings_ok c"
    unfolding validate_providers_ok validate_roles_ok settings_ok_def using base_checks_ok [of c] assms by (auto simp: dom_def)
  finally show ?thesis .
qed

text \<open>
  A configuration that is loaded from a file is accepted exactly when every bound holds, whatever the order in which the
  two maps are walked; so a loaded configuration satisfies all of them, the overrides included.
\<close>

lemma loaded_settings_ok:
  assumes "\<And>c. set (provider_order c) = dom (st_providers c)" "\<And>c. set (role_order c) = dom (st_roles c)"
    and "yaml data default_settings = Inr c"
  shows "load_settings yaml pf provider_order role_order env (Contents data) = Inr c' \<longleftrightarrow>
    c' = apply_env_overrides pf env c \<and> settings_ok c'"
  using validate_settings_iff [OF assms(1) assms(2), of "apply_env_overrides pf env c"] assms(3)
  by (auto simp: load_settings_def Let_def split: verdict.splits)

text \<open>Overrides are a projection: applied once more they change nothing.\<close>

lemma overrides_idem:
  "override_text env key (override_text env key t) = override_text env key t"
  "override_int env key (override_int env key n) = override_int env key n"
  "override_bool env key (override_bool env key b) = override_bool env key b"
  "override_float pf env key (override_float pf env key f) = override_float pf env key f"
  by (auto simp: override_text_def override_int_def override_bool_def override_float_def parse_int_env_def parse_float_env_def
      split: option.splits)

lemmas override_sections = server_overrides_def log_overrides_def tasks_overrides_def memory_overrides_def pool_overrides_def
  security_overrides_def provider_overrides_def thinking_overrides_def orchestration_overrides_def hitl_overrides_def
  skill_overrides_def routing_overrides_def agent_overrides_def

lemma apply_env_overrides_idem: "apply_env_overrides pf env (apply_env_overrides pf env c) = apply_env_overrides pf env c"
proof -
  have "map_option (provider_overrides k env) (map_option (provider_overrides k env) p) = map_option (provider_overrides k env) p"
    for k p by (cases p) (simp_all add: provider_overrides_def overrides_idem)
  then show ?thesis by (simp add: apply_env_overrides_def override_sections overrides_idem)
qed

text \<open>Without a file the environment is not looked at, and nothing is validated.\<close>

lemma missing_file_ignores_environment:
  "load_settings yaml pf provider_order role_order env Missing = load_settings yaml pf provider_order role_order env' Missing"
  by (simp add: load_settings_def)

text \<open>What is accepted: a threshold that is not a number, a number with a tail; and what an unknown word turns off.\<close>

lemma nan_is_in_unit: "\<not> outside_unit NotANumber"
  by (simp add: outside_unit_def)

lemma number_with_tail: "parse_int_env ''80a80'' 8080 = 80"
  by code_simp

lemma unknown_word_disables: "\<not> parse_bool_env ''enabled''"
  by code_simp

text \<open>A role without a value in the file is a nil pointer: loading panics.\<close>

lemma nil_role_panics: "st_roles c n = Some None \<Longrightarrow> n \<in> set ns \<Longrightarrow> validate_roles c ns \<noteq> Valid"
  unfolding validate_roles_ok by blast

end
