(* ===== verification/Skill_Network.thy ===== *)
theory Skill_Network
  imports Skill_Strings "HOL-Library.Word"
begin

unbundle bit_operations_syntax

text \<open>
  The network skills (\<open>internal/skill/builtin/net.go\<close>): addresses as words, blocks of addresses of version 4 with their
  mask, the report on a block and the merging of blocks; hardware addresses, connections and the name service. What a
  constant expression finds in a query is an argument (\<open>find_text\<close>), and so are the library's parsers for addresses of
  version 6, hardware addresses and URLs, the connection and the resolver. Blocks of version 6 are left out: \<open>parse_cidr\<close> is
  what \<open>ParseCIDR\<close> does with a text that has no colon.
\<close>

section \<open>Addresses and blocks\<close>

type_synonym ipv4 = "32 word"

definition ip_byte :: "ipv4 \<Rightarrow> nat \<Rightarrow> nat" where
  "ip_byte a i = unat (take_bit 8 (drop_bit (24 - 8 * i) a))"

definition ip_text :: "ipv4 \<Rightarrow> string" where
  "ip_text a = join ''.'' (map (\<lambda>i. dec_digits (ip_byte a i)) [0, 1, 2, 3])"

text \<open>A field of an address: at most 255, without leading zeros.\<close>

definition parse_octet :: "string \<Rightarrow> nat option" where
  "parse_octet s =
     (if s \<noteq> [] \<and> list_all is_digit s \<and> (length s = 1 \<or> hd s \<noteq> CHR ''0'') \<and> dec_value s \<le> 255 then Some (dec_value s) else None)"

definition parse_ipv4 :: "string \<Rightarrow> ipv4 option" where
  "parse_ipv4 s =
     (case map parse_octet (split_on (CHR ''.'') s) of
        [Some a, Some b, Some c, Some d] \<Rightarrow> Some (word_of_int (((int a * 256 + int b) * 256 + int c) * 256 + int d))
      | _ \<Rightarrow> None)"

record ipv4_net =
  nt_ip :: ipv4
  nt_ones :: nat

definition net_mask :: "nat \<Rightarrow> ipv4" where
  "net_mask ones = NOT (mask (32 - ones))"

definition net_contains :: "ipv4_net \<Rightarrow> ipv4 \<Rightarrow> bool" where
  "net_contains n a \<longleftrightarrow> nt_ip n AND net_mask (nt_ones n) = a AND net_mask (nt_ones n)"

text \<open>\<open>ParseCIDR\<close>: the network, with the bits of the host cleared.\<close>

definition parse_cidr :: "string \<Rightarrow> ipv4_net option" where
  "parse_cidr s =
     (let addr = takeWhile (\<lambda>c. c \<noteq> CHR ''/'') s; rest = dropWhile (\<lambda>c. c \<noteq> CHR ''/'') s; bits = tl rest
      in if rest = [] \<or> bits = [] \<or> \<not> list_all is_digit bits \<or> dec_value bits > 32 then None
         else map_option (\<lambda>a. \<lparr>nt_ip = a AND net_mask (dec_value bits), nt_ones = dec_value bits\<rparr>) (parse_ipv4 addr))"

definition net_text :: "ipv4_net \<Rightarrow> string" where
  "net_text n = ip_text (nt_ip n) @ ''/'' @ dec_digits (nt_ones n)"

section \<open>Addresses of both versions\<close>

datatype ip_addr = V4 ipv4 | V6 "128 word"

text \<open>\<open>To4\<close> takes an address of version 6 that stands for one of version 4.\<close>

definition to4 :: "128 word \<Rightarrow> ipv4 option" where
  "to4 a = (if drop_bit 32 a = 0xFFFF then Some (ucast a) else None)"

definition parse_ip :: "(string \<Rightarrow> (128 word) option) \<Rightarrow> string \<Rightarrow> ip_addr option" where
  "parse_ip parse_v6 s =
     (case parse_ipv4 s of
        Some a \<Rightarrow> Some (V4 a)
      | None \<Rightarrow> map_option (\<lambda>a. case to4 a of Some b \<Rightarrow> V4 b | None \<Rightarrow> V6 a) (parse_v6 s))"

definition line_end :: string where
  "line_end = [CHR 0x0A]"

definition ip_validate :: "(string \<Rightarrow> string) \<Rightarrow> (string \<Rightarrow> (128 word) option) \<Rightarrow> string \<Rightarrow> string" where
  "ip_validate find_text parse_v6 q =
     (let m = find_text q
      in if m = [] then ''invalid (not an IP address)''
         else case parse_ip parse_v6 m of
             None \<Rightarrow> ''invalid (not an IP address)''
           | Some (V4 a) \<Rightarrow> ''valid IPv4: '' @ m
           | Some (V6 a) \<Rightarrow> ''valid IPv6: '' @ m)"

definition ip_validate_skill :: "(string \<Rightarrow> string) \<Rightarrow> (string \<Rightarrow> (128 word) option) \<Rightarrow> skill" where
  "ip_validate_skill find_text parse_v6 =
     (base_skill ''ip_validate'' ''Validate and classify an IP address (v4, v6, or invalid)''
        [''validate ip'', ''ip validate'', ''is valid ip'', ''is this an ip''])
       \<lparr>sk_match := (\<lambda>q. any_in (to_lower q)
            [''validate ip'', ''ip validate'', ''is valid ip'', ''is this an ip'', ''is this ip valid'']),
        sk_execute := (\<lambda>q. Inr (ip_validate find_text parse_v6 q))\<rparr>"

definition ipv4_class :: "ipv4 \<Rightarrow> string" where
  "ipv4_class a =
     (if ip_byte a 0 = 127 then ''loopback''
      else if ip_byte a 0 = 10 \<or> (ip_byte a 0 = 172 \<and> 16 \<le> ip_byte a 1 \<and> ip_byte a 1 \<le> 31) \<or> (ip_byte a 0 = 192 \<and> ip_byte a 1 = 168)
        then ''private (RFC 1918)''
      else if 224 \<le> ip_byte a 0 \<and> ip_byte a 0 \<le> 239 then ''multicast''
      else if ip_byte a 0 = 169 \<and> ip_byte a 1 = 254 then ''link-local (APIPA)''
      else if a = 0 then ''unspecified (0.0.0.0)''
      else ''public'')"

text \<open>The first 7, 10 and 8 bits decide.\<close>

definition ipv6_class :: "128 word \<Rightarrow> string" where
  "ipv6_class a =
     (if a = 1 then ''loopback (::1)''
      else if drop_bit 121 a = 0x7E then ''private (ULA fc00::/7)''
      else if drop_bit 118 a = 0x3FA then ''link-local (fe80::/10)''
      else if drop_bit 120 a = 0xFF then ''multicast (ff00::/8)''
      else ''public'')"

definition ip_info :: "(string \<Rightarrow> string) \<Rightarrow> (string \<Rightarrow> (128 word) option) \<Rightarrow> (128 word \<Rightarrow> string) \<Rightarrow> string \<Rightarrow> string + string" where
  "ip_info find_text parse_v6 v6_text q =
     (let m = find_text q
      in if m = [] then Inl ''no IP address found''
         else case parse_ip parse_v6 m of
             None \<Rightarrow> Inl (''invalid IP address: '' @ m)
           | Some (V4 a) \<Rightarrow>
               Inr (''version: IPv4'' @ line_end @ ''address: '' @ ip_text a @ line_end @ ''class: '' @ ipv4_class a)
           | Some (V6 a) \<Rightarrow>
               Inr (''version: IPv6'' @ line_end @ ''address: '' @ v6_text a @ line_end @ ''class: '' @ ipv6_class a))"

definition ip_info_skill :: "(string \<Rightarrow> string) \<Rightarrow> (string \<Rightarrow> (128 word) option) \<Rightarrow> (128 word \<Rightarrow> string) \<Rightarrow> skill" where
  "ip_info_skill find_text parse_v6 v6_text =
     (base_skill ''ip_info'' ''Detailed info about an IP (version, classification)''
        [''ip info'', ''information about ip'', ''ip details'', ''what is this ip''])
       \<lparr>sk_match := (\<lambda>q. any_in (to_lower q) [''ip info'', ''ip details'', ''what is this ip'', ''information about ip'']),
        sk_execute := ip_info find_text parse_v6 v6_text\<rparr>"

section \<open>Reports on blocks\<close>

definition broadcast :: "ipv4_net \<Rightarrow> ipv4" where
  "broadcast n = nt_ip n OR NOT (net_mask (nt_ones n))"

text \<open>Addresses for hosts; no line for the block of everything.\<close>

definition host_count :: "ipv4_net \<Rightarrow> int option" where
  "host_count n = (let host_bits = 32 - nt_ones n in if host_bits < 32 then Some (max 0 (2 ^ host_bits - 2)) else None)"

definition cidr_validate :: "(string \<Rightarrow> string) \<Rightarrow> string \<Rightarrow> string + string" where
  "cidr_validate find_text q =
     (let m = find_text q
      in if m = [] then Inl ''no CIDR block found''
         else case parse_cidr m of
             None \<Rightarrow> Inl (''invalid CIDR: invalid CIDR address: '' @ m)
           | Some n \<Rightarrow>
               Inr (''valid CIDR: '' @ m @ line_end @ ''version: IPv4'' @ line_end @
                 ''mask bits: /'' @ dec_digits (nt_ones n) @ '' (of 32)'' @ line_end @
                 ''network: '' @ ip_text (nt_ip n) @ line_end @ ''broadcast: '' @ ip_text (broadcast n) @
                 (case host_count n of None \<Rightarrow> [] | Some k \<Rightarrow> line_end @ ''host count: '' @ itoa k)))"

definition cidr_validate_skill :: "(string \<Rightarrow> string) \<Rightarrow> skill" where
  "cidr_validate_skill find_text =
     (base_skill ''cidr_validate'' ''Validate a CIDR block and show network/broadcast/range''
        [''cidr validate'', ''validate cidr'', ''is valid cidr''])
       \<lparr>sk_match := (\<lambda>q. any_in (to_lower q) [''cidr validate'', ''validate cidr'', ''is valid cidr'']),
        sk_execute := cidr_validate find_text\<rparr>"

section \<open>Merging\<close>

definition compare_ip_net :: "ipv4_net \<Rightarrow> ipv4_net \<Rightarrow> int" where
  "compare_ip_net a b =
     (if nt_ip a < nt_ip b then - 1
      else if nt_ip a > nt_ip b then 1
      else if nt_ones a < nt_ones b then - 1
      else if nt_ones a > nt_ones b then 1
      else 0)"

text \<open>The later element goes before: the exchange of the sort.\<close>

definition net_before :: "ipv4_net \<Rightarrow> ipv4_net \<Rightarrow> bool" where
  "net_before a b \<longleftrightarrow> compare_ip_net b a > 0"

definition parent_net :: "ipv4_net \<Rightarrow> ipv4_net" where
  "parent_net n = \<lparr>nt_ip = nt_ip n AND net_mask (nt_ones n - 1), nt_ones = nt_ones n - 1\<rparr>"

definition merge_step :: "ipv4_net list \<Rightarrow> ipv4_net \<Rightarrow> ipv4_net list" where
  "merge_step merged n =
     (let l = last merged
      in if net_contains l (nt_ip n) then merged
         else if nt_ones l = 0 then merged @ [n]
         else if nt_ones l = nt_ones n \<and> net_contains (parent_net l) (nt_ip n) \<and> net_contains (parent_net l) (nt_ip l)
              then butlast merged @ [parent_net l]
         else merged @ [n])"

definition merge_ipv4_cidrs :: "ipv4_net list \<Rightarrow> ipv4_net list" where
  "merge_ipv4_cidrs nets =
     (case exchange_sort net_before nets of [] \<Rightarrow> [] | n # ns \<Rightarrow> foldl merge_step [n] ns)"

definition merge_separator :: "char \<Rightarrow> bool" where
  "merge_separator c \<longleftrightarrow> c = CHR 0x0A \<or> c = CHR '','' \<or> c = CHR '' ''"

definition cidr_merge :: "string \<Rightarrow> string + string" where
  "cidr_merge q =
     (let nets = List.map_filter parse_cidr (filter (\<lambda>l. l \<noteq> []) (map trim_space (fields_func merge_separator (extract_payload q))))
      in if nets = [] then Inl ''no valid CIDR blocks in input'' else Inr (join line_end (map net_text (merge_ipv4_cidrs nets))))"

definition cidr_merge_skill :: skill where
  "cidr_merge_skill =
     (base_skill ''cidr_merge'' ''Merge a list of CIDR blocks into the minimal covering set''
        [''cidr merge'', ''merge cidr'', ''consolidate cidr'', ''combine cidr''])
       \<lparr>sk_match := (\<lambda>q. any_in (to_lower q) [''cidr merge'', ''merge cidr'', ''consolidate cidr'', ''combine cidr'']),
        sk_execute := cidr_merge\<rparr>"

section \<open>Hardware addresses\<close>

definition oui_table :: "(string \<times> string) list" where
  "oui_table =
     [(''000C29'', ''VMware''), (''000569'', ''VMware''), (''080027'', ''VirtualBox (PCS Systemtechnik)''), (''001C42'', ''Parallels''),
      (''F45EAB'', ''Apple''), (''000393'', ''Apple''), (''ACDE48'', ''Apple''), (''001124'', ''Apple''), (''3CD92B'', ''HP''),
      (''0001E6'', ''HP''), (''001B21'', ''Intel (corporate)''), (''F0DEF7'', ''Dell''), (''001422'', ''Dell''),
      (''002500'', ''Lenovo (corporate)''), (''B47AC8'', ''Lenovo''), (''00235C'', ''Cisco''), (''000163'', ''Cisco''),
      (''001517'', ''Cisco''), (''B827EB'', ''Raspberry Pi Foundation''), (''DC396F'', ''Espressif (ESP32)''),
      (''240AC4'', ''Espressif''), (''0022F7'', ''Intel''), (''0017F2'', ''Intel''), (''001AA0'', ''Google''), (''42010E'', ''Google''),
      (''E45F01'', ''Microsoft (Surface)''), (''A46C2A'', ''Microsoft''), (''5C8789'', ''Netgear''), (''000FB5'', ''Netgear''),
      (''C03F0E'', ''TP-Link''), (''50C7BF'', ''TP-Link''), (''9C5C8E'', ''Asus''), (''002590'', ''Super Micro''),
      (''7085C2'', ''Samsung''), (''002268'', ''Amazon (AWS)''), (''00A069'', ''D-Link''), (''00179A'', ''D-Link''),
      (''0004E2'', ''Realtek''), (''E0CB4E'', ''Cisco-Meraki''), (''001A11'', ''Google Nest''), (''0021CC'', ''Gigabyte''),
      (''00C0EE'', ''Lambda''), (''04D9F5'', ''Razer'')]"

text \<open>The report for an address in the library's form, in lower case with colons.\<close>

definition oui_report :: "string \<Rightarrow> string" where
  "oui_report hw =
     (let front = take 8 hw; oui = to_upper (filter (\<lambda>c. c \<noteq> CHR '':'') front)
      in case map_of oui_table oui of
           Some vendor \<Rightarrow> ''OUI '' @ oui @ '': '' @ vendor
         | None \<Rightarrow>
             (case map_of oui_table (to_upper front) of
                Some vendor \<Rightarrow> ''OUI '' @ oui @ '': '' @ vendor
              | None \<Rightarrow> ''OUI '' @ oui @ '': unknown vendor (not in embedded table)''))"

definition mac_lookup :: "(string \<Rightarrow> string) \<Rightarrow> (string \<Rightarrow> string + string) \<Rightarrow> string \<Rightarrow> string + string" where
  "mac_lookup find_text parse_mac q =
     (let m = find_text q
      in if m = [] then Inl ''no MAC address found''
         else case parse_mac m of Inl e \<Rightarrow> Inl (''invalid MAC: '' @ e) | Inr hw \<Rightarrow> Inr (oui_report hw))"

definition mac_lookup_skill :: "(string \<Rightarrow> string) \<Rightarrow> (string \<Rightarrow> string + string) \<Rightarrow> skill" where
  "mac_lookup_skill find_text parse_mac =
     (base_skill ''mac_lookup'' ''Look up the vendor for a MAC address (OUI prefix)''
        [''mac lookup'', ''oui lookup'', ''vendor for mac'', ''who makes this mac''])
       \<lparr>sk_match := (\<lambda>q. any_in (to_lower q) [''mac lookup'', ''oui lookup'', ''vendor for mac'', ''who makes this mac'']),
        sk_execute := mac_lookup find_text parse_mac\<rparr>"

section \<open>Connections and names\<close>

definition port_check :: "(string \<Rightarrow> bool) \<Rightarrow> string \<Rightarrow> string" where
  "port_check connects q =
     (let payload = trim_space (extract_payload q); target = if payload = [] then trim_space q else payload
      in if connects target then ''open: '' @ target else ''closed: '' @ target)"

definition port_check_skill :: "(string \<Rightarrow> bool) \<Rightarrow> skill" where
  "port_check_skill connects =
     (base_skill ''port_check'' (''Check if a TCP port is open on a host. Usage: '' @ [CHR 0x27] @ ''port_check host:port'' @ [CHR 0x27])
        [''port check'', ''check port'', ''is port open'', ''port open''])
       \<lparr>sk_match := (\<lambda>q. any_in (to_lower q) [''port check'', ''check port'', ''is port open'', ''port open'']),
        sk_execute := (\<lambda>q. Inr (port_check connects q))\<rparr>"

text \<open>A URL as the library takes it apart; the pairs of the query with their values as they are printed, in the order in which the map is walked.\<close>

record url_parts =
  ur_scheme :: string
  ur_host :: string
  ur_port :: string
  ur_path :: string
  ur_raw_query :: string
  ur_pairs :: "(string \<times> string) list"
  ur_fragment :: string
  ur_user :: "(string \<times> string option) option"

definition url_report :: "url_parts \<Rightarrow> string" where
  "url_report u =
     ''scheme: '' @ ur_scheme u @ line_end @ ''host: '' @ ur_host u @ line_end @ ''port: '' @ ur_port u @ line_end @
     ''path: '' @ ur_path u @ line_end @
     (if ur_raw_query u = [] then []
      else ''query: '' @ ur_raw_query u @ line_end @ concat (map (\<lambda>(k, v). ''  '' @ k @ '' = '' @ v @ line_end) (ur_pairs u))) @
     (if ur_fragment u = [] then [] else ''fragment: '' @ ur_fragment u @ line_end) @
     (case ur_user u of
        None \<Rightarrow> []
      | Some (name, password) \<Rightarrow>
          ''username: '' @ name @ line_end @
          (case password of None \<Rightarrow> [] | Some pw \<Rightarrow> ''password: '' @ pw @ line_end))"

definition trim_line_ends :: "string \<Rightarrow> string" where
  "trim_line_ends s = rev (dropWhile (\<lambda>c. c = CHR 0x0A) (rev s))"

definition url_text :: "(string \<Rightarrow> string) \<Rightarrow> string \<Rightarrow> string" where
  "url_text find_text q =
     (let m = find_text q
      in if m \<noteq> [] then m
         else trim_space (case str_last_index_char q (CHR '' '') of None \<Rightarrow> q | Some i \<Rightarrow> drop (i + 1) q))"

definition url_parse :: "(string \<Rightarrow> string) \<Rightarrow> (string \<Rightarrow> string + url_parts) \<Rightarrow> string \<Rightarrow> string + string" where
  "url_parse find_text parse q =
     (let m = url_text find_text q
      in if m = [] then Inl ''no URL found in query''
         else case parse m of Inl e \<Rightarrow> Inl (''invalid URL: '' @ e) | Inr u \<Rightarrow> Inr (trim_line_ends (url_report u)))"

definition url_parse_skill :: "(string \<Rightarrow> string) \<Rightarrow> (string \<Rightarrow> string + url_parts) \<Rightarrow> skill" where
  "url_parse_skill find_text parse =
     (base_skill ''url_parse'' ''Parse a URL into scheme/host/path/query/fragment'' [''parse url'', ''url parse'', ''split url''])
       \<lparr>sk_match := (\<lambda>q. any_in (to_lower q) [''parse url'', ''url parse'', ''split url'']),
        sk_execute := url_parse find_text parse\<rparr>"

text \<open>The first kind of record that the query names; addresses otherwise.\<close>

definition record_type :: "string \<Rightarrow> string" where
  "record_type low =
     (case find (\<lambda>t. let tl = to_lower t in contains_str low ('' '' @ tl @ '' '') \<or> contains_str low ('' '' @ tl @ '':'') \<or>
                      contains_str low (tl @ '' record''))
             [''AAAA'', ''MX'', ''TXT'', ''NS'', ''CNAME'', ''PTR'', ''SRV''] of
        Some t \<Rightarrow> t
      | None \<Rightarrow> ''A'')"

record resolver =
  rs_host :: "string \<Rightarrow> string + string list"
  rs_mx :: "string \<Rightarrow> string + (nat \<times> string) list"
  rs_txt :: "string \<Rightarrow> string + string list"
  rs_ns :: "string \<Rightarrow> string + string list"
  rs_cname :: "string \<Rightarrow> string + string"

definition as_lines :: "string list \<Rightarrow> string" where
  "as_lines ls = concat (map (\<lambda>l. l @ line_end) ls)"

definition answer_lines :: "('a \<Rightarrow> string list) \<Rightarrow> string + 'a \<Rightarrow> string + string" where
  "answer_lines f r = (case r of Inl e \<Rightarrow> Inl e | Inr x \<Rightarrow> Inr (as_lines (f x)))"

definition dns_answer :: "resolver \<Rightarrow> string \<Rightarrow> string \<Rightarrow> string + string" where
  "dns_answer r kind domain =
     (if kind = ''A'' then answer_lines (filter (\<lambda>ip. contains_str ip ''.'')) (rs_host r domain)
      else if kind = ''AAAA'' then answer_lines (filter (\<lambda>ip. contains_str ip '':'')) (rs_host r domain)
      else if kind = ''MX'' then answer_lines (map (\<lambda>(pref, host). dec_digits pref @ '' '' @ host)) (rs_mx r domain)
      else if kind = ''TXT'' then answer_lines id (rs_txt r domain)
      else if kind = ''NS'' then answer_lines id (rs_ns r domain)
      else if kind = ''CNAME'' then answer_lines (\<lambda>c. [c]) (rs_cname r domain)
      else Inl (''unsupported record type: '' @ kind))"

definition dns_lookup :: "(string \<Rightarrow> string) \<Rightarrow> resolver \<Rightarrow> string \<Rightarrow> string + string" where
  "dns_lookup find_text r q =
     (let low = to_lower q; kind = record_type low; domain = find_text low
      in if domain = [] then Inl ''no domain found in query''
         else case dns_answer r kind domain of
             Inl e \<Rightarrow> Inl e
           | Inr answer \<Rightarrow> Inr (trim_line_ends (''lookup: '' @ kind @ '' '' @ domain @ line_end @ line_end @ answer)))"

definition dns_lookup_skill :: "(string \<Rightarrow> string) \<Rightarrow> resolver \<Rightarrow> skill" where
  "dns_lookup_skill find_text r =
     (base_skill ''dns_lookup'' (''DNS lookup (A, AAAA, MX, TXT, NS, CNAME). Usage: '' @ [CHR 0x27] @ ''dns_lookup MX example.com'' @ [CHR 0x27])
        [''dns lookup'', ''lookup dns'', ''resolve dns'', ''dig''])
       \<lparr>sk_match := (\<lambda>q. let q = to_lower q in
            any_in q [''dns lookup'', ''lookup dns'', ''resolve dns'', ''dns resolve''] \<or> has_prefix q ''dig '' \<or>
            contains_str q ''dig mx''),
        sk_execute := dns_lookup find_text r\<rparr>"

section \<open>Blocks as ranges\<close>

text \<open>Two addresses lie in the same block when they agree without the bits of the host.\<close>

lemma masked_eq_iff: "(x::ipv4) AND NOT (mask k) = y AND NOT (mask k) \<longleftrightarrow> drop_bit k x = drop_bit k y"
proof
  assume l: "x AND NOT (mask k) = y AND NOT (mask k)"
  have in_range: "bit x (k + i) = bit y (k + i)" if "k + i < 32" for i
    using arg_cong [OF l, of "\<lambda>w. bit w (k + i)"] that by (simp add: bit_simps)
  have "bit x (k + i) = bit y (k + i)" for i
  proof (cases "k + i < 32")
    case False
    then show ?thesis using bit_imp_le_length [of x "k + i"] bit_imp_le_length [of y "k + i"] by auto
  qed (rule in_range)
  then show "drop_bit k x = drop_bit k y" by (intro bit_word_eqI) (simp add: bit_simps)
next
  assume r: "drop_bit k x = drop_bit k y"
  have "bit x i = bit y i" if "k \<le> i" for i
    using arg_cong [OF r, of "\<lambda>w. bit w (i - k)"] that by (simp add: bit_simps)
  then show "x AND NOT (mask k) = y AND NOT (mask k)" by (intro bit_word_eqI) (auto simp: bit_simps)
qed

definition host_bits :: "ipv4_net \<Rightarrow> nat" where
  "host_bits n = 32 - nt_ones n"

definition start_of :: "ipv4_net \<Rightarrow> nat" where
  "start_of n = unat (nt_ip n)"

lemma unat_drop_bit_div: "unat (drop_bit k x :: ipv4) = unat x div 2 ^ k"
  by (rule trans [OF unat_drop_bit_eq drop_bit_eq_div])

lemma same_block_iff:
  "(x::ipv4) AND NOT (mask k) = y AND NOT (mask k) \<longleftrightarrow> unat x div 2 ^ k = unat y div 2 ^ k"
proof -
  have "drop_bit k x = drop_bit k y \<longleftrightarrow> unat (drop_bit k x) = unat (drop_bit k y)" by (rule word_unat_eq_iff)
  then show ?thesis by (simp only: masked_eq_iff unat_drop_bit_div)
qed

lemma net_contains_iff: "net_contains n a \<longleftrightarrow> unat a div 2 ^ host_bits n = start_of n div 2 ^ host_bits n"
  unfolding net_contains_def net_mask_def same_block_iff host_bits_def start_of_def by (rule eq_commute)

text \<open>A block as the parser makes it: at most 32 bits, no bit of the host set.\<close>

definition net_ok :: "ipv4_net \<Rightarrow> bool" where
  "net_ok n \<longleftrightarrow> nt_ones n \<le> 32 \<and> nt_ip n AND net_mask (nt_ones n) = nt_ip n"

lemma cleared_div: "unat (x AND NOT (mask k) :: ipv4) = unat x div 2 ^ k * 2 ^ k"
proof -
  have "x AND NOT (mask k) = push_bit k (drop_bit k x)"
    by (intro bit_word_eqI) (auto simp: bit_simps)
  then have "unat (x AND NOT (mask k)) = take_bit 32 (push_bit k (unat (drop_bit k x)))"
    by (simp add: unsigned_push_bit_eq)
  also have "push_bit k (unat (drop_bit k x)) = unat x div 2 ^ k * 2 ^ k"
    by (simp only: unat_drop_bit_div push_bit_eq_mult)
  also have "take_bit 32 (unat x div 2 ^ k * 2 ^ k) = unat x div 2 ^ k * 2 ^ k"
  proof (rule take_bit_nat_eq_self)
    have "unat x < 2 ^ 32" using unsigned_less [of x] by simp
    then show "unat x div 2 ^ k * 2 ^ k < 2 ^ 32" by (rule le_less_trans [OF div_times_less_eq_dividend])
  qed
  finally show ?thesis .
qed

lemma net_ok_start: "net_ok n \<longleftrightarrow> nt_ones n \<le> 32 \<and> start_of n div 2 ^ host_bits n * 2 ^ host_bits n = start_of n"
proof -
  have "nt_ip n AND net_mask (nt_ones n) = nt_ip n \<longleftrightarrow> unat (nt_ip n AND net_mask (nt_ones n)) = unat (nt_ip n)"
    by (rule word_unat_eq_iff)
  then show ?thesis by (simp add: net_ok_def net_mask_def cleared_div host_bits_def start_of_def)
qed

section \<open>Merging keeps the addresses\<close>

lemma two_halves: "(p::nat) div 2 = q div 2 \<Longrightarrow> p \<noteq> q \<Longrightarrow> a div 2 = p div 2 \<longleftrightarrow> a = p \<or> a = q"
  by (cases "even a"; cases "even p"; cases "even q") (auto elim!: evenE oddE)

lemma half_of_block:
  assumes "(p::nat) div 2 ^ Suc k = q div 2 ^ Suc k" "p div 2 ^ k \<noteq> q div 2 ^ k"
  shows "a div 2 ^ Suc k = p div 2 ^ Suc k \<longleftrightarrow> a div 2 ^ k = p div 2 ^ k \<or> a div 2 ^ k = q div 2 ^ k"
proof -
  have half: "x div 2 ^ Suc k = x div 2 ^ k div 2" for x :: nat by (simp add: div_mult2_eq [symmetric] mult.commute)
  show ?thesis using assms unfolding half by (rule two_halves)
qed

text \<open>A block whose start lies in another one and does not come before it lies inside.\<close>

lemma inside_block:
  assumes q: "q div 2 ^ j * 2 ^ j = (q::nat)" and p: "p div 2 ^ k * 2 ^ k = p"
    and same: "q div 2 ^ k = p div 2 ^ k" and order: "p < q \<or> p = q \<and> j \<le> k"
    and a: "a div 2 ^ j = q div 2 ^ j"
  shows "a div 2 ^ k = p div 2 ^ k"
proof -
  have "j \<le> k"
  proof (rule ccontr)
    assume "\<not> j \<le> k"
    then have "(2::nat) ^ j = 2 ^ (j - k) * 2 ^ k" by (simp add: power_add [symmetric])
    then have "2 ^ k dvd q" using q by (metis dvd_mult dvd_triv_right)
    then have "q div 2 ^ k * 2 ^ k = q" by simp
    with p same have "p = q" by metis
    with order \<open>\<not> j \<le> k\<close> show False by simp
  qed
  then have "(2::nat) ^ k = 2 ^ j * 2 ^ (k - j)" by (simp add: power_add [symmetric])
  then have "x div 2 ^ k = x div 2 ^ j div 2 ^ (k - j)" for x :: nat by (simp add: div_mult2_eq)
  with a same show ?thesis by metis
qed

text \<open>The order of the sort: by the start, the larger block first.\<close>

definition net_le :: "ipv4_net \<Rightarrow> ipv4_net \<Rightarrow> bool" where
  "net_le m n \<longleftrightarrow> start_of m < start_of n \<or> start_of m = start_of n \<and> nt_ones m \<le> nt_ones n"

lemma not_before_le: "\<not> net_before n m \<longleftrightarrow> net_le m n"
  unfolding net_before_def compare_ip_net_def net_le_def start_of_def
  by (auto simp: word_less_nat_alt word_unat_eq_iff)

interpretation net_scan: best_scan net_before
  by unfold_locales (auto simp: net_before_def compare_ip_net_def split: if_splits)

lemma merged_in_order: "sorted_wrt net_le (exchange_sort net_before nets)"
  using net_scan.exchange_sort_sorted [of nets] by (simp add: not_before_le)

lemma set_exchange_sort: "set (exchange_sort before xs) = set xs"
  by (metis exchange_sort_mset set_mset_mset)

definition covered :: "ipv4_net list \<Rightarrow> ipv4 set" where
  "covered nets = {a. \<exists>n\<in>set nets. net_contains n a}"

lemma covered_simps [simp]:
  "covered [] = {}" "covered (n # ns) = {a. net_contains n a} \<union> covered ns" "covered (ms @ ns) = covered ms \<union> covered ns"
  by (auto simp: covered_def)

lemma net_le_trans: "net_le l m \<Longrightarrow> net_le m n \<Longrightarrow> net_le l n"
  by (auto simp: net_le_def)

lemma subsumed_block:
  assumes "net_ok l" "net_ok n" "net_le l n" "net_contains l (nt_ip n)"
  shows "{a. net_contains n a} \<subseteq> {a. net_contains l a}"
proof
  fix a
  assume "a \<in> {a. net_contains n a}"
  then have a: "unat a div 2 ^ host_bits n = start_of n div 2 ^ host_bits n" by (simp add: net_contains_iff)
  have "start_of l < start_of n \<or> start_of l = start_of n \<and> host_bits n \<le> host_bits l"
    using assms(3) by (auto simp: net_le_def host_bits_def)
  from inside_block [OF _ _ _ this a] assms(1,2,4) show "a \<in> {a. net_contains l a}"
    by (simp add: net_contains_iff net_ok_start start_of_def)
qed

lemma parent_parts:
  assumes "net_ok l" "0 < nt_ones l"
  shows "net_ok (parent_net l)" "host_bits (parent_net l) = Suc (host_bits l)"
    "start_of (parent_net l) = start_of l div 2 ^ Suc (host_bits l) * 2 ^ Suc (host_bits l)"
proof -
  have bits: "host_bits (parent_net l) = Suc (host_bits l)" "32 - (nt_ones l - 1) = Suc (host_bits l)"
    using assms by (auto simp: parent_net_def host_bits_def net_ok_def)
  show "host_bits (parent_net l) = Suc (host_bits l)" by (rule bits(1))
  show start: "start_of (parent_net l) = start_of l div 2 ^ Suc (host_bits l) * 2 ^ Suc (host_bits l)"
    unfolding start_of_def parent_net_def 
    by (simp add: net_mask_def bits(2) [unfolded One_nat_def] cleared_div del: power_Suc)
  show "net_ok (parent_net l)"
    unfolding net_ok_start bits(1) start using assms by (auto simp: net_ok_def parent_net_def simp del: power_Suc)
qed

lemma merged_pair:
  assumes l: "net_ok l" "0 < nt_ones l" and n: "net_ok n" "nt_ones l = nt_ones n" "net_contains (parent_net l) (nt_ip n)"
    and new: "\<not> net_contains l (nt_ip n)"
  shows "{a. net_contains (parent_net l) a} = {a. net_contains l a} \<union> {a. net_contains n a}"
proof -
  have k: "host_bits n = host_bits l" using n(2) by (simp add: host_bits_def)
  have q: "start_of (parent_net l) div 2 ^ Suc (host_bits l) = start_of l div 2 ^ Suc (host_bits l)"
    by (simp add: parent_parts(3) [OF l] del: power_Suc)
  have "start_of l div 2 ^ Suc (host_bits l) = start_of n div 2 ^ Suc (host_bits l)"
    using n(3) q by (simp only: net_contains_iff parent_parts(2) [OF l] start_of_def)
  moreover have "start_of l div 2 ^ host_bits l \<noteq> start_of n div 2 ^ host_bits l"
    using new by (simp add: net_contains_iff start_of_def)
  ultimately have "unat a div 2 ^ Suc (host_bits l) = start_of l div 2 ^ Suc (host_bits l) \<longleftrightarrow>
      unat a div 2 ^ host_bits l = start_of l div 2 ^ host_bits l \<or> unat a div 2 ^ host_bits l = start_of n div 2 ^ host_bits l" for a
    by (rule half_of_block)
  then show ?thesis unfolding net_contains_iff parent_parts(2) [OF l] q k by blast
qed

text \<open>The last merged block is in order with every block that is still to come.\<close>

lemma merge_step_keeps:
  assumes "ms \<noteq> []" "net_ok (last ms)" "net_ok n" "net_le (last ms) n"
  shows "covered (merge_step ms n) = covered ms \<union> {a. net_contains n a}" "merge_step ms n \<noteq> []"
    "net_ok (last (merge_step ms n))" "net_le n m \<Longrightarrow> net_ok m \<Longrightarrow> net_le (last (merge_step ms n)) m"
proof -
  let ?l = "last ms"
  have split: "covered ms = covered (butlast ms) \<union> {a. net_contains ?l a}"
    using covered_simps(3) [of "butlast ms" "[?l]"] assms(1) by simp
  consider (inside) "net_contains ?l (nt_ip n)" "merge_step ms n = ms"
    | (apart) "merge_step ms n = ms @ [n]"
    | (pair) "\<not> net_contains ?l (nt_ip n)" "0 < nt_ones ?l" "nt_ones ?l = nt_ones n"
        "net_contains (parent_net ?l) (nt_ip n)" "merge_step ms n = butlast ms @ [parent_net ?l]"
    by (cases "net_contains ?l (nt_ip n)"; cases "nt_ones ?l = 0"; cases "nt_ones ?l = nt_ones n";
        cases "net_contains (parent_net ?l) (nt_ip n)"; cases "net_contains (parent_net ?l) (nt_ip ?l)")
      (simp_all add: merge_step_def)
  then have all: "covered (merge_step ms n) = covered ms \<union> {a. net_contains n a} \<and> merge_step ms n \<noteq> [] \<and>
      net_ok (last (merge_step ms n)) \<and> (net_le n m \<longrightarrow> net_ok m \<longrightarrow> net_le (last (merge_step ms n)) m)" for m
  proof cases
    case inside
    from subsumed_block [OF assms(2,3,4) inside(1)] inside(2) assms
    show ?thesis
      by (auto simp: split intro: net_le_trans)
  next
    case apart
    with assms show ?thesis
      by auto
  next
    case pair
    note parent = parent_parts [OF assms(2) pair(2)]
    have "start_of ?l \<noteq> start_of n" using pair(1) by (auto simp: net_contains_iff start_of_def)
    with assms(4) have "start_of ?l < start_of n" by (simp add: net_le_def)
    moreover have "start_of (parent_net ?l) \<le> start_of ?l" unfolding parent(3) by (rule div_times_less_eq_dividend)
    ultimately have "net_le (parent_net ?l) m" if "net_le n m" using that by (auto simp: net_le_def)
    with merged_pair [OF assms(2) pair(2) assms(3) pair(3,4,1)] pair(5) parent(1)
    show ?thesis
      by (auto simp: split)
  qed
  from all show "covered (merge_step ms n) = covered ms \<union> {a. net_contains n a}" "merge_step ms n \<noteq> []"
    "net_ok (last (merge_step ms n))" by blast+
  from all [of m] show "net_le n m \<Longrightarrow> net_ok m \<Longrightarrow> net_le (last (merge_step ms n)) m" by blast
qed

lemma merge_fold:
  "ms \<noteq> [] \<Longrightarrow> net_ok (last ms) \<Longrightarrow> \<forall>n\<in>set ns. net_ok n \<and> net_le (last ms) n \<Longrightarrow> sorted_wrt net_le ns \<Longrightarrow>
     covered (foldl merge_step ms ns) = covered ms \<union> covered ns"
proof (induction ns arbitrary: ms)
  case (Cons n ns)
  have n: "net_ok n" "net_le (last ms) n" using Cons.prems(3) by simp_all
  note step = merge_step_keeps [OF Cons.prems(1,2) n]
  have "covered (foldl merge_step (merge_step ms n) ns) = covered (merge_step ms n) \<union> covered ns"
    using Cons.prems(3,4) by (intro Cons.IH step(2,3)) (auto intro: step(4))
  then show ?case by (auto simp: step(1))
qed simp

lemma parse_cidr_ok: "parse_cidr s = Some n \<Longrightarrow> net_ok n"
  by (auto simp: parse_cidr_def Let_def net_ok_def split: if_splits)

lemma parsed_blocks_ok: "\<forall>n\<in>set (List.map_filter parse_cidr texts). net_ok n"
  by (induction texts) (auto simp: List.map_filter_simps parse_cidr_ok split: option.splits)

text \<open>
  C38: The merging of blocks keeps exactly the addresses of the blocks, whatever they are and in whatever order they come:
  none is lost, and none is added.
\<close>

theorem merged_blocks_cover_same_addresses:
  assumes "\<forall>n\<in>set nets. net_ok n"
  shows "covered (merge_ipv4_cidrs nets) = covered nets"
proof (cases "exchange_sort net_before nets")
  case Nil
  then show ?thesis using set_exchange_sort [of net_before nets] by (simp add: merge_ipv4_cidrs_def covered_def)
next
  case (Cons n ns)
  have all: "set (n # ns) = set nets" using set_exchange_sort [of net_before nets] Cons by simp
  have "covered (foldl merge_step [n] ns) = covered [n] \<union> covered ns"
    using merged_in_order [of nets] Cons all assms by (intro merge_fold) auto
  also have "\<dots> = covered nets" using all by (auto simp: covered_def)
  finally show ?thesis by (simp add: merge_ipv4_cidrs_def Cons)
qed

section \<open>Examples\<close>

definition demo_blocks :: "ipv4_net list" where
  "demo_blocks = List.map_filter parse_cidr [''10.0.0.128/26'', ''10.0.0.0/26'', ''10.0.0.192/26'', ''10.0.0.64/26'', ''10.0.0.5/32'']"

text \<open>Four quarters of a block become two halves, not the block: the result is not the smallest set.\<close>

lemma quarters_not_joined: "map net_text (merge_ipv4_cidrs demo_blocks) = [''10.0.0.0/25'', ''10.0.0.128/25'']"
  by code_simp

lemma merged_blocks_cover_same_addresses_witness:
  "covered (merge_ipv4_cidrs demo_blocks) = covered demo_blocks \<and> length demo_blocks = 5"
proof -
  have ok: "\<forall>n\<in>set demo_blocks. net_ok n" 
    unfolding demo_blocks_def by (rule parsed_blocks_ok)
  have "length demo_blocks = 5" by code_simp
  with merged_blocks_cover_same_addresses [OF ok] show ?thesis by (rule conjI)
qed

text \<open>The broadcast address is the last one of its block.\<close>

lemma broadcast_in_block: "net_contains n (broadcast n)"
  unfolding net_contains_def broadcast_def net_mask_def by (intro bit_word_eqI) (auto simp: bit_simps)

lemma host_counts: "host_count \<lparr>nt_ip = 0, nt_ones = 32\<rparr> = Some 0" "host_count \<lparr>nt_ip = 0, nt_ones = 24\<rparr> = Some 254"
  "host_count \<lparr>nt_ip = 0, nt_ones = 0\<rparr> = None"
  by code_simp+

text \<open>The second look into the table, with the colons, cannot succeed.\<close>

lemma oui_table_plain: "list_all (\<lambda>k. CHR '':'' \<notin> set k) (map fst oui_table)"
  by code_simp

lemma second_lookup_useless: "CHR '':'' \<in> set key \<Longrightarrow> map_of oui_table key = None"
  using oui_table_plain by (auto simp only: map_of_eq_None_iff list_all_iff set_map)

text \<open>A \<open>dns record\<close> is taken for a name-server record, and two kinds that are recognised are refused.\<close>

lemma dns_record_means_ns: "record_type ''dns lookup: a dns record for example.com'' = ''NS''"
  by code_simp

lemma recognised_kinds_refused:
  "record_type ''dns lookup ptr record of example.com'' = ''PTR''" "dns_answer r ''PTR'' domain = Inl (''unsupported record type: '' @ ''PTR'')"
  by code_simp (simp add: dns_answer_def)

text \<open>The classes of some addresses.\<close>

lemma class_examples:
  "map_option ipv4_class (parse_ipv4 ''172.31.0.1'') = Some ''private (RFC 1918)''"
  "map_option ipv4_class (parse_ipv4 ''172.32.0.1'') = Some ''public''"
  "map_option ipv4_class (parse_ipv4 ''0.0.0.0'') = Some ''unspecified (0.0.0.0)''"
  by code_simp+

end
