(* ===== verification/Spec2Isabelle.thy ===== *)
theory Spec2Isabelle
  imports Circuit_Breaker Hitl_Retry Orch_Pipeline Thinking Tool_Approval LLM_Stream Provider_Router Memory_Intelligence File_Tool Task_Router Orch_Lifecycle
    Security_Manager Ignore_Matcher Skill_Diff Skill_Sequences Hitl_Hub Calculator Patch_Tool Todo_Tool Public_Role LLM_Request Prompt_Skill MCP_Registry Skill_Barcodes
    Scan_Tools Process_Tool Cron_Skill Activity_Log App_Errors Configuration Skill_Network
begin

text \<open>
  A verification library of the Kyoci agent, a server (Go, under src/) that lets language models work on tasks with
  tools, in sub-agents and with an operator who can be asked for help.

  \<^bold>\<open>How the program works.\<close> A task enters at \<open>Orchestrator.Execute\<close> (\<open>internal/orchestrator/orchestrator.go\<close>). A
  router picks the agent whose role fits it, the orchestrator builds that agent with the tools its role may use, and
  the agent runs one of three strategies: the ReAct loop, the thinking state machine or the orchestrated pipeline, in
  which a planner writes a list of steps and a dispatcher runs them through workers. All of them talk to a model through
  a provider client with retries and a circuit breaker, all of them act through the tool registry, and a chat gateway
  may put an approval by the operator before each call. When a task fails, the retry loop of
  \<open>internal/orchestrator/hitl.go\<close> tries again, asks the operator once through the help hub, and records what was learned in
  memory. Queries that a skill can answer never reach a model. Tools come with the program or from MCP servers.

  \<^bold>\<open>Strings, paths and shared types.\<close> A Go string is a list of bytes (\<open>string\<close>).

  \<^item> \<open>Prelude\<close>: rule collections, list lemmas, the exchange sort that the code writes out by hand in several places, and the
    interfaces \<open>guarded_machine\<close> (an invariant kept by every event), \<open>window_buffer\<close> (the last \<open>cap\<close> pushed items),
    \<open>kv_registry\<close> (lookup after insert and remove) and \<open>best_scan\<close> (a scan that keeps the best element seen, and the sort by
    it). Each is interpreted on the model's own operations in the theory of the component that provides them.
  \<^item> \<open>Go_Strings\<close>, \<open>Go_Paths\<close>: what the code uses of \<open>strings\<close>, \<open>strconv\<close> and \<open>path/filepath\<close>; \<open>Go_Runes\<close>: strings read as
    UTF-8, with the round trip of valid runes.
  \<^item> \<open>Kyoci_Types\<close>: messages, tool calls and task results of \<open>pkg/types.go\<close>, and what a conversation must look like for a
    provider to accept it (every call answered once, right after it).
  \<^item> \<open>App_Errors\<close> (\<open>internal/apperr\<close>): kinds of errors, chains and matching, status codes.
  \<^item> \<open>Configuration\<close> (\<open>internal/config\<close>): sections, defaults, overrides by the environment, validation, loading; a loaded
    configuration satisfies every bound.

  \<^bold>\<open>The agent\<close> (\<open>internal/agent\<close>).

  \<^item> \<open>Conversation\<close> (\<open>context.go\<close>): the message history, its compaction, the clean-up of texts.
  \<^item> \<open>Code_Blocks\<close> (\<open>loop.go\<close>): fenced blocks in an answer that become file writes; the round trip of a rendered block.
  \<^item> \<open>Json_Text\<close> (\<open>thinking.go\<close>, \<open>orchestrated.go\<close>): recovery of JSON from prose.
  \<^item> \<open>Text_Tool_Calls\<close>, \<open>ReAct_Loop\<close> (\<open>strategy_react.go\<close>, \<open>loop.go\<close>): the ReAct loop with approvals, batches, caps and its
    streaming form; a run is a function of the model's and the tools' answers, which change a world state.
  \<^item> \<open>Thinking\<close> (\<open>thinking.go\<close>): the six phases as a step function on a loop state; termination, caps, loop detection.
  \<^item> \<open>Task_Complexity\<close> (\<open>complexity.go\<close>): which tasks get which strategy.
  \<^item> \<open>Orch_Steps\<close>, \<open>Orch_Plan\<close>, \<open>Orch_Dispatch\<close>, \<open>Orch_Worker\<close>, \<open>Orch_Pipeline\<close> (\<open>orchestrated.go\<close>, \<open>worker.go\<close>): the plan and its
    injected steps, the dispatcher with its rounds (sequential, and as a step relation of the goroutines of a round,
    which is shown to refine the sequential run), the worker with its verification gate, and the passes around them.
  \<^item> \<open>Read_Only_Filter\<close> (\<open>explore_worker.go\<close>, \<open>research_worker.go\<close>, \<open>qa_worker.go\<close>): the restricted sub-agents.
  \<^item> \<open>Prompt_Skill\<close> (\<open>internal/promptskill\<close>): the Markdown skills, their ranking and the caps on what enters a prompt.
  \<^item> \<open>Activity_Log\<close> (\<open>loop.go\<close>, \<open>internal/gateway/activity.go\<close>): the summaries of calls and the log of recent tasks.

  \<^bold>\<open>Providers and approval.\<close>

  \<^item> \<open>Circuit_Breaker\<close>, \<open>LLM_Request\<close>, \<open>LLM_Stream\<close>, \<open>Provider_Router\<close> (\<open>internal/llm\<close>): the breaker, the requests of the two
    clients and the completions they make of the answers (a conversation of a role is accepted, the calls it echoes come
    back), the readers of event streams, completion with retries, and the four routing strategies.
  \<^item> \<open>Tool_Approval\<close> (\<open>internal/gateway\<close>): severity, trust and the approval request with its callbacks.
  \<^item> \<open>Security_Manager\<close> (\<open>internal/security\<close>): keys, the sliding window of requests and its bound, the clean-up of inputs.

  \<^bold>\<open>Tools\<close> (\<open>pkg/tool.go\<close>, \<open>internal/tool\<close>).

  \<^item> \<open>Tool_Registry\<close>: registration, validation and execution of tool calls.
  \<^item> \<open>File_Tool\<close> (\<open>file.go\<close>): the seven file operations over a file-system state, with path expansion, sandbox and allowed
    directories; \<open>Patch_Tool\<close> (\<open>patch.go\<close>): an edit is applied as specified or the old text is back.
  \<^item> \<open>File_Walk\<close>: the walk of a directory tree and the interface \<open>limited_search\<close> of a search that stops at a number of
    results, interpreted by the four searching tools of \<open>Search_Tools\<close> (\<open>glob.go\<close>, \<open>grep.go\<close>) and \<open>Scan_Tools\<close>
    (\<open>codesearch.go\<close>, \<open>secret_scan.go\<close>).
  \<^item> \<open>Terminal_Tool\<close> (\<open>terminal.go\<close>), \<open>Process_Tool\<close> (\<open>process.go\<close>): the filter of commands and what becomes of their output;
    the table of background processes as a step system with the goroutines that clean it up.
  \<^item> \<open>Calculator\<close> (\<open>calculator.go\<close>), \<open>Todo_Tool\<close> (\<open>todo.go\<close>): evaluation agrees with the arithmetic of the expression; the
    list keeps its identifiers distinct.
  \<^item> \<open>Delegation\<close> (\<open>delegation.go\<close>): sub-tasks as an inductive step relation over a registry and a semaphore.
  \<^item> \<open>MCP_Client\<close>, \<open>MCP_Registry\<close> (\<open>internal/mcp\<close>): a connection to a server with its pending lines and its lock, and the
    registry that maps tools to servers.

  \<^bold>\<open>Memory\<close> (\<open>internal/memory\<close>). \<open>Short_Term_Memory\<close>, \<open>Long_Term_Memory\<close>, \<open>Memory_Store\<close>, \<open>Memory_Intelligence\<close>: the buffer with
  its token budget, the SQL table as a list of rows, the manager that moves entries between them, and profile, lessons
  and reflections on top. \<open>Public_Memory\<close> (\<open>pkg/memory.go\<close>) is the store of the public package, \<open>Public_Role\<close>
  (\<open>pkg/role.go\<close>) its registries and its agent loop.

  \<^bold>\<open>Orchestration.\<close> \<open>Agent_Defs\<close> (\<open>internal/agentdef\<close>), \<open>Role_Registry\<close> (\<open>internal/role\<close>), \<open>Task_Router\<close>
  (\<open>classifier.go\<close>, \<open>autoresolve.go\<close>), \<open>Hitl_Retry\<close> (\<open>hitl.go\<close>), \<open>Hitl_Hub\<close> (\<open>internal/hitl/hub.go\<close>: every interleaving of calls
  and deliveries), \<open>Orchestrator\<close> (\<open>orchestrator.go\<close>, \<open>workspace.go\<close>, \<open>runlog.go\<close>) and \<open>Orch_Lifecycle\<close>, which joins them:
  startup, the life of a task and what it leaves behind.

  \<^bold>\<open>Skills\<close> (\<open>pkg/skill.go\<close>, \<open>internal/skill\<close>). \<open>Skill_Registry\<close> holds the registry and the helpers that cut a query. The skills
  with an algorithm of their own: \<open>Ignore_Matcher\<close> (glob patterns, equal to their recursive meaning), \<open>Common_Subsequences\<close>,
  \<open>Common_Substrings\<close>, \<open>Skill_Diff\<close> and \<open>Skill_Strings\<close> (tables of dynamic programming, equal to their specifications),
  \<open>Skill_Sequences\<close> (the sieve finds the primes), \<open>Skill_Barcodes\<close> (check digits find a wrong digit), \<open>Skill_Network\<close> (addresses as
  words; merging of blocks keeps the addresses) and \<open>Cron_Skill\<close> (the announced minute fires and no earlier one does).

  \<^bold>\<open>Effects.\<close> What the code does outside itself (a model, a tool, the operator, the clock, the disk, SQLite, JSON and
  regular expressions) is an argument of the definitions, usually a function that takes and returns a world. Goroutines
  are step relations where their interleaving matters and a list of results otherwise. Every error return and panic is
  a constructor of an error type or a branch. Integers are unbounded \<open>int\<close> or \<open>nat\<close> where the code cannot reach their limits, and
  machine words or an explicit wrap-around where it can.

  \<^bold>\<open>Bounds and fuel.\<close> Loops recurse on what the code counts: the rounds of ReAct and thinking on \<open>MaxIterations\<close> and
  \<open>max_thought_transitions\<close>, the capped sequences on their numbers of terms, the search for a firing time on the
  minutes up to its end, the retry loop on the attempts left. The search for the repository root climbs at most as many directories as
  its path has; the relevance loop that may run for ever is a \<open>partial_function\<close>, and it is shown to return on the words of a
  query. The theorems on termination show that the caps are reached or not needed.

  \<^bold>\<open>Properties.\<close> The numbered properties stand in the theories of their components: safety of file access, approval and
  delegation; invariants of the breaker, the memories, the registries and the running sub-tasks and processes; functional
  correctness of dispatcher, retry loop, patches and search; equivalence of the calculator, the glob matcher and the
  merging of blocks with their specifications; refinement of concurrent dispatch and of cached routing; termination and
  bounds of the loops; round trips of the block extractor, of echoed tool calls and of chunked reads; and the faults that
  modelling showed, stated as theorems about what the code does.

  \<^bold>\<open>Not modelled.\<close> Generated code and transport (\<open>agentpb\<close>, \<open>agentgrpc\<close>, \<open>hitl/pb\<close>, the dashboard's HTTP handlers, the chat
  service's client and its rendering), tracing and metrics, hardware and platform probing, command-line mains and the web
  front end: input, output and pure data around the core. Tools that only call out (web, browser, language servers,
  spreadsheets, documents) appear as the tool parameter of the strategies. The remaining skills are tables, wrappers around
  functions of the library, or independent conversions and formulas in floating point that no other part uses. The
  manifest lists each of these parts with the reason.
\<close>

end
